(* ===== verification/Mira_Prelude.thy ===== *)
theory Mira_Prelude
  imports Main "HOL-Library.Word" "HOL-Library.Char_ord" "HOL-Library.List_Lexorder"
    "HOL-Library.Multiset"
begin

text \<open>
  The prelude of the development: the integer widths of the C++ code, results
  (\<open>Result<T>\<close> of \<open>include/mira/core_contracts.hpp\<close> is a sum whose left
  side is the error), loops that stop at the first error, the model of
  \<open>std::map\<close> (a strictly sorted association list), the bounded FIFO window
  that the change ring and the temporal histories share, and the generic
  interfaces (codec, transition table, ordered map, bounded log) that the
  component theories interpret on their own definitions.

  \<open>std::string\<close> is \<^typ>\<open>string\<close>, one \<^typ>\<open>char\<close> per byte; \<open>operator<\<close> on
  strings compares unsigned bytes lexicographically, which is the order that
  \<open>Char_ord\<close> and \<open>List_Lexorder\<close> put on \<^typ>\<open>string\<close>. \<open>std::size_t\<close> counts of
  objects in memory are \<^typ>\<open>nat\<close>.
\<close>

unbundle bit_operations_syntax

type_synonym u8 = "8 word"
type_synonym u16 = "16 word"
type_synonym u32 = "32 word"
type_synonym u64 = "64 word"

named_theorems result_simps \<open>inversion rules for results\<close>
named_theorems loop_rules \<open>invariant rules for loops that stop at an error\<close>

section \<open>Results and loops over results\<close>

text \<open>\<open>res_bind\<close> is the early return \<open>if (!r) return r.error();\<close>.\<close>

definition res_bind :: "'e + 'a \<Rightarrow> ('a \<Rightarrow> 'e + 'b) \<Rightarrow> 'e + 'b" where
  "res_bind r k = (case r of Inl e \<Rightarrow> Inl e | Inr x \<Rightarrow> k x)"

text \<open>A loop that updates a state and returns at the first error.\<close>

fun fold_res :: "('s \<Rightarrow> 'x \<Rightarrow> 'e + 's) \<Rightarrow> 's \<Rightarrow> 'x list \<Rightarrow> 'e + 's" where
  "fold_res f s [] = Inr s"
| "fold_res f s (x # xs) = res_bind (f s x) (\<lambda>t. fold_res f t xs)"

text \<open>A loop that only checks, and returns the first error.\<close>

fun check_all :: "('x \<Rightarrow> 'e + unit) \<Rightarrow> 'x list \<Rightarrow> 'e + unit" where
  "check_all f [] = Inr ()"
| "check_all f (x # xs) = res_bind (f x) (\<lambda>_. check_all f xs)"

text \<open>A loop that converts every element and returns at the first error.\<close>

fun map_res :: "('x \<Rightarrow> 'e + 'y) \<Rightarrow> 'x list \<Rightarrow> 'e + 'y list" where
  "map_res f [] = Inr []"
| "map_res f (x # xs) = res_bind (f x) (\<lambda>y. res_bind (map_res f xs) (\<lambda>ys. Inr (y # ys)))"

lemma res_bind_simps [simp]:
  "res_bind (Inl e) k = Inl e"
  "res_bind (Inr x) k = k x"
  by (simp_all add: res_bind_def)

lemma res_bind_Inr_iff [result_simps]:
  "res_bind r k = Inr y \<longleftrightarrow> (\<exists>x. r = Inr x \<and> k x = Inr y)"
  by (cases r) auto

lemma res_bind_Inl_iff [result_simps]:
  "res_bind r k = Inl e \<longleftrightarrow> r = Inl e \<or> (\<exists>x. r = Inr x \<and> k x = Inl e)"
  by (cases r) auto

lemma res_bind_assoc: "res_bind (res_bind r k) l = res_bind r (\<lambda>x. res_bind (k x) l)"
  by (cases r) simp_all

lemma fold_res_append:
  "fold_res f s (xs @ ys) = res_bind (fold_res f s xs) (\<lambda>t. fold_res f t ys)"
  by (induction xs arbitrary: s) (simp_all add: res_bind_assoc)

lemma fold_res_invariant [loop_rules]:
  assumes "fold_res f s xs = Inr t" and "P s"
    and "\<And>u x v. P u \<Longrightarrow> x \<in> set xs \<Longrightarrow> f u x = Inr v \<Longrightarrow> P v"
  shows "P t"
  using assms
proof (induction xs arbitrary: s)
  case Nil
  then show ?case by simp
next
  case (Cons x xs)
  from Cons.prems(1) obtain u where u: "f s x = Inr u" "fold_res f u xs = Inr t"
    by (auto simp: result_simps)
  have "P u" using Cons.prems(2) u(1) by (rule Cons.prems(3) [OF _ list.set_intros(1)])
  with u(2) show ?case
    by (rule Cons.IH) (rule Cons.prems(3) [OF _ list.set_intros(2)])
qed

lemma check_all_Inr_iff [result_simps]:
  "check_all f xs = Inr u \<longleftrightarrow> (\<forall>x\<in>set xs. f x = Inr ())"
  by (induction xs) (auto simp: result_simps)

lemma check_all_Inl_ex: "check_all f xs = Inl e \<Longrightarrow> \<exists>x\<in>set xs. f x = Inl e"
  by (induction xs) (auto simp: result_simps)

lemma map_res_length: "map_res f xs = Inr ys \<Longrightarrow> length ys = length xs"
  by (induction xs arbitrary: ys) (auto simp: result_simps)

lemma map_res_map:
  "(\<And>x. x \<in> set xs \<Longrightarrow> f (g x) = Inr x) \<Longrightarrow> map_res f (map g xs) = Inr xs"
  by (induction xs) simp_all

section \<open>Ordered maps: \<open>std::map\<close>\<close>

text \<open>
  A \<open>std::map<K,V>\<close> is the list of its pairs in key order. \<open>omap_find\<close> is
  \<open>find\<close>, \<open>omap_set\<close> is \<open>m[k] = v\<close>, \<open>omap_emplace\<close> is \<open>emplace\<close> (an existing key
  keeps its value), \<open>omap_erase\<close> is \<open>erase\<close>.
\<close>

type_synonym ('k, 'v) omap = "('k \<times> 'v) list"

definition omap_ok :: "('k::linorder, 'v) omap \<Rightarrow> bool" where
  "omap_ok m \<longleftrightarrow> sorted_wrt (<) (map fst m)"

abbreviation omap_find :: "('k, 'v) omap \<Rightarrow> 'k \<Rightarrow> 'v option" where
  "omap_find \<equiv> map_of"

fun omap_set :: "'k::linorder \<Rightarrow> 'v \<Rightarrow> ('k, 'v) omap \<Rightarrow> ('k, 'v) omap" where
  "omap_set k v [] = [(k, v)]"
| "omap_set k v ((k', v') # m) =
     (if k < k' then (k, v) # (k', v') # m
      else if k = k' then (k, v) # m
      else (k', v') # omap_set k v m)"

definition omap_emplace :: "'k::linorder \<Rightarrow> 'v \<Rightarrow> ('k, 'v) omap \<Rightarrow> ('k, 'v) omap" where
  "omap_emplace k v m = (case omap_find m k of None \<Rightarrow> omap_set k v m | Some _ \<Rightarrow> m)"

fun omap_erase :: "'k \<Rightarrow> ('k, 'v) omap \<Rightarrow> ('k, 'v) omap" where
  "omap_erase k [] = []"
| "omap_erase k ((k', v') # m) = (if k = k' then m else (k', v') # omap_erase k m)"

lemma omap_ok_Nil [simp]: "omap_ok []"
  by (simp add: omap_ok_def)

lemma omap_ok_Cons: "omap_ok ((k, v) # m) \<longleftrightarrow> (\<forall>k'\<in>fst ` set m. k < k') \<and> omap_ok m"
  by (auto simp: omap_ok_def)

lemma omap_find_set [simp]: "omap_find (omap_set k v m) = (omap_find m)(k \<mapsto> v)"
  by (induction k v m rule: omap_set.induct) (auto simp: fun_eq_iff)

lemma keys_omap_set: "fst ` set (omap_set k v m) = insert k (fst ` set m)"
  by (induction k v m rule: omap_set.induct) auto

lemma omap_ok_set [simp, intro]: "omap_ok m \<Longrightarrow> omap_ok (omap_set k v m)"
  by (induction k v m rule: omap_set.induct) (fastforce simp: omap_ok_Cons keys_omap_set)+

lemma omap_ok_emplace [simp, intro]: "omap_ok m \<Longrightarrow> omap_ok (omap_emplace k v m)"
  by (simp add: omap_emplace_def split: option.splits)

lemma omap_find_emplace:
  "omap_find (omap_emplace k v m) = (case omap_find m k of None \<Rightarrow> (omap_find m)(k \<mapsto> v)
     | Some _ \<Rightarrow> omap_find m)"
  by (simp add: omap_emplace_def split: option.splits)

lemma set_omap_erase: "set (omap_erase k m) \<subseteq> set m"
  by (induction k m rule: omap_erase.induct) auto

lemma omap_ok_erase [simp, intro]: "omap_ok m \<Longrightarrow> omap_ok (omap_erase k m)"
  using set_omap_erase by (induction k m rule: omap_erase.induct) (fastforce simp: omap_ok_Cons)+

lemma omap_ok_distinct: "omap_ok m \<Longrightarrow> distinct (map fst m)"
  by (induction m) (force simp: omap_ok_Cons)+

lemma omap_find_erase:
  assumes "omap_ok m"
  shows "omap_find (omap_erase k m) = (omap_find m)(k := None)"
  using assms
proof (induction k m rule: omap_erase.induct)
  case (2 k k' v' m)
  then have "omap_find m k' = None"
    by (metis map_of_eq_None_iff less_irrefl omap_ok_Cons)
  with 2 show ?case by (auto simp: fun_eq_iff omap_ok_Cons)
qed simp

lemma omap_find_in_set: "omap_ok m \<Longrightarrow> omap_find m k = Some v \<longleftrightarrow> (k, v) \<in> set m"
  by (simp add: omap_ok_distinct)

lemma length_omap_set:
  "length (omap_set k v m) = (if k \<in> fst ` set m then length m else Suc (length m))"
  if "omap_ok m"
  using that by (induction k v m rule: omap_set.induct) (auto simp: omap_ok_Cons)

lemma set_omap_set:
  "omap_ok m \<Longrightarrow> set (omap_set k v m) = insert (k, v) {p \<in> set m. fst p \<noteq> k}"
  by (induction k v m rule: omap_set.induct) (auto simp: omap_ok_Cons)

text \<open>Two ordered maps with the same lookups are the same list, so the order in
  which a C++ loop visits a map depends only on its contents.\<close>

lemma omap_ext:
  assumes "omap_ok m" "omap_ok n" "omap_find m = omap_find n"
  shows "m = n"
  using assms
proof (induction m arbitrary: n)
  case Nil
  then have "omap_find n (fst (hd n)) = None" by (metis map_of.simps(1))
  then show ?case by (cases n) auto
next
  case (Cons p m)
  obtain k v where p: "p = (k, v)" by force
  have "omap_find n k = Some v" using fun_cong [OF Cons.prems(3), of k] p by simp
  then obtain k' v' n' where n: "n = (k', v') # n'" by (cases n) auto
  have lt: "\<forall>x\<in>fst ` set m. k < x" "\<forall>x\<in>fst ` set n'. k' < x" "omap_ok m" "omap_ok n'"
    using Cons.prems(1,2) p n by (auto simp: omap_ok_Cons)
  have dom: "insert k (fst ` set m) = insert k' (fst ` set n')"
    using arg_cong [OF Cons.prems(3), of dom] unfolding dom_map_of_conv_image_fst p n by simp
  have kk: "k = k'"
    using dom lt(1,2) by (metis insertE insertI1 order_less_asym)
  have vv: "v = v'"
    using fun_cong [OF Cons.prems(3), of k] p n kk by simp
  have none: "omap_find m k = None" "omap_find n' k = None"
    using lt(1,2) kk by (auto simp: map_of_eq_None_iff)
  have "omap_find m = omap_find n'"
  proof
    fix x show "omap_find m x = omap_find n' x"
      using fun_cong [OF Cons.prems(3), of x] none unfolding p n kk by (simp split: if_splits)
  qed
  then have "m = n'" by (rule Cons.IH [OF lt(3,4)])
  then show ?case by (simp add: p n kk vv)
qed

text \<open>The interface that the policy runtime relies on: what a lookup returns after
  an update, and that iteration visits strictly increasing keys.\<close>

locale ordered_map =
  fixes lookup :: "'m \<Rightarrow> 'k::linorder \<Rightarrow> 'v option"
    and update :: "'k \<Rightarrow> 'v \<Rightarrow> 'm \<Rightarrow> 'm"
    and entries :: "'m \<Rightarrow> ('k \<times> 'v) list"
    and invar :: "'m \<Rightarrow> bool"
  assumes lookup_update: "invar m \<Longrightarrow> lookup (update k v m) = (lookup m)(k \<mapsto> v)"
    and invar_update: "invar m \<Longrightarrow> invar (update k v m)"
    and lookup_entries: "invar m \<Longrightarrow> lookup m = map_of (entries m)"
    and entries_sorted: "invar m \<Longrightarrow> sorted_wrt (<) (map fst (entries m))"
begin

lemma update_same_twice:
  assumes "invar m"
  shows "entries (update k w (update k v m)) = entries (update k w m)"
proof -
  have "omap_ok (entries (update k w (update k v m)))" "omap_ok (entries (update k w m))"
    using assms by (simp_all add: omap_ok_def entries_sorted invar_update)
  moreover have "omap_find (entries (update k w (update k v m))) = omap_find (entries (update k w m))"
    using assms lookup_entries lookup_update invar_update by (metis fun_upd_upd)
  ultimately show ?thesis by (rule omap_ext)
qed

lemma fold_update_lookup:
  assumes "invar m"
  shows "lookup (fold (\<lambda>k. update k (f k)) ks m) =
    (\<lambda>x. if x \<in> set ks then Some (f x) else lookup m x)"
  using assms by (induction ks arbitrary: m) (auto simp: lookup_update invar_update fun_eq_iff)

lemma fold_update_invar: "invar m \<Longrightarrow> invar (fold (\<lambda>k. update k (f k)) ks m)"
  by (induction ks arbitrary: m) (auto simp: invar_update)

end

interpretation om: ordered_map omap_find omap_set "\<lambda>m. m" omap_ok
  by unfold_locales (simp_all add: omap_ok_def [symmetric])

section \<open>Unordered maps: \<open>std::unordered_map\<close>\<close>

text \<open>
  The list of the pairs in the container's iteration order (the standard leaves the
  order open; the model appends new keys). \<open>umap_modify\<close> is an assignment through
  \<open>found->second\<close>, \<open>umap_emplace\<close> is \<open>emplace\<close>, and a loop over the container is
  \<open>umap_each\<close>.
\<close>

type_synonym ('k, 'v) umap = "('k \<times> 'v) list"

definition umap_modify :: "'k \<Rightarrow> ('v \<Rightarrow> 'v) \<Rightarrow> ('k, 'v) umap \<Rightarrow> ('k, 'v) umap" where
  "umap_modify k f m = map (\<lambda>(k', v). (k', if k' = k then f v else v)) m"

definition umap_emplace :: "'k \<Rightarrow> 'v \<Rightarrow> ('k, 'v) umap \<Rightarrow> ('k, 'v) umap" where
  "umap_emplace k v m = (case map_of m k of None \<Rightarrow> m @ [(k, v)] | Some _ \<Rightarrow> m)"

definition umap_each :: "('k \<Rightarrow> 'v \<Rightarrow> 'v) \<Rightarrow> ('k, 'v) umap \<Rightarrow> ('k, 'v) umap" where
  "umap_each f m = map (\<lambda>(k, v). (k, f k v)) m"

lemma umap_find_each [simp]: "map_of (umap_each f m) k = map_option (f k) (map_of m k)"
  by (induction m) (auto simp: umap_each_def)

lemma umap_find_modify [simp]:
  "map_of (umap_modify k f m) k' = (if k' = k then map_option f (map_of m k) else map_of m k')"
  by (induction m) (auto simp: umap_modify_def)

lemma umap_find_emplace [simp]:
  "map_of (umap_emplace k v m) k' =
     (if k' = k \<and> map_of m k = None then Some v else map_of m k')"
  by (auto simp: umap_emplace_def map_add_def split: option.splits)

lemma umap_keys [simp]:
  "map fst (umap_each f m) = map fst m"
  "map fst (umap_modify k g m) = map fst m"
  by (simp_all add: umap_each_def umap_modify_def case_prod_unfold comp_def)

lemma umap_distinct_emplace [simp]:
  "distinct (map fst m) \<Longrightarrow> distinct (map fst (umap_emplace k v m))"
  by (auto simp: umap_emplace_def map_of_eq_None_iff image_iff split: option.splits)

section \<open>Bounded logs\<close>

text \<open>\<open>last_n n xs\<close> is the window of the newest \<open>n\<close> entries.\<close>

definition last_n :: "nat \<Rightarrow> 'a list \<Rightarrow> 'a list" where
  "last_n n xs = drop (length xs - n) xs"

lemma length_last_n [simp]: "length (last_n n xs) = min n (length xs)"
  by (simp add: last_n_def)

lemma set_last_n: "set (last_n n xs) \<subseteq> set xs"
  by (simp add: last_n_def set_drop_subset)

lemma last_n_idem_append: "last_n n (last_n n xs @ ys) = last_n n (xs @ ys)"
proof (cases "length xs \<le> n")
  case False
  then show ?thesis
    by (simp add: last_n_def add.commute)
qed (simp add: last_n_def)

lemma sorted_wrt_last_n: "sorted_wrt P xs \<Longrightarrow> sorted_wrt P (last_n n xs)"
  by (simp add: last_n_def sorted_wrt_drop)

text \<open>The contract of a bounded FIFO log: pushing keeps the newest \<open>cap\<close> entries.\<close>

locale bounded_log =
  fixes push :: "'e \<Rightarrow> 'e list \<Rightarrow> 'e list"
    and cap :: nat
  assumes cap_pos: "0 < cap"
    and push_window: "length xs \<le> cap \<Longrightarrow> push x xs = last_n cap (xs @ [x])"
begin

lemma push_bounded: "length xs \<le> cap \<Longrightarrow> length (push x xs) \<le> cap"
  by (simp add: push_window)

lemma push_last: "length xs \<le> cap \<Longrightarrow> push x xs \<noteq> [] \<and> last (push x xs) = x"
  using cap_pos by (simp add: push_window last_n_def)

lemma push_set: "length xs \<le> cap \<Longrightarrow> set (push x xs) \<subseteq> insert x (set xs)"
  using set_last_n [of cap "xs @ [x]"] by (auto simp: push_window)

lemma push_sorted:
  assumes "length xs \<le> cap" "sorted_wrt P xs" "\<forall>y\<in>set xs. P y x"
  shows "sorted_wrt P (push x xs)"
  using assms by (simp add: push_window sorted_wrt_last_n sorted_wrt_append)

lemma fold_push: "length xs \<le> cap \<Longrightarrow> fold push es xs = last_n cap (xs @ es)"
proof (induction es arbitrary: xs)
  case Nil
  then show ?case by (simp add: last_n_def)
next
  case (Cons e es)
  then have "fold push (e # es) xs = last_n cap (push e xs @ es)"
    by (simp add: push_bounded)
  also have "\<dots> = last_n cap (xs @ e # es)"
    using Cons.prems by (simp add: push_window last_n_idem_append)
  finally show ?case .
qed

end

section \<open>Codecs and transition tables\<close>

text \<open>An encoder and a decoder that inverts it on the encodable values.\<close>

locale codec =
  fixes enc :: "'a \<Rightarrow> 'b" and dec :: "'b \<Rightarrow> 'a option" and ok :: "'a \<Rightarrow> bool"
  assumes dec_enc: "ok x \<Longrightarrow> dec (enc x) = Some x"
begin

lemma enc_inject: "ok x \<Longrightarrow> ok y \<Longrightarrow> enc x = enc y \<longleftrightarrow> x = y"
  by (metis dec_enc option.inject)

end

text \<open>A table of allowed transitions whose terminal states are absorbing.\<close>

locale transition_table =
  fixes valid :: "'s \<Rightarrow> 's \<Rightarrow> bool" and terminal :: "'s \<Rightarrow> bool"
  assumes terminal_absorbing: "terminal s \<Longrightarrow> valid s t \<Longrightarrow> t = s"
begin

lemma terminal_path: "valid\<^sup>*\<^sup>* s t \<Longrightarrow> terminal s \<Longrightarrow> t = s"
  by (induction rule: converse_rtranclp_induct) (auto dest: terminal_absorbing)

lemma path_terminal_unique:
  "valid\<^sup>*\<^sup>* s t \<Longrightarrow> valid\<^sup>*\<^sup>* t u \<Longrightarrow> terminal t \<Longrightarrow> valid\<^sup>*\<^sup>* s u \<and> u = t"
  using terminal_path by auto

end

text \<open>A transition system with an invariant and a preorder that every step respects.\<close>

locale step_system =
  fixes step :: "'s \<Rightarrow> 's \<Rightarrow> bool" and start :: "'s \<Rightarrow> bool"
    and invariant :: "'s \<Rightarrow> bool" and progress :: "'s \<Rightarrow> 's \<Rightarrow> bool"
  assumes start_invariant: "start s \<Longrightarrow> invariant s"
    and step_invariant: "step s t \<Longrightarrow> invariant s \<Longrightarrow> invariant t"
    and step_progress: "step s t \<Longrightarrow> invariant s \<Longrightarrow> progress s t"
    and progress_refl: "progress s s"
    and progress_trans: "progress s t \<Longrightarrow> progress t u \<Longrightarrow> progress s u"
begin

lemma steps_invariant: "step\<^sup>*\<^sup>* s t \<Longrightarrow> invariant s \<Longrightarrow> invariant t"
  by (induction rule: rtranclp_induct) (auto intro: step_invariant)

lemma steps_progress: "step\<^sup>*\<^sup>* s t \<Longrightarrow> invariant s \<Longrightarrow> progress s t"
  by (induction rule: rtranclp_induct)
    (auto intro: progress_refl progress_trans step_progress steps_invariant)

lemma reachable_invariant: "start s \<Longrightarrow> step\<^sup>*\<^sup>* s t \<Longrightarrow> invariant t"
  using start_invariant steps_invariant by blast

end

section \<open>Enumerations with names\<close>

text \<open>\<open>names[static_cast<std::size_t>(value)]\<close> through the enumerators in order.\<close>

definition nth_name :: "'e list \<Rightarrow> string list \<Rightarrow> 'e \<Rightarrow> string" where
  "nth_name enumerators names v = (case map_of (zip enumerators names) v of None \<Rightarrow> '''' | Some n \<Rightarrow> n)"

text \<open>The search of a name array for the enumerator with a name.\<close>

definition enumerator :: "'e list \<Rightarrow> string list \<Rightarrow> string \<Rightarrow> 'e option" where
  "enumerator enumerators names s = map_of (zip names enumerators) s"

lemma enumerator_nth_name:
  assumes "length es = length ns" "distinct es" "distinct ns" "e \<in> set es"
  shows "enumerator es ns (nth_name es ns e) = Some e"
proof -
  obtain i where i: "i < length es" "e = es ! i" using assms(4) by (auto simp: in_set_conv_nth)
  have "map_of (zip es ns) e = Some (ns ! i)" "map_of (zip ns es) (ns ! i) = Some e"
    using assms i by (auto intro!: map_of_is_SomeI simp: in_set_conv_nth)
  then show ?thesis by (simp add: enumerator_def nth_name_def)
qed

section \<open>Small helpers\<close>

lemma unat_u8_less [simp]: "unat b < 256" for b :: u8
  using unsigned_less [of b] by simp

lemma unat_u64_succ: "n \<noteq> - 1 \<Longrightarrow> unat (n + 1) = Suc (unat n)" for n :: u64
  by (simp add: add.commute add_eq_0_iff unatSuc)

lemma u64_succ_less: "n \<noteq> - 1 \<Longrightarrow> n < n + 1" for n :: u64
  by (simp add: word_less_nat_alt unat_u64_succ)

lemma sorted_wrt_map_update:
  "sorted_wrt P (map f xs) \<Longrightarrow> f y = f (xs ! i) \<Longrightarrow> sorted_wrt P (map f (xs[i := y]))"
  by (metis list_update_id map_update)

end
