(* ===== verification/Ascii_Text.thy ===== *)
theory Ascii_Text
  imports Mira_Prelude "HOL-Library.Sublist"
begin

text \<open>
  The deterministic ASCII primitives of \<open>src/support/ascii_text.hpp\<close> and the marker
  lists of \<open>src/support/content_markers.cpp\<close>, which the content policies scan for.
\<close>

definition to_lower_char :: "char \<Rightarrow> char" where
  "to_lower_char c =
     (if CHR ''A'' \<le> c \<and> c \<le> CHR ''Z''
      then char_of ((of_char c - of_char CHR ''A'' + of_char CHR ''a'') :: nat) else c)"

definition to_lower_ascii :: "string \<Rightarrow> string" where
  "to_lower_ascii text = map to_lower_char text"

text \<open>\<open>haystack.find(needle) != npos\<close>: some position starts with the needle.\<close>

fun find_sub :: "string \<Rightarrow> string \<Rightarrow> bool" where
  "find_sub needle [] = (needle = [])"
| "find_sub needle (c # cs) = (take (length needle) (c # cs) = needle \<or> find_sub needle cs)"

fun carries_marker_in :: "string \<Rightarrow> string list \<Rightarrow> bool" where
  "carries_marker_in lowered [] = False"
| "carries_marker_in lowered (marker # markers) =
     (if marker \<noteq> [] \<and> find_sub (to_lower_ascii marker) lowered then True
      else carries_marker_in lowered markers)"

definition carries_marker :: "string \<Rightarrow> string list \<Rightarrow> bool" where
  "carries_marker text markers = carries_marker_in (to_lower_ascii text) markers"

definition default_forbidden_content_markers :: "string list" where
  "default_forbidden_content_markers =
     [''api_key'', ''apikey'', ''authorization:'', ''bearer '', ''password='', ''secret='']"

definition default_injection_content_markers :: "string list" where
  "default_injection_content_markers =
     [''ignore previous'', ''disregard previous'', ''you are now'',
      ''system:'', ''new instructions:'', ''override policy'']"

lemma to_lower_char_idem [simp]: "to_lower_char (to_lower_char c) = to_lower_char c"
proof -
  have "\<forall>c. to_lower_char (to_lower_char c) = to_lower_char c" by code_simp
  then show ?thesis by blast
qed

lemma to_lower_ascii_simps [simp]:
  "to_lower_ascii [] = []"
  "to_lower_ascii (c # cs) = to_lower_char c # to_lower_ascii cs"
  "to_lower_ascii (xs @ ys) = to_lower_ascii xs @ to_lower_ascii ys"
  "length (to_lower_ascii xs) = length xs"
  "to_lower_ascii (to_lower_ascii xs) = to_lower_ascii xs"
  by (simp_all add: to_lower_ascii_def)

lemma find_sub_iff: "find_sub needle hay \<longleftrightarrow> sublist needle hay"
proof (induction hay)
  case (Cons c cs)
  have "take (length needle) (c # cs) = needle \<longleftrightarrow> prefix needle (c # cs)"
    by (metis append_eq_conv_conj prefix_def take_is_prefix)
  then show ?case using Cons by (simp add: sublist_Cons_right)
qed simp

lemma carries_marker_in_iff:
  "carries_marker_in lowered markers \<longleftrightarrow>
     (\<exists>m\<in>set markers. m \<noteq> [] \<and> sublist (to_lower_ascii m) lowered)"
  by (induction markers) (auto simp: find_sub_iff)

text \<open>Scanning is monotone: text around a match, or more markers, never hides it.\<close>

lemma carries_marker_mono:
  assumes "carries_marker text markers" "set markers \<subseteq> set markers'"
  shows "carries_marker (before @ text @ after) markers'"
  using assms unfolding carries_marker_def carries_marker_in_iff
  by (fastforce intro: sublist_appendI sublist_append_leftI sublist_append_rightI
      sublist_order.order.trans)

end
