(* ===== verification/Core_Contracts.thy ===== *)
theory Core_Contracts
  imports Ascii_Text
begin

text \<open>
  The shared contracts of \<open>include/mira/core_contracts.hpp\<close> and the name table of
  \<open>src/support/task_state.cpp\<close>: 128-bit identifiers with their hexadecimal form and
  order, timestamps, schema versions, the error value, the lifecycle enumerations of
  runtime, session and task with their transition tables, and the command records
  of the control plane. Enumerations keep the C++ names and are written qualified
  (\<open>TaskState.Idle\<close>), as in the source.
\<close>

section \<open>128-bit identifiers\<close>

datatype Id128 = Id128 (id_bytes: "u8 list")

text \<open>\<open>std::array<std::uint8_t, 16>\<close>: a well-formed identifier has sixteen bytes.\<close>

definition id128_ok :: "Id128 \<Rightarrow> bool" where
  "id128_ok i \<longleftrightarrow> length (id_bytes i) = 16"

definition id128_nil :: Id128 where
  "id128_nil = Id128 (replicate 16 0)"

definition is_nil :: "Id128 \<Rightarrow> bool" where
  "is_nil i \<longleftrightarrow> id_bytes i = replicate 16 0"

definition hex_value :: "char \<Rightarrow> u8 option" where
  "hex_value c =
     (if CHR ''0'' \<le> c \<and> c \<le> CHR ''9'' then Some (of_nat (of_char c - of_char CHR ''0''))
      else if CHR ''a'' \<le> c \<and> c \<le> CHR ''f''
        then Some (of_nat (of_char c - of_char CHR ''a'' + 10))
      else if CHR ''A'' \<le> c \<and> c \<le> CHR ''F''
        then Some (of_nat (of_char c - of_char CHR ''A'' + 10))
      else None)"

fun parse_hex_bytes :: "string \<Rightarrow> u8 list option" where
  "parse_hex_bytes (h # l # rest) =
     (case (hex_value h, hex_value l) of
        (Some high, Some low) \<Rightarrow>
          map_option (\<lambda>bs. (push_bit 4 high OR low) # bs) (parse_hex_bytes rest)
      | _ \<Rightarrow> None)"
| "parse_hex_bytes _ = Some []"

definition id128_parse :: "string \<Rightarrow> Id128 option" where
  "id128_parse text =
     (if length text \<noteq> 32 then None else map_option Id128 (parse_hex_bytes text))"

definition hex_char :: "nat \<Rightarrow> char" where
  "hex_char n = ''0123456789abcdef'' ! n"

definition hex_byte :: "u8 \<Rightarrow> string" where
  "hex_byte b = [hex_char (unat b div 16), hex_char (unat b mod 16)]"

definition hex_bytes :: "u8 list \<Rightarrow> string" where
  "hex_bytes bs = concat (map hex_byte bs)"

definition id128_to_string :: "Id128 \<Rightarrow> string" where
  "id128_to_string i = hex_bytes (id_bytes i)"

text \<open>\<open>Id128::generate\<close>, with the four draws from \<open>std::random_device\<close> as its
  argument; bytes 6 and 8 are overwritten with the version and variant bits.\<close>

definition id128_generate :: "u32 \<Rightarrow> u32 \<Rightarrow> u32 \<Rightarrow> u32 \<Rightarrow> Id128" where
  "id128_generate v0 v1 v2 v3 =
     (let draw = (\<lambda>v. map (\<lambda>k. ucast (drop_bit (k * 8) v) :: u8) [0, 1, 2, 3]);
          bytes = draw v0 @ draw v1 @ draw v2 @ draw v3;
          bytes = bytes[6 := (bytes ! 6 AND 0x0F) OR 0x40];
          bytes = bytes[8 := (bytes ! 8 AND 0x3F) OR 0x80]
      in Id128 bytes)"

datatype strong_ordering = Less | Equal | Greater

fun compare_bytes :: "u8 list \<Rightarrow> u8 list \<Rightarrow> strong_ordering" where
  "compare_bytes (x # xs) (y # ys) =
     (if x < y then Less else if x > y then Greater else compare_bytes xs ys)"
| "compare_bytes _ _ = Equal"

definition id128_compare :: "Id128 \<Rightarrow> Id128 \<Rightarrow> strong_ordering" where
  "id128_compare l r = compare_bytes (id_bytes l) (id_bytes r)"

definition id128_hash :: "Id128 \<Rightarrow> u64" where
  "id128_hash i =
     fold (\<lambda>b result. (result XOR ucast b) * 1099511628211) (id_bytes i) 1469598103934665603"

type_synonym RuntimeId = Id128
type_synonym SessionId = Id128
type_synonym TaskId = Id128
type_synonym CommandId = Id128
type_synonym StepId = Id128
type_synonym OperationId = Id128
type_synonym ObservationId = Id128
type_synonym CoordinateSpaceId = Id128
type_synonym EventId = Id128
type_synonym ArtifactId = Id128

section \<open>Time, schema versions and errors\<close>

text \<open>Nanoseconds since the epoch of each clock.\<close>

record Timestamp =
  ts_wall :: int
  ts_monotonic :: int

definition timestamp_default :: Timestamp where
  "timestamp_default = \<lparr>ts_wall = 0, ts_monotonic = 0\<rparr>"

record SchemaVersion =
  sv_major :: u16
  sv_minor :: u16

datatype ErrorCode =
    Cancelled | DeadlineExceeded | ResourceExhausted | Unavailable | PermissionDenied
  | InvalidArgument | InvalidState | NotFound | AlreadyExists | UnsupportedCapability
  | UnsupportedVersion | InvalidObservation | StaleObservation | InvalidModelOutput
  | ContextOverflow | SafetyRejected | ConfirmationRequired | ExecutionUncertain
  | DataLoss | PlatformError | Internal

record Error =
  err_code :: ErrorCode
  err_domain :: string
  err_domain_code :: int
  err_retryable :: bool
  err_safe_message :: string
  err_diagnostic_artifact :: "ArtifactId option"
  err_operation_id :: "OperationId option"

type_synonym 'a Result = "Error + 'a"

definition error_default :: Error where
  "error_default = \<lparr>err_code = ErrorCode.Internal, err_domain = ''mira'', err_domain_code = 0,
     err_retryable = False, err_safe_message = '''', err_diagnostic_artifact = None,
     err_operation_id = None\<rparr>"

definition validate_schema_version :: "SchemaVersion \<Rightarrow> SchemaVersion \<Rightarrow> unit Result" where
  "validate_schema_version incoming current =
     (let newer = sv_major incoming > sv_major current;
          older = sv_major current > sv_major incoming \<and>
                  uint (sv_major current) - uint (sv_major incoming) > 1
      in if newer \<or> older
         then Inl (error_default\<lparr>err_code := ErrorCode.UnsupportedVersion,
                err_domain := ''mira.schema'',
                err_safe_message := ''schema major is not supported''\<rparr>)
         else Inr ())"

section \<open>Lifecycle states\<close>

datatype RuntimeState = Constructed | Initializing | Running | Stopping | Quiesced | Stopped | Failed

datatype SessionState =
    Opening | Autonomous | TakeoverPending | HumanControlled | Resuming | Closing | Closed | Failed

datatype TaskState =
    Idle | Observing | Reasoning | Planning | Acting | Verifying | Recovering | Pausing | Paused
  | TakeoverSettling | SuspendedForTakeover | Cancelling | Completed | Failed | Cancelled

definition all_task_states :: "TaskState list" where
  "all_task_states =
     [TaskState.Idle, TaskState.Observing, TaskState.Reasoning, TaskState.Planning,
      TaskState.Acting, TaskState.Verifying, TaskState.Recovering, TaskState.Pausing,
      TaskState.Paused, TaskState.TakeoverSettling, TaskState.SuspendedForTakeover,
      TaskState.Cancelling, TaskState.Completed, TaskState.Failed, TaskState.Cancelled]"

definition kTaskStateNames :: "(TaskState \<times> string) list" where
  "kTaskStateNames =
     [(TaskState.Idle, ''Idle''),
      (TaskState.Observing, ''Observing''),
      (TaskState.Reasoning, ''Reasoning''),
      (TaskState.Planning, ''Planning''),
      (TaskState.Acting, ''Acting''),
      (TaskState.Verifying, ''Verifying''),
      (TaskState.Recovering, ''Recovering''),
      (TaskState.Pausing, ''Pausing''),
      (TaskState.Paused, ''Paused''),
      (TaskState.TakeoverSettling, ''TakeoverSettling''),
      (TaskState.SuspendedForTakeover, ''SuspendedForTakeover''),
      (TaskState.Cancelling, ''Cancelling''),
      (TaskState.Completed, ''Completed''),
      (TaskState.Failed, ''Failed''),
      (TaskState.Cancelled, ''Cancelled'')]"

definition task_state_name :: "TaskState \<Rightarrow> string" where
  "task_state_name state =
     (case find (\<lambda>p. fst p = state) kTaskStateNames of Some (_, name) \<Rightarrow> name | None \<Rightarrow> ''Unknown'')"

definition task_state_from_name :: "string \<Rightarrow> TaskState option" where
  "task_state_from_name name = map_option fst (find (\<lambda>p. snd p = name) kTaskStateNames)"

definition is_terminal_task :: "TaskState \<Rightarrow> bool" where
  "is_terminal_task s \<longleftrightarrow> s = TaskState.Completed \<or> s = TaskState.Failed \<or> s = TaskState.Cancelled"

definition is_terminal_session :: "SessionState \<Rightarrow> bool" where
  "is_terminal_session s \<longleftrightarrow> s = SessionState.Closed \<or> s = SessionState.Failed"

definition is_terminal_runtime :: "RuntimeState \<Rightarrow> bool" where
  "is_terminal_runtime s \<longleftrightarrow> s = RuntimeState.Stopped \<or> s = RuntimeState.Failed"

definition valid_runtime_transition :: "RuntimeState \<Rightarrow> RuntimeState \<Rightarrow> bool" where
  "valid_runtime_transition s t =
     (if s = t \<and> (s = RuntimeState.Constructed \<or> s = RuntimeState.Stopping \<or>
          s = RuntimeState.Quiesced \<or> s = RuntimeState.Stopped \<or> s = RuntimeState.Failed)
      then True
      else case s of
        RuntimeState.Constructed \<Rightarrow> t = RuntimeState.Initializing \<or> t = RuntimeState.Stopping
      | RuntimeState.Initializing \<Rightarrow>
          t = RuntimeState.Running \<or> t = RuntimeState.Failed \<or> t = RuntimeState.Stopping
      | RuntimeState.Running \<Rightarrow> t = RuntimeState.Stopping \<or> t = RuntimeState.Failed
      | RuntimeState.Stopping \<Rightarrow> t = RuntimeState.Quiesced \<or> t = RuntimeState.Failed
      | RuntimeState.Quiesced \<Rightarrow> t = RuntimeState.Stopped
      | RuntimeState.Failed \<Rightarrow> t = RuntimeState.Stopping
      | RuntimeState.Stopped \<Rightarrow> False)"

definition valid_session_transition :: "SessionState \<Rightarrow> SessionState \<Rightarrow> bool" where
  "valid_session_transition s t =
     (if s = t \<and> (s = SessionState.Autonomous \<or> s = SessionState.HumanControlled \<or>
          s = SessionState.Closing \<or> s = SessionState.Closed \<or> s = SessionState.Failed)
      then True
      else case s of
        SessionState.Opening \<Rightarrow>
          t = SessionState.Autonomous \<or> t = SessionState.Failed \<or> t = SessionState.Closing
      | SessionState.Autonomous \<Rightarrow>
          t = SessionState.TakeoverPending \<or> t = SessionState.Closing \<or> t = SessionState.Failed
      | SessionState.TakeoverPending \<Rightarrow>
          t = SessionState.HumanControlled \<or> t = SessionState.Closing \<or> t = SessionState.Failed
      | SessionState.HumanControlled \<Rightarrow>
          t = SessionState.Resuming \<or> t = SessionState.Closing \<or> t = SessionState.Failed
      | SessionState.Resuming \<Rightarrow>
          t = SessionState.Autonomous \<or> t = SessionState.Failed \<or> t = SessionState.Closing
      | SessionState.Closing \<Rightarrow> t = SessionState.Closed \<or> t = SessionState.Failed
      | SessionState.Closed \<Rightarrow> False
      | SessionState.Failed \<Rightarrow> False)"

definition valid_task_transition :: "TaskState \<Rightarrow> TaskState \<Rightarrow> bool" where
  "valid_task_transition s t =
     (if s = t \<and> is_terminal_task s then True
      else case s of
        TaskState.Idle \<Rightarrow> t = TaskState.Observing \<or> t = TaskState.Pausing \<or>
          t = TaskState.Cancelling \<or> t = TaskState.TakeoverSettling
      | TaskState.Observing \<Rightarrow> t = TaskState.Reasoning \<or> t = TaskState.Recovering \<or>
          t = TaskState.Pausing \<or> t = TaskState.Cancelling \<or> t = TaskState.TakeoverSettling
      | TaskState.Reasoning \<Rightarrow> t = TaskState.Planning \<or> t = TaskState.Recovering \<or>
          t = TaskState.Pausing \<or> t = TaskState.Cancelling \<or> t = TaskState.TakeoverSettling
      | TaskState.Planning \<Rightarrow> t = TaskState.Acting \<or> t = TaskState.Observing \<or>
          t = TaskState.Recovering \<or> t = TaskState.Pausing \<or> t = TaskState.Cancelling \<or>
          t = TaskState.TakeoverSettling
      | TaskState.Acting \<Rightarrow> t = TaskState.Verifying \<or> t = TaskState.Recovering \<or>
          t = TaskState.Pausing \<or> t = TaskState.Cancelling \<or> t = TaskState.TakeoverSettling
      | TaskState.Verifying \<Rightarrow> t = TaskState.Observing \<or> t = TaskState.Completed \<or>
          t = TaskState.Recovering \<or> t = TaskState.Pausing \<or> t = TaskState.Cancelling \<or>
          t = TaskState.TakeoverSettling
      | TaskState.Recovering \<Rightarrow> t = TaskState.Observing \<or> t = TaskState.Failed \<or>
          t = TaskState.Pausing \<or> t = TaskState.Cancelling \<or> t = TaskState.TakeoverSettling
      | TaskState.Pausing \<Rightarrow> t = TaskState.Paused \<or> t = TaskState.Cancelling
      | TaskState.Paused \<Rightarrow> t = TaskState.Observing \<or> t = TaskState.TakeoverSettling \<or>
          t = TaskState.Cancelling
      | TaskState.TakeoverSettling \<Rightarrow> t = TaskState.SuspendedForTakeover \<or> t = TaskState.Cancelling
      | TaskState.SuspendedForTakeover \<Rightarrow> t = TaskState.Observing \<or> t = TaskState.Cancelling
      | TaskState.Cancelling \<Rightarrow> t = TaskState.Cancelled
      | TaskState.Completed \<Rightarrow> False
      | TaskState.Failed \<Rightarrow> False
      | TaskState.Cancelled \<Rightarrow> False)"

section \<open>Command records\<close>

datatype CommandKind =
    OpenSession | CloseSession | SubmitTask | PauseTask | ResumeTask | CancelTask | CompleteTask
  | RequestTakeover | ReleaseTakeover | OperationCompletion | ShutdownRuntime | BeginTaskRecovery

datatype ReceiptStatus = Accepted | Rejected
datatype SettlementStatus = Applied | NoOp | Failed | Superseded

record CommandReceipt =
  rc_id :: CommandId
  rc_kind :: CommandKind
  rc_status :: ReceiptStatus
  rc_control_sequence :: u64
  rc_error :: "Error option"

record TaskOutcome =
  to_terminal_state :: TaskState
  to_error :: "Error option"

record TaskSnapshot =
  tsn_id :: TaskId
  tsn_session_id :: SessionId
  tsn_state :: TaskState
  tsn_epoch :: u64
  tsn_environment_epoch :: u64
  tsn_active_step :: "StepId option"
  tsn_active_operation :: "OperationId option"
  tsn_completed_steps :: u32
  tsn_updated_at :: Timestamp
  tsn_control_sequence :: u64
  tsn_terminal_outcome :: "TaskOutcome option"
  tsn_user_constraints :: "string list"

record CommandOutcome =
  oc_id :: CommandId
  oc_status :: SettlementStatus
  oc_error :: "Error option"
  oc_task :: "TaskSnapshot option"

record OperationKey =
  ok_task_id :: TaskId
  ok_task_epoch :: u64
  ok_step_id :: StepId
  ok_operation_id :: OperationId

datatype OperationState = Created | Submitted | Running | CancelRequested | CompletionReceived | Settled


section \<open>Identifiers: text form and order\<close>

lemma hex_value_hex_char: "n < 16 \<Longrightarrow> hex_value (hex_char n) = Some (of_nat n)"
proof -
  have "\<forall>n\<in>set [0..<16]. hex_value (hex_char n) = Some (of_nat n)" by code_simp
  then show "n < 16 \<Longrightarrow> ?thesis" by simp
qed

lemma hex_value_Some:
  "hex_value c = Some v \<Longrightarrow> unat v < 16 \<and> hex_char (unat v) = to_lower_char c"
proof -
  have "\<forall>c. case hex_value c of None \<Rightarrow> True
    | Some v \<Rightarrow> unat v < 16 \<and> hex_char (unat v) = to_lower_char c" by code_simp
  from spec [OF this, of c] show "hex_value c = Some v \<Longrightarrow> ?thesis" by simp
qed

lemma nibbles_join: "push_bit 4 (of_nat (unat b div 16)) OR of_nat (unat b mod 16) = b" for b :: u8
proof -
  have "\<forall>n\<in>set [0..<256]. push_bit 4 (of_nat (n div 16)) OR of_nat (n mod 16) = (of_nat n :: u8)"
    by code_simp
  from bspec [OF this, of "unat b"] show ?thesis by simp
qed

lemma nibbles_split:
  assumes "unat h < 16" "unat l < 16"
  shows "hex_byte (push_bit 4 h OR l) = [hex_char (unat h), hex_char (unat l)]"
proof -
  have "\<forall>i\<in>set [0..<16]. \<forall>j\<in>set [0..<16].
     hex_byte (push_bit 4 (of_nat i) OR of_nat j) = [hex_char i, hex_char j]" by code_simp
  from bspec [OF bspec [OF this, of "unat h"], of "unat l"] assms show ?thesis by simp
qed

lemma hex_bytes_simps [simp]:
  "hex_bytes [] = []"
  "hex_bytes (b # bs) = hex_byte b @ hex_bytes bs"
  by (simp_all add: hex_bytes_def)

lemma parse_hex_bytes_hex_bytes [simp]: "parse_hex_bytes (hex_bytes bs) = Some bs"
proof (induction bs)
  case (Cons b bs)
  have "unat b div 16 < 16" by (simp add: less_mult_imp_div_less)
  then show ?case using Cons by (simp add: hex_byte_def hex_value_hex_char nibbles_join)
qed simp

lemma length_hex_bytes [simp]: "length (hex_bytes bs) = 2 * length bs"
  by (induction bs) (simp_all add: hex_byte_def)

lemma hex_bytes_parse_hex_bytes:
  "parse_hex_bytes s = Some bs \<Longrightarrow> even (length s) \<Longrightarrow>
     hex_bytes bs = to_lower_ascii s \<and> 2 * length bs = length s"
proof (induction s arbitrary: bs rule: parse_hex_bytes.induct)
  case (1 h l rest)
  from "1.prems"(1) obtain hi lo bs' where hl: "hex_value h = Some hi" "hex_value l = Some lo"
    and rest: "parse_hex_bytes rest = Some bs'" and bs: "bs = (push_bit 4 hi OR lo) # bs'"
    by (auto split: option.splits)
  have "hex_bytes bs' = to_lower_ascii rest \<and> 2 * length bs' = length rest"
    using "1.IH" [OF refl hl(1) hl(2) rest] "1.prems"(2) by simp
  with hex_value_Some [OF hl(1)] hex_value_Some [OF hl(2)] bs show ?case
    by (simp add: nibbles_split)
qed auto

interpretation id_text: codec id128_to_string id128_parse id128_ok
proof unfold_locales
  fix i assume "id128_ok i"
  then show "id128_parse (id128_to_string i) = Some i"
    by (cases i) (simp add: id128_ok_def id128_to_string_def id128_parse_def)
qed

lemma id128_parse_sound:
  assumes "id128_parse s = Some i"
  shows "id128_ok i \<and> id128_to_string i = to_lower_ascii s"
proof -
  from assms obtain bs where "parse_hex_bytes s = Some bs" "i = Id128 bs" "length s = 32"
    by (auto simp: id128_parse_def split: if_splits)
  with hex_bytes_parse_hex_bytes [of s bs] show ?thesis
    by (simp add: id128_ok_def id128_to_string_def)
qed

text \<open>The big-endian value of a byte string.\<close>

definition be_value :: "u8 list \<Rightarrow> nat" where
  "be_value bs = foldl (\<lambda>a b. a * 256 + unat b) 0 bs"

lemma foldl_be_value:
  "foldl (\<lambda>a b. a * 256 + unat b) a bs = a * 256 ^ length bs + be_value bs" for bs :: "u8 list"
proof (induction bs arbitrary: a)
  case (Cons b bs)
  have "be_value (b # bs) = unat b * 256 ^ length bs + be_value bs"
    using Cons [of "unat b"] by (simp add: be_value_def)
  then show ?case using Cons [of "a * 256 + unat b"] by (simp add: algebra_simps)
qed (simp add: be_value_def)

lemma be_value_Cons: "be_value (b # bs) = unat b * 256 ^ length bs + be_value bs"
  using foldl_be_value [of "unat b" bs] by (simp add: be_value_def)

lemma be_value_bound: "be_value bs < 256 ^ length bs"
proof (induction bs)
  case (Cons b bs)
  have "unat b \<le> 255" using unat_u8_less [of b] by linarith
  then have "unat b * 256 ^ length bs \<le> 255 * 256 ^ length bs" by (rule mult_le_mono1)
  then have "unat b * 256 ^ length bs + be_value bs < 255 * 256 ^ length bs + 256 ^ length bs"
    using Cons by linarith
  then show ?case by (simp only: be_value_Cons list.size(4) power_Suc power_add power_one_right) simp
qed (simp add: be_value_def)

lemma be_value_less_Cons:
  assumes "length xs = length ys" "x < y"
  shows "be_value (x # xs) < be_value (y # ys)"
proof -
  have "Suc (unat x) \<le> unat y" using assms(2) by (simp add: word_less_nat_alt)
  then have "Suc (unat x) * 256 ^ length xs \<le> unat y * 256 ^ length xs"
    by (rule mult_le_mono1)
  with be_value_bound [of xs] assms(1) show ?thesis by (simp add: be_value_Cons)
qed

lemma compare_bytes_value:
  "length xs = length ys \<Longrightarrow> compare_bytes xs ys =
     (if be_value xs < be_value ys then Less
      else if be_value xs = be_value ys then Equal else Greater)"
proof (induction xs ys rule: compare_bytes.induct)
  case (1 x xs y ys)
  then show ?case
    using be_value_less_Cons [of xs ys x y] be_value_less_Cons [of ys xs y x]
    by (auto simp: be_value_Cons not_less_iff_gr_or_eq)
qed auto

lemma be_value_inj: "length xs = length ys \<Longrightarrow> be_value xs = be_value ys \<Longrightarrow> xs = ys"
proof (induction xs ys rule: list_induct2)
  case (Cons x xs y ys)
  then have "x = y"
    using be_value_less_Cons [of xs ys x y] be_value_less_Cons [of ys xs y x]
    by (metis less_irrefl neqE)
  then show ?case using Cons by (simp add: be_value_Cons)
qed simp

section \<open>Transition tables\<close>

lemmas lifecycle_defs = valid_task_transition_def is_terminal_task_def
  valid_session_transition_def is_terminal_session_def
  valid_runtime_transition_def is_terminal_runtime_def

interpretation task_table: transition_table valid_task_transition is_terminal_task
  by unfold_locales (auto simp: lifecycle_defs split: if_splits)

interpretation session_table: transition_table valid_session_transition is_terminal_session
  by unfold_locales (auto simp: lifecycle_defs split: if_splits)

lemma in_all_task_states [simp]: "s \<in> set all_task_states"
  by (cases s) (simp_all add: all_task_states_def)

lemma cancelling_reachable:
  "\<not> is_terminal_task s \<Longrightarrow> s \<noteq> TaskState.Cancelling \<Longrightarrow> valid_task_transition s TaskState.Cancelling"
  by (cases s) (simp_all add: lifecycle_defs)

lemma cancel_path: "\<not> is_terminal_task s \<Longrightarrow> valid_task_transition\<^sup>*\<^sup>* s TaskState.Cancelled"
proof -
  have "valid_task_transition TaskState.Cancelling TaskState.Cancelled"
    by (simp add: lifecycle_defs)
  then show "\<not> is_terminal_task s \<Longrightarrow> ?thesis"
    by (metis cancelling_reachable converse_rtranclp_into_rtranclp r_into_rtranclp)
qed

interpretation state_names: codec task_state_name task_state_from_name "\<lambda>_. True"
proof unfold_locales
  fix s show "task_state_from_name (task_state_name s) = Some s"
    by (cases s) (simp_all add: task_state_from_name_def task_state_name_def kTaskStateNames_def)
qed

lemma task_state_from_name_sound: "task_state_from_name n = Some s \<Longrightarrow> task_state_name s = n"
  by (auto simp: task_state_from_name_def task_state_name_def kTaskStateNames_def split: if_splits)

end
