(* ===== verification/Core_Properties.thy ===== *)
theory Core_Properties
  imports Core_Contracts
begin

text \<open>
  The properties of the shared contracts: identifiers and their text form and order, the
  task state names, the transition tables, and the content marker scan.
\<close>

text \<open>The hexadecimal form of an identifier parses back to it, and whatever parses is an
  identifier of sixteen bytes whose text form is the input in lower case.\<close>

theorem id128_text_round_trip:
  "(id128_ok i \<longrightarrow> id128_parse (id128_to_string i) = Some i) \<and>
   (id128_parse s = Some j \<longrightarrow> id128_ok j \<and> id128_to_string j = to_lower_ascii s)"
  using id_text.dec_enc id128_parse_sound by blast

theorem id128_text_round_trip_witness:
  "id128_parse (id128_to_string (Id128 (replicate 16 171))) = Some (Id128 (replicate 16 171)) \<and>
   id128_to_string (Id128 (replicate 16 170)) = to_lower_ascii (replicate 32 CHR ''A'')"
proof -
  have "id128_ok (Id128 (replicate 16 171))"
    "id128_parse (replicate 32 CHR ''A'') = Some (Id128 (replicate 16 170))"
    by code_simp+
  then show ?thesis
    using id128_text_round_trip [of "Id128 (replicate 16 171)" "replicate 32 CHR ''A''"
        "Id128 (replicate 16 170)"] by blast
qed

text \<open>The three-way comparison of identifiers is the order of their big-endian values,
  and it answers equal only for equal identifiers.\<close>

theorem id128_compare_is_numeric_order:
  assumes "id128_ok i" "id128_ok j"
  shows "id128_compare i j =
    (if be_value (id_bytes i) < be_value (id_bytes j) then Less else if i = j then Equal else Greater)"
proof -
  have len: "length (id_bytes i) = length (id_bytes j)" using assms by (simp add: id128_ok_def)
  have "be_value (id_bytes i) = be_value (id_bytes j) \<longleftrightarrow> i = j"
    using be_value_inj [OF len] by (metis Id128.expand)
  with compare_bytes_value [OF len] show ?thesis by (simp add: id128_compare_def)
qed

theorem id128_compare_is_numeric_order_witness:
  "id128_compare (Id128 (replicate 16 1)) (Id128 (replicate 16 2)) =
    (if be_value (id_bytes (Id128 (replicate 16 1))) < be_value (id_bytes (Id128 (replicate 16 2)))
     then Less else if Id128 (replicate 16 1) = Id128 (replicate 16 2) then Equal else Greater)"
  by (rule id128_compare_is_numeric_order) (simp_all add: id128_ok_def)

text \<open>A generated identifier has sixteen bytes, carries version 4 in byte 6 and the
  variant bits in byte 8, and so is never the nil identifier.\<close>

theorem id128_generate_well_formed:
  "id128_ok (id128_generate v0 v1 v2 v3) \<and> \<not> is_nil (id128_generate v0 v1 v2 v3) \<and>
   id_bytes (id128_generate v0 v1 v2 v3) ! 6 AND 0xF0 = 0x40 \<and>
   id_bytes (id128_generate v0 v1 v2 v3) ! 8 AND 0xC0 = 0x80"
proof -
  let ?bs = "id_bytes (id128_generate v0 v1 v2 v3)"
  have len: "length ?bs = 16" by (simp add: id128_generate_def Let_def)
  have mask: "\<forall>n\<in>set [0..<256]. ((of_nat n AND 0x0F) OR 0x40) AND 0xF0 = (0x40 :: u8) \<and>
      ((of_nat n AND 0x3F) OR 0x80) AND 0xC0 = (0x80 :: u8)" by code_simp
  have bits: "((b AND 0x0F) OR 0x40) AND 0xF0 = 0x40" "((b AND 0x3F) OR 0x80) AND 0xC0 = 0x80" for b :: u8
    using bspec [OF mask, of "unat b"] by simp_all
  have six: "?bs ! 6 AND 0xF0 = 0x40" and eight: "?bs ! 8 AND 0xC0 = 0x80"
    by (simp_all add: id128_generate_def Let_def nth_list_update bits)
  have "?bs \<noteq> replicate 16 0"
  proof
    assume "?bs = replicate 16 0"
    then have "?bs ! 6 = 0" by simp
    with six show False by simp
  qed
  with len six eight show ?thesis by (simp add: id128_ok_def is_nil_def)
qed

text \<open>The name table of task states is a bijection: every state is read back from its
  name, and a text is read as a state only if it is that state's name.\<close>

theorem task_state_names_bijective:
  "task_state_from_name n = Some s \<longleftrightarrow> n = task_state_name s"
  using state_names.dec_enc task_state_from_name_sound by blast

text \<open>Terminal task states are absorbing, every other state can be cancelled, and no
  task completes or fails without passing Verifying or Recovering.\<close>

theorem task_table_shape:
  "(is_terminal_task s \<longrightarrow> valid_task_transition\<^sup>*\<^sup>* s t \<longrightarrow> t = s) \<and>
   (\<not> is_terminal_task s \<longrightarrow> valid_task_transition\<^sup>*\<^sup>* s TaskState.Cancelled) \<and>
   (valid_task_transition s TaskState.Completed \<longrightarrow> s \<in> {TaskState.Verifying, TaskState.Completed}) \<and>
   (valid_task_transition s TaskState.Failed \<longrightarrow> s \<in> {TaskState.Recovering, TaskState.Failed})"
proof -
  have "valid_task_transition s TaskState.Completed \<longrightarrow> s \<in> {TaskState.Verifying, TaskState.Completed}"
    "valid_task_transition s TaskState.Failed \<longrightarrow> s \<in> {TaskState.Recovering, TaskState.Failed}"
    by (cases s; simp add: lifecycle_defs)+
  then show ?thesis using task_table.terminal_path cancel_path by blast
qed

theorem task_table_shape_witness:
  "\<not> is_terminal_task TaskState.Paused \<and> valid_task_transition\<^sup>*\<^sup>* TaskState.Paused TaskState.Cancelled"
proof
  show nt: "\<not> is_terminal_task TaskState.Paused" by (simp add: is_terminal_task_def)
  show "valid_task_transition\<^sup>*\<^sup>* TaskState.Paused TaskState.Cancelled"
    using task_table_shape [of TaskState.Paused TaskState.Paused] nt by blast
qed

text \<open>The content scan reports a marker exactly when some non-empty marker occurs in the
  text up to ASCII letter case.\<close>

theorem carries_marker_iff:
  "carries_marker txt markers \<longleftrightarrow>
    (\<exists>m\<in>set markers. m \<noteq> [] \<and> (\<exists>before after.
       to_lower_ascii txt = before @ to_lower_ascii m @ after))"
  by (auto simp: carries_marker_def carries_marker_in_iff sublist_def)

end
