(* ===== verification/Runtime_Control.thy ===== *)
theory Runtime_Control
  imports Core_Contracts
begin

text \<open>
  The control plane of \<open>src/runtime/runtime.cpp\<close>: one serial control context that runs
  admitted commands in order against the session, task and operation records.

  Every command is a value (the lambda that the C++ code enqueues); \<open>enqueue_admitted\<close>
  is its admission, \<open>execute_next\<close> runs the oldest admitted command, which settles its
  receipt and its outcome. The executor (\<open>third_party/kairo\<close>) and the host environment
  behind \<open>IEnvironment\<close> are not part of the sources: what a submission answers, what
  \<open>interrupt\<close> answers and what the clock reads are arguments of the steps.
\<close>

section \<open>Records\<close>

datatype AuthenticationStrength = Anonymous | Session | Strong
datatype GrantSource = Host | Administrator | System

record ResourceSelector =
  rsel_type :: string
  rsel_scope :: string
  rsel_pattern :: string

record CapabilityGrant =
  cg_capability :: string
  cg_resources :: ResourceSelector
  cg_source :: GrantSource
  cg_version :: u64
  cg_expires_at :: int

record PrincipalContext =
  pc_tenant_id :: Id128
  pc_user_id :: Id128
  pc_host_id :: Id128
  pc_auth_strength :: AuthenticationStrength
  pc_authenticated_at :: int
  pc_grants :: "CapabilityGrant list"
  pc_identity_version :: u64

text \<open>A \<open>std::shared_ptr<IEnvironment>\<close> is the number of the object; null is \<open>None\<close>
  where the code tests it.\<close>

type_synonym EnvironmentRef = nat

record SessionRecord =
  ses_id :: SessionId
  ses_state :: SessionState
  ses_environment :: EnvironmentRef
  ses_principal :: PrincipalContext
  ses_environment_epoch :: u64

record TaskRecord =
  tr_snapshot :: TaskSnapshot
  tr_goal :: string
  tr_session_id :: SessionId

record OperationRecord =
  or_key :: OperationKey
  or_state :: OperationState

record TaskSpec =
  spec_goal :: string
  spec_user_constraints :: "string list"

record SessionSnapshot =
  ssn_id :: SessionId
  ssn_state :: SessionState
  ssn_environment_epoch :: u64
  ssn_principal :: PrincipalContext

record RuntimeConfig =
  cfg_worker_threads :: nat
  cfg_executor_queue_capacity :: nat
  cfg_max_in_flight :: nat

record ShutdownReport =
  sr_clean :: bool
  sr_state :: RuntimeState
  sr_pending_commands :: nat
  sr_diagnostic :: string

text \<open>The records behind \<open>records_mutex\<close>.\<close>

record Records =
  sessions :: "(SessionId, SessionRecord) umap"
  tasks :: "(TaskId, TaskRecord) umap"
  operations :: "(OperationId, OperationRecord) umap"

datatype RecordCommand =
    Cmd_OpenSession SessionId EnvironmentRef PrincipalContext
  | Cmd_SubmitTask SessionId TaskId TaskSpec
  | Cmd_SimpleTask CommandKind TaskId TaskState
  | Cmd_CompleteTask TaskId TaskOutcome
  | Cmd_RequestTakeover SessionId
  | Cmd_ReleaseTakeover SessionId
  | Cmd_CloseSession SessionId
  | Cmd_OperationCompletion OperationKey

datatype Command = Cmd_Records RecordCommand | Cmd_Shutdown

text \<open>What a command callback writes into its handle.\<close>

record Reply =
  rp_receipt :: ReceiptStatus
  rp_receipt_error :: "Error option"
  rp_status :: SettlementStatus
  rp_error :: "Error option"
  rp_task :: "TaskSnapshot option"

record Handle =
  h_id :: CommandId
  h_kind :: CommandKind
  h_receipt :: "CommandReceipt option"
  h_outcome :: "CommandOutcome option"

record Runtime =
  rt_config :: RuntimeConfig
  rt_state :: RuntimeState
  rt_executor_initialized :: bool
  rt_control_sequence :: u64
  rt_records :: Records
  rt_handles :: "(CommandId, Handle) umap"
  rt_queue :: "(CommandId \<times> Command) list"
  rt_commands :: "CommandId list"
  rt_shutdown_command :: "CommandId option"
  rt_final_report :: "ShutdownReport option"

text \<open>The answers of the host: \<open>IEnvironment::interrupt\<close> (which may throw, with or
  without a \<open>std::exception\<close>) and the clock, per control sequence.\<close>

datatype InterruptResult = Released | ReleaseFailed Error | Threw "string option"

record Host =
  host_interrupt :: "u64 \<Rightarrow> EnvironmentRef \<Rightarrow> InterruptResult"
  host_now :: "u64 \<Rightarrow> TaskId \<Rightarrow> Timestamp"

text \<open>How the executor answers a submission: the future is accepted, is invalid, holds
  a capacity or stopping rejection, or the call itself throws.\<close>

datatype SubmitVerdict =
    SubmitAccepted | SubmitInvalidFuture | SubmitCapacityExhausted string
  | SubmitStopping string | SubmitThrew "string option"

section \<open>Errors, the state cell and reachability\<close>

definition make_error :: "ErrorCode \<Rightarrow> string \<Rightarrow> bool \<Rightarrow> Error" where
  "make_error code message retryable = error_default\<lparr>err_code := code,
     err_domain := ''mira.runtime'', err_safe_message := message, err_retryable := retryable\<rparr>"

text \<open>\<open>RuntimeStateCell::transition\<close>: the table check and the compare-exchange.\<close>

definition state_cell_transition :: "RuntimeState \<Rightarrow> RuntimeState \<Rightarrow> Runtime \<Rightarrow> Runtime option" where
  "state_cell_transition s t rt =
     (if valid_runtime_transition s t \<and> rt_state rt = s then Some (rt\<lparr>rt_state := t\<rparr>) else None)"

text \<open>One pass of the inner loop of \<open>task_state_path_exists\<close> over the candidates:
  \<open>None\<close> is \<open>return true\<close>.\<close>

fun expand_candidates ::
  "TaskState \<Rightarrow> TaskState \<Rightarrow> TaskState list \<Rightarrow> TaskState list \<Rightarrow> TaskState list \<Rightarrow>
     (TaskState list \<times> TaskState list) option" where
  "expand_candidates current to [] visited frontier = Some (visited, frontier)"
| "expand_candidates current to (candidate # cs) visited frontier =
     (if candidate \<in> set visited \<or> \<not> valid_task_transition current candidate
      then expand_candidates current to cs visited frontier
      else if candidate = to then None
      else expand_candidates current to cs (candidate # visited) (candidate # frontier))"

text \<open>The outer loop; the frontier is a stack whose top is the head of the list. Each
  round pops a state that was visited once, so sixteen rounds are enough
  (\<open>path_search_enough\<close>).\<close>

fun path_search :: "nat \<Rightarrow> TaskState \<Rightarrow> TaskState list \<Rightarrow> TaskState list \<Rightarrow> bool option" where
  "path_search 0 to visited frontier = None"
| "path_search (Suc fuel) to visited [] = Some False"
| "path_search (Suc fuel) to visited (current # frontier) =
     (case expand_candidates current to all_task_states visited frontier of
        None \<Rightarrow> Some True
      | Some (visited', frontier') \<Rightarrow> path_search fuel to visited' frontier')"

definition task_state_path_exists :: "TaskState \<Rightarrow> TaskState \<Rightarrow> bool" where
  "task_state_path_exists s t =
     (if s = t then True else the (path_search 16 t [s] [s]))"

section \<open>Command callbacks\<close>

definition reject :: "Error \<Rightarrow> TaskSnapshot option \<Rightarrow> Reply" where
  "reject reason task = \<lparr>rp_receipt = ReceiptStatus.Rejected, rp_receipt_error = Some reason,
     rp_status = SettlementStatus.Failed, rp_error = Some reason, rp_task = task\<rparr>"

definition accept :: "SettlementStatus \<Rightarrow> Error option \<Rightarrow> TaskSnapshot option \<Rightarrow> Reply" where
  "accept status err task = \<lparr>rp_receipt = ReceiptStatus.Accepted, rp_receipt_error = None,
     rp_status = status, rp_error = err, rp_task = task\<rparr>"

text \<open>The \<open>catch\<close> clauses of the submitted lambda.\<close>

definition threw :: "string option \<Rightarrow> Reply" where
  "threw what =
     (let failure = make_error ErrorCode.Internal
        (case what of Some w \<Rightarrow> w | None \<Rightarrow> ''command callback failed'') False
      in \<lparr>rp_receipt = ReceiptStatus.Accepted, rp_receipt_error = Some failure,
          rp_status = SettlementStatus.Failed, rp_error = Some failure, rp_task = None\<rparr>)"

definition run_open_session ::
  "SessionId \<Rightarrow> EnvironmentRef \<Rightarrow> PrincipalContext \<Rightarrow> Records \<Rightarrow> Records \<times> Reply" where
  "run_open_session sid environment principal_ctx r =
     (case map_of (sessions r) sid of
        Some _ \<Rightarrow> (r, reject (make_error ErrorCode.AlreadyExists ''session ID collision'' False) None)
      | None \<Rightarrow>
          (r\<lparr>sessions := umap_emplace sid \<lparr>ses_id = sid, ses_state = SessionState.Autonomous,
                ses_environment = environment, ses_principal = principal_ctx,
                ses_environment_epoch = 0\<rparr> (sessions r)\<rparr>,
           accept SettlementStatus.Applied None None))"

definition new_snapshot :: "TaskId \<Rightarrow> SessionId \<Rightarrow> u64 \<Rightarrow> Timestamp \<Rightarrow> TaskSpec \<Rightarrow> TaskSnapshot" where
  "new_snapshot tid sid sequence now spec = \<lparr>tsn_id = tid, tsn_session_id = sid,
     tsn_state = TaskState.Idle, tsn_epoch = 0, tsn_environment_epoch = 0,
     tsn_active_step = None, tsn_active_operation = None, tsn_completed_steps = 0,
     tsn_updated_at = now, tsn_control_sequence = sequence, tsn_terminal_outcome = None,
     tsn_user_constraints = spec_user_constraints spec\<rparr>"

definition run_submit_task ::
  "Host \<Rightarrow> u64 \<Rightarrow> SessionId \<Rightarrow> TaskId \<Rightarrow> TaskSpec \<Rightarrow> Records \<Rightarrow> Records \<times> Reply" where
  "run_submit_task host sequence sid tid spec r =
     (if (case map_of (sessions r) sid of None \<Rightarrow> True | Some s \<Rightarrow> ses_state s \<noteq> SessionState.Autonomous)
      then (r, reject (make_error ErrorCode.InvalidState ''session is not autonomous'' False) None)
      else let snapshot = new_snapshot tid sid sequence (host_now host sequence tid) spec in
        (r\<lparr>tasks := umap_emplace tid \<lparr>tr_snapshot = snapshot, tr_goal = spec_goal spec,
              tr_session_id = sid\<rparr> (tasks r)\<rparr>,
         accept SettlementStatus.Applied None (Some snapshot)))"

text \<open>The transition part of \<open>simple_task_command\<close>: the state after the attempted
  intermediate step, and whether the command is allowed. \<open>transition_via\<close> writes the
  intermediate state only when both halves are legal.\<close>

definition simple_transition :: "TaskState \<Rightarrow> TaskState \<Rightarrow> TaskState \<times> bool" where
  "simple_transition state target =
     (let via = (\<lambda>cur mid. valid_task_transition cur mid \<and> valid_task_transition mid target);
          direct_transition = valid_task_transition state target;
          pause_transition = (target = TaskState.Paused \<and> state \<noteq> TaskState.Pausing \<and>
            via state TaskState.Pausing);
          state1 = (if pause_transition then TaskState.Pausing else state);
          cancel_transition = (target = TaskState.Cancelled \<and> state1 \<noteq> TaskState.Cancelling \<and>
            via state1 TaskState.Cancelling);
          state2 = (if cancel_transition then TaskState.Cancelling else state1)
      in (state2, direct_transition \<or> pause_transition \<or> cancel_transition))"

definition apply_simple :: "u64 \<Rightarrow> Timestamp \<Rightarrow> TaskState \<Rightarrow> TaskState \<Rightarrow> TaskSnapshot \<Rightarrow> TaskSnapshot" where
  "apply_simple sequence now previous target snap =
     (let snap = snap\<lparr>tsn_state := target\<rparr>;
          snap = (if target = TaskState.Observing \<and> (previous = TaskState.Paused \<or>
                    previous = TaskState.SuspendedForTakeover \<or> previous = TaskState.Recovering)
                  then snap\<lparr>tsn_epoch := tsn_epoch snap + 1\<rparr> else snap);
          snap = (if target = TaskState.Paused \<or> target = TaskState.SuspendedForTakeover \<or>
                    target = TaskState.Cancelled \<or> target = TaskState.Recovering
                  then snap\<lparr>tsn_epoch := tsn_epoch snap + 1\<rparr> else snap);
          snap = (if target = TaskState.Cancelled
                  then snap\<lparr>tsn_terminal_outcome :=
                    Some \<lparr>to_terminal_state = TaskState.Cancelled, to_error = None\<rparr>\<rparr> else snap)
      in snap\<lparr>tsn_control_sequence := sequence, tsn_updated_at := now\<rparr>)"

definition set_snapshot :: "TaskId \<Rightarrow> TaskSnapshot \<Rightarrow> Records \<Rightarrow> Records" where
  "set_snapshot tid snap r =
     r\<lparr>tasks := umap_modify tid (\<lambda>t. t\<lparr>tr_snapshot := snap\<rparr>) (tasks r)\<rparr>"

definition run_simple_task ::
  "Host \<Rightarrow> u64 \<Rightarrow> TaskId \<Rightarrow> TaskState \<Rightarrow> Records \<Rightarrow> Records \<times> Reply" where
  "run_simple_task host sequence tid target r =
     (case map_of (tasks r) tid of
        None \<Rightarrow> (r, reject (make_error ErrorCode.NotFound ''task was not found'' False) None)
      | Some task \<Rightarrow>
          let snapshot = tr_snapshot task in
          if is_terminal_task (tsn_state snapshot) \<and> tsn_state snapshot = target
          then (r, accept SettlementStatus.NoOp None (Some snapshot))
          else let (previous, allowed) = simple_transition (tsn_state snapshot) target in
            if \<not> allowed
            then let snapshot = snapshot\<lparr>tsn_state := previous\<rparr> in
              (set_snapshot tid snapshot r,
               reject (make_error ErrorCode.InvalidState ''task state transition is not allowed'' False)
                 (Some snapshot))
            else let snapshot = apply_simple sequence (host_now host sequence tid) previous target snapshot in
              (set_snapshot tid snapshot r, accept SettlementStatus.Applied None (Some snapshot)))"

definition run_complete_task ::
  "Host \<Rightarrow> u64 \<Rightarrow> TaskId \<Rightarrow> TaskOutcome \<Rightarrow> Records \<Rightarrow> Records \<times> Reply" where
  "run_complete_task host sequence tid outcome r =
     (case map_of (tasks r) tid of
        None \<Rightarrow> (r, reject (make_error ErrorCode.NotFound ''task was not found'' False) None)
      | Some task \<Rightarrow>
          let snapshot = tr_snapshot task; target = to_terminal_state outcome in
          if target \<noteq> TaskState.Completed \<and> target \<noteq> TaskState.Failed
          then (r, reject (make_error ErrorCode.InvalidArgument
            ''task completion requires the Completed or Failed terminal state'' False) (Some snapshot))
          else if is_terminal_task (tsn_state snapshot)
          then let same = (tsn_state snapshot = target);
                   reason = make_error ErrorCode.InvalidState
                     (if same then ''task already settled in the requested terminal state''
                      else ''task already settled in a different terminal state'') False in
            (r, \<lparr>rp_receipt = (if same then ReceiptStatus.Accepted else ReceiptStatus.Rejected),
                 rp_receipt_error = Some reason,
                 rp_status = (if same then SettlementStatus.NoOp else SettlementStatus.Failed),
                 rp_error = Some reason, rp_task = Some snapshot\<rparr>)
          else if \<not> task_state_path_exists (tsn_state snapshot) target
          then (r, reject (make_error ErrorCode.InvalidState
            ''no legal task transition path to the requested terminal state'' False) (Some snapshot))
          else let snapshot = snapshot\<lparr>tsn_state := target, tsn_epoch := tsn_epoch snapshot + 1,
                 tsn_terminal_outcome := Some outcome, tsn_control_sequence := sequence,
                 tsn_updated_at := host_now host sequence tid\<rparr> in
            (set_snapshot tid snapshot r, accept SettlementStatus.Applied None (Some snapshot)))"

definition set_session :: "SessionId \<Rightarrow> (SessionRecord \<Rightarrow> SessionRecord) \<Rightarrow> Records \<Rightarrow> Records" where
  "set_session sid f r = r\<lparr>sessions := umap_modify sid f (sessions r)\<rparr>"

definition map_snapshots :: "(TaskId \<Rightarrow> TaskRecord \<Rightarrow> TaskSnapshot) \<Rightarrow> Records \<Rightarrow> Records" where
  "map_snapshots f r = r\<lparr>tasks := umap_each (\<lambda>tid t. t\<lparr>tr_snapshot := f tid t\<rparr>) (tasks r)\<rparr>"

definition takeover_task :: "Host \<Rightarrow> u64 \<Rightarrow> SessionId \<Rightarrow> TaskId \<Rightarrow> TaskRecord \<Rightarrow> TaskSnapshot" where
  "takeover_task host sequence sid tid t =
     (let snap = tr_snapshot t in
      if tr_session_id t \<noteq> sid \<or> is_terminal_task (tsn_state snap) then snap
      else if valid_task_transition (tsn_state snap) TaskState.TakeoverSettling
      then snap\<lparr>tsn_state := TaskState.SuspendedForTakeover, tsn_epoch := tsn_epoch snap + 1,
             tsn_control_sequence := sequence, tsn_updated_at := host_now host sequence tid\<rparr>
      else snap)"

definition run_request_takeover :: "Host \<Rightarrow> u64 \<Rightarrow> SessionId \<Rightarrow> Records \<Rightarrow> Records \<times> Reply" where
  "run_request_takeover host sequence sid r =
     (case map_of (sessions r) sid of
        None \<Rightarrow> (r, reject (make_error ErrorCode.NotFound ''session was not found'' False) None)
      | Some session \<Rightarrow>
          if ses_state session = SessionState.HumanControlled \<or>
             ses_state session = SessionState.TakeoverPending
          then (r, accept SettlementStatus.NoOp None None)
          else if \<not> valid_session_transition (ses_state session) SessionState.TakeoverPending
          then (r, reject (make_error ErrorCode.InvalidState ''session cannot enter takeover'' False) None)
          else let r = map_snapshots (takeover_task host sequence sid) r;
                   r = set_session sid (\<lambda>s. s\<lparr>ses_state := SessionState.HumanControlled\<rparr>) r in
            (case host_interrupt host sequence (ses_environment session) of
               Threw what \<Rightarrow> (r, threw what)
             | _ \<Rightarrow> (r, accept SettlementStatus.Applied None None)))"

definition release_task ::
  "Host \<Rightarrow> u64 \<Rightarrow> SessionId \<Rightarrow> u64 \<Rightarrow> TaskId \<Rightarrow> TaskRecord \<Rightarrow> TaskSnapshot" where
  "release_task host sequence sid environment_epoch tid t =
     (let snap = tr_snapshot t in
      if tr_session_id t \<noteq> sid \<or> tsn_state snap \<noteq> TaskState.SuspendedForTakeover then snap
      else snap\<lparr>tsn_state := TaskState.Observing, tsn_epoch := tsn_epoch snap + 1,
             tsn_environment_epoch := environment_epoch, tsn_control_sequence := sequence,
             tsn_updated_at := host_now host sequence tid\<rparr>)"

definition run_release_takeover :: "Host \<Rightarrow> u64 \<Rightarrow> SessionId \<Rightarrow> Records \<Rightarrow> Records \<times> Reply" where
  "run_release_takeover host sequence sid r =
     (case map_of (sessions r) sid of
        None \<Rightarrow> (r, reject (make_error ErrorCode.NotFound ''session was not found'' False) None)
      | Some session \<Rightarrow>
          if ses_state session = SessionState.Autonomous
          then (r, accept SettlementStatus.NoOp None None)
          else if ses_state session \<noteq> SessionState.HumanControlled \<or>
                  \<not> valid_session_transition (ses_state session) SessionState.Resuming
          then (r, reject (make_error ErrorCode.InvalidState ''session is not human controlled'' False) None)
          else let epoch = ses_environment_epoch session + 1;
                   r = map_snapshots (release_task host sequence sid epoch) r;
                   r = set_session sid (\<lambda>s. s\<lparr>ses_environment_epoch := epoch,
                         ses_state := SessionState.Autonomous\<rparr>) r in
            (r, accept SettlementStatus.Applied None None))"

definition cancel_snapshot :: "Host \<Rightarrow> u64 \<Rightarrow> TaskId \<Rightarrow> TaskSnapshot \<Rightarrow> TaskSnapshot" where
  "cancel_snapshot host sequence tid snap =
     (if is_terminal_task (tsn_state snap) then snap
      else snap\<lparr>tsn_state := TaskState.Cancelled, tsn_epoch := tsn_epoch snap + 1,
             tsn_terminal_outcome := Some \<lparr>to_terminal_state = TaskState.Cancelled, to_error = None\<rparr>,
             tsn_control_sequence := sequence, tsn_updated_at := host_now host sequence tid\<rparr>)"

definition run_close_session :: "Host \<Rightarrow> u64 \<Rightarrow> SessionId \<Rightarrow> Records \<Rightarrow> Records \<times> Reply" where
  "run_close_session host sequence sid r =
     (case map_of (sessions r) sid of
        None \<Rightarrow> (r, reject (make_error ErrorCode.NotFound ''session was not found'' False) None)
      | Some session \<Rightarrow>
          if ses_state session = SessionState.Closed
          then (r, accept SettlementStatus.NoOp None None)
          else if \<not> valid_session_transition (ses_state session) SessionState.Closing
          then (r, reject (make_error ErrorCode.InvalidState ''session cannot be closed'' False) None)
          else let r = set_session sid (\<lambda>s. s\<lparr>ses_state := SessionState.Closing\<rparr>) r;
                   r = map_snapshots (\<lambda>tid t. if tr_session_id t \<noteq> sid then tr_snapshot t
                         else cancel_snapshot host sequence tid (tr_snapshot t)) r in
            (case host_interrupt host sequence (ses_environment session) of
               Threw what \<Rightarrow> (r, threw what)
             | _ \<Rightarrow> (set_session sid (\<lambda>s. s\<lparr>ses_state := SessionState.Closed\<rparr>) r,
                     accept SettlementStatus.Applied None None)))"

definition run_operation_completion ::
  "Host \<Rightarrow> u64 \<Rightarrow> OperationKey \<Rightarrow> Records \<Rightarrow> Records \<times> Reply" where
  "run_operation_completion host sequence key r =
     (case (map_of (operations r) (ok_operation_id key), map_of (tasks r) (ok_task_id key)) of
        (Some operation, Some task) \<Rightarrow>
          let snapshot = tr_snapshot task;
              settled = r\<lparr>operations := umap_modify (ok_operation_id key)
                (\<lambda>x. x\<lparr>or_state := OperationState.Settled\<rparr>) (operations r)\<rparr> in
          if or_state operation = OperationState.Settled
          then (r, accept SettlementStatus.NoOp
            (Some (make_error ErrorCode.InvalidState ''operation completion is duplicate'' False))
            (Some snapshot))
          else if tsn_epoch snapshot \<noteq> ok_task_epoch key \<or>
                  tsn_state snapshot = TaskState.Cancelled \<or>
                  tsn_state snapshot = TaskState.Completed \<or> tsn_state snapshot = TaskState.Failed
          then (settled, accept SettlementStatus.NoOp
            (Some (make_error ErrorCode.StaleObservation ''stale operation completion ignored'' False))
            (Some snapshot))
          else let snapshot = snapshot\<lparr>tsn_control_sequence := sequence,
                 tsn_updated_at := host_now host sequence (ok_task_id key)\<rparr> in
            (set_snapshot (ok_task_id key) snapshot settled,
             accept SettlementStatus.Applied None (Some snapshot))
      | _ \<Rightarrow> (r, reject (make_error ErrorCode.NotFound ''operation or task was not found'' False) None))"

text \<open>The session loop of the shutdown command: the first failure is kept.\<close>

fun shutdown_sessions ::
  "Host \<Rightarrow> u64 \<Rightarrow> (SessionId, SessionRecord) umap \<Rightarrow> Error option \<Rightarrow>
     (SessionId, SessionRecord) umap \<times> Error option" where
  "shutdown_sessions host sequence [] failure = ([], failure)"
| "shutdown_sessions host sequence ((sid, s) # rest) failure =
     (let (s', failure') =
        (if is_terminal_session (ses_state s) then (s, failure)
         else case host_interrupt host sequence (ses_environment s) of
             Released \<Rightarrow> (s\<lparr>ses_state := SessionState.Closed\<rparr>, failure)
           | ReleaseFailed e \<Rightarrow> (s\<lparr>ses_state := SessionState.Failed\<rparr>,
               (if failure = None then Some e else failure))
           | Threw _ \<Rightarrow> (s\<lparr>ses_state := SessionState.Failed\<rparr>,
               (if failure = None
                then Some (make_error ErrorCode.Internal
                  ''environment interrupt threw during shutdown'' False)
                else failure)));
          (rest', failure'') = shutdown_sessions host sequence rest failure'
      in ((sid, s') # rest', failure''))"

definition shutdown_records :: "Host \<Rightarrow> u64 \<Rightarrow> Records \<Rightarrow> Records \<times> Error option" where
  "shutdown_records host sequence r =
     (let r = map_snapshots (\<lambda>tid t. cancel_snapshot host sequence tid (tr_snapshot t)) r;
          (ss, failure) = shutdown_sessions host sequence (sessions r) None
      in (r\<lparr>sessions := ss\<rparr>, failure))"

definition run_shutdown :: "Host \<Rightarrow> u64 \<Rightarrow> Runtime \<Rightarrow> Runtime \<times> Reply" where
  "run_shutdown host sequence rt =
     (let (r, failure) = shutdown_records host sequence (rt_records rt);
          rt = rt\<lparr>rt_records := r\<rparr>;
          target = (if failure \<noteq> None then RuntimeState.Failed else RuntimeState.Quiesced);
          (rt, failure) = (case state_cell_transition RuntimeState.Stopping target rt of
              Some rt' \<Rightarrow> (rt', failure)
            | None \<Rightarrow> (rt, Some (make_error ErrorCode.InvalidState
                ''runtime shutdown state transition rejected'' False)))
      in (rt, accept (if failure \<noteq> None then SettlementStatus.Failed else SettlementStatus.Applied)
            failure None))"

definition run_records :: "Host \<Rightarrow> u64 \<Rightarrow> RecordCommand \<Rightarrow> Records \<Rightarrow> Records \<times> Reply" where
  "run_records host sequence command r =
     (case command of
        Cmd_OpenSession sid environment ctx \<Rightarrow> run_open_session sid environment ctx r
      | Cmd_SubmitTask sid tid spec \<Rightarrow> run_submit_task host sequence sid tid spec r
      | Cmd_SimpleTask kind tid target \<Rightarrow> run_simple_task host sequence tid target r
      | Cmd_CompleteTask tid outcome \<Rightarrow> run_complete_task host sequence tid outcome r
      | Cmd_RequestTakeover sid \<Rightarrow> run_request_takeover host sequence sid r
      | Cmd_ReleaseTakeover sid \<Rightarrow> run_release_takeover host sequence sid r
      | Cmd_CloseSession sid \<Rightarrow> run_close_session host sequence sid r
      | Cmd_OperationCompletion key \<Rightarrow> run_operation_completion host sequence key r)"

definition run_command :: "Host \<Rightarrow> u64 \<Rightarrow> Command \<Rightarrow> Runtime \<Rightarrow> Runtime \<times> Reply" where
  "run_command host sequence command rt =
     (case command of
        Cmd_Shutdown \<Rightarrow> run_shutdown host sequence rt
      | Cmd_Records rc \<Rightarrow>
          let (r, reply) = run_records host sequence rc (rt_records rt)
          in (rt\<lparr>rt_records := r\<rparr>, reply))"

section \<open>Handles, admission and execution\<close>

text \<open>A promise keeps its first value; a later \<open>set_value\<close> throws and is swallowed.\<close>

definition set_receipt ::
  "CommandId \<Rightarrow> CommandKind \<Rightarrow> ReceiptStatus \<Rightarrow> u64 \<Rightarrow> Error option \<Rightarrow> Runtime \<Rightarrow> Runtime" where
  "set_receipt cid kind status sequence err rt =
     rt\<lparr>rt_handles := umap_modify cid (\<lambda>h. if h_receipt h \<noteq> None then h
        else h\<lparr>h_receipt := Some \<lparr>rc_id = cid, rc_kind = kind, rc_status = status,
          rc_control_sequence = sequence, rc_error = err\<rparr>\<rparr>) (rt_handles rt)\<rparr>"

definition set_outcome ::
  "CommandId \<Rightarrow> SettlementStatus \<Rightarrow> Error option \<Rightarrow> TaskSnapshot option \<Rightarrow> Runtime \<Rightarrow> Runtime" where
  "set_outcome cid status err task rt =
     rt\<lparr>rt_handles := umap_modify cid (\<lambda>h. if h_outcome h \<noteq> None then h
        else h\<lparr>h_outcome := Some \<lparr>oc_id = cid, oc_status = status,
          oc_error = err, oc_task = task\<rparr>\<rparr>) (rt_handles rt)\<rparr>"

definition record_command_kind :: "RecordCommand \<Rightarrow> CommandKind" where
  "record_command_kind command =
     (case command of
        Cmd_OpenSession _ _ _ \<Rightarrow> CommandKind.OpenSession
      | Cmd_SubmitTask _ _ _ \<Rightarrow> CommandKind.SubmitTask
      | Cmd_SimpleTask kind _ _ \<Rightarrow> kind
      | Cmd_CompleteTask _ _ \<Rightarrow> CommandKind.CompleteTask
      | Cmd_RequestTakeover _ \<Rightarrow> CommandKind.RequestTakeover
      | Cmd_ReleaseTakeover _ \<Rightarrow> CommandKind.ReleaseTakeover
      | Cmd_CloseSession _ \<Rightarrow> CommandKind.CloseSession
      | Cmd_OperationCompletion _ \<Rightarrow> CommandKind.OperationCompletion)"

definition command_kind :: "Command \<Rightarrow> CommandKind" where
  "command_kind command =
     (case command of Cmd_Records rc \<Rightarrow> record_command_kind rc
      | Cmd_Shutdown \<Rightarrow> CommandKind.ShutdownRuntime)"

text \<open>\<open>enqueue_admitted\<close>: the handle identifier is the one \<open>CommandId::generate\<close> drew.\<close>

definition enqueue_admitted ::
  "SubmitVerdict \<Rightarrow> CommandId \<Rightarrow> Command \<Rightarrow> Runtime \<Rightarrow> Runtime \<times> CommandId Result" where
  "enqueue_admitted verdict cid command rt =
     (let kind = command_kind command in
      if rt_state rt \<noteq> RuntimeState.Running \<and> kind \<noteq> CommandKind.ShutdownRuntime
      then (rt, Inl (make_error ErrorCode.InvalidState ''runtime is not accepting this command'' False))
      else let rt1 = rt\<lparr>rt_handles := umap_emplace cid \<lparr>h_id = cid, h_kind = kind,
              h_receipt = None, h_outcome = None\<rparr> (rt_handles rt)\<rparr>;
               refused = (\<lambda>failure. (set_outcome cid SettlementStatus.Failed (Some failure) None
                  (set_receipt cid kind ReceiptStatus.Rejected 0 (Some failure) rt1), Inl failure)) in
        case verdict of
          SubmitAccepted \<Rightarrow> (rt1\<lparr>rt_queue := rt_queue rt @ [(cid, command)],
              rt_commands := rt_commands rt @ [cid]\<rparr>, Inr cid)
        | SubmitInvalidFuture \<Rightarrow> (rt1, Inl (make_error ErrorCode.ResourceExhausted
              ''runtime command submission rejected'' True))
        | SubmitCapacityExhausted what \<Rightarrow> refused (make_error ErrorCode.ResourceExhausted what True)
        | SubmitStopping what \<Rightarrow> refused (make_error ErrorCode.Unavailable what True)
        | SubmitThrew what \<Rightarrow> (rt1, Inl (make_error ErrorCode.ResourceExhausted
              (case what of Some w \<Rightarrow> w | None \<Rightarrow> ''runtime command submission rejected'') True)))"

text \<open>The control context runs the oldest admitted command.\<close>

definition execute_next :: "Host \<Rightarrow> Runtime \<Rightarrow> Runtime" where
  "execute_next host rt =
     (case rt_queue rt of
        [] \<Rightarrow> rt
      | (cid, command) # rest \<Rightarrow>
          let sequence = rt_control_sequence rt + 1;
              rt0 = rt\<lparr>rt_queue := rest, rt_control_sequence := sequence\<rparr>;
              (rt1, reply) = run_command host sequence command rt0;
              rt2 = set_receipt cid (command_kind command) (rp_receipt reply) sequence
                      (rp_receipt_error reply) rt1
          in set_outcome cid (rp_status reply) (rp_error reply) (rp_task reply) rt2)"

section \<open>The public control surface\<close>

datatype InitVerdict = InitDone bool | InitThrew

definition initialize :: "InitVerdict \<Rightarrow> Runtime \<Rightarrow> Runtime \<times> unit Result" where
  "initialize verdict rt =
     (case state_cell_transition RuntimeState.Constructed RuntimeState.Initializing rt of
        None \<Rightarrow> (rt, Inl (make_error ErrorCode.InvalidState
          ''runtime was already initialized or stopped'' False))
      | Some rt \<Rightarrow>
          let (rt, failure) =
            (if cfg_worker_threads (rt_config rt) = 0 \<or>
                cfg_executor_queue_capacity (rt_config rt) = 0 \<or>
                cfg_max_in_flight (rt_config rt) = 0
             then (rt, Some (make_error ErrorCode.InvalidArgument ''runtime limits must be positive'' False))
             else case verdict of
               InitThrew \<Rightarrow> (rt, Some (make_error ErrorCode.Unavailable ''executor initialization threw'' True))
             | InitDone ok \<Rightarrow> (rt\<lparr>rt_executor_initialized := ok\<rparr>,
                 (if ok then None
                  else Some (make_error ErrorCode.Unavailable ''executor initialization failed'' True))));
              target = (if failure \<noteq> None then RuntimeState.Failed else RuntimeState.Running)
          in case state_cell_transition RuntimeState.Initializing target rt of
               None \<Rightarrow> (rt, Inl (make_error ErrorCode.InvalidState
                 ''runtime initialization state transition rejected'' False))
             | Some rt \<Rightarrow> (rt, case failure of Some e \<Rightarrow> Inl e | None \<Rightarrow> Inr ()))"

definition open_session ::
  "SubmitVerdict \<Rightarrow> CommandId \<Rightarrow> SessionId \<Rightarrow> EnvironmentRef option \<Rightarrow> PrincipalContext \<Rightarrow> Runtime \<Rightarrow>
     Runtime \<times> (SessionId \<times> CommandId) Result" where
  "open_session verdict cid sid environment ctx rt =
     (case environment of
        None \<Rightarrow> (rt, Inl (make_error ErrorCode.InvalidArgument ''environment must not be null'' False))
      | Some e \<Rightarrow>
          let (rt, command) = enqueue_admitted verdict cid (Cmd_Records (Cmd_OpenSession sid e ctx)) rt
          in (rt, res_bind command (\<lambda>c. Inr (sid, c))))"

definition submit_task ::
  "SubmitVerdict \<Rightarrow> CommandId \<Rightarrow> TaskId \<Rightarrow> SessionId \<Rightarrow> TaskSpec \<Rightarrow> Runtime \<Rightarrow>
     Runtime \<times> (TaskId \<times> CommandId) Result" where
  "submit_task verdict cid tid sid spec rt =
     (if spec_goal spec = []
      then (rt, Inl (make_error ErrorCode.InvalidArgument ''task goal must not be empty'' False))
      else let (rt, command) = enqueue_admitted verdict cid (Cmd_Records (Cmd_SubmitTask sid tid spec)) rt
        in (rt, res_bind command (\<lambda>c. Inr (tid, c))))"

definition pause_task :: "TaskId \<Rightarrow> RecordCommand" where
  "pause_task tid = Cmd_SimpleTask CommandKind.PauseTask tid TaskState.Paused"

definition resume_task :: "TaskId \<Rightarrow> RecordCommand" where
  "resume_task tid = Cmd_SimpleTask CommandKind.ResumeTask tid TaskState.Observing"

definition cancel_task :: "TaskId \<Rightarrow> RecordCommand" where
  "cancel_task tid = Cmd_SimpleTask CommandKind.CancelTask tid TaskState.Cancelled"

definition begin_task_recovery :: "TaskId \<Rightarrow> RecordCommand" where
  "begin_task_recovery tid = Cmd_SimpleTask CommandKind.BeginTaskRecovery tid TaskState.Recovering"

text \<open>The record commands that \<open>MiraRuntime\<close> enqueues without a check of its own.\<close>

definition plain_command :: "RecordCommand \<Rightarrow> bool" where
  "plain_command c =
     (case c of
        Cmd_OpenSession _ _ _ \<Rightarrow> False
      | Cmd_SubmitTask _ _ _ \<Rightarrow> False
      | Cmd_SimpleTask kind tid target \<Rightarrow>
          c \<in> {pause_task tid, resume_task tid, cancel_task tid, begin_task_recovery tid}
      | _ \<Rightarrow> True)"

definition submit_shutdown_admitted ::
  "SubmitVerdict \<Rightarrow> CommandId \<Rightarrow> Runtime \<Rightarrow> Runtime \<times> CommandId Result" where
  "submit_shutdown_admitted verdict cid rt =
     (case enqueue_admitted verdict cid Cmd_Shutdown rt of
        (rt, Inr c) \<Rightarrow> (rt\<lparr>rt_shutdown_command := Some c\<rparr>, Inr c)
      | (rt, Inl e) \<Rightarrow> (rt, Inl e))"

definition request_shutdown ::
  "SubmitVerdict \<Rightarrow> CommandId \<Rightarrow> Runtime \<Rightarrow> Runtime \<times> CommandId Result" where
  "request_shutdown verdict cid rt =
     (if rt_shutdown_command rt \<noteq> None \<or> rt_state rt = RuntimeState.Stopped \<or>
         rt_state rt = RuntimeState.Quiesced \<or> rt_state rt = RuntimeState.Stopping
      then (rt, Inl (make_error ErrorCode.InvalidState ''runtime shutdown is already in progress'' False))
      else case state_cell_transition (rt_state rt) RuntimeState.Stopping rt of
        None \<Rightarrow> (rt, Inl (make_error ErrorCode.InvalidState
          ''runtime shutdown state transition rejected'' False))
      | Some rt \<Rightarrow>
          if \<not> rt_executor_initialized rt
          then (rt, Inl (make_error ErrorCode.InvalidState ''runtime was not initialized'' False))
          else submit_shutdown_admitted verdict cid rt)"

definition begin_operation ::
  "TaskId \<Rightarrow> StepId \<Rightarrow> OperationId \<Rightarrow> Runtime \<Rightarrow> Runtime \<times> OperationKey Result" where
  "begin_operation tid step oid rt =
     (if rt_state rt \<noteq> RuntimeState.Running
      then (rt, Inl (make_error ErrorCode.InvalidState ''runtime is not accepting operations'' False))
      else case map_of (tasks (rt_records rt)) tid of
        None \<Rightarrow> (rt, Inl (make_error ErrorCode.NotFound ''task was not found'' False))
      | Some task \<Rightarrow>
          let state = tsn_state (tr_snapshot task) in
          if is_terminal_task state
          then (rt, Inl (make_error ErrorCode.InvalidState ''task is terminal'' False))
          else if state = TaskState.Paused \<or> state = TaskState.SuspendedForTakeover
          then (rt, Inl (make_error ErrorCode.InvalidState
            ''task is paused or under human takeover; no new operations are admitted'' False))
          else let key = \<lparr>ok_task_id = tid, ok_task_epoch = tsn_epoch (tr_snapshot task),
                 ok_step_id = step, ok_operation_id = oid\<rparr> in
            (rt\<lparr>rt_records := (rt_records rt)\<lparr>operations := umap_emplace oid
                \<lparr>or_key = key, or_state = OperationState.Submitted\<rparr> (operations (rt_records rt))\<rparr>\<rparr>,
             Inr key))"

definition task_snapshot :: "TaskId \<Rightarrow> Runtime \<Rightarrow> TaskSnapshot Result" where
  "task_snapshot tid rt =
     (case map_of (tasks (rt_records rt)) tid of
        None \<Rightarrow> Inl (make_error ErrorCode.NotFound ''task was not found'' False)
      | Some t \<Rightarrow> Inr (tr_snapshot t))"

definition session_snapshot :: "SessionId \<Rightarrow> Runtime \<Rightarrow> SessionSnapshot Result" where
  "session_snapshot sid rt =
     (case map_of (sessions (rt_records rt)) sid of
        None \<Rightarrow> Inl (make_error ErrorCode.NotFound ''session was not found'' False)
      | Some s \<Rightarrow> Inr \<lparr>ssn_id = ses_id s, ssn_state = ses_state s,
          ssn_environment_epoch = ses_environment_epoch s, ssn_principal = ses_principal s\<rparr>)"

section \<open>Final shutdown\<close>

text \<open>What \<open>submission_future.get()\<close> raises for a command the executor dropped.\<close>

datatype LateRejection = LateInvalid | LateCapacity | LateStopping | LateOther

definition late_failure :: "LateRejection \<Rightarrow> Error" where
  "late_failure l =
     (case l of
        LateInvalid \<Rightarrow> make_error ErrorCode.Internal ''command submission future is invalid'' False
      | LateCapacity \<Rightarrow> make_error ErrorCode.ResourceExhausted ''command submission was rejected'' True
      | LateStopping \<Rightarrow> make_error ErrorCode.Unavailable ''command executor stopped'' True
      | LateOther \<Rightarrow> make_error ErrorCode.Internal ''command submission failed'' False)"

lemma rt_queue_run_command: "rt_queue (fst (run_command host sq c rt)) = rt_queue rt"
  by (auto simp: run_command_def run_shutdown_def state_cell_transition_def Let_def
      split: Command.splits prod.splits option.splits)

lemma rt_queue_settle [simp]:
  "rt_queue (set_receipt cid kind status sq err rt) = rt_queue rt"
  "rt_queue (set_outcome cid st err task rt) = rt_queue rt"
  by (simp_all add: set_receipt_def set_outcome_def)

lemma rt_queue_execute_next [simp]: "rt_queue (execute_next host rt) = tl (rt_queue rt)"
  by (cases "rt_queue rt")
    (auto simp: execute_next_def Let_def case_prod_unfold rt_queue_run_command)

text \<open>Waiting for the future of one command runs the queue up to that command.\<close>

function run_until :: "Host \<Rightarrow> CommandId \<Rightarrow> Runtime \<Rightarrow> Runtime" where
  "run_until host cid rt =
     (if cid \<in> fst ` set (rt_queue rt) then run_until host cid (execute_next host rt) else rt)"
  by pat_completeness auto
termination
  by (relation "measure (\<lambda>(host, cid, rt). length (rt_queue rt))") (auto dest: length_pos_if_in_set)

declare run_until.simps [simp del]

definition consume_one :: "Host \<Rightarrow> (CommandId \<Rightarrow> LateRejection option) \<Rightarrow> CommandId \<Rightarrow> Runtime \<Rightarrow> Runtime" where
  "consume_one host late cid rt =
     (if cid \<notin> fst ` set (rt_queue rt) then rt
      else case late cid of
        None \<Rightarrow> run_until host cid rt
      | Some l \<Rightarrow>
          let failure = late_failure l;
              kind = (case map_of (rt_handles rt) cid of Some h \<Rightarrow> h_kind h | None \<Rightarrow> CommandKind.OpenSession);
              rt = rt\<lparr>rt_queue := filter (\<lambda>(c, _). c \<noteq> cid) (rt_queue rt)\<rparr>
          in set_outcome cid SettlementStatus.Failed (Some failure) None
               (set_receipt cid kind ReceiptStatus.Rejected 0 (Some failure) rt))"

definition consume_commands :: "Host \<Rightarrow> (CommandId \<Rightarrow> LateRejection option) \<Rightarrow> Runtime \<Rightarrow> Runtime" where
  "consume_commands host late rt =
     fold (consume_one host late) (rt_commands rt) (rt\<lparr>rt_commands := []\<rparr>)"

text \<open>\<open>outcome(0ms)\<close> on the handle of the shutdown command.\<close>

definition handle_outcome :: "CommandId \<Rightarrow> Runtime \<Rightarrow> CommandOutcome Result" where
  "handle_outcome cid rt =
     (case map_of (rt_handles rt) cid of
        Some h \<Rightarrow> (case h_outcome h of
            Some oc \<Rightarrow> Inr oc
          | None \<Rightarrow> Inl (make_error ErrorCode.DeadlineExceeded ''command handle wait timed out'' True))
      | None \<Rightarrow> Inl (make_error ErrorCode.InvalidState ''command handle is invalid'' False))"

record FinishInputs =
  fin_in_callback :: bool
  fin_verdict :: SubmitVerdict
  fin_cid :: CommandId
  fin_retry_verdict :: SubmitVerdict
  fin_retry_cid :: CommandId
  fin_late :: "CommandId \<Rightarrow> LateRejection option"
  fin_executor_completed :: bool

definition finish_request :: "FinishInputs \<Rightarrow> Runtime \<Rightarrow> Runtime \<times> Error option" where
  "finish_request inp rt =
     (if rt_state rt = RuntimeState.Constructed \<or> rt_state rt = RuntimeState.Running \<or>
         (rt_state rt = RuntimeState.Failed \<and> rt_shutdown_command rt = None)
      then case request_shutdown (fin_verdict inp) (fin_cid inp) rt of
          (rt, Inl e) \<Rightarrow> (rt, if rt_executor_initialized rt then Some e else None)
        | (rt, Inr _) \<Rightarrow> (rt, None)
      else (rt, None))"

definition finish_retry :: "FinishInputs \<Rightarrow> Error option \<Rightarrow> Runtime \<Rightarrow> Runtime \<times> Error option \<times> bool" where
  "finish_retry inp failure rt =
     (if rt_executor_initialized rt \<and> rt_shutdown_command rt = None \<and> rt_state rt = RuntimeState.Stopping
      then case submit_shutdown_admitted (fin_retry_verdict inp) (fin_retry_cid inp) rt of
          (rt, Inl e) \<Rightarrow> (rt, Some e, True)
        | (rt, Inr _) \<Rightarrow> (rt, None, True)
      else (rt, failure, False))"

definition finish_failure :: "Error option \<Rightarrow> Runtime \<Rightarrow> Error option" where
  "finish_failure failure rt =
     (case rt_shutdown_command rt of
        None \<Rightarrow> failure
      | Some cid \<Rightarrow> (case handle_outcome cid rt of
          Inl e \<Rightarrow> Some e
        | Inr oc \<Rightarrow> if oc_status oc = SettlementStatus.Failed
            then Some (case oc_error oc of Some e \<Rightarrow> e
              | None \<Rightarrow> make_error ErrorCode.Internal ''runtime shutdown command failed'' False)
            else failure))"

text \<open>The request, the first wait for all commands, the retried admission, the second wait.\<close>

definition finish_drained :: "Host \<Rightarrow> FinishInputs \<Rightarrow> Runtime \<Rightarrow> Runtime \<times> Error option \<times> bool" where
  "finish_drained host inp rt =
     (let (rt, failure) = finish_request inp rt;
          rt = consume_commands host (fin_late inp) rt;
          (rt, failure, resubmitted) = finish_retry inp failure rt
      in (consume_commands host (fin_late inp) rt, failure, resubmitted))"

definition finish_settle :: "Error option \<Rightarrow> Runtime \<Rightarrow> Runtime \<times> Error option" where
  "finish_settle failure rt =
     (if rt_state rt = RuntimeState.Stopping
      then case state_cell_transition RuntimeState.Stopping
             (if failure \<noteq> None then RuntimeState.Failed else RuntimeState.Quiesced) rt of
          Some rt \<Rightarrow> (rt, failure)
        | None \<Rightarrow> (rt, Some (make_error ErrorCode.InvalidState
            ''runtime finalization state transition rejected'' False))
      else (rt, failure))"

definition finish_stop :: "Error option \<Rightarrow> Runtime \<Rightarrow> Runtime \<times> Error option" where
  "finish_stop failure rt =
     (if failure = None \<and> rt_state rt = RuntimeState.Quiesced
      then case state_cell_transition RuntimeState.Quiesced RuntimeState.Stopped rt of
          Some rt \<Rightarrow> (rt, failure)
        | None \<Rightarrow> (rt, Some (make_error ErrorCode.InvalidState
            ''runtime stopped transition rejected'' False))
      else (rt, failure))"

definition finish_report :: "bool \<Rightarrow> Error option \<Rightarrow> Runtime \<Rightarrow> ShutdownReport" where
  "finish_report resubmitted failure rt =
     (let clean = (failure = None \<and> rt_state rt = RuntimeState.Stopped)
      in \<lparr>sr_clean = clean, sr_state = rt_state rt, sr_pending_commands = 0,
          sr_diagnostic = (case failure of
              Some e \<Rightarrow> (if resubmitted
                then ''shutdown admission retry failed: '' @ err_safe_message e
                else err_safe_message e)
            | None \<Rightarrow> (if resubmitted then ''runtime stopped after shutdown admission retry''
                else if clean then ''runtime stopped'' else ''runtime shutdown failed''))\<rparr>)"

definition finish_shutdown :: "Host \<Rightarrow> FinishInputs \<Rightarrow> Runtime \<Rightarrow> Runtime \<times> ShutdownReport" where
  "finish_shutdown host inp rt =
     (if fin_in_callback inp
      then (rt, \<lparr>sr_clean = False, sr_state = rt_state rt, sr_pending_commands = 0,
        sr_diagnostic = ''finish_shutdown requires an external owner; pending commands not scanned''\<rparr>)
      else case rt_final_report rt of
        Some report \<Rightarrow> (rt, report)
      | None \<Rightarrow>
          let (rt, failure, resubmitted) = finish_drained host inp rt;
              (rt, failure) = finish_settle (finish_failure failure rt) rt
          in if \<not> fin_executor_completed inp
             then (rt, \<lparr>sr_clean = False, sr_state = rt_state rt, sr_pending_commands = 0,
               sr_diagnostic = ''executor requires final shutdown from an external owner''\<rparr>)
             else let (rt, failure) = finish_stop failure rt;
                      report = finish_report resubmitted failure rt
                in (rt\<lparr>rt_final_report := Some report\<rparr>, report))"

end
