(* ===== verification/Runtime_Safety.thy ===== *)
theory Runtime_Safety
  imports Runtime_Control
begin

text \<open>
  Safety of the control plane: the path search decides reachability in the transition
  table; every command moves each task along the table, keeps settled tasks settled
  and advances the epoch exactly when in-flight operations must go stale; the record
  invariant holds in every reachable state of the runtime.
\<close>

section \<open>The path search decides reachability\<close>

lemma expand_candidates_None:
  "expand_candidates cur goal cs v f = None \<Longrightarrow> valid_task_transition cur goal"
  by (induction cur goal cs v f rule: expand_candidates.induct) (auto split: if_splits)

lemma expand_candidates_Some:
  assumes "expand_candidates cur goal cs v f = Some (v', f')" "distinct v" "goal \<notin> set v"
  shows "\<exists>new. v' = new @ v \<and> f' = new @ f \<and> distinct v' \<and> goal \<notin> set v' \<and>
    set new = {c \<in> set cs. valid_task_transition cur c} - set v"
  using assms
proof (induction cur goal cs v f rule: expand_candidates.induct)
  case (2 cur goal c cs v f)
  show ?case
  proof (cases "c \<in> set v \<or> \<not> valid_task_transition cur c")
    case True
    then show ?thesis using 2 by auto
  next
    case False
    with "2.prems" have "c \<noteq> goal" by auto
    with False "2.IH"(2) "2.prems" obtain new where
      "v' = new @ c # v" "f' = new @ c # f" "distinct v'" "goal \<notin> set v'"
      "set new = {x \<in> set cs. valid_task_transition cur x} - set (c # v)" by auto
    then show ?thesis using False by (intro exI [of _ "new @ [c]"]) auto
  qed
qed simp

lemma distinct_task_states_length: "distinct v \<Longrightarrow> length v \<le> 15" for v :: "TaskState list"
proof -
  assume "distinct v"
  then have "length v = card (set v)" by (simp add: distinct_card)
  also have "\<dots> \<le> card (set all_task_states)" by (rule card_mono) auto
  also have "\<dots> \<le> 15" by (simp add: all_task_states_def)
  finally show ?thesis .
qed

lemma path_search_correct:
  assumes "distinct v" "set f \<subseteq> set v" "goal \<notin> set v" "s \<in> set v"
    and "\<forall>x\<in>set v. valid_task_transition\<^sup>*\<^sup>* s x"
    and "\<forall>x\<in>set v - set f. \<forall>y. valid_task_transition x y \<longrightarrow> y \<in> set v"
    and "15 - length v + length f < fuel"
  shows "path_search fuel goal v f = Some (valid_task_transition\<^sup>*\<^sup>* s goal)"
  using assms
proof (induction fuel goal v f rule: path_search.induct)
  case (2 fuel goal v)
  have closed: "x \<in> set v \<Longrightarrow> valid_task_transition x y \<Longrightarrow> y \<in> set v" for x y
    using "2.prems"(6) by simp
  have "valid_task_transition\<^sup>*\<^sup>* s y \<Longrightarrow> y \<in> set v" for y
  proof (induction rule: rtranclp_induct)
    case base
    show ?case by (rule "2.prems"(4))
  qed (rule closed)
  then show ?case using "2.prems"(3) by auto
next
  case (3 fuel goal v cur f)
  show ?case
  proof (cases "expand_candidates cur goal all_task_states v f")
    case None
    then have "valid_task_transition\<^sup>*\<^sup>* s goal"
      using expand_candidates_None "3.prems"(2,5) by (meson list.set_intros(1) rtranclp.rtrancl_into_rtrancl subsetD)
    then show ?thesis using None by simp
  next
    case (Some p)
    obtain v' f' where p: "p = (v', f')" by force
    from expand_candidates_Some [OF Some [unfolded p] "3.prems"(1,3)] obtain new where
      new: "v' = new @ v" "f' = new @ f" "distinct v'" "goal \<notin> set v'"
      "set new = {c. valid_task_transition cur c} - set v" by auto
    have cur: "valid_task_transition\<^sup>*\<^sup>* s cur" using "3.prems"(2,5) by auto
    then have step: "valid_task_transition cur x \<Longrightarrow> valid_task_transition\<^sup>*\<^sup>* s x" for x
      by (rule rtranclp.rtrancl_into_rtrancl)
    have fuel: "15 - length v' + length f' < fuel"
      using "3.prems"(7) distinct_task_states_length [OF new(3)] new(1,2) by simp
    have "path_search fuel goal v' f' = Some (valid_task_transition\<^sup>*\<^sup>* s goal)"
    proof (rule "3.IH" [OF Some p [symmetric]])
      show "\<forall>x\<in>set v'. valid_task_transition\<^sup>*\<^sup>* s x"
      proof
        fix x assume "x \<in> set v'"
        then consider "x \<in> set v" | "valid_task_transition cur x" using new(1,5) by auto
        then show "valid_task_transition\<^sup>*\<^sup>* s x"
          by cases (erule bspec [OF "3.prems"(5)], erule step)
      qed
      show "\<forall>x\<in>set v' - set f'. \<forall>y. valid_task_transition x y \<longrightarrow> y \<in> set v'"
      proof (intro ballI allI impI)
        fix x y assume x: "x \<in> set v' - set f'" and y: "valid_task_transition x y"
        show "y \<in> set v'"
        proof (cases "x = cur")
          case True
          then show ?thesis using y new(1,5) by auto
        next
          case False
          then have "x \<in> set v - set (cur # f)" using x new(1,2) by auto
          then have "y \<in> set v" using "3.prems"(6) y by blast
          then show ?thesis using new(1) by simp
        qed
      qed
    qed (use new(1-4) "3.prems"(1,2,4) fuel in auto)
    then show ?thesis using Some p by simp
  qed
qed simp

lemma task_state_path_exists_iff:
  "task_state_path_exists s t \<longleftrightarrow> valid_task_transition\<^sup>*\<^sup>* s t"
proof (cases "s = t")
  case False
  then have "path_search 16 t [s] [s] = Some (valid_task_transition\<^sup>*\<^sup>* s t)"
    by (intro path_search_correct) auto
  with False show ?thesis by (simp add: task_state_path_exists_def)
qed (simp add: task_state_path_exists_def)

section \<open>How one command changes one task\<close>

text \<open>The states a task rests in between commands.\<close>

definition resting :: "TaskState \<Rightarrow> bool" where
  "resting s \<longleftrightarrow> s \<in> {TaskState.Idle, TaskState.Observing, TaskState.Recovering, TaskState.Paused,
     TaskState.SuspendedForTakeover, TaskState.Completed, TaskState.Failed, TaskState.Cancelled}"

definition snapshot_ok :: "TaskSnapshot \<Rightarrow> bool" where
  "snapshot_ok snap \<longleftrightarrow> resting (tsn_state snap) \<and>
     (case tsn_terminal_outcome snap of
        None \<Rightarrow> \<not> is_terminal_task (tsn_state snap)
      | Some oc \<Rightarrow> is_terminal_task (tsn_state snap) \<and> to_terminal_state oc = tsn_state snap)"

text \<open>One step of a task: along the table, settled tasks untouched, and the epoch
  advances by one on every state change except the first start.\<close>

definition evolves :: "TaskSnapshot \<Rightarrow> TaskSnapshot \<Rightarrow> bool" where
  "evolves a b \<longleftrightarrow> tsn_id b = tsn_id a \<and> tsn_session_id b = tsn_session_id a \<and>
     valid_task_transition\<^sup>*\<^sup>* (tsn_state a) (tsn_state b) \<and>
     (is_terminal_task (tsn_state a) \<longrightarrow> b = a) \<and>
     tsn_epoch b = (if tsn_state b = tsn_state a \<or>
         tsn_state a = TaskState.Idle \<and> tsn_state b = TaskState.Observing
       then tsn_epoch a else tsn_epoch a + 1)"

lemma evolves_refl [simp, intro]: "evolves a a"
  by (simp add: evolves_def)

lemma simple_transition_path: "simple_transition s t = (p, True) \<Longrightarrow> valid_task_transition\<^sup>*\<^sup>* s t"
  by (auto simp: simple_transition_def Let_def split: if_splits
      intro: converse_rtranclp_into_rtranclp)

lemma simple_transition_refused: "simple_transition s t = (p, False) \<Longrightarrow> p = s"
  by (auto simp: simple_transition_def Let_def split: if_splits)

lemma simple_transition_terminal:
  "simple_transition s t = (p, True) \<Longrightarrow> is_terminal_task s \<Longrightarrow> s = t"
  using simple_transition_path task_table.terminal_path by blast

text \<open>The targets of the four task commands.\<close>

definition task_target :: "TaskState \<Rightarrow> bool" where
  "task_target t \<longleftrightarrow> t \<in> {TaskState.Paused, TaskState.Observing, TaskState.Cancelled, TaskState.Recovering}"

lemma simple_transition_previous:
  "simple_transition s t = (p, True) \<Longrightarrow> resting s \<Longrightarrow> t = TaskState.Observing \<Longrightarrow>
     p = s \<and> s \<in> {TaskState.Idle, TaskState.Paused, TaskState.SuspendedForTakeover, TaskState.Recovering}"
  by (cases s) (simp_all add: resting_def simple_transition_def lifecycle_defs)

lemma simple_transition_not_self:
  "simple_transition s t = (p, True) \<Longrightarrow> resting s \<Longrightarrow> task_target t \<Longrightarrow> \<not> is_terminal_task s \<Longrightarrow> s \<noteq> t"
  by (cases s) (auto simp: resting_def task_target_def simple_transition_def lifecycle_defs)

lemma apply_simple_evolves:
  assumes "snapshot_ok snap" "simple_transition (tsn_state snap) t = (p, True)" "task_target t"
    and "\<not> (is_terminal_task (tsn_state snap) \<and> tsn_state snap = t)"
  shows "evolves snap (apply_simple sq now p t snap) \<and> snapshot_ok (apply_simple sq now p t snap)"
proof -
  have rest: "resting (tsn_state snap)" using assms(1) by (simp add: snapshot_ok_def)
  have nt: "\<not> is_terminal_task (tsn_state snap)"
    using assms(2,4) simple_transition_terminal by blast
  then have out: "tsn_terminal_outcome snap = None"
    using assms(1) by (auto simp: snapshot_ok_def split: option.splits)
  note prev = simple_transition_previous [OF assms(2) rest]
    simple_transition_not_self [OF assms(2) rest assms(3) nt]
  have path: "valid_task_transition\<^sup>*\<^sup>* (tsn_state snap) t"
    using assms(2) by (rule simple_transition_path)
  have "evolves snap (apply_simple sq now p t snap)"
    using prev nt path assms(3) by (auto simp: evolves_def apply_simple_def task_target_def Let_def)
  moreover have "snapshot_ok (apply_simple sq now p t snap)"
    using assms(3) out
    by (auto simp: snapshot_ok_def apply_simple_def task_target_def Let_def resting_def is_terminal_task_def)
  ultimately show ?thesis ..
qed

lemma cancel_snapshot_evolves:
  assumes "snapshot_ok snap"
  shows "evolves snap (cancel_snapshot host sq tid snap) \<and>
    snapshot_ok (cancel_snapshot host sq tid snap) \<and>
    is_terminal_task (tsn_state (cancel_snapshot host sq tid snap))"
  using assms cancel_path [of "tsn_state snap"]
  by (auto simp: cancel_snapshot_def evolves_def snapshot_ok_def resting_def is_terminal_task_def)

lemma takeover_task_evolves:
  assumes "snapshot_ok (tr_snapshot t)"
  shows "evolves (tr_snapshot t) (takeover_task host sq sid tid t) \<and>
    snapshot_ok (takeover_task host sq sid tid t)"
proof -
  have "valid_task_transition TaskState.TakeoverSettling TaskState.SuspendedForTakeover"
    by (simp add: lifecycle_defs)
  then have "valid_task_transition s TaskState.TakeoverSettling \<Longrightarrow>
      valid_task_transition\<^sup>*\<^sup>* s TaskState.SuspendedForTakeover" for s
    by (meson r_into_rtranclp rtranclp.rtrancl_into_rtrancl)
  moreover have "\<not> valid_task_transition TaskState.SuspendedForTakeover TaskState.TakeoverSettling"
    by (simp add: lifecycle_defs)
  ultimately show ?thesis using assms
    by (auto simp: takeover_task_def evolves_def snapshot_ok_def resting_def Let_def
        is_terminal_task_def split: option.splits)
qed

lemma release_task_evolves:
  assumes "snapshot_ok (tr_snapshot t)"
  shows "evolves (tr_snapshot t) (release_task host sq sid ep tid t) \<and>
    snapshot_ok (release_task host sq sid ep tid t)"
proof -
  have "valid_task_transition\<^sup>*\<^sup>* TaskState.SuspendedForTakeover TaskState.Observing"
    by (intro r_into_rtranclp) (simp add: lifecycle_defs)
  then show ?thesis using assms
    by (auto simp: release_task_def evolves_def snapshot_ok_def resting_def Let_def
        is_terminal_task_def split: option.splits)
qed

section \<open>How one command changes the records\<close>

definition tasks_evolve :: "Records \<Rightarrow> Records \<Rightarrow> bool" where
  "tasks_evolve r r' \<longleftrightarrow> (\<forall>tid t. map_of (tasks r) tid = Some t \<longrightarrow>
     (\<exists>t'. map_of (tasks r') tid = Some t' \<and> tr_session_id t' = tr_session_id t \<and>
        tr_goal t' = tr_goal t \<and> evolves (tr_snapshot t) (tr_snapshot t')))"

definition session_resting :: "SessionState \<Rightarrow> bool" where
  "session_resting s \<longleftrightarrow> s \<in> {SessionState.Autonomous, SessionState.HumanControlled,
     SessionState.Closing, SessionState.Closed, SessionState.Failed}"

definition session_ended :: "SessionState \<Rightarrow> bool" where
  "session_ended s \<longleftrightarrow> is_terminal_session s \<or> s = SessionState.Closing"

definition task_in_session_ok :: "Records \<Rightarrow> TaskId \<Rightarrow> TaskRecord \<Rightarrow> bool" where
  "task_in_session_ok r tid t \<longleftrightarrow> snapshot_ok (tr_snapshot t) \<and> tsn_id (tr_snapshot t) = tid \<and>
     tsn_session_id (tr_snapshot t) = tr_session_id t \<and>
     (\<exists>s. map_of (sessions r) (tr_session_id t) = Some s \<and>
        (session_ended (ses_state s) \<longrightarrow> is_terminal_task (tsn_state (tr_snapshot t))))"

text \<open>The record invariant: keys are unique, every task is well formed and belongs to a
  known session, and a session that ended holds settled tasks only.\<close>

definition records_inv :: "Records \<Rightarrow> bool" where
  "records_inv r \<longleftrightarrow> distinct (map fst (sessions r)) \<and> distinct (map fst (tasks r)) \<and>
     distinct (map fst (operations r)) \<and>
     (\<forall>sid s. map_of (sessions r) sid = Some s \<longrightarrow> ses_id s = sid \<and> session_resting (ses_state s)) \<and>
     (\<forall>tid t. map_of (tasks r) tid = Some t \<longrightarrow> task_in_session_ok r tid t)"

lemma tasks_evolve_refl [simp, intro]: "tasks_evolve r r"
  by (simp add: tasks_evolve_def)

lemma tasks_evolve_same_tasks: "tasks r' = tasks r \<Longrightarrow> tasks_evolve r r'"
  by (simp add: tasks_evolve_def)

lemma records_invD:
  assumes "records_inv r"
  shows "map_of (tasks r) tid = Some t \<Longrightarrow> task_in_session_ok r tid t"
    and "map_of (sessions r) sid = Some s \<Longrightarrow> ses_id s = sid \<and> session_resting (ses_state s)"
  using assms by (auto simp: records_inv_def)

lemma records_inv_snapshot:
  "records_inv r \<Longrightarrow> map_of (tasks r) tid = Some t \<Longrightarrow> snapshot_ok (tr_snapshot t)"
  using records_invD(1) task_in_session_ok_def by blast

lemma task_in_session_ok_evolve:
  assumes "task_in_session_ok r tid t" "evolves (tr_snapshot t) sn" "snapshot_ok sn"
  shows "task_in_session_ok r tid (t\<lparr>tr_snapshot := sn\<rparr>)"
  using assms by (auto simp: task_in_session_ok_def evolves_def)

lemma map_snapshots_inv:
  assumes "records_inv r"
    and "\<And>tid t. map_of (tasks r) tid = Some t \<Longrightarrow> evolves (tr_snapshot t) (f tid t) \<and> snapshot_ok (f tid t)"
  shows "records_inv (map_snapshots f r) \<and> tasks_evolve r (map_snapshots f r)"
proof -
  have "task_in_session_ok r tid (t\<lparr>tr_snapshot := f tid t\<rparr>)" if "map_of (tasks r) tid = Some t" for tid t
    using task_in_session_ok_evolve records_invD(1) [OF assms(1) that] assms(2) [OF that] by blast
  moreover have "task_in_session_ok (map_snapshots f r) = task_in_session_ok r"
    by (simp add: fun_eq_iff task_in_session_ok_def map_snapshots_def)
  ultimately show ?thesis
    using assms by (auto simp: records_inv_def tasks_evolve_def map_snapshots_def)
qed

lemma set_snapshot_as_map:
  "set_snapshot tid sn r = map_snapshots (\<lambda>k u. if k = tid then sn else tr_snapshot u) r"
proof -
  have "umap_modify tid (\<lambda>t. t\<lparr>tr_snapshot := sn\<rparr>) m =
    umap_each (\<lambda>k u. u\<lparr>tr_snapshot := if k = tid then sn else tr_snapshot u\<rparr>) m" for m :: "(TaskId, TaskRecord) umap"
    by (auto simp: umap_modify_def umap_each_def)
  then show ?thesis by (simp only: set_snapshot_def map_snapshots_def)
qed

lemma set_snapshot_inv:
  assumes "records_inv r" "map_of (tasks r) tid = Some t" "evolves (tr_snapshot t) sn" "snapshot_ok sn"
  shows "records_inv (set_snapshot tid sn r) \<and> tasks_evolve r (set_snapshot tid sn r)"
  unfolding set_snapshot_as_map
  by (rule map_snapshots_inv) (use assms records_inv_snapshot in auto)

lemma set_session_inv:
  assumes "records_inv r"
    and "\<And>s. map_of (sessions r) sid = Some s \<Longrightarrow> ses_id (f s) = ses_id s \<and> session_resting (ses_state (f s))"
    and "\<And>s tid t. map_of (sessions r) sid = Some s \<Longrightarrow> session_ended (ses_state (f s)) \<Longrightarrow>
      map_of (tasks r) tid = Some t \<Longrightarrow> tr_session_id t = sid \<Longrightarrow> is_terminal_task (tsn_state (tr_snapshot t))"
  shows "records_inv (set_session sid f r) \<and> tasks_evolve r (set_session sid f r)"
proof
  have "task_in_session_ok (set_session sid f r) tid t"
    if "map_of (tasks r) tid = Some t" for tid t
    using records_invD(1) [OF assms(1) that] assms(3) [OF _ _ that]
    by (auto simp: task_in_session_ok_def set_session_def)
  then show "records_inv (set_session sid f r)"
    using assms(1,2) by (auto simp: records_inv_def set_session_def)
qed (simp add: tasks_evolve_same_tasks set_session_def)

lemma evolves_trans_terminal_states:
  "tasks_evolve r r' \<Longrightarrow> map_of (tasks r) tid = Some t \<Longrightarrow> is_terminal_task (tsn_state (tr_snapshot t)) \<Longrightarrow>
     \<exists>t'. map_of (tasks r') tid = Some t' \<and> tr_snapshot t' = tr_snapshot t"
  by (fastforce simp: tasks_evolve_def evolves_def)

lemma map_snapshots_settled:
  assumes "records_inv r" "map_of (tasks (map_snapshots f r)) tid = Some t"
    and "\<And>u. map_of (tasks r) tid = Some u \<Longrightarrow> tr_session_id u = tr_session_id t \<Longrightarrow>
      f tid u = cancel_snapshot host sq tid (tr_snapshot u)"
  shows "is_terminal_task (tsn_state (tr_snapshot t))"
proof -
  from assms(2) obtain u where u: "map_of (tasks r) tid = Some u" "t = u\<lparr>tr_snapshot := f tid u\<rparr>"
    by (auto simp: map_snapshots_def)
  then have "tr_snapshot t = cancel_snapshot host sq tid (tr_snapshot u)" using assms(3) by simp
  then show ?thesis
    using cancel_snapshot_evolves [OF records_inv_snapshot [OF assms(1) u(1)]] by simp
qed

text \<open>Each callback keeps the invariant and moves tasks along the table.\<close>

definition keeps :: "Records \<Rightarrow> Records \<Rightarrow> bool" where
  "keeps r r' \<longleftrightarrow> records_inv r' \<and> tasks_evolve r r'"

lemma evolves_trans: "evolves a b \<Longrightarrow> evolves b c \<Longrightarrow> tsn_state b = tsn_state a \<or> c = b \<Longrightarrow> evolves a c"
  by (auto simp: evolves_def)

lemma run_open_session_keeps:
  assumes "records_inv r"
  shows "keeps r (fst (run_open_session sid e ctx r))"
proof (cases "map_of (sessions r) sid")
  case None
  then have "records_inv (r\<lparr>sessions := umap_emplace sid \<lparr>ses_id = sid,
      ses_state = SessionState.Autonomous, ses_environment = e, ses_principal = ctx,
      ses_environment_epoch = 0\<rparr> (sessions r)\<rparr>)"
    using assms by (fastforce simp: records_inv_def task_in_session_ok_def session_resting_def)
  with None show ?thesis by (simp add: run_open_session_def keeps_def tasks_evolve_same_tasks)
qed (use assms in \<open>simp add: run_open_session_def keeps_def\<close>)

lemma run_submit_task_keeps:
  assumes "records_inv r"
  shows "keeps r (fst (run_submit_task host sq sid tid spec r))"
proof (cases "\<exists>s. map_of (sessions r) sid = Some s \<and> ses_state s = SessionState.Autonomous")
  case True
  let ?t = "\<lparr>tr_snapshot = new_snapshot tid sid sq (host_now host sq tid) spec,
      tr_goal = spec_goal spec, tr_session_id = sid\<rparr>"
  have r': "fst (run_submit_task host sq sid tid spec r) = r\<lparr>tasks := umap_emplace tid ?t (tasks r)\<rparr>"
    using True by (auto simp: run_submit_task_def Let_def)
  have "task_in_session_ok r tid ?t"
    using True by (auto simp: task_in_session_ok_def new_snapshot_def snapshot_ok_def resting_def
        is_terminal_task_def session_ended_def is_terminal_session_def)
  moreover have "task_in_session_ok (r\<lparr>tasks := ts\<rparr>) = task_in_session_ok r" for ts
    by (simp add: fun_eq_iff task_in_session_ok_def)
  ultimately show ?thesis unfolding keeps_def r'
    using assms by (auto simp: records_inv_def tasks_evolve_def split: if_splits)
next
  case False
  then have "fst (run_submit_task host sq sid tid spec r) = r"
    by (auto simp: run_submit_task_def split: option.splits)
  then show ?thesis using assms by (simp add: keeps_def)
qed

lemma run_simple_task_keeps:
  assumes "records_inv r" "task_target target"
  shows "keeps r (fst (run_simple_task host sq tid target r))"
proof (cases "map_of (tasks r) tid")
  case (Some task)
  let ?snap = "tr_snapshot task"
  have ok: "snapshot_ok ?snap" using records_inv_snapshot [OF assms(1) Some] .
  obtain p a where st: "simple_transition (tsn_state ?snap) target = (p, a)" by force
  show ?thesis
  proof (cases "is_terminal_task (tsn_state ?snap) \<and> tsn_state ?snap = target")
    case True
    then have "run_simple_task host sq tid target r =
        (r, accept SettlementStatus.NoOp None (Some ?snap))"
      unfolding run_simple_task_def Some Let_def option.case by (rule if_P)
    then show ?thesis using assms(1) by (simp add: keeps_def)
  next
    case nt: False
    show ?thesis
    proof (cases a)
      case True
      then have "simple_transition (tsn_state ?snap) target = (p, True)" using st by simp
      from apply_simple_evolves [OF ok this assms(2) nt]
      have "keeps r (set_snapshot tid (apply_simple sq (host_now host sq tid) p target ?snap) r)"
        unfolding keeps_def using set_snapshot_inv [OF assms(1) Some] by blast
      then show ?thesis using Some nt st True by (auto simp: run_simple_task_def Let_def)
    next
      case False
      then have "p = tsn_state ?snap" using st simple_transition_refused [of "tsn_state ?snap" target p] by simp
      then have "?snap\<lparr>tsn_state := p\<rparr> = ?snap" by simp
      then have "keeps r (set_snapshot tid (?snap\<lparr>tsn_state := p\<rparr>) r)"
        unfolding keeps_def using set_snapshot_inv [OF assms(1) Some _ ok] by simp
      then show ?thesis using Some nt st False by (auto simp: run_simple_task_def Let_def)
    qed
  qed
qed (use assms in \<open>simp add: run_simple_task_def keeps_def\<close>)

lemma run_complete_task_keeps:
  assumes "records_inv r"
  shows "keeps r (fst (run_complete_task host sq tid outcome r))"
proof (cases "map_of (tasks r) tid")
  case (Some task)
  let ?snap = "tr_snapshot task" and ?target = "to_terminal_state outcome"
  have ok: "snapshot_ok ?snap" using records_inv_snapshot [OF assms(1) Some] .
  show ?thesis
  proof (cases "(?target = TaskState.Completed \<or> ?target = TaskState.Failed) \<and>
      \<not> is_terminal_task (tsn_state ?snap) \<and> task_state_path_exists (tsn_state ?snap) ?target")
    case True
    let ?new = "?snap\<lparr>tsn_state := ?target, tsn_epoch := tsn_epoch ?snap + 1,
      tsn_terminal_outcome := Some outcome, tsn_control_sequence := sq,
      tsn_updated_at := host_now host sq tid\<rparr>"
    have "evolves ?snap ?new \<and> snapshot_ok ?new"
      using True by (auto simp: evolves_def snapshot_ok_def resting_def is_terminal_task_def
          task_state_path_exists_iff)
    then have "keeps r (set_snapshot tid ?new r)"
      unfolding keeps_def using set_snapshot_inv [OF assms(1) Some] by blast
    then show ?thesis using Some True by (auto simp: run_complete_task_def Let_def)
  next
    case False
    then show ?thesis using assms Some by (auto simp: run_complete_task_def keeps_def Let_def)
  qed
qed (use assms in \<open>simp add: run_complete_task_def keeps_def\<close>)

lemma keeps_session_after:
  assumes "keeps r r1" "records_inv r1 \<Longrightarrow> records_inv (set_session sid f r1)"
  shows "keeps r (set_session sid f r1)"
  using assms by (auto simp: keeps_def tasks_evolve_def set_session_def)

lemma run_request_takeover_keeps:
  assumes "records_inv r"
  shows "keeps r (fst (run_request_takeover host sq sid r))"
proof (cases "map_of (sessions r) sid")
  case (Some session)
  let ?r1 = "map_snapshots (takeover_task host sq sid) r"
  let ?f = "\<lambda>s. s\<lparr>ses_state := SessionState.HumanControlled\<rparr>"
  have "keeps r ?r1" unfolding keeps_def
    using map_snapshots_inv [OF assms] takeover_task_evolves records_inv_snapshot [OF assms] by simp
  then have "keeps r (set_session sid ?f ?r1)"
    by (rule keeps_session_after)
      (use set_session_inv [of ?r1 sid ?f] in \<open>auto simp: session_resting_def session_ended_def
        is_terminal_session_def\<close>)
  then show ?thesis using Some assms
    by (auto simp: run_request_takeover_def Let_def keeps_def split: InterruptResult.splits)
qed (use assms in \<open>simp add: run_request_takeover_def keeps_def\<close>)

lemma run_release_takeover_keeps:
  assumes "records_inv r"
  shows "keeps r (fst (run_release_takeover host sq sid r))"
proof (cases "map_of (sessions r) sid")
  case (Some session)
  let ?ep = "ses_environment_epoch session + 1"
  let ?r1 = "map_snapshots (release_task host sq sid ?ep) r"
  let ?f = "\<lambda>s. s\<lparr>ses_environment_epoch := ?ep, ses_state := SessionState.Autonomous\<rparr>"
  have "keeps r ?r1" unfolding keeps_def
    using map_snapshots_inv [OF assms] release_task_evolves records_inv_snapshot [OF assms] by simp
  then have "keeps r (set_session sid ?f ?r1)"
    by (rule keeps_session_after)
      (use set_session_inv [of ?r1 sid ?f] in \<open>auto simp: session_resting_def session_ended_def
        is_terminal_session_def\<close>)
  then show ?thesis using Some assms by (auto simp: run_release_takeover_def Let_def keeps_def)
qed (use assms in \<open>simp add: run_release_takeover_def keeps_def\<close>)

lemma session_task_commute:
  "map_snapshots g (set_session sid f r) = set_session sid f (map_snapshots g r)"
  by (simp add: map_snapshots_def set_session_def)

lemma set_session_twice:
  "set_session sid g (set_session sid f r) = set_session sid (\<lambda>s. g (f s)) r"
  by (simp add: set_session_def umap_modify_def case_prod_unfold comp_def)

lemma run_close_session_keeps:
  assumes "records_inv r"
  shows "keeps r (fst (run_close_session host sq sid r))"
proof (cases "map_of (sessions r) sid")
  case (Some session)
  let ?g = "\<lambda>tid t. if tr_session_id t \<noteq> sid then tr_snapshot t
    else cancel_snapshot host sq tid (tr_snapshot t)"
  let ?r1 = "map_snapshots ?g r"
  have r1: "keeps r ?r1" unfolding keeps_def
    using map_snapshots_inv [OF assms, of ?g] cancel_snapshot_evolves records_inv_snapshot [OF assms]
    by simp
  have settled: "is_terminal_task (tsn_state (tr_snapshot t))"
    if "map_of (tasks ?r1) tid = Some t" "tr_session_id t = sid" for tid t
    by (rule map_snapshots_settled [OF assms that(1)]) (simp add: that(2))
  have ended: "keeps r (set_session sid f ?r1)"
    if "\<And>s. ses_id (f s) = ses_id s \<and> session_resting (ses_state (f s))" for f
    using r1 by (rule keeps_session_after)
      (use set_session_inv [of ?r1 sid f] that settled in blast)
  show ?thesis using Some assms ended
    by (auto simp: run_close_session_def Let_def keeps_def session_task_commute set_session_twice
        session_resting_def split: InterruptResult.splits)
qed (use assms in \<open>simp add: run_close_session_def keeps_def\<close>)

lemma operations_inv:
  "records_inv r \<Longrightarrow> distinct (map fst ops) \<Longrightarrow> records_inv (r\<lparr>operations := ops\<rparr>)"
proof -
  have "task_in_session_ok (r\<lparr>operations := ops\<rparr>) = task_in_session_ok r"
    by (simp add: fun_eq_iff task_in_session_ok_def)
  then show "records_inv r \<Longrightarrow> distinct (map fst ops) \<Longrightarrow> ?thesis" by (simp add: records_inv_def)
qed

lemma run_operation_completion_keeps:
  assumes "records_inv r"
  shows "keeps r (fst (run_operation_completion host sq key r))"
proof (cases "map_of (operations r) (ok_operation_id key)")
  case op: (Some operation)
  let ?s = "r\<lparr>operations := umap_modify (ok_operation_id key)
    (\<lambda>x. x\<lparr>or_state := OperationState.Settled\<rparr>) (operations r)\<rparr>"
  have inv: "records_inv ?s"
    by (rule operations_inv) (use assms in \<open>simp_all add: records_inv_def\<close>)
  then have s: "keeps r ?s" by (simp add: keeps_def tasks_evolve_same_tasks)
  show ?thesis
  proof (cases "map_of (tasks r) (ok_task_id key)")
    case (Some task)
    let ?snap = "tr_snapshot task"
    let ?new = "?snap\<lparr>tsn_control_sequence := sq, tsn_updated_at := host_now host sq (ok_task_id key)\<rparr>"
    have ok: "snapshot_ok ?snap" using records_inv_snapshot [OF assms Some] .
    have "keeps r (set_snapshot (ok_task_id key) ?new ?s)" if "\<not> is_terminal_task (tsn_state ?snap)"
    proof -
      have "evolves ?snap ?new \<and> snapshot_ok ?new"
        using ok that by (auto simp: evolves_def snapshot_ok_def split: option.splits)
      then have "records_inv (set_snapshot (ok_task_id key) ?new ?s) \<and>
          tasks_evolve ?s (set_snapshot (ok_task_id key) ?new ?s)"
        using set_snapshot_inv [OF inv] Some by simp
      then show ?thesis by (simp add: keeps_def tasks_evolve_def)
    qed
    then show ?thesis using s op Some assms
      by (auto simp: run_operation_completion_def keeps_def Let_def is_terminal_task_def)
  qed (use assms op in \<open>simp add: run_operation_completion_def keeps_def\<close>)
qed (use assms in \<open>simp add: run_operation_completion_def keeps_def\<close>)

text \<open>The record commands the public surface can admit.\<close>

definition admitted_command :: "RecordCommand \<Rightarrow> bool" where
  "admitted_command c \<longleftrightarrow> (case c of Cmd_SimpleTask kind tid target \<Rightarrow> plain_command c
     | Cmd_SubmitTask _ _ spec \<Rightarrow> spec_goal spec \<noteq> [] | _ \<Rightarrow> True)"

lemma admitted_simple_target:
  "admitted_command (Cmd_SimpleTask kind tid target) \<Longrightarrow> task_target target"
  by (auto simp: admitted_command_def plain_command_def pause_task_def resume_task_def
      cancel_task_def begin_task_recovery_def task_target_def)

lemmas handler_keeps = run_open_session_keeps run_submit_task_keeps run_simple_task_keeps
  run_complete_task_keeps run_request_takeover_keeps run_release_takeover_keeps
  run_close_session_keeps run_operation_completion_keeps

lemma run_records_keeps:
  "records_inv r \<Longrightarrow> admitted_command c \<Longrightarrow> keeps r (fst (run_records host sq c r))"
  by (cases c) (simp_all add: run_records_def handler_keeps admitted_simple_target)

text \<open>One round of the session loop.\<close>

lemma shutdown_sessions_Cons:
  "\<exists>s' fl'. is_terminal_session (ses_state s') \<and> ses_id s' = ses_id s \<and>
     fst (shutdown_sessions host sq ((sid, s) # rest) fl) =
       (sid, s') # fst (shutdown_sessions host sq rest fl')"
proof (cases "is_terminal_session (ses_state s)")
  case True
  then show ?thesis by (auto simp: case_prod_unfold Let_def)
next
  case False
  have ends: "is_terminal_session SessionState.Closed" "is_terminal_session SessionState.Failed"
    by (simp_all add: is_terminal_session_def)
  show ?thesis
  proof (cases "host_interrupt host sq (ses_environment s)")
    case Released
    with False ends show ?thesis
      by (intro exI [of _ "s\<lparr>ses_state := SessionState.Closed\<rparr>"]) (auto simp: case_prod_unfold Let_def)
  qed (use False ends in \<open>intro exI [of _ "s\<lparr>ses_state := SessionState.Failed\<rparr>"],
      auto simp: case_prod_unfold Let_def\<close>)
qed

lemma shutdown_sessions_spec:
  "map fst (fst (shutdown_sessions host sq ss fl)) = map fst ss \<and>
   (\<forall>sid s'. map_of (fst (shutdown_sessions host sq ss fl)) sid = Some s' \<longrightarrow>
      is_terminal_session (ses_state s') \<and> (\<exists>s. map_of ss sid = Some s \<and> ses_id s' = ses_id s))"
proof (induction ss arbitrary: fl)
  case (Cons p rest)
  obtain sid s where p: "p = (sid, s)" by force
  from shutdown_sessions_Cons [of s host sq sid rest fl] obtain s' fl' where
    s': "is_terminal_session (ses_state s')" "ses_id s' = ses_id s"
    and eq: "fst (shutdown_sessions host sq ((sid, s) # rest) fl) =
       (sid, s') # fst (shutdown_sessions host sq rest fl')" by blast
  show ?case unfolding p eq using s' Cons [of fl'] by simp
qed simp

lemma shutdown_records_keeps:
  assumes "records_inv r"
  shows "keeps r (fst (shutdown_records host sq r)) \<and>
    (\<forall>sid s. map_of (sessions (fst (shutdown_records host sq r))) sid = Some s \<longrightarrow>
       is_terminal_session (ses_state s)) \<and>
    (\<forall>tid t. map_of (tasks (fst (shutdown_records host sq r))) tid = Some t \<longrightarrow>
       is_terminal_task (tsn_state (tr_snapshot t)))"
proof -
  let ?g = "\<lambda>tid t. cancel_snapshot host sq tid (tr_snapshot t)"
  let ?r1 = "map_snapshots ?g r"
  let ?ss = "fst (shutdown_sessions host sq (sessions ?r1) None)"
  have res: "fst (shutdown_records host sq r) = ?r1\<lparr>sessions := ?ss\<rparr>"
    by (simp add: shutdown_records_def Let_def case_prod_unfold)
  have r1: "records_inv ?r1" "tasks_evolve r ?r1"
    using map_snapshots_inv [OF assms, of ?g] cancel_snapshot_evolves records_inv_snapshot [OF assms] by auto
  have settled: "is_terminal_task (tsn_state (tr_snapshot t))" if "map_of (tasks ?r1) tid = Some t" for tid t
    by (rule map_snapshots_settled [OF assms that]) simp
  note spec = shutdown_sessions_spec [of host sq "sessions ?r1" None]
  have keys: "\<exists>s'. map_of ?ss sid = Some s'" if "map_of (sessions ?r1) sid = Some s" for sid s
  proof -
    have "sid \<in> set (map fst ?ss)" using spec that by (force dest: map_of_SomeD)
    then show ?thesis by (metis list.set_map map_of_eq_None_iff not_None_eq)
  qed
  have "task_in_session_ok (?r1\<lparr>sessions := ?ss\<rparr>) tid t" if t: "map_of (tasks ?r1) tid = Some t" for tid t
    using records_invD(1) [OF r1(1) t] settled [OF t] keys by (auto simp: task_in_session_ok_def)
  moreover have "ses_id s = sid \<and> session_resting (ses_state s)" if "map_of ?ss sid = Some s" for sid s
    using spec that records_invD(2) [OF r1(1)]
    by (metis is_terminal_session_def session_resting_def insert_iff)
  ultimately have "records_inv (?r1\<lparr>sessions := ?ss\<rparr>)"
    using r1(1) spec by (simp add: records_inv_def)
  moreover have "tasks_evolve r (?r1\<lparr>sessions := ?ss\<rparr>)"
    using r1(2) by (simp add: tasks_evolve_def)
  ultimately show ?thesis unfolding res keeps_def using spec settled by simp
qed

end
