(* ===== verification/Runtime_Steps.thy ===== *)
theory Runtime_Steps
  imports Runtime_Safety
begin

text \<open>
  The runtime as a transition system: a step is one call of the public surface, or the
  control context running its oldest admitted command. The invariant couples the queue,
  the handles and the records; it is shown for every operation and by rule induction for
  every reachable state. Identifiers drawn for a new handle are fresh, which is what the
  122 random bits of \<open>Id128::generate\<close> are for.
\<close>

section \<open>The invariant of the whole runtime\<close>

definition handle_pending :: "Runtime \<Rightarrow> CommandId \<Rightarrow> Command \<Rightarrow> bool" where
  "handle_pending rt cid c \<longleftrightarrow> (\<exists>h. map_of (rt_handles rt) cid = Some h \<and>
     h_kind h = command_kind c \<and> h_receipt h = None \<and> h_outcome h = None)"

definition handle_settled :: "Runtime \<Rightarrow> CommandId \<Rightarrow> bool" where
  "handle_settled rt cid \<longleftrightarrow> (\<exists>h. map_of (rt_handles rt) cid = Some h \<and>
     h_receipt h \<noteq> None \<and> h_outcome h \<noteq> None)"

definition command_ok :: "Command \<Rightarrow> bool" where
  "command_ok c \<longleftrightarrow> (case c of Cmd_Records rc \<Rightarrow> admitted_command rc | Cmd_Shutdown \<Rightarrow> True)"

text \<open>The part of the invariant that the shutdown loop keeps while it takes the command
  list apart.\<close>

definition queue_inv :: "Runtime \<Rightarrow> bool" where
  "queue_inv rt \<longleftrightarrow> records_inv (rt_records rt) \<and> distinct (map fst (rt_queue rt)) \<and>
     (\<forall>cid c. (cid, c) \<in> set (rt_queue rt) \<longrightarrow> handle_pending rt cid c \<and> command_ok c)"

definition listed_inv :: "Runtime \<Rightarrow> bool" where
  "listed_inv rt \<longleftrightarrow> fst ` set (rt_queue rt) \<subseteq> set (rt_commands rt) \<and>
     (\<forall>cid\<in>set (rt_commands rt). cid \<in> fst ` set (rt_queue rt) \<or> handle_settled rt cid)"

definition rt_inv :: "Runtime \<Rightarrow> bool" where
  "rt_inv rt \<longleftrightarrow> queue_inv rt \<and> listed_inv rt"

definition init_runtime :: "RuntimeConfig \<Rightarrow> Runtime" where
  "init_runtime cfg = \<lparr>rt_config = cfg, rt_state = RuntimeState.Constructed,
     rt_executor_initialized = False, rt_control_sequence = 0,
     rt_records = \<lparr>sessions = [], tasks = [], operations = []\<rparr>, rt_handles = [], rt_queue = [],
     rt_commands = [], rt_shutdown_command = None, rt_final_report = None\<rparr>"

definition fresh :: "CommandId \<Rightarrow> Runtime \<Rightarrow> bool" where
  "fresh cid rt \<longleftrightarrow> map_of (rt_handles rt) cid = None"

inductive rt_step :: "Host \<Rightarrow> Runtime \<Rightarrow> Runtime \<Rightarrow> bool" for host where
  initialize: "rt_step host rt (fst (initialize v rt))"
| open_session: "fresh cid rt \<Longrightarrow> rt_step host rt (fst (open_session v cid sid e ctx rt))"
| submit_task: "fresh cid rt \<Longrightarrow> rt_step host rt (fst (submit_task v cid tid sid spec rt))"
| command: "fresh cid rt \<Longrightarrow> plain_command c \<Longrightarrow>
    rt_step host rt (fst (enqueue_admitted v cid (Cmd_Records c) rt))"
| execute: "rt_step host rt (execute_next host rt)"
| begin_operation: "rt_step host rt (fst (begin_operation tid stp oid rt))"
| request_shutdown: "fresh cid rt \<Longrightarrow> rt_step host rt (fst (request_shutdown v cid rt))"
| finish_shutdown: "fresh (fin_cid inp) rt \<Longrightarrow> fresh (fin_retry_cid inp) rt \<Longrightarrow>
    fin_cid inp \<noteq> fin_retry_cid inp \<Longrightarrow> rt_step host rt (fst (finish_shutdown host inp rt))"

definition reachable :: "Host \<Rightarrow> Runtime \<Rightarrow> bool" where
  "reachable host rt \<longleftrightarrow> (\<exists>cfg. (rt_step host)\<^sup>*\<^sup>* (init_runtime cfg) rt)"

section \<open>Settling one handle\<close>

lemma settle_selectors [simp]:
  "rt_records (set_receipt cid kind status sq err rt) = rt_records rt"
  "rt_commands (set_receipt cid kind status sq err rt) = rt_commands rt"
  "rt_state (set_receipt cid kind status sq err rt) = rt_state rt"
  "rt_records (set_outcome cid st err2 task rt) = rt_records rt"
  "rt_commands (set_outcome cid st err2 task rt) = rt_commands rt"
  "rt_state (set_outcome cid st err2 task rt) = rt_state rt"
  by (simp_all add: set_receipt_def set_outcome_def)

lemma settle_other:
  assumes "cid' \<noteq> cid"
  shows "map_of (rt_handles (set_outcome cid st err2 task (set_receipt cid kind status sq err rt))) cid' =
    map_of (rt_handles rt) cid'"
  using assms by (simp add: set_receipt_def set_outcome_def)

text \<open>The first value of each promise wins.\<close>

lemma settle_self:
  assumes "map_of (rt_handles rt) cid = Some h"
  shows "map_of (rt_handles (set_outcome cid st err2 task (set_receipt cid kind status sq err rt))) cid =
    Some (h\<lparr>h_receipt := Some (case h_receipt h of Some rc \<Rightarrow> rc
              | None \<Rightarrow> \<lparr>rc_id = cid, rc_kind = kind, rc_status = status,
                  rc_control_sequence = sq, rc_error = err\<rparr>),
            h_outcome := Some (case h_outcome h of Some oc \<Rightarrow> oc
              | None \<Rightarrow> \<lparr>oc_id = cid, oc_status = st, oc_error = err2, oc_task = task\<rparr>)\<rparr>)"
  using assms by (cases "h_receipt h"; cases "h_outcome h") (auto simp: set_receipt_def set_outcome_def)

lemma settle_settles:
  assumes "map_of (rt_handles rt) cid \<noteq> None"
  shows "handle_settled (set_outcome cid st err2 task (set_receipt cid kind status sq err rt)) cid"
  using assms by (auto simp: handle_settled_def settle_self)

lemma settle_keeps_settled:
  assumes "handle_settled rt c"
  shows "handle_settled (set_outcome cid st err2 task (set_receipt cid kind status sq err rt)) c"
proof (cases "c = cid")
  case True
  have "map_of (rt_handles rt) c \<noteq> None" using assms by (auto simp: handle_settled_def)
  with True show ?thesis by (simp add: settle_settles)
qed (use assms in \<open>simp add: handle_settled_def settle_other\<close>)

lemma settle_keeps_pending:
  "c \<noteq> cid \<Longrightarrow> handle_pending (set_outcome cid st err2 task (set_receipt cid kind status sq err rt)) c x =
     handle_pending rt c x"
  by (simp add: handle_pending_def settle_other)

lemma run_command_handles [simp]:
  "rt_handles (fst (run_command host sq c rt)) = rt_handles rt"
  "rt_commands (fst (run_command host sq c rt)) = rt_commands rt"
  "rt_queue (fst (run_command host sq c rt)) = rt_queue rt"
  by (auto simp: run_command_def run_shutdown_def state_cell_transition_def Let_def
      split: Command.splits prod.splits option.splits)

lemma run_shutdown_records:
  "rt_records (fst (run_shutdown host sq rt)) = fst (shutdown_records host sq (rt_records rt))"
  by (auto simp: run_shutdown_def state_cell_transition_def Let_def split: prod.splits option.splits)

lemma run_command_keeps:
  assumes "records_inv (rt_records rt)" "command_ok c"
  shows "keeps (rt_records rt) (rt_records (fst (run_command host sq c rt)))"
proof (cases c)
  case (Cmd_Records rc)
  then show ?thesis
    using run_records_keeps [of "rt_records rt" rc host sq] assms
    by (simp add: run_command_def command_ok_def case_prod_unfold Let_def)
next
  case Cmd_Shutdown
  then show ?thesis
    using shutdown_records_keeps [OF assms(1)] by (simp add: run_command_def run_shutdown_records)
qed

lemma handle_pred_cong:
  assumes "rt_handles rt' = rt_handles rt"
  shows "handle_pending rt' = handle_pending rt" "handle_settled rt' = handle_settled rt"
  using assms by (simp_all add: fun_eq_iff handle_pending_def handle_settled_def)

text \<open>The settling part of \<open>execute_next\<close>.\<close>

lemma execute_next_Cons:
  assumes "rt_queue rt = (cid, c) # rest"
  obtains rt1 rp where "run_command host (rt_control_sequence rt + 1) c
      (rt\<lparr>rt_queue := rest, rt_control_sequence := rt_control_sequence rt + 1\<rparr>) = (rt1, rp)"
    "execute_next host rt = set_outcome cid (rp_status rp) (rp_error rp) (rp_task rp)
       (set_receipt cid (command_kind c) (rp_receipt rp) (rt_control_sequence rt + 1)
         (rp_receipt_error rp) rt1)"
  using assms by (force simp: execute_next_def Let_def split: prod.splits)

lemma execute_next_inv:
  assumes "queue_inv rt"
  shows "queue_inv (execute_next host rt) \<and>
    tasks_evolve (rt_records rt) (rt_records (execute_next host rt)) \<and>
    rt_commands (execute_next host rt) = rt_commands rt \<and>
    (\<forall>c. handle_settled rt c \<longrightarrow> handle_settled (execute_next host rt) c) \<and>
    (\<forall>c. c \<in> fst ` set (rt_queue rt) \<longrightarrow>
       c \<in> fst ` set (rt_queue (execute_next host rt)) \<or> handle_settled (execute_next host rt) c)"
proof (cases "rt_queue rt")
  case Nil
  then show ?thesis using assms by (simp add: execute_next_def)
next
  case (Cons p rest)
  obtain cid c where q: "rt_queue rt = (cid, c) # rest" using Cons by (cases p) auto
  let ?sq = "rt_control_sequence rt + 1"
  let ?rt0 = "rt\<lparr>rt_queue := rest, rt_control_sequence := ?sq\<rparr>"
  obtain rt1 rp where run: "run_command host ?sq c ?rt0 = (rt1, rp)"
    and ex: "execute_next host rt = set_outcome cid (rp_status rp) (rp_error rp) (rp_task rp)
       (set_receipt cid (command_kind c) (rp_receipt rp) ?sq (rp_receipt_error rp) rt1)"
    using execute_next_Cons [OF q] .
  have rt1: "rt1 = fst (run_command host ?sq c ?rt0)" using run by simp
  have sel: "rt_handles rt1 = rt_handles rt" "rt_commands rt1 = rt_commands rt" "rt_queue rt1 = rest"
    by (simp_all add: rt1)
  have ok: "command_ok c" "records_inv (rt_records rt)" "distinct (cid # map fst rest)"
    "handle_pending rt cid c"
    using assms q by (auto simp: queue_inv_def)
  have kp: "keeps (rt_records rt) (rt_records rt1)"
    using run_command_keeps [of ?rt0 c host ?sq] ok by (simp add: rt1)
  note pred = handle_pred_cong [OF sel(1)]
  have "handle_settled (execute_next host rt) cid"
    unfolding ex by (rule settle_settles) (use ok(4) sel(1) in \<open>auto simp: handle_pending_def\<close>)
  moreover have "handle_pending (execute_next host rt) k x \<and> command_ok x" if "(k, x) \<in> set rest" for k x
  proof -
    have "k \<noteq> cid" using that ok(3) by force
    moreover have "handle_pending rt k x \<and> command_ok x" using assms q that by (simp add: queue_inv_def)
    ultimately show ?thesis unfolding ex by (simp add: settle_keeps_pending pred)
  qed
  moreover have "handle_settled (execute_next host rt) k" if "handle_settled rt k" for k
    unfolding ex by (rule settle_keeps_settled) (simp add: pred that)
  ultimately show ?thesis
    using kp ok(3) q sel by (auto simp: queue_inv_def keeps_def ex)
qed

text \<open>Every step keeps what earlier commands wrote: settled handles stay settled, tasks
  move along the table.\<close>

definition advances :: "Runtime \<Rightarrow> Runtime \<Rightarrow> bool" where
  "advances rt rt' \<longleftrightarrow> tasks_evolve\<^sup>*\<^sup>* (rt_records rt) (rt_records rt') \<and>
     (\<forall>c. handle_settled rt c \<longrightarrow> handle_settled rt' c)"

lemma advances_refl [simp, intro]: "advances rt rt"
  by (simp add: advances_def)

lemma advances_trans: "advances a b \<Longrightarrow> advances b c \<Longrightarrow> advances a c"
  by (auto simp: advances_def)

lemma execute_next_advances: "queue_inv rt \<Longrightarrow> advances rt (execute_next host rt)"
  using execute_next_inv by (auto simp: advances_def)

lemma execute_next_rt_inv: "rt_inv rt \<Longrightarrow> rt_inv (execute_next host rt)"
proof -
  assume inv: "rt_inv rt"
  then have "fst ` set (tl (rt_queue rt)) \<subseteq> set (rt_commands rt)"
    by (cases "rt_queue rt") (auto simp: rt_inv_def listed_inv_def)
  then show ?thesis
    using inv execute_next_inv [of rt host] unfolding rt_inv_def listed_inv_def
    by (metis rt_queue_execute_next)
qed

section \<open>Admission\<close>

lemma rt_inv_same:
  assumes "rt_inv rt" "rt_handles rt' = rt_handles rt" "rt_queue rt' = rt_queue rt"
    "rt_commands rt' = rt_commands rt" "records_inv (rt_records rt')"
  shows "rt_inv rt'"
  using assms handle_pred_cong [OF assms(2)] by (simp add: rt_inv_def queue_inv_def listed_inv_def)

lemma advances_same:
  "rt_handles rt' = rt_handles rt \<Longrightarrow> rt_records rt' = rt_records rt \<Longrightarrow> advances rt rt'"
  using handle_pred_cong [of rt' rt] by (simp add: advances_def)

lemma queued_not_fresh: "rt_inv rt \<Longrightarrow> (cid, c) \<in> set (rt_queue rt) \<Longrightarrow> \<not> fresh cid rt"
  by (auto simp: rt_inv_def queue_inv_def handle_pending_def fresh_def)

text \<open>A new handle is invisible to the others.\<close>

lemma new_handle_preds:
  assumes "fresh cid rt" "rt_handles rt' = umap_emplace cid h (rt_handles rt)"
  shows "handle_settled rt k \<Longrightarrow> handle_settled rt' k" "handle_pending rt k c \<Longrightarrow> handle_pending rt' k c"
  using assms by (auto simp: fresh_def handle_settled_def handle_pending_def)

lemma rt_inv_new_handle:
  assumes inv: "rt_inv rt" and fr: "fresh cid rt"
    and rt': "rt_handles rt' = umap_emplace cid h (rt_handles rt)" "rt_queue rt' = rt_queue rt"
    "rt_commands rt' = rt_commands rt" "rt_records rt' = rt_records rt"
  shows "rt_inv rt' \<and> advances rt rt'"
  using inv rt' new_handle_preds [OF fr rt'(1)]
  by (auto simp: rt_inv_def queue_inv_def listed_inv_def advances_def)

lemma rt_inv_settle_idle:
  assumes "rt_inv rt" "cid \<notin> fst ` set (rt_queue rt)"
  shows "rt_inv (set_outcome cid st err2 task (set_receipt cid kind status sq err rt))"
    and "advances rt (set_outcome cid st err2 task (set_receipt cid kind status sq err rt))"
proof -
  have "handle_pending (set_outcome cid st err2 task (set_receipt cid kind status sq err rt)) k c"
    if "(k, c) \<in> set (rt_queue rt)" for k c
  proof -
    have "k \<noteq> cid" using assms(2) that by force
    then show ?thesis using assms(1) that by (simp add: settle_keeps_pending rt_inv_def queue_inv_def)
  qed
  then show "rt_inv (set_outcome cid st err2 task (set_receipt cid kind status sq err rt))"
    using assms by (auto simp: rt_inv_def queue_inv_def listed_inv_def settle_keeps_settled)
qed (simp add: advances_def settle_keeps_settled)

definition new_handle :: "CommandId \<Rightarrow> Command \<Rightarrow> Handle" where
  "new_handle cid c = \<lparr>h_id = cid, h_kind = command_kind c, h_receipt = None, h_outcome = None\<rparr>"

lemma rt_inv_admit:
  assumes inv: "rt_inv rt" and fr: "fresh cid rt" and ok: "command_ok c"
    and rt': "rt_handles rt' = umap_emplace cid (new_handle cid c) (rt_handles rt)"
    "rt_queue rt' = rt_queue rt @ [(cid, c)]" "rt_commands rt' = rt_commands rt @ [cid]"
    "rt_records rt' = rt_records rt"
  shows "rt_inv rt' \<and> advances rt rt'"
proof -
  have "cid \<notin> fst ` set (rt_queue rt)" using queued_not_fresh [OF inv] fr by force
  moreover have "handle_pending rt' cid c"
    using fr by (simp add: handle_pending_def rt'(1) fresh_def new_handle_def)
  ultimately show ?thesis
    using inv ok rt' new_handle_preds [OF fr rt'(1)]
    by (auto simp: rt_inv_def queue_inv_def listed_inv_def advances_def)
qed

lemma enqueue_admitted_inv:
  assumes inv: "rt_inv rt" and fr: "fresh cid rt" and ok: "command_ok c"
  shows "rt_inv (fst (enqueue_admitted v cid c rt)) \<and> advances rt (fst (enqueue_admitted v cid c rt))"
proof (cases "rt_state rt \<noteq> RuntimeState.Running \<and> command_kind c \<noteq> CommandKind.ShutdownRuntime")
  case True
  then show ?thesis using inv by (simp add: enqueue_admitted_def Let_def)
next
  case False
  let ?rt1 = "rt\<lparr>rt_handles := umap_emplace cid (new_handle cid c) (rt_handles rt)\<rparr>"
  have rt1: "rt_inv ?rt1" "advances rt ?rt1" using rt_inv_new_handle [OF inv fr] by auto
  have "cid \<notin> fst ` set (rt_queue ?rt1)" using queued_not_fresh [OF inv] fr by force
  note idle = rt_inv_settle_idle [OF rt1(1) this]
  have settled: "rt_inv (set_outcome cid st e2 t (set_receipt cid k s q e ?rt1)) \<and>
      advances rt (set_outcome cid st e2 t (set_receipt cid k s q e ?rt1))" for st e2 t k s q e
    using idle advances_trans [OF rt1(2)] by blast
  have admit: "rt_inv (?rt1\<lparr>rt_queue := rt_queue rt @ [(cid, c)], rt_commands := rt_commands rt @ [cid]\<rparr>) \<and>
      advances rt (?rt1\<lparr>rt_queue := rt_queue rt @ [(cid, c)], rt_commands := rt_commands rt @ [cid]\<rparr>)"
    by (rule rt_inv_admit [OF inv fr ok]) simp_all
  have "fst (enqueue_admitted v cid c rt) =
      (case v of SubmitAccepted \<Rightarrow> ?rt1\<lparr>rt_queue := rt_queue rt @ [(cid, c)],
           rt_commands := rt_commands rt @ [cid]\<rparr>
       | SubmitCapacityExhausted w \<Rightarrow> set_outcome cid SettlementStatus.Failed
           (Some (make_error ErrorCode.ResourceExhausted w True)) None
           (set_receipt cid (command_kind c) ReceiptStatus.Rejected 0
             (Some (make_error ErrorCode.ResourceExhausted w True)) ?rt1)
       | SubmitStopping w \<Rightarrow> set_outcome cid SettlementStatus.Failed
           (Some (make_error ErrorCode.Unavailable w True)) None
           (set_receipt cid (command_kind c) ReceiptStatus.Rejected 0
             (Some (make_error ErrorCode.Unavailable w True)) ?rt1)
       | _ \<Rightarrow> ?rt1)"
    using False by (cases v) (auto simp: enqueue_admitted_def Let_def new_handle_def)
  then show ?thesis using rt1 settled admit by (cases v) simp_all
qed

text \<open>What the admission path leaves alone.\<close>

lemma enqueue_admitted_records [simp]:
  "rt_records (fst (enqueue_admitted v cid c rt)) = rt_records rt"
  by (auto simp: enqueue_admitted_def Let_def split: SubmitVerdict.splits)

lemma submit_shutdown_inv:
  assumes "rt_inv rt" "fresh cid rt"
  shows "rt_inv (fst (submit_shutdown_admitted v cid rt)) \<and>
    advances rt (fst (submit_shutdown_admitted v cid rt))"
proof -
  obtain rt' res where e: "enqueue_admitted v cid Cmd_Shutdown rt = (rt', res)" by force
  have rt': "rt_inv rt'" "advances rt rt'"
    using enqueue_admitted_inv [OF assms, of Cmd_Shutdown v] e by (simp_all add: command_ok_def)
  have up: "rt_inv (rt'\<lparr>rt_shutdown_command := x\<rparr>)" for x
    by (rule rt_inv_same [OF rt'(1)]) (use rt'(1) in \<open>simp_all add: rt_inv_def queue_inv_def\<close>)
  have "advances rt (rt'\<lparr>rt_shutdown_command := x\<rparr>)" for x
    by (rule advances_trans [OF rt'(2)]) (simp add: advances_same)
  then show ?thesis using rt' up by (cases res) (simp_all add: submit_shutdown_admitted_def e)
qed

lemma rt_state_update_inv:
  assumes "rt_inv rt"
  shows "rt_inv (rt\<lparr>rt_state := s\<rparr>) \<and> advances rt (rt\<lparr>rt_state := s\<rparr>)"
proof
  show "rt_inv (rt\<lparr>rt_state := s\<rparr>)"
    by (rule rt_inv_same [OF assms]) (use assms in \<open>simp_all add: rt_inv_def queue_inv_def\<close>)
qed (simp add: advances_same)

lemma request_shutdown_inv:
  assumes "rt_inv rt" "fresh cid rt"
  shows "rt_inv (fst (request_shutdown v cid rt)) \<and> advances rt (fst (request_shutdown v cid rt))"
proof -
  let ?rt = "rt\<lparr>rt_state := RuntimeState.Stopping\<rparr>"
  have st: "rt_inv ?rt" "advances rt ?rt" using rt_state_update_inv [OF assms(1)] by auto
  have "fresh cid ?rt" using assms(2) by (simp add: fresh_def)
  then have "rt_inv (fst (submit_shutdown_admitted v cid ?rt)) \<and>
      advances rt (fst (submit_shutdown_admitted v cid ?rt))"
    using submit_shutdown_inv [OF st(1)] advances_trans [OF st(2)] by blast
  then show ?thesis using assms(1) st
    by (simp add: request_shutdown_def state_cell_transition_def)
qed

lemma initialize_inv:
  assumes "rt_inv rt"
  shows "rt_inv (fst (initialize v rt)) \<and> advances rt (fst (initialize v rt))"
proof -
  have same: "rt_handles (fst (initialize v rt)) = rt_handles rt \<and>
      rt_queue (fst (initialize v rt)) = rt_queue rt \<and>
      rt_commands (fst (initialize v rt)) = rt_commands rt \<and>
      rt_records (fst (initialize v rt)) = rt_records rt"
    by (cases v) (auto simp: initialize_def state_cell_transition_def Let_def)
  have "records_inv (rt_records rt)" using assms by (simp add: rt_inv_def queue_inv_def)
  then show ?thesis using rt_inv_same [OF assms, of "fst (initialize v rt)"] same
    by (simp add: advances_same)
qed

lemma begin_operation_inv:
  assumes "rt_inv rt"
  shows "rt_inv (fst (begin_operation tid stp oid rt)) \<and> advances rt (fst (begin_operation tid stp oid rt))"
proof -
  let ?rt' = "fst (begin_operation tid stp oid rt)"
  have inv: "records_inv (rt_records rt)" using assms by (simp add: rt_inv_def queue_inv_def)
  have same: "rt_handles ?rt' = rt_handles rt \<and> rt_queue ?rt' = rt_queue rt \<and>
      rt_commands ?rt' = rt_commands rt"
    by (auto simp: begin_operation_def Let_def split: option.splits)
  obtain ops where ops: "rt_records ?rt' = rt_records rt\<lparr>operations := ops\<rparr>" "distinct (map fst ops)"
  proof
    let ?ops = "operations (rt_records ?rt')"
    show "rt_records ?rt' = rt_records rt\<lparr>operations := ?ops\<rparr>" "distinct (map fst ?ops)"
      using inv by (auto simp: begin_operation_def Let_def records_inv_def split: option.splits)
  qed
  have "records_inv (rt_records ?rt')" unfolding ops(1) using inv ops(2) by (rule operations_inv)
  moreover have "tasks_evolve (rt_records rt) (rt_records ?rt')"
    by (rule tasks_evolve_same_tasks) (simp add: ops(1))
  ultimately show ?thesis
    using rt_inv_same [OF assms, of ?rt'] same handle_pred_cong [of ?rt' rt]
    by (auto simp: advances_def)
qed

section \<open>The final shutdown\<close>

text \<open>What the loop over the command list keeps: the queue only shrinks, a command that
  leaves it is settled.\<close>

definition drains :: "Runtime \<Rightarrow> Runtime \<Rightarrow> bool" where
  "drains rt rt' \<longleftrightarrow> queue_inv rt' \<and> advances rt rt' \<and> rt_commands rt' = rt_commands rt \<and>
     fst ` set (rt_queue rt') \<subseteq> fst ` set (rt_queue rt) \<and>
     (\<forall>c. c \<in> fst ` set (rt_queue rt) \<longrightarrow> c \<in> fst ` set (rt_queue rt') \<or> handle_settled rt' c)"

lemma drains_trans: "drains a b \<Longrightarrow> drains b c \<Longrightarrow> drains a c"
  unfolding drains_def advances_def by (metis rtranclp_trans subset_trans)

lemma drains_refl [simp]: "queue_inv rt \<Longrightarrow> drains rt rt"
  by (simp add: drains_def)

lemma execute_next_drains: "queue_inv rt \<Longrightarrow> drains rt (execute_next host rt)"
  using execute_next_inv [of rt host] execute_next_advances [of rt host]
  by (cases "rt_queue rt") (auto simp: drains_def)

lemma run_until_drains:
  "queue_inv rt \<Longrightarrow> drains rt (run_until host cid rt) \<and> cid \<notin> fst ` set (rt_queue (run_until host cid rt))"
proof (induction host cid rt rule: run_until.induct)
  case (1 host cid rt)
  show ?case
  proof (cases "cid \<in> fst ` set (rt_queue rt)")
    case True
    have step: "drains rt (execute_next host rt)" using execute_next_drains "1.prems" .
    then have "queue_inv (execute_next host rt)" by (simp add: drains_def)
    with "1.IH" [OF True] drains_trans [OF step] have
      "drains rt (run_until host cid (execute_next host rt)) \<and>
       cid \<notin> fst ` set (rt_queue (run_until host cid (execute_next host rt)))" by blast
    then show ?thesis using True run_until.simps [of host cid rt] by simp
  qed (use "1.prems" in \<open>simp add: run_until.simps\<close>)
qed

lemma drop_drains:
  assumes inv: "queue_inv rt" and q: "cid \<in> fst ` set (rt_queue rt)"
  defines "rt1 \<equiv> rt\<lparr>rt_queue := filter (\<lambda>(c, _). c \<noteq> cid) (rt_queue rt)\<rparr>"
  shows "drains rt (set_outcome cid st err2 task (set_receipt cid kind status sq err rt1))"
proof -
  let ?rt' = "set_outcome cid st err2 task (set_receipt cid kind status sq err rt1)"
  have preds: "handle_settled rt1 = handle_settled rt" "handle_pending rt1 = handle_pending rt"
    by (rule handle_pred_cong; simp add: rt1_def)+
  have queue: "rt_queue ?rt' = filter (\<lambda>(c, _). c \<noteq> cid) (rt_queue rt)" by (simp add: rt1_def)
  have settled: "handle_settled ?rt' cid"
    by (rule settle_settles) (use inv q in \<open>force simp: rt1_def queue_inv_def handle_pending_def\<close>)
  have "handle_pending ?rt' k c \<and> command_ok c" if "(k, c) \<in> set (rt_queue ?rt')" for k c
    using that inv unfolding queue by (auto simp: settle_keeps_pending preds queue_inv_def)
  moreover have "distinct (map fst (rt_queue ?rt'))"
    using inv unfolding queue by (simp add: queue_inv_def distinct_map_filter)
  ultimately have "queue_inv ?rt'" using inv by (simp add: queue_inv_def rt1_def)
  moreover have "advances rt ?rt'"
    using settle_keeps_settled [of rt1] by (simp add: advances_def preds) (simp add: rt1_def)
  ultimately show ?thesis unfolding drains_def queue using settled by (force simp: rt1_def)
qed

lemma consume_one_drains:
  assumes "queue_inv rt"
  shows "drains rt (consume_one host late cid rt) \<and>
    cid \<notin> fst ` set (rt_queue (consume_one host late cid rt))"
  using assms run_until_drains [OF assms] drop_drains [OF assms]
  by (auto simp: consume_one_def Let_def split: option.splits)

lemma fold_consume_drains:
  assumes "queue_inv rt"
  shows "drains rt (fold (consume_one host late) cids rt) \<and>
    fst ` set (rt_queue (fold (consume_one host late) cids rt)) \<inter> set cids = {}"
  using assms
proof (induction cids arbitrary: rt)
  case (Cons cid cids)
  let ?rt1 = "consume_one host late cid rt"
  have one: "drains rt ?rt1" "cid \<notin> fst ` set (rt_queue ?rt1)"
    using consume_one_drains [OF Cons.prems] by auto
  then have rest: "drains ?rt1 (fold (consume_one host late) cids ?rt1)"
    "fst ` set (rt_queue (fold (consume_one host late) cids ?rt1)) \<inter> set cids = {}"
    using Cons.IH [of ?rt1] by (auto simp: drains_def)
  then have "cid \<notin> fst ` set (rt_queue (fold (consume_one host late) cids ?rt1))"
    using one(2) unfolding drains_def by blast
  with rest drains_trans [OF one(1) rest(1)] show ?case by simp
qed simp

text \<open>After the loop nothing is queued, and every command that was listed is settled.\<close>

lemma consume_commands_inv:
  fixes host late
  assumes "rt_inv rt"
  defines "rt' \<equiv> consume_commands host late rt"
  shows "rt_inv rt' \<and> advances rt rt' \<and> rt_queue rt' = [] \<and> (\<forall>c\<in>set (rt_commands rt). handle_settled rt' c)"
proof -
  let ?rt0 = "rt\<lparr>rt_commands := []\<rparr>"
  have pred0: "handle_settled ?rt0 = handle_settled rt" "handle_pending ?rt0 = handle_pending rt"
    by (rule handle_pred_cong; simp)+
  have inv0: "queue_inv ?rt0" using assms(1) by (simp add: rt_inv_def queue_inv_def pred0)
  have dr: "drains ?rt0 rt'" "fst ` set (rt_queue rt') \<inter> set (rt_commands rt) = {}"
    unfolding rt'_def consume_commands_def using fold_consume_drains [OF inv0] by auto
  have "fst ` set (rt_queue rt') \<subseteq> set (rt_commands rt)"
    by (rule subset_trans [of _ "fst ` set (rt_queue rt)"])
      (use dr(1) assms(1) in \<open>simp_all add: drains_def rt_inv_def listed_inv_def\<close>)
  with dr(2) have q: "rt_queue rt' = []" by (cases "rt_queue rt'") auto
  have "handle_settled rt' c" if "c \<in> set (rt_commands rt)" for c
  proof -
    have "c \<in> fst ` set (rt_queue rt) \<or> handle_settled rt c"
      using that assms(1) unfolding rt_inv_def listed_inv_def by blast
    then show ?thesis using dr(1) q by (elim disjE) (simp_all add: drains_def advances_def pred0)
  qed
  moreover have "rt_inv rt'"
    using dr(1) q by (auto simp: rt_inv_def listed_inv_def drains_def)
  moreover have "advances rt rt'" using dr(1) by (simp add: drains_def advances_def pred0)
  ultimately show ?thesis using q by simp
qed

lemma handle_keys_settle [simp]:
  "map fst (rt_handles (set_receipt cid kind status sq err rt)) = map fst (rt_handles rt)"
  "map fst (rt_handles (set_outcome cid st err2 task rt)) = map fst (rt_handles rt)"
  by (simp_all add: set_receipt_def set_outcome_def)

lemma handle_keys_execute [simp]: "map fst (rt_handles (execute_next host rt)) = map fst (rt_handles rt)"
  by (auto simp: execute_next_def Let_def case_prod_unfold split: list.splits)

lemma handle_keys_run_until [simp]: "map fst (rt_handles (run_until host cid rt)) = map fst (rt_handles rt)"
proof (induction host cid rt rule: run_until.induct)
  case (1 host cid rt)
  then show ?case using run_until.simps [of host cid rt] by simp
qed

lemma handle_keys_consume [simp]:
  "map fst (rt_handles (consume_commands host late rt)) = map fst (rt_handles rt)"
proof -
  have one: "map fst (rt_handles (consume_one host late cid rt)) = map fst (rt_handles rt)" for cid rt
    by (simp add: consume_one_def Let_def split: option.splits)
  have "map fst (rt_handles (fold (consume_one host late) cids rt)) = map fst (rt_handles rt)" for cids rt
    by (induction cids arbitrary: rt) (simp_all add: one)
  then show ?thesis by (simp add: consume_commands_def)
qed

lemma fresh_keys: "map fst (rt_handles rt') = map fst (rt_handles rt) \<Longrightarrow> fresh c rt' = fresh c rt"
  unfolding fresh_def map_of_eq_None_iff by (metis list.set_map)

lemma fresh_request_shutdown: "fresh k rt \<Longrightarrow> k \<noteq> cid \<Longrightarrow> fresh k (fst (request_shutdown v cid rt))"
  by (auto simp: request_shutdown_def submit_shutdown_admitted_def enqueue_admitted_def Let_def fresh_def
      state_cell_transition_def set_receipt_def set_outcome_def split: SubmitVerdict.splits prod.splits sum.splits)

lemma finish_request_inv:
  assumes "rt_inv rt" "fresh (fin_cid inp) rt" "fresh (fin_retry_cid inp) rt" "fin_cid inp \<noteq> fin_retry_cid inp"
  shows "rt_inv (fst (finish_request inp rt)) \<and> advances rt (fst (finish_request inp rt)) \<and>
    fresh (fin_retry_cid inp) (fst (finish_request inp rt))"
proof -
  have "fst (finish_request inp rt) = rt \<or>
      fst (finish_request inp rt) = fst (request_shutdown (fin_verdict inp) (fin_cid inp) rt)"
    by (auto simp: finish_request_def split: prod.splits sum.splits)
  then show ?thesis
    using assms request_shutdown_inv [OF assms(1,2)] fresh_request_shutdown [OF assms(3)] by auto
qed

lemma finish_retry_inv:
  assumes "rt_inv rt" "fresh (fin_retry_cid inp) rt"
  shows "rt_inv (fst (finish_retry inp failure rt)) \<and> advances rt (fst (finish_retry inp failure rt))"
proof -
  have "fst (finish_retry inp failure rt) = rt \<or> fst (finish_retry inp failure rt) =
      fst (submit_shutdown_admitted (fin_retry_verdict inp) (fin_retry_cid inp) rt)"
    by (auto simp: finish_retry_def split: prod.splits sum.splits)
  then show ?thesis using assms submit_shutdown_inv [OF assms] by auto
qed

lemma finish_drained_inv:
  assumes "rt_inv rt" "fresh (fin_cid inp) rt" "fresh (fin_retry_cid inp) rt" "fin_cid inp \<noteq> fin_retry_cid inp"
    and d: "finish_drained host inp rt = (rt', res)"
  shows "rt_inv rt' \<and> advances rt rt' \<and> rt_queue rt' = []"
proof -
  obtain rt1 f where r1: "finish_request inp rt = (rt1, f)" by (cases "finish_request inp rt")
  let ?rt2 = "consume_commands host (fin_late inp) rt1"
  obtain rt3 x y where r3: "finish_retry inp f ?rt2 = (rt3, x, y)" by (cases "finish_retry inp f ?rt2")
  have i1: "rt_inv rt1" "advances rt rt1" "fresh (fin_retry_cid inp) rt1"
    using finish_request_inv [OF assms(1-4)] r1 by auto
  have i2: "rt_inv ?rt2" "advances rt1 ?rt2" using consume_commands_inv [OF i1(1)] by auto
  have "fresh (fin_retry_cid inp) ?rt2" using i1(3) fresh_keys [of ?rt2 rt1] by simp
  then have i3: "rt_inv rt3" "advances ?rt2 rt3"
    using finish_retry_inv [OF i2(1), of inp f] r3 by auto
  have "rt' = consume_commands host (fin_late inp) rt3"
    using d by (simp add: finish_drained_def r1 r3)
  then show ?thesis
    using consume_commands_inv [OF i3(1), of host "fin_late inp"] i1(2) i2(2) i3(2) advances_trans by metis
qed

text \<open>The two final transitions change the state cell only.\<close>

lemma finish_settle_state: "\<exists>s. fst (finish_settle f rt) = rt\<lparr>rt_state := s\<rparr>"
  by (auto simp: finish_settle_def state_cell_transition_def intro: exI [of _ "rt_state rt"])

lemma finish_stop_state: "\<exists>s. fst (finish_stop f rt) = rt\<lparr>rt_state := s\<rparr>"
  by (auto simp: finish_stop_def state_cell_transition_def intro: exI [of _ "rt_state rt"])

lemma finish_shutdown_cases:
  assumes "\<not> fin_in_callback inp" "rt_final_report rt = None"
    and d: "finish_drained host inp rt = (rt', res)"
  shows "\<exists>s rep. fst (finish_shutdown host inp rt) = rt'\<lparr>rt_state := s, rt_final_report := rep\<rparr>"
proof -
  obtain f b where res: "res = (f, b)" by (cases res)
  obtain rt2 f2 where r2: "finish_settle (finish_failure f rt') rt' = (rt2, f2)"
    by (cases "finish_settle (finish_failure f rt') rt'")
  obtain rt3 f3 where r3: "finish_stop f2 rt2 = (rt3, f3)" by (cases "finish_stop f2 rt2")
  obtain s2 where s2: "rt2 = rt'\<lparr>rt_state := s2\<rparr>" using finish_settle_state [of "finish_failure f rt'" rt'] r2 by auto
  obtain s3 where s3: "rt3 = rt2\<lparr>rt_state := s3\<rparr>" using finish_stop_state [of f2 rt2] r3 by auto
  have "fst (finish_shutdown host inp rt) = (if fin_executor_completed inp
      then rt3\<lparr>rt_final_report := Some (finish_report b f3 rt3)\<rparr> else rt2)"
    using assms by (simp add: finish_shutdown_def res r2 r3 Let_def)
  also have "\<dots> = rt'\<lparr>rt_state := if fin_executor_completed inp then s3 else s2,
      rt_final_report := if fin_executor_completed inp then Some (finish_report b f3 rt3)
        else rt_final_report rt'\<rparr>"
    by (simp add: s2 s3)
  finally show ?thesis by blast
qed

lemma finish_shutdown_inv:
  assumes "rt_inv rt" "fresh (fin_cid inp) rt" "fresh (fin_retry_cid inp) rt" "fin_cid inp \<noteq> fin_retry_cid inp"
  shows "rt_inv (fst (finish_shutdown host inp rt)) \<and> advances rt (fst (finish_shutdown host inp rt)) \<and>
    (\<not> fin_in_callback inp \<and> rt_final_report rt = None \<longrightarrow> rt_queue (fst (finish_shutdown host inp rt)) = [])"
proof (cases "\<not> fin_in_callback inp \<and> rt_final_report rt = None")
  case True
  obtain rt' res where d: "finish_drained host inp rt = (rt', res)" by (cases "finish_drained host inp rt")
  note inv = finish_drained_inv [OF assms d]
  obtain s rep where fin: "fst (finish_shutdown host inp rt) = rt'\<lparr>rt_state := s, rt_final_report := rep\<rparr>"
    using finish_shutdown_cases [OF _ _ d] True by auto
  have "rt_inv (rt'\<lparr>rt_state := s, rt_final_report := rep\<rparr>)"
    by (rule rt_inv_same [of rt']) (use inv in \<open>simp_all add: rt_inv_def queue_inv_def\<close>)
  moreover have "advances rt (rt'\<lparr>rt_state := s, rt_final_report := rep\<rparr>)"
    by (rule advances_trans [of _ rt']) (use inv in \<open>simp_all add: advances_same\<close>)
  ultimately show ?thesis unfolding fin using inv by simp
next
  case False
  then show ?thesis using assms(1) by (auto simp: finish_shutdown_def)
qed

section \<open>Reachable states\<close>

lemma plain_command_ok: "plain_command c \<Longrightarrow> command_ok (Cmd_Records c)"
  by (cases c) (simp_all add: command_ok_def admitted_command_def plain_command_def)

lemma open_session_inv:
  assumes "rt_inv rt" "fresh cid rt"
  shows "rt_inv (fst (open_session v cid sid e ctx rt)) \<and> advances rt (fst (open_session v cid sid e ctx rt))"
proof (cases e)
  case (Some env)
  then show ?thesis
    using enqueue_admitted_inv [OF assms, of "Cmd_Records (Cmd_OpenSession sid env ctx)" v]
    by (simp add: open_session_def case_prod_unfold Let_def command_ok_def admitted_command_def)
qed (use assms in \<open>simp add: open_session_def\<close>)

lemma submit_task_inv:
  assumes "rt_inv rt" "fresh cid rt"
  shows "rt_inv (fst (submit_task v cid tid sid spec rt)) \<and> advances rt (fst (submit_task v cid tid sid spec rt))"
proof (cases "spec_goal spec = []")
  case False
  then show ?thesis
    using enqueue_admitted_inv [OF assms, of "Cmd_Records (Cmd_SubmitTask sid tid spec)" v]
    by (simp add: submit_task_def case_prod_unfold Let_def command_ok_def admitted_command_def)
qed (use assms in \<open>simp add: submit_task_def\<close>)

lemmas step_inv = initialize_inv open_session_inv submit_task_inv begin_operation_inv
  request_shutdown_inv finish_shutdown_inv

lemma rt_step_inv: "rt_step host rt rt' \<Longrightarrow> rt_inv rt \<Longrightarrow> rt_inv rt' \<and> advances rt rt'"
proof (induction rule: rt_step.induct)
  case (command cid rt c v)
  then show ?case using enqueue_admitted_inv plain_command_ok by blast
next
  case (execute rt)
  then show ?case using execute_next_rt_inv execute_next_advances rt_inv_def by blast
qed (simp_all add: step_inv)

lemma init_runtime_inv: "rt_inv (init_runtime cfg)"
  by (simp add: rt_inv_def queue_inv_def listed_inv_def records_inv_def init_runtime_def)

interpretation rt_sys: step_system "rt_step host" "\<lambda>rt. \<exists>cfg. rt = init_runtime cfg" rt_inv advances for host
  by unfold_locales (auto simp: init_runtime_inv rt_step_inv intro: advances_trans)

lemma reachable_inv: "reachable host rt \<Longrightarrow> rt_inv rt"
  unfolding reachable_def using rt_sys.reachable_invariant by blast

end
