(* ===== verification/Runtime_Progress.thy ===== *)
theory Runtime_Progress
  imports Runtime_Steps
begin

text \<open>
  What the steps of the runtime keep, beyond the invariant: rejected commands change
  nothing, operations keep their key and stay settled, and the state cell moves along its
  table. Each of the last two is a preorder that every step respects.
\<close>

section \<open>Lemmas on single commands\<close>

lemma set_snapshot_same:
  assumes "distinct (map fst (tasks r))" "map_of (tasks r) tid = Some t"
  shows "set_snapshot tid (tr_snapshot t) r = r"
proof -
  have "umap_modify tid (\<lambda>u. u\<lparr>tr_snapshot := tr_snapshot t\<rparr>) (tasks r) = tasks r"
    unfolding umap_modify_def
  proof (rule map_idI)
    fix p assume p: "p \<in> set (tasks r)"
    obtain k u where ku: "p = (k, u)" by (cases p)
    have "k = tid \<Longrightarrow> u = t" using assms p ku by (metis map_of_eq_Some_iff option.inject)
    then show "(case p of (k', v) \<Rightarrow> (k', if k' = tid then v\<lparr>tr_snapshot := tr_snapshot t\<rparr> else v)) = p"
      by (simp add: ku)
  qed
  then show ?thesis by (simp add: set_snapshot_def)
qed

text \<open>A rejected command leaves the records alone.\<close>

lemma run_simple_task_rejected:
  assumes "records_inv r" "rp_receipt (snd (run_simple_task host sq tid target r)) = ReceiptStatus.Rejected"
  shows "fst (run_simple_task host sq tid target r) = r"
proof (cases "map_of (tasks r) tid")
  case (Some task)
  let ?snap = "tr_snapshot task"
  obtain p a where st: "simple_transition (tsn_state ?snap) target = (p, a)" by force
  have "fst (run_simple_task host sq tid target r) =
      (if a then fst (run_simple_task host sq tid target r) else set_snapshot tid (?snap\<lparr>tsn_state := p\<rparr>) r)"
    using assms(2) Some st unfolding run_simple_task_def Let_def
    by (auto simp: accept_def split: if_splits)
  moreover have "\<not> a"
    using assms(2) Some st by (auto simp: run_simple_task_def Let_def accept_def split: if_splits)
  moreover have "\<not> a \<Longrightarrow> ?snap\<lparr>tsn_state := p\<rparr> = ?snap"
    using st simple_transition_refused [of "tsn_state ?snap" target p] by simp
  ultimately show ?thesis
    using set_snapshot_same [of r tid task] assms(1) Some by (simp add: records_inv_def)
qed (simp add: run_simple_task_def)

lemma run_records_rejected:
  assumes "records_inv r" "rp_receipt (snd (run_records host sq c r)) = ReceiptStatus.Rejected"
  shows "fst (run_records host sq c r) = r"
proof (cases c)
  case (Cmd_SimpleTask kind tid target)
  then show ?thesis using assms by (simp add: run_records_def run_simple_task_rejected)
qed (use assms(2) in \<open>auto simp: run_records_def run_open_session_def run_submit_task_def
    run_complete_task_def run_request_takeover_def run_release_takeover_def run_close_session_def
    run_operation_completion_def Let_def accept_def threw_def
    split: option.splits if_splits InterruptResult.splits\<close>)

text \<open>Operations: the key of an operation never changes and a settled one stays settled.\<close>

definition ops_evolve :: "Records \<Rightarrow> Records \<Rightarrow> bool" where
  "ops_evolve r r' \<longleftrightarrow> (\<forall>oid op. map_of (operations r) oid = Some op \<longrightarrow>
     (\<exists>op'. map_of (operations r') oid = Some op' \<and> or_key op' = or_key op \<and>
        (or_state op = OperationState.Settled \<longrightarrow> or_state op' = OperationState.Settled)))"

lemma ops_evolve_same: "operations r' = operations r \<Longrightarrow> ops_evolve r r'"
  by (simp add: ops_evolve_def)

lemma ops_evolve_trans: "ops_evolve a b \<Longrightarrow> ops_evolve b c \<Longrightarrow> ops_evolve a c"
  unfolding ops_evolve_def by metis

lemma record_update_operations [simp]:
  "operations (set_snapshot tid sn r) = operations r"
  "operations (map_snapshots f r) = operations r"
  "operations (set_session sid g r) = operations r"
  by (simp_all add: set_snapshot_def map_snapshots_def set_session_def)

lemma run_records_ops: "ops_evolve r (fst (run_records host sq c r))"
proof (cases c)
  case (Cmd_OperationCompletion key)
  then show ?thesis
    by (auto simp: run_records_def run_operation_completion_def Let_def ops_evolve_def
        split: option.splits)
qed (auto intro!: ops_evolve_same simp: run_records_def run_open_session_def run_submit_task_def
    run_simple_task_def run_complete_task_def run_request_takeover_def run_release_takeover_def
    run_close_session_def Let_def split: option.splits InterruptResult.splits prod.splits)

lemma run_command_ops: "ops_evolve (rt_records rt) (rt_records (fst (run_command host sq c rt)))"
proof (cases c)
  case (Cmd_Records rc)
  then show ?thesis using run_records_ops
    by (simp add: run_command_def Let_def case_prod_unfold)
next
  case Cmd_Shutdown
  then show ?thesis
    by (auto intro!: ops_evolve_same
        simp: run_command_def run_shutdown_records shutdown_records_def Let_def case_prod_unfold)
qed

definition ops_progress :: "Runtime \<Rightarrow> Runtime \<Rightarrow> bool" where
  "ops_progress rt rt' \<longleftrightarrow> ops_evolve (rt_records rt) (rt_records rt')"

lemma ops_progress_refl [simp]: "ops_progress rt rt"
  by (simp add: ops_progress_def ops_evolve_same)

lemma ops_progress_trans: "ops_progress a b \<Longrightarrow> ops_progress b c \<Longrightarrow> ops_progress a c"
  unfolding ops_progress_def by (rule ops_evolve_trans)

lemma ops_progress_same: "rt_records rt' = rt_records rt \<Longrightarrow> ops_progress rt rt'"
  by (simp add: ops_progress_def ops_evolve_same)

lemma execute_next_ops: "ops_progress rt (execute_next host rt)"
proof (cases "rt_queue rt")
  case (Cons p rest)
  obtain cid c where q: "rt_queue rt = (cid, c) # rest" using Cons by (cases p) auto
  show ?thesis
  proof (rule execute_next_Cons [OF q, of host])
    fix rt1 rp
    let ?rt0 = "rt\<lparr>rt_queue := rest, rt_control_sequence := rt_control_sequence rt + 1\<rparr>"
    assume run: "run_command host (rt_control_sequence rt + 1) c ?rt0 = (rt1, rp)"
      and ex: "execute_next host rt = set_outcome cid (rp_status rp) (rp_error rp) (rp_task rp)
        (set_receipt cid (command_kind c) (rp_receipt rp) (rt_control_sequence rt + 1)
         (rp_receipt_error rp) rt1)"
    show ?thesis
      using run_command_ops [of ?rt0 host "rt_control_sequence rt + 1" c] run
      by (simp add: ex ops_progress_def)
  qed
qed (simp add: execute_next_def)

lemma run_until_ops: "ops_progress rt (run_until host cid rt)"
proof (induction host cid rt rule: run_until.induct)
  case (1 host cid rt)
  then have "cid \<in> fst ` set (rt_queue rt) \<Longrightarrow> ops_progress rt (run_until host cid (execute_next host rt))"
    using ops_progress_trans [OF execute_next_ops] by blast
  then show ?case using run_until.simps [of host cid rt] by simp
qed

lemma consume_commands_ops: "ops_progress rt (consume_commands host late rt)"
proof -
  have one: "ops_progress rt (consume_one host late cid rt)" for cid rt
    by (auto simp: consume_one_def Let_def run_until_ops ops_progress_same split: option.splits)
  have "ops_progress rt (fold (consume_one host late) cids rt)" for cids rt
    by (induction cids arbitrary: rt) (auto intro: ops_progress_trans one)
  then show ?thesis
    using ops_progress_trans [of rt "rt\<lparr>rt_commands := []\<rparr>"] by (simp add: consume_commands_def ops_progress_same)
qed

lemma admission_records [simp]:
  "rt_records (fst (submit_shutdown_admitted v cid rt)) = rt_records rt"
  "rt_records (fst (request_shutdown v cid rt)) = rt_records rt"
  "rt_records (fst (finish_request inp rt)) = rt_records rt"
  "rt_records (fst (finish_retry inp failure rt)) = rt_records rt"
proof -
  have sub: "rt_records (fst (submit_shutdown_admitted v cid rt)) = rt_records rt" for v cid rt
  proof (cases "enqueue_admitted v cid Cmd_Shutdown rt")
    case (Pair rt' res)
    then show ?thesis
      using enqueue_admitted_records [of v cid Cmd_Shutdown rt]
      by (cases res) (simp_all add: submit_shutdown_admitted_def)
  qed
  then show "rt_records (fst (submit_shutdown_admitted v cid rt)) = rt_records rt" .
  have req: "rt_records (fst (request_shutdown v cid rt)) = rt_records rt" for v cid rt
    by (simp add: request_shutdown_def state_cell_transition_def sub)
  then show "rt_records (fst (request_shutdown v cid rt)) = rt_records rt" .
  show "rt_records (fst (finish_request inp rt)) = rt_records rt"
    using req [of "fin_verdict inp" "fin_cid inp" rt]
    by (auto simp: finish_request_def split: prod.splits sum.splits)
  show "rt_records (fst (finish_retry inp failure rt)) = rt_records rt"
    using sub [of "fin_retry_verdict inp" "fin_retry_cid inp" rt]
    by (auto simp: finish_retry_def split: prod.splits sum.splits)
qed

lemma finish_shutdown_ops: "ops_progress rt (fst (finish_shutdown host inp rt))"
proof (cases "\<not> fin_in_callback inp \<and> rt_final_report rt = None")
  case True
  obtain rt1 f where r1: "finish_request inp rt = (rt1, f)" by (cases "finish_request inp rt")
  let ?rt2 = "consume_commands host (fin_late inp) rt1"
  obtain rt3 x where r3: "finish_retry inp f ?rt2 = (rt3, x)" by (cases "finish_retry inp f ?rt2")
  let ?rt4 = "consume_commands host (fin_late inp) rt3"
  have "rt_records rt1 = rt_records rt" "rt_records rt3 = rt_records ?rt2"
    using admission_records(3) [of inp rt] admission_records(4) [of inp f ?rt2] r1 r3 by simp_all
  then have p: "ops_progress rt ?rt4"
    using ops_progress_trans ops_progress_same consume_commands_ops by metis
  obtain b c where x: "x = (b, c)" by (cases x)
  have "finish_drained host inp rt = (?rt4, x)" by (simp add: finish_drained_def r1 r3 x)
  then obtain s rep where "fst (finish_shutdown host inp rt) = ?rt4\<lparr>rt_state := s, rt_final_report := rep\<rparr>"
    using finish_shutdown_cases True by blast
  then show ?thesis using p by (simp add: ops_progress_def)
qed (auto simp: finish_shutdown_def)

lemma rt_step_ops: "rt_step host rt rt' \<Longrightarrow> ops_progress rt rt'"
proof (induction rule: rt_step.induct)
  case (initialize rt v)
  show ?case by (rule ops_progress_same)
    (cases v; auto simp: initialize_def state_cell_transition_def Let_def)
next
  case (open_session cid rt v sid e ctx)
  show ?case by (rule ops_progress_same)
    (auto simp: open_session_def Let_def case_prod_unfold split: option.splits)
next
  case (submit_task cid rt v tid sid spec)
  show ?case by (rule ops_progress_same) (simp add: submit_task_def Let_def case_prod_unfold)
next
  case (begin_operation rt tid stp oid)
  show ?case
    by (auto simp: begin_operation_def Let_def ops_progress_def ops_evolve_def split: option.splits)
qed (simp_all add: ops_progress_same execute_next_ops finish_shutdown_ops)

interpretation op_sys: step_system "rt_step host" "\<lambda>_. True" "\<lambda>_. True" ops_progress for host
  by unfold_locales (auto simp: rt_step_ops intro: ops_progress_trans)

text \<open>The state cell is written through its table only.\<close>

definition state_progress :: "Runtime \<Rightarrow> Runtime \<Rightarrow> bool" where
  "state_progress rt rt' \<longleftrightarrow> valid_runtime_transition\<^sup>*\<^sup>* (rt_state rt) (rt_state rt')"

lemma state_progress_refl [simp]: "state_progress rt rt"
  by (simp add: state_progress_def)

lemma state_progress_trans: "state_progress a b \<Longrightarrow> state_progress b c \<Longrightarrow> state_progress a c"
  by (simp add: state_progress_def)

lemma state_progress_same: "rt_state rt' = rt_state rt \<Longrightarrow> state_progress rt rt'"
  by (simp add: state_progress_def)

lemma state_cell_progress: "state_cell_transition s t rt = Some rt' \<Longrightarrow> state_progress rt rt'"
  by (auto simp: state_cell_transition_def state_progress_def split: if_splits)

lemma enqueue_admitted_state [simp]: "rt_state (fst (enqueue_admitted v cid c rt)) = rt_state rt"
  by (auto simp: enqueue_admitted_def Let_def split: SubmitVerdict.splits)

lemma run_command_state: "state_progress rt (fst (run_command host sq c rt))"
proof (cases c)
  case (Cmd_Records rc)
  then show ?thesis by (simp add: run_command_def state_progress_def Let_def case_prod_unfold)
next
  case Cmd_Shutdown
  obtain r f where sr: "shutdown_records host sq (rt_records rt) = (r, f)" by force
  let ?rt = "rt\<lparr>rt_records := r\<rparr>"
  let ?t = "if f \<noteq> None then RuntimeState.Failed else RuntimeState.Quiesced"
  have "fst (run_command host sq c rt) =
      (case state_cell_transition RuntimeState.Stopping ?t ?rt of Some rt' \<Rightarrow> rt' | None \<Rightarrow> ?rt)"
    by (auto simp: Cmd_Shutdown run_command_def run_shutdown_def sr Let_def split: option.splits)
  then show ?thesis
    using state_cell_progress [of RuntimeState.Stopping ?t ?rt]
    by (auto simp: state_progress_def split: option.splits)
qed

lemma execute_next_state: "state_progress rt (execute_next host rt)"
proof (cases "rt_queue rt")
  case (Cons p rest)
  obtain cid c where q: "rt_queue rt = (cid, c) # rest" using Cons by (cases p) auto
  show ?thesis
    using run_command_state [of "rt\<lparr>rt_queue := rest, rt_control_sequence := rt_control_sequence rt + 1\<rparr>"
        host "rt_control_sequence rt + 1" c]
    by (simp add: execute_next_def q Let_def case_prod_unfold state_progress_def)
qed (simp add: execute_next_def)

lemma run_until_state: "state_progress rt (run_until host cid rt)"
proof (induction host cid rt rule: run_until.induct)
  case (1 host cid rt)
  then have "cid \<in> fst ` set (rt_queue rt) \<Longrightarrow> state_progress rt (run_until host cid (execute_next host rt))"
    using state_progress_trans [OF execute_next_state] by blast
  then show ?case using run_until.simps [of host cid rt] by simp
qed

lemma consume_commands_state: "state_progress rt (consume_commands host late rt)"
proof -
  have one: "state_progress rt (consume_one host late cid rt)" for cid rt
    by (auto simp: consume_one_def Let_def run_until_state state_progress_same split: option.splits)
  have "state_progress rt (fold (consume_one host late) cids rt)" for cids rt
    by (induction cids arbitrary: rt) (auto intro: state_progress_trans one)
  then show ?thesis
    using state_progress_trans [of rt "rt\<lparr>rt_commands := []\<rparr>"]
    by (simp add: consume_commands_def state_progress_same)
qed

lemma submit_shutdown_state [simp]: "rt_state (fst (submit_shutdown_admitted v cid rt)) = rt_state rt"
proof (cases "enqueue_admitted v cid Cmd_Shutdown rt")
  case (Pair rt' res)
  then show ?thesis
    using enqueue_admitted_state [of v cid Cmd_Shutdown rt]
    by (cases res) (simp_all add: submit_shutdown_admitted_def)
qed

lemma request_shutdown_state: "state_progress rt (fst (request_shutdown v cid rt))"
  by (auto simp: request_shutdown_def state_cell_transition_def state_progress_def)

lemma finish_request_state: "state_progress rt (fst (finish_request inp rt))"
  using request_shutdown_state [of rt "fin_verdict inp" "fin_cid inp"]
  by (auto simp: finish_request_def split: prod.splits sum.splits)

lemma finish_retry_state: "state_progress rt (fst (finish_retry inp failure rt))"
proof (rule state_progress_same)
  show "rt_state (fst (finish_retry inp failure rt)) = rt_state rt"
    using submit_shutdown_state [of "fin_retry_verdict inp" "fin_retry_cid inp" rt]
    by (cases "submit_shutdown_admitted (fin_retry_verdict inp) (fin_retry_cid inp) rt")
      (simp add: finish_retry_def split: sum.splits)
qed

lemma finish_drained_state: "state_progress rt (fst (finish_drained host inp rt))"
proof -
  obtain rt1 f where r1: "finish_request inp rt = (rt1, f)" by (cases "finish_request inp rt")
  let ?rt2 = "consume_commands host (fin_late inp) rt1"
  obtain rt3 x y where r3: "finish_retry inp f ?rt2 = (rt3, x, y)" by (cases "finish_retry inp f ?rt2")
  have "state_progress rt rt1" "state_progress ?rt2 rt3"
    using finish_request_state [of rt inp] finish_retry_state [of ?rt2 inp f] r1 r3 by simp_all
  then have "state_progress rt (consume_commands host (fin_late inp) rt3)"
    using consume_commands_state state_progress_trans by metis
  then show ?thesis by (simp add: finish_drained_def r1 r3)
qed

lemma finish_settle_progress: "state_progress rt (fst (finish_settle f rt))"
  and finish_stop_progress: "state_progress rt (fst (finish_stop f rt))"
  by (auto simp: finish_settle_def finish_stop_def state_progress_same split: option.splits
      dest: state_cell_progress)

lemma finish_shutdown_progress: "state_progress rt (fst (finish_shutdown host inp rt))"
proof (cases "\<not> fin_in_callback inp \<and> rt_final_report rt = None")
  case True
  obtain rt1 f b where d: "finish_drained host inp rt = (rt1, f, b)" by (cases "finish_drained host inp rt")
  obtain rt2 f2 where r2: "finish_settle (finish_failure f rt1) rt1 = (rt2, f2)"
    by (cases "finish_settle (finish_failure f rt1) rt1")
  obtain rt3 f3 where r3: "finish_stop f2 rt2 = (rt3, f3)" by (cases "finish_stop f2 rt2")
  have p: "state_progress rt rt1" "state_progress rt1 rt2" "state_progress rt2 rt3"
    using finish_drained_state [of rt host inp] finish_settle_progress [of rt1 "finish_failure f rt1"]
      finish_stop_progress [of rt2 f2] d r2 r3 by simp_all
  then have "state_progress rt rt2" "state_progress rt rt3" using state_progress_trans by blast+
  moreover have "rt_state (fst (finish_shutdown host inp rt)) =
      rt_state (if fin_executor_completed inp then rt3 else rt2)"
    using True by (simp add: finish_shutdown_def d r2 r3 Let_def)
  ultimately show ?thesis by (simp add: state_progress_def split: if_splits)
qed (auto simp: finish_shutdown_def)

lemma rt_step_state: "rt_step host rt rt' \<Longrightarrow> state_progress rt rt'"
proof (induction rule: rt_step.induct)
  case (initialize rt v)
  have via: "valid_runtime_transition RuntimeState.Constructed RuntimeState.Initializing"
    "valid_runtime_transition RuntimeState.Initializing RuntimeState.Running"
    "valid_runtime_transition RuntimeState.Initializing RuntimeState.Failed"
    by (simp_all add: lifecycle_defs)
  then have "valid_runtime_transition\<^sup>*\<^sup>* RuntimeState.Constructed RuntimeState.Running"
    "valid_runtime_transition\<^sup>*\<^sup>* RuntimeState.Constructed RuntimeState.Failed"
    by (meson converse_rtranclp_into_rtranclp r_into_rtranclp)+
  then show ?case
    by (cases v) (auto simp: initialize_def state_cell_transition_def Let_def state_progress_def via)
next
  case (open_session cid rt v sid e ctx)
  show ?case by (rule state_progress_same)
    (auto simp: open_session_def Let_def case_prod_unfold split: option.splits)
next
  case (submit_task cid rt v tid sid spec)
  show ?case by (rule state_progress_same) (simp add: submit_task_def Let_def case_prod_unfold)
next
  case (begin_operation rt tid stp oid)
  show ?case by (rule state_progress_same) (auto simp: begin_operation_def Let_def split: option.splits)
qed (simp_all add: state_progress_same execute_next_state finish_shutdown_progress request_shutdown_state)

interpretation state_sys: step_system "rt_step host" "\<lambda>_. True" "\<lambda>_. True" state_progress for host
  by unfold_locales (auto simp: rt_step_state intro: state_progress_trans)

end
