(* ===== verification/Runtime_Properties.thy ===== *)
theory Runtime_Properties
  imports Runtime_Progress
begin

text \<open>
  The properties of the control plane, over the reachable states of \<open>Runtime_Steps\<close>:
  settled tasks, epochs and stale completions, admission of operations, takeover, and the
  shutdown protocol. A short scripted run gives the concrete states at which the
  properties are applied.
\<close>

section \<open>A scripted run\<close>

definition demo_id :: "nat \<Rightarrow> Id128" where
  "demo_id n = Id128 (replicate 16 (of_nat n))"

definition demo_host :: Host where
  "demo_host = \<lparr>host_interrupt = (\<lambda>_ _. Released), host_now = (\<lambda>_ _. timestamp_default)\<rparr>"

definition demo_principal :: PrincipalContext where
  "demo_principal = \<lparr>pc_tenant_id = demo_id 0, pc_user_id = demo_id 0, pc_host_id = demo_id 0,
     pc_auth_strength = Anonymous, pc_authenticated_at = 0, pc_grants = [], pc_identity_version = 0\<rparr>"

definition demo_started :: Runtime where
  "demo_started = fst (initialize (InitDone True)
     (init_runtime \<lparr>cfg_worker_threads = 1, cfg_executor_queue_capacity = 8, cfg_max_in_flight = 8\<rparr>))"

definition demo_session :: Runtime where
  "demo_session = execute_next demo_host
     (fst (open_session SubmitAccepted (demo_id 1) (demo_id 2) (Some 0) demo_principal demo_started))"

definition demo_queued :: Runtime where
  "demo_queued = fst (submit_task SubmitAccepted (demo_id 3) (demo_id 4) (demo_id 2)
     \<lparr>spec_goal = ''goal'', spec_user_constraints = []\<rparr> demo_session)"

definition demo_task :: Runtime where
  "demo_task = execute_next demo_host demo_queued"

definition demo_operation :: Runtime where
  "demo_operation = fst (begin_operation (demo_id 4) (demo_id 5) (demo_id 6) demo_task)"

text \<open>One admitted command, run at once.\<close>

definition demo_run :: "nat \<Rightarrow> RecordCommand \<Rightarrow> Runtime \<Rightarrow> Runtime" where
  "demo_run n c rt = execute_next demo_host
     (fst (enqueue_admitted SubmitAccepted (demo_id n) (Cmd_Records c) rt))"

definition demo_key :: OperationKey where
  "demo_key = \<lparr>ok_task_id = demo_id 4, ok_task_epoch = 0, ok_step_id = demo_id 5,
     ok_operation_id = demo_id 6\<rparr>"

definition demo_completed :: Runtime where
  "demo_completed = demo_run 7 (Cmd_OperationCompletion demo_key) demo_operation"

definition demo_takeover :: Runtime where
  "demo_takeover = demo_run 8 (Cmd_RequestTakeover (demo_id 2)) demo_operation"

definition demo_resumed :: Runtime where
  "demo_resumed = demo_run 9 (resume_task (demo_id 4)) demo_takeover"

definition demo_cancelled :: Runtime where
  "demo_cancelled = demo_run 10 (cancel_task (demo_id 4)) demo_operation"

definition demo_stopping :: Runtime where
  "demo_stopping = fst (request_shutdown SubmitAccepted (demo_id 11) demo_operation)"

lemmas demo_defs = demo_id_def demo_host_def demo_principal_def demo_started_def demo_session_def
  demo_queued_def demo_task_def demo_operation_def demo_run_def demo_key_def demo_completed_def
  demo_takeover_def demo_resumed_def demo_cancelled_def demo_stopping_def

lemma reachable_step: "reachable host rt \<Longrightarrow> rt_step host rt rt' \<Longrightarrow> reachable host rt'"
  unfolding reachable_def by (meson rtranclp.rtrancl_into_rtrancl)

lemma reachable_init: "reachable host (init_runtime cfg)"
  unfolding reachable_def by blast

lemma reachable_run:
  "reachable demo_host rt \<Longrightarrow> fresh (demo_id n) rt \<Longrightarrow> plain_command c \<Longrightarrow> reachable demo_host (demo_run n c rt)"
  unfolding demo_run_def by (meson reachable_step rt_step.command rt_step.execute)

lemma demo_fresh:
  "fresh (demo_id 1) demo_started" "fresh (demo_id 3) demo_session" "fresh (demo_id 7) demo_operation"
  "fresh (demo_id 8) demo_operation" "fresh (demo_id 9) demo_takeover" "fresh (demo_id 10) demo_operation"
  "fresh (demo_id 11) demo_operation" "fresh (demo_id 12) demo_stopping" "fresh (demo_id 13) demo_stopping"
  by code_simp+

lemma plain_demo:
  "plain_command (Cmd_OperationCompletion key)" "plain_command (Cmd_RequestTakeover sid)"
  "plain_command (resume_task tid)" "plain_command (cancel_task tid)"
  by (simp_all add: plain_command_def resume_task_def cancel_task_def)

lemma demo_reachable:
  "reachable demo_host demo_session" "reachable demo_host demo_queued" "reachable demo_host demo_task"
  "reachable demo_host demo_operation" "reachable demo_host demo_completed"
  "reachable demo_host demo_takeover" "reachable demo_host demo_resumed"
  "reachable demo_host demo_cancelled" "reachable demo_host demo_stopping"
proof -
  have started: "reachable demo_host demo_started"
    unfolding demo_started_def by (meson reachable_init reachable_step rt_step.initialize)
  then show s: "reachable demo_host demo_session"
    unfolding demo_session_def by (meson demo_fresh reachable_step rt_step.open_session rt_step.execute)
  then show q: "reachable demo_host demo_queued"
    unfolding demo_queued_def by (meson demo_fresh reachable_step rt_step.submit_task)
  then show t: "reachable demo_host demo_task"
    unfolding demo_task_def by (meson reachable_step rt_step.execute)
  then show op: "reachable demo_host demo_operation"
    unfolding demo_operation_def by (meson reachable_step rt_step.begin_operation)
  show "reachable demo_host demo_completed" "reachable demo_host demo_cancelled"
    unfolding demo_completed_def demo_cancelled_def
    by (meson op demo_fresh plain_demo reachable_run)+
  show tk: "reachable demo_host demo_takeover"
    unfolding demo_takeover_def by (meson op demo_fresh plain_demo reachable_run)
  then show "reachable demo_host demo_resumed"
    unfolding demo_resumed_def by (meson demo_fresh plain_demo reachable_run)
  show "reachable demo_host demo_stopping"
    unfolding demo_stopping_def by (meson op demo_fresh reachable_step rt_step.request_shutdown)
qed

section \<open>Lemmas for the properties\<close>

lemma tasks_evolve_star_settled:
  assumes "tasks_evolve\<^sup>*\<^sup>* r r'" "map_of (tasks r) tid = Some t"
    and "is_terminal_task (tsn_state (tr_snapshot t))"
  shows "\<exists>t'. map_of (tasks r') tid = Some t' \<and> tr_snapshot t' = tr_snapshot t"
  using assms
proof (induction rule: rtranclp_induct)
  case (step r1 r2)
  then show ?case using evolves_trans_terminal_states by metis
qed simp

lemma tasks_evolve_star_exists:
  assumes "tasks_evolve\<^sup>*\<^sup>* r r'" "map_of (tasks r) tid = Some t"
  shows "\<exists>t'. map_of (tasks r') tid = Some t'"
  using assms by (induction rule: rtranclp_induct) (auto simp: tasks_evolve_def)

lemma steps_advance: "reachable host rt \<Longrightarrow> (rt_step host)\<^sup>*\<^sup>* rt rt' \<Longrightarrow> advances rt rt'"
  using rt_sys.steps_progress reachable_inv by blast

text \<open>The settlement of an executed record command: its reply goes to the handle, its records to the runtime.\<close>

lemma execute_record_command:
  assumes "reachable host rt" "rt_queue rt = (cid, Cmd_Records c) # rest"
    and "run_records host (rt_control_sequence rt + 1) c (rt_records rt) = (r', rp)"
  shows "rt_records (execute_next host rt) = r'" "rt_state (execute_next host rt) = rt_state rt"
    and "\<exists>h oc. map_of (rt_handles (execute_next host rt)) cid = Some h \<and> h_outcome h = Some oc \<and> oc_status oc = rp_status rp"
proof -
  let ?sq = "rt_control_sequence rt + 1"
  let ?rt1 = "rt\<lparr>rt_queue := rest, rt_control_sequence := ?sq, rt_records := r'\<rparr>"
  have ex: "execute_next host rt = set_outcome cid (rp_status rp) (rp_error rp) (rp_task rp)
      (set_receipt cid (command_kind (Cmd_Records c)) (rp_receipt rp) ?sq (rp_receipt_error rp) ?rt1)"
    using assms(2,3) by (simp add: execute_next_def run_command_def Let_def)
  have "handle_pending rt cid (Cmd_Records c)"
    using reachable_inv [OF assms(1)] assms(2) by (simp add: rt_inv_def queue_inv_def)
  then obtain h where h: "map_of (rt_handles ?rt1) cid = Some h" "h_outcome h = None" by (auto simp: handle_pending_def)
  show "rt_records (execute_next host rt) = r'" "rt_state (execute_next host rt) = rt_state rt" by (simp_all add: ex)
  show "\<exists>h oc. map_of (rt_handles (execute_next host rt)) cid = Some h \<and> h_outcome h = Some oc \<and> oc_status oc = rp_status rp"
    using settle_self [OF h(1), of "rp_status rp" "rp_error rp" "rp_task rp" "command_kind (Cmd_Records c)" "rp_receipt rp" ?sq "rp_receipt_error rp", folded ex]
      h(2) by simp
qed

text \<open>What a completion that takes effect does to the records.\<close>

definition completion_effect :: "Host \<Rightarrow> u64 \<Rightarrow> OperationKey \<Rightarrow> Records \<Rightarrow> Records \<Rightarrow> SettlementStatus \<Rightarrow> bool" where
  "completion_effect host sq key r r' status \<longleftrightarrow> (\<exists>op t.
     map_of (operations r) (ok_operation_id key) = Some op \<and> or_state op \<noteq> OperationState.Settled \<and> map_of (tasks r) (ok_task_id key) = Some t \<and>
     map_of (operations r') = (map_of (operations r))(ok_operation_id key \<mapsto> op\<lparr>or_state := OperationState.Settled\<rparr>) \<and>
     sessions r' = sessions r \<and>
     (if tsn_epoch (tr_snapshot t) = ok_task_epoch key \<and> \<not> is_terminal_task (tsn_state (tr_snapshot t))
      then status = SettlementStatus.Applied \<and> map_of (tasks r') = (map_of (tasks r))(ok_task_id key \<mapsto> t\<lparr>tr_snapshot :=
        (tr_snapshot t)\<lparr>tsn_control_sequence := sq, tsn_updated_at := host_now host sq (ok_task_id key)\<rparr>\<rparr>)
      else status = SettlementStatus.NoOp \<and> tasks r' = tasks r))"

lemma map_of_modify_Some: "map_of m k = Some v \<Longrightarrow> map_of (umap_modify k f m) = (map_of m)(k \<mapsto> f v)"
  by auto

lemma completion_takes_effect:
  assumes "run_operation_completion host sq key r = (r', rp)" "r' \<noteq> r"
  shows "completion_effect host sq key r r' (rp_status rp)"
proof -
  obtain op t where found: "map_of (operations r) (ok_operation_id key) = Some op" "map_of (tasks r) (ok_task_id key) = Some t"
    "or_state op \<noteq> OperationState.Settled"
    using assms by (auto simp: run_operation_completion_def Let_def split: option.splits if_splits)
  show ?thesis
    unfolding completion_effect_def
  proof (intro exI [of _ op] exI [of _ t] conjI)
    show "map_of (operations r') = (map_of (operations r))(ok_operation_id key \<mapsto> op\<lparr>or_state := OperationState.Settled\<rparr>)" "sessions r' = sessions r"
      using assms(1) found by (auto simp: run_operation_completion_def Let_def set_snapshot_def map_of_modify_Some split: if_splits)
    show "if tsn_epoch (tr_snapshot t) = ok_task_epoch key \<and> \<not> is_terminal_task (tsn_state (tr_snapshot t))
      then rp_status rp = SettlementStatus.Applied \<and> map_of (tasks r') = (map_of (tasks r))(ok_task_id key \<mapsto> t\<lparr>tr_snapshot :=
        (tr_snapshot t)\<lparr>tsn_control_sequence := sq, tsn_updated_at := host_now host sq (ok_task_id key)\<rparr>\<rparr>)
      else rp_status rp = SettlementStatus.NoOp \<and> tasks r' = tasks r"
      using assms(1) found
      by (cases "tsn_epoch (tr_snapshot t) = ok_task_epoch key \<and> \<not> is_terminal_task (tsn_state (tr_snapshot t))")
        (auto simp: run_operation_completion_def Let_def accept_def set_snapshot_def is_terminal_task_def map_of_modify_Some)
  qed (use found in simp_all)
qed

lemma settled_completion_idle:
  assumes "map_of (operations r) (ok_operation_id key) = Some op" "or_state op = OperationState.Settled"
  shows "fst (run_operation_completion host sq key r) = r" "rp_status (snd (run_operation_completion host sq key r)) \<noteq> SettlementStatus.Applied"
  using assms by (simp_all add: run_operation_completion_def Let_def accept_def reject_def split: option.splits)

lemma resting_takeover:
  "resting s \<Longrightarrow> \<not> is_terminal_task s \<Longrightarrow> s \<noteq> TaskState.SuspendedForTakeover \<Longrightarrow>
     valid_task_transition s TaskState.TakeoverSettling"
  by (cases s) (simp_all add: resting_def lifecycle_defs)

lemma takeover_task_suspends:
  assumes "snapshot_ok (tr_snapshot t)" "tr_session_id t = sid"
    and "\<not> is_terminal_task (tsn_state (takeover_task host sq sid tid t))"
  shows "tsn_state (takeover_task host sq sid tid t) = TaskState.SuspendedForTakeover"
  using assms resting_takeover [of "tsn_state (tr_snapshot t)"]
  by (auto simp: takeover_task_def Let_def snapshot_ok_def split: if_splits)

lemma takeover_result:
  assumes "map_of (sessions r) sid = Some s" "ses_state s = SessionState.Autonomous"
  shows "fst (run_request_takeover host sq sid r) =
    set_session sid (\<lambda>s. s\<lparr>ses_state := SessionState.HumanControlled\<rparr>)
      (map_snapshots (takeover_task host sq sid) r)"
  using assms
  by (auto simp: run_request_takeover_def Let_def valid_session_transition_def
      split: InterruptResult.splits)

lemma finish_shutdown_stores:
  assumes "\<not> fin_in_callback inp" "fin_executor_completed inp"
    and fin: "finish_shutdown host inp rt = (rt', rep)"
  shows "rt_final_report rt' = Some rep"
proof (cases "rt_final_report rt")
  case None
  obtain rt1 f b where d: "finish_drained host inp rt = (rt1, f, b)" by (cases "finish_drained host inp rt")
  obtain rt2 f2 where r2: "finish_settle (finish_failure f rt1) rt1 = (rt2, f2)"
    by (cases "finish_settle (finish_failure f rt1) rt1")
  obtain rt3 f3 where r3: "finish_stop f2 rt2 = (rt3, f3)" by (cases "finish_stop f2 rt2")
  show ?thesis using fin assms(1,2) None by (auto simp: finish_shutdown_def d r2 r3 Let_def)
qed (use assms in \<open>simp add: finish_shutdown_def\<close>)

lemma finish_request_commands:
  "set (rt_commands rt) \<subseteq> set (rt_commands (fst (finish_request inp rt)))"
proof -
  have enq: "set (rt_commands rt) \<subseteq> set (rt_commands (fst (enqueue_admitted v cid c rt)))" for v cid c rt
    by (auto simp: enqueue_admitted_def Let_def split: SubmitVerdict.splits)
  have sub: "set (rt_commands rt) \<subseteq> set (rt_commands (fst (submit_shutdown_admitted v cid rt)))" for v cid rt
    using enq [of rt v cid Cmd_Shutdown]
    by (cases "enqueue_admitted v cid Cmd_Shutdown rt")
      (auto simp: submit_shutdown_admitted_def split: sum.splits)
  have "set (rt_commands rt) \<subseteq> set (rt_commands (fst (request_shutdown v cid rt)))" for v cid
    using sub [of "rt\<lparr>rt_state := RuntimeState.Stopping\<rparr>" v cid]
    by (simp add: request_shutdown_def state_cell_transition_def)
  then show ?thesis
    by (auto simp: finish_request_def case_prod_unfold split: sum.splits)
qed

section \<open>The record invariant and settled tasks\<close>

text \<open>C1: In every state the runtime can reach, the records are well formed: identifiers
  are unique, each task rests in a state between commands and carries a terminal outcome
  exactly when it is settled, belongs to a known session, and a session that is closing,
  closed or failed holds settled tasks only. Queued commands are distinct and every
  admitted command is either still queued or has both its receipt and its outcome.\<close>

theorem reachable_records_well_formed:
  assumes "reachable host rt"
  shows "records_inv (rt_records rt) \<and> distinct (map fst (rt_queue rt)) \<and>
    (\<forall>cid\<in>set (rt_commands rt). cid \<in> fst ` set (rt_queue rt) \<or> handle_settled rt cid)"
  using reachable_inv [OF assms] by (simp add: rt_inv_def queue_inv_def listed_inv_def)

theorem reachable_records_well_formed_witness:
  "records_inv (rt_records demo_cancelled) \<and> distinct (map fst (rt_queue demo_cancelled)) \<and>
    (demo_id 10 \<in> fst ` set (rt_queue demo_cancelled) \<or> handle_settled demo_cancelled (demo_id 10))"
proof -
  have "demo_id 10 \<in> set (rt_commands demo_cancelled)" by code_simp
  then show ?thesis using reachable_records_well_formed [OF demo_reachable(8)] by blast
qed

text \<open>C2: A task that reached Completed, Failed or Cancelled keeps its snapshot (state,
  epoch, outcome and time stamp) through every later step of the runtime.\<close>

theorem settled_task_immutable:
  assumes "reachable host rt" "(rt_step host)\<^sup>*\<^sup>* rt rt'"
    and "map_of (tasks (rt_records rt)) tid = Some t" "is_terminal_task (tsn_state (tr_snapshot t))"
  shows "task_snapshot tid rt' = Inr (tr_snapshot t)"
proof -
  have "tasks_evolve\<^sup>*\<^sup>* (rt_records rt) (rt_records rt')"
    using steps_advance [OF assms(1,2)] by (simp add: advances_def)
  from tasks_evolve_star_settled [OF this assms(3,4)] show ?thesis
    by (auto simp: task_snapshot_def)
qed

definition demo_settled_task :: TaskRecord where
  "demo_settled_task = the (map_of (tasks (rt_records demo_cancelled)) (demo_id 4))"

theorem settled_task_immutable_witness:
  "task_snapshot (demo_id 4) (execute_next demo_host demo_cancelled) = Inr (tr_snapshot demo_settled_task)"
proof (rule settled_task_immutable [OF demo_reachable(8)])
  show "(rt_step demo_host)\<^sup>*\<^sup>* demo_cancelled (execute_next demo_host demo_cancelled)"
    by (rule r_into_rtranclp) (rule rt_step.execute)
  show "map_of (tasks (rt_records demo_cancelled)) (demo_id 4) = Some demo_settled_task"
    "is_terminal_task (tsn_state (tr_snapshot demo_settled_task))"
    by code_simp+
qed

text \<open>Running one admitted command moves every task along the transition table, keeps
  its identity, and advances its epoch by one exactly when its state changes, the first
  start from Idle to Observing apart.\<close>

theorem executed_command_moves_tasks:
  assumes "reachable host rt" "map_of (tasks (rt_records rt)) tid = Some t"
  shows "\<exists>snap. task_snapshot tid (execute_next host rt) = Inr snap \<and> tsn_id snap = tid \<and>
    valid_task_transition\<^sup>*\<^sup>* (tsn_state (tr_snapshot t)) (tsn_state snap) \<and>
    tsn_epoch snap = (if tsn_state snap = tsn_state (tr_snapshot t) \<or>
        tsn_state (tr_snapshot t) = TaskState.Idle \<and> tsn_state snap = TaskState.Observing
      then tsn_epoch (tr_snapshot t) else tsn_epoch (tr_snapshot t) + 1)"
proof -
  have inv: "queue_inv rt" using reachable_inv [OF assms(1)] by (simp add: rt_inv_def)
  then have "tasks_evolve (rt_records rt) (rt_records (execute_next host rt))"
    using execute_next_inv by blast
  then obtain t' where "map_of (tasks (rt_records (execute_next host rt))) tid = Some t'"
    "evolves (tr_snapshot t) (tr_snapshot t')" using assms(2) by (auto simp: tasks_evolve_def)
  moreover have "tsn_id (tr_snapshot t) = tid"
    using inv assms(2) by (simp add: queue_inv_def records_inv_def task_in_session_ok_def)
  ultimately show ?thesis by (simp add: task_snapshot_def evolves_def)
qed

definition demo_open_task :: TaskRecord where
  "demo_open_task = the (map_of (tasks (rt_records demo_takeover)) (demo_id 4))"

theorem executed_command_moves_tasks_witness:
  "\<exists>snap. task_snapshot (demo_id 4) (execute_next demo_host demo_takeover) = Inr snap \<and>
    tsn_id snap = demo_id 4 \<and>
    valid_task_transition\<^sup>*\<^sup>* (tsn_state (tr_snapshot demo_open_task)) (tsn_state snap) \<and>
    tsn_epoch snap = (if tsn_state snap = tsn_state (tr_snapshot demo_open_task) \<or>
        tsn_state (tr_snapshot demo_open_task) = TaskState.Idle \<and> tsn_state snap = TaskState.Observing
      then tsn_epoch (tr_snapshot demo_open_task) else tsn_epoch (tr_snapshot demo_open_task) + 1)"
  by (rule executed_command_moves_tasks [OF demo_reachable(6)]) code_simp

section \<open>Operations and takeover\<close>


definition demo_completing :: Runtime where
  "demo_completing = fst (enqueue_admitted SubmitAccepted (demo_id 7) (Cmd_Records (Cmd_OperationCompletion demo_key)) demo_operation)"

definition demo_repeated :: Runtime where
  "demo_repeated = fst (enqueue_admitted SubmitAccepted (demo_id 12) (Cmd_Records (Cmd_OperationCompletion demo_key)) demo_completed)"

lemma demo_completing_run: "execute_next demo_host demo_completing = demo_completed"
  by (simp add: demo_completed_def demo_run_def demo_completing_def)

lemma demo_again_fresh: "fresh (demo_id 12) demo_completed"
  by code_simp


text \<open>An operation is admitted exactly when the runtime runs, the task is known, not
  settled, not paused and not suspended for takeover; the key then carries the task's
  current epoch.\<close>

theorem begin_operation_admits_iff:
  "snd (begin_operation tid stp oid rt) = Inr key \<longleftrightarrow>
    rt_state rt = RuntimeState.Running \<and>
    (\<exists>t. map_of (tasks (rt_records rt)) tid = Some t \<and>
       \<not> is_terminal_task (tsn_state (tr_snapshot t)) \<and>
       tsn_state (tr_snapshot t) \<noteq> TaskState.Paused \<and>
       tsn_state (tr_snapshot t) \<noteq> TaskState.SuspendedForTakeover \<and>
       key = \<lparr>ok_task_id = tid, ok_task_epoch = tsn_epoch (tr_snapshot t), ok_step_id = stp,
         ok_operation_id = oid\<rparr>)"
  by (auto simp: begin_operation_def Let_def split: option.splits)

text \<open>C23: When a takeover is requested of an autonomous session, the session is under human
  control afterwards, whatever the environment answers; every task of the session that is
  not settled is suspended, and no operation is admitted for it.\<close>

theorem takeover_suspends_session:
  assumes "reachable host rt" "map_of (sessions (rt_records rt)) sid = Some s"
    and "ses_state s = SessionState.Autonomous"
    and "r' = fst (run_request_takeover host sq sid (rt_records rt))"
    and "map_of (tasks r') tid = Some t" "tr_session_id t = sid"
  shows "map_option ses_state (map_of (sessions r') sid) = Some SessionState.HumanControlled \<and>
    (is_terminal_task (tsn_state (tr_snapshot t)) \<or>
     tsn_state (tr_snapshot t) = TaskState.SuspendedForTakeover) \<and>
    (\<nexists>key. snd (begin_operation tid stp oid (rt\<lparr>rt_records := r'\<rparr>)) = Inr key)"
proof -
  have inv: "records_inv (rt_records rt)"
    using reachable_inv [OF assms(1)] by (simp add: rt_inv_def queue_inv_def)
  note res = takeover_result [OF assms(2,3), of host sq]
  obtain u where u: "map_of (tasks (rt_records rt)) tid = Some u"
    "t = u\<lparr>tr_snapshot := takeover_task host sq sid tid u\<rparr>"
    using assms(5) unfolding assms(4) res by (auto simp: set_session_def map_snapshots_def)
  have state: "is_terminal_task (tsn_state (tr_snapshot t)) \<or>
      tsn_state (tr_snapshot t) = TaskState.SuspendedForTakeover"
    using takeover_task_suspends [OF records_inv_snapshot [OF inv u(1)]] u(2) assms(6) by auto
  moreover have "map_option ses_state (map_of (sessions r') sid) = Some SessionState.HumanControlled"
    unfolding assms(4) res using assms(2) by (simp add: set_session_def map_snapshots_def)
  moreover have "snd (begin_operation tid stp oid (rt\<lparr>rt_records := r'\<rparr>)) \<noteq> Inr key" for key
    using state assms(5) by (auto simp: begin_operation_def Let_def split: if_splits)
  ultimately show ?thesis by blast
qed

definition demo_suspended_task :: TaskRecord where
  "demo_suspended_task = the (map_of (tasks (rt_records demo_takeover)) (demo_id 4))"

theorem takeover_suspends_session_witness:
  "map_option ses_state (map_of (sessions (rt_records demo_takeover)) (demo_id 2)) =
     Some SessionState.HumanControlled \<and>
   (is_terminal_task (tsn_state (tr_snapshot demo_suspended_task)) \<or>
    tsn_state (tr_snapshot demo_suspended_task) = TaskState.SuspendedForTakeover) \<and>
   (\<nexists>key. snd (begin_operation (demo_id 4) (demo_id 5) (demo_id 20)
      (demo_operation\<lparr>rt_records := rt_records demo_takeover\<rparr>)) = Inr key)"
proof (rule takeover_suspends_session [OF demo_reachable(4)])
  show "map_of (sessions (rt_records demo_operation)) (demo_id 2) =
      Some (the (map_of (sessions (rt_records demo_operation)) (demo_id 2)))"
    "ses_state (the (map_of (sessions (rt_records demo_operation)) (demo_id 2))) = SessionState.Autonomous"
    "rt_records demo_takeover = fst (run_request_takeover demo_host 3 (demo_id 2) (rt_records demo_operation))"
    "map_of (tasks (rt_records demo_takeover)) (demo_id 4) = Some demo_suspended_task"
    "tr_session_id demo_suspended_task = demo_id 2"
    by code_simp+
qed

text \<open>C24: Resuming a task needs its own state only, not that of its session. In every reachable running
  runtime in which a task is suspended for takeover and its session is under human control, executing a
  resume command of the task is Applied: the session is still under human control, the task is
  Observing in the next epoch, and an operation of it is admitted, which the comment in
  \<open>begin_operation\<close> means to exclude.\<close>

theorem resume_admits_operations_during_takeover:
  assumes "reachable host rt" "rt_state rt = RuntimeState.Running" "rt_queue rt = (cid, Cmd_Records (resume_task tid)) # rest"
    and "map_of (tasks (rt_records rt)) tid = Some t" "tsn_state (tr_snapshot t) = TaskState.SuspendedForTakeover"
    and "map_of (sessions (rt_records rt)) (tr_session_id t) = Some s" "ses_state s = SessionState.HumanControlled"
    and "rt' = execute_next host rt"
  shows "map_of (sessions (rt_records rt')) (tr_session_id t) = Some s \<and>
    (\<exists>t' oc h. map_of (tasks (rt_records rt')) tid = Some t' \<and> tr_session_id t' = tr_session_id t \<and> tsn_state (tr_snapshot t') = TaskState.Observing \<and>
      tsn_epoch (tr_snapshot t') = tsn_epoch (tr_snapshot t) + 1 \<and>
      map_of (rt_handles rt') cid = Some h \<and> h_outcome h = Some oc \<and> oc_status oc = SettlementStatus.Applied \<and>
      snd (begin_operation tid stp oid rt') =
        Inr \<lparr>ok_task_id = tid, ok_task_epoch = tsn_epoch (tr_snapshot t'), ok_step_id = stp, ok_operation_id = oid\<rparr>)"
proof -
  let ?sq = "rt_control_sequence rt + 1"
  let ?snap = "apply_simple ?sq (host_now host ?sq tid) TaskState.SuspendedForTakeover TaskState.Observing (tr_snapshot t)"
  have "simple_transition TaskState.SuspendedForTakeover TaskState.Observing = (TaskState.SuspendedForTakeover, True)" by code_simp
  then have "run_records host ?sq (resume_task tid) (rt_records rt) =
      (set_snapshot tid ?snap (rt_records rt), accept SettlementStatus.Applied None (Some ?snap))"
    using assms(4,5) by (simp add: run_records_def resume_task_def run_simple_task_def is_terminal_task_def Let_def)
  note run = execute_record_command [OF assms(1,3) this, folded assms(8)]
  have snap: "tsn_state ?snap = TaskState.Observing" "tsn_epoch ?snap = tsn_epoch (tr_snapshot t) + 1" by (simp_all add: apply_simple_def)
  have task: "map_of (tasks (rt_records rt')) tid = Some (t\<lparr>tr_snapshot := ?snap\<rparr>)" using assms(4) by (simp add: run(1) set_snapshot_def)
  have "snd (begin_operation tid stp oid rt') = Inr \<lparr>ok_task_id = tid, ok_task_epoch = tsn_epoch ?snap, ok_step_id = stp, ok_operation_id = oid\<rparr>"
    using task snap(1) assms(2) run(2) by (simp add: begin_operation_def is_terminal_task_def Let_def)
  then show ?thesis using task snap run(3) assms(6) by (auto simp: run(1) set_snapshot_def accept_def)
qed

definition demo_resuming :: Runtime where
  "demo_resuming = fst (enqueue_admitted SubmitAccepted (demo_id 9) (Cmd_Records (resume_task (demo_id 4))) demo_takeover)"

theorem resume_admits_operations_during_takeover_witness:
  "\<exists>s key. map_of (sessions (rt_records demo_resumed)) (demo_id 2) = Some s \<and> ses_state s = SessionState.HumanControlled \<and>
    snd (begin_operation (demo_id 4) (demo_id 5) (demo_id 20) demo_resumed) = Inr key"
proof -
  let ?t = "the (map_of (tasks (rt_records demo_resuming)) (demo_id 4))" and ?s = "the (map_of (sessions (rt_records demo_resuming)) (demo_id 2))"
  have "reachable demo_host demo_resuming"
    unfolding demo_resuming_def by (rule reachable_step [OF demo_reachable(6) rt_step.command [OF demo_fresh(5) plain_demo(3)]])
  moreover have "rt_state demo_resuming = RuntimeState.Running" "rt_queue demo_resuming = [(demo_id 9, Cmd_Records (resume_task (demo_id 4)))]"
    "map_of (tasks (rt_records demo_resuming)) (demo_id 4) = Some ?t" "tsn_state (tr_snapshot ?t) = TaskState.SuspendedForTakeover"
    "map_of (sessions (rt_records demo_resuming)) (tr_session_id ?t) = Some ?s" "ses_state ?s = SessionState.HumanControlled"
    "tr_session_id ?t = demo_id 2"
    by code_simp+
  moreover have "demo_resumed = execute_next demo_host demo_resuming" by (simp add: demo_resumed_def demo_run_def demo_resuming_def)
  ultimately show ?thesis using resume_admits_operations_during_takeover [of demo_host demo_resuming "demo_id 9" "demo_id 4" "[]" ?t ?s demo_resumed "demo_id 5" "demo_id 20"]
    by auto
qed

section \<open>Command settlement and shutdown\<close>

text \<open>C25: Running the oldest admitted command settles its handle: the receipt names the
  command, its kind and its place in the control sequence, the outcome names the command,
  and a rejected receipt means that no session, task or operation record changed.\<close>

theorem execute_next_settles:
  assumes "reachable host rt" "rt_queue rt = (cid, c) # rest"
  shows "\<exists>h rc oc. map_of (rt_handles (execute_next host rt)) cid = Some h \<and>
    h_receipt h = Some rc \<and> rc_id rc = cid \<and> rc_kind rc = command_kind c \<and>
    rc_control_sequence rc = rt_control_sequence rt + 1 \<and>
    h_outcome h = Some oc \<and> oc_id oc = cid \<and>
    (rc_status rc = ReceiptStatus.Rejected \<longrightarrow> rt_records (execute_next host rt) = rt_records rt)"
proof (rule execute_next_Cons [OF assms(2), of host])
  fix rt1 rp
  let ?sq = "rt_control_sequence rt + 1"
  let ?rt0 = "rt\<lparr>rt_queue := rest, rt_control_sequence := ?sq\<rparr>"
  assume run: "run_command host ?sq c ?rt0 = (rt1, rp)"
    and ex: "execute_next host rt = set_outcome cid (rp_status rp) (rp_error rp) (rp_task rp)
      (set_receipt cid (command_kind c) (rp_receipt rp) ?sq (rp_receipt_error rp) rt1)"
  have inv: "queue_inv rt" using reachable_inv [OF assms(1)] by (simp add: rt_inv_def)
  then have "handle_pending rt cid c" using assms(2) by (simp add: queue_inv_def)
  then obtain h where h: "map_of (rt_handles rt) cid = Some h" "h_receipt h = None" "h_outcome h = None"
    by (auto simp: handle_pending_def)
  have "map_of (rt_handles rt1) cid = Some h"
    using run run_command_handles(1) [of host ?sq c ?rt0] h(1) by simp
  note self = settle_self [OF this, of "rp_status rp" "rp_error rp" "rp_task rp" "command_kind c"
      "rp_receipt rp" ?sq "rp_receipt_error rp", folded ex]
  have "rt_records rt1 = rt_records rt" if "rp_receipt rp = ReceiptStatus.Rejected"
  proof (cases c)
    case (Cmd_Records rec)
    then show ?thesis
      using run that inv run_records_rejected [of "rt_records rt" host ?sq rec]
      by (auto simp: run_command_def queue_inv_def split: prod.splits)
  next
    case Cmd_Shutdown
    then show ?thesis using run that
      by (auto simp: run_command_def run_shutdown_def accept_def Let_def split: prod.splits)
  qed
  then show ?thesis using self h(2,3) by (simp add: ex)
qed

theorem execute_next_settles_witness:
  "\<exists>h rc oc. map_of (rt_handles demo_task) (demo_id 3) = Some h \<and>
    h_receipt h = Some rc \<and> rc_id rc = demo_id 3 \<and>
    rc_kind rc = command_kind (snd (hd (rt_queue demo_queued))) \<and>
    rc_control_sequence rc = rt_control_sequence demo_queued + 1 \<and>
    h_outcome h = Some oc \<and> oc_id oc = demo_id 3"
proof -
  have "rt_queue demo_queued = [(demo_id 3, snd (hd (rt_queue demo_queued)))]" by code_simp
  from execute_next_settles [OF demo_reachable(2) this] show ?thesis
    unfolding demo_task_def by blast
qed

text \<open>C26: The shutdown command leaves every task settled and every session closed or
  failed, also when an environment refuses to be released or throws; from Stopping the
  runtime goes to Quiesced when the command is applied and to Failed when it is not.\<close>

theorem shutdown_settles_everything:
  assumes "reachable host rt" "run_shutdown host sq rt = (rt', rp)"
  shows "(\<forall>tid t. map_of (tasks (rt_records rt')) tid = Some t \<longrightarrow> is_terminal_task (tsn_state (tr_snapshot t))) \<and>
    (\<forall>sid s. map_of (sessions (rt_records rt')) sid = Some s \<longrightarrow> is_terminal_session (ses_state s)) \<and>
    (rt_state rt = RuntimeState.Stopping \<longrightarrow> rt_state rt' =
       (if rp_status rp = SettlementStatus.Applied then RuntimeState.Quiesced else RuntimeState.Failed))"
proof -
  have inv: "records_inv (rt_records rt)"
    using reachable_inv [OF assms(1)] by (simp add: rt_inv_def queue_inv_def)
  have rec: "rt_records rt' = fst (shutdown_records host sq (rt_records rt))"
    using run_shutdown_records [of host sq rt] assms(2) by simp
  have "rt_state rt' = (if rp_status rp = SettlementStatus.Applied then RuntimeState.Quiesced
      else RuntimeState.Failed)" if "rt_state rt = RuntimeState.Stopping"
    using assms(2) that
    by (auto simp: run_shutdown_def state_cell_transition_def accept_def Let_def lifecycle_defs
        split: prod.splits if_splits)
  then show ?thesis unfolding rec using shutdown_records_keeps [OF inv] by blast
qed

theorem shutdown_settles_everything_witness:
  "is_terminal_task (tsn_state (tr_snapshot
     (the (map_of (tasks (rt_records (fst (run_shutdown demo_host 9 demo_stopping)))) (demo_id 4))))) \<and>
   is_terminal_session (ses_state
     (the (map_of (sessions (rt_records (fst (run_shutdown demo_host 9 demo_stopping)))) (demo_id 2)))) \<and>
   rt_state (fst (run_shutdown demo_host 9 demo_stopping)) =
     (if rp_status (snd (run_shutdown demo_host 9 demo_stopping)) = SettlementStatus.Applied
      then RuntimeState.Quiesced else RuntimeState.Failed)"
proof -
  let ?rt = "fst (run_shutdown demo_host 9 demo_stopping)"
  have found: "map_of (tasks (rt_records ?rt)) (demo_id 4) = Some (the (map_of (tasks (rt_records ?rt)) (demo_id 4)))"
    "map_of (sessions (rt_records ?rt)) (demo_id 2) = Some (the (map_of (sessions (rt_records ?rt)) (demo_id 2)))"
    and stopping: "rt_state demo_stopping = RuntimeState.Stopping"
    by code_simp+
  note all = shutdown_settles_everything [OF demo_reachable(9) prod.collapse [symmetric], of 9]
  from all found stopping show ?thesis by blast
qed

text \<open>\<open>finish_shutdown\<close> from an external owner waits for every admitted command:
  afterwards nothing is queued and each command that was listed has its receipt and its
  outcome, also those the executor dropped.\<close>

theorem finish_shutdown_settles_commands:
  assumes "reachable host rt" "fresh (fin_cid inp) rt" "fresh (fin_retry_cid inp) rt"
    and "fin_cid inp \<noteq> fin_retry_cid inp" "\<not> fin_in_callback inp" "rt_final_report rt = None"
  shows "rt_queue (fst (finish_shutdown host inp rt)) = [] \<and>
    (\<forall>cid\<in>set (rt_commands rt). handle_settled (fst (finish_shutdown host inp rt)) cid)"
proof -
  have inv: "rt_inv rt" using assms(1) by (rule reachable_inv)
  obtain rt1 f where r1: "finish_request inp rt = (rt1, f)" by (cases "finish_request inp rt")
  let ?rt2 = "consume_commands host (fin_late inp) rt1"
  obtain rt3 x y where r3: "finish_retry inp f ?rt2 = (rt3, x, y)" by (cases "finish_retry inp f ?rt2")
  let ?rt4 = "consume_commands host (fin_late inp) rt3"
  have i1: "rt_inv rt1" "fresh (fin_retry_cid inp) rt1"
    using finish_request_inv [OF inv assms(2-4)] r1 by auto
  have c1: "set (rt_commands rt) \<subseteq> set (rt_commands rt1)"
    using finish_request_commands [of rt inp] r1 by simp
  have i2: "rt_inv ?rt2" "\<forall>c\<in>set (rt_commands rt1). handle_settled ?rt2 c"
    using consume_commands_inv [OF i1(1)] by auto
  have "fresh (fin_retry_cid inp) ?rt2" using i1(2) fresh_keys [of ?rt2 rt1] by simp
  then have i3: "rt_inv rt3" "advances ?rt2 rt3" using finish_retry_inv [OF i2(1), of inp f] r3 by auto
  have i4: "advances rt3 ?rt4" "rt_queue ?rt4 = []" using consume_commands_inv [OF i3(1)] by auto
  have "finish_drained host inp rt = (?rt4, x, y)" by (simp add: finish_drained_def r1 r3)
  then obtain s rep where fin: "fst (finish_shutdown host inp rt) = ?rt4\<lparr>rt_state := s, rt_final_report := rep\<rparr>"
    using finish_shutdown_cases [OF assms(5,6)] by blast
  have "handle_settled ?rt4 c" if "c \<in> set (rt_commands rt)" for c
    using that c1 i2(2) i3(2) i4(1) unfolding advances_def by blast
  then show ?thesis unfolding fin using i4(2) by (simp add: handle_settled_def)
qed

definition demo_finish :: FinishInputs where
  "demo_finish = \<lparr>fin_in_callback = False, fin_verdict = SubmitAccepted, fin_cid = demo_id 12,
     fin_retry_verdict = SubmitAccepted, fin_retry_cid = demo_id 13, fin_late = (\<lambda>_. None),
     fin_executor_completed = True\<rparr>"

theorem finish_shutdown_settles_commands_witness:
  "rt_queue (fst (finish_shutdown demo_host demo_finish demo_stopping)) = [] \<and>
    handle_settled (fst (finish_shutdown demo_host demo_finish demo_stopping)) (demo_id 11)"
proof -
  have "fin_cid demo_finish \<noteq> fin_retry_cid demo_finish" "\<not> fin_in_callback demo_finish"
    "rt_final_report demo_stopping = None" "demo_id 11 \<in> set (rt_commands demo_stopping)"
    by code_simp+
  then show ?thesis
    using finish_shutdown_settles_commands [OF demo_reachable(9), of demo_finish]
    by (simp add: demo_finish_def demo_fresh)
qed

text \<open>The final report is settled once: when an external owner's call completed, every
  later call returns the same report and leaves the runtime as it is; a call from a
  control callback changes nothing either.\<close>

theorem finish_shutdown_idempotent:
  assumes "\<not> fin_in_callback inp" "fin_executor_completed inp"
    and "finish_shutdown host inp rt = (rt', rep)"
  shows "fst (finish_shutdown host' inp' rt') = rt' \<and>
    (\<not> fin_in_callback inp' \<longrightarrow> snd (finish_shutdown host' inp' rt') = rep)"
  using finish_shutdown_stores [OF assms] by (simp add: finish_shutdown_def)

theorem finish_shutdown_idempotent_witness:
  "finish_shutdown demo_host demo_finish (fst (finish_shutdown demo_host demo_finish demo_stopping)) =
     finish_shutdown demo_host demo_finish demo_stopping"
  using finish_shutdown_idempotent [of demo_finish demo_host demo_stopping
      "fst (finish_shutdown demo_host demo_finish demo_stopping)"
      "snd (finish_shutdown demo_host demo_finish demo_stopping)" demo_host demo_finish]
  by (simp add: demo_finish_def prod_eq_iff)

text \<open>The state of the runtime moves along its transition table only, in every step
  and so in every run.\<close>

theorem runtime_state_follows_table:
  assumes "(rt_step host)\<^sup>*\<^sup>* rt rt'"
  shows "valid_runtime_transition\<^sup>*\<^sup>* (rt_state rt) (rt_state rt')"
  using state_sys.steps_progress [OF assms] by (simp add: state_progress_def)

theorem runtime_state_follows_table_witness:
  "valid_runtime_transition\<^sup>*\<^sup>* (rt_state demo_operation) (rt_state demo_stopping)"
  by (rule runtime_state_follows_table [where host = demo_host], rule r_into_rtranclp)
    (simp add: demo_stopping_def rt_step.request_shutdown demo_fresh)

text \<open>The search that \<open>complete_task\<close> relies on decides reachability in the task
  transition table.\<close>

theorem path_search_decides_reachability:
  "task_state_path_exists s t \<longleftrightarrow> valid_task_transition\<^sup>*\<^sup>* s t"
  by (rule task_state_path_exists_iff)

end
