(* ===== verification/Ieee_Double.thy ===== *)
theory Ieee_Double
  imports Mira_Prelude
begin

text \<open>
  The binary64 numbers that the C++ type \<open>double\<close> denotes, as their 64 bits, with the
  operations the sources use: comparison, \<open>isfinite\<close>, conversion from and to
  \<open>std::int64_t\<close>, halving, \<open>std::stod\<close> (the nearest double of a decimal, ties to even) and
  \<open>printf\<close> with \<open>%.17g\<close>. All of it is exact integer arithmetic; decimal text of
  integers (\<open>std::to_string\<close>) is here too.
\<close>

datatype double = Double (dbits: u64)

definition dbl_neg :: "double \<Rightarrow> bool" where
  "dbl_neg d \<longleftrightarrow> uint (dbits d) \<ge> 2 ^ 63"

text \<open>The bits below the sign.\<close>

definition dbl_mag :: "double \<Rightarrow> int" where
  "dbl_mag d = uint (dbits d) mod 2 ^ 63"

definition dbl_inf_mag :: int where
  "dbl_inf_mag = 0x7FF0000000000000"

definition mk_double :: "bool \<Rightarrow> int \<Rightarrow> double" where
  "mk_double neg mag = Double (of_int (mag + (if neg then 2 ^ 63 else 0)))"

definition dbl_isnan :: "double \<Rightarrow> bool" where
  "dbl_isnan d \<longleftrightarrow> dbl_mag d > dbl_inf_mag"

definition dbl_isfinite :: "double \<Rightarrow> bool" where
  "dbl_isfinite d \<longleftrightarrow> dbl_mag d < dbl_inf_mag"

text \<open>For numbers the order of the values is the order of these keys; both zeros have key 0.\<close>

definition dbl_key :: "double \<Rightarrow> int" where
  "dbl_key d = (if dbl_neg d then - dbl_mag d else dbl_mag d)"

definition dbl_eq :: "double \<Rightarrow> double \<Rightarrow> bool" where
  "dbl_eq x y \<longleftrightarrow> \<not> dbl_isnan x \<and> \<not> dbl_isnan y \<and> dbl_key x = dbl_key y"

definition dbl_lt :: "double \<Rightarrow> double \<Rightarrow> bool" where
  "dbl_lt x y \<longleftrightarrow> \<not> dbl_isnan x \<and> \<not> dbl_isnan y \<and> dbl_key x < dbl_key y"

definition dbl_le :: "double \<Rightarrow> double \<Rightarrow> bool" where
  "dbl_le x y \<longleftrightarrow> \<not> dbl_isnan x \<and> \<not> dbl_isnan y \<and> dbl_key x \<le> dbl_key y"

definition dbl_zero :: double where
  "dbl_zero = Double 0"

definition dbl_one :: double where
  "dbl_one = Double 0x3FF0000000000000"

section \<open>Values and rounding\<close>

text \<open>A finite magnitude is \<open>m * 2 ^ e\<close>.\<close>

definition dbl_parts :: "int \<Rightarrow> int \<times> int" where
  "dbl_parts mag = (if mag < 2 ^ 52 then (mag, - 1074)
     else (2 ^ 52 + mag mod 2 ^ 52, mag div 2 ^ 52 - 1075))"

definition div_half_even :: "int \<Rightarrow> int \<Rightarrow> int" where
  "div_half_even p q =
     (let d = p div q; r = p mod q in
      if 2 * r < q \<or> (2 * r = q \<and> even d) then d else d + 1)"

function bit_length :: "int \<Rightarrow> int" where
  "bit_length n = (if n \<le> 0 then 0 else 1 + bit_length (n div 2))"
  by pat_completeness auto
termination
  by (relation "measure nat") auto

declare bit_length.simps [simp del]

text \<open>\<open>p / q\<close> scaled by \<open>2 ^ -e\<close>, as a fraction.\<close>

definition scale2 :: "int \<Rightarrow> int \<Rightarrow> int \<Rightarrow> int \<times> int" where
  "scale2 e p q = (if e \<ge> 0 then (p, q * 2 ^ nat e) else (p * 2 ^ nat (- e), q))"

text \<open>The magnitude bits of the double nearest to \<open>p / q\<close>. A carry out of the significand
  moves into the exponent field by itself; a result of at least \<open>dbl_inf_mag\<close> is overflow.\<close>

definition round_mag :: "int \<Rightarrow> int \<Rightarrow> int" where
  "round_mag p q =
     (if p = 0 then 0
      else let k = bit_length p - bit_length q;
               e0 = max (- 1074) (k - 53);
               (p0, q0) = scale2 e0 p q;
               e = (if p0 div q0 < 2 ^ 53 then e0 else e0 + 1);
               (p1, q1) = scale2 e p q
           in (e + 1074) * 2 ^ 52 + div_half_even p1 q1)"

definition round_exact :: "int \<Rightarrow> int \<Rightarrow> bool" where
  "round_exact p q =
     (let (m, e) = dbl_parts (round_mag p q);
          (p1, q1) = scale2 e p q
      in p1 = m * q1)"

definition double_of_int :: "int \<Rightarrow> double" where
  "double_of_int i = mk_double (i < 0) (round_mag \<bar>i\<bar> 1)"

text \<open>Truncation toward zero, for finite numbers.\<close>

definition dbl_trunc :: "double \<Rightarrow> int" where
  "dbl_trunc d =
     (let (m, e) = dbl_parts (dbl_mag d);
          n = (if e \<ge> 0 then m * 2 ^ nat e else m div 2 ^ nat (- e))
      in if dbl_neg d then - n else n)"

text \<open>\<open>x * 0.5\<close>: exact on the exponent field, rounded to even below it.\<close>

definition dbl_half :: "double \<Rightarrow> double" where
  "dbl_half d =
     (let mag = dbl_mag d in
      if mag \<ge> dbl_inf_mag then d
      else mk_double (dbl_neg d) (if mag \<ge> 2 ^ 53 then mag - 2 ^ 52 else div_half_even mag 2))"

section \<open>Decimal text\<close>

definition digit_char :: "int \<Rightarrow> char" where
  "digit_char n = char_of (48 + n)"

definition digit_val :: "char \<Rightarrow> int" where
  "digit_val c = of_char c - 48"

definition is_digit :: "char \<Rightarrow> bool" where
  "is_digit c \<longleftrightarrow> CHR ''0'' \<le> c \<and> c \<le> CHR ''9''"

text \<open>The digits of a natural number.\<close>

function show_digits :: "int \<Rightarrow> string" where
  "show_digits n = (if n < 10 then [digit_char n] else show_digits (n div 10) @ [digit_char (n mod 10)])"
  by pat_completeness auto
termination
  by (relation "measure nat") auto

declare show_digits.simps [simp del]

text \<open>\<open>std::to_string(std::int64_t)\<close>.\<close>

definition show_int :: "int \<Rightarrow> string" where
  "show_int i = (if i < 0 then CHR ''-'' # show_digits (- i) else show_digits i)"

definition digits_value :: "string \<Rightarrow> int" where
  "digits_value ds = foldl (\<lambda>a c. a * 10 + digit_val c) 0 ds"

text \<open>\<open>std::stod\<close> on a token of sign, integer digits, fraction digits and exponent;
  \<open>None\<close> is the \<open>std::out_of_range\<close> exception (overflow, or an inexact subnormal).\<close>

definition stod :: "bool \<Rightarrow> string \<Rightarrow> string \<Rightarrow> int \<Rightarrow> double option" where
  "stod neg int_digits frac_digits ex =
     (let n = digits_value (int_digits @ frac_digits);
          e = ex - int (length frac_digits);
          p = (if e \<ge> 0 then n * 10 ^ nat e else n);
          q = (if e \<ge> 0 then 1 else 10 ^ nat (- e));
          mag = round_mag p q
      in if mag \<ge> dbl_inf_mag \<or> (mag < 2 ^ 52 \<and> \<not> round_exact p q) then None
         else Some (mk_double neg mag))"

text \<open>\<open>%.17g\<close>: seventeen significant digits, trailing zeros removed, an exponent outside
  the range from -4 to 16.\<close>

function decimals_below :: "int \<Rightarrow> int \<Rightarrow> int" where
  "decimals_below p q = (if p \<le> 0 \<or> p \<ge> q then 0 else 1 + decimals_below (10 * p) q)"
  by pat_completeness auto
termination
  by (relation "measure (\<lambda>(p, q). nat (q - p))") auto

declare decimals_below.simps [simp del]

definition decimal_exponent :: "int \<Rightarrow> int \<Rightarrow> int" where
  "decimal_exponent p q =
     (if p \<ge> q then int (length (show_digits (p div q))) - 1 else - decimals_below p q)"

definition significant17 :: "int \<Rightarrow> int \<Rightarrow> int \<times> int" where
  "significant17 p q =
     (let x = decimal_exponent p q;
          s = x - 16;
          d = (if s \<ge> 0 then div_half_even p (q * 10 ^ nat s) else div_half_even (p * 10 ^ nat (- s)) q)
      in if d = 10 ^ 17 then (10 ^ 16, x + 1) else (d, x))"

definition strip_zeros :: "string \<Rightarrow> string" where
  "strip_zeros ds = rev (dropWhile (\<lambda>c. c = CHR ''0'') (rev ds))"

definition with_fraction :: "string \<Rightarrow> string \<Rightarrow> string" where
  "with_fraction whole frac =
     (let f = strip_zeros frac in if f = [] then whole else whole @ ''.'' @ f)"

definition format_digits :: "string \<Rightarrow> int \<Rightarrow> string" where
  "format_digits ds x =
     (if x < - 4 \<or> x \<ge> 17
      then let ax = show_digits \<bar>x\<bar> in
        with_fraction (take 1 ds) (drop 1 ds) @ (if x < 0 then ''e-'' else ''e+'') @
          (if length ax < 2 then CHR ''0'' # ax else ax)
      else if x \<ge> 0 then with_fraction (take (Suc (nat x)) ds) (drop (Suc (nat x)) ds)
      else with_fraction ''0'' (replicate (nat (- x) - 1) CHR ''0'' @ ds))"

definition format_17g :: "double \<Rightarrow> string" where
  "format_17g d =
     (let body =
        (if dbl_isnan d then ''nan''
         else if \<not> dbl_isfinite d then ''inf''
         else if dbl_mag d = 0 then ''0''
         else let (m, e) = dbl_parts (dbl_mag d);
                  (p, q) = scale2 (- e) m 1;
                  (ds, x) = significant17 p q
              in format_digits (show_digits ds) x)
      in (if dbl_neg d then CHR ''-'' # body else body))"

section \<open>Lemmas\<close>

lemma dbl_mag_bounds [simp]: "0 \<le> dbl_mag d" "dbl_mag d < 2 ^ 63"
  by (simp_all add: dbl_mag_def)

lemma dbl_eq_refl: "dbl_eq x x \<longleftrightarrow> \<not> dbl_isnan x"
  by (auto simp: dbl_eq_def)

lemma dbl_lt_trans: "dbl_lt x y \<Longrightarrow> dbl_lt y z \<Longrightarrow> dbl_lt x z"
  by (auto simp: dbl_lt_def)

lemma dbl_lt_irrefl [simp]: "\<not> dbl_lt x x"
  by (simp add: dbl_lt_def)

lemma dbl_isfinite_not_nan: "dbl_isfinite x \<Longrightarrow> \<not> dbl_isnan x"
  by (simp add: dbl_isfinite_def dbl_isnan_def)

lemma dbl_total: "\<not> dbl_isnan x \<Longrightarrow> \<not> dbl_isnan y \<Longrightarrow> dbl_lt x y \<or> dbl_eq x y \<or> dbl_lt y x"
  by (auto simp: dbl_lt_def dbl_eq_def)

lemma mk_double_parts:
  assumes "0 \<le> mag" "mag < 2 ^ 63"
  shows "dbl_mag (mk_double neg mag) = mag" "dbl_neg (mk_double neg mag) = neg"
proof -
  have "uint (dbits (mk_double neg mag)) = (mag + (if neg then 2 ^ 63 else 0)) mod 2 ^ 64"
    unfolding mk_double_def double.sel by (subst uint_word_of_int) simp
  also have "\<dots> = mag + (if neg then 2 ^ 63 else 0)"
    using assms by (intro mod_pos_pos_trivial) auto
  finally show "dbl_mag (mk_double neg mag) = mag" "dbl_neg (mk_double neg mag) = neg"
    using assms by (auto simp: dbl_mag_def dbl_neg_def)
qed

text \<open>Halving never grows a magnitude, so a bound survives it.\<close>

lemma div_half_even_2: "0 \<le> n \<Longrightarrow> 0 \<le> div_half_even n 2 \<and> div_half_even n 2 \<le> n"
proof -
  have "div_half_even n 2 = n div 2 \<or> (div_half_even n 2 = n div 2 + 1 \<and> n mod 2 = 1)"
    by (auto simp: div_half_even_def Let_def)
  then show "0 \<le> n \<Longrightarrow> ?thesis" by (elim disjE) presburger+
qed

lemma dbl_half_bounds:
  assumes "dbl_isfinite d"
  shows "dbl_mag (dbl_half d) \<le> dbl_mag d \<and> dbl_neg (dbl_half d) = dbl_neg d \<and> dbl_isfinite (dbl_half d)"
proof -
  let ?m = "if dbl_mag d \<ge> 2 ^ 53 then dbl_mag d - 2 ^ 52 else div_half_even (dbl_mag d) 2"
  have m: "0 \<le> ?m" "?m \<le> dbl_mag d" using div_half_even_2 [of "dbl_mag d"] by auto
  then have "?m < 2 ^ 63" using dbl_mag_bounds(2) [of d] by linarith
  moreover have "dbl_half d = mk_double (dbl_neg d) ?m"
    using assms by (simp add: dbl_half_def dbl_isfinite_def Let_def)
  ultimately show ?thesis
    using mk_double_parts [OF m(1), of "dbl_neg d"] m(2) assms by (simp add: dbl_isfinite_def)
qed

lemma is_digit_digit_char: "0 \<le> n \<Longrightarrow> n < 10 \<Longrightarrow> is_digit (digit_char n) \<and> digit_val (digit_char n) = n"
proof -
  have "\<forall>n\<in>set [0..9]. is_digit (digit_char n) \<and> digit_val (digit_char n) = n" by code_simp
  then show "0 \<le> n \<Longrightarrow> n < 10 \<Longrightarrow> ?thesis" by simp
qed

lemma is_digit_val: "is_digit c \<Longrightarrow> 0 \<le> digit_val c \<and> digit_val c \<le> 9"
proof -
  have "\<forall>c. is_digit c \<longrightarrow> 0 \<le> digit_val c \<and> digit_val c \<le> 9" by code_simp
  then show "is_digit c \<Longrightarrow> ?thesis" by blast
qed

lemma digits_value_append [simp]:
  "digits_value (ds @ [c]) = digits_value ds * 10 + digit_val c"
  by (simp add: digits_value_def)

lemma show_digits_spec:
  "0 \<le> n \<Longrightarrow> digits_value (show_digits n) = n \<and> list_all is_digit (show_digits n) \<and> show_digits n \<noteq> []"
proof (induction n rule: show_digits.induct)
  case (1 n)
  show ?case
  proof (cases "n < 10")
    case True
    then show ?thesis using is_digit_digit_char [of n] "1.prems"
      by (simp add: show_digits.simps [of n] digits_value_def)
  next
    case False
    then show ?thesis using 1 is_digit_digit_char [of "n mod 10"]
      by (simp add: show_digits.simps [of n])
  qed
qed

end
