(* ===== verification/Json.thy ===== *)
theory Json
  imports Core_Contracts Ieee_Double
begin

text \<open>
  The JSON value model of \<open>include/mira/json.hpp\<close> with the parser and the two writers of
  \<open>src/support/json.cpp\<close>. The parser keeps the unread input where the C++ code keeps a
  position; a result is a value with the rest of the input, an error message, or the
  exhaustion of the recursion budget (\<open>NoFuel\<close>), which \<open>parse_json\<close> never meets
  (theory \<open>Json_Parser\<close>).
\<close>

section \<open>Values and limits\<close>

datatype JsonValue =
    JNull
  | JBoolean bool
  | JInteger int
  | JNumber double
  | JString string
  | JArray "JsonValue list"
  | JObject "(string \<times> JsonValue) list"

type_synonym JsonObject = "(string \<times> JsonValue) list"

definition int64_max :: int where
  "int64_max = 9223372036854775807"

record JsonLimits =
  max_depth :: nat
  max_document_bytes :: nat
  max_string_bytes :: nat
  max_array_items :: nat
  max_object_members :: nat

definition json_limits_default :: JsonLimits where
  "json_limits_default = \<lparr>max_depth = 32, max_document_bytes = 4 * 1024 * 1024,
     max_string_bytes = 1024 * 1024, max_array_items = 100000, max_object_members = 100000\<rparr>"

text \<open>Accessors. \<open>as_integer\<close> accepts a number whose value is an integer; the cast of a
  number outside the range of \<open>std::int64_t\<close> is undefined in C++ and reads as no integer
  here, which is what the usual hardware conversion amounts to.\<close>

definition as_boolean :: "JsonValue \<Rightarrow> bool option" where
  "as_boolean v = (case v of JBoolean b \<Rightarrow> Some b | _ \<Rightarrow> None)"

definition as_integer :: "JsonValue \<Rightarrow> int option" where
  "as_integer v = (case v of
      JInteger i \<Rightarrow> Some i
    | JNumber d \<Rightarrow>
        if dbl_isfinite d \<and> - int64_max - 1 \<le> dbl_trunc d \<and> dbl_trunc d \<le> int64_max \<and>
           dbl_eq d (double_of_int (dbl_trunc d))
        then Some (dbl_trunc d) else None
    | _ \<Rightarrow> None)"

definition as_number :: "JsonValue \<Rightarrow> double option" where
  "as_number v = (case v of JInteger i \<Rightarrow> Some (double_of_int i) | JNumber d \<Rightarrow> Some d | _ \<Rightarrow> None)"

definition as_string :: "JsonValue \<Rightarrow> string option" where
  "as_string v = (case v of JString s \<Rightarrow> Some s | _ \<Rightarrow> None)"

definition as_array :: "JsonValue \<Rightarrow> JsonValue list option" where
  "as_array v = (case v of JArray a \<Rightarrow> Some a | _ \<Rightarrow> None)"

definition as_object :: "JsonValue \<Rightarrow> JsonObject option" where
  "as_object v = (case v of JObject ms \<Rightarrow> Some ms | _ \<Rightarrow> None)"

definition json_find :: "JsonValue \<Rightarrow> string \<Rightarrow> JsonValue option" where
  "json_find v key = (case v of JObject ms \<Rightarrow> map_of ms key | _ \<Rightarrow> None)"

fun set_member :: "string \<Rightarrow> JsonValue \<Rightarrow> JsonObject \<Rightarrow> JsonObject" where
  "set_member key v [] = [(key, v)]"
| "set_member key v ((k, w) # ms) = (if k = key then (k, v) # ms else (k, w) # set_member key v ms)"

definition json_set :: "string \<Rightarrow> JsonValue \<Rightarrow> JsonValue \<Rightarrow> JsonValue" where
  "json_set key v obj = (case obj of JObject ms \<Rightarrow> JObject (set_member key v ms) | _ \<Rightarrow> obj)"

definition json_error :: "string \<Rightarrow> Error" where
  "json_error message = error_default\<lparr>err_code := ErrorCode.InvalidArgument,
     err_domain := ''mira.json'', err_safe_message := message\<rparr>"

section \<open>Parser\<close>

datatype 'a parsed = NoFuel | Bad string | Got 'a string

definition pbind :: "'a parsed \<Rightarrow> ('a \<Rightarrow> string \<Rightarrow> 'b parsed) \<Rightarrow> 'b parsed" where
  "pbind p k = (case p of NoFuel \<Rightarrow> NoFuel | Bad m \<Rightarrow> Bad m | Got x rest \<Rightarrow> k x rest)"

definition is_whitespace :: "char \<Rightarrow> bool" where
  "is_whitespace c \<longleftrightarrow> c = CHR '' '' \<or> c = CHR 0x09 \<or> c = CHR 0x0D \<or> c = CHR 0x0A"

definition skip_whitespace :: "string \<Rightarrow> string" where
  "skip_whitespace cs = dropWhile is_whitespace cs"

text \<open>\<open>consume(expected)\<close> at the head of the rest.\<close>

definition starts :: "char \<Rightarrow> string \<Rightarrow> bool" where
  "starts c cs \<longleftrightarrow> (case cs of [] \<Rightarrow> False | d # _ \<Rightarrow> d = c)"

definition parse_literal :: "string \<Rightarrow> JsonValue \<Rightarrow> string \<Rightarrow> JsonValue parsed" where
  "parse_literal literal v cs =
     (if take (length literal) cs \<noteq> literal then Bad ''invalid json literal''
      else Got v (drop (length literal) cs))"

definition hex_digit :: "char \<Rightarrow> int option" where
  "hex_digit c =
     (if CHR ''0'' \<le> c \<and> c \<le> CHR ''9'' then Some (of_char c - of_char CHR ''0'')
      else if CHR ''a'' \<le> c \<and> c \<le> CHR ''f'' then Some (of_char c - of_char CHR ''a'' + 10)
      else if CHR ''A'' \<le> c \<and> c \<le> CHR ''F'' then Some (of_char c - of_char CHR ''A'' + 10)
      else None)"

fun parse_hex4 :: "nat \<Rightarrow> int \<Rightarrow> string \<Rightarrow> int parsed" where
  "parse_hex4 0 v cs = Got v cs"
| "parse_hex4 (Suc n) v [] = Bad ''truncated unicode escape''"
| "parse_hex4 (Suc n) v (c # cs) =
     (case hex_digit c of
        Some d \<Rightarrow> parse_hex4 n (push_bit 4 v OR d) cs
      | None \<Rightarrow> Bad ''invalid unicode escape digit'')"

definition byte :: "int \<Rightarrow> char" where
  "byte n = char_of n"

definition encode_utf8 :: "int \<Rightarrow> string" where
  "encode_utf8 cp =
     (if cp < 0x80 then [byte cp]
      else if cp < 0x800 then [byte (0xC0 OR drop_bit 6 cp), byte (0x80 OR (cp AND 0x3F))]
      else if cp < 0x10000
      then [byte (0xE0 OR drop_bit 12 cp), byte (0x80 OR (drop_bit 6 cp AND 0x3F)),
            byte (0x80 OR (cp AND 0x3F))]
      else [byte (0xF0 OR drop_bit 18 cp), byte (0x80 OR (drop_bit 12 cp AND 0x3F)),
            byte (0x80 OR (drop_bit 6 cp AND 0x3F)), byte (0x80 OR (cp AND 0x3F))])"

definition parse_unicode_escape :: "string \<Rightarrow> string parsed" where
  "parse_unicode_escape cs =
     pbind (parse_hex4 4 0 cs) (\<lambda>high rest.
       if 0xD800 \<le> high \<and> high \<le> 0xDBFF
       then if take 2 rest \<noteq> [CHR 0x5C, CHR ''u''] then Bad ''unpaired utf-16 surrogate''
         else pbind (parse_hex4 4 0 (drop 2 rest)) (\<lambda>low rest.
           if low < 0xDC00 \<or> low > 0xDFFF then Bad ''invalid utf-16 surrogate pair''
           else Got (encode_utf8 (0x10000 + push_bit 10 (high - 0xD800) + (low - 0xDC00))) rest)
       else if 0xDC00 \<le> high \<and> high \<le> 0xDFFF then Bad ''unpaired utf-16 surrogate''
       else Got (encode_utf8 high) rest)"

definition parse_escape :: "string \<Rightarrow> string parsed" where
  "parse_escape cs =
     (case cs of
        [] \<Rightarrow> Bad ''unterminated json escape''
      | c # rest \<Rightarrow>
          if c = CHR 0x22 then Got [CHR 0x22] rest
          else if c = CHR 0x5C then Got [CHR 0x5C] rest
          else if c = CHR ''/'' then Got ''/'' rest
          else if c = CHR ''b'' then Got [CHR 0x08] rest
          else if c = CHR ''f'' then Got [CHR 0x0C] rest
          else if c = CHR ''n'' then Got [CHR 0x0A] rest
          else if c = CHR ''r'' then Got [CHR 0x0D] rest
          else if c = CHR ''t'' then Got [CHR 0x09] rest
          else if c = CHR ''u'' then parse_unicode_escape rest
          else Bad ''invalid json escape'')"

text \<open>The lead byte of a multi-byte sequence: how many bytes follow and its payload.\<close>

definition utf8_lead :: "int \<Rightarrow> (nat \<times> int) option" where
  "utf8_lead b =
     (if b AND 0xE0 = 0xC0 then Some (1, b AND 0x1F)
      else if b AND 0xF0 = 0xE0 then Some (2, b AND 0x0F)
      else if b AND 0xF8 = 0xF0 then Some (3, b AND 0x07)
      else None)"

definition utf8_minimum :: "nat \<Rightarrow> int" where
  "utf8_minimum n = [0x0, 0x80, 0x800, 0x10000] ! n"

definition utf8_code_point_ok :: "nat \<Rightarrow> int \<Rightarrow> bool" where
  "utf8_code_point_ok n cp \<longleftrightarrow>
     \<not> (cp < utf8_minimum n \<or> cp > 0x10FFFF \<or> (0xD800 \<le> cp \<and> cp \<le> 0xDFFF))"

text \<open>The loop over the trailing bytes, with the output so far.\<close>

fun utf8_tail :: "nat \<Rightarrow> nat \<Rightarrow> int \<Rightarrow> string \<Rightarrow> string \<Rightarrow> (int \<times> string) parsed" where
  "utf8_tail limit 0 cp out cs = Got (cp, out) cs"
| "utf8_tail limit (Suc n) cp out [] = Bad ''truncated utf-8 sequence''"
| "utf8_tail limit (Suc n) cp out (c # cs) =
     (if length out \<ge> limit then Bad ''json string length exceeded''
      else if (of_char c :: int) AND 0xC0 \<noteq> 0x80 then Bad ''invalid utf-8 continuation byte''
      else utf8_tail limit n (push_bit 6 cp OR (of_char c AND 0x3F)) (out @ [c]) cs)"

lemma parse_hex4_length: "parse_hex4 n v cs = Got x rest \<Longrightarrow> length cs = n + length rest"
  by (induction n v cs rule: parse_hex4.induct) (auto split: option.splits)

lemma parse_unicode_escape_length:
  assumes "parse_unicode_escape cs = Got e rest"
  shows "length rest < length cs"
proof (cases "parse_hex4 4 0 cs")
  case (Got high r)
  note first = parse_hex4_length [OF Got]
  show ?thesis
  proof (cases "0xD800 \<le> high \<and> high \<le> 0xDBFF")
    case True
    then obtain low r2 where "parse_hex4 4 0 (drop 2 r) = Got low r2" "rest = r2"
      using assms Got by (auto simp: parse_unicode_escape_def pbind_def split: if_splits parsed.splits)
    then show ?thesis using first parse_hex4_length [of 4 0 "drop 2 r"] by simp
  next
    case False
    then show ?thesis using assms Got first
      by (auto simp: parse_unicode_escape_def pbind_def split: if_splits)
  qed
qed (use assms in \<open>simp_all add: parse_unicode_escape_def pbind_def\<close>)

lemma parse_escape_length: "parse_escape cs = Got e rest \<Longrightarrow> length rest < length cs"
  by (auto simp: parse_escape_def split: list.splits if_splits
      dest!: parse_unicode_escape_length)

lemma utf8_tail_length:
  "utf8_tail limit n cp out cs = Got x rest \<Longrightarrow> length rest \<le> length cs"
  by (induction limit n cp out cs rule: utf8_tail.induct) (auto split: if_splits)

text \<open>The loop of \<open>parse_string_raw\<close>, after the opening quote.\<close>

function string_loop :: "nat \<Rightarrow> string \<Rightarrow> string \<Rightarrow> string parsed" where
  "string_loop limit out [] = Bad ''unterminated json string''"
| "string_loop limit out (c # cs) =
     (if length out \<ge> limit then Bad ''json string length exceeded''
      else if (of_char c :: int) < 0x20 then Bad ''unescaped control character in json string''
      else if c = CHR 0x22 then Got out cs
      else if c = CHR 0x5C
      then case parse_escape cs of
          Got escaped rest \<Rightarrow> string_loop limit (out @ escaped) rest
        | Bad m \<Rightarrow> Bad m
        | NoFuel \<Rightarrow> NoFuel
      else if (of_char c :: int) < 0x80 then string_loop limit (out @ [c]) cs
      else case utf8_lead (of_char c) of
          None \<Rightarrow> Bad ''invalid utf-8 lead byte''
        | Some (continuation, bits) \<Rightarrow>
            (case utf8_tail limit continuation bits (out @ [c]) cs of
               Got (cp, out') rest \<Rightarrow>
                 if \<not> utf8_code_point_ok continuation cp then Bad ''invalid utf-8 code point''
                 else string_loop limit out' rest
             | Bad m \<Rightarrow> Bad m
             | NoFuel \<Rightarrow> NoFuel))"
  by pat_completeness auto
termination
  by (relation "measure (\<lambda>(limit, out, cs). length cs)")
    (auto dest: parse_escape_length utf8_tail_length)

definition parse_string_raw :: "nat \<Rightarrow> string \<Rightarrow> string parsed" where
  "parse_string_raw limit cs = string_loop limit [] (if starts CHR 0x22 cs then tl cs else cs)"

text \<open>The integer path: \<open>None\<close> is the overflow flag.\<close>

fun accumulate_int64 :: "int \<Rightarrow> string \<Rightarrow> int option" where
  "accumulate_int64 v [] = Some v"
| "accumulate_int64 v (c # cs) =
     (let digit = digit_val c in
      if v > (int64_max - digit) div 10 then None else accumulate_int64 (v * 10 + digit) cs)"

definition number_value :: "bool \<Rightarrow> string \<Rightarrow> string \<Rightarrow> int \<Rightarrow> string \<Rightarrow> JsonValue parsed" where
  "number_value neg ints fracs ex rest =
     (case stod neg ints fracs ex of
        Some d \<Rightarrow> if \<not> dbl_isfinite d then Bad ''json number is not finite'' else Got (JNumber d) rest
      | None \<Rightarrow> Bad ''json number out of range'')"

text \<open>Fraction and exponent parts: the digits, whether the part is present, and the rest.\<close>

definition parse_fraction :: "string \<Rightarrow> (bool \<times> string) parsed" where
  "parse_fraction cs =
     (if starts CHR ''.'' cs
      then let ds = takeWhile is_digit (tl cs) in
        if ds = [] then Bad ''invalid json fraction'' else Got (True, ds) (dropWhile is_digit (tl cs))
      else Got (False, []) cs)"

definition parse_exponent :: "string \<Rightarrow> (bool \<times> int) parsed" where
  "parse_exponent cs =
     (if starts CHR ''e'' cs \<or> starts CHR ''E'' cs
      then let cs1 = tl cs;
               neg = starts CHR ''-'' cs1;
               cs2 = (if neg \<or> starts CHR ''+'' cs1 then tl cs1 else cs1);
               ds = takeWhile is_digit cs2 in
        if ds = [] then Bad ''invalid json exponent''
        else Got (True, (if neg then - digits_value ds else digits_value ds)) (dropWhile is_digit cs2)
      else Got (False, 0) cs)"

text \<open>The part after the integer digits, which decides between the integer and the
  floating path.\<close>

definition number_body :: "bool \<Rightarrow> string \<Rightarrow> string \<Rightarrow> JsonValue parsed" where
  "number_body neg ints cs2 =
     pbind (parse_fraction cs2) (\<lambda>(has_fraction, fracs) cs3.
       pbind (parse_exponent cs3) (\<lambda>(has_exponent, ex) cs4.
         if \<not> (has_fraction \<or> has_exponent)
         then case accumulate_int64 0 ints of
             Some v \<Rightarrow> Got (JInteger (if neg then - v else v)) cs4
           | None \<Rightarrow> number_value neg ints fracs ex cs4
         else number_value neg ints fracs ex cs4))"

definition parse_number :: "string \<Rightarrow> JsonValue parsed" where
  "parse_number cs =
     (let neg = starts CHR ''-'' cs;
          cs1 = (if neg then tl cs else cs);
          ints = takeWhile is_digit cs1
      in if ints = [] then Bad ''invalid json number''
         else number_body neg ints (dropWhile is_digit cs1))"

text \<open>The loops of \<open>parse_object\<close> and \<open>parse_array\<close>, with the parser of the member values
  and items as an argument and a budget of rounds.\<close>

primrec parse_members ::
  "nat \<Rightarrow> JsonLimits \<Rightarrow> (string \<Rightarrow> JsonValue parsed) \<Rightarrow> JsonObject \<Rightarrow> string \<Rightarrow> JsonValue parsed" where
  "parse_members 0 lim element members cs = NoFuel"
| "parse_members (Suc fuel) lim element members cs =
     (let cs1 = skip_whitespace cs in
      if \<not> starts CHR 0x22 cs1 then Bad ''expected object key string''
      else pbind (parse_string_raw (max_string_bytes lim) cs1) (\<lambda>key cs2.
        if key \<in> set (map fst members) then Bad ''duplicate object key''
        else if length members \<ge> max_object_members lim then Bad ''json object member limit exceeded''
        else let cs3 = skip_whitespace cs2 in
          if \<not> starts CHR '':'' cs3 then Bad ''expected ':' after object key''
          else pbind (element (skip_whitespace (tl cs3))) (\<lambda>v cs4.
            let members' = members @ [(key, v)]; cs5 = skip_whitespace cs4 in
            if starts CHR '','' cs5 then parse_members fuel lim element members' (tl cs5)
            else if starts CHR ''}'' cs5 then Got (JObject members') (tl cs5)
            else Bad ''expected ',' or '}' in object'')))"

primrec parse_items ::
  "nat \<Rightarrow> JsonLimits \<Rightarrow> (string \<Rightarrow> JsonValue parsed) \<Rightarrow> JsonValue list \<Rightarrow> string \<Rightarrow> JsonValue parsed" where
  "parse_items 0 lim element items cs = NoFuel"
| "parse_items (Suc fuel) lim element items cs =
     (if length items \<ge> max_array_items lim then Bad ''json array item limit exceeded''
      else pbind (element (skip_whitespace cs)) (\<lambda>v cs1.
        let items' = items @ [v]; cs2 = skip_whitespace cs1 in
        if starts CHR '','' cs2 then parse_items fuel lim element items' (tl cs2)
        else if starts CHR '']'' cs2 then Got (JArray items') (tl cs2)
        else Bad ''expected ',' or ']' in array''))"

definition parse_scalar :: "JsonLimits \<Rightarrow> string \<Rightarrow> JsonValue parsed" where
  "parse_scalar lim cs =
     (if starts CHR 0x22 cs
      then pbind (parse_string_raw (max_string_bytes lim) cs) (\<lambda>s rest. Got (JString s) rest)
      else if starts CHR ''t'' cs then parse_literal ''true'' (JBoolean True) cs
      else if starts CHR ''f'' cs then parse_literal ''false'' (JBoolean False) cs
      else if starts CHR ''n'' cs then parse_literal ''null'' JNull cs
      else parse_number cs)"

primrec parse_value :: "nat \<Rightarrow> JsonLimits \<Rightarrow> nat \<Rightarrow> string \<Rightarrow> JsonValue parsed" where
  "parse_value 0 lim depth cs = NoFuel"
| "parse_value (Suc fuel) lim depth cs =
     (if depth \<ge> max_depth lim then Bad ''json nesting depth exceeded''
      else if cs = [] then Bad ''unexpected end of json document''
      else if starts CHR ''{'' cs
      then let cs1 = skip_whitespace (tl cs) in
        if starts CHR ''}'' cs1 then Got (JObject []) (tl cs1)
        else parse_members fuel lim (parse_value fuel lim (Suc depth)) [] cs1
      else if starts CHR ''['' cs
      then let cs1 = skip_whitespace (tl cs) in
        if starts CHR '']'' cs1 then Got (JArray []) (tl cs1)
        else parse_items fuel lim (parse_value fuel lim (Suc depth)) [] cs1
      else parse_scalar lim cs)"

text \<open>Every value takes at least one byte of input, so a budget of one more than the length
  of the input is enough (\<open>parse_value_total\<close>).\<close>

definition parse_document :: "JsonLimits \<Rightarrow> string \<Rightarrow> JsonValue parsed" where
  "parse_document lim cs =
     (let cs1 = skip_whitespace cs in
      if cs1 = [] then Bad ''json document is empty''
      else pbind (parse_value (Suc (length cs1)) lim 0 cs1) (\<lambda>v rest.
        if skip_whitespace rest \<noteq> [] then Bad ''trailing data after json document'' else Got v []))"

definition parse_json :: "JsonLimits \<Rightarrow> string \<Rightarrow> JsonValue Result" where
  "parse_json lim cs =
     (if length cs > max_document_bytes lim then Inl (json_error ''json document exceeds size limit'')
      else case parse_document lim cs of
        Got v _ \<Rightarrow> Inr v
      | Bad m \<Rightarrow> Inl (json_error m)
      | NoFuel \<Rightarrow> Inl (json_error ''recursion budget exhausted''))"

section \<open>Writers\<close>

definition write_number :: "double \<Rightarrow> string" where
  "write_number d =
     (if dbl_isfinite d \<and> \<bar>dbl_trunc d\<bar> < 2 ^ 53 \<and> dbl_eq d (double_of_int (dbl_trunc d))
      then show_int (dbl_trunc d)
      else format_17g d)"

text \<open>The bytes that one byte of the text becomes outside a multi-byte sequence.\<close>

definition escape_byte :: "char \<Rightarrow> string" where
  "escape_byte c =
     (if c = CHR 0x22 then [CHR 0x5C, CHR 0x22]
      else if c = CHR 0x5C then [CHR 0x5C, CHR 0x5C]
      else if c = CHR 0x08 then CHR 0x5C # ''b''
      else if c = CHR 0x0C then CHR 0x5C # ''f''
      else if c = CHR 0x0A then CHR 0x5C # ''n''
      else if c = CHR 0x0D then CHR 0x5C # ''r''
      else if c = CHR 0x09 then CHR 0x5C # ''t''
      else if (of_char c :: int) < 0x20
      then CHR 0x5C # ''u00'' @ [hex_char (of_char c div 16), hex_char (of_char c mod 16)]
      else [c])"

definition write_continuation :: "char \<Rightarrow> nat" where
  "write_continuation c = (case utf8_lead (of_char c) of Some (n, _) \<Rightarrow> n | None \<Rightarrow> 0)"

fun write_bytes :: "nat \<Rightarrow> string \<Rightarrow> string" where
  "write_bytes continuation [] = []"
| "write_bytes continuation (c # cs) =
     (if continuation > 0 then c # write_bytes (continuation - 1) cs
      else escape_byte c @ write_bytes (write_continuation c) cs)"

definition write_string :: "string \<Rightarrow> string" where
  "write_string s = CHR 0x22 # write_bytes 0 s @ [CHR 0x22]"

fun comma_separated :: "string list \<Rightarrow> string" where
  "comma_separated [] = []"
| "comma_separated [x] = x"
| "comma_separated (x # xs) = x @ '','' @ comma_separated xs"

definition write_member :: "string \<times> string \<Rightarrow> string" where
  "write_member p = write_string (fst p) @ '':'' @ snd p"

text \<open>\<open>write_value\<close>; in canonical form the members are sorted by key. \<open>std::sort\<close> is not
  stable, which only matters for duplicate keys.\<close>

fun write_value :: "bool \<Rightarrow> JsonValue \<Rightarrow> string" where
  "write_value canonical JNull = ''null''"
| "write_value canonical (JBoolean b) = (if b then ''true'' else ''false'')"
| "write_value canonical (JInteger i) = show_int i"
| "write_value canonical (JNumber d) = write_number d"
| "write_value canonical (JString s) = write_string s"
| "write_value canonical (JArray items) =
     ''['' @ comma_separated (map (\<lambda>v. write_value canonical v) items) @ '']''"
| "write_value canonical (JObject members) =
     (let written = map (\<lambda>(k, v). (k, write_value canonical v)) members in
      ''{'' @ comma_separated (map write_member
        (if canonical then sort_key fst written else written)) @ ''}'')"

definition to_json_string :: "JsonValue \<Rightarrow> string" where
  "to_json_string v = write_value False v"

definition canonical_json_string :: "JsonValue \<Rightarrow> string" where
  "canonical_json_string v = write_value True v"

definition json_escape :: "string \<Rightarrow> string" where
  "json_escape s = write_string s"

end
