(* ===== verification/Json_Parser.thy ===== *)
theory Json_Parser
  imports Json
begin

text \<open>
  What the JSON parser guarantees: it always returns, and what it returns is within the
  limits: bounded nesting and sizes, distinct keys, well-formed UTF-8 strings, integers in
  range and finite numbers.
\<close>

section \<open>Every successful parse consumes input\<close>

lemma pbind_Got_iff [result_simps]:
  "pbind p k = Got y r \<longleftrightarrow> (\<exists>x rest. p = Got x rest \<and> k x rest = Got y r)"
  by (cases p) (simp_all add: pbind_def)

lemma pbind_simps [simp]:
  "pbind (Got x rest) k = k x rest" "pbind (Bad m) k = Bad m" "pbind NoFuel k = NoFuel"
  by (simp_all add: pbind_def)

lemma pbind_NoFuel_iff [result_simps]:
  "pbind p k = NoFuel \<longleftrightarrow> p = NoFuel \<or> (\<exists>x rest. p = Got x rest \<and> k x rest = NoFuel)"
  by (cases p) (simp_all add: pbind_def)

lemma starts_Cons [simp]: "starts c (d # cs) \<longleftrightarrow> d = c" "\<not> starts c []"
  by (simp_all add: starts_def)

lemma starts_length: "starts c cs \<Longrightarrow> Suc (length (tl cs)) = length cs"
  by (cases cs) simp_all

lemma skip_whitespace_le: "length (skip_whitespace cs) \<le> length cs"
  by (simp add: skip_whitespace_def length_dropWhile_le)

text \<open>One round of the string loop, taken apart.\<close>

lemma string_loop_Got:
  assumes "string_loop limit out cs = Got s rest"
  obtains (quote) "cs = CHR 0x22 # rest" "s = out" "length out < limit"
  | (escape) e ds r where "cs = CHR 0x5C # ds" "parse_escape ds = Got e r"
      "string_loop limit (out @ e) r = Got s rest"
  | (plain) c ds where "cs = c # ds" "(of_char c :: int) < 0x80" "string_loop limit (out @ [c]) ds = Got s rest"
  | (multi) c ds n bits cp out' r where "cs = c # ds" "\<not> (of_char c :: int) < 0x80"
      "utf8_lead (of_char c) = Some (n, bits)" "utf8_tail limit n bits (out @ [c]) ds = Got (cp, out') r"
      "utf8_code_point_ok n cp" "string_loop limit out' r = Got s rest"
proof (cases cs)
  case Nil
  then show thesis using assms by simp
next
  case (Cons c ds)
  show thesis
    using assms unfolding Cons string_loop.simps
    by (auto split: if_splits parsed.splits option.splits prod.splits intro: that simp: Cons)
qed

declare string_loop.simps [simp del]

lemma string_loop_length: "string_loop limit out cs = Got s rest \<Longrightarrow> length rest < length cs"
proof (induction "length cs" arbitrary: cs out rule: less_induct)
  case less
  from less.prems show ?case
  proof (cases rule: string_loop_Got)
    case (escape e ds r)
    then show ?thesis using less.hyps [of r] parse_escape_length [of ds e r] by fastforce
  next
    case (multi c ds n bits cp out' r)
    then show ?thesis using less.hyps [of r] utf8_tail_length [OF multi(4)] by fastforce
  qed (use less.hyps in fastforce)+
qed

lemma parse_string_raw_length: "parse_string_raw limit cs = Got s rest \<Longrightarrow> length rest < length cs"
  by (cases cs) (auto simp: parse_string_raw_def split: if_splits dest!: string_loop_length)

lemma parse_literal_length:
  "parse_literal l v cs = Got x rest \<Longrightarrow> l \<noteq> [] \<Longrightarrow> length rest < length cs"
  by (cases cs) (auto simp: parse_literal_def split: if_splits)

lemma digits_length: "takeWhile P cs \<noteq> [] \<Longrightarrow> length (dropWhile P cs) < length cs"
  by (cases cs) (auto simp: less_Suc_eq_le length_dropWhile_le split: if_splits)

lemma parse_fraction_length: "parse_fraction cs = Got x rest \<Longrightarrow> length rest \<le> length cs"
  using length_dropWhile_le [of is_digit "tl cs"]
  by (auto simp: parse_fraction_def Let_def split: if_splits intro: le_trans)

lemma parse_exponent_length: "parse_exponent cs = Got x rest \<Longrightarrow> length rest \<le> length cs"
  by (cases cs)
    (auto simp: parse_exponent_def Let_def split: if_splits
      intro: le_trans [OF length_dropWhile_le] le_trans [OF length_tl [THEN eq_refl]])

lemma number_value_rest: "number_value neg ints fracs ex rest = Got v r \<Longrightarrow> r = rest"
  by (auto simp: number_value_def split: option.splits if_splits)

lemma number_body_Got:
  assumes "number_body neg ints cs = Got v rest"
  obtains f cs3 x where "parse_fraction cs = Got f cs3" "parse_exponent cs3 = Got x rest"
    "(\<exists>i. accumulate_int64 0 ints = Some i \<and> v = JInteger (if neg then - i else i)) \<or>
     number_value neg ints (snd f) (snd x) rest = Got v rest"
proof (cases "parse_fraction cs")
  case f: (Got f cs3)
  show thesis
  proof (cases "parse_exponent cs3")
    case x: (Got x cs4)
    have "cs4 = rest \<and> ((\<exists>i. accumulate_int64 0 ints = Some i \<and> v = JInteger (if neg then - i else i)) \<or>
        number_value neg ints (snd f) (snd x) rest = Got v rest)"
      using assms f x number_value_rest
      by (fastforce simp: number_body_def case_prod_unfold split: if_splits option.splits)
    then show thesis using that f x by blast
  qed (use assms f in \<open>auto simp: number_body_def case_prod_unfold\<close>)
qed (use assms in \<open>auto simp: number_body_def\<close>)

lemma parse_number_length:
  assumes "parse_number cs = Got v rest"
  shows "length rest < length cs"
proof -
  let ?cs1 = "if starts CHR ''-'' cs then tl cs else cs"
  let ?ints = "takeWhile is_digit ?cs1"
  have p: "?ints \<noteq> []" "number_body (starts CHR ''-'' cs) ?ints (dropWhile is_digit ?cs1) = Got v rest"
    using assms unfolding parse_number_def Let_def by (metis parsed.distinct(5))+
  have "length rest \<le> length (dropWhile is_digit ?cs1)"
    using p(2) by (rule number_body_Got) (use parse_fraction_length parse_exponent_length le_trans in blast)
  also have "\<dots> < length ?cs1" by (rule digits_length [OF p(1)])
  also have "\<dots> \<le> length cs" by simp
  finally show ?thesis .
qed

lemma parse_scalar_length: "parse_scalar lim cs = Got v rest \<Longrightarrow> length rest < length cs"
  by (auto simp: parse_scalar_def result_simps split: if_splits
      dest: parse_string_raw_length parse_literal_length parse_number_length)

text \<open>The contract that the container loops rely on.\<close>

definition shrinks :: "(string \<Rightarrow> 'a parsed) \<Rightarrow> bool" where
  "shrinks e \<longleftrightarrow> (\<forall>cs v rest. e cs = Got v rest \<longrightarrow> length rest < length cs)"

lemma shrinksD: "shrinks e \<Longrightarrow> e cs = Got v rest \<Longrightarrow> length rest < length cs"
  by (auto simp: shrinks_def)

text \<open>One round of each loop, taken apart.\<close>

lemma parse_items_Got:
  assumes "parse_items (Suc fuel) lim e items cs = Got v rest"
  obtains x cs1 where "length items < max_array_items lim" "e (skip_whitespace cs) = Got x cs1"
    "starts CHR '','' (skip_whitespace cs1) \<and>
       parse_items fuel lim e (items @ [x]) (tl (skip_whitespace cs1)) = Got v rest \<or>
     starts CHR '']'' (skip_whitespace cs1) \<and> v = JArray (items @ [x]) \<and>
       rest = tl (skip_whitespace cs1)"
  using assms by (auto simp: result_simps Let_def split: if_splits)

lemma parse_members_Got:
  assumes "parse_members (Suc fuel) lim e members cs = Got v rest"
  obtains key cs2 x cs4 where
    "parse_string_raw (max_string_bytes lim) (skip_whitespace cs) = Got key cs2"
    "key \<notin> set (map fst members)" "length members < max_object_members lim"
    "starts CHR '':'' (skip_whitespace cs2)"
    "e (skip_whitespace (tl (skip_whitespace cs2))) = Got x cs4"
    "starts CHR '','' (skip_whitespace cs4) \<and>
       parse_members fuel lim e (members @ [(key, x)]) (tl (skip_whitespace cs4)) = Got v rest \<or>
     starts CHR ''}'' (skip_whitespace cs4) \<and> v = JObject (members @ [(key, x)]) \<and>
       rest = tl (skip_whitespace cs4)"
  using assms by (auto simp: result_simps Let_def split: if_splits)

lemma parse_items_length:
  "shrinks e \<Longrightarrow> parse_items fuel lim e items cs = Got v rest \<Longrightarrow> length rest < length cs"
proof (induction fuel arbitrary: items cs)
  case (Suc fuel)
  from Suc.prems(2) obtain x cs1 where e: "e (skip_whitespace cs) = Got x cs1"
    and more: "starts CHR '','' (skip_whitespace cs1) \<and>
       parse_items fuel lim e (items @ [x]) (tl (skip_whitespace cs1)) = Got v rest \<or>
     starts CHR '']'' (skip_whitespace cs1) \<and> v = JArray (items @ [x]) \<and>
       rest = tl (skip_whitespace cs1)" by (rule parse_items_Got)
  have "length cs1 < length cs"
    using shrinksD [OF Suc.prems(1) e] skip_whitespace_le [of cs] by linarith
  moreover have "length (tl (skip_whitespace cs1)) \<le> length cs1"
    using skip_whitespace_le [of cs1] by simp
  moreover have "length rest \<le> length (tl (skip_whitespace cs1))"
    using more Suc.IH [OF Suc.prems(1), of "items @ [x]" "tl (skip_whitespace cs1)"] by (elim disjE) simp_all
  ultimately show ?case by linarith
qed simp

lemma parse_members_length:
  "shrinks e \<Longrightarrow> parse_members fuel lim e members cs = Got v rest \<Longrightarrow> length rest < length cs"
proof (induction fuel arbitrary: members cs)
  case (Suc fuel)
  from Suc.prems(2) obtain key cs2 x cs4 where
    s: "parse_string_raw (max_string_bytes lim) (skip_whitespace cs) = Got key cs2"
    and e: "e (skip_whitespace (tl (skip_whitespace cs2))) = Got x cs4"
    and more: "starts CHR '','' (skip_whitespace cs4) \<and>
       parse_members fuel lim e (members @ [(key, x)]) (tl (skip_whitespace cs4)) = Got v rest \<or>
     starts CHR ''}'' (skip_whitespace cs4) \<and> v = JObject (members @ [(key, x)]) \<and>
       rest = tl (skip_whitespace cs4)" by (rule parse_members_Got)
  have "length (tl (skip_whitespace cs4)) \<le> length cs4" "length cs4 < length cs"
    using skip_whitespace_le [of cs4] skip_whitespace_le [of cs2] skip_whitespace_le [of cs]
      skip_whitespace_le [of "tl (skip_whitespace cs2)"] parse_string_raw_length [OF s]
      shrinksD [OF Suc.prems(1) e] by simp_all
  moreover have "length rest \<le> length (tl (skip_whitespace cs4))"
    using more Suc.IH [OF Suc.prems(1), of "members @ [(key, x)]" "tl (skip_whitespace cs4)"]
    by (elim disjE) simp_all
  ultimately show ?case by linarith
qed simp

lemma parse_value_shrinks: "shrinks (parse_value fuel lim depth)"
proof (induction fuel arbitrary: depth)
  case (Suc fuel)
  show ?case unfolding shrinks_def
  proof (intro allI impI)
    fix cs v rest assume p: "parse_value (Suc fuel) lim depth cs = Got v rest"
    let ?cs1 = "skip_whitespace (tl cs)"
    have "cs \<noteq> []" using p by (auto split: if_splits)
    then have cs1: "length ?cs1 < length cs"
      using skip_whitespace_le [of "tl cs"] by (cases cs) (auto simp: less_Suc_eq_le)
    from p consider "rest = tl ?cs1"
      | "parse_members fuel lim (parse_value fuel lim (Suc depth)) [] ?cs1 = Got v rest"
      | "parse_items fuel lim (parse_value fuel lim (Suc depth)) [] ?cs1 = Got v rest"
      | "parse_scalar lim cs = Got v rest"
      by (auto simp: Let_def split: if_splits)
    then show "length rest < length cs"
    proof cases
      case 1
      then show ?thesis using cs1 by simp
    next
      case 2
      then show ?thesis using parse_members_length [OF Suc] cs1 less_trans by blast
    next
      case 3
      then show ?thesis using parse_items_length [OF Suc] cs1 less_trans by blast
    next
      case 4
      then show ?thesis by (rule parse_scalar_length)
    qed
  qed
qed (simp add: shrinks_def)

section \<open>The parser always returns\<close>

lemma parse_hex4_total [simp]: "parse_hex4 n v cs \<noteq> NoFuel"
  by (induction n v cs rule: parse_hex4.induct) (auto split: option.splits)

lemma utf8_tail_total [simp]: "utf8_tail limit n cp out cs \<noteq> NoFuel"
  by (induction limit n cp out cs rule: utf8_tail.induct) auto

lemma parse_escape_total [simp]: "parse_escape cs \<noteq> NoFuel"
  by (auto simp: parse_escape_def parse_unicode_escape_def result_simps split: list.splits if_splits)

lemma string_loop_total [simp]: "string_loop limit out cs \<noteq> NoFuel"
  by (induction limit out cs rule: string_loop.induct)
    (auto simp: string_loop.simps split: parsed.splits option.splits prod.splits)

lemma parse_string_raw_total [simp]: "parse_string_raw limit cs \<noteq> NoFuel"
  by (simp add: parse_string_raw_def)

lemma number_parts_total [simp]:
  "number_value neg ints fracs ex rest \<noteq> NoFuel" "parse_fraction cs \<noteq> NoFuel" "parse_exponent cs \<noteq> NoFuel"
  by (simp_all add: number_value_def parse_fraction_def parse_exponent_def Let_def split: option.splits)

lemma parse_number_total [simp]: "parse_number cs \<noteq> NoFuel"
  by (auto simp: parse_number_def number_body_def Let_def result_simps
      split: prod.splits option.splits if_splits)

lemma parse_scalar_total [simp]: "parse_scalar lim cs \<noteq> NoFuel"
  by (simp add: parse_scalar_def parse_literal_def result_simps)

lemma parse_items_total:
  assumes "shrinks e" "\<And>ds. length ds \<le> length cs \<Longrightarrow> e ds \<noteq> NoFuel" "length cs < fuel"
  shows "parse_items fuel lim e items cs \<noteq> NoFuel"
  using assms(2,3)
proof (induction fuel arbitrary: items cs)
  case (Suc fuel)
  have "parse_items fuel lim e (items @ [x]) (tl (skip_whitespace cs1)) \<noteq> NoFuel"
    if e: "e (skip_whitespace cs) = Got x cs1" "starts CHR '','' (skip_whitespace cs1)" for x cs1
  proof (rule Suc.IH)
    have "length (tl (skip_whitespace cs1)) < length cs1"
      using starts_length [OF e(2)] skip_whitespace_le [of cs1] by linarith
    moreover have "length cs1 \<le> length cs"
      using shrinksD [OF assms(1) e(1)] skip_whitespace_le [of cs] by linarith
    ultimately show "length (tl (skip_whitespace cs1)) < fuel"
      "\<And>ds. length ds \<le> length (tl (skip_whitespace cs1)) \<Longrightarrow> e ds \<noteq> NoFuel"
      using Suc.prems by (linarith, metis le_trans less_imp_le)
  qed
  then show ?case
    using Suc.prems(1) [OF skip_whitespace_le] by (auto simp: Let_def result_simps split: if_splits)
qed simp

lemma parse_members_total:
  assumes "shrinks e" "\<And>ds. length ds \<le> length cs \<Longrightarrow> e ds \<noteq> NoFuel" "length cs < fuel"
  shows "parse_members fuel lim e members cs \<noteq> NoFuel"
  using assms(2,3)
proof (induction fuel arbitrary: members cs)
  case (Suc fuel)
  let ?str = "parse_string_raw (max_string_bytes lim) (skip_whitespace cs)"
  let ?arg = "\<lambda>cs2. skip_whitespace (tl (skip_whitespace cs2))"
  have le: "length (?arg cs2) \<le> length cs" if "?str = Got k cs2" for k cs2
    using parse_string_raw_length [OF that] skip_whitespace_le [of cs] skip_whitespace_le [of cs2]
      skip_whitespace_le [of "tl (skip_whitespace cs2)"] by simp
  have "parse_members fuel lim e ms (tl (skip_whitespace cs4)) \<noteq> NoFuel"
    if k: "?str = Got k cs2" and e: "e (?arg cs2) = Got x cs4" "starts CHR '','' (skip_whitespace cs4)"
    for k cs2 x cs4 ms
  proof (rule Suc.IH)
    have "length (tl (skip_whitespace cs4)) < length cs4"
      using starts_length [OF e(2)] skip_whitespace_le [of cs4] by linarith
    moreover have "length cs4 \<le> length cs" using shrinksD [OF assms(1) e(1)] le [OF k] by linarith
    ultimately show "length (tl (skip_whitespace cs4)) < fuel"
      "\<And>ds. length ds \<le> length (tl (skip_whitespace cs4)) \<Longrightarrow> e ds \<noteq> NoFuel"
      using Suc.prems by (linarith, metis le_trans less_imp_le)
  qed
  then show ?case
    using Suc.prems(1) le
    by (auto simp: Let_def result_simps split: if_splits)
qed simp

text \<open>A budget above the length of the input is never exhausted.\<close>

lemma parse_value_total: "length cs < fuel \<Longrightarrow> parse_value fuel lim depth cs \<noteq> NoFuel"
proof (induction fuel arbitrary: depth cs)
  case (Suc fuel)
  let ?cs1 = "skip_whitespace (tl cs)"
  have fuel: "cs \<noteq> [] \<Longrightarrow> length ?cs1 < fuel"
    using skip_whitespace_le [of "tl cs"] Suc.prems by (cases cs) auto
  have el: "length ds \<le> length ?cs1 \<Longrightarrow> cs \<noteq> [] \<Longrightarrow> parse_value fuel lim (Suc depth) ds \<noteq> NoFuel" for ds
    using Suc.IH [of ds "Suc depth"] fuel by linarith
  have "cs \<noteq> [] \<Longrightarrow> parse_members fuel lim (parse_value fuel lim (Suc depth)) [] ?cs1 \<noteq> NoFuel"
    "cs \<noteq> [] \<Longrightarrow> parse_items fuel lim (parse_value fuel lim (Suc depth)) [] ?cs1 \<noteq> NoFuel"
    using parse_members_total [OF parse_value_shrinks, of ?cs1]
      parse_items_total [OF parse_value_shrinks, of ?cs1] el fuel by blast+
  then show ?case by (simp add: Let_def)
qed simp

lemma parse_document_total: "parse_document lim cs \<noteq> NoFuel"
  using parse_value_total [of "skip_whitespace cs" "Suc (length (skip_whitespace cs))" lim 0]
  by (auto simp: parse_document_def Let_def result_simps simp del: parse_value.simps split: if_splits)

section \<open>Well-formed UTF-8\<close>

fun utf8_trail :: "nat \<Rightarrow> int \<Rightarrow> string \<Rightarrow> (int \<times> string) option" where
  "utf8_trail 0 cp cs = Some (cp, cs)"
| "utf8_trail (Suc n) cp [] = None"
| "utf8_trail (Suc n) cp (c # cs) =
     (if (of_char c :: int) AND 0xC0 \<noteq> 0x80 then None
      else utf8_trail n (push_bit 6 cp OR (of_char c AND 0x3F)) cs)"

lemma utf8_trail_split:
  "utf8_trail n cp cs = Some (cp', rest) \<Longrightarrow> \<exists>t. cs = t @ rest \<and> length t = n"
proof (induction n cp cs rule: utf8_trail.induct)
  case (3 n cp c cs)
  then obtain t where "cs = t @ rest" "length t = n" by (auto split: if_splits)
  then show ?case by (intro exI [of _ "c # t"]) simp
qed auto

lemma utf8_trail_append: "utf8_trail n cp cs = Some (cp', rest) \<Longrightarrow> utf8_trail n cp (cs @ ds) = Some (cp', rest @ ds)"
  by (induction n cp cs rule: utf8_trail.induct) (auto split: if_splits)

function utf8_ok :: "string \<Rightarrow> bool" where
  "utf8_ok [] = True"
| "utf8_ok (c # cs) =
     (if (of_char c :: int) < 0x80 then utf8_ok cs
      else case utf8_lead (of_char c) of
          None \<Rightarrow> False
        | Some (n, bits) \<Rightarrow> (case utf8_trail n bits cs of
              None \<Rightarrow> False
            | Some (cp, rest) \<Rightarrow> utf8_code_point_ok n cp \<and> utf8_ok rest))"
  by pat_completeness auto
termination
  by (relation "measure length") (auto dest: utf8_trail_split)

lemma utf8_ok_append: "utf8_ok xs \<Longrightarrow> utf8_ok (xs @ ys) = utf8_ok ys"
proof (induction xs rule: utf8_ok.induct)
  case (2 c cs)
  show ?case
  proof (cases "(of_char c :: int) < 0x80")
    case True
    then show ?thesis using 2 by simp
  next
    case False
    with "2.prems" obtain n bits cp rest where l: "utf8_lead (of_char c) = Some (n, bits)"
      and t: "utf8_trail n bits cs = Some (cp, rest)" and ok: "utf8_code_point_ok n cp" "utf8_ok rest"
      by (auto split: option.splits)
    then show ?thesis
      using False "2.IH"(2) [OF False l refl t refl] utf8_trail_append [OF t, of ys] by simp
  qed
qed simp

lemma utf8_tail_Got:
  assumes "utf8_tail limit n cp out cs = Got (cp', out') rest"
  shows "\<exists>t. out' = out @ t \<and> utf8_trail n cp t = Some (cp', [])"
  using assms
proof (induction limit n cp out cs rule: utf8_tail.induct)
  case (3 limit n cp out c cs)
  then obtain t where "out' = out @ c # t"
    "utf8_trail n (push_bit 6 cp OR (of_char c AND 0x3F)) t = Some (cp', [])" "(of_char c :: int) AND 0xC0 = 0x80"
    by (auto split: if_splits)
  then show ?case by (intro exI [of _ "c # t"]) simp
qed simp_all

section \<open>Encoded code points are well formed\<close>

lemma or_push_bit: "0 \<le> b \<Longrightarrow> b < 2 ^ k \<Longrightarrow> push_bit k a OR b = a * 2 ^ k + b" for a b :: int
proof -
  assume b: "0 \<le> b" "b < 2 ^ k"
  then have "b = take_bit k b" by (simp add: take_bit_int_eq_self)
  moreover have "push_bit k a AND take_bit k b = 0" by (rule bit_eqI) (auto simp: bit_simps)
  ultimately show ?thesis
    by (metis disjunctive_add_eq_or push_bit_eq_mult)
qed

lemma and_low_bits: "cp AND 0x3F = cp mod 64" for cp :: int
  using take_bit_eq_mask [of 6 cp] by (simp add: take_bit_eq_mod mask_eq_exp_minus_1)

lemma or_lead:
  "0 \<le> x \<Longrightarrow> x < 64 \<Longrightarrow> 0x80 OR x = 128 + x" "0 \<le> x \<Longrightarrow> x < 32 \<Longrightarrow> 0xC0 OR x = 192 + x"
  "0 \<le> x \<Longrightarrow> x < 16 \<Longrightarrow> 0xE0 OR x = 224 + x" "0 \<le> x \<Longrightarrow> x < 8 \<Longrightarrow> 0xF0 OR x = 240 + x" for x :: int
  using or_push_bit [of x 6 2] or_push_bit [of x 5 6] or_push_bit [of x 4 14] or_push_bit [of x 3 30]
  by simp_all

lemma of_char_byte: "0 \<le> n \<Longrightarrow> n < 256 \<Longrightarrow> of_char (byte n) = n"
  by (simp add: byte_def of_char_of)

lemma utf8_lead_values:
  "0 \<le> x \<Longrightarrow> x < 32 \<Longrightarrow> utf8_lead (192 + x) = Some (1, x)"
  "0 \<le> x \<Longrightarrow> x < 16 \<Longrightarrow> utf8_lead (224 + x) = Some (2, x)"
  "0 \<le> x \<Longrightarrow> x < 8 \<Longrightarrow> utf8_lead (240 + x) = Some (3, x)"
proof -
  have "\<forall>x\<in>set [0..31]. utf8_lead (192 + x) = Some (1, x)" by code_simp
  then show "0 \<le> x \<Longrightarrow> x < 32 \<Longrightarrow> utf8_lead (192 + x) = Some (1, x)" by simp
  have "\<forall>x\<in>set [0..15]. utf8_lead (224 + x) = Some (2, x)" by code_simp
  then show "0 \<le> x \<Longrightarrow> x < 16 \<Longrightarrow> utf8_lead (224 + x) = Some (2, x)" by simp
  have "\<forall>x\<in>set [0..7]. utf8_lead (240 + x) = Some (3, x)" by code_simp
  then show "0 \<le> x \<Longrightarrow> x < 8 \<Longrightarrow> utf8_lead (240 + x) = Some (3, x)" by simp
qed

lemma trail_byte:
  "0 \<le> y \<Longrightarrow> y < 64 \<Longrightarrow>
     utf8_trail (Suc n) cp (byte (0x80 OR y) # cs) = utf8_trail n (cp * 64 + y) cs"
proof -
  have "\<forall>y\<in>set [0..63]. (128 + y) AND 0xC0 = (0x80 :: int) \<and> (128 + y) AND 0x3F = y" by code_simp
  then show "0 \<le> y \<Longrightarrow> y < 64 \<Longrightarrow> ?thesis"
    using or_push_bit [of y 6 cp] by (simp add: or_lead of_char_byte)
qed

lemma utf8_ok_lead:
  assumes "utf8_lead b = Some (n, bits)" "128 \<le> b" "b < 256"
    and "utf8_trail n bits ts = Some (cp, [])" "utf8_code_point_ok n cp"
  shows "utf8_ok (byte b # ts)"
  using assms by (simp add: of_char_byte)

lemma encode_utf8_ok:
  assumes "0 \<le> cp" "cp \<le> 0x10FFFF" "\<not> (0xD800 \<le> cp \<and> cp \<le> 0xDFFF)"
  shows "utf8_ok (encode_utf8 cp)"
proof -
  have low: "0 \<le> cp mod 64" "cp mod 64 < 64" "0 \<le> cp div 64 mod 64" "cp div 64 mod 64 < 64"
    "0 \<le> cp div 4096 mod 64" "cp div 4096 mod 64 < 64" by simp_all
  have bits: "drop_bit 6 cp = cp div 64" "drop_bit 12 cp = cp div 4096" "drop_bit 18 cp = cp div 262144"
    by (simp_all add: drop_bit_eq_div)
  have q: "cp div 4096 = cp div 64 div 64" "cp div 262144 = cp div 64 div 64 div 64"
    using zdiv_zmult2_eq [of 64 cp 64] zdiv_zmult2_eq [of 64 "cp div 64" 64] zdiv_zmult2_eq [of 4096 cp 64]
    by simp_all
  have two: "cp div 64 * 64 + cp mod 64 = cp"
    and three: "(cp div 4096 * 64 + cp div 64 mod 64) * 64 + cp mod 64 = cp"
    and four: "((cp div 262144 * 64 + cp div 4096 mod 64) * 64 + cp div 64 mod 64) * 64 + cp mod 64 = cp"
    unfolding q by (simp_all only: div_mult_mod_eq)
  note trail = trail_byte [OF low(1,2)] trail_byte [OF low(3,4)] trail_byte [OF low(5,6)]
  consider "cp < 0x80" | "0x80 \<le> cp" "cp < 0x800" | "0x800 \<le> cp" "cp < 0x10000" | "0x10000 \<le> cp"
    by linarith
  then show ?thesis
  proof cases
    case 1
    then show ?thesis using assms by (simp add: encode_utf8_def of_char_byte)
  next
    case 2
    then have x: "0 \<le> cp div 64" "cp div 64 < 32" by auto
    have "encode_utf8 cp = [byte (192 + cp div 64), byte (0x80 OR cp mod 64)]"
      using 2 x by (simp add: encode_utf8_def bits and_low_bits or_lead(2))
    moreover have "utf8_ok (byte (192 + cp div 64) # [byte (0x80 OR cp mod 64)])"
    proof (rule utf8_ok_lead [OF utf8_lead_values(1) [OF x]])
      show "utf8_trail 1 (cp div 64) [byte (0x80 OR cp mod 64)] = Some (cp, [])"
        using two by (simp add: trail del: utf8_trail.simps(3))
    qed (use x 2 in \<open>auto simp: utf8_code_point_ok_def utf8_minimum_def\<close>)
    ultimately show ?thesis by simp
  next
    case 3
    then have x: "0 \<le> cp div 4096" "cp div 4096 < 16" by auto
    have "encode_utf8 cp = [byte (224 + cp div 4096), byte (0x80 OR cp div 64 mod 64), byte (0x80 OR cp mod 64)]"
      using 3 x by (simp add: encode_utf8_def bits and_low_bits or_lead(3))
    moreover have "utf8_ok (byte (224 + cp div 4096) # [byte (0x80 OR cp div 64 mod 64), byte (0x80 OR cp mod 64)])"
    proof (rule utf8_ok_lead [OF utf8_lead_values(2) [OF x]])
      show "utf8_trail 2 (cp div 4096) [byte (0x80 OR cp div 64 mod 64), byte (0x80 OR cp mod 64)] = Some (cp, [])"
        using three by (simp add: numeral_2_eq_2 trail del: utf8_trail.simps(3))
    qed (use x 3 assms(3) in \<open>auto simp: utf8_code_point_ok_def utf8_minimum_def\<close>)
    ultimately show ?thesis by simp
  next
    case 4
    then have x: "0 \<le> cp div 262144" "cp div 262144 < 8" using assms(2) by auto
    have "encode_utf8 cp = [byte (240 + cp div 262144), byte (0x80 OR cp div 4096 mod 64),
        byte (0x80 OR cp div 64 mod 64), byte (0x80 OR cp mod 64)]"
      using 4 x by (simp add: encode_utf8_def bits and_low_bits or_lead(4))
    moreover have "utf8_ok (byte (240 + cp div 262144) # [byte (0x80 OR cp div 4096 mod 64),
        byte (0x80 OR cp div 64 mod 64), byte (0x80 OR cp mod 64)])"
    proof (rule utf8_ok_lead [OF utf8_lead_values(3) [OF x]])
      show "utf8_trail 3 (cp div 262144) [byte (0x80 OR cp div 4096 mod 64), byte (0x80 OR cp div 64 mod 64),
          byte (0x80 OR cp mod 64)] = Some (cp, [])"
        using four by (simp add: numeral_3_eq_3 trail del: utf8_trail.simps(3))
    qed (use x 4 assms(2,3) in \<open>auto simp: utf8_code_point_ok_def utf8_minimum_def numeral_3_eq_3\<close>)
    ultimately show ?thesis by simp
  qed
qed

section \<open>Parsed values are within the limits\<close>

definition string_ok :: "JsonLimits \<Rightarrow> string \<Rightarrow> bool" where
  "string_ok lim s \<longleftrightarrow> length s < max_string_bytes lim \<and> utf8_ok s"

fun json_valid :: "JsonLimits \<Rightarrow> nat \<Rightarrow> JsonValue \<Rightarrow> bool" where
  "json_valid lim depth (JArray items) \<longleftrightarrow> depth < max_depth lim \<and>
     length items \<le> max_array_items lim \<and> (\<forall>v\<in>set items. json_valid lim (Suc depth) v)"
| "json_valid lim depth (JObject members) \<longleftrightarrow> depth < max_depth lim \<and>
     length members \<le> max_object_members lim \<and> distinct (map fst members) \<and>
     (\<forall>m\<in>set members. string_ok lim (fst m) \<and> json_valid lim (Suc depth) (snd m))"
| "json_valid lim depth (JString s) \<longleftrightarrow> depth < max_depth lim \<and> string_ok lim s"
| "json_valid lim depth (JInteger i) \<longleftrightarrow> depth < max_depth lim \<and> \<bar>i\<bar> \<le> int64_max"
| "json_valid lim depth (JNumber d) \<longleftrightarrow> depth < max_depth lim \<and> dbl_isfinite d"
| "json_valid lim depth _ \<longleftrightarrow> depth < max_depth lim"

lemma hex_digit_range: "hex_digit c = Some d \<Longrightarrow> 0 \<le> d \<and> d < 16"
proof -
  have "\<forall>c. case hex_digit c of None \<Rightarrow> True | Some d \<Rightarrow> 0 \<le> d \<and> d < 16" by code_simp
  from spec [OF this, of c] show "hex_digit c = Some d \<Longrightarrow> ?thesis" by simp
qed

lemma parse_hex4_range:
  "parse_hex4 n v cs = Got x rest \<Longrightarrow> 0 \<le> v \<Longrightarrow> 0 \<le> x \<and> x < (v + 1) * 16 ^ n"
proof (induction n v cs rule: parse_hex4.induct)
  case (3 n v c cs)
  then obtain d where d: "hex_digit c = Some d" by (auto split: option.splits)
  note r = hex_digit_range [OF d]
  have eq: "push_bit 4 v OR d = v * 16 + d" using or_push_bit [of d 4 v] r by simp
  have "parse_hex4 n (v * 16 + d) cs = Got x rest" using 3(2) d eq by simp
  then have "0 \<le> x \<and> x < (v * 16 + d + 1) * 16 ^ n" using "3.IH" [OF d] 3(3) r eq by simp
  moreover have "(v * 16 + d + 1) * 16 ^ n \<le> ((v + 1) * 16) * 16 ^ n" using r by (intro mult_right_mono) auto
  moreover have "((v + 1) * 16) * 16 ^ n = (v + 1) * 16 ^ Suc n" by simp
  ultimately show ?case by linarith
qed auto

lemma parse_unicode_escape_ok:
  assumes "parse_unicode_escape cs = Got e rest"
  shows "utf8_ok e"
proof (cases "parse_hex4 4 0 cs")
  case (Got high r)
  have high: "0 \<le> high" "high < 0x10000" using parse_hex4_range [OF Got] by simp_all
  show ?thesis
  proof (cases "0xD800 \<le> high \<and> high \<le> 0xDBFF")
    case True
    then obtain low where low: "0xDC00 \<le> low" "low \<le> 0xDFFF"
      and e: "e = encode_utf8 (0x10000 + push_bit 10 (high - 0xD800) + (low - 0xDC00))"
      using assms Got by (fastforce simp: parse_unicode_escape_def result_simps not_less split: if_splits)
    have "push_bit 10 (high - 0xD800) = (high - 0xD800) * 1024" by (simp add: push_bit_eq_mult)
    then show ?thesis unfolding e using low True by (intro encode_utf8_ok) auto
  next
    case False
    then have "e = encode_utf8 high" "\<not> (0xDC00 \<le> high \<and> high \<le> 0xDFFF)"
      using assms Got by (auto simp: parse_unicode_escape_def split: if_splits)
    then show ?thesis using high False by (auto intro!: encode_utf8_ok)
  qed
qed (use assms in \<open>simp_all add: parse_unicode_escape_def\<close>)

lemma parse_escape_ok: "parse_escape cs = Got e rest \<Longrightarrow> utf8_ok e"
  by (auto simp: parse_escape_def split: list.splits if_splits intro: parse_unicode_escape_ok)

lemma string_loop_ok:
  "string_loop limit out cs = Got s rest \<Longrightarrow> utf8_ok out \<Longrightarrow> utf8_ok s \<and> length s < limit"
proof (induction "length cs" arbitrary: cs out rule: less_induct)
  case less
  from less.prems(1) show ?case
  proof (cases rule: string_loop_Got)
    case quote
    then show ?thesis using less.prems(2) by simp
  next
    case (escape e ds r)
    have "utf8_ok (out @ e)"
      using less.prems(2) parse_escape_ok [OF escape(2)] by (simp add: utf8_ok_append)
    then show ?thesis using less.hyps [OF _ escape(3)] parse_escape_length [OF escape(2)] escape(1) by simp
  next
    case (plain c ds)
    have "utf8_ok (out @ [c])" using less.prems(2) plain(2) by (simp add: utf8_ok_append)
    then show ?thesis using less.hyps [OF _ plain(3)] plain(1) by simp
  next
    case (multi c ds n bits cp out' r)
    obtain t where t: "out' = (out @ [c]) @ t" "utf8_trail n bits t = Some (cp, [])"
      using utf8_tail_Got [OF multi(4)] by blast
    have "utf8_ok (c # t)" using multi(2,3,5) t(2) by simp
    then have "utf8_ok out'" using less.prems(2) by (simp add: t(1) utf8_ok_append)
    then show ?thesis using less.hyps [OF _ multi(6)] utf8_tail_length [OF multi(4)] multi(1) by simp
  qed
qed

lemma parse_string_raw_ok: "parse_string_raw (max_string_bytes lim) cs = Got s rest \<Longrightarrow> string_ok lim s"
  using string_loop_ok [of _ "[]"] by (auto simp: parse_string_raw_def string_ok_def)

lemma accumulate_int64_range:
  "accumulate_int64 v ds = Some x \<Longrightarrow> list_all is_digit ds \<Longrightarrow> 0 \<le> v \<Longrightarrow> v \<le> int64_max \<Longrightarrow>
     0 \<le> x \<and> x \<le> int64_max"
proof (induction v ds rule: accumulate_int64.induct)
  case (2 v c cs)
  let ?d = "digit_val c"
  have d: "0 \<le> ?d" "?d \<le> 9" using is_digit_val "2.prems"(2) by simp_all
  have le: "v \<le> (int64_max - ?d) div 10" using "2.prems"(1) by (simp add: Let_def split: if_splits)
  then have "v * 10 + ?d \<le> int64_max" by linarith
  then show ?case using 2 le d by (simp add: Let_def)
qed simp

lemma number_value_ok: "number_value neg ints fracs ex rest = Got v r \<Longrightarrow> \<exists>d. v = JNumber d \<and> dbl_isfinite d"
  by (auto simp: number_value_def split: option.splits if_splits)

lemma parse_number_ok:
  assumes "parse_number cs = Got v rest"
  shows "(\<exists>i. v = JInteger i \<and> \<bar>i\<bar> \<le> int64_max) \<or> (\<exists>d. v = JNumber d \<and> dbl_isfinite d)"
proof -
  let ?cs1 = "if starts CHR ''-'' cs then tl cs else cs"
  let ?ints = "takeWhile is_digit ?cs1"
  have digits: "list_all is_digit ?ints" by (auto simp: list_all_iff dest: set_takeWhileD)
  have "number_body (starts CHR ''-'' cs) ?ints (dropWhile is_digit ?cs1) = Got v rest"
    using assms unfolding parse_number_def Let_def by (metis parsed.distinct(5))
  then show ?thesis
  proof (rule number_body_Got)
    fix f cs3 x
    assume "(\<exists>i. accumulate_int64 0 ?ints = Some i \<and> v = JInteger (if starts CHR ''-'' cs then - i else i)) \<or>
      number_value (starts CHR ''-'' cs) ?ints (snd f) (snd x) rest = Got v rest"
    then show ?thesis
    proof
      assume "\<exists>i. accumulate_int64 0 ?ints = Some i \<and> v = JInteger (if starts CHR ''-'' cs then - i else i)"
      then obtain i where i: "accumulate_int64 0 ?ints = Some i"
        "v = JInteger (if starts CHR ''-'' cs then - i else i)" by blast
      have "0 \<le> i \<and> i \<le> int64_max"
        using accumulate_int64_range [OF i(1) digits] by (simp add: int64_max_def)
      then show ?thesis using i(2) by simp
    qed (use number_value_ok in blast)
  qed
qed

lemma parse_scalar_ok:
  "parse_scalar lim cs = Got v rest \<Longrightarrow> depth < max_depth lim \<Longrightarrow> json_valid lim depth v"
  by (auto simp: parse_scalar_def parse_literal_def result_simps split: if_splits
      dest: parse_string_raw_ok parse_number_ok)

text \<open>The contract of the element parser, and that both loops keep it.\<close>

definition yields :: "(string \<Rightarrow> 'a parsed) \<Rightarrow> ('a \<Rightarrow> bool) \<Rightarrow> bool" where
  "yields e P \<longleftrightarrow> (\<forall>cs v rest. e cs = Got v rest \<longrightarrow> P v)"

lemma parse_items_ok:
  assumes "yields e (json_valid lim (Suc depth))" "depth < max_depth lim"
    and "parse_items fuel lim e items cs = Got v rest" "\<forall>x\<in>set items. json_valid lim (Suc depth) x"
  shows "json_valid lim depth v"
  using assms(3,4)
proof (induction fuel arbitrary: items cs)
  case (Suc fuel)
  from Suc.prems(1) obtain x cs1 where len: "length items < max_array_items lim"
    and e: "e (skip_whitespace cs) = Got x cs1"
    and more: "starts CHR '','' (skip_whitespace cs1) \<and>
       parse_items fuel lim e (items @ [x]) (tl (skip_whitespace cs1)) = Got v rest \<or>
     starts CHR '']'' (skip_whitespace cs1) \<and> v = JArray (items @ [x]) \<and>
       rest = tl (skip_whitespace cs1)" by (rule parse_items_Got)
  have "json_valid lim (Suc depth) x" using assms(1) e by (auto simp: yields_def)
  then have "\<forall>y\<in>set (items @ [x]). json_valid lim (Suc depth) y" using Suc.prems(2) by simp
  with more Suc.IH [of "items @ [x]"] len assms(2) show ?case by auto
qed simp

lemma parse_members_ok:
  assumes "yields e (json_valid lim (Suc depth))" "depth < max_depth lim"
    and "parse_members fuel lim e members cs = Got v rest" "distinct (map fst members)"
    and "\<forall>m\<in>set members. string_ok lim (fst m) \<and> json_valid lim (Suc depth) (snd m)"
  shows "json_valid lim depth v"
  using assms(3-)
proof (induction fuel arbitrary: members cs)
  case (Suc fuel)
  from Suc.prems(1) obtain key cs2 x cs4 where
    s: "parse_string_raw (max_string_bytes lim) (skip_whitespace cs) = Got key cs2"
    and new: "key \<notin> set (map fst members)" and len: "length members < max_object_members lim"
    and e: "e (skip_whitespace (tl (skip_whitespace cs2))) = Got x cs4"
    and more: "starts CHR '','' (skip_whitespace cs4) \<and>
       parse_members fuel lim e (members @ [(key, x)]) (tl (skip_whitespace cs4)) = Got v rest \<or>
     starts CHR ''}'' (skip_whitespace cs4) \<and> v = JObject (members @ [(key, x)]) \<and>
       rest = tl (skip_whitespace cs4)" by (rule parse_members_Got)
  have "json_valid lim (Suc depth) x" "string_ok lim key"
    using assms(1) e parse_string_raw_ok [OF s] by (auto simp: yields_def)
  then have "\<forall>m\<in>set (members @ [(key, x)]). string_ok lim (fst m) \<and> json_valid lim (Suc depth) (snd m)"
    "distinct (map fst (members @ [(key, x)]))" using Suc.prems(2,3) new by auto
  with more Suc.IH [of "members @ [(key, x)]"] len assms(2) show ?case by auto
qed simp

lemma parse_value_ok: "yields (parse_value fuel lim depth) (json_valid lim depth)"
proof (induction fuel arbitrary: depth)
  case (Suc fuel)
  show ?case unfolding yields_def
  proof (intro allI impI)
    fix cs v rest assume p: "parse_value (Suc fuel) lim depth cs = Got v rest"
    then have depth: "depth < max_depth lim" by (simp split: if_splits)
    from p consider "v = JObject []" | "v = JArray []"
      | "parse_members fuel lim (parse_value fuel lim (Suc depth)) [] (skip_whitespace (tl cs)) = Got v rest"
      | "parse_items fuel lim (parse_value fuel lim (Suc depth)) [] (skip_whitespace (tl cs)) = Got v rest"
      | "parse_scalar lim cs = Got v rest"
      by (auto simp: Let_def split: if_splits)
    then show "json_valid lim depth v"
      by cases (use depth parse_members_ok [OF Suc depth] parse_items_ok [OF Suc depth] parse_scalar_ok in auto)
  qed
qed (simp add: yields_def)

lemma parse_json_valid: "parse_json lim cs = Inr v \<Longrightarrow> json_valid lim 0 v"
  using parse_value_ok [of "Suc (length (skip_whitespace cs))" lim 0]
  by (auto simp: parse_json_def parse_document_def Let_def result_simps yields_def
      simp del: parse_value.simps split: if_splits parsed.splits)

end
