(* ===== verification/Json_Writer.thy ===== *)
theory Json_Writer
  imports Json_Parser
begin

text \<open>
  The writers against the parser: whatever a valid value without floating-point numbers is
  written as parses back to it, and the canonical form is the plain form of the value with
  the members of every object in key order.
\<close>

section \<open>Strings\<close>

lemma string_loop_unfold:
  "string_loop limit out (c # cs) =
     (if length out \<ge> limit then Bad ''json string length exceeded''
      else if (of_char c :: int) < 0x20 then Bad ''unescaped control character in json string''
      else if c = CHR 0x22 then Got out cs
      else if c = CHR 0x5C then pbind (parse_escape cs) (\<lambda>e rest. string_loop limit (out @ e) rest)
      else if (of_char c :: int) < 0x80 then string_loop limit (out @ [c]) cs
      else case utf8_lead (of_char c) of
          None \<Rightarrow> Bad ''invalid utf-8 lead byte''
        | Some (n, bits) \<Rightarrow> pbind (utf8_tail limit n bits (out @ [c]) cs) (\<lambda>(cp, out') rest.
            if \<not> utf8_code_point_ok n cp then Bad ''invalid utf-8 code point''
            else string_loop limit out' rest))"
  by (simp add: string_loop.simps pbind_def split: parsed.splits option.splits prod.splits)

lemma hex_digit_hex_char: "n < 16 \<Longrightarrow> hex_digit (hex_char n) = Some (int n)"
proof -
  have "\<forall>n\<in>set [0..<16]. hex_digit (hex_char n) = Some (int n)" by code_simp
  then show "n < 16 \<Longrightarrow> ?thesis" by simp
qed

lemma int_of_char: "int (of_char c) = of_char c"
  by (rule of_nat_of_char)

lemma control_escape:
  assumes "(of_char c :: int) < 0x20"
  shows "parse_unicode_escape (''00'' @ [hex_char (of_char c div 16), hex_char (of_char c mod 16)] @ zs) = Got [c] zs"
proof -
  let ?n = "of_char c :: nat"
  have n: "int ?n = of_char c" by (rule int_of_char)
  have "?n < 0x20" using assms n by linarith
  then have "?n div 16 < 16" by simp
  then have d: "hex_digit (hex_char (?n div 16)) = Some (int (?n div 16))"
    "hex_digit (hex_char (?n mod 16)) = Some (int (?n mod 16))" by (simp_all add: hex_digit_hex_char)
  have zero: "hex_digit CHR ''0'' = Some 0" by code_simp
  have four: "(4 :: nat) = Suc (Suc (Suc (Suc 0)))" by simp
  have v: "push_bit 4 (int (?n div 16)) OR int (?n mod 16) = of_char c"
    using or_push_bit [of "int (?n mod 16)" 4 "int (?n div 16)"] n by (simp add: zdiv_int zmod_int)
  have "parse_hex4 4 0 (''00'' @ [hex_char (?n div 16), hex_char (?n mod 16)] @ zs) = Got (of_char c) zs"
    unfolding four using v by (simp add: d zero)
  with assms show ?thesis
    by (simp add: parse_unicode_escape_def encode_utf8_def byte_def)
qed

lemma string_loop_escape_byte:
  assumes "(of_char c :: int) < 0x80" "length out < limit"
  shows "string_loop limit out (escape_byte c @ zs) = string_loop limit (out @ [c]) zs"
proof -
  let ?special = "{CHR 0x22, CHR 0x5C, CHR 0x08, CHR 0x0C, CHR 0x0A, CHR 0x0D, CHR 0x09}"
  consider "c \<in> ?special" | "c \<notin> ?special" "(of_char c :: int) < 0x20"
    | "c \<notin> ?special" "\<not> (of_char c :: int) < 0x20" by blast
  then show ?thesis
  proof cases
    case 1
    then show ?thesis using assms(2)
      by (elim insertE emptyE; simp add: escape_byte_def string_loop_unfold [of _ _ "CHR 0x5C"] parse_escape_def)
  next
    case 2
    then have e: "escape_byte c = CHR 0x5C # CHR ''u'' # ''00'' @
        [hex_char (of_char c div 16), hex_char (of_char c mod 16)]" by (simp add: escape_byte_def)
    have "parse_escape (CHR ''u'' # ''00'' @ [hex_char (of_char c div 16), hex_char (of_char c mod 16)] @ zs) = Got [c] zs"
      using control_escape [OF 2(2)] by (simp add: parse_escape_def)
    then show ?thesis using assms unfolding e by (simp add: string_loop_unfold [of _ _ "CHR 0x5C"])
  next
    case 3
    then show ?thesis using assms by (simp add: escape_byte_def string_loop_unfold [of _ _ c])
  qed
qed

lemma escape_byte_high: "\<not> (of_char c :: int) < 0x80 \<Longrightarrow> escape_byte c = [c]"
proof -
  have "\<forall>c. \<not> (of_char c :: int) < 0x80 \<longrightarrow> escape_byte c = [c]" by code_simp
  then show "\<not> (of_char c :: int) < 0x80 \<Longrightarrow> ?thesis" by blast
qed

lemma write_continuation_low: "(of_char c :: int) < 0x80 \<Longrightarrow> write_continuation c = 0"
proof -
  have "\<forall>c. (of_char c :: int) < 0x80 \<longrightarrow> write_continuation c = 0" by code_simp
  then show "(of_char c :: int) < 0x80 \<Longrightarrow> ?thesis" by blast
qed

lemma write_bytes_skip: "write_bytes (length t) (t @ cs) = t @ write_bytes 0 cs"
  by (induction t) simp_all

lemma utf8_tail_trail:
  "utf8_trail n cp t = Some (cp', []) \<Longrightarrow> length out + n \<le> limit \<Longrightarrow>
     utf8_tail limit n cp out (t @ zs) = Got (cp', out @ t) zs"
proof (induction n cp t arbitrary: out rule: utf8_trail.induct)
  case (3 n cp c cs)
  then show ?case by (auto split: if_splits)
qed simp_all

lemma string_loop_write_bytes:
  "utf8_ok s \<Longrightarrow> length out + length s < limit \<Longrightarrow>
     string_loop limit out (write_bytes 0 s @ CHR 0x22 # rest) = Got (out @ s) rest"
proof (induction s arbitrary: out rule: utf8_ok.induct)
  case 1
  then show ?case by (simp add: string_loop_unfold)
next
  case (2 c cs)
  show ?case
  proof (cases "(of_char c :: int) < 0x80")
    case True
    then show ?thesis
      using 2 string_loop_escape_byte [OF True, of out limit] by (simp add: write_continuation_low)
  next
    case False
    with "2.prems"(1) obtain n bits cp r where l: "utf8_lead (of_char c) = Some (n, bits)"
      and t: "utf8_trail n bits cs = Some (cp, r)" and ok: "utf8_code_point_ok n cp" "utf8_ok r"
      by (auto split: option.splits)
    obtain t' where cs: "cs = t' @ r" "length t' = n" using utf8_trail_split [OF t] by blast
    have t': "utf8_trail n bits t' = Some (cp, [])"
    proof -
      have "utf8_trail k b (u @ r) = Some (cp, r) \<Longrightarrow> length u = k \<Longrightarrow> utf8_trail k b u = Some (cp, [])" for k b u
        by (induction k b u rule: utf8_trail.induct) (auto split: if_splits)
      then show ?thesis using t cs by blast
    qed
    have not: "c \<noteq> CHR 0x22" "c \<noteq> CHR 0x5C" "\<not> (of_char c :: int) < 0x20" using False by auto
    have w: "write_bytes 0 (c # cs) = c # t' @ write_bytes 0 r"
      using escape_byte_high [OF False] write_bytes_skip [of t' r] cs l by (simp add: write_continuation_def)
    have "utf8_tail limit n bits (out @ [c]) (t' @ write_bytes 0 r @ CHR 0x22 # rest) =
        Got (cp, (out @ [c]) @ t') (write_bytes 0 r @ CHR 0x22 # rest)"
      using "2.prems"(2) cs by (intro utf8_tail_trail [OF t']) simp
    then have "string_loop limit out (write_bytes 0 (c # cs) @ CHR 0x22 # rest) =
        string_loop limit (out @ c # t') (write_bytes 0 r @ CHR 0x22 # rest)"
      using not False l ok(1) "2.prems"(2) unfolding w by (simp add: string_loop_unfold)
    also have "\<dots> = Got ((out @ c # t') @ r) rest"
      using "2.IH"(2) [OF False l refl t refl ok(2)] "2.prems"(2) cs by simp
    finally show ?thesis using cs by simp
  qed
qed

lemma parse_write_string:
  "string_ok lim s \<Longrightarrow> parse_string_raw (max_string_bytes lim) (write_string s @ rest) = Got s rest"
  using string_loop_write_bytes [of s "[]" "max_string_bytes lim" rest]
  by (simp add: parse_string_raw_def write_string_def string_ok_def)

section \<open>Integers\<close>

lemma fold_digits_mono:
  "list_all is_digit ds \<Longrightarrow> 0 \<le> v \<Longrightarrow> v \<le> foldl (\<lambda>a c. a * 10 + digit_val c) v ds"
proof (induction ds arbitrary: v)
  case (Cons c ds)
  then have d: "0 \<le> digit_val c" using is_digit_val by simp
  then have "v * 10 + digit_val c \<le> foldl (\<lambda>a c. a * 10 + digit_val c) v (c # ds)" using Cons by simp
  moreover have "v \<le> v * 10 + digit_val c" using d Cons.prems(2) by linarith
  ultimately show ?case by linarith
qed simp

lemma accumulate_int64_complete:
  "list_all is_digit ds \<Longrightarrow> 0 \<le> v \<Longrightarrow> foldl (\<lambda>a c. a * 10 + digit_val c) v ds \<le> int64_max \<Longrightarrow>
     accumulate_int64 v ds = Some (foldl (\<lambda>a c. a * 10 + digit_val c) v ds)"
proof (induction ds arbitrary: v)
  case (Cons c ds)
  have d: "0 \<le> digit_val c" using is_digit_val Cons.prems(1) by simp
  have "v * 10 + digit_val c \<le> int64_max"
    using fold_digits_mono [of ds "v * 10 + digit_val c"] Cons.prems d by simp
  then have "\<not> v > (int64_max - digit_val c) div 10" by linarith
  then show ?case using Cons d by (simp add: Let_def)
qed simp

text \<open>What may follow a value in the output of the writers.\<close>

definition delimited :: "string \<Rightarrow> bool" where
  "delimited rest \<longleftrightarrow> rest = [] \<or> hd rest \<in> {CHR '','', CHR '']'', CHR ''}''}"

lemma delimited_not:
  assumes "delimited rest"
  shows "\<not> starts CHR ''.'' rest" "\<not> starts CHR ''e'' rest" "\<not> starts CHR ''E'' rest"
    "takeWhile is_digit rest = []" "dropWhile is_digit rest = rest"
  using assms by (cases rest; auto simp: delimited_def is_digit_def)+

lemma takeWhile_digits:
  assumes "list_all is_digit ds" "delimited rest"
  shows "takeWhile is_digit (ds @ rest) = ds" "dropWhile is_digit (ds @ rest) = rest"
  using assms delimited_not(4,5) [OF assms(2)]
  by (simp_all add: list_all_iff takeWhile_append2 dropWhile_append2)

lemma number_body_digits:
  assumes "0 \<le> n" "n \<le> int64_max" "delimited rest"
  shows "number_body neg (show_digits n) rest = Got (JInteger (if neg then - n else n)) rest"
proof -
  have "accumulate_int64 0 (show_digits n) = Some n"
    using accumulate_int64_complete [of "show_digits n" 0] show_digits_spec [OF assms(1)] assms(2)
    by (simp add: digits_value_def)
  then show ?thesis
    using delimited_not [OF assms(3)] by (simp add: number_body_def parse_fraction_def parse_exponent_def)
qed

lemma show_digits_head: "0 \<le> n \<Longrightarrow> \<exists>c cs. show_digits n = c # cs \<and> is_digit c"
  using show_digits_spec [of n] by (cases "show_digits n") auto

lemma parse_number_show_int:
  assumes "\<bar>i\<bar> \<le> int64_max" "delimited rest"
  shows "parse_number (show_int i @ rest) = Got (JInteger i) rest"
proof -
  define n where "n = \<bar>i\<bar>"
  have n: "0 \<le> n" "n \<le> int64_max" using assms(1) by (simp_all add: n_def)
  obtain c cs where head: "show_digits n = c # cs" "is_digit c" using show_digits_head [OF n(1)] by blast
  have no_minus: "\<not> starts CHR ''-'' (show_digits n @ rest)" using head by (auto simp: is_digit_def)
  have digits: "takeWhile is_digit (show_digits n @ rest) = show_digits n"
    "dropWhile is_digit (show_digits n @ rest) = rest" "show_digits n \<noteq> []"
    using show_digits_spec [OF n(1)] takeWhile_digits [OF _ assms(2)] by auto
  show ?thesis
  proof (cases "i < 0")
    case True
    then have "show_int i @ rest = CHR ''-'' # show_digits n @ rest" by (simp add: show_int_def n_def)
    then show ?thesis using digits number_body_digits [OF n assms(2), of True] True
      by (simp add: parse_number_def n_def)
  next
    case False
    then have "show_int i @ rest = show_digits n @ rest" by (simp add: show_int_def n_def)
    then show ?thesis using digits no_minus number_body_digits [OF n assms(2), of False] False
      by (simp add: parse_number_def n_def)
  qed
qed

lemma show_int_head: "\<exists>c cs. show_int i = c # cs \<and> (is_digit c \<or> c = CHR ''-'')"
  using show_digits_head [of i] by (auto simp: show_int_def)

section \<open>Values\<close>

fun number_free :: "JsonValue \<Rightarrow> bool" where
  "number_free (JNumber d) = False"
| "number_free (JArray items) = (\<forall>v\<in>set items. number_free v)"
| "number_free (JObject members) = (\<forall>m\<in>set members. number_free (snd m))"
| "number_free _ = True"

text \<open>The first byte of a written value is no white space and closes nothing.\<close>

definition opens :: "string \<Rightarrow> bool" where
  "opens cs \<longleftrightarrow> cs \<noteq> [] \<and> \<not> is_whitespace (hd cs) \<and> hd cs \<notin> {CHR '','', CHR '']'', CHR ''}''}"

lemma opens_append: "opens xs \<Longrightarrow> skip_whitespace (xs @ ys) = xs @ ys \<and> xs @ ys \<noteq> [] \<and>
    \<not> starts CHR '']'' (xs @ ys) \<and> \<not> starts CHR ''}'' (xs @ ys)"
  by (cases xs) (auto simp: opens_def skip_whitespace_def)

lemma opens_show_int: "opens (show_int i)"
  using show_int_head [of i] by (auto simp: opens_def is_whitespace_def is_digit_def)

lemma opens_write_value: "number_free v \<Longrightarrow> opens (write_value canonical v)"
  by (cases v) (auto simp: opens_show_int, auto simp: opens_def is_whitespace_def write_string_def Let_def)

lemma skip_delimiter [simp]:
  "skip_whitespace (CHR '','' # cs) = CHR '','' # cs" "skip_whitespace (CHR '']'' # cs) = CHR '']'' # cs"
  "skip_whitespace (CHR ''}'' # cs) = CHR ''}'' # cs" "skip_whitespace (CHR '':'' # cs) = CHR '':'' # cs"
  "skip_whitespace (CHR 0x22 # cs) = CHR 0x22 # cs"
  by (simp_all add: skip_whitespace_def is_whitespace_def)

lemma delimited_simps [simp]:
  "delimited []" "delimited (CHR '','' # cs)" "delimited (CHR '']'' # cs)" "delimited (CHR ''}'' # cs)"
  by (simp_all add: delimited_def)

text \<open>The contract between a writer and an element parser.\<close>

definition reads_back :: "('a \<Rightarrow> string) \<Rightarrow> (string \<Rightarrow> 'a parsed) \<Rightarrow> 'a \<Rightarrow> nat \<Rightarrow> bool" where
  "reads_back w e v n \<longleftrightarrow> opens (w v) \<and>
     (\<forall>rest. delimited rest \<longrightarrow> length (w v @ rest) \<le> n \<longrightarrow> e (w v @ rest) = Got v rest)"

lemma reads_backD:
  "reads_back w e v n \<Longrightarrow> delimited rest \<Longrightarrow> length (w v @ rest) \<le> n \<Longrightarrow>
     e (skip_whitespace (w v @ rest)) = Got v rest"
  by (simp add: reads_back_def opens_append)

lemma parse_items_write:
  assumes "items \<noteq> []" "\<forall>v\<in>set items. reads_back w e v n"
    and "length acc + length items \<le> max_array_items lim" "length items \<le> fuel"
    and "length (comma_separated (map w items) @ CHR '']'' # rest) \<le> n"
  shows "parse_items fuel lim e acc (comma_separated (map w items) @ CHR '']'' # rest) =
    Got (JArray (acc @ items)) rest"
  using assms
proof (induction items arbitrary: acc fuel)
  case (Cons v items)
  obtain f where fuel: "fuel = Suc f" using Cons.prems(4) by (cases fuel) auto
  let ?tail = "if items = [] then CHR '']'' # rest
    else CHR '','' # comma_separated (map w items) @ CHR '']'' # rest"
  have split: "comma_separated (map w (v # items)) @ CHR '']'' # rest = w v @ ?tail"
    by (cases items) simp_all
  have el: "e (skip_whitespace (w v @ ?tail)) = Got v ?tail"
    by (rule reads_backD [of _ _ _ n]) (use Cons.prems(2,5) split in auto)
  show ?case
  proof (cases "items = []")
    case True
    then show ?thesis using Cons.prems(3) el unfolding split fuel by simp
  next
    case False
    have "parse_items f lim e (acc @ [v]) (comma_separated (map w items) @ CHR '']'' # rest) =
        Got (JArray ((acc @ [v]) @ items)) rest"
      using Cons.prems split False by (intro Cons.IH) (auto simp: fuel)
    then show ?thesis using Cons.prems(3) el False unfolding split fuel by simp
  qed
qed simp

lemma parse_members_write:
  assumes "ms \<noteq> []" "\<forall>m\<in>set ms. string_ok lim (fst m) \<and> reads_back w e (snd m) n"
    and "length acc + length ms \<le> max_object_members lim" "length ms \<le> fuel"
    and "distinct (map fst (acc @ ms))"
    and "length (comma_separated (map (\<lambda>m. write_member (fst m, w (snd m))) ms) @ CHR ''}'' # rest) \<le> n"
  shows "parse_members fuel lim e acc
      (comma_separated (map (\<lambda>m. write_member (fst m, w (snd m))) ms) @ CHR ''}'' # rest) =
    Got (JObject (acc @ ms)) rest"
  using assms
proof (induction ms arbitrary: acc fuel)
  case (Cons m ms)
  obtain f where fuel: "fuel = Suc f" using Cons.prems(4) by (cases fuel) auto
  obtain k v where m: "m = (k, v)" by (cases m)
  let ?wm = "\<lambda>m. write_member (fst m, w (snd m))"
  let ?tail = "if ms = [] then CHR ''}'' # rest else CHR '','' # comma_separated (map ?wm ms) @ CHR ''}'' # rest"
  have split: "comma_separated (map ?wm (m # ms)) @ CHR ''}'' # rest =
      write_string k @ CHR '':'' # w v @ ?tail"
    by (cases ms) (simp_all add: m write_member_def)
  have head: "starts CHR 0x22 (write_string k @ ys)" "skip_whitespace (write_string k @ ys) = write_string k @ ys" for ys
    by (simp_all add: write_string_def)
  have key: "parse_string_raw (max_string_bytes lim) (write_string k @ ys) = Got k ys" for ys
    using Cons.prems(2) m by (intro parse_write_string) simp
  have el: "e (skip_whitespace (w v @ ?tail)) = Got v ?tail"
    by (rule reads_backD [of _ _ _ n]) (use Cons.prems(2,6) split m in auto)
  have new: "k \<notin> fst ` set acc" "\<not> max_object_members lim \<le> length acc"
    using Cons.prems(3,5) m by auto
  show ?case
  proof (cases "ms = []")
    case True
    then show ?thesis using el new unfolding split fuel by (simp add: head key m)
  next
    case False
    have "parse_members f lim e (acc @ [m]) (comma_separated (map ?wm ms) @ CHR ''}'' # rest) =
        Got (JObject ((acc @ [m]) @ ms)) rest"
      using Cons.prems split False by (intro Cons.IH) (auto simp: fuel)
    then show ?thesis using el new False unfolding split fuel by (simp add: head key m)
  qed
qed simp

lemma comma_separated_length: "\<forall>x\<in>set xs. x \<noteq> [] \<Longrightarrow> length xs \<le> length (comma_separated xs)"
proof (induction xs rule: comma_separated.induct)
  case (2 x)
  then show ?case by (cases x) auto
next
  case (3 x y xs)
  then show ?case by (cases x) auto
qed simp

lemma write_members_plain:
  "write_value False (JObject ms) =
     ''{'' @ comma_separated (map (\<lambda>m. write_member (fst m, write_value False (snd m))) ms) @ ''}''"
  by (simp add: comp_def case_prod_unfold)

text \<open>The budget of the parser is above the length of its input, so a value written at depth
  \<open>depth\<close> and followed by a delimiter is read back.\<close>

lemma parse_write_value:
  "json_valid lim depth v \<Longrightarrow> number_free v \<Longrightarrow> delimited rest \<Longrightarrow>
     length (write_value False v @ rest) < fuel \<Longrightarrow>
     parse_value fuel lim depth (write_value False v @ rest) = Got v rest"
proof (induction v arbitrary: depth fuel rest)
  case (JInteger i)
  obtain f where f: "fuel = Suc f" using JInteger.prems(4) by (cases fuel) auto
  obtain c cs where c: "show_int i = c # cs" "is_digit c \<or> c = CHR ''-''" using show_int_head by blast
  have no: "\<not> starts x (show_int i @ rest)" if "x \<in> {CHR ''{'', CHR ''['', CHR 0x22, CHR ''t'', CHR ''f'', CHR ''n''}" for x
    using c that by (auto simp: is_digit_def)
  have "show_int i @ rest \<noteq> []" using c by simp
  then show ?case
    using JInteger.prems parse_number_show_int [of i rest] no unfolding f by (simp add: parse_scalar_def)
next
  case (JString s)
  obtain f where f: "fuel = Suc f" using JString.prems(4) by (cases fuel) auto
  have head: "starts x (write_string s @ rest) \<longleftrightarrow> x = CHR 0x22" "write_string s \<noteq> []" for x
    by (auto simp: write_string_def)
  show ?case
    using JString.prems parse_write_string [of lim s rest] unfolding f by (simp add: parse_scalar_def head)
next
  case (JArray items)
  obtain f where f: "fuel = Suc f" using JArray.prems(4) by (cases fuel) auto
  show ?case
  proof (cases "items = []")
    case True
    then show ?thesis using JArray.prems unfolding f by simp
  next
    case False
    let ?body = "comma_separated (map (write_value False) items) @ CHR '']'' # rest"
    have len: "length ?body < f" using JArray.prems(4) f by simp
    have reads: "\<forall>v\<in>set items. reads_back (write_value False) (parse_value f lim (Suc depth)) v (f - 1)"
    proof
      fix v assume v: "v \<in> set items"
      have "json_valid lim (Suc depth) v" "number_free v" using JArray.prems(1,2) v by auto
      then show "reads_back (write_value False) (parse_value f lim (Suc depth)) v (f - 1)"
        using JArray.IH [OF v] opens_write_value len unfolding reads_back_def by auto
    qed
    have "length items \<le> length (comma_separated (map (write_value False) items))"
      using comma_separated_length [of "map (write_value False) items"] reads
      by (auto simp: reads_back_def opens_def)
    then have "parse_items f lim (parse_value f lim (Suc depth)) [] ?body = Got (JArray ([] @ items)) rest"
      using False reads JArray.prems(1) len by (intro parse_items_write) auto
    moreover have "opens (comma_separated (map (write_value False) items))"
    proof -
      obtain x xs where "items = x # xs" using False by (cases items) auto
      then show ?thesis using reads by (cases xs) (auto simp: reads_back_def opens_def)
    qed
    ultimately show ?thesis
      using JArray.prems(1) opens_append [of _ "CHR '']'' # rest"] unfolding f by simp
  qed
next
  case (JObject ms)
  obtain f where f: "fuel = Suc f" using JObject.prems(4) by (cases fuel) auto
  let ?wm = "\<lambda>m. write_member (fst m, write_value False (snd m))"
  show ?case
  proof (cases "ms = []")
    case True
    then show ?thesis using JObject.prems unfolding f by simp
  next
    case False
    let ?body = "comma_separated (map ?wm ms) @ CHR ''}'' # rest"
    have len: "length ?body < f" using JObject.prems(4) f unfolding write_members_plain by simp
    have reads: "\<forall>m\<in>set ms. string_ok lim (fst m) \<and>
        reads_back (write_value False) (parse_value f lim (Suc depth)) (snd m) (f - 1)"
    proof
      fix m assume m: "m \<in> set ms"
      have "json_valid lim (Suc depth) (snd m)" "number_free (snd m)" "string_ok lim (fst m)"
        using JObject.prems(1,2) m by auto
      then show "string_ok lim (fst m) \<and>
          reads_back (write_value False) (parse_value f lim (Suc depth)) (snd m) (f - 1)"
        using JObject.IH [OF m, of "snd m"] opens_write_value len unfolding reads_back_def
        by (auto simp: snds.simps)
    qed
    have "length ms \<le> length (comma_separated (map ?wm ms))"
      using comma_separated_length [of "map ?wm ms"] by (auto simp: write_member_def)
    then have "parse_members f lim (parse_value f lim (Suc depth)) [] ?body = Got (JObject ([] @ ms)) rest"
      using False reads JObject.prems(1) len by (intro parse_members_write) auto
    moreover have "opens (comma_separated (map ?wm ms))"
    proof -
      obtain x xs where "ms = x # xs" using False by (cases ms) auto
      then show ?thesis by (cases xs) (auto simp: opens_def write_member_def write_string_def is_whitespace_def)
    qed
    ultimately show ?thesis
      using JObject.prems(1) opens_append [of _ "CHR ''}'' # rest"] unfolding f write_members_plain by simp
  qed
next
  case JNull
  then show ?case by (cases fuel) (simp_all add: parse_scalar_def parse_literal_def)
next
  case (JBoolean b)
  then show ?case by (cases fuel) (auto simp: parse_scalar_def parse_literal_def)
qed simp

text \<open>A document is a value with nothing after it.\<close>

lemma parse_document_write:
  assumes "json_valid lim 0 v" "number_free v"
  shows "parse_document lim (write_value False v) = Got v []"
proof -
  let ?t = "write_value False v"
  have "skip_whitespace ?t = ?t" "?t \<noteq> []"
    using opens_append [OF opens_write_value [OF assms(2)], of False "[]"] by auto
  moreover have "parse_value (Suc (length ?t)) lim 0 ?t = Got v []"
    using parse_write_value [OF assms, of "[]" "Suc (length ?t)"] by simp
  ultimately show ?thesis
    by (simp add: parse_document_def skip_whitespace_def del: parse_value.simps)
qed

section \<open>The canonical form\<close>

fun json_normalize :: "JsonValue \<Rightarrow> JsonValue" where
  "json_normalize (JArray items) = JArray (map (\<lambda>v. json_normalize v) items)"
| "json_normalize (JObject members) = JObject (sort_key fst (map (\<lambda>(k, v). (k, json_normalize v)) members))"
| "json_normalize v = v"

lemma sort_key_map:
  assumes "\<And>x. fst (g x) = fst x"
  shows "sort_key fst (map g xs) = map g (sort_key fst xs)"
proof -
  have "insort_key fst (g x) (map g ys) = map g (insort_key fst x ys)" for x ys
    by (induction ys) (auto simp: assms)
  then show ?thesis by (induction xs) (simp_all add: sort_key_def)
qed

lemma write_canonical: "write_value True v = write_value False (json_normalize v)"
proof (induction v rule: json_normalize.induct)
  case (2 members)
  let ?w = "\<lambda>m. (fst m, write_value False (snd m))" and ?n = "\<lambda>m. (fst m, json_normalize (snd m))"
  have "map (\<lambda>m. (fst m, write_value True (snd m))) members = map ?w (map ?n members)"
    using 2 by auto
  then have "sort_key fst (map (\<lambda>m. (fst m, write_value True (snd m))) members) =
      map ?w (sort_key fst (map ?n members))"
    using sort_key_map [of ?w "map ?n members"] by (simp only: fst_conv)
  then show ?case by (simp add: case_prod_unfold)
qed (simp_all cong: map_cong)

lemma normalize_number_free [simp]: "number_free (json_normalize v) = number_free v"
proof (induction v rule: json_normalize.induct)
  case (2 members)
  then show ?case by (auto simp: case_prod_unfold)
qed simp_all

lemma normalize_valid [simp]: "json_valid lim depth (json_normalize v) = json_valid lim depth v"
proof (induction v arbitrary: depth rule: json_normalize.induct)
  case (2 members)
  let ?f = "\<lambda>(k, v). (k, json_normalize v)"
  have "distinct (map fst (sort_key fst (map ?f members))) = distinct (map fst members)"
    by (metis (no_types, lifting) map_map distinct_sort case_prod_unfold comp_def fst_conv map_eq_conv
        mset_eq_imp_distinct_iff mset_map mset_sort)
  then show ?case using 2 by (auto simp: case_prod_unfold)
qed auto

end
