(* ===== verification/Json_Properties.thy ===== *)
theory Json_Properties
  imports Json_Writer
begin

text \<open>
  The properties of the JSON component, with the codec that other components rely on as an
  interpretation of the generic interface.
\<close>

section \<open>The document codec\<close>

definition json_decode :: "JsonLimits \<Rightarrow> string \<Rightarrow> JsonValue option" where
  "json_decode lim cs = (case parse_json lim cs of Inr v \<Rightarrow> Some v | Inl _ \<Rightarrow> None)"

definition json_encodable :: "JsonLimits \<Rightarrow> JsonValue \<Rightarrow> bool" where
  "json_encodable lim v \<longleftrightarrow> json_valid lim 0 v \<and> number_free v \<and>
     length (to_json_string v) \<le> max_document_bytes lim"

lemma parse_to_json_string:
  "json_encodable lim v \<Longrightarrow> parse_json lim (to_json_string v) = Inr v"
  by (simp add: json_encodable_def parse_json_def to_json_string_def parse_document_write)

interpretation json_text: codec to_json_string "json_decode lim" "json_encodable lim" for lim
  by unfold_locales (simp add: json_decode_def parse_to_json_string)

definition small_limits :: JsonLimits where
  "small_limits = \<lparr>max_depth = 4, max_document_bytes = 64, max_string_bytes = 16,
     max_array_items = 4, max_object_members = 4\<rparr>"

definition sample_value :: JsonValue where
  "sample_value = JObject [(''b'', JArray [JInteger (- 7), JString [CHR 0x0A, CHR 0x22]]), (''a'', JBoolean True)]"

section \<open>Properties\<close>

text \<open>C38: Writing a value and parsing the text gives the value back, when the value is within
  the limits of the parser, its text fits the document limit and it holds no floating-point
  number.\<close>

theorem parse_json_round_trip:
  assumes "json_valid lim 0 v" "number_free v" "length (to_json_string v) \<le> max_document_bytes lim"
  shows "parse_json lim (to_json_string v) = Inr v"
  using assms by (simp add: parse_to_json_string json_encodable_def)

theorem parse_json_round_trip_witness:
  "parse_json small_limits (to_json_string sample_value) = Inr sample_value"
proof (rule parse_json_round_trip)
  have strings: "string_ok small_limits [CHR 0x0A, CHR 0x22]" "string_ok small_limits ''a''"
    "string_ok small_limits ''b''"
    by (simp_all add: string_ok_def small_limits_def)
  show "json_valid small_limits 0 sample_value"
    using strings by (simp add: sample_value_def small_limits_def int64_max_def)
  show "number_free sample_value" by (simp add: sample_value_def)
  show "length (to_json_string sample_value) \<le> max_document_bytes small_limits" by code_simp
qed

text \<open>Whatever the parser accepts is within the configured limits: nesting below
  \<open>max_depth\<close>, bounded arrays and objects, distinct member names, strings of well-formed
  UTF-8 shorter than \<open>max_string_bytes\<close>, integers of 64 bits and finite numbers.\<close>

theorem parse_json_within_limits:
  assumes "parse_json lim cs = Inr v"
  shows "json_valid lim 0 v"
  using assms by (rule parse_json_valid)

theorem parse_json_within_limits_witness: "json_valid small_limits 0 (JArray [JInteger 12, JNull])"
  by (rule parse_json_within_limits [of _ "''[12, null]''"]) code_simp

text \<open>C39: The parser returns on every input: its recursion budget is never exhausted, so the
  answer is a value or one of the error messages of the source.\<close>

theorem parse_json_total: "parse_document lim cs \<noteq> NoFuel"
  by (rule parse_document_total)

text \<open>The canonical text does not depend on the order in which the members of an object
  were inserted.\<close>

theorem canonical_order_independent:
  assumes "mset ms = mset ms'" "distinct (map fst ms)"
  shows "canonical_json_string (JObject ms) = canonical_json_string (JObject ms')"
proof -
  let ?n = "\<lambda>(k, v). (k, json_normalize v)"
  have "inj_on fst (set (map ?n ms))"
    using assms(2) by (fastforce simp: distinct_map inj_on_def)
  moreover have "mset (map ?n ms) = mset (map ?n ms')" using assms(1) by simp
  moreover have "sorted (map fst (sort_key fst (map ?n ms')))" by simp
  ultimately have "sort_key fst (map ?n ms) = sort_key fst (map ?n ms')"
    by (intro sort_key_inj_key_eq) simp_all
  then have "json_normalize (JObject ms) = json_normalize (JObject ms')" by simp
  then show ?thesis by (simp only: canonical_json_string_def write_canonical)
qed

theorem canonical_order_independent_witness:
  "canonical_json_string (JObject [(''b'', JNull), (''a'', JInteger 1)]) =
   canonical_json_string (JObject [(''a'', JInteger 1), (''b'', JNull)])"
  by (rule canonical_order_independent) simp_all

text \<open>The canonical text identifies a value up to the order of members: two valid values
  without floating-point numbers have the same canonical text exactly when they have the
  same normal form, and the canonical text itself parses to that normal form.\<close>

theorem canonical_identifies_value:
  assumes "json_valid lim 0 v" "number_free v" "json_valid lim 0 w" "number_free w"
  shows "(canonical_json_string v = canonical_json_string w \<longleftrightarrow> json_normalize v = json_normalize w) \<and>
    parse_document lim (canonical_json_string v) = Got (json_normalize v) []"
proof -
  have v: "parse_document lim (canonical_json_string v) = Got (json_normalize v) []"
    and w: "parse_document lim (canonical_json_string w) = Got (json_normalize w) []"
    using assms by (simp_all add: canonical_json_string_def write_canonical parse_document_write)
  then have "canonical_json_string v = canonical_json_string w \<Longrightarrow> json_normalize v = json_normalize w"
    by (metis parsed.inject(2))
  with v show ?thesis by (auto simp: canonical_json_string_def write_canonical)
qed

theorem canonical_identifies_value_witness:
  "(canonical_json_string (JArray [JNull]) = canonical_json_string JNull \<longleftrightarrow>
      json_normalize (JArray [JNull]) = json_normalize JNull) \<and>
    parse_document small_limits (canonical_json_string (JArray [JNull])) = Got (json_normalize (JArray [JNull])) []"
  by (rule canonical_identifies_value) (simp_all add: small_limits_def)

text \<open>The writer trusts its input to be UTF-8: after a byte that looks like the lead of a
  multi-byte sequence it copies the next bytes unescaped, so a quotation mark in the text
  can end up unescaped inside the literal.\<close>

theorem json_escape_leaves_quote:
  "json_escape [CHR 0xC3, CHR 0x22, CHR ''x''] = [CHR 0x22, CHR 0xC3, CHR 0x22, CHR ''x'', CHR 0x22] \<and>
   \<not> utf8_ok [CHR 0xC3, CHR 0x22, CHR ''x'']"
  by code_simp

text \<open>The smallest 64-bit integer does not survive a round trip: it is written as an
  integer and read back as a floating-point number. Leading zeros are accepted.\<close>

theorem integer_edge_cases:
  "parse_json small_limits (to_json_string (JInteger (- int64_max - 1))) =
     Inr (JNumber (Double 0xC3E0000000000000)) \<and>
   parse_json small_limits ''007'' = Inr (JInteger 7)"
  by code_simp

end
