(* ===== verification/Sha256.thy ===== *)
theory Sha256
  imports Core_Contracts
begin

text \<open>
  The streaming SHA-256 of \<open>src/storage/event_store.cpp\<close> (class \<open>Sha256\<close>), the digest type
  and its hexadecimal form. The fixed buffer with its fill count is the list of the bytes
  that are filled. The reference is the padded message cut into blocks.
\<close>

section \<open>The compression function\<close>

definition kRoundConstants :: "u32 list" where
  "kRoundConstants =
     [0x428a2f98, 0x71374491, 0xb5c0fbcf, 0xe9b5dba5] @
     [0x3956c25b, 0x59f111f1, 0x923f82a4, 0xab1c5ed5] @
     [0xd807aa98, 0x12835b01, 0x243185be, 0x550c7dc3] @
     [0x72be5d74, 0x80deb1fe, 0x9bdc06a7, 0xc19bf174] @
     [0xe49b69c1, 0xefbe4786, 0x0fc19dc6, 0x240ca1cc] @
     [0x2de92c6f, 0x4a7484aa, 0x5cb0a9dc, 0x76f988da] @
     [0x983e5152, 0xa831c66d, 0xb00327c8, 0xbf597fc7] @
     [0xc6e00bf3, 0xd5a79147, 0x06ca6351, 0x14292967] @
     [0x27b70a85, 0x2e1b2138, 0x4d2c6dfc, 0x53380d13] @
     [0x650a7354, 0x766a0abb, 0x81c2c92e, 0x92722c85] @
     [0xa2bfe8a1, 0xa81a664b, 0xc24b8b70, 0xc76c51a3] @
     [0xd192e819, 0xd6990624, 0xf40e3585, 0x106aa070] @
     [0x19a4c116, 0x1e376c08, 0x2748774c, 0x34b0bcb5] @
     [0x391c0cb3, 0x4ed8aa4a, 0x5b9cca4f, 0x682e6ff3] @
     [0x748f82ee, 0x78a5636f, 0x84c87814, 0x8cc70208] @
     [0x90befffa, 0xa4506ceb, 0xbef9a3f7, 0xc67178f2]"

definition kInitialState :: "u32 list" where
  "kInitialState = [0x6a09e667, 0xbb67ae85, 0x3c6ef372, 0xa54ff53a, 0x510e527f, 0x9b05688c,
     0x1f83d9ab, 0x5be0cd19]"

definition rotate_right :: "u32 \<Rightarrow> nat \<Rightarrow> u32" where
  "rotate_right v amount = drop_bit amount v OR push_bit (32 - amount) v"

text \<open>The big-endian words of a block, four bytes each.\<close>

fun block_words :: "u8 list \<Rightarrow> u32 list" where
  "block_words (a # b # c # d # rest) =
     (push_bit 24 (ucast a) OR push_bit 16 (ucast b) OR push_bit 8 (ucast c) OR ucast d)
       # block_words rest"
| "block_words _ = []"

text \<open>One round of the schedule loop appends the next word.\<close>

definition schedule_word :: "u32 list \<Rightarrow> nat \<Rightarrow> u32 list" where
  "schedule_word ws index =
     (let s0 = rotate_right (ws ! (index - 15)) 7 XOR rotate_right (ws ! (index - 15)) 18 XOR
                 drop_bit 3 (ws ! (index - 15));
          s1 = rotate_right (ws ! (index - 2)) 17 XOR rotate_right (ws ! (index - 2)) 19 XOR
                 drop_bit 10 (ws ! (index - 2))
      in ws @ [ws ! (index - 16) + s0 + ws ! (index - 7) + s1])"

definition schedule :: "u8 list \<Rightarrow> u32 list" where
  "schedule block = foldl schedule_word (block_words block) [16..<64]"

definition sha_round :: "u32 list \<Rightarrow> u32 \<times> u32 \<Rightarrow> u32 list" where
  "sha_round w kw =
     (let s1 = rotate_right (w ! 4) 6 XOR rotate_right (w ! 4) 11 XOR rotate_right (w ! 4) 25;
          chosen = (w ! 4 AND w ! 5) XOR (NOT (w ! 4) AND w ! 6);
          temp1 = w ! 7 + s1 + chosen + fst kw + snd kw;
          s0 = rotate_right (w ! 0) 2 XOR rotate_right (w ! 0) 13 XOR rotate_right (w ! 0) 22;
          majority = (w ! 0 AND w ! 1) XOR (w ! 0 AND w ! 2) XOR (w ! 1 AND w ! 2);
          temp2 = s0 + majority
      in [temp1 + temp2, w ! 0, w ! 1, w ! 2, w ! 3 + temp1, w ! 4, w ! 5, w ! 6])"

definition transform :: "u32 list \<Rightarrow> u8 list \<Rightarrow> u32 list" where
  "transform st block =
     map2 (+) st (foldl sha_round st (zip kRoundConstants (schedule block)))"

section \<open>The streaming hash\<close>

record Sha256 =
  sha_state :: "u32 list"
  sha_buffer :: "u8 list"
  sha_bits :: u64

definition sha_init :: Sha256 where
  "sha_init = \<lparr>sha_state = kInitialState, sha_buffer = [], sha_bits = 0\<rparr>"

definition update_byte :: "Sha256 \<Rightarrow> u8 \<Rightarrow> Sha256" where
  "update_byte h b =
     (let buf = sha_buffer h @ [b] in
      if length buf = 64
      then h\<lparr>sha_state := transform (sha_state h) buf, sha_bits := sha_bits h + 512, sha_buffer := []\<rparr>
      else h\<lparr>sha_buffer := buf\<rparr>)"

definition sha_update :: "Sha256 \<Rightarrow> u8 list \<Rightarrow> Sha256" where
  "sha_update h bs = foldl update_byte h bs"

definition length_bytes :: "u64 \<Rightarrow> u8 list" where
  "length_bytes n = map (\<lambda>shift. ucast (drop_bit (shift * 8) n)) [7, 6, 5, 4, 3, 2, 1, 0]"

definition word_bytes :: "u32 \<Rightarrow> u8 list" where
  "word_bytes w = [ucast (drop_bit 24 w), ucast (drop_bit 16 w), ucast (drop_bit 8 w), ucast w]"

datatype Sha256Digest = Sha256Digest (digest_octets: "u8 list")

definition digest_of_state :: "u32 list \<Rightarrow> Sha256Digest" where
  "digest_of_state st = Sha256Digest (concat (map word_bytes st))"

definition sha_finish :: "Sha256 \<Rightarrow> Sha256Digest" where
  "sha_finish h =
     (let original_bits = sha_bits h + of_nat (length (sha_buffer h)) * 8;
          buf = sha_buffer h @ [0x80];
          (st, buf) = (if length buf > 56
            then (transform (sha_state h) (buf @ replicate (64 - length buf) 0), [])
            else (sha_state h, buf));
          buf = buf @ replicate (56 - length buf) 0 @ length_bytes original_bits
      in digest_of_state (transform st buf))"

definition digest_bytes :: "u8 list \<Rightarrow> Sha256Digest" where
  "digest_bytes bs = sha_finish (sha_update sha_init bs)"

definition digest_string :: "string \<Rightarrow> Sha256Digest" where
  "digest_string s = digest_bytes (map of_char s)"

definition digest_ok :: "Sha256Digest \<Rightarrow> bool" where
  "digest_ok d \<longleftrightarrow> length (digest_octets d) = 32"

definition digest_to_string :: "Sha256Digest \<Rightarrow> string" where
  "digest_to_string d = hex_bytes (digest_octets d)"

definition digest_from_hex :: "string \<Rightarrow> Sha256Digest option" where
  "digest_from_hex cs = (if length cs \<noteq> 64 then None else map_option Sha256Digest (parse_hex_bytes cs))"

section \<open>The reference\<close>

text \<open>The padding of FIPS 180-4 for a message of whole bytes, and the blocks.\<close>

definition sha_pad :: "u8 list \<Rightarrow> u8 list" where
  "sha_pad msg = msg @ [0x80] @ replicate ((119 - length msg mod 64) mod 64) 0 @
     length_bytes (of_nat (8 * length msg))"

function blocks :: "'a list \<Rightarrow> 'a list list" where
  "blocks xs = (if length xs < 64 then [] else take 64 xs # blocks (drop 64 xs))"
  by pat_completeness auto
termination
  by (relation "measure length") auto

declare blocks.simps [simp del]

definition sha256_spec :: "u8 list \<Rightarrow> Sha256Digest" where
  "sha256_spec msg = digest_of_state (foldl transform kInitialState (blocks (sha_pad msg)))"

section \<open>Equivalence\<close>

lemma blocks_short [simp]: "length xs < 64 \<Longrightarrow> blocks xs = []"
  by (simp add: blocks.simps)

lemma blocks_full [simp]: "length xs = 64 \<Longrightarrow> blocks (xs @ ys) = xs # blocks ys"
  by (subst blocks.simps) simp

lemma blocks_append:
  assumes "length xs = 64 * n"
  shows "blocks (xs @ ys) = blocks xs @ blocks ys"
  using assms
proof (induction n arbitrary: xs)
  case (Suc n)
  obtain a b where xs: "xs = a @ b" "length a = 64" "length b = 64 * n"
    using Suc.prems by (metis add_diff_cancel_left' append_take_drop_id length_drop length_take
        min.absorb4 min.absorb2 mult_Suc_right le_add1)
  then show ?case using Suc.IH [of b] by simp
qed simp

text \<open>The part of a message that fills whole blocks, and the rest.\<close>

definition whole :: "'a list \<Rightarrow> 'a list" where
  "whole xs = take (64 * (length xs div 64)) xs"

definition partial_block :: "'a list \<Rightarrow> 'a list" where
  "partial_block xs = drop (64 * (length xs div 64)) xs"

lemma whole_partial: "whole xs @ partial_block xs = xs"
  by (simp add: whole_def partial_block_def)

lemma length_whole: "length (whole xs) = 64 * (length xs div 64)"
  by (simp add: whole_def)

lemma length_partial: "length (partial_block xs) = length xs mod 64"
  by (simp add: partial_block_def minus_mult_div_eq_mod)

lemma partial_snoc:
  assumes "length xs mod 64 \<noteq> 63"
  shows "whole (xs @ [x]) = whole xs" "partial_block (xs @ [x]) = partial_block xs @ [x]"
proof -
  have "Suc (length xs) div 64 = length xs div 64" using assms by (simp add: div_Suc mod_Suc)
  then show "whole (xs @ [x]) = whole xs" "partial_block (xs @ [x]) = partial_block xs @ [x]"
    by (simp_all add: whole_def partial_block_def)
qed

lemma whole_snoc:
  assumes "length xs mod 64 = 63"
  shows "whole (xs @ [x]) = whole xs @ partial_block xs @ [x]" "partial_block (xs @ [x]) = []"
proof -
  have "Suc (length xs) mod 64 = 0" using assms by (simp add: mod_Suc)
  then have "64 * (Suc (length xs) div 64) = Suc (length xs)" by (simp add: mod_0_imp_dvd)
  then show "whole (xs @ [x]) = whole xs @ partial_block xs @ [x]" "partial_block (xs @ [x]) = []"
    by (simp_all add: whole_def partial_block_def)
qed

lemma sha_update_state:
  "sha_update sha_init msg = \<lparr>sha_state = foldl transform kInitialState (blocks (whole msg)),
     sha_buffer = partial_block msg, sha_bits = of_nat (512 * (length msg div 64))\<rparr>"
proof (induction msg rule: rev_induct)
  case Nil
  then show ?case by (simp add: sha_update_def sha_init_def whole_def partial_block_def)
next
  case (snoc x xs)
  have step: "sha_update sha_init (xs @ [x]) = update_byte (sha_update sha_init xs) x"
    by (simp add: sha_update_def)
  show ?case
  proof (cases "length xs mod 64 = 63")
    case True
    have len: "length (partial_block xs @ [x]) = 64" using True by (simp add: length_partial)
    have "blocks (whole xs @ partial_block xs @ [x]) = blocks (whole xs) @ [partial_block xs @ [x]]"
      using blocks_append [OF length_whole, of xs "partial_block xs @ [x]"] blocks_full [OF len, of "[]"] by simp
    moreover have "Suc (length xs) div 64 = Suc (length xs div 64)" using True by (simp add: div_Suc mod_Suc)
    ultimately show ?thesis
      unfolding step snoc using True len by (simp add: update_byte_def Let_def whole_snoc)
  next
    case False
    have "Suc (length xs) div 64 = length xs div 64" using False by (simp add: div_Suc mod_Suc)
    moreover have "length (partial_block xs @ [x]) \<noteq> 64" using False by (simp add: length_partial)
    ultimately show ?thesis
      unfolding step snoc using False by (simp add: update_byte_def Let_def partial_snoc)
  qed
qed

lemma length_length_bytes [simp]: "length (length_bytes n) = 8"
  by (simp add: length_bytes_def)

lemma sha_bits_total:
  "of_nat (512 * (n div 64)) + of_nat (n mod 64) * 8 = (of_nat (8 * n) :: u64)"
proof -
  have "512 * (n div 64) + n mod 64 * 8 = 8 * n" using mult_div_mod_eq [of 64 n] by linarith
  then show ?thesis by (metis of_nat_add of_nat_mult of_nat_numeral)
qed

text \<open>The blocks that \<open>finish\<close> feeds are the blocks of the padded rest.\<close>

lemma finish_blocks:
  assumes "length b < 64"
  shows "(let buf = b @ [0x80];
      (st, buf) = (if length buf > 56 then (transform st (buf @ replicate (64 - length buf) 0), [])
        else (st, buf))
    in transform st (buf @ replicate (56 - length buf) 0 @ length_bytes n)) =
    foldl transform st (blocks (b @ [0x80] @ replicate ((119 - length b) mod 64) 0 @ length_bytes n))"
proof (cases "length b \<ge> 56")
  case True
  let ?first = "b @ [0x80] @ replicate (63 - length b) 0"
  have z: "replicate ((119 - length b) mod 64) 0 = replicate (63 - length b) 0 @ (replicate 56 0 :: u8 list)"
  proof -
    have "(119 - length b) mod 64 = (63 - length b) + 56" using True assms by simp
    then show ?thesis by (simp only: replicate_add)
  qed
  have len: "length ?first = 64" "length (replicate 56 0 @ length_bytes n) = 64" using assms by simp_all
  have "blocks (b @ [0x80] @ replicate ((119 - length b) mod 64) 0 @ length_bytes n) =
      [?first, replicate 56 0 @ length_bytes n]"
    unfolding z using blocks_full [OF len(1), of "replicate 56 0 @ length_bytes n"]
      blocks_full [OF len(2), of "[]"] by simp
  then show ?thesis using True by (simp add: Let_def)
next
  case False
  then have "119 - length b = 64 + (55 - length b)" "55 - length b < 64" by simp_all
  then have "(119 - length b) mod 64 = 55 - length b" by (simp only: mod_add_self1 mod_less)
  moreover have "length (b @ [0x80] @ replicate (55 - length b) 0 @ length_bytes n) = 64" using False by simp
  ultimately have "blocks (b @ [0x80] @ replicate ((119 - length b) mod 64) 0 @ length_bytes n) =
      [b @ [0x80] @ replicate (55 - length b) 0 @ length_bytes n]"
    using blocks_full [of "b @ [0x80] @ replicate (55 - length b) 0 @ length_bytes n" "[]"] by simp
  then show ?thesis using False by (simp add: Let_def)
qed

lemma digest_bytes_spec: "digest_bytes msg = sha256_spec msg"
proof -
  let ?b = "partial_block msg" and ?n = "of_nat (8 * length msg) :: u64"
  have lb: "length ?b < 64" by (simp add: length_partial)
  have pad: "sha_pad msg = whole msg @ ?b @ [0x80] @ replicate ((119 - length ?b) mod 64) 0 @ length_bytes ?n"
    by (simp add: sha_pad_def length_partial) (metis append_assoc whole_partial)
  have "blocks (sha_pad msg) = blocks (whole msg) @
      blocks (?b @ [0x80] @ replicate ((119 - length ?b) mod 64) 0 @ length_bytes ?n)"
    unfolding pad by (rule blocks_append [OF length_whole])
  then have "sha256_spec msg = digest_of_state (foldl transform (foldl transform kInitialState (blocks (whole msg)))
      (blocks (?b @ [0x80] @ replicate ((119 - length ?b) mod 64) 0 @ length_bytes ?n)))"
    by (simp add: sha256_spec_def)
  then show ?thesis
    unfolding finish_blocks [OF lb, symmetric]
    using sha_bits_total [of "length msg"]
    by (simp add: digest_bytes_def sha_update_state sha_finish_def length_partial Let_def case_prod_unfold)
qed

section \<open>The digest and its text\<close>

lemma length_transform [simp]: "length st = 8 \<Longrightarrow> length (transform st block) = 8"
proof -
  assume st: "length st = 8"
  have "length (foldl sha_round w kws) = 8" if "length w = 8" for w :: "u32 list" and kws
    using that
  proof (induction kws arbitrary: w)
    case (Cons kw kws)
    have "length (sha_round w kw) = 8" by (simp add: sha_round_def Let_def)
    then show ?case using Cons.IH by simp
  qed simp
  then show ?thesis using st by (simp add: transform_def)
qed

lemma length_foldl_transform [simp]: "length st = 8 \<Longrightarrow> length (foldl transform st bs) = 8"
  by (induction bs arbitrary: st) simp_all

lemma digest_ok_digest_bytes [simp]: "digest_ok (digest_bytes msg)"
proof -
  have "length (concat (map word_bytes st)) = 4 * length st" for st
    by (induction st) (simp_all add: word_bytes_def)
  then show ?thesis
    by (simp add: digest_bytes_spec sha256_spec_def digest_ok_def digest_of_state_def kInitialState_def)
qed

interpretation digest_text: codec digest_to_string digest_from_hex digest_ok
proof unfold_locales
  fix d assume "digest_ok d"
  then show "digest_from_hex (digest_to_string d) = Some d"
    by (cases d) (simp add: digest_ok_def digest_from_hex_def digest_to_string_def)
qed

text \<open>C40: The streaming hash equals the reference on every message: buffering byte by byte, flushing a
  block at 64 bytes and padding in one or two final blocks yields the digest of the padded
  message cut into blocks (the bit count wraps at 64 bits in both), the result has 32 bytes,
  feeding a message in two parts is feeding it whole, and the hexadecimal form is read back.\<close>

theorem sha256_streaming_is_reference:
  "digest_bytes msg = sha256_spec msg \<and>
   sha_finish (sha_update (sha_update sha_init xs) ys) = sha256_spec (xs @ ys) \<and>
   length (digest_octets (digest_bytes msg)) = 32 \<and>
   digest_from_hex (digest_to_string (digest_bytes msg)) = Some (digest_bytes msg)"
proof (intro conjI)
  show "digest_bytes msg = sha256_spec msg" by (rule digest_bytes_spec)
  show "sha_finish (sha_update (sha_update sha_init xs) ys) = sha256_spec (xs @ ys)"
    by (simp add: digest_bytes_spec [symmetric] digest_bytes_def sha_update_def)
  show "length (digest_octets (digest_bytes msg)) = 32"
    using digest_ok_digest_bytes [of msg] by (simp only: digest_ok_def)
  show "digest_from_hex (digest_to_string (digest_bytes msg)) = Some (digest_bytes msg)"
    by (rule digest_text.dec_enc) simp
qed

section \<open>A test vector\<close>

text \<open>The single padded block of the message \<open>abc\<close>.\<close>

definition abc_block :: "u8 list" where
  "abc_block = [97, 98, 99, 0x80] @ replicate 59 0 @ [24]"

lemma abc_transform:
  "transform kInitialState abc_block = [0xba7816bf, 0x8f01cfea, 0x414140de, 0x5dae2223,
     0xb00361a3, 0x96177a9c, 0xb410ff61, 0xf20015ad]"
  by code_simp

lemma abc_finish: "digest_string ''abc'' = digest_of_state (transform kInitialState abc_block)"
proof -
  have "length_bytes 24 = replicate 7 0 @ [24]" by code_simp
  moreover have "replicate 59 0 = replicate 52 0 @ replicate 7 (0 :: u8)"
    unfolding replicate_add [symmetric] by simp
  ultimately show ?thesis
    unfolding digest_string_def digest_bytes_def abc_block_def
    by (simp add: sha_update_def update_byte_def sha_init_def sha_finish_def Let_def)
qed

text \<open>The published test vector: the digest of the three bytes of \<open>abc\<close>. It pins down the round
  constants, the initial state, the schedule and the round function.\<close>

theorem sha256_abc:
  "digest_to_string (digest_string ''abc'') =
     ''ba7816bf8f01cfea414140de5dae2223b00361a396177a9cb410ff61f20015ad''"
  unfolding abc_finish abc_transform by code_simp

end
