(* ===== verification/Event_Store.thy ===== *)
theory Event_Store
  imports Sha256 Ieee_Double
begin

text \<open>
  The in-memory event store of \<open>src/storage/event_store.cpp\<close> (\<open>MemoryEventStore\<close>): an
  append-only log with idempotent appends, a sequence per session and per task, an
  integrity digest per event and paged reads. The mutex makes every operation atomic,
  so an operation is a function on the store. The clock of \<open>append\<close> is an argument.
  The abstract specification is a list of the accepted requests.
\<close>

section \<open>Data\<close>

text \<open>\<open>enum class Durability : std::uint8_t\<close>: the last constructor is a value cast from an
  integer that names no enumerator, which \<open>valid_durability\<close> exists to refuse.\<close>

datatype Durability = Buffered | ProcessCrash | PowerLoss | UnnamedDurability u8

datatype EventClass = Critical | State | Diagnostic

datatype EventTimestampOrigin = AppendProcess | PersistedWall | UnavailableLegacy

record EventPayload =
  pl_type :: string
  pl_data :: string
  pl_classification :: EventClass

record EventEnvelope =
  ev_event_id :: EventId
  ev_runtime_id :: RuntimeId
  ev_session_id :: SessionId
  ev_task_id :: "TaskId option"
  ev_session_sequence :: u64
  ev_task_sequence :: "u64 option"
  ev_cause_control_sequence :: u64
  ev_timestamp :: Timestamp
  ev_schema_version :: SchemaVersion
  ev_payload :: EventPayload
  ev_integrity :: Sha256Digest
  ev_timestamp_origin :: EventTimestampOrigin

record AppendRequest =
  ar_event_id :: EventId
  ar_runtime_id :: RuntimeId
  ar_session_id :: SessionId
  ar_task_id :: "TaskId option"
  ar_payload :: EventPayload
  ar_cause :: u64
  ar_required :: Durability

record AppendReceipt =
  rc_event_id :: EventId
  rc_session_sequence :: u64
  rc_task_sequence :: "u64 option"
  rc_durable_watermark :: u64
  rc_achieved :: Durability

record EventQuery =
  eq_session_id :: SessionId
  eq_after_sequence :: "u64 option"
  eq_limit :: nat

record EventPage =
  pg_events :: "EventEnvelope list"
  pg_has_more :: bool

datatype RecoveryStatus = Clean | TailTruncated | ReadOnlyDiagnostic | RecoveryDataLoss

record StoreRecoveryReport =
  rr_status :: RecoveryStatus
  rr_events_recovered :: nat
  rr_bytes_discarded :: nat
  rr_diagnostic :: string

record MemoryEventStore =
  es_max_events :: nat
  es_events :: "EventEnvelope list"
  es_by_id :: "(EventId, nat) umap"
  es_next_session :: "(SessionId, u64) umap"
  es_next_task :: "(TaskId, u64) umap"
  es_durable_watermark :: u64

section \<open>Operations\<close>

definition store_error :: "ErrorCode \<Rightarrow> string \<Rightarrow> bool \<Rightarrow> Error" where
  "store_error code message retryable =
     error_default\<lparr>err_code := code, err_safe_message := message, err_retryable := retryable,
       err_domain := ''mira.event_store''\<rparr>"

definition valid_durability :: "Durability \<Rightarrow> bool" where
  "valid_durability d \<longleftrightarrow> d = Buffered \<or> d = ProcessCrash \<or> d = PowerLoss"

definition event_class_number :: "EventClass \<Rightarrow> int" where
  "event_class_number c = (case c of Critical \<Rightarrow> 0 | State \<Rightarrow> 1 | Diagnostic \<Rightarrow> 2)"

definition parse_event_class :: "u8 \<Rightarrow> EventClass Result" where
  "parse_event_class v =
     (if v = 0 then Inr Critical else if v = 1 then Inr State else if v = 2 then Inr Diagnostic
      else Inl (store_error ErrorCode.UnsupportedVersion ''unknown event classification'' False))"

definition envelope_default :: EventEnvelope where
  "envelope_default = \<lparr>ev_event_id = id128_nil, ev_runtime_id = id128_nil, ev_session_id = id128_nil,
     ev_task_id = None, ev_session_sequence = 0, ev_task_sequence = None,
     ev_cause_control_sequence = 0, ev_timestamp = timestamp_default,
     ev_schema_version = \<lparr>sv_major = 1, sv_minor = 0\<rparr>,
     ev_payload = \<lparr>pl_type = '''', pl_data = '''', pl_classification = State\<rparr>,
     ev_integrity = Sha256Digest (replicate 32 0), ev_timestamp_origin = AppendProcess\<rparr>"

definition canonical :: "EventEnvelope \<Rightarrow> string" where
  "canonical e =
     id128_to_string (ev_event_id e) @ ''|'' @ id128_to_string (ev_runtime_id e) @ ''|'' @
     id128_to_string (ev_session_id e) @ ''|'' @
     (case ev_task_id e of None \<Rightarrow> '''' | Some t \<Rightarrow> id128_to_string t) @ ''|'' @
     show_int (uint (ev_session_sequence e)) @ ''|'' @
     (case ev_task_sequence e of None \<Rightarrow> '''' | Some n \<Rightarrow> show_int (uint n)) @ ''|'' @
     show_int (uint (ev_cause_control_sequence e)) @ ''|'' @ pl_type (ev_payload e) @ ''|'' @
     pl_data (ev_payload e) @ ''|'' @ show_int (event_class_number (pl_classification (ev_payload e)))"

definition request_envelope :: "AppendRequest \<Rightarrow> EventEnvelope" where
  "request_envelope r =
     envelope_default\<lparr>ev_event_id := ar_event_id r, ev_runtime_id := ar_runtime_id r,
       ev_session_id := ar_session_id r, ev_task_id := ar_task_id r,
       ev_cause_control_sequence := ar_cause r, ev_payload := ar_payload r\<rparr>"

definition canonical_request :: "AppendRequest \<Rightarrow> string" where
  "canonical_request r = canonical (request_envelope r)"

definition same_request :: "EventEnvelope \<Rightarrow> AppendRequest \<Rightarrow> bool" where
  "same_request e r \<longleftrightarrow>
     ev_event_id e = ar_event_id r \<and> ev_runtime_id e = ar_runtime_id r \<and>
     ev_session_id e = ar_session_id r \<and> ev_task_id e = ar_task_id r \<and>
     ev_cause_control_sequence e = ar_cause r \<and>
     pl_type (ev_payload e) = pl_type (ar_payload r) \<and>
     pl_data (ev_payload e) = pl_data (ar_payload r) \<and>
     pl_classification (ev_payload e) = pl_classification (ar_payload r)"

definition new_store :: "nat \<Rightarrow> MemoryEventStore" where
  "new_store max_events = \<lparr>es_max_events = max_events, es_events = [], es_by_id = [],
     es_next_session = [], es_next_task = [], es_durable_watermark = 0\<rparr>"

text \<open>\<open>++counters[key]\<close>: a missing key is inserted with zero first.\<close>

definition next_number :: "'k \<Rightarrow> ('k, u64) umap \<Rightarrow> ('k, u64) umap \<times> u64" where
  "next_number k m =
     (let m = umap_emplace k 0 m; n = the (map_of m k) + 1 in (umap_modify k (\<lambda>_. n) m, n))"

definition receipt_of :: "EventEnvelope \<Rightarrow> u64 \<Rightarrow> AppendReceipt" where
  "receipt_of e watermark = \<lparr>rc_event_id = ev_event_id e,
     rc_session_sequence = ev_session_sequence e, rc_task_sequence = ev_task_sequence e,
     rc_durable_watermark = watermark, rc_achieved = Buffered\<rparr>"

definition append_new ::
    "MemoryEventStore \<Rightarrow> AppendRequest \<Rightarrow> Timestamp \<Rightarrow> EventTimestampOrigin \<Rightarrow>
     MemoryEventStore \<times> AppendReceipt" where
  "append_new s r timestamp origin =
     (let (sessions, session_sequence) = next_number (ar_session_id r) (es_next_session s);
          (tasks, task_sequence) = (case ar_task_id r of None \<Rightarrow> (es_next_task s, None)
            | Some t \<Rightarrow> map_prod id Some (next_number t (es_next_task s)));
          e = (request_envelope r)\<lparr>ev_session_sequence := session_sequence,
            ev_task_sequence := task_sequence, ev_timestamp := timestamp,
            ev_timestamp_origin := origin, ev_integrity := digest_string (canonical_request r)\<rparr>;
          index = length (es_events s);
          watermark = es_durable_watermark s + 1
      in (s\<lparr>es_events := es_events s @ [e], es_by_id := umap_emplace (ev_event_id e) index (es_by_id s),
            es_next_session := sessions, es_next_task := tasks, es_durable_watermark := watermark\<rparr>,
          receipt_of e watermark))"

definition append_stamped ::
    "MemoryEventStore \<Rightarrow> AppendRequest \<Rightarrow> Timestamp \<Rightarrow> EventTimestampOrigin \<Rightarrow>
     MemoryEventStore \<times> AppendReceipt Result" where
  "append_stamped s r timestamp origin =
     (if \<not> valid_durability (ar_required r)
      then (s, Inl (store_error ErrorCode.InvalidArgument ''event durability is invalid'' False))
      else if is_nil (ar_event_id r) \<or> is_nil (ar_runtime_id r) \<or> is_nil (ar_session_id r)
      then (s, Inl (store_error ErrorCode.InvalidArgument
             ''event, runtime, and session IDs must be non-nil'' False))
      else case map_of (es_by_id s) (ar_event_id r) of
        Some index \<Rightarrow>
          (let e = es_events s ! index in
           if same_request e r \<and> ev_integrity e = digest_string (canonical_request r)
           then (s, Inr (receipt_of e (es_durable_watermark s)))
           else (s, Inl (store_error ErrorCode.DataLoss
                  ''duplicate event ID has a different payload'' False)))
      | None \<Rightarrow>
          if length (es_events s) \<ge> es_max_events s
          then (s, Inl (store_error ErrorCode.ResourceExhausted ''event store capacity exhausted'' True))
          else map_prod id Inr (append_new s r timestamp origin))"

definition store_append ::
    "MemoryEventStore \<Rightarrow> Timestamp \<Rightarrow> AppendRequest \<Rightarrow> MemoryEventStore \<times> AppendReceipt Result" where
  "store_append s now r = append_stamped s r now AppendProcess"

text \<open>A batch stops at the first error and keeps what it appended before; every request
  comes with the clock value that its append reads.\<close>

fun append_batch ::
    "MemoryEventStore \<Rightarrow> (Timestamp \<times> AppendRequest) list \<Rightarrow>
     MemoryEventStore \<times> AppendReceipt list Result" where
  "append_batch s [] = (s, Inr [])"
| "append_batch s ((now, r) # rest) =
     (case store_append s now r of
        (s, Inl e) \<Rightarrow> (s, Inl e)
      | (s, Inr receipt) \<Rightarrow>
          (case append_batch s rest of
             (s, Inl e) \<Rightarrow> (s, Inl e)
           | (s, Inr receipts) \<Rightarrow> (s, Inr (receipt # receipts))))"

fun read_loop ::
    "SessionId \<Rightarrow> u64 \<Rightarrow> nat \<Rightarrow> EventEnvelope list \<Rightarrow> EventEnvelope list \<Rightarrow> EventPage" where
  "read_loop session after limit page [] = \<lparr>pg_events = page, pg_has_more = False\<rparr>"
| "read_loop session after limit page (e # events) =
     (if ev_session_id e \<noteq> session \<or> ev_session_sequence e \<le> after
      then read_loop session after limit page events
      else if length page = limit then \<lparr>pg_events = page, pg_has_more = True\<rparr>
      else read_loop session after limit (page @ [e]) events)"

definition store_read :: "MemoryEventStore \<Rightarrow> EventQuery \<Rightarrow> EventPage Result" where
  "store_read s q =
     Inr (read_loop (eq_session_id q) (case eq_after_sequence q of None \<Rightarrow> 0 | Some a \<Rightarrow> a)
            (eq_limit q) [] (es_events s))"

definition store_recover :: "MemoryEventStore \<Rightarrow> StoreRecoveryReport Result" where
  "store_recover s = Inr \<lparr>rr_status = Clean, rr_events_recovered = length (es_events s),
     rr_bytes_discarded = 0, rr_diagnostic = ''memory store is consistent''\<rparr>"

definition store_flush :: "Durability \<Rightarrow> unit Result" where
  "store_flush required =
     (if \<not> valid_durability required
      then Inl (store_error ErrorCode.InvalidArgument ''event durability is invalid'' False)
      else if required \<noteq> Buffered
      then Inl (store_error ErrorCode.UnsupportedCapability
             ''memory store only supports buffered durability'' False)
      else Inr ())"

definition store_size :: "MemoryEventStore \<Rightarrow> nat" where
  "store_size s = length (es_events s)"

definition store_find :: "MemoryEventStore \<Rightarrow> EventId \<Rightarrow> EventEnvelope option" where
  "store_find s i = (case map_of (es_by_id s) i of None \<Rightarrow> None
     | Some index \<Rightarrow> Some (es_events s ! index))"

section \<open>The abstract log\<close>

text \<open>The log of accepted requests. The number of an entry is its rank among the entries
  with the same key (session, or task).\<close>

type_synonym entry = "AppendRequest \<times> Timestamp \<times> EventTimestampOrigin"

definition rank :: "('e \<Rightarrow> 'k) \<Rightarrow> 'e list \<Rightarrow> nat \<Rightarrow> nat" where
  "rank key xs i = length (filter (\<lambda>e. key e = key (xs ! i)) (take (Suc i) xs))"

definition accepted_form :: "AppendRequest \<Rightarrow> AppendRequest" where
  "accepted_form r = r\<lparr>ar_required := Buffered\<rparr>"

fun log_index :: "EventId \<Rightarrow> entry list \<Rightarrow> nat option" where
  "log_index i [] = None"
| "log_index i (x # xs) = (if ar_event_id (fst x) = i then Some 0 else map_option Suc (log_index i xs))"

definition log_receipt :: "entry list \<Rightarrow> nat \<Rightarrow> AppendReceipt" where
  "log_receipt log i =
     (let r = fst (log ! i) in
      \<lparr>rc_event_id = ar_event_id r,
       rc_session_sequence = of_nat (rank (ar_session_id \<circ> fst) log i),
       rc_task_sequence = (case ar_task_id r of None \<Rightarrow> None
         | Some _ \<Rightarrow> Some (of_nat (rank (ar_task_id \<circ> fst) log i))),
       rc_durable_watermark = of_nat (length log), rc_achieved = Buffered\<rparr>)"

definition log_append ::
    "nat \<Rightarrow> entry list \<Rightarrow> AppendRequest \<Rightarrow> Timestamp \<Rightarrow> EventTimestampOrigin \<Rightarrow>
     entry list \<times> (ErrorCode + AppendReceipt)" where
  "log_append capacity log r timestamp origin =
     (if \<not> valid_durability (ar_required r) \<or> is_nil (ar_event_id r) \<or> is_nil (ar_runtime_id r) \<or>
         is_nil (ar_session_id r) then (log, Inl ErrorCode.InvalidArgument)
      else case log_index (ar_event_id r) log of
        Some i \<Rightarrow> (log, if fst (log ! i) = accepted_form r then Inr (log_receipt log i)
                        else Inl ErrorCode.DataLoss)
      | None \<Rightarrow>
          if length log \<ge> capacity then (log, Inl ErrorCode.ResourceExhausted)
          else (let log = log @ [(accepted_form r, timestamp, origin)]
                in (log, Inr (log_receipt log (length log - 1)))))"

definition entry_of :: "EventEnvelope \<Rightarrow> entry" where
  "entry_of e = (\<lparr>ar_event_id = ev_event_id e, ar_runtime_id = ev_runtime_id e,
     ar_session_id = ev_session_id e, ar_task_id = ev_task_id e, ar_payload = ev_payload e,
     ar_cause = ev_cause_control_sequence e, ar_required = Buffered\<rparr>, ev_timestamp e,
     ev_timestamp_origin e)"

definition store_log :: "MemoryEventStore \<Rightarrow> entry list" where
  "store_log s = map entry_of (es_events s)"

end
