(* ===== verification/Event_Properties.thy ===== *)
theory Event_Properties
  imports Event_Store
begin

text \<open>
  The invariant of the event store, the refinement to the abstract log, and the properties of
  appends and paged reads.
\<close>

section \<open>Counters and ranks\<close>

definition counter :: "('k, u64) umap \<Rightarrow> 'k \<Rightarrow> u64" where
  "counter m k = (case map_of m k of None \<Rightarrow> 0 | Some n \<Rightarrow> n)"

lemma next_number_counter:
  "next_number k m = (m', n) \<Longrightarrow> n = counter m k + 1 \<and> counter m' = (counter m)(k := n)"
  by (auto simp: next_number_def Let_def counter_def fun_eq_iff split: option.splits)

lemma rank_snoc_old: "i < length xs \<Longrightarrow> rank key (xs @ [x]) i = rank key xs i"
  by (simp add: rank_def nth_append)

lemma rank_snoc_new:
  "rank key (xs @ [x]) (length xs) = Suc (length (filter (\<lambda>e. key e = key x) xs))"
  by (simp add: rank_def)

lemma rank_map:
  "i < length xs \<Longrightarrow> rank key (map f xs) i = rank (key \<circ> f) xs i"
  by (simp add: rank_def take_map filter_map comp_def)

lemma rank_le: "rank key xs i \<le> length xs"
  by (simp add: rank_def) (metis length_filter_le length_take min.bounded_iff order_trans)

text \<open>The entries of one key are numbered from one in their order.\<close>

lemma ranks_of_key:
  assumes "\<forall>i<length xs. num (xs ! i) = of_nat (rank key xs i)"
  shows "map num (filter (\<lambda>e. key e = k) xs) =
    map of_nat [1..<Suc (length (filter (\<lambda>e. key e = k) xs))]"
  using assms
proof (induction xs rule: rev_induct)
  case (snoc x xs)
  have "num (xs ! i) = of_nat (rank key xs i)" if "i < length xs" for i
    using snoc.prems that by (auto simp: rank_snoc_old nth_append dest: spec [of _ i])
  then have IH: "map num (filter (\<lambda>e. key e = k) xs) =
      map of_nat [1..<Suc (length (filter (\<lambda>e. key e = k) xs))]" by (intro snoc.IH) simp
  have "num x = of_nat (Suc (length (filter (\<lambda>e. key e = key x) xs)))"
    using snoc.prems [rule_format, of "length xs"] by (simp add: rank_snoc_new)
  then show ?case using IH by (auto simp del: upt_Suc simp: upt_Suc_append)
qed simp

section \<open>The invariant\<close>

definition store_inv :: "MemoryEventStore \<Rightarrow> bool" where
  "store_inv s \<longleftrightarrow>
     distinct (map ev_event_id (es_events s)) \<and>
     (\<forall>e\<in>set (es_events s). ev_integrity e = digest_string (canonical_request (fst (entry_of e)))) \<and>
     (\<forall>e\<in>set (es_events s). \<not> is_nil (ev_event_id e) \<and> \<not> is_nil (ev_runtime_id e) \<and> \<not> is_nil (ev_session_id e)) \<and>
     (\<forall>i<length (es_events s). ev_session_sequence (es_events s ! i) =
        of_nat (rank ev_session_id (es_events s) i)) \<and>
     (\<forall>i<length (es_events s). ev_task_sequence (es_events s ! i) =
        map_option (\<lambda>_. of_nat (rank ev_task_id (es_events s) i)) (ev_task_id (es_events s ! i))) \<and>
     (\<forall>i k. map_of (es_by_id s) i = Some k \<longleftrightarrow>
        k < length (es_events s) \<and> ev_event_id (es_events s ! k) = i) \<and>
     (\<forall>k. counter (es_next_session s) k =
        of_nat (length (filter (\<lambda>e. ev_session_id e = k) (es_events s)))) \<and>
     (\<forall>k. counter (es_next_task s) k =
        of_nat (length (filter (\<lambda>e. ev_task_id e = Some k) (es_events s)))) \<and>
     length (es_events s) \<le> es_max_events s \<and>
     es_durable_watermark s = of_nat (length (es_events s))"

lemma store_inv_new: "store_inv (new_store n)"
  by (simp add: store_inv_def new_store_def counter_def)

lemma append_new_fields:
  assumes "append_new s r ts og = (s', rc)"
  obtains e where "es_events s' = es_events s @ [e]" "entry_of e = (accepted_form r, ts, og)"
    "ev_integrity e = digest_string (canonical_request r)"
    "ev_session_sequence e = counter (es_next_session s) (ar_session_id r) + 1"
    "ev_task_sequence e = map_option (\<lambda>t. counter (es_next_task s) t + 1) (ar_task_id r)"
    "counter (es_next_session s') = (counter (es_next_session s))(ar_session_id r := ev_session_sequence e)"
    "counter (es_next_task s') = (case ar_task_id r of None \<Rightarrow> counter (es_next_task s)
       | Some t \<Rightarrow> (counter (es_next_task s))(t := the (ev_task_sequence e)))"
    "es_by_id s' = umap_emplace (ar_event_id r) (length (es_events s)) (es_by_id s)"
    "es_durable_watermark s' = es_durable_watermark s + 1" "es_max_events s' = es_max_events s"
    "rc = receipt_of e (es_durable_watermark s + 1)"
proof -
  obtain m n where mn: "next_number (ar_session_id r) (es_next_session s) = (m, n)" by force
  obtain tm tn where t: "(case ar_task_id r of None \<Rightarrow> (es_next_task s, None)
            | Some t \<Rightarrow> map_prod id Some (next_number t (es_next_task s))) = (tm, tn)" by force
  have tn: "tn = map_option (\<lambda>t. counter (es_next_task s) t + 1) (ar_task_id r)"
    "counter tm = (case ar_task_id r of None \<Rightarrow> counter (es_next_task s)
       | Some t \<Rightarrow> (counter (es_next_task s))(t := the tn))"
    using t by (auto split: option.splits dest!: next_number_counter simp: map_prod_def split: prod.splits)
  let ?e = "(request_envelope r)\<lparr>ev_session_sequence := n,
            ev_task_sequence := tn, ev_timestamp := ts,
            ev_timestamp_origin := og, ev_integrity := digest_string (canonical_request r)\<rparr>"
  show ?thesis
    by (rule that [of ?e])
      (use assms mn t tn next_number_counter [OF mn] in
        \<open>auto simp: append_new_def Let_def request_envelope_def entry_of_def accepted_form_def
          split: option.splits\<close>)
qed

lemma canonical_request_accepted: "canonical_request (accepted_form r) = canonical_request r"
  by (simp add: canonical_request_def request_envelope_def accepted_form_def)

lemma store_inv_by_id_fresh:
  "store_inv s \<Longrightarrow> map_of (es_by_id s) i = None \<longleftrightarrow> i \<notin> set (map ev_event_id (es_events s))"
proof -
  assume "store_inv s"
  then have k: "map_of (es_by_id s) i = Some k \<longleftrightarrow> k < length (es_events s) \<and> ev_event_id (es_events s ! k) = i" for k
    by (simp add: store_inv_def)
  have "(\<exists>k. map_of (es_by_id s) i = Some k) \<longleftrightarrow> i \<in> set (map ev_event_id (es_events s))"
    unfolding k set_map image_iff in_set_conv_nth Bex_def by blast
  then show ?thesis by (metis not_Some_eq)
qed

lemma store_inv_append_new:
  assumes inv: "store_inv s" and fresh: "map_of (es_by_id s) (ar_event_id r) = None"
    and room: "length (es_events s) < es_max_events s"
    and ids: "\<not> is_nil (ar_event_id r)" "\<not> is_nil (ar_runtime_id r)" "\<not> is_nil (ar_session_id r)"
    and app: "append_new s r ts og = (s', rc)"
  shows "store_inv s'"
proof -
  from append_new_fields [OF app] obtain e where e: "es_events s' = es_events s @ [e]"
    "entry_of e = (accepted_form r, ts, og)"
    "ev_integrity e = digest_string (canonical_request r)"
    "ev_session_sequence e = counter (es_next_session s) (ar_session_id r) + 1"
    "ev_task_sequence e = map_option (\<lambda>t. counter (es_next_task s) t + 1) (ar_task_id r)"
    "counter (es_next_session s') = (counter (es_next_session s))(ar_session_id r := ev_session_sequence e)"
    "counter (es_next_task s') = (case ar_task_id r of None \<Rightarrow> counter (es_next_task s)
       | Some t \<Rightarrow> (counter (es_next_task s))(t := the (ev_task_sequence e)))"
    "es_by_id s' = umap_emplace (ar_event_id r) (length (es_events s)) (es_by_id s)"
    "es_durable_watermark s' = es_durable_watermark s + 1" "es_max_events s' = es_max_events s" .
  have f: "ev_event_id e = ar_event_id r" "ev_runtime_id e = ar_runtime_id r"
    "ev_session_id e = ar_session_id r" "ev_task_id e = ar_task_id r"
    using e(2) by (cases r; simp add: entry_of_def accepted_form_def)+
  note I = inv [unfolded store_inv_def]
  have new: "ar_event_id r \<notin> set (map ev_event_id (es_events s))"
    using fresh store_inv_by_id_fresh [OF inv] by simp
  show ?thesis unfolding store_inv_def
  proof (intro conjI)
    show "distinct (map ev_event_id (es_events s'))" using I new by (auto simp: e(1) f)
    show "\<forall>e\<in>set (es_events s'). ev_integrity e = digest_string (canonical_request (fst (entry_of e)))"
      using I by (auto simp: e(1,2,3) canonical_request_accepted)
    show "\<forall>e\<in>set (es_events s'). \<not> is_nil (ev_event_id e) \<and> \<not> is_nil (ev_runtime_id e) \<and> \<not> is_nil (ev_session_id e)"
      using I ids by (auto simp: e(1) f)
    show "\<forall>i<length (es_events s'). ev_session_sequence (es_events s' ! i) = of_nat (rank ev_session_id (es_events s') i)"
      using I by (auto simp: e(1,4) f less_Suc_eq rank_snoc_old rank_snoc_new nth_append)
    show "\<forall>i<length (es_events s'). ev_task_sequence (es_events s' ! i) =
        map_option (\<lambda>_. of_nat (rank ev_task_id (es_events s') i)) (ev_task_id (es_events s' ! i))"
      using I by (cases "ar_task_id r")
        (auto simp: e(1,5) f less_Suc_eq rank_snoc_old rank_snoc_new nth_append)
    show "\<forall>i k. map_of (es_by_id s') i = Some k \<longleftrightarrow>
        k < length (es_events s') \<and> ev_event_id (es_events s' ! k) = i"
    proof (intro allI)
      fix i k
      have "k < length (es_events s) \<Longrightarrow> ev_event_id (es_events s ! k) \<noteq> ar_event_id r"
        using new by (metis length_map nth_map nth_mem)
      moreover have "map_of (es_by_id s) i = Some k \<longleftrightarrow>
          k < length (es_events s) \<and> ev_event_id (es_events s ! k) = i" using I by simp
      ultimately show "map_of (es_by_id s') i = Some k \<longleftrightarrow>
          k < length (es_events s') \<and> ev_event_id (es_events s' ! k) = i"
        using fresh by (cases "i = ar_event_id r"; cases "k < length (es_events s)")
          (auto simp: e(1,8) f less_Suc_eq nth_append simp del: not_None_eq)
    qed
    show "\<forall>k. counter (es_next_session s') k = of_nat (length (filter (\<lambda>e. ev_session_id e = k) (es_events s')))"
      using I by (auto simp: e(1,4,6) f)
    show "\<forall>k. counter (es_next_task s') k = of_nat (length (filter (\<lambda>e. ev_task_id e = Some k) (es_events s')))"
      using I by (auto simp: e(1,5,7) f split: option.splits)
    show "length (es_events s') \<le> es_max_events s'" using room by (simp add: e(1,10))
    show "es_durable_watermark s' = of_nat (length (es_events s'))" using I by (simp add: e(1,9))
  qed
qed

section \<open>Refinement\<close>

lemma entry_of_fields:
  "ar_event_id (fst (entry_of e)) = ev_event_id e" "ar_session_id (fst (entry_of e)) = ev_session_id e"
  "ar_task_id (fst (entry_of e)) = ev_task_id e" "ar_runtime_id (fst (entry_of e)) = ev_runtime_id e"
  by (simp_all add: entry_of_def)

lemma same_request_accepted: "same_request e r \<longleftrightarrow> fst (entry_of e) = accepted_form r"
  by (cases r; cases "ar_payload r"; cases "ev_payload e")
    (auto simp: same_request_def entry_of_def accepted_form_def)

lemma same_request_integrity:
  assumes "store_inv s" "e \<in> set (es_events s)" "same_request e r"
  shows "ev_integrity e = digest_string (canonical_request r)"
  using assms by (auto simp: store_inv_def same_request_accepted canonical_request_accepted)

lemma log_index_find:
  assumes "distinct (map (ar_event_id \<circ> fst) log)"
  shows "log_index i log = Some k \<longleftrightarrow> k < length log \<and> ar_event_id (fst (log ! k)) = i"
  using assms
proof (induction log arbitrary: k)
  case (Cons x log)
  then have fresh: "ar_event_id (fst x) \<noteq> ar_event_id (fst (log ! j))" if "j < length log" for j
    using that by (auto simp: comp_def dest: nth_mem)
  have fresh': "ar_event_id (fst (log ! j)) \<noteq> ar_event_id (fst x)" if "j < length log" for j
    using fresh [OF that] by simp
  show ?case
    using Cons fresh fresh' by (cases k) (auto simp: comp_def)
qed simp

lemma store_log_index:
  assumes "store_inv s"
  shows "log_index i (store_log s) = map_of (es_by_id s) i"
proof -
  have "distinct (map (ar_event_id \<circ> fst) (store_log s))"
    using assms by (simp add: store_inv_def store_log_def comp_def entry_of_fields)
  from log_index_find [OF this, of i] have
    "log_index i (store_log s) = Some k \<longleftrightarrow> map_of (es_by_id s) i = Some k" for k
    using assms by (auto simp: store_inv_def store_log_def entry_of_fields)
  then show ?thesis by (metis not_Some_eq option.inject)
qed

lemma store_receipt:
  assumes "store_inv s" "i < length (es_events s)"
  shows "receipt_of (es_events s ! i) (es_durable_watermark s) = log_receipt (store_log s) i"
proof -
  have "rank (ar_session_id \<circ> fst) (store_log s) i = rank ev_session_id (es_events s) i"
    "rank (ar_task_id \<circ> fst) (store_log s) i = rank ev_task_id (es_events s) i"
    using assms(2) by (simp_all add: store_log_def rank_map comp_def entry_of_fields)
  then show ?thesis
    using assms
    by (auto simp: receipt_of_def log_receipt_def store_log_def store_inv_def entry_of_fields Let_def
        split: option.splits)
qed

text \<open>One append refines one append of the abstract log.\<close>

lemma append_stamped_refines:
  assumes inv: "store_inv s"
  shows "store_inv (fst (append_stamped s r ts og))"
    and "(store_log (fst (append_stamped s r ts og)), map_sum err_code id (snd (append_stamped s r ts og))) =
      log_append (es_max_events s) (store_log s) r ts og"
    and "es_max_events (fst (append_stamped s r ts og)) = es_max_events s"
proof -
  have goal: "store_inv (fst (append_stamped s r ts og)) \<and>
      (store_log (fst (append_stamped s r ts og)), map_sum err_code id (snd (append_stamped s r ts og))) =
      log_append (es_max_events s) (store_log s) r ts og \<and>
      es_max_events (fst (append_stamped s r ts og)) = es_max_events s"
  proof (cases "valid_durability (ar_required r) \<and> \<not> is_nil (ar_event_id r) \<and> \<not> is_nil (ar_runtime_id r) \<and>
      \<not> is_nil (ar_session_id r)")
    case False
    then show ?thesis using inv by (auto simp: append_stamped_def log_append_def store_error_def)
  next
    case ok: True
    show ?thesis
    proof (cases "map_of (es_by_id s) (ar_event_id r)")
      case (Some i)
      then have i: "i < length (es_events s)" using inv by (auto simp: store_inv_def)
      then have "same_request (es_events s ! i) r \<and>
          ev_integrity (es_events s ! i) = digest_string (canonical_request r) \<longleftrightarrow>
          fst (store_log s ! i) = accepted_form r"
        using same_request_integrity [OF inv nth_mem, of i r]
        by (auto simp: same_request_accepted store_log_def)
      then show ?thesis
        using ok Some inv store_receipt [OF inv i]
        by (auto simp: append_stamped_def log_append_def store_log_index Let_def store_error_def)
    next
      case None
      show ?thesis
      proof (cases "length (es_events s) < es_max_events s")
        case False
        then show ?thesis using ok None inv
          by (simp add: append_stamped_def log_append_def store_log_index store_error_def)
            (simp add: store_log_def)
      next
        case room: True
        obtain s' rc where app: "append_new s r ts og = (s', rc)" by force
        from append_new_fields [OF app] obtain e where e: "es_events s' = es_events s @ [e]"
          "entry_of e = (accepted_form r, ts, og)" "es_durable_watermark s' = es_durable_watermark s + 1"
          "es_max_events s' = es_max_events s" "rc = receipt_of e (es_durable_watermark s + 1)" by metis
        have inv': "store_inv s'" using store_inv_append_new [OF inv None room _ _ _ app] ok by simp
        have "rc = log_receipt (store_log s') (length (es_events s))"
          using store_receipt [OF inv', of "length (es_events s)"] by (simp add: e)
        moreover have "store_log s' = store_log s @ [(accepted_form r, ts, og)]"
          by (simp add: store_log_def e)
        moreover have "length (store_log s) = length (es_events s)" by (simp add: store_log_def)
        ultimately show ?thesis
          using ok None room app inv' inv e(4)
          by (simp add: append_stamped_def log_append_def store_log_index Let_def)
      qed
    qed
  qed
  then show "store_inv (fst (append_stamped s r ts og))"
    "(store_log (fst (append_stamped s r ts og)), map_sum err_code id (snd (append_stamped s r ts og))) =
      log_append (es_max_events s) (store_log s) r ts og"
    "es_max_events (fst (append_stamped s r ts og)) = es_max_events s" by blast+
qed

lemma store_log_fresh:
  assumes "store_inv s" "valid_durability (ar_required r)" "\<not> is_nil (ar_event_id r)" "\<not> is_nil (ar_runtime_id r)"
    "\<not> is_nil (ar_session_id r)" "log_index (ar_event_id r) (store_log s) = None" "length (store_log s) < es_max_events s"
  shows "store_log (fst (append_stamped s r ts og)) = store_log s @ [(accepted_form r, ts, og)]"
proof -
  have "fst (log_append (es_max_events s) (store_log s) r ts og) = store_log s @ [(accepted_form r, ts, og)]"
    using assms(2-) by (simp add: log_append_def Let_def)
  then show ?thesis using append_stamped_refines(2) [OF assms(1), of r ts og] by (metis fst_conv)
qed

section \<open>Reads\<close>

definition session_events :: "MemoryEventStore \<Rightarrow> SessionId \<Rightarrow> EventEnvelope list" where
  "session_events s k = filter (\<lambda>e. ev_session_id e = k) (es_events s)"

lemma read_loop_filter:
  assumes "length page \<le> limit"
  shows "read_loop k after limit page es =
    (let rest = filter (\<lambda>e. ev_session_id e = k \<and> after < ev_session_sequence e) es in
     \<lparr>pg_events = page @ take (limit - length page) rest,
      pg_has_more = limit - length page < length rest\<rparr>)"
  using assms
proof (induction es arbitrary: page)
  case (Cons e es)
  show ?case
  proof (cases "ev_session_id e = k \<and> after < ev_session_sequence e")
    case True
    show ?thesis
    proof (cases "length page = limit")
      case False
      then obtain n where n: "limit - length page = Suc n" "limit - Suc (length page) = n"
        using Cons.prems by (cases "limit - length page") auto
      moreover have "\<not> ev_session_sequence e \<le> after" using True by (simp add: not_le)
      ultimately show ?thesis using True False Cons by (simp add: Let_def)
    qed (use True in \<open>auto simp: not_le\<close>)
  next
    case False
    then show ?thesis using Cons by (auto simp: Let_def)
  qed
qed simp

lemma session_numbers:
  assumes "store_inv s" "es_max_events s < 2 ^ 64"
  shows "map (unat \<circ> ev_session_sequence) (session_events s k) = [1..<Suc (length (session_events s k))]"
proof -
  have "length (session_events s k) \<le> es_max_events s"
    using assms(1) le_trans [OF length_filter_le] by (auto simp: session_events_def store_inv_def)
  then have small: "n < 2 ^ 64" if "n < Suc (length (session_events s k))" for n
    using that assms(2) by linarith
  have "map ev_session_sequence (session_events s k) = map of_nat [1..<Suc (length (session_events s k))]"
    using assms(1) unfolding session_events_def by (intro ranks_of_key) (auto simp: store_inv_def)
  then have "map unat (map ev_session_sequence (session_events s k)) =
      map unat (map (of_nat :: nat \<Rightarrow> u64) [1..<Suc (length (session_events s k))])"
    by (rule arg_cong)
  also have "\<dots> = map (\<lambda>n. n) [1..<Suc (length (session_events s k))]"
    unfolding map_map by (rule map_cong [OF refl]) (use small in \<open>auto simp: unat_of_nat take_bit_nat_eq_self\<close>)
  finally show ?thesis by simp
qed

lemma numbered_filter:
  assumes "map num xs = [1..<Suc (length xs)]"
  shows "filter (\<lambda>x. a < num x) xs = drop a xs"
proof -
  have nth: "num (xs ! i) = Suc i" if "i < length xs" for i
  proof -
    have "map num xs ! i = [1..<Suc (length xs)] ! i" by (rule arg_cong [OF assms])
    then show ?thesis using that by (simp del: upt_Suc)
  qed
  have "filter (\<lambda>x. a < num x) (take a xs) = []"
    by (auto simp: filter_empty_conv in_set_conv_nth nth)
  moreover have "filter (\<lambda>x. a < num x) (drop a xs) = drop a xs"
    by (auto simp: filter_id_conv in_set_conv_nth nth)
  ultimately show ?thesis by (metis append_Nil append_take_drop_id filter_append)
qed

lemma store_read_page:
  assumes "store_inv s" "es_max_events s < 2 ^ 64"
  shows "store_read s q =
    (let rest = drop (unat (case eq_after_sequence q of None \<Rightarrow> 0 | Some a \<Rightarrow> a)) (session_events s (eq_session_id q))
     in Inr \<lparr>pg_events = take (eq_limit q) rest, pg_has_more = eq_limit q < length rest\<rparr>)"
proof -
  let ?a = "case eq_after_sequence q of None \<Rightarrow> 0 | Some a \<Rightarrow> a"
  have "filter (\<lambda>e. ev_session_id e = eq_session_id q \<and> ?a < ev_session_sequence e) (es_events s) =
      filter (\<lambda>e. unat ?a < (unat \<circ> ev_session_sequence) e) (session_events s (eq_session_id q))"
    by (simp add: session_events_def word_less_nat_alt conj_commute)
  also have "\<dots> = drop (unat ?a) (session_events s (eq_session_id q))"
    by (rule numbered_filter [OF session_numbers [OF assms]])
  finally show ?thesis by (simp add: store_read_def read_loop_filter Let_def)
qed

section \<open>Runs of the store\<close>

inductive store_step :: "MemoryEventStore \<Rightarrow> MemoryEventStore \<Rightarrow> bool" where
  "store_step s (fst (append_stamped s r ts og))"

inductive_cases store_stepE: "store_step s t"

text \<open>A later store extends an earlier one: the log only grows at its end.\<close>

definition extends :: "MemoryEventStore \<Rightarrow> MemoryEventStore \<Rightarrow> bool" where
  "extends s t \<longleftrightarrow> (\<exists>new. es_events t = es_events s @ new) \<and> es_max_events t = es_max_events s"

lemma append_stamped_extends: "extends s (fst (append_stamped s r ts og))"
proof -
  obtain s' rc where app: "append_new s r ts og = (s', rc)" by force
  have "extends s s'" using append_new_fields [OF app] unfolding extends_def by metis
  moreover have "extends s s" by (simp add: extends_def)
  ultimately show ?thesis
    by (auto simp: append_stamped_def app Let_def split: option.splits)
qed

interpretation store_sys: step_system store_step "\<lambda>s. \<exists>n. s = new_store n" store_inv extends
proof unfold_locales
  fix s t assume "store_step s t" "store_inv s"
  then show "store_inv t" "extends s t"
    by (auto elim!: store_stepE intro: append_stamped_refines append_stamped_extends)
next
  fix s t u assume "extends s t" "extends t u"
  then show "extends s u" by (auto simp: extends_def)
qed (auto simp: store_inv_new extends_def)

lemma append_known:
  assumes inv: "store_inv s" and i: "i < length (es_events s)" "ev_event_id (es_events s ! i) = ar_event_id r"
    and ok: "valid_durability (ar_required r)" "\<not> is_nil (ar_runtime_id r)" "\<not> is_nil (ar_session_id r)"
  shows "append_stamped s r ts og = (s,
    if same_request (es_events s ! i) r then Inr (receipt_of (es_events s ! i) (es_durable_watermark s))
    else Inl (store_error ErrorCode.DataLoss ''duplicate event ID has a different payload'' False))"
proof -
  have "map_of (es_by_id s) (ar_event_id r) = Some i" using inv i by (simp add: store_inv_def)
  moreover have "\<not> is_nil (ev_event_id (es_events s ! i))" using inv nth_mem [OF i(1)] by (simp add: store_inv_def)
  then have "\<not> is_nil (ar_event_id r)" by (simp add: i(2))
  ultimately show ?thesis
    using ok same_request_integrity [OF inv nth_mem [OF i(1)], of r] by (auto simp: append_stamped_def Let_def)
qed

lemma append_succeeded:
  assumes inv: "store_inv s" and app: "append_stamped s r ts og = (s', Inr rc)"
  obtains i where "i < length (es_events s')" "same_request (es_events s' ! i) r"
    "rc = receipt_of (es_events s' ! i) (es_durable_watermark s')"
    "valid_durability (ar_required r)" "\<not> is_nil (ar_runtime_id r)" "\<not> is_nil (ar_session_id r)"
proof -
  have ok: "valid_durability (ar_required r)" "\<not> is_nil (ar_runtime_id r)" "\<not> is_nil (ar_session_id r)"
    using app by (auto simp: append_stamped_def split: if_splits)
  show thesis
  proof (cases "map_of (es_by_id s) (ar_event_id r)")
    case (Some i)
    then have "i < length (es_events s)" using inv by (simp add: store_inv_def)
    then show ?thesis using that [of i] app Some ok
      by (auto simp: append_stamped_def Let_def split: if_splits)
  next
    case None
    then have app': "append_new s r ts og = (s', rc)"
      using app by (cases "append_new s r ts og") (auto simp: append_stamped_def split: if_splits)
    from append_new_fields [OF app'] obtain e where "es_events s' = es_events s @ [e]"
      "entry_of e = (accepted_form r, ts, og)" "es_durable_watermark s' = es_durable_watermark s + 1"
      "rc = receipt_of e (es_durable_watermark s + 1)" by metis
    then show ?thesis using that [of "length (es_events s)"] ok by (simp add: same_request_accepted)
  qed
qed

fun log_batch ::
    "nat \<Rightarrow> entry list \<Rightarrow> (Timestamp \<times> AppendRequest) list \<Rightarrow> entry list \<times> (ErrorCode + AppendReceipt list)" where
  "log_batch n log [] = (log, Inr [])"
| "log_batch n log ((now, r) # rest) =
     (case log_append n log r now AppendProcess of
        (log, Inl e) \<Rightarrow> (log, Inl e)
      | (log, Inr rc) \<Rightarrow> (case log_batch n log rest of
            (log, Inl e) \<Rightarrow> (log, Inl e) | (log, Inr rcs) \<Rightarrow> (log, Inr (rc # rcs))))"

lemma append_batch_refines:
  assumes "store_inv s"
  shows "store_inv (fst (append_batch s rs)) \<and> store_step\<^sup>*\<^sup>* s (fst (append_batch s rs)) \<and>
    (store_log (fst (append_batch s rs)), map_sum err_code id (snd (append_batch s rs))) =
      log_batch (es_max_events s) (store_log s) rs"
  using assms
proof (induction rs arbitrary: s)
  case (Cons p rs)
  obtain now r where p: "p = (now, r)" by force
  obtain t res where app: "append_stamped s r now AppendProcess = (t, res)" by force
  have inv: "store_inv t" and ref: "(store_log t, map_sum err_code id res) =
      log_append (es_max_events s) (store_log s) r now AppendProcess" and max: "es_max_events t = es_max_events s"
    using append_stamped_refines [OF Cons.prems, of r now AppendProcess] unfolding app by simp_all
  have step: "store_step s t" using store_step.intros [of s r now AppendProcess] unfolding app by simp
  show ?case
  proof (cases res)
    case (Inl e)
    then show ?thesis using inv step by (simp add: p store_append_def app ref [symmetric] r_into_rtranclp)
  next
    case (Inr rc)
    obtain u out where b: "append_batch t rs = (u, out)" by force
    have "store_step\<^sup>*\<^sup>* t u" using Cons.IH [OF inv] by (simp add: b)
    with step have "store_step\<^sup>*\<^sup>* s u" by (rule converse_rtranclp_into_rtranclp)
    moreover have "log_batch (es_max_events s) (store_log t) rs = (store_log u, map_sum err_code id out)" "store_inv u"
      using Cons.IH [OF inv] unfolding b fst_conv snd_conv max by (auto simp: id_def)
    ultimately show ?thesis
      using Inr by (cases out) (simp_all add: p store_append_def app ref [symmetric] b)
  qed
qed simp

section \<open>Properties\<close>

text \<open>C3: The store refines the abstract log: from a new store, every sequence of appends keeps the
  invariant (distinct identifiers, correct index, consecutive numbers per session and per task,
  capacity, watermark, digests), and every append and every batch changes the log and answers
  exactly as the specification does, with the same error code or the same receipt.\<close>

theorem event_store_refines_log:
  assumes "store_step\<^sup>*\<^sup>* (new_store n) s"
  shows "store_inv s \<and>
    (store_log (fst (append_stamped s r ts og)), map_sum err_code id (snd (append_stamped s r ts og))) =
      log_append n (store_log s) r ts og \<and>
    (store_log (fst (append_batch s rs)), map_sum err_code id (snd (append_batch s rs))) =
      log_batch n (store_log s) rs"
proof (intro conjI)
  show inv: "store_inv s" using assms store_sys.reachable_invariant by blast
  have n: "es_max_events s = n"
    using store_sys.steps_progress [OF assms store_inv_new] by (simp add: extends_def new_store_def)
  show "(store_log (fst (append_stamped s r ts og)), map_sum err_code id (snd (append_stamped s r ts og))) =
      log_append n (store_log s) r ts og" using append_stamped_refines(2) [OF inv] n by simp
  show "(store_log (fst (append_batch s rs)), map_sum err_code id (snd (append_batch s rs))) =
      log_batch n (store_log s) rs" using append_batch_refines [OF inv] n by simp
qed

definition demo_id :: "u8 \<Rightarrow> Id128" where
  "demo_id b = Id128 (b # replicate 15 0)"

definition demo_append :: AppendRequest where
  "demo_append = \<lparr>ar_event_id = demo_id 1, ar_runtime_id = demo_id 2, ar_session_id = demo_id 3,
     ar_task_id = Some (demo_id 4), ar_payload = \<lparr>pl_type = ''note'', pl_data = ''x'', pl_classification = State\<rparr>,
     ar_cause = 0, ar_required = ProcessCrash\<rparr>"

lemma demo_append_new:
  "append_stamped (new_store 2) demo_append timestamp_default AppendProcess =
     map_prod id Inr (append_new (new_store 2) demo_append timestamp_default AppendProcess)"
proof -
  have "\<not> is_nil (demo_id 1)" "\<not> is_nil (demo_id 2)" "\<not> is_nil (demo_id 3)" by code_simp+
  then show ?thesis
    by (simp add: append_stamped_def demo_append_def valid_durability_def new_store_def)
qed

theorem event_store_refines_log_witness:
  "store_inv (new_store 2) \<and>
   store_log (fst (append_stamped (new_store 2) demo_append timestamp_default AppendProcess)) =
     [(accepted_form demo_append, timestamp_default, AppendProcess)] \<and>
   map_sum err_code id (snd (append_batch (new_store 2) [(timestamp_default, demo_append)])) =
     snd (log_batch 2 [] [(timestamp_default, demo_append)])"
proof (intro conjI)
  note props = event_store_refines_log [OF rtranclp.rtrancl_refl, of 2]
  show "store_inv (new_store 2)" using props by simp
  have empty: "store_log (new_store 2) = []" by (simp add: store_log_def new_store_def)
  have "valid_durability (ar_required demo_append)" "\<not> is_nil (demo_id 1)" "\<not> is_nil (demo_id 2)" "\<not> is_nil (demo_id 3)"
    by code_simp+
  then have "fst (log_append 2 [] demo_append timestamp_default AppendProcess) =
      [(accepted_form demo_append, timestamp_default, AppendProcess)]"
    by (simp add: log_append_def Let_def) (simp add: demo_append_def)
  then show "store_log (fst (append_stamped (new_store 2) demo_append timestamp_default AppendProcess)) =
      [(accepted_form demo_append, timestamp_default, AppendProcess)]"
    using props [of demo_append timestamp_default AppendProcess] unfolding empty by (metis fst_conv)
  show "map_sum err_code id (snd (append_batch (new_store 2) [(timestamp_default, demo_append)])) =
     snd (log_batch 2 [] [(timestamp_default, demo_append)])"
    using props [of _ _ _ "[(timestamp_default, demo_append)]"] unfolding empty by (metis snd_conv)
qed

text \<open>Appends are idempotent for ever: once a request was accepted, appending it again after any
  number of further appends answers with the same identifier and numbers and changes nothing,
  and a request that reuses the identifier with any other content is refused with DataLoss and
  changes nothing.\<close>

theorem event_append_idempotent:
  assumes "store_step\<^sup>*\<^sup>* (new_store n) s" and "append_stamped s r ts og = (s1, Inr rc)"
    and "store_step\<^sup>*\<^sup>* s1 s2" and "ar_event_id q = ar_event_id r" and "valid_durability (ar_required q)"
    and "\<not> is_nil (ar_runtime_id q)" and "\<not> is_nil (ar_session_id q)"
  shows "append_stamped s2 q ts' og' = (s2, if accepted_form q = accepted_form r
    then Inr (rc\<lparr>rc_durable_watermark := es_durable_watermark s2\<rparr>)
    else Inl (store_error ErrorCode.DataLoss ''duplicate event ID has a different payload'' False))"
proof -
  have inv: "store_inv s" using assms(1) store_sys.reachable_invariant by blast
  then have inv1: "store_inv s1" using append_stamped_refines(1) [OF inv, of r ts og] assms(2) by simp
  have inv2: "store_inv s2" by (rule store_sys.steps_invariant [OF assms(3) inv1])
  obtain new where new: "es_events s2 = es_events s1 @ new"
    using store_sys.steps_progress [OF assms(3) inv1] by (auto simp: extends_def)
  from append_succeeded [OF inv assms(2)] obtain i where i: "i < length (es_events s1)"
    "same_request (es_events s1 ! i) r" "rc = receipt_of (es_events s1 ! i) (es_durable_watermark s1)" by metis
  have i2: "i < length (es_events s2)" "es_events s2 ! i = es_events s1 ! i" using i(1) by (simp_all add: new nth_append)
  have "ev_event_id (es_events s2 ! i) = ar_event_id q" using i(2) assms(4) by (simp add: i2 same_request_def)
  moreover have "same_request (es_events s2 ! i) q \<longleftrightarrow> accepted_form q = accepted_form r"
    using i(2) by (auto simp: i2 same_request_accepted)
  moreover have "receipt_of (es_events s2 ! i) (es_durable_watermark s2) = rc\<lparr>rc_durable_watermark := es_durable_watermark s2\<rparr>"
    by (simp add: i(3) i2 receipt_of_def)
  ultimately show ?thesis
    using append_known [OF inv2 i2(1), of q] assms(5-7) by simp
qed

theorem event_append_idempotent_witness:
  "snd (append_stamped (fst (append_new (new_store 2) demo_append timestamp_default AppendProcess))
      (demo_append\<lparr>ar_cause := 1\<rparr>) timestamp_default AppendProcess) =
    Inl (store_error ErrorCode.DataLoss ''duplicate event ID has a different payload'' False) \<and>
   snd (append_stamped (fst (append_new (new_store 2) demo_append timestamp_default AppendProcess))
      demo_append timestamp_default AppendProcess) =
    Inr (snd (append_new (new_store 2) demo_append timestamp_default AppendProcess))"
proof (intro conjI)
  let ?s1 = "fst (append_new (new_store 2) demo_append timestamp_default AppendProcess)"
    and ?rc = "snd (append_new (new_store 2) demo_append timestamp_default AppendProcess)"
  have first: "append_stamped (new_store 2) demo_append timestamp_default AppendProcess = (?s1, Inr ?rc)"
    by (simp add: demo_append_new map_prod_def case_prod_unfold)
  have ids: "\<not> is_nil (demo_id 2)" "\<not> is_nil (demo_id 3)" by code_simp+
  have again: "append_stamped ?s1 q timestamp_default AppendProcess = (?s1, if accepted_form q = accepted_form demo_append
      then Inr (?rc\<lparr>rc_durable_watermark := es_durable_watermark ?s1\<rparr>)
      else Inl (store_error ErrorCode.DataLoss ''duplicate event ID has a different payload'' False))"
    if "q = demo_append \<or> q = demo_append\<lparr>ar_cause := 1\<rparr>" for q
    by (rule event_append_idempotent [OF rtranclp.rtrancl_refl first rtranclp.rtrancl_refl])
      (use that ids in \<open>auto simp: demo_append_def valid_durability_def\<close>)
  show "snd (append_stamped ?s1 (demo_append\<lparr>ar_cause := 1\<rparr>) timestamp_default AppendProcess) =
      Inl (store_error ErrorCode.DataLoss ''duplicate event ID has a different payload'' False)"
    using again [of "demo_append\<lparr>ar_cause := 1\<rparr>"] by (simp add: accepted_form_def demo_append_def)
  have "?rc\<lparr>rc_durable_watermark := es_durable_watermark ?s1\<rparr> = ?rc"
    by (simp add: append_new_def Let_def case_prod_unfold receipt_of_def)
  then show "snd (append_stamped ?s1 demo_append timestamp_default AppendProcess) = Inr ?rc"
    using again [of demo_append] by simp
qed

text \<open>A read returns the next \<open>limit\<close> events of the session after the cursor, in order and without
  gaps, says exactly whether more follow, and reading again from the number of the last event
  returns the page that follows: paging visits every event of the session once.\<close>

theorem event_paging_complete:
  assumes "store_step\<^sup>*\<^sup>* (new_store n) s" and "n < 2 ^ 64" and "0 < limit"
    and "store_read s \<lparr>eq_session_id = k, eq_after_sequence = Some a, eq_limit = limit\<rparr> = Inr page"
    and "pg_has_more page"
  shows "pg_events page = take limit (drop (unat a) (session_events s k)) \<and>
    unat a + limit < length (session_events s k) \<and>
    store_read s \<lparr>eq_session_id = k, eq_after_sequence = Some (ev_session_sequence (last (pg_events page))),
        eq_limit = m\<rparr> =
      Inr \<lparr>pg_events = take m (drop (unat a + limit) (session_events s k)),
           pg_has_more = unat a + limit + m < length (session_events s k)\<rparr>"
proof (intro conjI)
  let ?S = "session_events s k"
  have inv: "store_inv s" using assms(1) store_sys.reachable_invariant by blast
  have max: "es_max_events s < 2 ^ 64"
    using store_sys.steps_progress [OF assms(1) store_inv_new] assms(2) by (simp add: extends_def new_store_def)
  note read = store_read_page [OF inv max]
  show ev: "pg_events page = take limit (drop (unat a) ?S)" and more: "unat a + limit < length ?S"
    using assms(4,5) by (auto simp: read Let_def)
  have "last (pg_events page) = ?S ! (unat a + limit - 1)"
    using more assms(3) by (subst ev, subst last_conv_nth) (auto simp: min_def)
  moreover have "map (unat \<circ> ev_session_sequence) ?S ! (unat a + limit - 1) = unat a + limit"
    using more assms(3) unfolding session_numbers [OF inv max] by (simp del: upt_Suc)
  ultimately have "unat (ev_session_sequence (last (pg_events page))) = unat a + limit"
    using more by simp
  then show "store_read s \<lparr>eq_session_id = k, eq_after_sequence = Some (ev_session_sequence (last (pg_events page))),
        eq_limit = m\<rparr> =
      Inr \<lparr>pg_events = take m (drop (unat a + limit) ?S), pg_has_more = unat a + limit + m < length ?S\<rparr>"
    by (simp add: read Let_def less_diff_conv add.commute)
qed

definition demo_store :: MemoryEventStore where
  "demo_store = fst (append_stamped (fst (append_stamped (new_store 5) demo_append timestamp_default AppendProcess))
     (demo_append\<lparr>ar_event_id := demo_id 9\<rparr>) timestamp_default AppendProcess)"

theorem event_paging_complete_witness:
  "unat (0 :: u64) + 1 < length (session_events demo_store (demo_id 3))"
proof -
  let ?one = "fst (append_stamped (new_store 5) demo_append timestamp_default AppendProcess)"
  have step1: "store_step (new_store 5) ?one" by (rule store_step.intros)
  have step2: "store_step ?one demo_store" unfolding demo_store_def by (rule store_step.intros)
  have steps: "store_step\<^sup>*\<^sup>* (new_store 5) demo_store" using step1 step2 by (meson rtranclp.simps)
  have inv: "store_inv demo_store" "store_inv ?one"
    using store_sys.steps_invariant [OF steps store_inv_new] append_stamped_refines(1) [OF store_inv_new] by blast+
  have max: "es_max_events ?one = 5" "es_max_events demo_store = 5"
    unfolding demo_store_def by (simp_all add: append_stamped_refines(3) store_inv_new inv(2)) (simp_all add: new_store_def)
  have ids: "\<not> is_nil (demo_id 1)" "\<not> is_nil (demo_id 2)" "\<not> is_nil (demo_id 3)" "\<not> is_nil (demo_id 9)"
    "valid_durability (ar_required demo_append)" by code_simp+
  have one: "store_log ?one = [(accepted_form demo_append, timestamp_default, AppendProcess)]"
    by (subst store_log_fresh) (use ids in \<open>simp_all add: store_inv_new, simp_all add: demo_append_def new_store_def store_log_def\<close>)
  have "store_log demo_store = store_log ?one @
      [(accepted_form (demo_append\<lparr>ar_event_id := demo_id 9\<rparr>), timestamp_default, AppendProcess)]"
    unfolding demo_store_def using ids
    by (intro store_log_fresh inv(2))
      (simp_all add: one max, simp_all add: demo_append_def accepted_form_def demo_id_def)
  then obtain e f where ef: "es_events demo_store = [e, f]" "ev_session_id e = demo_id 3" "ev_session_id f = demo_id 3"
    unfolding one by (auto simp: store_log_def entry_of_def accepted_form_def demo_append_def)
  have "[unat (ev_session_sequence e), unat (ev_session_sequence f)] = [1, 2]"
    using session_numbers [OF inv(1), of "demo_id 3"] by (simp add: max session_events_def ef)
  then have seq: "ev_session_sequence e \<noteq> 0" "ev_session_sequence f \<noteq> 0" by auto
  have "store_read demo_store \<lparr>eq_session_id = demo_id 3, eq_after_sequence = Some 0, eq_limit = 1\<rparr> =
      Inr \<lparr>pg_events = [e], pg_has_more = True\<rparr>"
    by (simp add: store_read_def ef seq)
  from event_paging_complete [OF steps _ _ this] show ?thesis by simp
qed

end
