(* ===== verification/Json_Digest.thy ===== *)
theory Json_Digest
  imports Sha256 Json
begin

text \<open>
  The digest of a JSON value (\<open>canonical_json_digest\<close> of \<open>include/mira/json.hpp\<close>), shared by the
  world state and the temporal policy, and member lookup on written objects.
\<close>

definition canonical_json_digest :: "JsonValue \<Rightarrow> Sha256Digest" where
  "canonical_json_digest v = digest_string (canonical_json_string v)"

lemma json_find_object [simp]: "json_find (JObject ms) key = map_of ms key"
  by (simp add: json_find_def)

end
