(* ===== verification/World_State.thy ===== *)
theory World_State
  imports Json_Digest
begin

text \<open>
  The session projection of \<open>src/worldstate/world_state.cpp\<close> and its wire form of
  \<open>src/worldstate/world_state_wire.cpp\<close>: beliefs about the foreground application and the
  page, the table of live entities, the ring of recent changes, the six input records, the eight
  operators, and the JSON writer and reader. An operator takes the projection by value and returns
  a new one or an error. Wall-clock arithmetic is on unbounded integers (an overflow of
  \<open>std::chrono::nanoseconds\<close> is undefined in C++). An enumeration with a fixed underlying type
  can hold a number that names no enumerator; such a value is the constructor \<open>Unnamed\<close>. The
  name arrays are never meant to be indexed by one, and \<open>nth_name\<close> is empty there.
\<close>

section \<open>Values\<close>

record RectF =
  rect_left :: double
  rect_top :: double
  rect_right :: double
  rect_bottom :: double

datatype ElementSource = UiTree | Ocr | Detector | Fused | Unknown | Unnamed u8

record ElementRef =
  er_observation_id :: ObservationId
  er_environment_epoch :: u64
  er_source :: ElementSource
  er_stable_hint :: string
  er_bounds :: RectF
  er_space :: CoordinateSpaceId
  er_evidence_digest :: Sha256Digest

record AppContext =
  ac_package_name :: string
  ac_activity_name :: string
  ac_sensitive :: bool

datatype WorldStateDomainCode =
    OptionsInvalid | StateInvalid | RecordInvalid | VocabularyViolation | PayloadTooLarge
  | SchemaUnsupported | PayloadMalformed | StaleTargetMissing

record WorldStateOptions =
  wo_max_entities :: nat
  wo_max_recent_changes :: nat
  wo_max_change_summary_bytes :: nat
  wo_stale_after :: int

datatype WorldBeliefStatus = Believed | Stale | Unknown | Unnamed u8

record WorldForegroundApp =
  fa_status :: WorldBeliefStatus
  fa_package_name :: string
  fa_activity_name :: string
  fa_sensitive :: bool
  fa_observed_at :: Timestamp

record WorldPageAssumption =
  wp_status :: WorldBeliefStatus
  wp_app_id :: string
  wp_state_id :: string
  wp_confidence :: double
  wp_recognized_at :: Timestamp

record WorldEntity =
  we_element :: ElementRef
  we_confidence :: double
  we_stale :: bool
  we_last_seen_at :: Timestamp
  we_source_event_digest :: Sha256Digest

datatype WorldChangeKind =
    PageAssumed | EntityObserved | EntityStaled | NavigationObserved | ToolSettled
  | VerificationSettled | ConflictMarked | EntityEvicted | Unnamed u8

record WorldChange =
  wc_kind :: WorldChangeKind
  wc_summary :: string
  wc_source_event_digest :: Sha256Digest
  wc_changed_at :: Timestamp
  wc_change_sequence :: u64

record WorldState =
  ws_schema_version :: SchemaVersion
  ws_foreground_app :: WorldForegroundApp
  ws_current_page :: WorldPageAssumption
  ws_entities :: "WorldEntity list"
  ws_recent_changes :: "WorldChange list"

section \<open>Input records\<close>

record WorldObservationInput =
  oi_observation_id :: ObservationId
  oi_environment_epoch :: u64
  oi_app :: AppContext
  oi_elements :: "ElementRef list"
  oi_observed_at :: Timestamp

record WorldScreenStateInput =
  si_app_id :: string
  si_state_id :: string
  si_confidence :: double
  si_recognized_at :: Timestamp

record WorldNavigationInput =
  ni_app_id :: string
  ni_from_state :: string
  ni_to_state :: string
  ni_transition_id :: string
  ni_success :: bool
  ni_confidence :: double
  ni_observed_at :: Timestamp

record WorldToolSettledInput =
  ti_tool_ref :: string
  ti_disposition :: string
  ti_source_event_digest :: Sha256Digest
  ti_settled_at :: Timestamp

record WorldVerificationInput =
  vi_outcome :: string
  vi_confidence :: double
  vi_verified_at :: Timestamp

record WorldExpiryInput =
  xi_now :: Timestamp

datatype WorldStateInput =
    ObservationInput WorldObservationInput
  | ScreenStateInput WorldScreenStateInput
  | NavigationInput WorldNavigationInput
  | ToolSettledInput WorldToolSettledInput
  | VerificationInput WorldVerificationInput
  | ExpiryInput WorldExpiryInput

section \<open>Defaults and errors\<close>

definition digest_zero :: Sha256Digest where
  "digest_zero = Sha256Digest (replicate 32 0)"

definition foreground_default :: WorldForegroundApp where
  "foreground_default = \<lparr>fa_status = WorldBeliefStatus.Unknown, fa_package_name = '''',
     fa_activity_name = '''', fa_sensitive = False, fa_observed_at = timestamp_default\<rparr>"

definition page_default :: WorldPageAssumption where
  "page_default = \<lparr>wp_status = WorldBeliefStatus.Unknown, wp_app_id = '''', wp_state_id = '''',
     wp_confidence = dbl_zero, wp_recognized_at = timestamp_default\<rparr>"

definition world_default :: WorldState where
  "world_default = \<lparr>ws_schema_version = \<lparr>sv_major = 1, sv_minor = 0\<rparr>,
     ws_foreground_app = foreground_default, ws_current_page = page_default,
     ws_entities = [], ws_recent_changes = []\<rparr>"

definition world_state_domain_code_name :: "WorldStateDomainCode \<Rightarrow> string" where
  "world_state_domain_code_name c = (case c of
      OptionsInvalid \<Rightarrow> ''OptionsInvalid''
    | StateInvalid \<Rightarrow> ''StateInvalid''
    | RecordInvalid \<Rightarrow> ''RecordInvalid''
    | VocabularyViolation \<Rightarrow> ''VocabularyViolation''
    | PayloadTooLarge \<Rightarrow> ''PayloadTooLarge''
    | SchemaUnsupported \<Rightarrow> ''SchemaUnsupported''
    | PayloadMalformed \<Rightarrow> ''PayloadMalformed''
    | StaleTargetMissing \<Rightarrow> ''StaleTargetMissing'')"

definition domain_code_number :: "WorldStateDomainCode \<Rightarrow> int" where
  "domain_code_number c = (case c of
      OptionsInvalid \<Rightarrow> 1 | StateInvalid \<Rightarrow> 2 | RecordInvalid \<Rightarrow> 3 | VocabularyViolation \<Rightarrow> 4
    | PayloadTooLarge \<Rightarrow> 5 | SchemaUnsupported \<Rightarrow> 6 | PayloadMalformed \<Rightarrow> 7 | StaleTargetMissing \<Rightarrow> 8)"

definition make_world_state_error :: "WorldStateDomainCode \<Rightarrow> string \<Rightarrow> Error" where
  "make_world_state_error code detail =
     error_default\<lparr>err_code := (case code of
         PayloadTooLarge \<Rightarrow> ErrorCode.ResourceExhausted
       | SchemaUnsupported \<Rightarrow> ErrorCode.UnsupportedVersion
       | StaleTargetMissing \<Rightarrow> ErrorCode.InvalidState
       | _ \<Rightarrow> ErrorCode.InvalidArgument),
       err_domain := ''mira.world_state'', err_domain_code := domain_code_number code,
       err_retryable := False, err_safe_message := detail\<rparr>"

abbreviation world_fail :: "WorldStateDomainCode \<Rightarrow> string \<Rightarrow> 'a Result" where
  "world_fail code detail \<equiv> Inl (make_world_state_error code detail)"

section \<open>Validation\<close>

definition kDispositions :: "string list" where
  "kDispositions = [''completed'', ''skipped'', ''failed'', ''stale'']"

definition kOutcomes :: "string list" where
  "kOutcomes = [''confirmed'', ''refuted'', ''inconclusive'']"

definition kToolRefMaxBytes :: nat where
  "kToolRefMaxBytes = 256"

definition confidence_in_range :: "double \<Rightarrow> bool" where
  "confidence_in_range c \<longleftrightarrow> dbl_isfinite c \<and> dbl_le dbl_zero c \<and> dbl_le c dbl_one"

definition validate_options :: "WorldStateOptions \<Rightarrow> unit Result" where
  "validate_options o' =
     (if wo_max_entities o' = 0 \<or> wo_max_recent_changes o' = 0 \<or> wo_max_change_summary_bytes o' = 0
      then world_fail OptionsInvalid ''world state option capacities must be positive''
      else Inr ())"

definition belief_named :: "WorldBeliefStatus \<Rightarrow> bool" where
  "belief_named s \<longleftrightarrow> (case s of WorldBeliefStatus.Unnamed _ \<Rightarrow> False | _ \<Rightarrow> True)"

definition source_named :: "ElementSource \<Rightarrow> bool" where
  "source_named s \<longleftrightarrow> (case s of ElementSource.Unnamed _ \<Rightarrow> False | _ \<Rightarrow> True)"

definition kind_named :: "WorldChangeKind \<Rightarrow> bool" where
  "kind_named k \<longleftrightarrow> (case k of WorldChangeKind.Unnamed _ \<Rightarrow> False | _ \<Rightarrow> True)"

definition validate_foreground :: "WorldForegroundApp \<Rightarrow> unit Result" where
  "validate_foreground f =
     (if \<not> belief_named (fa_status f)
      then world_fail StateInvalid ''foreground status is outside the belief closed set''
      else if (fa_status f = WorldBeliefStatus.Unknown) \<noteq> (fa_package_name f = '''')
      then world_fail StateInvalid ''foreground Unknown <=> empty package_name violated''
      else Inr ())"

definition validate_page :: "WorldPageAssumption \<Rightarrow> unit Result" where
  "validate_page p =
     (if \<not> belief_named (wp_status p)
      then world_fail StateInvalid ''page status is outside the belief closed set''
      else if wp_status p = WorldBeliefStatus.Unknown
      then (if wp_app_id p \<noteq> '''' \<or> wp_state_id p \<noteq> '''' \<or> \<not> dbl_eq (wp_confidence p) dbl_zero
            then world_fail StateInvalid ''page Unknown requires empty pair and zero confidence''
            else Inr ())
      else if wp_app_id p = '''' \<or> wp_state_id p = ''''
      then world_fail StateInvalid ''non-Unknown page requires a non-empty pair''
      else if \<not> confidence_in_range (wp_confidence p)
      then world_fail StateInvalid ''page confidence outside [0,1]''
      else Inr ())"

definition validate_entity :: "WorldEntity \<Rightarrow> unit Result" where
  "validate_entity e =
     (if is_nil (er_observation_id (we_element e))
      then world_fail StateInvalid ''entity element observation_id is nil''
      else if is_nil (er_space (we_element e))
      then world_fail StateInvalid ''entity element space is invalid''
      else if \<not> source_named (er_source (we_element e))
      then world_fail StateInvalid ''entity element source is outside the closed set''
      else if \<not> confidence_in_range (we_confidence e)
      then world_fail StateInvalid ''entity confidence outside [0,1]''
      else Inr ())"

text \<open>The loop over the changes; the argument is the sequence of the previous entry.\<close>

fun validate_changes :: "u64 option \<Rightarrow> WorldChange list \<Rightarrow> unit Result" where
  "validate_changes previous [] = Inr ()"
| "validate_changes previous (c # cs) =
     (if \<not> kind_named (wc_kind c) then world_fail StateInvalid ''change kind is outside the closed set''
      else if (case previous of None \<Rightarrow> False | Some n \<Rightarrow> wc_change_sequence c \<le> n)
      then world_fail StateInvalid ''change_sequence regression''
      else validate_changes (Some (wc_change_sequence c)) cs)"

definition validate_world :: "WorldState \<Rightarrow> unit Result" where
  "validate_world s =
     res_bind (validate_foreground (ws_foreground_app s)) (\<lambda>_.
     res_bind (validate_page (ws_current_page s)) (\<lambda>_.
     res_bind (check_all validate_entity (ws_entities s)) (\<lambda>_.
     validate_changes None (ws_recent_changes s))))"

section \<open>JSON of elements and input records\<close>

definition kBeliefNames :: "string list" where
  "kBeliefNames = [''believed'', ''stale'', ''unknown'']"

definition kChangeKindNames :: "string list" where
  "kChangeKindNames = [''pageassumed'', ''entityobserved'', ''entitystaled'', ''navigationobserved'',
     ''toolsettled'', ''verificationsettled'', ''conflictmarked'', ''entityevicted'']"

definition kElementSourceNames :: "string list" where
  "kElementSourceNames = [''UiTree'', ''Ocr'', ''Detector'', ''Fused'', ''Unknown'']"

definition all_beliefs :: "WorldBeliefStatus list" where
  "all_beliefs = [Believed, Stale, WorldBeliefStatus.Unknown]"

definition all_kinds :: "WorldChangeKind list" where
  "all_kinds = [PageAssumed, EntityObserved, EntityStaled, NavigationObserved, ToolSettled,
     VerificationSettled, ConflictMarked, EntityEvicted]"

definition all_sources :: "ElementSource list" where
  "all_sources = [UiTree, Ocr, Detector, Fused, ElementSource.Unknown]"

definition json_int :: "u64 \<Rightarrow> JsonValue" where
  "json_int v = JInteger (sint v)"

definition wall_ns :: "Timestamp \<Rightarrow> JsonValue" where
  "wall_ns t = JInteger (ts_wall t)"

definition element_to_json :: "ElementRef \<Rightarrow> JsonValue" where
  "element_to_json e = JObject
     [(''bounds'', JObject
        [(''bottom'', JNumber (rect_bottom (er_bounds e))), (''left'', JNumber (rect_left (er_bounds e))),
         (''right'', JNumber (rect_right (er_bounds e))), (''top'', JNumber (rect_top (er_bounds e)))]),
      (''environment_epoch'', json_int (er_environment_epoch e)),
      (''evidence_digest'', JString (digest_to_string (er_evidence_digest e))),
      (''observation_id'', JString (id128_to_string (er_observation_id e))),
      (''source'', JString (nth_name all_sources kElementSourceNames (er_source e))),
      (''space'', JString (id128_to_string (er_space e))),
      (''stable_hint'', JString (er_stable_hint e))]"

definition observation_digest :: "WorldObservationInput \<Rightarrow> Sha256Digest" where
  "observation_digest i = canonical_json_digest (JObject
     [(''app'', JObject
        [(''activity_name'', JString (ac_activity_name (oi_app i))),
         (''package_name'', JString (ac_package_name (oi_app i))),
         (''sensitive'', JBoolean (ac_sensitive (oi_app i)))]),
      (''elements'', JArray (map element_to_json (oi_elements i))),
      (''environment_epoch'', json_int (oi_environment_epoch i)),
      (''observation_id'', JString (id128_to_string (oi_observation_id i))),
      (''observed_at'', wall_ns (oi_observed_at i))])"

definition screen_state_digest :: "WorldScreenStateInput \<Rightarrow> Sha256Digest" where
  "screen_state_digest i = canonical_json_digest (JObject
     [(''app_id'', JString (si_app_id i)), (''confidence'', JNumber (si_confidence i)),
      (''recognized_at'', wall_ns (si_recognized_at i)), (''state_id'', JString (si_state_id i))])"

definition navigation_digest :: "WorldNavigationInput \<Rightarrow> Sha256Digest" where
  "navigation_digest i = canonical_json_digest (JObject
     [(''app_id'', JString (ni_app_id i)), (''confidence'', JNumber (ni_confidence i)),
      (''from_state'', JString (ni_from_state i)), (''observed_at'', wall_ns (ni_observed_at i)),
      (''success'', JBoolean (ni_success i)), (''to_state'', JString (ni_to_state i)),
      (''transition_id'', JString (ni_transition_id i))])"

definition tool_settled_digest :: "WorldToolSettledInput \<Rightarrow> Sha256Digest" where
  "tool_settled_digest i = canonical_json_digest (JObject
     [(''disposition'', JString (ti_disposition i)), (''settled_at'', wall_ns (ti_settled_at i)),
      (''source_event_digest'', JString (digest_to_string (ti_source_event_digest i))),
      (''tool_ref'', JString (ti_tool_ref i))])"

definition verification_digest :: "WorldVerificationInput \<Rightarrow> Sha256Digest" where
  "verification_digest i = canonical_json_digest (JObject
     [(''confidence'', JNumber (vi_confidence i)), (''outcome'', JString (vi_outcome i)),
      (''verified_at'', wall_ns (vi_verified_at i))])"

definition expiry_digest :: "WorldExpiryInput \<Rightarrow> Sha256Digest" where
  "expiry_digest i = canonical_json_digest (JObject [(''now'', wall_ns (xi_now i))])"

section \<open>The change ring\<close>

definition make_change :: "WorldState \<Rightarrow> WorldChangeKind \<Rightarrow> string \<Rightarrow> Sha256Digest \<Rightarrow> Timestamp \<Rightarrow> WorldChange" where
  "make_change s kind summary source at =
     \<lparr>wc_kind = kind, wc_summary = summary, wc_source_event_digest = source, wc_changed_at = at,
      wc_change_sequence = (if ws_recent_changes s = [] then 1
        else wc_change_sequence (last (ws_recent_changes s)) + 1)\<rparr>"

definition push_change :: "nat \<Rightarrow> WorldChange \<Rightarrow> WorldChange list \<Rightarrow> WorldChange list" where
  "push_change capacity c cs = (let cs = cs @ [c] in if length cs > capacity then tl cs else cs)"

definition append_change_unchecked ::
    "WorldStateOptions \<Rightarrow> WorldChangeKind \<Rightarrow> string \<Rightarrow> Sha256Digest \<Rightarrow> Timestamp \<Rightarrow> WorldState \<Rightarrow> WorldState" where
  "append_change_unchecked o' kind summary source at s =
     s\<lparr>ws_recent_changes := push_change (wo_max_recent_changes o')
         (make_change s kind summary source at) (ws_recent_changes s)\<rparr>"

definition append_change ::
    "WorldStateOptions \<Rightarrow> WorldChangeKind \<Rightarrow> string \<Rightarrow> Sha256Digest \<Rightarrow> Timestamp \<Rightarrow> WorldState \<Rightarrow> WorldState Result" where
  "append_change o' kind summary source at s =
     (if length summary > wo_max_change_summary_bytes o'
      then world_fail PayloadTooLarge ''change summary exceeds max_change_summary_bytes''
      else Inr (s\<lparr>ws_recent_changes := push_change (wo_max_recent_changes o')
             (make_change s kind summary source at) (ws_recent_changes s)\<rparr>))"

section \<open>Eviction\<close>

definition same_rect :: "RectF \<Rightarrow> RectF \<Rightarrow> bool" where
  "same_rect l r \<longleftrightarrow> dbl_eq (rect_left l) (rect_left r) \<and> dbl_eq (rect_top l) (rect_top r) \<and>
     dbl_eq (rect_right l) (rect_right r) \<and> dbl_eq (rect_bottom l) (rect_bottom r)"

definition same_element :: "ElementRef \<Rightarrow> ElementRef \<Rightarrow> bool" where
  "same_element l r \<longleftrightarrow>
     er_observation_id l = er_observation_id r \<and> er_environment_epoch l = er_environment_epoch r \<and>
     er_source l = er_source r \<and> er_stable_hint l = er_stable_hint r \<and>
     same_rect (er_bounds l) (er_bounds r) \<and> er_space l = er_space r \<and>
     er_evidence_digest l = er_evidence_digest r"

definition evicts_before :: "WorldEntity \<Rightarrow> WorldEntity \<Rightarrow> bool" where
  "evicts_before l r =
     (if we_stale l \<noteq> we_stale r then we_stale l
      else if ts_wall (we_last_seen_at l) \<noteq> ts_wall (we_last_seen_at r)
      then ts_wall (we_last_seen_at l) < ts_wall (we_last_seen_at r)
      else if \<not> dbl_eq (we_confidence l) (we_confidence r)
      then dbl_lt (we_confidence l) (we_confidence r)
      else canonical_json_string (element_to_json (we_element l)) <
           canonical_json_string (element_to_json (we_element r)))"

text \<open>\<open>std::min_element\<close>: the index of the first element that no other one precedes in the scan.\<close>

fun min_scan :: "('a \<Rightarrow> 'a \<Rightarrow> bool) \<Rightarrow> nat \<Rightarrow> 'a \<Rightarrow> nat \<Rightarrow> 'a list \<Rightarrow> nat" where
  "min_scan lt k smallest i [] = k"
| "min_scan lt k smallest i (x # xs) =
     (if lt x smallest then min_scan lt i x (Suc i) xs else min_scan lt k smallest (Suc i) xs)"

definition min_element :: "('a \<Rightarrow> 'a \<Rightarrow> bool) \<Rightarrow> 'a list \<Rightarrow> nat" where
  "min_element lt xs = (case xs of [] \<Rightarrow> 0 | y # ys \<Rightarrow> min_scan lt 0 y 1 ys)"

definition eviction_candidate :: "WorldState \<Rightarrow> nat" where
  "eviction_candidate s = min_element evicts_before (ws_entities s)"

definition erase_at :: "nat \<Rightarrow> 'a list \<Rightarrow> 'a list" where
  "erase_at i xs = take i xs @ drop (Suc i) xs"

definition evicted_summary :: "WorldEntity \<Rightarrow> string" where
  "evicted_summary e = ''entity evicted observation_id='' @ id128_to_string (er_observation_id (we_element e))"

definition evict_one ::
    "WorldStateOptions \<Rightarrow> Sha256Digest \<Rightarrow> Timestamp \<Rightarrow> WorldState \<Rightarrow> WorldState Result" where
  "evict_one o' cause at s =
     (let victim = eviction_candidate s in
      res_bind (append_change o' EntityEvicted (evicted_summary (ws_entities s ! victim)) cause at s)
        (\<lambda>t. Inr (t\<lparr>ws_entities := erase_at victim (ws_entities t)\<rparr>)))"

text \<open>The loop \<open>while (entities.size() >= max_entities)\<close>. An eviction removes one entity, so the
  number of entities bounds the rounds.\<close>

primrec evict_rounds ::
    "nat \<Rightarrow> WorldStateOptions \<Rightarrow> Sha256Digest \<Rightarrow> Timestamp \<Rightarrow> WorldState \<Rightarrow> WorldState Result" where
  "evict_rounds 0 o' cause at s = Inr s"
| "evict_rounds (Suc n) o' cause at s =
     (if length (ws_entities s) \<ge> wo_max_entities o'
      then res_bind (evict_one o' cause at s) (evict_rounds n o' cause at)
      else Inr s)"

definition evict_while_full ::
    "WorldStateOptions \<Rightarrow> Sha256Digest \<Rightarrow> Timestamp \<Rightarrow> WorldState \<Rightarrow> WorldState Result" where
  "evict_while_full o' cause at s = evict_rounds (length (ws_entities s)) o' cause at s"

section \<open>Operators\<close>

definition same_foreground_content :: "WorldForegroundApp \<Rightarrow> WorldForegroundApp \<Rightarrow> bool" where
  "same_foreground_content l r \<longleftrightarrow> fa_status l = fa_status r \<and> fa_package_name l = fa_package_name r \<and>
     fa_activity_name l = fa_activity_name r \<and> fa_sensitive l = fa_sensitive r"

definition check_element :: "ElementRef \<Rightarrow> unit Result" where
  "check_element e =
     (if is_nil (er_observation_id e)
      then world_fail VocabularyViolation ''observation element observation_id is nil''
      else if is_nil (er_space e)
      then world_fail VocabularyViolation ''observation element space is invalid''
      else Inr ())"

definition desired_foreground :: "WorldObservationInput \<Rightarrow> WorldForegroundApp" where
  "desired_foreground i =
     (if ac_package_name (oi_app i) = '''' then foreground_default
      else \<lparr>fa_status = Believed, fa_package_name = ac_package_name (oi_app i),
        fa_activity_name = ac_activity_name (oi_app i), fa_sensitive = ac_sensitive (oi_app i),
        fa_observed_at = oi_observed_at i\<rparr>)"

definition foreground_summary :: "WorldForegroundApp \<Rightarrow> string" where
  "foreground_summary f =
     (if fa_status f = WorldBeliefStatus.Unknown then ''foreground unknown''
      else ''foreground '' @ fa_package_name f @ ''/'' @ fa_activity_name f @
        (if fa_sensitive f then '' sensitive'' else ''''))"

definition update_foreground ::
    "WorldStateOptions \<Rightarrow> WorldObservationInput \<Rightarrow> Sha256Digest \<Rightarrow> WorldState \<Rightarrow> WorldState Result" where
  "update_foreground o' i d s =
     (let desired = desired_foreground i; t = s\<lparr>ws_foreground_app := desired\<rparr> in
      if same_foreground_content (ws_foreground_app s) desired then Inr t
      else append_change o' PageAssumed (foreground_summary desired) d (oi_observed_at i) t)"

fun find_index :: "('a \<Rightarrow> bool) \<Rightarrow> 'a list \<Rightarrow> nat option" where
  "find_index p [] = None"
| "find_index p (x # xs) = (if p x then Some 0 else map_option Suc (find_index p xs))"

text \<open>One round of the element loop, with the counts of added and refreshed entities.\<close>

definition observe_element ::
    "WorldStateOptions \<Rightarrow> Timestamp \<Rightarrow> Sha256Digest \<Rightarrow> WorldState \<times> nat \<times> nat \<Rightarrow> ElementRef \<Rightarrow>
     (WorldState \<times> nat \<times> nat) Result" where
  "observe_element o' at d acc element =
     (let (s, added, refreshed) = acc;
          fresh = \<lparr>we_element = element, we_confidence = dbl_one, we_stale = False,
            we_last_seen_at = at, we_source_event_digest = d\<rparr>
      in case find_index (\<lambda>e. same_element (we_element e) element) (ws_entities s) of
        Some k \<Rightarrow>
          Inr (s\<lparr>ws_entities := (ws_entities s)[k := (ws_entities s ! k)\<lparr>we_confidence := dbl_one,
            we_stale := False, we_last_seen_at := at, we_source_event_digest := d\<rparr>]\<rparr>, added, Suc refreshed)
      | None \<Rightarrow>
          res_bind (evict_while_full o' d at s) (\<lambda>t.
            Inr (t\<lparr>ws_entities := ws_entities t @ [fresh]\<rparr>, Suc added, refreshed)))"

definition observed_summary :: "nat \<Rightarrow> nat \<Rightarrow> string" where
  "observed_summary added refreshed =
     ''entities added='' @ show_int (int added) @ '' refreshed='' @ show_int (int refreshed)"

definition apply_world_observation ::
    "WorldState \<Rightarrow> WorldObservationInput \<Rightarrow> WorldStateOptions \<Rightarrow> WorldState Result" where
  "apply_world_observation s i o' =
     res_bind (validate_options o') (\<lambda>_.
     if is_nil (oi_observation_id i)
     then world_fail VocabularyViolation ''observation input observation_id is nil''
     else res_bind (check_all check_element (oi_elements i)) (\<lambda>_.
     if length (oi_elements i) > wo_max_entities o'
     then world_fail RecordInvalid ''observation elements exceed options.max_entities''
     else (let d = observation_digest i in
     res_bind (update_foreground o' i d s) (\<lambda>t.
     res_bind (fold_res (observe_element o' (oi_observed_at i) d) (t, 0, 0) (oi_elements i))
       (\<lambda>(u, added, refreshed).
         if added + refreshed > 0
         then append_change o' EntityObserved (observed_summary added refreshed) d (oi_observed_at i) u
         else Inr u)))))"

definition apply_screen_state ::
    "WorldState \<Rightarrow> WorldScreenStateInput \<Rightarrow> WorldStateOptions \<Rightarrow> WorldState Result" where
  "apply_screen_state s i o' =
     res_bind (validate_options o') (\<lambda>_.
     if si_app_id i = '''' then world_fail VocabularyViolation ''screen state input app_id is empty''
     else if si_state_id i = '''' then world_fail VocabularyViolation ''screen state input state_id is empty''
     else if \<not> confidence_in_range (si_confidence i)
     then world_fail RecordInvalid ''screen state input confidence outside [0,1]''
     else append_change o' PageAssumed (''page '' @ si_app_id i @ ''/'' @ si_state_id i)
       (screen_state_digest i) (si_recognized_at i)
       (s\<lparr>ws_current_page := \<lparr>wp_status = Believed, wp_app_id = si_app_id i, wp_state_id = si_state_id i,
          wp_confidence = si_confidence i, wp_recognized_at = si_recognized_at i\<rparr>\<rparr>))"

definition navigation_conflict :: "WorldState \<Rightarrow> WorldNavigationInput \<Rightarrow> bool" where
  "navigation_conflict s i \<longleftrightarrow>
     wp_status (ws_current_page s) \<noteq> WorldBeliefStatus.Unknown \<and>
     (wp_app_id (ws_current_page s) \<noteq> ni_app_id i \<or> wp_state_id (ws_current_page s) \<noteq> ni_from_state i)"

definition navigated_page :: "WorldNavigationInput \<Rightarrow> WorldPageAssumption \<Rightarrow> WorldPageAssumption" where
  "navigated_page i p =
     (if ni_success i
      then \<lparr>wp_status = Believed, wp_app_id = ni_app_id i, wp_state_id = ni_to_state i,
        wp_confidence = ni_confidence i, wp_recognized_at = ni_observed_at i\<rparr>
      else if wp_status p \<noteq> WorldBeliefStatus.Unknown then p\<lparr>wp_status := Stale\<rparr>
      else p)"

definition apply_navigation ::
    "WorldState \<Rightarrow> WorldNavigationInput \<Rightarrow> WorldStateOptions \<Rightarrow> WorldState Result" where
  "apply_navigation s i o' =
     res_bind (validate_options o') (\<lambda>_.
     if ni_app_id i = '''' then world_fail VocabularyViolation ''navigation input app_id is empty''
     else if ni_from_state i = '''' then world_fail VocabularyViolation ''navigation input from_state is empty''
     else if ni_to_state i = '''' then world_fail VocabularyViolation ''navigation input to_state is empty''
     else if \<not> confidence_in_range (ni_confidence i)
     then world_fail RecordInvalid ''navigation input confidence outside [0,1]''
     else (let d = navigation_digest i in
     res_bind (if navigation_conflict s i
       then append_change o' ConflictMarked
         (''conflict projected='' @ wp_app_id (ws_current_page s) @ ''/'' @ wp_state_id (ws_current_page s) @
          '' claimed='' @ ni_app_id i @ ''/'' @ ni_from_state i) d (ni_observed_at i) s
       else Inr s) (\<lambda>t.
     append_change o' NavigationObserved
       (''navigation '' @ ni_app_id i @ '' '' @ ni_from_state i @ ''->'' @ ni_to_state i @
        (if ni_success i then '' success'' else '' failed''))
       d (ni_observed_at i) (t\<lparr>ws_current_page := navigated_page i (ws_current_page t)\<rparr>))))"

definition apply_tool_settled ::
    "WorldState \<Rightarrow> WorldToolSettledInput \<Rightarrow> WorldStateOptions \<Rightarrow> WorldState Result" where
  "apply_tool_settled s i o' =
     res_bind (validate_options o') (\<lambda>_.
     if ti_tool_ref i = '''' then world_fail VocabularyViolation ''tool settle input tool_ref is empty''
     else if length (ti_tool_ref i) > kToolRefMaxBytes
     then world_fail VocabularyViolation ''tool settle input tool_ref exceeds 256 bytes''
     else if ti_disposition i \<notin> set kDispositions
     then world_fail RecordInvalid ''tool settle disposition is outside the closed set''
     else append_change o' ToolSettled (''tool settled '' @ ti_disposition i @ '' '' @ ti_tool_ref i)
       (tool_settled_digest i) (ti_settled_at i) s)"

definition verified_page :: "WorldVerificationInput \<Rightarrow> WorldPageAssumption \<Rightarrow> WorldPageAssumption" where
  "verified_page i p =
     (if vi_outcome i = ''confirmed'' \<or> vi_outcome i = ''refuted''
      then p\<lparr>wp_status := (if vi_outcome i = ''confirmed'' then Believed else Stale),
        wp_confidence := vi_confidence i, wp_recognized_at := vi_verified_at i\<rparr>
      else p)"

definition apply_verification ::
    "WorldState \<Rightarrow> WorldVerificationInput \<Rightarrow> WorldStateOptions \<Rightarrow> WorldState Result" where
  "apply_verification s i o' =
     res_bind (validate_options o') (\<lambda>_.
     if vi_outcome i \<notin> set kOutcomes
     then world_fail RecordInvalid ''verification outcome is outside the closed set''
     else if \<not> confidence_in_range (vi_confidence i)
     then world_fail RecordInvalid ''verification confidence outside [0,1]''
     else if wp_status (ws_current_page s) = WorldBeliefStatus.Unknown
     then world_fail StaleTargetMissing ''verification target page is Unknown''
     else append_change o' VerificationSettled (''verification '' @ vi_outcome i)
       (verification_digest i) (vi_verified_at i)
       (s\<lparr>ws_current_page := verified_page i (ws_current_page s)\<rparr>))"

definition staleness_bound :: "WorldStateOptions \<Rightarrow> int" where
  "staleness_bound o' = wo_stale_after o' * 1000000"

definition entity_expired :: "WorldStateOptions \<Rightarrow> Timestamp \<Rightarrow> WorldEntity \<Rightarrow> bool" where
  "entity_expired o' now e \<longleftrightarrow>
     \<not> (we_stale e \<or> ts_wall now - ts_wall (we_last_seen_at e) \<le> staleness_bound o')"

definition expire_entity ::
    "WorldStateOptions \<Rightarrow> Sha256Digest \<Rightarrow> Timestamp \<Rightarrow> WorldState \<Rightarrow> nat \<Rightarrow> WorldState Result" where
  "expire_entity o' d now s index =
     (let e = ws_entities s ! index in
      if \<not> entity_expired o' now e then Inr s
      else append_change o' EntityStaled
        (''entity staled observation_id='' @ id128_to_string (er_observation_id (we_element e))) d now
        (s\<lparr>ws_entities := (ws_entities s)[index := e\<lparr>we_stale := True,
           we_confidence := dbl_half (we_confidence e)\<rparr>]\<rparr>))"

definition page_expired :: "WorldStateOptions \<Rightarrow> Timestamp \<Rightarrow> WorldPageAssumption \<Rightarrow> bool" where
  "page_expired o' now p \<longleftrightarrow> wp_status p = Believed \<and>
     ts_wall now - ts_wall (wp_recognized_at p) > staleness_bound o'"

definition expire_page ::
    "WorldStateOptions \<Rightarrow> Sha256Digest \<Rightarrow> Timestamp \<Rightarrow> WorldState \<Rightarrow> WorldState Result" where
  "expire_page o' d now s =
     (let p = ws_current_page s in
      if \<not> page_expired o' now p then Inr s
      else append_change o' EntityStaled (''page staled '' @ wp_app_id p @ ''/'' @ wp_state_id p) d now
        (s\<lparr>ws_current_page := p\<lparr>wp_status := Stale, wp_confidence := dbl_half (wp_confidence p)\<rparr>\<rparr>))"

definition apply_expiry ::
    "WorldState \<Rightarrow> WorldExpiryInput \<Rightarrow> WorldStateOptions \<Rightarrow> WorldState Result" where
  "apply_expiry s i o' =
     res_bind (validate_options o') (\<lambda>_.
     (let d = expiry_digest i in
      res_bind (fold_res (expire_entity o' d (xi_now i)) s [0..<length (ws_entities s)])
        (expire_page o' d (xi_now i))))"

primrec prune_rounds :: "nat \<Rightarrow> WorldStateOptions \<Rightarrow> WorldState \<Rightarrow> WorldState" where
  "prune_rounds 0 o' s = s"
| "prune_rounds (Suc n) o' s =
     (if length (ws_entities s) > wo_max_entities o'
      then (let victim = eviction_candidate s;
                t = append_change_unchecked o' EntityEvicted (evicted_summary (ws_entities s ! victim))
                  digest_zero timestamp_default s
            in prune_rounds n o' (t\<lparr>ws_entities := erase_at victim (ws_entities t)\<rparr>))
      else s)"

definition prune_entities :: "WorldState \<Rightarrow> WorldStateOptions \<Rightarrow> WorldState" where
  "prune_entities s o' = prune_rounds (length (ws_entities s)) o' s"

definition apply_input :: "WorldStateOptions \<Rightarrow> WorldState \<Rightarrow> WorldStateInput \<Rightarrow> WorldState Result" where
  "apply_input o' s input = (case input of
      ObservationInput i \<Rightarrow> apply_world_observation s i o'
    | ScreenStateInput i \<Rightarrow> apply_screen_state s i o'
    | NavigationInput i \<Rightarrow> apply_navigation s i o'
    | ToolSettledInput i \<Rightarrow> apply_tool_settled s i o'
    | VerificationInput i \<Rightarrow> apply_verification s i o'
    | ExpiryInput i \<Rightarrow> apply_expiry s i o')"

definition rebuild_world_state :: "WorldStateInput list \<Rightarrow> WorldStateOptions \<Rightarrow> WorldState Result" where
  "rebuild_world_state inputs o' =
     res_bind (validate_options o') (\<lambda>_. fold_res (apply_input o') world_default inputs)"

end
