(* ===== verification/World_Wire.thy ===== *)
theory World_Wire
  imports World_State
begin

text \<open>
  The wire form of the projection (\<open>src/worldstate/world_state_wire.cpp\<close>): the JSON value of a
  projection and the reader with its fail-closed key sets, the version gate and the folding of
  illegal values to \<open>StateInvalid\<close>. The readers return the value they store through their
  reference parameter.
\<close>

section \<open>Writer\<close>

definition entity_to_json :: "WorldEntity \<Rightarrow> JsonValue" where
  "entity_to_json e = JObject
     [(''confidence'', JNumber (we_confidence e)), (''element'', element_to_json (we_element e)),
      (''last_seen_at'', wall_ns (we_last_seen_at e)),
      (''source_event_digest'', JString (digest_to_string (we_source_event_digest e))),
      (''stale'', JBoolean (we_stale e))]"

definition change_to_json :: "WorldChange \<Rightarrow> JsonValue" where
  "change_to_json c = JObject
     [(''changed_at'', wall_ns (wc_changed_at c)),
      (''change_sequence'', json_int (wc_change_sequence c)),
      (''kind'', JString (nth_name all_kinds kChangeKindNames (wc_kind c))),
      (''source_event_digest'', JString (digest_to_string (wc_source_event_digest c))),
      (''summary'', JString (wc_summary c))]"

definition foreground_to_json :: "WorldForegroundApp \<Rightarrow> JsonValue" where
  "foreground_to_json f = JObject
     [(''activity_name'', JString (fa_activity_name f)), (''observed_at'', wall_ns (fa_observed_at f)),
      (''package_name'', JString (fa_package_name f)), (''sensitive'', JBoolean (fa_sensitive f)),
      (''status'', JString (nth_name all_beliefs kBeliefNames (fa_status f)))]"

definition page_to_json :: "WorldPageAssumption \<Rightarrow> JsonValue" where
  "page_to_json p = JObject
     [(''app_id'', JString (wp_app_id p)), (''confidence'', JNumber (wp_confidence p)),
      (''recognized_at'', wall_ns (wp_recognized_at p)), (''state_id'', JString (wp_state_id p)),
      (''status'', JString (nth_name all_beliefs kBeliefNames (wp_status p)))]"

definition world_state_to_json :: "WorldState \<Rightarrow> JsonValue" where
  "world_state_to_json s = JObject
     [(''current_page'', page_to_json (ws_current_page s)),
      (''entities'', JArray (map entity_to_json (ws_entities s))),
      (''foreground_app'', foreground_to_json (ws_foreground_app s)),
      (''recent_changes'', JArray (map change_to_json (ws_recent_changes s))),
      (''schema_version'', JObject
        [(''major'', json_int (ucast (sv_major (ws_schema_version s)))),
         (''minor'', json_int (ucast (sv_minor (ws_schema_version s))))])]"

definition world_to_json :: "WorldState \<Rightarrow> string" where
  "world_to_json s = canonical_json_string (world_state_to_json s)"

definition world_digest :: "WorldState \<Rightarrow> Sha256Digest" where
  "world_digest s = canonical_json_digest (world_state_to_json s)"

section \<open>Readers of members\<close>

definition quoted :: "string \<Rightarrow> string" where
  "quoted key = [CHR 0x27] @ key @ [CHR 0x27]"

abbreviation malformed :: "string \<Rightarrow> 'a Result" where
  "malformed detail \<equiv> world_fail PayloadMalformed detail"

abbreviation invalid_value :: "string \<Rightarrow> 'a Result" where
  "invalid_value detail \<equiv> world_fail StateInvalid detail"

definition check_member_set :: "JsonValue \<Rightarrow> string \<Rightarrow> string list \<Rightarrow> unit Result" where
  "check_member_set v what keys = (case as_object v of
      None \<Rightarrow> malformed (what @ '' must be a JSON object'')
    | Some members \<Rightarrow>
        res_bind (check_all (\<lambda>m. if fst m \<in> set keys then Inr ()
            else malformed (what @ '' has unknown member '' @ quoted (fst m))) members) (\<lambda>_.
          check_all (\<lambda>key. if json_find v key = None
            then malformed (what @ '' is missing member '' @ quoted key) else Inr ()) keys))"

definition read_string :: "JsonValue \<Rightarrow> string \<Rightarrow> string Result" where
  "read_string v key = (case json_find v key of
      Some (JString s) \<Rightarrow> Inr s
    | _ \<Rightarrow> malformed (''member '' @ quoted key @ '' must be a JSON string''))"

definition read_bool :: "JsonValue \<Rightarrow> string \<Rightarrow> bool Result" where
  "read_bool v key = (case json_find v key of
      Some (JBoolean b) \<Rightarrow> Inr b
    | _ \<Rightarrow> malformed (''member '' @ quoted key @ '' must be a JSON boolean''))"

definition read_confidence :: "JsonValue \<Rightarrow> string \<Rightarrow> double Result" where
  "read_confidence v key = (case json_find v key of
      None \<Rightarrow> malformed (''member '' @ quoted key @ '' must be a JSON number'')
    | Some n \<Rightarrow> (case as_number n of
          None \<Rightarrow> malformed (''member '' @ quoted key @ '' must be a JSON number'')
        | Some d \<Rightarrow> Inr d))"

definition read_unsigned :: "JsonValue \<Rightarrow> string \<Rightarrow> u64 Result" where
  "read_unsigned v key = (case json_find v key of
      Some (JInteger raw) \<Rightarrow>
        if raw < 0 then invalid_value (''member '' @ quoted key @ '' must be non-negative'')
        else Inr (of_int raw)
    | _ \<Rightarrow> malformed (''member '' @ quoted key @ '' must be a JSON integer''))"

definition read_timestamp :: "JsonValue \<Rightarrow> string \<Rightarrow> Timestamp Result" where
  "read_timestamp v key = (case json_find v key of
      Some (JInteger ns) \<Rightarrow> Inr (timestamp_default\<lparr>ts_wall := ns\<rparr>)
    | _ \<Rightarrow> malformed (''member '' @ quoted key @ '' must be a JSON integer (wall ns)''))"

definition read_id :: "JsonValue \<Rightarrow> string \<Rightarrow> Id128 Result" where
  "read_id v key = res_bind (read_string v key) (\<lambda>s. case id128_parse s of
      None \<Rightarrow> invalid_value (''member '' @ quoted key @ '' is not a valid id'')
    | Some i \<Rightarrow> Inr i)"

definition read_digest :: "JsonValue \<Rightarrow> string \<Rightarrow> Sha256Digest Result" where
  "read_digest v key = res_bind (read_string v key) (\<lambda>s. case digest_from_hex s of
      None \<Rightarrow> invalid_value (''member '' @ quoted key @ '' is not a valid sha256 digest'')
    | Some d \<Rightarrow> Inr d)"

definition read_belief_status :: "JsonValue \<Rightarrow> string \<Rightarrow> WorldBeliefStatus Result" where
  "read_belief_status v key = res_bind (read_string v key) (\<lambda>s. case enumerator all_beliefs kBeliefNames s of
      None \<Rightarrow> invalid_value (''member '' @ quoted key @ '' is outside the belief closed set'')
    | Some b \<Rightarrow> Inr b)"

definition read_change_kind :: "JsonValue \<Rightarrow> string \<Rightarrow> WorldChangeKind Result" where
  "read_change_kind v key = res_bind (read_string v key) (\<lambda>s. case enumerator all_kinds kChangeKindNames s of
      None \<Rightarrow> invalid_value (''member '' @ quoted key @ '' is outside the change-kind closed set'')
    | Some k \<Rightarrow> Inr k)"

definition read_coordinate :: "JsonValue \<Rightarrow> string \<Rightarrow> double Result" where
  "read_coordinate v key = (case json_find v key of
      None \<Rightarrow> malformed (''element bounds member '' @ quoted key @ '' must be a JSON number'')
    | Some n \<Rightarrow> (case as_number n of
          None \<Rightarrow> malformed (''element bounds member '' @ quoted key @ '' must be a JSON number'')
        | Some d \<Rightarrow> Inr d))"

text \<open>\<open>*value.find(key)\<close> after \<open>check_member_set\<close> has found the key.\<close>

definition member :: "JsonValue \<Rightarrow> string \<Rightarrow> JsonValue" where
  "member v key = (case json_find v key of None \<Rightarrow> JNull | Some w \<Rightarrow> w)"

section \<open>Readers of values\<close>

definition read_bounds :: "JsonValue \<Rightarrow> RectF Result" where
  "read_bounds v =
     res_bind (check_member_set v ''element bounds'' [''bottom'', ''left'', ''right'', ''top'']) (\<lambda>_.
     res_bind (read_coordinate v ''left'') (\<lambda>l.
     res_bind (read_coordinate v ''top'') (\<lambda>t.
     res_bind (read_coordinate v ''right'') (\<lambda>r.
     res_bind (read_coordinate v ''bottom'') (\<lambda>b.
     Inr \<lparr>rect_left = l, rect_top = t, rect_right = r, rect_bottom = b\<rparr>)))))"

definition read_source :: "JsonValue \<Rightarrow> ElementSource Result" where
  "read_source v = res_bind (read_string v ''source'') (\<lambda>s. case enumerator all_sources kElementSourceNames s of
      None \<Rightarrow> invalid_value ''element source is outside the closed set''
    | Some x \<Rightarrow> Inr x)"

definition read_element :: "JsonValue \<Rightarrow> ElementRef Result" where
  "read_element v =
     res_bind (check_member_set v ''element'' [''bounds'', ''environment_epoch'', ''evidence_digest'',
       ''observation_id'', ''source'', ''space'', ''stable_hint'']) (\<lambda>_.
     res_bind (read_bounds (member v ''bounds'')) (\<lambda>bounds.
     res_bind (read_unsigned v ''environment_epoch'') (\<lambda>epoch.
     res_bind (read_digest v ''evidence_digest'') (\<lambda>evidence.
     res_bind (read_id v ''observation_id'') (\<lambda>observation.
     res_bind (read_source v) (\<lambda>source.
     res_bind (read_id v ''space'') (\<lambda>space.
     res_bind (read_string v ''stable_hint'') (\<lambda>hint.
     Inr \<lparr>er_observation_id = observation, er_environment_epoch = epoch, er_source = source,
       er_stable_hint = hint, er_bounds = bounds, er_space = space, er_evidence_digest = evidence\<rparr>))))))))"

definition read_entity :: "JsonValue \<Rightarrow> WorldEntity Result" where
  "read_entity v =
     res_bind (check_member_set v ''entity'' [''confidence'', ''element'', ''last_seen_at'',
       ''source_event_digest'', ''stale'']) (\<lambda>_.
     res_bind (read_confidence v ''confidence'') (\<lambda>confidence.
     res_bind (read_timestamp v ''last_seen_at'') (\<lambda>seen.
     res_bind (read_digest v ''source_event_digest'') (\<lambda>source.
     res_bind (read_bool v ''stale'') (\<lambda>stale.
     res_bind (read_element (member v ''element'')) (\<lambda>element.
     Inr \<lparr>we_element = element, we_confidence = confidence, we_stale = stale,
       we_last_seen_at = seen, we_source_event_digest = source\<rparr>))))))"

definition read_change :: "JsonValue \<Rightarrow> WorldChange Result" where
  "read_change v =
     res_bind (check_member_set v ''recent_changes entry'' [''changed_at'', ''change_sequence'', ''kind'',
       ''source_event_digest'', ''summary'']) (\<lambda>_.
     res_bind (read_change_kind v ''kind'') (\<lambda>kind.
     res_bind (read_string v ''summary'') (\<lambda>summary.
     res_bind (read_digest v ''source_event_digest'') (\<lambda>source.
     res_bind (read_timestamp v ''changed_at'') (\<lambda>at.
     res_bind (read_unsigned v ''change_sequence'') (\<lambda>n.
     Inr \<lparr>wc_kind = kind, wc_summary = summary, wc_source_event_digest = source, wc_changed_at = at,
       wc_change_sequence = n\<rparr>))))))"

definition read_version :: "JsonValue \<Rightarrow> SchemaVersion Result" where
  "read_version v =
     res_bind (check_member_set v ''schema_version'' [''major'', ''minor'']) (\<lambda>_.
     res_bind (read_unsigned v ''major'') (\<lambda>major.
     if major \<noteq> 1 then world_fail SchemaUnsupported ''schema major is outside the {1,x} support set''
     else res_bind (read_unsigned v ''minor'') (\<lambda>minor.
     if minor > 0xFFFF then invalid_value ''schema minor does not fit SchemaVersion''
     else Inr \<lparr>sv_major = ucast major, sv_minor = ucast minor\<rparr>)))"

definition read_foreground :: "JsonValue \<Rightarrow> WorldForegroundApp Result" where
  "read_foreground v =
     res_bind (check_member_set v ''foreground_app'' [''activity_name'', ''observed_at'', ''package_name'',
       ''sensitive'', ''status'']) (\<lambda>_.
     res_bind (read_string v ''activity_name'') (\<lambda>activity.
     res_bind (read_string v ''package_name'') (\<lambda>package.
     res_bind (read_bool v ''sensitive'') (\<lambda>sensitive.
     res_bind (read_timestamp v ''observed_at'') (\<lambda>at.
     res_bind (read_belief_status v ''status'') (\<lambda>status.
     Inr \<lparr>fa_status = status, fa_package_name = package, fa_activity_name = activity,
       fa_sensitive = sensitive, fa_observed_at = at\<rparr>))))))"

definition read_page :: "JsonValue \<Rightarrow> WorldPageAssumption Result" where
  "read_page v =
     res_bind (check_member_set v ''current_page'' [''app_id'', ''confidence'', ''recognized_at'',
       ''state_id'', ''status'']) (\<lambda>_.
     res_bind (read_string v ''app_id'') (\<lambda>app.
     res_bind (read_string v ''state_id'') (\<lambda>page.
     res_bind (read_confidence v ''confidence'') (\<lambda>confidence.
     res_bind (read_timestamp v ''recognized_at'') (\<lambda>at.
     res_bind (read_belief_status v ''status'') (\<lambda>status.
     Inr \<lparr>wp_status = status, wp_app_id = app, wp_state_id = page, wp_confidence = confidence,
       wp_recognized_at = at\<rparr>))))))"

definition read_array :: "string \<Rightarrow> (JsonValue \<Rightarrow> 'a Result) \<Rightarrow> JsonValue \<Rightarrow> 'a list Result" where
  "read_array what read_item v = (case as_array v of
      None \<Rightarrow> malformed (what @ '' must be a JSON array'')
    | Some items \<Rightarrow> map_res read_item items)"

text \<open>\<open>WorldState::from_json\<close> after the parse.\<close>

definition world_of_json :: "JsonValue \<Rightarrow> WorldState Result" where
  "world_of_json v =
     res_bind (check_member_set v ''world state'' [''current_page'', ''entities'', ''foreground_app'',
       ''recent_changes'', ''schema_version'']) (\<lambda>_.
     res_bind (read_version (member v ''schema_version'')) (\<lambda>version.
     res_bind (read_foreground (member v ''foreground_app'')) (\<lambda>foreground.
     res_bind (read_page (member v ''current_page'')) (\<lambda>page.
     res_bind (read_array ''entities'' read_entity (member v ''entities'')) (\<lambda>entities.
     res_bind (read_array ''recent_changes'' read_change (member v ''recent_changes'')) (\<lambda>changes.
     (let s = \<lparr>ws_schema_version = version, ws_foreground_app = foreground, ws_current_page = page,
        ws_entities = entities, ws_recent_changes = changes\<rparr>
      in res_bind (validate_world s) (\<lambda>_. Inr s))))))))"

definition world_from_json :: "string \<Rightarrow> WorldState Result" where
  "world_from_json input = (case parse_json json_limits_default input of
      Inl _ \<Rightarrow> malformed ''world state payload is not valid JSON''
    | Inr document \<Rightarrow> world_of_json document)"

section \<open>Round trip\<close>

text \<open>What the wire can carry: identifiers and digests of full length, unsigned numbers below
  \<open>2 ^ 63\<close> (they are written as signed integers), wall times only, named enumerators and
  schema major 1.\<close>

definition time_wire_ok :: "Timestamp \<Rightarrow> bool" where
  "time_wire_ok t \<longleftrightarrow> ts_monotonic t = 0"

definition element_wire_ok :: "ElementRef \<Rightarrow> bool" where
  "element_wire_ok e \<longleftrightarrow> id128_ok (er_observation_id e) \<and> id128_ok (er_space e) \<and>
     digest_ok (er_evidence_digest e) \<and> 0 \<le> sint (er_environment_epoch e)"

definition entity_wire_ok :: "WorldEntity \<Rightarrow> bool" where
  "entity_wire_ok e \<longleftrightarrow> element_wire_ok (we_element e) \<and> digest_ok (we_source_event_digest e) \<and>
     time_wire_ok (we_last_seen_at e)"

definition change_wire_ok :: "WorldChange \<Rightarrow> bool" where
  "change_wire_ok c \<longleftrightarrow> digest_ok (wc_source_event_digest c) \<and> time_wire_ok (wc_changed_at c) \<and>
     0 \<le> sint (wc_change_sequence c)"

definition world_wire_ok :: "WorldState \<Rightarrow> bool" where
  "world_wire_ok s \<longleftrightarrow> sv_major (ws_schema_version s) = 1 \<and>
     time_wire_ok (fa_observed_at (ws_foreground_app s)) \<and> time_wire_ok (wp_recognized_at (ws_current_page s)) \<and>
     list_all entity_wire_ok (ws_entities s) \<and> list_all change_wire_ok (ws_recent_changes s)"

lemma names_distinct:
  "distinct kBeliefNames" "distinct kChangeKindNames" "distinct kElementSourceNames"
  "distinct all_beliefs" "distinct all_kinds" "distinct all_sources"
  by code_simp+

lemma names_length:
  "length all_beliefs = length kBeliefNames" "length all_kinds = length kChangeKindNames"
  "length all_sources = length kElementSourceNames"
  by code_simp+

lemma belief_named_in_all: "belief_named b \<longleftrightarrow> b \<in> set all_beliefs"
  by (cases b) (simp_all add: belief_named_def all_beliefs_def)

lemma kind_named_in_all: "kind_named k \<longleftrightarrow> k \<in> set all_kinds"
  by (cases k) (simp_all add: kind_named_def all_kinds_def)

lemma source_named_in_all: "source_named x \<longleftrightarrow> x \<in> set all_sources"
  by (cases x) (simp_all add: source_named_def all_sources_def)

interpretation belief_text: codec "nth_name all_beliefs kBeliefNames" "enumerator all_beliefs kBeliefNames" belief_named
  by unfold_locales (simp add: enumerator_nth_name names_length names_distinct belief_named_in_all)

interpretation kind_text: codec "nth_name all_kinds kChangeKindNames" "enumerator all_kinds kChangeKindNames" kind_named
  by unfold_locales (simp add: enumerator_nth_name names_length names_distinct kind_named_in_all)

interpretation source_text: codec "nth_name all_sources kElementSourceNames"
  "enumerator all_sources kElementSourceNames" source_named
  by unfold_locales (simp add: enumerator_nth_name names_length names_distinct source_named_in_all)

lemma check_member_set_exact [simp]:
  assumes "list_all (\<lambda>m. fst m \<in> set keys) ms" "list_all (\<lambda>key. map_of ms key \<noteq> None) keys"
  shows "check_member_set (JObject ms) what keys = Inr ()"
proof -
  have "check_all (\<lambda>m. if fst m \<in> set keys then Inr ()
      else malformed (what @ '' has unknown member '' @ quoted (fst m))) ms = Inr ()"
    using assms(1) by (simp add: check_all_Inr_iff list_all_iff)
  moreover have "check_all (\<lambda>key. if map_of ms key = None
      then malformed (what @ '' is missing member '' @ quoted key) else Inr ()) keys = Inr ()"
    using assms(2) by (auto simp: check_all_Inr_iff list_all_iff)
  ultimately show ?thesis by (simp add: check_member_set_def as_object_def)
qed

lemma read_timestamp_wall [simp]:
  "json_find v key = Some (wall_ns t) \<Longrightarrow> time_wire_ok t \<Longrightarrow> read_timestamp v key = Inr t"
  by (cases t) (simp add: read_timestamp_def wall_ns_def time_wire_ok_def timestamp_default_def)

lemma read_unsigned_json_int [simp]:
  "json_find v key = Some (json_int n) \<Longrightarrow> 0 \<le> sint n \<Longrightarrow> read_unsigned v key = Inr n"
  by (simp add: read_unsigned_def json_int_def)

lemma read_simple [simp]:
  "json_find v key = Some (JString s) \<Longrightarrow> read_string v key = Inr s"
  "json_find v key = Some (JBoolean b) \<Longrightarrow> read_bool v key = Inr b"
  "json_find v key = Some (JNumber d) \<Longrightarrow> read_confidence v key = Inr d"
  "json_find v key = Some (JNumber d) \<Longrightarrow> read_coordinate v key = Inr d"
  "json_find v key = Some w \<Longrightarrow> member v key = w"
  by (simp_all add: read_string_def read_bool_def read_confidence_def read_coordinate_def member_def as_number_def)

lemma read_coded [simp]:
  "json_find v key = Some (JString (id128_to_string i)) \<Longrightarrow> id128_ok i \<Longrightarrow> read_id v key = Inr i"
  "json_find v key = Some (JString (digest_to_string d)) \<Longrightarrow> digest_ok d \<Longrightarrow> read_digest v key = Inr d"
  "json_find v key = Some (JString (nth_name all_beliefs kBeliefNames b)) \<Longrightarrow> belief_named b \<Longrightarrow>
     read_belief_status v key = Inr b"
  "json_find v key = Some (JString (nth_name all_kinds kChangeKindNames k)) \<Longrightarrow> kind_named k \<Longrightarrow>
     read_change_kind v key = Inr k"
  "json_find v ''source'' = Some (JString (nth_name all_sources kElementSourceNames x)) \<Longrightarrow> source_named x \<Longrightarrow>
     read_source v = Inr x"
  by (simp_all add: read_id_def read_digest_def read_belief_status_def read_change_kind_def read_source_def
      id_text.dec_enc digest_text.dec_enc belief_text.dec_enc kind_text.dec_enc source_text.dec_enc)

lemma read_element_to_json:
  assumes "element_wire_ok e" "source_named (er_source e)"
  shows "read_element (element_to_json e) = Inr e"
  using assms by (simp add: read_element_def read_bounds_def element_to_json_def element_wire_ok_def)

lemma read_entity_to_json:
  assumes "entity_wire_ok e" "source_named (er_source (we_element e))"
  shows "read_entity (entity_to_json e) = Inr e"
  using assms by (simp add: read_entity_def entity_to_json_def entity_wire_ok_def read_element_to_json)

lemma read_change_to_json:
  assumes "change_wire_ok c" "kind_named (wc_kind c)"
  shows "read_change (change_to_json c) = Inr c"
  using assms by (simp add: read_change_def change_to_json_def change_wire_ok_def)

lemma read_foreground_to_json:
  assumes "time_wire_ok (fa_observed_at f)" "belief_named (fa_status f)"
  shows "read_foreground (foreground_to_json f) = Inr f"
  using assms by (simp add: read_foreground_def foreground_to_json_def)

lemma read_page_to_json:
  assumes "time_wire_ok (wp_recognized_at p)" "belief_named (wp_status p)"
  shows "read_page (page_to_json p) = Inr p"
  using assms by (simp add: read_page_def page_to_json_def)

lemma sint_ucast_u16: "0 \<le> sint (ucast w :: u64)" "(ucast w :: u64) \<le> 0xFFFF" "ucast (ucast w :: u64) = w" for w :: u16
proof -
  have w: "uint w < 65536" using unsigned_less [of w] by simp
  have u: "uint (ucast w :: u64) = uint w" by (simp add: unsigned_ucast_eq take_bit_int_eq_self w [THEN less_trans])
  show "(ucast w :: u64) \<le> 0xFFFF" using w by (simp add: word_le_def u)
  have "sint (ucast w :: u64) = uint w"
    unfolding sint_uint u by (rule signed_take_bit_int_eq_self) (use w in \<open>simp_all add: order_trans [OF _ unsigned_greater_eq]\<close>)
  then show "0 \<le> sint (ucast w :: u64)" by simp
  show "ucast (ucast w :: u64) = w" using u by (metis ucast_eq word_uint_eqI word_of_int_uint)
qed

lemma read_version_to_json:
  assumes "sv_major v = 1"
  shows "read_version (JObject [(''major'', json_int 1), (''minor'', json_int (ucast (sv_minor v)))]) = Inr v"
  using assms sint_ucast_u16 [of "sv_minor v"] sint_ucast_u16(1) [of 1]
  by (cases v) (simp add: read_version_def not_less)

lemma validate_world_named:
  assumes "validate_world s = Inr ()"
  shows "belief_named (fa_status (ws_foreground_app s))" "belief_named (wp_status (ws_current_page s))"
    "\<And>e. e \<in> set (ws_entities s) \<Longrightarrow> source_named (er_source (we_element e))"
    "\<And>c. c \<in> set (ws_recent_changes s) \<Longrightarrow> kind_named (wc_kind c)"
proof -
  have parts: "validate_foreground (ws_foreground_app s) = Inr ()" "validate_page (ws_current_page s) = Inr ()"
    "\<forall>e\<in>set (ws_entities s). validate_entity e = Inr ()" "validate_changes None (ws_recent_changes s) = Inr ()"
    using assms by (auto simp: validate_world_def result_simps)
  have kinds: "validate_changes p cs = Inr () \<Longrightarrow> c \<in> set cs \<Longrightarrow> kind_named (wc_kind c)" for p cs c
    by (induction p cs rule: validate_changes.induct) (auto split: if_splits)
  show "belief_named (fa_status (ws_foreground_app s))" "belief_named (wp_status (ws_current_page s))"
    using parts(1,2) by (auto simp: validate_foreground_def validate_page_def split: if_splits)
  show "source_named (er_source (we_element e))" if "e \<in> set (ws_entities s)" for e
    using parts(3) that by (auto simp: validate_entity_def split: if_splits)
  show "kind_named (wc_kind c)" if "c \<in> set (ws_recent_changes s)" for c
    using kinds parts(4) that by blast
qed

lemma world_of_json_round_trip:
  assumes valid: "validate_world s = Inr ()" and wire: "world_wire_ok s"
  shows "world_of_json (world_state_to_json s) = Inr s"
proof -
  note named = validate_world_named [OF valid]
  have "map_res read_entity (map entity_to_json (ws_entities s)) = Inr (ws_entities s)"
    using wire named(3) by (intro map_res_map) (simp add: world_wire_ok_def list_all_iff read_entity_to_json)
  moreover have "map_res read_change (map change_to_json (ws_recent_changes s)) = Inr (ws_recent_changes s)"
    using wire named(4) by (intro map_res_map) (simp add: world_wire_ok_def list_all_iff read_change_to_json)
  moreover have eta: "\<lparr>ws_schema_version = ws_schema_version s, ws_foreground_app = ws_foreground_app s,
      ws_current_page = ws_current_page s, ws_entities = ws_entities s, ws_recent_changes = ws_recent_changes s\<rparr> = s"
    by simp
  ultimately show ?thesis
    using wire valid named(1,2)
    by (simp add: world_of_json_def world_state_to_json_def world_wire_ok_def read_array_def as_array_def
        read_version_to_json read_foreground_to_json read_page_to_json Let_def eta)
qed

interpretation world_json: codec world_state_to_json
  "\<lambda>v. case world_of_json v of Inl _ \<Rightarrow> None | Inr s \<Rightarrow> Some s"
  "\<lambda>s. validate_world s = Inr () \<and> world_wire_ok s"
  by unfold_locales (simp add: world_of_json_round_trip)

end
