(* ===== verification/World_Invariants.thy ===== *)
theory World_Invariants
  imports World_Wire
begin

text \<open>
  The invariant of the projection: valid beliefs and entities, distinct elements, capacities, and
  a ring whose sequence numbers increase. Every operator keeps it.
\<close>

section \<open>Confidence\<close>

lemma confidence_one [simp]: "confidence_in_range dbl_one"
  by code_simp

lemma confidence_half:
  assumes "confidence_in_range c"
  shows "confidence_in_range (dbl_half c)"
proof -
  have half: "dbl_mag (dbl_half c) \<le> dbl_mag c" "dbl_neg (dbl_half c) = dbl_neg c" "dbl_isfinite (dbl_half c)"
    using assms dbl_half_bounds by (simp_all add: confidence_in_range_def)
  have "dbl_key dbl_zero = 0" by code_simp
  then have "0 \<le> dbl_key c" "dbl_key c \<le> dbl_key dbl_one" "\<not> dbl_isnan dbl_one" "\<not> dbl_isnan dbl_zero"
    using assms by (simp_all add: confidence_in_range_def dbl_le_def)
  moreover have "dbl_key (dbl_half c) \<le> dbl_key c" "0 \<le> dbl_key (dbl_half c)"
    using half(1) \<open>0 \<le> dbl_key c\<close> dbl_mag_bounds(1) [of "dbl_half c"] dbl_mag_bounds(1) [of c]
    unfolding dbl_key_def half(2) by (cases "dbl_neg c"; simp)+
  ultimately show ?thesis
    using half(3) \<open>dbl_key dbl_zero = 0\<close> by (simp add: confidence_in_range_def dbl_le_def dbl_isfinite_not_nan)
qed

section \<open>The ring\<close>

interpretation ring: bounded_log "push_change (Suc n)" "Suc n" for n
proof unfold_locales
  fix xs :: "WorldChange list" and x
  assume "length xs \<le> Suc n"
  then show "push_change (Suc n) x xs = last_n (Suc n) (xs @ [x])"
    by (cases "length xs = Suc n"; cases xs) (auto simp: push_change_def last_n_def Suc_diff_le)
qed simp

text \<open>A sequence number exceeds the one before it, unless the counter has wrapped to zero.\<close>

definition ring_ok :: "WorldChange list \<Rightarrow> bool" where
  "ring_ok cs \<longleftrightarrow> list_all (kind_named \<circ> wc_kind) cs \<and>
     successively (\<lambda>a b. wc_change_sequence a < wc_change_sequence b \<or> wc_change_sequence b = 0) cs"

lemma validate_changes_Some:
  "validate_changes (Some n) cs = Inr () \<longleftrightarrow> list_all (kind_named \<circ> wc_kind) cs \<and>
     successively (\<lambda>a b. wc_change_sequence a < wc_change_sequence b) cs \<and>
     (cs = [] \<or> n < wc_change_sequence (hd cs))"
proof (induction cs arbitrary: n)
  case (Cons c cs)
  show ?case
  proof (cases "kind_named (wc_kind c) \<and> n < wc_change_sequence c")
    case True
    moreover have "\<not> wc_change_sequence c \<le> n" using True by (simp add: not_le)
    ultimately have "validate_changes (Some n) (c # cs) = validate_changes (Some (wc_change_sequence c)) cs"
      by simp
    then show ?thesis using True Cons.IH [of "wc_change_sequence c"]
      by (cases cs) (auto simp add: successively_Cons simp del: validate_changes.simps(2))
  next
    case False
    then have "validate_changes (Some n) (c # cs) \<noteq> Inr ()" by (simp add: not_less)
    then show ?thesis using False by (simp del: validate_changes.simps)
  qed
qed simp

lemma validate_changes_iff:
  "validate_changes None cs = Inr () \<longleftrightarrow> list_all (kind_named \<circ> wc_kind) cs \<and>
     successively (\<lambda>a b. wc_change_sequence a < wc_change_sequence b) cs"
  by (cases cs) (auto simp: successively_Cons validate_changes_Some)

lemma ring_ok_valid:
  assumes "ring_ok cs" "\<forall>c\<in>set cs. wc_change_sequence c \<noteq> 0"
  shows "validate_changes None cs = Inr ()"
proof -
  have "successively (\<lambda>a b. wc_change_sequence a < wc_change_sequence b) cs"
    using assms unfolding ring_ok_def by (auto intro: successively_mono)
  then show ?thesis using assms(1) by (simp add: validate_changes_iff ring_ok_def)
qed

lemma ring_ok_tl: "ring_ok cs \<Longrightarrow> ring_ok (tl cs)"
  by (cases cs) (auto simp: ring_ok_def successively_Cons)

lemma ring_ok_push:
  assumes "ring_ok (ws_recent_changes s)" "kind_named k"
  shows "ring_ok (push_change n (make_change s k summary d at) (ws_recent_changes s))"
proof -
  let ?c = "make_change s k summary d at"
  have "wc_change_sequence (last (ws_recent_changes s)) < wc_change_sequence ?c \<or> wc_change_sequence ?c = 0"
    if "ws_recent_changes s \<noteq> []"
    using that u64_succ_less [of "wc_change_sequence (last (ws_recent_changes s))"]
    by (auto simp: make_change_def eq_neg_iff_add_eq_0)
  then have "ring_ok (ws_recent_changes s @ [?c])"
    using assms by (auto simp: ring_ok_def successively_append_iff make_change_def)
  then show ?thesis
    using ring_ok_tl by (simp add: push_change_def Let_def)
qed

section \<open>The invariant\<close>

definition distinct_elements :: "WorldEntity list \<Rightarrow> bool" where
  "distinct_elements es \<longleftrightarrow> sorted_wrt (\<lambda>a b. \<not> same_element (we_element a) (we_element b)) es"

definition world_inv :: "WorldStateOptions \<Rightarrow> WorldState \<Rightarrow> bool" where
  "world_inv o' s \<longleftrightarrow>
     validate_foreground (ws_foreground_app s) = Inr () \<and> validate_page (ws_current_page s) = Inr () \<and>
     (\<forall>e\<in>set (ws_entities s). validate_entity e = Inr ()) \<and>
     distinct_elements (ws_entities s) \<and> length (ws_entities s) \<le> wo_max_entities o' \<and>
     ring_ok (ws_recent_changes s) \<and> length (ws_recent_changes s) \<le> wo_max_recent_changes o'"

lemma world_inv_valid:
  assumes "world_inv o' s" "\<forall>c\<in>set (ws_recent_changes s). wc_change_sequence c \<noteq> 0"
  shows "validate_world s = Inr ()"
  using assms ring_ok_valid by (auto simp: world_inv_def validate_world_def result_simps)

lemma same_rect_sym: "same_rect l r \<longleftrightarrow> same_rect r l"
  by (auto simp: same_rect_def dbl_eq_def)

lemma same_element_sym: "same_element l r \<longleftrightarrow> same_element r l"
  by (auto simp: same_element_def same_rect_sym)

text \<open>Everything but the ring is untouched by an append.\<close>

lemma append_change_Inr:
  "append_change o' k summary d at s = Inr t \<longleftrightarrow> length summary \<le> wo_max_change_summary_bytes o' \<and>
     t = append_change_unchecked o' k summary d at s"
  by (auto simp: append_change_def append_change_unchecked_def)

lemma append_unchecked_fields [simp]:
  "ws_foreground_app (append_change_unchecked o' k summary d at s) = ws_foreground_app s"
  "ws_current_page (append_change_unchecked o' k summary d at s) = ws_current_page s"
  "ws_entities (append_change_unchecked o' k summary d at s) = ws_entities s"
  by (simp_all add: append_change_unchecked_def)

lemma validate_options_Inr:
  "validate_options o' = Inr () \<longleftrightarrow> 0 < wo_max_entities o' \<and> 0 < wo_max_recent_changes o' \<and>
     0 < wo_max_change_summary_bytes o'"
  by (auto simp: validate_options_def)

lemma push_change_window:
  "0 < n \<Longrightarrow> length cs \<le> n \<Longrightarrow> push_change n c cs = last_n n (cs @ [c])"
  using ring.push_window by (cases n) auto

lemma world_inv_append:
  assumes "world_inv o' s" "validate_options o' = Inr ()" "kind_named k"
  shows "world_inv o' (append_change_unchecked o' k summary d at s)"
proof -
  have "ring_ok (push_change (wo_max_recent_changes o') (make_change s k summary d at) (ws_recent_changes s))"
    using assms by (intro ring_ok_push) (simp_all add: world_inv_def)
  moreover have "length (push_change (wo_max_recent_changes o') (make_change s k summary d at) (ws_recent_changes s))
      \<le> wo_max_recent_changes o'"
    using assms by (simp add: world_inv_def push_change_window validate_options_Inr)
  ultimately show ?thesis using assms(1) by (simp add: world_inv_def append_change_unchecked_def)
qed

lemma kinds_named [simp]:
  "kind_named PageAssumed" "kind_named EntityObserved" "kind_named EntityStaled" "kind_named NavigationObserved"
  "kind_named ToolSettled" "kind_named VerificationSettled" "kind_named ConflictMarked" "kind_named EntityEvicted"
  by (simp_all add: kind_named_def)

section \<open>Eviction\<close>

lemma min_scan_spec:
  assumes "k < i" "zs ! k = y" "drop i zs = xs" "i \<le> length zs"
  shows "min_scan lt k y i xs < length zs"
  using assms
proof (induction lt k y i xs rule: min_scan.induct)
  case (2 lt k y i x xs)
  have i: "i < length zs" "zs ! i = x" "drop (Suc i) zs = xs"
    using 2(5) by (metis drop_eq_Nil linorder_not_le list.distinct(1), metis Cons_nth_drop_Suc drop_eq_Nil linorder_not_le list.distinct(1) list.inject, metis drop_Suc list.sel(3) tl_drop)
  then show ?case using 2 by simp
qed simp

lemma min_element_less: "xs \<noteq> [] \<Longrightarrow> min_element lt xs < length xs"
  using min_scan_spec [of 0 1 xs] by (cases xs) (simp_all add: min_element_def)

lemma length_erase_at [simp]: "i < length xs \<Longrightarrow> length (erase_at i xs) = length xs - 1"
  by (simp add: erase_at_def min_def)

lemma set_erase_at: "set (erase_at i xs) \<subseteq> set xs"
  by (auto simp: erase_at_def dest: in_set_takeD in_set_dropD)

lemma mset_erase_at: "i < length xs \<Longrightarrow> mset xs = add_mset (xs ! i) (mset (erase_at i xs))"
  by (metis erase_at_def id_take_nth_drop mset_append mset.simps(2) union_mset_add_mset_right)

lemma distinct_erase_at: "distinct_elements es \<Longrightarrow> distinct_elements (erase_at i es)"
proof (cases "i < length es")
  case True
  assume "distinct_elements es"
  then have "distinct_elements (take i es @ es ! i # drop (Suc i) es)" using True by (simp add: id_take_nth_drop [symmetric])
  then show ?thesis by (auto simp: distinct_elements_def erase_at_def sorted_wrt_append)
qed (simp add: erase_at_def)

lemma world_inv_erase:
  assumes "world_inv o' s"
  shows "world_inv o' (s\<lparr>ws_entities := erase_at i (ws_entities s)\<rparr>)"
proof -
  have "length (erase_at i (ws_entities s)) \<le> length (ws_entities s)" by (simp add: erase_at_def)
  then show ?thesis using assms set_erase_at [of i "ws_entities s"] distinct_erase_at
    by (auto simp: world_inv_def)
qed

lemma evict_one_step:
  assumes "world_inv o' s" "validate_options o' = Inr ()" "evict_one o' d at s = Inr t"
  shows "world_inv o' t" "ws_entities t = erase_at (eviction_candidate s) (ws_entities s)"
proof -
  let ?u = "append_change_unchecked o' EntityEvicted (evicted_summary (ws_entities s ! eviction_candidate s)) d at s"
  have t: "t = ?u\<lparr>ws_entities := erase_at (eviction_candidate s) (ws_entities s)\<rparr>"
    using assms(3) by (auto simp: evict_one_def Let_def result_simps append_change_Inr)
  have "world_inv o' ?u" using assms(1,2) by (rule world_inv_append) simp
  from world_inv_erase [OF this, of "eviction_candidate s"] show "world_inv o' t" by (simp add: t)
  show "ws_entities t = erase_at (eviction_candidate s) (ws_entities s)" by (simp add: t)
qed

lemma evict_rounds_spec:
  assumes "evict_rounds n o' d at s = Inr t" "world_inv o' s" "validate_options o' = Inr ()"
  shows "world_inv o' t \<and> set (ws_entities t) \<subseteq> set (ws_entities s) \<and>
    (length (ws_entities s) \<le> n \<longrightarrow> length (ws_entities t) < wo_max_entities o')"
  using assms
proof (induction n arbitrary: s)
  case 0
  then show ?case by (auto simp: validate_options_Inr)
next
  case (Suc n)
  show ?case
  proof (cases "length (ws_entities s) \<ge> wo_max_entities o'")
    case True
    then obtain u where u: "evict_one o' d at s = Inr u" "evict_rounds n o' d at u = Inr t"
      using Suc.prems(1) by (auto simp: result_simps)
    note step = evict_one_step [OF Suc.prems(2,3) u(1)]
    have "ws_entities s \<noteq> []" using True Suc.prems(3) by (auto simp: validate_options_Inr)
    then have "length (ws_entities u) = length (ws_entities s) - 1"
      by (simp add: step(2) eviction_candidate_def min_element_less)
    then show ?thesis
      using Suc.IH [OF u(2) step(1) Suc.prems(3)] set_erase_at step(2) by fastforce
  next
    case False
    then show ?thesis using Suc.prems by auto
  qed
qed

lemma evict_while_full_spec:
  assumes "evict_while_full o' d at s = Inr t" "world_inv o' s" "validate_options o' = Inr ()"
  shows "world_inv o' t" "set (ws_entities t) \<subseteq> set (ws_entities s)" "length (ws_entities t) < wo_max_entities o'"
  using evict_rounds_spec [OF assms(1) [unfolded evict_while_full_def] assms(2,3)] by simp_all

section \<open>The operators keep the invariant\<close>

lemma find_index_Some: "find_index p xs = Some k \<Longrightarrow> k < length xs \<and> p (xs ! k)"
  by (induction xs arbitrary: k) (auto split: if_splits)

lemma find_index_None: "find_index p xs = None \<longleftrightarrow> (\<forall>x\<in>set xs. \<not> p x)"
  by (induction xs) auto

lemma distinct_elements_update:
  assumes "distinct_elements es" "k < length es" "we_element e = we_element (es ! k)"
  shows "distinct_elements (es[k := e])"
  using assms by (auto simp: distinct_elements_def sorted_wrt_iff_nth_less nth_list_update)

lemma world_inv_refresh:
  assumes "world_inv o' s" "k < length (ws_entities s)" "we_element e = we_element (ws_entities s ! k)"
    "confidence_in_range (we_confidence e)"
  shows "world_inv o' (s\<lparr>ws_entities := (ws_entities s)[k := e]\<rparr>)"
proof -
  have "validate_entity (ws_entities s ! k) = Inr ()" using assms(1,2) by (simp add: world_inv_def)
  then have "validate_entity e = Inr ()" using assms(3,4) by (simp add: validate_entity_def split: if_splits)
  then have "\<forall>x\<in>set ((ws_entities s)[k := e]). validate_entity x = Inr ()"
    using assms(1) set_update_subset_insert [of "ws_entities s" k e] by (auto simp: world_inv_def)
  then show ?thesis
    using assms(1-3) distinct_elements_update by (simp add: world_inv_def)
qed

lemma observe_element_inv:
  assumes "observe_element o' at d (s, a, r) e = Inr (t, a', r')" "world_inv o' s" "validate_options o' = Inr ()"
    "check_element e = Inr ()" "source_named (er_source e)"
  shows "world_inv o' t"
proof (cases "find_index (\<lambda>x. same_element (we_element x) e) (ws_entities s)")
  case (Some k)
  then show ?thesis
    using assms(1) find_index_Some [OF Some] by (auto simp: observe_element_def intro!: world_inv_refresh [OF assms(2)])
next
  case None
  then obtain u where u: "evict_while_full o' d at s = Inr u" and
    t: "t = u\<lparr>ws_entities := ws_entities u @ [\<lparr>we_element = e, we_confidence = dbl_one, we_stale = False,
      we_last_seen_at = at, we_source_event_digest = d\<rparr>]\<rparr>"
    using assms(1) by (auto simp: observe_element_def result_simps)
  note step = evict_while_full_spec [OF u assms(2,3)]
  have "\<forall>x\<in>set (ws_entities u). \<not> same_element (we_element x) e"
    using None step(2) unfolding find_index_None by blast
  moreover have "validate_entity \<lparr>we_element = e, we_confidence = dbl_one, we_stale = False,
      we_last_seen_at = at, we_source_event_digest = d\<rparr> = Inr ()"
    using assms(4,5) by (simp add: check_element_def validate_entity_def split: if_splits)
  ultimately show ?thesis
    using step(1,3) by (auto simp: t world_inv_def distinct_elements_def sorted_wrt_append)
qed

lemma observe_elements_inv:
  assumes "fold_res (observe_element o' at d) (s, a, r) es = Inr (t, a', r')" "world_inv o' s"
    "validate_options o' = Inr ()" "check_all check_element es = Inr ()" "\<forall>e\<in>set es. source_named (er_source e)"
  shows "world_inv o' t"
proof -
  have "world_inv o' (fst (t, a', r'))"
  proof (rule fold_res_invariant [OF assms(1), where P = "\<lambda>acc. world_inv o' (fst acc)"])
    fix u e v assume "world_inv o' (fst u)" "e \<in> set es" "observe_element o' at d u e = Inr v"
    then show "world_inv o' (fst v)"
      using observe_element_inv assms(3-5) by (cases u; cases v) (auto simp: check_all_Inr_iff)
  qed (simp add: assms(2))
  then show ?thesis by simp
qed

lemma world_inv_foreground:
  "world_inv o' s \<Longrightarrow> world_inv o' (s\<lparr>ws_foreground_app := desired_foreground i\<rparr>)"
  by (simp add: world_inv_def desired_foreground_def foreground_default_def validate_foreground_def belief_named_def)

lemma world_inv_page:
  "world_inv o' s \<Longrightarrow> validate_page p = Inr () \<Longrightarrow> world_inv o' (s\<lparr>ws_current_page := p\<rparr>)"
  by (simp add: world_inv_def)

text \<open>The sources of the observed elements are enumerators.\<close>

definition input_named :: "WorldStateInput \<Rightarrow> bool" where
  "input_named i = (case i of ObservationInput x \<Rightarrow> list_all (source_named \<circ> er_source) (oi_elements x) | _ \<Rightarrow> True)"

lemma observation_inv:
  assumes "apply_world_observation s i o' = Inr t" "world_inv o' s" "input_named (ObservationInput i)"
  shows "world_inv o' t"
proof -
  let ?d = "observation_digest i" and ?at = "oi_observed_at i"
  from assms(1) obtain u v a r where opts: "validate_options o' = Inr ()"
    and elems: "check_all check_element (oi_elements i) = Inr ()"
    and u: "update_foreground o' i ?d s = Inr u"
    and v: "fold_res (observe_element o' ?at ?d) (u, 0, 0) (oi_elements i) = Inr (v, a, r)"
    and t: "(if a + r > 0 then append_change o' EntityObserved (observed_summary a r) ?d ?at v else Inr v) = Inr t"
    by (auto simp: apply_world_observation_def result_simps Let_def split: if_splits)
  have "world_inv o' u"
    using u world_inv_foreground [OF assms(2), of i] world_inv_append [OF _ opts]
    by (auto simp: update_foreground_def Let_def append_change_Inr split: if_splits)
  then have "world_inv o' v"
    using observe_elements_inv [OF v _ opts elems] assms(3) by (simp add: input_named_def list_all_iff)
  then show ?thesis
    using t world_inv_append [OF _ opts] by (auto simp: append_change_Inr split: if_splits)
qed

lemma screen_state_inv:
  assumes "apply_screen_state s i o' = Inr t" "world_inv o' s"
  shows "world_inv o' t"
  using assms(1)
  by (auto simp: apply_screen_state_def result_simps append_change_Inr validate_page_def belief_named_def
      split: if_splits intro!: world_inv_append world_inv_page [OF assms(2)])

lemma navigation_inv:
  assumes "apply_navigation s i o' = Inr t" "world_inv o' s"
  shows "world_inv o' t"
proof -
  have page: "validate_page (navigated_page i (ws_current_page s)) = Inr ()"
    if "ni_app_id i \<noteq> []" "ni_to_state i \<noteq> []" "confidence_in_range (ni_confidence i)"
    using that assms(2)
    by (auto simp: navigated_page_def validate_page_def belief_named_def world_inv_def split: if_splits)
  from assms(1) show ?thesis
    by (auto simp: apply_navigation_def result_simps append_change_Inr Let_def split: if_splits
        intro!: world_inv_append world_inv_page assms(2) page)
qed

lemma tool_settled_inv:
  assumes "apply_tool_settled s i o' = Inr t" "world_inv o' s"
  shows "world_inv o' t"
  using assms(1) by (auto simp: apply_tool_settled_def result_simps append_change_Inr
      split: if_splits intro!: world_inv_append assms(2))

lemma verification_inv:
  assumes "apply_verification s i o' = Inr t" "world_inv o' s"
  shows "world_inv o' t"
proof -
  have page: "validate_page (verified_page i (ws_current_page s)) = Inr ()"
    if "wp_status (ws_current_page s) \<noteq> WorldBeliefStatus.Unknown" "confidence_in_range (vi_confidence i)"
    using that assms(2)
    by (auto simp: verified_page_def validate_page_def belief_named_def world_inv_def split: if_splits)
  from assms(1) show ?thesis
    by (auto simp: apply_verification_def result_simps append_change_Inr split: if_splits
        intro!: world_inv_append world_inv_page assms(2) page)
qed

lemma expire_entity_inv:
  assumes "expire_entity o' d now s k = Inr t" "world_inv o' s" "validate_options o' = Inr ()" "k < length (ws_entities s)"
  shows "world_inv o' t \<and> length (ws_entities t) = length (ws_entities s)"
proof -
  have "confidence_in_range (we_confidence (ws_entities s ! k))"
    using assms(2,4) nth_mem [OF assms(4)] by (auto simp: world_inv_def validate_entity_def split: if_splits)
  then show ?thesis
    using assms(1,2) by (auto simp: expire_entity_def Let_def append_change_Inr split: if_splits
        intro!: world_inv_append world_inv_refresh [OF assms(2,4)] confidence_half assms(3))
qed

lemma expire_page_inv:
  assumes "expire_page o' d now s = Inr t" "world_inv o' s" "validate_options o' = Inr ()"
  shows "world_inv o' t"
proof -
  have page: "validate_page ((ws_current_page s)\<lparr>wp_status := Stale,
      wp_confidence := dbl_half (wp_confidence (ws_current_page s))\<rparr>) = Inr ()"
    if "wp_status (ws_current_page s) = Believed"
    using that assms(2) confidence_half
    by (auto simp: validate_page_def belief_named_def world_inv_def split: if_splits)
  from assms(1,2) show ?thesis
    by (auto simp: expire_page_def Let_def append_change_Inr page_expired_def split: if_splits
        intro!: world_inv_append world_inv_page assms(2,3) page)
qed

lemma expiry_inv:
  assumes "apply_expiry s i o' = Inr t" "world_inv o' s"
  shows "world_inv o' t"
proof -
  let ?d = "expiry_digest i" and ?n = "length (ws_entities s)"
  from assms(1) obtain u where opts: "validate_options o' = Inr ()"
    and u: "fold_res (expire_entity o' ?d (xi_now i)) s [0..<?n] = Inr u"
    and t: "expire_page o' ?d (xi_now i) u = Inr t"
    by (auto simp: apply_expiry_def result_simps Let_def)
  have "world_inv o' u \<and> length (ws_entities u) = ?n"
    by (rule fold_res_invariant [OF u]) (use assms(2) opts expire_entity_inv in \<open>auto simp: less_eq_Suc_le\<close>)
  then show ?thesis using expire_page_inv [OF t _ opts] by simp
qed

lemma apply_input_inv:
  assumes "apply_input o' s i = Inr t" "world_inv o' s" "input_named i"
  shows "world_inv o' t"
  using assms observation_inv screen_state_inv navigation_inv tool_settled_inv verification_inv expiry_inv
  by (cases i) (auto simp: apply_input_def)

lemma world_inv_default: "world_inv o' world_default"
  by (simp add: world_inv_def world_default_def foreground_default_def page_default_def validate_foreground_def
      validate_page_def belief_named_def distinct_elements_def ring_ok_def dbl_eq_refl) (code_simp)

end
