(* ===== verification/World_Properties.thy ===== *)
theory World_Properties
  imports World_Invariants "HOL-Library.Product_Lexorder"
begin

text \<open>
  What each operator adds to the change ring, the eviction order, expiry, replay and the wire round
  trip: the properties of the projection.
\<close>

section \<open>Growth of the ring\<close>

text \<open>\<open>grows o' s t ks\<close>: the ring of \<open>t\<close> is the newest part of the ring of \<open>s\<close> followed by
  changes of the kinds \<open>ks\<close>.\<close>

definition grows :: "WorldStateOptions \<Rightarrow> WorldState \<Rightarrow> WorldState \<Rightarrow> WorldChangeKind list \<Rightarrow> bool" where
  "grows o' s t ks \<longleftrightarrow> (\<exists>new. map wc_kind new = ks \<and>
     ws_recent_changes t = last_n (wo_max_recent_changes o') (ws_recent_changes s @ new))"

lemma grows_trans: "grows o' s t ks \<Longrightarrow> grows o' t u ls \<Longrightarrow> grows o' s u (ks @ ls)"
  unfolding grows_def by (metis append_assoc last_n_idem_append map_append)

lemma grows_same: "length (ws_recent_changes s) \<le> wo_max_recent_changes o' \<Longrightarrow>
    ws_recent_changes t = ws_recent_changes s \<Longrightarrow> grows o' s t []"
  by (auto simp: grows_def last_n_def)

lemma grows_append:
  assumes "length (ws_recent_changes s) \<le> wo_max_recent_changes o'" "0 < wo_max_recent_changes o'"
    "ws_recent_changes s' = ws_recent_changes s"
  shows "grows o' s (append_change_unchecked o' k summary d at s') [k]"
  using assms unfolding grows_def
  by (intro exI [of _ "[make_change s' k summary d at]"])
    (simp add: append_change_unchecked_def push_change_window, simp add: make_change_def)

lemma grows_update:
  "grows o' s t ks \<Longrightarrow> ws_recent_changes t' = ws_recent_changes t \<Longrightarrow> grows o' s t' ks"
  by (simp add: grows_def)

lemma grows_other_fields [simp]:
  "grows o' s (t\<lparr>ws_entities := es\<rparr>) ks \<longleftrightarrow> grows o' s t ks"
  "grows o' s (t\<lparr>ws_current_page := p\<rparr>) ks \<longleftrightarrow> grows o' s t ks"
  "grows o' s (t\<lparr>ws_foreground_app := f\<rparr>) ks \<longleftrightarrow> grows o' s t ks"
  by (simp_all add: grows_def)

lemma world_inv_ring: "world_inv o' s \<Longrightarrow> length (ws_recent_changes s) \<le> wo_max_recent_changes o'"
  by (simp add: world_inv_def)

lemma evict_one_grows:
  assumes "evict_one o' d at s = Inr t" "world_inv o' s" "validate_options o' = Inr ()"
  shows "grows o' s t [EntityEvicted]"
  using assms(1) grows_append [OF world_inv_ring [OF assms(2)], of s] assms(3)
  by (auto simp: evict_one_def Let_def result_simps append_change_Inr validate_options_Inr intro: grows_update)

lemma evict_rounds_grows:
  assumes "evict_rounds n o' d at s = Inr t" "world_inv o' s" "validate_options o' = Inr ()"
  shows "\<exists>k. grows o' s t (replicate k EntityEvicted)"
  using assms
proof (induction n arbitrary: s)
  case 0
  then show ?case using grows_same [OF world_inv_ring, of o' s s] by (metis evict_rounds.simps(1) replicate_0 sum.inject(2))
next
  case (Suc n)
  show ?case
  proof (cases "length (ws_entities s) \<ge> wo_max_entities o'")
    case True
    then obtain u where u: "evict_one o' d at s = Inr u" "evict_rounds n o' d at u = Inr t"
      using Suc.prems(1) by (auto simp: result_simps)
    obtain k where k: "grows o' u t (replicate k EntityEvicted)"
      using Suc.IH [OF u(2) evict_one_step(1) [OF Suc.prems(2,3) u(1)] Suc.prems(3)] by blast
    have "grows o' s t ([EntityEvicted] @ replicate k EntityEvicted)"
      using evict_one_grows [OF u(1) Suc.prems(2,3)] k by (rule grows_trans)
    then have "grows o' s t (replicate (Suc k) EntityEvicted)" by simp
    then show ?thesis by blast
  next
    case False
    then have "grows o' s t (replicate 0 EntityEvicted)"
      using Suc.prems grows_same [OF world_inv_ring [OF Suc.prems(2)], of s] by simp
    then show ?thesis by blast
  qed
qed

lemma observe_elements_grows:
  assumes "fold_res (observe_element o' at d) (s, a, r) es = Inr (t, a', r')" "world_inv o' s"
    "validate_options o' = Inr ()" "check_all check_element es = Inr ()" "\<forall>e\<in>set es. source_named (er_source e)"
  shows "\<exists>k. grows o' s t (replicate k EntityEvicted)"
proof -
  let ?P = "\<lambda>acc :: WorldState \<times> nat \<times> nat. world_inv o' (fst acc) \<and> (\<exists>k. grows o' s (fst acc) (replicate k EntityEvicted))"
  have "?P (t, a', r')"
  proof (rule fold_res_invariant [OF assms(1), where P = ?P])
    have "grows o' s s (replicate 0 EntityEvicted)" using grows_same [OF world_inv_ring [OF assms(2)]] by simp
    then show "?P (s, a, r)" using assms(2) unfolding fst_conv by blast
  next
    fix acc e acc' assume P: "?P acc" and e: "e \<in> set es" and step: "observe_element o' at d acc e = Inr acc'"
    obtain u n m v n' m' where uv: "acc = (u, n, m)" "acc' = (v, n', m')" by (cases acc; cases acc') auto
    have inv: "world_inv o' v"
      using observe_element_inv [of o' at d u n m e v n' m'] P e step assms(3-5)
      by (simp add: uv check_all_Inr_iff)
    have "\<exists>j. grows o' u v (replicate j EntityEvicted)"
    proof (cases "find_index (\<lambda>x. same_element (we_element x) e) (ws_entities u)")
      case (Some k)
      then have "ws_recent_changes v = ws_recent_changes u" using step by (auto simp: uv observe_element_def)
      then have "grows o' u v (replicate 0 EntityEvicted)"
        using grows_same [OF world_inv_ring, of o' u v] P by (simp add: uv)
      then show ?thesis by blast
    next
      case None
      then obtain w where w: "evict_while_full o' d at u = Inr w" "ws_recent_changes v = ws_recent_changes w"
        using step by (auto simp: uv observe_element_def result_simps)
      obtain j where "grows o' u w (replicate j EntityEvicted)"
        using evict_rounds_grows [OF w(1) [unfolded evict_while_full_def] _ assms(3)] P by (auto simp: uv)
      then show ?thesis using grows_update w(2) by blast
    qed
    then obtain j k where "grows o' s v (replicate k EntityEvicted @ replicate j EntityEvicted)"
      using P grows_trans unfolding uv fst_conv by blast
    then show "?P acc'" using inv unfolding uv fst_conv replicate_add [symmetric] by blast
  qed
  then show ?thesis by simp
qed

text \<open>The kinds of the changes that one input adds.\<close>

definition change_kinds :: "WorldStateInput \<Rightarrow> WorldState \<Rightarrow> WorldChangeKind list \<Rightarrow> bool" where
  "change_kinds i s ks = (case i of
      ObservationInput _ \<Rightarrow> (\<exists>fg k seen. ks = fg @ replicate k EntityEvicted @ seen \<and>
        fg \<in> {[], [PageAssumed]} \<and> seen \<in> {[], [EntityObserved]})
    | ScreenStateInput _ \<Rightarrow> ks = [PageAssumed]
    | NavigationInput n \<Rightarrow> ks = (if navigation_conflict s n then [ConflictMarked] else []) @ [NavigationObserved]
    | ToolSettledInput _ \<Rightarrow> ks = [ToolSettled]
    | VerificationInput _ \<Rightarrow> ks = [VerificationSettled]
    | ExpiryInput _ \<Rightarrow> (\<exists>k. ks = replicate k EntityStaled))"

lemma observation_grows:
  assumes "apply_world_observation s i o' = Inr t" "world_inv o' s" "input_named (ObservationInput i)"
  shows "\<exists>ks. grows o' s t ks \<and> change_kinds (ObservationInput i) s ks"
proof -
  let ?d = "observation_digest i" and ?at = "oi_observed_at i"
  from assms(1) obtain u v a r where opts: "validate_options o' = Inr ()"
    and elems: "check_all check_element (oi_elements i) = Inr ()"
    and u: "update_foreground o' i ?d s = Inr u"
    and v: "fold_res (observe_element o' ?at ?d) (u, 0, 0) (oi_elements i) = Inr (v, a, r)"
    and t: "(if a + r > 0 then append_change o' EntityObserved (observed_summary a r) ?d ?at v else Inr v) = Inr t"
    by (auto simp: apply_world_observation_def result_simps Let_def split: if_splits)
  have named: "\<forall>e\<in>set (oi_elements i). source_named (er_source e)"
    using assms(3) by (simp add: input_named_def list_all_iff)
  have pos: "0 < wo_max_recent_changes o'" using opts by (simp add: validate_options_Inr)
  have invu: "world_inv o' u"
    using u world_inv_foreground [OF assms(2), of i] world_inv_append [OF _ opts]
    by (auto simp: update_foreground_def Let_def append_change_Inr split: if_splits)
  have invv: "world_inv o' v" by (rule observe_elements_inv [OF v invu opts elems named])
  obtain k where k: "grows o' u v (replicate k EntityEvicted)"
    using observe_elements_grows [OF v invu opts elems named] by blast
  have "\<exists>fg. fg \<in> {[], [PageAssumed]} \<and> grows o' s u fg"
    using u grows_same [OF world_inv_ring [OF assms(2)], of u] grows_append [OF world_inv_ring [OF assms(2)] pos]
    by (auto simp: update_foreground_def Let_def append_change_Inr split: if_splits)
  then obtain fg where fg: "fg \<in> {[], [PageAssumed]}" "grows o' s u fg" by blast
  have "\<exists>seen. seen \<in> {[], [EntityObserved]} \<and> grows o' v t seen"
    using t grows_same [OF world_inv_ring [OF invv], of t] grows_append [OF world_inv_ring [OF invv] pos, of v]
    by (auto simp: append_change_Inr split: if_splits)
  then obtain seen where seen: "seen \<in> {[], [EntityObserved]}" "grows o' v t seen" by blast
  have "grows o' s t (fg @ replicate k EntityEvicted @ seen)"
    using grows_trans [OF fg(2) grows_trans [OF k seen(2)]] .
  then show ?thesis using fg(1) seen(1) unfolding change_kinds_def WorldStateInput.case by blast
qed

lemma expire_entities_grows:
  assumes "fold_res (expire_entity o' d now) s ks = Inr u" "world_inv o' s" "validate_options o' = Inr ()"
    "\<forall>k\<in>set ks. k < length (ws_entities s)"
  shows "world_inv o' u \<and> (\<exists>n. grows o' s u (replicate n EntityStaled))"
proof -
  let ?P = "\<lambda>t. world_inv o' t \<and> length (ws_entities t) = length (ws_entities s) \<and> (\<exists>n. grows o' s t (replicate n EntityStaled))"
  have "?P u"
  proof (rule fold_res_invariant [OF assms(1), where P = ?P])
    have "grows o' s s (replicate 0 EntityStaled)" using grows_same [OF world_inv_ring [OF assms(2)]] by simp
    then show "?P s" using assms(2) by blast
  next
    fix t k v assume P: "?P t" and k: "k \<in> set ks" and step: "expire_entity o' d now t k = Inr v"
    have inv: "world_inv o' v \<and> length (ws_entities v) = length (ws_entities t)"
      using expire_entity_inv [OF step _ assms(3)] P k assms(4) by simp
    have "grows o' t v [] \<or> grows o' t v [EntityStaled]"
      using step P grows_same [OF world_inv_ring, of o' t v] grows_append [OF world_inv_ring, of o' t] assms(3)
      by (auto simp: expire_entity_def Let_def append_change_Inr validate_options_Inr split: if_splits)
    then have "\<exists>n. grows o' s v (replicate n EntityStaled)"
      using P grows_trans [of o' s t _ v] by (metis append_Nil2 replicate_append_same replicate_Suc)
    then show "?P v" using inv P by simp
  qed
  then show ?thesis by blast
qed

lemma apply_input_grows:
  assumes "apply_input o' s i = Inr t" "world_inv o' s" "input_named i"
  shows "\<exists>ks. grows o' s t ks \<and> change_kinds i s ks"
proof (cases i)
  case (ObservationInput x)
  then show ?thesis using observation_grows assms by (simp add: apply_input_def)
next
  case (ScreenStateInput x)
  then show ?thesis
    using assms(1) grows_append [OF world_inv_ring [OF assms(2)]]
    by (auto simp: apply_input_def apply_screen_state_def result_simps append_change_Inr change_kinds_def
        validate_options_Inr split: if_splits)
next
  case (NavigationInput x)
  let ?d = "navigation_digest x" and ?at = "ni_observed_at x"
  from assms(1) NavigationInput obtain u summary where opts: "validate_options o' = Inr ()"
    and u: "(if navigation_conflict s x then append_change o' ConflictMarked
         (''conflict projected='' @ wp_app_id (ws_current_page s) @ ''/'' @ wp_state_id (ws_current_page s) @
          '' claimed='' @ ni_app_id x @ ''/'' @ ni_from_state x) ?d ?at s else Inr s) = Inr u"
    and t: "append_change o' NavigationObserved summary ?d ?at
      (u\<lparr>ws_current_page := navigated_page x (ws_current_page u)\<rparr>) = Inr t"
    by (auto simp: apply_input_def apply_navigation_def Let_def result_simps split: if_splits)
  have pos: "0 < wo_max_recent_changes o'" using opts by (simp add: validate_options_Inr)
  have first: "world_inv o' u \<and> grows o' s u (if navigation_conflict s x then [ConflictMarked] else [])"
    using u assms(2) world_inv_append [OF assms(2) opts] grows_append [OF world_inv_ring [OF assms(2)] pos, of s]
      grows_same [OF world_inv_ring [OF assms(2)], of s]
    by (auto simp: append_change_Inr split: if_splits)
  have "grows o' u t [NavigationObserved]"
    using t grows_append [OF world_inv_ring pos, of u "u\<lparr>ws_current_page := navigated_page x (ws_current_page u)\<rparr>"] first
    by (simp add: append_change_Inr)
  with first have "grows o' s t ((if navigation_conflict s x then [ConflictMarked] else []) @ [NavigationObserved])"
    using grows_trans by blast
  then show ?thesis unfolding change_kinds_def NavigationInput WorldStateInput.case by blast
next
  case (ToolSettledInput x)
  then show ?thesis
    using assms(1) grows_append [OF world_inv_ring [OF assms(2)]]
    by (auto simp: apply_input_def apply_tool_settled_def result_simps append_change_Inr change_kinds_def
        validate_options_Inr split: if_splits)
next
  case (VerificationInput x)
  then show ?thesis
    using assms(1) grows_append [OF world_inv_ring [OF assms(2)]]
    by (auto simp: apply_input_def apply_verification_def result_simps append_change_Inr change_kinds_def
        validate_options_Inr split: if_splits)
next
  case (ExpiryInput x)
  let ?d = "expiry_digest x"
  from assms(1) ExpiryInput obtain u where opts: "validate_options o' = Inr ()"
    and u: "fold_res (expire_entity o' ?d (xi_now x)) s [0..<length (ws_entities s)] = Inr u"
    and t: "expire_page o' ?d (xi_now x) u = Inr t"
    by (auto simp: apply_input_def apply_expiry_def result_simps Let_def)
  from expire_entities_grows [OF u assms(2) opts] obtain n where
    n: "world_inv o' u" "grows o' s u (replicate n EntityStaled)" by auto
  have "grows o' u t (replicate 0 EntityStaled) \<or> grows o' u t (replicate 1 EntityStaled)"
    using t grows_same [OF world_inv_ring [OF n(1)], of t] grows_append [OF world_inv_ring [OF n(1)], of ] opts
    by (auto simp: expire_page_def Let_def append_change_Inr validate_options_Inr split: if_splits)
  then have "\<exists>k. grows o' s t (replicate n EntityStaled @ replicate k EntityStaled)"
    using grows_trans [OF n(2)] by blast
  then show ?thesis
    unfolding change_kinds_def ExpiryInput WorldStateInput.case replicate_add [symmetric] by blast
qed

section \<open>The eviction order\<close>

definition evict_key :: "WorldEntity \<Rightarrow> bool \<times> int \<times> int \<times> string" where
  "evict_key e = (\<not> we_stale e, ts_wall (we_last_seen_at e), dbl_key (we_confidence e),
     canonical_json_string (element_to_json (we_element e)))"

text \<open>On entities with a numeric confidence the comparison is the lexicographic order of the keys, so
  it is a strict weak order and \<open>std::min_element\<close> is well defined.\<close>

lemma evicts_before_key:
  assumes "\<not> dbl_isnan (we_confidence l)" "\<not> dbl_isnan (we_confidence r)"
  shows "evicts_before l r \<longleftrightarrow> evict_key l < evict_key r"
  using assms by (auto simp: evicts_before_def evict_key_def dbl_eq_def dbl_lt_def)

lemma min_scan_minimal:
  fixes f :: "'a \<Rightarrow> 'b::linorder"
  assumes "\<And>x y. x \<in> set zs \<Longrightarrow> y \<in> set zs \<Longrightarrow> lt x y \<longleftrightarrow> f x < f y"
    and "k < length zs" "zs ! k = y" "drop i zs = xs" "i \<le> length zs" "\<forall>x\<in>set (take i zs). f y \<le> f x"
  shows "min_scan lt k y i xs < length zs \<and> (\<forall>x\<in>set zs. f (zs ! min_scan lt k y i xs) \<le> f x)"
  using assms(2-)
proof (induction xs arbitrary: k y i)
  case Nil
  then show ?case by simp
next
  case (Cons x xs)
  have i: "i < length zs" "zs ! i = x" "drop (Suc i) zs = xs"
    using Cons.prems(3) by (metis drop_eq_Nil linorder_not_le list.distinct(1),
      metis Cons_nth_drop_Suc drop_eq_Nil linorder_not_le list.distinct(1) list.inject, metis drop_Suc list.sel(3) tl_drop)
  have lt: "lt x y \<longleftrightarrow> f x < f y" using assms(1) i Cons.prems(1,2) nth_mem by blast
  have all: "\<forall>z\<in>set (take (Suc i) zs). f (if lt x y then x else y) \<le> f z"
    using Cons.prems(5) i lt by (auto simp: take_Suc_conv_app_nth)
  show ?case
  proof (cases "lt x y")
    case True
    then show ?thesis using Cons.IH [of i x "Suc i"] i all by simp
  next
    case False
    then show ?thesis using Cons.IH [of k y "Suc i"] Cons.prems(1,2) i all by simp
  qed
qed

lemma min_element_minimal:
  fixes f :: "'a \<Rightarrow> 'b::linorder"
  assumes "\<And>x y. x \<in> set zs \<Longrightarrow> y \<in> set zs \<Longrightarrow> lt x y \<longleftrightarrow> f x < f y" "zs \<noteq> []"
  shows "\<forall>x\<in>set zs. f (zs ! min_element lt zs) \<le> f x"
proof (cases zs)
  case (Cons y ys)
  then show ?thesis
    using min_scan_minimal [where zs = zs and lt = lt and f = f and k = 0 and i = 1 and y = y and xs = ys] assms(1)
    by (simp add: min_element_def)
qed (use assms(2) in simp)

lemma eviction_candidate_minimal:
  assumes "\<forall>e\<in>set (ws_entities s). \<not> dbl_isnan (we_confidence e)" "ws_entities s \<noteq> []"
  shows "eviction_candidate s < length (ws_entities s)"
    and "\<And>e. e \<in> set (ws_entities s) \<Longrightarrow> \<not> evicts_before e (ws_entities s ! eviction_candidate s)"
proof -
  show less: "eviction_candidate s < length (ws_entities s)"
    using assms(2) by (simp add: eviction_candidate_def min_element_less)
  fix e assume e: "e \<in> set (ws_entities s)"
  have "evict_key (ws_entities s ! eviction_candidate s) \<le> evict_key e"
    using min_element_minimal [of "ws_entities s" evicts_before evict_key] assms evicts_before_key e
    by (auto simp: eviction_candidate_def)
  then show "\<not> evicts_before e (ws_entities s ! eviction_candidate s)"
    using evicts_before_key e assms(1) nth_mem [OF less] by (simp add: leD)
qed

lemma prune_rounds_spec:
  assumes "\<forall>e\<in>set (ws_entities s). \<not> dbl_isnan (we_confidence e)"
    and "length (ws_recent_changes s) \<le> wo_max_recent_changes o'" "0 < wo_max_recent_changes o'"
    and "length (ws_entities s) \<le> n + wo_max_entities o'"
  shows "\<exists>removed. mset (ws_entities s) = mset (ws_entities (prune_rounds n o' s)) + mset removed \<and>
    length (ws_entities (prune_rounds n o' s)) = min (length (ws_entities s)) (wo_max_entities o') \<and>
    (\<forall>x\<in>set removed. \<forall>y\<in>set (ws_entities (prune_rounds n o' s)). \<not> evicts_before y x) \<and>
    grows o' s (prune_rounds n o' s) (replicate (length removed) EntityEvicted)"
  using assms
proof (induction n arbitrary: s)
  case 0
  then show ?case using grows_same [of s o' s] by (intro exI [of _ "[]"]) (simp add: min_def)
next
  case (Suc n)
  show ?case
  proof (cases "length (ws_entities s) > wo_max_entities o'")
    case True
    let ?k = "eviction_candidate s"
    let ?a = "append_change_unchecked o' EntityEvicted (evicted_summary (ws_entities s ! ?k)) digest_zero timestamp_default s"
    let ?t = "?a\<lparr>ws_entities := erase_at ?k (ws_entities s)\<rparr>"
    have ne: "ws_entities s \<noteq> []" using True by auto
    note cand = eviction_candidate_minimal [OF Suc.prems(1) ne]
    have step: "prune_rounds (Suc n) o' s = prune_rounds n o' ?t" using True by (simp add: Let_def)
    have grow: "grows o' s ?t [EntityEvicted]" using grows_append [OF Suc.prems(2,3)] by simp
    have ring: "length (ws_recent_changes ?t) \<le> wo_max_recent_changes o'"
      using Suc.prems(2,3) by (simp add: append_change_unchecked_def push_change_window)
    have len: "length (ws_entities ?t) = length (ws_entities s) - 1" using cand(1) by simp
    have sub: "set (ws_entities ?t) \<subseteq> set (ws_entities s)" using set_erase_at by simp
    obtain removed where r: "mset (ws_entities ?t) = mset (ws_entities (prune_rounds n o' ?t)) + mset removed"
      "length (ws_entities (prune_rounds n o' ?t)) = min (length (ws_entities ?t)) (wo_max_entities o')"
      "\<forall>x\<in>set removed. \<forall>y\<in>set (ws_entities (prune_rounds n o' ?t)). \<not> evicts_before y x"
      "grows o' ?t (prune_rounds n o' ?t) (replicate (length removed) EntityEvicted)"
      using Suc.IH [OF _ ring Suc.prems(3)] Suc.prems(1,4) len sub True by fastforce
    have "set (ws_entities (prune_rounds n o' ?t)) \<subseteq> set (ws_entities ?t)"
      using arg_cong [OF r(1), of set_mset] by simp
    with sub have keep: "\<forall>y\<in>set (ws_entities (prune_rounds n o' ?t)). \<not> evicts_before y (ws_entities s ! ?k)"
      using cand(2) by blast
    have "mset (ws_entities s) = mset (ws_entities (prune_rounds n o' ?t)) + mset (ws_entities s ! ?k # removed)"
      using mset_erase_at [OF cand(1)] r(1) by simp
    moreover have "length (ws_entities (prune_rounds n o' ?t)) = min (length (ws_entities s)) (wo_max_entities o')"
      using r(2) len True by simp
    moreover have "grows o' s (prune_rounds n o' ?t) (replicate (length (ws_entities s ! ?k # removed)) EntityEvicted)"
      using grows_trans [OF grow r(4)] by simp
    ultimately show ?thesis
      unfolding step using r(3) keep by (intro exI [of _ "ws_entities s ! ?k # removed"]) simp
  next
    case False
    then show ?thesis using Suc.prems(2) grows_same [of s o' s] by (intro exI [of _ "[]"]) (simp add: min_def)
  qed
qed

section \<open>Expiry\<close>

definition expired_entity :: "WorldStateOptions \<Rightarrow> Timestamp \<Rightarrow> WorldEntity \<Rightarrow> WorldEntity" where
  "expired_entity o' now e =
     (if entity_expired o' now e then e\<lparr>we_stale := True, we_confidence := dbl_half (we_confidence e)\<rparr> else e)"

definition expired_page :: "WorldStateOptions \<Rightarrow> Timestamp \<Rightarrow> WorldPageAssumption \<Rightarrow> WorldPageAssumption" where
  "expired_page o' now p =
     (if page_expired o' now p then p\<lparr>wp_status := Stale, wp_confidence := dbl_half (wp_confidence p)\<rparr> else p)"

lemma expire_entity_fields:
  assumes "expire_entity o' d now s k = Inr t" "k < length (ws_entities s)"
  shows "ws_entities t = (ws_entities s)[k := expired_entity o' now (ws_entities s ! k)]"
    "ws_current_page t = ws_current_page s" "ws_foreground_app t = ws_foreground_app s"
  using assms by (auto simp: expire_entity_def Let_def append_change_Inr expired_entity_def split: if_splits)

lemma expire_entities_fields:
  assumes "fold_res (expire_entity o' d now) s [k..<n] = Inr t" "n = length (ws_entities s)" "k \<le> n"
  shows "ws_entities t = take k (ws_entities s) @ map (expired_entity o' now) (drop k (ws_entities s)) \<and>
    ws_current_page t = ws_current_page s \<and> ws_foreground_app t = ws_foreground_app s"
  using assms
proof (induction "n - k" arbitrary: k s)
  case (Suc m)
  then have k: "k < n" by simp
  then obtain u where u: "expire_entity o' d now s k = Inr u" "fold_res (expire_entity o' d now) u [Suc k..<n] = Inr t"
    using Suc.prems(1) by (auto simp: upt_conv_Cons result_simps)
  have ks: "k < length (ws_entities s)" using k Suc.prems(2) by simp
  note f = expire_entity_fields [OF u(1) ks]
  have "ws_entities t = take (Suc k) (ws_entities u) @ map (expired_entity o' now) (drop (Suc k) (ws_entities u)) \<and>
      ws_current_page t = ws_current_page u \<and> ws_foreground_app t = ws_foreground_app u"
    using Suc.hyps(1) [of "Suc k" u] Suc.hyps(2) u(2) f(1) Suc.prems(2) k by simp
  then show ?case
    using f ks by (simp add: take_Suc_conv_app_nth Cons_nth_drop_Suc [symmetric] take_update_cancel)
qed (simp add: result_simps)

lemma expire_page_fields:
  assumes "expire_page o' d now s = Inr t"
  shows "ws_entities t = ws_entities s" "ws_current_page t = expired_page o' now (ws_current_page s)"
    "ws_foreground_app t = ws_foreground_app s"
  using assms by (auto simp: expire_page_def Let_def append_change_Inr expired_page_def split: if_splits)

lemma apply_expiry_fields:
  assumes "apply_expiry s i o' = Inr t"
  shows "validate_options o' = Inr ()" "ws_entities t = map (expired_entity o' (xi_now i)) (ws_entities s)"
    "ws_current_page t = expired_page o' (xi_now i) (ws_current_page s)" "ws_foreground_app t = ws_foreground_app s"
proof -
  let ?d = "expiry_digest i"
  from assms obtain u where "validate_options o' = Inr ()"
    and u: "fold_res (expire_entity o' ?d (xi_now i)) s [0..<length (ws_entities s)] = Inr u"
    and t: "expire_page o' ?d (xi_now i) u = Inr t"
    by (auto simp: apply_expiry_def result_simps Let_def)
  then show "validate_options o' = Inr ()" "ws_entities t = map (expired_entity o' (xi_now i)) (ws_entities s)"
    "ws_current_page t = expired_page o' (xi_now i) (ws_current_page s)" "ws_foreground_app t = ws_foreground_app s"
    using expire_entities_fields [OF u] expire_page_fields [OF t] by simp_all
qed

lemma expired_once:
  "\<not> entity_expired o' now (expired_entity o' now e)" "\<not> page_expired o' now (expired_page o' now p)"
  by (simp_all add: expired_entity_def entity_expired_def expired_page_def page_expired_def)

lemma apply_expiry_nothing:
  assumes "validate_options o' = Inr ()" "\<forall>e\<in>set (ws_entities s). \<not> entity_expired o' (xi_now i) e"
    "\<not> page_expired o' (xi_now i) (ws_current_page s)"
  shows "apply_expiry s i o' = Inr s"
proof -
  have "fold_res (expire_entity o' d (xi_now i)) s ks = Inr s" if "\<forall>k\<in>set ks. k < length (ws_entities s)" for d ks
    using that assms(2) by (induction ks) (simp_all add: expire_entity_def Let_def)
  then show ?thesis using assms by (simp add: apply_expiry_def Let_def expire_page_def)
qed

section \<open>Properties\<close>

definition demo_options :: WorldStateOptions where
  "demo_options = \<lparr>wo_max_entities = 1, wo_max_recent_changes = 64, wo_max_change_summary_bytes = 2048,
     wo_stale_after = 30000\<rparr>"

definition demo_screen :: WorldStateInput where
  "demo_screen = ScreenStateInput \<lparr>si_app_id = ''a'', si_state_id = ''p'', si_confidence = dbl_one,
     si_recognized_at = timestamp_default\<rparr>"

definition demo_navigation :: WorldNavigationInput where
  "demo_navigation = \<lparr>ni_app_id = ''a'', ni_from_state = ''q'', ni_to_state = ''r'', ni_transition_id = ''t'',
     ni_success = True, ni_confidence = dbl_one, ni_observed_at = timestamp_default\<rparr>"

definition result_or_default :: "WorldState Result \<Rightarrow> WorldState" where
  "result_or_default r = (case r of Inl _ \<Rightarrow> world_default | Inr s \<Rightarrow> s)"

definition demo_world :: WorldState where
  "demo_world = result_or_default (apply_input demo_options world_default demo_screen)"

definition demo_moved :: WorldState where
  "demo_moved = result_or_default (apply_input demo_options demo_world (NavigationInput demo_navigation))"

lemma demo_screen_applies: "apply_input demo_options world_default demo_screen = Inr demo_world"
  by (simp add: demo_world_def demo_screen_def apply_input_def apply_screen_state_def validate_options_def
      demo_options_def append_change_def result_or_default_def)

lemma demo_page: "ws_current_page demo_world = \<lparr>wp_status = Believed, wp_app_id = ''a'', wp_state_id = ''p'',
    wp_confidence = dbl_one, wp_recognized_at = timestamp_default\<rparr>" "ws_entities demo_world = []"
  by (simp_all add: demo_world_def demo_screen_def apply_input_def apply_screen_state_def validate_options_def
      demo_options_def append_change_def result_or_default_def world_default_def)

lemma demo_moves: "apply_input demo_options demo_world (NavigationInput demo_navigation) = Inr demo_moved"
  by (simp add: demo_moved_def demo_navigation_def apply_input_def apply_navigation_def validate_options_def
      demo_options_def append_change_def result_or_default_def demo_page navigation_conflict_def Let_def)

lemma demo_inv: "world_inv demo_options demo_world"
  using demo_screen_applies world_inv_default by (rule apply_input_inv) (simp add: demo_screen_def input_named_def)

definition demo_entity :: "bool \<Rightarrow> WorldEntity" where
  "demo_entity stale = \<lparr>we_element = \<lparr>er_observation_id = Id128 (replicate 16 1), er_environment_epoch = 0,
       er_source = UiTree, er_stable_hint = ''h'', er_bounds = \<lparr>rect_left = dbl_zero, rect_top = dbl_zero,
       rect_right = dbl_one, rect_bottom = dbl_one\<rparr>, er_space = Id128 (replicate 16 1),
       er_evidence_digest = digest_zero\<rparr>,
     we_confidence = dbl_one, we_stale = stale, we_last_seen_at = timestamp_default,
     we_source_event_digest = digest_zero\<rparr>"

definition demo_shown :: WorldState where
  "demo_shown = demo_world\<lparr>ws_entities := [demo_entity False]\<rparr>"

lemma demo_entity_valid: "validate_entity (demo_entity stale) = Inr ()"
  by code_simp

lemma demo_shown_inv: "world_inv demo_options demo_shown"
  using demo_inv demo_entity_valid by (simp add: demo_shown_def world_inv_def distinct_elements_def) (simp add: demo_options_def)

text \<open>Pruning to another capacity: the options differ in the number of entities only.\<close>

lemma append_capacity: "append_change_unchecked (o'\<lparr>wo_max_entities := n\<rparr>) k summary d at s = append_change_unchecked o' k summary d at s"
  by (simp add: append_change_unchecked_def)

lemma prune_rounds_inv:
  "world_inv o' s \<Longrightarrow> validate_options o' = Inr () \<Longrightarrow> length (ws_entities s) \<le> k + n \<Longrightarrow>
     world_inv (o'\<lparr>wo_max_entities := n\<rparr>) (prune_rounds k (o'\<lparr>wo_max_entities := n\<rparr>) s)"
proof (induction k arbitrary: s)
  case 0
  then show ?case by (simp add: world_inv_def)
next
  case (Suc k)
  let ?t = "append_change_unchecked o' EntityEvicted (evicted_summary (ws_entities s ! eviction_candidate s)) digest_zero timestamp_default s"
  let ?u = "?t\<lparr>ws_entities := erase_at (eviction_candidate s) (ws_entities s)\<rparr>"
  have t: "world_inv o' ?t" using Suc.prems(1,2) by (rule world_inv_append) simp
  have same: "ws_entities ?t = ws_entities s" by (simp add: append_change_unchecked_def)
  have "world_inv o' ?u" using world_inv_erase [OF t, of "eviction_candidate s"] same by simp
  moreover have "length (ws_entities ?u) \<le> k + n" if "n < length (ws_entities s)"
  proof -
    have "ws_entities s \<noteq> []" using that by auto
    then have "eviction_candidate s < length (ws_entities s)" by (simp add: eviction_candidate_def min_element_less)
    then show ?thesis using Suc.prems(3) by simp
  qed
  ultimately show ?case using Suc.IH [of ?u] Suc.prems(1,2) same by (simp add: append_capacity Let_def world_inv_def [of _ s])
qed

lemma prune_inv:
  "world_inv o' s \<Longrightarrow> validate_options o' = Inr () \<Longrightarrow> world_inv (o'\<lparr>wo_max_entities := n\<rparr>) (prune_entities s (o'\<lparr>wo_max_entities := n\<rparr>))"
  by (simp add: prune_entities_def prune_rounds_inv)

text \<open>C21: Every operator keeps the projection well formed. An input record whose observed elements have named
  sources, applied to a projection with the invariant, leaves it with the invariant: valid
  foreground and page beliefs, valid and pairwise different entities, both capacities, named change
  kinds, and each sequence number larger than the one before unless the 64-bit counter has wrapped
  to zero there. The result passes \<open>validate\<close> when no sequence number in the ring is zero. Pruning to
  any other number of entities leaves the invariant for that number. The condition on the sources is
  needed: the observation operator accepts an element whose source is outside the enumeration, which
  \<open>validate\<close> refuses.\<close>

theorem world_operators_keep_invariant:
  assumes "world_inv o' s"
  shows "(input_named i \<and> apply_input o' s i = Inr t \<longrightarrow>
      world_inv o' t \<and> (list_all (\<lambda>c. wc_change_sequence c \<noteq> 0) (ws_recent_changes t) \<longrightarrow> validate_world t = Inr ())) \<and>
    (validate_options o' = Inr () \<longrightarrow> world_inv (o'\<lparr>wo_max_entities := n\<rparr>) (prune_entities s (o'\<lparr>wo_max_entities := n\<rparr>)))"
proof (intro conjI impI)
  assume named: "input_named i \<and> apply_input o' s i = Inr t"
  show inv: "world_inv o' t" using named assms by (blast intro: apply_input_inv)
  show "validate_world t = Inr ()" if "list_all (\<lambda>c. wc_change_sequence c \<noteq> 0) (ws_recent_changes t)"
    using world_inv_valid [OF inv] that by (simp add: list_all_iff)
next
  assume "validate_options o' = Inr ()"
  with assms show "world_inv (o'\<lparr>wo_max_entities := n\<rparr>) (prune_entities s (o'\<lparr>wo_max_entities := n\<rparr>))" by (rule prune_inv)
qed

theorem world_operators_keep_invariant_witness:
  "world_inv demo_options demo_shown \<and> world_inv demo_options demo_moved \<and>
   world_inv (demo_options\<lparr>wo_max_entities := 0\<rparr>) (prune_entities demo_shown (demo_options\<lparr>wo_max_entities := 0\<rparr>)) \<and> length (ws_entities demo_shown) = 1"
proof -
  have "input_named (NavigationInput demo_navigation)" by (simp add: input_named_def)
  moreover have "validate_options demo_options = Inr ()" by (simp add: validate_options_Inr demo_options_def)
  ultimately show ?thesis
    using world_operators_keep_invariant [OF demo_inv, of "NavigationInput demo_navigation" demo_moved 0]
      world_operators_keep_invariant [OF demo_shown_inv, of "NavigationInput demo_navigation" demo_moved 0] demo_moves demo_shown_inv
    by (simp add: demo_shown_def)
qed

text \<open>A replay of input records is the incremental advance: rebuilding from a longer sequence is
  applying the further records to the rebuilt state, with the same first error, and every
  projection that a replay returns satisfies the invariant.\<close>

theorem world_replay_is_incremental:
  assumes "list_all input_named xs" and "rebuild_world_state xs o' = Inr s"
  shows "rebuild_world_state (xs @ ys) o' = fold_res (apply_input o') s ys \<and> world_inv o' s"
proof (intro conjI)
  have opts: "validate_options o' = Inr ()" and run: "fold_res (apply_input o') world_default xs = Inr s"
    using assms(2) by (auto simp: rebuild_world_state_def result_simps)
  show "rebuild_world_state (xs @ ys) o' = fold_res (apply_input o') s ys"
    using opts run by (simp add: rebuild_world_state_def fold_res_append)
  show "world_inv o' s"
    by (rule fold_res_invariant [OF run])
      (use assms(1) world_inv_default apply_input_inv in \<open>auto simp: list_all_iff\<close>)
qed

theorem world_replay_is_incremental_witness:
  "rebuild_world_state [demo_screen, NavigationInput demo_navigation] demo_options = Inr demo_moved"
proof -
  have "rebuild_world_state [demo_screen] demo_options = Inr demo_world"
    using demo_screen_applies by (simp add: rebuild_world_state_def validate_options_def) (simp add: demo_options_def)
  from world_replay_is_incremental [OF _ this, of "[NavigationInput demo_navigation]"]
  show ?thesis by (simp add: demo_screen_def input_named_def demo_moves)
qed

text \<open>The change ring records each input as documented. The new ring is the newest part of the old ring
  followed by the changes of this input, whose kinds are fixed by the input; a conflict is
  recorded exactly for a navigation whose departure page differs from a known projected page.\<close>

theorem conflict_only_from_navigation:
  assumes "world_inv o' s" and "input_named i" and "apply_input o' s i = Inr t"
  shows "\<exists>new. ws_recent_changes t = last_n (wo_max_recent_changes o') (ws_recent_changes s @ new) \<and>
    change_kinds i s (map wc_kind new) \<and>
    (ConflictMarked \<in> set (map wc_kind new) \<longleftrightarrow> (\<exists>n. i = NavigationInput n \<and> navigation_conflict s n))"
proof -
  obtain ks where ks: "grows o' s t ks" "change_kinds i s ks" using apply_input_grows [OF assms(3,1,2)] by blast
  then obtain new where new: "map wc_kind new = ks"
    "ws_recent_changes t = last_n (wo_max_recent_changes o') (ws_recent_changes s @ new)" by (auto simp: grows_def)
  have "ConflictMarked \<in> set ks \<longleftrightarrow> (\<exists>n. i = NavigationInput n \<and> navigation_conflict s n)"
    using ks(2) by (cases i) (auto simp: change_kinds_def)
  then show ?thesis using ks(2) new by blast
qed

theorem conflict_only_from_navigation_witness:
  "\<exists>new. ws_recent_changes demo_moved = last_n 64 (ws_recent_changes demo_world @ new) \<and>
    map wc_kind new = [ConflictMarked, NavigationObserved]"
proof -
  have "navigation_conflict demo_world demo_navigation"
    by (simp add: navigation_conflict_def demo_page demo_navigation_def)
  moreover have "input_named (NavigationInput demo_navigation)" by (simp add: input_named_def)
  ultimately show ?thesis
    using conflict_only_from_navigation [OF demo_inv _ demo_moves] unfolding change_kinds_def WorldStateInput.case
    by (auto simp: demo_options_def)
qed

text \<open>Pruning keeps exactly the capacity and evicts in the frozen order: the kept and the removed
  entities together are the old ones, no kept entity should have been evicted before a
  removed one, and every eviction is recorded. Confidences must be numbers.\<close>

theorem prune_keeps_best:
  assumes "\<forall>e\<in>set (ws_entities s). \<not> dbl_isnan (we_confidence e)"
    and "length (ws_recent_changes s) \<le> wo_max_recent_changes o'" and "0 < wo_max_recent_changes o'"
  shows "\<exists>removed. mset (ws_entities s) = mset (ws_entities (prune_entities s o')) + mset removed \<and>
    length (ws_entities (prune_entities s o')) = min (length (ws_entities s)) (wo_max_entities o') \<and>
    (\<forall>x\<in>set removed. \<forall>y\<in>set (ws_entities (prune_entities s o')). \<not> evicts_before y x) \<and>
    grows o' s (prune_entities s o') (replicate (length removed) EntityEvicted)"
  unfolding prune_entities_def by (rule prune_rounds_spec [OF assms]) simp

theorem prune_keeps_best_witness:
  "ws_entities (prune_entities (world_default\<lparr>ws_entities := [demo_entity False, demo_entity True]\<rparr>) demo_options) =
    [demo_entity False]"
proof -
  let ?s = "world_default\<lparr>ws_entities := [demo_entity False, demo_entity True]\<rparr>"
  let ?t = "ws_entities (prune_entities ?s demo_options)"
  have "\<not> dbl_isnan dbl_one" by code_simp
  then obtain removed where r: "mset (ws_entities ?s) = mset ?t + mset removed"
    "length ?t = min (length (ws_entities ?s)) (wo_max_entities demo_options)"
    "\<forall>x\<in>set removed. \<forall>y\<in>set ?t. \<not> evicts_before y x"
    using prune_keeps_best [of ?s demo_options] by (auto simp: demo_entity_def demo_options_def world_default_def)
  then obtain e where t: "?t = [e]" by (auto simp: demo_options_def length_Suc_conv)
  have "mset removed = {#demo_entity False, demo_entity True#} - {#e#}" using r(1) t by simp
  moreover have "e = demo_entity False \<or> e = demo_entity True" using arg_cong [OF r(1), of set_mset] t by auto
  moreover have "evicts_before (demo_entity True) (demo_entity False)" by (simp add: evicts_before_def demo_entity_def)
  ultimately have "e = demo_entity False" using r(3) t by (auto simp: demo_entity_def dest: mset_eq_setD)
  then show ?thesis using t by simp
qed

text \<open>An expiry marks exactly the entities and the page whose age exceeds the bound and that are not
  stale yet, halving their confidence, touches nothing else of the beliefs, and repeating it at
  the same instant changes nothing at all.\<close>

theorem expiry_exact_and_idempotent:
  assumes "apply_expiry s i o' = Inr t"
  shows "ws_entities t = map (expired_entity o' (xi_now i)) (ws_entities s) \<and>
    ws_current_page t = expired_page o' (xi_now i) (ws_current_page s) \<and>
    ws_foreground_app t = ws_foreground_app s \<and> apply_expiry t i o' = Inr t"
proof (intro conjI)
  note f = apply_expiry_fields [OF assms]
  show "ws_entities t = map (expired_entity o' (xi_now i)) (ws_entities s)"
    "ws_current_page t = expired_page o' (xi_now i) (ws_current_page s)" "ws_foreground_app t = ws_foreground_app s"
    by (rule f(2), rule f(3), rule f(4))
  show "apply_expiry t i o' = Inr t"
    using f(1) by (rule apply_expiry_nothing) (auto simp: f(2,3) expired_once)
qed

theorem expiry_exact_and_idempotent_witness:
  "wp_status (ws_current_page (result_or_default (apply_expiry demo_world
    \<lparr>xi_now = timestamp_default\<lparr>ts_wall := 30000000001\<rparr>\<rparr> demo_options))) = Stale"
proof -
  let ?i = "\<lparr>xi_now = timestamp_default\<lparr>ts_wall := 30000000001\<rparr>\<rparr>"
  have ok: "apply_expiry demo_world ?i demo_options = Inr (result_or_default (apply_expiry demo_world ?i demo_options))"
    by (simp add: apply_expiry_def validate_options_def Let_def expire_page_def append_change_def result_or_default_def demo_page)
      (simp add: demo_options_def)
  from expiry_exact_and_idempotent [OF ok] show ?thesis
    by (simp add: demo_page expired_page_def page_expired_def staleness_bound_def demo_options_def timestamp_default_def)
qed

text \<open>C37: The wire form carries a projection. A projection that passes \<open>validate\<close>, with schema major 1, identifiers
  and digests of full length, environment epochs and sequence numbers below \<open>2 ^ 63\<close> (the writer casts
  them to signed integers) and no monotonic time (it is not written), is read back exactly from the
  JSON value that the writer makes of it.\<close>

theorem world_wire_round_trip:
  assumes "validate_world s = Inr ()" and "world_wire_ok s"
  shows "world_of_json (world_state_to_json s) = Inr s"
  using assms by (rule world_of_json_round_trip)

text \<open>A projection with a page, two entities and two changes.\<close>

definition demo_change :: "WorldChangeKind \<Rightarrow> u64 \<Rightarrow> WorldChange" where
  "demo_change kind n = \<lparr>wc_kind = kind, wc_summary = ''s'', wc_source_event_digest = digest_zero, wc_changed_at = timestamp_default, wc_change_sequence = n\<rparr>"

definition demo_carried :: WorldState where
  "demo_carried = world_default\<lparr>
     ws_current_page := \<lparr>wp_status = Believed, wp_app_id = ''a'', wp_state_id = ''p'', wp_confidence = dbl_one, wp_recognized_at = timestamp_default\<rparr>,
     ws_entities := [demo_entity False, demo_entity True],
     ws_recent_changes := [demo_change PageAssumed 1, demo_change EntityObserved 7]\<rparr>"

theorem world_wire_round_trip_witness:
  "world_of_json (world_state_to_json demo_carried) = Inr demo_carried \<and> length (ws_entities demo_carried) = 2 \<and> length (ws_recent_changes demo_carried) = 2"
proof -
  have "validate_world demo_carried = Inr ()" "world_wire_ok demo_carried" by code_simp+
  then have "world_of_json (world_state_to_json demo_carried) = Inr demo_carried" by (rule world_wire_round_trip)
  then show ?thesis by (simp add: demo_carried_def)
qed

section \<open>An unchecked source\<close>

text \<open>The observation operator does not check the source of an element, which \<open>validate\<close> does.\<close>

lemma observation_accepts_unnamed_source:
  assumes "er_source e = ElementSource.Unnamed n" "\<not> is_nil (er_observation_id e)" "\<not> is_nil (er_space e)"
  shows "check_element e = Inr ()"
    and "validate_entity \<lparr>we_element = e, we_confidence = c, we_stale = b, we_last_seen_at = at,
      we_source_event_digest = d\<rparr> \<noteq> Inr ()"
  using assms by (simp_all add: check_element_def validate_entity_def source_named_def)

end
