(* ===== verification/Temporal_Policy.thy ===== *)
theory Temporal_Policy
  imports Json_Digest "HOL-Library.Product_Lexorder"
begin

text \<open>
  The deterministic policy runtime of \<open>src/temporal/temporal_policy.cpp\<close>: bounded observation
  histories, the closed condition language, reactive rules with their wire form, and the runtime
  with activation, step, induction, adoption, testing, promotion, demotion and retirement. The
  runtime object is a record; events are appended to a log when a sink is present. An enumeration
  value that names no enumerator is the constructor \<open>Unnamed\<close>. \<open>std::sort\<close> is modelled by a
  stable sort; the keys it sorts by are distinct wherever the order is observable, except for
  induced rules with equal identifiers, whose order the standard leaves open.
\<close>

section \<open>Errors\<close>

datatype TemporalPolicyDomainCode =
    OptionsInvalid | BoundsExceeded | EntityInvalid | WorldViewInvalid | TickNotMonotonic
  | RuleSchemaInvalid | RuleUnknown | RuleStateInvalid | PromotionEvidenceMissing
  | EpisodeSamplesInvalid | HistorySequenceNotAdvancing | HistoryCapacityInvalid

definition policy_codes :: "TemporalPolicyDomainCode list" where
  "policy_codes = [OptionsInvalid, BoundsExceeded, EntityInvalid, WorldViewInvalid, TickNotMonotonic,
     RuleSchemaInvalid, RuleUnknown, RuleStateInvalid, PromotionEvidenceMissing,
     EpisodeSamplesInvalid, HistorySequenceNotAdvancing, HistoryCapacityInvalid]"

definition temporal_policy_domain_code_name :: "TemporalPolicyDomainCode \<Rightarrow> string" where
  "temporal_policy_domain_code_name = nth_name policy_codes
     [''OptionsInvalid'', ''BoundsExceeded'', ''EntityInvalid'', ''WorldViewInvalid'',
      ''TickNotMonotonic'', ''RuleSchemaInvalid'', ''RuleUnknown'', ''RuleStateInvalid'',
      ''PromotionEvidenceMissing'', ''EpisodeSamplesInvalid'', ''HistorySequenceNotAdvancing'',
      ''HistoryCapacityInvalid'']"

definition policy_code_number :: "TemporalPolicyDomainCode \<Rightarrow> int" where
  "policy_code_number c = the (map_of (zip policy_codes [1..12]) c)"

definition make_temporal_policy_error :: "TemporalPolicyDomainCode \<Rightarrow> string \<Rightarrow> Error" where
  "make_temporal_policy_error code message =
     error_default\<lparr>err_code := (if code \<in> set [OptionsInvalid, EntityInvalid, WorldViewInvalid,
         RuleSchemaInvalid, RuleUnknown, EpisodeSamplesInvalid, HistoryCapacityInvalid]
       then ErrorCode.InvalidArgument else ErrorCode.InvalidState),
       err_domain := ''mira.temporal_policy'', err_domain_code := policy_code_number code,
       err_retryable := False, err_safe_message := message\<rparr>"

abbreviation policy_fail :: "TemporalPolicyDomainCode \<Rightarrow> string \<Rightarrow> 'a Result" where
  "policy_fail code message \<equiv> Inl (make_temporal_policy_error code message)"

section \<open>Histories\<close>

record TemporalHistoryEntry =
  he_sequence :: u64
  he_sampled_at :: Timestamp
  he_position_x :: double
  he_position_y :: double
  he_motion :: string
  he_motion_phase :: double
  he_source_ref :: string
  he_source_digest :: string

record TemporalHistory =
  th_capacity :: nat
  th_entries :: "TemporalHistoryEntry list"

definition validate_history_options :: "nat \<Rightarrow> unit Result" where
  "validate_history_options capacity =
     (if capacity = 0 then policy_fail HistoryCapacityInvalid ''history capacity must be positive'' else Inr ())"

definition new_history :: "nat \<Rightarrow> TemporalHistory" where
  "new_history capacity = \<lparr>th_capacity = capacity, th_entries = []\<rparr>"

definition push_entry :: "nat \<Rightarrow> TemporalHistoryEntry \<Rightarrow> TemporalHistoryEntry list \<Rightarrow> TemporalHistoryEntry list" where
  "push_entry capacity e es = (if length es = capacity then tl es else es) @ [e]"

definition history_append :: "TemporalHistory \<Rightarrow> TemporalHistoryEntry \<Rightarrow> TemporalHistory Result" where
  "history_append h e =
     (if th_capacity h = 0 then policy_fail HistoryCapacityInvalid ''history capacity is zero''
      else if th_entries h \<noteq> [] \<and> he_sequence e \<le> he_sequence (last (th_entries h))
      then policy_fail HistorySequenceNotAdvancing ''history sequence must strictly advance''
      else Inr (h\<lparr>th_entries := push_entry (th_capacity h) e (th_entries h)\<rparr>))"

definition history_entry_json :: "TemporalHistoryEntry \<Rightarrow> JsonValue" where
  "history_entry_json e = JObject
     [(''motion'', JString (he_motion e)), (''motion_phase'', JNumber (he_motion_phase e)),
      (''position_x'', JNumber (he_position_x e)), (''position_y'', JNumber (he_position_y e)),
      (''sampled_at_monotonic_ns'', JInteger (ts_monotonic (he_sampled_at e))),
      (''sampled_at_wall_ns'', JInteger (ts_wall (he_sampled_at e))),
      (''sequence'', JInteger (sint (he_sequence e))),
      (''source_digest'', JString (he_source_digest e)), (''source_ref'', JString (he_source_ref e))]"

definition history_digest :: "TemporalHistory \<Rightarrow> Sha256Digest" where
  "history_digest h = canonical_json_digest (JArray (map history_entry_json (th_entries h)))"

section \<open>World views\<close>

record TrackedEntity =
  te_entity_key :: string
  te_position_x :: double
  te_position_y :: double
  te_velocity_x :: double
  te_velocity_y :: double
  te_motion :: string
  te_motion_phase :: double
  te_motion_confidence :: double
  te_source_ref :: string

record PolicyFact =
  pf_key :: string
  pf_value :: double

record PolicyWorldView =
  wv_entities :: "TrackedEntity list"
  wv_facts :: "PolicyFact list"

record PolicyTickContext =
  tc_tick :: u64
  tc_tick_time :: Timestamp

definition validate_tracked :: "TrackedEntity \<Rightarrow> unit Result" where
  "validate_tracked e =
     (let in_unit_range = dbl_le dbl_zero (te_motion_phase e) \<and> dbl_le (te_motion_phase e) dbl_one \<and>
            dbl_le dbl_zero (te_motion_confidence e) \<and> dbl_le (te_motion_confidence e) dbl_one
      in if te_entity_key e = '''' \<or> \<not> in_unit_range
         then policy_fail EntityInvalid ''entity key empty or phase/confidence out of [0,1]''
         else Inr ())"

definition validate_view :: "PolicyWorldView \<Rightarrow> unit Result" where
  "validate_view w =
     res_bind (check_all validate_tracked (wv_entities w)) (\<lambda>_.
     if \<not> distinct (map pf_key (wv_facts w)) then policy_fail WorldViewInvalid ''duplicate world fact key''
     else Inr ())"

section \<open>Rules\<close>

datatype ReactiveRuleStatus = Candidate | Testing | Runtime | Retired | Unnamed u8

datatype ConditionField = Motion | MotionPhase | MotionConfidence | Fact | Unnamed u8

datatype ConditionCompare = Eq | Lt | Le | Gt | Ge | Unnamed u8

record RuleCondition =
  cn_field :: ConditionField
  cn_compare :: ConditionCompare
  cn_fact_key :: string
  cn_text_value :: string
  cn_number_value :: double

record PolicyAction =
  pa_kind :: string
  pa_parameter :: string

record RuleTransition =
  tr_when :: "RuleCondition list"
  tr_do_actions :: "PolicyAction list"

record ReactiveRule =
  rr_rule_id :: string
  rr_schema_version :: SchemaVersion
  rr_state :: string
  rr_priority :: u32
  rr_status :: ReactiveRuleStatus
  rr_transitions :: "RuleTransition list"
  rr_source_refs :: "string list"
  rr_support_count :: u32

definition kMaxConditionsPerTransition :: nat where
  "kMaxConditionsPerTransition = 8"

definition kMaxTransitionsPerRule :: nat where
  "kMaxTransitionsPerRule = 8"

definition field_known :: "ConditionField \<Rightarrow> bool" where
  "field_known f = (case f of ConditionField.Unnamed _ \<Rightarrow> False | _ \<Rightarrow> True)"

definition compare_known :: "ConditionCompare \<Rightarrow> bool" where
  "compare_known c = (case c of ConditionCompare.Unnamed _ \<Rightarrow> False | _ \<Rightarrow> True)"

definition status_known :: "ReactiveRuleStatus \<Rightarrow> bool" where
  "status_known s = (case s of ReactiveRuleStatus.Unnamed _ \<Rightarrow> False | _ \<Rightarrow> True)"

definition validate_condition :: "RuleCondition \<Rightarrow> unit Result" where
  "validate_condition c =
     (if \<not> field_known (cn_field c) then policy_fail RuleSchemaInvalid ''unknown condition field''
      else if \<not> compare_known (cn_compare c) then policy_fail RuleSchemaInvalid ''unknown condition compare''
      else Inr ())"

definition validate_transition :: "RuleTransition \<Rightarrow> unit Result" where
  "validate_transition t =
     (if tr_when t = [] \<or> tr_do_actions t = [] \<or> length (tr_when t) > kMaxConditionsPerTransition
      then policy_fail RuleSchemaInvalid ''rule when/do empty or out of bounds''
      else check_all validate_condition (tr_when t))"

definition validate_rule :: "ReactiveRule \<Rightarrow> unit Result" where
  "validate_rule r =
     (if \<not> status_known (rr_status r) then policy_fail RuleSchemaInvalid ''unknown rule status''
      else if rr_transitions r = [] \<or> length (rr_transitions r) > kMaxTransitionsPerRule
      then policy_fail RuleSchemaInvalid ''rule transition count out of bounds''
      else if rr_source_refs r = []
      then policy_fail RuleSchemaInvalid ''rule provenance missing (RULE-07: no naked rules)''
      else check_all validate_transition (rr_transitions r))"

section \<open>Matching\<close>

definition compare_holds :: "ConditionCompare \<Rightarrow> double \<Rightarrow> double \<Rightarrow> bool" where
  "compare_holds c l r = (case c of
      Eq \<Rightarrow> dbl_eq l r | Lt \<Rightarrow> dbl_lt l r | Le \<Rightarrow> dbl_le l r | Gt \<Rightarrow> dbl_lt r l | Ge \<Rightarrow> dbl_le r l
    | ConditionCompare.Unnamed _ \<Rightarrow> False)"

definition find_fact :: "PolicyWorldView \<Rightarrow> string \<Rightarrow> PolicyFact option" where
  "find_fact w key = find (\<lambda>f. pf_key f = key) (wv_facts w)"

definition find_anchor :: "PolicyWorldView \<Rightarrow> TrackedEntity option" where
  "find_anchor w = find (\<lambda>e. te_motion e \<noteq> '''') (wv_entities w)"

definition entity_condition_holds :: "RuleCondition \<Rightarrow> TrackedEntity \<Rightarrow> bool" where
  "entity_condition_holds c e = (case cn_field c of
      Motion \<Rightarrow> cn_compare c = Eq \<and> te_motion e = cn_text_value c
    | MotionPhase \<Rightarrow> compare_holds (cn_compare c) (te_motion_phase e) (cn_number_value c)
    | MotionConfidence \<Rightarrow> compare_holds (cn_compare c) (te_motion_confidence e) (cn_number_value c)
    | _ \<Rightarrow> False)"

definition fact_condition_holds :: "PolicyWorldView \<Rightarrow> RuleCondition \<Rightarrow> bool" where
  "fact_condition_holds w c = (case find_fact w (cn_fact_key c) of
      None \<Rightarrow> False | Some f \<Rightarrow> compare_holds (cn_compare c) (pf_value f) (cn_number_value c))"

text \<open>\<open>None\<close> is no match; a match carries its anchor, if it has one.\<close>

definition transition_matches :: "RuleTransition \<Rightarrow> PolicyWorldView \<Rightarrow> TrackedEntity option option" where
  "transition_matches t w =
     (if \<not> list_all (\<lambda>c. cn_field c = Fact \<longrightarrow> fact_condition_holds w c) (tr_when t) then None
      else if \<not> list_ex (\<lambda>c. cn_field c \<noteq> Fact) (tr_when t) then Some None
      else (case find (\<lambda>e. list_all (\<lambda>c. cn_field c = Fact \<or> entity_condition_holds c e) (tr_when t)) (wv_entities w) of
          None \<Rightarrow> None | Some e \<Rightarrow> Some (Some e)))"

section \<open>Wire form of rules\<close>

definition kFieldNames :: "string list" where
  "kFieldNames = [''Motion'', ''MotionPhase'', ''MotionConfidence'', ''Fact'']"

definition kCompareNames :: "string list" where
  "kCompareNames = [''Eq'', ''Lt'', ''Le'', ''Gt'', ''Ge'']"

definition kStatusNames :: "string list" where
  "kStatusNames = [''Candidate'', ''Testing'', ''Runtime'', ''Retired'']"

definition all_fields :: "ConditionField list" where
  "all_fields = [Motion, MotionPhase, MotionConfidence, Fact]"

definition all_compares :: "ConditionCompare list" where
  "all_compares = [Eq, Lt, Le, Gt, Ge]"

definition all_statuses :: "ReactiveRuleStatus list" where
  "all_statuses = [Candidate, Testing, Runtime, Retired]"

definition condition_to_json :: "RuleCondition \<Rightarrow> JsonValue" where
  "condition_to_json c = JObject
     [(''compare'', JString (nth_name all_compares kCompareNames (cn_compare c))),
      (''fact_key'', JString (cn_fact_key c)),
      (''field'', JString (nth_name all_fields kFieldNames (cn_field c))),
      (''number_value'', JNumber (cn_number_value c)), (''text_value'', JString (cn_text_value c))]"

definition optional_string :: "JsonValue \<Rightarrow> string \<Rightarrow> string" where
  "optional_string v key = (case json_find v key of Some (JString s) \<Rightarrow> s | _ \<Rightarrow> '''')"

definition optional_number :: "JsonValue \<Rightarrow> string \<Rightarrow> double" where
  "optional_number v key = (case json_find v key of None \<Rightarrow> dbl_zero
     | Some n \<Rightarrow> (case as_number n of None \<Rightarrow> dbl_zero | Some d \<Rightarrow> d))"

definition condition_from_json :: "JsonValue \<Rightarrow> RuleCondition Result" where
  "condition_from_json v =
     (if as_object v = None then policy_fail RuleSchemaInvalid ''rule condition must be an object''
      else case (json_find v ''field'', json_find v ''compare'') of
        (Some (JString f), Some (JString c)) \<Rightarrow>
          (case enumerator all_fields kFieldNames f of
             None \<Rightarrow> policy_fail RuleSchemaInvalid ''unknown condition field''
           | Some field \<Rightarrow>
               (case enumerator all_compares kCompareNames c of
                  None \<Rightarrow> policy_fail RuleSchemaInvalid ''unknown condition compare''
                | Some compare \<Rightarrow>
                    Inr \<lparr>cn_field = field, cn_compare = compare, cn_fact_key = optional_string v ''fact_key'',
                      cn_text_value = optional_string v ''text_value'',
                      cn_number_value = optional_number v ''number_value''\<rparr>))
      | _ \<Rightarrow> policy_fail RuleSchemaInvalid ''rule condition field/compare missing'')"

definition action_to_json :: "PolicyAction \<Rightarrow> JsonValue" where
  "action_to_json a = JObject [(''kind'', JString (pa_kind a)), (''parameter'', JString (pa_parameter a))]"

definition action_from_json :: "JsonValue \<Rightarrow> PolicyAction Result" where
  "action_from_json v =
     (if as_object v = None then policy_fail RuleSchemaInvalid ''rule action must be an object''
      else case json_find v ''kind'' of
        Some (JString k) \<Rightarrow> Inr \<lparr>pa_kind = k, pa_parameter = optional_string v ''parameter''\<rparr>
      | _ \<Rightarrow> policy_fail RuleSchemaInvalid ''rule action kind missing'')"

definition transition_to_json :: "RuleTransition \<Rightarrow> JsonValue" where
  "transition_to_json t = JObject
     [(''do_actions'', JArray (map action_to_json (tr_do_actions t))),
      (''when'', JArray (map condition_to_json (tr_when t)))]"

definition transitions_to_json :: "RuleTransition list \<Rightarrow> JsonValue" where
  "transitions_to_json ts = JArray (map transition_to_json ts)"

definition transition_from_json :: "JsonValue \<Rightarrow> RuleTransition Result" where
  "transition_from_json v =
     (if as_object v = None then policy_fail RuleSchemaInvalid ''rule transition must be an object''
      else case (json_find v ''when'', json_find v ''do_actions'') of
        (Some (JArray cs), Some (JArray as)) \<Rightarrow>
          res_bind (map_res condition_from_json cs) (\<lambda>when.
          res_bind (map_res action_from_json as) (\<lambda>actions.
          Inr \<lparr>tr_when = when, tr_do_actions = actions\<rparr>))
      | _ \<Rightarrow> policy_fail RuleSchemaInvalid ''rule transition when/do_actions missing'')"

definition transitions_from_json :: "JsonValue \<Rightarrow> RuleTransition list Result" where
  "transitions_from_json v = (case v of
      JArray ts \<Rightarrow> map_res transition_from_json ts
    | _ \<Rightarrow> policy_fail RuleSchemaInvalid ''rule transitions must be an array'')"

definition rule_digest :: "ReactiveRule \<Rightarrow> Sha256Digest" where
  "rule_digest r = canonical_json_digest (JObject
     [(''state'', JString (rr_state r)), (''transitions'', transitions_to_json (rr_transitions r))])"

definition rule_to_value :: "ReactiveRule \<Rightarrow> JsonValue" where
  "rule_to_value r = JObject
     [(''priority'', JInteger (uint (rr_priority r))), (''rule_id'', JString (rr_rule_id r)),
      (''schema_version'', JObject [(''major'', JInteger (uint (sv_major (rr_schema_version r)))),
         (''minor'', JInteger (uint (sv_minor (rr_schema_version r))))]),
      (''source_refs'', JArray (map JString (rr_source_refs r))), (''state'', JString (rr_state r)),
      (''status'', JString (nth_name all_statuses kStatusNames (rr_status r))),
      (''support_count'', JInteger (uint (rr_support_count r))),
      (''transitions'', transitions_to_json (rr_transitions r))]"

definition rule_to_json :: "ReactiveRule \<Rightarrow> string" where
  "rule_to_json r = canonical_json_string (rule_to_value r)"

definition version_from_value :: "JsonValue \<Rightarrow> SchemaVersion Result" where
  "version_from_value document =
     (case json_find document ''schema_version'' of
        None \<Rightarrow> policy_fail RuleSchemaInvalid ''rule schema_version malformed''
      | Some v \<Rightarrow>
          (case (json_find v ''major'', json_find v ''minor'') of
             (Some (JInteger major), Some (JInteger minor)) \<Rightarrow>
               if major \<noteq> 1 then policy_fail RuleSchemaInvalid ''unsupported rule wire major version''
               else Inr \<lparr>sv_major = of_int major, sv_minor = of_int minor\<rparr>
           | _ \<Rightarrow> policy_fail RuleSchemaInvalid ''rule schema_version malformed''))"

definition source_ref_from_json :: "JsonValue \<Rightarrow> string Result" where
  "source_ref_from_json v = (case v of JString s \<Rightarrow> Inr s
     | _ \<Rightarrow> policy_fail RuleSchemaInvalid ''rule source_refs must be strings'')"

text \<open>\<open>ReactiveRule::from_json\<close> after the parse.\<close>

definition rule_from_value :: "JsonValue \<Rightarrow> ReactiveRule Result" where
  "rule_from_value document =
     (if as_object document = None then policy_fail RuleSchemaInvalid ''rule wire text does not parse''
      else res_bind (version_from_value document) (\<lambda>version.
      case (json_find document ''rule_id'', json_find document ''state'', json_find document ''priority'',
            json_find document ''status'', json_find document ''support_count'',
            json_find document ''source_refs'', json_find document ''transitions'') of
        (Some (JString rule_id), Some (JString state), Some (JInteger priority), Some (JString status),
         Some (JInteger support), Some (JArray refs), Some transitions) \<Rightarrow>
          (case enumerator all_statuses kStatusNames status of
             None \<Rightarrow> policy_fail RuleSchemaInvalid ''unknown rule status''
           | Some st \<Rightarrow>
               if priority < 0 \<or> support < 0 \<or> priority > 0xFFFFFFFF \<or> support > 0xFFFFFFFF
               then policy_fail RuleSchemaInvalid ''rule priority/support_count out of range''
               else res_bind (map_res source_ref_from_json refs) (\<lambda>source_refs.
                 res_bind (transitions_from_json transitions) (\<lambda>ts.
                 (let r = \<lparr>rr_rule_id = rule_id, rr_schema_version = version, rr_state = state,
                    rr_priority = of_int priority, rr_status = st, rr_transitions = ts,
                    rr_source_refs = source_refs, rr_support_count = of_int support\<rparr>
                  in res_bind (validate_rule r) (\<lambda>_. Inr r)))))
      | _ \<Rightarrow> policy_fail RuleSchemaInvalid ''rule wire fields missing''))"

definition rule_from_json :: "string \<Rightarrow> ReactiveRule Result" where
  "rule_from_json input = (case parse_json json_limits_default input of
      Inl _ \<Rightarrow> policy_fail RuleSchemaInvalid ''rule wire text does not parse''
    | Inr document \<Rightarrow> rule_from_value document)"

end
