(* ===== verification/Temporal_Runtime.thy ===== *)
theory Temporal_Runtime
  imports Temporal_Policy
begin

text \<open>
  The reactive policy runtime (class \<open>ReactivePolicyRuntime\<close> of \<open>src/temporal/temporal_policy.cpp\<close>)
  and the rebuild projection: every operation is a function from the runtime to the runtime it
  leaves and its result.
\<close>

section \<open>State\<close>

record PolicyRuntimeOptions =
  po_max_rules :: nat
  po_max_rules_per_state :: nat
  po_max_conditions_per_transition :: nat
  po_max_transitions_per_rule :: nat
  po_min_support :: u32
  po_min_test_support :: u32
  po_history_capacity :: nat

datatype PolicyEventType =
    PolicyActivated | PolicyDeactivated | RuleCandidateInduced | RuleTestingResulted | RulePromoted
  | RuleDemoted | RuleConflicted | RuleTriggered | PolicyEscalatedToAgent

record PolicyEvent =
  pe_type :: PolicyEventType
  pe_tick :: u64
  pe_rule_id :: string
  pe_payload_json :: string

record PolicyEpisodeSample =
  ps_tick :: PolicyTickContext
  ps_world :: PolicyWorldView
  ps_active_state :: string
  ps_agent_action :: "PolicyAction option"
  ps_agent_handled :: bool

record RuleResult =
  re_rule_id :: string
  re_passed_count :: u32
  re_false_trigger_count :: u32
  re_sample_count :: u32

record ReactivePolicyRuntime =
  rp_options :: PolicyRuntimeOptions
  rp_has_sink :: bool
  rp_events :: "PolicyEvent list"
  rp_rules :: "(string, ReactiveRule) omap"
  rp_evidence :: "(string, RuleResult) omap"
  rp_histories :: "(string, TemporalHistory) omap"
  rp_next_sequence :: "(string, u64) omap"
  rp_active_states :: "string set"
  rp_max_tick :: u64
  rp_has_stepped :: bool

definition validate_policy_options :: "PolicyRuntimeOptions \<Rightarrow> unit Result" where
  "validate_policy_options p =
     (if po_max_rules p = 0 \<or> po_max_rules_per_state p = 0 \<or> po_max_conditions_per_transition p = 0 \<or>
         po_max_transitions_per_rule p = 0 \<or> po_min_support p = 0 \<or> po_min_test_support p = 0
      then policy_fail OptionsInvalid ''runtime options bounds must be positive''
      else validate_history_options (po_history_capacity p))"

definition new_policy_runtime :: "PolicyRuntimeOptions \<Rightarrow> bool \<Rightarrow> ReactivePolicyRuntime" where
  "new_policy_runtime options sink =
     \<lparr>rp_options = options, rp_has_sink = sink, rp_events = [], rp_rules = [], rp_evidence = [],
      rp_histories = [], rp_next_sequence = [], rp_active_states = {}, rp_max_tick = 0,
      rp_has_stepped = False\<rparr>"

definition policy_event_schema_name :: "PolicyEventType \<Rightarrow> string" where
  "policy_event_schema_name t = (case t of
      PolicyActivated \<Rightarrow> ''mira.policy.policy-activated.v1''
    | PolicyDeactivated \<Rightarrow> ''mira.policy.policy-deactivated.v1''
    | RuleCandidateInduced \<Rightarrow> ''mira.policy.rule-candidate-induced.v1''
    | RuleTestingResulted \<Rightarrow> ''mira.policy.rule-testing-resulted.v1''
    | RulePromoted \<Rightarrow> ''mira.policy.rule-promoted.v1''
    | RuleDemoted \<Rightarrow> ''mira.policy.rule-demoted.v1''
    | RuleConflicted \<Rightarrow> ''mira.policy.rule-conflicted.v1''
    | RuleTriggered \<Rightarrow> ''mira.policy.rule-triggered.v1''
    | PolicyEscalatedToAgent \<Rightarrow> ''mira.policy.policy-escalated-to-agent.v1'')"

definition report_row_json :: "RuleResult \<Rightarrow> JsonValue" where
  "report_row_json r = JObject
     [(''false_trigger_count'', JInteger (uint (re_false_trigger_count r))),
      (''passed_count'', JInteger (uint (re_passed_count r))), (''rule_id'', JString (re_rule_id r)),
      (''sample_count'', JInteger (uint (re_sample_count r)))]"

definition report_digest :: "RuleResult list \<Rightarrow> Sha256Digest" where
  "report_digest rows = canonical_json_digest (JArray (map report_row_json rows))"

definition emit :: "PolicyEventType \<Rightarrow> string \<Rightarrow> JsonValue \<Rightarrow> ReactivePolicyRuntime \<Rightarrow> ReactivePolicyRuntime" where
  "emit type rule_id payload rt =
     (if \<not> rp_has_sink rt then rt
      else rt\<lparr>rp_events := rp_events rt @ [\<lparr>pe_type = type, pe_tick = rp_max_tick rt, pe_rule_id = rule_id,
        pe_payload_json = canonical_json_string payload\<rparr>]\<rparr>)"

section \<open>Activation\<close>

definition activate :: "string \<Rightarrow> ReactivePolicyRuntime \<Rightarrow> ReactivePolicyRuntime \<times> unit Result" where
  "activate state rt =
     (if state = '''' then (rt, policy_fail RuleSchemaInvalid ''activation state name must be non-empty'')
      else if state \<in> rp_active_states rt then (rt, Inr ())
      else (emit PolicyActivated '''' (JObject [(''state'', JString state)])
              (rt\<lparr>rp_active_states := insert state (rp_active_states rt)\<rparr>), Inr ()))"

definition deactivate :: "string \<Rightarrow> ReactivePolicyRuntime \<Rightarrow> ReactivePolicyRuntime \<times> unit Result" where
  "deactivate state rt =
     (if state = '''' then (rt, policy_fail RuleSchemaInvalid ''deactivation state name must be non-empty'')
      else if state \<notin> rp_active_states rt then (rt, Inr ())
      else (emit PolicyDeactivated '''' (JObject [(''state'', JString state)])
              (rt\<lparr>rp_active_states := rp_active_states rt - {state}\<rparr>), Inr ()))"

definition is_active :: "string \<Rightarrow> ReactivePolicyRuntime \<Rightarrow> bool" where
  "is_active state rt \<longleftrightarrow> state \<in> rp_active_states rt"

section \<open>Step\<close>

definition entry_of_entity :: "u64 \<Rightarrow> Timestamp \<Rightarrow> TrackedEntity \<Rightarrow> TemporalHistoryEntry" where
  "entry_of_entity n at e = \<lparr>he_sequence = n, he_sampled_at = at, he_position_x = te_position_x e,
     he_position_y = te_position_y e, he_motion = te_motion e, he_motion_phase = te_motion_phase e,
     he_source_ref = te_source_ref e, he_source_digest = ''''\<rparr>"

text \<open>The body that \<open>append_history\<close> and the rebuild share: \<open>++sequences[key]\<close>, then \<open>emplace\<close> and
  append. The counter and the empty history stay when the append fails.\<close>

definition record_entity ::
    "nat \<Rightarrow> Timestamp \<Rightarrow> TrackedEntity \<Rightarrow> (string, TemporalHistory) omap \<times> (string, u64) omap \<Rightarrow>
     ((string, TemporalHistory) omap \<times> (string, u64) omap) \<times> unit Result" where
  "record_entity capacity at e hs =
     (let key = te_entity_key e;
          n = (case omap_find (snd hs) key of None \<Rightarrow> 0 | Some m \<Rightarrow> m) + 1;
          sequences = omap_set key n (snd hs);
          histories = omap_emplace key (new_history capacity) (fst hs);
          h = the (omap_find histories key)
      in case history_append h (entry_of_entity n at e) of
           Inl err \<Rightarrow> ((histories, sequences), Inl err)
         | Inr h \<Rightarrow> ((omap_set key h histories, sequences), Inr ()))"

fun record_entities ::
    "nat \<Rightarrow> Timestamp \<Rightarrow> TrackedEntity list \<Rightarrow> (string, TemporalHistory) omap \<times> (string, u64) omap \<Rightarrow>
     ((string, TemporalHistory) omap \<times> (string, u64) omap) \<times> unit Result" where
  "record_entities capacity at [] hs = (hs, Inr ())"
| "record_entities capacity at (e # es) hs =
     (case record_entity capacity at e hs of
        (hs, Inl err) \<Rightarrow> (hs, Inl err)
      | (hs, Inr _) \<Rightarrow> record_entities capacity at es hs)"

record Match =
  mt_rule :: ReactiveRule
  mt_transition :: RuleTransition
  mt_anchor :: "TrackedEntity option"

fun first_match :: "PolicyWorldView \<Rightarrow> RuleTransition list \<Rightarrow> (RuleTransition \<times> TrackedEntity option) option" where
  "first_match w [] = None"
| "first_match w (t # ts) = (case transition_matches t w of
      None \<Rightarrow> first_match w ts | Some anchor \<Rightarrow> Some (t, anchor))"

definition match_order :: "ReactiveRule \<Rightarrow> u32 \<times> string" where
  "match_order r = (rr_priority r, rr_rule_id r)"

definition ordered_rules :: "ReactivePolicyRuntime \<Rightarrow> ReactiveRule list" where
  "ordered_rules rt = sort_key match_order
     (filter (\<lambda>r. rr_status r = Runtime \<and> rr_state r \<in> rp_active_states rt) (map snd (rp_rules rt)))"

definition collect_matches :: "PolicyWorldView \<Rightarrow> ReactivePolicyRuntime \<Rightarrow> Match list" where
  "collect_matches w rt = List.map_filter (\<lambda>r. map_option (\<lambda>(t, anchor).
     \<lparr>mt_rule = r, mt_transition = t, mt_anchor = anchor\<rparr>) (first_match w (rr_transitions r))) (ordered_rules rt)"

definition with_status :: "string \<Rightarrow> ReactiveRuleStatus \<Rightarrow> (string, ReactiveRule) omap \<Rightarrow> (string, ReactiveRule) omap" where
  "with_status rule_id st rules = (case omap_find rules rule_id of None \<Rightarrow> rules
     | Some r \<Rightarrow> omap_set rule_id (r\<lparr>rr_status := st\<rparr>) rules)"

definition set_status :: "string \<Rightarrow> ReactiveRuleStatus \<Rightarrow> ReactivePolicyRuntime \<Rightarrow> ReactivePolicyRuntime" where
  "set_status rule_id st rt = rt\<lparr>rp_rules := with_status rule_id st (rp_rules rt)\<rparr>"

definition trigger :: "Match \<Rightarrow> ReactivePolicyRuntime \<Rightarrow> ReactivePolicyRuntime" where
  "trigger m rt = emit RuleTriggered (rr_rule_id (mt_rule m)) (JObject
     [(''actions'', JArray (map action_to_json (tr_do_actions (mt_transition m)))),
      (''entity_key'', JString (case mt_anchor m of None \<Rightarrow> '''' | Some e \<Rightarrow> te_entity_key e)),
      (''state'', JString (rr_state (mt_rule m)))]) rt"

definition demoted_payload :: "string \<Rightarrow> string \<Rightarrow> string \<Rightarrow> JsonValue" where
  "demoted_payload before reason after = JObject [(''from_status'', JString before),
     (''reason'', JString reason), (''to_status'', JString after)]"

definition conflict :: "Match list \<Rightarrow> ReactivePolicyRuntime \<Rightarrow> ReactivePolicyRuntime" where
  "conflict matches rt =
     (let ids = map (\<lambda>m. rr_rule_id (mt_rule m)) matches;
          id_array = JArray (map JString (sort ids));
          state = JString (rr_state (mt_rule (hd matches)));
          rt = emit RuleConflicted '''' (JObject [(''matched_rule_ids'', id_array), (''state'', state)]) rt;
          rt = emit PolicyEscalatedToAgent '''' (JObject [(''matched_rule_ids'', id_array),
            (''reason'', JString ''conflict''), (''state'', state)]) rt;
          rt = fold (\<lambda>i. set_status i Candidate) ids rt
      in fold (\<lambda>i. emit RuleDemoted i (demoted_payload ''Runtime'' ''conflict'' ''Candidate'')) ids rt)"

definition respond :: "Match list \<Rightarrow> ReactivePolicyRuntime \<Rightarrow> ReactivePolicyRuntime \<times> PolicyAction list" where
  "respond matches rt = (case matches of
      [] \<Rightarrow> (rt, [])
    | [m] \<Rightarrow> (trigger m rt, tr_do_actions (mt_transition m))
    | _ \<Rightarrow> (conflict matches rt, []))"

definition policy_step ::
    "PolicyWorldView \<Rightarrow> PolicyTickContext \<Rightarrow> ReactivePolicyRuntime \<Rightarrow> ReactivePolicyRuntime \<times> PolicyAction list Result" where
  "policy_step w tick rt =
     (case validate_view w of
        Inl err \<Rightarrow> (rt, Inl err)
      | Inr _ \<Rightarrow>
          if rp_has_stepped rt \<and> tc_tick tick \<le> rp_max_tick rt
          then (rt, policy_fail TickNotMonotonic ''policy tick must strictly advance'')
          else (case record_entities (po_history_capacity (rp_options rt)) (tc_tick_time tick) (wv_entities w)
                  (rp_histories rt, rp_next_sequence rt) of
              ((hs, ns), Inl err) \<Rightarrow> (rt\<lparr>rp_histories := hs, rp_next_sequence := ns\<rparr>, Inl err)
            | ((hs, ns), Inr _) \<Rightarrow>
                (let rt = rt\<lparr>rp_histories := hs, rp_next_sequence := ns, rp_max_tick := tc_tick tick,
                       rp_has_stepped := True\<rparr>;
                     (rt, actions) = respond (collect_matches w rt) rt
                 in (rt, Inr actions))))"

section \<open>Induction\<close>

text \<open>The bytes of a double as \<open>memcpy\<close> copies them on the little-endian targets of the project.\<close>

definition append_double_key :: "double \<Rightarrow> string" where
  "append_double_key d = map (\<lambda>k. char_of (uint (drop_bit (8 * k) (dbits d)))) [0, 1, 2, 3, 4, 5, 6, 7]"

definition unit_separator :: string where
  "unit_separator = [CHR 0x1F]"

definition fact_key_text :: "PolicyFact \<Rightarrow> string" where
  "fact_key_text f = unit_separator @ ''fact='' @ pf_key f @ ''='' @ append_double_key (pf_value f)"

definition action_key_text :: "PolicyAction option \<Rightarrow> string" where
  "action_key_text a = (case a of None \<Rightarrow> '''' | Some a \<Rightarrow> pa_kind a @ ''/'' @ pa_parameter a)"

definition induction_signature :: "PolicyEpisodeSample \<Rightarrow> TrackedEntity \<Rightarrow> string" where
  "induction_signature s anchor =
     ''state='' @ ps_active_state s @ unit_separator @ ''motion='' @ te_motion anchor @ unit_separator @
     append_double_key (te_motion_phase anchor) @ append_double_key (te_motion_confidence anchor) @
     concat (map fact_key_text (sort_key pf_key (wv_facts (ps_world s)))) @
     unit_separator @ ''action='' @ action_key_text (ps_agent_action s)"

definition add_to_group ::
    "PolicyEpisodeSample \<Rightarrow> (string, PolicyEpisodeSample list) omap \<Rightarrow> (string, PolicyEpisodeSample list) omap" where
  "add_to_group s groups =
     (if \<not> ps_agent_handled s \<or> ps_agent_action s = None then groups
      else case find_anchor (ps_world s) of
        None \<Rightarrow> groups
      | Some anchor \<Rightarrow>
          (let key = induction_signature s anchor
           in omap_set key ((case omap_find groups key of None \<Rightarrow> [] | Some xs \<Rightarrow> xs) @ [s]) groups))"

definition dbl_min :: "double \<Rightarrow> double \<Rightarrow> double" where
  "dbl_min a b = (if dbl_lt b a then b else a)"

definition dbl_max :: "double \<Rightarrow> double \<Rightarrow> double" where
  "dbl_max a b = (if dbl_lt a b then b else a)"

definition raise_fact :: "PolicyFact \<Rightarrow> (string, double) omap \<Rightarrow> (string, double) omap" where
  "raise_fact f m = (case omap_find m (pf_key f) of
      None \<Rightarrow> omap_set (pf_key f) (pf_value f) m
    | Some v \<Rightarrow> omap_set (pf_key f) (dbl_max v (pf_value f)) m)"

definition anchor_of :: "PolicyEpisodeSample \<Rightarrow> TrackedEntity" where
  "anchor_of s = the (find_anchor (ps_world s))"

definition fact_maxima :: "PolicyEpisodeSample list \<Rightarrow> (string, double) omap" where
  "fact_maxima samples = fold (\<lambda>s. fold raise_fact (wv_facts (ps_world s))) samples []"

definition fact_condition :: "string \<times> double \<Rightarrow> RuleCondition" where
  "fact_condition f = \<lparr>cn_field = Fact, cn_compare = Le, cn_fact_key = fst f, cn_text_value = '''',
     cn_number_value = snd f\<rparr>"

definition induced_conditions :: "PolicyEpisodeSample list \<Rightarrow> RuleCondition list" where
  "induced_conditions samples =
     (let anchor = anchor_of (hd samples);
          min_phase = fold (\<lambda>s m. dbl_min m (te_motion_phase (anchor_of s))) samples (te_motion_phase anchor);
          min_confidence = fold (\<lambda>s m. dbl_min m (te_motion_confidence (anchor_of s))) samples (te_motion_confidence anchor)
      in \<lparr>cn_field = Motion, cn_compare = Eq, cn_fact_key = '''', cn_text_value = te_motion anchor,
           cn_number_value = dbl_zero\<rparr> #
         \<lparr>cn_field = MotionPhase, cn_compare = Ge, cn_fact_key = '''', cn_text_value = '''',
           cn_number_value = min_phase\<rparr> #
         \<lparr>cn_field = MotionConfidence, cn_compare = Ge, cn_fact_key = '''', cn_text_value = '''',
           cn_number_value = min_confidence\<rparr> #
         map fact_condition (fact_maxima samples))"

definition induced_rule :: "PolicyEpisodeSample list \<Rightarrow> ReactiveRule" where
  "induced_rule samples =
     (let r = \<lparr>rr_rule_id = '''', rr_schema_version = \<lparr>sv_major = 1, sv_minor = 0\<rparr>,
            rr_state = ps_active_state (hd samples), rr_priority = 0, rr_status = Candidate,
            rr_transitions = [\<lparr>tr_when = induced_conditions samples,
              tr_do_actions = [the (ps_agent_action (hd samples))]\<rparr>],
            rr_source_refs = remdups_adj (sort (map (\<lambda>s. te_source_ref (anchor_of s)) samples)),
            rr_support_count = of_nat (length samples)\<rparr>
      in r\<lparr>rr_rule_id := ''rr-'' @ take 16 (digest_to_string (rule_digest r))\<rparr>)"

definition induce_candidate_rules :: "PolicyEpisodeSample list \<Rightarrow> ReactivePolicyRuntime \<Rightarrow> ReactiveRule list Result" where
  "induce_candidate_rules episodes rt =
     (if episodes = [] then policy_fail EpisodeSamplesInvalid ''induction episode batch is empty''
      else res_bind (check_all (\<lambda>s. validate_view (ps_world s)) episodes) (\<lambda>_.
        Inr (sort_key rr_rule_id (map (induced_rule \<circ> snd)
          (filter (\<lambda>g. length (snd g) \<ge> unat (po_min_support (rp_options rt)))
            (fold add_to_group episodes []))))))"

section \<open>Adoption, testing, promotion, demotion, retirement\<close>

fun fresh_rules ::
    "(string, ReactiveRule) omap \<Rightarrow> ReactiveRule list \<Rightarrow> ReactiveRule list \<Rightarrow> ReactiveRule list Result" where
  "fresh_rules known fresh [] = Inr fresh"
| "fresh_rules known fresh (r # rs) =
     res_bind (validate_rule r) (\<lambda>_.
       if omap_find known (rr_rule_id r) \<noteq> None then fresh_rules known fresh rs
       else if rr_rule_id r \<in> set (map rr_rule_id fresh) then fresh_rules known fresh rs
       else fresh_rules known (fresh @ [r]) rs)"

definition state_count :: "string \<Rightarrow> ReactiveRule list \<Rightarrow> nat" where
  "state_count state rs = length (filter (\<lambda>r. rr_state r = state) rs)"

definition adopt_one :: "ReactiveRule \<Rightarrow> ReactivePolicyRuntime \<times> nat \<Rightarrow> ReactivePolicyRuntime \<times> nat" where
  "adopt_one r acc =
     (let (rt, adopted) = acc; stored = r\<lparr>rr_status := Candidate\<rparr> in
      if omap_find (rp_rules rt) (rr_rule_id r) \<noteq> None then (rt, adopted)
      else (emit RuleCandidateInduced (rr_rule_id r) (JObject
              [(''source_ref_count'', JInteger (int (length (rr_source_refs r)))),
               (''state'', JString (rr_state r)),
               (''support_count'', JInteger (uint (rr_support_count r)))])
              (rt\<lparr>rp_rules := omap_set (rr_rule_id r) stored (rp_rules rt)\<rparr>), Suc adopted))"

definition adopt_candidate_rules ::
    "ReactiveRule list \<Rightarrow> ReactivePolicyRuntime \<Rightarrow> ReactivePolicyRuntime \<times> nat Result" where
  "adopt_candidate_rules rules rt =
     (case fresh_rules (rp_rules rt) [] rules of
        Inl err \<Rightarrow> (rt, Inl err)
      | Inr fresh \<Rightarrow>
          if length (rp_rules rt) + length fresh > po_max_rules (rp_options rt)
          then (rt, policy_fail BoundsExceeded ''rule set bound exceeded'')
          else if list_ex (\<lambda>r. state_count (rr_state r) (map snd (rp_rules rt) @ fresh) >
              po_max_rules_per_state (rp_options rt)) (map snd (rp_rules rt) @ fresh)
          then (rt, policy_fail BoundsExceeded ''per-state rule bound exceeded'')
          else map_prod id Inr (fold adopt_one fresh (rt, 0)))"

text \<open>The counts of one rule: passed, false triggers and triggered samples.\<close>

definition sample_consistent :: "RuleTransition \<Rightarrow> PolicyEpisodeSample \<Rightarrow> bool" where
  "sample_consistent t s \<longleftrightarrow> ps_agent_handled s \<and> ps_agent_action s \<noteq> None \<and>
     length (tr_do_actions t) = 1 \<and> hd (tr_do_actions t) = the (ps_agent_action s)"

definition count_sample :: "ReactiveRule \<Rightarrow> PolicyEpisodeSample \<Rightarrow> u32 \<times> u32 \<times> u32 \<Rightarrow> u32 \<times> u32 \<times> u32" where
  "count_sample r s acc =
     (let (passed, false_triggers, triggered) = acc in
      case first_match (ps_world s) (rr_transitions r) of
        None \<Rightarrow> (passed, false_triggers, triggered)
      | Some (t, _) \<Rightarrow>
          if sample_consistent t s then (passed + 1, false_triggers, triggered + 1)
          else (passed, false_triggers + 1, triggered + 1))"

definition test_row :: "PolicyEpisodeSample list \<Rightarrow> ReactiveRule \<Rightarrow> RuleResult" where
  "test_row episodes r =
     (let (passed, false_triggers, triggered) = fold (count_sample r) episodes (0, 0, 0) in
      \<lparr>re_rule_id = rr_rule_id r, re_passed_count = passed, re_false_trigger_count = false_triggers,
       re_sample_count = triggered\<rparr>)"

definition test_one ::
    "PolicyEpisodeSample list \<Rightarrow> ReactiveRule \<Rightarrow> ReactivePolicyRuntime \<times> RuleResult list \<Rightarrow>
     ReactivePolicyRuntime \<times> RuleResult list" where
  "test_one episodes r acc =
     (if rr_status r \<noteq> Candidate then acc
      else (let (rt, rows) = acc; row = test_row episodes r in
        (emit RuleTestingResulted (rr_rule_id r) (JObject
           [(''false_trigger_count'', JInteger (uint (re_false_trigger_count row))),
            (''passed_count'', JInteger (uint (re_passed_count row))),
            (''sample_count'', JInteger (uint (re_sample_count row)))])
           (rt\<lparr>rp_evidence := omap_set (rr_rule_id r) row (rp_evidence rt)\<rparr>), rows @ [row])))"

definition test_candidate_rules ::
    "PolicyEpisodeSample list \<Rightarrow> ReactivePolicyRuntime \<Rightarrow> ReactivePolicyRuntime \<times> RuleResult list Result" where
  "test_candidate_rules episodes rt =
     (if episodes = [] then (rt, policy_fail EpisodeSamplesInvalid ''testing episode batch is empty'')
      else case check_all (\<lambda>s. validate_view (ps_world s)) episodes of
        Inl err \<Rightarrow> (rt, Inl err)
      | Inr _ \<Rightarrow> map_prod id Inr (fold (test_one episodes) (map snd (rp_rules rt)) (rt, [])))"

definition evidence_passes :: "PolicyRuntimeOptions \<Rightarrow> RuleResult option \<Rightarrow> bool" where
  "evidence_passes p e = (case e of None \<Rightarrow> False
     | Some row \<Rightarrow> re_false_trigger_count row = 0 \<and> \<not> re_passed_count row < po_min_test_support p)"

definition promote_rule :: "string \<Rightarrow> ReactivePolicyRuntime \<Rightarrow> ReactivePolicyRuntime \<times> unit Result" where
  "promote_rule rule_id rt = (case omap_find (rp_rules rt) rule_id of
      None \<Rightarrow> (rt, policy_fail RuleUnknown ''promotion target rule unknown'')
    | Some r \<Rightarrow>
        if rr_status r \<noteq> Candidate
        then (rt, policy_fail RuleStateInvalid ''promotion requires a Candidate rule'')
        else if \<not> evidence_passes (rp_options rt) (omap_find (rp_evidence rt) (rr_rule_id r))
        then (rt, policy_fail PromotionEvidenceMissing ''promotion evidence gate not satisfied'')
        else (emit RulePromoted (rr_rule_id r) (JObject
               [(''passed_count'', JInteger (uint (re_passed_count (the (omap_find (rp_evidence rt) (rr_rule_id r)))))),
                (''state'', JString (rr_state r)), (''support_count'', JInteger (uint (rr_support_count r)))])
               (set_status rule_id Runtime rt), Inr ()))"

definition demote_rule :: "string \<Rightarrow> string \<Rightarrow> ReactivePolicyRuntime \<Rightarrow> ReactivePolicyRuntime \<times> unit Result" where
  "demote_rule rule_id reason rt = (case omap_find (rp_rules rt) rule_id of
      None \<Rightarrow> (rt, policy_fail RuleUnknown ''demotion target rule unknown'')
    | Some r \<Rightarrow>
        if reason \<noteq> ''conflict'' \<and> reason \<noteq> ''host-explicit''
        then (rt, policy_fail RuleSchemaInvalid ''demotion reason outside the frozen closed set'')
        else if rr_status r \<noteq> Runtime
        then (rt, policy_fail RuleStateInvalid ''demotion requires a Runtime rule'')
        else (emit RuleDemoted (rr_rule_id r) (demoted_payload ''Runtime'' reason ''Candidate'')
               (set_status rule_id Candidate rt), Inr ()))"

definition retire_rule :: "string \<Rightarrow> ReactivePolicyRuntime \<Rightarrow> ReactivePolicyRuntime \<times> unit Result" where
  "retire_rule rule_id rt = (case omap_find (rp_rules rt) rule_id of
      None \<Rightarrow> (rt, policy_fail RuleUnknown ''retire target rule unknown'')
    | Some r \<Rightarrow>
        if rr_status r = Retired then (rt, Inr ())
        else (emit RuleDemoted (rr_rule_id r)
               (demoted_payload (nth_name all_statuses kStatusNames (rr_status r)) ''host-explicit'' ''Retired'')
               (set_status rule_id Retired rt), Inr ()))"

definition temporal_history :: "string \<Rightarrow> ReactivePolicyRuntime \<Rightarrow> TemporalHistory option" where
  "temporal_history key rt = omap_find (rp_histories rt) key"

section \<open>Rebuild\<close>

definition rebuild_sample ::
    "nat \<Rightarrow> (string, TemporalHistory) omap \<times> (string, u64) omap \<Rightarrow> PolicyEpisodeSample \<Rightarrow>
     ((string, TemporalHistory) omap \<times> (string, u64) omap) Result" where
  "rebuild_sample capacity hs s =
     res_bind (validate_view (ps_world s)) (\<lambda>_.
       case record_entities capacity (tc_tick_time (ps_tick s)) (wv_entities (ps_world s)) hs of
         (_, Inl err) \<Rightarrow> Inl err
       | (hs, Inr _) \<Rightarrow> Inr hs)"

definition rebuild_temporal_histories ::
    "PolicyEpisodeSample list \<Rightarrow> nat \<Rightarrow> (string, TemporalHistory) omap Result" where
  "rebuild_temporal_histories episodes capacity =
     res_bind (validate_history_options capacity) (\<lambda>_.
     if episodes = [] then policy_fail EpisodeSamplesInvalid ''rebuild episode batch is empty''
     else res_bind (fold_res (rebuild_sample capacity) ([], []) episodes) (\<lambda>hs. Inr (fst hs)))"

end
