(* ===== verification/Temporal_Invariants.thy ===== *)
theory Temporal_Invariants
  imports Temporal_Runtime
begin

text \<open>
  The invariant of the policy runtime and what every operation does to it. The operations that
  change the runtime are the constructors of \<open>PolicyOp\<close>; \<open>policy_moves\<close> is the step relation they
  generate. The invariant speaks about the rule table (keys, validity, the two bounds), about the
  promotion evidence of runtime rules, and about the histories.
\<close>

section \<open>Frames\<close>

lemma emit_frame [simp]:
  "rp_options (emit ty i p rt) = rp_options rt" "rp_has_sink (emit ty i p rt) = rp_has_sink rt"
  "rp_rules (emit ty i p rt) = rp_rules rt" "rp_evidence (emit ty i p rt) = rp_evidence rt"
  "rp_histories (emit ty i p rt) = rp_histories rt"
  "rp_next_sequence (emit ty i p rt) = rp_next_sequence rt"
  "rp_active_states (emit ty i p rt) = rp_active_states rt"
  "rp_max_tick (emit ty i p rt) = rp_max_tick rt" "rp_has_stepped (emit ty i p rt) = rp_has_stepped rt"
  by (simp_all add: emit_def)

lemma set_status_frame [simp]:
  "rp_options (set_status i st rt) = rp_options rt" "rp_has_sink (set_status i st rt) = rp_has_sink rt"
  "rp_events (set_status i st rt) = rp_events rt" "rp_evidence (set_status i st rt) = rp_evidence rt"
  "rp_histories (set_status i st rt) = rp_histories rt"
  "rp_next_sequence (set_status i st rt) = rp_next_sequence rt"
  "rp_active_states (set_status i st rt) = rp_active_states rt"
  "rp_max_tick (set_status i st rt) = rp_max_tick rt" "rp_has_stepped (set_status i st rt) = rp_has_stepped rt"
  "rp_rules (set_status i st rt) = with_status i st (rp_rules rt)"
  by (simp_all add: set_status_def)

lemma find_with_status [simp]:
  "omap_find (with_status i st rules) k =
     (if k = i then map_option (rr_status_update (\<lambda>_. st)) (omap_find rules i) else omap_find rules k)"
  by (simp add: with_status_def split: option.splits)

lemma fold_set_status:
  "fold (\<lambda>i. set_status i st) ids rt = rt\<lparr>rp_rules := fold (\<lambda>i. with_status i st) ids (rp_rules rt)\<rparr>"
  by (induction ids arbitrary: rt) (simp_all add: set_status_def)

lemma find_fold_with_status:
  "omap_find (fold (\<lambda>i. with_status i st) ids rules) k =
     (if k \<in> set ids then map_option (rr_status_update (\<lambda>_. st)) (omap_find rules k) else omap_find rules k)"
  by (induction ids arbitrary: rules) (auto simp: option.map_comp comp_def)

lemma emit_appends:
  obtains es where "emit ty i p rt = rt\<lparr>rp_events := rp_events rt @ es\<rparr>"
    "length es = (if rp_has_sink rt then 1 else 0)"
proof (cases "rp_has_sink rt")
  case True
  then show ?thesis by (intro that [of "[_]"]) (simp_all add: emit_def)
next
  case False
  then show ?thesis by (intro that [of "[]"]) (simp_all add: emit_def)
qed

lemma fold_emit_appends: "\<exists>es. fold (\<lambda>i. emit ty i p) ids rt = rt\<lparr>rp_events := rp_events rt @ es\<rparr>"
proof (induction ids arbitrary: rt)
  case Nil
  show ?case by (intro exI [of _ "[]"]) simp
next
  case (Cons i ids)
  obtain e where "emit ty i p rt = rt\<lparr>rp_events := rp_events rt @ e\<rparr>" by (rule emit_appends)
  with Cons.IH [of "emit ty i p rt"] show ?case by auto
qed

lemma conflict_shape:
  obtains es where "conflict ms rt = rt\<lparr>rp_rules := fold (\<lambda>i. with_status i Candidate)
    (map (\<lambda>m. rr_rule_id (mt_rule m)) ms) (rp_rules rt), rp_events := rp_events rt @ es\<rparr>"
proof -
  let ?ids = "map (\<lambda>m. rr_rule_id (mt_rule m)) ms"
  obtain p q r where conflict: "conflict ms rt = fold (\<lambda>i. emit RuleDemoted i r) ?ids
      (fold (\<lambda>i. set_status i Candidate) ?ids
        (emit PolicyEscalatedToAgent '''' p (emit RuleConflicted '''' q rt)))"
    by (simp add: conflict_def Let_def)
  obtain e1 where e1: "emit RuleConflicted '''' q rt = rt\<lparr>rp_events := rp_events rt @ e1\<rparr>"
    by (rule emit_appends)
  obtain e2 where e2: "emit PolicyEscalatedToAgent '''' p (rt\<lparr>rp_events := rp_events rt @ e1\<rparr>) =
      rt\<lparr>rp_events := rp_events rt @ e1\<rparr>\<lparr>rp_events := rp_events (rt\<lparr>rp_events := rp_events rt @ e1\<rparr>) @ e2\<rparr>"
    by (rule emit_appends)
  show ?thesis
    using fold_emit_appends [of RuleDemoted r ?ids "fold (\<lambda>i. set_status i Candidate) ?ids
      (emit PolicyEscalatedToAgent '''' p (emit RuleConflicted '''' q rt))"] that
    unfolding conflict e1 e2 fold_set_status by auto
qed

section \<open>The rule table\<close>

text \<open>What the two bounds of the options say about a table.\<close>

definition table_bounded :: "PolicyRuntimeOptions \<Rightarrow> ReactiveRule list \<Rightarrow> bool" where
  "table_bounded p rs \<longleftrightarrow> length rs \<le> po_max_rules p \<and>
     (\<forall>state. state_count state rs \<le> po_max_rules_per_state p)"

definition rule_entry_ok :: "PolicyRuntimeOptions \<Rightarrow> (string, RuleResult) omap \<Rightarrow> string \<Rightarrow> ReactiveRule \<Rightarrow> bool" where
  "rule_entry_ok p evidence k r \<longleftrightarrow> rr_rule_id r = k \<and> validate_rule r = Inr () \<and>
     (rr_status r = Runtime \<longrightarrow> evidence_passes p (omap_find evidence k))"

definition rules_inv :: "ReactivePolicyRuntime \<Rightarrow> bool" where
  "rules_inv rt \<longleftrightarrow> omap_ok (rp_rules rt) \<and> table_bounded (rp_options rt) (map snd (rp_rules rt)) \<and>
     (\<forall>k r. omap_find (rp_rules rt) k = Some r \<longrightarrow> rule_entry_ok (rp_options rt) (rp_evidence rt) k r)"

lemma state_count_states: "state_count s rs = count_list (map rr_state rs) s"
  by (induction rs) (auto simp: state_count_def)

lemma state_count_mset: "mset rs = mset rs' \<Longrightarrow> state_count s rs = state_count s rs'"
  by (simp add: state_count_def) (metis mset_filter size_mset)

lemma map_values_omap_set:
  assumes "omap_ok m" "omap_find m k = Some v" "f v' = f v"
  shows "map f (map snd (omap_set k v' m)) = map f (map snd m)"
  using assms
proof (induction k v' m rule: omap_set.induct)
  case (2 k v k' v' m)
  then have "k' < k" if "k \<noteq> k'"
    using that map_of_SomeD [of m k] by (force simp: omap_ok_Cons)
  with 2 show ?case by (auto simp: omap_ok_Cons)
qed simp

lemma mset_values_omap_set:
  "omap_ok m \<Longrightarrow> omap_find m k = None \<Longrightarrow> mset (map snd (omap_set k v m)) = add_mset v (mset (map snd m))"
  by (induction k v m rule: omap_set.induct) (auto simp: omap_ok_Cons split: if_splits)

lemma table_bounded_cong:
  "map rr_state rs = map rr_state rs' \<Longrightarrow> table_bounded p rs = table_bounded p rs'"
  unfolding table_bounded_def state_count_states by (metis length_map)

lemma rules_inv_cong:
  "rp_rules s = rp_rules t \<Longrightarrow> rp_options s = rp_options t \<Longrightarrow> rp_evidence s = rp_evidence t \<Longrightarrow>
   rules_inv s = rules_inv t"
  by (simp add: rules_inv_def)

lemma validate_rule_status:
  "validate_rule r = Inr () \<Longrightarrow> status_known st \<Longrightarrow> validate_rule (r\<lparr>rr_status := st\<rparr>) = Inr ()"
  by (auto simp: validate_rule_def split: if_splits)

lemma rules_inv_set_status:
  assumes "rules_inv rt" "status_known st"
    "st = Runtime \<Longrightarrow> evidence_passes (rp_options rt) (omap_find (rp_evidence rt) i)"
  shows "rules_inv (set_status i st rt)"
proof (cases "omap_find (rp_rules rt) i")
  case None
  then show ?thesis using assms(1) by (simp add: set_status_def with_status_def)
next
  case (Some r)
  define r' where "r' = r\<lparr>rr_status := st\<rparr>"
  have rules: "with_status i st (rp_rules rt) = omap_set i r' (rp_rules rt)"
    using Some by (simp add: with_status_def r'_def)
  have ok: "omap_ok (rp_rules rt)" and entry: "rule_entry_ok (rp_options rt) (rp_evidence rt) i r"
    using assms(1) Some by (auto simp: rules_inv_def)
  have "map rr_state (map snd (omap_set i r' (rp_rules rt))) = map rr_state (map snd (rp_rules rt))"
    by (rule map_values_omap_set [OF ok Some]) (simp add: r'_def)
  then have "table_bounded (rp_options rt) (map snd (omap_set i r' (rp_rules rt)))"
    using assms(1) table_bounded_cong unfolding rules_inv_def by blast
  moreover have "rule_entry_ok (rp_options rt) (rp_evidence rt) i r'"
    using entry assms(2,3) by (simp add: rule_entry_ok_def r'_def validate_rule_status)
  ultimately show ?thesis
    using assms(1) ok by (auto simp: rules_inv_def rules)
qed

lemma rules_inv_emit [simp]: "rules_inv (emit ty i p rt) = rules_inv rt"
  by (rule rules_inv_cong) simp_all

lemma rules_inv_fold_set_status:
  "rules_inv rt \<Longrightarrow> status_known st \<Longrightarrow> st \<noteq> Runtime \<Longrightarrow> rules_inv (fold (\<lambda>i. set_status i st) ids rt)"
  by (induction ids arbitrary: rt) (auto intro!: rules_inv_set_status)

section \<open>Adoption\<close>

text \<open>The rules of a batch that enter the table: the first one of every identifier not yet known.\<close>

fun first_unknown :: "string set \<Rightarrow> ReactiveRule list \<Rightarrow> ReactiveRule list" where
  "first_unknown known [] = []"
| "first_unknown known (r # rs) =
     (if rr_rule_id r \<in> known then first_unknown known rs
      else r # first_unknown (insert (rr_rule_id r) known) rs)"

lemma fresh_rules_Inr:
  "fresh_rules known fresh rs = Inr out \<longleftrightarrow>
     (\<forall>r\<in>set rs. validate_rule r = Inr ()) \<and>
     out = fresh @ first_unknown (dom (omap_find known) \<union> rr_rule_id ` set fresh) rs"
proof (induction known fresh rs arbitrary: out rule: fresh_rules.induct)
  case (2 known fresh r rs)
  have dom: "omap_find known (rr_rule_id r) \<noteq> None \<longleftrightarrow> rr_rule_id r \<in> dom (omap_find known)" by auto
  show ?case
    using "2.IH" by (cases "validate_rule r") (auto simp: dom simp del: dom_map_of_conv_image_fst)
qed auto

lemma first_unknown_props:
  "distinct (map rr_rule_id (first_unknown known rs)) \<and> set (first_unknown known rs) \<subseteq> set rs \<and>
   rr_rule_id ` set (first_unknown known rs) = rr_rule_id ` set rs - known"
proof (induction known rs rule: first_unknown.induct)
  case (2 known r rs)
  then show ?case by (cases "rr_rule_id r \<in> known") (simp_all, blast+)
qed simp

definition stored :: "ReactiveRule \<Rightarrow> ReactiveRule" where
  "stored r = r\<lparr>rr_status := Candidate\<rparr>"

lemma adopt_one_unknown:
  assumes "omap_find (rp_rules rt) (rr_rule_id r) = None"
  obtains ty p where "adopt_one r (rt, n) =
    (emit ty (rr_rule_id r) p (rt\<lparr>rp_rules := omap_set (rr_rule_id r) (stored r) (rp_rules rt)\<rparr>), Suc n)"
  using assms that by (simp add: adopt_one_def stored_def)

lemma fold_adopt_one:
  assumes "omap_ok (rp_rules rt)" "distinct (map rr_rule_id fresh)"
    "\<forall>r\<in>set fresh. omap_find (rp_rules rt) (rr_rule_id r) = None"
  shows "\<exists>rt' es. fold adopt_one fresh (rt, n) = (rt', n + length fresh) \<and>
    rt' = rt\<lparr>rp_rules := rp_rules rt', rp_events := rp_events rt @ es\<rparr> \<and>
    length es = (if rp_has_sink rt then length fresh else 0) \<and>
    omap_ok (rp_rules rt') \<and>
    rp_rules rt' = fold (\<lambda>r. omap_set (rr_rule_id r) (stored r)) fresh (rp_rules rt) \<and>
    mset (map snd (rp_rules rt')) = mset (map snd (rp_rules rt)) + mset (map stored fresh)"
  using assms
proof (induction fresh arbitrary: rt n)
  case Nil
  then show ?case by (auto intro!: exI [of _ rt] exI [of _ "[]"])
next
  case (Cons r fresh)
  let ?rules = "omap_set (rr_rule_id r) (stored r) (rp_rules rt)"
  obtain ty p where one: "adopt_one r (rt, n) = (emit ty (rr_rule_id r) p (rt\<lparr>rp_rules := ?rules\<rparr>), Suc n)"
    using Cons.prems(3) by (auto elim!: adopt_one_unknown)
  let ?rt = "emit ty (rr_rule_id r) p (rt\<lparr>rp_rules := ?rules\<rparr>)"
  obtain e where e: "?rt = rt\<lparr>rp_rules := ?rules, rp_events := rp_events rt @ e\<rparr>"
      "length e = (if rp_has_sink rt then 1 else 0)"
    by (rule emit_appends [of ty "rr_rule_id r" p "rt\<lparr>rp_rules := ?rules\<rparr>"]) (rule that, simp_all)
  have "omap_ok (rp_rules ?rt)" "distinct (map rr_rule_id fresh)"
    "\<forall>q\<in>set fresh. omap_find (rp_rules ?rt) (rr_rule_id q) = None"
    using Cons.prems by (auto simp: image_iff)
  from Cons.IH [OF this, of "Suc n"] obtain rt' es where
    "fold adopt_one fresh (?rt, Suc n) = (rt', Suc n + length fresh)"
    "rt' = ?rt\<lparr>rp_rules := rp_rules rt', rp_events := rp_events ?rt @ es\<rparr>"
    "length es = (if rp_has_sink ?rt then length fresh else 0)" "omap_ok (rp_rules rt')"
    "rp_rules rt' = fold (\<lambda>r. omap_set (rr_rule_id r) (stored r)) fresh ?rules"
    "mset (map snd (rp_rules rt')) = mset (map snd ?rules) + mset (map stored fresh)"
    by auto
  then show ?case
    using one e Cons.prems by (intro exI [of _ rt'] exI [of _ "e @ es"]) (simp add: mset_values_omap_set [unfolded mset_map])
qed

lemma find_fold_stored:
  "omap_find (fold (\<lambda>r. omap_set (rr_rule_id r) (stored r)) fresh m) =
     omap_find m ++ map_of (rev (map (\<lambda>r. (rr_rule_id r, stored r)) fresh))"
  by (induction fresh arbitrary: m) (simp_all add: map_add_assoc)

text \<open>Adoption either leaves the runtime alone and reports an error, or stores every fresh rule as a
  candidate, records one event for each, and reports their number.\<close>

lemma adopt_cases:
  assumes "omap_ok (rp_rules rt)"
  obtains (rejected) e where "adopt_candidate_rules rules rt = (rt, Inl e)"
  | (adopted) fresh rt' es where
      "adopt_candidate_rules rules rt = (rt', Inr (length fresh))"
      "fresh = first_unknown (dom (omap_find (rp_rules rt))) rules"
      "\<forall>r\<in>set rules. validate_rule r = Inr ()"
      "rt' = rt\<lparr>rp_rules := rp_rules rt', rp_events := rp_events rt @ es\<rparr>"
      "length es = (if rp_has_sink rt then length fresh else 0)"
      "omap_ok (rp_rules rt')"
      "rp_rules rt' = fold (\<lambda>r. omap_set (rr_rule_id r) (stored r)) fresh (rp_rules rt)"
      "mset (map snd (rp_rules rt')) = mset (map snd (rp_rules rt) @ map stored fresh)"
      "length (rp_rules rt) + length fresh \<le> po_max_rules (rp_options rt)"
      "\<forall>r\<in>set (map snd (rp_rules rt) @ fresh). state_count (rr_state r) (map snd (rp_rules rt) @ fresh)
        \<le> po_max_rules_per_state (rp_options rt)"
proof (cases "fst (adopt_candidate_rules rules rt) = rt \<and> (\<exists>e. snd (adopt_candidate_rules rules rt) = Inl e)")
  case True
  then show ?thesis by (metis rejected prod.collapse)
next
  case False
  then obtain fresh where fresh: "fresh_rules (rp_rules rt) [] rules = Inr fresh"
    and len: "length (rp_rules rt) + length fresh \<le> po_max_rules (rp_options rt)"
    and per: "\<not> list_ex (\<lambda>r. state_count (rr_state r) (map snd (rp_rules rt) @ fresh) >
       po_max_rules_per_state (rp_options rt)) (map snd (rp_rules rt) @ fresh)"
    by (auto simp: adopt_candidate_rules_def split: sum.splits if_splits)
  have props: "fresh = first_unknown (dom (omap_find (rp_rules rt))) rules" "\<forall>r\<in>set rules. validate_rule r = Inr ()"
    using fresh by (simp_all add: fresh_rules_Inr del: dom_map_of_conv_image_fst)
  have "distinct (map rr_rule_id fresh)" "\<forall>r\<in>set fresh. omap_find (rp_rules rt) (rr_rule_id r) = None"
    using first_unknown_props [of "dom (omap_find (rp_rules rt))" rules] unfolding props(1) [symmetric]
    by (simp, blast)
  from fold_adopt_one [OF assms this, of 0] obtain rt' es where
    fold: "fold adopt_one fresh (rt, 0) = (rt', length fresh)"
    and rest: "rt' = rt\<lparr>rp_rules := rp_rules rt', rp_events := rp_events rt @ es\<rparr>"
    "length es = (if rp_has_sink rt then length fresh else 0)" "omap_ok (rp_rules rt')"
    "rp_rules rt' = fold (\<lambda>r. omap_set (rr_rule_id r) (stored r)) fresh (rp_rules rt)"
    "mset (map snd (rp_rules rt')) = mset (map snd (rp_rules rt)) + mset (map stored fresh)"
    by auto
  have call: "adopt_candidate_rules rules rt = (rt', Inr (length fresh))"
    using fresh len per fold by (simp add: adopt_candidate_rules_def)
  have table: "mset (map snd (rp_rules rt')) = mset (map snd (rp_rules rt) @ map stored fresh)"
    using rest(5) by simp
  have bound: "\<forall>r\<in>set (map snd (rp_rules rt) @ fresh). state_count (rr_state r) (map snd (rp_rules rt) @ fresh)
      \<le> po_max_rules_per_state (rp_options rt)"
    using per by (simp add: list_ex_iff not_less)
  show ?thesis by (rule adopted [OF call props rest(1-4) table len bound])
qed

lemma state_count_zero: "(\<And>r. r \<in> set rs \<Longrightarrow> rr_state r \<noteq> s) \<Longrightarrow> state_count s rs = 0"
  by (simp add: state_count_def filter_empty_conv)

lemma rules_inv_adopt:
  assumes "rules_inv rt"
  shows "rules_inv (fst (adopt_candidate_rules rules rt))"
proof -
  have ok: "omap_ok (rp_rules rt)" using assms by (simp add: rules_inv_def)
  from ok show ?thesis
  proof (cases rule: adopt_cases [where rules = rules, consumes 1, case_names rejected adopted])
    case (rejected e)
    then show ?thesis using assms by simp
  next
    case (adopted fresh rt' es)
    have frame: "rp_options rt' = rp_options rt" "rp_evidence rt' = rp_evidence rt"
      by (subst adopted(4), simp)+
    have "length (rp_rules rt') \<le> po_max_rules (rp_options rt)"
      using adopted(9) arg_cong [OF adopted(8), of size] by simp
    moreover have "state_count s (map snd (rp_rules rt')) \<le> po_max_rules_per_state (rp_options rt)" for s
    proof -
      have "state_count s (map snd (rp_rules rt')) = state_count s (map snd (rp_rules rt) @ fresh)"
        unfolding state_count_mset [OF adopted(8)] by (simp add: state_count_states stored_def comp_def)
      also have "\<dots> \<le> po_max_rules_per_state (rp_options rt)"
      proof (cases "\<exists>r\<in>set (map snd (rp_rules rt) @ fresh). rr_state r = s")
        case True
        then show ?thesis using adopted(10) by blast
      next
        case False
        then show ?thesis by (subst state_count_zero) auto
      qed
      finally show ?thesis .
    qed
    moreover have "rule_entry_ok (rp_options rt) (rp_evidence rt) k r"
      if "omap_find (rp_rules rt') k = Some r" for k r
    proof -
      from that consider "omap_find (rp_rules rt) k = Some r" | q where "q \<in> set fresh" "k = rr_rule_id q" "r = stored q"
        unfolding adopted(7) find_fold_stored by (force dest: map_of_SomeD)
      then show ?thesis
      proof cases
        case 1
        then show ?thesis using assms by (simp add: rules_inv_def)
      next
        case 2
        then have "validate_rule q = Inr ()"
          using adopted(2,3) first_unknown_props by blast
        with 2 show ?thesis by (simp add: rule_entry_ok_def stored_def validate_rule_status status_known_def)
      qed
    qed
    ultimately show ?thesis
      using adopted(1,6) frame by (simp add: rules_inv_def table_bounded_def)
  qed
qed

section \<open>Testing\<close>

definition candidates :: "ReactivePolicyRuntime \<Rightarrow> ReactiveRule list" where
  "candidates rt = filter (\<lambda>r. rr_status r = Candidate) (map snd (rp_rules rt))"

lemma fold_test_one:
  "\<exists>es. fold (test_one eps) rs (rt, rows) =
     (rt\<lparr>rp_evidence := fold (\<lambda>r. omap_set (rr_rule_id r) (test_row eps r)) (filter (\<lambda>r. rr_status r = Candidate) rs)
          (rp_evidence rt), rp_events := rp_events rt @ es\<rparr>,
      rows @ map (test_row eps) (filter (\<lambda>r. rr_status r = Candidate) rs))"
proof (induction rs arbitrary: rt rows)
  case Nil
  show ?case by (intro exI [of _ "[]"]) simp
next
  case (Cons r rs)
  show ?case
  proof (cases "rr_status r = Candidate")
    case False
    then show ?thesis using Cons.IH [of rt rows] by (simp add: test_one_def)
  next
    case True
    let ?rt = "rt\<lparr>rp_evidence := omap_set (rr_rule_id r) (test_row eps r) (rp_evidence rt)\<rparr>"
    obtain p where "test_one eps r (rt, rows) =
        (emit RuleTestingResulted (rr_rule_id r) p ?rt, rows @ [test_row eps r])"
      using True by (simp add: test_one_def Let_def)
    moreover obtain e where "emit RuleTestingResulted (rr_rule_id r) p ?rt = ?rt\<lparr>rp_events := rp_events ?rt @ e\<rparr>"
      by (rule emit_appends)
    ultimately have "test_one eps r (rt, rows) = (?rt\<lparr>rp_events := rp_events rt @ e\<rparr>, rows @ [test_row eps r])"
      by simp
    then show ?thesis
      using True Cons.IH [of "?rt\<lparr>rp_events := rp_events rt @ e\<rparr>" "rows @ [test_row eps r]"] by auto
  qed
qed

text \<open>Testing writes the evidence of the candidates, in the order of the table, and reports it.\<close>

lemma test_cases:
  obtains (rejected) e where "test_candidate_rules eps rt = (rt, Inl e)"
  | (tested) es where "test_candidate_rules eps rt =
      (rt\<lparr>rp_evidence := fold (\<lambda>r. omap_set (rr_rule_id r) (test_row eps r)) (candidates rt) (rp_evidence rt),
         rp_events := rp_events rt @ es\<rparr>, Inr (map (test_row eps) (candidates rt)))"
proof -
  obtain es where "fold (test_one eps) (map snd (rp_rules rt)) (rt, []) =
      (rt\<lparr>rp_evidence := fold (\<lambda>r. omap_set (rr_rule_id r) (test_row eps r)) (candidates rt) (rp_evidence rt),
         rp_events := rp_events rt @ es\<rparr>, map (test_row eps) (candidates rt))"
    using fold_test_one [of eps "map snd (rp_rules rt)" rt "[]"] by (auto simp: candidates_def)
  then have "(\<exists>e. test_candidate_rules eps rt = (rt, Inl e)) \<or> test_candidate_rules eps rt =
      (rt\<lparr>rp_evidence := fold (\<lambda>r. omap_set (rr_rule_id r) (test_row eps r)) (candidates rt) (rp_evidence rt),
         rp_events := rp_events rt @ es\<rparr>, Inr (map (test_row eps) (candidates rt)))"
    by (simp add: test_candidate_rules_def split: sum.split)
  then show ?thesis using rejected tested by blast
qed

lemma find_fold_evidence:
  "k \<notin> rr_rule_id ` set rs \<Longrightarrow> omap_find (fold (\<lambda>r. omap_set (rr_rule_id r) (g r)) rs m) k = omap_find m k"
  by (induction rs arbitrary: m) simp_all

lemma rules_inv_ids:
  assumes "rules_inv rt" "(k, r) \<in> set (rp_rules rt)"
  shows "rr_rule_id r = k" "omap_find (rp_rules rt) k = Some r"
  using assms by (auto simp: rules_inv_def rule_entry_ok_def omap_find_in_set)

lemma rules_inv_test:
  assumes "rules_inv rt"
  shows "rules_inv (fst (test_candidate_rules eps rt))"
proof (cases rule: test_cases [of eps rt, case_names rejected tested])
  case rejected
  then show ?thesis using assms by simp
next
  case (tested es)
  have "omap_find (fold (\<lambda>r. omap_set (rr_rule_id r) (test_row eps r)) (candidates rt) (rp_evidence rt)) k =
      omap_find (rp_evidence rt) k"
    if k: "omap_find (rp_rules rt) k = Some r" "rr_status r = Runtime" for k r
  proof (rule find_fold_evidence)
    show "k \<notin> rr_rule_id ` set (candidates rt)"
    proof
      assume "k \<in> rr_rule_id ` set (candidates rt)"
      then obtain j q where q: "(j, q) \<in> set (rp_rules rt)" "rr_status q = Candidate" "k = rr_rule_id q"
        by (auto simp: candidates_def)
      then show False using rules_inv_ids [OF assms q(1)] k by simp
    qed
  qed
  then show ?thesis using assms by (simp add: tested rules_inv_def rule_entry_ok_def)
qed

section \<open>Histories\<close>

interpretation history_ring: bounded_log "push_entry (Suc n)" "Suc n" for n
  by unfold_locales (auto simp: push_entry_def last_n_def drop_Suc tl_drop)

definition history_ok :: "nat \<Rightarrow> TemporalHistory \<Rightarrow> bool" where
  "history_ok capacity h \<longleftrightarrow> th_capacity h = capacity \<and> length (th_entries h) \<le> capacity \<and>
     sorted_wrt (\<lambda>a b. he_sequence a < he_sequence b) (th_entries h)"

lemma history_append_ok:
  assumes "history_ok c h" "history_append h e = Inr h'"
  shows "history_ok c h'"
proof -
  obtain n where c: "c = Suc n" "th_capacity h = Suc n"
    using assms by (cases c) (auto simp: history_append_def history_ok_def)
  have h': "h' = h\<lparr>th_entries := push_entry (Suc n) e (th_entries h)\<rparr>"
    using assms(2) c by (auto simp: history_append_def split: if_splits)
  have len: "length (th_entries h) \<le> Suc n" and sorted: "sorted_wrt (\<lambda>a b. he_sequence a < he_sequence b) (th_entries h)"
    using assms(1) c by (simp_all add: history_ok_def)
  have "he_sequence a < he_sequence e" if a: "a \<in> set (th_entries h)" for a
  proof -
    have new: "he_sequence (last (th_entries h)) < he_sequence e"
      using assms(2) a by (auto simp: history_append_def split: if_splits)
    have "a = last (th_entries h) \<or> he_sequence a < he_sequence (last (th_entries h))"
      using sorted a by (metis append_butlast_last_id length_pos_if_in_set length_greater_0_conv
        rotate1.simps(2) set_rotate1 sorted_wrt_append set_ConsD list.set_intros(1))
    with new show ?thesis by auto
  qed
  then show ?thesis
    using history_ring.push_bounded [OF len] history_ring.push_sorted [OF len sorted]
    by (simp add: history_ok_def h' c)
qed

definition histories_ok :: "nat \<Rightarrow> (string, TemporalHistory) omap \<Rightarrow> bool" where
  "histories_ok capacity hs \<longleftrightarrow> omap_ok hs \<and> (\<forall>k h. omap_find hs k = Some h \<longrightarrow> history_ok capacity h)"

lemma record_entity_ok:
  assumes "histories_ok c (fst hs)"
  shows "histories_ok c (fst (fst (record_entity c at e hs)))"
proof -
  let ?hs = "omap_emplace (te_entity_key e) (new_history c) (fst hs)"
  have ok: "histories_ok c ?hs"
    using assms by (auto simp: histories_ok_def omap_find_emplace new_history_def history_ok_def split: option.splits if_splits)
  obtain h where h: "omap_find ?hs (te_entity_key e) = Some h"
    by (cases "omap_find (fst hs) (te_entity_key e)") (auto simp: omap_find_emplace)
  then have "history_ok c h" using ok by (simp add: histories_ok_def)
  then show ?thesis
    using ok h
    by (auto dest: history_append_ok [of c h] simp: record_entity_def Let_def histories_ok_def split: sum.splits)
qed

lemma record_entities_ok:
  "histories_ok c (fst hs) \<Longrightarrow> histories_ok c (fst (fst (record_entities c at es hs)))"
proof (induction c at es hs rule: record_entities.induct)
  case (2 c at e es hs)
  then show ?case
    using record_entity_ok [of c hs at e] by (auto split: prod.splits sum.splits)
qed simp

section \<open>Operations and runs\<close>

text \<open>The operations of the class that may change the object; induction, lookups and the rebuild only read.\<close>

datatype PolicyOp =
    OpActivate string | OpDeactivate string | OpStep PolicyWorldView PolicyTickContext
  | OpAdopt "ReactiveRule list" | OpTest "PolicyEpisodeSample list"
  | OpPromote string | OpDemote string string | OpRetire string

fun run_op :: "PolicyOp \<Rightarrow> ReactivePolicyRuntime \<Rightarrow> ReactivePolicyRuntime" where
  "run_op (OpActivate s) rt = fst (activate s rt)"
| "run_op (OpDeactivate s) rt = fst (deactivate s rt)"
| "run_op (OpStep w t) rt = fst (policy_step w t rt)"
| "run_op (OpAdopt rs) rt = fst (adopt_candidate_rules rs rt)"
| "run_op (OpTest eps) rt = fst (test_candidate_rules eps rt)"
| "run_op (OpPromote i) rt = fst (promote_rule i rt)"
| "run_op (OpDemote i reason) rt = fst (demote_rule i reason rt)"
| "run_op (OpRetire i) rt = fst (retire_rule i rt)"

inductive policy_moves :: "ReactivePolicyRuntime \<Rightarrow> ReactivePolicyRuntime \<Rightarrow> bool" where
  move: "policy_moves rt (run_op op rt)"

inductive_cases policy_movesE: "policy_moves rt rt'"

definition policy_inv :: "ReactivePolicyRuntime \<Rightarrow> bool" where
  "policy_inv rt \<longleftrightarrow> rules_inv rt \<and> histories_ok (po_history_capacity (rp_options rt)) (rp_histories rt) \<and>
     (rp_has_stepped rt \<or> rp_max_tick rt = 0)"

lemma policy_inv_new: "policy_inv (new_policy_runtime options sink)"
  by (simp add: policy_inv_def new_policy_runtime_def rules_inv_def histories_ok_def table_bounded_def state_count_def)

section \<open>Matches\<close>

lemma first_match_Some:
  "first_match w ts = Some (t, a) \<Longrightarrow> t \<in> set ts \<and> transition_matches t w = Some a"
  by (induction ts) (auto split: option.splits)

lemma first_match_None: "first_match w ts = None \<longleftrightarrow> (\<forall>t\<in>set ts. transition_matches t w = None)"
  by (induction ts) (auto split: option.splits)

lemma collect_matches_frame:
  "rp_rules s = rp_rules t \<Longrightarrow> rp_active_states s = rp_active_states t \<Longrightarrow> collect_matches w s = collect_matches w t"
  by (simp add: collect_matches_def ordered_rules_def)

lemma set_ordered_rules:
  "set (ordered_rules rt) = {r \<in> snd ` set (rp_rules rt). rr_status r = Runtime \<and> rr_state r \<in> rp_active_states rt}"
  by (auto simp: ordered_rules_def)

lemma set_map_filter_iff: "y \<in> set (List.map_filter f xs) \<longleftrightarrow> (\<exists>x\<in>set xs. f x = Some y)"
  by (auto simp: List.map_filter_def image_iff)

lemma collect_matches_member:
  "m \<in> set (collect_matches w rt) \<longleftrightarrow> mt_rule m \<in> set (ordered_rules rt) \<and>
     first_match w (rr_transitions (mt_rule m)) = Some (mt_transition m, mt_anchor m)"
  unfolding collect_matches_def set_map_filter_iff by (cases m) auto

lemma match_known:
  assumes "rules_inv rt" "m \<in> set (collect_matches w rt)"
  shows "omap_find (rp_rules rt) (rr_rule_id (mt_rule m)) = Some (mt_rule m)" "rr_status (mt_rule m) = Runtime"
  using assms rules_inv_ids [OF assms(1)] by (auto simp: collect_matches_member set_ordered_rules)

section \<open>The cases of a step\<close>

abbreviation ticked :: "PolicyTickContext \<Rightarrow> (string, TemporalHistory) omap \<Rightarrow> (string, u64) omap \<Rightarrow>
    ReactivePolicyRuntime \<Rightarrow> ReactivePolicyRuntime" where
  "ticked t hs ns rt \<equiv> rt\<lparr>rp_histories := hs, rp_next_sequence := ns, rp_max_tick := tc_tick t, rp_has_stepped := True\<rparr>"

lemma list_cases_two [case_names nil one more]:
  obtains "xs = []" | x where "xs = [x]" | x y zs where "xs = x # y # zs"
  by (metis neq_Nil_conv)

lemma policy_step_cases:
  obtains (rejected) e where "policy_step w t rt = (rt, Inl e)"
  | (history_failed) hs ns e where
      "policy_step w t rt = (rt\<lparr>rp_histories := hs, rp_next_sequence := ns\<rparr>, Inl e)"
      "record_entities (po_history_capacity (rp_options rt)) (tc_tick_time t) (wv_entities w)
        (rp_histories rt, rp_next_sequence rt) = ((hs, ns), Inl e)"
  | (stepped) hs ns rt' acts where
      "policy_step w t rt = (rt', Inr acts)" "validate_view w = Inr ()"
      "\<not> (rp_has_stepped rt \<and> tc_tick t \<le> rp_max_tick rt)"
      "record_entities (po_history_capacity (rp_options rt)) (tc_tick_time t) (wv_entities w)
        (rp_histories rt, rp_next_sequence rt) = ((hs, ns), Inr ())"
      "respond (collect_matches w rt) (ticked t hs ns rt) = (rt', acts)"
proof -
  obtain hs ns res where rec: "record_entities (po_history_capacity (rp_options rt)) (tc_tick_time t) (wv_entities w)
      (rp_histories rt, rp_next_sequence rt) = ((hs, ns), res)"
    by (metis prod.exhaust)
  have matches: "collect_matches w (ticked t hs ns rt) = collect_matches w rt"
    by (rule collect_matches_frame) simp_all
  consider e where "validate_view w = Inl e"
    | "validate_view w = Inr ()" "rp_has_stepped rt \<and> tc_tick t \<le> rp_max_tick rt"
    | e where "validate_view w = Inr ()" "\<not> (rp_has_stepped rt \<and> tc_tick t \<le> rp_max_tick rt)" "res = Inl e"
    | "validate_view w = Inr ()" "\<not> (rp_has_stepped rt \<and> tc_tick t \<le> rp_max_tick rt)" "res = Inr ()"
    by (cases "validate_view w"; cases res) auto
  then show ?thesis
  proof cases
    case 4
    obtain rt' acts where resp: "respond (collect_matches w rt) (ticked t hs ns rt) = (rt', acts)"
      by (metis prod.exhaust)
    then have "policy_step w t rt = (rt', Inr acts)"
      using 4 rec matches by (simp add: policy_step_def)
    then show ?thesis using stepped 4 rec resp by blast
  qed (use rejected history_failed rec in \<open>auto simp: policy_step_def\<close>)
qed

text \<open>What an answer to the matches leaves: only the statuses of conflicting rules and the log change.\<close>

lemma respond_shape:
  obtains es where "fst (respond ms rt) = rt\<lparr>rp_rules := (if length ms \<ge> 2
       then fold (\<lambda>i. with_status i Candidate) (map (\<lambda>m. rr_rule_id (mt_rule m)) ms) (rp_rules rt)
       else rp_rules rt), rp_events := rp_events rt @ es\<rparr>"
proof (cases ms rule: list_cases_two)
  case nil
  then show ?thesis by (intro that [of "[]"]) (simp add: respond_def)
next
  case (one m)
  obtain e where "trigger m rt = rt\<lparr>rp_events := rp_events rt @ e\<rparr>"
    unfolding trigger_def by (rule emit_appends)
  with one show ?thesis by (intro that [of e]) (simp add: respond_def)
next
  case (more m m' ms')
  obtain e where "conflict ms rt = rt\<lparr>rp_rules := fold (\<lambda>i. with_status i Candidate)
      (map (\<lambda>m. rr_rule_id (mt_rule m)) ms) (rp_rules rt), rp_events := rp_events rt @ e\<rparr>"
    by (rule conflict_shape)
  with more show ?thesis by (intro that [of e]) (simp add: respond_def)
qed

lemma rules_inv_respond:
  assumes "rules_inv rt"
  shows "rules_inv (fst (respond ms rt))"
proof -
  obtain es where shape: "fst (respond ms rt) = rt\<lparr>rp_rules := (if length ms \<ge> 2
       then fold (\<lambda>i. with_status i Candidate) (map (\<lambda>m. rr_rule_id (mt_rule m)) ms) (rp_rules rt)
       else rp_rules rt), rp_events := rp_events rt @ es\<rparr>"
    by (rule respond_shape)
  have "rules_inv (fold (\<lambda>i. set_status i Candidate) (map (\<lambda>m. rr_rule_id (mt_rule m)) ms) rt)"
    using assms by (rule rules_inv_fold_set_status) (simp_all add: status_known_def)
  with assms show ?thesis unfolding shape fold_set_status rules_inv_def by simp
qed

section \<open>Every operation keeps the invariant\<close>

lemma rules_inv_step: "rules_inv rt \<Longrightarrow> rules_inv (fst (policy_step w t rt))"
proof (cases rule: policy_step_cases [of w t rt, case_names rejected failed stepped])
  case (stepped hs ns rt' acts)
  assume "rules_inv rt"
  then have "rules_inv (ticked t hs ns rt)" by (simp add: rules_inv_def)
  then have "rules_inv (fst (respond (collect_matches w rt) (ticked t hs ns rt)))" by (rule rules_inv_respond)
  with stepped show ?thesis by simp
qed (simp_all add: rules_inv_def)

lemma rules_inv_op:
  assumes "rules_inv rt"
  shows "rules_inv (run_op op rt)"
proof (cases op)
  case (OpPromote i)
  have "rr_rule_id r = i" if "omap_find (rp_rules rt) i = Some r" for r
    using assms that by (simp add: rules_inv_def rule_entry_ok_def)
  with OpPromote show ?thesis
    using assms by (auto simp: promote_rule_def status_known_def intro!: rules_inv_set_status split: option.splits)
qed (use assms in \<open>auto simp: activate_def deactivate_def demote_rule_def retire_rule_def status_known_def rules_inv_step
      rules_inv_adopt rules_inv_test intro!: rules_inv_set_status split: option.splits elim: rules_inv_cong [THEN iffD1, rotated 3]\<close>)

section \<open>Progress\<close>

text \<open>What no operation undoes: the options and the sink stay, the log only grows, ticks do not go back,
  a rule stays in the table with its contents, and a retired rule stays retired.\<close>

definition rule_moved :: "ReactiveRule \<Rightarrow> ReactiveRule \<Rightarrow> bool" where
  "rule_moved r r' \<longleftrightarrow> r' = r\<lparr>rr_status := rr_status r'\<rparr> \<and> (rr_status r = Retired \<longrightarrow> rr_status r' = Retired)"

definition rules_moved :: "(string, ReactiveRule) omap \<Rightarrow> (string, ReactiveRule) omap \<Rightarrow> bool" where
  "rules_moved rs rs' \<longleftrightarrow> (\<forall>k r. omap_find rs k = Some r \<longrightarrow> (\<exists>r'. omap_find rs' k = Some r' \<and> rule_moved r r'))"

definition policy_progress :: "ReactivePolicyRuntime \<Rightarrow> ReactivePolicyRuntime \<Rightarrow> bool" where
  "policy_progress s t \<longleftrightarrow> rp_options t = rp_options s \<and> rp_has_sink t = rp_has_sink s \<and>
     (\<exists>es. rp_events t = rp_events s @ es) \<and> (rp_has_stepped s \<longrightarrow> rp_has_stepped t) \<and>
     rp_max_tick s \<le> rp_max_tick t \<and> rules_moved (rp_rules s) (rp_rules t)"

lemma rule_moved_refl [simp]: "rule_moved r r"
  by (simp add: rule_moved_def)

lemma rules_moved_refl [simp]: "rules_moved rs rs"
  by (auto simp: rules_moved_def)

lemma rule_moved_trans: "rule_moved r s \<Longrightarrow> rule_moved s t \<Longrightarrow> rule_moved r t"
  unfolding rule_moved_def by (cases r; cases s; cases t) auto

lemma rules_moved_trans: "rules_moved r s \<Longrightarrow> rules_moved s t \<Longrightarrow> rules_moved r t"
  unfolding rules_moved_def by (meson rule_moved_trans)

lemma policy_progress_refl [simp]: "policy_progress s s"
  by (simp add: policy_progress_def)

lemma policy_progress_trans: "policy_progress s t \<Longrightarrow> policy_progress t u \<Longrightarrow> policy_progress s u"
  unfolding policy_progress_def by (auto intro: rules_moved_trans order_trans)

lemma policy_progress_emit: "policy_progress s t \<Longrightarrow> policy_progress s (emit ty i p t)"
  by (rule emit_appends [of ty i p t]) (auto simp: policy_progress_def)

lemma rules_moved_with_status:
  "(\<And>r. omap_find rs i = Some r \<Longrightarrow> rr_status r = Retired \<Longrightarrow> st = Retired) \<Longrightarrow> rules_moved rs (with_status i st rs)"
  by (auto simp: rules_moved_def rule_moved_def)

lemma policy_progress_set_status:
  "(\<And>r. omap_find (rp_rules rt) i = Some r \<Longrightarrow> rr_status r = Retired \<Longrightarrow> st = Retired) \<Longrightarrow>
   policy_progress rt (set_status i st rt)"
  by (simp add: policy_progress_def rules_moved_with_status)

lemma rules_moved_conflict:
  assumes "rules_inv rt"
  shows "rules_moved (rp_rules rt) (fold (\<lambda>i. with_status i Candidate)
    (map (\<lambda>m. rr_rule_id (mt_rule m)) (collect_matches w rt)) (rp_rules rt))"
  unfolding rules_moved_def find_fold_with_status rule_moved_def
  using match_known [OF assms, of _ w] by auto

lemma policy_progress_step:
  assumes "policy_inv rt"
  shows "policy_progress rt (fst (policy_step w t rt))"
proof (cases rule: policy_step_cases [of w t rt, case_names rejected failed stepped])
  case (stepped hs ns rt' acts)
  obtain es where shape: "fst (respond (collect_matches w rt) (ticked t hs ns rt)) = (ticked t hs ns rt)
      \<lparr>rp_rules := (if length (collect_matches w rt) \<ge> 2
       then fold (\<lambda>i. with_status i Candidate) (map (\<lambda>m. rr_rule_id (mt_rule m)) (collect_matches w rt))
         (rp_rules (ticked t hs ns rt))
       else rp_rules (ticked t hs ns rt)), rp_events := rp_events (ticked t hs ns rt) @ es\<rparr>"
    by (rule respond_shape)
  have "rp_max_tick rt \<le> tc_tick t"
    using assms stepped(3) by (auto simp: policy_inv_def)
  moreover have "rules_moved (rp_rules rt) (fold (\<lambda>i. with_status i Candidate)
      (map (\<lambda>m. rr_rule_id (mt_rule m)) (collect_matches w rt)) (rp_rules rt))"
    using assms by (simp add: policy_inv_def rules_moved_conflict)
  ultimately show ?thesis
    using shape stepped by (simp add: policy_progress_def)
qed (simp_all add: policy_progress_def)

lemma policy_progress_adopt:
  assumes "rules_inv rt"
  shows "policy_progress rt (fst (adopt_candidate_rules rules rt))"
proof -
  have ok: "omap_ok (rp_rules rt)" using assms by (simp add: rules_inv_def)
  then show ?thesis
  proof (cases rule: adopt_cases [where rules = rules, consumes 1, case_names rejected adopted])
    case (adopted fresh rt' es)
    have "rr_rule_id ` set fresh \<inter> dom (omap_find (rp_rules rt)) = {}"
      using first_unknown_props [of "dom (omap_find (rp_rules rt))" rules] adopted(2) by blast
    then have "map_of (rev (map (\<lambda>r. (rr_rule_id r, stored r)) fresh)) k = None" if "omap_find (rp_rules rt) k = Some r" for k r
      using that unfolding map_of_eq_None_iff by force
    then have "rules_moved (rp_rules rt) (rp_rules rt')"
      unfolding rules_moved_def adopted(7) find_fold_stored map_add_def by auto
    moreover have "policy_progress rt (rt\<lparr>rp_rules := rs, rp_events := rp_events rt @ es\<rparr>)"
      if "rules_moved (rp_rules rt) rs" for rs
      using that by (simp add: policy_progress_def)
    ultimately show ?thesis using adopted(1,4) by (metis fst_conv)
  qed simp
qed

lemma policy_progress_test: "policy_progress rt (fst (test_candidate_rules eps rt))"
  by (cases rule: test_cases [of eps rt, case_names rejected tested]) (simp_all add: policy_progress_def)

lemma policy_progress_op:
  assumes "policy_inv rt"
  shows "policy_progress rt (run_op op rt)"
proof -
  have "policy_progress rt (rt\<lparr>rp_active_states := A\<rparr>)" for A
    by (simp add: policy_progress_def)
  moreover have "rules_inv rt" using assms by (simp add: policy_inv_def)
  ultimately show ?thesis
    using assms by (cases op) (auto simp: activate_def deactivate_def promote_rule_def demote_rule_def retire_rule_def
      policy_progress_step policy_progress_adopt policy_progress_test
      intro!: policy_progress_emit policy_progress_set_status split: option.splits)
qed

section \<open>The transition system\<close>

text \<open>The parts of the state that only a step writes.\<close>

lemma adopt_frame:
  assumes "omap_ok (rp_rules rt)"
  shows "rp_histories (fst (adopt_candidate_rules rules rt)) = rp_histories rt \<and>
    rp_has_stepped (fst (adopt_candidate_rules rules rt)) = rp_has_stepped rt \<and>
    rp_max_tick (fst (adopt_candidate_rules rules rt)) = rp_max_tick rt"
  using assms
proof (cases rule: adopt_cases [where rules = rules, consumes 1, case_names rejected adopted])
  case (adopted fresh rt' es)
  show ?thesis unfolding adopted(1) fst_conv by (subst adopted(4), simp)+
qed simp

lemma test_frame [simp]:
  "rp_histories (fst (test_candidate_rules eps rt)) = rp_histories rt"
  "rp_has_stepped (fst (test_candidate_rules eps rt)) = rp_has_stepped rt"
  "rp_max_tick (fst (test_candidate_rules eps rt)) = rp_max_tick rt"
  by (cases rule: test_cases [of eps rt, case_names rejected tested]; simp)+

lemma respond_frame [simp]:
  "rp_histories (fst (respond ms rt)) = rp_histories rt" "rp_next_sequence (fst (respond ms rt)) = rp_next_sequence rt"
  "rp_has_stepped (fst (respond ms rt)) = rp_has_stepped rt" "rp_max_tick (fst (respond ms rt)) = rp_max_tick rt"
  "rp_options (fst (respond ms rt)) = rp_options rt"
  by (rule respond_shape [of ms rt]; simp)+

definition clock_inv :: "ReactivePolicyRuntime \<Rightarrow> bool" where
  "clock_inv rt \<longleftrightarrow> histories_ok (po_history_capacity (rp_options rt)) (rp_histories rt) \<and>
     (rp_has_stepped rt \<or> rp_max_tick rt = 0)"

lemma clock_inv_step:
  assumes "clock_inv rt"
  shows "clock_inv (fst (policy_step w t rt))"
proof -
  have rec: "histories_ok (po_history_capacity (rp_options rt)) hs"
    if "record_entities (po_history_capacity (rp_options rt)) (tc_tick_time t) (wv_entities w)
        (rp_histories rt, rp_next_sequence rt) = ((hs, ns), res)" for hs ns res
    using record_entities_ok [of "po_history_capacity (rp_options rt)" "(rp_histories rt, rp_next_sequence rt)"] assms that
    by (metis clock_inv_def fst_conv)
  show ?thesis
  proof (cases rule: policy_step_cases [of w t rt, case_names rejected failed stepped])
    case (stepped hs ns rt' acts)
    have "clock_inv (fst (respond (collect_matches w rt) (ticked t hs ns rt)))"
      using rec stepped(4) by (simp add: clock_inv_def)
    with stepped show ?thesis by simp
  qed (use assms rec in \<open>auto simp: clock_inv_def\<close>)
qed

lemma policy_inv_parts: "policy_inv rt \<longleftrightarrow> rules_inv rt \<and> clock_inv rt"
  by (simp add: policy_inv_def clock_inv_def)

lemma policy_inv_op:
  assumes "policy_inv rt"
  shows "policy_inv (run_op op rt)"
proof -
  have ok: "omap_ok (rp_rules rt)" and clock: "clock_inv rt" using assms by (simp_all add: policy_inv_parts rules_inv_def)
  have "rp_options (run_op op rt) = rp_options rt"
    using policy_progress_op [OF assms] by (simp add: policy_progress_def)
  then have "clock_inv (run_op op rt)" if "\<forall>w t. op \<noteq> OpStep w t"
    using that clock adopt_frame [OF ok]
    by (cases op) (auto simp: clock_inv_def activate_def deactivate_def promote_rule_def demote_rule_def
      retire_rule_def split: option.splits)
  moreover have "clock_inv (run_op (OpStep w t) rt)" for w t
    using clock by (simp add: clock_inv_step)
  ultimately show ?thesis using assms by (metis policy_inv_parts rules_inv_op)
qed

interpretation policy_sys: step_system policy_moves "\<lambda>rt. \<exists>options sink. rt = new_policy_runtime options sink"
  policy_inv policy_progress
proof unfold_locales
  show "policy_moves s t \<Longrightarrow> policy_inv s \<Longrightarrow> policy_inv t" for s t
    by (auto elim: policy_movesE simp: policy_inv_op)
  show "policy_moves s t \<Longrightarrow> policy_inv s \<Longrightarrow> policy_progress s t" for s t
    by (auto elim: policy_movesE simp: policy_progress_op)
qed (auto simp: policy_inv_new intro: policy_progress_trans)

end
