(* ===== verification/Temporal_Properties.thy ===== *)
theory Temporal_Properties
  imports Temporal_Invariants
begin

text \<open>
  The properties of the policy runtime: the invariant and the progress of every run, when a step
  acts, adoption as a whole, the rebuild of histories, and the round trip of rules through their
  JSON value.
\<close>

section \<open>Runs\<close>

lemma policy_run: "policy_moves\<^sup>*\<^sup>* rt (fold run_op ops rt)"
proof (induction ops arbitrary: rt)
  case (Cons op ops)
  then show ?case by (auto intro: converse_rtranclp_into_rtranclp policy_moves.move)
qed simp

lemma reachable_policy_inv: "policy_moves\<^sup>*\<^sup>* (new_policy_runtime options sink) rt \<Longrightarrow> policy_inv rt"
  by (rule policy_sys.reachable_invariant) blast

lemma reachable_options: "policy_moves\<^sup>*\<^sup>* (new_policy_runtime options sink) rt \<Longrightarrow> rp_options rt = options"
  using policy_sys.steps_progress [OF _ policy_inv_new]
  by (auto simp: policy_progress_def new_policy_runtime_def)

text \<open>A small configuration for the examples: one rule that dodges on the motion attack.\<close>

definition example_options :: PolicyRuntimeOptions where
  "example_options = \<lparr>po_max_rules = 4, po_max_rules_per_state = 2, po_max_conditions_per_transition = 8,
     po_max_transitions_per_rule = 8, po_min_support = 1, po_min_test_support = 1, po_history_capacity = 2\<rparr>"

definition example_rule :: "string \<Rightarrow> ReactiveRule" where
  "example_rule i = \<lparr>rr_rule_id = i, rr_schema_version = \<lparr>sv_major = 1, sv_minor = 0\<rparr>, rr_state = ''fight'',
     rr_priority = 0, rr_status = Candidate,
     rr_transitions = [\<lparr>tr_when = [\<lparr>cn_field = Motion, cn_compare = Eq, cn_fact_key = '''',
       cn_text_value = ''attack'', cn_number_value = dbl_zero\<rparr>],
       tr_do_actions = [\<lparr>pa_kind = ''dodge'', pa_parameter = ''left''\<rparr>]\<rparr>],
     rr_source_refs = [''ref''], rr_support_count = 1\<rparr>"

definition example_view :: PolicyWorldView where
  "example_view = \<lparr>wv_entities = [\<lparr>te_entity_key = ''e'', te_position_x = dbl_zero, te_position_y = dbl_zero,
     te_velocity_x = dbl_zero, te_velocity_y = dbl_zero, te_motion = ''attack'', te_motion_phase = dbl_zero,
     te_motion_confidence = dbl_one, te_source_ref = ''ref''\<rparr>], wv_facts = []\<rparr>"

definition example_sample :: "u64 \<Rightarrow> PolicyEpisodeSample" where
  "example_sample n = \<lparr>ps_tick = \<lparr>tc_tick = n, tc_tick_time = \<lparr>ts_wall = 0, ts_monotonic = 0\<rparr>\<rparr>, ps_world = example_view,
     ps_active_state = ''fight'', ps_agent_action = Some \<lparr>pa_kind = ''dodge'', pa_parameter = ''left''\<rparr>,
     ps_agent_handled = True\<rparr>"

definition example_row :: "string \<Rightarrow> RuleResult" where
  "example_row i = \<lparr>re_rule_id = i, re_passed_count = 1, re_false_trigger_count = 0, re_sample_count = 1\<rparr>"

text \<open>Two rules with the same condition are adopted and tested; the given ones are promoted.\<close>

definition example_runtime :: "string list \<Rightarrow> ReactivePolicyRuntime" where
  "example_runtime promoted = fold run_op
     ([OpAdopt [example_rule ''a'', example_rule ''b''], OpTest [example_sample 1]] @ map OpPromote promoted @ [OpActivate ''fight''])
     (new_policy_runtime example_options False)"

definition example_state :: "ReactiveRuleStatus \<Rightarrow> ReactiveRuleStatus \<Rightarrow> ReactivePolicyRuntime" where
  "example_state a b = (new_policy_runtime example_options False)
     \<lparr>rp_rules := [(''a'', (example_rule ''a'')\<lparr>rr_status := a\<rparr>), (''b'', (example_rule ''b'')\<lparr>rr_status := b\<rparr>)],
      rp_evidence := [(''a'', example_row ''a''), (''b'', example_row ''b'')]\<rparr>"

lemma example_valid:
  "validate_rule (example_rule i) = Inr ()" "validate_view example_view = Inr ()"
  by (simp_all add: example_rule_def example_view_def validate_rule_def validate_transition_def validate_condition_def
    field_known_def compare_known_def status_known_def kMaxConditionsPerTransition_def kMaxTransitionsPerRule_def
    validate_view_def validate_tracked_def dbl_le_def dbl_isnan_def dbl_mag_def dbl_key_def dbl_neg_def dbl_zero_def
    dbl_one_def dbl_inf_mag_def)

lemma example_match:
  "first_match example_view (rr_transitions (example_rule i)) =
     Some (hd (rr_transitions (example_rule i)), Some (hd (wv_entities example_view)))"
  by (simp add: example_rule_def example_view_def transition_matches_def entity_condition_holds_def)

lemma example_rule_fields [simp]:
  "rr_rule_id (example_rule i) = i" "rr_status (example_rule i) = Candidate" "rr_state (example_rule i) = ''fight''"
  "(example_rule i)\<lparr>rr_status := Candidate\<rparr> = example_rule i" "ps_world (example_sample n) = example_view"
  by (simp_all add: example_rule_def example_sample_def)

lemma example_test_row: "test_row [example_sample n] (example_rule i) = example_row i"
  using example_match [of i]
  by (simp add: test_row_def count_sample_def example_sample_def sample_consistent_def example_row_def)
    (simp add: example_rule_def)

lemma example_adopt_test:
  "fold run_op [OpAdopt [example_rule ''a'', example_rule ''b''], OpTest [example_sample 1]]
     (new_policy_runtime example_options False) = example_state Candidate Candidate"
proof -
  have "run_op (OpAdopt [example_rule ''a'', example_rule ''b'']) (new_policy_runtime example_options False) =
      (example_state Candidate Candidate)\<lparr>rp_evidence := []\<rparr>"
    by (simp add: adopt_candidate_rules_def example_valid new_policy_runtime_def adopt_one_def emit_def Let_def
      state_count_def example_state_def example_options_def)
  moreover have "run_op (OpTest [example_sample 1]) ((example_state Candidate Candidate)\<lparr>rp_evidence := []\<rparr>) =
      example_state Candidate Candidate"
    by (simp add: test_candidate_rules_def example_state_def test_one_def new_policy_runtime_def Let_def emit_def
      example_test_row example_valid)
  ultimately show ?thesis by simp
qed

lemma example_promote:
  "run_op (OpPromote ''a'') (example_state Candidate b) = example_state Runtime b"
  "run_op (OpPromote ''b'') (example_state a Candidate) = example_state a Runtime"
  by (simp_all add: promote_rule_def example_state_def new_policy_runtime_def evidence_passes_def example_row_def
    example_options_def emit_def set_status_def with_status_def)

lemma example_runtime_eval:
  "example_runtime [''a''] = (example_state Runtime Candidate)\<lparr>rp_active_states := {''fight''}\<rparr>"
  "example_runtime [''a'', ''b''] = (example_state Runtime Runtime)\<lparr>rp_active_states := {''fight''}\<rparr>"
  using example_adopt_test example_promote
  by (simp_all add: example_runtime_def del: run_op.simps)
    (simp_all add: activate_def example_state_def new_policy_runtime_def emit_def)

lemma example_reachable: "policy_moves\<^sup>*\<^sup>* (new_policy_runtime example_options False) (example_runtime promoted)"
  unfolding example_runtime_def by (rule policy_run)

lemmas example_inv = reachable_policy_inv [OF example_reachable]

section \<open>The invariant and the progress of runs\<close>

text \<open>C19: In every runtime that any sequence of operations produces from a new one, the rule table is
  sorted by identifier and within both bounds of the options, every rule is valid, is stored under
  its own identifier, and is promoted only with recorded evidence of enough passes and no false
  trigger; every history is within its capacity with strictly increasing sequence numbers.\<close>

theorem policy_reachable_invariant:
  assumes "policy_moves\<^sup>*\<^sup>* (new_policy_runtime options sink) rt"
  shows "omap_ok (rp_rules rt) \<and> length (rp_rules rt) \<le> po_max_rules options \<and>
    (\<forall>state. state_count state (map snd (rp_rules rt)) \<le> po_max_rules_per_state options) \<and>
    (\<forall>k r. omap_find (rp_rules rt) k = Some r \<longrightarrow> rr_rule_id r = k \<and> validate_rule r = Inr () \<and>
       (rr_status r = Runtime \<longrightarrow> evidence_passes options (omap_find (rp_evidence rt) k))) \<and>
    (\<forall>k h. temporal_history k rt = Some h \<longrightarrow> length (th_entries h) \<le> po_history_capacity options \<and>
       sorted_wrt (\<lambda>a b. he_sequence a < he_sequence b) (th_entries h))"
  using reachable_policy_inv [OF assms] reachable_options [OF assms]
  by (simp add: policy_inv_def rules_inv_def table_bounded_def rule_entry_ok_def histories_ok_def history_ok_def
    temporal_history_def)

theorem policy_reachable_invariant_witness:
  "policy_moves\<^sup>*\<^sup>* (new_policy_runtime example_options False) (example_runtime [''a'']) \<and>
   rr_status (the (omap_find (rp_rules (example_runtime [''a''])) ''a'')) = Runtime \<and>
   evidence_passes example_options (omap_find (rp_evidence (example_runtime [''a''])) ''a'')"
proof -
  have "omap_find (rp_rules (example_runtime [''a''])) ''a'' = Some ((example_rule ''a'')\<lparr>rr_status := Runtime\<rparr>)"
    by (simp add: example_runtime_eval example_state_def new_policy_runtime_def)
  then show ?thesis
    using policy_reachable_invariant [OF example_reachable [of "[''a'']"]] example_reachable by simp
qed

text \<open>No operation goes back: along every run the options stay, the event log only grows, the tick
  does not decrease, and a rule once adopted stays in the table with its contents, where retirement
  is final.\<close>

theorem policy_runs_progress:
  assumes "policy_moves\<^sup>*\<^sup>* (new_policy_runtime options sink) s" "policy_moves\<^sup>*\<^sup>* s t"
  shows "rp_options t = options \<and> (\<exists>es. rp_events t = rp_events s @ es) \<and> rp_max_tick s \<le> rp_max_tick t \<and>
    (\<forall>k r. omap_find (rp_rules s) k = Some r \<longrightarrow> (\<exists>r'. omap_find (rp_rules t) k = Some r' \<and>
       r' = r\<lparr>rr_status := rr_status r'\<rparr> \<and> (rr_status r = Retired \<longrightarrow> rr_status r' = Retired)))"
  using policy_sys.steps_progress [OF assms(2) reachable_policy_inv [OF assms(1)]] reachable_options [OF assms(1)]
  by (simp add: policy_progress_def rules_moved_def rule_moved_def)

theorem policy_runs_progress_witness:
  "rr_status (the (omap_find (rp_rules (fold run_op [OpRetire ''a'', OpPromote ''a''] (example_runtime [''a'']))) ''a'')) = Retired"
proof -
  let ?s = "run_op (OpRetire ''a'') (example_runtime [''a''])"
  have "policy_moves\<^sup>*\<^sup>* (new_policy_runtime example_options False) ?s"
    using example_reachable policy_moves.move by (rule rtranclp.rtrancl_into_rtrancl)
  moreover have "policy_moves\<^sup>*\<^sup>* ?s (run_op (OpPromote ''a'') ?s)"
    using policy_moves.move by blast
  moreover have "omap_find (rp_rules ?s) ''a'' = Some ((example_rule ''a'')\<lparr>rr_status := Retired\<rparr>)"
    by (simp add: retire_rule_def example_runtime_eval example_state_def new_policy_runtime_def)
  ultimately show ?thesis
    using policy_runs_progress [of example_options False ?s "run_op (OpPromote ''a'') ?s"] by fastforce
qed

section \<open>When a step acts\<close>

text \<open>What it means for a transition to hold in a world, and which rules fire there.\<close>

definition conditions_hold :: "RuleTransition \<Rightarrow> PolicyWorldView \<Rightarrow> bool" where
  "conditions_hold t w \<longleftrightarrow>
     (\<forall>c\<in>set (tr_when t). cn_field c = Fact \<longrightarrow>
        (\<exists>f\<in>set (wv_facts w). pf_key f = cn_fact_key c \<and> compare_holds (cn_compare c) (pf_value f) (cn_number_value c))) \<and>
     ((\<exists>c\<in>set (tr_when t). cn_field c \<noteq> Fact) \<longrightarrow>
        (\<exists>e\<in>set (wv_entities w). \<forall>c\<in>set (tr_when t). cn_field c \<noteq> Fact \<longrightarrow> entity_condition_holds c e))"

definition firing :: "PolicyWorldView \<Rightarrow> ReactivePolicyRuntime \<Rightarrow> ReactiveRule set" where
  "firing w rt = {r. omap_find (rp_rules rt) (rr_rule_id r) = Some r \<and> rr_status r = Runtime \<and>
     is_active (rr_state r) rt \<and> (\<exists>t\<in>set (rr_transitions r). conditions_hold t w)}"

lemma fact_condition_iff:
  assumes "distinct (map pf_key (wv_facts w))"
  shows "fact_condition_holds w c \<longleftrightarrow> (\<exists>f\<in>set (wv_facts w). pf_key f = cn_fact_key c \<and>
    compare_holds (cn_compare c) (pf_value f) (cn_number_value c))"
proof (cases "find_fact w (cn_fact_key c)")
  case None
  then have "\<forall>f\<in>set (wv_facts w). pf_key f \<noteq> cn_fact_key c" by (auto simp: find_fact_def find_None_iff)
  with None show ?thesis by (auto simp: fact_condition_holds_def)
next
  case (Some g)
  then have g: "g \<in> set (wv_facts w)" "pf_key g = cn_fact_key c"
    by (auto simp: find_fact_def find_Some_iff)
  have same: "f = g" if "f \<in> set (wv_facts w)" "pf_key f = cn_fact_key c" for f
    using that g assms by (simp add: distinct_map inj_on_def)
  have "fact_condition_holds w c \<longleftrightarrow> compare_holds (cn_compare c) (pf_value g) (cn_number_value c)"
    using Some by (simp add: fact_condition_holds_def)
  then show ?thesis using g same by blast
qed

lemma transition_matches_iff:
  assumes "validate_view w = Inr ()"
  shows "transition_matches t w \<noteq> None \<longleftrightarrow> conditions_hold t w"
proof -
  have d: "distinct (map pf_key (wv_facts w))"
    using assms by (auto simp: validate_view_def result_simps split: if_splits)
  have entity: "find (\<lambda>e. list_all (\<lambda>c. cn_field c = Fact \<or> entity_condition_holds c e) (tr_when t)) (wv_entities w) \<noteq> None \<longleftrightarrow>
      (\<exists>e\<in>set (wv_entities w). \<forall>c\<in>set (tr_when t). cn_field c \<noteq> Fact \<longrightarrow> entity_condition_holds c e)"
    unfolding find_None_iff list_all_iff by auto
  show ?thesis
    unfolding transition_matches_def conditions_hold_def entity [symmetric] fact_condition_iff [OF d]
    by (auto simp: list_all_iff list_ex_iff fact_condition_iff [OF d] split: option.splits)
qed

lemma first_match_find:
  assumes "validate_view w = Inr ()"
  shows "map_option fst (first_match w ts) = find (\<lambda>t. conditions_hold t w) ts"
proof (induction ts)
  case (Cons t ts)
  then show ?case
    using transition_matches_iff [OF assms, of t] by (auto split: option.splits)
qed simp

lemma distinct_rules:
  assumes "rules_inv rt"
  shows "distinct (map snd (rp_rules rt))"
proof -
  have "map fst (rp_rules rt) = map rr_rule_id (map snd (rp_rules rt))"
    using rules_inv_ids(1) [OF assms] by auto
  then show ?thesis
    using assms by (metis distinct_map omap_ok_distinct rules_inv_def)
qed

lemma distinct_map_filter:
  "distinct xs \<Longrightarrow> (\<And>x y. f x = Some y \<Longrightarrow> g y = x) \<Longrightarrow> distinct (map g (List.map_filter f xs))"
  by (induction xs) (auto simp: map_filter_simps set_map_filter_iff split: option.splits)

text \<open>The collected matches are the firing rules, each once.\<close>

lemma matches_firing:
  assumes "rules_inv rt" "validate_view w = Inr ()"
  shows "mt_rule ` set (collect_matches w rt) = firing w rt \<and> length (collect_matches w rt) = card (firing w rt)"
proof -
  have image: "mt_rule ` set (collect_matches w rt) = firing w rt"
  proof (intro set_eqI iffI)
    fix r assume "r \<in> mt_rule ` set (collect_matches w rt)"
    then obtain m where m: "m \<in> set (collect_matches w rt)" "r = mt_rule m" by blast
    then have "find (\<lambda>t. conditions_hold t w) (rr_transitions r) = Some (mt_transition m)"
      using first_match_find [OF assms(2), of "rr_transitions r"] by (simp add: collect_matches_member)
    then show "r \<in> firing w rt"
      using m match_known [OF assms(1) m(1)]
      by (auto simp: firing_def is_active_def collect_matches_member set_ordered_rules find_Some_iff)
  next
    fix r assume r: "r \<in> firing w rt"
    then have "first_match w (rr_transitions r) \<noteq> None"
      using transition_matches_iff [OF assms(2)] unfolding first_match_None firing_def by blast
    then obtain t a where fm: "first_match w (rr_transitions r) = Some (t, a)" by auto
    have "r \<in> set (ordered_rules rt)"
      using r by (force simp: firing_def is_active_def set_ordered_rules dest: map_of_SomeD)
    with fm show "r \<in> mt_rule ` set (collect_matches w rt)"
      by (intro image_eqI [of _ _ "\<lparr>mt_rule = r, mt_transition = t, mt_anchor = a\<rparr>"]) (simp_all add: collect_matches_member)
  qed
  have "distinct (ordered_rules rt)"
    using distinct_rules [OF assms(1)] by (simp add: ordered_rules_def)
  then have "distinct (map mt_rule (collect_matches w rt))"
    unfolding collect_matches_def by (rule distinct_map_filter) auto
  then show ?thesis
    using image by (metis distinct_card length_map list.set_map)
qed

lemma firing_no_matches:
  assumes "rules_inv rt" "validate_view w = Inr ()" "firing w rt = {}"
  shows "collect_matches w rt = []"
  using matches_firing [OF assms(1,2)] assms(3) by auto

lemma valid_rule_acts:
  "validate_rule r = Inr () \<Longrightarrow> t \<in> set (rr_transitions r) \<Longrightarrow> tr_do_actions t \<noteq> []"
  by (auto simp: validate_rule_def validate_transition_def result_simps split: if_splits)

lemma firing_entry:
  assumes "rules_inv rt" "r \<in> firing w rt"
  shows "rule_entry_ok (rp_options rt) (rp_evidence rt) (rr_rule_id r) r" "rr_status r = Runtime"
  using assms by (auto simp: firing_def rules_inv_def)

text \<open>C20: A successful step returns actions exactly when one single promoted rule of an active state
  fires. The actions are those of its first transition whose conditions hold, and the rule has
  passing evidence. When several rules fire, the step returns nothing and turns exactly those
  rules back into candidates, after which none of them fires in that world.\<close>

theorem policy_step_acts_on_single_rule:
  assumes "policy_inv rt" "policy_step w t rt = (rt', Inr acts)"
  shows "(acts \<noteq> [] \<longleftrightarrow> card (firing w rt) = 1) \<and>
    (\<forall>r. firing w rt = {r} \<longrightarrow>
       map_option tr_do_actions (find (\<lambda>tr. conditions_hold tr w) (rr_transitions r)) = Some acts \<and>
       evidence_passes (rp_options rt) (omap_find (rp_evidence rt) (rr_rule_id r))) \<and>
    (\<forall>k. omap_find (rp_rules rt') k =
       (if card (firing w rt) \<ge> 2 \<and> k \<in> rr_rule_id ` firing w rt
        then map_option (rr_status_update (\<lambda>_. Candidate)) (omap_find (rp_rules rt) k)
        else omap_find (rp_rules rt) k)) \<and>
    (card (firing w rt) \<ge> 2 \<longrightarrow> firing w rt' = {})"
proof -
  have inv: "rules_inv rt" using assms(1) by (simp add: policy_inv_def)
  obtain hs ns where valid: "validate_view w = Inr ()"
    and resp: "respond (collect_matches w rt) (ticked t hs ns rt) = (rt', acts)"
    using assms(2) by (cases rule: policy_step_cases [of w t rt, case_names rejected failed stepped]) auto
  note mf = matches_firing [OF inv valid]
  obtain es where "fst (respond (collect_matches w rt) (ticked t hs ns rt)) = (ticked t hs ns rt)
      \<lparr>rp_rules := (if length (collect_matches w rt) \<ge> 2
         then fold (\<lambda>i. with_status i Candidate) (map (\<lambda>m. rr_rule_id (mt_rule m)) (collect_matches w rt))
           (rp_rules (ticked t hs ns rt))
         else rp_rules (ticked t hs ns rt)), rp_events := rp_events (ticked t hs ns rt) @ es\<rparr>"
    by (rule respond_shape)
  then have shape: "rp_active_states rt' = rp_active_states rt" "rp_rules rt' = (if card (firing w rt) \<ge> 2
       then fold (\<lambda>i. with_status i Candidate) (map (\<lambda>m. rr_rule_id (mt_rule m)) (collect_matches w rt)) (rp_rules rt)
       else rp_rules rt)"
    using resp mf by auto
  have ids: "set (map (\<lambda>m. rr_rule_id (mt_rule m)) (collect_matches w rt)) = rr_rule_id ` firing w rt"
    using mf by (metis image_image list.set_map)
  have table: "omap_find (rp_rules rt') k =
       (if card (firing w rt) \<ge> 2 \<and> k \<in> rr_rule_id ` firing w rt
        then map_option (rr_status_update (\<lambda>_. Candidate)) (omap_find (rp_rules rt) k)
        else omap_find (rp_rules rt) k)" for k
    unfolding shape by (simp add: find_fold_with_status ids del: set_map)
  have single: "acts \<noteq> [] \<and> map_option tr_do_actions (find (\<lambda>tr. conditions_hold tr w) (rr_transitions r)) = Some acts \<and>
       evidence_passes (rp_options rt) (omap_find (rp_evidence rt) (rr_rule_id r))" if r: "firing w rt = {r}" for r
  proof -
    obtain m where m: "collect_matches w rt = [m]" "mt_rule m = r"
      using mf r by (auto simp: length_Suc_conv)
    have "find (\<lambda>tr. conditions_hold tr w) (rr_transitions r) = Some (mt_transition m)"
      using first_match_find [OF valid, of "rr_transitions r"] collect_matches_member [of m w rt] m by simp
    moreover have "acts = tr_do_actions (mt_transition m)" using resp m by (simp add: respond_def)
    moreover have "rule_entry_ok (rp_options rt) (rp_evidence rt) (rr_rule_id r) r" "rr_status r = Runtime"
      using firing_entry [OF inv, of r w] r by simp_all
    ultimately show ?thesis
      using valid_rule_acts [of r "mt_transition m"] by (auto simp: rule_entry_ok_def find_Some_iff)
  qed
  have "acts = []" if "card (firing w rt) \<noteq> 1"
    using resp mf that by (auto simp: respond_def split: list.splits)
  then have "acts \<noteq> [] \<longleftrightarrow> card (firing w rt) = 1"
    using single by (metis card_1_singletonE)
  moreover have "firing w rt' = {}" if "card (firing w rt) \<ge> 2"
  proof -
    have False if r: "r \<in> firing w rt'" for r
    proof (cases "rr_rule_id r \<in> rr_rule_id ` firing w rt")
      case True
      then have "map_option (rr_status_update (\<lambda>_. Candidate)) (omap_find (rp_rules rt) (rr_rule_id r)) = Some r"
        using r table [of "rr_rule_id r"] \<open>card (firing w rt) \<ge> 2\<close> by (simp add: firing_def)
      then show False using r by (auto simp: firing_def)
    next
      case False
      then have "r \<in> firing w rt"
        using r table [of "rr_rule_id r"] shape(1) by (simp add: firing_def is_active_def)
      with False show False by blast
    qed
    then show ?thesis by blast
  qed
  ultimately show ?thesis using single table by blast
qed

lemma example_holds: "conditions_hold (hd (rr_transitions (example_rule i))) example_view"
  by (simp add: conditions_hold_def example_rule_def example_view_def entity_condition_holds_def)

lemma example_firing:
  "firing example_view (example_runtime [''a'']) = {(example_rule ''a'')\<lparr>rr_status := Runtime\<rparr>}"
  "firing example_view (example_runtime [''a'', ''b'']) =
     {(example_rule ''a'')\<lparr>rr_status := Runtime\<rparr>, (example_rule ''b'')\<lparr>rr_status := Runtime\<rparr>}"
  using example_holds
  by (auto simp: firing_def example_runtime_eval example_state_def new_policy_runtime_def is_active_def
    example_rule_def split: if_splits)

lemma example_accepts:
  assumes "rp_options rt = example_options" "rp_histories rt = []" "rp_next_sequence rt = []" "\<not> rp_has_stepped rt"
  obtains rt' acts where "policy_step example_view (ps_tick (example_sample n)) rt = (rt', Inr acts)"
proof -
  have "\<exists>hs. record_entities 2 at (wv_entities example_view) ([], []) = (hs, Inr ())" for at
    by (simp add: example_view_def record_entity_def Let_def history_append_def new_history_def omap_emplace_def)
  then obtain hs ns where "record_entities 2 (tc_tick_time (ps_tick (example_sample n))) (wv_entities example_view) ([], []) =
      ((hs, ns), Inr ())" by fastforce
  moreover obtain rt' acts where "respond (collect_matches example_view (ticked (ps_tick (example_sample n)) hs ns rt))
      (ticked (ps_tick (example_sample n)) hs ns rt) = (rt', acts)" by force
  ultimately have "policy_step example_view (ps_tick (example_sample n)) rt = (rt', Inr acts)"
    using assms by (simp add: policy_step_def example_valid example_options_def)
  then show ?thesis by (rule that)
qed

lemma example_fresh:
  "rp_options (example_runtime [''a'']) = example_options" "rp_options (example_runtime [''a'', ''b'']) = example_options"
  "rp_histories (example_runtime [''a'']) = []" "rp_histories (example_runtime [''a'', ''b'']) = []"
  "rp_next_sequence (example_runtime [''a'']) = []" "rp_next_sequence (example_runtime [''a'', ''b'']) = []"
  "\<not> rp_has_stepped (example_runtime [''a''])" "\<not> rp_has_stepped (example_runtime [''a'', ''b''])"
  by (simp_all add: example_runtime_eval example_state_def new_policy_runtime_def)

theorem policy_step_acts_on_single_rule_witness:
  "snd (policy_step example_view (ps_tick (example_sample 1)) (example_runtime [''a''])) = Inr [\<lparr>pa_kind = ''dodge'', pa_parameter = ''left''\<rparr>] \<and>
   snd (policy_step example_view (ps_tick (example_sample 1)) (example_runtime [''a'', ''b''])) = Inr [] \<and>
   firing example_view (fst (policy_step example_view (ps_tick (example_sample 1)) (example_runtime [''a'', ''b'']))) = {}"
proof -
  let ?t = "ps_tick (example_sample 1)"
  obtain rt1 acts1 where one: "policy_step example_view ?t (example_runtime [''a'']) = (rt1, Inr acts1)"
    by (rule example_accepts [OF example_fresh(1,3,5,7)])
  obtain rt2 acts2 where two: "policy_step example_view ?t (example_runtime [''a'', ''b'']) = (rt2, Inr acts2)"
    by (rule example_accepts [OF example_fresh(2,4,6,8)])
  have "map_option tr_do_actions (find (\<lambda>tr. conditions_hold tr example_view)
      (rr_transitions ((example_rule ''a'')\<lparr>rr_status := Runtime\<rparr>))) = Some acts1"
    using policy_step_acts_on_single_rule [OF example_inv one] example_firing(1) by blast
  moreover have "card (firing example_view (example_runtime [''a'', ''b''])) = 2"
    by (simp add: example_firing) (simp add: example_rule_def)
  ultimately show ?thesis
    using policy_step_acts_on_single_rule [OF example_inv two] one two example_holds [of "''a''"]
    by (auto simp: example_rule_def)
qed

section \<open>Rebuilding histories\<close>

text \<open>The steps a host takes through a list of samples; the first error stops it.\<close>

fun run_samples :: "ReactivePolicyRuntime \<Rightarrow> PolicyEpisodeSample list \<Rightarrow> ReactivePolicyRuntime Result" where
  "run_samples rt [] = Inr rt"
| "run_samples rt (s # ss) = (case policy_step (ps_world s) (ps_tick s) rt of
      (rt, Inl e) \<Rightarrow> Inl e | (rt, Inr _) \<Rightarrow> run_samples rt ss)"

lemma step_accumulates:
  assumes "\<not> (rp_has_stepped rt \<and> tc_tick (ps_tick s) \<le> rp_max_tick rt)" "rp_options rt = options"
  shows "(case policy_step (ps_world s) (ps_tick s) rt of
       (rt', Inl e) \<Rightarrow> rebuild_sample (po_history_capacity options) (rp_histories rt, rp_next_sequence rt) s = Inl e
     | (rt', Inr _) \<Rightarrow> rebuild_sample (po_history_capacity options) (rp_histories rt, rp_next_sequence rt) s =
         Inr (rp_histories rt', rp_next_sequence rt') \<and> rp_max_tick rt' = tc_tick (ps_tick s) \<and> rp_options rt' = options)"
proof -
  obtain hs ns res where rec: "record_entities (po_history_capacity options) (tc_tick_time (ps_tick s))
      (wv_entities (ps_world s)) (rp_histories rt, rp_next_sequence rt) = ((hs, ns), res)"
    by (metis prod.exhaust)
  obtain rt' acts where resp: "respond (collect_matches (ps_world s) (ticked (ps_tick s) hs ns rt)) (ticked (ps_tick s) hs ns rt) =
      (rt', acts)" by force
  have "rp_histories rt' = hs" "rp_next_sequence rt' = ns" "rp_max_tick rt' = tc_tick (ps_tick s)" "rp_options rt' = options"
    using respond_frame [of "collect_matches (ps_world s) (ticked (ps_tick s) hs ns rt)" "ticked (ps_tick s) hs ns rt"] resp assms
    by simp_all
  then show ?thesis
    using assms rec resp
    by (cases "validate_view (ps_world s)"; cases res) (auto simp: rebuild_sample_def policy_step_def)
qed

lemma run_samples_accumulates:
  assumes "sorted_wrt (\<lambda>a b. tc_tick (ps_tick a) < tc_tick (ps_tick b)) ss" "rp_options rt = options"
    "\<forall>s\<in>set ss. \<not> (rp_has_stepped rt \<and> tc_tick (ps_tick s) \<le> rp_max_tick rt)"
  shows "fold_res (rebuild_sample (po_history_capacity options)) (rp_histories rt, rp_next_sequence rt) ss =
    map_sum id (\<lambda>rt'. (rp_histories rt', rp_next_sequence rt')) (run_samples rt ss)"
  using assms
proof (induction ss arbitrary: rt)
  case (Cons s ss)
  note acc = step_accumulates [of rt s options]
  obtain rt' res where step: "policy_step (ps_world s) (ps_tick s) rt = (rt', res)" by force
  show ?case
  proof (cases res)
    case (Inl e)
    then show ?thesis using acc step Cons.prems by simp
  next
    case (Inr acts)
    then have "rebuild_sample (po_history_capacity options) (rp_histories rt, rp_next_sequence rt) s =
        Inr (rp_histories rt', rp_next_sequence rt')" "rp_max_tick rt' = tc_tick (ps_tick s)" "rp_options rt' = options"
      using acc step Cons.prems by auto
    then show ?thesis using Cons.IH [of rt'] Cons.prems step Inr by (auto simp: not_le)
  qed
qed simp

text \<open>Rebuilding the histories from recorded samples gives what the runtime itself accumulates when
  it steps through them, whatever its rules and active states are, errors included.\<close>

theorem rebuild_is_accumulation:
  assumes "po_history_capacity (rp_options rt) > 0" "rp_histories rt = []" "rp_next_sequence rt = []"
    "\<not> rp_has_stepped rt" "episodes \<noteq> []"
    "sorted_wrt (\<lambda>a b. tc_tick (ps_tick a) < tc_tick (ps_tick b)) episodes"
  shows "rebuild_temporal_histories episodes (po_history_capacity (rp_options rt)) =
    map_sum id rp_histories (run_samples rt episodes)"
  using run_samples_accumulates [OF assms(6), of rt "rp_options rt"] assms
  by (cases "run_samples rt episodes") (simp_all add: rebuild_temporal_histories_def validate_history_options_def)

theorem rebuild_is_accumulation_witness:
  "rebuild_temporal_histories [example_sample 1, example_sample 2] 2 =
     map_sum id rp_histories (run_samples (example_runtime [''a'', ''b'']) [example_sample 1, example_sample 2])"
  using rebuild_is_accumulation [of "example_runtime [''a'', ''b'']" "[example_sample 1, example_sample 2]"]
  by (simp add: example_fresh example_options_def) (simp add: example_sample_def)

section \<open>Adoption\<close>

lemma find_first_unknown:
  "k \<notin> known \<Longrightarrow> find (\<lambda>r. rr_rule_id r = k) (first_unknown known rs) = find (\<lambda>r. rr_rule_id r = k) rs"
  by (induction known rs rule: first_unknown.induct) auto

lemma first_unknown_all_known: "rr_rule_id ` set rs \<subseteq> known \<Longrightarrow> first_unknown known rs = []"
  by (induction known rs rule: first_unknown.induct) auto

lemma map_of_stored: "map_of (map (\<lambda>r. (rr_rule_id r, stored r)) rs) k = map_option stored (find (\<lambda>r. rr_rule_id r = k) rs)"
  by (induction rs) auto

text \<open>The lookups after an accepted batch: known rules stay, and the first rule of every new identifier
  is stored as a candidate.\<close>

lemma find_adopted:
  fixes m :: "(string, ReactiveRule) omap" and rules :: "ReactiveRule list"
  defines "fresh \<equiv> first_unknown (dom (omap_find m)) rules"
  shows "omap_find (fold (\<lambda>r. omap_set (rr_rule_id r) (stored r)) fresh m) k =
    (case omap_find m k of Some r \<Rightarrow> Some r | None \<Rightarrow> map_option stored (find (\<lambda>r. rr_rule_id r = k) rules))"
proof -
  have props: "distinct (map rr_rule_id fresh)" "rr_rule_id ` set fresh = rr_rule_id ` set rules - dom (omap_find m)"
    using first_unknown_props [of "dom (omap_find m)" rules] by (auto simp: fresh_def)
  have rev: "map_of (rev (map (\<lambda>r. (rr_rule_id r, stored r)) fresh)) = map_of (map (\<lambda>r. (rr_rule_id r, stored r)) fresh)"
    using props(1) by (subst map_of_inject_set) (simp_all add: comp_def rev_map [symmetric])
  show ?thesis
  proof (cases "omap_find m k")
    case None
    then have "find (\<lambda>r. rr_rule_id r = k) fresh = find (\<lambda>r. rr_rule_id r = k) rules"
      unfolding fresh_def by (intro find_first_unknown) (simp add: domIff)
    with None show ?thesis
      by (simp add: find_fold_stored rev map_of_stored map_add_def split: option.split)
  next
    case (Some r)
    then have "k \<notin> rr_rule_id ` set fresh" using props(2) by blast
    then have "find (\<lambda>r. rr_rule_id r = k) fresh = None" by (auto simp: find_None_iff)
    with Some show ?thesis by (simp add: find_fold_stored rev map_of_stored map_add_def)
  qed
qed

definition adoptable :: "ReactiveRule list \<Rightarrow> ReactivePolicyRuntime \<Rightarrow> bool" where
  "adoptable rules rt \<longleftrightarrow> (\<forall>r\<in>set rules. validate_rule r = Inr ()) \<and>
     table_bounded (rp_options rt) (map snd (rp_rules rt) @ first_unknown (dom (omap_find (rp_rules rt))) rules)"

lemma adopt_accepts_iff:
  assumes "omap_ok (rp_rules rt)"
  shows "(\<exists>n. snd (adopt_candidate_rules rules rt) = Inr n) \<longleftrightarrow> adoptable rules rt"
proof -
  let ?all = "map snd (rp_rules rt) @ first_unknown (dom (omap_find (rp_rules rt))) rules"
  have per: "(\<forall>s. state_count s ?all \<le> po_max_rules_per_state (rp_options rt)) \<longleftrightarrow>
      (\<forall>r\<in>set ?all. state_count (rr_state r) ?all \<le> po_max_rules_per_state (rp_options rt))"
  proof (intro iffI allI)
    fix s assume *: "\<forall>r\<in>set ?all. state_count (rr_state r) ?all \<le> po_max_rules_per_state (rp_options rt)"
    show "state_count s ?all \<le> po_max_rules_per_state (rp_options rt)"
    proof (cases "\<exists>r\<in>set ?all. rr_state r = s")
      case False
      then show ?thesis by (subst state_count_zero) auto
    qed (use * in blast)
  qed blast
  show ?thesis
  proof (cases "fresh_rules (rp_rules rt) [] rules")
    case (Inl e)
    then have "\<not> (\<forall>r\<in>set rules. validate_rule r = Inr ())"
      using fresh_rules_Inr [of "rp_rules rt" "[]" rules "first_unknown (dom (omap_find (rp_rules rt))) rules"] by auto
    with Inl show ?thesis by (simp add: adopt_candidate_rules_def adoptable_def)
  next
    case (Inr fresh)
    then have fresh: "\<forall>r\<in>set rules. validate_rule r = Inr ()" "fresh = first_unknown (dom (omap_find (rp_rules rt))) rules"
      using fresh_rules_Inr [of "rp_rules rt" "[]" rules fresh] by auto
    have "adoptable rules rt \<longleftrightarrow> length (rp_rules rt) + length fresh \<le> po_max_rules (rp_options rt) \<and>
        \<not> list_ex (\<lambda>r. state_count (rr_state r) (map snd (rp_rules rt) @ fresh) >
          po_max_rules_per_state (rp_options rt)) (map snd (rp_rules rt) @ fresh)"
      unfolding adoptable_def table_bounded_def per using fresh by (simp add: list_ex_iff not_less)
    with Inr show ?thesis by (auto simp: adopt_candidate_rules_def)
  qed
qed

text \<open>Adoption is all or nothing. A batch is accepted exactly when all of its rules are valid and the
  table with the new rules respects both bounds; then the first rule of every new identifier is
  stored as a candidate, known rules and everything else stay, their number is returned, and
  adopting the batch again changes nothing. A rejected batch changes nothing.\<close>

theorem adopt_all_or_nothing:
  assumes "policy_inv rt"
  shows "(if adoptable rules rt then \<exists>rt'.
      adopt_candidate_rules rules rt = (rt', Inr (length (first_unknown (dom (omap_find (rp_rules rt))) rules))) \<and>
      rt' = rt\<lparr>rp_rules := rp_rules rt', rp_events := rp_events rt'\<rparr> \<and>
      (\<forall>k. omap_find (rp_rules rt') k = (case omap_find (rp_rules rt) k of Some r \<Rightarrow> Some r
         | None \<Rightarrow> map_option stored (find (\<lambda>r. rr_rule_id r = k) rules))) \<and>
      adopt_candidate_rules rules rt' = (rt', Inr 0)
    else \<exists>e. adopt_candidate_rules rules rt = (rt, Inl e))"
proof -
  have inv: "rules_inv rt" and ok: "omap_ok (rp_rules rt)" using assms by (auto simp: policy_inv_def rules_inv_def)
  note iff = adopt_accepts_iff [OF ok, of rules]
  from ok show ?thesis
  proof (cases rule: adopt_cases [where rules = rules, consumes 1, case_names rejected adopted])
    case (rejected e)
    then show ?thesis using iff by auto
  next
    case (adopted fresh rt' es)
    have events: "rp_events rt' = rp_events rt @ es" by (subst adopted(4)) simp
    have finds: "omap_find (rp_rules rt') k = (case omap_find (rp_rules rt) k of Some r \<Rightarrow> Some r
        | None \<Rightarrow> map_option stored (find (\<lambda>r. rr_rule_id r = k) rules))" for k
      unfolding adopted(7,2) by (rule find_adopted)
    have "omap_find (rp_rules rt') (rr_rule_id r) \<noteq> None" if "r \<in> set rules" for r
    proof -
      have "find (\<lambda>q. rr_rule_id q = rr_rule_id r) rules \<noteq> None"
        using that unfolding find_None_iff by blast
      then show ?thesis using finds [of "rr_rule_id r"] by (auto split: option.splits)
    qed
    then have known: "first_unknown (dom (omap_find (rp_rules rt'))) rules = []"
      by (intro first_unknown_all_known) (auto simp del: dom_map_of_conv_image_fst)
    have "rules_inv rt'" using rules_inv_adopt [OF inv, of rules] adopted(1) by simp
    then have "adoptable rules rt'"
      using known adopted(3) by (simp add: adoptable_def rules_inv_def)
    moreover have "fresh_rules (rp_rules rt') [] rules = Inr []"
      using known adopted(3) by (simp add: fresh_rules_Inr del: dom_map_of_conv_image_fst)
    ultimately have "adopt_candidate_rules rules rt' = (rt', Inr 0)"
      using adopt_accepts_iff [OF adopted(6), of rules] by (auto simp: adopt_candidate_rules_def split: if_splits)
    moreover have "rt' = rt\<lparr>rp_rules := rp_rules rt', rp_events := rp_events rt'\<rparr>"
      using adopted(4) events by simp
    ultimately show ?thesis using adopted(1,2) iff finds by auto
  qed
qed

theorem adopt_all_or_nothing_witness:
  "\<exists>rt'. adopt_candidate_rules [example_rule ''a'', example_rule ''a''] (new_policy_runtime example_options False) = (rt', Inr 1) \<and>
     omap_find (rp_rules rt') ''a'' = Some (example_rule ''a'') \<and>
     adopt_candidate_rules [example_rule ''a'', example_rule ''a''] rt' = (rt', Inr 0)"
proof -
  have "adoptable [example_rule ''a'', example_rule ''a''] (new_policy_runtime example_options False)"
    by (simp add: adoptable_def example_valid table_bounded_def new_policy_runtime_def example_options_def state_count_def)
  then show ?thesis
    using adopt_all_or_nothing [OF policy_inv_new [of example_options False], of "[example_rule ''a'', example_rule ''a'']"]
    by (auto simp: new_policy_runtime_def stored_def)
qed

section \<open>Rules on the wire\<close>

lemma names_ok [simp]:
  "length all_fields = length kFieldNames" "distinct all_fields" "distinct kFieldNames"
  "length all_compares = length kCompareNames" "distinct all_compares" "distinct kCompareNames"
  "length all_statuses = length kStatusNames" "distinct all_statuses" "distinct kStatusNames"
  by (simp_all add: all_fields_def kFieldNames_def all_compares_def kCompareNames_def all_statuses_def kStatusNames_def)

lemma known_fields [simp]: "f \<in> set all_fields \<longleftrightarrow> field_known f"
  by (cases f) (simp_all add: all_fields_def field_known_def)

lemma known_compares [simp]: "c \<in> set all_compares \<longleftrightarrow> compare_known c"
  by (cases c) (simp_all add: all_compares_def compare_known_def)

lemma known_statuses [simp]: "s \<in> set all_statuses \<longleftrightarrow> status_known s"
  by (cases s) (simp_all add: all_statuses_def status_known_def)

interpretation field_text: codec "nth_name all_fields kFieldNames" "enumerator all_fields kFieldNames" field_known
  by unfold_locales (simp add: enumerator_nth_name)

interpretation compare_text: codec "nth_name all_compares kCompareNames" "enumerator all_compares kCompareNames" compare_known
  by unfold_locales (simp add: enumerator_nth_name)

interpretation status_text: codec "nth_name all_statuses kStatusNames" "enumerator all_statuses kStatusNames" status_known
  by unfold_locales (simp add: enumerator_nth_name)

lemma condition_round_trip:
  "validate_condition c = Inr () \<Longrightarrow> condition_from_json (condition_to_json c) = Inr c"
  by (cases c) (simp add: condition_from_json_def condition_to_json_def validate_condition_def as_object_def as_number_def
    optional_string_def optional_number_def field_text.dec_enc compare_text.dec_enc split: if_splits)

lemma action_round_trip: "action_from_json (action_to_json a) = Inr a"
  by (simp add: action_from_json_def action_to_json_def as_object_def optional_string_def)

lemma transition_round_trip:
  assumes "validate_transition t = Inr ()"
  shows "transition_from_json (transition_to_json t) = Inr t"
proof -
  have "map_res condition_from_json (map condition_to_json (tr_when t)) = Inr (tr_when t)"
    using assms by (intro map_res_map) (auto simp: validate_transition_def condition_round_trip result_simps split: if_splits)
  moreover have "map_res action_from_json (map action_to_json (tr_do_actions t)) = Inr (tr_do_actions t)"
    by (intro map_res_map) (simp add: action_round_trip)
  ultimately show ?thesis by (simp add: transition_from_json_def transition_to_json_def as_object_def)
qed

definition rule_storable :: "ReactiveRule \<Rightarrow> bool" where
  "rule_storable r \<longleftrightarrow> validate_rule r = Inr () \<and> sv_major (rr_schema_version r) = 1"

lemma rule_value_round_trip:
  assumes "rule_storable r"
  shows "rule_from_value (rule_to_value r) = Inr r"
proof -
  have valid: "validate_rule r = Inr ()" "status_known (rr_status r)" "\<forall>t\<in>set (rr_transitions r). validate_transition t = Inr ()"
    and major: "sv_major (rr_schema_version r) = 1"
    using assms by (auto simp: rule_storable_def validate_rule_def result_simps split: if_splits)
  have ts: "transitions_from_json (transitions_to_json (rr_transitions r)) = Inr (rr_transitions r)"
    using valid(3) by (simp add: transitions_from_json_def transitions_to_json_def map_res_map transition_round_trip)
  have refs: "map_res source_ref_from_json (map JString (rr_source_refs r)) = Inr (rr_source_refs r)"
    by (intro map_res_map) (simp add: source_ref_from_json_def)
  have version: "version_from_value (rule_to_value r) = Inr (rr_schema_version r)"
    using major by (simp add: version_from_value_def rule_to_value_def)
  have range: "uint (rr_priority r) \<le> 0xFFFFFFFF" "uint (rr_support_count r) \<le> 0xFFFFFFFF"
    using uint_lt2p [of "rr_priority r"] uint_lt2p [of "rr_support_count r"] by simp_all
  have same: "\<lparr>rr_rule_id = rr_rule_id r, rr_schema_version = rr_schema_version r, rr_state = rr_state r,
      rr_priority = rr_priority r, rr_status = rr_status r, rr_transitions = rr_transitions r,
      rr_source_refs = rr_source_refs r, rr_support_count = rr_support_count r\<rparr> = r"
    by simp
  show ?thesis
    unfolding rule_from_value_def version
    using valid(1,2) ts refs range
    by (simp add: rule_to_value_def as_object_def status_text.dec_enc not_less Let_def same)
qed

interpretation rule_json: codec rule_to_value "\<lambda>v. case rule_from_value v of Inr r \<Rightarrow> Some r | Inl _ \<Rightarrow> None" rule_storable
  by unfold_locales (simp add: rule_value_round_trip)

text \<open>Every error of the reader is the schema error of the policy domain.\<close>

definition schema_checked :: "'a Result \<Rightarrow> bool" where
  "schema_checked x \<longleftrightarrow> (\<forall>e. x = Inl e \<longrightarrow> err_domain e = ''mira.temporal_policy'' \<and> err_domain_code e = 6 \<and>
     err_code e = ErrorCode.InvalidArgument)"

named_theorems schema_intros \<open>readers that only fail with the schema error\<close>

lemma schema_fail [schema_intros]: "schema_checked (policy_fail RuleSchemaInvalid m)"
  by (simp add: schema_checked_def make_temporal_policy_error_def policy_code_number_def policy_codes_def upto.simps)

lemma schema_Inr [schema_intros]: "schema_checked (Inr x)"
  by (simp add: schema_checked_def)

lemma schema_bind [schema_intros]:
  "schema_checked x \<Longrightarrow> (\<And>y. schema_checked (k y)) \<Longrightarrow> schema_checked (res_bind x k)"
  by (auto simp: schema_checked_def result_simps)

lemma schema_check_all [schema_intros]: "(\<And>x. schema_checked (f x)) \<Longrightarrow> schema_checked (check_all f xs)"
  by (induction xs) (auto intro: schema_intros)

lemma schema_map_res [schema_intros]: "(\<And>x. schema_checked (f x)) \<Longrightarrow> schema_checked (map_res f xs)"
  by (induction xs) (auto intro!: schema_intros)

lemma schema_if [schema_intros]: "schema_checked x \<Longrightarrow> schema_checked y \<Longrightarrow> schema_checked (if b then x else y)"
  by simp

lemma schema_case_option [schema_intros]:
  "schema_checked x \<Longrightarrow> (\<And>y. schema_checked (f y)) \<Longrightarrow> schema_checked (case opt of None \<Rightarrow> x | Some y \<Rightarrow> f y)"
  by (simp split: option.split)

lemma schema_case_prod [schema_intros]:
  "(\<And>x y. schema_checked (f x y)) \<Longrightarrow> schema_checked (case p of (x, y) \<Rightarrow> f x y)"
  by (simp split: prod.split)

lemma schema_case_json [schema_intros]:
  "schema_checked a \<Longrightarrow> (\<And>x. schema_checked (b x)) \<Longrightarrow> (\<And>x. schema_checked (c x)) \<Longrightarrow> (\<And>x. schema_checked (d x)) \<Longrightarrow>
   (\<And>x. schema_checked (f x)) \<Longrightarrow> (\<And>x. schema_checked (g x)) \<Longrightarrow> (\<And>x. schema_checked (h x)) \<Longrightarrow>
   schema_checked (case_JsonValue a b c d f g h v)"
  by (simp split: JsonValue.split)

lemma schema_validate [schema_intros]: "schema_checked (validate_rule r)"
  unfolding validate_rule_def validate_transition_def validate_condition_def by (intro schema_intros)

lemma schema_readers [schema_intros]:
  "schema_checked (condition_from_json v)" "schema_checked (action_from_json v)" "schema_checked (source_ref_from_json v)"
  "schema_checked (version_from_value v)"
  unfolding condition_from_json_def action_from_json_def source_ref_from_json_def version_from_value_def
  by (intro schema_intros)+

lemma schema_transitions [schema_intros]: "schema_checked (transitions_from_json v)"
  unfolding transitions_from_json_def transition_from_json_def by (intro schema_intros)

lemma schema_rule_from_value: "schema_checked (rule_from_value v)"
  unfolding rule_from_value_def Let_def by (intro schema_intros)

lemma version_major: "version_from_value v = Inr s \<Longrightarrow> sv_major s = 1"
  by (auto simp: version_from_value_def split: option.splits JsonValue.splits if_splits)

text \<open>What holds of every result, through the same constructs.\<close>

definition gives :: "('a \<Rightarrow> bool) \<Rightarrow> 'a Result \<Rightarrow> bool" where
  "gives P x \<longleftrightarrow> (\<forall>y. x = Inr y \<longrightarrow> P y)"

named_theorems gives_intros \<open>constructs of readers under a postcondition\<close>

lemma gives_basic [gives_intros]:
  "gives P (Inl e)" "P q \<Longrightarrow> gives P (Inr q)" "gives P x \<Longrightarrow> gives P y \<Longrightarrow> gives P (if b then x else y)"
  "(\<And>z. w = Inr z \<Longrightarrow> gives P (k z)) \<Longrightarrow> gives P (res_bind w k)"
  "(\<And>u v. gives P (f u v)) \<Longrightarrow> gives P (case p of (u, v) \<Rightarrow> f u v)"
  "gives P x \<Longrightarrow> (\<And>z. gives P (g z)) \<Longrightarrow> gives P (case opt of None \<Rightarrow> x | Some z \<Rightarrow> g z)"
  by (auto simp: gives_def result_simps split: prod.split option.split)

lemma gives_case_json [gives_intros]:
  "gives P a \<Longrightarrow> (\<And>x. gives P (b x)) \<Longrightarrow> (\<And>x. gives P (c x)) \<Longrightarrow> (\<And>x. gives P (d x)) \<Longrightarrow>
   (\<And>x. gives P (f x)) \<Longrightarrow> (\<And>x. gives P (g x)) \<Longrightarrow> (\<And>x. gives P (h x)) \<Longrightarrow> gives P (case_JsonValue a b c d f g h v)"
  by (simp split: JsonValue.split)

lemma gives_rule_storable: "gives rule_storable (rule_from_value v)"
  unfolding rule_from_value_def Let_def by (intro gives_intros) (simp add: rule_storable_def version_major)

lemma rule_from_value_storable: "rule_from_value v = Inr r \<Longrightarrow> rule_storable r"
  using gives_rule_storable by (auto simp: gives_def)

text \<open>The reader accepts the written value of a rule exactly when the rule is valid and of major
  version 1, and then gives the rule back; whatever it accepts is valid and of major version 1, and
  whatever it rejects is rejected as an invalid argument with the schema code of the policy domain.\<close>

theorem rule_wire_round_trip:
  "(rule_from_value (rule_to_value r) = Inr r \<longleftrightarrow> validate_rule r = Inr () \<and> sv_major (rr_schema_version r) = 1) \<and>
   (case rule_from_value v of
      Inl e \<Rightarrow> err_domain e = ''mira.temporal_policy'' \<and> err_domain_code e = 6 \<and> err_code e = ErrorCode.InvalidArgument
    | Inr r' \<Rightarrow> validate_rule r' = Inr () \<and> sv_major (rr_schema_version r') = 1)"
proof -
  have "rule_from_value (rule_to_value r) = Inr r \<longleftrightarrow> rule_storable r"
    using rule_value_round_trip rule_from_value_storable by blast
  then show ?thesis
    using schema_rule_from_value [of v] rule_from_value_storable [of v]
    by (auto simp: rule_storable_def schema_checked_def split: sum.split)
qed

end
