(* ===== verification/Temporal_Induction.thy ===== *)
theory Temporal_Induction
  imports Temporal_Properties
begin

text \<open>
  What rule induction promises: the signature under which samples are grouped determines the state,
  the motion and the fact keys, so that the rule induced from a group matches every sample of it.
\<close>

section \<open>Signatures\<close>

lemma append_sep_inject:
  assumes "x @ c # u = y @ c # v" "c \<notin> set x" "c \<notin> set y"
  shows "x = y \<and> u = v"
  using assms
proof (induction x arbitrary: y)
  case Nil
  then show ?case by (cases y) auto
next
  case (Cons a x)
  then show ?case by (cases y) auto
qed

lemma length_double_key [simp]: "length (append_double_key d) = 8"
  by (simp add: append_double_key_def)

lemma fact_texts_keys:
  assumes "concat (map fact_key_text fs) @ unit_separator @ ''action='' @ a =
      concat (map fact_key_text gs) @ unit_separator @ ''action='' @ b"
    "\<forall>f\<in>set fs \<union> set gs. CHR ''='' \<notin> set (pf_key f)"
  shows "map pf_key fs = map pf_key gs"
  using assms
proof (induction fs arbitrary: gs)
  case Nil
  then show ?case by (cases gs) (auto simp: fact_key_text_def unit_separator_def)
next
  case (Cons f fs)
  then obtain g gs' where gs: "gs = g # gs'"
    by (cases gs) (auto simp: fact_key_text_def unit_separator_def)
  have eq: "pf_key f @ CHR ''='' # append_double_key (pf_value f) @ concat (map fact_key_text fs) @ unit_separator @ ''action='' @ a =
      pf_key g @ CHR ''='' # append_double_key (pf_value g) @ concat (map fact_key_text gs') @ unit_separator @ ''action='' @ b"
    using Cons.prems(1) gs by (simp add: fact_key_text_def [of f] fact_key_text_def [of g])
  have "CHR ''='' \<notin> set (pf_key f)" "CHR ''='' \<notin> set (pf_key g)" using Cons.prems(2) gs by auto
  note parts = append_sep_inject [OF eq this]
  have "map pf_key fs = map pf_key gs'"
    by (rule Cons.IH) (use conjunct2 [OF parts] Cons.prems(2) gs in auto)
  with conjunct1 [OF parts] show ?case by (simp add: gs)
qed

text \<open>Names that cannot be confused with the punctuation of a signature, and numbers that compare.\<close>

definition plain_sample :: "PolicyEpisodeSample \<Rightarrow> bool" where
  "plain_sample s \<longleftrightarrow> CHR 0x1F \<notin> set (ps_active_state s) \<and>
     list_all (\<lambda>e. CHR 0x1F \<notin> set (te_motion e)) (wv_entities (ps_world s)) \<and>
     list_all (\<lambda>f. CHR ''='' \<notin> set (pf_key f) \<and> \<not> dbl_isnan (pf_value f)) (wv_facts (ps_world s))"

lemma find_anchor_in: "find_anchor w = Some e \<Longrightarrow> e \<in> set (wv_entities w)"
  by (auto simp: find_anchor_def find_Some_iff)

lemma signature_inject:
  assumes sig: "induction_signature s e = induction_signature s' e'"
    and plain: "plain_sample s" "plain_sample s'" and e: "find_anchor (ps_world s) = Some e" "find_anchor (ps_world s') = Some e'"
  shows "ps_active_state s = ps_active_state s' \<and> te_motion e = te_motion e' \<and>
    pf_key ` set (wv_facts (ps_world s)) = pf_key ` set (wv_facts (ps_world s'))"
proof -
  let ?tail = "\<lambda>s e. append_double_key (te_motion_phase e) @ append_double_key (te_motion_confidence e) @
     concat (map fact_key_text (sort_key pf_key (wv_facts (ps_world s)))) @
     unit_separator @ ''action='' @ action_key_text (ps_agent_action s)"
  have clean: "CHR 0x1F \<notin> set (ps_active_state s)" "CHR 0x1F \<notin> set (ps_active_state s')"
    "CHR 0x1F \<notin> set (te_motion e)" "CHR 0x1F \<notin> set (te_motion e')"
    "\<forall>f\<in>set (sort_key pf_key (wv_facts (ps_world s))) \<union> set (sort_key pf_key (wv_facts (ps_world s'))). CHR ''='' \<notin> set (pf_key f)"
    using plain find_anchor_in [OF e(1)] find_anchor_in [OF e(2)] by (auto simp: plain_sample_def list_all_iff)
  have one: "ps_active_state s @ CHR 0x1F # ''motion='' @ te_motion e @ CHR 0x1F # ?tail s e =
      ps_active_state s' @ CHR 0x1F # ''motion='' @ te_motion e' @ CHR 0x1F # ?tail s' e'"
    using sig by (simp add: induction_signature_def unit_separator_def)
  then have state: "ps_active_state s = ps_active_state s'"
    and two: "te_motion e @ CHR 0x1F # ?tail s e = te_motion e' @ CHR 0x1F # ?tail s' e'"
    using append_sep_inject [OF one clean(1,2)] by (blast, simp)
  note parts = append_sep_inject [OF two clean(3,4)]
  have motion: "te_motion e = te_motion e'" by (rule conjunct1 [OF parts])
  have three: "?tail s e = ?tail s' e'" by (rule conjunct2 [OF parts])
  have "map pf_key (sort_key pf_key (wv_facts (ps_world s))) = map pf_key (sort_key pf_key (wv_facts (ps_world s')))"
    by (rule fact_texts_keys [where a = "action_key_text (ps_agent_action s)" and b = "action_key_text (ps_agent_action s')",
      OF _ clean(5)]) (use three in simp)
  then have "pf_key ` set (wv_facts (ps_world s)) = pf_key ` set (wv_facts (ps_world s'))"
    by (metis list.set_map set_sort)
  with state motion show ?thesis by blast
qed

section \<open>Groups\<close>

definition grouped :: "PolicyEpisodeSample list \<Rightarrow> string \<Rightarrow> PolicyEpisodeSample \<Rightarrow> bool" where
  "grouped eps k s \<longleftrightarrow> s \<in> set eps \<and> ps_agent_handled s \<and> ps_agent_action s \<noteq> None \<and>
     (\<exists>e. find_anchor (ps_world s) = Some e \<and> induction_signature s e = k)"

definition groups_ok :: "PolicyEpisodeSample list \<Rightarrow> (string, PolicyEpisodeSample list) omap \<Rightarrow> bool" where
  "groups_ok eps m \<longleftrightarrow> omap_ok m \<and> (\<forall>k g. omap_find m k = Some g \<longrightarrow> g \<noteq> [] \<and> (\<forall>s\<in>set g. grouped eps k s))"

lemma add_to_group_ok:
  assumes "groups_ok eps m" "s \<in> set eps"
  shows "groups_ok eps (add_to_group s m)"
proof (cases "\<not> ps_agent_handled s \<or> ps_agent_action s = None \<or> find_anchor (ps_world s) = None")
  case True
  then show ?thesis using assms(1) by (auto simp: add_to_group_def)
next
  case False
  then obtain e where e: "find_anchor (ps_world s) = Some e" by blast
  define k where "k = induction_signature s e"
  define old where "old = (case omap_find m k of None \<Rightarrow> [] | Some xs \<Rightarrow> xs)"
  have "grouped eps k s" using False e assms(2) by (simp add: grouped_def k_def)
  moreover have "\<forall>s\<in>set old. grouped eps k s"
    using assms(1) by (cases "omap_find m k") (auto simp: old_def groups_ok_def)
  moreover have "add_to_group s m = omap_set k (old @ [s]) m"
    using False e by (auto simp: add_to_group_def k_def old_def Let_def)
  ultimately show ?thesis using assms(1) by (auto simp: groups_ok_def)
qed

lemma groups_correct: "set xs \<subseteq> set eps \<Longrightarrow> groups_ok eps m \<Longrightarrow> groups_ok eps (fold add_to_group xs m)"
  by (induction xs arbitrary: m) (simp_all add: add_to_group_ok)

section \<open>Bounds over a group\<close>

lemma dbl_le_refl: "\<not> dbl_isnan x \<Longrightarrow> dbl_le x x"
  by (simp add: dbl_le_def)

lemma fold_dbl_min:
  assumes "\<not> dbl_isnan m" "\<forall>s\<in>set g. \<not> dbl_isnan (f s)"
  shows "\<not> dbl_isnan (fold (\<lambda>s m. dbl_min m (f s)) g m) \<and> dbl_le (fold (\<lambda>s m. dbl_min m (f s)) g m) m \<and>
    (\<forall>s\<in>set g. dbl_le (fold (\<lambda>s m. dbl_min m (f s)) g m) (f s))"
  using assms
proof (induction g arbitrary: m)
  case (Cons s g)
  have min: "\<not> dbl_isnan (dbl_min m (f s)) \<and> dbl_le (dbl_min m (f s)) m \<and> dbl_le (dbl_min m (f s)) (f s)"
    using Cons.prems by (auto simp: dbl_min_def dbl_lt_def dbl_le_def)
  then show ?case
    using Cons.IH [of "dbl_min m (f s)"] Cons.prems by (auto simp: dbl_le_def intro: order_trans)
qed (simp add: dbl_le_refl)

definition numbers_ok :: "(string, double) omap \<Rightarrow> bool" where
  "numbers_ok m \<longleftrightarrow> omap_ok m \<and> (\<forall>k v. omap_find m k = Some v \<longrightarrow> \<not> dbl_isnan v)"

lemma fold_raise_fact:
  assumes "numbers_ok m" "\<forall>f\<in>set fs. \<not> dbl_isnan (pf_value f)"
  shows "numbers_ok (fold raise_fact fs m) \<and> dom (omap_find (fold raise_fact fs m)) = dom (omap_find m) \<union> pf_key ` set fs \<and>
    (\<forall>k v. omap_find m k = Some v \<longrightarrow> dbl_le v (the (omap_find (fold raise_fact fs m) k))) \<and>
    (\<forall>f\<in>set fs. dbl_le (pf_value f) (the (omap_find (fold raise_fact fs m) (pf_key f))))"
  using assms
proof (induction fs arbitrary: m)
  case Nil
  then show ?case by (auto simp: numbers_ok_def dbl_le_refl)
next
  case (Cons f fs)
  let ?m = "raise_fact f m"
  have m: "numbers_ok ?m \<and> dom (omap_find ?m) = insert (pf_key f) (dom (omap_find m)) \<and>
      (\<forall>k v. omap_find m k = Some v \<longrightarrow> dbl_le v (the (omap_find ?m k))) \<and> dbl_le (pf_value f) (the (omap_find ?m (pf_key f)))"
    using Cons.prems by (auto simp: raise_fact_def numbers_ok_def dbl_max_def dbl_lt_def dbl_le_def
      simp del: dom_map_of_conv_image_fst split: option.splits if_splits)
  from m have ih: "numbers_ok (fold raise_fact fs ?m) \<and>
      dom (omap_find (fold raise_fact fs ?m)) = dom (omap_find ?m) \<union> pf_key ` set fs \<and>
      (\<forall>k v. omap_find ?m k = Some v \<longrightarrow> dbl_le v (the (omap_find (fold raise_fact fs ?m) k))) \<and>
      (\<forall>f\<in>set fs. dbl_le (pf_value f) (the (omap_find (fold raise_fact fs ?m) (pf_key f))))"
    using Cons.prems by (intro Cons.IH) auto
  have up: "dbl_le v (the (omap_find (fold raise_fact fs ?m) k))"
    if "k \<in> dom (omap_find ?m)" "dbl_le v (the (omap_find ?m k))" for k v
    using that ih by (force simp: dbl_le_def domIff)
  have "dbl_le v (the (omap_find (fold raise_fact fs ?m) k))" if "omap_find m k = Some v" for k v
    using m that by (intro up) (auto simp del: dom_map_of_conv_image_fst)
  moreover have "dbl_le (pf_value f) (the (omap_find (fold raise_fact fs ?m) (pf_key f)))"
    using m by (intro up) (auto simp del: dom_map_of_conv_image_fst)
  moreover have "dom (omap_find (fold raise_fact fs ?m)) = dom (omap_find m) \<union> pf_key ` set (f # fs)"
    using ih m by auto
  ultimately show ?case using ih by simp
qed

lemma fact_maxima_flat: "fact_maxima g = fold raise_fact (concat (map (\<lambda>s. wv_facts (ps_world s)) g)) []"
proof -
  have "fold (\<lambda>s. fold raise_fact (wv_facts (ps_world s))) g m = fold raise_fact (concat (map (\<lambda>s. wv_facts (ps_world s)) g)) m" for m
    by (induction g arbitrary: m) simp_all
  then show ?thesis by (simp add: fact_maxima_def)
qed

section \<open>Induced rules\<close>

lemma view_unit_range:
  "validate_view w = Inr () \<Longrightarrow> e \<in> set (wv_entities w) \<Longrightarrow> \<not> dbl_isnan (te_motion_phase e) \<and> \<not> dbl_isnan (te_motion_confidence e)"
  by (auto simp: validate_view_def validate_tracked_def result_simps Let_def dbl_le_def split: if_splits)

lemma view_distinct_facts: "validate_view w = Inr () \<Longrightarrow> distinct (map pf_key (wv_facts w))"
  by (auto simp: validate_view_def result_simps split: if_splits)

text \<open>A support set: the samples of one signature, all of them plain and valid.\<close>

definition support_set :: "PolicyEpisodeSample list \<Rightarrow> string \<Rightarrow> PolicyEpisodeSample list \<Rightarrow> bool" where
  "support_set eps k g \<longleftrightarrow> g \<noteq> [] \<and> (\<forall>s\<in>set g. grouped eps k s \<and> plain_sample s \<and> validate_view (ps_world s) = Inr ())"

lemma support_same:
  assumes "support_set eps k g" "s \<in> set g" "s' \<in> set g"
  shows "ps_active_state s = ps_active_state s' \<and> te_motion (anchor_of s) = te_motion (anchor_of s') \<and>
    pf_key ` set (wv_facts (ps_world s)) = pf_key ` set (wv_facts (ps_world s'))"
proof -
  have "find_anchor (ps_world q) = Some (anchor_of q) \<and> induction_signature q (anchor_of q) = k \<and> plain_sample q"
    if "q \<in> set g" for q
    using assms(1) that by (auto simp: support_set_def grouped_def anchor_of_def)
  then show ?thesis using signature_inject [of s "anchor_of s" s' "anchor_of s'"] assms(2,3) by auto
qed

lemma support_anchor:
  assumes "support_set eps k g" "s \<in> set g"
  shows "anchor_of s \<in> set (wv_entities (ps_world s))" "\<not> dbl_isnan (te_motion_phase (anchor_of s))"
    "\<not> dbl_isnan (te_motion_confidence (anchor_of s))"
proof -
  show "anchor_of s \<in> set (wv_entities (ps_world s))"
    using assms find_anchor_in by (auto simp: support_set_def grouped_def anchor_of_def)
  then show "\<not> dbl_isnan (te_motion_phase (anchor_of s))" "\<not> dbl_isnan (te_motion_confidence (anchor_of s))"
    using assms view_unit_range by (auto simp: support_set_def)
qed

lemma fact_maxima_props:
  assumes "support_set eps k g"
  shows "omap_ok (fact_maxima g)" "s \<in> set g \<Longrightarrow> dom (omap_find (fact_maxima g)) = pf_key ` set (wv_facts (ps_world s))"
    "s \<in> set g \<Longrightarrow> f \<in> set (wv_facts (ps_world s)) \<Longrightarrow> dbl_le (pf_value f) (the (omap_find (fact_maxima g) (pf_key f)))"
proof -
  let ?fs = "concat (map (\<lambda>s. wv_facts (ps_world s)) g)"
  have "\<forall>f\<in>set ?fs. \<not> dbl_isnan (pf_value f)"
    using assms by (auto simp: support_set_def plain_sample_def list_all_iff)
  from fold_raise_fact [OF _ this, of "[]"] have m: "numbers_ok (fact_maxima g)"
    "dom (omap_find (fact_maxima g)) = pf_key ` set ?fs"
    "\<forall>f\<in>set ?fs. dbl_le (pf_value f) (the (omap_find (fact_maxima g) (pf_key f)))"
    by (simp_all add: fact_maxima_flat numbers_ok_def)
  show "omap_ok (fact_maxima g)" using m(1) by (simp add: numbers_ok_def)
  show "dom (omap_find (fact_maxima g)) = pf_key ` set (wv_facts (ps_world s))" if s: "s \<in> set g"
  proof -
    have "pf_key ` set ?fs = (\<Union>q\<in>set g. pf_key ` set (wv_facts (ps_world q)))" by auto
    also have "\<dots> = (\<Union>q\<in>set g. pf_key ` set (wv_facts (ps_world s)))"
      using support_same [OF assms _ s] by (intro SUP_cong) simp_all
    also have "\<dots> = pf_key ` set (wv_facts (ps_world s))" using s by auto
    finally show ?thesis using m(2) by simp
  qed
  show "s \<in> set g \<Longrightarrow> f \<in> set (wv_facts (ps_world s)) \<Longrightarrow> dbl_le (pf_value f) (the (omap_find (fact_maxima g) (pf_key f)))"
    using m(3) by auto
qed

lemma induced_conditions_hold:
  assumes "support_set eps k g" "s \<in> set g"
  shows "conditions_hold \<lparr>tr_when = induced_conditions g, tr_do_actions = as\<rparr> (ps_world s)"
proof -
  have hd: "hd g \<in> set g" using assms(1) by (simp add: support_set_def)
  let ?phase = "fold (\<lambda>s m. dbl_min m (te_motion_phase (anchor_of s))) g (te_motion_phase (anchor_of (hd g)))"
  let ?conf = "fold (\<lambda>s m. dbl_min m (te_motion_confidence (anchor_of s))) g (te_motion_confidence (anchor_of (hd g)))"
  have "dbl_le ?phase (te_motion_phase (anchor_of s))" "dbl_le ?conf (te_motion_confidence (anchor_of s))"
    using fold_dbl_min [of _ g "\<lambda>s. te_motion_phase (anchor_of s)"] fold_dbl_min [of _ g "\<lambda>s. te_motion_confidence (anchor_of s)"]
      support_anchor [OF assms(1)] hd assms(2) by simp_all
  moreover have "te_motion (anchor_of s) = te_motion (anchor_of (hd g))"
    using support_same [OF assms(1)] assms(2) hd by blast
  ultimately have entity: "\<forall>c\<in>set (induced_conditions g). cn_field c \<noteq> Fact \<longrightarrow> entity_condition_holds c (anchor_of s)"
    by (auto simp: induced_conditions_def Let_def entity_condition_holds_def compare_holds_def fact_condition_def)
  have "\<exists>f\<in>set (wv_facts (ps_world s)). pf_key f = cn_fact_key c \<and> compare_holds (cn_compare c) (pf_value f) (cn_number_value c)"
    if c: "c \<in> set (induced_conditions g)" "cn_field c = Fact" for c
  proof -
    obtain n v where nv: "(n, v) \<in> set (fact_maxima g)" "c = fact_condition (n, v)"
      using c by (auto simp: induced_conditions_def Let_def)
    then have v: "omap_find (fact_maxima g) n = Some v"
      using fact_maxima_props(1) [OF assms(1)] by (simp add: omap_find_in_set)
    then have "n \<in> pf_key ` set (wv_facts (ps_world s))"
      using fact_maxima_props(2) [OF assms] by blast
    then obtain f where f: "f \<in> set (wv_facts (ps_world s))" "pf_key f = n" by blast
    then have "dbl_le (pf_value f) v" using fact_maxima_props(3) [OF assms f(1)] v by simp
    with f nv show ?thesis by (auto simp: fact_condition_def compare_holds_def)
  qed
  then show ?thesis
    using entity support_anchor(1) [OF assms] by (auto simp: conditions_hold_def)
qed

lemma induced_validate:
  assumes "support_set eps k g" "s \<in> set g"
  shows "validate_rule (induced_rule g) = Inr () \<longleftrightarrow> length (wv_facts (ps_world s)) \<le> 5"
proof -
  have "card (dom (omap_find (fact_maxima g))) = length (fact_maxima g)"
    using omap_ok_distinct [OF fact_maxima_props(1) [OF assms(1)]]
    by (metis distinct_card dom_map_of_conv_image_fst length_map list.set_map)
  then have "length (fact_maxima g) = length (wv_facts (ps_world s))"
    using view_distinct_facts [of "ps_world s"] assms fact_maxima_props(2) [OF assms]
    by (metis distinct_card length_map list.set_map support_set_def)
  moreover have "length (induced_conditions g) = 3 + length (fact_maxima g)"
    by (simp add: induced_conditions_def Let_def)
  moreover have "check_all validate_condition (induced_conditions g) = Inr ()"
    by (auto simp: result_simps induced_conditions_def Let_def validate_condition_def field_known_def compare_known_def
      fact_condition_def)
  moreover have "sort (map (\<lambda>s. te_source_ref (anchor_of s)) g) \<noteq> []"
    using assms(1) unfolding support_set_def by (metis length_0_conv length_map length_sort)
  ultimately show ?thesis
    by (auto simp: induced_rule_def Let_def validate_rule_def validate_transition_def status_known_def
      kMaxTransitionsPerRule_def kMaxConditionsPerTransition_def)
qed

lemma induce_candidates:
  assumes "induce_candidate_rules eps rt = Inr rules" "r \<in> set rules" "\<forall>s\<in>set eps. plain_sample s"
  obtains k g where "support_set eps k g" "length g \<ge> unat (po_min_support (rp_options rt))" "r = induced_rule g"
proof -
  have valid: "\<forall>s\<in>set eps. validate_view (ps_world s) = Inr ()"
    using assms(1) by (auto simp: induce_candidate_rules_def result_simps split: if_splits)
  obtain k g where g: "(k, g) \<in> set (fold add_to_group eps [])" "length g \<ge> unat (po_min_support (rp_options rt))" "r = induced_rule g"
    using assms(1,2) by (auto simp: induce_candidate_rules_def result_simps split: if_splits)
  have "groups_ok eps (fold add_to_group eps [])"
    by (rule groups_correct) (simp_all add: groups_ok_def)
  then have "g \<noteq> []" "\<forall>s\<in>set g. grouped eps k s"
    using g(1) by (auto simp: groups_ok_def omap_find_in_set)
  moreover have "\<forall>s\<in>set g. s \<in> set eps" using calculation(2) by (simp add: grouped_def)
  ultimately have "support_set eps k g"
    using valid assms(3) by (simp add: support_set_def)
  with g that show ?thesis by blast
qed

text \<open>C36: Every rule that induction returns is a candidate that covers its support set, when no state and no
  motion of the samples contains the separator of the signature, no fact key contains an equals sign and
  no fact is NaN (without these conditions it does not hold). There are at least the required number
  of handled samples of the batch such that their number and the references of their anchors are
  recorded in the rule, and the rule matches the world of each of them in the state of each. The rule
  is accepted by validation exactly when these samples carry at most five facts.\<close>

theorem induced_rules_cover_support:
  assumes "induce_candidate_rules eps rt = Inr rules" "r \<in> set rules" "\<forall>s\<in>set eps. plain_sample s"
  shows "\<exists>support. support \<noteq> [] \<and> set support \<subseteq> set eps \<and> length support \<ge> unat (po_min_support (rp_options rt)) \<and>
    rr_status r = Candidate \<and> rr_support_count r = of_nat (length support) \<and>
    set (rr_source_refs r) = (\<lambda>s. te_source_ref (anchor_of s)) ` set support \<and>
    (\<forall>s\<in>set support. ps_agent_handled s \<and> rr_state r = ps_active_state s \<and>
       first_match (ps_world s) (rr_transitions r) \<noteq> None \<and>
       (validate_rule r = Inr () \<longleftrightarrow> length (wv_facts (ps_world s)) \<le> 5))"
proof -
  obtain k g where g: "support_set eps k g" "length g \<ge> unat (po_min_support (rp_options rt))" and r: "r = induced_rule g"
    using assms by (rule induce_candidates)
  have fields: "rr_status r = Candidate" "rr_support_count r = of_nat (length g)" "rr_state r = ps_active_state (hd g)"
    "set (rr_source_refs r) = (\<lambda>s. te_source_ref (anchor_of s)) ` set g"
    "rr_transitions r = [\<lparr>tr_when = induced_conditions g, tr_do_actions = [the (ps_agent_action (hd g))]\<rparr>]"
    by (simp_all add: r induced_rule_def Let_def)
  have "ps_agent_handled s \<and> rr_state r = ps_active_state s \<and> first_match (ps_world s) (rr_transitions r) \<noteq> None \<and>
      (validate_rule r = Inr () \<longleftrightarrow> length (wv_facts (ps_world s)) \<le> 5)" if s: "s \<in> set g" for s
  proof -
    have "validate_view (ps_world s) = Inr ()" using g(1) s by (simp add: support_set_def)
    then have "first_match (ps_world s) (rr_transitions r) \<noteq> None"
      using transition_matches_iff induced_conditions_hold [OF g(1) s] unfolding first_match_None fields by simp
    moreover have "hd g \<in> set g" "ps_agent_handled s" using g(1) s by (auto simp: support_set_def grouped_def)
    ultimately show ?thesis
      using support_same [OF g(1) s] induced_validate [OF g(1) s, folded r] fields(3) by simp
  qed
  moreover have "g \<noteq> []" "set g \<subseteq> set eps" using g(1) by (auto simp: support_set_def grouped_def)
  ultimately show ?thesis using g(2) fields(1,2,4) by blast
qed

lemma example_induced:
  "induce_candidate_rules [example_sample 1, example_sample 2] (new_policy_runtime example_options False) =
     Inr [induced_rule [example_sample 1, example_sample 2]]"
proof -
  define k where "k = induction_signature (example_sample 1) (hd (wv_entities example_view))"
  have anchor: "find_anchor example_view = Some (hd (wv_entities example_view))"
    by (simp add: find_anchor_def example_view_def)
  have "induction_signature (example_sample n) (hd (wv_entities example_view)) = k" for n
    by (simp add: k_def induction_signature_def example_sample_def)
  then have "fold add_to_group [example_sample 1, example_sample 2] [] = [(k, [example_sample 1, example_sample 2])]"
    using anchor by (simp add: add_to_group_def Let_def) (simp add: example_sample_def)
  then show ?thesis
    by (simp add: induce_candidate_rules_def example_valid new_policy_runtime_def example_options_def)
qed

theorem induced_rules_cover_support_witness:
  "\<exists>support. support \<noteq> [] \<and> set support \<subseteq> set [example_sample 1, example_sample 2] \<and>
     list_all (\<lambda>s. first_match (ps_world s) (rr_transitions (induced_rule [example_sample 1, example_sample 2])) \<noteq> None) support"
proof -
  have "\<forall>s\<in>set [example_sample 1, example_sample 2]. plain_sample s"
    by (simp add: plain_sample_def) (simp add: example_sample_def example_view_def)
  from induced_rules_cover_support [OF example_induced list.set_intros(1) this]
  show ?thesis by (elim exE conjE) (intro exI conjI, assumption, assumption, simp add: list_all_iff)
qed

end
