(* ===== verification/Model_Budget.thy ===== *)
theory Model_Budget
  imports Core_Contracts Json_Writer
begin

text \<open>
  The budget ledger of \<open>src/model/model_budget.cpp\<close>: versioned prices, the token estimate of a
  request, and per-task accounts with reserve, reconcile, release and close. Counters keep their
  64 bits. The clock that \<open>reconcile\<close> reads is an argument. Of \<open>model_contracts.hpp\<close> the model has
  the budget and the usage, and of a request what the estimate reads.
\<close>

section \<open>Prices\<close>

record PriceEntry =
  px_model :: string
  px_currency :: string
  px_input_micros_per_mtok :: u64
  px_output_micros_per_mtok :: u64
  px_cached_input_micros_per_mtok :: u64
  px_reasoning_micros_per_mtok :: u64
  px_version :: u64
  px_effective_from :: int
  px_source :: string

record PriceTable =
  pt_entries :: "PriceEntry list"
  pt_version :: u64

definition price_add :: "PriceEntry \<Rightarrow> PriceTable \<Rightarrow> PriceTable" where
  "price_add entry t = t\<lparr>pt_entries := pt_entries t @ [entry], pt_version := pt_version t + 1\<rparr>"

definition price_candidate :: "string \<Rightarrow> string \<Rightarrow> int \<Rightarrow> PriceEntry \<Rightarrow> bool" where
  "price_candidate model currency at e \<longleftrightarrow>
     \<not> (px_model e \<noteq> model \<or> px_currency e \<noteq> currency \<or> px_effective_from e > at)"

definition better_price :: "string \<Rightarrow> string \<Rightarrow> int \<Rightarrow> PriceEntry \<Rightarrow> PriceEntry option \<Rightarrow> PriceEntry option" where
  "better_price model currency at e best =
     (if \<not> price_candidate model currency at e then best
      else case best of None \<Rightarrow> Some e
        | Some b \<Rightarrow> if px_effective_from e \<ge> px_effective_from b then Some e else Some b)"

definition price_lookup :: "string \<Rightarrow> string \<Rightarrow> int \<Rightarrow> PriceTable \<Rightarrow> PriceEntry option" where
  "price_lookup model currency at t = fold (better_price model currency at) (pt_entries t) None"

definition price_tokens :: "u64 \<Rightarrow> u64 \<Rightarrow> u64" where
  "price_tokens tokens micros_per_mtok =
     (if tokens = 0 then 0 else (tokens * micros_per_mtok + 999999) div 1000000)"

section \<open>Estimates\<close>

text \<open>The alternatives of \<open>ModelContentPart\<close>; only the text of a text part is read.\<close>

datatype ModelContentPart =
    TextPart string | ImagePart | FilePart | ToolCallPart | ToolResultPart | ThinkingPart

definition part_tokens :: "ModelContentPart \<Rightarrow> u64" where
  "part_tokens p = (case p of
      TextPart t \<Rightarrow> of_nat (length t div 3) + 1
    | ImagePart \<Rightarrow> 1600
    | _ \<Rightarrow> 64)"

definition tool_tokens :: "JsonValue \<Rightarrow> u64" where
  "tool_tokens schema = of_nat (length (to_json_string schema) div 3) + 32"

text \<open>The input items, each with its parts, and the parameter schemas of the tools.\<close>

definition estimate_input_tokens :: "ModelContentPart list list \<Rightarrow> JsonValue list \<Rightarrow> u64" where
  "estimate_input_tokens input tools =
     fold (\<lambda>schema total. total + tool_tokens schema) tools
       (fold (\<lambda>item total. fold (\<lambda>p total. total + part_tokens p) item total) input 0)"

section \<open>The ledger\<close>

datatype ModelBudgetScope = Task | Request | Unnamed u8

record ModelBudget =
  mb_max_input_tokens :: u64
  mb_max_output_tokens :: u64
  mb_max_total_cost_micros :: u64
  mb_currency :: string
  mb_max_requests :: u32
  mb_max_image_bytes :: u64
  mb_scope :: ModelBudgetScope

datatype UsageQuality = Exact | ProviderReported | Estimated | Partial | Missing

record ModelUsage =
  mu_input_tokens :: "u64 option"
  mu_output_tokens :: "u64 option"
  mu_cached_input_tokens :: "u64 option"
  mu_reasoning_tokens :: "u64 option"
  mu_quality :: UsageQuality

record BudgetEstimate =
  be_input_tokens :: u64
  be_output_tokens :: u64
  be_requests :: u32
  be_cost_micros :: u64
  be_currency :: string
  be_quality :: UsageQuality

record BudgetReservation =
  br_input_tokens :: u64
  br_output_tokens :: u64
  br_requests :: u64
  br_cost_micros :: u64

datatype ReconciliationQuality = Reconciled | MissingUsage | PartialUsage | UnknownPrice

record BudgetSettlement =
  bs_quality :: ReconciliationQuality
  bs_reconciled_cost_micros :: u64
  bs_input_tokens :: u64
  bs_output_tokens :: u64
  bs_reserved_remainder :: bool
  bs_note :: string

record Account =
  ac_reserved :: BudgetReservation
  ac_spent_micros :: u64
  ac_closed :: bool

record BudgetLedger =
  bl_prices :: PriceTable
  bl_accounts :: "TaskId \<rightharpoonup> Account"

definition no_reservation :: BudgetReservation where
  "no_reservation = \<lparr>br_input_tokens = 0, br_output_tokens = 0, br_requests = 0, br_cost_micros = 0\<rparr>"

definition new_account :: Account where
  "new_account = \<lparr>ac_reserved = no_reservation, ac_spent_micros = 0, ac_closed = False\<rparr>"

definition new_ledger :: "PriceTable \<Rightarrow> BudgetLedger" where
  "new_ledger prices = \<lparr>bl_prices = prices, bl_accounts = (\<lambda>_. None)\<rparr>"

definition budget_error :: "string \<Rightarrow> Error" where
  "budget_error message = error_default\<lparr>err_code := ErrorCode.ResourceExhausted, err_domain := ''mira.model'',
     err_domain_code := 20, err_safe_message := message\<rparr>"

abbreviation budget_fail :: "string \<Rightarrow> 'a Result" where
  "budget_fail message \<equiv> Inl (budget_error message)"

definition u64_max :: u64 where
  "u64_max = 0xFFFFFFFFFFFFFFFF"

definition saturating_add :: "u64 \<Rightarrow> u64 \<Rightarrow> u64" where
  "saturating_add left right = (if right > u64_max - left then u64_max else left + right)"

definition saturating_sub :: "u64 \<Rightarrow> u64 \<Rightarrow> u64" where
  "saturating_sub held amount = (if held > amount then held - amount else 0)"

text \<open>\<open>accounts_[task]\<close>: the account, created when it is missing.\<close>

definition account_of :: "BudgetLedger \<Rightarrow> TaskId \<Rightarrow> Account" where
  "account_of l task = (case bl_accounts l task of None \<Rightarrow> new_account | Some a \<Rightarrow> a)"

definition put_account :: "TaskId \<Rightarrow> Account \<Rightarrow> BudgetLedger \<Rightarrow> BudgetLedger" where
  "put_account task a l = l\<lparr>bl_accounts := (bl_accounts l)(task \<mapsto> a)\<rparr>"

definition estimate_reservation :: "BudgetEstimate \<Rightarrow> BudgetReservation" where
  "estimate_reservation e = \<lparr>br_input_tokens = be_input_tokens e, br_output_tokens = be_output_tokens e,
     br_requests = ucast (be_requests e), br_cost_micros = be_cost_micros e\<rparr>"

definition add_reservation :: "BudgetReservation \<Rightarrow> BudgetReservation \<Rightarrow> BudgetReservation" where
  "add_reservation a b = \<lparr>br_input_tokens = saturating_add (br_input_tokens a) (br_input_tokens b),
     br_output_tokens = saturating_add (br_output_tokens a) (br_output_tokens b),
     br_requests = saturating_add (br_requests a) (br_requests b),
     br_cost_micros = saturating_add (br_cost_micros a) (br_cost_micros b)\<rparr>"

definition would_overflow :: "BudgetReservation \<Rightarrow> BudgetReservation \<Rightarrow> bool" where
  "would_overflow held e \<longleftrightarrow> br_input_tokens e > u64_max - br_input_tokens held \<or>
     br_output_tokens e > u64_max - br_output_tokens held \<or> br_requests e > u64_max - br_requests held \<or>
     br_cost_micros e > u64_max - br_cost_micros held"

definition check_limits :: "ModelBudget \<Rightarrow> BudgetReservation \<Rightarrow> unit Result" where
  "check_limits b r =
     (if mb_max_input_tokens b \<noteq> 0 \<and> br_input_tokens r > mb_max_input_tokens b
      then budget_fail ''input token reservation exceeds the task budget''
      else if mb_max_output_tokens b \<noteq> 0 \<and> br_output_tokens r > mb_max_output_tokens b
      then budget_fail ''output token reservation exceeds the task budget''
      else if mb_max_requests b \<noteq> 0 \<and> br_requests r > ucast (mb_max_requests b)
      then budget_fail ''request reservation exceeds the task budget''
      else if mb_max_total_cost_micros b \<noteq> 0 \<and> br_cost_micros r > mb_max_total_cost_micros b
      then budget_fail ''cost reservation exceeds the task budget''
      else Inr ())"

definition reserve :: "TaskId \<Rightarrow> ModelBudget \<Rightarrow> BudgetEstimate \<Rightarrow> BudgetLedger \<Rightarrow> BudgetLedger \<times> BudgetReservation Result" where
  "reserve task b e l =
     (let account = account_of l task;
          l = put_account task account l;
          estimate = estimate_reservation e;
          next = add_reservation (ac_reserved account) estimate;
          per_request = mb_scope b = Request
      in if ac_closed account then (l, budget_fail ''task budget is closed'')
         else if mb_scope b \<noteq> Task \<and> mb_scope b \<noteq> Request then (l, budget_fail ''invalid budget scope'')
         else if per_request \<and> (mb_max_requests b \<noteq> 1 \<or> mb_max_output_tokens b = 0 \<or> be_requests e \<noteq> 1)
         then (l, budget_fail ''request budget requires one infer and finite output tokens'')
         else if mb_scope b = Task \<and> would_overflow (ac_reserved account) estimate
         then (l, budget_fail ''task reservation counters would overflow'')
         else case check_limits b (if per_request then estimate else next) of
             Inl err \<Rightarrow> (l, Inl err)
           | Inr _ \<Rightarrow> (put_account task (account\<lparr>ac_reserved := next\<rparr>) l,
                        Inr (if per_request then estimate else next)))"

definition settlement_of :: "ModelUsage \<Rightarrow> BudgetSettlement" where
  "settlement_of u = \<lparr>bs_quality = Reconciled, bs_reconciled_cost_micros = 0,
     bs_input_tokens = (case mu_input_tokens u of None \<Rightarrow> 0 | Some n \<Rightarrow> n),
     bs_output_tokens = (case mu_output_tokens u of None \<Rightarrow> 0 | Some n \<Rightarrow> n),
     bs_reserved_remainder = False, bs_note = ''''\<rparr>"

definition hold_back :: "ReconciliationQuality \<Rightarrow> string \<Rightarrow> BudgetSettlement \<Rightarrow> BudgetSettlement" where
  "hold_back q note s = s\<lparr>bs_quality := q, bs_reserved_remainder := True, bs_note := note\<rparr>"

definition full_cost :: "PriceEntry \<Rightarrow> BudgetSettlement \<Rightarrow> u64" where
  "full_cost p s = price_tokens (bs_input_tokens s) (px_input_micros_per_mtok p) +
     price_tokens (bs_output_tokens s) (px_output_micros_per_mtok p)"

definition usage_cost :: "PriceEntry \<Rightarrow> ModelUsage \<Rightarrow> BudgetSettlement \<Rightarrow> u64" where
  "usage_cost p u s = (case mu_cached_input_tokens u of None \<Rightarrow> full_cost p s
     | Some cached \<Rightarrow>
         (let discount = price_tokens cached (px_input_micros_per_mtok p - px_cached_input_micros_per_mtok p)
          in full_cost p s - min discount (full_cost p s)))"

definition charge :: "u64 \<Rightarrow> BudgetSettlement \<Rightarrow> Account \<Rightarrow> Account" where
  "charge cost s a =
     (let held = ac_reserved a in a\<lparr>ac_spent_micros := saturating_add (ac_spent_micros a) cost,
        ac_reserved := \<lparr>br_input_tokens = saturating_sub (br_input_tokens held) (bs_input_tokens s),
          br_output_tokens = saturating_sub (br_output_tokens held) (bs_output_tokens s),
          br_requests = saturating_sub (br_requests held) 1,
          br_cost_micros = (if bs_quality s = Reconciled then saturating_sub (br_cost_micros held) cost
            else br_cost_micros held)\<rparr>\<rparr>)"

definition reconcile ::
    "int \<Rightarrow> TaskId \<Rightarrow> ModelBudget \<Rightarrow> ModelUsage \<Rightarrow> string \<Rightarrow> BudgetLedger \<Rightarrow> BudgetLedger \<times> BudgetSettlement Result" where
  "reconcile now task b u model l = (case bl_accounts l task of
      None \<Rightarrow> (l, budget_fail ''task has no open budget account'')
    | Some account \<Rightarrow>
        (let price = price_lookup model (if mb_currency b = '''' then ''USD'' else mb_currency b) now (bl_prices l);
             s = settlement_of u
         in if mu_quality u = Missing
            then (l, Inr (hold_back MissingUsage ''provider reported no usage; reservation held for audit'' s))
            else case price of
              None \<Rightarrow> (l, Inr (hold_back UnknownPrice ''price table has no entry for the resolved model'' s))
            | Some p \<Rightarrow>
                if (case mu_cached_input_tokens u of None \<Rightarrow> False | Some cached \<Rightarrow> cached > bs_input_tokens s)
                then (l, Inr (hold_back PartialUsage ''cached token count exceeds reported input tokens'' s))
                else if (case mu_reasoning_tokens u of None \<Rightarrow> False | Some reasoning \<Rightarrow> reasoning > bs_output_tokens s)
                then (l, Inr (hold_back PartialUsage ''reasoning token count exceeds reported output tokens'' s))
                else (let s = (if mu_quality u = Partial
                             then hold_back PartialUsage ''usage was reported partially; remainder stays reserved'' s else s);
                          cost = usage_cost p u s;
                          s = s\<lparr>bs_reconciled_cost_micros := cost\<rparr>
                      in (put_account task (charge cost s account) l, Inr s))))"

definition sub_reservation :: "BudgetReservation \<Rightarrow> BudgetReservation \<Rightarrow> BudgetReservation" where
  "sub_reservation held r = \<lparr>br_input_tokens = saturating_sub (br_input_tokens held) (br_input_tokens r),
     br_output_tokens = saturating_sub (br_output_tokens held) (br_output_tokens r),
     br_requests = saturating_sub (br_requests held) (br_requests r),
     br_cost_micros = saturating_sub (br_cost_micros held) (br_cost_micros r)\<rparr>"

definition release :: "TaskId \<Rightarrow> BudgetReservation \<Rightarrow> BudgetLedger \<Rightarrow> BudgetLedger \<times> unit Result" where
  "release task r l = (case bl_accounts l task of
      None \<Rightarrow> (l, budget_fail ''task has no open budget account'')
    | Some a \<Rightarrow> (put_account task (a\<lparr>ac_reserved := sub_reservation (ac_reserved a) r\<rparr>) l, Inr ()))"

definition reserved :: "BudgetLedger \<Rightarrow> TaskId \<Rightarrow> BudgetReservation" where
  "reserved l task = (case bl_accounts l task of None \<Rightarrow> no_reservation | Some a \<Rightarrow> ac_reserved a)"

definition spent_micros :: "BudgetLedger \<Rightarrow> TaskId \<Rightarrow> u64" where
  "spent_micros l task = (case bl_accounts l task of None \<Rightarrow> 0 | Some a \<Rightarrow> ac_spent_micros a)"

definition close_account :: "TaskId \<Rightarrow> BudgetLedger \<Rightarrow> BudgetLedger" where
  "close_account task l = (case bl_accounts l task of None \<Rightarrow> l
     | Some a \<Rightarrow> put_account task (a\<lparr>ac_closed := True\<rparr>) l)"

end
