(* ===== verification/Budget_Properties.thy ===== *)
theory Budget_Properties
  imports Model_Budget
begin

text \<open>
  Properties of the budget ledger, stated over unbounded numbers: the exact condition of an
  admission, the limits along every run, what a release gives back, and the rounding of prices.
\<close>

section \<open>Saturating counters\<close>

lemma unat_u64_less: "unat x < 2 ^ 64" for x :: u64
  using unsigned_less [of x] by simp

lemma unat_u32_less: "unat x < 2 ^ 32" for x :: u32
  using unsigned_less [of x] by simp

lemma unat_u64_max: "unat u64_max = 2 ^ 64 - 1"
  by (simp add: u64_max_def)

lemma unat_room: "unat (u64_max - a) = 2 ^ 64 - 1 - unat a"
proof -
  have "a \<le> u64_max" using unat_u64_less [of a] by (simp add: word_le_nat_alt unat_u64_max)
  then show ?thesis by (simp add: unat_sub unat_u64_max)
qed

lemma overflow_iff: "b > u64_max - a \<longleftrightarrow> unat a + unat b \<ge> 2 ^ 64" for a b :: u64
  using unat_u64_less [of a] by (auto simp: word_less_nat_alt unat_room)

lemma unat_saturating_add: "unat (saturating_add a b) = min (2 ^ 64 - 1) (unat a + unat b)"
  using overflow_iff [of a b] by (auto simp: saturating_add_def unat_u64_max unat_word_ariths)

lemma unat_saturating_sub: "unat (saturating_sub a b) = unat a - unat b"
  by (auto simp: saturating_sub_def word_less_nat_alt unat_sub word_le_nat_alt)

text \<open>The four counters of a reservation and the four limits of a budget, in the same order.\<close>

definition amounts :: "BudgetReservation \<Rightarrow> nat list" where
  "amounts r = [unat (br_input_tokens r), unat (br_output_tokens r), unat (br_requests r), unat (br_cost_micros r)]"

definition limits :: "ModelBudget \<Rightarrow> nat list" where
  "limits b = [unat (mb_max_input_tokens b), unat (mb_max_output_tokens b), unat (mb_max_requests b),
     unat (mb_max_total_cost_micros b)]"

definition within_limits :: "ModelBudget \<Rightarrow> nat list \<Rightarrow> bool" where
  "within_limits b ns \<longleftrightarrow> list_all2 (\<lambda>limit n. limit = 0 \<or> n \<le> limit) (limits b) ns"

lemma amounts_inject: "amounts r = amounts s \<longleftrightarrow> r = s"
  by (auto simp: amounts_def word_unat_eq_iff [symmetric] intro!: BudgetReservation.equality)

lemma amounts_add_exact:
  "\<not> would_overflow a b \<Longrightarrow> amounts (add_reservation a b) = map2 (+) (amounts a) (amounts b)"
  by (auto simp: amounts_def add_reservation_def would_overflow_def overflow_iff unat_saturating_add)

lemma would_overflow_iff: "would_overflow a b \<longleftrightarrow> \<not> list_all (\<lambda>n. n < 2 ^ 64) (map2 (+) (amounts a) (amounts b))"
  by (auto simp: would_overflow_def overflow_iff amounts_def)

lemma amounts_sub: "amounts (sub_reservation a b) = map2 (-) (amounts a) (amounts b)"
  by (simp add: amounts_def sub_reservation_def unat_saturating_sub)

lemma check_limits_iff: "check_limits b r = Inr () \<longleftrightarrow> within_limits b (amounts r)"
proof -
  have "ucast (mb_max_requests b) < br_requests r \<longleftrightarrow> unat (mb_max_requests b) < unat (br_requests r)"
    using unat_u32_less [of "mb_max_requests b"]
    by (simp add: word_less_nat_alt unsigned_ucast_eq take_bit_nat_eq_self)
  then show ?thesis
    by (auto simp: check_limits_def within_limits_def limits_def amounts_def word_less_nat_alt word_le_nat_alt unat_eq_0 not_less)
qed

section \<open>Accounts\<close>

lemma put_account_frame [simp]:
  "bl_prices (put_account t a l) = bl_prices l" "reserved (put_account t a l) t' = (if t' = t then ac_reserved a else reserved l t')"
  "spent_micros (put_account t a l) t' = (if t' = t then ac_spent_micros a else spent_micros l t')"
  "account_of (put_account t a l) t' = (if t' = t then a else account_of l t')"
  "bl_accounts (put_account t a l) = (bl_accounts l)(t \<mapsto> a)"
  by (simp_all add: put_account_def reserved_def spent_micros_def account_of_def)

lemma account_fields:
  "ac_reserved (account_of l t) = reserved l t" "ac_spent_micros (account_of l t) = spent_micros l t"
  by (simp_all add: account_of_def reserved_def spent_micros_def new_account_def split: option.split)

section \<open>Admission\<close>

text \<open>A budget and an estimate for the examples.\<close>

definition example_budget :: "ModelBudgetScope \<Rightarrow> ModelBudget" where
  "example_budget scope = \<lparr>mb_max_input_tokens = 100, mb_max_output_tokens = 50, mb_max_total_cost_micros = 10,
     mb_currency = ''USD'', mb_max_requests = (if scope = Task then 4 else 1), mb_max_image_bytes = 0, mb_scope = scope\<rparr>"

definition example_estimate :: BudgetEstimate where
  "example_estimate = \<lparr>be_input_tokens = 30, be_output_tokens = 10, be_requests = 1, be_cost_micros = 3,
     be_currency = ''USD'', be_quality = Estimated\<rparr>"

definition example_ledger :: BudgetLedger where
  "example_ledger = new_ledger \<lparr>pt_entries = [], pt_version = 1\<rparr>"

lemmas example_budget_defs = example_budget_def example_estimate_def example_ledger_def new_ledger_def

text \<open>Under a task budget a reservation is admitted exactly when the account is open, no counter
  leaves 64 bits, and every held amount plus the estimate is within its limit, where zero is no
  limit. Then the new total, computed without rounding or wrapping, is held and returned; otherwise
  what is held stays. Other tasks and the money spent are not touched.\<close>

theorem reserve_admits_exactly:
  assumes "mb_scope b = Task"
  shows "(let total = map2 (+) (amounts (reserved l task)) (amounts (estimate_reservation e));
          admitted = (\<not> ac_closed (account_of l task) \<and> list_all (\<lambda>n. n < 2 ^ 64) total \<and> within_limits b total)
      in case reserve task b e l of
           (l', Inr r) \<Rightarrow> admitted \<and> amounts r = total \<and> amounts (reserved l' task) = total \<and>
             (\<forall>t. t \<noteq> task \<longrightarrow> reserved l' t = reserved l t) \<and> spent_micros l' = spent_micros l
         | (l', Inl err) \<Rightarrow> \<not> admitted \<and> err_code err = ErrorCode.ResourceExhausted \<and> reserved l' = reserved l \<and>
             spent_micros l' = spent_micros l)"
proof -
  let ?held = "reserved l task" and ?e = "estimate_reservation e"
  have same: "reserved (put_account task (account_of l task) l) = reserved l"
    "spent_micros (put_account task (account_of l task) l) = spent_micros l"
    by (simp_all add: fun_eq_iff account_fields)
  have code: "check_limits b r = Inl err \<Longrightarrow> err_code err = ErrorCode.ResourceExhausted" for r err
    by (auto simp: check_limits_def budget_error_def split: if_splits)
  show ?thesis
  proof (cases "ac_closed (account_of l task) \<or> would_overflow ?held ?e")
    case True
    then show ?thesis
      using assms by (auto simp: reserve_def Let_def account_fields same would_overflow_iff budget_error_def)
  next
    case False
    then have exact: "amounts (add_reservation ?held ?e) = map2 (+) (amounts ?held) (amounts ?e)"
      by (simp add: amounts_add_exact)
    show ?thesis
    proof (cases "check_limits b (add_reservation ?held ?e)")
      case (Inl err)
      then have "\<not> within_limits b (amounts (add_reservation ?held ?e))"
        by (simp flip: check_limits_iff)
      with Inl show ?thesis
        using assms False exact code [OF Inl] by (auto simp: reserve_def Let_def account_fields same)
    next
      case (Inr u)
      then have "within_limits b (amounts (add_reservation ?held ?e))"
        by (simp flip: check_limits_iff)
      with Inr show ?thesis
        using assms False exact same
        by (simp add: reserve_def Let_def account_fields would_overflow_iff fun_eq_iff)
    qed
  qed
qed

theorem reserve_admits_exactly_witness:
  "mb_scope (example_budget Task) = Task \<and>
   amounts (reserved (fst (reserve id128_nil (example_budget Task) example_estimate example_ledger)) id128_nil) = [30, 10, 1, 3]"
proof -
  have scope: "mb_scope (example_budget Task) = Task" by (simp add: example_budget_def)
  have zero: "reserved example_ledger id128_nil = no_reservation" "account_of example_ledger id128_nil = new_account"
    by (simp_all add: reserved_def account_of_def example_budget_defs)
  show ?thesis
    using reserve_admits_exactly [OF scope, of example_ledger id128_nil example_estimate] scope
    by (simp add: zero Let_def split: prod.splits sum.splits)
      (auto simp: amounts_def no_reservation_def new_account_def estimate_reservation_def example_budget_defs
        within_limits_def limits_def)
qed

section \<open>Releasing what was reserved\<close>

lemma reserve_Inr:
  assumes "reserve task b e l = (l', Inr r)"
  shows "reserved l' task = add_reservation (reserved l task) (estimate_reservation e)"
    "r = (if mb_scope b = Request then estimate_reservation e else add_reservation (reserved l task) (estimate_reservation e))"
    "mb_scope b = Task \<or> mb_scope b = Request" "mb_scope b = Task \<Longrightarrow> \<not> would_overflow (reserved l task) (estimate_reservation e)"
    "\<exists>a. bl_accounts l' task = Some a"
  using assms by (auto simp: reserve_def Let_def account_fields split: if_splits sum.splits)

lemma reserve_Inl:
  assumes "reserve task b e l = (l', Inl err)"
  shows "reserved l' = reserved l" "spent_micros l' = spent_micros l" "account_of l' = account_of l"
proof -
  have "l' = put_account task (account_of l task) l"
    using assms by (auto simp: reserve_def Let_def split: if_splits sum.splits)
  then show "reserved l' = reserved l" "spent_micros l' = spent_micros l" "account_of l' = account_of l"
    by (simp_all add: fun_eq_iff account_fields)
qed

lemma reserved_release:
  "bl_accounts l task = Some a \<Longrightarrow> reserved (fst (release task r l)) task = sub_reservation (reserved l task) r"
  by (simp add: release_def reserved_def)

text \<open>What a reservation returns undoes it when it is released under a request budget. Under a task
  budget the returned amounts are the total of the task, so releasing them gives up everything the
  task holds, the reservations of other requests included.\<close>

theorem release_returns_reservation:
  assumes "reserve task b e l = (l', Inr r)"
  shows "(mb_scope b = Request \<and> \<not> would_overflow (reserved l task) (estimate_reservation e) \<longrightarrow>
       reserved (fst (release task r l')) task = reserved l task) \<and>
    (mb_scope b = Task \<longrightarrow> reserved (fst (release task r l')) task = no_reservation)"
proof -
  obtain a where a: "bl_accounts l' task = Some a" using reserve_Inr(5) [OF assms] by blast
  let ?sum = "add_reservation (reserved l task) (estimate_reservation e)"
  have "amounts (sub_reservation ?sum (estimate_reservation e)) = amounts (reserved l task)"
    if "\<not> would_overflow (reserved l task) (estimate_reservation e)"
    unfolding amounts_sub amounts_add_exact [OF that] by (simp add: amounts_def)
  moreover have "amounts (sub_reservation ?sum ?sum) = amounts no_reservation"
    unfolding amounts_sub by (simp add: amounts_def no_reservation_def)
  ultimately show ?thesis
    using reserve_Inr(1,2) [OF assms] by (simp add: reserved_release [OF a] amounts_inject)
qed

theorem release_returns_reservation_witness:
  "\<exists>l r. reserve id128_nil (example_budget Task) example_estimate
       (fst (reserve id128_nil (example_budget Task) example_estimate example_ledger)) = (l, Inr r) \<and>
     reserved (fst (release id128_nil r l)) id128_nil = no_reservation"
proof -
  let ?l1 = "fst (reserve id128_nil (example_budget Task) example_estimate example_ledger)"
  have "\<exists>l r. reserve id128_nil (example_budget Task) example_estimate ?l1 = (l, Inr r)"
    by (simp add: reserve_def Let_def account_of_def put_account_def example_budget_defs new_account_def no_reservation_def
      would_overflow_def estimate_reservation_def u64_max_def check_limits_def add_reservation_def saturating_add_def)
  then obtain l r where r: "reserve id128_nil (example_budget Task) example_estimate ?l1 = (l, Inr r)" by blast
  have "reserved (fst (release id128_nil r l)) id128_nil = no_reservation"
    using release_returns_reservation [OF r] by (simp add: example_budget_def)
  with r show ?thesis by blast
qed

section \<open>Runs\<close>

datatype BudgetOp =
    OpReserve TaskId ModelBudget BudgetEstimate | OpReconcile int TaskId ModelBudget ModelUsage string
  | OpRelease TaskId BudgetReservation | OpClose TaskId

fun run_budget_op :: "BudgetOp \<Rightarrow> BudgetLedger \<Rightarrow> BudgetLedger" where
  "run_budget_op (OpReserve t b e) l = fst (reserve t b e l)"
| "run_budget_op (OpReconcile now t b u m) l = fst (reconcile now t b u m l)"
| "run_budget_op (OpRelease t r) l = fst (release t r l)"
| "run_budget_op (OpClose t) l = close_account t l"

text \<open>Runs in which one task is only reserved for under one budget; other tasks are free.\<close>

inductive budget_moves :: "TaskId \<Rightarrow> ModelBudget \<Rightarrow> BudgetLedger \<Rightarrow> BudgetLedger \<Rightarrow> bool" for task b where
  move: "(\<And>b' e. op = OpReserve task b' e \<Longrightarrow> b' = b) \<Longrightarrow> budget_moves task b l (run_budget_op op l)"

inductive_cases budget_movesE: "budget_moves task b l l'"

definition budget_progress :: "TaskId \<Rightarrow> BudgetLedger \<Rightarrow> BudgetLedger \<Rightarrow> bool" where
  "budget_progress task l l' \<longleftrightarrow> spent_micros l task \<le> spent_micros l' task \<and>
     (ac_closed (account_of l task) \<longrightarrow> ac_closed (account_of l' task) \<and>
        list_all2 (\<le>) (amounts (reserved l' task)) (amounts (reserved l task)))"

lemma amounts_le_refl [simp]: "list_all2 (\<le>) (amounts r) (amounts r)"
  by (simp add: amounts_def)

lemma amounts_le_trans:
  "list_all2 (\<le>) (xs :: nat list) ys \<Longrightarrow> list_all2 (\<le>) ys zs \<Longrightarrow> list_all2 (\<le>) xs zs"
  by (rule list_all2_trans [of "(\<le>)" "(\<le>)" "(\<le>)"]) simp_all

lemma within_limits_mono:
  "within_limits b ys \<Longrightarrow> list_all2 (\<le>) xs ys \<Longrightarrow> within_limits b xs"
  unfolding within_limits_def limits_def list_all2_Cons1 by (fastforce simp: list_all2_Cons2)

lemma within_limits_zero: "within_limits b (amounts no_reservation)"
  by (simp add: within_limits_def limits_def amounts_def no_reservation_def)

lemma amounts_sub_le: "list_all2 (\<le>) (amounts (sub_reservation a r)) (amounts a)"
  by (simp add: amounts_sub) (simp add: amounts_def)

lemma charge_effect:
  "list_all2 (\<le>) (amounts (ac_reserved (charge c s a))) (amounts (ac_reserved a))"
  "ac_spent_micros a \<le> ac_spent_micros (charge c s a)" "ac_closed (charge c s a) = ac_closed a"
  by (simp_all add: charge_def Let_def amounts_def unat_saturating_sub word_le_nat_alt unat_saturating_add)
    (use unat_u64_less [of "ac_spent_micros a"] in simp)

text \<open>Every operation but a reservation only lowers what a task holds.\<close>

lemma other_ops_lower:
  assumes "\<And>b e. op \<noteq> OpReserve task b e"
  shows "list_all2 (\<le>) (amounts (reserved (run_budget_op op l) task)) (amounts (reserved l task)) \<and>
    spent_micros l task \<le> spent_micros (run_budget_op op l) task \<and>
    (ac_closed (account_of l task) \<longrightarrow> ac_closed (account_of (run_budget_op op l) task))"
proof (cases op)
  case (OpReserve t b e)
  then have "t \<noteq> task" using assms by blast
  with OpReserve show ?thesis by (simp add: reserve_def Let_def split: sum.split)
next
  case (OpReconcile now t b u m)
  show ?thesis
  proof (cases "bl_accounts l t")
    case None
    with OpReconcile show ?thesis by (simp add: reconcile_def)
  next
    case (Some a)
    obtain l' where l': "fst (reconcile now t b u m l) = l'" by blast
    have "l' = l \<or> (\<exists>c s. l' = put_account t (charge c s a) l)"
      using l' Some by (auto simp: reconcile_def Let_def split: option.splits if_splits)
    moreover have "reserved l t = ac_reserved a" "spent_micros l t = ac_spent_micros a" "account_of l t = a"
      using Some by (simp_all add: reserved_def spent_micros_def account_of_def)
    ultimately show ?thesis
      using OpReconcile l' charge_effect by (cases "t = task") auto
  qed
next
  case (OpRelease t r)
  then show ?thesis
    using amounts_sub_le by (auto simp: release_def reserved_def spent_micros_def account_of_def split: option.splits)
next
  case (OpClose t)
  then show ?thesis
    by (auto simp: close_account_def reserved_def spent_micros_def account_of_def split: option.splits)
qed

lemma reserve_within:
  assumes "mb_scope b = Task" "within_limits b (amounts (reserved l task))"
  shows "within_limits b (amounts (reserved (fst (reserve task b e l)) task))"
proof (cases "reserve task b e l")
  case (Pair l' res)
  show ?thesis
  proof (cases res)
    case (Inl err)
    with Pair assms(2) show ?thesis by (simp add: reserve_Inl)
  next
    case (Inr r)
    then have res: "reserve task b e l = (l', Inr r)" using Pair by simp
    then have "check_limits b (reserved l' task) = Inr ()"
      using reserve_Inr(1) [OF res] assms(1) by (auto simp: reserve_def Let_def account_fields split: if_splits sum.splits)
    with Pair show ?thesis by (simp add: check_limits_iff)
  qed
qed

lemma reserve_progress: "budget_progress task l (fst (reserve task b e l))"
proof (cases "reserve task b e l")
  case (Pair l' res)
  show ?thesis
  proof (cases res)
    case (Inl err)
    with Pair show ?thesis by (simp add: reserve_Inl budget_progress_def)
  next
    case (Inr r)
    then have res: "reserve task b e l = (l', Inr r)" using Pair by simp
    then have "\<not> ac_closed (account_of l task)" "spent_micros l' task = spent_micros l task"
      by (auto simp: reserve_def Let_def account_fields split: if_splits sum.splits)
    with Pair show ?thesis by (simp add: budget_progress_def)
  qed
qed

lemma budget_progress_refl: "budget_progress t l l"
  by (simp add: budget_progress_def)

lemma budget_progress_trans: "budget_progress t l m \<Longrightarrow> budget_progress t m n \<Longrightarrow> budget_progress t l n"
  unfolding budget_progress_def using amounts_le_trans by fastforce

interpretation budget_sys: step_system "budget_moves task b" "\<lambda>l. \<exists>prices. l = new_ledger prices"
  "\<lambda>l. mb_scope b = Task \<longrightarrow> within_limits b (amounts (reserved l task))" "budget_progress task" for task b
proof unfold_locales
  fix l l' assume "budget_moves task b l l'"
  then obtain op where l': "l' = run_budget_op op l" and op: "\<And>b' e. op = OpReserve task b' e \<Longrightarrow> b' = b"
    by (auto elim: budget_movesE)
  have both: "((mb_scope b = Task \<longrightarrow> within_limits b (amounts (reserved l task))) \<longrightarrow>
       (mb_scope b = Task \<longrightarrow> within_limits b (amounts (reserved l' task)))) \<and> budget_progress task l l'"
  proof (cases "\<exists>b' e. op = OpReserve task b' e")
    case True
    with op l' show ?thesis by (auto simp: reserve_within reserve_progress)
  next
    case False
    then have "list_all2 (\<le>) (amounts (reserved l' task)) (amounts (reserved l task)) \<and>
      spent_micros l task \<le> spent_micros l' task \<and>
      (ac_closed (account_of l task) \<longrightarrow> ac_closed (account_of l' task))"
      unfolding l' by (intro other_ops_lower) blast
    then show ?thesis by (auto simp: budget_progress_def intro: within_limits_mono)
  qed
  show "mb_scope b = Task \<longrightarrow> within_limits b (amounts (reserved l task)) \<Longrightarrow>
      mb_scope b = Task \<longrightarrow> within_limits b (amounts (reserved l' task))" using both by blast
  show "budget_progress task l l'" using both by blast
next
  show "mb_scope b = Task \<longrightarrow> within_limits b (amounts (reserved l task))" if "\<exists>prices. l = new_ledger prices" for l
    using that within_limits_zero by (auto simp: new_ledger_def reserved_def)
qed (auto intro: budget_progress_refl budget_progress_trans)

text \<open>C34: Along every run in which a task is reserved for under one task budget, whatever happens to
  other tasks, what the task holds stays within every limit of the budget. From any point on, the
  money recorded as spent never decreases, and once the account is closed it stays closed and what
  it holds never grows.\<close>

theorem budget_stays_within_limits:
  assumes "(budget_moves task b)\<^sup>*\<^sup>* (new_ledger prices) l" "(budget_moves task b)\<^sup>*\<^sup>* l l'" "mb_scope b = Task"
  shows "within_limits b (amounts (reserved l task)) \<and> spent_micros l task \<le> spent_micros l' task \<and>
    (ac_closed (account_of l task) \<longrightarrow> ac_closed (account_of l' task) \<and>
       list_all2 (\<le>) (amounts (reserved l' task)) (amounts (reserved l task)))"
proof -
  have inv: "mb_scope b = Task \<longrightarrow> within_limits b (amounts (reserved l task))"
    by (rule budget_sys.reachable_invariant [OF _ assms(1)]) blast
  moreover have "budget_progress task l l'" by (rule budget_sys.steps_progress [OF assms(2) inv])
  ultimately show ?thesis using assms(3) by (simp add: budget_progress_def)
qed

theorem budget_stays_within_limits_witness:
  "within_limits (example_budget Task)
     (amounts (reserved (run_budget_op (OpReserve id128_nil (example_budget Task) example_estimate) example_ledger) id128_nil))"
proof -
  let ?l = "run_budget_op (OpReserve id128_nil (example_budget Task) example_estimate) example_ledger"
  have run: "(budget_moves id128_nil (example_budget Task))\<^sup>*\<^sup>* (new_ledger \<lparr>pt_entries = [], pt_version = 1\<rparr>) ?l"
    unfolding example_ledger_def by (rule r_into_rtranclp, rule budget_moves.move) simp
  show ?thesis
    using budget_stays_within_limits [OF run rtranclp.rtrancl_refl] by (simp add: example_budget_def)
qed

section \<open>Prices\<close>

text \<open>Without overflow the price is rounded up, as its comment promises.\<close>

lemma price_tokens_ceiling:
  assumes "unat tokens * unat price + 999999 < 2 ^ 64"
  shows "unat (price_tokens tokens price) = (unat tokens * unat price + 999999) div 1000000"
proof -
  have "unat (tokens * price + 999999) = unat tokens * unat price + 999999"
    using assms by (simp add: unat_word_ariths)
  then show ?thesis
    by (cases "tokens = 0") (simp_all add: price_tokens_def unat_div)
qed

text \<open>With overflow it is rounded down, here to nothing.\<close>

lemma price_tokens_wraps: "price_tokens (2 ^ 32) (2 ^ 32) = 0"
  by (simp add: price_tokens_def)

end
