(* ===== verification/Text_Stream.thy ===== *)
theory Text_Stream
  imports Ieee_Double
begin

text \<open>
  Formatted input of \<open>std::istream\<close> and \<open>std::from_chars\<close>, as the readers of addresses, of old
  log records and of decimal fields use them. A stream is the text it has not delivered yet;
  \<open>None\<close> is a stream that failed.
\<close>

definition is_space_char :: "char \<Rightarrow> bool" where
  "is_space_char c \<longleftrightarrow> c = CHR '' '' \<or> (CHR 0x09 \<le> c \<and> c \<le> CHR 0x0D)"

text \<open>\<open>input >> unsigned\<close> for a type with \<open>values_of\<close> values: white space is skipped, a sign is accepted,
  a value out of range fails, and a negative value wraps around.\<close>

definition extract_unsigned :: "int \<Rightarrow> string \<Rightarrow> (int \<times> string) option" where
  "extract_unsigned values_of s =
     (let s = dropWhile is_space_char s;
          negative = (s \<noteq> [] \<and> hd s = CHR ''-'');
          s = (if s \<noteq> [] \<and> (hd s = CHR ''-'' \<or> hd s = CHR ''+'') then tl s else s);
          ds = takeWhile is_digit s;
          n = digits_value ds
      in if ds = [] \<or> n \<ge> values_of then None
         else Some (if negative then (values_of - n) mod values_of else n, dropWhile is_digit s))"

definition read_char :: "string \<Rightarrow> (char \<times> string) option" where
  "read_char s = (case dropWhile is_space_char s of [] \<Rightarrow> None | c # cs \<Rightarrow> Some (c, cs))"

text \<open>\<open>input >> text\<close>: the next word.\<close>

definition read_word :: "string \<Rightarrow> (string \<times> string) option" where
  "read_word s =
     (let s = dropWhile is_space_char s; word = takeWhile (\<lambda>c. \<not> is_space_char c) s
      in if word = [] then None else Some (word, dropWhile (\<lambda>c. \<not> is_space_char c) s))"

text \<open>\<open>input >> std::quoted(text)\<close>: a text in quotation marks with backslash escapes, or a word.\<close>

fun quoted_body :: "string \<Rightarrow> string \<Rightarrow> (string \<times> string) option" where
  "quoted_body out [] = None"
| "quoted_body out (c # cs) =
     (if c = CHR 0x5C then (case cs of [] \<Rightarrow> None | d # ds \<Rightarrow> quoted_body (out @ [d]) ds)
      else if c = CHR 0x22 then Some (out, cs)
      else quoted_body (out @ [c]) cs)"

definition read_quoted :: "string \<Rightarrow> (string \<times> string) option" where
  "read_quoted s = (case read_char s of None \<Rightarrow> None
     | Some (c, cs) \<Rightarrow> if c = CHR 0x22 then quoted_body [] cs else read_word (c # cs))"

text \<open>\<open>std::from_chars\<close> for \<open>std::uint64_t\<close> on a whole field.\<close>

definition parse_u64 :: "string \<Rightarrow> u64 option" where
  "parse_u64 s =
     (if s = [] \<or> \<not> list_all is_digit s \<or> digits_value s \<ge> 2 ^ 64 then None
      else Some (word_of_int (digits_value s)))"

text \<open>\<open>std::getline\<close>: the line, whether a line feed ended it, and the rest. A stream that
  breaks before the line ends delivers nothing.\<close>

fun split_line :: "string \<Rightarrow> (string \<times> string) option" where
  "split_line [] = None"
| "split_line (c # cs) = (if c = CHR 0x0A then Some ([], cs)
     else map_option (\<lambda>(line, rest). (c # line, rest)) (split_line cs))"

definition getline :: "bool \<Rightarrow> string \<Rightarrow> (string \<times> bool \<times> string) option" where
  "getline breaks s = (case split_line s of
      Some (line, rest) \<Rightarrow> Some (line, True, rest)
    | None \<Rightarrow> if s = [] \<or> breaks then None else Some (s, False, []))"

section \<open>What is read back\<close>

lemma parse_u64_show [simp]: "parse_u64 (show_int (uint n)) = Some n"
proof -
  have "uint n < 2 ^ 64" "0 \<le> uint n" using uint_lt2p [of n] by simp_all
  then show ?thesis using show_digits_spec [of "uint n"] by (simp add: parse_u64_def show_int_def)
qed

lemma split_line_append: "CHR 0x0A \<notin> set line \<Longrightarrow> split_line (line @ CHR 0x0A # rest) = Some (line, rest)"
  by (induction line) auto

lemma split_line_None: "split_line s = None \<longleftrightarrow> CHR 0x0A \<notin> set s"
  by (induction s) (auto split: option.splits)

lemma split_line_Some: "split_line s = Some (line, rest) \<Longrightarrow> s = line @ CHR 0x0A # rest \<and> CHR 0x0A \<notin> set line"
  by (induction s arbitrary: line) (auto split: if_splits)

lemma getline_length: "getline breaks s = Some (line, t, rest) \<Longrightarrow> length rest < length s"
  by (auto simp: getline_def split: option.splits if_splits dest!: split_line_Some)

lemma getline_Nil [simp]: "getline breaks [] = None"
  by (simp add: getline_def)

lemma getline_terminated: "CHR 0x0A \<notin> set line \<Longrightarrow> getline breaks (line @ CHR 0x0A # rest) = Some (line, True, rest)"
  by (simp add: getline_def split_line_append)

lemma getline_last: "CHR 0x0A \<notin> set line \<Longrightarrow> line \<noteq> [] \<Longrightarrow> getline False line = Some (line, False, [])"
  using split_line_None [of line] by (simp add: getline_def)

end
