(* ===== verification/Security.thy ===== *)
theory Security
  imports Runtime_Control Sha256 Text_Stream
begin

text \<open>
  The security decisions of \<open>src/security/security.cpp\<close>: the policy engine, the confirmation
  authority, the redactor, the endpoint filter and the injection scan. The clock and the random
  identifiers are arguments. \<open>path_within_root\<close> asks the file system and is not modelled.
\<close>

section \<open>Data\<close>

datatype Sensitivity = Public | Internal | Sensitive | Secret

datatype ActionRisk = R0ReadOnly | R1ReversibleLow | R2UserVisible | R3Sensitive | R4Critical

datatype ConfirmationDecision = Approve | Reject

record ProposedEffect =
  ef_action :: string
  ef_parameters :: string
  ef_risk :: ActionRisk
  ef_has_side_effect :: bool

record ResourceDescriptor =
  rd_type :: string
  rd_id :: string
  rd_scope :: string

record PolicyInput =
  pi_principal :: PrincipalContext
  pi_effect :: ProposedEffect
  pi_target :: ResourceDescriptor
  pi_sensitivity :: Sensitivity

datatype PolicyDecision =
    AllowDecision u64 string string
  | DenyDecision u64 string string
  | RequireConfirmationDecision u64 string string

definition security_error :: "ErrorCode \<Rightarrow> string \<Rightarrow> Error" where
  "security_error code message = error_default\<lparr>err_code := code, err_domain := ''mira.security'',
     err_safe_message := message\<rparr>"

definition risk_number :: "ActionRisk \<Rightarrow> int" where
  "risk_number r = (case r of R0ReadOnly \<Rightarrow> 0 | R1ReversibleLow \<Rightarrow> 1 | R2UserVisible \<Rightarrow> 2 | R3Sensitive \<Rightarrow> 3
     | R4Critical \<Rightarrow> 4)"

definition effect_canonical :: "ProposedEffect \<Rightarrow> ResourceDescriptor \<Rightarrow> string" where
  "effect_canonical e target = ef_action e @ ''|'' @ ef_parameters e @ ''|'' @ show_int (risk_number (ef_risk e)) @
     ''|'' @ rd_type target @ ''|'' @ rd_id target @ ''|'' @ rd_scope target"

section \<open>Policy engine\<close>

text \<open>The default time point, the epoch, means that a grant does not expire.\<close>

definition grant_covers :: "int \<Rightarrow> string \<Rightarrow> ResourceDescriptor \<Rightarrow> CapabilityGrant \<Rightarrow> bool" where
  "grant_covers now capability target g =
     (if cg_capability g \<noteq> capability \<or> (cg_expires_at g \<noteq> 0 \<and> cg_expires_at g \<le> now) then False
      else if rsel_type (cg_resources g) \<noteq> '''' \<and> rsel_type (cg_resources g) \<noteq> rd_type target then False
      else if rsel_scope (cg_resources g) \<noteq> '''' \<and> rsel_scope (cg_resources g) \<noteq> rd_scope target then False
      else rsel_pattern (cg_resources g) = '''' \<or> rsel_pattern (cg_resources g) = ''*'' \<or>
        rsel_pattern (cg_resources g) = rd_id target)"

definition has_capability :: "int \<Rightarrow> PrincipalContext \<Rightarrow> string \<Rightarrow> ResourceDescriptor \<Rightarrow> bool" where
  "has_capability now p capability target = list_ex (grant_covers now capability target) (pc_grants p)"

definition sensitive_or_more :: "Sensitivity \<Rightarrow> bool" where
  "sensitive_or_more s \<longleftrightarrow> s = Sensitive \<or> s = Secret"

definition evaluate :: "u64 \<Rightarrow> int \<Rightarrow> PolicyInput \<Rightarrow> PolicyDecision" where
  "evaluate version now i =
     (let e = pi_effect i in
      if \<not> has_capability now (pi_principal i) (ef_action e) (pi_target i)
      then DenyDecision version ''capability-missing'' ''required capability is not granted''
      else if ef_risk e = R4Critical
      then DenyDecision version ''critical-default-deny'' ''critical actions require explicit host policy''
      else if ef_risk e = R3Sensitive \<or> ef_risk e = R2UserVisible \<or> sensitive_or_more (pi_sensitivity i)
      then RequireConfirmationDecision version ''confirmation-required'' ''user confirmation is required''
      else if ef_has_side_effect e \<and> ef_action e = ''''
      then DenyDecision version ''invalid-action'' ''action capability is empty''
      else AllowDecision version ''grant'' ''capability and risk policy allow the effect'')"

section \<open>Confirmation authority\<close>

record ConfirmationChallenge =
  cc_id :: Id128
  cc_principal :: PrincipalContext
  cc_session_id :: SessionId
  cc_task_id :: TaskId
  cc_task_epoch :: u64
  cc_environment_epoch :: u64
  cc_action_digest :: Sha256Digest
  cc_target :: ResourceDescriptor
  cc_risk :: ActionRisk
  cc_expires_at :: int
  cc_nonce :: Id128
  cc_policy_version :: u64

record ConfirmationResponse =
  cr_challenge_id :: Id128
  cr_nonce :: Id128
  cr_user_id :: Id128
  cr_decision :: ConfirmationDecision
  cr_auth_evidence :: string

record ConfirmationState =
  cs_challenge :: ConfirmationChallenge
  cs_consumed :: bool

type_synonym ConfirmationAuthority = "ConfirmationState list"

definition nanos_per_second :: int where
  "nanos_per_second = 1000000000"

definition issue ::
    "int \<Rightarrow> Id128 \<Rightarrow> Id128 \<Rightarrow> PrincipalContext \<Rightarrow> SessionId \<Rightarrow> TaskId \<Rightarrow> u64 \<Rightarrow> u64 \<Rightarrow> ProposedEffect \<Rightarrow>
     ResourceDescriptor \<Rightarrow> u64 \<Rightarrow> int \<Rightarrow> ConfirmationAuthority \<Rightarrow> ConfirmationAuthority \<times> ConfirmationChallenge Result" where
  "issue now fresh_id fresh_nonce p session task task_epoch environment_epoch e target version lifetime states =
     (if is_nil (pc_user_id p) \<or> is_nil session \<or> is_nil task
      then (states, Inl (security_error ErrorCode.InvalidArgument ''confirmation identity and scope must be non-nil''))
      else (let c = \<lparr>cc_id = fresh_id, cc_principal = p, cc_session_id = session, cc_task_id = task,
              cc_task_epoch = task_epoch, cc_environment_epoch = environment_epoch,
              cc_action_digest = digest_string (effect_canonical e target), cc_target = target, cc_risk = ef_risk e,
              cc_expires_at = now + lifetime * nanos_per_second, cc_nonce = fresh_nonce, cc_policy_version = version\<rparr>
            in (states @ [\<lparr>cs_challenge = c, cs_consumed = False\<rparr>], Inr c)))"

text \<open>\<open>std::find_if\<close> over the vector: the position of the first state with the identifier.\<close>

fun find_state :: "Id128 \<Rightarrow> ConfirmationAuthority \<Rightarrow> nat option" where
  "find_state i [] = None"
| "find_state i (s # ss) = (if cc_id (cs_challenge s) = i then Some 0 else map_option Suc (find_state i ss))"

definition identity_mismatch :: "ConfirmationChallenge \<Rightarrow> ConfirmationChallenge \<Rightarrow> ConfirmationResponse \<Rightarrow> PrincipalContext \<Rightarrow> bool" where
  "identity_mismatch stored c r p \<longleftrightarrow> cr_challenge_id r \<noteq> cc_id stored \<or> cr_nonce r \<noteq> cc_nonce stored \<or>
     cr_user_id r \<noteq> pc_user_id p \<or> pc_user_id (cc_principal stored) \<noteq> pc_user_id p \<or>
     pc_tenant_id (cc_principal stored) \<noteq> pc_tenant_id p \<or> pc_host_id (cc_principal stored) \<noteq> pc_host_id p \<or>
     cc_session_id stored \<noteq> cc_session_id c \<or> cc_task_id stored \<noteq> cc_task_id c"

definition consume ::
    "int \<Rightarrow> ConfirmationChallenge \<Rightarrow> ConfirmationResponse \<Rightarrow> PrincipalContext \<Rightarrow> ProposedEffect \<Rightarrow> ResourceDescriptor \<Rightarrow>
     u64 \<Rightarrow> u64 \<Rightarrow> u64 \<Rightarrow> ConfirmationAuthority \<Rightarrow> ConfirmationAuthority \<times> unit Result" where
  "consume now c r p e target task_epoch environment_epoch version states = (case find_state (cc_id c) states of
      None \<Rightarrow> (states, Inl (security_error ErrorCode.NotFound ''confirmation challenge is unknown''))
    | Some n \<Rightarrow>
        (let stored = cs_challenge (states ! n) in
         if cs_consumed (states ! n)
         then (states, Inl (security_error ErrorCode.AlreadyExists ''confirmation challenge was already consumed''))
         else if identity_mismatch stored c r p
         then (states, Inl (security_error ErrorCode.PermissionDenied ''confirmation response identity or nonce mismatch''))
         else if cr_decision r \<noteq> Approve
         then (states, Inl (security_error ErrorCode.SafetyRejected ''confirmation rejected''))
         else if now \<ge> cc_expires_at stored
         then (states, Inl (security_error ErrorCode.DeadlineExceeded ''confirmation expired''))
         else if task_epoch \<noteq> cc_task_epoch stored \<or> environment_epoch \<noteq> cc_environment_epoch stored \<or>
             version \<noteq> cc_policy_version stored \<or> cc_action_digest stored \<noteq> digest_string (effect_canonical e target)
         then (states, Inl (security_error ErrorCode.SafetyRejected
           ''confirmation binding no longer matches the requested effect''))
         else (states[n := (states ! n)\<lparr>cs_consumed := True\<rparr>], Inr ())))"

definition is_consumed :: "Id128 \<Rightarrow> ConfirmationAuthority \<Rightarrow> bool" where
  "is_consumed i states = (case find_state i states of None \<Rightarrow> False | Some n \<Rightarrow> cs_consumed (states ! n))"

section \<open>Redaction and injection scan\<close>

record RedactionRecord =
  rdx_sensitivity :: Sensitivity
  rdx_original_size :: nat
  rdx_original_digest :: Sha256Digest
  rdx_redacted :: bool

definition redact :: "string \<Rightarrow> Sensitivity \<Rightarrow> string" where
  "redact v s =
     (if s = Public \<or> s = Internal then v
      else if v = '''' then ''<redacted>''
      else ''<redacted:'' @ show_int (int (length v)) @ ''>'')"

definition redaction_record :: "string \<Rightarrow> Sensitivity \<Rightarrow> RedactionRecord" where
  "redaction_record v s = \<lparr>rdx_sensitivity = s, rdx_original_size = length v, rdx_original_digest = digest_string v,
     rdx_redacted = (s = Sensitive \<or> s = Secret)\<rparr>"

definition injection_markers :: "string list" where
  "injection_markers = [''ignore previous instructions'', ''ignore all instructions'', ''system message'',
     ''developer message'', ''jailbreak'', ''override the system'', ''reveal the prompt'', ''exfiltrate'']"

definition contains_prompt_injection :: "string \<Rightarrow> bool" where
  "contains_prompt_injection v = list_ex (\<lambda>m. find_sub m (to_lower_ascii v)) injection_markers"

section \<open>Endpoint filter\<close>

text \<open>\<open>std::string_view::find\<close> with a string: the part before the first occurrence and the part after it.\<close>

fun split_at :: "string \<Rightarrow> string \<Rightarrow> (string \<times> string) option" where
  "split_at needle hay =
     (if take (length needle) hay = needle then Some ([], drop (length needle) hay)
      else case hay of [] \<Rightarrow> None
        | c # cs \<Rightarrow> map_option (\<lambda>(before, after). (c # before, after)) (split_at needle cs))"

definition read_unsigned_int :: "string \<Rightarrow> (int \<times> string) option" where
  "read_unsigned_int s = extract_unsigned 4294967296 s"

definition read_octet_dot :: "string \<Rightarrow> (int \<times> string) option" where
  "read_octet_dot s = (case read_unsigned_int s of None \<Rightarrow> None
     | Some (n, s) \<Rightarrow> (case read_char s of None \<Rightarrow> None
         | Some (c, s) \<Rightarrow> if c = CHR ''.'' then Some (n, s) else None))"

definition private_octets :: "int \<Rightarrow> int \<Rightarrow> bool" where
  "private_octets a b \<longleftrightarrow> a = 10 \<or> a = 127 \<or> (a = 169 \<and> b = 254) \<or> (a = 172 \<and> b \<ge> 16 \<and> b \<le> 31) \<or>
     (a = 192 \<and> b = 168) \<or> a = 0"

definition private_ipv4 :: "string \<Rightarrow> bool" where
  "private_ipv4 host = (case read_octet_dot host of None \<Rightarrow> False
     | Some (a, s) \<Rightarrow> (case read_octet_dot s of None \<Rightarrow> False
         | Some (b, s) \<Rightarrow> (case read_octet_dot s of None \<Rightarrow> False
             | Some (c, s) \<Rightarrow> (case read_unsigned_int s of None \<Rightarrow> False
                 | Some (d, s) \<Rightarrow> \<not> (a > 255 \<or> b > 255 \<or> c > 255 \<or> d > 255) \<and> private_octets a b))))"

record EndpointPolicy =
  ep_allowed_hosts :: "string list"
  ep_allow_private :: bool

definition endpoint_authority :: "string \<Rightarrow> string" where
  "endpoint_authority rest = takeWhile (\<lambda>c. c \<notin> set ''/?#'') rest"

text \<open>The host of an authority, or \<open>None\<close> where the filter gives up.\<close>

definition endpoint_host :: "string \<Rightarrow> string option" where
  "endpoint_host authority =
     (if authority = [] \<or> CHR ''@'' \<in> set authority then None
      else if hd authority = CHR ''['' then
        (case split_at '']'' authority of None \<Rightarrow> None
         | Some (before, after) \<Rightarrow>
             if after \<noteq> [] \<and> hd after \<noteq> CHR '':'' then None else Some (to_lower_ascii (tl before)))
      else (case split_at '':'' authority of
          None \<Rightarrow> Some (to_lower_ascii authority)
        | Some (host, port) \<Rightarrow>
            if host = [] \<or> port = [] \<or> \<not> list_all is_digit port then None else Some (to_lower_ascii host)))"

definition private_host :: "string \<Rightarrow> bool" where
  "private_host host \<longleftrightarrow> host = ''localhost'' \<or> host = ''::1'' \<or> private_ipv4 host \<or>
     host = ''metadata.google.internal'' \<or> host = ''169.254.169.254''"

definition host_rule_matches :: "string \<Rightarrow> string \<Rightarrow> bool" where
  "host_rule_matches host allowed =
     (let rule = to_lower_ascii allowed in
      if rule = host then True
      else if length rule > 2 \<and> take 2 rule = ''*.'' then
        (let suffix = drop 1 rule in length host > length suffix \<and> drop (length host - length suffix) host = suffix)
      else False)"

definition endpoint_allowed :: "string \<Rightarrow> EndpointPolicy \<Rightarrow> bool" where
  "endpoint_allowed url p = (case split_at ''://'' url of None \<Rightarrow> False
     | Some (scheme, rest) \<Rightarrow>
         if to_lower_ascii scheme \<noteq> ''https'' \<and> to_lower_ascii scheme \<noteq> ''http'' then False
         else (case endpoint_host (endpoint_authority rest) of None \<Rightarrow> False
           | Some host \<Rightarrow>
               if \<not> ep_allow_private p \<and> private_host host then False
               else list_ex (host_rule_matches host) (ep_allowed_hosts p)))"

end
