(* ===== verification/Security_Properties.thy ===== *)
theory Security_Properties
  imports Security
begin

text \<open>
  Properties of the security decisions: a confirmation is used once and only for what was asked,
  and what an allowed endpoint looks like.
\<close>

declare split_at.simps [simp del]

section \<open>Runs of the confirmation authority\<close>

datatype ConfirmationOp =
    OpIssue int Id128 Id128 PrincipalContext SessionId TaskId u64 u64 ProposedEffect ResourceDescriptor u64 int
  | OpConsume int ConfirmationChallenge ConfirmationResponse PrincipalContext ProposedEffect ResourceDescriptor u64 u64 u64

fun run_confirmation_op :: "ConfirmationOp \<Rightarrow> ConfirmationAuthority \<Rightarrow> ConfirmationAuthority" where
  "run_confirmation_op (OpIssue now i n p s t te ee e d v l) states = fst (issue now i n p s t te ee e d v l states)"
| "run_confirmation_op (OpConsume now c r p e d te ee v) states = fst (consume now c r p e d te ee v states)"

inductive confirmation_moves :: "ConfirmationAuthority \<Rightarrow> ConfirmationAuthority \<Rightarrow> bool" where
  move: "confirmation_moves states (run_confirmation_op op states)"

inductive_cases confirmation_movesE: "confirmation_moves s t"

lemma find_state_Some:
  "find_state i ss = Some n \<Longrightarrow> n < length ss \<and> cc_id (cs_challenge (ss ! n)) = i"
  by (induction ss arbitrary: n) (auto split: if_splits)

lemma find_state_challenges:
  "map cs_challenge ss = map cs_challenge ts \<Longrightarrow> find_state i ss = find_state i ts"
proof (induction ss arbitrary: ts)
  case (Cons s ss)
  then show ?case by (cases ts) auto
qed simp

lemma find_state_append: "find_state i ss = Some n \<Longrightarrow> find_state i (ss @ ts) = Some n"
  by (induction ss arbitrary: n) (auto split: if_splits)

text \<open>Challenges are only appended, and a used one stays used.\<close>

definition confirmation_progress :: "ConfirmationAuthority \<Rightarrow> ConfirmationAuthority \<Rightarrow> bool" where
  "confirmation_progress s t \<longleftrightarrow> (\<exists>cs. map cs_challenge t = map cs_challenge s @ cs) \<and>
     (\<forall>n<length s. cs_consumed (s ! n) \<longrightarrow> cs_consumed (t ! n))"

lemma progress_length: "confirmation_progress s t \<Longrightarrow> length s \<le> length t"
  unfolding confirmation_progress_def by (metis le_add1 length_append length_map)

lemma confirmation_progress_trans:
  assumes "confirmation_progress s t" "confirmation_progress t u"
  shows "confirmation_progress s u"
  using assms progress_length [OF assms(1)] by (auto simp: confirmation_progress_def)

lemma consume_shape:
  "fst (consume now c r p e d te ee v states) = states \<or> (\<exists>n. find_state (cc_id c) states = Some n \<and>
     fst (consume now c r p e d te ee v states) = states[n := (states ! n)\<lparr>cs_consumed := True\<rparr>])"
  by (simp add: consume_def Let_def split: option.split)

lemma mark_progress:
  assumes "n < length states"
  shows "confirmation_progress states (states[n := (states ! n)\<lparr>cs_consumed := True\<rparr>])"
proof -
  have "map cs_challenge (states[n := (states ! n)\<lparr>cs_consumed := True\<rparr>]) = map cs_challenge states"
    using assms by (simp add: map_update list_update_same_conv)
  then show ?thesis using assms by (simp add: confirmation_progress_def nth_list_update)
qed

lemma confirmation_progress_refl [simp]: "confirmation_progress s s"
  by (simp add: confirmation_progress_def)

lemma confirmation_progress_op: "confirmation_progress states (run_confirmation_op op states)"
proof (cases op)
  case (OpIssue now i n p s t te ee e d v l)
  then show ?thesis by (auto simp: issue_def confirmation_progress_def nth_append Let_def)
next
  case (OpConsume now c r p e d te ee v)
  then show ?thesis
    using consume_shape [of now c r p e d te ee v states] find_state_Some [of "cc_id c" states]
    by (auto simp: mark_progress)
qed

interpretation confirmation_sys: step_system confirmation_moves "\<lambda>s. s = []" "\<lambda>_. True" confirmation_progress
  by unfold_locales (auto elim!: confirmation_movesE simp: confirmation_progress_op
    intro: confirmation_progress_trans)

lemma progress_consumed:
  assumes "confirmation_progress s t" "is_consumed i s"
  shows "is_consumed i t"
proof -
  obtain n where n: "find_state i s = Some n" "cs_consumed (s ! n)"
    using assms(2) by (auto simp: is_consumed_def split: option.splits)
  obtain cs where cs: "map cs_challenge t = map cs_challenge s @ cs"
    using assms(1) by (auto simp: confirmation_progress_def)
  have "find_state i t = Some n"
  proof -
    have "map cs_challenge (take (length s) t) = map cs_challenge s"
      using cs by (metis append_eq_conv_conj length_map take_map)
    then have "find_state i (take (length s) t) = Some n"
      using n(1) find_state_challenges by metis
    then show ?thesis using find_state_append [of i "take (length s) t" n "drop (length s) t"] by simp
  qed
  moreover have "cs_consumed (t ! n)"
    using assms(1) n find_state_Some [OF n(1)] by (simp add: confirmation_progress_def)
  ultimately show ?thesis by (simp add: is_consumed_def)
qed

lemma confirmation_run: "confirmation_moves\<^sup>*\<^sup>* s (fold run_confirmation_op ops s)"
proof (induction ops arbitrary: s)
  case (Cons op ops)
  then show ?case by (auto intro: converse_rtranclp_into_rtranclp confirmation_moves.move)
qed simp

text \<open>What an accepted response has passed.\<close>

lemma consume_accepted:
  assumes "consume now c r p e d te ee v states = (states', Inr ())"
  obtains n where "find_state (cc_id c) states = Some n" "\<not> cs_consumed (states ! n)"
    "\<not> identity_mismatch (cs_challenge (states ! n)) c r p" "cr_decision r = Approve"
    "now < cc_expires_at (cs_challenge (states ! n))" "te = cc_task_epoch (cs_challenge (states ! n))"
    "ee = cc_environment_epoch (cs_challenge (states ! n))" "v = cc_policy_version (cs_challenge (states ! n))"
    "cc_action_digest (cs_challenge (states ! n)) = digest_string (effect_canonical e d)"
    "states' = states[n := (states ! n)\<lparr>cs_consumed := True\<rparr>]"
  using assms by (auto simp: consume_def Let_def split: option.splits if_splits)

lemma consume_marks:
  assumes "consume now c r p e d te ee v states = (states', Inr ())"
  shows "is_consumed (cc_id c) states'"
proof (rule consume_accepted [OF assms])
  fix n assume n: "find_state (cc_id c) states = Some n" "states' = states[n := (states ! n)\<lparr>cs_consumed := True\<rparr>]"
  have len: "n < length states" using find_state_Some [OF n(1)] by simp
  have "map cs_challenge states' = map cs_challenge states"
    using len n(2) by (simp add: map_update list_update_same_conv)
  then show ?thesis
    using n len find_state_challenges [of states' states "cc_id c"] by (simp add: is_consumed_def)
qed

lemma consume_refuses: "is_consumed (cc_id c) states \<Longrightarrow> consume now c r p e d te ee v states =
    (states, Inl (security_error ErrorCode.AlreadyExists ''confirmation challenge was already consumed''))"
  by (auto simp: is_consumed_def consume_def Let_def split: option.splits)

text \<open>The example: one challenge for an effect, and the response that approves it.\<close>

definition user_one :: Id128 where
  "user_one = Id128 (replicate 15 0 @ [1])"

definition example_principal :: PrincipalContext where
  "example_principal = \<lparr>pc_tenant_id = user_one, pc_user_id = user_one, pc_host_id = user_one,
     pc_auth_strength = Strong, pc_authenticated_at = 0, pc_grants = [], pc_identity_version = 0\<rparr>"

definition example_effect :: ProposedEffect where
  "example_effect = \<lparr>ef_action = ''send'', ef_parameters = ''text'', ef_risk = R3Sensitive, ef_has_side_effect = True\<rparr>"

definition example_target :: ResourceDescriptor where
  "example_target = \<lparr>rd_type = ''chat'', rd_id = ''7'', rd_scope = ''home''\<rparr>"

definition example_issue :: "ConfirmationAuthority \<times> ConfirmationChallenge Result" where
  "example_issue = issue 0 user_one user_one example_principal user_one user_one 1 1 example_effect example_target 1 60 []"

definition example_challenge :: ConfirmationChallenge where
  "example_challenge = (case snd example_issue of Inr c \<Rightarrow> c | Inl _ \<Rightarrow> undefined)"

definition example_response :: ConfirmationResponse where
  "example_response = \<lparr>cr_challenge_id = user_one, cr_nonce = user_one, cr_user_id = user_one, cr_decision = Approve,
     cr_auth_evidence = ''''\<rparr>"

lemmas example_confirmation_defs = user_one_def example_principal_def example_effect_def example_target_def
  example_issue_def example_challenge_def example_response_def issue_def is_nil_def

lemma example_consumed:
  "\<exists>s. consume 1 example_challenge example_response example_principal example_effect example_target 1 1 1
     (fst example_issue) = (s, Inr ())"
  by (simp add: example_confirmation_defs consume_def identity_mismatch_def Let_def nanos_per_second_def
    numeral_eq_Suc)

text \<open>C33: A confirmation works once. After a response was accepted for a challenge, the challenge is
  used in every later state, whatever is issued or consumed in between, and every further response
  to it is refused and changes nothing.\<close>

theorem confirmation_single_use:
  assumes "consume now c r p e d te ee v states = (states', Inr ())" "confirmation_moves\<^sup>*\<^sup>* states' later"
    "cc_id c' = cc_id c"
  shows "is_consumed (cc_id c) later \<and> consume now' c' r' p' e' d' te' ee' v' later =
    (later, Inl (security_error ErrorCode.AlreadyExists ''confirmation challenge was already consumed''))"
proof -
  have "confirmation_progress states' later"
    by (rule confirmation_sys.steps_progress [OF assms(2)]) simp
  then have "is_consumed (cc_id c) later"
    using consume_marks [OF assms(1)] by (rule progress_consumed)
  then show ?thesis using consume_refuses [of c' later] assms(3) by simp
qed

theorem confirmation_single_use_witness:
  "\<exists>s. consume 1 example_challenge example_response example_principal example_effect example_target 1 1 1
      (fst example_issue) = (s, Inr ()) \<and> is_consumed (cc_id example_challenge) s \<and>
    snd (consume 1 example_challenge example_response example_principal example_effect example_target 1 1 1 s) =
      Inl (security_error ErrorCode.AlreadyExists ''confirmation challenge was already consumed'')"
proof -
  obtain s where s: "consume 1 example_challenge example_response example_principal example_effect example_target 1 1 1
      (fst example_issue) = (s, Inr ())" using example_consumed by blast
  show ?thesis
    using s confirmation_single_use [OF s rtranclp.rtrancl_refl refl] by (metis snd_conv)
qed

section \<open>Where an accepted confirmation comes from\<close>

definition issued :: "ConfirmationOp \<Rightarrow> ConfirmationChallenge option" where
  "issued op = (case op of
      OpIssue now i n p s t te ee e d v l \<Rightarrow>
        (case snd (issue now i n p s t te ee e d v l []) of Inr c \<Rightarrow> Some c | Inl _ \<Rightarrow> None)
    | OpConsume now c r p e d te ee v \<Rightarrow> None)"

lemma challenges_op:
  "map cs_challenge (run_confirmation_op op states) = map cs_challenge states @ (case issued op of None \<Rightarrow> [] | Some c \<Rightarrow> [c])"
proof (cases op)
  case (OpIssue now i n p s t te ee e d v l)
  then show ?thesis by (simp add: issued_def issue_def Let_def)
next
  case (OpConsume now c r p e d te ee v)
  then show ?thesis
    using consume_shape [of now c r p e d te ee v states] find_state_Some [of "cc_id c" states]
    by (auto simp: issued_def map_update list_update_same_conv)
qed

lemma challenges_run:
  "map cs_challenge (fold run_confirmation_op ops states) = map cs_challenge states @ List.map_filter issued ops"
  by (induction ops arbitrary: states) (simp_all add: challenges_op map_filter_simps split: option.split)

lemma issued_Some:
  assumes "issued op = Some c"
  obtains now p e l where "op = OpIssue now (cc_id c) (cc_nonce c) p (cc_session_id c) (cc_task_id c) (cc_task_epoch c)
      (cc_environment_epoch c) e (cc_target c) (cc_policy_version c) l" "cc_principal c = p"
    "cc_action_digest c = digest_string (effect_canonical e (cc_target c))" "cc_expires_at c = now + l * nanos_per_second"
    "\<not> is_nil (pc_user_id p)"
  using assms by (auto simp: issued_def issue_def Let_def split: ConfirmationOp.splits if_splits)

text \<open>An accepted response goes back to a challenge that was issued: to the same user, tenant and host,
  for the same session, task, epochs and policy version, with the nonce that the response returns,
  not yet expired, and for an effect whose canonical text has the same digest; and the user, who is
  not nil, approved it.\<close>

theorem accepted_confirmation_was_issued:
  assumes "consume now c r p e d te ee v (fold run_confirmation_op ops []) = (states', Inr ())"
  shows "\<exists>now0 p0 e0 d0 l. OpIssue now0 (cc_id c) (cr_nonce r) p0 (cc_session_id c) (cc_task_id c) te ee e0 d0 v l \<in> set ops \<and>
    digest_string (effect_canonical e d) = digest_string (effect_canonical e0 d0) \<and> now < now0 + l * nanos_per_second \<and>
    pc_user_id p0 = pc_user_id p \<and> pc_tenant_id p0 = pc_tenant_id p \<and> pc_host_id p0 = pc_host_id p \<and>
    \<not> is_nil (pc_user_id p) \<and> cr_user_id r = pc_user_id p \<and> cr_challenge_id r = cc_id c \<and> cr_decision r = Approve"
proof (rule consume_accepted [OF assms])
  let ?states = "fold run_confirmation_op ops []"
  fix n assume n: "find_state (cc_id c) ?states = Some n"
    "\<not> identity_mismatch (cs_challenge (?states ! n)) c r p" "cr_decision r = Approve"
    "now < cc_expires_at (cs_challenge (?states ! n))" "te = cc_task_epoch (cs_challenge (?states ! n))"
    "ee = cc_environment_epoch (cs_challenge (?states ! n))" "v = cc_policy_version (cs_challenge (?states ! n))"
    "cc_action_digest (cs_challenge (?states ! n)) = digest_string (effect_canonical e d)"
  let ?c = "cs_challenge (?states ! n)"
  have "?c \<in> set (map cs_challenge ?states)" using find_state_Some [OF n(1)] by simp
  then obtain op where op: "op \<in> set ops" "issued op = Some ?c"
    unfolding challenges_run by (auto simp: List.map_filter_def)
  have id: "cc_id ?c = cc_id c" using find_state_Some [OF n(1)] by simp
  have eqs: "cr_challenge_id r = cc_id ?c" "cr_nonce r = cc_nonce ?c" "cr_user_id r = pc_user_id p"
    "pc_user_id (cc_principal ?c) = pc_user_id p" "pc_tenant_id (cc_principal ?c) = pc_tenant_id p"
    "pc_host_id (cc_principal ?c) = pc_host_id p" "cc_session_id ?c = cc_session_id c" "cc_task_id ?c = cc_task_id c"
    using n(2) by (auto simp: identity_mismatch_def)
  show ?thesis
  proof (rule issued_Some [OF op(2)])
    fix now0 p0 e0 l
    assume src: "op = OpIssue now0 (cc_id ?c) (cc_nonce ?c) p0 (cc_session_id ?c) (cc_task_id ?c) (cc_task_epoch ?c)
        (cc_environment_epoch ?c) e0 (cc_target ?c) (cc_policy_version ?c) l" "cc_principal ?c = p0"
      "cc_action_digest ?c = digest_string (effect_canonical e0 (cc_target ?c))"
      "cc_expires_at ?c = now0 + l * nanos_per_second" "\<not> is_nil (pc_user_id p0)"
    have "OpIssue now0 (cc_id c) (cr_nonce r) p0 (cc_session_id c) (cc_task_id c) te ee e0 (cc_target ?c) v l \<in> set ops"
      using op(1) src(1) id eqs n(5,6,7) by simp
    moreover have "digest_string (effect_canonical e d) = digest_string (effect_canonical e0 (cc_target ?c))"
      using src(3) n(8) by simp
    moreover have "now < now0 + l * nanos_per_second" using src(4) n(4) by simp
    ultimately show ?thesis using src(2,5) eqs id n(3) by metis
  qed
qed

theorem accepted_confirmation_was_issued_witness:
  "\<exists>s now0 l. consume 1 example_challenge example_response example_principal example_effect example_target 1 1 1
      (fold run_confirmation_op [OpIssue 0 user_one user_one example_principal user_one user_one 1 1 example_effect
        example_target 1 60] []) = (s, Inr ()) \<and> 1 < now0 + l * nanos_per_second"
proof -
  have run: "fold run_confirmation_op [OpIssue 0 user_one user_one example_principal user_one user_one 1 1 example_effect
      example_target 1 60] [] = fst example_issue" by (simp add: example_issue_def)
  obtain s where s: "consume 1 example_challenge example_response example_principal example_effect example_target 1 1 1
      (fold run_confirmation_op [OpIssue 0 user_one user_one example_principal user_one user_one 1 1 example_effect
        example_target 1 60] []) = (s, Inr ())"
    using example_consumed unfolding run by blast
  show ?thesis using s accepted_confirmation_was_issued [OF s] by blast
qed

lemma consume_canonical:
  assumes "effect_canonical e d = effect_canonical e' d'"
  shows "consume now c r p e d te ee v states = consume now c r p e' d' te ee v states"
  unfolding consume_def assms ..

text \<open>The binding is textual. The canonical text joins its parts with a bar and does not escape bars
  inside them, so a confirmation for one effect is accepted exactly as it is for another effect
  whose action and parameters, or whose target, divide the same text elsewhere.\<close>

theorem confirmation_text_ambiguous:
  "consume now c r p (e\<lparr>ef_action := a @ ''|'' @ b, ef_parameters := x\<rparr>) d te ee v states =
     consume now c r p (e\<lparr>ef_action := a, ef_parameters := b @ ''|'' @ x\<rparr>) d te ee v states \<and>
   consume now c r p e (d\<lparr>rd_type := a @ ''|'' @ b, rd_id := x\<rparr>) te ee v states =
     consume now c r p e (d\<lparr>rd_type := a, rd_id := b @ ''|'' @ x\<rparr>) te ee v states"
  by (intro conjI consume_canonical) (simp_all add: effect_canonical_def)

section \<open>Endpoints\<close>

lemma split_at_Some: "split_at needle hay = Some (before, after) \<Longrightarrow> hay = before @ needle @ after"
proof (induction hay arbitrary: before)
  case Nil
  then show ?case by (simp add: split_at.simps [of needle "[]"] split: if_splits)
next
  case (Cons c cs)
  then show ?case
    by (auto simp: split_at.simps [of needle "c # cs"] split: if_splits) (metis append_take_drop_id)
qed

lemma suffix_split: "length ending < length host \<and> drop (length host - length ending) host = ending \<longleftrightarrow>
    (\<exists>label. label \<noteq> [] \<and> host = label @ ending)"
proof
  assume *: "length ending < length host \<and> drop (length host - length ending) host = ending"
  then have "host = take (length host - length ending) host @ ending" by (metis append_take_drop_id)
  moreover have "take (length host - length ending) host \<noteq> []" using * by auto
  ultimately show "\<exists>label. label \<noteq> [] \<and> host = label @ ending" by blast
qed auto

lemma host_rule_iff:
  "host_rule_matches host rule \<longleftrightarrow> to_lower_ascii rule = host \<or>
     (\<exists>label domain. label \<noteq> [] \<and> domain \<noteq> [] \<and> to_lower_ascii rule = ''*.'' @ domain \<and> host = label @ ''.'' @ domain)"
proof -
  let ?r = "to_lower_ascii rule"
  have wild: "length ?r > 2 \<and> take 2 ?r = ''*.'' \<longleftrightarrow> (\<exists>domain. domain \<noteq> [] \<and> ?r = ''*.'' @ domain)"
  proof
    assume *: "length ?r > 2 \<and> take 2 ?r = ''*.''"
    then have "?r = ''*.'' @ drop 2 ?r" "drop 2 ?r \<noteq> []" by (metis append_take_drop_id, simp)
    then show "\<exists>domain. domain \<noteq> [] \<and> ?r = ''*.'' @ domain" by blast
  next
    assume "\<exists>domain. domain \<noteq> [] \<and> ?r = ''*.'' @ domain"
    then obtain domain where "domain \<noteq> []" "?r = ''*.'' @ domain" by blast
    then show "length ?r > 2 \<and> take 2 ?r = ''*.''" by (cases domain) simp_all
  qed
  show ?thesis
  proof (cases "\<exists>domain. domain \<noteq> [] \<and> ?r = ''*.'' @ domain")
    case True
    then obtain domain where d: "domain \<noteq> []" "?r = ''*.'' @ domain" by blast
    then have "host_rule_matches host rule \<longleftrightarrow> ?r = host \<or> (\<exists>label. label \<noteq> [] \<and> host = label @ ''.'' @ domain)"
      using wild suffix_split [of "''.'' @ domain" host] by (simp add: host_rule_matches_def Let_def)
    with d show ?thesis by auto
  next
    case False
    then have "host_rule_matches host rule \<longleftrightarrow> ?r = host"
      using wild by (auto simp: host_rule_matches_def Let_def)
    with False show ?thesis by auto
  qed
qed

text \<open>Addresses in dotted decimal notation are read back.\<close>

definition dotted :: "int \<Rightarrow> int \<Rightarrow> int \<Rightarrow> int \<Rightarrow> string" where
  "dotted a b c d = show_digits a @ ''.'' @ show_digits b @ ''.'' @ show_digits c @ ''.'' @ show_digits d"

lemma digit_not_space: "is_digit c \<Longrightarrow> \<not> is_space_char c \<and> c \<noteq> CHR ''-'' \<and> c \<noteq> CHR ''+''"
proof -
  have "\<forall>c. is_digit c \<longrightarrow> \<not> is_space_char c \<and> c \<noteq> CHR ''-'' \<and> c \<noteq> CHR ''+''" by code_simp
  then show "is_digit c \<Longrightarrow> ?thesis" by blast
qed

lemma read_shown:
  assumes "0 \<le> n" "n \<le> 255" "rest = [] \<or> \<not> is_digit (hd rest)"
  shows "read_unsigned_int (show_digits n @ rest) = Some (n, rest)"
proof -
  obtain c cs where ds: "show_digits n = c # cs" using show_digits_spec [OF assms(1)] by (cases "show_digits n") auto
  have digits: "digits_value (show_digits n) = n" "\<forall>x\<in>set (show_digits n). is_digit x"
    using show_digits_spec [OF assms(1)] by (simp_all add: list_all_iff)
  have c: "\<not> is_space_char c" "c \<noteq> CHR ''-''" "c \<noteq> CHR ''+''" using digits(2) ds digit_not_space by auto
  have "takeWhile is_digit (show_digits n @ rest) = show_digits n" "dropWhile is_digit (show_digits n @ rest) = rest"
    using digits(2) assms(3) by (cases rest; simp)+
  then show ?thesis
    using c digits(1) assms(2) ds by (simp add: read_unsigned_int_def extract_unsigned_def Let_def)
qed

lemma read_shown_dot:
  "0 \<le> n \<Longrightarrow> n \<le> 255 \<Longrightarrow> read_octet_dot (show_digits n @ CHR ''.'' # rest) = Some (n, rest)"
  using read_shown [of n "CHR ''.'' # rest"]
  by (simp add: read_octet_dot_def read_char_def is_digit_def is_space_char_def)

lemma private_dotted:
  assumes "{a, b, c, d} \<subseteq> {0..255}"
  shows "private_ipv4 (dotted a b c d) \<longleftrightarrow> private_octets a b"
  using assms read_shown [of d "[]"] by (simp add: private_ipv4_def dotted_def read_shown_dot)

text \<open>C35: An endpoint that is allowed is an HTTP or HTTPS address without user information whose host,
  compared without case, is an allowed host or a proper subdomain of a wildcard rule. Unless private
  hosts are allowed, the host is not \<open>localhost\<close>, not \<open>::1\<close>, not \<open>metadata.google.internal\<close> and not an
  address in four decimal octets that begins with 0, 10, 127, 169.254, 172.16 to 172.31 or 192.168. Other
  notations of private addresses are not recognized: they pass when the allowed hosts list them.\<close>

theorem endpoint_allowed_sound:
  assumes "endpoint_allowed url policy"
  shows "\<exists>scheme rest host rule. url = scheme @ ''://'' @ rest \<and> to_lower_ascii scheme \<in> {''http'', ''https''} \<and>
    CHR ''@'' \<notin> set (endpoint_authority rest) \<and> endpoint_host (endpoint_authority rest) = Some host \<and>
    rule \<in> set (ep_allowed_hosts policy) \<and> (to_lower_ascii rule = host \<or>
      (\<exists>label domain. label \<noteq> [] \<and> domain \<noteq> [] \<and> to_lower_ascii rule = ''*.'' @ domain \<and> host = label @ ''.'' @ domain)) \<and>
    (\<not> ep_allow_private policy \<longrightarrow> host \<noteq> ''localhost'' \<and> host \<noteq> ''::1'' \<and> host \<noteq> ''metadata.google.internal'' \<and>
      (\<forall>a b c d. {a, b, c, d} \<subseteq> {0..255} \<and> private_octets a b \<longrightarrow> host \<noteq> dotted a b c d))"
proof -
  obtain scheme rest where split: "split_at ''://'' url = Some (scheme, rest)"
    using assms by (auto simp: endpoint_allowed_def split: option.splits)
  obtain host where host: "endpoint_host (endpoint_authority rest) = Some host"
    using assms split by (auto simp: endpoint_allowed_def split: option.splits if_splits)
  have parts: "to_lower_ascii scheme \<in> {''http'', ''https''}" "ep_allow_private policy \<or> \<not> private_host host"
    "\<exists>rule\<in>set (ep_allowed_hosts policy). host_rule_matches host rule"
    using assms split host by (auto simp: endpoint_allowed_def list_ex_iff split: if_splits)
  have "CHR ''@'' \<notin> set (endpoint_authority rest)"
    using host by (auto simp: endpoint_host_def split: if_splits)
  moreover have "\<not> private_host host \<Longrightarrow> host \<noteq> ''localhost'' \<and> host \<noteq> ''::1'' \<and> host \<noteq> ''metadata.google.internal'' \<and>
      (\<forall>a b c d. {a, b, c, d} \<subseteq> {0..255} \<and> private_octets a b \<longrightarrow> host \<noteq> dotted a b c d)"
    using private_dotted unfolding private_host_def by blast
  ultimately show ?thesis
    using parts host split_at_Some [OF split] unfolding host_rule_iff by blast
qed

theorem endpoint_allowed_sound_witness:
  "endpoint_allowed ''https://Api.example.com:443/v1'' \<lparr>ep_allowed_hosts = [''*.example.com''], ep_allow_private = False\<rparr> \<and>
   (\<exists>rest. ''https://Api.example.com:443/v1'' = ''https'' @ ''://'' @ rest \<and> CHR ''@'' \<notin> set (endpoint_authority rest))"
proof -
  have ok: "endpoint_allowed ''https://Api.example.com:443/v1'' \<lparr>ep_allowed_hosts = [''*.example.com''], ep_allow_private = False\<rparr>"
    by code_simp
  from endpoint_allowed_sound [OF ok] obtain scheme rest where sr:
    "''https://Api.example.com:443/v1'' = scheme @ ''://'' @ rest" "to_lower_ascii scheme \<in> {''http'', ''https''}"
    "CHR ''@'' \<notin> set (endpoint_authority rest)" by blast
  have "length scheme = 4 \<or> length scheme = 5"
    using sr(2) to_lower_ascii_simps(4) [of scheme] by (elim insertE) (simp_all del: to_lower_ascii_simps(4))
  then have "scheme = ''https''" using sr(1) by (auto simp: length_Suc_conv numeral_eq_Suc)
  with sr ok show ?thesis by blast
qed

text \<open>Unrecognized notations of a private and of a loopback address.\<close>

lemma private_notations_pass:
  "endpoint_allowed ''https://[fd00::1]/'' \<lparr>ep_allowed_hosts = [''fd00::1''], ep_allow_private = False\<rparr>"
  "endpoint_allowed ''http://127.1/'' \<lparr>ep_allowed_hosts = [''127.1''], ep_allow_private = False\<rparr>"
  by code_simp+

end
