(* ===== verification/File_Store.thy ===== *)
theory File_Store
  imports Event_Store Json Text_Stream
begin

text \<open>
  The durable event store: the log records of \<open>src/storage/event_log_wire.hpp\<close> and the class
  \<open>FileEventStore\<close> of \<open>src/storage/event_store.cpp\<close>, an in-memory store behind an append-only
  text file. The file is its content; what the operating system answers is an argument, down
  to the number of bytes of a write that reached the file before it failed.
\<close>

section \<open>Log records\<close>

definition log_header :: string where
  "log_header = ''MIRA_EVENT_LOG 2''"

definition log_records :: string where
  "log_records = ''MIRA_EVENT_RECORDS''"

record LogRecord =
  lr_request :: AppendRequest
  lr_sequence :: u64
  lr_task_sequence :: "u64 option"
  lr_request_digest :: Sha256Digest
  lr_timestamp :: Timestamp
  lr_v2 :: bool

definition wire_failure :: "ErrorCode \<Rightarrow> string \<Rightarrow> Error" where
  "wire_failure code message = error_default\<lparr>err_code := code, err_domain := ''mira.event_store'',
     err_safe_message := message\<rparr>"

abbreviation wire_fail :: "ErrorCode \<Rightarrow> string \<Rightarrow> 'a Result" where
  "wire_fail code message \<equiv> Inl (wire_failure code message)"

definition record_fields :: "LogRecord \<Rightarrow> JsonObject" where
  "record_fields r =
     (let q = lr_request r in
      [(''schema'', JString ''mira.file-event.v2''),
       (''event_id'', JString (id128_to_string (ar_event_id q))),
       (''runtime_id'', JString (id128_to_string (ar_runtime_id q))),
       (''session_id'', JString (id128_to_string (ar_session_id q))),
       (''task_id'', (case ar_task_id q of Some t \<Rightarrow> JString (id128_to_string t) | None \<Rightarrow> JNull)),
       (''session_sequence'', JString (show_int (uint (lr_sequence r)))),
       (''task_sequence'', (case lr_task_sequence r of Some n \<Rightarrow> JString (show_int (uint n)) | None \<Rightarrow> JNull)),
       (''cause'', JString (show_int (uint (ar_cause q)))),
       (''classification'', JInteger (event_class_number (pl_classification (ar_payload q)))),
       (''type'', JString (pl_type (ar_payload q))),
       (''data'', JString (pl_data (ar_payload q))),
       (''wall_ns'', JInteger (ts_wall (lr_timestamp r))),
       (''integrity'', JString (digest_to_string (lr_request_digest r)))])"

definition record_digest :: "LogRecord \<Rightarrow> Sha256Digest" where
  "record_digest r = digest_string (canonical_json_string (JObject (record_fields r)))"

definition encode_record :: "LogRecord \<Rightarrow> string" where
  "encode_record r = ''E2 '' @ canonical_json_string
     (json_set ''record_digest'' (JString (digest_to_string (record_digest r))) (JObject (record_fields r)))"

definition record_keys :: "string list" where
  "record_keys = [''schema'', ''event_id'', ''runtime_id'', ''session_id'', ''task_id'', ''session_sequence'',
     ''task_sequence'', ''cause'', ''classification'', ''type'', ''data'', ''wall_ns'', ''integrity'', ''record_digest'']"

definition text_keys :: "string list" where
  "text_keys = [''event_id'', ''runtime_id'', ''session_id'', ''type'', ''data'', ''integrity'', ''record_digest'']"

definition member_text :: "JsonValue \<Rightarrow> string \<Rightarrow> string option" where
  "member_text j key = (case json_find j key of Some (JString s) \<Rightarrow> Some s | _ \<Rightarrow> None)"

definition member_integer :: "JsonValue \<Rightarrow> string \<Rightarrow> int option" where
  "member_integer j key = (case json_find j key of Some (JInteger i) \<Rightarrow> Some i | _ \<Rightarrow> None)"

definition wire_number :: "JsonValue \<Rightarrow> string \<Rightarrow> u64 option" where
  "wire_number j key = Option.bind (member_text j key) parse_u64"

text \<open>\<open>T::parse(text)\<close> that is not nil.\<close>

definition wire_id :: "string \<Rightarrow> Id128 option" where
  "wire_id s = (case id128_parse s of Some i \<Rightarrow> if is_nil i then None else Some i | None \<Rightarrow> None)"

definition class_of_number :: "int \<Rightarrow> EventClass" where
  "class_of_number n = (if n = 0 then Critical else if n = 1 then State else Diagnostic)"

text \<open>The task identifier and its sequence: both or neither.\<close>

definition decode_task :: "JsonValue \<Rightarrow> (TaskId \<times> u64) option Result" where
  "decode_task j =
     (case json_find j ''task_id'' of
        Some JNull \<Rightarrow> (if json_find j ''task_sequence'' \<noteq> Some JNull
          then wire_fail ErrorCode.DataLoss ''event log task sequence has no task'' else Inr None)
      | Some (JString s) \<Rightarrow>
          (case (wire_id s, wire_number j ''task_sequence'') of
             (Some t, Some n) \<Rightarrow> (if n = 0
               then wire_fail ErrorCode.DataLoss ''event log task sequence is invalid'' else Inr (Some (t, n)))
           | _ \<Rightarrow> wire_fail ErrorCode.DataLoss ''event log task sequence is invalid'')
      | _ \<Rightarrow> wire_fail ErrorCode.DataLoss ''event log task identity is invalid'')"

definition decode_fields :: "JsonValue \<Rightarrow> LogRecord Result" where
  "decode_fields j =
     (case (Option.bind (member_text j ''event_id'') wire_id, Option.bind (member_text j ''runtime_id'') wire_id,
            Option.bind (member_text j ''session_id'') wire_id, Option.bind (member_text j ''integrity'') digest_from_hex,
            Option.bind (member_text j ''record_digest'') digest_from_hex,
            member_integer j ''classification'', member_integer j ''wall_ns'') of
        (Some event, Some runtime, Some session, Some digest, Some written_digest, Some classification, Some wall) \<Rightarrow>
          if classification < 0 \<or> classification > 2
          then wire_fail ErrorCode.DataLoss ''event log classification is invalid''
          else (case (wire_number j ''session_sequence'', wire_number j ''cause'') of
            (Some sequence, Some cause) \<Rightarrow>
              if sequence = 0 then wire_fail ErrorCode.DataLoss ''event log sequence or cause is invalid''
              else res_bind (decode_task j) (\<lambda>task.
                let r = \<lparr>lr_request = \<lparr>ar_event_id = event, ar_runtime_id = runtime, ar_session_id = session,
                       ar_task_id = map_option fst task,
                       ar_payload = \<lparr>pl_type = the (member_text j ''type''), pl_data = the (member_text j ''data''),
                         pl_classification = class_of_number classification\<rparr>,
                       ar_cause = cause, ar_required = ProcessCrash\<rparr>,
                     lr_sequence = sequence, lr_task_sequence = map_option snd task, lr_request_digest = digest,
                     lr_timestamp = timestamp_default\<lparr>ts_wall := wall\<rparr>, lr_v2 = True\<rparr>
                in if record_digest r \<noteq> written_digest
                   then wire_fail ErrorCode.DataLoss ''event record metadata digest mismatch'' else Inr r)
          | _ \<Rightarrow> wire_fail ErrorCode.DataLoss ''event log sequence or cause is invalid'')
      | _ \<Rightarrow> wire_fail ErrorCode.DataLoss ''event log identity or time is invalid'')"

definition record_limits :: "string \<Rightarrow> JsonLimits" where
  "record_limits line = json_limits_default\<lparr>max_document_bytes := length line, max_string_bytes := length line\<rparr>"

definition decode_v2 :: "string \<Rightarrow> LogRecord Result" where
  "decode_v2 line =
     (if \<not> prefix ''E2 '' line then
        (if prefix line ''E2 '' then wire_fail ErrorCode.InvalidArgument ''event log record prefix is incomplete''
         else if prefix ''E'' line \<or> (line \<noteq> [] \<and> CHR ''0'' \<le> hd line \<and> hd line \<le> CHR ''9'')
         then wire_fail ErrorCode.UnsupportedVersion ''event log record version is unsupported''
         else wire_fail ErrorCode.InvalidArgument ''event log record is incomplete'')
      else case parse_json (record_limits line) (drop 3 line) of
        Inl _ \<Rightarrow> wire_fail ErrorCode.InvalidArgument ''event log JSON is incomplete''
      | Inr j \<Rightarrow>
          (case as_object j of
             None \<Rightarrow> wire_fail ErrorCode.DataLoss ''event log JSON must be an object''
           | Some members \<Rightarrow>
               if member_text j ''schema'' \<noteq> Some ''mira.file-event.v2''
               then wire_fail ErrorCode.UnsupportedVersion ''event log schema is unsupported''
               else if length members \<noteq> length record_keys \<or> list_ex (\<lambda>key. json_find j key = None) record_keys
               then wire_fail ErrorCode.UnsupportedVersion ''event log field set is unsupported''
               else if list_ex (\<lambda>key. member_text j key = None) text_keys
               then wire_fail ErrorCode.DataLoss ''event log member type is invalid''
               else decode_fields j))"

text \<open>The words of a record of the first format: the numbers, the five identifiers, the quoted
  texts and what follows them.\<close>

definition legacy_head :: "string \<Rightarrow> ((int \<times> string \<times> string \<times> string \<times> string \<times> int \<times> int \<times> string \<times> string) \<times> string) option" where
  "legacy_head line =
     Option.bind (extract_unsigned (2 ^ 64) line) (\<lambda>(sequence, s).
     Option.bind (read_word s) (\<lambda>(event_text, s).
     Option.bind (read_word s) (\<lambda>(runtime_text, s).
     Option.bind (read_word s) (\<lambda>(session_text, s).
     Option.bind (read_word s) (\<lambda>(task_text, s).
     Option.bind (extract_unsigned (2 ^ 64) s) (\<lambda>(cause, s).
     Option.bind (extract_unsigned (2 ^ 32) s) (\<lambda>(classification, s).
     Option.bind (read_quoted s) (\<lambda>(type, s).
     Option.bind (read_quoted s) (\<lambda>(data, s).
       Some ((sequence, event_text, runtime_text, session_text, task_text, cause, classification, type, data), s))))))))))"

definition decode_legacy :: "string \<Rightarrow> LogRecord Result" where
  "decode_legacy line =
     (case legacy_head line of
        None \<Rightarrow> wire_fail ErrorCode.InvalidArgument ''legacy event record is incomplete''
      | Some ((sequence, event_text, runtime_text, session_text, task_text, cause, classification, type, data), s) \<Rightarrow>
          (case (wire_id event_text, wire_id runtime_text, wire_id session_text) of
             (Some event, Some runtime, Some session) \<Rightarrow>
               if classification > 2
               then wire_fail ErrorCode.DataLoss ''legacy event identity or classification is invalid''
               else if task_text \<noteq> ''-'' \<and> wire_id task_text = None
               then wire_fail ErrorCode.DataLoss ''legacy event task identity is invalid''
               else (case read_word s of
                   None \<Rightarrow> wire_fail ErrorCode.DataLoss ''legacy event digest is missing''
                 | Some (integrity, s) \<Rightarrow>
                     (case digest_from_hex integrity of
                        None \<Rightarrow> wire_fail ErrorCode.DataLoss ''legacy event digest is invalid''
                      | Some digest \<Rightarrow>
                          if read_word s \<noteq> None
                          then wire_fail ErrorCode.DataLoss ''legacy event contains trailing fields''
                          else Inr \<lparr>lr_request = \<lparr>ar_event_id = event, ar_runtime_id = runtime,
                                   ar_session_id = session,
                                   ar_task_id = (if task_text = ''-'' then None else wire_id task_text),
                                   ar_payload = \<lparr>pl_type = type, pl_data = data,
                                     pl_classification = class_of_number classification\<rparr>,
                                   ar_cause = word_of_int cause, ar_required = ProcessCrash\<rparr>,
                                 lr_sequence = word_of_int sequence, lr_task_sequence = None,
                                 lr_request_digest = digest, lr_timestamp = timestamp_default, lr_v2 = False\<rparr>))
           | _ \<Rightarrow> wire_fail ErrorCode.DataLoss ''legacy event identity or classification is invalid''))"

section \<open>The store\<close>

record FileEventStore =
  fs_log :: "string option"
  fs_memory :: MemoryEventStore
  fs_loaded :: bool
  fs_v2 :: bool
  fs_needs_separator :: bool
  fs_read_only :: bool
  fs_recovery_status :: RecoveryStatus
  fs_recovery_diagnostic :: string
  fs_next_session :: "(SessionId, u64) umap"
  fs_next_task :: "(TaskId, u64) umap"
  fs_integrity_by_id :: "(EventId, Sha256Digest) umap"

text \<open>A store object on a directory whose log has the given content (\<open>None\<close>: no log yet).\<close>

definition open_file_store :: "nat \<Rightarrow> string option \<Rightarrow> FileEventStore" where
  "open_file_store max_events content = \<lparr>fs_log = content, fs_memory = new_store max_events, fs_loaded = False,
     fs_v2 = False, fs_needs_separator = False, fs_read_only = False, fs_recovery_status = Clean,
     fs_recovery_diagnostic = '''', fs_next_session = [], fs_next_task = [], fs_integrity_by_id = []\<rparr>"

text \<open>The answers of the file system to a recovery: whether the log opens, after how many bytes
  reading breaks, and whether its size and its truncation succeed.\<close>

record FileAnswers =
  fa_open :: bool
  fa_breaks :: "nat option"
  fa_size :: bool
  fa_resize :: bool

definition file_works :: FileAnswers where
  "file_works = \<lparr>fa_open = True, fa_breaks = None, fa_size = True, fa_resize = True\<rparr>"

text \<open>The answer to an append: all bytes are written, the log does not open, or the write fails
  after some bytes.\<close>

datatype WriteAnswer = Written | OpenFailed | WriteFailed nat

definition file_durability :: "Durability \<Rightarrow> unit Result" where
  "file_durability v =
     (if \<not> valid_durability v
      then Inl (store_error ErrorCode.InvalidArgument ''event durability is invalid'' False)
      else if v = PowerLoss
      then Inl (store_error ErrorCode.UnsupportedCapability ''file store does not support power-loss durability'' False)
      else Inr ())"

text \<open>\<open>counters[key] + 1\<close> and \<open>counters[key] = n\<close>.\<close>

definition number_after :: "'k \<Rightarrow> ('k, u64) umap \<Rightarrow> u64" where
  "number_after k m = (case map_of m k of None \<Rightarrow> 0 | Some n \<Rightarrow> n) + 1"

definition put_number :: "'k \<Rightarrow> u64 \<Rightarrow> ('k, u64) umap \<Rightarrow> ('k, u64) umap" where
  "put_number k n m = umap_modify k (\<lambda>_. n) (umap_emplace k 0 m)"

definition task_number :: "AppendRequest \<Rightarrow> FileEventStore \<Rightarrow> u64 option" where
  "task_number r s = map_option (\<lambda>t. number_after t (fs_next_task s)) (ar_task_id r)"

text \<open>The index update after a record reached the file, in recovery as in an append.\<close>

definition index_event :: "AppendRequest \<Rightarrow> u64 \<Rightarrow> u64 option \<Rightarrow> Sha256Digest \<Rightarrow> FileEventStore \<Rightarrow> FileEventStore" where
  "index_event r session_sequence task_sequence digest s =
     s\<lparr>fs_next_session := put_number (ar_session_id r) session_sequence (fs_next_session s),
       fs_next_task := (case (ar_task_id r, task_sequence) of
           (Some t, Some n) \<Rightarrow> put_number t n (fs_next_task s) | _ \<Rightarrow> fs_next_task s),
       fs_integrity_by_id := umap_emplace (ar_event_id r) digest (fs_integrity_by_id s)\<rparr>"

subsection \<open>Recovery\<close>

definition file_stop :: "RecoveryStatus \<Rightarrow> string \<Rightarrow> nat \<Rightarrow> nat \<Rightarrow> FileEventStore \<Rightarrow> FileEventStore \<times> StoreRecoveryReport" where
  "file_stop status message bytes recovered s =
     (s\<lparr>fs_loaded := True, fs_read_only := (status = RecoveryDataLoss \<or> status = ReadOnlyDiagnostic),
        fs_recovery_status := status, fs_recovery_diagnostic := message\<rparr>,
      \<lparr>rr_status = status, rr_events_recovered = recovered, rr_bytes_discarded = bytes, rr_diagnostic = message\<rparr>)"

definition file_malformed ::
    "FileAnswers \<Rightarrow> bool \<Rightarrow> bool \<Rightarrow> nat \<Rightarrow> nat \<Rightarrow> FileEventStore \<Rightarrow> FileEventStore \<times> StoreRecoveryReport" where
  "file_malformed answers repair has_more last_good recovered s =
     (let content = (case fs_log s of None \<Rightarrow> '''' | Some c \<Rightarrow> c) in
      if has_more \<or> \<not> repair
      then file_stop ReadOnlyDiagnostic ''event log contains an incomplete record'' 0 recovered s
      else if \<not> fa_size answers \<or> length content < last_good
      then file_stop ReadOnlyDiagnostic ''event log size could not be determined'' 0 recovered s
      else if \<not> fa_resize answers
      then file_stop ReadOnlyDiagnostic ''event log tail could not be truncated'' 0 recovered s
      else file_stop TailTruncated ''incomplete event log tail truncated'' (length content - last_good) recovered
        (s\<lparr>fs_log := Some (take last_good content), fs_needs_separator := False\<rparr>))"

text \<open>One decoded record: the checks against the counters and its digest, and the index.\<close>

definition recover_record :: "LogRecord \<Rightarrow> FileEventStore \<Rightarrow> FileEventStore \<times> string option" where
  "recover_record r s =
     (let q = lr_request r;
          expected_task = task_number q s
      in if lr_sequence r \<noteq> number_after (ar_session_id q) (fs_next_session s) \<or>
            (lr_v2 r \<and> lr_task_sequence r \<noteq> expected_task)
         then (s, Some ''event log contains a sequence gap'')
         else if lr_request_digest r \<noteq> digest_string (canonical_request q)
         then (s, Some ''event request integrity digest mismatch'')
         else (case append_stamped (fs_memory s) q (lr_timestamp r)
                 (if lr_v2 r then PersistedWall else UnavailableLegacy) of
             (memory, Inl _) \<Rightarrow> (s\<lparr>fs_memory := memory\<rparr>, Some ''event recovery index could not be reconstructed'')
           | (memory, Inr receipt) \<Rightarrow>
               if rc_session_sequence receipt \<noteq> lr_sequence r \<or> rc_task_sequence receipt \<noteq> expected_task
               then (s\<lparr>fs_memory := memory\<rparr>, Some ''event recovery index could not be reconstructed'')
               else (index_event q (lr_sequence r) expected_task (lr_request_digest r) (s\<lparr>fs_memory := memory\<rparr>), None)))"

definition strip_return :: "string \<Rightarrow> string" where
  "strip_return line = (if line \<noteq> [] \<and> last line = CHR 0x0D then butlast line else line)"

text \<open>What a line of the log means for the loop: go on with a new state, stop with a report, or
  read the line after it.\<close>

datatype line_effect = GoOn FileEventStore | Halt "FileEventStore \<times> StoreRecoveryReport" | Marker

definition recover_line ::
    "FileAnswers \<Rightarrow> bool \<Rightarrow> string \<Rightarrow> bool \<Rightarrow> string \<Rightarrow> nat \<Rightarrow> nat \<Rightarrow> FileEventStore \<Rightarrow> line_effect" where
  "recover_line answers repair line terminated rest last_good recovered s =
     (if prefix ''MIRA_EVENT_'' line then
        (if \<not> fs_v2 s \<and> line \<noteq> log_header \<and> prefix line log_header
         then Halt (file_malformed answers repair (rest \<noteq> []) last_good recovered s)
         else if line \<noteq> log_header
         then Halt (file_stop ReadOnlyDiagnostic ''event log version is unsupported'' 0 recovered s)
         else if fs_v2 s
         then Halt (file_stop RecoveryDataLoss ''event log repeats a format transition'' 0 recovered s)
         else Marker)
      else if \<not> fs_v2 s \<and> prefix ''E'' line
      then Halt (file_stop ReadOnlyDiagnostic ''event log record has no version marker'' 0 recovered s)
      else (case (if fs_v2 s then decode_v2 line else decode_legacy line) of
          Inl e \<Rightarrow>
            if err_code e = ErrorCode.InvalidArgument
            then Halt (file_malformed answers repair ((fs_v2 s \<and> terminated) \<or> rest \<noteq> []) last_good recovered s)
            else Halt (file_stop (if err_code e = ErrorCode.UnsupportedVersion then ReadOnlyDiagnostic
              else RecoveryDataLoss) (err_safe_message e) 0 recovered s)
        | Inr r \<Rightarrow>
            (case recover_record r s of
               (s, Some message) \<Rightarrow> Halt (file_stop RecoveryDataLoss message 0 recovered s)
             | (s, None) \<Rightarrow> GoOn (s\<lparr>fs_needs_separator := \<not> terminated\<rparr>))))"

definition line_bytes :: "string \<Rightarrow> bool \<Rightarrow> nat" where
  "line_bytes line terminated = length line + (if terminated then 1 else 0)"

text \<open>The loop over the lines. \<open>offset\<close> counts the bytes read, \<open>last_good\<close> those of complete records.\<close>

function recover_loop ::
    "FileAnswers \<Rightarrow> bool \<Rightarrow> bool \<Rightarrow> string \<Rightarrow> nat \<Rightarrow> nat \<Rightarrow> nat \<Rightarrow> FileEventStore \<Rightarrow>
     FileEventStore \<times> StoreRecoveryReport" where
  "recover_loop answers repair breaks text offset last_good recovered s =
     (case getline breaks text of
        None \<Rightarrow> if breaks then file_stop ReadOnlyDiagnostic ''event log read failed'' 0 recovered s
          else file_stop Clean ''event log recovered'' 0 recovered s
      | Some (raw, terminated, rest) \<Rightarrow>
          let offset = offset + line_bytes raw terminated; line = strip_return raw in
          if line = [] then recover_loop answers repair breaks rest offset offset recovered
            (s\<lparr>fs_needs_separator := \<not> terminated\<rparr>)
          else (case recover_line answers repair line terminated rest last_good recovered s of
              Halt result \<Rightarrow> result
            | GoOn s \<Rightarrow> recover_loop answers repair breaks rest offset offset (Suc recovered) s
            | Marker \<Rightarrow>
                (case getline breaks rest of
                   None \<Rightarrow> file_malformed answers repair False last_good recovered s
                 | Some (raw, marker_terminated, rest) \<Rightarrow>
                     let offset = offset + line_bytes raw marker_terminated; marker = strip_return raw in
                     if marker \<noteq> log_records then
                       (if prefix marker log_records
                        then file_malformed answers repair (marker_terminated \<or> rest \<noteq> []) last_good recovered s
                        else file_stop ReadOnlyDiagnostic ''event log format marker is invalid'' 0 recovered s)
                     else recover_loop answers repair breaks rest offset offset recovered
                       (s\<lparr>fs_v2 := True, fs_needs_separator := \<not> marker_terminated\<rparr>))))"
  by pat_completeness auto
termination
  by (relation "measure (\<lambda>(answers, repair, breaks, text, offset, last_good, recovered, s). length text)")
    (auto dest!: getline_length)

declare recover_loop.simps [simp del]

definition file_recover :: "FileAnswers \<Rightarrow> bool \<Rightarrow> FileEventStore \<Rightarrow> FileEventStore \<times> StoreRecoveryReport" where
  "file_recover answers repair s =
     (if fs_loaded s then
        (s, \<lparr>rr_status = fs_recovery_status s, rr_events_recovered = length (es_events (fs_memory s)),
             rr_bytes_discarded = 0, rr_diagnostic = fs_recovery_diagnostic s\<rparr>)
      else case (if fa_open answers then fs_log s else None) of
        None \<Rightarrow> (s\<lparr>fs_loaded := True, fs_recovery_diagnostic := ''new event store''\<rparr>,
          \<lparr>rr_status = Clean, rr_events_recovered = 0, rr_bytes_discarded = 0, rr_diagnostic = ''new event store''\<rparr>)
      | Some content \<Rightarrow>
          recover_loop answers repair (fa_breaks answers \<noteq> None)
            (case fa_breaks answers of None \<Rightarrow> content | Some n \<Rightarrow> take n content) 0 0 0 s)"

subsection \<open>Append, read and flush\<close>

definition read_only_error :: Error where
  "read_only_error = store_error ErrorCode.DataLoss ''event store is read-only after recovery'' False"

definition unusable :: "RecoveryStatus \<Rightarrow> bool" where
  "unusable status \<longleftrightarrow> status = ReadOnlyDiagnostic \<or> status = RecoveryDataLoss"

text \<open>The guard before an operation: a read-only store is refused, a store that is not loaded
  recovers first.\<close>

definition ensure_loaded :: "FileAnswers \<Rightarrow> FileEventStore \<Rightarrow> FileEventStore \<times> unit Result" where
  "ensure_loaded answers s =
     (if fs_loaded s then (s, if fs_read_only s then Inl read_only_error else Inr ())
      else let (s, report) = file_recover answers True s
           in (s, if unusable (rr_status report) then Inl read_only_error else Inr ()))"

definition append_output :: "LogRecord \<Rightarrow> FileEventStore \<Rightarrow> string" where
  "append_output r s = (if fs_needs_separator s then [CHR 0x0A] else []) @
     (if \<not> fs_v2 s then log_header @ [CHR 0x0A] @ log_records @ [CHR 0x0A] else []) @ encode_record r @ [CHR 0x0A]"

definition append_bytes :: "string \<Rightarrow> FileEventStore \<Rightarrow> FileEventStore" where
  "append_bytes bytes s = s\<lparr>fs_log := Some ((case fs_log s of None \<Rightarrow> '''' | Some c \<Rightarrow> c) @ bytes)\<rparr>"

definition set_read_only :: "RecoveryStatus \<Rightarrow> string \<Rightarrow> FileEventStore \<Rightarrow> FileEventStore" where
  "set_read_only status message s =
     s\<lparr>fs_read_only := True, fs_recovery_status := status, fs_recovery_diagnostic := message\<rparr>"

definition append_known_event :: "AppendRequest \<Rightarrow> Sha256Digest \<Rightarrow> Sha256Digest \<Rightarrow> FileEventStore \<Rightarrow> AppendReceipt Result" where
  "append_known_event r stored requested s =
     (if stored \<noteq> requested
      then Inl (store_error ErrorCode.DataLoss ''duplicate event ID has a different payload'' False)
      else case store_find (fs_memory s) (ar_event_id r) of
        None \<Rightarrow> Inl (store_error ErrorCode.DataLoss ''event index is inconsistent'' False)
      | Some e \<Rightarrow>
          if \<not> same_request e r
          then Inl (store_error ErrorCode.DataLoss ''duplicate event ID has different request fields'' False)
          else Inr \<lparr>rc_event_id = ev_event_id e, rc_session_sequence = ev_session_sequence e,
                 rc_task_sequence = ev_task_sequence e, rc_durable_watermark = 0, rc_achieved = ProcessCrash\<rparr>)"

definition append_written ::
    "AppendRequest \<Rightarrow> LogRecord \<Rightarrow> FileEventStore \<Rightarrow> FileEventStore \<times> AppendReceipt Result" where
  "append_written r rec s =
     (case append_stamped (fs_memory s) r (lr_timestamp rec) AppendProcess of
        (memory, result) \<Rightarrow>
          let s = s\<lparr>fs_memory := memory\<rparr>;
              failed = (set_read_only RecoveryDataLoss ''event index update failed after durable append'' s,
                Inl (store_error ErrorCode.DataLoss ''event index update failed after durable append'' False))
          in case result of
               Inl _ \<Rightarrow> failed
             | Inr receipt \<Rightarrow>
                 if rc_session_sequence receipt \<noteq> lr_sequence rec \<or> rc_task_sequence receipt \<noteq> lr_task_sequence rec
                 then failed
                 else (index_event r (lr_sequence rec) (lr_task_sequence rec) (lr_request_digest rec) s,
                       Inr (receipt\<lparr>rc_achieved := ProcessCrash\<rparr>)))"

definition append_fresh_event ::
    "WriteAnswer \<Rightarrow> Timestamp \<Rightarrow> AppendRequest \<Rightarrow> FileEventStore \<Rightarrow> FileEventStore \<times> AppendReceipt Result" where
  "append_fresh_event answer now r s =
     (let rec = \<lparr>lr_request = r, lr_sequence = number_after (ar_session_id r) (fs_next_session s),
            lr_task_sequence = task_number r s, lr_request_digest = digest_string (canonical_request r),
            lr_timestamp = now, lr_v2 = True\<rparr>;
          bytes = append_output rec s
      in case answer of
           OpenFailed \<Rightarrow> (s, Inl (store_error ErrorCode.Unavailable ''event log cannot be opened'' True))
         | WriteFailed n \<Rightarrow>
             (set_read_only ReadOnlyDiagnostic ''event write failed; reopen for recovery'' (append_bytes (take n bytes) s),
              Inl (store_error ErrorCode.Unavailable ''event log write failed'' True))
         | Written \<Rightarrow>
             append_written r rec ((append_bytes bytes s)\<lparr>fs_v2 := True, fs_needs_separator := False\<rparr>))"

text \<open>Every class of the enumeration is a named one, so that an append never fails on it.\<close>

lemma parse_event_class_number [simp]: "parse_event_class (word_of_int (event_class_number c)) = Inr c"
  by (cases c) (simp_all add: parse_event_class_def event_class_number_def)

definition file_append ::
    "FileAnswers \<Rightarrow> WriteAnswer \<Rightarrow> Timestamp \<Rightarrow> AppendRequest \<Rightarrow> FileEventStore \<Rightarrow> FileEventStore \<times> AppendReceipt Result" where
  "file_append answers answer now r s =
     (case file_durability (ar_required r) of
        Inl e \<Rightarrow> (s, Inl e)
      | Inr _ \<Rightarrow>
          (case ensure_loaded answers s of
             (s, Inl e) \<Rightarrow> (s, Inl e)
           | (s, Inr _) \<Rightarrow>
               if fs_read_only s then (s, Inl read_only_error)
               else if is_nil (ar_event_id r) \<or> is_nil (ar_runtime_id r) \<or> is_nil (ar_session_id r)
               then (s, Inl (store_error ErrorCode.InvalidArgument
                      ''event, runtime, and session IDs must be non-nil'' False))
               else if (case ar_task_id r of None \<Rightarrow> False | Some t \<Rightarrow> is_nil t) \<or>
                 isl (parse_event_class (word_of_int (event_class_number (pl_classification (ar_payload r)))))
               then (s, Inl (store_error ErrorCode.InvalidArgument ''event task or classification is invalid'' False))
               else (case map_of (fs_integrity_by_id s) (ar_event_id r) of
                   Some stored \<Rightarrow> (s, append_known_event r stored (digest_string (canonical_request r)) s)
                 | None \<Rightarrow> append_fresh_event answer now r s)))"

text \<open>A batch stops at the first error and keeps what it appended before.\<close>

fun file_append_batch ::
    "FileEventStore \<Rightarrow> (FileAnswers \<times> WriteAnswer \<times> Timestamp \<times> AppendRequest) list \<Rightarrow>
     FileEventStore \<times> AppendReceipt list Result" where
  "file_append_batch s [] = (s, Inr [])"
| "file_append_batch s ((answers, answer, now, r) # rest) =
     (case file_append answers answer now r s of
        (s, Inl e) \<Rightarrow> (s, Inl e)
      | (s, Inr receipt) \<Rightarrow>
          (case file_append_batch s rest of
             (s, Inl e) \<Rightarrow> (s, Inl e)
           | (s, Inr receipts) \<Rightarrow> (s, Inr (receipt # receipts))))"

definition file_read :: "FileAnswers \<Rightarrow> EventQuery \<Rightarrow> FileEventStore \<Rightarrow> FileEventStore \<times> EventPage Result" where
  "file_read answers q s =
     (case ensure_loaded answers s of
        (s, Inl e) \<Rightarrow> (s, Inl e)
      | (s, Inr _) \<Rightarrow> (s, store_read (fs_memory s) q))"

definition file_flush :: "FileAnswers \<Rightarrow> bool \<Rightarrow> bool \<Rightarrow> Durability \<Rightarrow> FileEventStore \<Rightarrow> FileEventStore \<times> unit Result" where
  "file_flush answers opens flushes required s =
     (case file_durability required of
        Inl e \<Rightarrow> (s, Inl e)
      | Inr _ \<Rightarrow>
          let s = fst (file_recover answers True s) in
          if fs_read_only s then (s, Inl read_only_error)
          else if \<not> opens then (s, Inl (store_error ErrorCode.Unavailable ''event log cannot be opened'' True))
          else (append_bytes [] s, if flushes then Inr ()
                else Inl (store_error ErrorCode.Unavailable ''event log flush failed'' True)))"

definition reopen :: "FileEventStore \<Rightarrow> FileEventStore" where
  "reopen s = open_file_store (es_max_events (fs_memory s)) (fs_log s)"

end
