(* ===== verification/Json_Prefix.thy ===== *)
theory Json_Prefix
  imports Json_Properties
begin

text \<open>
  More input after what a parser consumed changes nothing, and neither do a larger budget or a
  larger limit of strings. So no text that the parser accepts as an object has a strict prefix
  that it accepts as well: a document that was cut off is always noticed.
\<close>

section \<open>Strings\<close>

lemma parse_hex4_more: "parse_hex4 n v cs = Got x rest \<Longrightarrow> parse_hex4 n v (cs @ xs) = Got x (rest @ xs)"
  by (induction n v cs rule: parse_hex4.induct) (auto split: option.splits)

lemma parse_unicode_escape_more:
  assumes "parse_unicode_escape cs = Got x rest"
  shows "parse_unicode_escape (cs @ xs) = Got x (rest @ xs)"
proof -
  from assms obtain high r where h: "parse_hex4 4 0 cs = Got high r"
    by (auto simp: parse_unicode_escape_def result_simps)
  show ?thesis
  proof (cases "0xD800 \<le> high \<and> high \<le> 0xDBFF")
    case True
    then obtain low r2 where l: "take 2 r = [CHR 0x5C, CHR ''u'']" "parse_hex4 4 0 (drop 2 r) = Got low r2"
      using assms h by (auto simp: parse_unicode_escape_def result_simps split: if_splits)
    then have "take 2 (r @ xs) = [CHR 0x5C, CHR ''u'']" "drop 2 (r @ xs) = drop 2 r @ xs"
      using l(1) by (cases r rule: list.exhaust; cases "tl r"; auto)+
    then show ?thesis
      using assms True l parse_hex4_more [OF h, of xs] parse_hex4_more [OF l(2), of xs] h
      by (auto simp: parse_unicode_escape_def)
  next
    case False
    then show ?thesis using assms h parse_hex4_more [OF h, of xs]
      by (auto simp: parse_unicode_escape_def split: if_splits)
  qed
qed

lemma parse_escape_more: "parse_escape cs = Got x rest \<Longrightarrow> parse_escape (cs @ xs) = Got x (rest @ xs)"
  by (cases cs) (auto simp: parse_escape_def parse_unicode_escape_more split: if_splits)

lemma utf8_tail_more:
  "utf8_tail limit n cp out cs = Got x rest \<Longrightarrow> limit \<le> limit' \<Longrightarrow>
     utf8_tail limit' n cp out (cs @ xs) = Got x (rest @ xs)"
  by (induction limit n cp out cs rule: utf8_tail.induct) (auto split: if_splits)

lemma string_loop_more:
  "string_loop limit out cs = Got s rest \<Longrightarrow> limit \<le> limit' \<Longrightarrow>
     string_loop limit' out (cs @ xs) = Got s (rest @ xs)"
proof (induction "length cs" arbitrary: cs out rule: less_induct)
  case less
  from less.prems(1) show ?case
  proof (cases rule: string_loop_Got)
    case quote
    then show ?thesis using less.prems(2) by (simp add: string_loop.simps)
  next
    case (escape e ds r)
    have "length out < limit" using less.prems(1) escape(1) by (simp add: string_loop.simps split: if_splits)
    moreover have "string_loop limit' (out @ e) (r @ xs) = Got s (rest @ xs)"
      using less.hyps [of r] parse_escape_length [OF escape(2)] escape(1,3) less.prems(2) by simp
    ultimately show ?thesis using escape(1) parse_escape_more [OF escape(2), of xs] less.prems(2)
      by (simp add: string_loop.simps)
  next
    case (plain c ds)
    have c: "length out < limit" "\<not> (of_char c :: int) < 0x20 \<and> c \<noteq> CHR 0x22 \<and> c \<noteq> CHR 0x5C \<or>
        c = CHR 0x22 \<or> c = CHR 0x5C"
      using less.prems(1) plain(1) by (auto simp: string_loop.simps split: if_splits)
    have more: "string_loop limit' (out @ [c]) (ds @ xs) = Got s (rest @ xs)"
      using less.hyps [of ds] plain(1,3) less.prems(2) by simp
    show ?thesis
    proof (cases "c = CHR 0x22 \<or> c = CHR 0x5C")
      case False
      then show ?thesis using c more plain(1,2) less.prems(2) by (auto simp: string_loop.simps)
    next
      case True
      then consider "c = CHR 0x22" | e r where "c = CHR 0x5C" "parse_escape ds = Got e r"
          "string_loop limit (out @ e) r = Got s rest"
        using less.prems(1) plain(1) c(1) by (auto simp: string_loop.simps split: parsed.splits)
      then show ?thesis
      proof cases
        case 1
        then show ?thesis using less.prems plain(1) c(1) by (simp add: string_loop.simps)
      next
        case (2 e r)
        then have "string_loop limit' (out @ e) (r @ xs) = Got s (rest @ xs)"
          using less.hyps [of r] parse_escape_length [OF 2(2)] plain(1) less.prems(2) by simp
        then show ?thesis using 2 plain(1) c(1) parse_escape_more [OF 2(2), of xs] less.prems(2)
          by (simp add: string_loop.simps)
      qed
    qed
  next
    case (multi c ds n bits cp out' r)
    have "length r < length cs"
      using utf8_tail_length [OF multi(4)] multi(1) by simp
    then have "string_loop limit' out' (r @ xs) = Got s (rest @ xs)"
      using less.hyps [of r] multi(6) less.prems(2) by simp
    moreover have "length out < limit" using less.prems(1) multi(1) by (simp add: string_loop.simps split: if_splits)
    moreover have "c \<noteq> CHR 0x22" "c \<noteq> CHR 0x5C" using multi(2) by auto
    ultimately show ?thesis using multi(1-5) utf8_tail_more [OF multi(4) less.prems(2), of xs] less.prems(2)
      by (simp add: string_loop.simps)
  qed
qed

lemma parse_string_raw_more:
  assumes "parse_string_raw limit cs = Got s rest" "limit \<le> limit'"
  shows "parse_string_raw limit' (cs @ xs) = Got s (rest @ xs)"
proof -
  have "cs \<noteq> []" using assms(1) by (auto simp: parse_string_raw_def string_loop.simps)
  then have "starts CHR 0x22 (cs @ xs) = starts CHR 0x22 cs" "tl (cs @ xs) = tl cs @ xs" by (cases cs; simp)+
  then show ?thesis using assms string_loop_more [of limit "[]"] by (auto simp: parse_string_raw_def)
qed

section \<open>Numbers and other scalars\<close>

lemma takeWhile_more: "dropWhile P cs \<noteq> [] \<Longrightarrow> takeWhile P (cs @ xs) = takeWhile P cs \<and> dropWhile P (cs @ xs) = dropWhile P cs @ xs"
  by (induction cs) auto

lemma starts_more: "cs \<noteq> [] \<Longrightarrow> starts c (cs @ xs) = starts c cs"
  by (cases cs) auto

lemma starts_unique: "starts c cs \<Longrightarrow> starts d cs \<Longrightarrow> c = d"
  by (simp add: starts_def split: list.splits)

lemma parse_fraction_more:
  "parse_fraction cs = Got f rest \<Longrightarrow> rest \<noteq> [] \<Longrightarrow> parse_fraction (cs @ xs) = Got f (rest @ xs)"
  using takeWhile_more [of is_digit "tl cs" xs]
  by (cases cs) (auto simp: parse_fraction_def Let_def split: if_splits)

lemma parse_exponent_more:
  assumes "parse_exponent cs = Got f rest" "rest \<noteq> []"
  shows "parse_exponent (cs @ xs) = Got f (rest @ xs)"
proof (cases "starts CHR ''e'' cs \<or> starts CHR ''E'' cs")
  case True
  let ?cs2 = "if starts CHR ''-'' (tl cs) \<or> starts CHR ''+'' (tl cs) then tl (tl cs) else tl cs"
  have r: "rest = dropWhile is_digit ?cs2" using assms(1) True by (auto simp: parse_exponent_def Let_def split: if_splits)
  then have ne: "?cs2 \<noteq> []" "tl cs \<noteq> []" "cs \<noteq> []" using assms(2) by auto
  then have "starts c (cs @ xs) = starts c cs" "tl (cs @ xs) = tl cs @ xs" "starts c (tl cs @ xs) = starts c (tl cs)"
    "tl (tl cs @ xs) = tl (tl cs) @ xs" for c
    by (auto simp: starts_more)
  then show ?thesis using assms True r takeWhile_more [of is_digit ?cs2 xs]
    by (simp add: parse_exponent_def Let_def split: if_splits)
next
  case False
  then show ?thesis using assms by (cases cs) (auto simp: parse_exponent_def)
qed

lemma number_value_more: "number_value neg ints fracs ex rest = Got v rest \<Longrightarrow>
    number_value neg ints fracs ex (rest @ xs) = Got v (rest @ xs)"
  by (auto simp: number_value_def split: option.splits if_splits)

lemma number_body_more:
  assumes "number_body neg ints cs = Got v rest" "rest \<noteq> []"
  shows "number_body neg ints (cs @ xs) = Got v (rest @ xs)"
proof -
  from assms(1) obtain f cs3 x where p: "parse_fraction cs = Got f cs3" "parse_exponent cs3 = Got x rest"
    by (rule number_body_Got) blast
  have "cs3 \<noteq> []" using p(2) assms(2) by (auto simp: parse_exponent_def)
  then have "parse_fraction (cs @ xs) = Got f (cs3 @ xs)" "parse_exponent (cs3 @ xs) = Got x (rest @ xs)"
    using p assms(2) by (auto intro: parse_fraction_more parse_exponent_more)
  then show ?thesis using assms(1) p
    by (auto simp: number_body_def case_prod_unfold number_value_def split: if_splits option.splits)
qed

lemma number_body_Nil: "number_body neg ints [] = Got v rest \<Longrightarrow> rest = []"
  by (auto simp: number_body_def parse_fraction_def parse_exponent_def number_value_def split: option.splits if_splits)

lemma parse_number_more:
  assumes "parse_number cs = Got v rest" "rest \<noteq> []"
  shows "parse_number (cs @ xs) = Got v (rest @ xs)"
proof -
  let ?neg = "starts CHR ''-'' cs"
  let ?cs1 = "if ?neg then tl cs else cs"
  have p: "takeWhile is_digit ?cs1 \<noteq> []"
    "number_body ?neg (takeWhile is_digit ?cs1) (dropWhile is_digit ?cs1) = Got v rest"
    using assms(1) unfolding parse_number_def Let_def by (metis parsed.distinct(5))+
  have "dropWhile is_digit ?cs1 \<noteq> []" using p(2) assms(2) number_body_Nil by metis
  then have "takeWhile is_digit (?cs1 @ xs) = takeWhile is_digit ?cs1"
    "dropWhile is_digit (?cs1 @ xs) = dropWhile is_digit ?cs1 @ xs" using takeWhile_more by blast+
  moreover have "cs \<noteq> []" using p(1) by (auto split: if_splits)
  then have "starts CHR ''-'' (cs @ xs) = ?neg" "(if ?neg then tl (cs @ xs) else cs @ xs) = ?cs1 @ xs"
    by (auto simp: starts_more)
  ultimately show ?thesis using p number_body_more [OF p(2) assms(2), of xs]
    unfolding parse_number_def Let_def by presburger
qed

text \<open>A number ends where its text ends; all other values say themselves where they end.\<close>

definition ends :: "JsonValue \<Rightarrow> string \<Rightarrow> bool" where
  "ends v rest \<longleftrightarrow> rest \<noteq> [] \<or> (case v of JInteger _ \<Rightarrow> False | JNumber _ \<Rightarrow> False | _ \<Rightarrow> True)"

lemma parse_number_kind: "parse_number cs = Got v rest \<Longrightarrow> (\<exists>i. v = JInteger i) \<or> (\<exists>d. v = JNumber d)"
  using parse_number_ok by blast

lemma parse_literal_more: "parse_literal l v cs = Got x rest \<Longrightarrow> parse_literal l v (cs @ xs) = Got x (rest @ xs)"
  by (auto simp: parse_literal_def split: if_splits) (metis length_take min.absorb_iff2)+

lemma parse_scalar_more:
  assumes "parse_scalar lim cs = Got v rest" "ends v rest" "cs \<noteq> []"
    and "max_string_bytes lim \<le> max_string_bytes lim'"
  shows "parse_scalar lim' (cs @ xs) = Got v (rest @ xs)"
  using assms parse_number_kind [of cs v rest] parse_number_more [of cs v rest xs]
  by (auto simp: parse_scalar_def starts_more parse_literal_more result_simps ends_def
      intro!: parse_string_raw_more split: if_splits)

section \<open>Values\<close>

definition limits_grow :: "JsonLimits \<Rightarrow> JsonLimits \<Rightarrow> bool" where
  "limits_grow lim lim' \<longleftrightarrow> max_depth lim \<le> max_depth lim' \<and> max_string_bytes lim \<le> max_string_bytes lim' \<and>
     max_array_items lim \<le> max_array_items lim' \<and> max_object_members lim \<le> max_object_members lim'"

definition grows :: "(string \<Rightarrow> JsonValue parsed) \<Rightarrow> (string \<Rightarrow> JsonValue parsed) \<Rightarrow> bool" where
  "grows e e' \<longleftrightarrow> (\<forall>cs v rest xs. e cs = Got v rest \<longrightarrow> ends v rest \<longrightarrow> e' (cs @ xs) = Got v (rest @ xs))"

lemma growsD: "grows e e' \<Longrightarrow> e cs = Got v rest \<Longrightarrow> ends v rest \<Longrightarrow> e' (cs @ xs) = Got v (rest @ xs)"
  by (simp add: grows_def)

lemma skip_whitespace_more: "skip_whitespace cs \<noteq> [] \<Longrightarrow> skip_whitespace (cs @ xs) = skip_whitespace cs @ xs"
  unfolding skip_whitespace_def by (induction cs) auto

lemma starts_skip_more:
  assumes "starts c (skip_whitespace cs)"
  shows "starts d (skip_whitespace (cs @ xs)) = starts d (skip_whitespace cs)"
    "tl (skip_whitespace (cs @ xs)) = tl (skip_whitespace cs) @ xs"
    "skip_whitespace (cs @ xs) = skip_whitespace cs @ xs" "cs \<noteq> []"
proof -
  have ne: "skip_whitespace cs \<noteq> []" using assms by auto
  show "skip_whitespace (cs @ xs) = skip_whitespace cs @ xs" by (rule skip_whitespace_more [OF ne])
  then show "starts d (skip_whitespace (cs @ xs)) = starts d (skip_whitespace cs)"
    "tl (skip_whitespace (cs @ xs)) = tl (skip_whitespace cs) @ xs"
    using ne by (simp_all add: starts_more)
  show "cs \<noteq> []" using ne by (auto simp: skip_whitespace_def)
qed

lemma element_more:
  assumes "grows e e'" "shrinks e" "e (skip_whitespace cs) = Got x cs1" "starts c (skip_whitespace cs1)"
  shows "e' (skip_whitespace (cs @ xs)) = Got x (cs1 @ xs)"
proof -
  have "skip_whitespace cs \<noteq> []" using shrinksD [OF assms(2,3)] by auto
  then have "skip_whitespace (cs @ xs) = skip_whitespace cs @ xs" by (rule skip_whitespace_more)
  moreover have "ends x cs1" using starts_skip_more(4) [OF assms(4)] by (simp add: ends_def)
  ultimately show ?thesis using growsD [OF assms(1,3)] by simp
qed

lemma parse_items_more:
  assumes "grows e e'" "shrinks e" "limits_grow lim lim'"
  shows "parse_items fuel lim e items cs = Got v rest \<Longrightarrow> fuel \<le> fuel' \<Longrightarrow>
    parse_items fuel' lim' e' items (cs @ xs) = Got v (rest @ xs)"
proof (induction fuel arbitrary: fuel' items cs)
  case (Suc fuel)
  obtain f where f: "fuel' = Suc f" "fuel \<le> f" using Suc.prems(2) by (cases fuel') auto
  from Suc.prems(1) show ?case
  proof (rule parse_items_Got)
    fix x cs1 assume a: "length items < max_array_items lim" "e (skip_whitespace cs) = Got x cs1"
      "starts CHR '','' (skip_whitespace cs1) \<and>
         parse_items fuel lim e (items @ [x]) (tl (skip_whitespace cs1)) = Got v rest \<or>
       starts CHR '']'' (skip_whitespace cs1) \<and> v = JArray (items @ [x]) \<and> rest = tl (skip_whitespace cs1)"
    then obtain c where c: "starts c (skip_whitespace cs1)" by blast
    have "e' (skip_whitespace (cs @ xs)) = Got x (cs1 @ xs)" by (rule element_more [OF assms(1,2) a(2) c])
    then show ?thesis
      using a Suc.IH [OF _ f(2), of "items @ [x]"] assms(3) f(1)
      by (auto simp: limits_grow_def Let_def starts_skip_more(1,2) [OF c] dest: starts_unique)
  qed
qed simp

lemma parse_members_more:
  assumes "grows e e'" "shrinks e" "limits_grow lim lim'"
  shows "parse_members fuel lim e members cs = Got v rest \<Longrightarrow> fuel \<le> fuel' \<Longrightarrow>
    parse_members fuel' lim' e' members (cs @ xs) = Got v (rest @ xs)"
proof (induction fuel arbitrary: fuel' members cs)
  case (Suc fuel)
  obtain f where f: "fuel' = Suc f" "fuel \<le> f" using Suc.prems(2) by (cases fuel') auto
  from Suc.prems(1) have q: "starts CHR 0x22 (skip_whitespace cs)" by (auto simp: Let_def split: if_splits)
  from Suc.prems(1) show ?case
  proof (rule parse_members_Got)
    fix key cs2 x cs4
    assume a: "parse_string_raw (max_string_bytes lim) (skip_whitespace cs) = Got key cs2"
      "key \<notin> set (map fst members)" "length members < max_object_members lim"
      "starts CHR '':'' (skip_whitespace cs2)" "e (skip_whitespace (tl (skip_whitespace cs2))) = Got x cs4"
      and more: "starts CHR '','' (skip_whitespace cs4) \<and>
         parse_members fuel lim e (members @ [(key, x)]) (tl (skip_whitespace cs4)) = Got v rest \<or>
       starts CHR ''}'' (skip_whitespace cs4) \<and> v = JObject (members @ [(key, x)]) \<and> rest = tl (skip_whitespace cs4)"
    from more obtain c where c: "starts c (skip_whitespace cs4)" by blast
    have s: "parse_string_raw (max_string_bytes lim') (skip_whitespace (cs @ xs)) = Got key (cs2 @ xs)"
      unfolding starts_skip_more(3) [OF q]
      by (rule parse_string_raw_more [OF a(1)]) (use assms(3) in \<open>simp add: limits_grow_def\<close>)
    have e: "e' (skip_whitespace (tl (skip_whitespace (cs2 @ xs)))) = Got x (cs4 @ xs)"
      unfolding starts_skip_more(2) [OF a(4)] by (rule element_more [OF assms(1,2) a(5) c])
    show ?thesis
      using a(2-4) s e more q Suc.IH [OF _ f(2), of "members @ [(key, x)]"] assms(3) f(1)
      by (auto simp: limits_grow_def Let_def starts_skip_more(1,2) [OF c] starts_skip_more(1) [OF a(4)]
          starts_skip_more(1) [OF q] dest: starts_unique)
  qed
qed simp

lemma parse_value_more:
  "fuel \<le> fuel' \<Longrightarrow> limits_grow lim lim' \<Longrightarrow> grows (parse_value fuel lim depth) (parse_value fuel' lim' depth)"
proof (induction fuel arbitrary: fuel' depth)
  case (Suc fuel)
  obtain f where f: "fuel' = Suc f" "fuel \<le> f" using Suc.prems(1) by (cases fuel') auto
  have IH: "grows (parse_value fuel lim (Suc depth)) (parse_value f lim' (Suc depth))"
    by (rule Suc.IH [OF f(2) Suc.prems(2)])
  note rules = IH parse_value_shrinks Suc.prems(2)
  show ?case unfolding grows_def
  proof (intro allI impI)
    fix cs v rest xs assume p: "parse_value (Suc fuel) lim depth cs = Got v rest" and en: "ends v rest"
    have d: "depth < max_depth lim'" "cs \<noteq> []" using p Suc.prems(2) by (auto simp: limits_grow_def split: if_splits)
    have t: "tl (cs @ xs) = tl cs @ xs" "starts c (cs @ xs) = starts c cs" for c using d(2) by (simp_all add: starts_more)
    from p consider (o0) "starts CHR ''{'' cs" "starts CHR ''}'' (skip_whitespace (tl cs))"
        "v = JObject []" "rest = tl (skip_whitespace (tl cs))"
      | (o1) "starts CHR ''{'' cs" "\<not> starts CHR ''}'' (skip_whitespace (tl cs))"
        "parse_members fuel lim (parse_value fuel lim (Suc depth)) [] (skip_whitespace (tl cs)) = Got v rest"
      | (a0) "starts CHR ''['' cs" "\<not> starts CHR ''{'' cs" "starts CHR '']'' (skip_whitespace (tl cs))"
        "v = JArray []" "rest = tl (skip_whitespace (tl cs))"
      | (a1) "starts CHR ''['' cs" "\<not> starts CHR ''{'' cs" "\<not> starts CHR '']'' (skip_whitespace (tl cs))"
        "parse_items fuel lim (parse_value fuel lim (Suc depth)) [] (skip_whitespace (tl cs)) = Got v rest"
      | (s) "\<not> starts CHR ''['' cs" "\<not> starts CHR ''{'' cs" "parse_scalar lim cs = Got v rest"
      by (auto simp: Let_def split: if_splits)
    then show "parse_value fuel' lim' depth (cs @ xs) = Got v (rest @ xs)"
    proof cases
      case o0
      then show ?thesis using d t f by (simp add: Let_def starts_skip_more(1,2) [OF o0(2)])
    next
      case o1
      have ne: "skip_whitespace (tl cs) \<noteq> []" using parse_members_length [OF rules(2) o1(3)] by auto
      then have "\<not> starts CHR ''}'' (skip_whitespace (tl cs @ xs))" "skip_whitespace (tl cs @ xs) = skip_whitespace (tl cs) @ xs"
        using o1(2) by (simp_all add: skip_whitespace_more starts_more)
      then show ?thesis using d t f o1 parse_members_more [OF rules o1(3) f(2), of xs] by (simp add: Let_def)
    next
      case a0
      then show ?thesis using d t f by (simp add: Let_def starts_skip_more(1,2) [OF a0(3)])
    next
      case a1
      have ne: "skip_whitespace (tl cs) \<noteq> []" using parse_items_length [OF rules(2) a1(4)] by auto
      then have "\<not> starts CHR '']'' (skip_whitespace (tl cs @ xs))" "skip_whitespace (tl cs @ xs) = skip_whitespace (tl cs) @ xs"
        using a1(3) by (simp_all add: skip_whitespace_more starts_more)
      then show ?thesis using d t f a1 parse_items_more [OF rules a1(4) f(2), of xs] by (simp add: Let_def)
    next
      case s
      then show ?thesis using d t f Suc.prems(2) parse_scalar_more [OF s(3) en d(2), of lim' xs]
        by (simp add: limits_grow_def)
    qed
  qed
qed (simp add: grows_def)

lemma parse_members_object: "parse_members fuel lim e members cs = Got v rest \<Longrightarrow> \<exists>ms. v = JObject ms"
proof (induction fuel arbitrary: members cs)
  case (Suc fuel)
  from Suc.prems show ?case by (rule parse_members_Got) (use Suc.IH in blast)
qed simp

text \<open>No strict prefix of a written object is a document, whatever the smaller limits are.\<close>

lemma parse_strict_prefix:
  assumes "json_valid lim' 0 v" "number_free v" "v = JObject ms"
    and "limits_grow lim lim'" "write_value False v = p @ q" "q \<noteq> []"
  shows "\<exists>e. parse_json lim p = Inl e"
proof (rule ccontr)
  assume "\<not> ?thesis"
  then obtain w where "parse_document lim p = Got w []" and len: "length p \<le> max_document_bytes lim"
    by (auto simp: parse_json_def parse_document_def Let_def result_simps split: parsed.splits if_splits)
  then obtain rest where w: "parse_value (Suc (length (skip_whitespace p))) lim 0 (skip_whitespace p) = Got w rest"
    and p: "skip_whitespace p \<noteq> []"
    by (auto simp: parse_document_def Let_def result_simps simp del: parse_value.simps split: if_splits)
  have open_brace: "hd (write_value False v) = CHR ''{''" by (simp add: assms(3) Let_def)
  have ne: "p \<noteq> []" using p by (auto simp: skip_whitespace_def)
  then have hp: "hd p = CHR ''{''" using open_brace assms(5) by simp
  then have skip: "skip_whitespace p = p" using ne by (cases p) (simp_all add: skip_whitespace_def is_whitespace_def)
  have "starts CHR ''{'' p" using hp ne by (cases p) auto
  then have "ends w rest"
    using w ne unfolding skip by (auto simp: ends_def Let_def dest!: parse_members_object split: if_splits)
  then have "parse_value (Suc (length (p @ q))) lim' 0 (p @ q) = Got w (rest @ q)"
    using growsD [OF parse_value_more [OF _ assms(4)] w [unfolded skip]] by (simp del: parse_value.simps)
  moreover have "parse_value (Suc (length (p @ q))) lim' 0 (p @ q) = Got v []"
    using parse_write_value [OF assms(1,2), of "[]" "Suc (length (p @ q))"] unfolding assms(5) by (simp del: parse_value.simps)
  ultimately show False using assms(6) by (simp del: parse_value.simps)
qed

end
