(* ===== verification/File_Codec.thy ===== *)
theory File_Codec
  imports File_Store Json_Prefix Event_Properties
begin

text \<open>
  The records of the event log: a record that is written reads back, its text is one line, and no
  strict prefix of it decodes. These are the facts the recovery of the file store rests on.
\<close>

section \<open>Text that is plain\<close>

lemma ascii_utf8_ok: "(\<forall>c\<in>set s. (of_char c :: int) < 0x80) \<Longrightarrow> utf8_ok s"
  by (induction s) auto

lemma hex_char_ascii: "n < 16 \<Longrightarrow> (of_char (hex_char n) :: int) < 0x80"
proof -
  have "\<forall>n\<in>set [0..<16]. (of_char (hex_char n) :: int) < 0x80" by code_simp
  then show "n < 16 \<Longrightarrow> ?thesis" by simp
qed

lemma hex_bytes_utf8 [simp]: "utf8_ok (hex_bytes bs)"
proof (rule ascii_utf8_ok)
  have "unat b div 16 < 16" for b :: u8 by (simp add: less_mult_imp_div_less)
  then show "\<forall>c\<in>set (hex_bytes bs). (of_char c :: int) < 0x80"
    by (induction bs) (auto simp: hex_byte_def hex_char_ascii)
qed

lemma digit_ascii: "is_digit c \<Longrightarrow> (of_char c :: int) < 0x80"
proof -
  have "\<forall>c. is_digit c \<longrightarrow> (of_char c :: int) < 0x80" by code_simp
  then show "is_digit c \<Longrightarrow> ?thesis" by blast
qed

lemma show_int_utf8 [simp]: "utf8_ok (show_int i)"
proof (rule ascii_utf8_ok)
  have "\<forall>c\<in>set (show_digits \<bar>i\<bar>). is_digit c" using show_digits_spec [of "\<bar>i\<bar>"] by (simp add: list_all_iff)
  then show "\<forall>c\<in>set (show_int i). (of_char c :: int) < 0x80"
    by (auto simp: show_int_def digit_ascii split: if_splits)
qed

lemma id_text_utf8 [simp]: "utf8_ok (id128_to_string i)" "utf8_ok (digest_to_string d)"
  by (simp_all add: id128_to_string_def digest_to_string_def)

section \<open>Written text\<close>

text \<open>A written value is one line, when its strings are well formed: control bytes are escaped.\<close>

definition printable :: "string \<Rightarrow> bool" where
  "printable s \<longleftrightarrow> (\<forall>c\<in>set s. \<not> (of_char c :: int) < 0x20)"

lemma printable_simps [simp]:
  "printable []" "printable (c # cs) \<longleftrightarrow> \<not> (of_char c :: int) < 0x20 \<and> printable cs"
  "printable (xs @ ys) \<longleftrightarrow> printable xs \<and> printable ys"
  by (auto simp: printable_def)

lemma printable_no_break: "printable s \<Longrightarrow> CHR 0x0A \<notin> set s \<and> CHR 0x0D \<notin> set s"
  by (auto simp: printable_def)

lemma escape_byte_printable: "printable (escape_byte c)"
proof -
  have "\<forall>c. list_all (\<lambda>x. \<not> (of_char x :: int) < 0x20) (escape_byte c)" by code_simp
  then show ?thesis by (simp add: printable_def list_all_iff)
qed

lemma utf8_trail_printable:
  "utf8_trail n cp cs = Some (cp', rest) \<Longrightarrow> write_bytes 0 rest = ys \<Longrightarrow> printable ys \<Longrightarrow> printable (write_bytes n cs)"
proof (induction n cp cs rule: utf8_trail.induct)
  case (3 n cp c cs)
  have "(of_char c :: int) AND 0xC0 = 0x80" using "3.prems"(1) by (auto split: if_splits)
  moreover have "\<forall>c. (of_char c :: int) AND 0xC0 = 0x80 \<longrightarrow> \<not> (of_char c :: int) < 0x20" by code_simp
  ultimately have "\<not> (of_char c :: int) < 0x20" by blast
  then show ?case using 3 by (auto split: if_splits)
qed auto

lemma write_bytes_printable: "utf8_ok s \<Longrightarrow> printable (write_bytes 0 s)"
proof (induction s rule: utf8_ok.induct)
  case (2 c cs)
  show ?case
  proof (cases "(of_char c :: int) < 0x80")
    case True
    then show ?thesis using 2 by (simp add: escape_byte_printable write_continuation_low)
  next
    case False
    with "2.prems" obtain n bits cp rest where l: "utf8_lead (of_char c) = Some (n, bits)"
      and t: "utf8_trail n bits cs = Some (cp, rest)" "utf8_ok rest"
      by (auto split: option.splits)
    then have "printable (write_bytes 0 rest)" using "2.IH"(2) [OF False l refl t(1) refl] by simp
    then show ?thesis using utf8_trail_printable [OF t(1) refl] l
      by (simp add: escape_byte_printable write_continuation_def)
  qed
qed simp

lemma write_string_printable [simp]: "utf8_ok s \<Longrightarrow> printable (write_string s)"
  by (simp add: write_string_def write_bytes_printable)

lemma show_int_printable [simp]: "printable (show_int i)"
proof -
  have d: "\<forall>c. is_digit c \<longrightarrow> \<not> (of_char c :: int) < 0x20" by code_simp
  have "\<forall>c\<in>set (show_digits \<bar>i\<bar>). is_digit c" using show_digits_spec [of "\<bar>i\<bar>"] by (simp add: list_all_iff)
  then show ?thesis using d by (auto simp: show_int_def printable_def)
qed

lemma printable_separated: "\<forall>x\<in>set xs. printable x \<Longrightarrow> printable (comma_separated xs)"
  by (induction xs rule: comma_separated.induct) auto

lemma write_value_printable:
  "json_valid lim depth v \<Longrightarrow> number_free v \<Longrightarrow> printable (write_value False v)"
proof (induction v arbitrary: depth)
  case (JArray items)
  then show ?case by (auto intro!: printable_separated) blast
next
  case (JObject members)
  have "printable (write_member (fst m, write_value False (snd m)))" if "m \<in> set members" for m
    using JObject.IH [of m "snd m" "Suc depth"] JObject.prems that
    by (cases m) (force simp: write_member_def string_ok_def)
  then show ?case unfolding write_members_plain by (auto intro!: printable_separated)
qed (auto simp: string_ok_def)

text \<open>The text of a value is longer than each of its strings.\<close>

lemma write_bytes_longer: "length s \<le> length (write_bytes n s)"
proof (induction n s rule: write_bytes.induct)
  case (2 n c cs)
  obtain k where "length (escape_byte c) = Suc k" by (cases "escape_byte c") (auto simp: escape_byte_def split: if_splits)
  then show ?case using 2 by auto
qed simp

lemma write_string_longer: "length s < length (write_string s)"
  using write_bytes_longer [of s 0] by (simp add: write_string_def)

lemma separated_longer: "x \<in> set xs \<Longrightarrow> length x \<le> length (comma_separated xs)"
  by (induction xs rule: comma_separated.induct) auto

lemma json_valid_string_limit:
  "json_valid (lim\<lparr>max_string_bytes := m\<rparr>) depth v \<Longrightarrow> length (write_value False v) \<le> n \<Longrightarrow>
     json_valid (lim\<lparr>max_string_bytes := n\<rparr>) depth v"
proof (induction v arbitrary: depth)
  case (JString s)
  then show ?case using write_string_longer [of s] by (auto simp: string_ok_def)
next
  case (JArray items)
  have "length (write_value False v) \<le> n" if "v \<in> set items" for v
    using separated_longer [of "write_value False v" "map (\<lambda>v. write_value False v) items"] JArray.prems(2) that by auto
  then show ?case using JArray by auto
next
  case (JObject members)
  have "length (fst m) < n \<and> length (write_value False (snd m)) \<le> n" if "m \<in> set members" for m
  proof -
    have "length (write_member (fst m, write_value False (snd m))) \<le> n"
      using separated_longer [of "write_member (fst m, write_value False (snd m))"
          "map (\<lambda>m. write_member (fst m, write_value False (snd m))) members"] JObject.prems(2) that
      unfolding write_members_plain by auto
    then show ?thesis using write_string_longer [of "fst m"] by (simp add: write_member_def)
  qed
  then show ?case using JObject by (auto simp: string_ok_def)
qed auto

section \<open>Records\<close>

definition request_ok :: "AppendRequest \<Rightarrow> bool" where
  "request_ok q \<longleftrightarrow> list_all (\<lambda>i. id128_ok i \<and> \<not> is_nil i) [ar_event_id q, ar_runtime_id q, ar_session_id q] \<and>
     (case ar_task_id q of None \<Rightarrow> True | Some t \<Rightarrow> id128_ok t \<and> \<not> is_nil t) \<and>
     utf8_ok (pl_type (ar_payload q)) \<and> utf8_ok (pl_data (ar_payload q))"

definition record_ok :: "LogRecord \<Rightarrow> bool" where
  "record_ok r \<longleftrightarrow> request_ok (lr_request r) \<and> ar_required (lr_request r) = ProcessCrash \<and> lr_sequence r \<noteq> 0 \<and>
     (case lr_task_sequence r of None \<Rightarrow> ar_task_id (lr_request r) = None
      | Some n \<Rightarrow> n \<noteq> 0 \<and> ar_task_id (lr_request r) \<noteq> None) \<and>
     digest_ok (lr_request_digest r) \<and> \<bar>ts_wall (lr_timestamp r)\<bar> \<le> int64_max \<and>
     ts_monotonic (lr_timestamp r) = 0 \<and> lr_v2 r"

definition record_members :: "LogRecord \<Rightarrow> JsonObject" where
  "record_members r = record_fields r @ [(''record_digest'', JString (digest_to_string (record_digest r)))]"

definition record_json :: "LogRecord \<Rightarrow> JsonValue" where
  "record_json r = JObject (sort_key fst (record_members r))"

lemma keys_record_members: "map fst (record_members r) = record_keys"
  by (simp add: record_members_def record_fields_def record_keys_def Let_def)

lemma distinct_record_keys [simp]: "distinct record_keys"
  by (simp add: record_keys_def)

lemma record_json_normalize: "json_normalize (JObject (record_members r)) = record_json r"
  by (simp add: record_json_def record_members_def record_fields_def Let_def split: option.splits)

lemma encode_record_text: "encode_record r = ''E2 '' @ write_value False (record_json r)"
proof -
  have "set_member ''record_digest'' v (record_fields r) = record_fields r @ [(''record_digest'', v)]" for v
    by (simp add: record_fields_def Let_def)
  then have "json_set ''record_digest'' (JString (digest_to_string (record_digest r))) (JObject (record_fields r)) =
      JObject (record_members r)" by (simp add: json_set_def record_members_def)
  then show ?thesis unfolding encode_record_def canonical_json_string_def write_canonical record_json_normalize [symmetric]
    by simp
qed

lemma record_json_number_free: "number_free (record_json r)"
  by (simp add: record_json_def record_members_def record_fields_def Let_def split: option.splits)

lemma event_class_number_bound: "\<bar>event_class_number c\<bar> \<le> int64_max"
  by (cases c) (simp_all add: event_class_number_def int64_max_def)

definition scalar_ok :: "JsonValue \<Rightarrow> bool" where
  "scalar_ok v \<longleftrightarrow> (case v of JString s \<Rightarrow> utf8_ok s | JInteger i \<Rightarrow> \<bar>i\<bar> \<le> int64_max | JNull \<Rightarrow> True | _ \<Rightarrow> False)"

lemma record_members_scalar: "record_ok r \<Longrightarrow> m \<in> set (record_members r) \<Longrightarrow> utf8_ok (fst m) \<and> scalar_ok (snd m)"
  by (auto simp: record_members_def record_fields_def record_ok_def request_ok_def scalar_ok_def Let_def
      event_class_number_bound split: option.splits)

text \<open>Some limit on the length of strings admits the record.\<close>

lemma record_json_valid_unbounded:
  assumes "record_ok r"
  obtains m where "json_valid (json_limits_default\<lparr>max_document_bytes := d, max_string_bytes := m\<rparr>) 0 (record_json r)"
proof -
  let ?strings = "map fst (record_members r) @ map (\<lambda>m. case snd m of JString s \<Rightarrow> s | _ \<Rightarrow> []) (record_members r)"
  let ?lim = "json_limits_default\<lparr>max_document_bytes := d, max_string_bytes := Suc (Max (length ` set ?strings))\<rparr>"
  have short: "length s < max_string_bytes ?lim" if "s \<in> set ?strings" for s
  proof -
    have "length s \<le> Max (length ` set ?strings)"
      by (rule Max_ge [OF finite_imageI [OF finite_set] imageI [OF that]])
    then show ?thesis by simp
  qed
  have "json_valid ?lim (Suc 0) (snd m) \<and> string_ok ?lim (fst m)" if m: "m \<in> set (record_members r)" for m
  proof -
    have "(case snd m of JString s \<Rightarrow> s | _ \<Rightarrow> []) \<in> set ?strings" "fst m \<in> set ?strings" using m by force+
    then show ?thesis using record_members_scalar [OF assms m] short [of "fst m"]
        short [of "case snd m of JString s \<Rightarrow> s | _ \<Rightarrow> []"]
      by (cases "snd m") (simp_all add: scalar_ok_def string_ok_def json_limits_default_def)
  qed
  moreover have "length (record_members r) = 14"
    using arg_cong [OF keys_record_members [of r], of length] by (simp add: record_keys_def)
  ultimately have "json_valid ?lim 0 (JObject (record_members r))"
    by (simp add: keys_record_members) (simp add: json_limits_default_def)
  then have "json_valid ?lim 0 (json_normalize (JObject (record_members r)))" by (simp only: normalize_valid)
  then show thesis using that unfolding record_json_normalize by blast
qed

lemma encode_record_limits:
  assumes "record_ok r"
  shows "json_valid (record_limits (encode_record r)) 0 (record_json r)"
proof -
  obtain m where "json_valid (json_limits_default\<lparr>max_document_bytes := length (encode_record r), max_string_bytes := m\<rparr>) 0 (record_json r)"
    using record_json_valid_unbounded [OF assms] by blast
  then show ?thesis unfolding record_limits_def
    by (rule json_valid_string_limit) (simp add: encode_record_text)
qed

lemma parse_record:
  assumes "record_ok r"
  shows "parse_json (record_limits (encode_record r)) (drop 3 (encode_record r)) = Inr (record_json r)"
proof -
  have "json_encodable (record_limits (encode_record r)) (record_json r)"
    using encode_record_limits [OF assms]
    by (simp add: json_encodable_def record_json_number_free to_json_string_def record_limits_def encode_record_text)
  then show ?thesis using parse_to_json_string [of _ "record_json r"] by (simp add: encode_record_text to_json_string_def)
qed

text \<open>The members of a record, by name; sorting them by name does not matter.\<close>

lemma find_record_member: "json_find (record_json r) key = map_of (record_members r) key"
proof -
  have "distinct (map fst (record_members r))" by (simp add: keys_record_members)
  moreover have "distinct (map fst (sort_key fst (record_members r)))"
    by (metis calculation distinct_map mset_eq_imp_distinct_iff mset_map mset_sort)
  ultimately have "map_of (sort_key fst (record_members r)) = map_of (record_members r)"
    by (subst map_of_inject_set) simp_all
  then show ?thesis by (simp add: record_json_def json_find_def)
qed

lemma wire_id_text: "id128_ok i \<Longrightarrow> \<not> is_nil i \<Longrightarrow> wire_id (id128_to_string i) = Some i"
  by (simp add: wire_id_def id_text.dec_enc)

lemma class_of_event_class [simp]: "class_of_number (event_class_number c) = c" "\<not> event_class_number c < 0"
  "\<not> 2 < event_class_number c"
  by (cases c; simp add: class_of_number_def event_class_number_def)+

lemma digest_ok_digest_string [simp]: "digest_ok (digest_string s)"
  by (simp add: digest_string_def)

lemma digest_text_back [simp]: "digest_ok d \<Longrightarrow> digest_from_hex (digest_to_string d) = Some d"
  by (rule digest_text.dec_enc)

lemma decode_fields_record:
  assumes "record_ok r"
  shows "decode_fields (record_json r) = Inr r"
proof -
  note find = member_text_def member_integer_def find_record_member record_members_def record_fields_def Let_def
  have ids: "wire_id (id128_to_string (ar_event_id (lr_request r))) = Some (ar_event_id (lr_request r))"
    "wire_id (id128_to_string (ar_runtime_id (lr_request r))) = Some (ar_runtime_id (lr_request r))"
    "wire_id (id128_to_string (ar_session_id (lr_request r))) = Some (ar_session_id (lr_request r))"
    using assms by (simp_all add: record_ok_def request_ok_def wire_id_text)
  have task: "decode_task (record_json r) =
      Inr (case ar_task_id (lr_request r) of None \<Rightarrow> None | Some t \<Rightarrow> Some (t, the (lr_task_sequence r)))"
    using assms
    by (auto simp: decode_task_def wire_number_def find wire_id_text record_ok_def request_ok_def split: option.splits)
  have seq: "lr_task_sequence r = None \<longleftrightarrow> ar_task_id (lr_request r) = None"
    using assms by (auto simp: record_ok_def split: option.splits)
  have fields: "decode_fields (record_json r) =
      (let r' = r\<lparr>lr_request := (lr_request r)\<lparr>ar_required := ProcessCrash\<rparr>,
          lr_timestamp := timestamp_default\<lparr>ts_wall := ts_wall (lr_timestamp r)\<rparr>, lr_v2 := True\<rparr>
       in if record_digest r' \<noteq> record_digest r then wire_fail ErrorCode.DataLoss ''event record metadata digest mismatch'' else Inr r')"
    using assms ids task seq
    by (cases r; cases "lr_request r"; cases "ar_payload (lr_request r)"; cases "ar_task_id (lr_request r)")
      (auto simp: decode_fields_def find wire_number_def record_ok_def record_digest_def)
  have "r\<lparr>lr_request := (lr_request r)\<lparr>ar_required := ProcessCrash\<rparr>,
          lr_timestamp := timestamp_default\<lparr>ts_wall := ts_wall (lr_timestamp r)\<rparr>, lr_v2 := True\<rparr> = r"
    using assms by (cases r; cases "lr_request r"; cases "lr_timestamp r") (auto simp: record_ok_def timestamp_default_def)
  then show ?thesis by (simp add: fields)
qed

lemma decode_encode_record:
  assumes "record_ok r"
  shows "decode_v2 (encode_record r) = Inr r"
proof -
  have "length (sort_key fst (record_members r)) = length record_keys"
    using keys_record_members [of r] by (metis length_map length_sort)
  moreover have "prefix ''E2 '' (encode_record r)" by (simp add: encode_record_text)
  moreover have "\<not> list_ex (\<lambda>key. json_find (record_json r) key = None) record_keys"
    "\<not> list_ex (\<lambda>key. member_text (record_json r) key = None) text_keys"
    "member_text (record_json r) ''schema'' = Some ''mira.file-event.v2''"
    by (simp_all add: record_keys_def text_keys_def member_text_def find_record_member record_members_def
        record_fields_def Let_def)
  ultimately show ?thesis
    using parse_record [OF assms] decode_fields_record [OF assms]
    by (simp add: decode_v2_def as_object_def record_json_def)
qed

text \<open>A record is one printable line that starts with its tag.\<close>

lemma encode_record_printable: "record_ok r \<Longrightarrow> printable (encode_record r)"
  using write_value_printable [OF encode_record_limits record_json_number_free] by (simp add: encode_record_text)

lemma encode_record_ends: "encode_record r \<noteq> []" "last (encode_record r) = CHR ''}''"
  by (simp_all add: encode_record_text record_json_def Let_def)

text \<open>A record that was cut off is recognised as incomplete.\<close>

lemma decode_strict_prefix:
  assumes "record_ok r" "encode_record r = p @ q" "q \<noteq> []"
  shows "\<exists>m. decode_v2 p = wire_fail ErrorCode.InvalidArgument m"
proof (cases "prefix ''E2 '' p")
  case True
  then obtain t where t: "p = ''E2 '' @ t" by (auto simp: prefix_def)
  have "write_value False (record_json r) = t @ q" using assms(2) t by (simp add: encode_record_text)
  moreover have "limits_grow (record_limits p) (record_limits (encode_record r))"
    using assms(2) by (simp add: limits_grow_def record_limits_def)
  ultimately obtain e where "parse_json (record_limits p) t = Inl e"
    using parse_strict_prefix [OF encode_record_limits [OF assms(1)] record_json_number_free] assms(3)
    by (metis record_json_def)
  then show ?thesis using True t by (auto simp: decode_v2_def)
next
  case False
  have "prefix p (encode_record r)" using assms(2) by simp
  moreover have "prefix ''E2 '' (encode_record r)" by (simp add: encode_record_text)
  ultimately have "prefix p ''E2 ''" using False prefix_same_cases by blast
  then show ?thesis using False by (auto simp: decode_v2_def)
qed

end
