(* ===== verification/File_Recovery.thy ===== *)
theory File_Recovery
  imports File_Codec
begin

text \<open>
  The recovery of the file store. The content of the log is the text of a list of records; the
  loaded store is the index of these records; recovering the text of the records rebuilds the
  index, and a record that was torn by a failed write is dropped as a whole.
\<close>

section \<open>Lists of records\<close>

abbreviation eid :: "LogRecord \<Rightarrow> EventId" where "eid r \<equiv> ar_event_id (lr_request r)"
abbreviation ses :: "LogRecord \<Rightarrow> SessionId" where "ses r \<equiv> ar_session_id (lr_request r)"
abbreviation tsk :: "LogRecord \<Rightarrow> TaskId option" where "tsk r \<equiv> ar_task_id (lr_request r)"

text \<open>The record that may follow: the next numbers of its session and task, a fresh identifier
  and its digest.\<close>

definition next_ok :: "nat \<Rightarrow> LogRecord list \<Rightarrow> LogRecord \<Rightarrow> bool" where
  "next_ok n recs r \<longleftrightarrow> record_ok r \<and> length recs < n \<and> eid r \<notin> eid ` set recs \<and>
     lr_sequence r = of_nat (length (filter (\<lambda>x. ses x = ses r) recs)) + 1 \<and>
     lr_task_sequence r = map_option (\<lambda>t. of_nat (length (filter (\<lambda>x. tsk x = Some t) recs)) + 1) (tsk r) \<and>
     lr_request_digest r = digest_string (canonical_request (lr_request r))"

definition log_ok :: "nat \<Rightarrow> LogRecord list \<Rightarrow> bool" where
  "log_ok n recs \<longleftrightarrow> (\<forall>i<length recs. next_ok n (take i recs) (recs ! i))"

lemma log_ok_Nil [simp]: "log_ok n []"
  by (simp add: log_ok_def)

lemma log_ok_snoc: "log_ok n (recs @ [r]) \<longleftrightarrow> log_ok n recs \<and> next_ok n recs r"
  by (auto simp: log_ok_def nth_append less_Suc_eq)

lemma log_ok_prefix: "log_ok n (xs @ ys) \<Longrightarrow> log_ok n xs"
  by (induction ys rule: rev_induct) (auto simp: log_ok_snoc simp flip: append_assoc)

lemma log_ok_record_ok: "log_ok n recs \<Longrightarrow> r \<in> set recs \<Longrightarrow> record_ok r"
  by (auto simp: log_ok_def in_set_conv_nth next_ok_def)

section \<open>The index\<close>

text \<open>What the store keeps of the records. The digests are found by identifier.\<close>

definition index_inv :: "nat \<Rightarrow> LogRecord list \<Rightarrow> FileEventStore \<Rightarrow> bool" where
  "index_inv n recs s \<longleftrightarrow> log_ok n recs \<and> store_inv (fs_memory s) \<and> es_max_events (fs_memory s) = n \<and>
     map (fst \<circ> entry_of) (es_events (fs_memory s)) = map (accepted_form \<circ> lr_request) recs \<and>
     map (ts_wall \<circ> ev_timestamp) (es_events (fs_memory s)) = map (ts_wall \<circ> lr_timestamp) recs \<and>
     counter (fs_next_session s) = counter (es_next_session (fs_memory s)) \<and>
     counter (fs_next_task s) = counter (es_next_task (fs_memory s)) \<and>
     map_of (fs_integrity_by_id s) = map_of (map (\<lambda>r. (eid r, lr_request_digest r)) recs)"

lemma number_after_counter: "number_after k m = counter m k + 1"
  by (simp add: number_after_def counter_def)

lemma counter_put_number: "counter (put_number k n m) = (counter m)(k := n)"
  by (auto simp: put_number_def counter_def fun_eq_iff split: option.splits)

lemma accepted_form_fields [simp]:
  "ar_event_id (accepted_form q) = ar_event_id q" "ar_runtime_id (accepted_form q) = ar_runtime_id q"
  "ar_session_id (accepted_form q) = ar_session_id q" "ar_task_id (accepted_form q) = ar_task_id q"
  by (simp_all add: accepted_form_def)

lemma index_events:
  assumes "index_inv n recs s"
  shows "map ev_event_id (es_events (fs_memory s)) = map eid recs"
    "map ev_session_id (es_events (fs_memory s)) = map ses recs"
    "map ev_task_id (es_events (fs_memory s)) = map tsk recs"
    "length (es_events (fs_memory s)) = length recs"
proof -
  have m: "map f (map (fst \<circ> entry_of) (es_events (fs_memory s))) = map f (map (accepted_form \<circ> lr_request) recs)"
    for f :: "AppendRequest \<Rightarrow> 'a" using assms by (simp add: index_inv_def)
  show "map ev_event_id (es_events (fs_memory s)) = map eid recs"
    "map ev_session_id (es_events (fs_memory s)) = map ses recs"
    "map ev_task_id (es_events (fs_memory s)) = map tsk recs"
    using m [of ar_event_id] m [of ar_session_id] m [of ar_task_id] by (simp_all add: entry_of_fields comp_def)
  show "length (es_events (fs_memory s)) = length recs" using arg_cong [OF m [of id], of length] by simp
qed

lemma same_keys_count:
  "map f xs = map g ys \<Longrightarrow> length (filter (\<lambda>x. f x = k) xs) = length (filter (\<lambda>y. g y = k) ys)"
proof (induction xs arbitrary: ys)
  case (Cons x xs)
  then show ?case by (cases ys) auto
qed simp

lemma index_counters:
  assumes "index_inv n recs s"
  shows "counter (fs_next_session s) k = of_nat (length (filter (\<lambda>x. ses x = k) recs))"
    "counter (fs_next_task s) t = of_nat (length (filter (\<lambda>x. tsk x = Some t) recs))"
proof -
  have "counter (fs_next_session s) k = of_nat (length (filter (\<lambda>e. ev_session_id e = k) (es_events (fs_memory s))))"
    "counter (fs_next_task s) t = of_nat (length (filter (\<lambda>e. ev_task_id e = Some t) (es_events (fs_memory s))))"
    using assms by (simp_all add: index_inv_def store_inv_def)
  then show "counter (fs_next_session s) k = of_nat (length (filter (\<lambda>x. ses x = k) recs))"
    "counter (fs_next_task s) t = of_nat (length (filter (\<lambda>x. tsk x = Some t) recs))"
    using same_keys_count [OF index_events(2) [OF assms]] same_keys_count [OF index_events(3) [OF assms]] by simp_all
qed

lemma index_numbers:
  assumes "index_inv n recs s" "next_ok n recs r" "ar_session_id q = ses r" "ar_task_id q = tsk r"
  shows "number_after (ar_session_id q) (fs_next_session s) = lr_sequence r" "task_number q s = lr_task_sequence r"
  using assms index_counters [OF assms(1)]
  by (auto simp: number_after_counter task_number_def next_ok_def cong: map_option_cong)

text \<open>The record of the store after an append of \<open>q\<close>, in recovery (\<open>q\<close> is the request of the record)
  and while running (the record drops what is not persistent).\<close>

lemma index_append:
  assumes inv: "index_inv n recs s" and nxt: "next_ok n recs r"
    and q: "accepted_form q = accepted_form (lr_request r)" "valid_durability (ar_required q)"
    and ts: "ts_wall ts = ts_wall (lr_timestamp r)"
  obtains memory receipt where "append_stamped (fs_memory s) q ts og = (memory, Inr receipt)"
    "rc_event_id receipt = eid r" "rc_session_sequence receipt = lr_sequence r" "rc_task_sequence receipt = lr_task_sequence r"
    "\<And>s'. fs_memory s' = memory \<Longrightarrow> fs_next_session s' = fs_next_session s \<Longrightarrow> fs_next_task s' = fs_next_task s \<Longrightarrow>
       fs_integrity_by_id s' = fs_integrity_by_id s \<Longrightarrow>
       index_inv n (recs @ [r]) (index_event q (lr_sequence r) (lr_task_sequence r) (lr_request_digest r) s')"
proof -
  let ?m = "fs_memory s"
  have f: "ar_event_id q = eid r" "ar_runtime_id q = ar_runtime_id (lr_request r)" "ar_session_id q = ses r"
    "ar_task_id q = tsk r" using q(1) by (metis accepted_form_fields)+
  have ids: "\<not> is_nil (ar_event_id q)" "\<not> is_nil (ar_runtime_id q)" "\<not> is_nil (ar_session_id q)"
    using nxt f by (auto simp: next_ok_def record_ok_def request_ok_def)
  have si: "store_inv ?m" "es_max_events ?m = n" using inv by (simp_all add: index_inv_def)
  have fresh: "map_of (es_by_id ?m) (ar_event_id q) = None"
    unfolding store_inv_by_id_fresh [OF si(1)] index_events(1) [OF inv] using nxt f(1) by (auto simp: next_ok_def)
  have room: "length (es_events ?m) < es_max_events ?m"
    using nxt index_events(4) [OF inv] si(2) by (simp add: next_ok_def)
  obtain memory receipt where app: "append_new ?m q ts og = (memory, receipt)" by force
  from append_new_fields [OF app] obtain e where e: "es_events memory = es_events ?m @ [e]"
    "entry_of e = (accepted_form q, ts, og)" "ev_integrity e = digest_string (canonical_request q)"
    "ev_session_sequence e = counter (es_next_session ?m) (ar_session_id q) + 1"
    "ev_task_sequence e = map_option (\<lambda>t. counter (es_next_task ?m) t + 1) (ar_task_id q)"
    "counter (es_next_session memory) = (counter (es_next_session ?m))(ar_session_id q := ev_session_sequence e)"
    "counter (es_next_task memory) = (case ar_task_id q of None \<Rightarrow> counter (es_next_task ?m)
       | Some t \<Rightarrow> (counter (es_next_task ?m))(t := the (ev_task_sequence e)))"
    "es_by_id memory = umap_emplace (ar_event_id q) (length (es_events ?m)) (es_by_id ?m)"
    "es_durable_watermark memory = es_durable_watermark ?m + 1"
    "es_max_events memory = es_max_events ?m" "receipt = receipt_of e (es_durable_watermark ?m + 1)" .
  have c: "counter (es_next_session ?m) = counter (fs_next_session s)" "counter (es_next_task ?m) = counter (fs_next_task s)"
    using inv by (simp_all add: index_inv_def)
  have num: "ev_session_sequence e = lr_sequence r" "ev_task_sequence e = lr_task_sequence r"
    using e(4,5) c index_numbers [OF inv nxt f(3,4)] f(3,4)
    by (simp_all add: number_after_counter task_number_def)
  have ev: "fst (entry_of e) = accepted_form (lr_request r)" "ts_wall (ev_timestamp e) = ts_wall (lr_timestamp r)"
    using e(2) q(1) ts by (auto simp: entry_of_def)
  have ev_id: "ev_event_id e = eid r" using entry_of_fields(1) [of e] e(2) f(1) by simp
  show thesis
  proof (rule that)
    show "append_stamped ?m q ts og = (memory, Inr receipt)"
      using q(2) ids fresh room app by (simp add: append_stamped_def)
    show "rc_event_id receipt = eid r" "rc_session_sequence receipt = lr_sequence r"
      "rc_task_sequence receipt = lr_task_sequence r"
      using e(11) num ev_id by (simp_all add: receipt_of_def)
    fix s' :: FileEventStore assume s': "fs_memory s' = memory" "fs_next_session s' = fs_next_session s" "fs_next_task s' = fs_next_task s"
      "fs_integrity_by_id s' = fs_integrity_by_id s"
    let ?t = "index_event q (lr_sequence r) (lr_task_sequence r) (lr_request_digest r) s'"
    have "store_inv memory" by (rule store_inv_append_new [OF si(1) fresh room ids app])
    moreover have "counter (fs_next_session ?t) = counter (es_next_session memory)"
      using e(6) num c s' by (simp add: index_event_def counter_put_number)
    moreover have "counter (fs_next_task ?t) = counter (es_next_task memory)"
      using e(5,7) num c s' by (auto simp: index_event_def counter_put_number split: option.splits)
    moreover have "map_of (fs_integrity_by_id ?t) = map_of (map (\<lambda>r. (eid r, lr_request_digest r)) (recs @ [r]))"
    proof -
      have "map_of (map (\<lambda>r. (eid r, lr_request_digest r)) recs) (eid r) = None"
        using nxt by (auto simp: next_ok_def map_of_eq_None_iff)
      then show ?thesis using inv s' f(1)
        by (auto simp: index_event_def index_inv_def fun_eq_iff map_add_def split: option.splits)
    qed
    moreover have "log_ok n (recs @ [r])" using inv nxt by (simp add: index_inv_def log_ok_snoc)
    ultimately show "index_inv n (recs @ [r]) ?t"
      using inv e(1,10) ev s' si(2) by (simp add: index_inv_def) (simp add: index_event_def)
  qed
qed

section \<open>The text of the log\<close>

definition log_line :: "LogRecord \<Rightarrow> string" where
  "log_line r = encode_record r @ [CHR 0x0A]"

definition log_prologue :: string where
  "log_prologue = log_header @ [CHR 0x0A] @ log_records @ [CHR 0x0A]"

definition log_text :: "LogRecord list \<Rightarrow> string" where
  "log_text recs = log_prologue @ concat (map log_line recs)"

definition file_inv :: "nat \<Rightarrow> LogRecord list \<Rightarrow> FileEventStore \<Rightarrow> bool" where
  "file_inv n recs s \<longleftrightarrow> index_inv n recs s \<and> fs_loaded s \<and> \<not> fs_read_only s \<and>
     (if fs_v2 s then fs_log s = Some (if fs_needs_separator s then butlast (log_text recs) else log_text recs)
      else recs = [] \<and> (fs_log s = None \<or> fs_log s = Some []) \<and> \<not> fs_needs_separator s)"

lemma log_text_snoc: "log_text (recs @ [r]) = log_text recs @ encode_record r @ [CHR 0x0A]"
  by (simp add: log_text_def log_line_def)

lemma log_text_butlast: "butlast (log_text recs) @ [CHR 0x0A] = log_text recs"
proof (cases recs rule: rev_cases)
  case Nil
  then show ?thesis by (simp add: log_text_def log_prologue_def butlast_append)
next
  case (snoc rs r)
  then show ?thesis by (simp add: log_text_snoc butlast_append)
qed

lemma index_inv_cong:
  "fs_memory s' = fs_memory s \<Longrightarrow> fs_next_session s' = fs_next_session s \<Longrightarrow> fs_next_task s' = fs_next_task s \<Longrightarrow>
     fs_integrity_by_id s' = fs_integrity_by_id s \<Longrightarrow> index_inv n recs s' = index_inv n recs s"
  by (simp add: index_inv_def)

lemma index_inv_open: "index_inv n [] (open_file_store n content)"
  by (simp add: index_inv_def open_file_store_def store_inv_new) (simp add: new_store_def)

lemma recover_record_next:
  assumes "index_inv n recs s" "next_ok n recs r"
  obtains s' where "recover_record r s = (s', None)" "index_inv n (recs @ [r]) s'"
    "fs_v2 s' = fs_v2 s" "fs_log s' = fs_log s"
proof -
  have r: "lr_v2 r" "valid_durability (ar_required (lr_request r))" "lr_request_digest r = digest_string (canonical_request (lr_request r))"
    using assms(2) by (auto simp: next_ok_def record_ok_def valid_durability_def)
  from index_append [OF assms refl r(2) refl] obtain memory receipt where
    app: "append_stamped (fs_memory s) (lr_request r) (lr_timestamp r) PersistedWall = (memory, Inr receipt)"
    "rc_session_sequence receipt = lr_sequence r" "rc_task_sequence receipt = lr_task_sequence r"
    and inv: "\<And>s' :: FileEventStore. fs_memory s' = memory \<Longrightarrow> fs_next_session s' = fs_next_session s \<Longrightarrow>
       fs_next_task s' = fs_next_task s \<Longrightarrow> fs_integrity_by_id s' = fs_integrity_by_id s \<Longrightarrow>
       index_inv n (recs @ [r]) (index_event (lr_request r) (lr_sequence r) (lr_task_sequence r) (lr_request_digest r) s')"
    by metis
  have "index_inv n (recs @ [r]) (index_event (lr_request r) (lr_sequence r) (lr_task_sequence r) (lr_request_digest r) (s\<lparr>fs_memory := memory\<rparr>))"
    by (rule inv) simp_all
  moreover have "recover_record r s =
      (index_event (lr_request r) (lr_sequence r) (lr_task_sequence r) (lr_request_digest r) (s\<lparr>fs_memory := memory\<rparr>), None)"
    using app index_numbers [OF assms refl refl] r by (simp add: recover_record_def Let_def)
  ultimately show thesis using that by (simp add: index_event_def)
qed

lemma strip_return_record [simp]: "strip_return (encode_record r) = encode_record r"
  by (simp add: strip_return_def encode_record_ends)

lemma encode_record_head: "\<not> prefix ''MIRA_EVENT_'' (encode_record r)"
  by (simp add: encode_record_text)

lemma recover_loop_getline:
  assumes "getline breaks input = Some (raw, terminated, rest)" "strip_return raw = raw" "raw \<noteq> []"
  shows "recover_loop a rp breaks input off lg k s =
    (case recover_line a rp raw terminated rest lg k s of
       Halt result \<Rightarrow> result
     | GoOn s \<Rightarrow> recover_loop a rp breaks rest (off + line_bytes raw terminated) (off + line_bytes raw terminated) (Suc k) s
     | Marker \<Rightarrow>
         (case getline breaks rest of
            None \<Rightarrow> file_malformed a rp False lg k s
          | Some (raw', marker_terminated, rest') \<Rightarrow>
              let offset = off + line_bytes raw terminated + line_bytes raw' marker_terminated; marker = strip_return raw' in
              if marker \<noteq> log_records then
                (if prefix marker log_records
                 then file_malformed a rp (marker_terminated \<or> rest' \<noteq> []) lg k s
                 else file_stop ReadOnlyDiagnostic ''event log format marker is invalid'' 0 k s)
              else recover_loop a rp breaks rest' offset offset k
                (s\<lparr>fs_v2 := True, fs_needs_separator := \<not> marker_terminated\<rparr>)))"
  by (rule trans [OF recover_loop.simps]) (simp only: assms Let_def option.case prod.case if_False)

lemma loop_record:
  assumes "index_inv n recs s" "fs_v2 s" "next_ok n recs r"
    and g: "getline breaks input = Some (encode_record r, terminated, rest)"
  obtains s' where
    "recover_loop a rp breaks input off lg k s = recover_loop a rp breaks rest (off + line_bytes (encode_record r) terminated)
       (off + line_bytes (encode_record r) terminated) (Suc k) s'"
    "index_inv n (recs @ [r]) s'" "fs_v2 s'" "fs_needs_separator s' = (\<not> terminated)" "fs_log s' = fs_log s"
proof -
  obtain s1 where s1: "recover_record r s = (s1, None)" "index_inv n (recs @ [r]) s1" "fs_v2 s1 = fs_v2 s" "fs_log s1 = fs_log s"
    using recover_record_next [OF assms(1,3)] .
  have "decode_v2 (encode_record r) = Inr r" using assms(3) by (simp add: decode_encode_record next_ok_def)
  then have "recover_line a rp (encode_record r) terminated rest lg k s = GoOn (s1\<lparr>fs_needs_separator := \<not> terminated\<rparr>)"
    using s1(1) assms(2) encode_record_head by (simp add: recover_line_def)
  then have "recover_loop a rp breaks input off lg k s = recover_loop a rp breaks rest (off + line_bytes (encode_record r) terminated)
       (off + line_bytes (encode_record r) terminated) (Suc k) (s1\<lparr>fs_needs_separator := \<not> terminated\<rparr>)"
    unfolding recover_loop_getline [OF g strip_return_record encode_record_ends(1)] by (simp only: line_effect.case)
  then show thesis
  proof (rule that)
    show "index_inv n (recs @ [r]) (s1\<lparr>fs_needs_separator := \<not> terminated\<rparr>)"
      using s1(2) by (simp add: index_inv_def)
  qed (use s1 assms(2) in simp_all)
qed

lemma getline_record: "record_ok r \<Longrightarrow> getline False (log_line r @ rest) = Some (encode_record r, True, rest)"
  using printable_no_break [OF encode_record_printable] by (simp add: log_line_def getline_terminated)

lemma loop_records:
  "index_inv n recs s \<Longrightarrow> fs_v2 s \<Longrightarrow> log_ok n (recs @ later) \<Longrightarrow> \<not> fs_needs_separator s \<Longrightarrow>
   \<exists>s'. recover_loop a rp False (concat (map log_line later) @ rest) off off k s =
       recover_loop a rp False rest (off + length (concat (map log_line later)))
         (off + length (concat (map log_line later))) (k + length later) s' \<and>
     index_inv n (recs @ later) s' \<and> fs_v2 s' \<and> \<not> fs_needs_separator s' \<and> fs_log s' = fs_log s"
proof (induction later arbitrary: recs s off k)
  case Nil
  then show ?case by auto
next
  case (Cons r later)
  have ok: "next_ok n recs r" using log_ok_prefix [of n "recs @ [r]" later] Cons.prems(3) by (simp add: log_ok_snoc)
  have g: "getline False (concat (map log_line (r # later)) @ rest) = Some (encode_record r, True, concat (map log_line later) @ rest)"
    using getline_record [of r] ok by (simp add: next_ok_def)
  obtain s' where s': "recover_loop a rp False (concat (map log_line (r # later)) @ rest) off off k s =
      recover_loop a rp False (concat (map log_line later) @ rest) (off + line_bytes (encode_record r) True)
        (off + line_bytes (encode_record r) True) (Suc k) s'"
    "index_inv n (recs @ [r]) s'" "fs_v2 s'" "fs_needs_separator s' = (\<not> True)" "fs_log s' = fs_log s"
    using loop_record [OF Cons.prems(1,2) ok g] .
  have "length (log_line r) = line_bytes (encode_record r) True" by (simp add: log_line_def line_bytes_def)
  then show ?case using Cons.IH [of "recs @ [r]" s' "off + line_bytes (encode_record r) True" "Suc k"] s' Cons.prems(3)
    by (simp add: add.assoc)
qed

lemma loop_end: "recover_loop a rp False [] off lg k s = file_stop Clean ''event log recovered'' 0 k s"
  by (subst recover_loop.simps) simp

lemma header_texts:
  "CHR 0x0A \<notin> set log_header" "CHR 0x0A \<notin> set log_records" "strip_return log_header = log_header"
  "strip_return log_records = log_records" "log_header \<noteq> []" "prefix ''MIRA_EVENT_'' log_header" "log_records \<noteq> []"
  "CHR 0x0D \<notin> set log_header" "CHR 0x0D \<notin> set log_records"
  by (simp_all add: log_header_def log_records_def strip_return_def)

lemma loop_prologue:
  assumes "\<not> fs_v2 s" "getline False input = Some (log_header, True, input')" "getline False input' = Some (log_records, terminated, rest)"
  shows "recover_loop a rp False input 0 0 0 s =
    (let off = length log_header + 1 + line_bytes log_records terminated in
     recover_loop a rp False rest off off 0 (s\<lparr>fs_v2 := True, fs_needs_separator := \<not> terminated\<rparr>))"
proof -
  have "recover_line a rp log_header True input' 0 0 s = Marker"
    using assms(1) header_texts by (simp add: recover_line_def)
  then show ?thesis
    unfolding recover_loop_getline [OF assms(2) header_texts(3,5)] assms(3)
    using header_texts by (simp add: Let_def line_bytes_def)
qed

lemma loop_log_text:
  assumes "log_ok n recs"
  obtains s' where "recover_loop a rp False (log_text recs @ rest) 0 0 0 (open_file_store n content) =
      recover_loop a rp False rest (length (log_text recs)) (length (log_text recs)) (length recs) s'"
    "index_inv n recs s'" "fs_v2 s'" "\<not> fs_needs_separator s'" "fs_log s' = content"
proof -
  let ?s = "(open_file_store n content)\<lparr>fs_v2 := True, fs_needs_separator := False\<rparr>"
  let ?body = "concat (map log_line recs) @ rest" and ?len = "length log_prologue"
  have split: "log_text recs @ rest = log_header @ CHR 0x0A # log_records @ CHR 0x0A # ?body"
    by (simp add: log_text_def log_prologue_def)
  have "recover_loop a rp False (log_text recs @ rest) 0 0 0 (open_file_store n content) = recover_loop a rp False ?body ?len ?len 0 ?s"
    unfolding split
    using loop_prologue [of "open_file_store n content" _ "log_records @ CHR 0x0A # ?body" True ?body]
    by (simp add: getline_terminated header_texts open_file_store_def log_prologue_def line_bytes_def Let_def)
  moreover have "index_inv n [] ?s" using index_inv_open [of n content] index_inv_cong [of ?s "open_file_store n content"] by simp
  then obtain s' where "recover_loop a rp False ?body ?len ?len 0 ?s = recover_loop a rp False rest (?len + length (concat (map log_line recs)))
         (?len + length (concat (map log_line recs))) (0 + length recs) s'"
     "index_inv n ([] @ recs) s'" "fs_v2 s'" "\<not> fs_needs_separator s'" "fs_log s' = fs_log ?s"
    using loop_records [of n "[]" ?s recs a rp rest ?len 0] assms by auto
  ultimately show thesis using that by (simp add: log_text_def open_file_store_def)
qed

section \<open>Contents of the log\<close>

text \<open>The contents that stand for a list of records: its text, the text without the last line
  break, the text with a torn record behind it, and before the first record any part of the
  prologue.\<close>

definition holds :: "nat \<Rightarrow> LogRecord list \<Rightarrow> string option \<Rightarrow> bool" where
  "holds n recs content \<longleftrightarrow> log_ok n recs \<and>
     (content = Some (log_text recs) \<or> content = Some (butlast (log_text recs)) \<or>
      (\<exists>r p q. record_ok r \<and> encode_record r = p @ q \<and> p \<noteq> [] \<and> q \<noteq> [] \<and> content = Some (log_text recs @ p)) \<or>
      recs = [] \<and> (content = None \<or> (\<exists>p q. log_prologue = p @ q \<and> q \<noteq> [] \<and> content = Some p)))"

text \<open>A recovery that ends with a usable store.\<close>

definition recovers :: "nat \<Rightarrow> LogRecord list \<Rightarrow> FileEventStore \<times> StoreRecoveryReport \<Rightarrow> bool" where
  "recovers n recs result \<longleftrightarrow> file_inv n recs (fst result) \<and> rr_status (snd result) \<in> {Clean, TailTruncated} \<and>
     rr_events_recovered (snd result) = length recs"

abbreviation recover_content :: "nat \<Rightarrow> string option \<Rightarrow> FileEventStore \<times> StoreRecoveryReport" where
  "recover_content n content \<equiv> file_recover file_works True (open_file_store n content)"

lemma recover_content_loop:
  "recover_content n (Some content) = recover_loop file_works True False content 0 0 0 (open_file_store n (Some content))"
  by (simp add: file_recover_def file_works_def open_file_store_def)

lemma recovers_clean:
  assumes "index_inv n recs s" "fs_v2 s" "fs_log s = Some (if fs_needs_separator s then butlast (log_text recs) else log_text recs)"
  shows "recovers n recs (file_stop Clean m 0 (length recs) s)"
  using assms by (simp add: recovers_def file_stop_def file_inv_def index_inv_def)

lemma recover_log_text: "log_ok n recs \<Longrightarrow> recovers n recs (recover_content n (Some (log_text recs)))"
proof -
  assume "log_ok n recs"
  then obtain s' where s': "recover_loop file_works True False (log_text recs @ []) 0 0 0 (open_file_store n (Some (log_text recs))) =
      recover_loop file_works True False [] (length (log_text recs)) (length (log_text recs)) (length recs) s'"
    "index_inv n recs s'" "fs_v2 s'" "\<not> fs_needs_separator s'" "fs_log s' = Some (log_text recs)"
    by (rule loop_log_text)
  then show ?thesis using recovers_clean [of n recs s'] by (simp add: recover_content_loop loop_end)
qed

lemma printable_part: "printable s \<Longrightarrow> s = p @ q \<Longrightarrow> printable p"
  by (simp add: printable_def)

lemma recover_unterminated:
  assumes "log_ok n recs"
  shows "recovers n recs (recover_content n (Some (butlast (log_text recs))))"
proof (cases recs rule: rev_cases)
  case Nil
  let ?content = "log_header @ CHR 0x0A # log_records" and ?s = "\<lambda>c. (open_file_store n (Some c))\<lparr>fs_v2 := True, fs_needs_separator := True\<rparr>"
  have txt_eq: "butlast (log_text recs) = ?content" using Nil by (simp add: log_text_def log_prologue_def butlast_append)
  have "recover_content n (Some ?content) = file_stop Clean ''event log recovered'' 0 0 (?s ?content)"
    using loop_prologue [of "open_file_store n (Some ?content)" ?content log_records False "[]" file_works True]
    unfolding recover_content_loop by (simp add: getline_terminated getline_last header_texts open_file_store_def Let_def loop_end)
  moreover have "index_inv n [] (?s ?content)" using index_inv_open [of n "Some ?content"] by (simp add: index_inv_def)
  ultimately show ?thesis using recovers_clean [of n "[]" "?s ?content"] txt_eq Nil
    by (simp add: open_file_store_def)
next
  case (snoc rs r)
  let ?content = "log_text rs @ encode_record r"
  have txt_eq: "butlast (log_text recs) = ?content" using snoc by (simp add: log_text_snoc butlast_append)
  have ok: "log_ok n rs" "next_ok n rs r" using assms snoc by (simp_all add: log_ok_snoc)
  have g: "getline False (encode_record r) = Some (encode_record r, False, [])"
    using printable_no_break [OF encode_record_printable] ok(2) encode_record_ends(1)
    by (simp add: getline_last next_ok_def)
  obtain s1 where s1: "recover_content n (Some ?content) = recover_loop file_works True False (encode_record r)
      (length (log_text rs)) (length (log_text rs)) (length rs) s1"
    "index_inv n rs s1" "fs_v2 s1" "fs_log s1 = Some ?content"
    using loop_log_text [OF ok(1), of file_works True "encode_record r" "Some ?content"] by (auto simp: recover_content_loop)
  obtain s2 where "recover_content n (Some ?content) = file_stop Clean ''event log recovered'' 0 (length recs) s2"
    "index_inv n recs s2" "fs_v2 s2" "fs_needs_separator s2" "fs_log s2 = Some ?content"
    using loop_record [OF s1(2,3) ok(2) g, of file_works True "length (log_text rs)" "length (log_text rs)" "length rs"] s1 snoc
    by (auto simp: loop_end)
  then show ?thesis using recovers_clean [of n recs s2] txt_eq by simp
qed

lemma recover_torn_record:
  assumes "log_ok n recs" "record_ok r" "encode_record r = p @ q" "p \<noteq> []" "q \<noteq> []"
  shows "recovers n recs (recover_content n (Some (log_text recs @ p)))"
proof -
  let ?k = "length (log_text recs)"
  obtain s1 where s1: "recover_content n (Some (log_text recs @ p)) = recover_loop file_works True False p ?k ?k (length recs) s1"
    "index_inv n recs s1" "fs_v2 s1" "fs_log s1 = Some (log_text recs @ p)"
    using loop_log_text [OF assms(1), of file_works True p "Some (log_text recs @ p)"] by (auto simp: recover_content_loop)
  have p: "printable p" using printable_part [OF encode_record_printable [OF assms(2)] assms(3)] .
  have g: "getline False p = Some (p, False, [])" using printable_no_break [OF p] assms(4) by (simp add: getline_last)
  have strip: "strip_return p = p"
    using printable_no_break [OF p] last_in_set [OF assms(4)] by (metis strip_return_def)
  have "hd p = CHR ''E''" using assms(3,4) by (cases p) (auto simp: encode_record_text)
  then have head: "\<not> prefix ''MIRA_EVENT_'' p" by (cases p) auto
  obtain m where "decode_v2 p = wire_fail ErrorCode.InvalidArgument m"
    using decode_strict_prefix [OF assms(2,3,5)] by blast
  then have "recover_line file_works True p False [] ?k (length recs) s1 = Halt (file_malformed file_works True False ?k (length recs) s1)"
    using head s1(3) by (simp add: recover_line_def wire_failure_def)
  then have "recover_content n (Some (log_text recs @ p)) = file_malformed file_works True False ?k (length recs) s1"
    unfolding s1(1) recover_loop_getline [OF g strip assms(4)] by simp
  also have "\<dots> = file_stop TailTruncated ''incomplete event log tail truncated'' (length p) (length recs)
      (s1\<lparr>fs_log := Some (log_text recs), fs_needs_separator := False\<rparr>)"
    using s1(4) by (simp add: file_malformed_def file_works_def)
  finally show ?thesis using s1(2,3) by (simp add: recovers_def file_stop_def file_inv_def index_inv_def)
qed


text \<open>The prologue: no part of it is a record of the first format.\<close>

lemma legacy_no_digit: "s = CHR ''M'' # t \<Longrightarrow> decode_legacy s = wire_fail ErrorCode.InvalidArgument ''legacy event record is incomplete''"
  by (simp add: decode_legacy_def legacy_head_def extract_unsigned_def is_space_char_def is_digit_def)

lemma prologue_unfinished:
  assumes "recover_content n (Some p) = file_malformed file_works True False 0 0 (open_file_store n (Some p))"
  shows "recovers n [] (recover_content n (Some p))"
proof -
  have "recover_content n (Some p) = file_stop TailTruncated ''incomplete event log tail truncated'' (length p) 0
      (open_file_store n (Some []))"
    unfolding assms by (simp add: file_malformed_def file_works_def open_file_store_def)
  then show ?thesis using index_inv_open [of n "Some []"]
    by (simp add: recovers_def file_stop_def file_inv_def index_inv_def) (simp add: open_file_store_def)
qed

lemma recover_torn_header:
  assumes "log_header = p @ q" "p \<noteq> []"
  shows "recovers n [] (recover_content n (Some p))"
proof (rule prologue_unfinished)
  let ?s = "open_file_store n (Some p)"
  have v: "\<not> fs_v2 ?s" by (simp add: open_file_store_def)
  have no_break: "CHR 0x0A \<notin> set p" "CHR 0x0D \<notin> set p"
    using header_texts(1,8) unfolding assms(1) by simp_all
  have g: "getline False p = Some (p, False, [])" using no_break assms(2) by (simp add: getline_last)
  have strip: "strip_return p = p" using no_break(2) last_in_set [OF assms(2)] by (metis strip_return_def)
  obtain t where t: "p = CHR ''M'' # t" using assms by (cases p) (auto simp: log_header_def)
  have "recover_line file_works True p False [] 0 0 ?s = (if p = log_header then Marker
      else Halt (file_malformed file_works True False 0 0 ?s))"
  proof (cases "prefix ''MIRA_EVENT_'' p")
    case True
    moreover have "prefix p log_header" unfolding assms(1) by simp
    ultimately show ?thesis using v by (auto simp: recover_line_def)
  next
    case False
    then have "p \<noteq> log_header" using header_texts(6) by metis
    then show ?thesis using False v legacy_no_digit [OF t] by (simp add: recover_line_def wire_failure_def) (simp add: t)
  qed
  then show "recover_content n (Some p) = file_malformed file_works True False 0 0 ?s"
    unfolding recover_content_loop recover_loop_getline [OF g strip assms(2)] by simp
qed

lemma recover_torn_marker:
  assumes "log_records = p @ q" "q \<noteq> []"
  shows "recovers n [] (recover_content n (Some (log_header @ CHR 0x0A # p)))" (is "recovers n [] (recover_content n (Some ?c))")
proof (rule prologue_unfinished)
  let ?s = "open_file_store n (Some ?c)"
  have v: "\<not> fs_v2 ?s" by (simp add: open_file_store_def)
  have g: "getline False ?c = Some (log_header, True, p)" using header_texts(1) by (simp add: getline_terminated)
  have no_break: "CHR 0x0A \<notin> set p" "CHR 0x0D \<notin> set p"
    using header_texts(2,9) unfolding assms(1) by simp_all
  have strip: "strip_return p = p" using no_break(2) last_in_set [of p] by (metis strip_return_def)
  have "recover_line file_works True log_header True p 0 0 ?s = Marker"
    using v header_texts by (simp add: recover_line_def)
  moreover have "p \<noteq> log_records" "prefix p log_records" unfolding assms(1) using assms(2) by simp_all
  ultimately show "recover_content n (Some ?c) = file_malformed file_works True False 0 0 ?s"
    unfolding recover_content_loop recover_loop_getline [OF g header_texts(3,5)]
    using no_break(1) strip by (cases "p = []") (simp_all add: getline_last Let_def)
qed

lemma recover_empty: "recovers n [] (recover_content n (Some []))" "recovers n [] (recover_content n None)"
  using index_inv_open [of n "Some []"] index_inv_open [of n None]
  by (simp_all add: recover_content_loop loop_end recovers_def file_stop_def file_inv_def index_inv_def)
    (simp_all add: open_file_store_def file_recover_def)

lemma split_marked: "xs @ m # ys = p @ q \<Longrightarrow> (\<exists>q'. xs = p @ q') \<or> (\<exists>p'. p = xs @ m # p' \<and> ys = p' @ q)"
  by (auto simp: append_eq_append_conv2 Cons_eq_append_conv)

lemma recover_torn_prologue:
  assumes "log_prologue = p @ q" "q \<noteq> []"
  shows "recovers n [] (recover_content n (Some p))"
proof -
  consider q' where "log_header = p @ q'" | p' where "p = log_header @ CHR 0x0A # p'" "log_records @ [CHR 0x0A] = p' @ q"
    using assms(1) split_marked [of log_header "CHR 0x0A" "log_records @ [CHR 0x0A]" p q] by (auto simp: log_prologue_def)
  then show ?thesis
  proof cases
    case 1
    then show ?thesis using recover_torn_header recover_empty(1) by (cases "p = []") auto
  next
    case 2
    from 2(2) assms(2) obtain q' where q': "log_records = p' @ q'"
      by (metis append_butlast_last_id append_eq_append_conv2 append_is_Nil_conv butlast_append butlast_snoc)
    show ?thesis
    proof (cases "q' = []")
      case True
      then have "p = butlast (log_text [])" using 2(1) q' by (simp add: log_text_def log_prologue_def butlast_append)
      then show ?thesis using recover_unterminated [of n "[]"] by simp
    qed (use recover_torn_marker [OF q'] 2(1) in simp)
  qed
qed

text \<open>A content that stands for a list of records recovers this list.\<close>

lemma recover_holds: "holds n recs content \<Longrightarrow> recovers n recs (recover_content n content)"
  unfolding holds_def using recover_log_text recover_unterminated recover_torn_record recover_torn_prologue recover_empty(2)
  by metis


section \<open>Appending\<close>

text \<open>The record that an append of a request leaves in the log: the required durability and the
  monotonic time are not persistent.\<close>

definition stored_record :: "LogRecord list \<Rightarrow> Timestamp \<Rightarrow> AppendRequest \<Rightarrow> LogRecord" where
  "stored_record recs now q =
     \<lparr>lr_request = q\<lparr>ar_required := ProcessCrash\<rparr>,
      lr_sequence = of_nat (length (filter (\<lambda>x. ses x = ar_session_id q) recs)) + 1,
      lr_task_sequence = map_option (\<lambda>t. of_nat (length (filter (\<lambda>x. tsk x = Some t) recs)) + 1) (ar_task_id q),
      lr_request_digest = digest_string (canonical_request q),
      lr_timestamp = timestamp_default\<lparr>ts_wall := ts_wall now\<rparr>, lr_v2 = True\<rparr>"

definition time_ok :: "Timestamp \<Rightarrow> bool" where
  "time_ok now \<longleftrightarrow> \<bar>ts_wall now\<bar> \<le> int64_max"

lemma encode_record_cong:
  "ar_event_id (lr_request a) = ar_event_id (lr_request b) \<Longrightarrow> ar_runtime_id (lr_request a) = ar_runtime_id (lr_request b) \<Longrightarrow>
   ar_session_id (lr_request a) = ar_session_id (lr_request b) \<Longrightarrow> ar_task_id (lr_request a) = ar_task_id (lr_request b) \<Longrightarrow>
   ar_cause (lr_request a) = ar_cause (lr_request b) \<Longrightarrow> ar_payload (lr_request a) = ar_payload (lr_request b) \<Longrightarrow>
   lr_sequence a = lr_sequence b \<Longrightarrow> lr_task_sequence a = lr_task_sequence b \<Longrightarrow>
   ts_wall (lr_timestamp a) = ts_wall (lr_timestamp b) \<Longrightarrow> lr_request_digest a = lr_request_digest b \<Longrightarrow>
   encode_record a = encode_record b"
  by (simp add: encode_record_def record_digest_def record_fields_def Let_def)

lemma of_nat_suc_nonzero: "k < 2 ^ 64 - 1 \<Longrightarrow> (of_nat k + 1 :: u64) \<noteq> 0"
proof -
  assume k: "k < 2 ^ 64 - 1"
  have "(of_nat (Suc k) :: u64) = 0 \<longleftrightarrow> 2 ^ 64 dvd Suc k" using word_of_nat_eq_0_iff [where ?'a = 64, of "Suc k"] by simp
  moreover have "\<not> 2 ^ 64 dvd Suc k" using k by (intro nat_dvd_not_less) simp_all
  ultimately show ?thesis by (simp add: add.commute)
qed

lemma canonical_required [simp]: "canonical_request (q\<lparr>ar_required := d\<rparr>) = canonical_request q"
  by (simp add: canonical_request_def request_envelope_def)

lemma stored_record_next:
  assumes "request_ok q" "time_ok now" "length recs < n" "n < 2 ^ 64" "ar_event_id q \<notin> eid ` set recs"
  shows "next_ok n recs (stored_record recs now q)"
proof -
  have few: "length (filter P recs) < 2 ^ 64 - 1" for P
    using assms(3,4) length_filter_le [of P recs] by linarith
  have "request_ok (q\<lparr>ar_required := ProcessCrash\<rparr>)" using assms(1) by (simp add: request_ok_def)
  moreover have "ts_monotonic timestamp_default = 0" by (simp add: timestamp_default_def)
  ultimately show ?thesis using assms few
    by (auto simp: next_ok_def record_ok_def stored_record_def time_ok_def of_nat_suc_nonzero split: option.splits)
qed

lemma append_written_index:
  assumes inv: "index_inv n recs s" and nxt: "next_ok n recs (stored_record recs now q)"
    and rec: "lr_sequence rec = lr_sequence (stored_record recs now q)"
      "lr_task_sequence rec = lr_task_sequence (stored_record recs now q)"
      "lr_request_digest rec = digest_string (canonical_request q)" "lr_timestamp rec = now"
    and d: "valid_durability (ar_required q)"
  obtains s' receipt where "append_written q rec s = (s', Inr receipt)" "index_inv n (recs @ [stored_record recs now q]) s'"
    "rc_event_id receipt = ar_event_id q" "rc_session_sequence receipt = lr_sequence (stored_record recs now q)"
    "rc_task_sequence receipt = lr_task_sequence (stored_record recs now q)" "rc_achieved receipt = ProcessCrash"
    "fs_log s' = fs_log s" "fs_v2 s' = fs_v2 s" "fs_needs_separator s' = fs_needs_separator s"
    "fs_loaded s' = fs_loaded s" "fs_read_only s' = fs_read_only s"
proof -
  let ?r = "stored_record recs now q"
  have r: "accepted_form q = accepted_form (lr_request ?r)" "ts_wall now = ts_wall (lr_timestamp ?r)"
    "lr_request_digest ?r = digest_string (canonical_request q)" "eid ?r = ar_event_id q"
    by (simp_all add: stored_record_def accepted_form_def)
  obtain memory receipt where app: "append_stamped (fs_memory s) q now AppendProcess = (memory, Inr receipt)"
    "rc_event_id receipt = eid ?r" "rc_session_sequence receipt = lr_sequence ?r" "rc_task_sequence receipt = lr_task_sequence ?r"
    and inv': "\<And>s' :: FileEventStore. fs_memory s' = memory \<Longrightarrow> fs_next_session s' = fs_next_session s \<Longrightarrow>
       fs_next_task s' = fs_next_task s \<Longrightarrow> fs_integrity_by_id s' = fs_integrity_by_id s \<Longrightarrow>
       index_inv n (recs @ [?r]) (index_event q (lr_sequence ?r) (lr_task_sequence ?r) (lr_request_digest ?r) s')"
    using index_append [OF inv nxt r(1) d r(2)] by metis
  let ?t = "index_event q (lr_sequence ?r) (lr_task_sequence ?r) (lr_request_digest ?r) (s\<lparr>fs_memory := memory\<rparr>)"
  have "append_written q rec s = (?t, Inr (receipt\<lparr>rc_achieved := ProcessCrash\<rparr>))"
    using app rec r(3) by (simp add: append_written_def Let_def)
  moreover have "index_inv n (recs @ [?r]) ?t" by (rule inv') simp_all
  ultimately show thesis using that [of ?t "receipt\<lparr>rc_achieved := ProcessCrash\<rparr>"] app r(4) by (simp add: index_event_def)
qed

end
