(* ===== verification/File_Runs.thy ===== *)
theory File_Runs
  imports File_Recovery
begin

text \<open>
  Runs of the file store. A run appends, reads, flushed and restarts; a write may stop after any
  number of bytes. Every state of a run stands for a list of records, and an operation leaves
  the list as it is or adds one whole record.
\<close>

section \<open>Writes that stop early\<close>

definition log_content :: "FileEventStore \<Rightarrow> string" where
  "log_content s = (case fs_log s of None \<Rightarrow> '''' | Some c \<Rightarrow> c)"

lemma file_inv_holds: "file_inv n recs s \<Longrightarrow> holds n recs (fs_log s)"
  by (auto simp: file_inv_def holds_def index_inv_def log_prologue_def split: if_splits)

lemma holds_text: "log_ok n recs \<Longrightarrow> holds n recs (Some (log_text recs))"
  "log_ok n recs \<Longrightarrow> holds n recs (Some (butlast (log_text recs)))"
  by (simp_all add: holds_def)

lemma holds_torn:
  "log_ok n recs \<Longrightarrow> record_ok r \<Longrightarrow> encode_record r = p @ q \<Longrightarrow> p \<noteq> [] \<Longrightarrow> q \<noteq> [] \<Longrightarrow>
     holds n recs (Some (log_text recs @ p))"
  unfolding holds_def by (rule conjI, assumption, rule disjI2, rule disjI2, rule disjI1) blast

lemma append_cut: "xs @ ys = c @ d \<Longrightarrow> length xs \<le> length c \<Longrightarrow> \<exists>p. c = xs @ p \<and> ys = p @ d"
  by (auto simp: append_eq_append_conv2)

text \<open>A part of the text of the records that ends inside the last record.\<close>

lemma cut_holds:
  assumes "log_ok n recs" "next_ok n recs r" "log_text (recs @ [r]) = c @ d"
    and "recs = [] \<or> length (log_text recs) \<le> Suc (length c)"
  shows "holds n recs (Some c) \<or> holds n (recs @ [r]) (Some c)"
proof (cases "length (log_text recs) \<le> length c")
  case True
  then obtain p where c: "c = log_text recs @ p" and p: "encode_record r @ [CHR 0x0A] = p @ d"
    using append_cut assms(3) unfolding log_text_snoc by metis
  have ok: "log_ok n (recs @ [r])" "record_ok r" using assms(1,2) by (simp_all add: log_ok_snoc next_ok_def)
  show ?thesis
  proof (cases d rule: rev_cases)
    case Nil
    then show ?thesis using c p holds_text(1) [OF ok(1)] by (simp add: log_text_snoc)
  next
    case (snoc d' x)
    then have e: "encode_record r = p @ d'" using p by simp
    consider "d' = []" | "p = []" | "d' \<noteq> []" "p \<noteq> []" by auto
    then show ?thesis
    proof cases
      case 1
      then show ?thesis using c e holds_text(2) [OF ok(1)] by (simp add: log_text_snoc butlast_append)
    next
      case 2
      then show ?thesis using c holds_text(1) [OF assms(1)] by simp
    next
      case 3
      then show ?thesis using c holds_torn [OF assms(1) ok(2) e] by simp
    qed
  qed
next
  case False
  then obtain q where q: "log_text recs = c @ q" "q \<noteq> []"
    using assms(3) by (auto simp: log_text_snoc append_eq_append_conv2)
  show ?thesis
  proof (cases "recs = []")
    case True
    then have "log_prologue = c @ q" using q(1) by (simp add: log_text_def)
    then show ?thesis using True q(2) by (simp add: holds_def) metis
  next
    case False
    then obtain x where "q = [x]" using assms(4) q by (cases q) (auto simp: Suc_le_eq)
    then show ?thesis using q holds_text(2) [OF assms(1)] by (simp add: butlast_append)
  qed
qed

lemma append_output_text:
  assumes "file_inv n recs s" "encode_record rec = encode_record r"
  shows "log_content s @ append_output rec s = log_text (recs @ [r])"
    and "recs = [] \<or> length (log_text recs) \<le> Suc (length (log_content s))"
proof -
  have l: "length (log_text recs) = Suc (length (butlast (log_text recs)))" for recs
    using arg_cong [OF log_text_butlast [of recs], of length] by simp
  have "butlast (log_text recs) @ CHR 0x0A # x = log_text recs @ x" for x
    using log_text_butlast [of recs] by (metis append.assoc append_Cons append_Nil)
  then show "log_content s @ append_output rec s = log_text (recs @ [r])"
    using assms by (auto simp: file_inv_def append_output_def log_content_def log_text_snoc split: if_splits)
      (auto simp: log_text_def log_prologue_def)
  show "recs = [] \<or> length (log_text recs) \<le> Suc (length (log_content s))"
    using assms(1) l [of recs] by (auto simp: file_inv_def log_content_def split: if_splits)
qed

lemma torn_append_holds:
  assumes "file_inv n recs s" "next_ok n recs r" "encode_record rec = encode_record r"
  shows "holds n recs (Some (log_content s @ take k (append_output rec s))) \<or>
    holds n (recs @ [r]) (Some (log_content s @ take k (append_output rec s)))"
proof (rule cut_holds [where d = "drop k (append_output rec s)"])
  show "log_text (recs @ [r]) = (log_content s @ take k (append_output rec s)) @ drop k (append_output rec s)"
    using append_output_text(1) [OF assms(1,3)] by simp
  show "recs = [] \<or> length (log_text recs) \<le> Suc (length (log_content s @ take k (append_output rec s)))"
    using append_output_text(2) [OF assms(1,3)] by auto
qed (use assms in \<open>simp_all add: file_inv_def index_inv_def\<close>)


section \<open>States of a run\<close>

definition file_rel :: "nat \<Rightarrow> LogRecord list \<Rightarrow> FileEventStore \<Rightarrow> bool" where
  "file_rel n recs s \<longleftrightarrow> es_max_events (fs_memory s) = n \<and> holds n recs (fs_log s) \<and>
     (if fs_loaded s then fs_read_only s \<or> file_inv n recs s else s = open_file_store n (fs_log s))"

text \<open>A receipt is right about a list of records.\<close>

definition acknowledged :: "LogRecord list \<Rightarrow> AppendRequest \<Rightarrow> AppendReceipt \<Rightarrow> bool" where
  "acknowledged recs q receipt \<longleftrightarrow> rc_event_id receipt = ar_event_id q \<and>
     (\<exists>r\<in>set recs. accepted_form (lr_request r) = accepted_form q \<and> lr_sequence r = rc_session_sequence receipt \<and>
        lr_task_sequence r = rc_task_sequence receipt)"

lemma acknowledged_mono: "acknowledged recs q receipt \<Longrightarrow> acknowledged (recs @ later) q receipt"
  by (auto simp: acknowledged_def)

lemma file_rel_open: "holds n recs content \<Longrightarrow> file_rel n recs (open_file_store n content)"
  by (simp add: file_rel_def open_file_store_def new_store_def)

lemma file_rel_inv: "file_inv n recs s \<Longrightarrow> file_rel n recs s"
  by (auto simp: file_rel_def file_inv_holds) (simp_all add: file_inv_def index_inv_def)

lemma file_rel_reopen: "file_rel n recs s \<Longrightarrow> file_rel n recs (reopen s)"
  using file_rel_open [of n recs "fs_log s"] by (simp add: reopen_def) (simp add: file_rel_def)

lemma open_not_loaded [simp]: "\<not> fs_loaded (open_file_store n c)"
  by (simp add: open_file_store_def)

text \<open>After the guard of an operation the store is loaded, or it is read-only.\<close>

lemma file_recover_rel:
  assumes "file_rel n recs s"
  shows "file_rel n recs (fst (file_recover file_works True s))"
    "fs_read_only (fst (file_recover file_works True s)) \<or> file_inv n recs (fst (file_recover file_works True s))"
proof -
  have "(file_recover file_works True s = (s, snd (file_recover file_works True s)) \<and> (fs_read_only s \<or> file_inv n recs s)) \<or>
     file_inv n recs (fst (file_recover file_works True s))"
  proof (cases "fs_loaded s")
    case True
    then show ?thesis using assms by (simp add: file_recover_def file_rel_def)
  next
    case False
    then have s: "s = open_file_store n (fs_log s)" "holds n recs (fs_log s)" using assms by (simp_all add: file_rel_def)
    have "file_inv n recs (fst (recover_content n (fs_log s)))" using recover_holds [OF s(2)] by (simp add: recovers_def)
    then show ?thesis using s(1) by simp
  qed
  then show "file_rel n recs (fst (file_recover file_works True s))"
    "fs_read_only (fst (file_recover file_works True s)) \<or> file_inv n recs (fst (file_recover file_works True s))"
    using assms file_rel_inv by (metis fst_conv)+
qed

lemma recover_usable:
  assumes "file_rel n recs s" "\<not> fs_loaded s"
  shows "\<not> unusable (rr_status (snd (file_recover file_works True s)))" "file_inv n recs (fst (file_recover file_works True s))"
proof -
  have s: "s = open_file_store n (fs_log s)" "holds n recs (fs_log s)" using assms by (simp_all add: file_rel_def)
  have "recovers n recs (file_recover file_works True s)" using recover_holds [OF s(2)] s(1) by simp
  then show "\<not> unusable (rr_status (snd (file_recover file_works True s)))" "file_inv n recs (fst (file_recover file_works True s))"
    by (auto simp: recovers_def unusable_def)
qed

lemma ensure_loaded_rel:
  assumes "file_rel n recs s"
  obtains s' where "ensure_loaded file_works s = (s', Inr ())" "file_inv n recs s'"
  | "ensure_loaded file_works s = (s, Inl read_only_error)" "fs_loaded s" "fs_read_only s"
proof (cases "fs_loaded s")
  case True
  then show thesis using that assms by (cases "fs_read_only s") (auto simp: ensure_loaded_def file_rel_def)
next
  case False
  then show thesis using that(1) [of "fst (file_recover file_works True s)"] recover_usable [OF assms]
    by (simp add: ensure_loaded_def case_prod_beta)
qed

lemma file_inv_flags: "file_inv n recs s \<Longrightarrow> fs_loaded s \<and> \<not> fs_read_only s \<and> index_inv n recs s"
  by (simp add: file_inv_def)

section \<open>Records and events\<close>

lemma rank_count: "i < length xs \<Longrightarrow> rank key xs i = Suc (length (filter (\<lambda>x. key x = key (xs ! i)) (take i xs)))"
  by (simp add: rank_def take_Suc_conv_app_nth)

lemma index_event_at:
  assumes "index_inv n recs s" "i < length recs"
  shows "fst (entry_of (es_events (fs_memory s) ! i)) = accepted_form (lr_request (recs ! i))"
    "ev_session_sequence (es_events (fs_memory s) ! i) = lr_sequence (recs ! i)"
    "ev_task_sequence (es_events (fs_memory s) ! i) = lr_task_sequence (recs ! i)"
proof -
  let ?es = "es_events (fs_memory s)"
  note keys = index_events [OF assms(1)]
  have i: "i < length ?es" using keys(4) assms(2) by simp
  show "fst (entry_of (?es ! i)) = accepted_form (lr_request (recs ! i))"
    using arg_cong [of _ _ "\<lambda>xs. xs ! i", OF conjunct1 [OF conjunct2 [OF conjunct2 [OF conjunct2 [OF assms(1) [unfolded index_inv_def]]]]]] i assms(2)
    by simp
  have at: "ev_session_id (?es ! i) = ses (recs ! i)" "ev_task_id (?es ! i) = tsk (recs ! i)"
    using keys(2,3) i assms(2) by (metis nth_map)+
  have count: "length (filter (\<lambda>e. ev_session_id e = k) (take i ?es)) = length (filter (\<lambda>r. ses r = k) (take i recs))"
    "length (filter (\<lambda>e. ev_task_id e = t) (take i ?es)) = length (filter (\<lambda>r. tsk r = t) (take i recs))" for k t
    using same_keys_count keys(2,3) by (metis take_map)+
  have nxt: "next_ok n (take i recs) (recs ! i)" using assms by (simp add: index_inv_def log_ok_def)
  have "ev_session_sequence (?es ! i) = of_nat (rank ev_session_id ?es i)"
    "ev_task_sequence (?es ! i) = map_option (\<lambda>_. of_nat (rank ev_task_id ?es i)) (ev_task_id (?es ! i))"
    using assms(1) i by (simp_all add: index_inv_def store_inv_def)
  then show "ev_session_sequence (?es ! i) = lr_sequence (recs ! i)" "ev_task_sequence (?es ! i) = lr_task_sequence (recs ! i)"
    using nxt by (cases "tsk (recs ! i)"; simp add: rank_count [OF i] at count next_ok_def add.commute)+
qed


lemma index_find:
  assumes "index_inv n recs s" "store_find (fs_memory s) i = Some e"
  obtains r where "r \<in> set recs" "eid r = i" "fst (entry_of e) = accepted_form (lr_request r)"
    "ev_session_sequence e = lr_sequence r" "ev_task_sequence e = lr_task_sequence r"
proof -
  obtain k where k: "map_of (es_by_id (fs_memory s)) i = Some k" "e = es_events (fs_memory s) ! k"
    using assms(2) by (auto simp: store_find_def split: option.splits)
  then have "k < length recs" "ev_event_id e = i"
    using assms(1) index_events(4) [OF assms(1)] by (auto simp: index_inv_def store_inv_def)
  then show thesis using that [of "recs ! k"] index_event_at [OF assms(1)] k(2) entry_of_fields(1) [of e] by simp
qed

lemma index_find_record:
  assumes "index_inv n recs s" "r \<in> set recs"
  obtains e where "store_find (fs_memory s) (eid r) = Some e" "fst (entry_of e) = accepted_form (lr_request r)"
    "ev_session_sequence e = lr_sequence r" "ev_task_sequence e = lr_task_sequence r"
proof -
  obtain k where k: "k < length recs" "r = recs ! k" using assms(2) by (auto simp: in_set_conv_nth)
  then have "ev_event_id (es_events (fs_memory s) ! k) = eid r" using index_events(1,4) [OF assms(1)] by (metis nth_map)
  then have "map_of (es_by_id (fs_memory s)) (eid r) = Some k"
    using assms(1) k(1) index_events(4) [OF assms(1)] by (simp add: index_inv_def store_inv_def)
  then show thesis using that index_event_at [OF assms(1) k(1)] k(2) by (simp add: store_find_def)
qed

lemma index_known: "index_inv n recs s \<Longrightarrow> map_of (fs_integrity_by_id s) i = None \<longleftrightarrow> i \<notin> eid ` set recs"
  by (auto simp: index_inv_def map_of_eq_None_iff image_image)

section \<open>One append\<close>

text \<open>An identifier that the log holds: the receipt of the first append, or a refusal.\<close>

lemma append_known_result:
  assumes "index_inv n recs s" "append_known_event q stored requested s = Inr receipt"
  shows "acknowledged recs q receipt \<and> rc_achieved receipt = ProcessCrash"
proof -
  obtain e where e: "store_find (fs_memory s) (ar_event_id q) = Some e" "same_request e q"
    "receipt = \<lparr>rc_event_id = ev_event_id e, rc_session_sequence = ev_session_sequence e,
       rc_task_sequence = ev_task_sequence e, rc_durable_watermark = 0, rc_achieved = ProcessCrash\<rparr>"
    using assms(2) by (auto simp: append_known_event_def split: if_splits option.splits)
  obtain r where "r \<in> set recs" "eid r = ar_event_id q" "fst (entry_of e) = accepted_form (lr_request r)"
    "ev_session_sequence e = lr_sequence r" "ev_task_sequence e = lr_task_sequence r"
    by (rule index_find [OF assms(1) e(1)])
  moreover have "ev_event_id e = ar_event_id q" using e(2) by (simp add: same_request_def)
  ultimately show ?thesis using e(2,3) by (auto simp: acknowledged_def same_request_accepted)
qed

lemma append_known_again:
  assumes "index_inv n recs s" "r \<in> set recs" "accepted_form (lr_request r) = accepted_form q"
    "map_of (fs_integrity_by_id s) (ar_event_id q) = Some stored"
  obtains receipt where "append_known_event q stored (digest_string (canonical_request q)) s = Inr receipt"
proof -
  have id: "eid r = ar_event_id q" using assms(3) by (metis accepted_form_fields(1))
  obtain e where e: "store_find (fs_memory s) (eid r) = Some e" "fst (entry_of e) = accepted_form (lr_request r)"
    by (rule index_find_record [OF assms(1,2)])
  have d: "distinct (map eid recs)"
    using assms(1) index_events(1) [OF assms(1)] by (simp add: index_inv_def store_inv_def)
  have "map_of (map (\<lambda>r. (eid r, lr_request_digest r)) recs) (eid r) = Some (lr_request_digest r)"
    using assms(2) d by (intro map_of_is_SomeI) (auto simp: comp_def)
  then have "stored = lr_request_digest r" using assms(1,4) id by (simp add: index_inv_def)
  also have "\<dots> = digest_string (canonical_request (lr_request r))"
    using assms(1,2) by (auto simp: index_inv_def log_ok_def next_ok_def in_set_conv_nth)
  also have "\<dots> = digest_string (canonical_request q)"
    using arg_cong [OF assms(3), of canonical_request] by (simp add: canonical_request_accepted)
  finally show thesis using that e id assms(3) by (simp add: append_known_event_def same_request_accepted)
qed

lemma file_rel_read_only: "holds n recs c \<Longrightarrow> es_max_events (fs_memory s) = n \<Longrightarrow> fs_loaded s \<Longrightarrow>
    file_rel n recs (set_read_only status m (s\<lparr>fs_log := c\<rparr>))"
  by (simp add: file_rel_def set_read_only_def)

lemma append_bytes_log: "append_bytes bytes s = s\<lparr>fs_log := Some (log_content s @ bytes)\<rparr>"
  by (simp add: append_bytes_def log_content_def)

lemma append_fresh_result:
  assumes inv: "file_inv n recs s" and nxt: "next_ok n recs (stored_record recs now q)" and d: "valid_durability (ar_required q)"
  obtains s' res where "append_fresh_event answer now q s = (s', res)"
    "file_rel n recs s' \<or> file_rel n (recs @ [stored_record recs now q]) s'"
    "\<And>receipt. res = Inr receipt \<Longrightarrow> file_inv n (recs @ [stored_record recs now q]) s' \<and>
       acknowledged (recs @ [stored_record recs now q]) q receipt \<and> rc_achieved receipt = ProcessCrash"
    "answer = Written \<Longrightarrow> \<exists>receipt. res = Inr receipt"
proof -
  let ?r = "stored_record recs now q"
  define rec where "rec = \<lparr>lr_request = q, lr_sequence = number_after (ar_session_id q) (fs_next_session s),
            lr_task_sequence = task_number q s, lr_request_digest = digest_string (canonical_request q),
            lr_timestamp = now, lr_v2 = True\<rparr>"
  have ix: "index_inv n recs s" using inv by (simp add: file_inv_def)
  have keys: "ar_session_id q = ses ?r" "ar_task_id q = tsk ?r" by (simp_all add: stored_record_def)
  have rec: "lr_sequence rec = lr_sequence ?r" "lr_task_sequence rec = lr_task_sequence ?r"
    "lr_request_digest rec = digest_string (canonical_request q)" "lr_timestamp rec = now"
    using index_numbers [OF ix nxt keys] by (simp_all add: rec_def)
  have enc: "encode_record rec = encode_record ?r"
    by (rule encode_record_cong) (use rec in \<open>simp_all add: rec_def stored_record_def\<close>)
  have m: "es_max_events (fs_memory s) = n" "fs_loaded s" using inv by (simp_all add: file_inv_def index_inv_def)
  show thesis
  proof (cases answer)
    case OpenFailed
    then show thesis using that [of s] file_rel_inv [OF inv] by (simp add: append_fresh_event_def Let_def)
  next
    case (WriteFailed k)
    have "append_fresh_event answer now q s = (set_read_only ReadOnlyDiagnostic ''event write failed; reopen for recovery''
        (append_bytes (take k (append_output rec s)) s), Inl (store_error ErrorCode.Unavailable ''event log write failed'' True))"
      using WriteFailed by (simp add: append_fresh_event_def rec_def Let_def)
    then show thesis using that file_rel_read_only [OF _ m] torn_append_holds [OF inv nxt enc, of k] WriteFailed
      unfolding append_bytes_log by blast
  next
    case Written
    let ?s = "(append_bytes (append_output rec s) s)\<lparr>fs_v2 := True, fs_needs_separator := False\<rparr>"
    have log: "fs_log ?s = Some (log_text (recs @ [?r]))"
      using append_output_text(1) [OF inv enc] by (simp add: append_bytes_log)
    have "index_inv n recs ?s" using ix by (simp add: index_inv_def append_bytes_log)
    then obtain s' rc where s': "append_written q rec ?s = (s', Inr rc)" "index_inv n (recs @ [?r]) s'"
      "rc_event_id rc = ar_event_id q" "rc_session_sequence rc = lr_sequence ?r"
      "rc_task_sequence rc = lr_task_sequence ?r" "rc_achieved rc = ProcessCrash"
      "fs_log s' = fs_log ?s" "fs_v2 s' = fs_v2 ?s" "fs_needs_separator s' = fs_needs_separator ?s"
      "fs_loaded s' = fs_loaded ?s" "fs_read_only s' = fs_read_only ?s"
      by (rule append_written_index [OF _ nxt rec d])
    have fin: "file_inv n (recs @ [?r]) s'"
      using s' log inv by (simp add: file_inv_def append_bytes_log)
    have "acknowledged (recs @ [?r]) q rc"
      using s' by (simp add: acknowledged_def) (simp add: stored_record_def accepted_form_def)
    then show thesis using that [of s' "Inr rc"] s'(1,6) fin file_rel_inv Written
      by (auto simp: append_fresh_event_def rec_def Let_def)
  qed
qed


definition append_ok :: "Timestamp \<Rightarrow> AppendRequest \<Rightarrow> bool" where
  "append_ok now q \<longleftrightarrow> request_ok q \<and> time_ok now"

lemma request_ok_ids: "request_ok q \<Longrightarrow> \<not> is_nil (ar_event_id q) \<and> \<not> is_nil (ar_runtime_id q) \<and> \<not> is_nil (ar_session_id q) \<and>
    \<not> (case ar_task_id q of None \<Rightarrow> False | Some t \<Rightarrow> is_nil t)"
  by (auto simp: request_ok_def split: option.splits)

lemma file_durability_valid: "file_durability d = Inr u \<longleftrightarrow> d = Buffered \<or> d = ProcessCrash"
  by (cases d) (simp_all add: file_durability_def valid_durability_def)

text \<open>An append with the log open: the two cases of the identifier.\<close>

lemma file_append_open:
  assumes "file_inv n recs s" "request_ok q" "file_durability (ar_required q) = Inr u"
  shows "file_append file_works answer now q s = (case map_of (fs_integrity_by_id s) (ar_event_id q) of
      Some stored \<Rightarrow> (s, append_known_event q stored (digest_string (canonical_request q)) s)
    | None \<Rightarrow> append_fresh_event answer now q s)"
  using assms request_ok_ids [OF assms(2)] by (simp add: file_append_def file_inv_def ensure_loaded_def)

lemma file_append_loads:
  assumes "file_rel n recs s" "file_durability (ar_required q) = Inr u"
  obtains s' where "file_append file_works answer now q s = file_append file_works answer now q s'" "file_inv n recs s'"
  | "file_append file_works answer now q s = (s, Inl read_only_error)" "fs_loaded s" "fs_read_only s"
proof (cases rule: ensure_loaded_rel [OF assms(1)])
  case (1 s')
  moreover have "ensure_loaded file_works s' = (s', Inr ())" using file_inv_flags [OF 1(2)] by (simp add: ensure_loaded_def)
  ultimately have "file_append file_works answer now q s = file_append file_works answer now q s'"
    using assms(2) by (simp add: file_append_def)
  then show thesis using that(1) 1(2) by blast
next
  case 2
  then show thesis using that(2) assms(2) by (simp add: file_append_def)
qed

lemma file_append_result:
  assumes rel: "file_rel n recs s" and ok: "append_ok now q" and room: "length recs < n" "n < 2 ^ 64"
  obtains s' res recs' where "file_append file_works answer now q s = (s', res)" "file_rel n recs' s'"
    "recs' = recs \<or> recs' = recs @ [stored_record recs now q]"
    "\<And>receipt. res = Inr receipt \<Longrightarrow> acknowledged recs' q receipt \<and> rc_achieved receipt = ProcessCrash"
proof (cases "file_durability (ar_required q)")
  case (Inl e)
  then show thesis using that [of s "Inl e" recs] rel by (simp add: file_append_def)
next
  case (Inr u)
  from rel Inr show thesis
  proof (cases rule: file_append_loads [where answer = answer and now = now])
    case (1 s')
    have q: "request_ok q" "time_ok now" using ok by (simp_all add: append_ok_def)
    have d: "valid_durability (ar_required q)" using Inr file_durability_valid by (auto simp: valid_durability_def)
    note app = file_append_open [OF 1(2) q(1) Inr, of answer now]
    have ix: "index_inv n recs s'" using file_inv_flags [OF 1(2)] by simp
    show thesis
    proof (cases "map_of (fs_integrity_by_id s') (ar_event_id q)")
      case None
      let ?recs = "recs @ [stored_record recs now q]"
      have "next_ok n recs (stored_record recs now q)"
        using None stored_record_next [OF q room] index_known [OF ix] by simp
      then obtain t res where t: "append_fresh_event answer now q s' = (t, res)" "file_rel n recs t \<or> file_rel n ?recs t"
        "\<And>receipt. res = Inr receipt \<Longrightarrow> file_inv n ?recs t \<and> acknowledged ?recs q receipt \<and> rc_achieved receipt = ProcessCrash"
        using append_fresh_result [OF 1(2) _ d, of now answer] by metis
      have run: "file_append file_works answer now q s = (t, res)" using 1(1) app None t(1) by simp
      show thesis
      proof (cases res)
        case (Inl e)
        then show thesis using that [OF run] t(2) by blast
      next
        case (Inr receipt)
        then show thesis using that [OF run file_rel_inv [of n ?recs]] t(3) by blast
      qed
    next
      case (Some stored)
      then show thesis using that [of s' _ recs] app 1 file_rel_inv append_known_result [OF ix] by simp
    qed
  next
    case 2
    then show thesis using that [of s _ recs] rel by simp
  qed
qed

section \<open>Runs\<close>

datatype file_op = AppendOp WriteAnswer Timestamp AppendRequest | ReadOp EventQuery
  | FlushOp bool bool Durability | RestartOp

fun run_file_op :: "file_op \<Rightarrow> FileEventStore \<Rightarrow> FileEventStore \<times> (AppendRequest \<times> AppendReceipt) list" where
  "run_file_op (AppendOp answer now q) s =
     (case file_append file_works answer now q s of (s', Inr receipt) \<Rightarrow> (s', [(q, receipt)]) | (s', Inl _) \<Rightarrow> (s', []))"
| "run_file_op (ReadOp query) s = (fst (file_read file_works query s), [])"
| "run_file_op (FlushOp opened flushed d) s = (fst (file_flush file_works opened flushed d s), [])"
| "run_file_op RestartOp s = (reopen s, [])"

text \<open>A run and the appends it acknowledged.\<close>

fun run_file :: "file_op list \<Rightarrow> FileEventStore \<Rightarrow> FileEventStore \<times> (AppendRequest \<times> AppendReceipt) list" where
  "run_file [] s = (s, [])"
| "run_file (op # ops) s = (let (s', acks) = run_file_op op s; (s'', later) = run_file ops s' in (s'', acks @ later))"

fun file_op_ok :: "file_op \<Rightarrow> bool" where
  "file_op_ok (AppendOp answer now q) = append_ok now q"
| "file_op_ok _ = True"

definition appends_of :: "file_op list \<Rightarrow> AppendRequest list" where
  "appends_of ops = concat (map (\<lambda>op. case op of AppendOp _ _ q \<Rightarrow> [q] | _ \<Rightarrow> []) ops)"

lemma appends_of_simps [simp]: "appends_of [] = []"
  "appends_of (AppendOp answer now q # ops) = q # appends_of ops" "appends_of (ReadOp query # ops) = appends_of ops"
  "appends_of (FlushOp opened flushed d # ops) = appends_of ops" "appends_of (RestartOp # ops) = appends_of ops"
  by (simp_all add: appends_of_def)

lemma file_read_rel: "file_rel n recs s \<Longrightarrow> file_rel n recs (fst (file_read file_works query s))"
  by (rule ensure_loaded_rel [of n recs s]) (auto simp: file_read_def intro: file_rel_inv)

lemma file_flush_rel:
  assumes "file_rel n recs s"
  shows "file_rel n recs (fst (file_flush file_works opened flushed d s))"
proof -
  let ?s = "fst (file_recover file_works True s)"
  note r = file_recover_rel [OF assms]
  have "file_inv n recs ?s \<Longrightarrow> file_inv n recs (append_bytes [] ?s)"
    by (auto simp: file_inv_def index_inv_def append_bytes_log log_content_def split: if_splits)
  then have "\<not> fs_read_only ?s \<Longrightarrow> file_rel n recs (append_bytes [] ?s)" using r(2) file_rel_inv by blast
  then show ?thesis using r(1) assms by (auto simp: file_flush_def Let_def split: sum.splits)
qed

text \<open>What every operation keeps.\<close>

lemma run_file_op_keeps:
  assumes "file_rel n recs s" "file_op_ok op" "length recs < n" "n < 2 ^ 64" "run_file_op op s = (s', acks)"
  obtains recs' where "file_rel n (recs @ recs') s'" "length recs' \<le> 1"
    "\<forall>(q, receipt) \<in> set acks. acknowledged (recs @ recs') q receipt"
    "\<forall>r\<in>set recs'. \<exists>q\<in>set (appends_of [op]). accepted_form (lr_request r) = accepted_form q"
proof (cases op)
  case (AppendOp answer now q)
  obtain t res recs' where t: "file_append file_works answer now q s = (t, res)" "file_rel n recs' t"
    "recs' = recs \<or> recs' = recs @ [stored_record recs now q]"
    "\<And>receipt. res = Inr receipt \<Longrightarrow> acknowledged recs' q receipt \<and> rc_achieved receipt = ProcessCrash"
    using file_append_result [OF assms(1) _ assms(3,4), of now q answer] assms(2) AppendOp by auto
  have "accepted_form (lr_request (stored_record recs now q)) = accepted_form q"
    by (simp add: stored_record_def accepted_form_def)
  then show thesis using that [of "[]"] that [of "[stored_record recs now q]"] t assms(5) AppendOp
    by (auto split: sum.splits)
next
  case (ReadOp query)
  then show thesis using that [of "[]"] file_read_rel [OF assms(1)] assms(5) by auto
next
  case (FlushOp opened flushed d)
  then show thesis using that [of "[]"] file_flush_rel [OF assms(1)] assms(5) by auto
next
  case RestartOp
  then show thesis using that [of "[]"] file_rel_reopen [OF assms(1)] assms(5) by auto
qed


lemma run_file_keeps:
  assumes "file_rel n recs s" "list_all file_op_ok ops" "length recs + length ops \<le> n" "n < 2 ^ 64" "run_file ops s = (s', acks)"
  obtains later where "file_rel n (recs @ later) s'" "length later \<le> length ops"
    "\<forall>(q, receipt) \<in> set acks. acknowledged (recs @ later) q receipt"
    "\<forall>r\<in>set later. \<exists>q\<in>set (appends_of ops). accepted_form (lr_request r) = accepted_form q"
  using assms
proof (induction ops arbitrary: recs s acks thesis)
  case Nil
  then show ?case using Nil(1) [of "[]"] by auto
next
  case (Cons op ops)
  obtain s1 acks1 acks2 where run: "run_file_op op s = (s1, acks1)" "run_file ops s1 = (s', acks2)" "acks = acks1 @ acks2"
    using Cons.prems(6) by (auto simp: Let_def split: prod.splits)
  have ok: "file_op_ok op" "list_all file_op_ok ops" "length recs < n" using Cons.prems(3,4) by auto
  obtain recs1 where r1: "file_rel n (recs @ recs1) s1" "length recs1 \<le> 1"
    "\<forall>(q, receipt) \<in> set acks1. acknowledged (recs @ recs1) q receipt"
    "\<forall>r\<in>set recs1. \<exists>q\<in>set (appends_of [op]). accepted_form (lr_request r) = accepted_form q"
    by (rule run_file_op_keeps [OF Cons.prems(2) ok(1,3) Cons.prems(5) run(1)])
  have "length (recs @ recs1) + length ops \<le> n" using Cons.prems(4) r1(2) by simp
  from Cons.IH [OF _ r1(1) ok(2) this Cons.prems(5) run(2)]
  obtain later where l: "file_rel n ((recs @ recs1) @ later) s'" "length later \<le> length ops"
    "\<forall>(q, receipt) \<in> set acks2. acknowledged ((recs @ recs1) @ later) q receipt"
    "\<forall>r\<in>set later. \<exists>q\<in>set (appends_of ops). accepted_form (lr_request r) = accepted_form q"
    by blast
  have sub: "set (appends_of [op]) \<union> set (appends_of ops) \<subseteq> set (appends_of (op # ops))" by (cases op) auto
  show ?case
  proof (rule Cons.prems(1))
    show "file_rel n (recs @ recs1 @ later) s'" using l(1) by simp
    show "length (recs1 @ later) \<le> length (op # ops)" using r1(2) l(2) by simp
    show "\<forall>(q, receipt) \<in> set acks. acknowledged (recs @ recs1 @ later) q receipt"
      using run(3) l(3) r1(3) acknowledged_mono [of "recs @ recs1"] by (auto simp: ball_Un)
    show "\<forall>r\<in>set (recs1 @ later). \<exists>q\<in>set (appends_of (op # ops)). accepted_form (lr_request r) = accepted_form q"
      using r1(4) l(4) sub by fastforce
  qed
qed

text \<open>A full store: the record reaches the log before the index refuses it.\<close>

lemma append_full:
  assumes inv: "file_inv (length recs) recs s" and q: "append_ok now q" "ar_event_id q \<notin> eid ` set recs" "length recs < 2 ^ 64 - 1"
    and d: "ar_required q = Buffered \<or> ar_required q = ProcessCrash"
  obtains s' where "file_append file_works Written now q s =
      (s', Inl (store_error ErrorCode.DataLoss ''event index update failed after durable append'' False))"
    "fs_log s' = Some (log_text (recs @ [stored_record recs now q]))"
    "es_max_events (fs_memory s') = length recs" "record_ok (stored_record recs now q)"
proof -
  let ?r = "stored_record recs now q" and ?n = "length recs"
  define rec where "rec = \<lparr>lr_request = q, lr_sequence = number_after (ar_session_id q) (fs_next_session s),
            lr_task_sequence = task_number q s, lr_request_digest = digest_string (canonical_request q),
            lr_timestamp = now, lr_v2 = True\<rparr>"
  have ix: "index_inv ?n recs s" using inv by (simp add: file_inv_def)
  have ok: "record_ok ?r"
    using stored_record_next [of q now recs "Suc ?n"] q by (simp add: append_ok_def next_ok_def)
  have enc: "encode_record rec = encode_record ?r"
    using index_counters [OF ix] by (intro encode_record_cong) (auto simp: rec_def stored_record_def number_after_counter task_number_def cong: map_option_cong)
  have du: "file_durability (ar_required q) = Inr ()" "valid_durability (ar_required q)"
    using d file_durability_valid by (auto simp: valid_durability_def)
  have fresh: "map_of (fs_integrity_by_id s) (ar_event_id q) = None" using index_known [OF ix] q(2) by simp
  have si: "store_inv (fs_memory s)" "es_max_events (fs_memory s) = ?n" using ix by (simp_all add: index_inv_def)
  have "map_of (es_by_id (fs_memory s)) (ar_event_id q) = None"
    unfolding store_inv_by_id_fresh [OF si(1)] index_events(1) [OF ix] using q(2) by auto
  then have full: "append_stamped (fs_memory s) q now AppendProcess = (fs_memory s,
      Inl (store_error ErrorCode.ResourceExhausted ''event store capacity exhausted'' True))"
    using request_ok_ids [of q] q(1) du(2) index_events(4) [OF ix] si(2) by (simp add: append_stamped_def append_ok_def)
  let ?s = "(append_bytes (append_output rec s) s)\<lparr>fs_v2 := True, fs_needs_separator := False\<rparr>"
  have "file_append file_works Written now q s = append_written q rec ?s"
    using file_append_open [OF inv _ du(1), of Written now] q(1) fresh
    by (simp add: append_ok_def append_fresh_event_def rec_def Let_def)
  also have "\<dots> = (set_read_only RecoveryDataLoss ''event index update failed after durable append'' ?s,
      Inl (store_error ErrorCode.DataLoss ''event index update failed after durable append'' False))"
    using full by (simp add: append_written_def Let_def append_bytes_log rec_def)
  finally show thesis using that ok append_output_text(1) [OF inv enc] si(2) by (simp add: set_read_only_def append_bytes_log)
qed

lemma recover_overfull:
  assumes "log_ok (length recs) recs" "record_ok r" "lr_request_digest r = digest_string (canonical_request (lr_request r))" "eid r \<notin> eid ` set recs"
    and seq: "lr_sequence r = of_nat (length (filter (\<lambda>x. ses x = ses r) recs)) + 1"
      "lr_task_sequence r = map_option (\<lambda>t. of_nat (length (filter (\<lambda>x. tsk x = Some t) recs)) + 1) (tsk r)"
  obtains s' where "recover_content (length recs) (Some (log_text (recs @ [r]))) =
      file_stop RecoveryDataLoss ''event recovery index could not be reconstructed'' 0 (length recs) s'"
proof -
  let ?n = "length recs" and ?k = "length (log_text recs)" and ?c = "Some (log_text (recs @ [r]))"
  obtain s1 where s1: "recover_content ?n ?c = recover_loop file_works True False (log_line r) ?k ?k ?n s1"
    "index_inv ?n recs s1" "fs_v2 s1"
    using loop_log_text [OF assms(1), of file_works True "log_line r" ?c] by (auto simp: recover_content_loop log_text_snoc log_line_def)
  have g: "getline False (log_line r) = Some (encode_record r, True, [])" using getline_record [OF assms(2), of "[]"] by simp
  have num: "lr_sequence r = number_after (ses r) (fs_next_session s1)" "lr_task_sequence r = task_number (lr_request r) s1"
    using seq index_counters [OF s1(2)] by (auto simp: number_after_counter task_number_def cong: map_option_cong)
  have ids: "\<not> is_nil (eid r)" "\<not> is_nil (ar_runtime_id (lr_request r))" "\<not> is_nil (ses r)" "valid_durability (ar_required (lr_request r))" "lr_v2 r"
    using assms(2) request_ok_ids [of "lr_request r"] by (auto simp: record_ok_def valid_durability_def)
  have si: "store_inv (fs_memory s1)" "es_max_events (fs_memory s1) = ?n" using s1(2) by (simp_all add: index_inv_def)
  have "map_of (es_by_id (fs_memory s1)) (eid r) = None"
    unfolding store_inv_by_id_fresh [OF si(1)] index_events(1) [OF s1(2)] using assms(4) by auto
  then have "append_stamped (fs_memory s1) (lr_request r) (lr_timestamp r) PersistedWall = (fs_memory s1,
      Inl (store_error ErrorCode.ResourceExhausted ''event store capacity exhausted'' True))"
    using ids index_events(4) [OF s1(2)] si(2) by (simp add: append_stamped_def)
  then have "recover_record r s1 = (s1, Some ''event recovery index could not be reconstructed'')"
    using num assms(3) ids(5) by (simp add: recover_record_def Let_def)
  then have "recover_line file_works True (encode_record r) True [] ?k ?n s1 =
      Halt (file_stop RecoveryDataLoss ''event recovery index could not be reconstructed'' 0 ?n s1)"
    using s1(3) encode_record_head decode_encode_record [OF assms(2)] by (simp add: recover_line_def)
  then have "recover_content ?n ?c = file_stop RecoveryDataLoss ''event recovery index could not be reconstructed'' 0 ?n s1"
    unfolding s1(1) recover_loop_getline [OF g strip_return_record encode_record_ends(1)] by simp
  then show thesis by (rule that)
qed

end
