(* ===== verification/File_Properties.thy ===== *)
theory File_Properties
  imports File_Runs
begin

text \<open>
  The properties of the file store: what a restart finds after a run whose writes may stop at
  any byte, what it accepts then, the round trip of a record, and a store at its capacity.
\<close>

section \<open>Helpers\<close>

text \<open>What the recovered store answers about an acknowledged append.\<close>

definition stored_as :: "MemoryEventStore \<Rightarrow> AppendRequest \<times> AppendReceipt \<Rightarrow> bool" where
  "stored_as m ack = (case store_find m (ar_event_id (fst ack)) of
      None \<Rightarrow> False
    | Some e \<Rightarrow> same_request e (fst ack) \<and> ev_session_sequence e = rc_session_sequence (snd ack) \<and>
        ev_task_sequence e = rc_task_sequence (snd ack))"

lemma holds_new: "holds n [] None"
  by (simp add: holds_def)

lemma acknowledged_stored:
  assumes "index_inv n recs s" "acknowledged recs q receipt"
  shows "stored_as (fs_memory s) (q, receipt)"
proof -
  obtain r where r: "r \<in> set recs" "accepted_form (lr_request r) = accepted_form q"
    "lr_sequence r = rc_session_sequence receipt" "lr_task_sequence r = rc_task_sequence receipt"
    using assms(2) by (auto simp: acknowledged_def)
  have "eid r = ar_event_id q" using r(2) by (metis accepted_form_fields(1))
  moreover obtain e where "store_find (fs_memory s) (eid r) = Some e" "fst (entry_of e) = accepted_form (lr_request r)"
    "ev_session_sequence e = lr_sequence r" "ev_task_sequence e = lr_task_sequence r"
    by (rule index_find_record [OF assms(1) r(1)])
  ultimately show ?thesis using r by (simp add: stored_as_def same_request_accepted)
qed

lemma index_events_requested:
  assumes "index_inv n recs s" "\<forall>r\<in>set recs. \<exists>q\<in>set qs. accepted_form (lr_request r) = accepted_form q"
  shows "list_all (\<lambda>e. list_ex (same_request e) qs) (es_events (fs_memory s))"
proof -
  have "fst (entry_of (es_events (fs_memory s) ! i)) \<in> accepted_form ` set qs" if "i < length recs" for i
    using index_event_at(1) [OF assms(1) that] assms(2) that by (metis image_eqI nth_mem)
  then show ?thesis using index_events(4) [OF assms(1)]
    by (auto simp: list_all_length list_ex_iff same_request_accepted image_iff)
qed

text \<open>The state after a run, and after the restart that follows.\<close>

lemma run_then_restart:
  assumes "n < 2 ^ 64" "length ops \<le> n" "list_all file_op_ok ops" "run_file ops (open_file_store n None) = (s, acks)"
  obtains recs where "recovers n recs (file_recover file_works True (reopen s))" "file_rel n recs (reopen s)" "length recs \<le> length ops"
    "\<forall>(q, receipt) \<in> set acks. acknowledged recs q receipt"
    "\<forall>r\<in>set recs. \<exists>q\<in>set (appends_of ops). accepted_form (lr_request r) = accepted_form q"
proof -
  have "length ([] :: LogRecord list) + length ops \<le> n" using assms(2) by simp
  from run_file_keeps [OF file_rel_open [OF holds_new] assms(3) this assms(1,4)]
  obtain recs where r: "file_rel n recs s" "length recs \<le> length ops"
    "\<forall>(q, receipt) \<in> set acks. acknowledged recs q receipt"
    "\<forall>r\<in>set recs. \<exists>q\<in>set (appends_of ops). accepted_form (lr_request r) = accepted_form q" by auto
  have "reopen s = open_file_store n (fs_log s)" "holds n recs (fs_log s)" using r(1) by (simp_all add: reopen_def file_rel_def)
  then show thesis using that recover_holds file_rel_reopen r by metis
qed

lemma demo_append_ok: "append_ok timestamp_default demo_append" "file_op_ok (AppendOp answer timestamp_default demo_append)"
proof -
  have "list_all (\<lambda>i. id128_ok i \<and> \<not> is_nil i) (map demo_id [1, 2, 3, 4])" "utf8_ok ''note''" "utf8_ok ''x''" by code_simp+
  then show "append_ok timestamp_default demo_append" "file_op_ok (AppendOp answer timestamp_default demo_append)"
    by (simp_all add: append_ok_def request_ok_def demo_append_def time_ok_def timestamp_default_def int64_max_def)
qed

text \<open>A store that is not read-only accepts a request whose identifier is new, and answers a
  request that it holds again.\<close>

lemma file_append_accepts:
  assumes "file_rel n recs s" "\<not> (fs_loaded s \<and> fs_read_only s)" "append_ok now q" "length recs < n" "n < 2 ^ 64"
    "ar_required q = Buffered \<or> ar_required q = ProcessCrash" "ar_event_id q \<notin> eid ` set recs"
  shows "\<exists>s' receipt. file_append file_works Written now q s = (s', Inr receipt)"
proof -
  have d: "file_durability (ar_required q) = Inr ()" "valid_durability (ar_required q)"
    using assms(6) file_durability_valid by (auto simp: valid_durability_def)
  have q: "request_ok q" "time_ok now" using assms(3) by (simp_all add: append_ok_def)
  obtain t where t: "file_append file_works Written now q s = file_append file_works Written now q t" "file_inv n recs t"
    using file_append_loads [OF assms(1) d(1)] assms(2) by metis
  have "map_of (fs_integrity_by_id t) (ar_event_id q) = None" using index_known assms(7) file_inv_flags [OF t(2)] by blast
  then show ?thesis
    using append_fresh_result [OF t(2) stored_record_next [OF q assms(4,5,7)] d(2), of Written] t(1)
      file_append_open [OF t(2) q(1) d(1), of Written now] by (metis option.simps(4))
qed

lemma file_append_again:
  assumes "file_rel n recs s" "\<not> (fs_loaded s \<and> fs_read_only s)" "request_ok q" "acknowledged recs q receipt"
    "ar_required q = Buffered \<or> ar_required q = ProcessCrash"
  shows "\<exists>s' receipt'. file_append file_works answer now q s = (s', Inr receipt') \<and>
    rc_session_sequence receipt' = rc_session_sequence receipt \<and> rc_task_sequence receipt' = rc_task_sequence receipt"
proof -
  have d: "file_durability (ar_required q) = Inr ()" using assms(5) file_durability_valid by auto
  obtain t where t: "file_append file_works answer now q s = file_append file_works answer now q t" "file_inv n recs t"
    using file_append_loads [OF assms(1) d] assms(2) by metis
  have ix: "index_inv n recs t" using file_inv_flags [OF t(2)] by blast
  obtain r where r: "r \<in> set recs" "accepted_form (lr_request r) = accepted_form q"
    "lr_sequence r = rc_session_sequence receipt" "lr_task_sequence r = rc_task_sequence receipt"
    using assms(4) by (auto simp: acknowledged_def)
  have id: "eid r = ar_event_id q" using r(2) by (metis accepted_form_fields(1))
  then obtain stored where st: "map_of (fs_integrity_by_id t) (ar_event_id q) = Some stored"
    using index_known [OF ix, of "ar_event_id q"] r(1) by (metis imageI not_None_eq)
  obtain receipt' where again: "append_known_event q stored (digest_string (canonical_request q)) t = Inr receipt'"
    by (rule append_known_again [OF ix r(1,2) st])
  have "stored_as (fs_memory t) (q, receipt)" "stored_as (fs_memory t) (q, receipt')"
    using acknowledged_stored [OF ix] assms(4) append_known_result [OF ix again] by blast+
  then have "rc_session_sequence receipt' = rc_session_sequence receipt" "rc_task_sequence receipt' = rc_task_sequence receipt"
    by (auto simp: stored_as_def split: option.splits)
  then show ?thesis using t(1) file_append_open [OF t(2) assms(3) d, of answer now] st again by simp
qed

lemma demo_append_written:
  assumes "0 < n" "n < 2 ^ 64"
  obtains s receipt where "run_file [AppendOp Written timestamp_default demo_append] (open_file_store n None) = (s, [(demo_append, receipt)])"
proof -
  have "ar_required demo_append = ProcessCrash" by (simp add: demo_append_def)
  then obtain s receipt where "file_append file_works Written timestamp_default demo_append (open_file_store n None) = (s, Inr receipt)"
    using file_append_accepts [OF file_rel_open [OF holds_new] _ demo_append_ok(1), of n] assms by auto
  then show thesis using that by simp
qed

section \<open>Properties\<close>

text \<open>C4: What the file store acknowledged survives. Take any run on a new file store of appends, reads,
  flushes and restarts, no more operations than its capacity of less than 2^64 events, in which the
  requests have non-nil identifiers and texts of well-formed UTF-8, the log can be opened and read, and every
  write may stop after any number of bytes. Then a restart recovers a store that is usable; it holds every
  acknowledged event with its content and its numbers, and every event it holds was requested in the run.\<close>

theorem file_store_survives:
  assumes "n < 2 ^ 64" "length ops \<le> n" "list_all file_op_ok ops"
    and "run_file ops (open_file_store n None) = (s, acks)" "file_recover file_works True (reopen s) = (s', report)"
  shows "rr_status report \<in> {Clean, TailTruncated} \<and> \<not> fs_read_only s' \<and> store_inv (fs_memory s') \<and>
    list_all (stored_as (fs_memory s')) acks \<and>
    list_all (\<lambda>e. list_ex (same_request e) (appends_of ops)) (es_events (fs_memory s'))"
proof -
  obtain recs where r: "recovers n recs (s', report)"
    "\<forall>(q, receipt) \<in> set acks. acknowledged recs q receipt"
    "\<forall>r\<in>set recs. \<exists>q\<in>set (appends_of ops). accepted_form (lr_request r) = accepted_form q"
    using run_then_restart [OF assms(1-4)] assms(5) by metis
  have ix: "index_inv n recs s'" "\<not> fs_read_only s'" using r(1) by (simp_all add: recovers_def file_inv_def)
  then show ?thesis using r index_events_requested [OF ix(1) r(3)] acknowledged_stored [OF ix(1)]
    by (auto simp: recovers_def list_all_iff index_inv_def)
qed

theorem file_store_survives_witness:
  "\<exists>s receipt s' report. run_file [AppendOp Written timestamp_default demo_append] (open_file_store 5 None) = (s, [(demo_append, receipt)]) \<and>
    file_recover file_works True (reopen s) = (s', report) \<and> rr_status report \<in> {Clean, TailTruncated} \<and>
    stored_as (fs_memory s') (demo_append, receipt)"
proof -
  obtain s receipt where run: "run_file [AppendOp Written timestamp_default demo_append] (open_file_store 5 None) = (s, [(demo_append, receipt)])"
    by (rule demo_append_written [of 5]) simp_all
  obtain s' report where rec: "file_recover file_works True (reopen s) = (s', report)" by force
  show ?thesis using file_store_survives [OF _ _ _ run rec] run rec demo_append_ok by auto
qed

text \<open>A crash does not stop the file store. After any run with stopped writes that leaves room,
  a restarted store acknowledges every well-formed append with a new identifier that is written
  as a whole, and it answers the repetition of an acknowledged append with the numbers of the first.\<close>

theorem file_store_accepts_after_restart:
  assumes "n < 2 ^ 64" "length ops < n" "list_all file_op_ok ops" "run_file ops (open_file_store n None) = (s, acks)"
    and "append_ok now q" "ar_required q = Buffered \<or> ar_required q = ProcessCrash"
  shows "(ar_event_id q \<notin> ar_event_id ` set (appends_of ops) \<longrightarrow>
      (\<exists>s' receipt. file_append file_works Written now q (reopen s) = (s', Inr receipt) \<and> rc_achieved receipt = ProcessCrash)) \<and>
    (\<forall>receipt. (q, receipt) \<in> set acks \<longrightarrow>
      (\<exists>s' receipt'. file_append file_works answer now q (reopen s) = (s', Inr receipt') \<and>
        rc_session_sequence receipt' = rc_session_sequence receipt \<and> rc_task_sequence receipt' = rc_task_sequence receipt))"
proof -
  have le: "length ops \<le> n" using assms(2) by simp
  obtain recs where r: "file_rel n recs (reopen s)" "length recs \<le> length ops"
    "\<forall>(q, receipt) \<in> set acks. acknowledged recs q receipt"
    "\<forall>r\<in>set recs. \<exists>q\<in>set (appends_of ops). accepted_form (lr_request r) = accepted_form q"
    using run_then_restart [OF assms(1) le assms(3,4)] by metis
  have closed: "\<not> (fs_loaded (reopen s) \<and> fs_read_only (reopen s))" and room: "length recs < n" using r(2) assms(2) by (simp_all add: reopen_def)
  have "ar_event_id q \<notin> eid ` set recs" if new: "ar_event_id q \<notin> ar_event_id ` set (appends_of ops)"
    using r(4) new by (metis (no_types, lifting) accepted_form_fields(1) image_iff)
  moreover have "rc_achieved receipt = ProcessCrash" if "file_append file_works Written now q (reopen s) = (s', Inr receipt)" for s' receipt
    using file_append_result [OF r(1) assms(5) room assms(1), of Written] that by (metis Pair_inject)
  ultimately show ?thesis
    using file_append_accepts [OF r(1) closed assms(5) room assms(1,6)] file_append_again [OF r(1) closed _ _ assms(6)] r(3) assms(5)
    unfolding append_ok_def by blast
qed

theorem file_store_accepts_after_restart_witness:
  "\<exists>s receipt s' receipt'. run_file [AppendOp Written timestamp_default demo_append] (open_file_store 5 None) = (s, [(demo_append, receipt)]) \<and>
    file_append file_works OpenFailed timestamp_default demo_append (reopen s) = (s', Inr receipt') \<and>
    rc_session_sequence receipt' = rc_session_sequence receipt"
proof -
  obtain s receipt where run: "run_file [AppendOp Written timestamp_default demo_append] (open_file_store 5 None) = (s, [(demo_append, receipt)])"
    by (rule demo_append_written [of 5]) simp_all
  have "ar_required demo_append = ProcessCrash" by (simp add: demo_append_def)
  then show ?thesis
    using file_store_accepts_after_restart [OF _ _ _ run demo_append_ok(1), of OpenFailed] run demo_append_ok(2) by auto
qed

text \<open>The records of the log: the decoder gives back a written record with all its fields, and
  every proper beginning of a written record is reported as an incomplete record, never as a
  record and never as damage.\<close>

theorem file_record_round_trip:
  assumes "record_ok r"
  shows "decode_v2 (encode_record r) = Inr r \<and>
    (k < length (encode_record r) \<longrightarrow> (\<exists>e. decode_v2 (take k (encode_record r)) = Inl e \<and> err_code e = ErrorCode.InvalidArgument))"
proof (intro conjI impI)
  show "decode_v2 (encode_record r) = Inr r" by (rule decode_encode_record [OF assms])
  assume "k < length (encode_record r)"
  then obtain m where "decode_v2 (take k (encode_record r)) = wire_fail ErrorCode.InvalidArgument m"
    using decode_strict_prefix [OF assms, of "take k (encode_record r)" "drop k (encode_record r)"] by auto
  then show "\<exists>e. decode_v2 (take k (encode_record r)) = Inl e \<and> err_code e = ErrorCode.InvalidArgument"
    by (simp add: wire_failure_def)
qed

lemma demo_record_ok: "record_ok (stored_record [] timestamp_default demo_append)" "demo_append\<lparr>ar_required := ProcessCrash\<rparr> = demo_append"
  using stored_record_next [of demo_append timestamp_default "[]" 5] demo_append_ok(1)
  by (simp_all add: append_ok_def next_ok_def) (simp add: demo_append_def)

theorem file_record_round_trip_witness:
  "decode_v2 (encode_record (stored_record [] timestamp_default demo_append)) = Inr (stored_record [] timestamp_default demo_append) \<and>
   (\<exists>e. decode_v2 (take 0 (encode_record (stored_record [] timestamp_default demo_append))) = Inl e \<and> err_code e = ErrorCode.InvalidArgument)"
  using file_record_round_trip [OF demo_record_ok(1), of 0] encode_record_ends(1) by simp

text \<open>A full file store is lost: an append beyond the capacity is written to the log before the
  index refuses it, so it is answered with DataLoss, the store is read-only, and no later restart
  can recover it.\<close>

theorem file_store_overfull_is_lost:
  assumes "file_inv (length recs) recs s" "append_ok now q" "ar_event_id q \<notin> eid ` set recs" "length recs < 2 ^ 64 - 1"
    and "ar_required q = Buffered \<or> ar_required q = ProcessCrash"
  shows "\<exists>s' s'' report. file_append file_works Written now q s =
      (s', Inl (store_error ErrorCode.DataLoss ''event index update failed after durable append'' False)) \<and>
    file_recover file_works True (reopen s') = (s'', report) \<and> rr_status report = RecoveryDataLoss \<and> fs_read_only s''"
proof -
  let ?r = "stored_record recs now q"
  obtain s' where s': "file_append file_works Written now q s =
      (s', Inl (store_error ErrorCode.DataLoss ''event index update failed after durable append'' False))"
    "fs_log s' = Some (log_text (recs @ [?r]))" "es_max_events (fs_memory s') = length recs" "record_ok ?r"
    by (rule append_full [OF assms])
  have r: "log_ok (length recs) recs" "eid ?r \<notin> eid ` set recs" "lr_request_digest ?r = digest_string (canonical_request (lr_request ?r))"
    using assms(1,3) by (simp_all add: file_inv_def index_inv_def stored_record_def)
  obtain s'' where "recover_content (length recs) (Some (log_text (recs @ [?r]))) =
      file_stop RecoveryDataLoss ''event recovery index could not be reconstructed'' 0 (length recs) s''"
    by (rule recover_overfull [OF r(1) s'(4) r(3,2)]) (simp_all add: stored_record_def)
  then show ?thesis using s' by (simp add: reopen_def file_stop_def)
qed

theorem file_store_overfull_is_lost_witness:
  "\<exists>s' s'' report. file_append file_works Written timestamp_default demo_append (fst (recover_content 0 None)) =
      (s', Inl (store_error ErrorCode.DataLoss ''event index update failed after durable append'' False)) \<and>
    file_recover file_works True (reopen s') = (s'', report) \<and> rr_status report = RecoveryDataLoss \<and> fs_read_only s''"
proof -
  have "file_inv (length []) [] (fst (recover_content 0 None))" using recover_empty(2) [of 0] by (simp add: recovers_def)
  moreover have "ar_required demo_append = ProcessCrash" by (simp add: demo_append_def)
  ultimately show ?thesis using file_store_overfull_is_lost [of "[]", OF _ demo_append_ok(1)] by simp
qed

end
