(* ===== verification/Store_Interface.thy ===== *)
theory Store_Interface
  imports File_Store
begin

text \<open>
  The interface \<open>IEventStore\<close> of \<open>include/mira/event_store.hpp\<close>, as the components that are given a
  store use it: a record of the operations. What the environment of a store answers is an argument
  of an append; an answer \<open>None\<close> is an exception.
\<close>

record ('s, 'e) IEventStore =
  st_append :: "'e \<Rightarrow> AppendRequest \<Rightarrow> 's \<Rightarrow> 's \<times> AppendReceipt Result option"
  st_read :: "EventQuery \<Rightarrow> 's \<Rightarrow> 's \<times> EventPage Result option"

section \<open>The stores behind the interface\<close>

definition memory_ops :: "(MemoryEventStore, Timestamp) IEventStore" where
  "memory_ops = \<lparr>st_append = (\<lambda>now q s. map_prod id Some (store_append s now q)),
     st_read = (\<lambda>q s. (s, Some (store_read s q)))\<rparr>"

definition file_ops :: "(FileEventStore, WriteAnswer \<times> Timestamp) IEventStore" where
  "file_ops = \<lparr>st_append = (\<lambda>(answer, now) q s. map_prod id Some (file_append file_works answer now q s)),
     st_read = (\<lambda>q s. map_prod id Some (file_read file_works q s))\<rparr>"

end
