(* ===== verification/Action_Journal.thy ===== *)
theory Action_Journal
  imports Security Store_Interface
begin

text \<open>
  The action journal of \<open>src/storage/action_journal.cpp\<close>: before an action is dispatched to the
  environment, and after, the journal appends an event to a durable store, so that a restarted
  process can tell whether the action may have run. The store is the interface \<open>IEventStore\<close>; what
  its environment answers and the generated event identifiers are arguments. An answer \<open>None\<close> is an exception that the journal catches.
\<close>

section \<open>Data\<close>

type_synonym ActionId = Id128

record ActionIntent =
  ai_action_id :: ActionId
  ai_runtime_id :: RuntimeId
  ai_session_id :: SessionId
  ai_task_id :: TaskId
  ai_task_epoch :: u64
  ai_environment_epoch :: u64
  ai_action_digest :: Sha256Digest
  ai_target :: ResourceDescriptor

datatype ActionJournalPhase = Prepared | DispatchStarted | ReceiptPhase | ExecutionUncertain

record ActionJournalState =
  js_action_id :: ActionId
  js_phase :: ActionJournalPhase
  js_last_receipt :: "AppendReceipt option"

record Entry =
  je_binding :: string
  je_state :: ActionJournalState

record ActionJournal =
  aj_runtime_id :: RuntimeId
  aj_page_size :: nat
  aj_max_events_scanned :: nat
  aj_states :: "(ActionId, Entry) umap"

record JournalPayload =
  jp_action_id :: ActionId
  jp_task_id :: TaskId
  jp_task_epoch :: u64
  jp_environment_epoch :: u64
  jp_digest :: Sha256Digest
  jp_target :: ResourceDescriptor
  jp_suffix :: string

section \<open>Payloads\<close>

definition safe_text :: "string \<Rightarrow> nat \<Rightarrow> bool \<Rightarrow> bool" where
  "safe_text t limit is_field \<longleftrightarrow> length t \<le> limit \<and> \<not> (is_field \<and> t = []) \<and>
     list_all (\<lambda>c. \<not> c < CHR 0x20 \<and> c \<noteq> CHR 0x7F \<and> \<not> (is_field \<and> c = CHR ''|'')) t"

definition valid_intent :: "ActionIntent \<Rightarrow> RuntimeId \<Rightarrow> bool" where
  "valid_intent i runtime \<longleftrightarrow> \<not> is_nil runtime \<and> ai_runtime_id i = runtime \<and> \<not> is_nil (ai_action_id i) \<and>
     \<not> is_nil (ai_session_id i) \<and> \<not> is_nil (ai_task_id i) \<and>
     safe_text (rd_type (ai_target i)) 1024 True \<and> safe_text (rd_id (ai_target i)) 1024 True \<and>
     safe_text (rd_scope (ai_target i)) 1024 True"

definition journal_encode :: "ActionIntent \<Rightarrow> string \<Rightarrow> string" where
  "journal_encode i tail_text =
     id128_to_string (ai_action_id i) @ ''|'' @ id128_to_string (ai_task_id i) @ ''|'' @
     show_int (uint (ai_task_epoch i)) @ ''|'' @ show_int (uint (ai_environment_epoch i)) @ ''|'' @
     digest_to_string (ai_action_digest i) @ ''|'' @ rd_type (ai_target i) @ ''|'' @
     rd_id (ai_target i) @ ''|'' @ rd_scope (ai_target i) @ (if tail_text \<noteq> [] then ''|'' @ tail_text else '''')"

definition binding :: "ActionIntent \<Rightarrow> string" where
  "binding i = id128_to_string (ai_runtime_id i) @ ''|'' @ id128_to_string (ai_session_id i) @ ''|'' @ journal_encode i ''''"

text \<open>\<open>data.find('|')\<close> with the text before and behind it.\<close>

fun split_bar :: "string \<Rightarrow> (string \<times> string) option" where
  "split_bar [] = None"
| "split_bar (c # cs) = (if c = CHR ''|'' then Some ([], cs) else map_option (\<lambda>(b, a). (c # b, a)) (split_bar cs))"

text \<open>The loop over the fields: all but the last need a bar behind them; what follows the last
  one is the suffix.\<close>

fun journal_fields :: "nat \<Rightarrow> string \<Rightarrow> (string list \<times> string) option" where
  "journal_fields 0 cs = None"
| "journal_fields (Suc 0) cs = (case split_bar cs of None \<Rightarrow> Some ([cs], '''') | Some (f, rest) \<Rightarrow> Some ([f], rest))"
| "journal_fields (Suc (Suc n)) cs = (case split_bar cs of None \<Rightarrow> None
     | Some (f, rest) \<Rightarrow> map_option (\<lambda>(fs, x). (f # fs, x)) (journal_fields (Suc n) rest))"

definition journal_parse :: "string \<Rightarrow> JournalPayload option" where
  "journal_parse cs =
     (if length cs > 16384 then None
      else case journal_fields 8 cs of
        Some ([f0, f1, f2, f3, f4, f5, f6, f7], x) \<Rightarrow>
          (case (wire_id f0, wire_id f1, digest_from_hex f4, parse_u64 f2, parse_u64 f3) of
             (Some action, Some task, Some digest, Some task_epoch, Some environment_epoch) \<Rightarrow>
               if safe_text f5 1024 True \<and> safe_text f6 1024 True \<and> safe_text f7 1024 True \<and> safe_text x 4096 False
               then Some \<lparr>jp_action_id = action, jp_task_id = task, jp_task_epoch = task_epoch,
                      jp_environment_epoch = environment_epoch, jp_digest = digest,
                      jp_target = \<lparr>rd_type = f5, rd_id = f6, rd_scope = f7\<rparr>, jp_suffix = x\<rparr>
               else None
           | _ \<Rightarrow> None)
      | _ \<Rightarrow> None)"

definition payload_matches :: "JournalPayload \<Rightarrow> ActionIntent \<Rightarrow> bool" where
  "payload_matches p i \<longleftrightarrow> jp_action_id p = ai_action_id i \<and> jp_task_id p = ai_task_id i \<and>
     jp_task_epoch p = ai_task_epoch i \<and> jp_environment_epoch p = ai_environment_epoch i \<and>
     jp_digest p = ai_action_digest i \<and> rd_type (jp_target p) = rd_type (ai_target i) \<and>
     rd_id (jp_target p) = rd_id (ai_target i) \<and> rd_scope (jp_target p) = rd_scope (ai_target i)"

section \<open>Appending\<close>

definition journal_error :: "ErrorCode \<Rightarrow> string \<Rightarrow> Error" where
  "journal_error code message =
     error_default\<lparr>err_code := code, err_domain := ''mira.action_journal'', err_safe_message := message\<rparr>"

definition durability_number :: "Durability \<Rightarrow> int" where
  "durability_number d = (case d of Buffered \<Rightarrow> 0 | ProcessCrash \<Rightarrow> 1 | PowerLoss \<Rightarrow> 2 | UnnamedDurability v \<Rightarrow> uint v)"

definition journal_request :: "ActionJournal \<Rightarrow> EventId \<Rightarrow> ActionIntent \<Rightarrow> string \<Rightarrow> string \<Rightarrow> EventClass \<Rightarrow> AppendRequest" where
  "journal_request J event_id i type payload classification =
     \<lparr>ar_event_id = event_id, ar_runtime_id = aj_runtime_id J, ar_session_id = ai_session_id i,
      ar_task_id = Some (ai_task_id i),
      ar_payload = \<lparr>pl_type = type, pl_data = payload, pl_classification = classification\<rparr>,
      ar_cause = 0, ar_required = ProcessCrash\<rparr>"

definition check_receipt :: "EventId \<Rightarrow> Durability \<Rightarrow> AppendReceipt \<Rightarrow> AppendReceipt Result" where
  "check_receipt event_id required r =
     (if rc_event_id r \<noteq> event_id \<or> rc_session_sequence r = 0 \<or> rc_task_sequence r = None \<or> rc_task_sequence r = Some 0
      then Inl (journal_error ErrorCode.DataLoss ''action journal append receipt identity is invalid'')
      else if durability_number (rc_achieved r) < durability_number required \<or>
              durability_number (rc_achieved r) > durability_number PowerLoss
      then Inl (journal_error ErrorCode.DataLoss ''action journal append did not achieve required durability'')
      else Inr r)"

definition journal_append ::
    "('s, 'e) IEventStore \<Rightarrow> 'e \<Rightarrow> EventId \<Rightarrow> ActionJournal \<Rightarrow> ActionIntent \<Rightarrow> string \<Rightarrow> string \<Rightarrow> EventClass \<Rightarrow> 's \<Rightarrow>
     's \<times> AppendReceipt Result" where
  "journal_append ops env event_id J i type payload classification s =
     (case st_append ops env (journal_request J event_id i type payload classification) s of
        (s, None) \<Rightarrow> (s, Inl (journal_error ErrorCode.Internal ''action journal store append raised an exception''))
      | (s, Some (Inl e)) \<Rightarrow> (s, Inl e)
      | (s, Some (Inr r)) \<Rightarrow> (s, check_receipt event_id ProcessCrash r))"

definition validate_intent :: "ActionJournal \<Rightarrow> ActionIntent \<Rightarrow> unit Result" where
  "validate_intent J i =
     (if \<not> valid_intent i (aj_runtime_id J)
      then Inl (journal_error ErrorCode.InvalidArgument ''action intent identity or target is invalid'')
      else case map_of (aj_states J) (ai_action_id i) of
        Some entry \<Rightarrow> if je_binding entry \<noteq> binding i
          then Inl (journal_error ErrorCode.InvalidArgument ''action ID is bound to a different intent'') else Inr ()
      | None \<Rightarrow> Inr ())"

text \<open>\<open>last_receipt.value()\<close> of an entry: every entry of the table has a receipt.\<close>

definition last_receipt :: "Entry \<Rightarrow> AppendReceipt" where
  "last_receipt entry = the (js_last_receipt (je_state entry))"

definition set_phase :: "ActionId \<Rightarrow> ActionJournalPhase \<Rightarrow> AppendReceipt \<Rightarrow> ActionJournal \<Rightarrow> ActionJournal" where
  "set_phase a phase r J = J\<lparr>aj_states := umap_modify a (\<lambda>entry. entry\<lparr>je_state :=
     (je_state entry)\<lparr>js_phase := phase, js_last_receipt := Some r\<rparr>\<rparr>) (aj_states J)\<rparr>"

definition journal_prepare ::
    "('s, 'e) IEventStore \<Rightarrow> 'e \<Rightarrow> EventId \<Rightarrow> ActionIntent \<Rightarrow> ActionJournal \<times> 's \<Rightarrow> (ActionJournal \<times> 's) \<times> AppendReceipt Result" where
  "journal_prepare ops env event_id i = (\<lambda>(J, s).
     case validate_intent J i of
       Inl e \<Rightarrow> ((J, s), Inl e)
     | Inr _ \<Rightarrow>
         (case map_of (aj_states J) (ai_action_id i) of
            Some entry \<Rightarrow> ((J, s), Inr (last_receipt entry))
          | None \<Rightarrow>
              (case journal_append ops env event_id J i ''ActionPrepared'' (journal_encode i '''') State s of
                 (s, Inl e) \<Rightarrow> ((J, s), Inl e)
               | (s, Inr r) \<Rightarrow>
                   ((J\<lparr>aj_states := umap_emplace (ai_action_id i)
                        \<lparr>je_binding = binding i, je_state = \<lparr>js_action_id = ai_action_id i, js_phase = Prepared,
                           js_last_receipt = Some r\<rparr>\<rparr> (aj_states J)\<rparr>, s), Inr r))))"

definition journal_dispatch_started ::
    "('s, 'e) IEventStore \<Rightarrow> 'e \<Rightarrow> EventId \<Rightarrow> ActionIntent \<Rightarrow> ActionJournal \<times> 's \<Rightarrow> (ActionJournal \<times> 's) \<times> AppendReceipt Result" where
  "journal_dispatch_started ops env event_id i = (\<lambda>(J, s).
     case validate_intent J i of
       Inl e \<Rightarrow> ((J, s), Inl e)
     | Inr _ \<Rightarrow>
         (case map_of (aj_states J) (ai_action_id i) of
            None \<Rightarrow> ((J, s), Inl (journal_error ErrorCode.InvalidState ''action must be prepared first''))
          | Some entry \<Rightarrow>
              if js_phase (je_state entry) \<in> {DispatchStarted, ReceiptPhase, ExecutionUncertain}
              then ((J, s), Inr (last_receipt entry))
              else (case journal_append ops env event_id J i ''ActionDispatchStarted'' (journal_encode i '''') Critical s of
                  (s, Inl e) \<Rightarrow> ((J, s), Inl e)
                | (s, Inr r) \<Rightarrow> ((set_phase (ai_action_id i) DispatchStarted r J, s), Inr r))))"

text \<open>The two results of a dispatch differ in the phase, the event and the message of the guard.\<close>

definition journal_result ::
    "ActionJournalPhase \<Rightarrow> string \<Rightarrow> EventClass \<Rightarrow> string \<Rightarrow> ('s, 'e) IEventStore \<Rightarrow> 'e \<Rightarrow> EventId \<Rightarrow> ActionIntent \<Rightarrow> string \<Rightarrow>
     ActionJournal \<times> 's \<Rightarrow> (ActionJournal \<times> 's) \<times> AppendReceipt Result" where
  "journal_result phase type classification bad_text ops env event_id i summary = (\<lambda>(J, s).
     case validate_intent J i of
       Inl e \<Rightarrow> ((J, s), Inl e)
     | Inr _ \<Rightarrow>
         (case map_of (aj_states J) (ai_action_id i) of
            None \<Rightarrow> ((J, s), Inl (journal_error ErrorCode.InvalidState ''dispatch must be durably started first''))
          | Some entry \<Rightarrow>
              if js_phase (je_state entry) = Prepared
              then ((J, s), Inl (journal_error ErrorCode.InvalidState ''dispatch must be durably started first''))
              else if js_phase (je_state entry) = phase then ((J, s), Inr (last_receipt entry))
              else if \<not> safe_text summary 4096 False
              then ((J, s), Inl (journal_error ErrorCode.InvalidArgument bad_text))
              else (case journal_append ops env event_id J i type (journal_encode i summary) classification s of
                  (s, Inl e) \<Rightarrow> ((J, s), Inl e)
                | (s, Inr r) \<Rightarrow> ((set_phase (ai_action_id i) phase r J, s), Inr r))))"

definition journal_receipt ::
    "('s, 'e) IEventStore \<Rightarrow> 'e \<Rightarrow> EventId \<Rightarrow> ActionIntent \<Rightarrow> string \<Rightarrow> ActionJournal \<times> 's \<Rightarrow> (ActionJournal \<times> 's) \<times> AppendReceipt Result" where
  "journal_receipt = journal_result ReceiptPhase ''ActionReceipt'' State ''action receipt summary is invalid''"

definition journal_execution_uncertain ::
    "('s, 'e) IEventStore \<Rightarrow> 'e \<Rightarrow> EventId \<Rightarrow> ActionIntent \<Rightarrow> string \<Rightarrow> ActionJournal \<times> 's \<Rightarrow> (ActionJournal \<times> 's) \<times> AppendReceipt Result" where
  "journal_execution_uncertain =
     journal_result ExecutionUncertain ''ActionExecutionUncertain'' Critical ''action uncertainty summary is invalid''"

section \<open>Recovery\<close>

definition journal_types :: "string list" where
  "journal_types = [''ActionPrepared'', ''ActionDispatchStarted'', ''ActionReceipt'', ''ActionExecutionUncertain'']"

definition event_receipt :: "EventEnvelope \<Rightarrow> AppendReceipt" where
  "event_receipt e = \<lparr>rc_event_id = ev_event_id e, rc_session_sequence = ev_session_sequence e,
     rc_task_sequence = ev_task_sequence e, rc_durable_watermark = 0, rc_achieved = ProcessCrash\<rparr>"

text \<open>An event of the action moves the phase.\<close>

definition next_phase :: "string \<Rightarrow> ActionJournalPhase \<Rightarrow> ActionJournalPhase Result" where
  "next_phase type phase =
     (if type = ''ActionPrepared'' then
        (if phase \<noteq> Prepared then Inl (journal_error ErrorCode.DataLoss ''journal prepare follows dispatch'') else Inr phase)
      else if type = ''ActionDispatchStarted'' then Inr (if phase = Prepared then DispatchStarted else phase)
      else if phase = Prepared then Inl (journal_error ErrorCode.DataLoss ''journal result has no dispatch start'')
      else Inr (if type = ''ActionReceipt'' then ReceiptPhase else ExecutionUncertain))"

definition journal_entry :: "ActionJournal \<Rightarrow> ActionIntent \<Rightarrow> ActionJournalState \<Rightarrow> EventEnvelope \<Rightarrow> ActionJournalState Result" where
  "journal_entry J i state e =
     (if pl_type (ev_payload e) \<notin> set journal_types then Inr state
      else case journal_parse (pl_data (ev_payload e)) of
        None \<Rightarrow> Inl (journal_error ErrorCode.DataLoss ''journal recovery payload is invalid'')
      | Some p \<Rightarrow>
          if ev_task_id e \<noteq> Some (jp_task_id p)
          then Inl (journal_error ErrorCode.DataLoss ''journal recovery payload is invalid'')
          else if jp_action_id p \<noteq> ai_action_id i then Inr state
          else if ev_runtime_id e \<noteq> aj_runtime_id J \<or> \<not> payload_matches p i
          then Inl (journal_error ErrorCode.DataLoss ''journal action identity conflicts with intent'')
          else res_bind (next_phase (pl_type (ev_payload e)) (js_phase state))
            (\<lambda>phase. Inr (state\<lparr>js_phase := phase, js_last_receipt := Some (event_receipt e)\<rparr>)))"

definition scan_event ::
    "ActionJournal \<Rightarrow> ActionIntent \<Rightarrow> u64 option \<times> nat \<times> ActionJournalState \<Rightarrow> EventEnvelope \<Rightarrow>
     (u64 option \<times> nat \<times> ActionJournalState) Result" where
  "scan_event J i scan e = (case scan of (cursor, scanned, state) \<Rightarrow>
     if ev_session_id e \<noteq> ai_session_id i \<or> ev_session_sequence e \<le> (case cursor of None \<Rightarrow> 0 | Some c \<Rightarrow> c)
     then Inl (journal_error ErrorCode.DataLoss ''journal recovery page identity or order is invalid'')
     else res_bind (journal_entry J i state e) (\<lambda>state. Inr (Some (ev_session_sequence e), Suc scanned, state)))"

lemma scan_event_Inr:
  "scan_event J i (cursor, scanned, state) e = Inr scan \<Longrightarrow>
     \<exists>state'. journal_entry J i state e = Inr state' \<and> scan = (Some (ev_session_sequence e), Suc scanned, state')"
  by (auto simp: scan_event_def res_bind_Inr_iff split: if_splits)

lemma scan_events_count:
  "fold_res (scan_event J i) (cursor, scanned, state) es = Inr (cursor', scanned', state') \<Longrightarrow> scanned' = scanned + length es"
proof (induction es arbitrary: cursor scanned state)
  case (Cons e es)
  obtain state'' where "fold_res (scan_event J i) (Some (ev_session_sequence e), Suc scanned, state'') es = Inr (cursor', scanned', state')"
    using Cons.prems by (auto simp: res_bind_Inr_iff dest!: scan_event_Inr)
  from Cons.IH [OF this] show ?case by simp
qed simp

function journal_pages ::
    "('s, 'e) IEventStore \<Rightarrow> ActionJournal \<Rightarrow> ActionIntent \<Rightarrow> u64 option \<Rightarrow> nat \<Rightarrow> ActionJournalState \<Rightarrow> 's \<Rightarrow>
     's \<times> ActionJournalState Result" where
  "journal_pages ops J i cursor scanned state s =
     (let limit = min (aj_page_size J) (aj_max_events_scanned J - scanned) in
      case st_read ops \<lparr>eq_session_id = ai_session_id i, eq_after_sequence = cursor, eq_limit = limit\<rparr> s of
        (s, None) \<Rightarrow> (s, Inl (journal_error ErrorCode.Internal ''journal recovery read raised an exception''))
      | (s, Some (Inl e)) \<Rightarrow> (s, Inl e)
      | (s, Some (Inr page)) \<Rightarrow>
          if length (pg_events page) > limit \<or> (pg_events page = [] \<and> pg_has_more page)
          then (s, Inl (journal_error ErrorCode.DataLoss ''journal recovery page made no valid progress''))
          else (case fold_res (scan_event J i) (cursor, scanned, state) (pg_events page) of
              Inl e \<Rightarrow> (s, Inl e)
            | Inr (cursor, scanned, state) \<Rightarrow>
                if \<not> pg_has_more page then (s, Inr state)
                else if scanned = aj_max_events_scanned J
                then (s, Inl (journal_error ErrorCode.ResourceExhausted ''journal recovery scan exceeded its bound''))
                else journal_pages ops J i cursor scanned state s))"
  by pat_completeness auto
termination
proof (relation "measure (\<lambda>(ops, J, i, cursor, scanned, state, s). aj_max_events_scanned J - scanned)", goal_cases)
  case (2 ops J i cursor scanned state s limit)
  then show ?case by (auto dest!: scan_events_count simp: Suc_le_eq neq_Nil_conv not_less)
qed simp

declare journal_pages.simps [simp del]

definition journal_recover ::
    "('s, 'e) IEventStore \<Rightarrow> ActionIntent \<Rightarrow> ActionJournal \<times> 's \<Rightarrow> 's \<times> ActionJournalState Result" where
  "journal_recover ops i = (\<lambda>(J, s).
     case validate_intent J i of
       Inl e \<Rightarrow> (s, Inl e)
     | Inr _ \<Rightarrow>
         (case map_of (aj_states J) (ai_action_id i) of
            Some entry \<Rightarrow> (s, Inr (je_state entry))
          | None \<Rightarrow>
              if aj_page_size J = 0 \<or> aj_max_events_scanned J = 0
              then (s, Inl (journal_error ErrorCode.InvalidArgument ''journal recovery bounds must be positive''))
              else journal_pages ops J i None 0
                \<lparr>js_action_id = ai_action_id i, js_phase = Prepared, js_last_receipt = None\<rparr> s))"

definition new_journal :: "RuntimeId \<Rightarrow> nat \<Rightarrow> nat \<Rightarrow> ActionJournal" where
  "new_journal runtime page_size max_events_scanned =
     \<lparr>aj_runtime_id = runtime, aj_page_size = page_size, aj_max_events_scanned = max_events_scanned, aj_states = []\<rparr>"

end
