(* ===== verification/Event_Log_Contract.thy ===== *)
theory Event_Log_Contract
  imports Store_Interface File_Properties
begin

text \<open>
  The contract of an event store, as the components above it rely on it: the locale \<open>event_log\<close>.
  The content of a store is a log of accepted requests with their numbers; appends extend it,
  reads page through it and a restart keeps it. The in-memory store and the file store are
  interpretations; the components prove what they promise inside the locale.
\<close>

section \<open>Logs\<close>

text \<open>An entry of the log: the accepted request and its numbers.\<close>

type_synonym event_core = "AppendRequest \<times> u64 \<times> u64 option"

definition event_core :: "EventEnvelope \<Rightarrow> event_core" where
  "event_core e = (fst (entry_of e), ev_session_sequence e, ev_task_sequence e)"

definition core_event :: "event_core \<Rightarrow> EventEnvelope" where
  "core_event c = (case c of (q, n, t) \<Rightarrow> (request_envelope q)\<lparr>ev_session_sequence := n, ev_task_sequence := t\<rparr>)"

lemma core_event_fields:
  "ev_payload (core_event (event_core e)) = ev_payload e" "ev_task_id (core_event (event_core e)) = ev_task_id e"
  "ev_runtime_id (core_event (event_core e)) = ev_runtime_id e"
  by (simp_all add: core_event_def event_core_def entry_of_def request_envelope_def envelope_default_def)

definition session_log :: "SessionId \<Rightarrow> event_core list \<Rightarrow> event_core list" where
  "session_log k cs = filter (\<lambda>c. ar_session_id (fst c) = k) cs"

definition numbered :: "event_core list \<Rightarrow> bool" where
  "numbered cs \<longleftrightarrow> (\<forall>k. map (\<lambda>c. unat (fst (snd c))) (session_log k cs) = [1..<Suc (length (session_log k cs))])"

lemma numbered_nth: "numbered cs \<Longrightarrow> j < length (session_log k cs) \<Longrightarrow> unat (fst (snd (session_log k cs ! j))) = Suc j"
proof -
  assume "numbered cs" and j: "j < length (session_log k cs)"
  then have "map (\<lambda>c. unat (fst (snd c))) (session_log k cs) ! j = [1..<Suc (length (session_log k cs))] ! j"
    by (simp only: numbered_def)
  then show ?thesis using j by (simp del: upt_Suc)
qed

lemma drop_in_parts: "drop k xs = take l (drop k xs) @ drop (k + l) xs"
  by (metis add.commute append_take_drop_id drop_drop)

definition page_rest :: "EventQuery \<Rightarrow> event_core list \<Rightarrow> event_core list" where
  "page_rest q cs = drop (unat (case eq_after_sequence q of None \<Rightarrow> 0 | Some a \<Rightarrow> a)) (session_log (eq_session_id q) cs)"

section \<open>The contract of a store\<close>

text \<open>The contract. \<open>takes\<close> names the requests that the store can keep, \<open>room\<close> how many more, and
  \<open>readable\<close> a store that has not shut itself off.\<close>

locale event_log =
  fixes ops :: "('s, 'e) IEventStore" and restart :: "'s \<Rightarrow> 's" and good :: "'s \<Rightarrow> bool" and readable :: "'s \<Rightarrow> bool"
    and takes :: "'e \<Rightarrow> AppendRequest \<Rightarrow> bool" and room :: "'s \<Rightarrow> nat" and log :: "'s \<Rightarrow> event_core list"
  assumes log_numbered: "good s \<Longrightarrow> numbered (log s)"
    and restart_law: "good s \<Longrightarrow> good (restart s) \<and> readable (restart s) \<and> log (restart s) = log s \<and> room (restart s) = room s"
    and append_law: "good s \<Longrightarrow> takes env q \<Longrightarrow> 0 < room s \<Longrightarrow> st_append ops env q s = (s', answer) \<Longrightarrow>
      good s' \<and> room s \<le> Suc (room s') \<and> (\<exists>new. log s' = log s @ new \<and> (\<forall>c\<in>set new. fst c = accepted_form q))"
    and acknowledged_law: "good s \<Longrightarrow> takes env q \<Longrightarrow> 0 < room s \<Longrightarrow> st_append ops env q s = (s', Some (Inr r)) \<Longrightarrow>
      (accepted_form q, rc_session_sequence r, rc_task_sequence r) \<in> set (log s')"
    and read_law: "good s \<Longrightarrow> readable s \<Longrightarrow> \<exists>s' es. st_read ops query s =
        (s', Some (Inr \<lparr>pg_events = es, pg_has_more = eq_limit query < length (page_rest query (log s))\<rparr>)) \<and>
      good s' \<and> readable s' \<and> log s' = log s \<and> room s' = room s \<and> map event_core es = take (eq_limit query) (page_rest query (log s))"
begin

lemma read_good: "good s \<Longrightarrow> readable s \<Longrightarrow> st_read ops query s = (s', answer) \<Longrightarrow> good s' \<and> readable s' \<and> log s' = log s"
  using read_law [of s query] by auto

end

section \<open>The stores keep the contract\<close>

definition memory_log :: "MemoryEventStore \<Rightarrow> event_core list" where
  "memory_log s = map event_core (es_events s)"

lemma session_log_memory: "session_log k (memory_log s) = map event_core (session_events s k)"
  by (simp add: session_log_def memory_log_def session_events_def filter_map comp_def event_core_def entry_of_def)

lemma memory_numbered: "store_inv s \<Longrightarrow> es_max_events s < 2 ^ 64 \<Longrightarrow> numbered (memory_log s)"
  using session_numbers [of s] by (simp add: numbered_def session_log_memory comp_def event_core_def)

lemma memory_page:
  assumes "store_inv s" "es_max_events s < 2 ^ 64"
  shows "\<exists>es. store_read s query = Inr \<lparr>pg_events = es, pg_has_more = eq_limit query < length (page_rest query (memory_log s))\<rparr> \<and>
    map event_core es = take (eq_limit query) (page_rest query (memory_log s))"
  unfolding store_read_page [OF assms] Let_def page_rest_def session_log_memory by (simp add: drop_map take_map)

interpretation memory_store: event_log memory_ops id "\<lambda>s. store_inv s \<and> es_max_events s < 2 ^ 64" "\<lambda>_. True" "\<lambda>_ _. True"
  "\<lambda>s. es_max_events s - length (es_events s)" memory_log
proof unfold_locales
  fix s env q s' answer
  assume s: "store_inv s \<and> es_max_events s < 2 ^ 64" and app: "st_append memory_ops env q s = (s', answer)"
  have s': "s' = fst (append_stamped s q env AppendProcess)"
    using app by (cases "append_stamped s q env AppendProcess") (simp add: memory_ops_def store_append_def)
  have inv: "store_inv s'" using append_stamped_refines(1) s by (simp add: s')
  have ext: "es_max_events s' = es_max_events s" using append_stamped_extends [of s q env AppendProcess] by (simp add: extends_def s')
  have "es_events s' = es_events s \<or> (\<exists>e. es_events s' = es_events s @ [e] \<and> fst (event_core e) = accepted_form q)"
  proof -
    obtain t rc where new: "append_new s q env AppendProcess = (t, rc)" by force
    obtain e where "es_events t = es_events s @ [e]" "entry_of e = (accepted_form q, env, AppendProcess)"
      by (rule append_new_fields [OF new])
    then show ?thesis by (auto simp: s' append_stamped_def new Let_def event_core_def split: option.splits)
  qed
  then show "(store_inv s' \<and> es_max_events s' < 2 ^ 64) \<and>
      es_max_events s - length (es_events s) \<le> Suc (es_max_events s' - length (es_events s')) \<and>
      (\<exists>new. memory_log s' = memory_log s @ new \<and> (\<forall>c\<in>set new. fst c = accepted_form q))"
    using inv ext s by (auto simp: memory_log_def)
next
  fix s env q s' r
  assume s: "store_inv s \<and> es_max_events s < 2 ^ 64" and app: "st_append memory_ops env q s = (s', Some (Inr r))"
  have "append_stamped s q env AppendProcess = (s', Inr r)"
    using app by (cases "append_stamped s q env AppendProcess") (simp add: memory_ops_def store_append_def)
  then obtain i where "i < length (es_events s')" "same_request (es_events s' ! i) q" "r = receipt_of (es_events s' ! i) (es_durable_watermark s')"
    using append_succeeded s by metis
  then show "(accepted_form q, rc_session_sequence r, rc_task_sequence r) \<in> set (memory_log s')"
    by (auto simp: memory_log_def event_core_def receipt_of_def same_request_accepted intro!: image_eqI)
next
  fix s query
  assume "store_inv s \<and> es_max_events s < 2 ^ 64"
  then show "\<exists>s' es. st_read memory_ops query s =
        (s', Some (Inr \<lparr>pg_events = es, pg_has_more = eq_limit query < length (page_rest query (memory_log s))\<rparr>)) \<and>
      (store_inv s' \<and> es_max_events s' < 2 ^ 64) \<and> True \<and> memory_log s' = memory_log s \<and>
      es_max_events s' - length (es_events s') = es_max_events s - length (es_events s) \<and>
      map event_core es = take (eq_limit query) (page_rest query (memory_log s))"
    using memory_page [of s query] by (auto simp: memory_ops_def)
qed (auto intro: memory_numbered)

text \<open>The log of a file store is what a restart recovers.\<close>

definition file_log :: "FileEventStore \<Rightarrow> event_core list" where
  "file_log s = memory_log (fs_memory (fst (file_recover file_works True (reopen s))))"

definition record_core :: "LogRecord \<Rightarrow> event_core" where
  "record_core r = (accepted_form (lr_request r), lr_sequence r, lr_task_sequence r)"

lemma index_log: "index_inv n recs s \<Longrightarrow> memory_log (fs_memory s) = map record_core recs"
  using index_events(4) [of n recs s] index_event_at [of n recs s]
  by (auto simp: memory_log_def record_core_def event_core_def intro!: nth_equalityI)

lemma file_log_records: "file_rel n recs s \<Longrightarrow> file_log s = map record_core recs"
proof -
  assume "file_rel n recs s"
  then have "file_inv n recs (fst (file_recover file_works True (reopen s)))"
    using recover_usable(2) [OF file_rel_reopen] by (simp add: reopen_def)
  then show ?thesis using index_log file_inv_flags unfolding file_log_def by blast
qed

lemma file_store_numbered: "file_rel n recs s \<Longrightarrow> n < 2 ^ 64 \<Longrightarrow> numbered (file_log s)"
  using recover_usable(2) [OF file_rel_reopen, of n recs s] memory_numbered
  by (auto simp: reopen_def file_log_def file_inv_def index_inv_def)

lemma acknowledged_log: "acknowledged recs q r \<Longrightarrow> (accepted_form q, rc_session_sequence r, rc_task_sequence r) \<in> set (map record_core recs)"
  by (force simp: acknowledged_def record_core_def)

interpretation file_store: event_log file_ops reopen "\<lambda>s. n < 2 ^ 64 \<and> (\<exists>recs. file_rel n recs s)"
  "\<lambda>s. \<not> (fs_loaded s \<and> fs_read_only s)" "\<lambda>(answer, now). append_ok now" "\<lambda>s. n - length (file_log s)" file_log for n
proof unfold_locales
  fix s assume "n < 2 ^ 64 \<and> (\<exists>recs. file_rel n recs s)"
  then obtain recs where s: "n < 2 ^ 64" "file_rel n recs s" by blast
  show "numbered (file_log s)" by (rule file_store_numbered [OF s(2,1)])
  show "(n < 2 ^ 64 \<and> (\<exists>recs. file_rel n recs (reopen s))) \<and> \<not> (fs_loaded (reopen s) \<and> fs_read_only (reopen s)) \<and>
      file_log (reopen s) = file_log s \<and> n - length (file_log (reopen s)) = n - length (file_log s)"
    using s file_rel_reopen [OF s(2)] file_log_records [OF s(2)] file_log_records [OF file_rel_reopen [OF s(2)]]
    by (auto simp: reopen_def)
  fix query assume rd: "\<not> (fs_loaded s \<and> fs_read_only s)"
  obtain s' where s': "ensure_loaded file_works s = (s', Inr ())" "file_inv n recs s'"
    by (rule ensure_loaded_rel [OF s(2)]) (use rd in auto)
  have m: "store_inv (fs_memory s')" "es_max_events (fs_memory s') < 2 ^ 64" "memory_log (fs_memory s') = file_log s"
    using s'(2) s(1) index_log [of n recs s'] file_log_records [OF s(2)] by (simp_all add: file_inv_def index_inv_def)
  have "file_log s' = file_log s" using file_log_records [OF file_rel_inv [OF s'(2)]] file_log_records [OF s(2)] by simp
  then show "\<exists>s' es. st_read file_ops query s =
        (s', Some (Inr \<lparr>pg_events = es, pg_has_more = eq_limit query < length (page_rest query (file_log s))\<rparr>)) \<and>
      (n < 2 ^ 64 \<and> (\<exists>recs. file_rel n recs s')) \<and> \<not> (fs_loaded s' \<and> fs_read_only s') \<and> file_log s' = file_log s \<and>
      n - length (file_log s') = n - length (file_log s) \<and> map event_core es = take (eq_limit query) (page_rest query (file_log s))"
    using memory_page [OF m(1,2), of query] s(1) s' file_rel_inv [OF s'(2)] file_inv_flags [OF s'(2)]
    by (auto simp: file_ops_def file_read_def m(3))
next
  fix s env q s' answer
  assume "n < 2 ^ 64 \<and> (\<exists>recs. file_rel n recs s)" and env: "(case env of (answer, now) \<Rightarrow> append_ok now) q"
    and room: "0 < n - length (file_log s)" and app: "st_append file_ops env q s = (s', answer)"
  then obtain recs where s: "n < 2 ^ 64" "file_rel n recs s" by blast
  obtain w now where w: "env = (w, now)" by (cases env)
  have len: "length recs < n" "append_ok now q" using room env file_log_records [OF s(2)] by (simp_all add: w)
  obtain t res recs' where t: "file_append file_works w now q s = (t, res)" "file_rel n recs' t"
    "recs' = recs \<or> recs' = recs @ [stored_record recs now q]"
    "\<And>receipt. res = Inr receipt \<Longrightarrow> acknowledged recs' q receipt \<and> rc_achieved receipt = ProcessCrash"
    using file_append_result [OF s(2) len(2,1) s(1), of w] by metis
  have s': "s' = t" "answer = Some res" using app t(1) by (simp_all add: file_ops_def w)
  have "fst (record_core (stored_record recs now q)) = accepted_form q" by (simp add: record_core_def stored_record_def accepted_form_def)
  then show "(n < 2 ^ 64 \<and> (\<exists>recs. file_rel n recs s')) \<and> n - length (file_log s) \<le> Suc (n - length (file_log s')) \<and>
      (\<exists>new. file_log s' = file_log s @ new \<and> (\<forall>c\<in>set new. fst c = accepted_form q))"
    using t(2,3) s s'(1) file_log_records [OF s(2)] file_log_records [OF t(2)] by auto
  fix r assume "st_append file_ops env q s = (s', Some (Inr r))"
  then have "res = Inr r" using app s' by simp
  then show "(accepted_form q, rc_session_sequence r, rc_task_sequence r) \<in> set (file_log s')"
    using t(4) acknowledged_log file_log_records [OF t(2)] s'(1) by simp
qed

end
