(* ===== verification/Flat_Payload.thy ===== *)
theory Flat_Payload
  imports File_Codec Json_Properties
begin

text \<open>
  The event payloads of the interaction layer are flat objects: their members are texts and
  integers. Such an object is written as well-formed UTF-8, within the default limits of the
  parser, and is read back.
\<close>

section \<open>Written text is well formed\<close>

lemma utf8_ok_join [simp]: "utf8_ok xs \<Longrightarrow> utf8_ok ys \<Longrightarrow> utf8_ok (xs @ ys)"
  by (simp add: utf8_ok_append)

lemma escape_byte_low: "(of_char c :: int) < 0x80 \<Longrightarrow> utf8_ok (escape_byte c)"
proof -
  have "\<forall>c. (of_char c :: int) < 0x80 \<longrightarrow> list_all (\<lambda>x. (of_char x :: int) < 0x80) (escape_byte c)" by code_simp
  then show "(of_char c :: int) < 0x80 \<Longrightarrow> ?thesis" by (simp add: ascii_utf8_ok list_all_iff)
qed

lemma utf8_trail_written: "utf8_trail n cp cs = Some (cp', rest) \<Longrightarrow> utf8_trail n cp (write_bytes n cs) = Some (cp', write_bytes 0 rest)"
  by (induction n cp cs rule: utf8_trail.induct) (auto split: if_splits)

lemma write_bytes_utf8: "utf8_ok s \<Longrightarrow> utf8_ok (write_bytes 0 s)"
proof (induction s rule: utf8_ok.induct)
  case (2 c cs)
  show ?case
  proof (cases "(of_char c :: int) < 0x80")
    case True
    then show ?thesis using 2 by (simp add: escape_byte_low write_continuation_low)
  next
    case False
    with "2.prems" obtain n bits cp rest where l: "utf8_lead (of_char c) = Some (n, bits)"
      and t: "utf8_trail n bits cs = Some (cp, rest)" "utf8_code_point_ok n cp" "utf8_ok rest"
      by (auto split: option.splits)
    then have "utf8_ok (write_bytes 0 rest)" using "2.IH"(2) [OF False l refl t(1) refl] by simp
    then show ?thesis using False l t(2) utf8_trail_written [OF t(1)]
      by (simp add: escape_byte_high write_continuation_def)
  qed
qed simp

lemma write_string_utf8 [simp]: "utf8_ok s \<Longrightarrow> utf8_ok (write_string s)"
  using write_bytes_utf8 [of s] by (simp add: write_string_def)

lemma escape_byte_length: "length (escape_byte c) \<le> 6"
  by (simp add: escape_byte_def)

lemma write_bytes_length: "length (write_bytes n s) \<le> 6 * length s"
  by (induction n s rule: write_bytes.induct) (auto intro: order_trans [OF add_mono [OF escape_byte_length]])

section \<open>Flat objects\<close>

definition text_limit :: nat where
  "text_limit = 65536"

definition text_ok :: "string \<Rightarrow> bool" where
  "text_ok t \<longleftrightarrow> utf8_ok t \<and> length t \<le> text_limit"

definition flat_value :: "JsonValue \<Rightarrow> bool" where
  "flat_value v \<longleftrightarrow> (case v of JString t \<Rightarrow> text_ok t | JInteger i \<Rightarrow> \<bar>i\<bar> \<le> int64_max | _ \<Rightarrow> False)"

definition flat_keys :: "string list \<Rightarrow> bool" where
  "flat_keys ks \<longleftrightarrow> length ks \<le> 8 \<and> distinct ks \<and> list_all (\<lambda>k. utf8_ok k \<and> length k \<le> 32) ks"

definition flat_object :: "JsonObject \<Rightarrow> bool" where
  "flat_object ms \<longleftrightarrow> flat_keys (map fst ms) \<and> list_all flat_value (map snd ms)"

lemma show_digits_length: "0 \<le> n \<Longrightarrow> n < 10 ^ k \<Longrightarrow> 0 < k \<Longrightarrow> length (show_digits n) \<le> k"
proof (induction k arbitrary: n)
  case (Suc k)
  show ?case
  proof (cases "n < 10")
    case False
    then have "n div 10 < 10 ^ k" "0 \<le> n div 10" "0 < k" using Suc.prems by (cases k; auto)+
    then have "length (show_digits (n div 10)) \<le> k" using Suc.IH by blast
    then show ?thesis using False by (subst show_digits.simps) simp
  qed (subst show_digits.simps, simp)
qed simp

lemma int64_text_length: "\<bar>i\<bar> \<le> int64_max \<Longrightarrow> length (show_int i) \<le> 20"
  using show_digits_length [of "\<bar>i\<bar>" 19] by (auto simp: show_int_def int64_max_def split: if_splits)

lemma flat_value_written:
  assumes "flat_value v"
  shows "utf8_ok (write_value False v)" "length (write_value False v) \<le> 6 * text_limit + 2" "number_free v"
    "0 < depth \<Longrightarrow> depth < 32 \<Longrightarrow> json_valid json_limits_default depth v"
proof -
  show "length (write_value False v) \<le> 6 * text_limit + 2"
  proof (cases v)
    case (JInteger i)
    then have "length (show_int i) \<le> 20" using assms by (simp add: int64_text_length flat_value_def)
    then show ?thesis using JInteger by (simp add: text_limit_def)
  next
    case (JString t)
    then show ?thesis using assms write_bytes_length [of 0 t] by (simp add: flat_value_def text_ok_def write_string_def)
  qed (use assms in \<open>simp_all add: flat_value_def\<close>)
  show "utf8_ok (write_value False v)" "number_free v" "0 < depth \<Longrightarrow> depth < 32 \<Longrightarrow> json_valid json_limits_default depth v"
    using assms by (auto simp: flat_value_def text_ok_def json_limits_default_def string_ok_def text_limit_def split: JsonValue.splits)
qed

lemma comma_separated_utf8: "(\<forall>x\<in>set xs. utf8_ok x) \<Longrightarrow> utf8_ok (comma_separated xs)"
  by (induction xs rule: comma_separated.induct) auto

lemma comma_separated_bound: "(\<forall>x\<in>set xs. length x \<le> k) \<Longrightarrow> length (comma_separated xs) \<le> length xs * Suc k"
  by (induction xs rule: comma_separated.induct) auto

text \<open>A flat object is read back, and it is text that a store keeps.\<close>

lemma flat_object_written:
  assumes "flat_object ms"
  shows "utf8_ok (to_json_string (JObject ms))" "parse_json json_limits_default (to_json_string (JObject ms)) = Inr (JObject ms)"
proof -
  let ?parts = "map (\<lambda>m. write_member (fst m, write_value False (snd m))) ms"
  have m: "utf8_ok (fst m)" "length (fst m) \<le> 32" "flat_value (snd m)" if "m \<in> set ms" for m
    using assms that by (auto simp: flat_object_def flat_keys_def list_all_iff)
  have member: "utf8_ok (write_member (fst m, write_value False (snd m)))"
    "length (write_member (fst m, write_value False (snd m))) \<le> 6 * text_limit + 200" if "m \<in> set ms" for m
    using m [OF that] flat_value_written(1,2) [OF m(3) [OF that]] write_bytes_length [of 0 "fst m"]
    by (simp_all add: write_member_def) (simp add: write_string_def)
  have parts: "\<forall>x\<in>set ?parts. utf8_ok x" "\<forall>x\<in>set ?parts. length x \<le> 6 * text_limit + 200"
    using member by auto
  have whole: "to_json_string (JObject ms) = ''{'' @ comma_separated ?parts @ ''}''"
    unfolding to_json_string_def by (rule write_members_plain)
  show "utf8_ok (to_json_string (JObject ms))" unfolding whole using comma_separated_utf8 [OF parts(1)] by simp
  have "length ms * Suc (6 * text_limit + 200) \<le> 8 * Suc (6 * text_limit + 200)"
    using assms by (intro mult_right_mono) (simp_all add: flat_object_def flat_keys_def)
  then have "length (to_json_string (JObject ms)) \<le> max_document_bytes json_limits_default"
    using comma_separated_bound [OF parts(2)] unfolding whole by (simp add: text_limit_def json_limits_default_def)
  moreover have "length (fst m) < 1048576" if "m \<in> set ms" for m using m(2) [OF that] by simp
  then have "json_valid json_limits_default 0 (JObject ms)" "number_free (JObject ms)"
    using assms m flat_value_written(3) flat_value_written(4) [of _ 1]
    by (auto simp: flat_object_def flat_keys_def json_limits_default_def string_ok_def)
  ultimately show "parse_json json_limits_default (to_json_string (JObject ms)) = Inr (JObject ms)"
    by (simp add: parse_to_json_string json_encodable_def)
qed

end
