(* ===== verification/Journal_Contract.thy ===== *)
theory Journal_Contract
  imports Action_Journal Event_Log_Contract Flat_Payload
begin

text \<open>
  What the action journal promises on a store that keeps its contract (\<open>event_log\<close>): the recovery of
  an action is the replay of the log of its session, and a dispatch that was acknowledged is never
  forgotten.
\<close>

section \<open>Payloads\<close>

definition intent_ok :: "ActionIntent \<Rightarrow> bool" where
  "intent_ok i \<longleftrightarrow> list_all id128_ok [ai_action_id i, ai_runtime_id i, ai_session_id i, ai_task_id i] \<and> digest_ok (ai_action_digest i)"

lemma split_bar_append [simp]: "CHR ''|'' \<notin> set f \<Longrightarrow> split_bar (f @ CHR ''|'' # rest) = Some (f, rest)"
  by (induction f) auto

lemma split_bar_None [simp]: "CHR ''|'' \<notin> set f \<Longrightarrow> split_bar f = None"
  by (induction f) auto

lemma hex_no_bar [simp]: "CHR ''|'' \<notin> set (hex_bytes bs)"
proof -
  have "\<forall>n\<in>set [0..<16]. hex_char n \<noteq> CHR ''|''" by code_simp
  then have "hex_char (unat b div 16) \<noteq> CHR ''|''" "hex_char (unat b mod 16) \<noteq> CHR ''|''" for b :: u8
    by (simp_all add: less_mult_imp_div_less)
  then show ?thesis by (induction bs) (simp_all add: hex_byte_def, metis)
qed

lemma digits_no_bar [simp]: "CHR ''|'' \<notin> set (show_int (uint n))"
proof -
  have "list_all is_digit (show_int (uint n))" using show_digits_spec [of "uint n"] by (simp add: show_int_def)
  moreover have "\<not> is_digit CHR ''|''" by code_simp
  ultimately show ?thesis by (auto simp: list_all_iff)
qed

lemma texts_no_bar [simp]: "CHR ''|'' \<notin> set (id128_to_string i)" "CHR ''|'' \<notin> set (digest_to_string d)"
  by (simp_all add: id128_to_string_def digest_to_string_def)

lemma safe_field_no_bar: "safe_text t n True \<Longrightarrow> CHR ''|'' \<notin> set t \<and> t \<noteq> [] \<and> length t \<le> n"
  by (auto simp: safe_text_def list_all_iff)

lemma show_u64_length: "length (show_int (uint n)) \<le> 20" for n :: u64
proof -
  have "uint n < 10 ^ 20" using uint_lt2p [of n] by simp
  then show ?thesis using show_digits_length [of "uint n" 20] by (simp add: show_int_def)
qed

lemma journal_fields_encode:
  assumes "valid_intent i runtime"
  shows "journal_fields 8 (journal_encode i x) =
    Some ([id128_to_string (ai_action_id i), id128_to_string (ai_task_id i), show_int (uint (ai_task_epoch i)),
      show_int (uint (ai_environment_epoch i)), digest_to_string (ai_action_digest i), rd_type (ai_target i),
      rd_id (ai_target i), rd_scope (ai_target i)], x)"
  using assms safe_field_no_bar [of _ 1024]
  by (auto simp: journal_encode_def valid_intent_def eval_nat_numeral)

text \<open>The payload that the journal wrote is read back.\<close>

definition intent_payload :: "ActionIntent \<Rightarrow> string \<Rightarrow> JournalPayload" where
  "intent_payload i x = \<lparr>jp_action_id = ai_action_id i, jp_task_id = ai_task_id i, jp_task_epoch = ai_task_epoch i,
     jp_environment_epoch = ai_environment_epoch i, jp_digest = ai_action_digest i, jp_target = ai_target i, jp_suffix = x\<rparr>"

lemma journal_parse_encode:
  assumes "valid_intent i runtime" "intent_ok i" "safe_text x 4096 False"
  shows "journal_parse (journal_encode i x) = Some (intent_payload i x)"
proof -
  have ids: "wire_id (id128_to_string (ai_action_id i)) = Some (ai_action_id i)"
    "wire_id (id128_to_string (ai_task_id i)) = Some (ai_task_id i)"
    using assms by (simp_all add: wire_id_text intent_ok_def valid_intent_def)
  have "length (rd_type (ai_target i)) \<le> 1024" "length (rd_id (ai_target i)) \<le> 1024" "length (rd_scope (ai_target i)) \<le> 1024"
    "length x \<le> 4096"
    using assms(1,3) by (simp_all add: valid_intent_def safe_text_def)
  moreover have "length (id128_to_string (ai_action_id i)) = 32" "length (id128_to_string (ai_task_id i)) = 32"
    "length (digest_to_string (ai_action_digest i)) = 64"
    using assms(2) by (simp_all add: intent_ok_def id128_ok_def digest_ok_def id128_to_string_def digest_to_string_def)
  ultimately have "length (journal_encode i x) \<le> 16384"
    using show_u64_length [of "ai_task_epoch i"] show_u64_length [of "ai_environment_epoch i"]
    by (simp add: journal_encode_def)
  then show ?thesis using assms journal_fields_encode [OF assms(1), of x] ids
    by (simp add: journal_parse_def intent_payload_def valid_intent_def intent_ok_def)
qed

lemma binding_inject:
  assumes "valid_intent i runtime" "intent_ok i" "valid_intent i' runtime" "intent_ok i'" "binding i = binding i'"
  shows "i = i'"
proof -
  have l: "length (id128_to_string (ai_runtime_id i)) = length (id128_to_string (ai_runtime_id i'))"
    "length (id128_to_string (ai_session_id i)) = length (id128_to_string (ai_session_id i'))"
    using assms(2,4) by (simp_all add: intent_ok_def id128_ok_def id128_to_string_def)
  then have "id128_to_string (ai_session_id i) = id128_to_string (ai_session_id i')" "journal_encode i [] = journal_encode i' []"
    using assms(5) by (simp_all add: binding_def)
  then have "ai_session_id i = ai_session_id i'" "intent_payload i [] = intent_payload i' []"
    using assms(2,4) journal_parse_encode [OF assms(1,2), of "[]"] journal_parse_encode [OF assms(3,4), of "[]"]
    by (simp_all add: intent_ok_def safe_text_def id_text.enc_inject)
  then show ?thesis using assms(1,3) by (simp add: intent_payload_def valid_intent_def)
qed


section \<open>Replay\<close>

lemma event_receipt_core: "event_receipt (core_event (event_core e)) = event_receipt e"
  by (simp add: core_event_def event_core_def entry_of_def request_envelope_def envelope_default_def event_receipt_def)

lemma journal_entry_core: "journal_entry J i state (core_event (event_core e)) = journal_entry J i state e"
  unfolding journal_entry_def core_event_fields event_receipt_core by (rule refl)

text \<open>The phase of an action by its events.\<close>

definition replay :: "ActionJournal \<Rightarrow> ActionIntent \<Rightarrow> ActionJournalState \<Rightarrow> event_core list \<Rightarrow> ActionJournalState Result" where
  "replay J i state cs = fold_res (journal_entry J i) state (map core_event cs)"

definition initial_state :: "ActionIntent \<Rightarrow> ActionJournalState" where
  "initial_state i = \<lparr>js_action_id = ai_action_id i, js_phase = Prepared, js_last_receipt = None\<rparr>"

lemma replay_simps [simp]: "replay J i state [] = Inr state"
  "replay J i state (xs @ ys) = res_bind (replay J i state xs) (\<lambda>t. replay J i t ys)"
  by (simp_all add: replay_def fold_res_append)

lemma fold_entry_core: "fold_res (journal_entry J i) state es = replay J i state (map event_core es)"
  by (induction es arbitrary: state) (simp_all add: replay_def journal_entry_core)

lemma scan_is_replay:
  assumes "map event_core es = cs" "map (\<lambda>c. unat (fst (snd c))) cs = [Suc k..<Suc k + length cs]"
    and "\<forall>c\<in>set cs. ar_session_id (fst c) = ai_session_id i" "unat (case cursor of None \<Rightarrow> 0 | Some c \<Rightarrow> c) = k"
  shows "\<exists>cursor'. fold_res (scan_event J i) (cursor, scanned, state) es =
      res_bind (replay J i state cs) (\<lambda>t. Inr (cursor', scanned + length cs, t)) \<and>
    unat (case cursor' of None \<Rightarrow> 0 | Some c \<Rightarrow> c) = k + length cs"
  using assms
proof (induction es arbitrary: cs k cursor scanned state)
  case Nil
  then show ?case by auto
next
  case (Cons e es)
  then obtain cs' where cs: "cs = event_core e # cs'" "map event_core es = cs'" by auto
  have num: "unat (ev_session_sequence e) = Suc k" "map (\<lambda>c. unat (fst (snd c))) cs' = [Suc (Suc k)..<Suc (Suc k) + length cs']"
    using Cons.prems(2) by (simp_all add: cs event_core_def upt_conv_Cons del: upt_Suc)
  have e: "ev_session_id e = ai_session_id i" "\<not> ev_session_sequence e \<le> (case cursor of None \<Rightarrow> 0 | Some c \<Rightarrow> c)"
    using Cons.prems(3,4) num(1) by (simp_all add: cs event_core_def entry_of_def word_le_nat_alt)
  have step: "scan_event J i (cursor, scanned, state) e =
      res_bind (journal_entry J i state e) (\<lambda>t. Inr (Some (ev_session_sequence e), Suc scanned, t))"
    using e by (simp add: scan_event_def)
  have rep: "replay J i state cs = res_bind (journal_entry J i state e) (\<lambda>t. replay J i t cs')"
    by (simp add: cs replay_def journal_entry_core)
  have "\<forall>c\<in>set cs'. ar_session_id (fst c) = ai_session_id i" using Cons.prems(3) by (simp add: cs)
  then have ih: "\<exists>cursor'. fold_res (scan_event J i) (Some (ev_session_sequence e), Suc scanned, t) es =
      res_bind (replay J i t cs') (\<lambda>t. Inr (cursor', Suc scanned + length cs', t)) \<and>
    unat (case cursor' of None \<Rightarrow> 0 | Some c \<Rightarrow> c) = Suc k + length cs'" for t
    using Cons.IH [OF cs(2) num(2), of "Some (ev_session_sequence e)" "Suc scanned" t] num(1) by simp
  show ?case
  proof (cases "journal_entry J i state e")
    case (Inl x)
    then have "fold_res (scan_event J i) (cursor, scanned, state) (e # es) = Inl x" "replay J i state cs = Inl x" by (simp_all add: step rep)
    then show ?thesis using ih [of state] by (auto simp: cs(1))
  next
    case (Inr t)
    then have "fold_res (scan_event J i) (cursor, scanned, state) (e # es) =
        fold_res (scan_event J i) (Some (ev_session_sequence e), Suc scanned, t) es" "replay J i state cs = replay J i t cs'"
      by (simp_all add: step rep)
    then show ?thesis using ih [of t] by (auto simp: cs(1))
  qed
qed

section \<open>Runs\<close>

text \<open>The operations of a host: the journal's, appends of other components, and a restart of the
  process, which loses the table of the journal and reopens the store.\<close>

datatype 'e journal_op = JPrepare 'e EventId ActionIntent | JDispatch 'e EventId ActionIntent
  | JReceipt 'e EventId ActionIntent string | JUncertain 'e EventId ActionIntent string
  | JOther 'e AppendRequest | JRestart

fun run_journal_op ::
    "('s, 'e) IEventStore \<Rightarrow> ('s \<Rightarrow> 's) \<Rightarrow> 'e journal_op \<Rightarrow> ActionJournal \<times> 's \<Rightarrow> (ActionJournal \<times> 's) \<times> ActionIntent list" where
  "run_journal_op ops restart (JPrepare env x i) st = (fst (journal_prepare ops env x i st), [])"
| "run_journal_op ops restart (JDispatch env x i) st =
     (case journal_dispatch_started ops env x i st of (st', Inr _) \<Rightarrow> (st', [i]) | (st', Inl _) \<Rightarrow> (st', []))"
| "run_journal_op ops restart (JReceipt env x i summary) st = (fst (journal_receipt ops env x i summary st), [])"
| "run_journal_op ops restart (JUncertain env x i reason) st = (fst (journal_execution_uncertain ops env x i reason st), [])"
| "run_journal_op ops restart (JOther env q) st = ((fst st, fst (st_append ops env q (snd st))), [])"
| "run_journal_op ops restart JRestart st = (((fst st)\<lparr>aj_states := []\<rparr>, restart (snd st)), [])"

text \<open>A run with the intents whose dispatch was acknowledged.\<close>

fun run_journal ::
    "('s, 'e) IEventStore \<Rightarrow> ('s \<Rightarrow> 's) \<Rightarrow> 'e journal_op list \<Rightarrow> ActionJournal \<times> 's \<Rightarrow> (ActionJournal \<times> 's) \<times> ActionIntent list" where
  "run_journal ops restart [] st = (st, [])"
| "run_journal ops restart (op # js) st =
     (let (st', acked) = run_journal_op ops restart op st; (st'', later) = run_journal ops restart js st' in (st'', acked @ later))"

definition intent_request :: "EventId \<Rightarrow> ActionIntent \<Rightarrow> string \<Rightarrow> string \<Rightarrow> EventClass \<Rightarrow> AppendRequest" where
  "intent_request x i type payload classification =
     \<lparr>ar_event_id = x, ar_runtime_id = ai_runtime_id i, ar_session_id = ai_session_id i, ar_task_id = Some (ai_task_id i),
      ar_payload = \<lparr>pl_type = type, pl_data = payload, pl_classification = classification\<rparr>,
      ar_cause = 0, ar_required = ProcessCrash\<rparr>"

fun journal_op_ok :: "('e \<Rightarrow> AppendRequest \<Rightarrow> bool) \<Rightarrow> 'e journal_op \<Rightarrow> bool" where
  "journal_op_ok takes (JPrepare env x i) \<longleftrightarrow> intent_ok i \<and> takes env (intent_request x i ''ActionPrepared'' (journal_encode i '''') State)"
| "journal_op_ok takes (JDispatch env x i) \<longleftrightarrow>
     intent_ok i \<and> takes env (intent_request x i ''ActionDispatchStarted'' (journal_encode i '''') Critical)"
| "journal_op_ok takes (JReceipt env x i summary) \<longleftrightarrow>
     intent_ok i \<and> takes env (intent_request x i ''ActionReceipt'' (journal_encode i summary) State)"
| "journal_op_ok takes (JUncertain env x i reason) \<longleftrightarrow>
     intent_ok i \<and> takes env (intent_request x i ''ActionExecutionUncertain'' (journal_encode i reason) Critical)"
| "journal_op_ok takes (JOther env q) \<longleftrightarrow> takes env q"
| "journal_op_ok takes JRestart \<longleftrightarrow> True"

text \<open>The log holds the start of a dispatch.\<close>

definition dispatched :: "ActionIntent \<Rightarrow> event_core list \<Rightarrow> bool" where
  "dispatched i cs \<longleftrightarrow> (\<exists>c\<in>set cs. \<exists>x. fst c = accepted_form (intent_request x i ''ActionDispatchStarted'' (journal_encode i '''') Critical))"

lemma dispatched_mono: "dispatched i cs \<Longrightarrow> dispatched i (cs @ new)"
  by (auto simp: dispatched_def)

lemma journal_request_valid:
  "valid_intent i (aj_runtime_id J) \<Longrightarrow> journal_request J x i type payload c = intent_request x i type payload c"
  by (simp add: journal_request_def intent_request_def valid_intent_def)

lemma core_event_intent:
  "fst c = accepted_form (intent_request x i type payload cl) \<Longrightarrow>
     ev_payload (core_event c) = \<lparr>pl_type = type, pl_data = payload, pl_classification = cl\<rparr> \<and>
     ev_task_id (core_event c) = Some (ai_task_id i) \<and> ev_runtime_id (core_event c) = ai_runtime_id i"
  by (cases c) (simp add: core_event_def accepted_form_def intent_request_def request_envelope_def)

text \<open>An event of the action that the journal wrote moves the phase.\<close>

lemma journal_entry_own:
  assumes "fst c = accepted_form (intent_request x i type (journal_encode i payload) cl)" "type \<in> set journal_types"
    "valid_intent i (aj_runtime_id J)" "intent_ok i" "safe_text payload 4096 False"
  shows "journal_entry J i state (core_event c) = res_bind (next_phase type (js_phase state))
    (\<lambda>phase. Inr (state\<lparr>js_phase := phase, js_last_receipt := Some (event_receipt (core_event c))\<rparr>))"
proof -
  have "payload_matches (intent_payload i payload) i" by (simp add: payload_matches_def intent_payload_def)
  then show ?thesis using core_event_intent [OF assms(1)] assms(2,3) journal_parse_encode [OF assms(3-5)]
    by (simp add: journal_entry_def intent_payload_def valid_intent_def)
qed

lemma entry_not_prepared: "journal_entry J i state e = Inr t \<Longrightarrow> js_phase state \<noteq> Prepared \<Longrightarrow> js_phase t \<noteq> Prepared"
  by (auto simp: journal_entry_def next_phase_def res_bind_Inr_iff split: if_splits option.splits)

lemma replay_not_prepared: "replay J i state cs = Inr t \<Longrightarrow> js_phase state \<noteq> Prepared \<Longrightarrow> js_phase t \<noteq> Prepared"
  unfolding replay_def by (induction cs arbitrary: state) (auto simp: res_bind_Inr_iff dest: entry_not_prepared)

lemma replay_dispatched:
  assumes "dispatched i cs" "valid_intent i (aj_runtime_id J)" "intent_ok i" "replay J i state cs = Inr t"
  shows "js_phase t \<noteq> Prepared"
proof -
  obtain c x where c: "c \<in> set cs" "fst c = accepted_form (intent_request x i ''ActionDispatchStarted'' (journal_encode i '''') Critical)"
    using assms(1) by (auto simp: dispatched_def)
  then obtain xs ys where cs: "cs = (xs @ [c]) @ ys" by (auto simp: in_set_conv_decomp)
  have own: "journal_entry J i u (core_event c) = Inr (u\<lparr>js_phase := (if js_phase u = Prepared then DispatchStarted else js_phase u),
      js_last_receipt := Some (event_receipt (core_event c))\<rparr>)" for u
    using journal_entry_own [OF c(2) _ assms(2,3), of u] by (simp add: journal_types_def safe_text_def next_phase_def)
  obtain u where "replay J i state (xs @ [c]) = Inr u" "replay J i u ys = Inr t"
    using assms(4) unfolding cs by (simp only: replay_simps res_bind_Inr_iff) blast
  moreover from this(1) have "js_phase u \<noteq> Prepared"
    by (auto simp: res_bind_Inr_iff) (auto simp: replay_def own split: if_splits)
  ultimately show ?thesis using replay_not_prepared by blast
qed

lemma session_log_dispatched: "dispatched i cs \<Longrightarrow> dispatched i (session_log (ai_session_id i) cs)"
  by (fastforce simp: dispatched_def session_log_def accepted_form_def intent_request_def)

context event_log
begin

text \<open>The pages of the recovery give the replay of the session, or an error when the bound on the
  scan is too small.\<close>

lemma pages_replay:
  assumes "good s" "readable s" "0 < aj_page_size J" "k \<le> length (session_log (ai_session_id i) (log s))"
    "k \<le> aj_max_events_scanned J" "unat (case cursor of None \<Rightarrow> 0 | Some c \<Rightarrow> c) = k"
  shows "(length (session_log (ai_session_id i) (log s)) \<le> aj_max_events_scanned J \<longrightarrow>
      snd (journal_pages ops J i cursor k state s) = replay J i state (drop k (session_log (ai_session_id i) (log s)))) \<and>
    (aj_max_events_scanned J < length (session_log (ai_session_id i) (log s)) \<longrightarrow>
      (\<exists>e. snd (journal_pages ops J i cursor k state s) = Inl e))"
  using assms
proof (induction "aj_max_events_scanned J - k" arbitrary: k cursor state s rule: less_induct)
  case less
  let ?L = "session_log (ai_session_id i) (log s)" and ?M = "aj_max_events_scanned J"
  let ?limit = "min (aj_page_size J) (?M - k)"
  let ?q = "\<lparr>eq_session_id = ai_session_id i, eq_after_sequence = cursor, eq_limit = ?limit\<rparr>"
  let ?part = "take ?limit (drop k ?L)"
  have rest: "page_rest ?q (log s) = drop k ?L" using less.prems(6) by (simp add: page_rest_def)
  obtain s' es where rd: "st_read ops ?q s = (s', Some (Inr \<lparr>pg_events = es, pg_has_more = ?limit < length (drop k ?L)\<rparr>))"
    "good s'" "readable s'" "log s' = log s" "map event_core es = ?part"
    using read_law [OF less.prems(1,2), of ?q] unfolding rest by auto
  have len: "length es = length ?part" using arg_cong [OF rd(5), of length] by (simp only: length_map)
  have num: "map (\<lambda>c. unat (fst (snd c))) ?part = [Suc k..<Suc k + length ?part]"
    by (rule nth_equalityI) (use log_numbered [OF less.prems(1)] in \<open>auto simp: numbered_nth simp del: upt_Suc\<close>)
  have ses: "\<forall>c\<in>set ?part. ar_session_id (fst c) = ai_session_id i"
    by (auto simp: session_log_def dest!: in_set_takeD in_set_dropD)
  obtain cursor' where scan: "fold_res (scan_event J i) (cursor, k, state) es =
      res_bind (replay J i state ?part) (\<lambda>t. Inr (cursor', k + length ?part, t))"
    "unat (case cursor' of None \<Rightarrow> 0 | Some c \<Rightarrow> c) = k + length ?part"
    using scan_is_replay [OF rd(5) num ses less.prems(6)] by blast
  have body: "snd (journal_pages ops J i cursor k state s) =
      (if es = [] \<and> ?limit < length (drop k ?L) then Inl (journal_error ErrorCode.DataLoss ''journal recovery page made no valid progress'')
       else case replay J i state ?part of Inl e \<Rightarrow> Inl e
       | Inr t \<Rightarrow> if \<not> ?limit < length (drop k ?L) then Inr t
           else if k + length ?part = ?M then Inl (journal_error ErrorCode.ResourceExhausted ''journal recovery scan exceeded its bound'')
           else snd (journal_pages ops J i cursor' (k + length ?part) t s'))"
    by (subst journal_pages.simps) (simp add: rd(1) len scan(1) Let_def del: length_drop split: sum.splits)
  show ?case
  proof (cases "?limit < length (drop k ?L)")
    case False
    then have "?part = drop k ?L" "length ?L \<le> ?M" using less.prems(5) by auto
    then show ?thesis using body False by (auto split: sum.splits)
  next
    case True
    then have "length ?part = ?limit" by simp
    moreover have "replay J i state (drop k ?L) = res_bind (replay J i state ?part) (\<lambda>t. replay J i t (drop (k + ?limit) ?L))"
      by (subst drop_in_parts [of k ?L ?limit]) (simp only: replay_simps)
    ultimately have part: "length ?part = ?limit"
      "replay J i state (drop k ?L) = res_bind (replay J i state ?part) (\<lambda>t. replay J i t (drop (k + ?limit) ?L))" .
    show ?thesis
    proof (cases "?M = k")
      case empty: True
      then show ?thesis using True body len by simp
    next
      case False
      then have pos: "0 < ?limit" using less.prems(3,5) by simp
      then have ne: "es \<noteq> []" using len part(1) by auto
      show ?thesis
      proof (cases "replay J i state ?part")
        case (Inl e)
        then show ?thesis using body ne by (simp add: part(2))
      next
        case (Inr t)
        show ?thesis
        proof (cases "k + ?limit = ?M")
          case full: True
          then show ?thesis using body ne part(1) True Inr by simp
        next
          case more_left: False
          have "?M - (k + ?limit) < ?M - k" "k + ?limit \<le> length ?L" "k + ?limit \<le> ?M"
            using pos True False less.prems(5) by simp_all
          note ih = less.hyps [OF this(1) rd(2,3) less.prems(3), of cursor' t, unfolded rd(4), OF this(2,3) scan(2) [unfolded part(1)]]
          have run: "snd (journal_pages ops J i cursor k state s) = snd (journal_pages ops J i cursor' (k + ?limit) t s')"
            using body ne part(1) Inr more_left True by simp
          have "replay J i state (drop k ?L) = replay J i t (drop (k + ?limit) ?L)" unfolding part(2) Inr by (rule res_bind_simps)
          then show ?thesis using ih unfolding run by (simp only:)
        qed
      qed
    qed
  qed
qed

end


context event_log
begin

lemma replay_recover:
  assumes "good s" "readable s" "validate_intent J i = Inr u" "map_of (aj_states J) (ai_action_id i) = None"
    "0 < aj_page_size J" "length (session_log (ai_session_id i) (log s)) \<le> aj_max_events_scanned J" "0 < aj_max_events_scanned J"
  shows "snd (journal_recover ops i (J, s)) = replay J i (initial_state i) (session_log (ai_session_id i) (log s))"
  using pages_replay [OF assms(1,2,5), of 0 i None "initial_state i"] assms(3-7)
  by (simp add: journal_recover_def initial_state_def)

lemma recover_Inr_replay:
  assumes "good s" "readable s" "map_of (aj_states J) (ai_action_id i) = None" "snd (journal_recover ops i (J, s)) = Inr t"
  shows "valid_intent i (aj_runtime_id J) \<and> replay J i (initial_state i) (session_log (ai_session_id i) (log s)) = Inr t"
proof -
  have ok: "validate_intent J i = Inr ()" "0 < aj_page_size J" "0 < aj_max_events_scanned J"
    "snd (journal_pages ops J i None 0 (initial_state i) s) = Inr t"
    using assms(3,4) by (auto simp: journal_recover_def initial_state_def split: sum.splits if_splits)
  then have "length (session_log (ai_session_id i) (log s)) \<le> aj_max_events_scanned J"
    using pages_replay [OF assms(1,2) ok(2), of 0 i None "initial_state i"] by fastforce
  then show ?thesis using pages_replay [OF assms(1,2) ok(2), of 0 i None "initial_state i"] ok
    by (auto simp: validate_intent_def split: if_splits)
qed

text \<open>The invariant: a table entry is bound to one intent, and an entry whose dispatch started has
  its event in the log.\<close>

definition journal_inv :: "ActionJournal \<times> 's \<Rightarrow> bool" where
  "journal_inv st \<longleftrightarrow> good (snd st) \<and> (\<forall>a entry. map_of (aj_states (fst st)) a = Some entry \<longrightarrow>
     (\<exists>i. intent_ok i \<and> valid_intent i (aj_runtime_id (fst st)) \<and> ai_action_id i = a \<and> je_binding entry = binding i \<and>
       (js_phase (je_state entry) \<noteq> Prepared \<longrightarrow> dispatched i (log (snd st)))))"

definition journal_settings :: "ActionJournal \<times> 's \<Rightarrow> RuntimeId \<times> nat \<times> nat" where
  "journal_settings st = (aj_runtime_id (fst st), aj_page_size (fst st), aj_max_events_scanned (fst st))"

text \<open>What an operation does to the pair of journal and store.\<close>

definition moves :: "ActionJournal \<times> 's \<Rightarrow> ActionJournal \<times> 's \<Rightarrow> bool" where
  "moves st st' \<longleftrightarrow> journal_inv st' \<and> journal_settings st' = journal_settings st \<and> room (snd st) \<le> Suc (room (snd st')) \<and>
     (\<exists>new. log (snd st') = log (snd st) @ new)"

lemma moves_refl: "journal_inv st \<Longrightarrow> moves st st"
  by (simp add: moves_def)

lemma journal_append_law:
  assumes "good s" "takes env (intent_request x i type payload c)" "0 < room s" "valid_intent i (aj_runtime_id J)"
    "journal_append ops env x J i type payload c s = (s', res)"
  shows "good s' \<and> room s \<le> Suc (room s') \<and> (\<exists>new. log s' = log s @ new) \<and>
    (\<forall>r. res = Inr r \<longrightarrow> (\<exists>k. (accepted_form (intent_request x i type payload c), k) \<in> set (log s')))"
proof -
  obtain s1 answer where app: "st_append ops env (intent_request x i type payload c) s = (s1, answer)" by force
  then have s1: "s1 = s'" "res = Inr r \<Longrightarrow> \<exists>r. answer = Some (Inr r)" for r
    using assms(5) unfolding journal_append_def journal_request_valid [OF assms(4)]
    by (auto split: option.splits sum.splits)
  have "\<exists>k. (accepted_form (intent_request x i type payload c), k) \<in> set (log s')" if ack: "res = Inr r" for r
  proof -
    obtain r' where "answer = Some (Inr r')" using s1(2) [OF ack] by blast
    then show ?thesis using acknowledged_law [OF assms(1-3), of s' r'] app s1(1) by blast
  qed
  then show ?thesis using append_law [OF assms(1-3) app] s1(1) by metis
qed

lemma journal_inv_extend:
  assumes "journal_inv (J, s)" "good s'" "log s' = log s @ new"
  shows "journal_inv (J, s')"
  using assms dispatched_mono [of _ "log s" new] unfolding journal_inv_def by (metis fst_conv snd_conv)

lemma journal_append_moves:
  assumes "journal_inv (J, s)" "takes env (intent_request x i type payload c)" "0 < room s" "valid_intent i (aj_runtime_id J)"
    "journal_append ops env x J i type payload c s = (s', res)"
  shows "moves (J, s) (J, s')"
  using journal_append_law [OF _ assms(2-5)] journal_inv_extend [OF assms(1)] assms(1)
  by (auto simp: moves_def journal_settings_def journal_inv_def)

lemma validated:
  assumes "journal_inv (J, s)" "validate_intent J i = Inr u" "intent_ok i"
  shows "valid_intent i (aj_runtime_id J)"
    "map_of (aj_states J) (ai_action_id i) = Some entry \<Longrightarrow> je_binding entry = binding i \<and>
       (js_phase (je_state entry) \<noteq> Prepared \<longrightarrow> dispatched i (log s))"
proof -
  show v: "valid_intent i (aj_runtime_id J)" using assms(2) by (auto simp: validate_intent_def split: if_splits)
  assume e: "map_of (aj_states J) (ai_action_id i) = Some entry"
  then have b: "je_binding entry = binding i" using assms(2) by (auto simp: validate_intent_def split: if_splits)
  obtain i' where i': "intent_ok i'" "valid_intent i' (aj_runtime_id J)" "je_binding entry = binding i'"
    "js_phase (je_state entry) \<noteq> Prepared \<longrightarrow> dispatched i' (log s)"
    using assms(1) e unfolding journal_inv_def fst_conv snd_conv by metis
  have "i' = i" by (rule binding_inject [OF i'(2,1) v assms(3)]) (use b i'(3) in simp)
  then show "je_binding entry = binding i \<and> (js_phase (je_state entry) \<noteq> Prepared \<longrightarrow> dispatched i (log s))" using i'(4) b by blast
qed

lemma set_phase_inv:
  assumes "journal_inv (J, s)" "dispatched i (log s)" "intent_ok i" "valid_intent i (aj_runtime_id J)"
    "map_of (aj_states J) (ai_action_id i) = Some entry" "je_binding entry = binding i"
  shows "journal_inv (set_phase (ai_action_id i) phase r J, s)"
  using assms unfolding journal_inv_def set_phase_def by auto

lemma prepare_moves:
  assumes "journal_inv st" "journal_op_ok takes (JPrepare env x i)" "0 < room (snd st)" "journal_prepare ops env x i st = (st', res)"
  shows "moves st st'"
proof -
  obtain J s where st: "st = (J, s)" by (cases st)
  show ?thesis
  proof (cases "\<exists>u. validate_intent J i = Inr u \<and> map_of (aj_states J) (ai_action_id i) = None")
    case False
    then have "st' = st" using assms(4)
      by (cases "validate_intent J i"; cases "map_of (aj_states J) (ai_action_id i)") (simp_all add: st journal_prepare_def)
    then show ?thesis using moves_refl [OF assms(1)] by simp
  next
    case True
    then obtain u where u: "validate_intent J i = Inr u" "map_of (aj_states J) (ai_action_id i) = None" by blast
    obtain s' r where app: "journal_append ops env x J i ''ActionPrepared'' (journal_encode i '''') State s = (s', r)" by force
    have ok: "intent_ok i" "takes env (intent_request x i ''ActionPrepared'' (journal_encode i '''') State)" using assms(2) by simp_all
    note v = validated(1) [OF assms(1) [unfolded st] u(1) ok(1)]
    have m: "moves (J, s) (J, s')" using journal_append_moves [OF assms(1) [unfolded st] ok(2) _ v app] assms(3) by (simp add: st)
    show ?thesis
    proof (cases r)
      case (Inl e)
      then show ?thesis using m u app assms(4) by (simp add: st journal_prepare_def)
    next
      case (Inr rc)
      let ?entry = "\<lparr>je_binding = binding i, je_state = \<lparr>js_action_id = ai_action_id i, js_phase = Prepared, js_last_receipt = Some rc\<rparr>\<rparr>"
      have "st' = (J\<lparr>aj_states := umap_emplace (ai_action_id i) ?entry (aj_states J)\<rparr>, s')"
        using Inr u app assms(4) by (simp add: st journal_prepare_def)
      then show ?thesis using m ok(1) v u(2) by (auto simp: st moves_def journal_settings_def journal_inv_def)
    qed
  qed
qed

end


context event_log
begin

lemma dispatch_moves:
  assumes "journal_inv st" "journal_op_ok takes (JDispatch env x i)" "0 < room (snd st)" "journal_dispatch_started ops env x i st = (st', res)"
  shows "moves st st' \<and> (\<forall>r. res = Inr r \<longrightarrow> dispatched i (log (snd st')) \<and> valid_intent i (aj_runtime_id (fst st)))"
proof -
  obtain J s where st: "st = (J, s)" by (cases st)
  show ?thesis
  proof (cases "\<exists>u entry. validate_intent J i = Inr u \<and> map_of (aj_states J) (ai_action_id i) = Some entry")
    case False
    then have "st' = st \<and> (\<exists>e. res = Inl e)" using assms(4)
      by (cases "validate_intent J i"; cases "map_of (aj_states J) (ai_action_id i)") (auto simp: st journal_dispatch_started_def)
    then show ?thesis using moves_refl [OF assms(1)] by auto
  next
    case True
    then obtain u entry where u: "validate_intent J i = Inr u" "map_of (aj_states J) (ai_action_id i) = Some entry" by blast
    have ok: "intent_ok i" "takes env (intent_request x i ''ActionDispatchStarted'' (journal_encode i '''') Critical)"
      using assms(2) by simp_all
    note v = validated [OF assms(1) [unfolded st] u(1) ok(1)]
    show ?thesis
    proof (cases "js_phase (je_state entry) = Prepared")
      case False
      then have "js_phase (je_state entry) \<in> {DispatchStarted, ReceiptPhase, ExecutionUncertain}" by (cases "js_phase (je_state entry)") simp_all
      then have "st' = st" using u assms(4) by (simp add: st journal_dispatch_started_def)
      then show ?thesis using moves_refl [OF assms(1)] v(1) v(2) [OF u(2)] False by (simp add: st)
    next
      case True
      obtain s' r where app: "journal_append ops env x J i ''ActionDispatchStarted'' (journal_encode i '''') Critical s = (s', r)" by force
      have rm: "0 < room s" using assms(3) by (simp add: st)
      have m: "moves (J, s) (J, s')" by (rule journal_append_moves [OF assms(1) [unfolded st] ok(2) rm v(1) app])
      show ?thesis
      proof (cases r)
        case (Inl e)
        then show ?thesis using m u app True assms(4) by (auto simp: st journal_dispatch_started_def)
      next
        case (Inr rc)
        have g: "good s" using assms(1) by (simp add: st journal_inv_def)
        have "dispatched i (log s')"
          using journal_append_law [OF g ok(2) rm v(1) app] Inr unfolding dispatched_def by force
        moreover have "st' = (set_phase (ai_action_id i) DispatchStarted rc J, s')"
          using Inr u app True assms(4) by (simp add: st journal_dispatch_started_def)
        moreover have "journal_inv (J, s')" using m by (simp add: moves_def)
        ultimately show ?thesis using m set_phase_inv [of J s' i entry] ok(1) v(1) v(2) [OF u(2)] u(2)
          by (auto simp: st moves_def journal_settings_def set_phase_def)
      qed
    qed
  qed
qed

lemma result_moves:
  assumes "journal_inv st" "intent_ok i" "takes env (intent_request x i type (journal_encode i summary) c)" "0 < room (snd st)"
    "journal_result phase type c m ops env x i summary st = (st', res)"
  shows "moves st st'"
proof -
  obtain J s where st: "st = (J, s)" by (cases st)
  show ?thesis
  proof (cases "\<exists>u entry. validate_intent J i = Inr u \<and> map_of (aj_states J) (ai_action_id i) = Some entry \<and>
      js_phase (je_state entry) \<notin> {Prepared, phase} \<and> safe_text summary 4096 False")
    case False
    then have "st' = st" using assms(5)
      by (cases "validate_intent J i"; cases "map_of (aj_states J) (ai_action_id i)")
        (auto simp: st journal_result_def split: if_splits)
    then show ?thesis using moves_refl [OF assms(1)] by simp
  next
    case True
    then obtain u entry where u: "validate_intent J i = Inr u" "map_of (aj_states J) (ai_action_id i) = Some entry"
      "js_phase (je_state entry) \<noteq> Prepared" "js_phase (je_state entry) \<noteq> phase" "safe_text summary 4096 False" by blast
    note v = validated [OF assms(1) [unfolded st] u(1) assms(2)]
    obtain s' r where app: "journal_append ops env x J i type (journal_encode i summary) c s = (s', r)" by force
    have m: "moves (J, s) (J, s')" using journal_append_moves [OF assms(1) [unfolded st] assms(3) _ v(1) app] assms(4) by (simp add: st)
    show ?thesis
    proof (cases r)
      case (Inl e)
      then show ?thesis using m u app assms(5) by (simp add: st journal_result_def)
    next
      case (Inr rc)
      have "dispatched i (log s')" using v(2) [OF u(2)] u(3) m dispatched_mono by (auto simp: moves_def)
      moreover have "st' = (set_phase (ai_action_id i) phase rc J, s')" using Inr u app assms(5) by (simp add: st journal_result_def)
      moreover have "journal_inv (J, s')" using m by (simp add: moves_def)
      ultimately show ?thesis using m set_phase_inv [of J s' i entry] assms(2) v(1) v(2) [OF u(2)] u(2)
        by (auto simp: st moves_def journal_settings_def set_phase_def)
    qed
  qed
qed

lemma run_op_moves:
  assumes "journal_inv st" "journal_op_ok takes op" "0 < room (snd st)" "run_journal_op ops restart op st = (st', acked)"
  shows "moves st st' \<and> (\<forall>i\<in>set acked. intent_ok i \<and> valid_intent i (aj_runtime_id (fst st)) \<and> dispatched i (log (snd st')))"
proof (cases op)
  case (JPrepare env x i)
  then show ?thesis using prepare_moves [OF assms(1) _ assms(3), of env x i] assms(2,4)
    by (cases "journal_prepare ops env x i st") auto
next
  case (JDispatch env x i)
  then show ?thesis using dispatch_moves [OF assms(1) _ assms(3), of env x i] assms(2,4)
    by (cases "journal_dispatch_started ops env x i st") (auto split: sum.splits)
next
  case (JReceipt env x i summary)
  then show ?thesis using result_moves [OF assms(1) _ _ assms(3), of i env x "''ActionReceipt''" summary State ReceiptPhase] assms(2,4)
    by (cases "journal_receipt ops env x i summary st") (auto simp: journal_receipt_def)
next
  case (JUncertain env x i reason)
  then show ?thesis
    using result_moves [OF assms(1) _ _ assms(3), of i env x "''ActionExecutionUncertain''" reason Critical ExecutionUncertain] assms(2,4)
    by (cases "journal_execution_uncertain ops env x i reason st") (auto simp: journal_execution_uncertain_def)
next
  case (JOther env q)
  obtain s' answer where app: "st_append ops env q (snd st) = (s', answer)" by force
  have g: "good (snd st)" "takes env q" using assms(1,2) JOther by (simp_all add: journal_inv_def)
  obtain new where new: "good s'" "room (snd st) \<le> Suc (room s')" "log s' = log (snd st) @ new"
    using append_law [OF g assms(3) app] by blast
  have "journal_inv (fst st, s')" using journal_inv_extend [of "fst st" "snd st" s' new] assms(1) new by simp
  then show ?thesis using new app assms(4) JOther by (auto simp: moves_def journal_settings_def)
next
  case JRestart
  have g: "good (snd st)" using assms(1) by (simp add: journal_inv_def)
  show ?thesis using restart_law [OF g] assms(4) JRestart by (auto simp: moves_def journal_settings_def journal_inv_def)
qed

text \<open>A run keeps the invariant, and the log holds the start of every acknowledged dispatch.\<close>

lemma run_moves:
  assumes "journal_inv st" "list_all (journal_op_ok takes) js" "length js \<le> room (snd st)" "run_journal ops restart js st = (st', acked)"
  shows "journal_inv st' \<and> journal_settings st' = journal_settings st \<and> (\<exists>new. log (snd st') = log (snd st) @ new) \<and>
    room (snd st) \<le> length js + room (snd st') \<and>
    (\<forall>i\<in>set acked. intent_ok i \<and> valid_intent i (aj_runtime_id (fst st)) \<and> dispatched i (log (snd st')))"
  using assms
proof (induction js arbitrary: st acked)
  case Nil
  then show ?case by auto
next
  case (Cons op js)
  obtain st1 acked1 acked2 where run: "run_journal_op ops restart op st = (st1, acked1)" "run_journal ops restart js st1 = (st', acked2)"
    "acked = acked1 @ acked2"
    using Cons.prems(4) by (auto simp: Let_def split: prod.splits)
  have m: "moves st st1" "\<forall>i\<in>set acked1. intent_ok i \<and> valid_intent i (aj_runtime_id (fst st)) \<and> dispatched i (log (snd st1))"
    using run_op_moves [OF Cons.prems(1) _ _ run(1)] Cons.prems(2,3) by simp_all
  have "length js \<le> room (snd st1)" using m(1) Cons.prems(3) by (simp add: moves_def)
  then have ih: "journal_inv st' \<and> journal_settings st' = journal_settings st1 \<and> (\<exists>new. log (snd st') = log (snd st1) @ new) \<and>
    room (snd st1) \<le> length js + room (snd st') \<and>
    (\<forall>i\<in>set acked2. intent_ok i \<and> valid_intent i (aj_runtime_id (fst st1)) \<and> dispatched i (log (snd st')))"
    using Cons.IH [OF _ _ _ run(2)] m(1) Cons.prems(2) by (simp add: moves_def)
  have rt: "aj_runtime_id (fst st1) = aj_runtime_id (fst st)" using m(1) by (simp add: moves_def journal_settings_def)
  have "\<forall>i\<in>set acked1. dispatched i (log (snd st'))" using m(2) ih dispatched_mono by metis
  then show ?case using ih m run(3) by (auto simp: moves_def rt ball_Un)
qed

end


context event_log
begin

lemma dispatch_never_forgotten:
  assumes "good s" "list_all (journal_op_ok takes) js" "length js \<le> room s"
    "run_journal ops restart js (new_journal rt p m, s) = ((J', s'), acked)" "i \<in> set acked"
    "snd (journal_recover ops i (new_journal rt' p' m', restart s')) = Inr t"
  shows "js_phase t \<noteq> Prepared"
proof -
  have "journal_inv (new_journal rt p m, s)" using assms(1) by (simp add: journal_inv_def new_journal_def)
  from run_moves [OF this assms(2) _ assms(4)] have r: "good s'" "intent_ok i" "dispatched i (log s')"
    using assms(3,5) by (simp_all add: journal_inv_def)
  note s'' = restart_law [OF r(1)]
  have "valid_intent i rt' \<and> replay (new_journal rt' p' m') i (initial_state i) (session_log (ai_session_id i) (log s')) = Inr t"
    using recover_Inr_replay [of "restart s'" "new_journal rt' p' m'" i t] s'' assms(6) by (simp add: new_journal_def)
  moreover have "aj_runtime_id (new_journal rt' p' m') = rt'" by (simp add: new_journal_def)
  ultimately show ?thesis using replay_dispatched [OF session_log_dispatched [OF r(3)] _ r(2)] by metis
qed

lemma prepare_after_dispatch:
  assumes "journal_inv (J, s)" "dispatched i (log s)" "aj_states J = []" "journal_op_ok takes (JPrepare env x i)" "0 < room s"
    "x \<notin> (\<lambda>c. ar_event_id (fst c)) ` set (log s)" "journal_prepare ops env x i (J, s) = ((J', s'), Inr r)"
  shows "good s' \<and> (\<exists>e. snd (journal_recover ops i (new_journal rt p m, restart s')) = Inl e)"
proof -
  let ?q = "intent_request x i ''ActionPrepared'' (journal_encode i '''') State" and ?J = "new_journal rt p m"
  have ok: "intent_ok i" "takes env ?q" using assms(4) by simp_all
  have v: "validate_intent J i = Inr ()" using assms(7) by (auto simp: journal_prepare_def split: sum.splits)
  note val = validated(1) [OF assms(1) v ok(1)]
  have g: "good s" using assms(1) by (simp add: journal_inv_def)
  have app: "journal_append ops env x J i ''ActionPrepared'' (journal_encode i '''') State s = (s', Inr r)"
    using assms(3,7) v by (auto simp: journal_prepare_def split: prod.splits sum.splits)
  obtain new k where new: "good s'" "log s' = log s @ new" "(accepted_form ?q, k) \<in> set (log s')"
    using journal_append_law [OF g ok(2) assms(5) val app] by blast
  have "(accepted_form ?q, k) \<in> set new"
  proof -
    have "(accepted_form ?q, k) \<notin> set (log s)"
    proof
      assume "(accepted_form ?q, k) \<in> set (log s)"
      then have "ar_event_id (fst (accepted_form ?q, k)) \<in> (\<lambda>c. ar_event_id (fst c)) ` set (log s)" by (rule imageI)
      then show False using assms(6) by (simp add: accepted_form_def intent_request_def)
    qed
    then show ?thesis using new(2,3) by simp
  qed
  then have "(accepted_form ?q, k) \<in> set (session_log (ai_session_id i) new)"
    by (simp add: session_log_def accepted_form_def intent_request_def)
  then obtain xs ys where split: "session_log (ai_session_id i) new = xs @ [(accepted_form ?q, k)] @ ys"
    by (auto simp: in_set_conv_decomp)
  have "snd (journal_recover ops i (?J, restart s')) \<noteq> Inr t" for t
  proof
    assume "snd (journal_recover ops i (?J, restart s')) = Inr t"
    then have rep: "valid_intent i rt" "replay ?J i (initial_state i) (session_log (ai_session_id i) (log s')) = Inr t"
      using recover_Inr_replay [of "restart s'" ?J i t] restart_law [OF new(1)] by (simp_all add: new_journal_def)
    have log: "session_log (ai_session_id i) (log s') = (session_log (ai_session_id i) (log s) @ xs) @ [(accepted_form ?q, k)] @ ys"
      using split by (simp add: new(2) session_log_def)
    obtain u w where u: "replay ?J i (initial_state i) (session_log (ai_session_id i) (log s) @ xs) = Inr u"
      "replay ?J i u [(accepted_form ?q, k)] = Inr w"
      using rep(2) unfolding log replay_simps(2) res_bind_Inr_iff by blast
    have "js_phase u \<noteq> Prepared"
      using replay_dispatched [OF dispatched_mono [OF session_log_dispatched [OF assms(2)]] _ ok(1) u(1)] rep(1) by (simp add: new_journal_def)
    moreover have "journal_entry ?J i u (core_event (accepted_form ?q, k)) = res_bind (next_phase ''ActionPrepared'' (js_phase u))
        (\<lambda>phase. Inr (u\<lparr>js_phase := phase, js_last_receipt := Some (event_receipt (core_event (accepted_form ?q, k)))\<rparr>))"
      using rep(1) ok(1) journal_entry_own [of "(accepted_form ?q, k)" x i "''ActionPrepared''" "[]" State ?J u]
      by (simp add: journal_types_def safe_text_def new_journal_def)
    ultimately show False using u(2) by (simp add: replay_def next_phase_def)
  qed
  then show ?thesis using new(1) by (metis sum.exhaust)
qed

end


context event_log
begin

lemma prepare_after_restart:
  assumes "good s" "list_all (journal_op_ok takes) js" "length js + 1 \<le> room s"
    "run_journal ops restart js (new_journal rt p m, s) = ((J, s'), acked)" "i \<in> set acked"
    "journal_op_ok takes (JPrepare env x i)" "x \<notin> (\<lambda>c. ar_event_id (fst c)) ` set (log s')"
    "journal_prepare ops env x i (new_journal rt p m, restart s') = ((J', s''), Inr r)"
  shows "\<exists>e. snd (journal_recover ops i (new_journal rt' p' m', restart s'')) = Inl e"
proof -
  have new: "journal_inv (new_journal rt p m, s)" if "good s" for s using that by (simp add: journal_inv_def new_journal_def)
  have "length js \<le> room (snd (new_journal rt p m, s))" using assms(3) by simp
  from run_moves [OF new [OF assms(1)] assms(2) this assms(4)]
  have g: "good s'" "dispatched i (log s')" "room s \<le> length js + room s'" using assms(5) by (simp_all add: journal_inv_def)
  note re = restart_law [OF g(1)]
  have "0 < room (restart s')" "dispatched i (log (restart s'))" "x \<notin> (\<lambda>c. ar_event_id (fst c)) ` set (log (restart s'))"
    "aj_states (new_journal rt p m) = []" using re g(2,3) assms(3,7) by (simp_all add: new_journal_def)
  then show ?thesis using prepare_after_dispatch [OF new _ _ assms(6) _ _ assms(8)] re by blast
qed

end

end
