(* ===== verification/Journal_Properties.thy ===== *)
theory Journal_Properties
  imports Journal_Contract
begin

text \<open>
  The properties of the action journal on the file store, through the contract of
  \<open>Journal_Contract\<close>: what recovery answers after crashes and restarts.
\<close>

section \<open>Helpers\<close>

abbreviation file_takes :: "WriteAnswer \<times> Timestamp \<Rightarrow> AppendRequest \<Rightarrow> bool" where
  "file_takes \<equiv> \<lambda>(answer, now). append_ok now"

lemma file_log_new: "file_log (open_file_store n None) = []"
  using file_log_records [OF file_rel_open [OF holds_new]] by simp

lemma new_store_good: "n < 2 ^ 64 \<Longrightarrow> n < 2 ^ 64 \<and> (\<exists>recs. file_rel n recs (open_file_store n None))"
  using file_rel_open [OF holds_new] by blast

text \<open>An append with a new identifier to a file store that works is acknowledged.\<close>

lemma file_append_writes:
  assumes "file_rel n recs s" "\<not> (fs_loaded s \<and> fs_read_only s)" "append_ok now q" "ar_required q = ProcessCrash"
    "length recs < n" "n < 2 ^ 64" "ar_event_id q \<notin> eid ` set recs"
  obtains s' r where "file_append file_works Written now q s = (s', Inr r)" "file_inv n (recs @ [stored_record recs now q]) s'"
    "acknowledged (recs @ [stored_record recs now q]) q r" "rc_achieved r = ProcessCrash"
proof -
  have q: "request_ok q" "time_ok now" using assms(3) by (simp_all add: append_ok_def)
  have d: "file_durability (ar_required q) = Inr ()" "valid_durability (ar_required q)"
    using assms(4) file_durability_valid by (auto simp: valid_durability_def)
  obtain t where t: "file_append file_works Written now q s = file_append file_works Written now q t" "file_inv n recs t"
    using file_append_loads [OF assms(1) d(1)] assms(2) by metis
  have "map_of (fs_integrity_by_id t) (ar_event_id q) = None"
    using index_known assms(7) file_inv_flags [OF t(2)] by metis
  then have fresh: "file_append file_works Written now q s = append_fresh_event Written now q t"
    using t(1) file_append_open [OF t(2) q(1) d(1), of Written now] by simp
  have nxt: "next_ok n recs (stored_record recs now q)" by (rule stored_record_next [OF q assms(5,6,7)])
  show thesis using that append_fresh_result [OF t(2) nxt d(2), of Written] fresh by metis
qed

lemma journal_append_written:
  assumes "file_rel n recs s" "\<not> (fs_loaded s \<and> fs_read_only s)" "append_ok now (intent_request x i type payload c)"
    "length recs < n" "n < 2 ^ 64" "x \<notin> eid ` set recs" "valid_intent i (aj_runtime_id J)"
  obtains s' r where "journal_append file_ops (Written, now) x J i type payload c s = (s', Inr r)"
    "file_inv n (recs @ [stored_record recs now (intent_request x i type payload c)]) s'"
proof -
  let ?q = "intent_request x i type payload c"
  have q: "ar_event_id ?q = x" "ar_required ?q = ProcessCrash" "ar_task_id ?q = Some (ai_task_id i)"
    by (simp_all add: intent_request_def)
  obtain s' r where r: "file_append file_works Written now ?q s = (s', Inr r)" "file_inv n (recs @ [stored_record recs now ?q]) s'"
    "acknowledged (recs @ [stored_record recs now ?q]) ?q r" "rc_achieved r = ProcessCrash"
    by (rule file_append_writes [OF assms(1,2,3) q(2) assms(4,5)]) (use assms(6) q(1) in simp)
  have "check_receipt x ProcessCrash r = Inr r"
  proof -
    obtain z where z: "z \<in> set (recs @ [stored_record recs now ?q])" "accepted_form (lr_request z) = accepted_form ?q"
      "lr_sequence z = rc_session_sequence r" "lr_task_sequence z = rc_task_sequence r" "rc_event_id r = x"
      using r(3) q(1) by (auto simp: acknowledged_def)
    have "record_ok z" using z(1) r(2) log_ok_record_ok by (auto simp: file_inv_def index_inv_def)
    moreover have "ar_task_id (lr_request z) = Some (ai_task_id i)" using z(2) q(3) by (metis accepted_form_fields(4))
    ultimately have "rc_session_sequence r \<noteq> 0" "rc_task_sequence r \<noteq> None" "rc_task_sequence r \<noteq> Some 0"
      using z(3,4) by (auto simp: record_ok_def split: option.splits)
    then show ?thesis using z(5) r(4) by (simp add: check_receipt_def durability_number_def)
  qed
  then have "journal_append file_ops (Written, now) x J i type payload c s = (s', Inr r)"
    using r(1) by (simp add: journal_append_def journal_request_valid [OF assms(7)] file_ops_def)
  then show thesis using that r(2) by blast
qed

text \<open>An action that is prepared and dispatched on a new store.\<close>

lemma prepare_then_dispatch:
  assumes "valid_intent i rt" "intent_ok i" "x \<noteq> y" "2 \<le> n" "n < 2 ^ 64"
    "append_ok now (intent_request x i ''ActionPrepared'' (journal_encode i '''') State)"
    "append_ok now (intent_request y i ''ActionDispatchStarted'' (journal_encode i '''') Critical)"
  obtains J s where "run_journal file_ops reopen [JPrepare (Written, now) x i, JDispatch (Written, now) y i]
      (new_journal rt p m, open_file_store n None) = ((J, s), [i])"
    "file_log s = map record_core [stored_record [] now (intent_request x i ''ActionPrepared'' (journal_encode i '''') State),
       stored_record [stored_record [] now (intent_request x i ''ActionPrepared'' (journal_encode i '''') State)] now
         (intent_request y i ''ActionDispatchStarted'' (journal_encode i '''') Critical)]"
    "\<exists>recs. file_rel n recs s"
proof -
  let ?q = "intent_request x i ''ActionPrepared'' (journal_encode i '''') State" and ?J = "new_journal rt p m"
  let ?q' = "intent_request y i ''ActionDispatchStarted'' (journal_encode i '''') Critical"
  let ?r = "stored_record [] now ?q"
  have v: "valid_intent i (aj_runtime_id ?J)" using assms(1) by (simp add: new_journal_def)
  have rel: "file_rel n [] (open_file_store n None)" by (rule file_rel_open [OF holds_new])
  obtain s1 r1 where s1: "journal_append file_ops (Written, now) x ?J i ''ActionPrepared'' (journal_encode i '''') State (open_file_store n None) = (s1, Inr r1)"
    "file_inv n ([] @ [?r]) s1"
    by (rule journal_append_written [OF rel _ assms(6) _ assms(5) _ v]) (use assms(4) in simp_all)
  let ?e = "\<lparr>je_binding = binding i, je_state = \<lparr>js_action_id = ai_action_id i, js_phase = Prepared, js_last_receipt = Some r1\<rparr>\<rparr>"
  let ?J1 = "?J\<lparr>aj_states := [(ai_action_id i, ?e)]\<rparr>"
  have p1: "journal_prepare file_ops (Written, now) x i (?J, open_file_store n None) = ((?J1, s1), Inr r1)"
    using v s1(1) by (simp add: journal_prepare_def validate_intent_def new_journal_def umap_emplace_def)
  have v1: "valid_intent i (aj_runtime_id ?J1)" using v by simp
  have "eid ?r = x" by (simp add: stored_record_def intent_request_def)
  then obtain s2 r2 where s2: "journal_append file_ops (Written, now) y ?J1 i ''ActionDispatchStarted'' (journal_encode i '''') Critical s1 = (s2, Inr r2)"
    "file_inv n ([?r] @ [stored_record [?r] now ?q']) s2"
    using journal_append_written [OF file_rel_inv [OF s1(2)] _ assms(7) _ assms(5) _ v1] assms(3,4) file_inv_flags [OF s1(2)] by auto
  have "journal_dispatch_started file_ops (Written, now) y i (?J1, s1) = ((set_phase (ai_action_id i) DispatchStarted r2 ?J1, s2), Inr r2)"
    using v1 s2(1) by (simp add: journal_dispatch_started_def validate_intent_def)
  then show thesis using that [of "set_phase (ai_action_id i) DispatchStarted r2 ?J1" s2] p1
      file_log_records [OF file_rel_inv [OF s2(2)]] file_rel_inv [OF s2(2)] by auto
qed


definition demo_intent :: ActionIntent where
  "demo_intent = \<lparr>ai_action_id = demo_id 9, ai_runtime_id = demo_id 2, ai_session_id = demo_id 3, ai_task_id = demo_id 4,
     ai_task_epoch = 1, ai_environment_epoch = 1, ai_action_digest = Sha256Digest (replicate 32 0),
     ai_target = \<lparr>rd_type = ''app'', rd_id = ''button'', rd_scope = ''home''\<rparr>\<rparr>"

lemma demo_intent_ok: "valid_intent demo_intent (demo_id 2)" "intent_ok demo_intent"
  by code_simp+

lemma demo_requests_ok:
  "append_ok timestamp_default (intent_request (demo_id 20) demo_intent ''ActionPrepared'' (journal_encode demo_intent '''') State)"
  "append_ok timestamp_default (intent_request (demo_id 21) demo_intent ''ActionDispatchStarted'' (journal_encode demo_intent '''') Critical)"
  "append_ok timestamp_default (intent_request (demo_id 22) demo_intent ''ActionPrepared'' (journal_encode demo_intent '''') State)"
proof -
  have "utf8_ok (journal_encode demo_intent '''')" "utf8_ok ''ActionPrepared''" "utf8_ok ''ActionDispatchStarted''"
    "list_all (\<lambda>i. id128_ok i \<and> \<not> is_nil i) (map demo_id [2, 3, 4, 20, 21, 22])" by code_simp+
  then show "append_ok timestamp_default (intent_request (demo_id 20) demo_intent ''ActionPrepared'' (journal_encode demo_intent '''') State)"
    "append_ok timestamp_default (intent_request (demo_id 21) demo_intent ''ActionDispatchStarted'' (journal_encode demo_intent '''') Critical)"
    "append_ok timestamp_default (intent_request (demo_id 22) demo_intent ''ActionPrepared'' (journal_encode demo_intent '''') State)"
    by (simp_all add: append_ok_def request_ok_def intent_request_def time_ok_def timestamp_default_def int64_max_def)
      (simp_all add: demo_intent_def)
qed

lemma demo_run:
  obtains J s where "run_journal file_ops reopen [JPrepare (Written, timestamp_default) (demo_id 20) demo_intent,
      JDispatch (Written, timestamp_default) (demo_id 21) demo_intent] (new_journal (demo_id 2) 1 10, open_file_store 5 None) = ((J, s), [demo_intent])"
    "\<exists>state. snd (journal_recover file_ops demo_intent (new_journal (demo_id 2) 1 10, reopen s)) = Inr state"
    "\<exists>recs. file_rel 5 recs s" "map (\<lambda>c. ar_event_id (fst c)) (file_log s) = [demo_id 20, demo_id 21]"
proof -
  let ?q = "intent_request (demo_id 20) demo_intent ''ActionPrepared'' (journal_encode demo_intent []) State"
  let ?q' = "intent_request (demo_id 21) demo_intent ''ActionDispatchStarted'' (journal_encode demo_intent []) Critical"
  let ?r = "stored_record [] timestamp_default ?q" and ?J = "new_journal (demo_id 2) 1 10"
  let ?r' = "stored_record [?r] timestamp_default ?q'"
  have "demo_id 20 \<noteq> demo_id 21" by code_simp
  then obtain J s where run: "run_journal file_ops reopen [JPrepare (Written, timestamp_default) (demo_id 20) demo_intent,
      JDispatch (Written, timestamp_default) (demo_id 21) demo_intent] (?J, open_file_store 5 None) = ((J, s), [demo_intent])"
    "file_log s = map record_core [?r, ?r']" "\<exists>recs. file_rel 5 recs s"
    using prepare_then_dispatch [OF demo_intent_ok _ _ _ demo_requests_ok(1,2), of 5 1 10] by auto
  have good: "(5 :: nat) < 2 ^ 64 \<and> (\<exists>recs. file_rel 5 recs s)" using run(3) by simp
  note re = file_store.restart_law [OF good]
  have c: "fst (record_core ?r) = accepted_form ?q" "fst (record_core ?r') = accepted_form ?q'"
    by (simp_all add: record_core_def stored_record_def accepted_form_def)
  have v: "valid_intent demo_intent (aj_runtime_id ?J)" using demo_intent_ok(1) by (simp add: new_journal_def)
  have log: "session_log (ai_session_id demo_intent) (file_log (reopen s)) = [record_core ?r, record_core ?r']"
    using re run(2) c by (simp add: session_log_def accepted_form_def intent_request_def)
  have "\<exists>state. replay ?J demo_intent (initial_state demo_intent) ([record_core ?r] @ [record_core ?r']) = Inr state"
    using journal_entry_own [OF c(1) _ v demo_intent_ok(2)] journal_entry_own [OF c(2) _ v demo_intent_ok(2)]
    by (simp only: replay_simps) (simp add: replay_def journal_types_def safe_text_def next_phase_def initial_state_def)
  moreover have "snd (journal_recover file_ops demo_intent (?J, reopen s)) =
      replay ?J demo_intent (initial_state demo_intent) (session_log (ai_session_id demo_intent) (file_log (reopen s)))"
    using re log v file_store.replay_recover [of 5 "reopen s" ?J demo_intent "()"]
    by (simp add: validate_intent_def) (simp add: new_journal_def)
  moreover have "map (\<lambda>c. ar_event_id (fst c)) (file_log s) = [demo_id 20, demo_id 21]"
    by (simp add: run(2) c) (simp add: accepted_form_def intent_request_def)
  ultimately show thesis using that run(1,3) by (simp add: log)
qed

section \<open>Properties\<close>



text \<open>Recovery is replay. On the store that a restart reopens after any run of the file store,
  recovering an action that the process does not know reads the events of its session page by
  page and gives what the events of the session give one after the other, for every page size,
  when the bound on the scan is not smaller than their number.\<close>

theorem journal_recovery_is_replay:
  assumes "n < 2 ^ 64" "length ops \<le> n" "list_all file_op_ok ops" "run_file ops (open_file_store n None) = (s, acks)"
    and "file_recover file_works True (reopen s) = (s', report)" "valid_intent i rt" "0 < p" "0 < m"
    and "length (session_events (fs_memory s') (ai_session_id i)) \<le> m"
  shows "snd (journal_recover file_ops i (new_journal rt p m, reopen s)) =
    fold_res (journal_entry (new_journal rt p m) i) (initial_state i) (session_events (fs_memory s') (ai_session_id i))"
proof -
  obtain recs where r: "file_rel n recs (reopen s)" using run_then_restart [OF assms(1-4)] by metis
  have "reopen (reopen s) = reopen s" by (simp add: reopen_def open_file_store_def new_store_def)
  then have log: "session_log k (file_log (reopen s)) = map event_core (session_events (fs_memory s') k)" for k
    using assms(5) by (simp add: file_log_def session_log_memory)
  have good: "n < 2 ^ 64 \<and> (\<exists>recs. file_rel n recs (reopen s))" "\<not> (fs_loaded (reopen s) \<and> fs_read_only (reopen s))"
    using assms(1) r by (auto simp: reopen_def)
  have J: "validate_intent (new_journal rt p m) i = Inr ()" "map_of (aj_states (new_journal rt p m)) (ai_action_id i) = None"
    "0 < aj_page_size (new_journal rt p m)" "aj_max_events_scanned (new_journal rt p m) = m"
    using assms(6,7) by (simp_all add: validate_intent_def new_journal_def)
  show ?thesis using file_store.replay_recover [OF good J(1-3)] assms(8,9) by (simp add: log fold_entry_core J(4))
qed

theorem journal_recovery_is_replay_witness:
  "\<exists>s acks s' report. run_file [AppendOp Written timestamp_default demo_append] (open_file_store 5 None) = (s, acks) \<and>
    file_recover file_works True (reopen s) = (s', report) \<and>
    snd (journal_recover file_ops demo_intent (new_journal (demo_id 2) 1 10, reopen s)) =
      fold_res (journal_entry (new_journal (demo_id 2) 1 10) demo_intent) (initial_state demo_intent)
        (session_events (fs_memory s') (ai_session_id demo_intent))"
proof -
  obtain s acks where run: "run_file [AppendOp Written timestamp_default demo_append] (open_file_store 5 None) = (s, acks)" by force
  obtain s' report where rec: "file_recover file_works True (reopen s) = (s', report)" by force
  obtain recs where "recovers 5 recs (file_recover file_works True (reopen s))" "length recs \<le> length [AppendOp Written timestamp_default demo_append]"
    by (rule run_then_restart [OF _ _ _ run]) (use demo_append_ok(2) in simp_all)
  then have "length (session_events (fs_memory s') (ai_session_id demo_intent)) \<le> 10"
    using index_events(4) [of 5 recs s'] length_filter_le [of "\<lambda>e. ev_session_id e = ai_session_id demo_intent" "es_events (fs_memory s')"]
    by (simp add: recovers_def file_inv_def session_events_def rec)
  then show ?thesis
    using journal_recovery_is_replay [OF _ _ _ run rec demo_intent_ok(1), of 1 10] run rec demo_append_ok(2) by auto
qed


section \<open>Acknowledgements\<close>

lemma journal_append_Inr:
  assumes "journal_append ops env x J i type payload c s = (s', Inr rc)"
  shows "\<exists>q. st_append ops env q s = (s', Some (Inr rc)) \<and> ar_event_id q = x \<and> rc_event_id rc = x \<and>
    durability_number ProcessCrash \<le> durability_number (rc_achieved rc)"
proof -
  have "ar_event_id (journal_request J x i type payload c) = x" by (simp add: journal_request_def)
  moreover have "st_append ops env (journal_request J x i type payload c) s = (s', Some (Inr rc)) \<and> rc_event_id rc = x \<and>
      durability_number ProcessCrash \<le> durability_number (rc_achieved rc)"
    using assms by (auto simp: journal_append_def check_receipt_def split: prod.splits option.splits sum.splits if_splits)
  ultimately show ?thesis by blast
qed

lemma memory_receipt_buffered: "st_append memory_ops now q m = (m', Some (Inr r)) \<Longrightarrow> rc_achieved r = Buffered"
proof -
  assume "st_append memory_ops now q m = (m', Some (Inr r))"
  then have app: "append_stamped m q now AppendProcess = (m', Inr r)"
    by (cases "append_stamped m q now AppendProcess") (simp add: memory_ops_def store_append_def)
  obtain t rc where new: "append_new m q now AppendProcess = (t, rc)" by force
  obtain e where "rc = receipt_of e (es_durable_watermark m + 1)" by (rule append_new_fields [OF new])
  then show ?thesis using app new by (auto simp: append_stamped_def Let_def receipt_of_def split: if_splits option.splits)
qed

lemma journal_append_memory: "\<exists>m' e. journal_append memory_ops now x J i type payload c m = (m', Inl e)"
proof (cases "journal_append memory_ops now x J i type payload c m")
  case (Pair m' r)
  show ?thesis
  proof (cases r)
    case (Inr rc)
    then show ?thesis using journal_append_Inr [of memory_ops now x J i type payload c m m' rc] memory_receipt_buffered Pair
      by (fastforce simp: durability_number_def)
  qed (use Pair in simp)
qed

text \<open>The journal never runs ahead of its store. Whatever the store does, an operation of the
  journal changes its table only when the store acknowledged the append of that very event with
  a durability that survives a crash of the process, and an answered error changes nothing; over
  the in-memory store no action can be prepared at all.\<close>

theorem journal_never_ahead_of_store:
  assumes "f \<in> {journal_prepare ops env x i, journal_dispatch_started ops env x i, journal_receipt ops env x i summary,
      journal_execution_uncertain ops env x i summary}" "f (J, s) = ((J', s'), res)"
  shows "(J' = J \<or> (\<exists>q r. st_append ops env q s = (s', Some (Inr r)) \<and> ar_event_id q = x \<and> rc_event_id r = x \<and>
      durability_number ProcessCrash \<le> durability_number (rc_achieved r))) \<and> ((\<exists>e. res = Inl e) \<longrightarrow> J' = J) \<and>
    (aj_states J = [] \<longrightarrow> (\<exists>e. snd (journal_prepare memory_ops now x i (J, memory)) = Inl e))"
proof -
  have "(J' = J \<and> (\<exists>r. res = Inr r)) \<or> (J' = J \<and> (\<exists>e. res = Inl e)) \<or>
      (\<exists>type payload c rc. res = Inr rc \<and> journal_append ops env x J i type payload c s = (s', Inr rc))"
    using assms by (auto simp: journal_prepare_def journal_dispatch_started_def journal_receipt_def journal_execution_uncertain_def
        journal_result_def split: sum.splits option.splits prod.splits if_splits)
  moreover obtain m' e where "journal_append memory_ops now x J i ''ActionPrepared'' (journal_encode i []) State memory = (m', Inl e)"
    using journal_append_memory by blast
  then have "aj_states J = [] \<Longrightarrow> \<exists>e. snd (journal_prepare memory_ops now x i (J, memory)) = Inl e"
    by (cases "validate_intent J i") (auto simp: journal_prepare_def)
  moreover have "\<exists>q r. st_append ops env q s = (s', Some (Inr r)) \<and> ar_event_id q = x \<and> rc_event_id r = x \<and>
      durability_number ProcessCrash \<le> durability_number (rc_achieved r)"
    if "journal_append ops env x J i type payload c s = (s', Inr rc)" for type payload c rc
    using journal_append_Inr [OF that] by blast
  ultimately show ?thesis by auto
qed

theorem journal_never_ahead_of_store_witness:
  "\<exists>J' s' res. journal_prepare file_ops (OpenFailed, timestamp_default) (demo_id 20) demo_intent
      (new_journal (demo_id 2) 1 10, open_file_store 5 None) = ((J', s'), res) \<and>
    (J' = new_journal (demo_id 2) 1 10 \<or> (\<exists>q r. ar_event_id q = demo_id 20 \<and>
      st_append file_ops (OpenFailed, timestamp_default) q (open_file_store 5 None) = (s', Some (Inr r)))) \<and>
    (\<exists>e. snd (journal_prepare memory_ops timestamp_default (demo_id 20) demo_intent (new_journal (demo_id 2) 1 10, new_store 5)) = Inl e)"
proof -
  obtain J' s' res where run: "journal_prepare file_ops (OpenFailed, timestamp_default) (demo_id 20) demo_intent
      (new_journal (demo_id 2) 1 10, open_file_store 5 None) = ((J', s'), res)"
    by (metis prod.exhaust)
  have empty: "aj_states (new_journal (demo_id 2) 1 10) = []" by (simp add: new_journal_def)
  show ?thesis using journal_never_ahead_of_store [OF insertI1 run, where now = timestamp_default and memory = "new_store 5"] run empty by blast
qed

text \<open>Payloads of the journal are read back: what recovery parses from a written event is the
  identity, the epochs, the digest and the target of the intent and the summary, for every valid
  intent and every summary that the journal accepts; and two valid intents that the journal
  binds to the same text are the same intent.\<close>

theorem journal_payload_round_trip:
  assumes "valid_intent i rt" "intent_ok i" "safe_text x 4096 False"
  shows "(case journal_parse (journal_encode i x) of None \<Rightarrow> False | Some p \<Rightarrow> payload_matches p i \<and> jp_suffix p = x) \<and>
    (valid_intent j rt \<and> intent_ok j \<and> binding i = binding j \<longrightarrow> i = j)"
  using journal_parse_encode [OF assms] binding_inject [OF assms(1,2), of j]
  by (auto simp: intent_payload_def payload_matches_def)

theorem journal_payload_round_trip_witness:
  "(case journal_parse (journal_encode demo_intent ''tapped | ok'') of None \<Rightarrow> False
    | Some p \<Rightarrow> payload_matches p demo_intent \<and> jp_suffix p = ''tapped | ok'')"
proof -
  have "safe_text ''tapped | ok'' 4096 False" by code_simp
  then show ?thesis using journal_payload_round_trip [OF demo_intent_ok, of "''tapped | ok''" demo_intent] by blast
qed




end
