(* ===== verification/Interaction_Ledger.thy ===== *)
theory Interaction_Ledger
  imports Runtime_Control Store_Interface Json_Properties
begin

text \<open>
  The idempotency ledger of the principal-level input entry point: the vocabulary of
  \<open>src/interaction/interaction_events.cpp\<close> and the class \<open>EventStoreInputLedger\<close> of
  \<open>src/interaction/input_ledger.cpp\<close>. Every accepted input and every transition of it is an event of
  one partition of the event store; the index is rebuilt from these events after a restart. Clock
  readings, generated identifiers and the environment of the store are arguments.
\<close>

section \<open>Vocabulary\<close>

type_synonym ControlIngressId = Id128

datatype InteractionDomainCode = Unknown | InputInvalid | InputExpired | LedgerUnavailable | LedgerFull
  | PermissionDenied | NoSessionAvailable | RuntimeCommandFailed | RuntimeCommandTimeout | RouteRejected
  | SinkUnavailable | ExecutorRejected | NotInitialized

definition interaction_code :: "InteractionDomainCode \<Rightarrow> int" where
  "interaction_code c = (case c of Unknown \<Rightarrow> 0 | InputInvalid \<Rightarrow> 1 | InputExpired \<Rightarrow> 2 | LedgerUnavailable \<Rightarrow> 3
     | LedgerFull \<Rightarrow> 4 | InteractionDomainCode.PermissionDenied \<Rightarrow> 5 | NoSessionAvailable \<Rightarrow> 6 | RuntimeCommandFailed \<Rightarrow> 7
     | RuntimeCommandTimeout \<Rightarrow> 8 | RouteRejected \<Rightarrow> 9 | SinkUnavailable \<Rightarrow> 10 | ExecutorRejected \<Rightarrow> 11 | NotInitialized \<Rightarrow> 12)"

definition interaction_error :: "ErrorCode \<Rightarrow> InteractionDomainCode \<Rightarrow> string \<Rightarrow> bool \<Rightarrow> Error" where
  "interaction_error code domain_code message retryable = error_default\<lparr>err_code := code, err_domain := ''mira.interaction'',
     err_domain_code := interaction_code domain_code, err_safe_message := message, err_retryable := retryable\<rparr>"

record InputEnvelope =
  ie_principal :: PrincipalContext
  ie_input_id :: string
  ie_content :: string
  ie_attachment_refs :: "string list"
  ie_reply_to :: "string option"

datatype InputStage = Accepted | Routed | Answered | TaskSettled | Rejected

definition input_stage_name :: "InputStage \<Rightarrow> string" where
  "input_stage_name s = (case s of InputStage.Accepted \<Rightarrow> ''Accepted'' | InputStage.Routed \<Rightarrow> ''Routed''
     | InputStage.Answered \<Rightarrow> ''Answered'' | InputStage.TaskSettled \<Rightarrow> ''TaskSettled'' | InputStage.Rejected \<Rightarrow> ''Rejected'')"

datatype RouteIntent = ContinueCurrent | SupplementTask | NewTask | ResumeTask | PauseTask | CancelTask | Clarify | Reject

definition route_intent_name :: "RouteIntent \<Rightarrow> string" where
  "route_intent_name i = (case i of RouteIntent.ContinueCurrent \<Rightarrow> ''ContinueCurrent'' | RouteIntent.SupplementTask \<Rightarrow> ''SupplementTask''
     | RouteIntent.NewTask \<Rightarrow> ''NewTask'' | RouteIntent.ResumeTask \<Rightarrow> ''ResumeTask'' | RouteIntent.PauseTask \<Rightarrow> ''PauseTask''
     | RouteIntent.CancelTask \<Rightarrow> ''CancelTask'' | RouteIntent.Clarify \<Rightarrow> ''Clarify'' | RouteIntent.Reject \<Rightarrow> ''Reject'')"

datatype InteractionEventType = InputAccepted | InputRouted | InputClarified | InputRejected | InputAnswered | InputTaskSettled

definition kInteractionEvents :: "(InteractionEventType \<times> string \<times> string) list" where
  "kInteractionEvents =
     [(InputAccepted, ''InputAccepted'', ''mira.interaction.input-accepted.v1''),
      (InputRouted, ''InputRouted'', ''mira.interaction.input-routed.v1''),
      (InputClarified, ''InputClarified'', ''mira.interaction.input-clarified.v1''),
      (InputRejected, ''InputRejected'', ''mira.interaction.input-rejected.v1''),
      (InputAnswered, ''InputAnswered'', ''mira.interaction.input-answered.v1''),
      (InputTaskSettled, ''InputTaskSettled'', ''mira.interaction.input-task-settled.v1'')]"

definition interaction_event_schema :: "InteractionEventType \<Rightarrow> string" where
  "interaction_event_schema t = snd (the (map_of kInteractionEvents t))"

definition parse_interaction_event_schema :: "string \<Rightarrow> InteractionEventType option" where
  "parse_interaction_event_schema schema = map_option fst (List.find (\<lambda>entry. snd (snd entry) = schema) kInteractionEvents)"

definition is_interaction_event_type :: "string \<Rightarrow> bool" where
  "is_interaction_event_type t \<longleftrightarrow> list_ex (\<lambda>entry. fst (snd entry) = t) kInteractionEvents"

section \<open>Records\<close>

record LedgerEntry =
  le_input_id :: string
  le_ingress_id :: ControlIngressId
  le_admitted_at :: Timestamp
  le_stage :: InputStage
  le_session_id :: "SessionId option"
  le_task_id :: "TaskId option"
  le_window_expires_at :: int
  le_duplicate :: bool
  le_note :: string
  le_clarification :: "string option"
  le_error :: "Error option"

record LedgerTransition =
  lt_stage :: InputStage
  lt_session_id :: "SessionId option"
  lt_task_id :: "TaskId option"
  lt_intent :: "RouteIntent option"
  lt_note :: string
  lt_clarification :: "string option"
  lt_error :: "Error option"

definition transition_default :: LedgerTransition where
  "transition_default = \<lparr>lt_stage = InputStage.Accepted, lt_session_id = None, lt_task_id = None, lt_intent = None,
     lt_note = '''', lt_clarification = None, lt_error = None\<rparr>"

record EventStoreInputLedger =
  il_has_store :: bool
  il_runtime :: RuntimeId
  il_window_seconds :: int
  il_max_entries :: nat
  il_partition :: SessionId
  il_index :: "(string, LedgerEntry) umap"

definition interaction_ledger_partition :: SessionId where
  "interaction_ledger_partition = Id128 [0x6d, 0x69, 0x72, 0x61, 0x2e, 0x69, 0x6e, 0x74, 0x65, 0x72, 0x61, 0x63, 0x74, 0x2e, 0x6c, 0x31]"

definition new_ledger_index :: "bool \<Rightarrow> RuntimeId \<Rightarrow> int \<Rightarrow> nat \<Rightarrow> SessionId option \<Rightarrow> EventStoreInputLedger" where
  "new_ledger_index has_store runtime seconds max_entries part =
     \<lparr>il_has_store = has_store, il_runtime = runtime, il_window_seconds = seconds, il_max_entries = max_entries,
      il_partition = (case part of None \<Rightarrow> interaction_ledger_partition | Some p \<Rightarrow> p), il_index = []\<rparr>"

section \<open>Payloads\<close>

definition principal_ref :: "PrincipalContext \<Rightarrow> string" where
  "principal_ref p = id128_to_string (pc_tenant_id p) @ '':'' @ id128_to_string (pc_user_id p)"

definition opt_id_text :: "Id128 option \<Rightarrow> string" where
  "opt_id_text i = (case i of Some i \<Rightarrow> id128_to_string i | None \<Rightarrow> '''')"

text \<open>The three members that every payload begins with.\<close>

definition payload_head :: "InteractionEventType \<Rightarrow> LedgerEntry \<Rightarrow> JsonObject" where
  "payload_head t e = [(''schema'', JString (interaction_event_schema t)), (''input_id'', JString (le_input_id e)),
     (''ingress_id'', JString (id128_to_string (le_ingress_id e)))]"

definition accepted_payload :: "LedgerEntry \<Rightarrow> PrincipalContext \<Rightarrow> JsonObject" where
  "accepted_payload e p = payload_head InputAccepted e @
     [(''principal_ref'', JString (principal_ref p)), (''admitted_at'', JInteger (ts_wall (le_admitted_at e))),
      (''window_expires_at'', JInteger (le_window_expires_at e))]"

definition routed_payload :: "LedgerEntry \<Rightarrow> LedgerTransition \<Rightarrow> JsonObject" where
  "routed_payload e t = payload_head InputRouted e @
     [(''intent'', JString (case lt_intent t of Some i \<Rightarrow> route_intent_name i | None \<Rightarrow> '''')),
      (''session_id'', JString (opt_id_text (lt_session_id t))), (''task_id'', JString (opt_id_text (lt_task_id t))),
      (''rationale'', JString (lt_note t))]"

definition clarified_payload :: "LedgerEntry \<Rightarrow> LedgerTransition \<Rightarrow> JsonObject" where
  "clarified_payload e t = payload_head InputClarified e @
     [(''clarification'', JString (case lt_clarification t of Some c \<Rightarrow> c | None \<Rightarrow> ''''))]"

definition rejected_payload :: "LedgerEntry \<Rightarrow> LedgerTransition \<Rightarrow> JsonObject" where
  "rejected_payload e t = payload_head InputRejected e @
     [(''reason_code'', JInteger (case lt_error t of Some err \<Rightarrow> err_domain_code err | None \<Rightarrow> interaction_code Unknown)),
      (''reason'', JString (case lt_error t of Some err \<Rightarrow> err_safe_message err | None \<Rightarrow> lt_note t))]"

definition answered_payload :: "LedgerEntry \<Rightarrow> LedgerTransition \<Rightarrow> JsonObject" where
  "answered_payload e t = payload_head InputAnswered e @
     [(''session_id'', JString (opt_id_text (lt_session_id t))), (''task_id'', JString (opt_id_text (lt_task_id t))),
      (''summary'', JString (lt_note t))]"

definition settled_payload :: "LedgerEntry \<Rightarrow> LedgerTransition \<Rightarrow> JsonObject" where
  "settled_payload e t = payload_head InputTaskSettled e @
     [(''task_id'', JString (opt_id_text (lt_task_id t))), (''terminal'', JString (lt_note t))]"

definition stage_rank :: "InputStage \<Rightarrow> nat" where
  "stage_rank s = (case s of InputStage.Accepted \<Rightarrow> 0 | InputStage.Routed \<Rightarrow> 1 | InputStage.Answered \<Rightarrow> 2
     | InputStage.TaskSettled \<Rightarrow> 3 | InputStage.Rejected \<Rightarrow> 4)"

section \<open>Operations\<close>

definition ledger_request :: "EventStoreInputLedger \<Rightarrow> EventId \<Rightarrow> string \<Rightarrow> JsonObject \<Rightarrow> AppendRequest" where
  "ledger_request l x type members =
     \<lparr>ar_event_id = x, ar_runtime_id = il_runtime l, ar_session_id = il_partition l, ar_task_id = None,
      ar_payload = \<lparr>pl_type = type, pl_data = to_json_string (JObject members), pl_classification = State\<rparr>,
      ar_cause = 0, ar_required = ProcessCrash\<rparr>"

text \<open>\<open>Impl::append\<close>. An exception of the store is not caught here; it is one more failure for the
  caller, after which nothing else of the operation runs.\<close>

definition ledger_append ::
    "('s, 'e) IEventStore \<Rightarrow> 'e \<Rightarrow> EventId \<Rightarrow> EventStoreInputLedger \<Rightarrow> string \<Rightarrow> JsonObject \<Rightarrow> 's \<Rightarrow> 's \<times> unit Result" where
  "ledger_append ops env x l type members s =
     (if \<not> il_has_store l
      then (s, Inl (interaction_error ErrorCode.Unavailable LedgerUnavailable ''the interaction ledger has no event store'' False))
      else case st_append ops env (ledger_request l x type members) s of
        (s, Some (Inr _)) \<Rightarrow> (s, Inr ())
      | (s, _) \<Rightarrow> (s, Inl (interaction_error ErrorCode.Unavailable LedgerUnavailable
          ''the interaction ledger could not append its record'' False)))"

definition drop_expired :: "int \<Rightarrow> (string, LedgerEntry) umap \<Rightarrow> (string, LedgerEntry) umap" where
  "drop_expired now m = filter (\<lambda>(k, e). \<not> now > le_window_expires_at e) m"

definition fresh_entry :: "EventStoreInputLedger \<Rightarrow> int \<Rightarrow> Timestamp \<Rightarrow> ControlIngressId \<Rightarrow> string \<Rightarrow> LedgerEntry" where
  "fresh_entry l now stamp ingress input_id =
     \<lparr>le_input_id = input_id, le_ingress_id = ingress, le_admitted_at = stamp, le_stage = InputStage.Accepted,
      le_session_id = None, le_task_id = None, le_window_expires_at = now + il_window_seconds l * 1000000000,
      le_duplicate = False, le_note = '''', le_clarification = None, le_error = None\<rparr>"

definition ledger_admit ::
    "('s, 'e) IEventStore \<Rightarrow> 'e \<Rightarrow> EventId \<Rightarrow> int \<Rightarrow> Timestamp \<Rightarrow> ControlIngressId \<Rightarrow> InputEnvelope \<Rightarrow>
     EventStoreInputLedger \<times> 's \<Rightarrow> (EventStoreInputLedger \<times> 's) \<times> LedgerEntry Result" where
  "ledger_admit ops env x now stamp ingress envelope = (\<lambda>(l, s).
     if ie_input_id envelope = []
     then ((l, s), Inl (interaction_error ErrorCode.InvalidArgument InputInvalid ''the input id must not be empty'' False))
     else case map_of (il_index l) (ie_input_id envelope) of
       Some e \<Rightarrow>
         if now \<le> le_window_expires_at e then ((l, s), Inr (e\<lparr>le_duplicate := True\<rparr>))
         else ((l, s), Inl (interaction_error ErrorCode.InvalidState InputExpired
                ''the input id was already used and its idempotency window expired'' False))
     | None \<Rightarrow>
         let l = (if length (il_index l) \<ge> il_max_entries l then l\<lparr>il_index := drop_expired now (il_index l)\<rparr> else l) in
         if length (il_index l) \<ge> il_max_entries l
         then ((l, s), Inl (interaction_error ErrorCode.ResourceExhausted LedgerFull ''the interaction ledger index is full'' False))
         else let e = fresh_entry l now stamp ingress (ie_input_id envelope) in
           (case ledger_append ops env x l ''InputAccepted'' (accepted_payload e (ie_principal envelope)) s of
              (s, Inl err) \<Rightarrow> ((l, s), Inl err)
            | (s, Inr _) \<Rightarrow> ((l\<lparr>il_index := umap_emplace (le_input_id e) e (il_index l)\<rparr>, s), Inr e)))"

definition not_recorded :: Error where
  "not_recorded = interaction_error ErrorCode.NotFound InputInvalid ''the input id is not recorded in the interaction ledger'' False"

definition ledger_lookup :: "string \<Rightarrow> EventStoreInputLedger \<Rightarrow> LedgerEntry Result" where
  "ledger_lookup input_id l = (case map_of (il_index l) input_id of None \<Rightarrow> Inl not_recorded | Some e \<Rightarrow> Inr e)"

text \<open>The record after a transition, before its event is written.\<close>

definition advanced_entry :: "LedgerTransition \<Rightarrow> LedgerEntry \<Rightarrow> LedgerEntry" where
  "advanced_entry t e =
     e\<lparr>le_stage := (if lt_stage t \<noteq> InputStage.Accepted \<or> lt_clarification t \<noteq> None then lt_stage t else le_stage e),
       le_session_id := (if lt_session_id t \<noteq> None then lt_session_id t else le_session_id e),
       le_task_id := (if lt_task_id t \<noteq> None then lt_task_id t else le_task_id e),
       le_note := (if lt_note t \<noteq> [] then lt_note t else le_note e),
       le_clarification := (if lt_clarification t \<noteq> None then lt_clarification t else le_clarification e),
       le_error := (if lt_error t \<noteq> None then lt_error t else le_error e)\<rparr>"

text \<open>The event of a transition, if it has one.\<close>

definition transition_event :: "LedgerTransition \<Rightarrow> LedgerEntry \<Rightarrow> (string \<times> JsonObject) option" where
  "transition_event t e = (case lt_stage t of
      InputStage.Rejected \<Rightarrow> Some (''InputRejected'', rejected_payload e t)
    | InputStage.Routed \<Rightarrow> Some (''InputRouted'', routed_payload e t)
    | InputStage.Answered \<Rightarrow> Some (''InputAnswered'', answered_payload e t)
    | InputStage.TaskSettled \<Rightarrow> Some (''InputTaskSettled'', settled_payload e t)
    | InputStage.Accepted \<Rightarrow> (if lt_clarification t \<noteq> None then Some (''InputClarified'', clarified_payload e t) else None))"

definition ledger_advance ::
    "('s, 'e) IEventStore \<Rightarrow> 'e \<Rightarrow> EventId \<Rightarrow> string \<Rightarrow> LedgerTransition \<Rightarrow>
     EventStoreInputLedger \<times> 's \<Rightarrow> (EventStoreInputLedger \<times> 's) \<times> LedgerEntry Result" where
  "ledger_advance ops env x input_id t = (\<lambda>(l, s).
     case map_of (il_index l) input_id of
       None \<Rightarrow> ((l, s), Inl not_recorded)
     | Some e \<Rightarrow>
         if lt_clarification t = None \<and> lt_stage t \<noteq> InputStage.Rejected \<and> stage_rank (lt_stage t) < stage_rank (le_stage e)
         then ((l, s), Inr e)
         else if le_stage e = InputStage.Rejected \<and> lt_stage t = InputStage.Rejected then ((l, s), Inr e)
         else let e = advanced_entry t e; l = l\<lparr>il_index := umap_modify input_id (\<lambda>_. e) (il_index l)\<rparr> in
           (case transition_event t e of
              None \<Rightarrow> ((l, s), Inr e)
            | Some (type, members) \<Rightarrow>
                (case ledger_append ops env x l type members s of
                   (s, Inl err) \<Rightarrow> ((l, s), Inl err)
                 | (s, Inr _) \<Rightarrow> ((l, s), Inr e))))"

definition reclaim_expired :: "int \<Rightarrow> EventStoreInputLedger \<Rightarrow> EventStoreInputLedger \<times> nat" where
  "reclaim_expired now l = (l\<lparr>il_index := drop_expired now (il_index l)\<rparr>,
     length (filter (\<lambda>(k, e). now > le_window_expires_at e) (il_index l)))"

section \<open>Rebuilding the index\<close>

definition umap_put :: "'k \<Rightarrow> 'v \<Rightarrow> ('k, 'v) umap \<Rightarrow> ('k, 'v) umap" where
  "umap_put k v m = umap_modify k (\<lambda>_. v) (umap_emplace k v m)"

text \<open>A member that is a string, and the identifier it parses to.\<close>

definition member_id :: "JsonValue \<Rightarrow> string \<Rightarrow> Id128 option" where
  "member_id j key = Option.bind (member_text j key) id128_parse"

definition rebuilt_entry :: "JsonValue \<Rightarrow> string \<Rightarrow> ControlIngressId \<Rightarrow> LedgerEntry" where
  "rebuilt_entry j input_id ingress =
     \<lparr>le_input_id = input_id, le_ingress_id = ingress,
      le_admitted_at = (case member_integer j ''admitted_at'' of
          Some n \<Rightarrow> timestamp_default\<lparr>ts_wall := n\<rparr> | None \<Rightarrow> timestamp_default),
      le_stage = InputStage.Accepted, le_session_id = None, le_task_id = None,
      le_window_expires_at = (case member_integer j ''window_expires_at'' of Some n \<Rightarrow> n | None \<Rightarrow> 0),
      le_duplicate = False, le_note = '''', le_clarification = None, le_error = None\<rparr>"

definition rejection_error :: "JsonValue \<Rightarrow> Error" where
  "rejection_error j = error_default\<lparr>err_code := ErrorCode.InvalidState, err_domain := ''mira.interaction'',
     err_domain_code := (case member_integer j ''reason_code'' of
         Some n \<Rightarrow> sint (word_of_int n :: 32 word) | None \<Rightarrow> interaction_code Unknown),
     err_safe_message := (case member_text j ''reason'' of Some r \<Rightarrow> r | None \<Rightarrow> ''the input was rejected'')\<rparr>"

definition or_else :: "'a option \<Rightarrow> 'a option \<Rightarrow> 'a option" where
  "or_else a b = (case a of Some x \<Rightarrow> Some x | None \<Rightarrow> b)"

text \<open>A transition that is read back.\<close>

definition replayed_transition :: "JsonValue \<Rightarrow> InteractionEventType option \<Rightarrow> LedgerEntry \<Rightarrow> LedgerEntry" where
  "replayed_transition j type e = (case type of
      Some InputRouted \<Rightarrow> e\<lparr>le_stage := InputStage.Routed, le_session_id := or_else (member_id j ''session_id'') (le_session_id e),
        le_task_id := or_else (member_id j ''task_id'') (le_task_id e),
        le_note := (case member_text j ''rationale'' of Some r \<Rightarrow> r | None \<Rightarrow> le_note e)\<rparr>
    | Some InputClarified \<Rightarrow> e\<lparr>le_clarification := or_else (member_text j ''clarification'') (le_clarification e)\<rparr>
    | Some InputRejected \<Rightarrow> e\<lparr>le_stage := InputStage.Rejected, le_error := Some (rejection_error j)\<rparr>
    | Some InputAnswered \<Rightarrow> e\<lparr>le_stage := InputStage.Answered,
        le_note := (case member_text j ''summary'' of Some r \<Rightarrow> r | None \<Rightarrow> le_note e)\<rparr>
    | Some InputTaskSettled \<Rightarrow> e\<lparr>le_stage := InputStage.TaskSettled, le_task_id := or_else (member_id j ''task_id'') (le_task_id e)\<rparr>
    | _ \<Rightarrow> e)"

definition rebuild_event :: "(string, LedgerEntry) umap \<Rightarrow> string \<Rightarrow> (string, LedgerEntry) umap" where
  "rebuild_event m payload =
     (case parse_json json_limits_default payload of
        Inl _ \<Rightarrow> m
      | Inr j \<Rightarrow>
          if as_object j = None then m
          else (case (member_text j ''schema'', member_text j ''input_id'', member_id j ''ingress_id'') of
              (Some schema, Some input_id, Some ingress) \<Rightarrow>
                if parse_interaction_event_schema schema = Some InputAccepted
                then umap_put input_id (rebuilt_entry j input_id ingress) m
                else umap_modify input_id (replayed_transition j (parse_interaction_event_schema schema)) m
            | _ \<Rightarrow> m))"

text \<open>The loop over the pages ends when a page says so; over a store that never says so it does not
  end, which is \<open>None\<close>.\<close>

partial_function (option) rebuild_pages ::
    "('s, 'e) IEventStore \<Rightarrow> SessionId \<Rightarrow> u64 option \<Rightarrow> (string, LedgerEntry) umap \<Rightarrow> 's \<Rightarrow>
     ('s \<times> (string, LedgerEntry) umap Result) option" where
  "rebuild_pages ops part after m s =
     (case st_read ops \<lparr>eq_session_id = part, eq_after_sequence = after, eq_limit = 1024\<rparr> s of
        (s, Some (Inr page)) \<Rightarrow>
          (let m = fold (\<lambda>e m. rebuild_event m (pl_data (ev_payload e))) (pg_events page) m in
           if \<not> pg_has_more page \<or> pg_events page = [] then Some (s, Inr m)
           else rebuild_pages ops part (Some (ev_session_sequence (last (pg_events page)))) m s)
      | (s, _) \<Rightarrow> Some (s, Inl (interaction_error ErrorCode.Unavailable LedgerUnavailable
          ''the interaction ledger stream could not be read'' False)))"

definition ledger_rebuild ::
    "('s, 'e) IEventStore \<Rightarrow> EventStoreInputLedger \<times> 's \<Rightarrow> ((EventStoreInputLedger \<times> 's) \<times> unit Result) option" where
  "ledger_rebuild ops = (\<lambda>(l, s).
     if \<not> il_has_store l
     then Some ((l, s), Inl (interaction_error ErrorCode.Unavailable LedgerUnavailable ''the interaction ledger has no event store'' False))
     else map_option (\<lambda>(s, result). (case result of
         Inl e \<Rightarrow> ((l, s), Inl e)
       | Inr m \<Rightarrow> ((l\<lparr>il_index := m\<rparr>, s), Inr ()))) (rebuild_pages ops (il_partition l) None [] s))"

end
