(* ===== verification/Ledger_Contract.thy ===== *)
theory Ledger_Contract
  imports Interaction_Ledger Event_Log_Contract Flat_Payload
begin

text \<open>
  What the input ledger promises on a store that keeps its contract (\<open>event_log\<close>): rebuilding the
  index returns and is the replay of the partition, and what was admitted stays admitted, with its
  ingress identifier and its window, over transitions, torn writes and restarts.
\<close>

section \<open>The index\<close>

lemma umap_find_put [simp]: "map_of (umap_put k v m) k' = (if k' = k then Some v else map_of m k')"
  by (auto simp: umap_put_def)

lemma umap_distinct_put: "distinct (map fst m) \<Longrightarrow> distinct (map fst (umap_put k v m))"
  by (simp add: umap_put_def)

text \<open>What identifies an admission: the ingress identifier and the end of the window.\<close>

definition admitted :: "string \<Rightarrow> (string, LedgerEntry) umap \<Rightarrow> (ControlIngressId \<times> int) option" where
  "admitted k m = map_option (\<lambda>e. (le_ingress_id e, le_window_expires_at e)) (map_of m k)"

definition entry_ok :: "string \<Rightarrow> LedgerEntry \<Rightarrow> bool" where
  "entry_ok k e \<longleftrightarrow> le_input_id e = k \<and> text_ok k \<and> id128_ok (le_ingress_id e)"

definition index_ok :: "(string, LedgerEntry) umap \<Rightarrow> bool" where
  "index_ok m \<longleftrightarrow> distinct (map fst m) \<and> (\<forall>k e. map_of m k = Some e \<longrightarrow> entry_ok k e)"

lemma index_ok_empty [simp]: "index_ok []"
  by (simp add: index_ok_def)

lemma index_ok_put: "index_ok m \<Longrightarrow> entry_ok k e \<Longrightarrow> index_ok (umap_put k e m)"
  by (simp add: index_ok_def umap_distinct_put)

lemma index_ok_emplace: "index_ok m \<Longrightarrow> entry_ok k e \<Longrightarrow> index_ok (umap_emplace k e m)"
  by (simp add: index_ok_def)

lemma index_ok_modify: "index_ok m \<Longrightarrow> (\<And>e. entry_ok k e \<Longrightarrow> entry_ok k (f e)) \<Longrightarrow> index_ok (umap_modify k f m)"
  by (auto simp: index_ok_def)

lemma admitted_modify: "(\<And>e. le_ingress_id (f e) = le_ingress_id e \<and> le_window_expires_at (f e) = le_window_expires_at e) \<Longrightarrow>
    admitted k' (umap_modify k f m) = admitted k' m"
  by (simp add: admitted_def option.map_comp comp_def)

lemma drop_expired_find:
  "distinct (map fst m) \<Longrightarrow> map_of (drop_expired now m) k =
     (case map_of m k of Some e \<Rightarrow> if now > le_window_expires_at e then None else Some e | None \<Rightarrow> None)"
  by (induction m) (auto simp: drop_expired_def map_of_eq_None_iff image_iff split: option.splits)

lemma index_ok_drop: "index_ok m \<Longrightarrow> index_ok (drop_expired now m)"
  by (auto simp: index_ok_def drop_expired_find drop_expired_def distinct_map_filter split: option.splits if_splits)

lemma admitted_drop: "index_ok m \<Longrightarrow> admitted k m = Some (g, w) \<Longrightarrow> now \<le> w \<Longrightarrow> admitted k (drop_expired now m) = Some (g, w)"
  by (auto simp: admitted_def index_ok_def drop_expired_find)

lemma admitted_drop_sub: "index_ok m \<Longrightarrow> admitted k (drop_expired now m) = Some v \<Longrightarrow> admitted k m = Some v"
  by (auto simp: admitted_def index_ok_def drop_expired_find split: option.splits if_splits)

section \<open>Payloads are read back\<close>

definition transition_ok :: "LedgerTransition \<Rightarrow> bool" where
  "transition_ok t \<longleftrightarrow> text_ok (lt_note t) \<and> (case lt_clarification t of None \<Rightarrow> True | Some c \<Rightarrow> text_ok c) \<and>
     (case lt_error t of None \<Rightarrow> True | Some err \<Rightarrow> text_ok (err_safe_message err) \<and> \<bar>err_domain_code err\<bar> \<le> int64_max) \<and>
     (case lt_session_id t of None \<Rightarrow> True | Some i \<Rightarrow> id128_ok i) \<and> (case lt_task_id t of None \<Rightarrow> True | Some i \<Rightarrow> id128_ok i)"

lemma id_text_ok [simp]: "id128_ok i \<Longrightarrow> text_ok (id128_to_string i)"
  by (simp add: text_ok_def id128_ok_def id128_to_string_def text_limit_def)

lemma text_ok_empty [simp]: "text_ok []"
  by (simp add: text_ok_def)

lemma schema_ok [simp]: "text_ok (interaction_event_schema t)" "parse_interaction_event_schema (interaction_event_schema t) = Some t"
  by (cases t; simp add: interaction_event_schema_def kInteractionEvents_def parse_interaction_event_schema_def
      text_ok_def text_limit_def)+

lemma intent_name_ok [simp]: "text_ok (route_intent_name i)"
  by (cases i) (simp_all add: route_intent_name_def text_ok_def text_limit_def)

lemma opt_id_text_ok: "(case i of None \<Rightarrow> True | Some i \<Rightarrow> id128_ok i) \<Longrightarrow> text_ok (opt_id_text i)"
  by (simp add: opt_id_text_def split: option.splits)

lemma principal_ref_ok: "id128_ok (pc_tenant_id p) \<Longrightarrow> id128_ok (pc_user_id p) \<Longrightarrow> text_ok (principal_ref p)"
  by (simp add: principal_ref_def text_ok_def id128_ok_def id128_to_string_def text_limit_def)

lemma payload_keys:
  "flat_keys [''schema'', ''input_id'', ''ingress_id'', ''principal_ref'', ''admitted_at'', ''window_expires_at'']"
  "flat_keys [''schema'', ''input_id'', ''ingress_id'', ''intent'', ''session_id'', ''task_id'', ''rationale'']"
  "flat_keys [''schema'', ''input_id'', ''ingress_id'', ''clarification'']"
  "flat_keys [''schema'', ''input_id'', ''ingress_id'', ''reason_code'', ''reason'']"
  "flat_keys [''schema'', ''input_id'', ''ingress_id'', ''session_id'', ''task_id'', ''summary'']"
  "flat_keys [''schema'', ''input_id'', ''ingress_id'', ''task_id'', ''terminal'']"
  by code_simp+

lemmas flat_simps = flat_object_def flat_value_def payload_head_def payload_keys

lemma accepted_flat:
  assumes "entry_ok k e" "id128_ok (pc_tenant_id p)" "id128_ok (pc_user_id p)" "\<bar>ts_wall (le_admitted_at e)\<bar> \<le> int64_max"
    "\<bar>le_window_expires_at e\<bar> \<le> int64_max"
  shows "flat_object (accepted_payload e p)"
  using assms unfolding accepted_payload_def by (simp add: flat_simps entry_ok_def principal_ref_ok)

lemma interaction_code_range: "\<bar>interaction_code c\<bar> \<le> int64_max"
  by (cases c) (simp_all add: interaction_code_def int64_max_def)

lemma transition_texts:
  assumes "transition_ok t"
  shows "text_ok (lt_note t)" "text_ok (opt_id_text (lt_session_id t))" "text_ok (opt_id_text (lt_task_id t))"
    "text_ok (case lt_clarification t of Some c \<Rightarrow> c | None \<Rightarrow> [])"
    "text_ok (case lt_error t of Some err \<Rightarrow> err_safe_message err | None \<Rightarrow> lt_note t)"
    "\<bar>case lt_error t of Some err \<Rightarrow> err_domain_code err | None \<Rightarrow> interaction_code Unknown\<bar> \<le> int64_max"
    "text_ok (case lt_intent t of Some i \<Rightarrow> route_intent_name i | None \<Rightarrow> [])"
  using assms interaction_code_range [of Unknown] by (simp_all add: transition_ok_def opt_id_text_ok split: option.splits)

lemma transition_flat:
  assumes "entry_ok k e" "transition_ok t" "transition_event t e = Some (type, members)"
  shows "flat_object members" "utf8_ok type"
proof -
  have e: "text_ok (le_input_id e)" "id128_ok (le_ingress_id e)" using assms(1) by (simp_all add: entry_ok_def)
  have "flat_object (routed_payload e t)" "flat_object (clarified_payload e t)" "flat_object (rejected_payload e t)"
    "flat_object (answered_payload e t)" "flat_object (settled_payload e t)"
    unfolding routed_payload_def clarified_payload_def rejected_payload_def answered_payload_def settled_payload_def
    by (simp_all add: flat_simps e transition_texts [OF assms(2)])
  then show "flat_object members" "utf8_ok type"
    using assms(3) by (auto simp: transition_event_def split: InputStage.splits if_splits)
qed

text \<open>Replaying the acceptance of an entry puts it into the index; replaying a transition changes
  neither its ingress identifier nor its window.\<close>

definition restored_entry :: "LedgerEntry \<Rightarrow> LedgerEntry" where
  "restored_entry e = rebuilt_entry (JObject [(''admitted_at'', JInteger (ts_wall (le_admitted_at e))),
     (''window_expires_at'', JInteger (le_window_expires_at e))]) (le_input_id e) (le_ingress_id e)"

lemma restored_fields [simp]: "le_ingress_id (restored_entry e) = le_ingress_id e"
  "le_window_expires_at (restored_entry e) = le_window_expires_at e" "le_input_id (restored_entry e) = le_input_id e"
  "ts_wall (le_admitted_at (restored_entry e)) = ts_wall (le_admitted_at e)" "le_stage (restored_entry e) = InputStage.Accepted"
  by (simp_all add: restored_entry_def rebuilt_entry_def member_integer_def json_find_def)

lemmas read_simps = payload_head_def member_text_def member_integer_def member_id_def json_find_def as_object_def id_text.dec_enc

lemma rebuild_accepted:
  assumes "flat_object (accepted_payload e p)" "id128_ok (le_ingress_id e)"
  shows "rebuild_event m (to_json_string (JObject (accepted_payload e p))) = umap_put (le_input_id e) (restored_entry e) m"
  using assms(2) flat_object_written(2) [OF assms(1)]
  by (simp add: rebuild_event_def accepted_payload_def restored_entry_def rebuilt_entry_def read_simps)

lemma replayed_keeps [simp]: "le_ingress_id (replayed_transition j type e) = le_ingress_id e"
  "le_window_expires_at (replayed_transition j type e) = le_window_expires_at e"
  "le_input_id (replayed_transition j type e) = le_input_id e"
  by (simp_all add: replayed_transition_def split: option.splits InteractionEventType.splits)

definition stage_event :: "LedgerTransition \<Rightarrow> InteractionEventType" where
  "stage_event t = (case lt_stage t of InputStage.Rejected \<Rightarrow> InputRejected | InputStage.Routed \<Rightarrow> InputRouted
     | InputStage.Answered \<Rightarrow> InputAnswered | InputStage.TaskSettled \<Rightarrow> InputTaskSettled | InputStage.Accepted \<Rightarrow> InputClarified)"

lemma rebuild_transition:
  assumes "entry_ok k e" "transition_ok t" "transition_event t e = Some (type, members)"
  shows "rebuild_event m (to_json_string (JObject members)) =
    umap_modify k (replayed_transition (JObject members) (Some (stage_event t))) m"
proof -
  obtain rest where members: "members = payload_head (stage_event t) e @ rest"
    using assms(3) by (auto simp: transition_event_def stage_event_def routed_payload_def clarified_payload_def rejected_payload_def
        answered_payload_def settled_payload_def split: InputStage.splits if_splits)
  have "stage_event t \<noteq> InputAccepted" by (simp add: stage_event_def split: InputStage.splits)
  then show ?thesis using assms(1) flat_object_written(2) [OF transition_flat(1) [OF assms]]
    by (simp add: rebuild_event_def members read_simps entry_ok_def)
qed

section \<open>Rebuilding is replay\<close>

definition rebuild_log :: "event_core list \<Rightarrow> (string, LedgerEntry) umap \<Rightarrow> (string, LedgerEntry) umap" where
  "rebuild_log cs m = fold (\<lambda>c m. rebuild_event m (pl_data (ar_payload (fst c)))) cs m"

lemma rebuild_log_simps [simp]: "rebuild_log [] m = m"
  "rebuild_log (xs @ ys) m = rebuild_log ys (rebuild_log xs m)"
  "rebuild_log (c # cs) m = rebuild_log cs (rebuild_event m (pl_data (ar_payload (fst c))))"
  by (simp_all add: rebuild_log_def)

lemma fold_page: "fold (\<lambda>e m. rebuild_event m (pl_data (ev_payload e))) es m = rebuild_log (map event_core es) m"
  by (induction es arbitrary: m) (simp_all add: event_core_def entry_of_def)

definition after_cursor :: "u64 option \<Rightarrow> nat" where
  "after_cursor c = unat (case c of None \<Rightarrow> 0 | Some a \<Rightarrow> a)"

context event_log
begin

lemma rebuild_pages_replay:
  assumes "good s" "readable s"
  shows "\<exists>s'. rebuild_pages ops k after m s = Some (s', Inr (rebuild_log (drop (after_cursor after) (session_log k (log s))) m)) \<and>
    good s' \<and> readable s' \<and> log s' = log s \<and> room s' = room s"
  using assms
proof (induction "length (session_log k (log s)) - after_cursor after" arbitrary: after m s rule: less_induct)
  case less
  let ?q = "\<lparr>eq_session_id = k, eq_after_sequence = after, eq_limit = 1024\<rparr>"
  let ?log = "session_log k (log s)" and ?rest = "drop (after_cursor after) (session_log k (log s))"
  have rest: "page_rest ?q (log s) = ?rest" by (simp add: page_rest_def after_cursor_def)
  obtain s' es where rd: "st_read ops ?q s = (s', Some (Inr \<lparr>pg_events = es, pg_has_more = 1024 < length ?rest\<rparr>))"
    and s': "good s'" "readable s'" "log s' = log s" "room s' = room s" and es: "map event_core es = take 1024 ?rest"
    using read_law [OF less.prems, of ?q] by (auto simp: rest)
  show ?case
  proof (cases "1024 < length ?rest")
    case False
    then have "take 1024 ?rest = ?rest" by simp
    then show ?thesis using False s' by (subst rebuild_pages.simps) (simp add: rd fold_page es)
  next
    case True
    let ?a = "Some (ev_session_sequence (last es))"
    have len: "length es = 1024" using arg_cong [OF es, of length] True by simp
    then have ne: "es \<noteq> []" by auto
    have "event_core (last es) = event_core (es ! 1023)" using ne len by (simp add: last_conv_nth)
    also have "\<dots> = map event_core es ! 1023" using len by simp
    also have "\<dots> = ?log ! (after_cursor after + 1023)" using True by (simp only: es) simp
    finally have "ev_session_sequence (last es) = fst (snd (?log ! (after_cursor after + 1023)))"
      by (metis event_core_def fst_conv snd_conv)
    then have "unat (ev_session_sequence (last es)) = after_cursor after + 1024"
      using True numbered_nth [OF log_numbered [OF less.prems(1)], of "after_cursor after + 1023" k] by simp
    then have a: "after_cursor ?a = after_cursor after + 1024" by (simp add: after_cursor_def)
    let ?m = "rebuild_log (take 1024 ?rest) m"
    have "\<exists>s''. rebuild_pages ops k ?a ?m s' = Some (s'', Inr (rebuild_log (drop (after_cursor ?a) (session_log k (log s'))) ?m)) \<and>
        good s'' \<and> readable s'' \<and> log s'' = log s' \<and> room s'' = room s'"
      by (rule less.hyps) (use True a s' in auto)
    moreover have "rebuild_log (drop (after_cursor ?a) ?log) ?m = rebuild_log ?rest m"
      using drop_in_parts [of "after_cursor after" ?log 1024] a by (metis rebuild_log_simps(2))
    ultimately show ?thesis using True s' ne by (subst rebuild_pages.simps) (simp add: rd fold_page es)
  qed
qed

lemma ledger_rebuild_replay:
  assumes "good s" "readable s" "il_has_store l"
  shows "\<exists>s'. ledger_rebuild ops (l, s) = Some ((l\<lparr>il_index := rebuild_log (session_log (il_partition l) (log s)) []\<rparr>, s'), Inr ()) \<and>
    good s' \<and> readable s' \<and> log s' = log s \<and> room s' = room s"
  using rebuild_pages_replay [OF assms(1,2), of "il_partition l" None "[]"] assms(3)
  by (auto simp: ledger_rebuild_def after_cursor_def)

end


section \<open>Runs\<close>

text \<open>The operations of a host: the ledger's, appends of other components to other partitions, and a
  restart of the process, which reopens the store and rebuilds the index of a new ledger.\<close>

datatype 'e ledger_op = LAdmit 'e EventId int Timestamp ControlIngressId InputEnvelope
  | LAdvance 'e EventId string LedgerTransition | LReclaim int | LOther 'e AppendRequest | LRestart

fun run_ledger_op ::
    "('s, 'e) IEventStore \<Rightarrow> ('s \<Rightarrow> 's) \<Rightarrow> 'e ledger_op \<Rightarrow> EventStoreInputLedger \<times> 's \<Rightarrow> (EventStoreInputLedger \<times> 's) option" where
  "run_ledger_op ops restart (LAdmit env x now stamp ingress envelope) st = Some (fst (ledger_admit ops env x now stamp ingress envelope st))"
| "run_ledger_op ops restart (LAdvance env x k t) st = Some (fst (ledger_advance ops env x k t st))"
| "run_ledger_op ops restart (LReclaim now) st = Some (fst (reclaim_expired now (fst st)), snd st)"
| "run_ledger_op ops restart (LOther env q) st = Some (fst st, fst (st_append ops env q (snd st)))"
| "run_ledger_op ops restart LRestart st = map_option fst (ledger_rebuild ops ((fst st)\<lparr>il_index := []\<rparr>, restart (snd st)))"

fun run_ledger ::
    "('s, 'e) IEventStore \<Rightarrow> ('s \<Rightarrow> 's) \<Rightarrow> 'e ledger_op list \<Rightarrow> EventStoreInputLedger \<times> 's \<Rightarrow> (EventStoreInputLedger \<times> 's) option" where
  "run_ledger ops restart [] st = Some st"
| "run_ledger ops restart (op # js) st = Option.bind (run_ledger_op ops restart op st) (run_ledger ops restart js)"

lemma run_ledger_append: "run_ledger ops restart (xs @ ys) st = Option.bind (run_ledger ops restart xs st) (run_ledger ops restart ys)"
  by (induction xs arbitrary: st) (auto split: bind_splits)

fun ledger_op_events :: "'e ledger_op \<Rightarrow> EventId list" where
  "ledger_op_events (LAdmit env x now stamp ingress envelope) = [x]"
| "ledger_op_events (LAdvance env x k t) = [x]"
| "ledger_op_events (LOther env q) = [ar_event_id q]"
| "ledger_op_events _ = []"

fun ledger_op_times :: "'e ledger_op \<Rightarrow> int list" where
  "ledger_op_times (LAdmit env x now stamp ingress envelope) = [now]"
| "ledger_op_times (LReclaim now) = [now]"
| "ledger_op_times _ = []"

text \<open>The arguments of an operation: texts of well-formed UTF-8 within the bound, identifiers of 16
  bytes, times of 64 bits. \<open>keeps\<close> says which requests the store can keep.\<close>

definition takes_flat :: "('e \<Rightarrow> AppendRequest \<Rightarrow> bool) \<Rightarrow> EventStoreInputLedger \<Rightarrow> 'e \<Rightarrow> EventId \<Rightarrow> bool" where
  "takes_flat keeps l env x \<longleftrightarrow> (\<forall>type members. utf8_ok type \<and> flat_object members \<longrightarrow> keeps env (ledger_request l x type members))"

definition admission_ok :: "EventStoreInputLedger \<Rightarrow> int \<Rightarrow> Timestamp \<Rightarrow> ControlIngressId \<Rightarrow> InputEnvelope \<Rightarrow> bool" where
  "admission_ok l now stamp ingress envelope \<longleftrightarrow> text_ok (ie_input_id envelope) \<and>
     list_all id128_ok [ingress, pc_tenant_id (ie_principal envelope), pc_user_id (ie_principal envelope)] \<and>
     \<bar>ts_wall stamp\<bar> \<le> int64_max \<and> \<bar>now + il_window_seconds l * 1000000000\<bar> \<le> int64_max"

fun ledger_op_ok :: "('e \<Rightarrow> AppendRequest \<Rightarrow> bool) \<Rightarrow> EventStoreInputLedger \<Rightarrow> 'e ledger_op \<Rightarrow> bool" where
  "ledger_op_ok keeps l (LAdmit env x now stamp ingress envelope) \<longleftrightarrow> admission_ok l now stamp ingress envelope \<and> takes_flat keeps l env x"
| "ledger_op_ok keeps l (LAdvance env x k t) \<longleftrightarrow> transition_ok t \<and> takes_flat keeps l env x"
| "ledger_op_ok keeps l (LReclaim now) \<longleftrightarrow> True"
| "ledger_op_ok keeps l (LOther env q) \<longleftrightarrow> ar_session_id q \<noteq> il_partition l \<and> keeps env q"
| "ledger_op_ok keeps l LRestart \<longleftrightarrow> True"

definition same_config :: "EventStoreInputLedger \<Rightarrow> EventStoreInputLedger \<Rightarrow> bool" where
  "same_config l l' \<longleftrightarrow> (\<exists>m. l' = l\<lparr>il_index := m\<rparr>)"

lemma same_config_simps: "same_config l l" "same_config l (l\<lparr>il_index := m\<rparr>)" "same_config l l' \<Longrightarrow> same_config l' l'' \<Longrightarrow> same_config l l''"
  by (auto simp: same_config_def intro: exI [of _ "il_index l"])

lemma same_config_ok: "same_config l l' \<Longrightarrow> ledger_op_ok keeps l' op = ledger_op_ok keeps l op"
  by (cases op) (auto simp: same_config_def admission_ok_def takes_flat_def ledger_request_def)

text \<open>What a text of the log does to every index.\<close>

definition keeps_index :: "string \<Rightarrow> bool" where
  "keeps_index d \<longleftrightarrow> (\<forall>m. index_ok m \<longrightarrow> index_ok (rebuild_event m d))"

lemma rebuild_log_ok: "\<forall>c\<in>set cs. keeps_index (pl_data (ar_payload (fst c))) \<Longrightarrow> index_ok m \<Longrightarrow> index_ok (rebuild_log cs m)"
  by (induction cs arbitrary: m) (auto simp: keeps_index_def)

lemma request_fields [simp]: "ar_session_id (accepted_form q) = ar_session_id q" "ar_event_id (accepted_form q) = ar_event_id q"
  "ar_payload (accepted_form q) = ar_payload q"
  by (simp_all add: accepted_form_def)

lemma ledger_request_fields [simp]: "ar_session_id (ledger_request l x type members) = il_partition l"
  "ar_event_id (ledger_request l x type members) = x"
  "pl_data (ar_payload (ledger_request l x type members)) = to_json_string (JObject members)"
  by (simp_all add: ledger_request_def)

lemma session_log_append [simp]: "session_log k (xs @ ys) = session_log k xs @ session_log k ys"
  by (simp add: session_log_def)

lemma session_log_all: "\<forall>c\<in>set cs. fst c = q \<Longrightarrow> session_log k cs = (if ar_session_id q = k then cs else [])"
  by (auto simp: session_log_def filter_id_conv filter_empty_conv)

lemma rebuild_log_same:
  assumes "\<forall>c\<in>set new. pl_data (ar_payload (fst c)) = d" "\<And>m. f (f m) = f m" "\<And>m. admitted k (rebuild_event m d) = f (admitted k m)"
  shows "admitted k (rebuild_log new m) = (if new = [] then admitted k m else f (admitted k m))"
  using assms(1) by (induction new arbitrary: m) (auto simp: assms(2,3))


lemma rebuild_accepted_log:
  assumes "\<forall>c\<in>set new. fst c = accepted_form (ledger_request l x type (accepted_payload e p))"
    and "flat_object (accepted_payload e p)" "entry_ok k e"
  shows "\<forall>c\<in>set new. keeps_index (pl_data (ar_payload (fst c)))"
    "admitted k' (rebuild_log new m) = (if k' = k \<and> new \<noteq> [] then Some (le_ingress_id e, le_window_expires_at e) else admitted k' m)"
proof -
  let ?d = "to_json_string (JObject (accepted_payload e p))"
  have r: "rebuild_event m ?d = umap_put k (restored_entry e) m" for m
    using rebuild_accepted [OF assms(2)] assms(3) by (simp add: entry_ok_def)
  have "keeps_index ?d" using assms(3) by (auto simp: keeps_index_def r entry_ok_def intro: index_ok_put)
  then show "\<forall>c\<in>set new. keeps_index (pl_data (ar_payload (fst c)))" using assms(1) by simp
  let ?f = "\<lambda>v. if k' = k then Some (le_ingress_id e, le_window_expires_at e) else v"
  have "admitted k' (rebuild_log new m) = (if new = [] then admitted k' m else ?f (admitted k' m))"
    by (rule rebuild_log_same [where d = ?d]) (use assms(1) in \<open>simp_all add: r admitted_def\<close>)
  then show "admitted k' (rebuild_log new m) = (if k' = k \<and> new \<noteq> [] then Some (le_ingress_id e, le_window_expires_at e) else admitted k' m)"
    by simp
qed

lemma rebuild_transition_log:
  assumes "\<forall>c\<in>set new. fst c = accepted_form (ledger_request l x type members)"
    and "entry_ok k e" "transition_ok t" "transition_event t e = Some (type, members)"
  shows "\<forall>c\<in>set new. keeps_index (pl_data (ar_payload (fst c)))" "admitted k' (rebuild_log new m) = admitted k' m"
proof -
  let ?d = "to_json_string (JObject members)"
  note r = rebuild_transition [OF assms(2-4)]
  have "keeps_index ?d" by (auto simp: keeps_index_def r entry_ok_def intro!: index_ok_modify)
  then show "\<forall>c\<in>set new. keeps_index (pl_data (ar_payload (fst c)))" using assms(1) by simp
  have "admitted k' (rebuild_log new m) = (if new = [] then admitted k' m else id (admitted k' m))"
    by (rule rebuild_log_same [where d = ?d]) (use assms(1) in \<open>simp_all add: r admitted_modify\<close>)
  then show "admitted k' (rebuild_log new m) = admitted k' m" by simp
qed

lemma advanced_keeps [simp]: "le_ingress_id (advanced_entry t e) = le_ingress_id e"
  "le_window_expires_at (advanced_entry t e) = le_window_expires_at e" "le_input_id (advanced_entry t e) = le_input_id e"
  by (simp_all add: advanced_entry_def)

definition event_ids :: "event_core list \<Rightarrow> EventId set" where
  "event_ids cs = (\<lambda>c. ar_event_id (fst c)) ` set cs"

text \<open>The index of a ledger against the log of its store: what is in the index can be rebuilt.\<close>

definition index_in_log :: "EventStoreInputLedger \<Rightarrow> event_core list \<Rightarrow> bool" where
  "index_in_log l cs \<longleftrightarrow> il_has_store l \<and> index_ok (il_index l) \<and>
     (\<forall>c\<in>set (session_log (il_partition l) cs). keeps_index (pl_data (ar_payload (fst c)))) \<and>
     (\<forall>k v. admitted k (il_index l) = Some v \<longrightarrow> admitted k (rebuild_log (session_log (il_partition l) cs) []) = Some v)"

lemma index_in_log_rebuilt:
  "index_in_log l cs \<Longrightarrow> index_in_log (l\<lparr>il_index := rebuild_log (session_log (il_partition l) cs) []\<rparr>) cs"
  by (simp add: index_in_log_def rebuild_log_ok)

lemma index_in_log_drop: "index_in_log l cs \<Longrightarrow> index_in_log (l\<lparr>il_index := drop_expired now (il_index l)\<rparr>) cs"
  by (auto simp: index_in_log_def index_ok_drop dest: admitted_drop_sub)

lemma index_in_log_other:
  "index_in_log l cs \<Longrightarrow> \<forall>c\<in>set new. fst c = accepted_form q \<Longrightarrow> ar_session_id q \<noteq> il_partition l \<Longrightarrow> index_in_log l (cs @ new)"
  using session_log_all [of new "accepted_form q" "il_partition l"] by (simp add: index_in_log_def)

lemma index_in_log_accepted:
  assumes "index_in_log l cs" "map_of (il_index l) k = None" "entry_ok k e" "flat_object (accepted_payload e p)"
    and "\<forall>c\<in>set new. fst c = accepted_form (ledger_request l x type (accepted_payload e p))"
  shows "index_in_log l (cs @ new)" "new \<noteq> [] \<Longrightarrow> index_in_log (l\<lparr>il_index := umap_emplace k e (il_index l)\<rparr>) (cs @ new)"
proof -
  note new = rebuild_accepted_log [OF assms(5,4,3)]
  have sl: "session_log (il_partition l) new = new" using session_log_all [OF assms(5)] by simp
  have k: "admitted k (il_index l) = None" using assms(2) by (simp add: admitted_def)
  show "index_in_log l (cs @ new)" using assms(1) new k by (auto simp: index_in_log_def sl)
  have "admitted k' (umap_emplace k e (il_index l)) = (if k' = k then Some (le_ingress_id e, le_window_expires_at e) else admitted k' (il_index l))" for k'
    using assms(2) by (simp add: admitted_def)
  then show "index_in_log (l\<lparr>il_index := umap_emplace k e (il_index l)\<rparr>) (cs @ new)" if "new \<noteq> []"
    using assms(1,3) new k that by (auto simp: index_in_log_def sl index_ok_emplace)
qed

lemma index_in_log_transition:
  assumes "index_in_log l cs" "map_of (il_index l) k = Some e" "transition_ok t" "transition_event t (advanced_entry t e) = Some (type, members)"
    and "\<forall>c\<in>set new. fst c = accepted_form (ledger_request l x type members)"
  shows "index_in_log l (cs @ new)"
proof -
  have "entry_ok k (advanced_entry t e)" using assms(1,2) by (simp add: index_in_log_def index_ok_def entry_ok_def)
  note new = rebuild_transition_log [OF assms(5) this assms(3,4)]
  have sl: "session_log (il_partition l) new = new" using session_log_all [OF assms(5)] by simp
  show ?thesis using assms(1) new by (auto simp: index_in_log_def sl)
qed

lemma index_in_log_modify:
  assumes "index_in_log l cs" "map_of (il_index l) k = Some e"
  shows "index_in_log (l\<lparr>il_index := umap_modify k (\<lambda>_. advanced_entry t e) (il_index l)\<rparr>) cs"
    "admitted k' (umap_modify k (\<lambda>_. advanced_entry t e) (il_index l)) = admitted k' (il_index l)"
proof -
  show *: "admitted k' (umap_modify k (\<lambda>_. advanced_entry t e) (il_index l)) = admitted k' (il_index l)" for k'
    using assms(2) by (simp add: admitted_def)
  have "entry_ok k (advanced_entry t e)" using assms by (simp add: index_in_log_def index_ok_def entry_ok_def)
  then show "index_in_log (l\<lparr>il_index := umap_modify k (\<lambda>_. advanced_entry t e) (il_index l)\<rparr>) cs"
    using assms(1) by (simp add: index_in_log_def * index_ok_modify)
qed


context event_log
begin

definition ledger_inv :: "EventId set \<Rightarrow> EventStoreInputLedger \<times> 's \<Rightarrow> bool" where
  "ledger_inv U st \<longleftrightarrow> good (snd st) \<and> event_ids (log (snd st)) \<subseteq> U \<and> index_in_log (fst st) (log (snd st))"

lemma append_ids:
  "good s \<Longrightarrow> takes env q \<Longrightarrow> 0 < room s \<Longrightarrow> st_append ops env q s = (s', answer) \<Longrightarrow> event_ids (log s) \<subseteq> U \<Longrightarrow>
     event_ids (log s') \<subseteq> insert (ar_event_id q) U"
  using append_law [of s env q s' answer] by (force simp: event_ids_def)

lemma ledger_append_law:
  assumes "good s" "takes_flat takes l env x" "utf8_ok type" "flat_object members" "0 < room s" "il_has_store l"
    and "x \<notin> event_ids (log s)" "ledger_append ops env x l type members s = (s', r)"
  shows "good s'" "room s \<le> Suc (room s')" "event_ids (log s) \<subseteq> U \<Longrightarrow> event_ids (log s') \<subseteq> insert x U"
    "\<exists>new. log s' = log s @ new \<and> (\<forall>c\<in>set new. fst c = accepted_form (ledger_request l x type members)) \<and> (r = Inr () \<longrightarrow> new \<noteq> [])"
proof -
  let ?q = "ledger_request l x type members"
  have q: "takes env ?q" using assms(2-4) by (simp add: takes_flat_def)
  obtain answer where app: "st_append ops env ?q s = (s', answer)" and r: "r = Inr () \<Longrightarrow> \<exists>receipt. answer = Some (Inr receipt)"
    using assms(6,8) by (auto simp: ledger_append_def split: prod.splits option.splits sum.splits)
  note law = append_law [OF assms(1) q assms(5) app]
  then show "good s'" "room s \<le> Suc (room s')" by simp_all
  show "event_ids (log s') \<subseteq> insert x U" if "event_ids (log s) \<subseteq> U"
    using append_ids [OF assms(1) q assms(5) app that] by simp
  obtain new where new: "log s' = log s @ new" "\<forall>c\<in>set new. fst c = accepted_form ?q" using law by blast
  moreover have "new \<noteq> []" if "r = Inr ()"
  proof
    assume "new = []"
    from r that obtain receipt where "answer = Some (Inr receipt)" by blast
    then have "(accepted_form ?q, rc_session_sequence receipt, rc_task_sequence receipt) \<in> set (log s)"
      using acknowledged_law [OF assms(1) q assms(5)] app new(1) \<open>new = []\<close> by simp
    then show False using assms(7) by (force simp: event_ids_def)
  qed
  ultimately show "\<exists>new. log s' = log s @ new \<and> (\<forall>c\<in>set new. fst c = accepted_form ?q) \<and> (r = Inr () \<longrightarrow> new \<noteq> [])" by blast
qed

text \<open>An admission keeps the invariant and what was admitted; a new admission is in the index.\<close>

lemma admit_step:
  assumes inv: "ledger_inv U (l, s)" and ok: "ledger_op_ok takes l (LAdmit env x now stamp g envelope)" and "x \<notin> U" "0 < room s"
    and step: "ledger_admit ops env x now stamp g envelope (l, s) = ((l', s'), r)"
  shows "ledger_inv (insert x U) (l', s') \<and> room s \<le> Suc (room s') \<and> same_config l l' \<and>
    (\<forall>k i w. admitted k (il_index l) = Some (i, w) \<and> now \<le> w \<longrightarrow> admitted k (il_index l') = Some (i, w)) \<and>
    (\<forall>e. r = Inr e \<longrightarrow> admitted (ie_input_id envelope) (il_index l') = Some (le_ingress_id e, le_window_expires_at e))"
proof -
  let ?k = "ie_input_id envelope"
  let ?l = "if length (il_index l) \<ge> il_max_entries l then l\<lparr>il_index := drop_expired now (il_index l)\<rparr> else l"
  let ?e = "fresh_entry l now stamp g ?k"
  have i: "good s" "event_ids (log s) \<subseteq> U" "index_in_log l (log s)" using inv by (simp_all add: ledger_inv_def)
  then have ix: "index_ok (il_index l)" by (simp add: index_in_log_def)
  have l: "index_in_log ?l (log s)" using i(3) index_in_log_drop by simp
  have kept: "admitted k (il_index ?l) = Some (j, w)" if "admitted k (il_index l) = Some (j, w)" "now \<le> w" for k j w
    using admitted_drop [OF ix that] that by simp
  have inv': "ledger_inv (insert x U) (l, s)" "ledger_inv (insert x U) (?l, s)" using i l by (auto simp: ledger_inv_def)
  have cfg: "same_config l ?l" using same_config_simps by simp
  show ?thesis
  proof (cases "map_of (il_index l) ?k")
    case (Some e)
    then have "l' = l \<and> s' = s \<and> (\<forall>e'. r = Inr e' \<longrightarrow> e' = e\<lparr>le_duplicate := True\<rparr>)"
      using step by (auto simp: ledger_admit_def split: if_splits)
    then show ?thesis using inv'(1) Some same_config_simps(1) by (auto simp: admitted_def)
  next
    case None
    then have none: "map_of (il_index ?l) ?k = None" using drop_expired_find [of "il_index l" now ?k] ix by (simp add: index_ok_def)
    show ?thesis
    proof (cases "?k = [] \<or> length (il_index ?l) \<ge> il_max_entries ?l")
      case True
      then have "(l' = l \<or> l' = ?l) \<and> s' = s \<and> (\<exists>e. r = Inl e)"
        using step None by (auto simp: ledger_admit_def Let_def split: if_splits)
      then show ?thesis using inv' cfg kept same_config_simps(1) by auto
    next
      case False
      have fe: "fresh_entry ?l now stamp g ?k = ?e" "le_input_id ?e = ?k" by (simp_all add: fresh_entry_def)
      obtain s2 r2 where app: "ledger_append ops env x ?l ''InputAccepted'' (accepted_payload ?e (ie_principal envelope)) s = (s2, r2)" by force
      have res: "s' = s2" "r2 = Inr () \<Longrightarrow> l' = ?l\<lparr>il_index := umap_emplace ?k ?e (il_index ?l)\<rparr> \<and> r = Inr ?e"
        "r2 \<noteq> Inr () \<Longrightarrow> l' = ?l \<and> (\<exists>e. r = Inl e)"
        using step None False app fe by (auto simp: ledger_admit_def Let_def split: sum.splits)
      have e: "entry_ok ?k ?e" "flat_object (accepted_payload ?e (ie_principal envelope))"
        using ok by (auto simp: admission_ok_def entry_ok_def fresh_entry_def intro!: accepted_flat [of ?k])
      have "takes_flat takes ?l env x" using ok by (simp add: takes_flat_def ledger_request_def)
      note law = ledger_append_law [OF i(1) this _ e(2) assms(4) _ _ app]
      have pre: "utf8_ok ''InputAccepted''" "il_has_store ?l" "x \<notin> event_ids (log s)"
        using i assms(3) by (auto simp: index_in_log_def)
      obtain new where new: "log s2 = log s @ new"
        "\<forall>c\<in>set new. fst c = accepted_form (ledger_request ?l x ''InputAccepted'' (accepted_payload ?e (ie_principal envelope)))"
        "r2 = Inr () \<Longrightarrow> new \<noteq> []"
        using law(4) [OF pre] by blast
      note log = index_in_log_accepted [OF l none e new(2), folded new(1)]
      have "index_in_log l' (log s')" using log res new(3) by (cases "r2 = Inr ()") auto
      then have "ledger_inv (insert x U) (l', s')" using law(1,3) [OF pre] i(2) res(1) by (simp add: ledger_inv_def)
      moreover have "admitted k (il_index l') = Some v" if "admitted k (il_index ?l) = Some v" for k v
        using that res none by (cases "r2 = Inr ()") (auto simp: admitted_def split: if_splits)
      then have "\<forall>k i w. admitted k (il_index l) = Some (i, w) \<and> now \<le> w \<longrightarrow> admitted k (il_index l') = Some (i, w)"
        using kept by blast
      moreover have "\<forall>e. r = Inr e \<longrightarrow> admitted ?k (il_index l') = Some (le_ingress_id e, le_window_expires_at e)"
        using res none by (cases "r2 = Inr ()") (auto simp: admitted_def)
      moreover have "same_config l l'" using cfg res(2,3) same_config_simps(2,3) by (cases "r2 = Inr ()") blast+
      ultimately show ?thesis using law(2) [OF pre] res(1) by blast
    qed
  qed
qed

end


context event_log
begin

text \<open>A transition keeps the invariant and every admission.\<close>

lemma advance_step:
  assumes inv: "ledger_inv U (l, s)" and ok: "ledger_op_ok takes l (LAdvance env x k t)" and "x \<notin> U" "0 < room s"
    and step: "ledger_advance ops env x k t (l, s) = ((l', s'), r)"
  shows "ledger_inv (insert x U) (l', s') \<and> room s \<le> Suc (room s') \<and> same_config l l' \<and>
    (\<forall>k. admitted k (il_index l') = admitted k (il_index l))"
proof -
  have i: "good s" "event_ids (log s) \<subseteq> U" "index_in_log l (log s)" using inv by (simp_all add: ledger_inv_def)
  have inv': "ledger_inv (insert x U) (l, s)" using i by (auto simp: ledger_inv_def)
  show ?thesis
  proof (cases "l' = l \<and> s' = s")
    case True
    then show ?thesis using inv' same_config_simps(1) by auto
  next
    case False
    then obtain e where e: "map_of (il_index l) k = Some e"
      using step by (auto simp: ledger_advance_def split: option.splits)
    let ?l = "l\<lparr>il_index := umap_modify k (\<lambda>_. advanced_entry t e) (il_index l)\<rparr>"
    note mod = index_in_log_modify [OF i(3) e, where t = t]
    show ?thesis
    proof (cases "transition_event t (advanced_entry t e)")
      case None
      then have "l' = ?l" "s' = s" using step False e by (auto simp: ledger_advance_def Let_def split: if_splits)
      then show ?thesis using i mod same_config_simps(2) by (auto simp: ledger_inv_def)
    next
      case (Some tm)
      obtain type members where tm: "tm = (type, members)" by force
      obtain s2 r2 where app: "ledger_append ops env x ?l type members s = (s2, r2)" by force
      have res: "l' = ?l" "s' = s2" using step False e Some tm app by (auto simp: ledger_advance_def Let_def split: if_splits sum.splits)
      have t: "transition_ok t" "entry_ok k (advanced_entry t e)" "takes_flat takes ?l env x"
        using ok e i(3) by (simp_all add: index_in_log_def index_ok_def entry_ok_def takes_flat_def ledger_request_def)
      note flat = transition_flat [OF t(2,1) Some [unfolded tm]]
      have pre: "il_has_store ?l" "x \<notin> event_ids (log s)" using i assms(3) by (auto simp: index_in_log_def)
      note law = ledger_append_law [OF i(1) t(3) flat(2,1) assms(4) pre app]
      obtain new where new: "log s2 = log s @ new" "\<forall>c\<in>set new. fst c = accepted_form (ledger_request ?l x type members)"
        using law(4) by blast
      then have "\<forall>c\<in>set new. fst c = accepted_form (ledger_request l x type members)" by (simp add: ledger_request_def)
      note log = index_in_log_transition [OF i(3) e t(1) Some [unfolded tm] this]
      have "index_in_log l' (log s')" using index_in_log_modify(1) [OF log e] by (simp add: res new(1))
      then show ?thesis using law(1-3) i(2) res mod(2) same_config_simps(2) by (auto simp: ledger_inv_def)
    qed
  qed
qed

lemma ledger_step:
  assumes inv: "ledger_inv U st" and ok: "ledger_op_ok takes (fst st) op" and fresh: "set (ledger_op_events op) \<inter> U = {}"
    and room: "0 < room (snd st)"
  shows "\<exists>st'. run_ledger_op ops restart op st = Some st' \<and> ledger_inv (set (ledger_op_events op) \<union> U) st' \<and>
    room (snd st) \<le> Suc (room (snd st')) \<and> same_config (fst st) (fst st') \<and>
    (\<forall>k i w. admitted k (il_index (fst st)) = Some (i, w) \<and> (\<forall>now\<in>set (ledger_op_times op). now \<le> w) \<longrightarrow>
      admitted k (il_index (fst st')) = Some (i, w))"
proof (cases op)
  case (LAdmit env x now stamp g envelope)
  obtain l s where st: "st = (l, s)" by force
  obtain l' s' r where step: "ledger_admit ops env x now stamp g envelope (l, s) = ((l', s'), r)" by (metis prod.exhaust)
  show ?thesis using admit_step [OF _ _ _ _ step, of U] inv ok room fresh step by (simp add: LAdmit st)
next
  case (LAdvance env x k t)
  obtain l s where st: "st = (l, s)" by force
  obtain l' s' r where step: "ledger_advance ops env x k t (l, s) = ((l', s'), r)" by (metis prod.exhaust)
  show ?thesis using advance_step [OF _ _ _ _ step, of U] inv ok room fresh step by (simp add: LAdvance st)
next
  case (LReclaim now)
  obtain l s where st: "st = (l, s)" by force
  have l: "index_in_log l (log s)" "index_ok (il_index l)" using inv by (simp_all add: st ledger_inv_def index_in_log_def)
  show ?thesis using inv index_in_log_drop [OF l(1), of now] same_config_simps(2) [of l] admitted_drop [OF l(2), of _ _ _ now]
    by (simp add: LReclaim st ledger_inv_def reclaim_expired_def)
next
  case (LOther env q)
  obtain s' answer where app: "st_append ops env q (snd st) = (s', answer)" by force
  have i: "good (snd st)" "event_ids (log (snd st)) \<subseteq> U" "index_in_log (fst st) (log (snd st))" using inv by (simp_all add: ledger_inv_def)
  have q: "takes env q" "ar_session_id q \<noteq> il_partition (fst st)" using ok by (simp_all add: LOther)
  note law = append_law [OF i(1) q(1) room app] append_ids [OF i(1) q(1) room app i(2)]
  then have "index_in_log (fst st) (log s')" using index_in_log_other [OF i(3) _ q(2)] by auto
  then show ?thesis using law app same_config_simps(1) by (auto simp: LOther ledger_inv_def)
next
  case LRestart
  let ?l = "(fst st)\<lparr>il_index := []\<rparr>"
  have i: "good (snd st)" "event_ids (log (snd st)) \<subseteq> U" "index_in_log (fst st) (log (snd st))" using inv by (simp_all add: ledger_inv_def)
  note re = restart_law [OF i(1)]
  have l: "il_has_store ?l" using i(3) by (simp add: index_in_log_def)
  obtain s' where s': "ledger_rebuild ops (?l, restart (snd st)) =
      Some ((?l\<lparr>il_index := rebuild_log (session_log (il_partition ?l) (log (restart (snd st)))) []\<rparr>, s'), Inr ())"
    "good s'" "log s' = log (restart (snd st))" "room s' = room (restart (snd st))"
    using ledger_rebuild_replay [OF _ _ l] re by blast
  show ?thesis using s' re i index_in_log_rebuilt [OF i(3)] same_config_simps(2)
    by (auto simp: LRestart ledger_inv_def index_in_log_def)
qed

end


section \<open>What a run keeps\<close>

context event_log
begin

lemma run_ledger_keeps:
  assumes "ledger_inv U st" "list_all (ledger_op_ok takes (fst st)) js" "distinct (concat (map ledger_op_events js))"
    and "set (concat (map ledger_op_events js)) \<inter> U = {}" "length js \<le> room (snd st)"
  shows "\<exists>st'. run_ledger ops restart js st = Some st' \<and> ledger_inv (set (concat (map ledger_op_events js)) \<union> U) st' \<and>
    room (snd st) \<le> room (snd st') + length js \<and> same_config (fst st) (fst st') \<and>
    (\<forall>k i w. admitted k (il_index (fst st)) = Some (i, w) \<and> (\<forall>now\<in>set (concat (map ledger_op_times js)). now \<le> w) \<longrightarrow>
      admitted k (il_index (fst st')) = Some (i, w))"
  using assms
proof (induction js arbitrary: U st)
  case Nil
  then show ?case by (simp add: same_config_simps)
next
  case (Cons op js)
  obtain st1 where one: "run_ledger_op ops restart op st = Some st1" "ledger_inv (set (ledger_op_events op) \<union> U) st1"
    "room (snd st) \<le> Suc (room (snd st1))" "same_config (fst st) (fst st1)"
    "\<And>k i w. admitted k (il_index (fst st)) = Some (i, w) \<Longrightarrow> \<forall>now\<in>set (ledger_op_times op). now \<le> w \<Longrightarrow>
      admitted k (il_index (fst st1)) = Some (i, w)"
    using ledger_step [OF Cons.prems(1), of op] Cons.prems(2,4,5) by (auto simp: Int_Un_distrib2)
  have "list_all (ledger_op_ok takes (fst st1)) js" using Cons.prems(2) by (simp add: list_all_iff same_config_ok [OF one(4)])
  then obtain st2 where two: "run_ledger ops restart js st1 = Some st2"
    "ledger_inv (set (concat (map ledger_op_events js)) \<union> (set (ledger_op_events op) \<union> U)) st2"
    "room (snd st1) \<le> room (snd st2) + length js" "same_config (fst st1) (fst st2)"
    "\<And>k i w. admitted k (il_index (fst st1)) = Some (i, w) \<Longrightarrow> \<forall>now\<in>set (concat (map ledger_op_times js)). now \<le> w \<Longrightarrow>
      admitted k (il_index (fst st2)) = Some (i, w)"
    using Cons.IH [OF one(2)] Cons.prems(3,4,5) one(3) by (auto simp: Int_Un_distrib Int_Un_distrib2 Int_commute)
  show ?case
  proof (intro exI conjI)
    show "run_ledger ops restart (op # js) st = Some st2" by (simp add: one(1) two(1))
    show "ledger_inv (set (concat (map ledger_op_events (op # js))) \<union> U) st2" using two(2) by (simp add: Un_left_commute Un_assoc)
    show "room (snd st) \<le> room (snd st2) + length (op # js)" using one(3) two(3) by simp
    show "same_config (fst st) (fst st2)" using same_config_simps(3) one(4) two(4) by blast
    show "\<forall>k i w. admitted k (il_index (fst st)) = Some (i, w) \<and> (\<forall>now\<in>set (concat (map ledger_op_times (op # js))). now \<le> w) \<longrightarrow>
        admitted k (il_index (fst st2)) = Some (i, w)"
      using one(5) two(5) by (simp add: ball_Un)
  qed
qed

text \<open>A new ledger on a store whose log has no event of its partition.\<close>

lemma ledger_inv_new: "good s \<Longrightarrow> log s = [] \<Longrightarrow> ledger_inv {} (new_ledger_index True rt seconds entries p, s)"
  by (simp add: ledger_inv_def index_in_log_def new_ledger_index_def session_log_def event_ids_def admitted_def)

lemma admit_again:
  assumes "admitted k (il_index l) = Some (g, w)" "ie_input_id envelope = k" "k \<noteq> []"
  shows "now \<le> w \<Longrightarrow> \<exists>e. ledger_admit ops env x now stamp i envelope (l, s) = ((l, s), Inr e) \<and> le_duplicate e \<and>
      le_ingress_id e = g \<and> le_window_expires_at e = w"
    and "w < now \<Longrightarrow> ledger_admit ops env x now stamp i envelope (l, s) = ((l, s), Inl (interaction_error ErrorCode.InvalidState InputExpired
      ''the input id was already used and its idempotency window expired'' False))"
  using assms by (auto simp: admitted_def ledger_admit_def)

lemma admitted_once:
  assumes "good s0" "log s0 = []" "length js + length js' < room s0" "run_ledger ops restart js (new_ledger_index True rt seconds entries p, s0) = Some st"
    and "list_all (ledger_op_ok takes (new_ledger_index True rt seconds entries p)) (js @ LAdmit env x now stamp g envelope # js')"
    and "distinct (concat (map ledger_op_events (js @ LAdmit env x now stamp g envelope # js')))"
    and "ledger_admit ops env x now stamp g envelope st = (st', Inr e)"
    and "\<forall>time\<in>set (concat (map ledger_op_times js')). time \<le> le_window_expires_at e"
  shows "\<exists>l s. run_ledger ops restart js' st' = Some (l, s) \<and>
    admitted (ie_input_id envelope) (il_index l) = Some (le_ingress_id e, le_window_expires_at e) \<and> ie_input_id envelope \<noteq> [] \<and>
    index_ok (il_index l)"
proof -
  let ?l0 = "new_ledger_index True rt seconds entries p"
  have st: "ledger_inv (set (concat (map ledger_op_events js))) st" "room s0 \<le> room (snd st) + length js" "same_config ?l0 (fst st)"
    using run_ledger_keeps [OF ledger_inv_new [OF assms(1,2)], of rt seconds entries p js] assms(3-6) by (auto simp: list_all_iff)
  obtain l s l' s' where pairs: "st = (l, s)" "st' = (l', s')" by force
  have ok: "ledger_op_ok takes l (LAdmit env x now stamp g envelope)" "list_all (ledger_op_ok takes l) js'"
    using assms(5) st(3) same_config_ok [of ?l0 l takes] unfolding pairs
    by (simp_all add: list_all_iff del: ledger_op_ok.simps)
  have x: "x \<notin> set (concat (map ledger_op_events js))" using assms(6) by auto
  note law = admit_step [OF st(1) [unfolded pairs] ok(1) x _ assms(7) [unfolded pairs]]
  then have st': "ledger_inv (insert x (set (concat (map ledger_op_events js)))) st'" "room s0 \<le> Suc (room s' + length js)" "same_config l l'"
    "admitted (ie_input_id envelope) (il_index l') = Some (le_ingress_id e, le_window_expires_at e)"
    using assms(3) st(2) by (simp_all add: pairs)
  have "list_all (ledger_op_ok takes (fst st')) js'" using ok(2) same_config_ok [OF st'(3), of takes] unfolding pairs fst_conv list_all_iff by blast
  then obtain st'' where "run_ledger ops restart js' st' = Some st''" "index_ok (il_index (fst st''))"
    "admitted (ie_input_id envelope) (il_index (fst st'')) = Some (le_ingress_id e, le_window_expires_at e)"
    using run_ledger_keeps [OF st'(1), of js'] st'(2,4) assms(3,6,8) by (auto simp: pairs Int_commute ledger_inv_def index_in_log_def)
  moreover have "ie_input_id envelope \<noteq> []" using assms(7) by (auto simp: pairs ledger_admit_def)
  ultimately show ?thesis by (metis prod.collapse)
qed

end


text \<open>What the event of a transition carries of it: a routing its session, task and rationale, an answer
  its summary, a settlement its task, a rejection its code and reason.\<close>

definition carried :: "LedgerTransition \<Rightarrow> LedgerEntry \<Rightarrow> bool" where
  "carried t e \<longleftrightarrow> le_stage e = lt_stage t \<and>
     (case lt_stage t of
        InputStage.Routed \<Rightarrow> le_note e = lt_note t \<and> (lt_session_id t \<noteq> None \<longrightarrow> le_session_id e = lt_session_id t) \<and>
          (lt_task_id t \<noteq> None \<longrightarrow> le_task_id e = lt_task_id t)
      | InputStage.Answered \<Rightarrow> le_note e = lt_note t
      | InputStage.TaskSettled \<Rightarrow> lt_task_id t \<noteq> None \<longrightarrow> le_task_id e = lt_task_id t
      | InputStage.Rejected \<Rightarrow> (\<exists>err. le_error e = Some err \<and>
          err_safe_message err = (case lt_error t of Some reason \<Rightarrow> err_safe_message reason | None \<Rightarrow> lt_note t) \<and>
          err_domain_code err = sint (word_of_int (case lt_error t of Some reason \<Rightarrow> err_domain_code reason | None \<Rightarrow> interaction_code Unknown) :: 32 word))
      | InputStage.Accepted \<Rightarrow> True)"

lemma replayed_carries:
  assumes "transition_ok t" "transition_event t e = Some (type, members)" "lt_stage t \<noteq> InputStage.Accepted"
  shows "carried t (replayed_transition (JObject members) (Some (stage_event t)) e0)"
proof -
  have "lt_session_id t = Some i \<Longrightarrow> id128_parse (id128_to_string i) = Some i" "lt_task_id t = Some i \<Longrightarrow> id128_parse (id128_to_string i) = Some i" for i
    using assms(1) id_text.dec_enc by (simp_all add: transition_ok_def)
  then show ?thesis using assms(2,3)
    by (cases "lt_stage t") (auto simp: carried_def replayed_transition_def stage_event_def transition_event_def rejection_error_def or_else_def opt_id_text_def
        routed_payload_def answered_payload_def settled_payload_def rejected_payload_def payload_head_def member_id_def member_text_def
        member_integer_def json_find_def)
qed

lemma rebuilt_carries:
  assumes "\<forall>c\<in>set new. fst c = accepted_form (ledger_request l x type members)" "new \<noteq> []"
    and "entry_ok k e" "transition_ok t" "transition_event t e = Some (type, members)" "lt_stage t \<noteq> InputStage.Accepted"
    and "map_of m k = Some e0"
  shows "\<exists>e'. map_of (rebuild_log new m) k = Some e' \<and> carried t e' \<and> le_ingress_id e' = le_ingress_id e0 \<and>
    le_window_expires_at e' = le_window_expires_at e0"
proof -
  let ?f = "replayed_transition (JObject members) (Some (stage_event t))"
  have r: "rebuild_event m (to_json_string (JObject members)) = umap_modify k ?f m" for m by (rule rebuild_transition [OF assms(3-5)])
  have "\<exists>e'. map_of (rebuild_log new m) k = Some e' \<and> (carried t e0 \<or> new \<noteq> [] \<longrightarrow> carried t e') \<and>
      le_ingress_id e' = le_ingress_id e0 \<and> le_window_expires_at e' = le_window_expires_at e0" using assms(1,7)
  proof (induction new arbitrary: m e0)
    case (Cons c new)
    then show ?case using Cons.IH [of "umap_modify k ?f m" "?f e0"] replayed_carries [OF assms(4-6)] by (simp add: r)
  qed simp
  then show ?thesis using assms(2) by auto
qed

context event_log
begin

text \<open>An acknowledged transition that writes its event is in the index of every later process.\<close>

lemma advance_survives:
  assumes inv: "ledger_inv U (l, s)" and ok: "ledger_op_ok takes l (LAdvance env x k t)" and "x \<notin> U" "0 < room s"
    and step: "ledger_advance ops env x k t (l, s) = ((l', s'), Inr e)"
    and "map_of (il_index l) k = Some e0" "stage_rank (le_stage e0) \<le> stage_rank (lt_stage t)" "le_stage e0 \<noteq> InputStage.Rejected"
    and "lt_stage t \<noteq> InputStage.Accepted"
  shows "\<exists>l'' s'' e'. ledger_rebuild ops (l'\<lparr>il_index := []\<rparr>, restart s') = Some ((l'', s''), Inr ()) \<and>
    ledger_lookup k l'' = Inr e' \<and> carried t e' \<and> le_ingress_id e' = le_ingress_id e \<and> le_window_expires_at e' = le_window_expires_at e"
proof -
  have i: "good s" "event_ids (log s) \<subseteq> U" "index_in_log l (log s)" using inv by (simp_all add: ledger_inv_def)
  let ?e = "advanced_entry t e0"
  let ?l = "l\<lparr>il_index := umap_modify k (\<lambda>_. ?e) (il_index l)\<rparr>"
  obtain type members where tm: "transition_event t ?e = Some (type, members)"
    using assms(9) by (cases "lt_stage t") (auto simp: transition_event_def)
  have app: "ledger_append ops env x ?l type members s = (s', Inr ())" and res: "l' = ?l" "e = ?e"
    using step assms(6-8) tm by (auto simp: ledger_advance_def Let_def split: sum.splits prod.splits)
  have t: "transition_ok t" "entry_ok k ?e" "takes_flat takes ?l env x"
    using ok assms(6) i(3) by (simp_all add: index_in_log_def index_ok_def entry_ok_def takes_flat_def ledger_request_def)
  note flat = transition_flat [OF t(2,1) tm]
  have pre: "il_has_store ?l" "x \<notin> event_ids (log s)" using i assms(3) by (auto simp: index_in_log_def)
  obtain new where new: "log s' = log s @ new" "\<forall>c\<in>set new. fst c = accepted_form (ledger_request ?l x type members)" "new \<noteq> []" "good s'"
    using ledger_append_law(1,4) [OF i(1) t(3) flat(2,1) assms(4) pre app] by blast
  have sl: "session_log (il_partition l) new = new" using session_log_all [OF new(2)] by simp
  let ?m = "rebuild_log (session_log (il_partition l) (log s)) []"
  have "admitted k ?m = Some (le_ingress_id e0, le_window_expires_at e0)"
    using i(3) assms(6) by (simp add: index_in_log_def admitted_def)
  then obtain e1 where e1: "map_of ?m k = Some e1" "le_ingress_id e1 = le_ingress_id e0" "le_window_expires_at e1 = le_window_expires_at e0"
    by (auto simp: admitted_def)
  obtain e' where e': "map_of (rebuild_log new ?m) k = Some e'" "carried t e'" "le_ingress_id e' = le_ingress_id e1"
    "le_window_expires_at e' = le_window_expires_at e1"
    using rebuilt_carries [OF new(2,3) t(2,1) tm assms(9) e1(1)] by blast
  have has: "il_has_store (l'\<lparr>il_index := []\<rparr>)" using pre(1) by (simp add: res)
  obtain s'' where "ledger_rebuild ops (l'\<lparr>il_index := []\<rparr>, restart s') = Some ((l'\<lparr>il_index := rebuild_log new ?m\<rparr>, s''), Inr ())"
    using ledger_rebuild_replay [OF _ _ has, of "restart s'"] restart_law [OF new(4)] by (auto simp: new(1) sl res)
  then show ?thesis using e' e1(2,3) by (auto simp: ledger_lookup_def res)
qed

end


end
