(* ===== verification/Ledger_Properties.thy ===== *)
theory Ledger_Properties
  imports Ledger_Contract Journal_Properties
begin

text \<open>
  The properties of the input ledger over the stores of the repository: an input is admitted once,
  the index is rebuilt from the log, an acknowledged transition survives, and when a stage goes
  back.
\<close>

section \<open>The file store\<close>

definition file_env_ok :: "WriteAnswer \<times> Timestamp \<Rightarrow> EventId \<Rightarrow> bool" where
  "file_env_ok env x \<longleftrightarrow> time_ok (snd env) \<and> id128_ok x \<and> \<not> is_nil x"

fun file_ledger_op_ok :: "EventStoreInputLedger \<Rightarrow> (WriteAnswer \<times> Timestamp) ledger_op \<Rightarrow> bool" where
  "file_ledger_op_ok l (LAdmit env x now stamp ingress envelope) \<longleftrightarrow> admission_ok l now stamp ingress envelope \<and> file_env_ok env x"
| "file_ledger_op_ok l (LAdvance env x k t) \<longleftrightarrow> transition_ok t \<and> file_env_ok env x"
| "file_ledger_op_ok l (LReclaim now) \<longleftrightarrow> True"
| "file_ledger_op_ok l (LOther env q) \<longleftrightarrow> ar_session_id q \<noteq> il_partition l \<and> append_ok (snd env) q"
| "file_ledger_op_ok l LRestart \<longleftrightarrow> True"

definition ledger_ids_ok :: "EventStoreInputLedger \<Rightarrow> bool" where
  "ledger_ids_ok l \<longleftrightarrow> list_all (\<lambda>i. id128_ok i \<and> \<not> is_nil i) [il_runtime l, il_partition l]"

lemma file_takes_flat: "ledger_ids_ok l \<Longrightarrow> file_env_ok env x \<Longrightarrow> takes_flat file_takes l env x"
  by (cases env) (simp add: takes_flat_def file_env_ok_def append_ok_def request_ok_def ledger_request_def ledger_ids_ok_def flat_object_written(1))

lemma file_ledger_op: "ledger_ids_ok l \<Longrightarrow> file_ledger_op_ok l op \<Longrightarrow> ledger_op_ok file_takes l op"
  by (cases op) (auto simp: file_takes_flat)

lemma file_ledger_ops: "ledger_ids_ok l \<Longrightarrow> list_all (file_ledger_op_ok l) js \<Longrightarrow> list_all (ledger_op_ok file_takes l) js"
  by (auto simp: list_all_iff file_ledger_op)

section \<open>Witness data\<close>

definition demo_envelope :: InputEnvelope where
  "demo_envelope = \<lparr>ie_principal = \<lparr>pc_tenant_id = demo_id 40, pc_user_id = demo_id 41, pc_host_id = demo_id 42,
     pc_auth_strength = AuthenticationStrength.Anonymous, pc_authenticated_at = 0, pc_grants = [], pc_identity_version = 1\<rparr>,
     ie_input_id = ''msg-1'', ie_content = ''book a table'', ie_attachment_refs = [], ie_reply_to = None\<rparr>"

abbreviation demo_ledger :: EventStoreInputLedger where
  "demo_ledger \<equiv> new_ledger_index True (demo_id 2) 86400 16 None"

lemma demo_ledger_ok: "ledger_ids_ok demo_ledger" "file_env_ok (answer, timestamp_default) (demo_id 30)"
  "file_env_ok (answer, timestamp_default) (demo_id 31)" "admission_ok demo_ledger 5 timestamp_default (demo_id 50) demo_envelope"
proof -
  have "list_all (\<lambda>i. id128_ok i \<and> \<not> is_nil i) ([interaction_ledger_partition] @ map demo_id [2, 30, 31, 40, 41, 50])" by code_simp
  moreover have "text_ok ''msg-1''" by (simp add: text_ok_def text_limit_def)
  ultimately show "ledger_ids_ok demo_ledger" "file_env_ok (answer, timestamp_default) (demo_id 30)"
    "file_env_ok (answer, timestamp_default) (demo_id 31)" "admission_ok demo_ledger 5 timestamp_default (demo_id 50) demo_envelope"
    by (simp_all add: ledger_ids_ok_def file_env_ok_def admission_ok_def new_ledger_index_def demo_envelope_def timestamp_default_def time_ok_def
        int64_max_def)
qed

text \<open>A write that succeeds is acknowledged.\<close>

lemma ledger_append_written:
  assumes "file_rel n recs s" "\<not> (fs_loaded s \<and> fs_read_only s)" "length recs < n" "n < 2 ^ 64"
    and "ledger_ids_ok l" "il_has_store l" "file_env_ok (Written, now) x" "x \<notin> eid ` set recs" "utf8_ok type" "flat_object members"
  obtains s' where "ledger_append file_ops (Written, now) x l type members s = (s', Inr ())"
    "file_inv n (recs @ [stored_record recs now (ledger_request l x type members)]) s'"
proof -
  let ?q = "ledger_request l x type members"
  have ok: "append_ok now ?q" using file_takes_flat [OF assms(5,7)] assms(9,10) by (simp add: takes_flat_def)
  have req: "ar_required ?q = ProcessCrash" by (simp add: ledger_request_def)
  obtain s' r where "file_append file_works Written now ?q s = (s', Inr r)" "file_inv n (recs @ [stored_record recs now ?q]) s'"
    by (rule file_append_writes [OF assms(1,2) ok req assms(3,4)]) (use assms(8) in simp)
  then show thesis using assms(6) by (intro that) (simp_all add: ledger_append_def file_ops_def)
qed

abbreviation demo_entry :: LedgerEntry where
  "demo_entry \<equiv> fresh_entry demo_ledger 5 timestamp_default (demo_id 50) ''msg-1''"

lemma demo_admitted:
  obtains s where "ledger_admit file_ops (Written, timestamp_default) (demo_id 30) 5 timestamp_default (demo_id 50) demo_envelope
      (demo_ledger, open_file_store 5 None) = ((demo_ledger\<lparr>il_index := [(''msg-1'', demo_entry)]\<rparr>, s), Inr demo_entry)"
    "\<exists>r. file_inv 5 [r] s \<and> eid r = demo_id 30"
proof -
  have e: "entry_ok ''msg-1'' demo_entry" "flat_object (accepted_payload demo_entry (ie_principal demo_envelope))"
    using demo_ledger_ok(4) by (auto simp: admission_ok_def entry_ok_def fresh_entry_def demo_envelope_def intro!: accepted_flat [of "''msg-1''"])
  have l: "il_has_store demo_ledger" by (simp add: new_ledger_index_def)
  have pre: "\<not> (fs_loaded (open_file_store 5 None) \<and> fs_read_only (open_file_store 5 None))" "length [] < (5 :: nat)" "(5 :: nat) < 2 ^ 64"
    "demo_id 30 \<notin> eid ` set []" "utf8_ok ''InputAccepted''"
    by (simp_all add: open_file_store_def)
  obtain s' where s': "ledger_append file_ops (Written, timestamp_default) (demo_id 30) demo_ledger ''InputAccepted''
      (accepted_payload demo_entry (ie_principal demo_envelope)) (open_file_store 5 None) = (s', Inr ())"
    "file_inv 5 ([] @ [stored_record [] timestamp_default (ledger_request demo_ledger (demo_id 30) ''InputAccepted''
      (accepted_payload demo_entry (ie_principal demo_envelope)))]) s'"
    by (rule ledger_append_written [OF file_rel_open [OF holds_new] pre(1-3) demo_ledger_ok(1) l demo_ledger_ok(2) pre(4,5) e(2)])
  have "\<exists>r. file_inv 5 [r] s' \<and> eid r = demo_id 30" using s'(2) by (force simp: stored_record_def)
  then show thesis using that [of s'] s'(1)
    by (simp add: ledger_admit_def new_ledger_index_def demo_envelope_def Let_def fresh_entry_def umap_emplace_def)
qed

section \<open>Properties\<close>

text \<open>C7: An input is admitted once in its window. Take any run of ledger operations, appends of other
  components, writes that stop at any byte and restarts on a new file store whose capacity is not
  exceeded, with texts of well-formed UTF-8 within the bound, identifiers of 16 bytes and fresh
  event ids. Once the admission of an input was acknowledged, and as long as no operation of the run reads
  a clock beyond the end of its window, the run returns, restarts included, and a submission of the same
  input id inside the window is answered as a duplicate with the ingress id and the window of the first one; one
  after the window is refused as expired; both leave the ledger and the store as they were. Beyond the window the
  guarantee ends: a sweep that reads a later clock, also the one of an admission into a full
  ledger, forgets the record.\<close>

theorem ledger_admits_once:
  assumes "n < 2 ^ 64" "length js + length js' < n" "ledger_ids_ok (new_ledger_index True rt seconds entries p)"
    and "list_all (file_ledger_op_ok (new_ledger_index True rt seconds entries p)) (js @ LAdmit env x now stamp g envelope # js')"
    and "distinct (concat (map ledger_op_events (js @ LAdmit env x now stamp g envelope # js')))"
    and "run_ledger file_ops reopen js (new_ledger_index True rt seconds entries p, open_file_store n None) = Some st"
    and "ledger_admit file_ops env x now stamp g envelope st = (st', Inr e)"
    and "\<forall>time\<in>set (concat (map ledger_op_times js')). time \<le> le_window_expires_at e" "ie_input_id again = ie_input_id envelope"
  shows "\<exists>l s. run_ledger file_ops reopen js' st' = Some (l, s) \<and>
    (now' \<le> le_window_expires_at e \<longrightarrow> (\<exists>e'. ledger_admit file_ops env' x' now' stamp' g' again (l, s) = ((l, s), Inr e') \<and>
      le_duplicate e' \<and> le_ingress_id e' = le_ingress_id e \<and> le_window_expires_at e' = le_window_expires_at e)) \<and>
    (le_window_expires_at e < now' \<longrightarrow> (\<exists>err. ledger_admit file_ops env' x' now' stamp' g' again (l, s) = ((l, s), Inl err) \<and>
      err_domain_code err = interaction_code InputExpired)) \<and>
    (le_window_expires_at e < now' \<longrightarrow> ledger_lookup (ie_input_id again) (fst (reclaim_expired now' l)) = Inl not_recorded)"
proof -
  note ok = file_ledger_ops [OF assms(3,4)]
  obtain l s where ls: "run_ledger file_ops reopen js' st' = Some (l, s)"
    "admitted (ie_input_id envelope) (il_index l) = Some (le_ingress_id e, le_window_expires_at e)" "ie_input_id envelope \<noteq> []"
    "index_ok (il_index l)"
    using file_store.admitted_once [OF new_store_good [OF assms(1)] file_log_new _ assms(6) ok assms(5,7,8)] assms(2)
    by (auto simp: file_log_new)
  note again = file_store.admit_again [OF ls(2) assms(9) ls(3)]
  have "ledger_lookup (ie_input_id again) (fst (reclaim_expired now' l)) = Inl not_recorded" if "le_window_expires_at e < now'"
    using ls(2,4) that assms(9)
    by (auto simp: ledger_lookup_def reclaim_expired_def admitted_def index_ok_def drop_expired_find)
  then show ?thesis using ls(1) again [where now = now' and env = env' and x = x' and stamp = stamp' and i = g' and s = s]
    by (auto simp: interaction_error_def)
qed

theorem ledger_admits_once_witness:
  "\<exists>st' e l s e'. ledger_admit file_ops (Written, timestamp_default) (demo_id 30) 5 timestamp_default (demo_id 50) demo_envelope
      (demo_ledger, open_file_store 5 None) = (st', Inr e) \<and> run_ledger file_ops reopen [LRestart] st' = Some (l, s) \<and>
    ledger_admit file_ops (Written, timestamp_default) (demo_id 31) 7 timestamp_default (demo_id 51) demo_envelope (l, s) = ((l, s), Inr e') \<and>
    le_duplicate e' \<and> le_ingress_id e' = le_ingress_id e"
proof -
  obtain s where run: "ledger_admit file_ops (Written, timestamp_default) (demo_id 30) 5 timestamp_default (demo_id 50) demo_envelope
      (demo_ledger, open_file_store 5 None) = ((demo_ledger\<lparr>il_index := [(''msg-1'', demo_entry)]\<rparr>, s), Inr demo_entry)"
    by (rule demo_admitted)
  have "7 \<le> le_window_expires_at demo_entry" by (simp add: fresh_entry_def new_ledger_index_def)
  moreover have "list_all (file_ledger_op_ok demo_ledger) ([] @ LAdmit (Written, timestamp_default) (demo_id 30) 5 timestamp_default
      (demo_id 50) demo_envelope # [LRestart])"
    using demo_ledger_ok by simp
  ultimately show ?thesis
    using ledger_admits_once [OF _ _ demo_ledger_ok(1) _ _ _ run, where n = 5 and js = "[]" and js' = "[LRestart]" and again = demo_envelope and now' = 7] run by force
qed


text \<open>Rebuilding the index returns and is replay. On the store that a restart reopens after any run
  of the file store with torn writes, the rebuild reads the partition page by page and ends with
  the index that the payloads of its events give one after the other; the rest of the ledger is
  unchanged.\<close>

theorem ledger_rebuild_is_replay:
  assumes "n < 2 ^ 64" "length ops \<le> n" "list_all file_op_ok ops" "run_file ops (open_file_store n None) = (s, acks)"
    and "file_recover file_works True (reopen s) = (s', report)" "il_has_store l"
  shows "\<exists>s''. ledger_rebuild file_ops (l, reopen s) = Some ((l\<lparr>il_index := fold (\<lambda>e m. rebuild_event m (pl_data (ev_payload e)))
      (session_events (fs_memory s') (il_partition l)) []\<rparr>, s''), Inr ())"
proof -
  obtain recs where r: "file_rel n recs (reopen s)" using run_then_restart [OF assms(1-4)] by metis
  have "reopen (reopen s) = reopen s" by (simp add: reopen_def open_file_store_def new_store_def)
  then have log: "session_log k (file_log (reopen s)) = map event_core (session_events (fs_memory s') k)" for k
    using assms(5) by (simp add: file_log_def session_log_memory)
  have good: "n < 2 ^ 64 \<and> (\<exists>recs. file_rel n recs (reopen s))" "\<not> (fs_loaded (reopen s) \<and> fs_read_only (reopen s))"
    using assms(1) r by (auto simp: reopen_def)
  show ?thesis using file_store.ledger_rebuild_replay [OF good assms(6)] by (auto simp: log fold_page)
qed

theorem ledger_rebuild_is_replay_witness:
  "\<exists>s acks s' report s''. run_file [AppendOp Written timestamp_default demo_append] (open_file_store 5 None) = (s, acks) \<and>
    file_recover file_works True (reopen s) = (s', report) \<and>
    ledger_rebuild file_ops (demo_ledger, reopen s) = Some ((demo_ledger\<lparr>il_index := fold (\<lambda>e m. rebuild_event m (pl_data (ev_payload e)))
      (session_events (fs_memory s') (il_partition demo_ledger)) []\<rparr>, s''), Inr ())"
proof -
  obtain s acks where run: "run_file [AppendOp Written timestamp_default demo_append] (open_file_store 5 None) = (s, acks)" by force
  obtain s' report where rec: "file_recover file_works True (reopen s) = (s', report)" by force
  have "il_has_store demo_ledger" by (simp add: new_ledger_index_def)
  from ledger_rebuild_is_replay [OF _ _ _ run rec this] show ?thesis using run rec demo_append_ok(2) by auto
qed



definition demo_route :: LedgerTransition where
  "demo_route = transition_default\<lparr>lt_stage := InputStage.Routed, lt_session_id := Some (demo_id 60), lt_task_id := Some (demo_id 61),
     lt_intent := Some RouteIntent.NewTask, lt_note := ''starts a new task''\<rparr>"

lemma demo_route_ok: "transition_ok demo_route"
proof -
  have "id128_ok (demo_id 60)" "id128_ok (demo_id 61)" "utf8_ok ''starts a new task''" by code_simp+
  then show ?thesis by (simp add: demo_route_def transition_default_def transition_ok_def text_ok_def text_limit_def)
qed


text \<open>The stage of an input. Whatever the store answers, a transition without a clarification never
  moves the record of an input to an earlier stage; a clarification moves it back to accepted from
  every stage, a rejection and a settlement included.\<close>

theorem ledger_stage_moves:
  assumes "map_of (il_index l) k = Some e" "ledger_advance ops env x k t (l, s) = ((l', s'), r)"
  shows "\<exists>e'. map_of (il_index l') k = Some e' \<and>
    (lt_clarification t = None \<longrightarrow> stage_rank (le_stage e) \<le> stage_rank (le_stage e')) \<and>
    (lt_clarification t \<noteq> None \<and> lt_stage t = InputStage.Accepted \<longrightarrow> le_stage e' = InputStage.Accepted)"
proof -
  have "l' = l \<and> (lt_clarification t = None \<or> lt_stage t = InputStage.Rejected) \<or>
      map_of (il_index l') k = Some (advanced_entry t e) \<and>
      (lt_clarification t = None \<longrightarrow> lt_stage t = InputStage.Rejected \<or> stage_rank (le_stage e) \<le> stage_rank (lt_stage t))"
    using assms by (auto simp: ledger_advance_def Let_def split: if_splits option.splits prod.splits sum.splits)
  moreover have "stage_rank (le_stage e) \<le> stage_rank InputStage.Rejected" by (simp add: stage_rank_def split: InputStage.splits)
  ultimately show ?thesis using assms(1) by (auto simp: advanced_entry_def)
qed

theorem ledger_stage_moves_witness:
  "\<exists>l' s' r e'. ledger_advance memory_ops timestamp_default (demo_id 31) ''msg-1'' (transition_default\<lparr>lt_clarification := Some ''which one?''\<rparr>)
      (demo_ledger\<lparr>il_index := [(''msg-1'', demo_entry\<lparr>le_stage := InputStage.Rejected\<rparr>)]\<rparr>, new_store 5) = ((l', s'), r) \<and>
    map_of (il_index l') ''msg-1'' = Some e' \<and> le_stage e' = InputStage.Accepted"
proof -
  let ?l = "demo_ledger\<lparr>il_index := [(''msg-1'', demo_entry\<lparr>le_stage := InputStage.Rejected\<rparr>)]\<rparr>"
  let ?t = "transition_default\<lparr>lt_clarification := Some ''which one?''\<rparr>"
  obtain l' s' r where run: "ledger_advance memory_ops timestamp_default (demo_id 31) ''msg-1'' ?t (?l, new_store 5) = ((l', s'), r)"
    by (metis prod.exhaust)
  have "map_of (il_index ?l) ''msg-1'' = Some (demo_entry\<lparr>le_stage := InputStage.Rejected\<rparr>)" by simp
  from ledger_stage_moves [OF this run] run show ?thesis by (simp add: transition_default_def)
qed

end
