(* ===== verification/Interaction_Routing.thy ===== *)
theory Interaction_Routing
  imports Interaction_Ledger
begin

text \<open>
  The routing decision of the interaction coordinator,
  \<open>src/interaction/interaction_routing.cpp\<close>: the permission check and \<open>decide_route\<close> over the
  projection of one principal's tasks. Clock readings are arguments.
\<close>

section \<open>Records\<close>

record PrincipalKey =
  pk_tenant_id :: Id128
  pk_user_id :: Id128

record PrincipalTaskEntry =
  pt_task_id :: TaskId
  pt_session_id :: SessionId
  pt_state :: TaskState
  pt_goal :: string
  pt_input_ids :: "string list"
  pt_constraints :: "string list"
  pt_context_block :: string
  pt_resumed_from :: "TaskId option"

record PrincipalState =
  ps_sessions :: "SessionId list"
  ps_tasks :: "PrincipalTaskEntry list"

record RouteSuggestion =
  rs_intent :: RouteIntent
  rs_task_id :: "TaskId option"
  rs_session_id :: "SessionId option"
  rs_rationale :: string
  rs_clarification :: "string option"

record RoutingDecision =
  rdec_intent :: RouteIntent
  rdec_session_id :: "SessionId option"
  rdec_task_id :: "TaskId option"
  rdec_rationale :: string
  rdec_clarification :: "string option"

record CoordinatorConfig =
  cc_required_capability :: string
  cc_required_identity_version :: "u64 option"
  cc_idempotency_window :: int
  cc_max_ledger_entries :: nat
  cc_max_tasks_per_principal :: nat
  cc_max_sessions_per_principal :: nat
  cc_max_sinks :: nat
  cc_max_pending_deliveries :: nat

definition kMaxConstraintsPerTask :: nat where "kMaxConstraintsPerTask = 8"
definition kMaxConstraintBytes :: nat where "kMaxConstraintBytes = 1024"
definition kMaxGoalBytes :: nat where "kMaxGoalBytes = 4096"
definition kMaxClarificationBytes :: nat where "kMaxClarificationBytes = 1024"

section \<open>The decision\<close>

definition bound_text :: "string \<Rightarrow> nat \<Rightarrow> string" where
  "bound_text t limit = (if length t \<le> limit then t else take limit t)"

definition grant_permits :: "CoordinatorConfig \<Rightarrow> int \<Rightarrow> CapabilityGrant \<Rightarrow> bool" where
  "grant_permits config now g \<longleftrightarrow> cg_capability g = cc_required_capability config \<and> (cg_expires_at g = 0 \<or> cg_expires_at g > now)"

definition permitted :: "CoordinatorConfig \<Rightarrow> int \<Rightarrow> PrincipalContext \<Rightarrow> bool" where
  "permitted config now p =
     (if is_nil (pc_tenant_id p) \<or> is_nil (pc_user_id p) then False
      else if (case cc_required_identity_version config of Some v \<Rightarrow> pc_identity_version p \<noteq> v | None \<Rightarrow> False) then False
      else list_ex (grant_permits config now) (pc_grants p))"

definition find_task :: "PrincipalState \<Rightarrow> TaskId \<Rightarrow> PrincipalTaskEntry option" where
  "find_task state tid = List.find (\<lambda>t. pt_task_id t = tid) (ps_tasks state)"

definition task_of_input :: "PrincipalState \<Rightarrow> string \<Rightarrow> PrincipalTaskEntry option" where
  "task_of_input state input_id = List.find (\<lambda>t. List.member (pt_input_ids t) input_id) (ps_tasks state)"

definition live_tasks :: "PrincipalState \<Rightarrow> PrincipalTaskEntry list" where
  "live_tasks state = filter (\<lambda>t. \<not> is_terminal_task (pt_state t)) (ps_tasks state)"

definition plain_decision :: "RouteIntent \<Rightarrow> string \<Rightarrow> RoutingDecision" where
  "plain_decision intent rationale = \<lparr>rdec_intent = intent, rdec_session_id = None, rdec_task_id = None,
     rdec_rationale = rationale, rdec_clarification = None\<rparr>"

definition task_decision :: "RouteIntent \<Rightarrow> PrincipalTaskEntry \<Rightarrow> string \<Rightarrow> RoutingDecision" where
  "task_decision intent t rationale = (plain_decision intent rationale)\<lparr>rdec_session_id := Some (pt_session_id t),
     rdec_task_id := Some (pt_task_id t)\<rparr>"

definition or_default :: "string \<Rightarrow> string \<Rightarrow> string" where
  "or_default t fallback = (if t = [] then fallback else t)"

definition which_item :: string where
  "which_item = ''Which item should this apply to?''"

text \<open>The decision that a suggestion gives, if it survives its validation.\<close>

definition suggested_route :: "PrincipalState \<Rightarrow> RouteSuggestion \<Rightarrow> RoutingDecision option" where
  "suggested_route state proposal =
     (let target = Option.bind (rs_task_id proposal) (find_task state) in
      case rs_intent proposal of
        RouteIntent.ResumeTask \<Rightarrow>
          (case target of
             None \<Rightarrow> None
           | Some t \<Rightarrow> if \<not> is_terminal_task (pt_state t) then None
               else Some (task_decision RouteIntent.ResumeTask t (or_default (rs_rationale proposal)
                 ''the suggested task is settled; the input resumes it through a new task'')))
      | RouteIntent.NewTask \<Rightarrow> Some (plain_decision RouteIntent.NewTask (or_default (rs_rationale proposal) ''the input starts a new task''))
      | RouteIntent.Clarify \<Rightarrow>
          Some ((plain_decision RouteIntent.Clarify (or_default (rs_rationale proposal) ''the input reference is ambiguous''))
            \<lparr>rdec_clarification := Some (case rs_clarification proposal of Some c \<Rightarrow> c | None \<Rightarrow> which_item)\<rparr>)
      | RouteIntent.Reject \<Rightarrow> Some (plain_decision RouteIntent.Reject (or_default (rs_rationale proposal) ''the input was rejected by the host''))
      | intent \<Rightarrow>
          (case target of
             None \<Rightarrow> None
           | Some t \<Rightarrow>
               if is_terminal_task (pt_state t)
               then if intent = RouteIntent.ContinueCurrent \<or> intent = RouteIntent.SupplementTask
                    then Some (task_decision RouteIntent.ResumeTask t ''the suggested task is terminal; the input resumes it through a new task'')
                    else None
               else Some (task_decision intent t (or_default (rs_rationale proposal) ''the suggested target is live and owned by the principal''))))"

definition reply_route :: "PrincipalState \<Rightarrow> string \<Rightarrow> RoutingDecision option" where
  "reply_route state reference =
     (case task_of_input state reference of
        None \<Rightarrow> None
      | Some t \<Rightarrow> Some (if \<not> is_terminal_task (pt_state t)
          then task_decision RouteIntent.ContinueCurrent t ''the input replies to a known live task''
          else task_decision RouteIntent.ResumeTask t ''the input replies to a settled task; it resumes it through a new task''))"

definition clarify_question :: "PrincipalTaskEntry list \<Rightarrow> string" where
  "clarify_question live = bound_text (which_item @ concat (map (\<lambda>t. CHR 0x0A # ''- '' @ bound_text (pt_goal t) 120) live))
     kMaxClarificationBytes"

definition live_route :: "PrincipalState \<Rightarrow> RoutingDecision" where
  "live_route state =
     (case live_tasks state of
        [] \<Rightarrow> plain_decision RouteIntent.NewTask ''the principal has no live task; the input starts a new one''
      | [t] \<Rightarrow> task_decision RouteIntent.ContinueCurrent t ''the principal has exactly one live task; the input continues it''
      | live \<Rightarrow> (plain_decision RouteIntent.Clarify ''the principal has several live tasks; the reference is ambiguous'')
          \<lparr>rdec_clarification := Some (clarify_question live)\<rparr>)"

definition decide_route :: "InputEnvelope \<Rightarrow> PrincipalState \<Rightarrow> RouteSuggestion option \<Rightarrow> RoutingDecision" where
  "decide_route envelope state suggestion =
     (case Option.bind suggestion (suggested_route state) of
        Some decision \<Rightarrow> decision
      | None \<Rightarrow> (case Option.bind (ie_reply_to envelope) (reply_route state) of
          Some decision \<Rightarrow> decision
        | None \<Rightarrow> live_route state))"

section \<open>What a decision can name\<close>

lemma find_task_some: "find_task state tid = Some t \<Longrightarrow> t \<in> set (ps_tasks state) \<and> pt_task_id t = tid"
  by (auto simp: find_task_def find_Some_iff in_set_conv_nth)

lemma task_of_input_some: "task_of_input state k = Some t \<Longrightarrow> t \<in> set (ps_tasks state)"
  by (auto simp: task_of_input_def find_Some_iff in_set_conv_nth)

text \<open>A decision names a task only when the principal owns it, and the task is live unless the
  decision resumes it through a new task.\<close>

definition sound_decision :: "PrincipalState \<Rightarrow> RoutingDecision \<Rightarrow> bool" where
  "sound_decision state d \<longleftrightarrow>
     (case rdec_task_id d of
        None \<Rightarrow> rdec_session_id d = None \<and> rdec_intent d \<in> {RouteIntent.NewTask, RouteIntent.Clarify, RouteIntent.Reject}
      | Some tid \<Rightarrow> \<exists>t\<in>set (ps_tasks state). pt_task_id t = tid \<and> rdec_session_id d = Some (pt_session_id t) \<and>
          (if rdec_intent d = RouteIntent.ResumeTask then is_terminal_task (pt_state t)
           else rdec_intent d \<in> {RouteIntent.ContinueCurrent, RouteIntent.SupplementTask, RouteIntent.PauseTask, RouteIntent.CancelTask} \<and>
             \<not> is_terminal_task (pt_state t)))"

lemma decision_fields [simp]:
  "rdec_intent (task_decision i t r) = i" "rdec_task_id (task_decision i t r) = Some (pt_task_id t)"
  "rdec_session_id (task_decision i t r) = Some (pt_session_id t)" "rdec_intent (plain_decision i r) = i"
  "rdec_task_id (plain_decision i r) = None" "rdec_session_id (plain_decision i r) = None"
  by (simp_all add: task_decision_def plain_decision_def)

lemma suggested_sound: "suggested_route state proposal = Some d \<Longrightarrow> sound_decision state d"
  by (auto simp: suggested_route_def sound_decision_def Let_def bind_eq_Some_conv split: RouteIntent.splits option.splits if_splits
      dest: find_task_some)

lemma task_decision_sound:
  assumes "t \<in> set (ps_tasks state)"
  shows "\<not> is_terminal_task (pt_state t) \<Longrightarrow> sound_decision state (task_decision RouteIntent.ContinueCurrent t r)"
    "is_terminal_task (pt_state t) \<Longrightarrow> sound_decision state (task_decision RouteIntent.ResumeTask t r)"
  using assms by (auto simp: sound_decision_def)

lemma reply_sound: "reply_route state reference = Some d \<Longrightarrow> sound_decision state d"
  by (auto simp: reply_route_def task_decision_sound split: option.splits if_splits dest!: task_of_input_some)

lemma live_sound: "sound_decision state (live_route state)"
proof -
  have "t \<in> set (ps_tasks state) \<and> \<not> is_terminal_task (pt_state t)" if "t \<in> set (live_tasks state)" for t
    using that by (simp add: live_tasks_def)
  then show ?thesis by (auto simp: live_route_def sound_decision_def split: list.splits)
qed

lemma decide_sound: "sound_decision state (decide_route envelope state suggestion)"
  using suggested_sound reply_sound live_sound by (auto simp: decide_route_def bind_eq_Some_conv split: option.splits)

lemma bound_text_length: "length (bound_text t n) \<le> n"
  by (simp add: bound_text_def)

end
