(* ===== verification/Interaction_Coordinator.thy ===== *)
theory Interaction_Coordinator
  imports Interaction_Routing
begin

text \<open>
  The class \<open>InteractionCoordinator\<close> of \<open>src/interaction/interaction_coordinator.cpp\<close>, composed with
  the runtime control plane (\<open>Runtime_Control\<close>) and the input ledger (\<open>Interaction_Ledger\<close>) over any
  event store. The submission lock makes the operations atomic; while one waits for a command, the
  control context of the runtime executes queued commands. What the host, the executor and the
  sinks answer is one record of arguments.
\<close>

section \<open>State\<close>

record PrincipalEntry =
  pe_sessions :: "SessionId list"
  pe_tasks :: "PrincipalTaskEntry list"

definition empty_principal :: PrincipalEntry where
  "empty_principal = \<lparr>pe_sessions = [], pe_tasks = []\<rparr>"

text \<open>A sink is the number of the object. \<open>co_events\<close> is the store that was bound and \<open>co_store\<close> the one that the
  ledger writes to. \<open>co_delivered\<close> is what the sinks accepted, in order; the
  code has no such member, it is the history that the properties speak about.\<close>

record 's InteractionCoordinator =
  co_config :: CoordinatorConfig
  co_runtime :: Runtime
  co_events :: "'s option"
  co_store :: 's
  co_runtime_id :: RuntimeId
  co_has_ledger :: bool
  co_ledger :: EventStoreInputLedger
  co_has_provider :: bool
  co_registry :: "(PrincipalKey, PrincipalEntry) umap"
  co_sinks :: "(TaskId, nat) umap"
  co_pending :: "(TaskId, InputEnvelope list) umap"
  co_retired_futures :: nat
  co_stopping :: bool
  co_initialized :: bool
  co_delivered :: "(TaskId \<times> InputEnvelope) list"

record InputDisposition =
  di_ingress_id :: ControlIngressId
  di_input_id :: string
  di_stage :: InputStage
  di_duplicate :: bool
  di_session_id :: "SessionId option"
  di_task_id :: "TaskId option"
  di_error :: "Error option"
  di_clarification :: "string option"

text \<open>What the executor does with a context preparation: it refuses the submission, the future is
  not ready in time (the body may have run, and some retired futures may be ready), the body
  throws, or it is done.\<close>

datatype PrepareAnswer = PrepareCapacity string | PrepareStopping string | PrepareRefused string | PrepareThrew string
  | PrepareTimeout bool nat | PrepareFailed string | PrepareDone

record 'e SubmitAnswers =
  sa_host :: Host
  sa_now :: int
  sa_stamp :: Timestamp
  sa_ingress :: ControlIngressId
  sa_admit_event :: EventId
  sa_admit_env :: 'e
  sa_advance_event :: EventId
  sa_advance_env :: 'e
  sa_permit_now :: int
  sa_resolver :: "InputEnvelope \<Rightarrow> PrincipalState \<Rightarrow> RouteSuggestion option"
  sa_environment :: "EnvironmentRef option Result"
  sa_session :: SessionId
  sa_open_command :: CommandId
  sa_open_verdict :: SubmitVerdict
  sa_open_wait :: nat
  sa_task :: TaskId
  sa_submit_command :: CommandId
  sa_submit_verdict :: SubmitVerdict
  sa_submit_wait :: nat
  sa_control_command :: CommandId
  sa_control_verdict :: SubmitVerdict
  sa_control_wait :: nat
  sa_prepare :: PrepareAnswer
  sa_deliver :: "unit Result"

definition key_of :: "PrincipalContext \<Rightarrow> PrincipalKey" where
  "key_of p = \<lparr>pk_tenant_id = pc_tenant_id p, pk_user_id = pc_user_id p\<rparr>"

definition snapshot :: "PrincipalContext \<Rightarrow> 's InteractionCoordinator \<Rightarrow> PrincipalState" where
  "snapshot p co = (case map_of (co_registry co) (key_of p) of
     None \<Rightarrow> \<lparr>ps_sessions = [], ps_tasks = []\<rparr>
   | Some e \<Rightarrow> \<lparr>ps_sessions = pe_sessions e, ps_tasks = pe_tasks e\<rparr>)"

text \<open>The state that the runtime has for a task; a task that it does not know keeps the cached one.\<close>

definition refreshed :: "Runtime \<Rightarrow> PrincipalTaskEntry \<Rightarrow> PrincipalTaskEntry" where
  "refreshed rt t = (case task_snapshot (pt_task_id t) rt of Inr snap \<Rightarrow> t\<lparr>pt_state := tsn_state snap\<rparr> | Inl _ \<Rightarrow> t)"

definition refresh_task_states :: "'s InteractionCoordinator \<Rightarrow> 's InteractionCoordinator" where
  "refresh_task_states co = co\<lparr>co_registry :=
     umap_each (\<lambda>_ e. e\<lparr>pe_tasks := map (refreshed (co_runtime co)) (pe_tasks e)\<rparr>) (co_registry co)\<rparr>"

text \<open>\<open>registry[key]\<close> with a change of the entry.\<close>

definition registry_update :: "PrincipalKey \<Rightarrow> (PrincipalEntry \<Rightarrow> PrincipalEntry) \<Rightarrow> 's InteractionCoordinator \<Rightarrow> 's InteractionCoordinator" where
  "registry_update k f co = co\<lparr>co_registry := umap_modify k f (umap_emplace k empty_principal (co_registry co))\<rparr>"

text \<open>A change of the first task of an entry with the given identifier.\<close>

fun modify_task :: "TaskId \<Rightarrow> (PrincipalTaskEntry \<Rightarrow> PrincipalTaskEntry) \<Rightarrow> PrincipalTaskEntry list \<Rightarrow> PrincipalTaskEntry list" where
  "modify_task tid f [] = []"
| "modify_task tid f (t # ts) = (if pt_task_id t = tid then f t # ts else t # modify_task tid f ts)"

definition append_constraint :: "string \<Rightarrow> PrincipalTaskEntry \<Rightarrow> PrincipalTaskEntry" where
  "append_constraint c t = t\<lparr>pt_constraints := last_n kMaxConstraintsPerTask (pt_constraints t @ [c])\<rparr>"

definition assemble_context :: "PrincipalTaskEntry \<Rightarrow> string" where
  "assemble_context t = ''goal: '' @ bound_text (pt_goal t) kMaxGoalBytes @ CHR 0x0A # ''state: '' @ task_state_name (pt_state t) @
     (if pt_constraints t = [] then []
      else CHR 0x0A # ''constraints:'' @ concat (map (\<lambda>c. CHR 0x0A # ''- '' @ c) (pt_constraints t)))"

text \<open>The body of the preparation: the first task with the identifier, whoever owns it.\<close>

fun prepare_registry :: "TaskId \<Rightarrow> (PrincipalKey, PrincipalEntry) umap \<Rightarrow> (PrincipalKey, PrincipalEntry) umap" where
  "prepare_registry tid [] = []"
| "prepare_registry tid ((k, e) # m) =
     (if list_ex (\<lambda>t. pt_task_id t = tid) (pe_tasks e)
      then (k, e\<lparr>pe_tasks := modify_task tid (\<lambda>t. t\<lparr>pt_context_block := assemble_context t\<rparr>) (pe_tasks e)\<rparr>) # m
      else (k, e) # prepare_registry tid m)"

definition prepare_body :: "TaskId \<Rightarrow> 's InteractionCoordinator \<Rightarrow> 's InteractionCoordinator" where
  "prepare_body tid co = (if co_stopping co then co else co\<lparr>co_registry := prepare_registry tid (co_registry co)\<rparr>)"

definition prepare_context :: "PrepareAnswer \<Rightarrow> TaskId \<Rightarrow> 's InteractionCoordinator \<Rightarrow> 's InteractionCoordinator \<times> unit Result" where
  "prepare_context answer tid co =
     (if co_stopping co
      then (co, Inl (interaction_error ErrorCode.Cancelled ExecutorRejected ''the interaction coordinator is shutting down'' False))
      else case answer of
        PrepareCapacity what \<Rightarrow> (co, Inl (interaction_error ErrorCode.ResourceExhausted ExecutorRejected
          (''the executor refused the context preparation: '' @ what) True))
      | PrepareStopping what \<Rightarrow> (co, Inl (interaction_error ErrorCode.Unavailable ExecutorRejected (''the executor is stopping: '' @ what) True))
      | PrepareRefused what \<Rightarrow> (co, Inl (interaction_error ErrorCode.Unavailable ExecutorRejected
          (''the executor refused the context preparation: '' @ what) True))
      | PrepareThrew what \<Rightarrow> (co, Inl (interaction_error ErrorCode.Internal ExecutorRejected
          (''the context preparation could not be submitted: '' @ what) False))
      | PrepareTimeout body_ran ready \<Rightarrow>
          (let co = (if body_ran then prepare_body tid co else co) in
           (co\<lparr>co_retired_futures := Suc (co_retired_futures co) - ready\<rparr>,
            Inl (interaction_error ErrorCode.DeadlineExceeded RuntimeCommandTimeout ''the context preparation did not settle in time'' True)))
      | PrepareFailed what \<Rightarrow> (co, Inl (interaction_error ErrorCode.Internal ExecutorRejected (''the context preparation failed: '' @ what) False))
      | PrepareDone \<Rightarrow> (prepare_body tid co, Inr ()))"

section \<open>Initialization\<close>

definition new_coordinator :: "CoordinatorConfig \<Rightarrow> Runtime \<Rightarrow> 's \<Rightarrow> 's InteractionCoordinator" where
  "new_coordinator config rt s = \<lparr>co_config = config, co_runtime = rt, co_events = None, co_store = s, co_runtime_id = Id128 (replicate 16 0),
     co_has_ledger = False, co_ledger = new_ledger_index False (Id128 (replicate 16 0)) 0 0 None, co_has_provider = False, co_registry = [],
     co_sinks = [], co_pending = [], co_retired_futures = 0, co_stopping = False, co_initialized = False, co_delivered = []\<rparr>"

definition set_event_store :: "'s \<Rightarrow> RuntimeId \<Rightarrow> 's InteractionCoordinator \<Rightarrow> 's InteractionCoordinator" where
  "set_event_store s rid co = co\<lparr>co_events := Some s, co_runtime_id := rid\<rparr>"

text \<open>A ledger comes with the store that it writes to.\<close>

definition set_input_ledger :: "EventStoreInputLedger \<Rightarrow> 's \<Rightarrow> 's InteractionCoordinator \<Rightarrow> 's InteractionCoordinator" where
  "set_input_ledger l s co = co\<lparr>co_has_ledger := True, co_ledger := l, co_store := s\<rparr>"

definition set_environment_provider :: "bool \<Rightarrow> 's InteractionCoordinator \<Rightarrow> 's InteractionCoordinator" where
  "set_environment_provider present co = co\<lparr>co_has_provider := present\<rparr>"

text \<open>Without a ledger one over the bound store is made.\<close>

definition bound_ledger :: "'s InteractionCoordinator \<Rightarrow> 's InteractionCoordinator" where
  "bound_ledger co = (if co_has_ledger co then co
     else co\<lparr>co_has_ledger := True, co_store := the (co_events co), co_ledger := new_ledger_index True (co_runtime_id co)
       (cc_idempotency_window (co_config co)) (cc_max_ledger_entries (co_config co)) None\<rparr>)"

text \<open>\<open>None\<close> is a rebuild that does not return.\<close>

definition co_initialize :: "('s, 'e) IEventStore \<Rightarrow> 's InteractionCoordinator \<Rightarrow> ('s InteractionCoordinator \<times> unit Result) option" where
  "co_initialize ops co =
     (if co_initialized co
      then Some (co, Inl (interaction_error ErrorCode.InvalidState NotInitialized ''the interaction coordinator was already initialized'' False))
      else if \<not> co_has_ledger co \<and> co_events co = None
      then Some (co, Inl (interaction_error ErrorCode.InvalidState LedgerUnavailable
        ''the interaction coordinator needs an event store for its durable ledger'' False))
      else let co = bound_ledger co in map_option (\<lambda>((l, s), result). (let co = co\<lparr>co_ledger := l, co_store := s\<rparr> in
             case result of Inl e \<Rightarrow> (co, Inl e) | Inr _ \<Rightarrow> (co\<lparr>co_initialized := True\<rparr>, Inr ())))
           (ledger_rebuild ops (co_ledger co, co_store co)))"

section \<open>Submitting an input\<close>

definition nil_id :: Id128 where
  "nil_id = Id128 (replicate 16 0)"

definition disposition_default :: InputDisposition where
  "disposition_default = \<lparr>di_ingress_id = nil_id, di_input_id = '''', di_stage = InputStage.Accepted, di_duplicate = False,
     di_session_id = None, di_task_id = None, di_error = None, di_clarification = None\<rparr>"

definition co_advance ::
    "('s, 'e) IEventStore \<Rightarrow> 'e SubmitAnswers \<Rightarrow> string \<Rightarrow> LedgerTransition \<Rightarrow> 's InteractionCoordinator \<Rightarrow>
     's InteractionCoordinator \<times> LedgerEntry Result" where
  "co_advance ops ans input_id t co =
     (case ledger_advance ops (sa_advance_env ans) (sa_advance_event ans) input_id t (co_ledger co, co_store co) of
        ((l, s), r) \<Rightarrow> (co\<lparr>co_ledger := l, co_store := s\<rparr>, r))"

definition rejection :: "Error \<Rightarrow> LedgerTransition" where
  "rejection reason = transition_default\<lparr>lt_stage := InputStage.Rejected, lt_note := err_safe_message reason, lt_error := Some reason\<rparr>"

text \<open>The early return of a rejected input; the answer of the ledger is dropped.\<close>

definition refuse ::
    "('s, 'e) IEventStore \<Rightarrow> 'e SubmitAnswers \<Rightarrow> InputDisposition \<Rightarrow> Error \<Rightarrow> 's InteractionCoordinator \<Rightarrow>
     's InteractionCoordinator \<times> InputDisposition" where
  "refuse ops ans d reason co =
     (fst (co_advance ops ans (di_input_id d) (rejection reason) co), d\<lparr>di_stage := InputStage.Rejected, di_error := Some reason\<rparr>)"

text \<open>A denial or a rejecting decision: the error of the record is the one that is reported.\<close>

definition deny ::
    "('s, 'e) IEventStore \<Rightarrow> 'e SubmitAnswers \<Rightarrow> InputDisposition \<Rightarrow> Error \<Rightarrow> 's InteractionCoordinator \<Rightarrow>
     's InteractionCoordinator \<times> InputDisposition" where
  "deny ops ans d reason co =
     (case co_advance ops ans (di_input_id d) (rejection reason) co of
        (co, r) \<Rightarrow> (co, d\<lparr>di_stage := InputStage.Rejected, di_error := (case r of Inr e \<Rightarrow> le_error e | Inl _ \<Rightarrow> Some reason)\<rparr>))"

definition clarify ::
    "('s, 'e) IEventStore \<Rightarrow> 'e SubmitAnswers \<Rightarrow> InputDisposition \<Rightarrow> RoutingDecision \<Rightarrow> string \<Rightarrow> 's InteractionCoordinator \<Rightarrow>
     's InteractionCoordinator \<times> InputDisposition" where
  "clarify ops ans d decision rationale co =
     (case co_advance ops ans (di_input_id d) (transition_default\<lparr>lt_stage := InputStage.Accepted,
          lt_clarification := rdec_clarification decision, lt_note := rationale\<rparr>) co of
        (co, r) \<Rightarrow>
          (let d = d\<lparr>di_stage := InputStage.Accepted, di_clarification := rdec_clarification decision\<rparr> in
           case r of Inr _ \<Rightarrow> (co, d) | Inl e \<Rightarrow> (co, d\<lparr>di_stage := InputStage.Rejected, di_error := Some e\<rparr>)))"

text \<open>The last step of a routed input.\<close>

definition route_done ::
    "('s, 'e) IEventStore \<Rightarrow> 'e SubmitAnswers \<Rightarrow> InputDisposition \<Rightarrow> RouteIntent \<Rightarrow> SessionId option \<Rightarrow> TaskId option \<Rightarrow> string \<Rightarrow>
     's InteractionCoordinator \<Rightarrow> 's InteractionCoordinator \<times> InputDisposition" where
  "route_done ops ans d intent session task note co =
     (case co_advance ops ans (di_input_id d) (transition_default\<lparr>lt_stage := InputStage.Routed, lt_session_id := session,
          lt_task_id := task, lt_intent := Some intent, lt_note := note\<rparr>) co of
        (co, r) \<Rightarrow>
          (let d = d\<lparr>di_stage := InputStage.Routed, di_session_id := session, di_task_id := task\<rparr> in
           case r of Inr _ \<Rightarrow> (co, d) | Inl e \<Rightarrow> (co, d\<lparr>di_stage := InputStage.Rejected, di_error := Some e\<rparr>)))"

text \<open>\<open>outcome(command_timeout)\<close>: the control context executes \<open>n\<close> commands meanwhile.\<close>

definition wait_outcome :: "Host \<Rightarrow> nat \<Rightarrow> CommandId \<Rightarrow> Runtime \<Rightarrow> Runtime \<times> CommandOutcome Result" where
  "wait_outcome host n cid rt = (let rt = (execute_next host ^^ n) rt in (rt, handle_outcome cid rt))"

definition command_failed :: "Error \<Rightarrow> Error" where
  "command_failed e = interaction_error ErrorCode.InvalidState RuntimeCommandFailed (err_safe_message e) False"

definition command_timeout :: "Error \<Rightarrow> Error" where
  "command_timeout e = interaction_error ErrorCode.DeadlineExceeded RuntimeCommandTimeout (err_safe_message e) True"

text \<open>Pausing or cancelling a task.\<close>

definition route_control ::
    "('s, 'e) IEventStore \<Rightarrow> 'e SubmitAnswers \<Rightarrow> InputDisposition \<Rightarrow> RoutingDecision \<Rightarrow> string \<Rightarrow> 's InteractionCoordinator \<Rightarrow>
     's InteractionCoordinator \<times> InputDisposition" where
  "route_control ops ans d decision rationale co =
     (case rdec_task_id decision of
        None \<Rightarrow> (co, d\<lparr>di_stage := InputStage.Rejected, di_error := Some (interaction_error ErrorCode.InvalidState RouteRejected
          ''the routing decision has no task to act on'' False)\<rparr>)
      | Some task \<Rightarrow>
          let (rt, command) = enqueue_admitted (sa_control_verdict ans) (sa_control_command ans)
                (Cmd_Records (if rdec_intent decision = RouteIntent.PauseTask then pause_task task else cancel_task task)) (co_runtime co)
          in case command of
               Inl e \<Rightarrow> refuse ops ans d (command_failed e) (co\<lparr>co_runtime := rt\<rparr>)
             | Inr cid \<Rightarrow>
                 (let (rt, outcome) = wait_outcome (sa_host ans) (sa_control_wait ans) cid rt; co = co\<lparr>co_runtime := rt\<rparr>
                  in case outcome of
                       Inl e \<Rightarrow> refuse ops ans d (command_timeout e) co
                     | Inr _ \<Rightarrow> route_done ops ans d (rdec_intent decision) (rdec_session_id decision) (rdec_task_id decision) rationale co))"

text \<open>The session of a new work item.\<close>

definition acquire_session :: "'e SubmitAnswers \<Rightarrow> PrincipalContext \<Rightarrow> 's InteractionCoordinator \<Rightarrow> 's InteractionCoordinator \<times> SessionId Result" where
  "acquire_session ans p co =
     (if (case map_of (co_registry co) (key_of p) of Some e \<Rightarrow> length (pe_sessions e) \<ge> cc_max_sessions_per_principal (co_config co) | None \<Rightarrow> False)
      then (co, Inl (interaction_error ErrorCode.ResourceExhausted RouteRejected ''the principal has too many tracked sessions'' False))
      else if \<not> co_has_provider co
      then (co, Inl (interaction_error ErrorCode.InvalidState NoSessionAvailable ''no environment provider is bound to the coordinator'' False))
      else case sa_environment ans of
        Inl e \<Rightarrow> (co, Inl (interaction_error ErrorCode.Unavailable NoSessionAvailable (err_safe_message e) True))
      | Inr environment \<Rightarrow>
          let (rt, opened) = open_session (sa_open_verdict ans) (sa_open_command ans) (sa_session ans) environment p (co_runtime co)
          in case opened of
               Inl e \<Rightarrow> (co\<lparr>co_runtime := rt\<rparr>, Inl (command_failed e))
             | Inr (sid, cid) \<Rightarrow>
                 (let (rt, outcome) = wait_outcome (sa_host ans) (sa_open_wait ans) cid rt; co = co\<lparr>co_runtime := rt\<rparr>
                  in case outcome of
                       Inl e \<Rightarrow> (co, Inl (command_timeout e))
                     | Inr _ \<Rightarrow> (registry_update (key_of p) (\<lambda>pe. pe\<lparr>pe_sessions := pe_sessions pe @ [sid]\<rparr>) co, Inr sid)))"

text \<open>The task of a new work item, with the goal and the constraints it inherits.\<close>

definition create_task ::
    "'e SubmitAnswers \<Rightarrow> PrincipalContext \<Rightarrow> SessionId \<Rightarrow> string \<Rightarrow> string list \<Rightarrow> TaskId option \<Rightarrow> 's InteractionCoordinator \<Rightarrow>
     's InteractionCoordinator \<times> TaskId Result" where
  "create_task ans p session goal inherited resumed co =
     (let (rt, submitted) = submit_task (sa_submit_verdict ans) (sa_submit_command ans) (sa_task ans) session
            \<lparr>spec_goal = goal, spec_user_constraints = inherited\<rparr> (co_runtime co)
      in case submitted of
           Inl e \<Rightarrow> (co\<lparr>co_runtime := rt\<rparr>, Inl (command_failed e))
         | Inr (tid, cid) \<Rightarrow>
             (let (rt, outcome) = wait_outcome (sa_host ans) (sa_submit_wait ans) cid rt; co = co\<lparr>co_runtime := rt\<rparr>
              in case outcome of
                   Inl e \<Rightarrow> (co, Inl (command_timeout e))
                 | Inr _ \<Rightarrow>
                     let co = registry_update (key_of p) id co in
                     if length (pe_tasks (the (map_of (co_registry co) (key_of p)))) \<ge> cc_max_tasks_per_principal (co_config co)
                     then (co, Inl (interaction_error ErrorCode.ResourceExhausted RouteRejected ''the principal has too many tracked tasks'' False))
                     else (registry_update (key_of p) (\<lambda>pe. pe\<lparr>pe_tasks := pe_tasks pe @
                       [\<lparr>pt_task_id = tid, pt_session_id = session, pt_state = TaskState.Idle, pt_goal = goal, pt_input_ids = [],
                         pt_constraints = inherited, pt_context_block = '''', pt_resumed_from = resumed\<rparr>]\<rparr>) co, Inr tid)))"


text \<open>The session, then the task.\<close>

definition new_work ::
    "'e SubmitAnswers \<Rightarrow> InputEnvelope \<Rightarrow> PrincipalState \<Rightarrow> RoutingDecision \<Rightarrow> 's InteractionCoordinator \<Rightarrow>
     's InteractionCoordinator \<times> (SessionId \<times> TaskId) Result" where
  "new_work ans envelope state decision co =
     (let p = ie_principal envelope;
          (co, session) = (case rdec_session_id decision of Some sid \<Rightarrow> (co, Inr sid) | None \<Rightarrow> acquire_session ans p co)
      in case session of
           Inl e \<Rightarrow> (co, Inl e)
         | Inr sid \<Rightarrow>
             (let previous = (if rdec_intent decision = RouteIntent.ResumeTask
                    then Option.bind (rdec_task_id decision) (find_task state) else None);
                  goal = (case previous of Some t \<Rightarrow> pt_goal t | None \<Rightarrow> []);
                  goal = (if goal = [] then bound_text (ie_content envelope) kMaxGoalBytes else goal);
                  inherited = (case previous of Some t \<Rightarrow> pt_constraints t | None \<Rightarrow> []);
                  (co, task) = create_task ans p sid goal inherited (rdec_task_id decision) co
              in case task of Inl e \<Rightarrow> (co, Inl e) | Inr tid \<Rightarrow> (co, Inr (sid, tid))))"

text \<open>The existing work item that a decision names.\<close>

definition work_target :: "RoutingDecision \<Rightarrow> (SessionId \<times> TaskId) Result" where
  "work_target decision = (case (rdec_session_id decision, rdec_task_id decision) of
      (Some sid, Some tid) \<Rightarrow> Inr (sid, tid)
    | _ \<Rightarrow> Inl (interaction_error ErrorCode.InvalidState RouteRejected ''the routing decision has no live target'' False))"

definition bind_input :: "InputEnvelope \<Rightarrow> RouteIntent \<Rightarrow> TaskId \<Rightarrow> 's InteractionCoordinator \<Rightarrow> 's InteractionCoordinator" where
  "bind_input envelope intent tid co =
     registry_update (key_of (ie_principal envelope)) (\<lambda>pe. pe\<lparr>pe_tasks := modify_task tid (\<lambda>t.
       let t = t\<lparr>pt_input_ids := pt_input_ids t @ [ie_input_id envelope]\<rparr> in
       if intent = RouteIntent.SupplementTask \<or> intent = RouteIntent.ContinueCurrent
       then append_constraint (bound_text (ie_content envelope) kMaxConstraintBytes) t else t) (pe_tasks pe)\<rparr>) co"

definition pending_of :: "TaskId \<Rightarrow> 's InteractionCoordinator \<Rightarrow> InputEnvelope list" where
  "pending_of tid co = (case map_of (co_pending co) tid of Some q \<Rightarrow> q | None \<Rightarrow> [])"

text \<open>The sink of the task takes the input, or the input waits for one.\<close>

definition deliver_input ::
    "'e SubmitAnswers \<Rightarrow> InputEnvelope \<Rightarrow> TaskId \<Rightarrow> 's InteractionCoordinator \<Rightarrow> 's InteractionCoordinator \<times> string Result" where
  "deliver_input ans envelope tid co =
     (case map_of (co_sinks co) tid of
        Some sink \<Rightarrow>
          (case sa_deliver ans of
             Inl e \<Rightarrow> (co, Inl (interaction_error ErrorCode.Unavailable SinkUnavailable (err_safe_message e) False))
           | Inr _ \<Rightarrow> (co\<lparr>co_delivered := co_delivered co @ [(tid, envelope)]\<rparr>, Inr ''delivered''))
      | None \<Rightarrow>
          let co = co\<lparr>co_pending := umap_emplace tid [] (co_pending co)\<rparr> in
          if length (pending_of tid co) \<ge> cc_max_pending_deliveries (co_config co)
          then (co, Inl (interaction_error ErrorCode.ResourceExhausted SinkUnavailable
            ''too many inputs are waiting for the loop of this task'' False))
          else (co\<lparr>co_pending := umap_modify tid (\<lambda>q. q @ [envelope]) (co_pending co)\<rparr>, Inr ''awaiting the loop of the task''))"

definition route_work ::
    "('s, 'e) IEventStore \<Rightarrow> 'e SubmitAnswers \<Rightarrow> InputEnvelope \<Rightarrow> PrincipalState \<Rightarrow> InputDisposition \<Rightarrow> RoutingDecision \<Rightarrow> string \<Rightarrow>
     's InteractionCoordinator \<Rightarrow> 's InteractionCoordinator \<times> InputDisposition" where
  "route_work ops ans envelope state d decision rationale co =
     (let intent = rdec_intent decision;
          existing = (intent = RouteIntent.ContinueCurrent \<or> intent = RouteIntent.SupplementTask);
          (co, target) = (if existing then (co, work_target decision) else new_work ans envelope state decision co)
      in case target of
           Inl e \<Rightarrow> if existing then (co, d\<lparr>di_stage := InputStage.Rejected, di_error := Some e\<rparr>) else refuse ops ans d e co
         | Inr (sid, tid) \<Rightarrow>
             (let co = bind_input envelope intent tid co; (co, prepared) = prepare_context (sa_prepare ans) tid co
              in case prepared of
                   Inl e \<Rightarrow> refuse ops ans d e co
                 | Inr _ \<Rightarrow>
                     let (co, delivery) = deliver_input ans envelope tid co
                     in case delivery of
                          Inl e \<Rightarrow> refuse ops ans d e co
                        | Inr note \<Rightarrow> route_done ops ans d intent (Some sid) (Some tid) (rationale @ '' ('' @ note @ '')'') co))"

text \<open>Acting on a decision.\<close>

definition act_on ::
    "('s, 'e) IEventStore \<Rightarrow> 'e SubmitAnswers \<Rightarrow> InputEnvelope \<Rightarrow> PrincipalState \<Rightarrow> InputDisposition \<Rightarrow> RoutingDecision \<Rightarrow>
     's InteractionCoordinator \<Rightarrow> 's InteractionCoordinator \<times> InputDisposition" where
  "act_on ops ans envelope state d decision co =
     (let rationale = bound_text (rdec_rationale decision) 512 in
      case rdec_intent decision of
        RouteIntent.Reject \<Rightarrow> deny ops ans d (interaction_error ErrorCode.SafetyRejected RouteRejected rationale False) co
      | RouteIntent.Clarify \<Rightarrow> clarify ops ans d decision rationale co
      | RouteIntent.PauseTask \<Rightarrow> route_control ops ans d decision rationale co
      | RouteIntent.CancelTask \<Rightarrow> route_control ops ans d decision rationale co
      | _ \<Rightarrow> route_work ops ans envelope state d decision rationale co)"

definition denied :: Error where
  "denied = interaction_error ErrorCode.PermissionDenied InteractionDomainCode.PermissionDenied ''the principal lacks the required capability'' False"

definition duplicate_disposition :: "LedgerEntry \<Rightarrow> InputDisposition" where
  "duplicate_disposition e = \<lparr>di_ingress_id = le_ingress_id e, di_input_id = le_input_id e, di_stage = le_stage e, di_duplicate = True,
     di_session_id = le_session_id e, di_task_id = le_task_id e, di_error = le_error e, di_clarification = le_clarification e\<rparr>"

text \<open>An admitted input that is not a duplicate.\<close>

definition route_admitted ::
    "('s, 'e) IEventStore \<Rightarrow> 'e SubmitAnswers \<Rightarrow> InputEnvelope \<Rightarrow> LedgerEntry \<Rightarrow> 's InteractionCoordinator \<Rightarrow>
     's InteractionCoordinator \<times> InputDisposition" where
  "route_admitted ops ans envelope entry co =
     (let d = disposition_default\<lparr>di_ingress_id := le_ingress_id entry, di_input_id := le_input_id entry\<rparr> in
      if \<not> permitted (co_config co) (sa_permit_now ans) (ie_principal envelope) then deny ops ans d denied co
      else let co = refresh_task_states co;
               state = snapshot (ie_principal envelope) co;
               decision = decide_route envelope state (sa_resolver ans envelope state)
        in act_on ops ans envelope state d decision co)"

definition submit_input ::
    "('s, 'e) IEventStore \<Rightarrow> 'e SubmitAnswers \<Rightarrow> InputEnvelope \<Rightarrow> 's InteractionCoordinator \<Rightarrow>
     's InteractionCoordinator \<times> InputDisposition Result" where
  "submit_input ops ans envelope co =
     (if co_stopping co
      then (co, Inl (interaction_error ErrorCode.Unavailable RouteRejected ''the interaction coordinator is shutting down'' False))
      else if \<not> co_initialized co
      then (co, Inl (interaction_error ErrorCode.InvalidState NotInitialized ''the interaction coordinator was not initialized'' False))
      else if ie_input_id envelope = []
      then (co, Inl (interaction_error ErrorCode.InvalidArgument InputInvalid ''the input id must not be empty'' False))
      else case ledger_admit ops (sa_admit_env ans) (sa_admit_event ans) (sa_now ans) (sa_stamp ans) (sa_ingress ans) envelope
             (co_ledger co, co_store co) of
          ((l, s), Inl e) \<Rightarrow> (co\<lparr>co_ledger := l, co_store := s\<rparr>, Inr (disposition_default\<lparr>di_input_id := ie_input_id envelope,
            di_stage := InputStage.Rejected, di_error := Some e\<rparr>))
        | ((l, s), Inr entry) \<Rightarrow>
            let co = co\<lparr>co_ledger := l, co_store := s\<rparr> in
            if le_duplicate entry then (co, Inr (duplicate_disposition entry))
            else map_prod id Inr (route_admitted ops ans envelope entry co))"

section \<open>The other operations\<close>

definition cancel_work :: "SubmitVerdict \<Rightarrow> CommandId \<Rightarrow> TaskId \<Rightarrow> 's InteractionCoordinator \<Rightarrow> 's InteractionCoordinator \<times> CommandId Result" where
  "cancel_work verdict cid tid co =
     (case enqueue_admitted verdict cid (Cmd_Records (cancel_task tid)) (co_runtime co) of (rt, r) \<Rightarrow> (co\<lparr>co_runtime := rt\<rparr>, r))"

text \<open>The loop over the inputs that waited: \<open>deliver k\<close> is the answer of the sink to the \<open>k\<close>-th one. The
  first refused one is put back; the loop ends there.\<close>

fun deliver_waiting ::
    "(nat \<Rightarrow> unit Result) \<Rightarrow> nat \<Rightarrow> TaskId \<Rightarrow> InputEnvelope list \<Rightarrow> 's InteractionCoordinator \<Rightarrow> 's InteractionCoordinator \<times> unit Result" where
  "deliver_waiting deliver k tid [] co = (co, Inr ())"
| "deliver_waiting deliver k tid (w # ws) co =
     (case deliver k of
        Inl e \<Rightarrow> (co\<lparr>co_pending := umap_modify tid (\<lambda>q. w # q) (umap_emplace tid [] (co_pending co))\<rparr>,
          Inl (interaction_error ErrorCode.Unavailable SinkUnavailable (err_safe_message e) False))
      | Inr _ \<Rightarrow> deliver_waiting deliver (Suc k) tid ws (co\<lparr>co_delivered := co_delivered co @ [(tid, w)]\<rparr>))"

definition register_sink ::
    "(nat \<Rightarrow> unit Result) \<Rightarrow> TaskId \<Rightarrow> nat option \<Rightarrow> 's InteractionCoordinator \<Rightarrow> 's InteractionCoordinator \<times> unit Result" where
  "register_sink deliver tid sink co =
     (case sink of
        None \<Rightarrow> (co, Inl (interaction_error ErrorCode.InvalidArgument SinkUnavailable ''the input sink must not be null'' False))
      | Some sk \<Rightarrow>
          if length (co_sinks co) \<ge> cc_max_sinks (co_config co) \<and> map_of (co_sinks co) tid = None
          then (co, Inl (interaction_error ErrorCode.ResourceExhausted SinkUnavailable ''too many input sinks are registered'' False))
          else deliver_waiting deliver 0 tid (pending_of tid co)
            (co\<lparr>co_sinks := umap_put tid sk (co_sinks co), co_pending := filter (\<lambda>(k, _). k \<noteq> tid) (co_pending co)\<rparr>))"

definition unregister_sink :: "TaskId \<Rightarrow> 's InteractionCoordinator \<Rightarrow> 's InteractionCoordinator" where
  "unregister_sink tid co = co\<lparr>co_sinks := filter (\<lambda>(k, _). k \<noteq> tid) (co_sinks co)\<rparr>"

definition entry_disposition :: "LedgerEntry \<Rightarrow> InputDisposition" where
  "entry_disposition e = disposition_default\<lparr>di_ingress_id := le_ingress_id e, di_input_id := le_input_id e, di_stage := le_stage e,
     di_session_id := le_session_id e, di_task_id := le_task_id e\<rparr>"

text \<open>The three reports on an accepted input: the transition, then the disposition of the record.\<close>

definition report ::
    "('s, 'e) IEventStore \<Rightarrow> 'e \<Rightarrow> EventId \<Rightarrow> string \<Rightarrow> LedgerTransition \<Rightarrow> (LedgerEntry \<Rightarrow> InputDisposition) \<Rightarrow>
     's InteractionCoordinator \<Rightarrow> 's InteractionCoordinator \<times> InputDisposition Result" where
  "report ops env x input_id t f co =
     (case ledger_advance ops env x input_id t (co_ledger co, co_store co) of
        ((l, s), r) \<Rightarrow> (co\<lparr>co_ledger := l, co_store := s\<rparr>, map_sum id f r))"

definition not_initialized :: Error where
  "not_initialized = interaction_error ErrorCode.InvalidState NotInitialized ''the interaction coordinator was not initialized'' False"

definition record_answer ::
    "('s, 'e) IEventStore \<Rightarrow> 'e \<Rightarrow> EventId \<Rightarrow> string \<Rightarrow> string \<Rightarrow> 's InteractionCoordinator \<Rightarrow> 's InteractionCoordinator \<times> InputDisposition Result" where
  "record_answer ops env x input_id summary co =
     (if \<not> co_initialized co then (co, Inl not_initialized)
      else report ops env x input_id (transition_default\<lparr>lt_stage := InputStage.Answered, lt_note := bound_text summary kMaxConstraintBytes\<rparr>)
        (\<lambda>e. (entry_disposition e)\<lparr>di_clarification := le_clarification e\<rparr>) co)"

definition record_settlement ::
    "('s, 'e) IEventStore \<Rightarrow> 'e \<Rightarrow> EventId \<Rightarrow> string \<Rightarrow> TaskState \<Rightarrow> 's InteractionCoordinator \<Rightarrow> 's InteractionCoordinator \<times> InputDisposition Result" where
  "record_settlement ops env x input_id terminal co =
     (if \<not> co_initialized co then (co, Inl not_initialized)
      else if \<not> is_terminal_task terminal
      then (co, Inl (interaction_error ErrorCode.InvalidArgument InputInvalid ''a settlement needs a terminal task state'' False))
      else report ops env x input_id (transition_default\<lparr>lt_stage := InputStage.TaskSettled,
        lt_note := ''terminal: '' @ task_state_name terminal\<rparr>) entry_disposition co)"

definition record_rejection ::
    "('s, 'e) IEventStore \<Rightarrow> 'e \<Rightarrow> EventId \<Rightarrow> string \<Rightarrow> string \<Rightarrow> 's InteractionCoordinator \<Rightarrow> 's InteractionCoordinator \<times> InputDisposition Result" where
  "record_rejection ops env x input_id reason co =
     (if \<not> co_initialized co then (co, Inl not_initialized)
      else report ops env x input_id (rejection (interaction_error ErrorCode.SafetyRejected RouteRejected (bound_text reason kMaxConstraintBytes) False))
        (\<lambda>e. (entry_disposition e)\<lparr>di_error := le_error e\<rparr>) co)"

definition principal_state :: "PrincipalContext \<Rightarrow> 's InteractionCoordinator \<Rightarrow> 's InteractionCoordinator \<times> PrincipalState" where
  "principal_state p co = (let co = refresh_task_states co in (co, snapshot p co))"

definition input_record :: "string \<Rightarrow> 's InteractionCoordinator \<Rightarrow> LedgerEntry Result" where
  "input_record input_id co = ledger_lookup input_id (co_ledger co)"

definition co_shutdown :: "'s InteractionCoordinator \<Rightarrow> 's InteractionCoordinator" where
  "co_shutdown co = (if co_stopping co then co
     else co\<lparr>co_stopping := True, co_sinks := [], co_pending := [], co_retired_futures := 0, co_initialized := False\<rparr>)"


end
