(* ===== verification/Coordinator_Steps.thy ===== *)
theory Coordinator_Steps
  imports Interaction_Coordinator
begin

text \<open>
  The submission of an input as a sequence of elementary steps, each with the guard under which the
  code takes it (\<open>co_step\<close>), and what the steps keep: the bounds of the coordinator, and everything
  of the other principals.
\<close>

section \<open>Ownership\<close>

definition entry_tasks :: "PrincipalKey \<Rightarrow> 's InteractionCoordinator \<Rightarrow> PrincipalTaskEntry list" where
  "entry_tasks k co = (case map_of (co_registry co) k of Some e \<Rightarrow> pe_tasks e | None \<Rightarrow> [])"

definition owns :: "PrincipalKey \<Rightarrow> TaskId \<Rightarrow> 's InteractionCoordinator \<Rightarrow> bool" where
  "owns k tid co \<longleftrightarrow> tid \<in> set (map pt_task_id (entry_tasks k co))"

definition sole_owner :: "PrincipalKey \<Rightarrow> TaskId \<Rightarrow> 's InteractionCoordinator \<Rightarrow> bool" where
  "sole_owner k tid co \<longleftrightarrow> (\<forall>k'. owns k' tid co \<longrightarrow> k' = k)"

lemma modify_task_keys [simp]: "(\<And>t. pt_task_id (f t) = pt_task_id t) \<Longrightarrow> map pt_task_id (modify_task tid f ts) = map pt_task_id ts"
  by (induction ts) auto

lemma modify_task_set: "t \<in> set (modify_task tid f ts) \<Longrightarrow> t \<in> set ts \<or> (\<exists>t0\<in>set ts. t = f t0)"
  by (induction ts) (auto split: if_splits)

lemma length_modify_task [simp]: "length (modify_task tid f ts) = length ts"
  by (induction ts) auto

lemma registry_update_find:
  "map_of (co_registry (registry_update k f co)) k' =
     (if k' = k then Some (f (case map_of (co_registry co) k of Some e \<Rightarrow> e | None \<Rightarrow> empty_principal)) else map_of (co_registry co) k')"
  by (simp add: registry_update_def split: option.splits)

lemma prepare_registry_find:
  "map_of (prepare_registry tid m) k = map_of m k \<or>
     (\<exists>e. map_of m k = Some e \<and> list_ex (\<lambda>t. pt_task_id t = tid) (pe_tasks e) \<and>
       map_of (prepare_registry tid m) k = Some (e\<lparr>pe_tasks := modify_task tid (\<lambda>t. t\<lparr>pt_context_block := assemble_context t\<rparr>) (pe_tasks e)\<rparr>))"
  by (induction m rule: prepare_registry.induct [of _ tid]) auto

lemma prepare_registry_keys [simp]: "map fst (prepare_registry tid m) = map fst m"
  by (induction tid m rule: prepare_registry.induct) auto

section \<open>Steps\<close>

text \<open>The texts and the lists of a tracked task are bounded.\<close>

definition task_bounds :: "PrincipalTaskEntry \<Rightarrow> bool" where
  "task_bounds t \<longleftrightarrow> length (pt_constraints t) \<le> kMaxConstraintsPerTask \<and> (\<forall>c\<in>set (pt_constraints t). length c \<le> kMaxConstraintBytes) \<and>
     length (pt_goal t) \<le> kMaxGoalBytes \<and> length (pt_context_block t) \<le> 12400"

inductive co_step :: "InputEnvelope \<Rightarrow> TaskId \<Rightarrow> 's InteractionCoordinator \<Rightarrow> 's InteractionCoordinator \<Rightarrow> bool"
  for envelope new where
  runtime: "co_step envelope new co (co\<lparr>co_runtime := rt\<rparr>)"
| ledger: "(\<forall>k. k \<noteq> ie_input_id envelope \<longrightarrow> map_of (il_index l) k = map_of (il_index (co_ledger co)) k) \<Longrightarrow>
    co_step envelope new co (co\<lparr>co_ledger := l, co_store := s\<rparr>)"
| refresh: "co_step envelope new co (refresh_task_states co)"
| entry: "co_step envelope new co (registry_update (key_of (ie_principal envelope)) id co)"
| session: "(case map_of (co_registry co) (key_of (ie_principal envelope)) of Some e \<Rightarrow>
      length (pe_sessions e) < cc_max_sessions_per_principal (co_config co) | None \<Rightarrow> True) \<Longrightarrow>
    co_step envelope new co (registry_update (key_of (ie_principal envelope)) (\<lambda>e. e\<lparr>pe_sessions := pe_sessions e @ [sid]\<rparr>) co)"
| task: "length (entry_tasks (key_of (ie_principal envelope)) co) < cc_max_tasks_per_principal (co_config co) \<Longrightarrow>
    pt_task_id t = new \<Longrightarrow> task_bounds t \<Longrightarrow>
    co_step envelope new co (registry_update (key_of (ie_principal envelope)) (\<lambda>e. e\<lparr>pe_tasks := pe_tasks e @ [t]\<rparr>) co)"
| bind: "co_step envelope new co (bind_input envelope intent tid co)"
| prepare: "owns (key_of (ie_principal envelope)) tid co \<Longrightarrow> co_step envelope new co (prepare_body tid co)"
| retired: "co_step envelope new co (co\<lparr>co_retired_futures := n\<rparr>)"
| delivered: "owns (key_of (ie_principal envelope)) tid co \<Longrightarrow>
    co_step envelope new co (co\<lparr>co_delivered := co_delivered co @ [(tid, envelope)]\<rparr>)"
| waits: "owns (key_of (ie_principal envelope)) tid co \<Longrightarrow>
    co_step envelope new co (co\<lparr>co_pending := umap_emplace tid [] (co_pending co)\<rparr>)"
| queued: "owns (key_of (ie_principal envelope)) tid co \<Longrightarrow> length (pending_of tid co) < cc_max_pending_deliveries (co_config co) \<Longrightarrow>
    co_step envelope new co (co\<lparr>co_pending := umap_modify tid (\<lambda>q. q @ [envelope]) (co_pending co)\<rparr>)"

abbreviation co_steps :: "InputEnvelope \<Rightarrow> TaskId \<Rightarrow> 's InteractionCoordinator \<Rightarrow> 's InteractionCoordinator \<Rightarrow> bool" where
  "co_steps envelope new \<equiv> (co_step envelope new)\<^sup>*\<^sup>*"

lemma co_step_config [simp]: "co_step envelope new co co' \<Longrightarrow> co_config co' = co_config co \<and> co_sinks co' = co_sinks co \<and>
    co_stopping co' = co_stopping co \<and> co_initialized co' = co_initialized co"
  by (induction rule: co_step.induct) (auto simp: refresh_task_states_def registry_update_def bind_input_def prepare_body_def)

lemma co_steps_config: "co_steps envelope new co co' \<Longrightarrow> co_config co' = co_config co \<and> co_sinks co' = co_sinks co \<and>
    co_stopping co' = co_stopping co \<and> co_initialized co' = co_initialized co"
  by (induction rule: rtranclp_induct) auto

text \<open>Tasks are never forgotten, so what the principal owns it keeps.\<close>

lemma entry_tasks_update:
  "entry_tasks k (registry_update k0 f co) =
     (if k = k0 then pe_tasks (f (case map_of (co_registry co) k0 of Some e \<Rightarrow> e | None \<Rightarrow> empty_principal)) else entry_tasks k co)"
  by (simp add: entry_tasks_def registry_update_find split: option.splits)

lemma entry_tasks_refresh: "entry_tasks k (refresh_task_states co) = map (refreshed (co_runtime co)) (entry_tasks k co)"
  by (simp add: entry_tasks_def refresh_task_states_def split: option.splits)

lemma entry_tasks_prepare:
  "entry_tasks k (prepare_body tid co) = entry_tasks k co \<or> owns k tid co \<and>
     entry_tasks k (prepare_body tid co) = modify_task tid (\<lambda>t. t\<lparr>pt_context_block := assemble_context t\<rparr>) (entry_tasks k co)"
  using prepare_registry_find [of tid "co_registry co" k]
  by (auto simp: entry_tasks_def prepare_body_def owns_def list_ex_iff)

lemma refreshed_id [simp]: "pt_task_id (refreshed rt t) = pt_task_id t"
  by (simp add: refreshed_def split: sum.splits)

lemma task_ids_kept [simp]:
  "map pt_task_id (entry_tasks k (refresh_task_states co)) = map pt_task_id (entry_tasks k co)"
  "map pt_task_id (entry_tasks k (prepare_body tid co)) = map pt_task_id (entry_tasks k co)"
  using entry_tasks_prepare [of k tid co] by (auto simp: entry_tasks_refresh)

lemma task_ids_bind [simp]: "map pt_task_id (entry_tasks k (bind_input envelope intent tid co)) = map pt_task_id (entry_tasks k co)"
proof -
  have "pe_tasks (case map_of (co_registry co) k of None \<Rightarrow> empty_principal | Some e \<Rightarrow> e) = entry_tasks k co" for k
    by (simp add: entry_tasks_def empty_principal_def split: option.splits)
  then show ?thesis by (simp add: bind_input_def entry_tasks_update append_constraint_def Let_def)
qed

lemma entry_tasks_frame [simp]:
  "entry_tasks k (co\<lparr>co_runtime := rt\<rparr>) = entry_tasks k co" "entry_tasks k (co\<lparr>co_ledger := l, co_store := s\<rparr>) = entry_tasks k co"
  "entry_tasks k (co\<lparr>co_retired_futures := n\<rparr>) = entry_tasks k co" "entry_tasks k (co\<lparr>co_delivered := ds\<rparr>) = entry_tasks k co"
  "entry_tasks k (co\<lparr>co_pending := ps\<rparr>) = entry_tasks k co"
  by (simp_all add: entry_tasks_def)

lemma current_entry: "pe_tasks (case map_of (co_registry co) k of None \<Rightarrow> empty_principal | Some e \<Rightarrow> e) = entry_tasks k co"
  by (simp add: entry_tasks_def empty_principal_def split: option.splits)

lemma step_task_ids:
  "co_step envelope new co co' \<Longrightarrow> map pt_task_id (entry_tasks k co') = map pt_task_id (entry_tasks k co) \<or>
     k = key_of (ie_principal envelope) \<and> map pt_task_id (entry_tasks k co') = map pt_task_id (entry_tasks k co) @ [new]"
  by (induction rule: co_step.induct) (auto simp: entry_tasks_update current_entry)

lemma owns_step: "co_step envelope new co co' \<Longrightarrow> owns k tid co \<Longrightarrow> owns k tid co'"
  using step_task_ids [of envelope new co co' k] unfolding owns_def by (metis Un_iff set_append)

lemma owns_steps: "co_steps envelope new co co' \<Longrightarrow> owns k tid co \<Longrightarrow> owns k tid co'"
  by (induction rule: rtranclp_induct) (auto intro: owns_step)

lemma owns_foreign: "co_steps envelope new co co' \<Longrightarrow> k \<noteq> key_of (ie_principal envelope) \<Longrightarrow> owns k tid co' = owns k tid co"
proof (induction rule: rtranclp_induct)
  case (step co1 co2)
  then show ?case using step_task_ids [OF step(2), of k] by (metis owns_def)
qed simp

section \<open>The other principals\<close>

text \<open>What a principal has, apart from the task states that are cached from the runtime.\<close>

definition entry_core :: "PrincipalEntry \<Rightarrow> SessionId list \<times> PrincipalTaskEntry list" where
  "entry_core e = (pe_sessions e, map (\<lambda>t. t\<lparr>pt_state := TaskState.Idle\<rparr>) (pe_tasks e))"

definition principal_core :: "PrincipalKey \<Rightarrow> 's InteractionCoordinator \<Rightarrow> (SessionId list \<times> PrincipalTaskEntry list) option" where
  "principal_core k co = map_option entry_core (map_of (co_registry co) k)"

lemma principal_core_update: "k \<noteq> k0 \<Longrightarrow> principal_core k (registry_update k0 f co) = principal_core k co"
  by (simp add: principal_core_def registry_update_find)

lemma principal_core_refresh: "principal_core k (refresh_task_states co) = principal_core k co"
proof -
  have "(refreshed rt t)\<lparr>pt_state := TaskState.Idle\<rparr> = t\<lparr>pt_state := TaskState.Idle\<rparr>" for rt t
    by (simp add: refreshed_def split: sum.splits)
  then show ?thesis by (cases "map_of (co_registry co) k") (simp_all add: principal_core_def refresh_task_states_def entry_core_def)
qed

lemma principal_core_prepare: "\<not> owns k tid co \<Longrightarrow> principal_core k (prepare_body tid co) = principal_core k co"
  using prepare_registry_find [of tid "co_registry co" k]
  by (auto simp: principal_core_def prepare_body_def owns_def entry_tasks_def list_ex_iff)

lemma step_respects:
  assumes "co_step envelope new co co'" "k \<noteq> key_of (ie_principal envelope)"
    and "\<And>tid. owns (key_of (ie_principal envelope)) tid co \<Longrightarrow> \<not> owns k tid co"
  shows "principal_core k co' = principal_core k co"
  using assms
proof (induction rule: co_step.induct)
  case (bind co intent tid)
  then show ?case by (simp add: bind_input_def principal_core_update)
next
  case (prepare tid co)
  then show ?case by (simp add: principal_core_prepare)
qed (simp_all add: principal_core_update principal_core_refresh, simp_all add: principal_core_def)

lemma steps_respect:
  assumes "co_steps envelope new co co'" "k \<noteq> key_of (ie_principal envelope)" "\<not> owns k new co"
    and "\<And>tid. owns (key_of (ie_principal envelope)) tid co \<Longrightarrow> \<not> owns k tid co"
  shows "principal_core k co' = principal_core k co"
  using assms(1)
proof (induction rule: rtranclp_induct)
  case (step co1 co2)
  have "owns (key_of (ie_principal envelope)) tid co1 \<Longrightarrow> owns (key_of (ie_principal envelope)) tid co \<or> tid = new" for tid
    using step(1)
  proof (induction rule: rtranclp_induct)
    case (step c1 c2)
    then show ?case using step_task_ids [OF step(2), of "key_of (ie_principal envelope)"]
      by (metis Un_iff empty_iff insert_iff list.set(1) list.simps(15) owns_def set_append)
  qed simp
  then have "owns (key_of (ie_principal envelope)) tid co1 \<Longrightarrow> \<not> owns k tid co1" for tid
    using assms(3,4) owns_foreign [OF step(1) assms(2)] by metis
  then show ?case using step_respects [OF step(2) assms(2)] step(3) by simp
qed simp

text \<open>What is queued and delivered belongs to a task of the principal.\<close>

lemma steps_deliver:
  assumes "co_steps envelope new co co'"
  shows "\<exists>ds. co_delivered co' = co_delivered co @ ds \<and> (\<forall>d\<in>set ds. snd d = envelope \<and> owns (key_of (ie_principal envelope)) (fst d) co')"
    "\<not> owns (key_of (ie_principal envelope)) tid co' \<Longrightarrow> map_of (co_pending co') tid = map_of (co_pending co) tid"
  using assms
proof (induction rule: rtranclp_induct)
  case (step co1 co2)
  let ?k = "key_of (ie_principal envelope)"
  have one: "co_delivered co2 = co_delivered co1 \<or> (\<exists>tid. owns ?k tid co1 \<and> co_delivered co2 = co_delivered co1 @ [(tid, envelope)])"
    "\<not> owns ?k tid co1 \<Longrightarrow> map_of (co_pending co2) tid = map_of (co_pending co1) tid"
    using step(2) by (induction rule: co_step.induct) (auto simp: refresh_task_states_def registry_update_def bind_input_def prepare_body_def)
  {
    case 1
    obtain ds where "co_delivered co1 = co_delivered co @ ds" "\<forall>d\<in>set ds. snd d = envelope \<and> owns ?k (fst d) co1" using step(3) by blast
    then show ?case using one(1) owns_step [OF step(2), of ?k] by auto
  next
    case 2
    then show ?case using one(2) step(4) owns_step [OF step(2), of ?k tid] by auto
  }
qed auto

section \<open>A submission is a sequence of steps\<close>

abbreviation principal_key :: "InputEnvelope \<Rightarrow> PrincipalKey" where
  "principal_key envelope \<equiv> key_of (ie_principal envelope)"

lemma one_step: "co_step envelope new co co' \<Longrightarrow> co_steps envelope new co co'"
  by (rule r_into_rtranclp)

lemmas co_step_intros = co_step.intros [THEN one_step]

lemma advance_others:
  "ledger_advance ops env x k t (l, s) = ((l', s'), r) \<Longrightarrow> k' \<noteq> k \<Longrightarrow> map_of (il_index l') k' = map_of (il_index l) k'"
  by (auto simp: ledger_advance_def Let_def split: if_splits option.splits prod.splits sum.splits)

lemma advance_steps: "co_advance ops ans (ie_input_id envelope) t co = (co', r) \<Longrightarrow> co_steps envelope new co co'"
  by (auto simp: co_advance_def split: prod.splits intro!: co_step_intros dest: advance_others)

lemma ending_steps:
  assumes "di_input_id d = ie_input_id envelope"
  shows "co_steps envelope new co (fst (refuse ops ans d reason co))" "co_steps envelope new co (fst (deny ops ans d reason co))"
    "co_steps envelope new co (fst (clarify ops ans d decision rationale co))"
    "co_steps envelope new co (fst (route_done ops ans d intent session task note co))"
proof -
  show "co_steps envelope new co (fst (refuse ops ans d reason co))"
    using advance_steps [of ops ans envelope "rejection reason" co] by (simp add: refuse_def assms) (metis prod.collapse)
  show "co_steps envelope new co (fst (deny ops ans d reason co))" by (auto simp: deny_def assms dest: advance_steps split: prod.splits)
  show "co_steps envelope new co (fst (clarify ops ans d decision rationale co))"
    by (auto simp: clarify_def Let_def assms dest: advance_steps split: prod.splits sum.splits)
  show "co_steps envelope new co (fst (route_done ops ans d intent session task note co))"
    by (auto simp: route_done_def Let_def assms dest: advance_steps split: prod.splits sum.splits)
qed

lemma runtime_then: "co_steps envelope new (co\<lparr>co_runtime := rt\<rparr>) co' \<Longrightarrow> co_steps envelope new co co'"
  using co_step.runtime [of envelope new co rt] by (rule converse_rtranclp_into_rtranclp)

lemmas after_runtime = ending_steps [THEN runtime_then]

lemma control_steps:
  assumes "di_input_id d = ie_input_id envelope"
  shows "co_steps envelope new co (fst (route_control ops ans d decision rationale co))"
proof (cases "rdec_task_id decision")
  case (Some task)
  obtain rt command where enq: "enqueue_admitted (sa_control_verdict ans) (sa_control_command ans)
      (Cmd_Records (if rdec_intent decision = RouteIntent.PauseTask then pause_task task else cancel_task task)) (co_runtime co) = (rt, command)"
    by force
  show ?thesis
  proof (cases command)
    case (Inl e)
    then show ?thesis by (simp add: route_control_def Some enq after_runtime [OF assms])
  next
    case (Inr cid)
    obtain rt' outcome where "wait_outcome (sa_host ans) (sa_control_wait ans) cid rt = (rt', outcome)" by force
    then show ?thesis by (cases outcome) (simp_all add: route_control_def Some enq Inr after_runtime [OF assms])
  qed
qed (simp add: route_control_def)

lemma session_steps:
  assumes "acquire_session ans (ie_principal envelope) co = (co', r)"
  shows "co_steps envelope new co co'"
proof (cases "\<exists>rt. co' = co\<lparr>co_runtime := rt\<rparr>")
  case False
  let ?add = "\<lambda>sid e. e\<lparr>pe_sessions := pe_sessions e @ [sid]\<rparr>"
  have same: "co' \<noteq> co" using False InteractionCoordinator.surjective by (metis InteractionCoordinator.update_convs(2))
  then obtain rt sid where co': "co' = registry_update (principal_key envelope) (?add sid) (co\<lparr>co_runtime := rt\<rparr>)"
    and guard: "case map_of (co_registry co) (principal_key envelope) of Some e \<Rightarrow>
      length (pe_sessions e) < cc_max_sessions_per_principal (co_config co) | None \<Rightarrow> True"
    using assms False
    by (auto simp: acquire_session_def Let_def case_prod_unfold not_le split: if_splits option.splits sum.splits)
  have "co_step envelope new (co\<lparr>co_runtime := rt\<rparr>) co'" unfolding co' by (rule co_step.session) (use guard in \<open>simp split: option.splits\<close>)
  then show ?thesis by (rule runtime_then [OF one_step])
qed (auto intro: co_step_intros)

lemma create_steps:
  assumes "create_task ans (ie_principal envelope) session goal inherited resumed co = (co', r)"
    and "length goal \<le> kMaxGoalBytes" "length inherited \<le> kMaxConstraintsPerTask" "\<forall>c\<in>set inherited. length c \<le> kMaxConstraintBytes"
  shows "co_steps envelope (sa_task ans) co co'" "r = Inr tid \<Longrightarrow> owns (principal_key envelope) tid co'"
proof -
  let ?k = "principal_key envelope"
  let ?t = "\<lparr>pt_task_id = sa_task ans, pt_session_id = session, pt_state = TaskState.Idle, pt_goal = goal, pt_input_ids = [],
     pt_constraints = inherited, pt_context_block = [], pt_resumed_from = resumed\<rparr>"
  have tb: "task_bounds ?t" using assms(2-4) by (simp add: task_bounds_def)
  obtain rt submitted where sub: "submit_task (sa_submit_verdict ans) (sa_submit_command ans) (sa_task ans) session
      \<lparr>spec_goal = goal, spec_user_constraints = inherited\<rparr> (co_runtime co) = (rt, submitted)" by force
  have id: "submitted = Inr (tid, cid) \<Longrightarrow> tid = sa_task ans" for tid cid
    using sub by (auto simp: submit_task_def Let_def res_bind_def split: if_splits prod.splits sum.splits)
  have "co_steps envelope (sa_task ans) co co' \<and> (r = Inr tid \<longrightarrow> owns ?k tid co')"
  proof (cases "\<exists>rt'. co' = co\<lparr>co_runtime := rt'\<rparr> \<and> (\<exists>e. r = Inl e)")
    case False
    then obtain tid' cid rt' oc where s: "submitted = Inr (tid', cid)" "wait_outcome (sa_host ans) (sa_submit_wait ans) cid rt = (rt', Inr oc)"
      using assms(1) by (auto simp: create_task_def sub Let_def split: sum.splits prod.splits)
    let ?co1 = "registry_update ?k id (co\<lparr>co_runtime := rt'\<rparr>)"
    let ?co2 = "registry_update ?k (\<lambda>pe. pe\<lparr>pe_tasks := pe_tasks pe @ [?t]\<rparr>) ?co1"
    have len: "pe_tasks (the (map_of (co_registry ?co1) ?k)) = entry_tasks ?k ?co1"
      by (simp add: entry_tasks_def registry_update_find)
    have reach1: "co_steps envelope (sa_task ans) co ?co1" by (rule runtime_then [OF one_step [OF co_step.entry]])
    show ?thesis
    proof (cases "length (entry_tasks ?k ?co1) \<ge> cc_max_tasks_per_principal (co_config co)")
      case True
      then have "co' = ?co1" "\<exists>e. r = Inl e" using assms(1) len by (auto simp: create_task_def sub s Let_def registry_update_def)
      then show ?thesis using reach1 by auto
    next
      case False
      then have res: "co' = ?co2" "r = Inr (sa_task ans)" using assms(1) len id [OF s(1)] by (auto simp: create_task_def sub s Let_def registry_update_def)
      have "co_step envelope (sa_task ans) ?co1 ?co2" by (rule co_step.task [OF _ _ tb]) (use False in \<open>simp_all add: registry_update_def\<close>)
      then show ?thesis using reach1 res by (auto simp: owns_def entry_tasks_update)
    qed
  qed (auto intro: co_step_intros)
  then show "co_steps envelope (sa_task ans) co co'" "r = Inr tid \<Longrightarrow> owns ?k tid co'" by blast+
qed

text \<open>A task of the principal gives bounded texts to the task that resumes it.\<close>

definition tasks_bounded :: "PrincipalKey \<Rightarrow> 's InteractionCoordinator \<Rightarrow> bool" where
  "tasks_bounded k co \<longleftrightarrow> list_all task_bounds (entry_tasks k co)"

lemma new_work_steps:
  assumes "new_work ans envelope state decision co = (co', r)" "list_all task_bounds (ps_tasks state)"
  shows "co_steps envelope (sa_task ans) co co'" "r = Inr (sid, tid) \<Longrightarrow> owns (principal_key envelope) tid co'"
proof -
  obtain co1 session where s: "(case rdec_session_id decision of Some sid \<Rightarrow> (co, Inr sid) | None \<Rightarrow> acquire_session ans (ie_principal envelope) co) =
      (co1, session)" by force
  have reach: "co_steps envelope (sa_task ans) co co1" using s session_steps by (auto split: option.splits)
  have "co_steps envelope (sa_task ans) co co' \<and> (r = Inr (sid, tid) \<longrightarrow> owns (principal_key envelope) tid co')"
  proof (cases session)
    case (Inl e)
    then show ?thesis using assms(1) s reach by (auto simp: new_work_def)
  next
    case (Inr sid')
    define previous where "previous = (if rdec_intent decision = RouteIntent.ResumeTask
      then Option.bind (rdec_task_id decision) (find_task state) else None)"
    define goal where "goal = (let g = case previous of Some t \<Rightarrow> pt_goal t | None \<Rightarrow> [] in
      if g = [] then bound_text (ie_content envelope) kMaxGoalBytes else g)"
    define inherited where "inherited = (case previous of Some t \<Rightarrow> pt_constraints t | None \<Rightarrow> [])"
    have "previous = Some t \<Longrightarrow> task_bounds t" for t
      using assms(2) find_task_some by (auto simp: previous_def list_all_iff bind_eq_Some_conv split: if_splits)
    then have b: "length goal \<le> kMaxGoalBytes" "length inherited \<le> kMaxConstraintsPerTask" "\<forall>c\<in>set inherited. length c \<le> kMaxConstraintBytes"
      by (auto simp: goal_def inherited_def task_bounds_def Let_def bound_text_length split: option.splits)
    obtain co2 task where t: "create_task ans (ie_principal envelope) sid' goal inherited (rdec_task_id decision) co1 = (co2, task)" by force
    have "co' = co2 \<and> r = (case task of Inl e \<Rightarrow> Inl e | Inr tid \<Rightarrow> Inr (sid', tid))"
      using assms(1) t by (simp add: new_work_def s Inr previous_def [symmetric] goal_def inherited_def Let_def split: sum.splits)
    then show ?thesis using reach create_steps [OF t b] by (auto intro: rtranclp_trans split: sum.splits)
  qed
  then show "co_steps envelope (sa_task ans) co co'" "r = Inr (sid, tid) \<Longrightarrow> owns (principal_key envelope) tid co'" by blast+
qed

lemma prepare_steps:
  assumes "owns (principal_key envelope) tid co" "prepare_context answer tid co = (co', r)"
  shows "co_steps envelope new co co'" "owns k tid' co' = owns k tid' co"
proof -
  have "co_steps envelope new co ((prepare_body tid co)\<lparr>co_retired_futures := n\<rparr>)" for n
    by (rule rtranclp_trans [OF one_step [OF co_step.prepare [OF assms(1)]] one_step [OF co_step.retired]])
  then show "co_steps envelope new co co'"
    using assms co_step.prepare [OF assms(1)]
    by (auto simp: prepare_context_def Let_def split: if_splits PrepareAnswer.splits intro: co_step_intros)
  show "owns k tid' co' = owns k tid' co"
    using assms(2) by (auto simp: prepare_context_def Let_def owns_def split: if_splits PrepareAnswer.splits simp flip: set_map)
qed

lemma deliver_steps:
  assumes "owns (principal_key envelope) tid co" "deliver_input ans envelope tid co = (co', r)"
  shows "co_steps envelope new co co'"
proof (cases "map_of (co_sinks co) tid")
  case (Some sink)
  then show ?thesis using assms by (auto simp: deliver_input_def split: sum.splits intro: co_step_intros)
next
  case None
  let ?co = "co\<lparr>co_pending := umap_emplace tid [] (co_pending co)\<rparr>"
  have reach: "co_steps envelope new co ?co" by (rule one_step [OF co_step.waits [OF assms(1)]])
  have "owns (principal_key envelope) tid ?co" using assms(1) by (simp add: owns_def)
  then have "length (pending_of tid ?co) < cc_max_pending_deliveries (co_config ?co) \<Longrightarrow>
      co_step envelope new ?co (?co\<lparr>co_pending := umap_modify tid (\<lambda>q. q @ [envelope]) (co_pending ?co)\<rparr>)"
    by (rule co_step.queued)
  then show ?thesis using assms(2) None reach by (auto simp: deliver_input_def Let_def not_le split: if_splits)
qed

lemma bind_owns [simp]: "owns k tid (bind_input envelope intent tid' co) = owns k tid co"
  unfolding owns_def by (simp only: task_ids_bind)

text \<open>Every decision that the routing takes names a task of the principal.\<close>

lemma route_work_steps:
  assumes "list_all task_bounds (ps_tasks state)" "sound_decision state decision"
    and "\<forall>t\<in>set (ps_tasks state). owns (principal_key envelope) (pt_task_id t) co" and d: "di_input_id d = ie_input_id envelope"
  shows "co_steps envelope (sa_task ans) co (fst (route_work ops ans envelope state d decision rationale co))"
proof -
  let ?ex = "rdec_intent decision = RouteIntent.ContinueCurrent \<or> rdec_intent decision = RouteIntent.SupplementTask"
  obtain co1 target where t: "(if ?ex then (co, work_target decision) else new_work ans envelope state decision co) = (co1, target)" by force
  have reach: "co_steps envelope (sa_task ans) co co1" using t new_work_steps(1) [OF _ assms(1)] by (auto split: if_splits)
  show ?thesis
  proof (cases target)
    case (Inl e)
    then show ?thesis using t reach by (auto simp: route_work_def Let_def rtranclp_trans [OF reach ending_steps(1) [OF d]] split: if_splits)
  next
    case (Inr pair)
    obtain sid tid where pair: "pair = (sid, tid)" by force
    have own: "owns (principal_key envelope) tid co1"
    proof (cases ?ex)
      case True
      then show ?thesis using t Inr pair assms(2,3)
        by (auto simp: work_target_def sound_decision_def split: option.splits)
    next
      case False
      then show ?thesis using t new_work_steps(2) [OF _ assms(1)] Inr pair by simp
    qed
    let ?co2 = "bind_input envelope (rdec_intent decision) tid co1"
    obtain co3 prepared where p: "prepare_context (sa_prepare ans) tid ?co2 = (co3, prepared)" by force
    have own2: "owns (principal_key envelope) tid ?co2" using own by simp
    note p3 = prepare_steps [OF own2 p]
    have reach3: "co_steps envelope (sa_task ans) co co3"
      using reach one_step [OF co_step.bind] p3(1) by (blast intro: rtranclp_trans)
    obtain co4 delivery where dl: "deliver_input ans envelope tid co3 = (co4, delivery)" by force
    have own3: "owns (principal_key envelope) tid co3" using own2 p3(2) by simp
    have reach4: "co_steps envelope (sa_task ans) co co4" using reach3 deliver_steps [OF own3 dl] by (blast intro: rtranclp_trans)
    note refused = rtranclp_trans [OF reach3 ending_steps(1) [OF d]] rtranclp_trans [OF reach4 ending_steps(1) [OF d]]
    show ?thesis unfolding route_work_def Let_def t
      by (simp add: Inr pair p dl refused rtranclp_trans [OF reach4 ending_steps(4) [OF d]] split: sum.splits)
  qed
qed

lemma snapshot_tasks: "ps_tasks (snapshot p co) = entry_tasks (key_of p) co"
  by (simp add: snapshot_def entry_tasks_def split: option.splits)

lemma refreshed_bounds [simp]: "task_bounds (refreshed rt t) = task_bounds t"
  by (simp add: task_bounds_def refreshed_def split: sum.splits)

lemma route_admitted_steps:
  assumes "tasks_bounded (principal_key envelope) co" "le_input_id entry = ie_input_id envelope"
  shows "co_steps envelope (sa_task ans) co (fst (route_admitted ops ans envelope entry co))"
proof (cases "permitted (co_config co) (sa_permit_now ans) (ie_principal envelope)")
  case True
  let ?co = "refresh_task_states co"
  let ?state = "snapshot (ie_principal envelope) ?co"
  let ?decision = "decide_route envelope ?state (sa_resolver ans envelope ?state)"
  have "list_all task_bounds (ps_tasks ?state)" "\<forall>t\<in>set (ps_tasks ?state). owns (principal_key envelope) (pt_task_id t) ?co"
    using assms(1) by (simp_all add: snapshot_tasks entry_tasks_refresh tasks_bounded_def list_all_iff owns_def)
  note work = route_work_steps [OF this(1) decide_sound this(2)]
  have "co_steps envelope (sa_task ans) ?co (fst (act_on ops ans envelope ?state d ?decision ?co))" if "di_input_id d = ie_input_id envelope" for d
    using that by (auto simp: act_on_def Let_def work ending_steps control_steps split: RouteIntent.splits)
  note rtranclp_trans [OF one_step [OF co_step.refresh] this]
  then show ?thesis using True assms(2) by (simp add: route_admitted_def Let_def)
qed (use assms(2) in \<open>simp add: route_admitted_def Let_def ending_steps\<close>)

text \<open>The admission comes first. Of the records of other inputs it drops at most expired ones.\<close>

definition record_kept :: "int \<Rightarrow> string \<Rightarrow> EventStoreInputLedger \<Rightarrow> EventStoreInputLedger \<Rightarrow> bool" where
  "record_kept now k l l' \<longleftrightarrow> map_of (il_index l') k = map_of (il_index l) k \<or>
     (case map_of (il_index l) k of Some e \<Rightarrow> le_window_expires_at e < now | None \<Rightarrow> False)"

lemma drop_expired_kept: "map_of (drop_expired now m) k = map_of m k \<or> (\<exists>e. map_of m k = Some e \<and> le_window_expires_at e < now)"
  by (induction m) (auto simp: drop_expired_def)

lemma admit_others:
  assumes "ledger_admit ops env x now stamp ingress envelope (l, s) = ((l', s'), r)" "k \<noteq> ie_input_id envelope"
  shows "record_kept now k l l'"
  using assms drop_expired_kept [of now "il_index l" k]
  by (auto simp: ledger_admit_def record_kept_def fresh_entry_def Let_def split: if_splits option.splits prod.splits sum.splits)

lemma admit_entry:
  "ledger_admit ops env x now stamp ingress envelope (l, s) = ((l', s'), Inr e) \<Longrightarrow> \<not> le_duplicate e \<Longrightarrow> le_input_id e = ie_input_id envelope"
  by (auto simp: ledger_admit_def fresh_entry_def Let_def split: if_splits option.splits prod.splits sum.splits)

lemma submit_steps:
  assumes "tasks_bounded (principal_key envelope) co"
  shows "\<exists>l s. co_steps envelope (sa_task ans) (co\<lparr>co_ledger := l, co_store := s\<rparr>) (fst (submit_input ops ans envelope co)) \<and>
    (\<forall>k. k \<noteq> ie_input_id envelope \<longrightarrow> record_kept (sa_now ans) k (co_ledger co) l)"
proof (cases "co_stopping co \<or> \<not> co_initialized co \<or> ie_input_id envelope = []")
  case True
  then have "fst (submit_input ops ans envelope co) = co\<lparr>co_ledger := co_ledger co, co_store := co_store co\<rparr>" by (auto simp: submit_input_def)
  then show ?thesis by (metis record_kept_def rtranclp.rtrancl_refl)
next
  case False
  obtain l s r where adm: "ledger_admit ops (sa_admit_env ans) (sa_admit_event ans) (sa_now ans) (sa_stamp ans) (sa_ingress ans) envelope
      (co_ledger co, co_store co) = ((l, s), r)" by (metis prod.exhaust)
  let ?co = "co\<lparr>co_ledger := l, co_store := s\<rparr>"
  have "tasks_bounded (principal_key envelope) ?co" using assms by (simp add: tasks_bounded_def)
  note rest = route_admitted_steps [OF this]
  have "co_steps envelope (sa_task ans) ?co (fst (submit_input ops ans envelope co))"
  proof (cases r)
    case (Inr entry)
    then show ?thesis using False rest [of entry ans ops] admit_entry [OF adm [unfolded Inr]] by (simp add: submit_input_def adm Let_def)
  qed (use False in \<open>simp add: submit_input_def adm\<close>)
  then show ?thesis using admit_others [OF adm] by blast
qed

lemma steps_ledger: "co_steps envelope new co co' \<Longrightarrow> k \<noteq> ie_input_id envelope \<Longrightarrow> map_of (il_index (co_ledger co')) k = map_of (il_index (co_ledger co)) k"
proof (induction rule: rtranclp_induct)
  case (step co1 co2)
  have "map_of (il_index (co_ledger co2)) k = map_of (il_index (co_ledger co1)) k" using step(2,4)
    by (induction rule: co_step.induct) (auto simp: refresh_task_states_def registry_update_def bind_input_def prepare_body_def)
  then show ?case using step by simp
qed simp

section \<open>One input, one task\<close>

text \<open>What waits and what was delivered changes in \<open>deliver_input\<close> only, and a submission comes there at
  most once.\<close>

definition quiet :: "'s InteractionCoordinator \<Rightarrow> 's InteractionCoordinator \<Rightarrow> bool" where
  "quiet co co' \<longleftrightarrow> co_pending co' = co_pending co \<and> co_delivered co' = co_delivered co"

definition handed :: "InputEnvelope \<Rightarrow> 's InteractionCoordinator \<Rightarrow> 's InteractionCoordinator \<Rightarrow> bool" where
  "handed envelope co co' \<longleftrightarrow> (\<exists>tid.
     co_delivered co' = co_delivered co @ [(tid, envelope)] \<and> (\<forall>t. pending_of t co' = pending_of t co) \<or>
     co_delivered co' = co_delivered co \<and> (\<forall>t. pending_of t co' = pending_of t co @ (if t = tid then [envelope] else [])))"

definition unmoved :: "'s InteractionCoordinator \<Rightarrow> 's InteractionCoordinator \<Rightarrow> bool" where
  "unmoved co co' \<longleftrightarrow> co_delivered co' = co_delivered co \<and> (\<forall>t. pending_of t co' = pending_of t co)"

lemma quiet_trans: "quiet co co1 \<Longrightarrow> quiet co1 co2 \<Longrightarrow> quiet co co2"
  by (simp add: quiet_def)

lemma quiet_unmoved: "quiet co co' \<Longrightarrow> unmoved co co'"
  by (simp add: quiet_def unmoved_def pending_of_def)

lemma quiet_around:
  assumes "quiet co co1" "quiet co2 co3"
  shows "unmoved co1 co2 \<Longrightarrow> unmoved co co3" "handed envelope co1 co2 \<Longrightarrow> handed envelope co co3"
  using assms by (simp_all add: quiet_def unmoved_def handed_def pending_of_def)

lemma quiet_frame [simp]: "quiet co (co\<lparr>co_runtime := rt\<rparr>)" "quiet co (co\<lparr>co_ledger := l, co_store := s\<rparr>)" "quiet co co"
  "quiet co (co\<lparr>co_retired_futures := n\<rparr>)" "quiet co (registry_update k f co)" "quiet co (refresh_task_states co)"
  "quiet co (prepare_body tid co)" "quiet co (bind_input envelope intent tid co)"
  by (simp_all add: quiet_def registry_update_def refresh_task_states_def prepare_body_def bind_input_def)

lemma quiet_advance: "co_advance ops ans k t co = (co', r) \<Longrightarrow> quiet co co'"
  by (auto simp: co_advance_def split: prod.splits)

lemma quiet_endings:
  "quiet co (fst (refuse ops ans d reason co))" "quiet co (fst (deny ops ans d reason co))"
  "quiet co (fst (clarify ops ans d decision rationale co))" "quiet co (fst (route_done ops ans d intent session task note co))"
  using quiet_advance [of ops ans "di_input_id d" "rejection reason" co]
  by (auto simp: refuse_def deny_def clarify_def route_done_def Let_def dest: quiet_advance split: prod.splits sum.splits) (metis prod.collapse)

lemma quiet_new_work: "new_work ans envelope state decision co = (co', r) \<Longrightarrow> quiet co co'"
proof -
  have "acquire_session ans p co = (co', r) \<Longrightarrow> quiet co co'" for p co co' r
    by (auto simp: acquire_session_def quiet_def registry_update_def Let_def split: if_splits prod.splits sum.splits)
  moreover have "create_task ans p sid goal inherited resumed co = (co', r) \<Longrightarrow> quiet co co'" for p sid goal inherited resumed co co' r
    by (auto simp: create_task_def quiet_def registry_update_def Let_def split: if_splits prod.splits sum.splits)
  ultimately show "new_work ans envelope state decision co = (co', r) \<Longrightarrow> quiet co co'"
    by (fastforce simp: new_work_def Let_def intro: quiet_trans split: option.splits prod.splits sum.splits)
qed

lemma quiet_control: "quiet co (fst (route_control ops ans d decision rationale co))"
  using quiet_trans [OF quiet_frame(1) quiet_endings(1)] quiet_trans [OF quiet_frame(1) quiet_endings(4)]
  by (auto simp: route_control_def Let_def split: option.splits prod.splits sum.splits)

lemma quiet_prepare: "prepare_context answer tid co = (co', r) \<Longrightarrow> quiet co co'"
  by (auto simp: prepare_context_def prepare_body_def quiet_def Let_def split: if_splits PrepareAnswer.splits)

lemma deliver_handed:
  assumes "deliver_input ans envelope tid co = (co', r)"
  shows "unmoved co co' \<or> handed envelope co co'"
proof (cases "map_of (co_sinks co) tid")
  case (Some sink)
  then show ?thesis using assms by (auto simp: deliver_input_def unmoved_def handed_def pending_of_def split: sum.splits)
next
  case None
  let ?co = "co\<lparr>co_pending := umap_emplace tid [] (co_pending co)\<rparr>"
  have same: "pending_of t ?co = pending_of t co" for t by (simp add: pending_of_def split: option.splits)
  have "pending_of t (?co\<lparr>co_pending := umap_modify tid (\<lambda>q. q @ [envelope]) (co_pending ?co)\<rparr>) = pending_of t co @ (if t = tid then [envelope] else [])" for t
    by (simp add: pending_of_def split: option.splits)
  then have "handed envelope co (?co\<lparr>co_pending := umap_modify tid (\<lambda>q. q @ [envelope]) (co_pending ?co)\<rparr>)"
    unfolding handed_def by (intro exI [of _ tid] disjI2) simp
  moreover have "unmoved co ?co" using same by (simp add: unmoved_def)
  ultimately show ?thesis using assms None by (auto simp: deliver_input_def Let_def split: if_splits)
qed

lemma route_work_handed:
  "unmoved co (fst (route_work ops ans envelope state d decision rationale co)) \<or>
   handed envelope co (fst (route_work ops ans envelope state d decision rationale co))"
proof -
  let ?ex = "rdec_intent decision = RouteIntent.ContinueCurrent \<or> rdec_intent decision = RouteIntent.SupplementTask"
  obtain co1 target where t: "(if ?ex then (co, work_target decision) else new_work ans envelope state decision co) = (co1, target)" by force
  have q1: "quiet co co1" using t by (auto split: if_splits dest: quiet_new_work)
  note q = quiet_unmoved
  show ?thesis
  proof (cases target)
    case (Inl e)
    then show ?thesis using t q [OF q1] q [OF quiet_trans [OF q1 quiet_endings(1)]] by (auto simp: route_work_def Let_def split: if_splits)
  next
    case (Inr pair)
    obtain sid tid where pair: "pair = (sid, tid)" by force
    obtain co3 prepared where p: "prepare_context (sa_prepare ans) tid (bind_input envelope (rdec_intent decision) tid co1) = (co3, prepared)" by force
    obtain co4 delivery where dl: "deliver_input ans envelope tid co3 = (co4, delivery)" by force
    have q3: "quiet co co3" using q1 quiet_frame(8) quiet_prepare [OF p] by (blast intro: quiet_trans)
    have early: "unmoved co (fst (refuse ops ans d e co3))" for e using q [OF quiet_trans [OF q3 quiet_endings(1)]] .
    have "unmoved co co5 \<or> handed envelope co co5" if "quiet co4 co5" for co5 using deliver_handed [OF dl] quiet_around [OF q3 that] by blast
    note late = this [OF quiet_endings(1)] this [OF quiet_endings(4)]
    show ?thesis unfolding route_work_def Let_def t by (simp add: Inr pair p dl early late split: sum.splits)
  qed
qed

lemma submit_handed: "unmoved co (fst (submit_input ops ans envelope co)) \<or> handed envelope co (fst (submit_input ops ans envelope co))"
proof -
  note q = quiet_unmoved
  have act: "unmoved co (fst (act_on ops ans envelope state d decision co)) \<or> handed envelope co (fst (act_on ops ans envelope state d decision co))"
    for state d decision co
    using route_work_handed [of co ops ans envelope state d decision] q [OF quiet_endings(2)] q [OF quiet_endings(3)] q [OF quiet_control]
    by (auto simp: act_on_def Let_def split: RouteIntent.splits)
  have admitted: "unmoved co (fst (route_admitted ops ans envelope entry co)) \<or> handed envelope co (fst (route_admitted ops ans envelope entry co))"
    for entry co
  proof -
    have "unmoved (refresh_task_states co) co' \<or> handed envelope (refresh_task_states co) co' \<Longrightarrow> unmoved co co' \<or> handed envelope co co'" for co'
      using quiet_around [OF quiet_frame(6) quiet_frame(3)] by blast
    note this [OF act]
    then show ?thesis by (simp add: route_admitted_def Let_def q [OF quiet_endings(2)])
  qed
  obtain l s r where adm: "ledger_admit ops (sa_admit_env ans) (sa_admit_event ans) (sa_now ans) (sa_stamp ans) (sa_ingress ans) envelope
      (co_ledger co, co_store co) = ((l, s), r)" by (metis prod.exhaust)
  let ?co = "co\<lparr>co_ledger := l, co_store := s\<rparr>"
  have "unmoved ?co co' \<or> handed envelope ?co co' \<Longrightarrow> unmoved co co' \<or> handed envelope co co'" for co'
    using quiet_around [OF quiet_frame(2) [where co = co and l = l and s = s] quiet_frame(3) [where co = co']] by blast
  note this [OF admitted]
  then show ?thesis by (cases r) (simp_all add: submit_input_def adm Let_def q [OF quiet_frame(2)] q [OF quiet_frame(3)])
qed

end
