(* ===== verification/Coordinator_Properties.thy ===== *)
theory Coordinator_Properties
  imports Coordinator_Steps Ledger_Properties Runtime_Steps
begin

text \<open>
  The properties of the interaction coordinator: its bounds over any run of operations, the
  isolation of the principals, the permission check, duplicates, and what becomes of the inputs
  that wait for a sink.
\<close>

section \<open>Bounds\<close>

definition entry_bounds :: "CoordinatorConfig \<Rightarrow> PrincipalEntry \<Rightarrow> bool" where
  "entry_bounds config e \<longleftrightarrow> length (pe_sessions e) \<le> max 1 (cc_max_sessions_per_principal config) \<and>
     length (pe_tasks e) \<le> cc_max_tasks_per_principal config \<and> list_all task_bounds (pe_tasks e)"

definition co_bounds :: "'s InteractionCoordinator \<Rightarrow> bool" where
  "co_bounds co \<longleftrightarrow> distinct (map fst (co_registry co)) \<and> list_all (\<lambda>(_, e). entry_bounds (co_config co) e) (co_registry co) \<and>
     distinct (map fst (co_sinks co)) \<and> length (co_sinks co) \<le> cc_max_sinks (co_config co) \<and>
     distinct (map fst (co_pending co)) \<and> list_all (\<lambda>(_, q). length q \<le> cc_max_pending_deliveries (co_config co)) (co_pending co)"

lemma empty_bounds [simp]: "entry_bounds config empty_principal"
  by (simp add: entry_bounds_def empty_principal_def)

lemma bounds_find: "co_bounds co \<Longrightarrow> map_of (co_registry co) k = Some e \<Longrightarrow> entry_bounds (co_config co) e"
  by (auto simp: co_bounds_def list_all_iff dest: map_of_SomeD)

lemma bounds_tasks: "co_bounds co \<Longrightarrow> tasks_bounded k co"
  using bounds_find [of co k] by (auto simp: tasks_bounded_def entry_tasks_def entry_bounds_def split: option.splits)

lemma umap_modify_all: "list_all (\<lambda>(_, v). P v) m \<Longrightarrow> (\<And>v. (k, v) \<in> set m \<Longrightarrow> P v \<Longrightarrow> P (f v)) \<Longrightarrow> list_all (\<lambda>(_, v). P v) (umap_modify k f m)"
  by (fastforce simp: list_all_iff umap_modify_def)

lemma umap_emplace_all: "list_all (\<lambda>(_, v). P v) m \<Longrightarrow> P v0 \<Longrightarrow> list_all (\<lambda>(_, v). P v) (umap_emplace k v0 m)"
  by (auto simp: list_all_iff umap_emplace_def split: option.splits)

lemma bounds_update:
  assumes "co_bounds co"
    and "\<And>e. entry_bounds (co_config co) e \<Longrightarrow> map_of (co_registry co) k = Some e \<or> map_of (co_registry co) k = None \<and> e = empty_principal \<Longrightarrow>
      entry_bounds (co_config co) (f e)"
  shows "co_bounds (registry_update k f co)"
proof -
  let ?m = "umap_emplace k empty_principal (co_registry co)"
  have "list_all (\<lambda>(_, e). entry_bounds (co_config co) e) ?m" by (rule umap_emplace_all) (use assms(1) in \<open>simp_all add: co_bounds_def\<close>)
  moreover have dist: "distinct (map fst ?m)" using assms(1) by (simp add: co_bounds_def)
  then have "map_of ?m k = Some e" if "(k, e) \<in> set ?m" for e using that by (rule map_of_is_SomeI)
  then have "(k, e) \<in> set ?m \<Longrightarrow> map_of (co_registry co) k = Some e \<or> map_of (co_registry co) k = None \<and> e = empty_principal" for e
    by (cases "map_of (co_registry co) k") auto
  ultimately have "list_all (\<lambda>(_, e). entry_bounds (co_config co) e) (umap_modify k f ?m)"
    using assms(2) by (intro umap_modify_all) auto
  then show ?thesis using assms(1) dist by (simp add: co_bounds_def registry_update_def)
qed

lemma name_length: "length (task_state_name st) \<le> 24"
  by (cases st) (simp_all add: task_state_name_def kTaskStateNames_def)

lemma concat_bound: "(\<forall>x\<in>set xs. length (f x) \<le> k) \<Longrightarrow> length (concat (map f xs)) \<le> length xs * k"
  by (induction xs) auto

lemma context_bound:
  assumes "task_bounds t"
  shows "length (assemble_context t) \<le> 12400"
proof -
  let ?cs = "concat (map (\<lambda>c. CHR 0x0A # ''- '' @ c) (pt_constraints t))"
  have "length ?cs \<le> length (pt_constraints t) * 1027"
    using assms by (intro concat_bound) (simp add: task_bounds_def kMaxConstraintBytes_def)
  also have "\<dots> \<le> 8 * 1027" using assms by (intro mult_right_mono) (simp_all add: task_bounds_def kMaxConstraintsPerTask_def)
  finally have cs: "length ?cs \<le> 8216" by simp
  have "length (bound_text (pt_goal t) kMaxGoalBytes) \<le> 4096" using bound_text_length [of "pt_goal t" kMaxGoalBytes] by (simp add: kMaxGoalBytes_def)
  then show ?thesis using cs name_length [of "pt_state t"] by (auto simp: assemble_context_def)
qed

lemma modify_task_bounds:
  "list_all task_bounds ts \<Longrightarrow> (\<And>t. task_bounds t \<Longrightarrow> task_bounds (f t)) \<Longrightarrow> list_all task_bounds (modify_task tid f ts)"
  by (induction ts) auto

lemma prepared_bounds: "task_bounds t \<Longrightarrow> task_bounds (t\<lparr>pt_context_block := assemble_context t\<rparr>)"
  using context_bound [of t] by (simp add: task_bounds_def)

lemma prepare_registry_bounds:
  "list_all (\<lambda>(_, e). entry_bounds config e) m \<Longrightarrow> list_all (\<lambda>(_, e). entry_bounds config e) (prepare_registry tid m)"
  by (induction tid m rule: prepare_registry.induct) (auto simp: entry_bounds_def intro: modify_task_bounds prepared_bounds)

lemma bounds_prepare: "co_bounds co \<Longrightarrow> co_bounds (prepare_body tid co)"
  by (simp add: co_bounds_def prepare_body_def prepare_registry_bounds)

lemma bounds_refresh: "co_bounds co \<Longrightarrow> co_bounds (refresh_task_states co)"
proof -
  have "entry_bounds config e \<Longrightarrow> entry_bounds config (e\<lparr>pe_tasks := map (refreshed rt) (pe_tasks e)\<rparr>)" for config rt e
    by (simp add: entry_bounds_def list_all_iff)
  then have "list_all (\<lambda>(_, e). entry_bounds config e) m \<Longrightarrow>
      list_all (\<lambda>(_, e). entry_bounds config e) (umap_each (\<lambda>_ e. e\<lparr>pe_tasks := map (refreshed rt) (pe_tasks e)\<rparr>) m)" for config rt m
    by (fastforce simp: list_all_iff umap_each_def)
  from this [of "co_config co" "co_registry co" "co_runtime co"]
  show "co_bounds co \<Longrightarrow> co_bounds (refresh_task_states co)" by (simp add: co_bounds_def refresh_task_states_def)
qed

lemma bound_input_bounds:
  "task_bounds t \<Longrightarrow> task_bounds (append_constraint (bound_text c kMaxConstraintBytes) (t\<lparr>pt_input_ids := ids\<rparr>))"
  using set_last_n [of kMaxConstraintsPerTask "pt_constraints t @ [bound_text c kMaxConstraintBytes]"] bound_text_length [of c kMaxConstraintBytes]
  by (auto simp: task_bounds_def append_constraint_def)

lemma bounds_pending: "co_bounds co \<Longrightarrow> length (pending_of tid co) \<le> cc_max_pending_deliveries (co_config co)"
  by (auto simp: co_bounds_def pending_of_def list_all_iff split: option.splits dest: map_of_SomeD)

lemma pending_found: "co_bounds co \<Longrightarrow> (tid, q) \<in> set (co_pending co) \<Longrightarrow> q = pending_of tid co"
  by (simp add: co_bounds_def pending_of_def)

lemma step_bounds: "co_step envelope new co co' \<Longrightarrow> co_bounds co \<Longrightarrow> co_bounds co'"
proof (induction rule: co_step.induct)
  case (refresh co)
  then show ?case by (rule bounds_refresh)
next
  case (session co sid)
  show ?case by (rule bounds_update [OF session(2)]) (use session(1) in \<open>auto simp: entry_bounds_def empty_principal_def\<close>)
next
  case (task co t)
  show ?case by (rule bounds_update [OF task(4)]) (use task(1,3) in \<open>auto simp: entry_bounds_def entry_tasks_def empty_principal_def\<close>)
next
  case (bind co intent tid)
  show ?case unfolding bind_input_def
  proof (rule bounds_update [OF bind])
    fix e assume "entry_bounds (co_config co) e"
    then show "entry_bounds (co_config co) (e\<lparr>pe_tasks := modify_task tid (\<lambda>t. let t = t\<lparr>pt_input_ids := pt_input_ids t @ [ie_input_id envelope]\<rparr> in
        if intent = RouteIntent.SupplementTask \<or> intent = RouteIntent.ContinueCurrent
        then append_constraint (bound_text (ie_content envelope) kMaxConstraintBytes) t else t) (pe_tasks e)\<rparr>)"
      by (auto simp: entry_bounds_def Let_def bound_input_bounds intro!: modify_task_bounds) (simp add: task_bounds_def)
  qed
next
  case (prepare tid co)
  then show ?case by (simp add: bounds_prepare)
next
  case (waits tid co)
  then show ?case by (simp add: co_bounds_def umap_emplace_all)
next
  case (queued tid co)
  have "list_all (\<lambda>(_, q). length q \<le> cc_max_pending_deliveries (co_config co)) (umap_modify tid (\<lambda>q. q @ [envelope]) (co_pending co))"
    by (rule umap_modify_all) (use queued pending_found [of co tid] in \<open>auto simp: co_bounds_def\<close>)
  then show ?case using queued(3) by (simp add: co_bounds_def)
qed (simp_all add: co_bounds_def bounds_update [unfolded co_bounds_def])

lemma steps_bounds: "co_steps envelope new co co' \<Longrightarrow> co_bounds co \<Longrightarrow> co_bounds co'"
  by (induction rule: rtranclp_induct) (auto intro: step_bounds)

section \<open>Runs\<close>

text \<open>The operations of a coordinator, its wiring and initialization included, the late body of a context
  preparation that timed out, and changes of the runtime that others make. A run is \<open>None\<close> when the
  rebuild of an initialization does not return.\<close>

datatype ('s, 'e) coordinator_op = CSetStore 's RuntimeId | CSetLedger EventStoreInputLedger 's | CSetProvider bool | CInitialize
  | CSubmit "'e SubmitAnswers" InputEnvelope | CCancelWork SubmitVerdict CommandId TaskId
  | CRegisterSink "nat \<Rightarrow> unit Result" TaskId "nat option" | CUnregisterSink TaskId | CAnswer 'e EventId string string
  | CSettlement 'e EventId string TaskState | CRejection 'e EventId string string | CPrincipalState PrincipalContext
  | CLateBody TaskId | CRuntime Runtime | CShutdown

fun run_co_op :: "('s, 'e) IEventStore \<Rightarrow> ('s, 'e) coordinator_op \<Rightarrow> 's InteractionCoordinator \<Rightarrow> 's InteractionCoordinator option" where
  "run_co_op ops (CSetStore s rid) co = Some (set_event_store s rid co)"
| "run_co_op ops (CSetLedger l s) co = Some (set_input_ledger l s co)"
| "run_co_op ops (CSetProvider present) co = Some (set_environment_provider present co)"
| "run_co_op ops CInitialize co = map_option fst (co_initialize ops co)"
| "run_co_op ops (CSubmit ans envelope) co = Some (fst (submit_input ops ans envelope co))"
| "run_co_op ops (CCancelWork verdict cid tid) co = Some (fst (cancel_work verdict cid tid co))"
| "run_co_op ops (CRegisterSink deliver tid sink) co = Some (fst (register_sink deliver tid sink co))"
| "run_co_op ops (CUnregisterSink tid) co = Some (unregister_sink tid co)"
| "run_co_op ops (CAnswer env x k summary) co = Some (fst (record_answer ops env x k summary co))"
| "run_co_op ops (CSettlement env x k terminal) co = Some (fst (record_settlement ops env x k terminal co))"
| "run_co_op ops (CRejection env x k reason) co = Some (fst (record_rejection ops env x k reason co))"
| "run_co_op ops (CPrincipalState p) co = Some (fst (principal_state p co))"
| "run_co_op ops (CLateBody tid) co = Some (prepare_body tid co)"
| "run_co_op ops (CRuntime rt) co = Some (co\<lparr>co_runtime := rt\<rparr>)"
| "run_co_op ops CShutdown co = Some (co_shutdown co)"

fun run_coordinator ::
    "('s, 'e) IEventStore \<Rightarrow> ('s, 'e) coordinator_op list \<Rightarrow> 's InteractionCoordinator \<Rightarrow> 's InteractionCoordinator option" where
  "run_coordinator ops [] co = Some co"
| "run_coordinator ops (op # js) co = Option.bind (run_co_op ops op co) (run_coordinator ops js)"

lemma bounds_frame [simp]:
  "co_bounds (co\<lparr>co_runtime := rt\<rparr>) = co_bounds co" "co_bounds (co\<lparr>co_ledger := l, co_store := s\<rparr>) = co_bounds co"
  "co_bounds (co\<lparr>co_delivered := ds\<rparr>) = co_bounds co"
  by (simp_all add: co_bounds_def)

lemma waiting_bounds:
  "co_bounds co \<Longrightarrow> (ws \<noteq> [] \<Longrightarrow> 0 < cc_max_pending_deliveries (co_config co)) \<Longrightarrow> map_of (co_pending co) tid = None \<Longrightarrow>
     co_bounds (fst (deliver_waiting deliver k tid ws co))"
proof (induction deliver k tid ws co rule: deliver_waiting.induct)
  case (2 deliver k tid w ws co)
  have "list_all (\<lambda>(_, q). length q \<le> cc_max_pending_deliveries (co_config co)) (umap_modify tid (\<lambda>q. w # q) (umap_emplace tid [] (co_pending co)))"
  proof (rule umap_modify_all)
    show "list_all (\<lambda>(_, q). length q \<le> cc_max_pending_deliveries (co_config co)) (umap_emplace tid [] (co_pending co))"
      using "2.prems"(1) by (simp add: co_bounds_def umap_emplace_all)
    have "distinct (map fst (umap_emplace tid [] (co_pending co)))" using "2.prems"(1) by (simp add: co_bounds_def)
    then have "(tid, q) \<in> set (umap_emplace tid [] (co_pending co)) \<Longrightarrow> q = []" for q
      using "2.prems"(3) map_of_is_SomeI [of "umap_emplace tid [] (co_pending co)" tid q] by auto
    then show "\<And>v. (tid, v) \<in> set (umap_emplace tid [] (co_pending co)) \<Longrightarrow> length v \<le> cc_max_pending_deliveries (co_config co) \<Longrightarrow>
        length (w # v) \<le> cc_max_pending_deliveries (co_config co)"
      using "2.prems"(2) by fastforce
  qed
  then show ?case using 2 by (auto simp: co_bounds_def split: sum.splits)
qed simp

lemma sinks_put: "length (umap_put k v m) \<le> Suc (length m)" "map_of m k \<noteq> None \<Longrightarrow> length (umap_put k v m) = length m"
  by (auto simp: umap_put_def umap_modify_def umap_emplace_def split: option.splits)

lemma register_bounds: "co_bounds co \<Longrightarrow> co_bounds (fst (register_sink deliver tid sink co))"
proof (cases sink)
  case (Some sk)
  assume b: "co_bounds co"
  let ?co = "co\<lparr>co_sinks := umap_put tid sk (co_sinks co), co_pending := filter (\<lambda>(k, _). k \<noteq> tid) (co_pending co)\<rparr>"
  show ?thesis
  proof (cases "length (co_sinks co) \<ge> cc_max_sinks (co_config co) \<and> map_of (co_sinks co) tid = None")
    case False
    then have "length (umap_put tid sk (co_sinks co)) \<le> cc_max_sinks (co_config co)"
      using b sinks_put [where k = tid and v = sk and m = "co_sinks co"] by (cases "map_of (co_sinks co) tid") (auto simp: co_bounds_def)
    then have "co_bounds ?co"
      using b by (auto simp: co_bounds_def umap_distinct_put distinct_map_filter list_all_iff)
    moreover have "pending_of tid co \<noteq> [] \<Longrightarrow> 0 < cc_max_pending_deliveries (co_config ?co)"
      using bounds_pending [OF b, of tid] by (cases "pending_of tid co") auto
    moreover have "map_of (co_pending ?co) tid = None" by (auto simp: map_of_eq_None_iff)
    ultimately show ?thesis using False waiting_bounds [of ?co "pending_of tid co" tid deliver 0]
      by (auto simp: register_sink_def Some)
  qed (use b in \<open>simp add: register_sink_def Some\<close>)
qed (simp add: register_sink_def)

lemma report_frame: "\<exists>l s. fst (report ops env x k t f co) = co\<lparr>co_ledger := l, co_store := s\<rparr>"
  by (auto simp: report_def split: prod.splits)

lemma records_frame:
  "\<exists>l s. fst (record_answer ops env x k summary co) = co\<lparr>co_ledger := l, co_store := s\<rparr>"
  "\<exists>l s. fst (record_settlement ops env x k terminal co) = co\<lparr>co_ledger := l, co_store := s\<rparr>"
  "\<exists>l s. fst (record_rejection ops env x k reason co) = co\<lparr>co_ledger := l, co_store := s\<rparr>"
proof -
  have same: "\<exists>l s. co = co\<lparr>co_ledger := l, co_store := s\<rparr>"
    by (intro exI [of _ "co_ledger co"] exI [of _ "co_store co"]) simp
  show "\<exists>l s. fst (record_answer ops env x k summary co) = co\<lparr>co_ledger := l, co_store := s\<rparr>"
    using report_frame same by (auto simp: record_answer_def)
  show "\<exists>l s. fst (record_settlement ops env x k terminal co) = co\<lparr>co_ledger := l, co_store := s\<rparr>"
    using report_frame same by (auto simp: record_settlement_def)
  show "\<exists>l s. fst (record_rejection ops env x k reason co) = co\<lparr>co_ledger := l, co_store := s\<rparr>"
    using report_frame same by (auto simp: record_rejection_def)
qed

lemma initialize_frame:
  assumes "co_initialize ops co = Some (co', r)"
  shows "co_config co' = co_config co \<and> co_registry co' = co_registry co \<and> co_sinks co' = co_sinks co \<and> co_pending co' = co_pending co"
proof (cases "co_initialized co \<or> \<not> co_has_ledger co \<and> co_events co = None")
  case True
  then show ?thesis using assms by (auto simp: co_initialize_def split: if_splits)
next
  case False
  have bound: "co_config (bound_ledger co) = co_config co" "co_registry (bound_ledger co) = co_registry co" "co_sinks (bound_ledger co) = co_sinks co"
    "co_pending (bound_ledger co) = co_pending co" by (simp_all add: bound_ledger_def)
  obtain l s x where "ledger_rebuild ops (co_ledger (bound_ledger co), co_store (bound_ledger co)) = Some ((l, s), x)"
    using assms False by (auto simp: co_initialize_def Let_def)
  then show ?thesis using assms False bound by (cases x) (auto simp: co_initialize_def Let_def)
qed

lemma op_bounds:
  assumes "run_co_op ops op co = Some co'" "co_bounds co"
  shows "co_bounds co'"
proof (cases op)
  case CInitialize
  then obtain r where "co_initialize ops co = Some (co', r)" using assms(1) by auto
  from initialize_frame [OF this] show ?thesis using assms(2) by (simp add: co_bounds_def)
next
  case (CSubmit ans envelope)
  obtain l s where "co_steps envelope (sa_task ans) (co\<lparr>co_ledger := l, co_store := s\<rparr>) co'"
    using submit_steps [OF bounds_tasks [OF assms(2)], of envelope ans ops] assms(1) by (auto simp: CSubmit)
  then show ?thesis using steps_bounds assms(2) by fastforce
next
  case (CCancelWork verdict cid tid)
  then show ?thesis using assms by (auto simp: cancel_work_def split: prod.splits)
next
  case (CAnswer env x k summary)
  then show ?thesis using assms records_frame(1) [of ops env x k summary co] by auto
next
  case (CSettlement env x k terminal)
  then show ?thesis using assms records_frame(2) [of ops env x k terminal co] by auto
next
  case (CRejection env x k reason)
  then show ?thesis using assms records_frame(3) [of ops env x k reason co] by auto
next
  case (CPrincipalState p)
  then show ?thesis using assms bounds_refresh by (auto simp: principal_state_def Let_def)
qed (use assms in \<open>auto simp: register_bounds bounds_prepare\<close>,
    use assms in \<open>auto simp: co_bounds_def distinct_map_filter set_event_store_def set_input_ledger_def set_environment_provider_def
      unregister_sink_def co_shutdown_def intro: order_trans [OF length_filter_le]\<close>)

lemma waiting_config: "co_config (fst (deliver_waiting deliver k tid ws co)) = co_config co"
  by (induction deliver k tid ws co rule: deliver_waiting.induct) (simp_all split: sum.splits)

lemma register_config: "co_config (fst (register_sink deliver tid sink co)) = co_config co"
  by (simp add: register_sink_def waiting_config split: option.splits)

lemma op_config: "run_co_op ops op co = Some co' \<Longrightarrow> co_bounds co \<Longrightarrow> co_config co' = co_config co"
proof (cases op)
  case (CSubmit ans envelope)
  assume run: "run_co_op ops op co = Some co'" "co_bounds co"
  obtain l s where "co_steps envelope (sa_task ans) (co\<lparr>co_ledger := l, co_store := s\<rparr>) co'"
    using submit_steps [OF bounds_tasks [OF run(2)], of envelope ans ops] run(1) by (auto simp: CSubmit)
  from co_steps_config [OF this] show ?thesis by simp
qed (auto simp: set_event_store_def set_input_ledger_def set_environment_provider_def cancel_work_def unregister_sink_def co_shutdown_def
    register_config principal_state_def refresh_task_states_def prepare_body_def record_answer_def record_settlement_def record_rejection_def
    report_def Let_def dest: initialize_frame split: prod.splits)

lemma run_bounds: "run_coordinator ops js co = Some co' \<Longrightarrow> co_bounds co \<Longrightarrow> co_config co' = co_config co \<and> co_bounds co'"
proof (induction js arbitrary: co)
  case (Cons op js)
  obtain co1 where "run_co_op ops op co = Some co1" "run_coordinator ops js co1 = Some co'"
    using Cons.prems(1) by (auto split: bind_splits)
  then show ?case using Cons.IH op_bounds op_config Cons.prems(2) by metis
qed simp

text \<open>Only the ledger and its store differ.\<close>

definition ledger_only :: "'s InteractionCoordinator \<Rightarrow> 's InteractionCoordinator \<Rightarrow> bool" where
  "ledger_only co co' \<longleftrightarrow> co_runtime co' = co_runtime co \<and> co_registry co' = co_registry co \<and> co_sinks co' = co_sinks co \<and>
     co_pending co' = co_pending co \<and> co_delivered co' = co_delivered co"

section \<open>Witness data\<close>

definition demo_config :: CoordinatorConfig where
  "demo_config = \<lparr>cc_required_capability = ''chat'', cc_required_identity_version = None, cc_idempotency_window = 86400,
     cc_max_ledger_entries = 16, cc_max_tasks_per_principal = 4, cc_max_sessions_per_principal = 2, cc_max_sinks = 2,
     cc_max_pending_deliveries = 3\<rparr>"

definition demo_other :: PrincipalKey where
  "demo_other = \<lparr>pk_tenant_id = demo_id 40, pk_user_id = demo_id 43\<rparr>"

definition demo_owned :: "8 word \<Rightarrow> PrincipalEntry" where
  "demo_owned n = \<lparr>pe_sessions = [demo_id 2], pe_tasks = [\<lparr>pt_task_id = demo_id n, pt_session_id = demo_id 2, pt_state = TaskState.Idle,
     pt_goal = ''goal'', pt_input_ids = [], pt_constraints = [], pt_context_block = [], pt_resumed_from = None\<rparr>]\<rparr>"

definition demo_host :: Host where
  "demo_host = \<lparr>host_interrupt = (\<lambda>_ _. Released), host_now = (\<lambda>_ _. timestamp_default)\<rparr>"

definition demo_runtime :: Runtime where
  "demo_runtime = execute_next demo_host (fst (open_session SubmitAccepted (demo_id 1) (demo_id 2) (Some 0) (ie_principal demo_envelope)
     (fst (initialize (InitDone True) (init_runtime \<lparr>cfg_worker_threads = 1, cfg_executor_queue_capacity = 8, cfg_max_in_flight = 8\<rparr>)))))"

text \<open>Two principals with one task each, an input of the first one waiting, one record in the ledger.\<close>

definition demo_state :: "'s \<Rightarrow> 's InteractionCoordinator" where
  "demo_state s = (new_coordinator demo_config demo_runtime s)\<lparr>co_initialized := True, co_has_ledger := True,
     co_ledger := demo_ledger\<lparr>il_index := [(''msg-0'', demo_entry\<lparr>le_input_id := ''msg-0''\<rparr>)]\<rparr>, co_has_provider := True,
     co_registry := [(key_of (ie_principal demo_envelope), demo_owned 70), (demo_other, demo_owned 71)],
     co_pending := [(demo_id 70, [demo_envelope, demo_envelope\<lparr>ie_input_id := ''msg-2''\<rparr>])]\<rparr>"

abbreviation demo_coordinator :: "MemoryEventStore InteractionCoordinator" where
  "demo_coordinator \<equiv> demo_state (new_store 5)"

text \<open>A store that counts what it accepts.\<close>

definition demo_log :: "(nat, Timestamp) IEventStore" where
  "demo_log = \<lparr>st_append = (\<lambda>_ q n. (Suc n, Some (Inr \<lparr>rc_event_id = ar_event_id q, rc_session_sequence = of_nat (Suc n),
       rc_task_sequence = None, rc_durable_watermark = 0, rc_achieved = ProcessCrash\<rparr>))),
     st_read = (\<lambda>_ n. (n, Some (Inr \<lparr>pg_events = [], pg_has_more = False\<rparr>)))\<rparr>"

definition demo_granted :: InputEnvelope where
  "demo_granted = demo_envelope\<lparr>ie_principal := (ie_principal demo_envelope)\<lparr>pc_grants := [\<lparr>cg_capability = ''chat'',
     cg_resources = \<lparr>rsel_type = ''app'', rsel_scope = ''any'', rsel_pattern = ''*''\<rparr>, cg_source = GrantSource.Host, cg_version = 1, cg_expires_at = 0\<rparr>]\<rparr>\<rparr>"

definition demo_answers :: "Timestamp SubmitAnswers" where
  "demo_answers = \<lparr>sa_host = demo_host, sa_now = 7, sa_stamp = timestamp_default, sa_ingress = demo_id 50, sa_admit_event = demo_id 30,
     sa_admit_env = timestamp_default, sa_advance_event = demo_id 31, sa_advance_env = timestamp_default, sa_permit_now = 7,
     sa_resolver = (\<lambda>_ _. None), sa_environment = Inr (Some 0), sa_session = demo_id 51, sa_open_command = demo_id 52,
     sa_open_verdict = SubmitAccepted, sa_open_wait = 1, sa_task = demo_id 53, sa_submit_command = demo_id 54,
     sa_submit_verdict = SubmitAccepted, sa_submit_wait = 1, sa_control_command = demo_id 55, sa_control_verdict = SubmitAccepted,
     sa_control_wait = 1, sa_prepare = PrepareDone, sa_deliver = Inr ()\<rparr>"

section \<open>Properties\<close>

text \<open>C9: The coordinator stays within its bounds. Over any run of its operations, wiring and
  initialization included, with any answers of the host, the executor, the sinks, the store and
  the runtime, the configuration is the one it was made with, every principal has at most the
  configured number of tasks and sessions (one session when the limit is zero), there are at most
  the configured number of sinks and of inputs waiting for a task, and the goal, the constraints
  and the context block of every task are bounded.\<close>

theorem coordinator_stays_bounded:
  assumes "run_coordinator ops js (new_coordinator config rt s) = Some co"
  shows "co_config co = config \<and> co_bounds co"
proof -
  have "co_bounds (new_coordinator config rt s)" "co_config (new_coordinator config rt s) = config" by (simp_all add: co_bounds_def new_coordinator_def)
  then show ?thesis using run_bounds [OF assms] by metis
qed

definition demo_ready :: "nat InteractionCoordinator" where
  "demo_ready = (new_coordinator demo_config demo_runtime 7)\<lparr>co_events := Some 0, co_runtime_id := demo_id 2, co_has_provider := True,
     co_has_ledger := True, co_store := 0, co_ledger := demo_ledger, co_initialized := True\<rparr>"

lemma demo_initialized:
  "run_coordinator demo_log [CSetStore 0 (demo_id 2), CSetProvider True, CInitialize] (new_coordinator demo_config demo_runtime 7) = Some demo_ready"
  by (simp add: demo_ready_def new_coordinator_def set_event_store_def set_environment_provider_def co_initialize_def bound_ledger_def ledger_rebuild_def
      new_ledger_index_def rebuild_pages.simps demo_log_def demo_config_def)

theorem coordinator_stays_bounded_witness:
  "\<exists>co. run_coordinator demo_log [CSetStore 0 (demo_id 2), CSetProvider True, CInitialize, CSubmit demo_answers demo_granted]
      (new_coordinator demo_config demo_runtime 7) = Some co \<and>
    co_initialized co \<and> map (map pt_task_id \<circ> pe_tasks \<circ> snd) (co_registry co) = [[demo_id 53]] \<and>
    map ie_input_id (pending_of (demo_id 53) co) = [''msg-1''] \<and> co_bounds co"
proof -
  let ?co = "fst (submit_input demo_log demo_answers demo_granted demo_ready)"
  have run: "run_coordinator demo_log [CSetStore 0 (demo_id 2), CSetProvider True, CInitialize, CSubmit demo_answers demo_granted]
      (new_coordinator demo_config demo_runtime 7) = Some ?co"
    using demo_initialized by (auto split: bind_splits)
  have "(co_initialized ?co, map (map pt_task_id \<circ> pe_tasks \<circ> snd) (co_registry ?co), map ie_input_id (pending_of (demo_id 53) ?co)) =
      (True, [[demo_id 53]], [''msg-1''])" by code_simp
  then show ?thesis using run coordinator_stays_bounded [OF run] by simp
qed

text \<open>C8: Principals are isolated. When a principal submits an input while the coordinator is in its
  bounds and tasks have one owner, nothing of another principal in the registry changes but the
  task states that are cached from the runtime: its sessions, its tasks, their goals, constraints,
  inputs and context blocks stay. The submitted input is delivered to the sink of one task of the submitting
  principal, or appended to the inputs that wait for one such task, or neither, and nothing else
  of what waits or was delivered changes. The ledger keeps the record of every other input unless
  it had expired, and an input id that is in the ledger already changes nothing.\<close>

theorem submission_isolates_principals:
  assumes "co_bounds co" "k \<noteq> key_of (ie_principal envelope)" "\<not> owns k (sa_task ans) co"
    and "\<forall>tid. owns (key_of (ie_principal envelope)) tid co \<longrightarrow> \<not> owns k tid co" "submit_input ops ans envelope co = (co', r)"
  shows "principal_core k co' = principal_core k co \<and> co_sinks co' = co_sinks co \<and>
    (co_delivered co' = co_delivered co \<and> (\<forall>t. pending_of t co' = pending_of t co) \<or>
     (\<exists>tid. owns (key_of (ie_principal envelope)) tid co' \<and>
       (co_delivered co' = co_delivered co @ [(tid, envelope)] \<and> (\<forall>t. pending_of t co' = pending_of t co) \<or>
        co_delivered co' = co_delivered co \<and> (\<forall>t. pending_of t co' = pending_of t co @ (if t = tid then [envelope] else []))))) \<and>
    (\<forall>i e. ledger_lookup i (co_ledger co) = Inr e \<and> i \<noteq> ie_input_id envelope \<and> sa_now ans \<le> le_window_expires_at e \<longrightarrow>
      ledger_lookup i (co_ledger co') = Inr e) \<and>
    (\<forall>e. ledger_lookup (ie_input_id envelope) (co_ledger co) = Inr e \<longrightarrow> co' = co)"
proof -
  obtain l s where steps: "co_steps envelope (sa_task ans) (co\<lparr>co_ledger := l, co_store := s\<rparr>) co'"
    and kept: "\<And>i. i \<noteq> ie_input_id envelope \<Longrightarrow> record_kept (sa_now ans) i (co_ledger co) l"
    using submit_steps [OF bounds_tasks [OF assms(1)], of envelope ans ops] assms(5) by auto
  have core: "principal_core k co' = principal_core k co"
    using steps_respect [OF steps assms(2)] assms(3,4) by (simp add: owns_def principal_core_def)
  let ?k = "key_of (ie_principal envelope)"
  have queue: "owns ?k tid co'" if "pending_of tid co' = pending_of tid co @ [envelope]" for tid
  proof (rule ccontr)
    assume "\<not> ?thesis"
    from steps_deliver(2) [OF steps this] that show False by (simp add: pending_of_def)
  qed
  have sent: "owns ?k tid co'" if "co_delivered co' = co_delivered co @ [(tid, envelope)]" for tid
    using that steps_deliver(1) [OF steps] by auto
  have moved: "unmoved co co' \<or> (\<exists>tid. owns ?k tid co' \<and>
       (co_delivered co' = co_delivered co @ [(tid, envelope)] \<and> (\<forall>t. pending_of t co' = pending_of t co) \<or>
        co_delivered co' = co_delivered co \<and> (\<forall>t. pending_of t co' = pending_of t co @ (if t = tid then [envelope] else []))))"
  proof (cases "unmoved co co'")
    case False
    then obtain tid where tid: "co_delivered co' = co_delivered co @ [(tid, envelope)] \<and> (\<forall>t. pending_of t co' = pending_of t co) \<or>
        co_delivered co' = co_delivered co \<and> (\<forall>t. pending_of t co' = pending_of t co @ (if t = tid then [envelope] else []))"
      using submit_handed [of co ops ans envelope] assms(5) by (auto simp: handed_def)
    then have "owns ?k tid co'" using sent queue by auto
    then show ?thesis using tid by blast
  qed simp
  have records: "ledger_lookup i (co_ledger co') = Inr e"
    if "ledger_lookup i (co_ledger co) = Inr e" "i \<noteq> ie_input_id envelope" "sa_now ans \<le> le_window_expires_at e" for i e
    using that kept [of i] steps_ledger [OF steps, of i] by (auto simp: ledger_lookup_def record_kept_def split: option.splits)
  have "co' = co" if "ledger_lookup (ie_input_id envelope) (co_ledger co) = Inr e" for e
    using that assms(5) by (auto simp: submit_input_def ledger_admit_def ledger_lookup_def Let_def split: if_splits option.splits)
  then show ?thesis using core co_steps_config [OF steps] moved records by (simp add: unmoved_def)
qed

theorem submission_isolates_principals_witness:
  "\<exists>co' r. submit_input demo_log demo_answers demo_granted (demo_state 0) = (co', r) \<and>
    principal_core demo_other co' = Some ([demo_id 2], pe_tasks (demo_owned 71)) \<and>
    map ie_input_id (pending_of (demo_id 70) co') = [''msg-1'', ''msg-2'', ''msg-1''] \<and>
    ledger_lookup ''msg-0'' (co_ledger co') = Inr (demo_entry\<lparr>le_input_id := ''msg-0''\<rparr>)"
proof -
  obtain co' r where run: "submit_input demo_log demo_answers demo_granted (demo_state 0) = (co', r)" by (metis prod.exhaust)
  have ids: "demo_id 41 \<noteq> demo_id 43" "demo_id 70 \<noteq> demo_id 71" "demo_id 53 \<noteq> demo_id 71" by code_simp+
  then have keys: "demo_other \<noteq> key_of (ie_principal demo_granted)" "key_of (ie_principal demo_granted) = key_of (ie_principal demo_envelope)"
    by (simp_all add: demo_other_def key_of_def demo_granted_def demo_envelope_def)
  have pre: "co_bounds (demo_state (0 :: nat))" "\<not> owns demo_other (sa_task demo_answers) (demo_state (0 :: nat))"
    "\<forall>tid. owns (key_of (ie_principal demo_granted)) tid (demo_state (0 :: nat)) \<longrightarrow> \<not> owns demo_other tid (demo_state (0 :: nat))"
    using keys ids by (simp_all add: co_bounds_def demo_state_def new_coordinator_def demo_config_def entry_bounds_def demo_owned_def
      task_bounds_def kMaxConstraintsPerTask_def kMaxGoalBytes_def owns_def entry_tasks_def demo_answers_def)
  have "ledger_lookup ''msg-0'' (co_ledger (demo_state (0 :: nat))) = Inr (demo_entry\<lparr>le_input_id := ''msg-0''\<rparr>)"
    "''msg-0'' \<noteq> ie_input_id demo_granted" "sa_now demo_answers \<le> le_window_expires_at (demo_entry\<lparr>le_input_id := ''msg-0''\<rparr>)"
    by (simp_all add: demo_state_def new_coordinator_def ledger_lookup_def demo_granted_def demo_envelope_def demo_answers_def fresh_entry_def new_ledger_index_def)
  note all = submission_isolates_principals [OF pre(1) keys(1) pre(2,3) run]
  then have "ledger_lookup ''msg-0'' (co_ledger co') = Inr (demo_entry\<lparr>le_input_id := ''msg-0''\<rparr>)"
    using \<open>ledger_lookup _ _ = _\<close> \<open>''msg-0'' \<noteq> _\<close> \<open>sa_now _ \<le> _\<close> by blast
  moreover have "map ie_input_id (pending_of (demo_id 70) (fst (submit_input demo_log demo_answers demo_granted (demo_state 0)))) =
      [''msg-1'', ''msg-2'', ''msg-1'']" by code_simp
  moreover have "principal_core demo_other co' = Some ([demo_id 2], pe_tasks (demo_owned 71))"
    using all keys by (simp add: demo_state_def new_coordinator_def principal_core_def entry_core_def demo_owned_def)
  ultimately show ?thesis using run by simp
qed

text \<open>A duplicate dispatches nothing. When the input id is in the ledger and its window has not
  ended, submitting it again changes nothing at all, neither the runtime nor the registry nor the
  ledger nor the store, whatever the principal and the content, and the answer mirrors the record.\<close>

theorem duplicate_dispatches_nothing:
  assumes "co_initialized co" "\<not> co_stopping co" "ie_input_id envelope \<noteq> []"
    and "ledger_lookup (ie_input_id envelope) (co_ledger co) = Inr e" "sa_now ans \<le> le_window_expires_at e"
  shows "submit_input ops ans envelope co = (co, Inr (duplicate_disposition e))"
  using assms by (auto simp: submit_input_def ledger_admit_def ledger_lookup_def duplicate_disposition_def Let_def split: option.splits)

theorem duplicate_dispatches_nothing_witness:
  "\<exists>d. submit_input memory_ops demo_answers (demo_granted\<lparr>ie_input_id := ''msg-0''\<rparr>) demo_coordinator = (demo_coordinator, Inr d) \<and>
    di_duplicate d \<and> di_ingress_id d = demo_id 50"
proof -
  let ?e = "demo_granted\<lparr>ie_input_id := ''msg-0''\<rparr>" and ?r = "demo_entry\<lparr>le_input_id := ''msg-0''\<rparr>"
  have "co_initialized demo_coordinator" "\<not> co_stopping demo_coordinator" "ie_input_id ?e \<noteq> []"
    "ledger_lookup (ie_input_id ?e) (co_ledger demo_coordinator) = Inr ?r" "sa_now demo_answers \<le> le_window_expires_at ?r"
    by (simp_all add: demo_state_def new_coordinator_def ledger_lookup_def demo_answers_def fresh_entry_def new_ledger_index_def)
  from duplicate_dispatches_nothing [OF this, of memory_ops] show ?thesis by (simp add: duplicate_disposition_def fresh_entry_def)
qed

text \<open>The permission check fails closed. An input of a principal without a live grant of the
  required capability, with a nil identity or with another identity version is rejected with
  permission denied unless the ledger already answered it, and the runtime, the registry, the
  sinks, the waiting inputs and the deliveries are what they were.\<close>

theorem denied_input_changes_nothing:
  assumes "\<not> permitted (co_config co) (sa_permit_now ans) (ie_principal envelope)" "submit_input ops ans envelope co = (co', r)"
  shows "co_runtime co' = co_runtime co \<and> co_registry co' = co_registry co \<and> co_sinks co' = co_sinks co \<and>
    co_pending co' = co_pending co \<and> co_delivered co' = co_delivered co \<and>
    (\<forall>d. r = Inr d \<and> \<not> di_duplicate d \<longrightarrow> di_stage d = InputStage.Rejected)"
proof -
  obtain l s adm where adm: "ledger_admit ops (sa_admit_env ans) (sa_admit_event ans) (sa_now ans) (sa_stamp ans) (sa_ingress ans) envelope
      (co_ledger co, co_store co) = ((l, s), adm)" by (metis prod.exhaust)
  let ?co = "co\<lparr>co_ledger := l, co_store := s\<rparr>"
  have denied: "ledger_only co (fst (deny ops ans d reason ?co))" "di_stage (snd (deny ops ans d reason ?co)) = InputStage.Rejected" for d reason
    by (auto simp: deny_def co_advance_def ledger_only_def split: prod.splits)
  have "ledger_only co co' \<and> (\<forall>d. r = Inr d \<and> \<not> di_duplicate d \<longrightarrow> di_stage d = InputStage.Rejected)"
  proof (cases "co_stopping co \<or> \<not> co_initialized co \<or> ie_input_id envelope = []")
    case True
    then show ?thesis using assms(2) by (auto simp: submit_input_def ledger_only_def split: if_splits)
  next
    case False
    show ?thesis
    proof (cases adm)
      case (Inl e)
      then show ?thesis using assms(2) False adm by (auto simp: submit_input_def ledger_only_def)
    next
      case (Inr entry)
      show ?thesis
      proof (cases "le_duplicate entry")
        case True
        then show ?thesis using assms(2) False adm by (auto simp: submit_input_def Inr Let_def ledger_only_def duplicate_disposition_def)
      next
        case new: False
        let ?d = "deny ops ans (disposition_default\<lparr>di_ingress_id := le_ingress_id entry, di_input_id := le_input_id entry\<rparr>) denied ?co"
        have "co' = fst ?d" "r = Inr (snd ?d)"
          using assms False adm new by (cases ?d; simp add: submit_input_def Inr Let_def route_admitted_def)+
        then show ?thesis using denied by simp
      qed
    qed
  qed
  then show ?thesis by (simp add: ledger_only_def)
qed

theorem denied_input_changes_nothing_witness:
  "\<exists>co' r. submit_input memory_ops demo_answers demo_envelope demo_coordinator = (co', r) \<and> co_runtime co' = demo_runtime \<and>
    co_registry co' = co_registry demo_coordinator \<and> co_delivered co' = []"
proof -
  obtain co' r where run: "submit_input memory_ops demo_answers demo_envelope demo_coordinator = (co', r)" by (metis prod.exhaust)
  have "\<not> permitted (co_config demo_coordinator) (sa_permit_now demo_answers) (ie_principal demo_envelope)"
    by (simp add: permitted_def demo_envelope_def)
  from denied_input_changes_nothing [OF this run] run show ?thesis by (simp add: demo_state_def new_coordinator_def)
qed

text \<open>The routing decision is sound. Whatever the resolver suggests, a decision that names a task
  names a task of the submitting principal with its session; the task is settled when the decision
  resumes it and live in every other case. A decision without a task names no session either and
  starts a task, asks or rejects.\<close>

theorem route_targets_owned_live:
  shows "sound_decision (snapshot (ie_principal envelope) co)
    (decide_route envelope (snapshot (ie_principal envelope) co) (resolver envelope (snapshot (ie_principal envelope) co)))"
  by (rule decide_sound)

text \<open>What the loop over the waiting inputs does, up to the first one that the sink refuses.\<close>

lemma deliver_waiting_outcome:
  "map_of (co_pending co) tid = None \<Longrightarrow> i \<le> length ws \<Longrightarrow> \<forall>j<i. deliver (k + j) = Inr () \<Longrightarrow>
     (i < length ws \<Longrightarrow> \<exists>e. deliver (k + i) = Inl e) \<Longrightarrow> deliver_waiting deliver k tid ws co = (co', r) \<Longrightarrow>
     co_delivered co' = co_delivered co @ map (Pair tid) (take i ws) \<and> pending_of tid co' = take 1 (drop i ws) \<and>
     (r = Inr () \<longleftrightarrow> i = length ws) \<and> co_sinks co' = co_sinks co"
proof (induction ws arbitrary: k i co)
  case Nil
  then show ?case by (auto simp: pending_of_def)
next
  case (Cons w ws)
  show ?case
  proof (cases i)
    case 0
    then show ?thesis using Cons.prems by (auto simp: pending_of_def)
  next
    case (Suc i')
    have "deliver k = Inr ()" using Cons.prems(3) Suc by (metis add_0_right zero_less_Suc)
    moreover have "\<forall>j<i'. deliver (Suc k + j) = Inr ()" using Cons.prems(3) Suc by (metis Suc_less_eq add_Suc_shift)
    ultimately show ?thesis
      using Cons.IH [of "co\<lparr>co_delivered := co_delivered co @ [(tid, w)]\<rparr>" i' "Suc k"] Cons.prems Suc by auto
  qed
qed

text \<open>Registering a sink delivers the inputs that wait for the task in their order. When the sink
  takes all of them nothing waits any more; when it refuses one, the registration fails with the
  sink bound, the refused input waits again, and the inputs behind it neither wait nor were
  delivered.\<close>

theorem register_sink_delivers:
  assumes "length (co_sinks co) < cc_max_sinks (co_config co) \<or> map_of (co_sinks co) tid \<noteq> None"
    and "i \<le> length (pending_of tid co)" "\<forall>j<i. deliver j = Inr ()" "i < length (pending_of tid co) \<Longrightarrow> \<exists>e. deliver i = Inl e"
    and "register_sink deliver tid (Some sk) co = (co', r)"
  shows "co_delivered co' = co_delivered co @ map (Pair tid) (take i (pending_of tid co)) \<and>
    pending_of tid co' = take 1 (drop i (pending_of tid co)) \<and> (r = Inr () \<longleftrightarrow> i = length (pending_of tid co)) \<and>
    map_of (co_sinks co') tid = Some sk"
proof -
  let ?co = "co\<lparr>co_sinks := umap_put tid sk (co_sinks co), co_pending := filter (\<lambda>(k, _). k \<noteq> tid) (co_pending co)\<rparr>"
  have "map_of (co_pending ?co) tid = None" by (auto simp: map_of_eq_None_iff)
  moreover have "deliver_waiting deliver 0 tid (pending_of tid co) ?co = (co', r)"
    using assms(1,5) by (auto simp: register_sink_def not_le split: if_splits)
  ultimately show ?thesis using deliver_waiting_outcome [of ?co tid i "pending_of tid co" deliver 0 co' r] assms(2-4)
    by (simp add: umap_put_def)
qed

theorem register_sink_delivers_witness:
  "\<exists>co' r. register_sink (\<lambda>_. Inl denied) (demo_id 70) (Some 0) demo_coordinator = (co', r) \<and> co_delivered co' = [] \<and>
    pending_of (demo_id 70) co' = [demo_envelope] \<and> length (pending_of (demo_id 70) demo_coordinator) = 2"
proof -
  obtain co' r where run: "register_sink (\<lambda>_. Inl denied) (demo_id 70) (Some 0) demo_coordinator = (co', r)" by (metis prod.exhaust)
  have "length (co_sinks demo_coordinator) < cc_max_sinks (co_config demo_coordinator) \<or> map_of (co_sinks demo_coordinator) (demo_id 70) \<noteq> None"
    by (simp add: demo_state_def new_coordinator_def demo_config_def)
  from register_sink_delivers [OF this _ _ _ run, of 0] run show ?thesis
    by (simp add: demo_state_def new_coordinator_def pending_of_def)
qed

text \<open>A task that the runtime refused is tracked as if it ran. When the session of the new task is
  unknown to the runtime or not autonomous, the command settles as failed, and the coordinator
  still records the task as idle for the principal and goes on with its identifier, which the
  runtime does not know.\<close>

theorem refused_task_is_tracked:
  assumes "rt_state (co_runtime co) = RuntimeState.Running" "rt_queue (co_runtime co) = []"
    and "map_of (rt_handles (co_runtime co)) (sa_submit_command ans) = None" "map_of (tasks (rt_records (co_runtime co))) (sa_task ans) = None"
    and "sa_submit_verdict ans = SubmitAccepted" "sa_submit_wait ans = 1" "goal \<noteq> []"
    and "\<forall>s. map_of (sessions (rt_records (co_runtime co))) sid = Some s \<longrightarrow> ses_state s \<noteq> SessionState.Autonomous"
    and "length (entry_tasks (key_of p) co) < cc_max_tasks_per_principal (co_config co)"
  shows "\<exists>co' t e. create_task ans p sid goal inherited resumed co = (co', Inr (sa_task ans)) \<and>
    t \<in> set (entry_tasks (key_of p) co') \<and> pt_task_id t = sa_task ans \<and> pt_state t = TaskState.Idle \<and>
    task_snapshot (sa_task ans) (co_runtime co') = Inl e \<and> err_code e = ErrorCode.NotFound"
proof -
  let ?rt = "co_runtime co"
  let ?spec = "\<lparr>spec_goal = goal, spec_user_constraints = inherited\<rparr>"
  obtain rt1 where rt1: "submit_task (sa_submit_verdict ans) (sa_submit_command ans) (sa_task ans) sid ?spec ?rt = (rt1, Inr (sa_task ans, sa_submit_command ans))"
    "rt_queue rt1 = [(sa_submit_command ans, Cmd_Records (Cmd_SubmitTask sid (sa_task ans) ?spec))]" "rt_records rt1 = rt_records ?rt"
    "map_of (rt_handles rt1) (sa_submit_command ans) = Some \<lparr>h_id = sa_submit_command ans, h_kind = CommandKind.SubmitTask, h_receipt = None, h_outcome = None\<rparr>"
    using assms(1-3,5,7) by (simp add: submit_task_def enqueue_admitted_def command_kind_def record_command_kind_def Let_def res_bind_def)
  have "(case map_of (sessions (rt_records ?rt)) sid of None \<Rightarrow> True | Some s \<Rightarrow> ses_state s \<noteq> SessionState.Autonomous)"
    using assms(8) by (auto split: option.splits)
  then obtain rt2 oc where rt2: "wait_outcome (sa_host ans) (sa_submit_wait ans) (sa_submit_command ans) rt1 = (rt2, Inr oc)" "rt_records rt2 = rt_records ?rt"
    using rt1 assms(6) by (simp add: wait_outcome_def execute_next_def run_command_def run_records_def run_submit_task_def Let_def set_receipt_def
      set_outcome_def handle_outcome_def)
  have "task_snapshot (sa_task ans) rt2 = Inl (make_error ErrorCode.NotFound ''task was not found'' False)"
    using assms(4) rt2(2) by (simp add: task_snapshot_def)
  moreover let ?t = "\<lparr>pt_task_id = sa_task ans, pt_session_id = sid, pt_state = TaskState.Idle, pt_goal = goal, pt_input_ids = [],
    pt_constraints = inherited, pt_context_block = [], pt_resumed_from = resumed\<rparr>"
  let ?co = "registry_update (key_of p) id (co\<lparr>co_runtime := rt2\<rparr>)"
  let ?co' = "registry_update (key_of p) (\<lambda>pe. pe\<lparr>pe_tasks := pe_tasks pe @ [?t]\<rparr>) ?co"
  have frame: "co_config ?co = co_config co" "co_runtime ?co' = rt2" by (simp_all add: registry_update_def)
  have "pe_tasks (the (map_of (co_registry ?co) (key_of p))) = entry_tasks (key_of p) co"
    by (simp add: registry_update_find entry_tasks_def empty_principal_def split: option.splits)
  then have "create_task ans p sid goal inherited resumed co = (?co', Inr (sa_task ans))"
    using rt1(1) rt2(1) assms(9) frame by (simp add: create_task_def Let_def)
  moreover have "?t \<in> set (entry_tasks (key_of p) ?co')" by (simp add: registry_update_find entry_tasks_def)
  ultimately show ?thesis using frame(2) by (force simp: make_error_def)
qed

theorem refused_task_is_tracked_witness:
  "\<exists>co' e. create_task demo_answers (ie_principal demo_granted) (demo_id 99) ''goal'' [] None demo_coordinator = (co', Inr (demo_id 53)) \<and>
    owns (key_of (ie_principal demo_granted)) (demo_id 53) co' \<and> task_snapshot (demo_id 53) (co_runtime co') = Inl e"
proof -
  have rt: "co_runtime demo_coordinator = demo_runtime" "sa_submit_command demo_answers = demo_id 54" "sa_task demo_answers = demo_id 53"
    "sa_submit_verdict demo_answers = SubmitAccepted" "sa_submit_wait demo_answers = 1"
    by (simp_all add: demo_state_def new_coordinator_def demo_answers_def)
  have "rt_state demo_runtime = RuntimeState.Running" "rt_queue demo_runtime = []" "map_of (rt_handles demo_runtime) (demo_id 54) = None"
    "map_of (tasks (rt_records demo_runtime)) (demo_id 53) = None" "map_of (sessions (rt_records demo_runtime)) (demo_id 99) = None"
    by code_simp+
  moreover have "length (entry_tasks (key_of (ie_principal demo_granted)) demo_coordinator) < cc_max_tasks_per_principal (co_config demo_coordinator)"
    by (simp add: demo_state_def new_coordinator_def entry_tasks_def demo_granted_def key_of_def demo_owned_def demo_config_def)
  ultimately show ?thesis
    using refused_task_is_tracked [of demo_coordinator demo_answers "''goal''" "demo_id 99" "ie_principal demo_granted" "[]" None] rt
    by (force simp: owns_def)
qed

end
