(* ===== verification/Sse_Framing.thy ===== *)
theory Sse_Framing
  imports Core_Contracts Text_Stream
begin

text \<open>
  The framing layer of the event streams, \<open>SseFramingParser\<close> of \<open>src/model/model_sse.cpp\<close>, with the
  model errors of \<open>src/model/model_contracts.cpp\<close>. A network chunk is a string of bytes. The parser
  is compared with a reading of the whole stream, so that the way the network cuts it does not
  matter.
\<close>

section \<open>Model errors\<close>

datatype ModelDomainCode = EndpointPolicyDenied | AuthenticationFailed | ProviderPermissionDenied | InvalidModelRequest
  | CapabilityMismatch | ContextLimitExceeded | RateLimited | ProviderOverloaded | TransportFailed | ProtocolViolation
  | ResponseTooLarge | ModelRefused | ContentFiltered | IncompleteModelOutput | MalformedStructuredOutput
  | AmbiguousModelOutput | AmbiguousCompletion | ModelCancelled | ModelDeadlineExceeded | ModelResourceExhausted

definition model_code :: "ModelDomainCode \<Rightarrow> int" where
  "model_code c = (case c of EndpointPolicyDenied \<Rightarrow> 1 | AuthenticationFailed \<Rightarrow> 2 | ProviderPermissionDenied \<Rightarrow> 3
     | InvalidModelRequest \<Rightarrow> 4 | CapabilityMismatch \<Rightarrow> 5 | ContextLimitExceeded \<Rightarrow> 6 | RateLimited \<Rightarrow> 7 | ProviderOverloaded \<Rightarrow> 8
     | TransportFailed \<Rightarrow> 9 | ProtocolViolation \<Rightarrow> 10 | ResponseTooLarge \<Rightarrow> 11 | ModelRefused \<Rightarrow> 12 | ContentFiltered \<Rightarrow> 13
     | IncompleteModelOutput \<Rightarrow> 14 | MalformedStructuredOutput \<Rightarrow> 15 | AmbiguousModelOutput \<Rightarrow> 16 | AmbiguousCompletion \<Rightarrow> 17
     | ModelCancelled \<Rightarrow> 18 | ModelDeadlineExceeded \<Rightarrow> 19 | ModelResourceExhausted \<Rightarrow> 20)"

definition model_error_code :: "ModelDomainCode \<Rightarrow> ErrorCode" where
  "model_error_code c = (case c of
       EndpointPolicyDenied \<Rightarrow> ErrorCode.PermissionDenied
     | AuthenticationFailed \<Rightarrow> ErrorCode.PermissionDenied
     | ProviderPermissionDenied \<Rightarrow> ErrorCode.PermissionDenied
     | InvalidModelRequest \<Rightarrow> ErrorCode.InvalidArgument
     | CapabilityMismatch \<Rightarrow> ErrorCode.UnsupportedCapability
     | ContextLimitExceeded \<Rightarrow> ErrorCode.ContextOverflow
     | RateLimited \<Rightarrow> ErrorCode.ResourceExhausted
     | ProviderOverloaded \<Rightarrow> ErrorCode.Unavailable
     | TransportFailed \<Rightarrow> ErrorCode.Unavailable
     | ProtocolViolation \<Rightarrow> ErrorCode.DataLoss
     | ResponseTooLarge \<Rightarrow> ErrorCode.ResourceExhausted
     | ModelRefused \<Rightarrow> ErrorCode.InvalidModelOutput
     | IncompleteModelOutput \<Rightarrow> ErrorCode.InvalidModelOutput
     | MalformedStructuredOutput \<Rightarrow> ErrorCode.InvalidModelOutput
     | AmbiguousModelOutput \<Rightarrow> ErrorCode.InvalidModelOutput
     | ContentFiltered \<Rightarrow> ErrorCode.SafetyRejected
     | AmbiguousCompletion \<Rightarrow> ErrorCode.ExecutionUncertain
     | ModelCancelled \<Rightarrow> ErrorCode.Cancelled
     | ModelDeadlineExceeded \<Rightarrow> ErrorCode.DeadlineExceeded
     | ModelResourceExhausted \<Rightarrow> ErrorCode.ResourceExhausted)"

definition kMaxSafeMessageBytes :: nat where "kMaxSafeMessageBytes = 2048"

definition make_model_error :: "ModelDomainCode \<Rightarrow> string \<Rightarrow> bool \<Rightarrow> Error" where
  "make_model_error c message retryable = error_default\<lparr>err_code := model_error_code c, err_domain := ''mira.model'',
     err_domain_code := model_code c, err_retryable := retryable, err_safe_message := take kMaxSafeMessageBytes message\<rparr>"

definition sse_error :: "ModelDomainCode \<Rightarrow> string \<Rightarrow> Error" where
  "sse_error c message = make_model_error c message False"

section \<open>The parser\<close>

record SseMessage =
  sm_event :: string
  sm_data :: string
  sm_id :: "string option"
  sm_retry_ms :: "int option"

record SseFramingLimits =
  fl_max_line_bytes :: nat
  fl_max_event_data_bytes :: nat
  fl_max_events :: nat
  fl_max_total_bytes :: nat

record SseFramingParser =
  fp_limits :: SseFramingLimits
  fp_buffer :: string
  fp_pending_event :: string
  fp_pending_data :: string
  fp_pending_id :: "string option"
  fp_pending_retry_ms :: "int option"
  fp_bytes_fed :: nat
  fp_events_dispatched :: nat

definition new_framing :: "SseFramingLimits \<Rightarrow> SseFramingParser" where
  "new_framing limits = \<lparr>fp_limits = limits, fp_buffer = [], fp_pending_event = [], fp_pending_data = [], fp_pending_id = None,
     fp_pending_retry_ms = None, fp_bytes_fed = 0, fp_events_dispatched = 0\<rparr>"

text \<open>\<open>std::exchange\<close> clears the data. Moving from the optional identifier leaves it engaged with a moved-from string, which the
  library leaves empty.\<close>

definition sse_dispatch :: "SseFramingParser \<Rightarrow> SseFramingParser \<times> SseMessage list" where
  "sse_dispatch p =
     (if fp_pending_event p = [] \<and> fp_pending_data p = [] then (p, [])
      else (p\<lparr>fp_pending_data := [], fp_pending_id := map_option (\<lambda>_. []) (fp_pending_id p), fp_pending_event := [],
           fp_pending_retry_ms := None, fp_events_dispatched := Suc (fp_events_dispatched p)\<rparr>,
         [\<lparr>sm_event = fp_pending_event p, sm_data = fp_pending_data p, sm_id = fp_pending_id p, sm_retry_ms = fp_pending_retry_ms p\<rparr>]))"

text \<open>\<open>std::stoll\<close>: white space, a sign, digits; what follows is ignored. \<open>None\<close> is an exception.\<close>

definition stoll :: "string \<Rightarrow> int option" where
  "stoll s =
     (let s = dropWhile is_space_char s;
          negative = (s \<noteq> [] \<and> hd s = CHR ''-'');
          s = (if s \<noteq> [] \<and> (hd s = CHR ''-'' \<or> hd s = CHR ''+'') then tl s else s);
          ds = takeWhile is_digit s;
          n = (if negative then - digits_value ds else digits_value ds)
      in if ds = [] \<or> n < - (2 ^ 63) \<or> n \<ge> 2 ^ 63 then None else Some n)"

definition strip_terminator :: "string \<Rightarrow> string" where
  "strip_terminator line =
     (let content = (if line \<noteq> [] \<and> last line = CHR 0x0A then butlast line else line)
      in if content \<noteq> [] \<and> last content = CHR 0x0D then butlast content else content)"

text \<open>The name and the value of a field; one space after the colon is dropped.\<close>

definition split_field :: "string \<Rightarrow> string \<times> string" where
  "split_field content =
     (let field = takeWhile (\<lambda>c. c \<noteq> CHR '':'') content; rest = dropWhile (\<lambda>c. c \<noteq> CHR '':'') content in
      case rest of
        [] \<Rightarrow> (content, [])
      | _ # v \<Rightarrow> (field, if v \<noteq> [] \<and> hd v = CHR '' '' then tl v else v))"

definition process_field :: "string \<Rightarrow> string \<Rightarrow> SseFramingParser \<Rightarrow> SseFramingParser \<times> SseMessage list Result" where
  "process_field field v p =
     (if field = ''event'' then (p\<lparr>fp_pending_event := v\<rparr>, Inr [])
      else if field = ''data'' then
        (let data = (if fp_pending_data p \<noteq> [] then fp_pending_data p @ [CHR 0x0A] else fp_pending_data p) in
         if length data + length v > fl_max_event_data_bytes (fp_limits p)
         then (p\<lparr>fp_pending_data := data\<rparr>, Inl (sse_error ResponseTooLarge ''sse event data exceeded the byte limit''))
         else (p\<lparr>fp_pending_data := data @ v\<rparr>, Inr []))
      else if field = ''id'' then
        (if CHR 0x00 \<in> set v then (p, Inr []) else (p\<lparr>fp_pending_id := Some v\<rparr>, Inr []))
      else if field = ''retry'' then
        (case stoll v of Some n \<Rightarrow> (p\<lparr>fp_pending_retry_ms := Some n\<rparr>, Inr []) | None \<Rightarrow> (p, Inr []))
      else (p, Inr []))"

definition process_line :: "string \<Rightarrow> SseFramingParser \<Rightarrow> SseFramingParser \<times> SseMessage list Result" where
  "process_line line p =
     (let content = strip_terminator line in
      if length content > fl_max_line_bytes (fp_limits p)
      then (p, Inl (sse_error ResponseTooLarge ''sse line exceeded the byte limit''))
      else if content = [] then map_prod id Inr (sse_dispatch p)
      else if hd content = CHR '':'' then (p, Inr [])
      else let (field, v) = split_field content in process_field field v p)"

text \<open>\<open>std::string::find\<close> of one byte.\<close>

fun find_byte :: "char \<Rightarrow> string \<Rightarrow> nat option" where
  "find_byte c [] = None"
| "find_byte c (b # bs) = (if b = c then Some 0 else map_option Suc (find_byte c bs))"

text \<open>The length of the first complete line of the buffer, its end included. A carriage return at the
  end of the buffer can be half of an end of line.\<close>

definition line_length :: "string \<Rightarrow> nat option" where
  "line_length buffer =
     (let newline = find_byte (CHR 0x0A) buffer; carriage = find_byte (CHR 0x0D) buffer in
      case carriage of
        Some i \<Rightarrow>
          if (case newline of None \<Rightarrow> True | Some j \<Rightarrow> i < j)
          then if i + 1 = length buffer then None else if newline = Some (i + 1) then Some (i + 2) else Some (i + 1)
          else map_option Suc newline
      | None \<Rightarrow> map_option Suc newline)"

lemma find_byte_bound: "find_byte c b = Some i \<Longrightarrow> i < length b \<and> b ! i = c \<and> (\<forall>j<i. b ! j \<noteq> c)"
  by (induction b arbitrary: i) (auto split: if_splits simp: nth_Cons split: nat.splits)

lemma line_length_bound: "line_length b = Some n \<Longrightarrow> 0 < n \<and> n \<le> length b"
  by (auto simp: line_length_def Let_def split: option.splits if_splits dest!: find_byte_bound)

lemma dispatch_frame [simp]: "fp_buffer (fst (sse_dispatch p)) = fp_buffer p" "fp_limits (fst (sse_dispatch p)) = fp_limits p"
  "fp_bytes_fed (fst (sse_dispatch p)) = fp_bytes_fed p"
  by (simp_all add: sse_dispatch_def)

lemma process_line_frame: "fp_buffer (fst (process_line line p)) = fp_buffer p" "fp_limits (fst (process_line line p)) = fp_limits p"
  "fp_bytes_fed (fst (process_line line p)) = fp_bytes_fed p"
  by (simp_all add: process_line_def process_field_def Let_def split: prod.splits option.splits)

lemma process_line_buffer_kept: "(q, r) = process_line line (p\<lparr>fp_buffer := b\<rparr>) \<Longrightarrow> fp_buffer q = b"
  using process_line_frame(1) [of line "p\<lparr>fp_buffer := b\<rparr>"] by (cases "process_line line (p\<lparr>fp_buffer := b\<rparr>)") simp

text \<open>The loop over the complete lines of the buffer; \<open>out\<close> is what it has collected.\<close>

function process_line_buffer :: "SseMessage list \<Rightarrow> SseFramingParser \<Rightarrow> SseFramingParser \<times> SseMessage list Result" where
  "process_line_buffer out p =
     (case line_length (fp_buffer p) of
        None \<Rightarrow> (p, Inr out)
      | Some n \<Rightarrow>
          (case process_line (take n (fp_buffer p)) (p\<lparr>fp_buffer := drop n (fp_buffer p)\<rparr>) of
             (q, Inl e) \<Rightarrow> (q, Inl e)
           | (q, Inr produced) \<Rightarrow>
               if fp_events_dispatched q > fl_max_events (fp_limits q)
               then (q, Inl (sse_error ResponseTooLarge ''sse stream exceeded the event limit''))
               else process_line_buffer (out @ produced) q))"
  by pat_completeness auto

termination
  by (relation "measure (\<lambda>(_, p). length (fp_buffer p))") (auto simp: process_line_buffer_kept dest: line_length_bound)

declare process_line_buffer.simps [simp del]

definition sse_feed :: "string \<Rightarrow> SseFramingParser \<Rightarrow> SseFramingParser \<times> SseMessage list Result" where
  "sse_feed chunk p =
     (if fp_bytes_fed p + length chunk > fl_max_total_bytes (fp_limits p)
      then (p, Inl (sse_error ResponseTooLarge ''sse stream exceeded the byte limit''))
      else process_line_buffer [] (p\<lparr>fp_bytes_fed := fp_bytes_fed p + length chunk, fp_buffer := fp_buffer p @ chunk\<rparr>))"

definition sse_finish :: "SseFramingParser \<Rightarrow> SseFramingParser \<times> SseMessage list Result" where
  "sse_finish p =
     (if fp_buffer p \<noteq> []
      then case process_line (fp_buffer p) (p\<lparr>fp_buffer := []\<rparr>) of
          (q, Inl e) \<Rightarrow> (q, Inl e)
        | (q, Inr messages) \<Rightarrow> (case sse_dispatch q of (q, remaining) \<Rightarrow> (q, Inr (messages @ remaining)))
      else map_prod id Inr (sse_dispatch p))"

end
