(* ===== verification/Sse_Reading.thy ===== *)
theory Sse_Reading
  imports Sse_Framing
begin

text \<open>
  What the framing layer reads, independent of the chunks: the complete lines of a text and the
  rest, the messages of a list of lines, and the lemmas that put two chunks together. A feed that
  succeeds is the reading of the lines that the text so far completes.
\<close>

section \<open>Lines\<close>

function chop_lines :: "string \<Rightarrow> string list \<times> string" where
  "chop_lines b = (case line_length b of
      None \<Rightarrow> ([], b)
    | Some n \<Rightarrow> (case chop_lines (drop n b) of (ls, rest) \<Rightarrow> (take n b # ls, rest)))"
  by pat_completeness auto

termination
  by (relation "measure length") (auto dest: line_length_bound)

declare chop_lines.simps [simp del]

lemma line_length_Nil [simp]: "line_length [] = None"
  by (simp add: line_length_def)

lemma line_length_Cons: "line_length (c # b) =
    (if c = CHR 0x0A then Some 1
     else if c = CHR 0x0D then (case b of [] \<Rightarrow> None | d # _ \<Rightarrow> Some (if d = CHR 0x0A then 2 else 1))
     else map_option Suc (line_length b))"
  by (cases "find_byte (CHR 0x0A) b"; cases "find_byte (CHR 0x0D) b")
    (auto simp: line_length_def Let_def split: list.splits option.splits dest: find_byte_bound)

text \<open>A complete line stays the first line when more bytes arrive.\<close>

lemma line_length_append: "line_length b = Some n \<Longrightarrow> line_length (b @ d) = Some n"
  by (induction b arbitrary: n) (auto simp: line_length_Cons split: if_splits list.splits)

lemma chop_lines_append:
  "chop_lines b = (ls, rest) \<Longrightarrow> chop_lines (rest @ d) = (ls', rest') \<Longrightarrow> chop_lines (b @ d) = (ls @ ls', rest')"
proof (induction b arbitrary: ls rule: chop_lines.induct)
  case (1 b)
  show ?case
  proof (cases "line_length b")
    case None
    then show ?thesis using 1 by (simp add: chop_lines.simps [of b])
  next
    case (Some n)
    obtain ls0 where rec: "chop_lines (drop n b) = (ls0, rest)" "ls = take n b # ls0"
      using 1(2) Some by (auto simp: chop_lines.simps [of b] split: prod.splits)
    have "chop_lines (drop n b @ d) = (ls0 @ ls', rest')" using 1(1) [OF Some rec(1) 1(3)] .
    then show ?thesis using line_length_append [OF Some, of d] line_length_bound [OF Some] rec(2)
      by (simp add: chop_lines.simps [of "b @ d"])
  qed
qed

lemma chop_lines_rest: "chop_lines b = (ls, rest) \<Longrightarrow> line_length rest = None"
proof (induction b arbitrary: ls rule: chop_lines.induct)
  case (1 b)
  then show ?case by (cases "line_length b") (auto simp: chop_lines.simps [of b] split: prod.splits)
qed

lemma chop_lines_done: "line_length b = None \<Longrightarrow> chop_lines b = ([], b)"
  by (simp add: chop_lines.simps)

section \<open>Reading lines\<close>

fun read_lines :: "string list \<Rightarrow> SseFramingParser \<Rightarrow> SseFramingParser \<times> SseMessage list Result" where
  "read_lines [] p = (p, Inr [])"
| "read_lines (l # ls) p =
     (case process_line l p of
        (q, Inl e) \<Rightarrow> (q, Inl e)
      | (q, Inr produced) \<Rightarrow>
          if fp_events_dispatched q > fl_max_events (fp_limits q)
          then (q, Inl (sse_error ResponseTooLarge ''sse stream exceeded the event limit''))
          else (case read_lines ls q of (q', Inl e) \<Rightarrow> (q', Inl e) | (q', Inr rest) \<Rightarrow> (q', Inr (produced @ rest))))"

text \<open>The buffer and the byte count do not matter for a line.\<close>

abbreviation with_input :: "nat \<Rightarrow> string \<Rightarrow> SseFramingParser \<Rightarrow> SseFramingParser" where
  "with_input n b p \<equiv> p\<lparr>fp_bytes_fed := n, fp_buffer := b\<rparr>"

lemma process_line_input: "process_line l (with_input n b p) = map_prod (with_input n b) id (process_line l p)"
  by (simp add: process_line_def process_field_def sse_dispatch_def Let_def split: prod.splits option.splits)

lemma read_lines_input: "read_lines ls (with_input n b p) = map_prod (with_input n b) id (read_lines ls p)"
proof (induction ls arbitrary: p)
  case (Cons l ls)
  then show ?case by (auto simp: process_line_input split: prod.splits sum.splits)
qed simp

lemma read_lines_frame: "read_lines ls p = (q, r) \<Longrightarrow> fp_limits q = fp_limits p \<and> fp_bytes_fed q = fp_bytes_fed p \<and> fp_buffer q = fp_buffer p"
proof (induction ls arbitrary: p r)
  case (Cons l ls)
  obtain q0 r0 where q0: "process_line l p = (q0, r0)" by force
  then show ?case using process_line_frame [of l p] Cons by (auto split: sum.splits if_splits prod.splits)
qed simp

lemma produced_Inr: "(case x of (q', Inl e) \<Rightarrow> (q', Inl e) | (q', Inr rest) \<Rightarrow> (q', Inr (a @ rest))) = (q, Inr ms) \<longleftrightarrow>
    (\<exists>ms'. x = (q, Inr ms') \<and> ms = a @ ms')"
  by (auto split: prod.splits sum.splits)

lemma read_lines_append: "read_lines (ls @ ls') p = (q, Inr ms) \<longleftrightarrow>
    (\<exists>q1 ms1 ms2. read_lines ls p = (q1, Inr ms1) \<and> read_lines ls' q1 = (q, Inr ms2) \<and> ms = ms1 @ ms2)"
proof (induction ls arbitrary: p ms)
  case (Cons l ls)
  obtain q0 r0 where "process_line l p = (q0, r0)" by force
  then show ?case by (cases r0) (auto simp: produced_Inr Cons.IH)
qed simp

section \<open>Feeding\<close>

lemma process_line_buffer_reads: "process_line_buffer out p = (q, Inr ms) \<longleftrightarrow>
    (\<exists>ls rest ms'. chop_lines (fp_buffer p) = (ls, rest) \<and> read_lines ls (p\<lparr>fp_buffer := rest\<rparr>) = (q, Inr ms') \<and> ms = out @ ms')"
proof (induction out p arbitrary: ms rule: process_line_buffer.induct)
  case (1 out p)
  show ?case
  proof (cases "line_length (fp_buffer p)")
    case None
    then show ?thesis by (auto simp: process_line_buffer.simps [of out p] chop_lines_done)
  next
    case (Some n)
    let ?b = "drop n (fp_buffer p)"
    obtain q0 r0 where q0: "process_line (take n (fp_buffer p)) (p\<lparr>fp_buffer := ?b\<rparr>) = (q0, r0)" by force
    obtain ls rest where chop: "chop_lines ?b = (ls, rest)" by force
    have buf: "fp_buffer q0 = ?b" using process_line_buffer_kept q0 by metis
    have line: "process_line (take n (fp_buffer p)) (p\<lparr>fp_buffer := rest\<rparr>) = (q0\<lparr>fp_buffer := rest\<rparr>, r0)"
      using process_line_input [of "take n (fp_buffer p)" rest "fp_bytes_fed p" "p\<lparr>fp_buffer := ?b\<rparr>"] q0
        process_line_frame(3) [of "take n (fp_buffer p)" "p\<lparr>fp_buffer := ?b\<rparr>"] by simp
    show ?thesis
    proof (cases r0)
      case (Inr produced)
      note IH = 1 [OF Some q0 [symmetric] Inr]
      show ?thesis using IH chop buf line Some Inr q0
        by (auto simp: process_line_buffer.simps [of out p] chop_lines.simps [of "fp_buffer p"] produced_Inr)
    qed (use q0 line chop Some in \<open>simp add: process_line_buffer.simps [of out p] chop_lines.simps [of "fp_buffer p"]\<close>)
  qed
qed

lemma sse_feed_reads: "sse_feed chunk p = (q, Inr ms) \<longleftrightarrow> fp_bytes_fed p + length chunk \<le> fl_max_total_bytes (fp_limits p) \<and>
    (\<exists>ls rest. chop_lines (fp_buffer p @ chunk) = (ls, rest) \<and>
      read_lines ls (with_input (fp_bytes_fed p + length chunk) rest p) = (q, Inr ms))"
  by (auto simp: sse_feed_def process_line_buffer_reads)

text \<open>Feeding two chunks one after the other is feeding them together.\<close>

lemma sse_feed_append: "sse_feed (a @ c) p = (q, Inr ms) \<longleftrightarrow>
    (\<exists>q1 ms1 ms2. sse_feed a p = (q1, Inr ms1) \<and> sse_feed c q1 = (q, Inr ms2) \<and> ms = ms1 @ ms2)"
proof -
  obtain ls rest where chop: "chop_lines (fp_buffer p @ a) = (ls, rest)" by force
  obtain ls' rest' where chop': "chop_lines (rest @ c) = (ls', rest')" by force
  have "chop_lines (fp_buffer p @ a @ c) = (ls @ ls', rest')" using chop_lines_append [OF chop chop'] by simp
  moreover obtain x r where x: "read_lines ls p = (x, r)" by force
  moreover have "read_lines ls (with_input n b p) = (with_input n b x, r)" for n b by (simp add: read_lines_input x)
  ultimately show ?thesis using chop chop' read_lines_frame [OF x]
    by (cases r) (auto simp: sse_feed_reads read_lines_append add.assoc)
qed

text \<open>The chunks of a stream, then its end.\<close>

fun feed_all :: "string list \<Rightarrow> SseFramingParser \<Rightarrow> SseFramingParser \<times> SseMessage list Result" where
  "feed_all [] p = (p, Inr [])"
| "feed_all (c # cs) p =
     (case sse_feed c p of
        (q, Inl e) \<Rightarrow> (q, Inl e)
      | (q, Inr ms) \<Rightarrow> (case feed_all cs q of (q', Inl e) \<Rightarrow> (q', Inl e) | (q', Inr rest) \<Rightarrow> (q', Inr (ms @ rest))))"

definition sse_run :: "SseFramingLimits \<Rightarrow> string list \<Rightarrow> SseMessage list Result" where
  "sse_run limits cs =
     (case feed_all cs (new_framing limits) of
        (p, Inl e) \<Rightarrow> Inl e
      | (p, Inr ms) \<Rightarrow> (case sse_finish p of (_, Inl e) \<Rightarrow> Inl e | (_, Inr rest) \<Rightarrow> Inr (ms @ rest)))"

text \<open>A parser between two chunks.\<close>

definition settled :: "SseFramingParser \<Rightarrow> bool" where
  "settled p \<longleftrightarrow> line_length (fp_buffer p) = None \<and> fp_bytes_fed p \<le> fl_max_total_bytes (fp_limits p)"

lemma settled_new [simp]: "settled (new_framing limits)"
  by (simp add: settled_def new_framing_def)

lemma settled_feed: "sse_feed chunk p = (q, Inr ms) \<Longrightarrow> settled q"
  by (auto simp: sse_feed_reads settled_def dest!: read_lines_frame chop_lines_rest)

lemma feed_nothing: "settled p \<Longrightarrow> sse_feed [] p = (p, Inr [])"
  by (simp add: sse_feed_reads settled_def chop_lines_done)

lemma feed_all_concat: "settled p \<Longrightarrow> feed_all cs p = (q, Inr ms) \<longleftrightarrow> sse_feed (concat cs) p = (q, Inr ms)"
proof (induction cs arbitrary: p ms)
  case Nil
  then show ?case by (simp add: feed_nothing)
next
  case (Cons c cs)
  obtain q0 r0 where q0: "sse_feed c p = (q0, r0)" by force
  then show ?case using settled_feed [of c p q0] by (cases r0) (auto simp: produced_Inr Cons.IH sse_feed_append)
qed

end
