(* ===== verification/Response_Stream.thy ===== *)
theory Response_Stream
  imports Sse_Reading Json
begin

unbundle bit_operations_syntax

text \<open>
  The reducer of \<open>openai.responses.v1\<close> streams, \<open>ResponsesSseParser\<close> of \<open>src/model/model_sse.cpp\<close>, over
  the framing layer, with the previews of \<open>src/model/model_thinking_preview.hpp\<close>. The framer and
  \<open>stats_.bytes\<close>, which the reducer never touches, are fields of the parser beside the state of the
  reducer. The decoder of the terminal body and the empty response are arguments.
\<close>

section \<open>Limits, counters and previews\<close>

record SseStreamLimits =
  ss_framing :: SseFramingLimits
  ss_max_open_output_items :: nat
  ss_max_accumulated_text_bytes :: nat
  ss_max_arguments_buffer_bytes :: nat
  ss_max_preview_bytes :: nat

record SseStreamStats =
  st_stream_sequence :: u64
  st_last_remote_sequence :: "int option"
  st_events :: nat
  st_text_deltas :: nat
  st_preview_drops :: nat
  st_terminal_seen :: bool
  st_cancel_seen :: bool
  st_thinking_preview_drops :: nat

definition stats_default :: SseStreamStats where
  "stats_default = \<lparr>st_stream_sequence = 0, st_last_remote_sequence = None, st_events = 0, st_text_deltas = 0, st_preview_drops = 0,
     st_terminal_seen = False, st_cancel_seen = False, st_thinking_preview_drops = 0\<rparr>"

record Preview =
  pv_text :: string
  pv_dropped_updates :: nat
  pv_truncated :: bool

text \<open>\<open>boundary\<close>: the position after the continuation bytes, as the text from there.\<close>

definition from_boundary :: "string \<Rightarrow> string" where
  "from_boundary t = dropWhile (\<lambda>c. (of_char c :: int) AND 0xC0 = 0x80) t"

definition append_thinking_preview :: "string \<Rightarrow> string \<Rightarrow> nat \<Rightarrow> string \<times> nat" where
  "append_thinking_preview buffer delta limit =
     (if delta = [] then (buffer, 0)
      else if length delta > limit then (from_boundary (drop (length delta - limit) delta), 1)
      else if length buffer > limit - length delta
      then (from_boundary (drop (length buffer - (limit - length delta)) buffer) @ delta, 1)
      else (buffer @ delta, 0))"

definition take_preview_of :: "string \<Rightarrow> nat \<Rightarrow> Preview" where
  "take_preview_of t drops = \<lparr>pv_text = t, pv_dropped_updates = drops, pv_truncated = (drops \<noteq> 0)\<rparr>"

section \<open>The parsers over the framing layer\<close>

record 'c stream_parser =
  sp_framer :: SseFramingParser
  sp_bytes :: nat
  sp_state :: 'c

fun reduce_all :: "(SseMessage \<Rightarrow> 'c \<Rightarrow> 'c \<times> unit Result) \<Rightarrow> SseMessage list \<Rightarrow> 'c \<Rightarrow> 'c \<times> unit Result" where
  "reduce_all reduce [] c = (c, Inr ())"
| "reduce_all reduce (m # ms) c =
     (case reduce m c of (c', Inl e) \<Rightarrow> (c', Inl e) | (c', Inr _) \<Rightarrow> reduce_all reduce ms c')"

section \<open>The state of the reducer\<close>

record OpenItem =
  oi_item_id :: string
  oi_type :: string
  oi_closed :: bool
  oi_open_parts :: "string list"
  oi_text :: string
  oi_args :: string
  oi_refusal :: string
  oi_text_done :: bool
  oi_args_done :: bool
  oi_refusal_done :: bool

definition new_item :: "string \<Rightarrow> string \<Rightarrow> OpenItem" where
  "new_item item_id type = \<lparr>oi_item_id = item_id, oi_type = type, oi_closed = False, oi_open_parts = [], oi_text = [], oi_args = [],
     oi_refusal = [], oi_text_done = False, oi_args_done = False, oi_refusal_done = False\<rparr>"

record 'r ResponsesState =
  rr_limits :: SseStreamLimits
  rr_items :: "OpenItem list"
  rr_accumulated_text :: string
  rr_reasoning_bytes :: nat
  rr_preview_text :: string
  rr_preview_drops :: nat
  rr_terminal_seen :: bool
  rr_cancel_seen :: bool
  rr_terminal_response :: "'r option"
  rr_stats :: SseStreamStats
  rr_thinking_preview :: string
  rr_thinking_preview_drops :: nat

type_synonym 'r ResponsesSseParser = "'r ResponsesState stream_parser"

definition new_responses :: "SseStreamLimits \<Rightarrow> 'r ResponsesSseParser" where
  "new_responses limits = \<lparr>sp_framer = new_framing (ss_framing limits), sp_bytes = 0, sp_state = \<lparr>rr_limits = limits, rr_items = [],
     rr_accumulated_text = [], rr_reasoning_bytes = 0, rr_preview_text = [], rr_preview_drops = 0, rr_terminal_seen = False,
     rr_cancel_seen = False, rr_terminal_response = None, rr_stats = stats_default, rr_thinking_preview = [],
     rr_thinking_preview_drops = 0\<rparr>\<rparr>"

definition find_open_item :: "string \<Rightarrow> 'r ResponsesState \<Rightarrow> OpenItem option" where
  "find_open_item item_id s = List.find (\<lambda>it. oi_item_id it = item_id) (rr_items s)"

text \<open>A change through the pointer that \<open>find_open_item\<close> returns.\<close>

fun change_item :: "string \<Rightarrow> (OpenItem \<Rightarrow> OpenItem) \<Rightarrow> OpenItem list \<Rightarrow> OpenItem list" where
  "change_item k f [] = []"
| "change_item k f (it # items) = (if oi_item_id it = k then f it # items else it # change_item k f items)"

definition with_item :: "string \<Rightarrow> (OpenItem \<Rightarrow> OpenItem) \<Rightarrow> 'r ResponsesState \<Rightarrow> 'r ResponsesState" where
  "with_item k f s = s\<lparr>rr_items := change_item k f (rr_items s)\<rparr>"

definition violation :: "string \<Rightarrow> Error" where
  "violation message = sse_error ProtocolViolation message"

definition too_large :: "string \<Rightarrow> Error" where
  "too_large message = sse_error ResponseTooLarge message"

section \<open>One event\<close>

definition member_string :: "JsonValue \<Rightarrow> string \<Rightarrow> string option" where
  "member_string v key = Option.bind (json_find v key) as_string"

text \<open>
  The sequence numbers are signed 64-bit integers. The successor of the largest one is undefined
  in C++; the model wraps it, as the targets do.
\<close>

definition check_remote_sequence :: "JsonValue \<Rightarrow> 'r ResponsesState \<Rightarrow> 'r ResponsesState \<times> unit Result" where
  "check_remote_sequence data s =
     (case json_find data ''sequence_number'' of
        None \<Rightarrow> (s, Inr ())
      | Some (JInteger n) \<Rightarrow>
          (let put = s\<lparr>rr_stats := (rr_stats s)\<lparr>st_last_remote_sequence := Some n\<rparr>\<rparr> in
           case st_last_remote_sequence (rr_stats s) of
             None \<Rightarrow> (put, Inr ())
           | Some l \<Rightarrow> if n = l then (s, Inr ())
               else if n \<noteq> sint (word_of_int (l + 1) :: 64 word) then (s, Inl (violation ''remote sequence gap detected in sse stream''))
               else (put, Inr ()))
      | Some _ \<Rightarrow> (s, Inl (violation ''remote sequence number is not an integer'')))"

definition append_preview :: "string \<Rightarrow> 'r ResponsesState \<Rightarrow> 'r ResponsesState" where
  "append_preview delta s =
     (if length (rr_preview_text s) + length delta > ss_max_preview_bytes (rr_limits s)
      then s\<lparr>rr_preview_drops := Suc (rr_preview_drops s)\<rparr>
      else s\<lparr>rr_preview_text := rr_preview_text s @ delta\<rparr>)"

text \<open>The open item that the member \<open>item_id\<close> names.\<close>

definition event_item :: "string \<Rightarrow> string \<Rightarrow> JsonValue \<Rightarrow> 'r ResponsesState \<Rightarrow> OpenItem Result" where
  "event_item no_id closed data s =
     (case member_string data ''item_id'' of
        None \<Rightarrow> Inl (violation no_id)
      | Some k \<Rightarrow> (case find_open_item k s of
          None \<Rightarrow> Inl (violation closed)
        | Some it \<Rightarrow> if oi_closed it then Inl (violation closed) else Inr it))"

definition item_added :: "JsonValue \<Rightarrow> 'r ResponsesState \<Rightarrow> 'r ResponsesState \<times> unit Result" where
  "item_added data s =
     (case json_find data ''item'' of
        Some (JObject ms) \<Rightarrow>
          (case (member_string (JObject ms) ''id'', member_string (JObject ms) ''type'') of
             (Some k, Some type) \<Rightarrow>
               if find_open_item k s \<noteq> None then (s, Inl (violation ''output item id was reused before completion''))
               else if length (rr_items s) \<ge> ss_max_open_output_items (rr_limits s)
               then (s, Inl (sse_error ModelResourceExhausted ''too many concurrent output items''))
               else (s\<lparr>rr_items := rr_items s @ [new_item k type]\<rparr>, Inr ())
           | _ \<Rightarrow> (s, Inl (violation ''output_item.added carries no id or type'')))
      | _ \<Rightarrow> (s, Inl (violation ''output_item.added carries no item object'')))"

definition item_done :: "JsonValue \<Rightarrow> 'r ResponsesState \<Rightarrow> 'r ResponsesState \<times> unit Result" where
  "item_done data s =
     (case json_find data ''item'' of
        Some (JObject ms) \<Rightarrow>
          (case member_string (JObject ms) ''id'' of
             None \<Rightarrow> (s, Inl (violation ''output_item.done carries no item id''))
           | Some k \<Rightarrow>
               (case find_open_item k s of
                  None \<Rightarrow> (s, Inl (violation ''output_item.done has no matching added event''))
                | Some it \<Rightarrow>
                    if oi_closed it then (s, Inl (violation ''output_item.done has no matching added event''))
                    else if oi_open_parts it \<noteq> [] then (s, Inl (violation ''output item completed with open content parts''))
                    else if oi_type it = ''function_call'' \<and> \<not> oi_args_done it
                    then (s, Inl (violation ''function call completed without arguments done''))
                    else (with_item k (\<lambda>it. it\<lparr>oi_closed := True\<rparr>) s, Inr ())))
      | _ \<Rightarrow> (s, Inl (violation ''output_item.done carries no item object'')))"

definition part_key :: "JsonValue \<Rightarrow> string" where
  "part_key data = (case json_find data ''output_index'' of Some (JInteger n) \<Rightarrow> show_int n | _ \<Rightarrow> ''default'')"

definition part_event :: "bool \<Rightarrow> JsonValue \<Rightarrow> 'r ResponsesState \<Rightarrow> 'r ResponsesState \<times> unit Result" where
  "part_event added data s =
     (case event_item ''content part event carries no item id'' ''content part event references a closed item'' data s of
        Inl e \<Rightarrow> (s, Inl e)
      | Inr it \<Rightarrow>
          let key = part_key data in
          if added
          then if key \<in> set (oi_open_parts it) then (s, Inl (violation ''content part added twice without completion''))
               else (with_item (oi_item_id it) (\<lambda>it. it\<lparr>oi_open_parts := oi_open_parts it @ [key]\<rparr>) s, Inr ())
          else if key \<notin> set (oi_open_parts it) then (s, Inl (violation ''content_part.done has no matching added event''))
          else (with_item (oi_item_id it) (\<lambda>it. it\<lparr>oi_open_parts := remove1 key (oi_open_parts it)\<rparr>) s, Inr ()))"

definition text_delta :: "JsonValue \<Rightarrow> 'r ResponsesState \<Rightarrow> 'r ResponsesState \<times> unit Result" where
  "text_delta data s =
     (case event_item ''text delta carries no item id'' ''text delta references a closed item'' data s of
        Inl e \<Rightarrow> (s, Inl e)
      | Inr it \<Rightarrow>
          (case member_string data ''delta'' of
             None \<Rightarrow> (s, Inl (violation ''text delta carries no delta''))
           | Some delta \<Rightarrow>
               if length (rr_accumulated_text s) + length (oi_text it) + length delta > ss_max_accumulated_text_bytes (rr_limits s)
               then (s, Inl (too_large ''accumulated text exceeded the limit''))
               else (append_preview delta ((with_item (oi_item_id it) (\<lambda>it. it\<lparr>oi_text := oi_text it @ delta\<rparr>) s)
                 \<lparr>rr_accumulated_text := rr_accumulated_text s @ delta,
                  rr_stats := (rr_stats s)\<lparr>st_text_deltas := Suc (st_text_deltas (rr_stats s))\<rparr>\<rparr>), Inr ())))"

definition text_done :: "JsonValue \<Rightarrow> 'r ResponsesState \<Rightarrow> 'r ResponsesState \<times> unit Result" where
  "text_done data s =
     (case event_item ''text done carries no item id'' ''text done references a closed item'' data s of
        Inl e \<Rightarrow> (s, Inl e)
      | Inr it \<Rightarrow>
          if (case member_string data ''text'' of Some t \<Rightarrow> oi_text it \<noteq> t | None \<Rightarrow> False)
          then (s, Inl (violation ''declared text does not match the accumulated deltas''))
          else (with_item (oi_item_id it) (\<lambda>it. it\<lparr>oi_text_done := True\<rparr>) s, Inr ()))"

definition refusal_event :: "bool \<Rightarrow> JsonValue \<Rightarrow> 'r ResponsesState \<Rightarrow> 'r ResponsesState \<times> unit Result" where
  "refusal_event is_delta data s =
     (case event_item ''refusal event carries no item id'' ''refusal event references a closed item'' data s of
        Inl e \<Rightarrow> (s, Inl e)
      | Inr it \<Rightarrow>
          if is_delta
          then case member_string data ''delta'' of
              None \<Rightarrow> (s, Inr ())
            | Some delta \<Rightarrow>
                (let t = oi_refusal it @ delta; s' = with_item (oi_item_id it) (\<lambda>it. it\<lparr>oi_refusal := t\<rparr>) s in
                 if length t > ss_max_accumulated_text_bytes (rr_limits s)
                 then (s', Inl (too_large ''accumulated refusal text exceeded the limit'')) else (s', Inr ()))
          else (with_item (oi_item_id it) (\<lambda>it. it\<lparr>oi_refusal_done := True\<rparr>) s, Inr ()))"

definition arguments_delta :: "JsonValue \<Rightarrow> 'r ResponsesState \<Rightarrow> 'r ResponsesState \<times> unit Result" where
  "arguments_delta data s =
     (case event_item ''arguments delta carries no item id'' ''arguments delta references a closed item'' data s of
        Inl e \<Rightarrow> (s, Inl e)
      | Inr it \<Rightarrow>
          (case member_string data ''delta'' of
             None \<Rightarrow> (s, Inl (violation ''arguments delta carries no delta''))
           | Some delta \<Rightarrow>
               if length (oi_args it) + length delta > ss_max_arguments_buffer_bytes (rr_limits s)
               then (s, Inl (too_large ''function arguments buffer exceeded the limit''))
               else (with_item (oi_item_id it) (\<lambda>it. it\<lparr>oi_args := oi_args it @ delta\<rparr>) s, Inr ())))"

definition arguments_done :: "JsonValue \<Rightarrow> 'r ResponsesState \<Rightarrow> 'r ResponsesState \<times> unit Result" where
  "arguments_done data s =
     (case event_item ''arguments done carries no item id'' ''arguments done references a closed item'' data s of
        Inl e \<Rightarrow> (s, Inl e)
      | Inr it \<Rightarrow>
          if (case member_string data ''arguments'' of Some t \<Rightarrow> oi_args it \<noteq> t | None \<Rightarrow> False)
          then (s, Inl (violation ''declared arguments do not match the accumulated deltas''))
          else (with_item (oi_item_id it) (\<lambda>it. it\<lparr>oi_args_done := True\<rparr>) s, Inr ()))"

definition reasoning_event :: "string \<Rightarrow> JsonValue \<Rightarrow> 'r ResponsesState \<Rightarrow> 'r ResponsesState \<times> unit Result" where
  "reasoning_event event data s =
     (case event_item ''reasoning event carries no item id'' ''reasoning event references a closed item'' data s of
        Inl e \<Rightarrow> (s, Inl e)
      | Inr it \<Rightarrow>
          if event = ''reasoning_summary_text.delta'' \<or> event = ''reasoning_text.delta''
          then case member_string data ''delta'' of
              None \<Rightarrow> (s, Inl (violation ''reasoning delta carries no delta text''))
            | Some delta \<Rightarrow>
                if rr_reasoning_bytes s + length delta > ss_max_accumulated_text_bytes (rr_limits s)
                then (s, Inl (too_large ''accumulated reasoning text exceeded the limit''))
                else let s = s\<lparr>rr_reasoning_bytes := rr_reasoning_bytes s + length delta\<rparr> in
                  if event = ''reasoning_text.delta'' \<and> oi_type it = ''reasoning''
                  then let (t, drops) = append_thinking_preview (rr_thinking_preview s) delta (ss_max_preview_bytes (rr_limits s))
                    in (s\<lparr>rr_thinking_preview := t, rr_thinking_preview_drops := rr_thinking_preview_drops s + drops\<rparr>, Inr ())
                  else (s, Inr ())
          else (s, Inr ()))"

definition terminal_event :: "(JsonValue \<Rightarrow> 'r Result) \<Rightarrow> string \<Rightarrow> JsonValue \<Rightarrow> 'r ResponsesState \<Rightarrow> 'r ResponsesState \<times> unit Result" where
  "terminal_event decode name data s =
     (if rr_terminal_seen s then (s, Inl (violation (''duplicate terminal event after '' @ name)))
      else let s = s\<lparr>rr_terminal_seen := True, rr_stats := (rr_stats s)\<lparr>st_terminal_seen := True\<rparr>\<rparr> in
        case json_find data ''response'' of
          Some (JObject ms) \<Rightarrow>
            if list_ex (\<lambda>it. \<not> oi_closed it) (rr_items s)
            then (s, Inl (violation ''terminal arrived while output items were still open''))
            else (case decode (JObject ms) of
                Inl e \<Rightarrow> (s, Inl e)
              | Inr r \<Rightarrow> (s\<lparr>rr_terminal_response := Some r\<rparr>, Inr ()))
        | _ \<Rightarrow> (s, Inl (violation ''terminal event carries no response object'')))"

definition starts_with :: "string \<Rightarrow> string \<Rightarrow> bool" where
  "starts_with p t \<longleftrightarrow> take (length p) t = p"

definition event_name :: "string \<Rightarrow> string" where
  "event_name e =
     (if starts_with ''response.'' e \<and> e \<noteq> ''response.created'' \<and> e \<noteq> ''response.in_progress'' \<and> e \<noteq> ''response.completed'' \<and>
         e \<noteq> ''response.failed'' \<and> e \<noteq> ''response.incomplete''
      then drop 9 e else e)"

definition reasoning_events :: "string list" where
  "reasoning_events = [''reasoning_summary_part.added'', ''reasoning_summary_part.done'', ''reasoning_summary_text.delta'',
     ''reasoning_summary_text.done'', ''reasoning_text.delta'', ''reasoning_text.done'']"

text \<open>The dispatch on the name of the event, \<open>name\<close> as it arrived.\<close>

definition reduce_named :: "(JsonValue \<Rightarrow> 'r Result) \<Rightarrow> string \<Rightarrow> JsonValue \<Rightarrow> 'r ResponsesState \<Rightarrow> 'r ResponsesState \<times> unit Result" where
  "reduce_named decode name data s =
     (let event = event_name name in
      if event = ''response.created'' \<or> event = ''response.in_progress'' then (s, Inr ())
      else if event = ''output_item.added'' then item_added data s
      else if event = ''output_item.done'' then item_done data s
      else if event = ''content_part.added'' \<or> event = ''content_part.done'' then part_event (event = ''content_part.added'') data s
      else if event = ''output_text.delta'' then text_delta data s
      else if event = ''output_text.done'' then text_done data s
      else if event = ''refusal.delta'' \<or> event = ''refusal.done'' then refusal_event (event = ''refusal.delta'') data s
      else if event = ''function_call_arguments.delta'' then arguments_delta data s
      else if event = ''function_call_arguments.done'' then arguments_done data s
      else if List.member reasoning_events event then reasoning_event event data s
      else if event = ''response.completed'' \<or> event = ''response.failed'' \<or> event = ''response.incomplete''
      then terminal_event decode name data s
      else if event = ''error'' then (s, Inl (violation ''provider emitted a stream error event''))
      else (s, Inl (violation (''unknown sse event type: '' @ name))))"

definition count_event :: "SseStreamStats \<Rightarrow> SseStreamStats" where
  "count_event st = st\<lparr>st_events := Suc (st_events st), st_stream_sequence := st_stream_sequence st + 1\<rparr>"

definition responses_reduce :: "(JsonValue \<Rightarrow> 'r Result) \<Rightarrow> SseMessage \<Rightarrow> 'r ResponsesState \<Rightarrow> 'r ResponsesState \<times> unit Result" where
  "responses_reduce decode m s =
     (let s = s\<lparr>rr_stats := count_event (rr_stats s)\<rparr> in
      if sm_event m = [] then (s, Inl (violation ''unnamed sse event in a responses stream''))
      else if rr_terminal_seen s then (s, Inl (violation ''business event arrived after the terminal event''))
      else case parse_json json_limits_default (sm_data m) of
          Inr (JObject ms) \<Rightarrow>
            (case check_remote_sequence (JObject ms) s of
               (s, Inl e) \<Rightarrow> (s, Inl e)
             | (s, Inr _) \<Rightarrow> reduce_named decode (sm_event m) (JObject ms) s)
        | _ \<Rightarrow> (s, Inl (violation ''sse event data is not a json object'')))"

section \<open>Chunks and the end of the stream\<close>

definition responses_feed :: "(JsonValue \<Rightarrow> 'r Result) \<Rightarrow> string \<Rightarrow> 'r ResponsesSseParser \<Rightarrow> 'r ResponsesSseParser \<times> unit Result" where
  "responses_feed decode chunk p =
     (case sse_feed chunk (sp_framer p) of
        (f, Inl e) \<Rightarrow> (p\<lparr>sp_framer := f\<rparr>, Inl e)
      | (f, Inr ms) \<Rightarrow>
          (case reduce_all (responses_reduce decode) ms (sp_state p) of
             (c, Inl e) \<Rightarrow> (p\<lparr>sp_framer := f, sp_state := c\<rparr>, Inl e)
           | (c, Inr _) \<Rightarrow> (\<lparr>sp_framer = f, sp_bytes = fp_bytes_fed f, sp_state = c\<rparr>, Inr ())))"

definition responses_finish :: "(JsonValue \<Rightarrow> 'r Result) \<Rightarrow> 'r \<Rightarrow> 'r ResponsesSseParser \<Rightarrow> 'r ResponsesSseParser \<times> 'r Result" where
  "responses_finish decode no_response p =
     (case sse_finish (sp_framer p) of
        (f, Inl e) \<Rightarrow> (p\<lparr>sp_framer := f\<rparr>, Inl e)
      | (f, Inr ms) \<Rightarrow>
          (case reduce_all (responses_reduce decode) ms (sp_state p) of
             (c, Inl e) \<Rightarrow> (p\<lparr>sp_framer := f, sp_state := c\<rparr>, Inl e)
           | (c, Inr _) \<Rightarrow>
               (let c = c\<lparr>rr_stats := (rr_stats c)\<lparr>st_cancel_seen := rr_cancel_seen c\<rparr>\<rparr>;
                    p = \<lparr>sp_framer = f, sp_bytes = fp_bytes_fed f, sp_state = c\<rparr>
                in if \<not> rr_terminal_seen c
                   then (p, Inl (sse_error AmbiguousCompletion ''sse stream ended without a terminal event''))
                   else (p, Inr (case rr_terminal_response c of Some r \<Rightarrow> r | None \<Rightarrow> no_response)))))"

definition note_cancel_requested :: "'r ResponsesSseParser \<Rightarrow> 'r ResponsesSseParser" where
  "note_cancel_requested p = p\<lparr>sp_state := (sp_state p)\<lparr>rr_cancel_seen := True\<rparr>\<rparr>"

definition responses_take_preview :: "'r ResponsesState \<Rightarrow> 'r ResponsesState \<times> Preview" where
  "responses_take_preview s =
     (s\<lparr>rr_preview_text := [], rr_preview_drops := 0,
        rr_stats := (rr_stats s)\<lparr>st_preview_drops := st_preview_drops (rr_stats s) + rr_preview_drops s\<rparr>\<rparr>,
      take_preview_of (rr_preview_text s) (rr_preview_drops s))"

definition responses_take_thinking :: "'r ResponsesState \<Rightarrow> 'r ResponsesState \<times> Preview" where
  "responses_take_thinking s =
     (s\<lparr>rr_thinking_preview := [], rr_thinking_preview_drops := 0,
        rr_stats := (rr_stats s)\<lparr>st_thinking_preview_drops := st_thinking_preview_drops (rr_stats s) + rr_thinking_preview_drops s\<rparr>\<rparr>,
      take_preview_of (rr_thinking_preview s) (rr_thinking_preview_drops s))"

end
