(* ===== verification/Chat_Stream.thy ===== *)
theory Chat_Stream
  imports Response_Stream
begin

text \<open>
  The reducer of Chat Completions streams, \<open>ChatCompletionsSseParser\<close> of
  \<open>src/model/model_chat_sse.cpp\<close>. The decoder of the assembled body is an argument.
\<close>

record ToolFragments =
  tf_id :: string
  tf_name :: string
  tf_arguments :: string

record ChatState =
  cs_limits :: SseStreamLimits
  cs_stats :: SseStreamStats
  cs_thinking_preview :: string
  cs_thinking_preview_drops :: nat
  cs_id :: string
  cs_model :: string
  cs_text :: string
  cs_refusal :: string
  cs_reasoning :: string
  cs_finish_reason :: string
  cs_preview :: string
  cs_tools :: "(int, ToolFragments) omap"
  cs_argument_bytes :: nat
  cs_pending_preview_drops :: nat
  cs_usage :: "JsonValue option"

type_synonym ChatCompletionsSseParser = "ChatState stream_parser"

definition new_chat :: "SseStreamLimits \<Rightarrow> ChatCompletionsSseParser" where
  "new_chat limits = \<lparr>sp_framer = new_framing (ss_framing limits), sp_bytes = 0, sp_state = \<lparr>cs_limits = limits, cs_stats = stats_default,
     cs_thinking_preview = [], cs_thinking_preview_drops = 0, cs_id = [], cs_model = [], cs_text = [], cs_refusal = [], cs_reasoning = [],
     cs_finish_reason = [], cs_preview = [], cs_tools = [], cs_argument_bytes = 0, cs_pending_preview_drops = 0, cs_usage = None\<rparr>\<rparr>"

definition chat_invalid :: "string \<Rightarrow> Error" where
  "chat_invalid message = make_model_error ProtocolViolation message False"

text \<open>\<open>append\<close>: the new text, or \<open>None\<close> when the part is no string or does not fit.\<close>

definition append_part :: "string \<Rightarrow> JsonValue option \<Rightarrow> nat \<Rightarrow> string option" where
  "append_part t part limit =
     (case part of
        None \<Rightarrow> Some t
      | Some JNull \<Rightarrow> Some t
      | Some (JString s) \<Rightarrow> if length t > limit \<or> length s > limit - length t then None else Some (t @ s)
      | Some _ \<Rightarrow> None)"

text \<open>The identity of the response: \<open>id\<close> and \<open>model\<close> never change.\<close>

definition check_identity :: "string \<Rightarrow> JsonValue option \<Rightarrow> string Result" where
  "check_identity target v =
     (case v of
        None \<Rightarrow> Inr target
      | Some (JString t) \<Rightarrow>
          if t = [] \<or> length t > 1024 then Inl (chat_invalid ''chat SSE invalid response identity'')
          else if target \<noteq> [] \<and> target \<noteq> t then Inl (chat_invalid ''chat SSE response identity changed'')
          else Inr t
      | Some _ \<Rightarrow> Inl (chat_invalid ''chat SSE invalid response identity''))"

definition chat_identity :: "JsonValue \<Rightarrow> ChatState \<Rightarrow> ChatState \<times> unit Result" where
  "chat_identity body s =
     (case check_identity (cs_id s) (json_find body ''id'') of
        Inl e \<Rightarrow> (s, Inl e)
      | Inr k \<Rightarrow>
          (let s = s\<lparr>cs_id := k\<rparr> in
           case check_identity (cs_model s) (json_find body ''model'') of
             Inl e \<Rightarrow> (s, Inl e)
           | Inr m \<Rightarrow> (s\<lparr>cs_model := m\<rparr>, Inr ())))"

definition usage_counter :: "JsonValue option \<Rightarrow> JsonValue \<Rightarrow> string \<Rightarrow> unit Result" where
  "usage_counter previous usage key =
     (case json_find usage key of
        None \<Rightarrow> Inr ()
      | Some counter \<Rightarrow>
          (case as_integer counter of
             None \<Rightarrow> Inl (chat_invalid ''chat SSE invalid usage counter'')
           | Some n \<Rightarrow>
               if n < 0 then Inl (chat_invalid ''chat SSE invalid usage counter'')
               else if (case Option.bind (Option.bind previous (\<lambda>u. json_find u key)) as_integer of Some old \<Rightarrow> n < old | None \<Rightarrow> False)
               then Inl (chat_invalid ''chat SSE usage counter decreased'')
               else Inr ()))"

definition chat_usage :: "JsonValue \<Rightarrow> ChatState \<Rightarrow> ChatState \<times> unit Result" where
  "chat_usage body s =
     (case json_find body ''usage'' of
        None \<Rightarrow> (s, Inr ())
      | Some JNull \<Rightarrow> (s, Inr ())
      | Some (JObject ms) \<Rightarrow>
          (case check_all (usage_counter (cs_usage s) (JObject ms)) [''prompt_tokens'', ''completion_tokens'', ''total_tokens''] of
             Inl e \<Rightarrow> (s, Inl e)
           | Inr _ \<Rightarrow> (s\<lparr>cs_usage := Some (JObject ms)\<rparr>, Inr ()))
      | Some _ \<Rightarrow> (s, Inl (chat_invalid ''chat SSE malformed usage'')))"

text \<open>The three text fields of a delta, in order; a failure keeps what was appended before.\<close>

definition chat_texts :: "JsonValue \<Rightarrow> ChatState \<Rightarrow> ChatState \<times> unit Result" where
  "chat_texts delta s =
     (let limit = ss_max_accumulated_text_bytes (cs_limits s); bad = chat_invalid ''chat SSE text exceeds budget or has invalid type'' in
      case append_part (cs_text s) (json_find delta ''content'') limit of
        None \<Rightarrow> (s, Inl bad)
      | Some t \<Rightarrow>
          (let s = s\<lparr>cs_text := t\<rparr> in
           case append_part (cs_refusal s) (json_find delta ''refusal'') limit of
             None \<Rightarrow> (s, Inl bad)
           | Some t \<Rightarrow>
               (let s = s\<lparr>cs_refusal := t\<rparr> in
                case append_part (cs_reasoning s) (json_find delta ''reasoning_content'') limit of
                  None \<Rightarrow> (s, Inl bad)
                | Some t \<Rightarrow> (s\<lparr>cs_reasoning := t\<rparr>, Inr ()))))"

definition chat_previews :: "nat \<Rightarrow> nat \<Rightarrow> ChatState \<Rightarrow> ChatState" where
  "chat_previews old_size old_reasoning_size s =
     (let (t, drops) = append_thinking_preview (cs_thinking_preview s) (drop old_reasoning_size (cs_reasoning s))
            (ss_max_preview_bytes (cs_limits s));
          s = s\<lparr>cs_thinking_preview := t, cs_thinking_preview_drops := cs_thinking_preview_drops s + drops\<rparr>
      in if length (cs_text s) > old_size
         then let part = drop old_size (cs_text s);
                  s = s\<lparr>cs_stats := (cs_stats s)\<lparr>st_text_deltas := Suc (st_text_deltas (cs_stats s))\<rparr>\<rparr>
           in if length (cs_preview s) + length part \<le> ss_max_preview_bytes (cs_limits s)
              then s\<lparr>cs_preview := cs_preview s @ part\<rparr>
              else s\<lparr>cs_stats := (cs_stats s)\<lparr>st_preview_drops := Suc (st_preview_drops (cs_stats s))\<rparr>,
                cs_pending_preview_drops := Suc (cs_pending_preview_drops s)\<rparr>
         else s)"

section \<open>Tool calls\<close>

definition no_fragments :: ToolFragments where
  "no_fragments = \<lparr>tf_id = [], tf_name = [], tf_arguments = []\<rparr>"

definition tool_identity :: "JsonValue \<Rightarrow> ToolFragments \<Rightarrow> ToolFragments Result" where
  "tool_identity call t =
     (case json_find call ''id'' of
        None \<Rightarrow> Inr t
      | Some JNull \<Rightarrow> Inr t
      | Some (JString k) \<Rightarrow>
          if k = [] \<or> length k > 1024 \<or> tf_id t \<noteq> [] \<and> tf_id t \<noteq> k then Inl (chat_invalid ''chat SSE tool identity changed'')
          else Inr (t\<lparr>tf_id := k\<rparr>)
      | Some _ \<Rightarrow> Inl (chat_invalid ''chat SSE tool identity changed''))"

definition tool_type :: "JsonValue \<Rightarrow> unit Result" where
  "tool_type call =
     (case json_find call ''type'' of
        None \<Rightarrow> Inr ()
      | Some JNull \<Rightarrow> Inr ()
      | Some (JString t) \<Rightarrow> if t = ''function'' then Inr () else Inl (chat_invalid ''chat SSE unsupported tool type'')
      | Some _ \<Rightarrow> Inl (chat_invalid ''chat SSE unsupported tool type''))"

definition put_tool :: "int \<Rightarrow> ToolFragments \<Rightarrow> ChatState \<Rightarrow> ChatState" where
  "put_tool n t s = s\<lparr>cs_tools := omap_set n t (cs_tools s)\<rparr>"

definition tool_function :: "int \<Rightarrow> JsonValue \<Rightarrow> ToolFragments \<Rightarrow> ChatState \<Rightarrow> ChatState \<times> unit Result" where
  "tool_function n call t s =
     (case json_find call ''function'' of
        None \<Rightarrow> (s, Inr ())
      | Some function \<Rightarrow>
          if as_object function = None then (s, Inl (chat_invalid ''chat SSE invalid tool name''))
          else case append_part (tf_name t) (json_find function ''name'') 1024 of
            None \<Rightarrow> (s, Inl (chat_invalid ''chat SSE invalid tool name''))
          | Some name \<Rightarrow>
              (let t = t\<lparr>tf_name := name\<rparr>; s = put_tool n t s; before = length (tf_arguments t) in
               case append_part (tf_arguments t) (json_find function ''arguments'')
                   (before + ss_max_arguments_buffer_bytes (cs_limits s) - cs_argument_bytes s) of
                 None \<Rightarrow> (s, Inl (chat_invalid ''chat SSE tool arguments exceed budget''))
               | Some a \<Rightarrow> ((put_tool n (t\<lparr>tf_arguments := a\<rparr>) s)
                   \<lparr>cs_argument_bytes := cs_argument_bytes s + (length a - before)\<rparr>, Inr ())))"

definition tool_call :: "JsonValue \<Rightarrow> ChatState \<Rightarrow> ChatState \<times> unit Result" where
  "tool_call call s =
     (let number = Option.bind (json_find call ''index'') as_integer; bad = chat_invalid ''chat SSE tool index exceeds budget'' in
      case number of
        None \<Rightarrow> (s, Inl bad)
      | Some n \<Rightarrow>
          if n < 0 \<or> n \<ge> int (ss_max_open_output_items (cs_limits s)) then (s, Inl bad)
          else let s = s\<lparr>cs_tools := omap_emplace n no_fragments (cs_tools s)\<rparr>; t = the (omap_find (cs_tools s) n) in
            case tool_identity call t of
              Inl e \<Rightarrow> (s, Inl e)
            | Inr t \<Rightarrow>
                (let s = put_tool n t s in
                 case tool_type call of Inl e \<Rightarrow> (s, Inl e) | Inr _ \<Rightarrow> tool_function n call t s))"

fun tool_calls :: "JsonValue list \<Rightarrow> ChatState \<Rightarrow> ChatState \<times> unit Result" where
  "tool_calls [] s = (s, Inr ())"
| "tool_calls (call # calls) s = (case tool_call call s of (s, Inl e) \<Rightarrow> (s, Inl e) | (s, Inr _) \<Rightarrow> tool_calls calls s)"

definition chat_tools :: "JsonValue \<Rightarrow> ChatState \<Rightarrow> ChatState \<times> unit Result" where
  "chat_tools delta s =
     (case json_find delta ''tool_calls'' of
        None \<Rightarrow> (s, Inr ())
      | Some JNull \<Rightarrow> (s, Inr ())
      | Some (JArray calls) \<Rightarrow> tool_calls calls s
      | Some _ \<Rightarrow> (s, Inl (chat_invalid ''chat SSE tool calls must be an array'')))"

section \<open>One event\<close>

definition finish_reasons :: "string list" where
  "finish_reasons = [''stop'', ''tool_calls'', ''length'', ''content_filter'']"

definition chat_finish_reason :: "JsonValue \<Rightarrow> ChatState \<Rightarrow> ChatState \<times> unit Result" where
  "chat_finish_reason choice s =
     (case json_find choice ''finish_reason'' of
        None \<Rightarrow> (s, Inr ())
      | Some JNull \<Rightarrow> (s, Inr ())
      | Some (JString t) \<Rightarrow>
          (s\<lparr>cs_finish_reason := t\<rparr>, if List.member finish_reasons t then Inr () else Inl (chat_invalid ''chat SSE unknown finish reason''))
      | Some _ \<Rightarrow> (s, Inl (chat_invalid ''chat SSE invalid finish reason'')))"

definition chat_choice :: "JsonValue \<Rightarrow> ChatState \<Rightarrow> ChatState \<times> unit Result" where
  "chat_choice choice s =
     (if cs_finish_reason s \<noteq> [] then (s, Inl (chat_invalid ''chat SSE choice after finish reason''))
      else if Option.bind (json_find choice ''index'') as_integer \<noteq> Some 0
      then (s, Inl (chat_invalid ''chat SSE choice index must be zero''))
      else case json_find choice ''delta'' of
          Some (JObject ms) \<Rightarrow>
            if (case json_find (JObject ms) ''role'' of None \<Rightarrow> False | Some role \<Rightarrow> role \<noteq> JString ''assistant'')
            then (s, Inl (chat_invalid ''chat SSE delta role must be assistant''))
            else (case chat_texts (JObject ms) s of
                (s', Inl e) \<Rightarrow> (s', Inl e)
              | (s', Inr _) \<Rightarrow>
                  (case chat_tools (JObject ms) (chat_previews (length (cs_text s)) (length (cs_reasoning s)) s') of
                     (s', Inl e) \<Rightarrow> (s', Inl e)
                   | (s', Inr _) \<Rightarrow> chat_finish_reason choice s'))
        | _ \<Rightarrow> (s, Inl (chat_invalid ''chat SSE choice has no delta object'')))"

definition chat_choices :: "JsonValue \<Rightarrow> ChatState \<Rightarrow> ChatState \<times> unit Result" where
  "chat_choices body s =
     (case json_find body ''choices'' of
        Some (JArray []) \<Rightarrow>
          if cs_finish_reason s = [] \<or> cs_usage s = None then (s, Inl (chat_invalid ''chat SSE empty choices before usage terminal''))
          else (s, Inr ())
      | Some (JArray [choice]) \<Rightarrow> chat_choice choice s
      | _ \<Rightarrow> (s, Inl (chat_invalid ''chat SSE requires one choice'')))"

definition chat_reduce :: "SseMessage \<Rightarrow> ChatState \<Rightarrow> ChatState \<times> unit Result" where
  "chat_reduce m s =
     (let s = s\<lparr>cs_stats := count_event (cs_stats s)\<rparr> in
      if st_terminal_seen (cs_stats s) then (s, Inl (chat_invalid ''chat SSE event after terminal''))
      else if sm_data m = ''[DONE]''
      then if cs_finish_reason s = [] then (s, Inl (chat_invalid ''chat SSE terminal before finish reason''))
           else (s\<lparr>cs_stats := (cs_stats s)\<lparr>st_terminal_seen := True\<rparr>\<rparr>, Inr ())
      else case parse_json json_limits_default (sm_data m) of
          Inr (JObject ms) \<Rightarrow>
            (let body = JObject ms in
             if json_find body ''error'' \<noteq> None then (s, Inl (chat_invalid ''chat SSE provider error''))
             else case chat_identity body s of
               (s, Inl e) \<Rightarrow> (s, Inl e)
             | (s, Inr _) \<Rightarrow> (case chat_usage body s of (s, Inl e) \<Rightarrow> (s, Inl e) | (s, Inr _) \<Rightarrow> chat_choices body s))
        | _ \<Rightarrow> (s, Inl (chat_invalid ''chat SSE chunk is not a JSON object'')))"

section \<open>Chunks and the end of the stream\<close>

text \<open>This parser and the next one count the bytes before they reduce.\<close>

definition counted_feed :: "(SseMessage \<Rightarrow> 'c \<Rightarrow> 'c \<times> unit Result) \<Rightarrow> string \<Rightarrow> 'c stream_parser \<Rightarrow> 'c stream_parser \<times> unit Result" where
  "counted_feed reduce chunk p =
     (case sse_feed chunk (sp_framer p) of
        (f, Inl e) \<Rightarrow> (p\<lparr>sp_framer := f\<rparr>, Inl e)
      | (f, Inr ms) \<Rightarrow>
          (case reduce_all reduce ms (sp_state p) of (c, r) \<Rightarrow> (\<lparr>sp_framer = f, sp_bytes = fp_bytes_fed f, sp_state = c\<rparr>, r)))"

definition chat_feed :: "string \<Rightarrow> ChatCompletionsSseParser \<Rightarrow> ChatCompletionsSseParser \<times> unit Result" where
  "chat_feed = counted_feed chat_reduce"

definition tool_json :: "ToolFragments \<Rightarrow> JsonValue" where
  "tool_json t = JObject [(''id'', JString (tf_id t)), (''type'', JString ''function''),
     (''function'', JObject [(''name'', JString (tf_name t)), (''arguments'', JString (tf_arguments t))])]"

definition chat_message :: "ChatState \<Rightarrow> JsonValue" where
  "chat_message s = JObject ([(''role'', JString ''assistant''), (''content'', JString (cs_text s))] @
     (if cs_reasoning s \<noteq> [] then [(''reasoning_content'', JString (cs_reasoning s))] else []) @
     (if cs_refusal s \<noteq> [] then [(''refusal'', JString (cs_refusal s))] else []) @
     (if cs_tools s \<noteq> [] then [(''tool_calls'', JArray (map (tool_json \<circ> snd) (cs_tools s)))] else []))"

definition chat_body :: "ChatState \<Rightarrow> JsonValue" where
  "chat_body s = JObject ([(''id'', JString (cs_id s)), (''model'', JString (cs_model s)),
     (''choices'', JArray [JObject [(''index'', JInteger 0), (''message'', chat_message s), (''finish_reason'', JString (cs_finish_reason s))]])] @
     (case cs_usage s of Some u \<Rightarrow> [(''usage'', u)] | None \<Rightarrow> []))"

definition chat_finish :: "(string \<Rightarrow> 'r Result) \<Rightarrow> ChatCompletionsSseParser \<Rightarrow> ChatCompletionsSseParser \<times> 'r Result" where
  "chat_finish decode p =
     (case sse_finish (sp_framer p) of
        (f, Inl e) \<Rightarrow> (p\<lparr>sp_framer := f\<rparr>, Inl e)
      | (f, Inr ms) \<Rightarrow>
          (case reduce_all chat_reduce ms (sp_state p) of
             (s, Inl e) \<Rightarrow> (p\<lparr>sp_framer := f, sp_state := s\<rparr>, Inl e)
           | (s, Inr _) \<Rightarrow>
               (p\<lparr>sp_framer := f, sp_state := s\<rparr>,
                if \<not> st_terminal_seen (cs_stats s)
                then Inl (make_model_error AmbiguousCompletion ''chat SSE stream ended without [DONE]'' False)
                else if list_ex (\<lambda>(_, t). tf_id t = [] \<or> tf_name t = []) (cs_tools s)
                then Inl (chat_invalid ''chat SSE incomplete tool identity'')
                else decode (to_json_string (chat_body s)))))"

definition chat_take_preview :: "ChatState \<Rightarrow> ChatState \<times> Preview" where
  "chat_take_preview s = (s\<lparr>cs_preview := [], cs_pending_preview_drops := 0\<rparr>, take_preview_of (cs_preview s) (cs_pending_preview_drops s))"

definition chat_take_thinking :: "ChatState \<Rightarrow> ChatState \<times> Preview" where
  "chat_take_thinking s =
     (s\<lparr>cs_thinking_preview := [], cs_thinking_preview_drops := 0,
        cs_stats := (cs_stats s)\<lparr>st_thinking_preview_drops := st_thinking_preview_drops (cs_stats s) + cs_thinking_preview_drops s\<rparr>\<rparr>,
      take_preview_of (cs_thinking_preview s) (cs_thinking_preview_drops s))"

end
