(* ===== verification/Message_Stream.thy ===== *)
theory Message_Stream
  imports Chat_Stream
begin

text \<open>
  The reducer of Anthropic Messages streams, \<open>AnthropicMessagesSseParser\<close> of
  \<open>src/model/model_anthropic_sse.cpp\<close>. The decoder of the assembled message is an argument.
\<close>

record Block =
  bk_value :: JsonValue
  bk_text :: string
  bk_arguments :: string
  bk_closed :: bool

record MessagesState =
  ms_limits :: SseStreamLimits
  ms_stats :: SseStreamStats
  ms_thinking_preview :: string
  ms_thinking_preview_drops :: nat
  ms_blocks :: "Block list"
  ms_message :: JsonValue
  ms_started :: bool
  ms_delta_seen :: bool
  ms_truncated_tool_arguments :: bool
  ms_text_bytes :: nat
  ms_argument_bytes :: nat
  ms_pending_drops :: nat
  ms_preview :: string

type_synonym AnthropicMessagesSseParser = "MessagesState stream_parser"

definition new_messages :: "SseStreamLimits \<Rightarrow> AnthropicMessagesSseParser" where
  "new_messages limits = \<lparr>sp_framer = new_framing (ss_framing limits), sp_bytes = 0, sp_state = \<lparr>ms_limits = limits, ms_stats = stats_default,
     ms_thinking_preview = [], ms_thinking_preview_drops = 0, ms_blocks = [], ms_message = JNull, ms_started = False, ms_delta_seen = False,
     ms_truncated_tool_arguments = False, ms_text_bytes = 0, ms_argument_bytes = 0, ms_pending_drops = 0, ms_preview = []\<rparr>\<rparr>"

definition messages_invalid :: Error where
  "messages_invalid = make_model_error ProtocolViolation ''invalid Messages SSE lifecycle or budget'' False"

definition provider_detail :: "string option \<Rightarrow> string option \<Rightarrow> string" where
  "provider_detail type_name message = ''provider stream error'' @
     (case type_name of Some n \<Rightarrow> '' ('' @ n @ '')'' | None \<Rightarrow> []) @
     (case message of Some m \<Rightarrow> if m \<noteq> [] then '': '' @ take 200 m else [] | None \<Rightarrow> [])"

definition provider_error :: "JsonValue \<Rightarrow> Error" where
  "provider_error body =
     (let payload = json_find body ''error'';
          type_name = Option.bind payload (\<lambda>v. member_string v ''type'');
          message = Option.bind payload (\<lambda>v. member_string v ''message'');
          detail = provider_detail type_name message
      in case type_name of
           None \<Rightarrow> make_model_error TransportFailed detail True
         | Some name \<Rightarrow>
             if name = ''overloaded_error'' then make_model_error ProviderOverloaded detail True
             else if name = ''rate_limit_error'' then make_model_error RateLimited detail True
             else if name = ''timeout_error'' then make_model_error ModelDeadlineExceeded detail True
             else if name = ''api_error'' \<or> name = ''internal_error'' then make_model_error TransportFailed detail True
             else if name = ''authentication_error'' then make_model_error AuthenticationFailed detail False
             else if name = ''permission_error'' then make_model_error ProviderPermissionDenied detail False
             else if name = ''request_too_large'' then make_model_error ResponseTooLarge detail False
             else if name = ''invalid_request_error'' \<or> name = ''not_found_error'' \<or> name = ''billing_error''
             then make_model_error InvalidModelRequest detail False
             else make_model_error TransportFailed detail False)"

section \<open>The message\<close>

definition message_start :: "JsonValue \<Rightarrow> MessagesState \<Rightarrow> MessagesState \<times> unit Result" where
  "message_start body s =
     (case json_find body ''message'' of
        Some (JObject ms) \<Rightarrow>
          if \<not> ms_started s \<and> json_find (JObject ms) ''content'' = Some (JArray [])
          then (s\<lparr>ms_message := JObject ms, ms_started := True\<rparr>, Inr ())
          else (s, Inl messages_invalid)
      | _ \<Rightarrow> (s, Inl messages_invalid))"

definition usage_keys :: "string list" where
  "usage_keys = [''input_tokens'', ''output_tokens'', ''cache_read_input_tokens'', ''cache_creation_input_tokens'']"

definition merge_counter :: "string \<times> JsonValue \<Rightarrow> JsonValue \<Rightarrow> JsonValue Result" where
  "merge_counter kv previous =
     (case kv of (key, counter) \<Rightarrow>
        if \<not> List.member usage_keys key then Inr previous
        else case as_integer counter of
            None \<Rightarrow> Inl (make_model_error ProtocolViolation ''Messages SSE invalid usage counter'' False)
          | Some n \<Rightarrow>
              if n < 0 then Inl (make_model_error ProtocolViolation ''Messages SSE invalid usage counter'' False)
              else if (case Option.bind (json_find previous key) as_integer of Some old \<Rightarrow> n < old | None \<Rightarrow> False)
              then Inl messages_invalid
              else Inr (json_set key counter previous))"

fun merge_usage :: "JsonObject \<Rightarrow> JsonValue \<Rightarrow> JsonValue Result" where
  "merge_usage [] previous = Inr previous"
| "merge_usage (kv # kvs) previous = res_bind (merge_counter kv previous) (merge_usage kvs)"

text \<open>The stop reason is stored before the usage is checked.\<close>

definition message_delta :: "JsonValue \<Rightarrow> MessagesState \<Rightarrow> MessagesState \<times> unit Result" where
  "message_delta body s =
     (if ms_delta_seen s \<or> list_ex (\<lambda>b. \<not> bk_closed b) (ms_blocks s) then (s, Inl messages_invalid)
      else case (json_find body ''delta'', json_find body ''usage'') of
          (Some (JObject delta), Some (JObject usage)) \<Rightarrow>
            (case member_string (JObject delta) ''stop_reason'' of
               None \<Rightarrow> (s, Inl messages_invalid)
             | Some reason \<Rightarrow>
                 (let message = json_set ''stop_reason'' (JString reason) (ms_message s);
                      s = s\<lparr>ms_message := message\<rparr>;
                      previous = (case json_find message ''usage'' of Some u \<Rightarrow> u | None \<Rightarrow> JObject [])
                  in if as_object previous = None then (s, Inl messages_invalid)
                     else case merge_usage usage previous of
                         Inl e \<Rightarrow> (s, Inl e)
                       | Inr u \<Rightarrow> (s\<lparr>ms_message := json_set ''usage'' u message, ms_delta_seen := True\<rparr>, Inr ())))
        | _ \<Rightarrow> (s, Inl messages_invalid))"

section \<open>Blocks\<close>

definition block_kinds :: "string list" where
  "block_kinds = [''text'', ''tool_use'', ''thinking'', ''redacted_thinking'']"

text \<open>The shape of a block at its start: the bytes that it takes from the text budget.\<close>

definition start_shape :: "string \<Rightarrow> JsonValue \<Rightarrow> MessagesState \<Rightarrow> nat option" where
  "start_shape kind block s =
     (if kind = ''text'' then (if member_string block ''text'' = Some [] then Some 0 else None)
      else if kind = ''thinking'' then
        (if member_string block ''thinking'' = Some [] \<and> (member_string block ''signature'' = None \<or> member_string block ''signature'' = Some [])
         then Some 0 else None)
      else if kind = ''redacted_thinking'' then
        (case member_string block ''data'' of
           None \<Rightarrow> None
         | Some d \<Rightarrow> if length d > ss_max_accumulated_text_bytes (ms_limits s) - ms_text_bytes s then None else Some (length d))
      else if json_find block ''input'' = Some (JObject []) then Some 0 else None)"

definition block_start :: "nat \<Rightarrow> JsonValue \<Rightarrow> MessagesState \<Rightarrow> MessagesState \<times> unit Result" where
  "block_start position body s =
     (case json_find body ''content_block'' of
        Some (JObject ms) \<Rightarrow>
          if position \<noteq> length (ms_blocks s) then (s, Inl messages_invalid)
          else case member_string (JObject ms) ''type'' of
              None \<Rightarrow> (s, Inl (make_model_error CapabilityMismatch ''unsupported Messages content block'' False))
            | Some kind \<Rightarrow>
                if \<not> List.member block_kinds kind
                then (s, Inl (make_model_error CapabilityMismatch ''unsupported Messages content block'' False))
                else case start_shape kind (JObject ms) s of
                    None \<Rightarrow> (s, Inl messages_invalid)
                  | Some n \<Rightarrow> (s\<lparr>ms_text_bytes := ms_text_bytes s + n,
                      ms_blocks := ms_blocks s @ [\<lparr>bk_value = JObject ms, bk_text = [], bk_arguments = [], bk_closed = False\<rparr>]\<rparr>, Inr ())
      | _ \<Rightarrow> (s, Inl messages_invalid))"

definition empty_block :: Block where
  "empty_block = \<lparr>bk_value = JObject [(''type'', JString ''text''), (''text'', JString [])], bk_text = [], bk_arguments = [], bk_closed = True\<rparr>"

text \<open>A stop of a block that never started: closed empty blocks up to its position.\<close>

definition stop_unstarted :: "nat \<Rightarrow> MessagesState \<Rightarrow> MessagesState" where
  "stop_unstarted position s = s\<lparr>ms_blocks := ms_blocks s @ replicate (Suc position - length (ms_blocks s)) empty_block\<rparr>"

definition put_block :: "nat \<Rightarrow> Block \<Rightarrow> MessagesState \<Rightarrow> MessagesState" where
  "put_block position b s = s\<lparr>ms_blocks := (ms_blocks s)[position := b]\<rparr>"

definition text_part :: "nat \<Rightarrow> Block \<Rightarrow> JsonValue \<Rightarrow> MessagesState \<Rightarrow> MessagesState \<times> unit Result" where
  "text_part position b delta s =
     (case member_string delta ''text'' of
        None \<Rightarrow> (s, Inl messages_invalid)
      | Some part \<Rightarrow>
          if length part > ss_max_accumulated_text_bytes (ms_limits s) - ms_text_bytes s then (s, Inl messages_invalid)
          else let s = (put_block position (b\<lparr>bk_text := bk_text b @ part\<rparr>) s)\<lparr>ms_text_bytes := ms_text_bytes s + length part,
                 ms_stats := (ms_stats s)\<lparr>st_text_deltas := Suc (st_text_deltas (ms_stats s))\<rparr>\<rparr>
            in (if length part \<le> ss_max_preview_bytes (ms_limits s) - length (ms_preview s)
                then s\<lparr>ms_preview := ms_preview s @ part\<rparr>
                else s\<lparr>ms_pending_drops := Suc (ms_pending_drops s),
                  ms_stats := (ms_stats s)\<lparr>st_preview_drops := Suc (st_preview_drops (ms_stats s))\<rparr>\<rparr>, Inr ()))"

definition thinking_part :: "nat \<Rightarrow> Block \<Rightarrow> bool \<Rightarrow> JsonValue \<Rightarrow> MessagesState \<Rightarrow> MessagesState \<times> unit Result" where
  "thinking_part position b is_thinking delta s =
     (case member_string delta (if is_thinking then ''thinking'' else ''signature'') of
        None \<Rightarrow> (s, Inl messages_invalid)
      | Some part \<Rightarrow>
          if length part > ss_max_accumulated_text_bytes (ms_limits s) - ms_text_bytes s then (s, Inl messages_invalid)
          else let s' = (if is_thinking
                 then let (t, drops) = append_thinking_preview (ms_thinking_preview s) part (ss_max_preview_bytes (ms_limits s))
                   in (put_block position (b\<lparr>bk_text := bk_text b @ part\<rparr>) s)\<lparr>ms_thinking_preview := t,
                     ms_thinking_preview_drops := ms_thinking_preview_drops s + drops\<rparr>
                 else put_block position (b\<lparr>bk_arguments := bk_arguments b @ part\<rparr>) s)
            in (s'\<lparr>ms_text_bytes := ms_text_bytes s + length part\<rparr>, Inr ()))"

definition argument_part :: "nat \<Rightarrow> Block \<Rightarrow> JsonValue \<Rightarrow> MessagesState \<Rightarrow> MessagesState \<times> unit Result" where
  "argument_part position b delta s =
     (case member_string delta ''partial_json'' of
        None \<Rightarrow> (s, Inl messages_invalid)
      | Some part \<Rightarrow>
          if length part > ss_max_arguments_buffer_bytes (ms_limits s) - ms_argument_bytes s then (s, Inl messages_invalid)
          else ((put_block position (b\<lparr>bk_arguments := bk_arguments b @ part\<rparr>) s)
            \<lparr>ms_argument_bytes := ms_argument_bytes s + length part\<rparr>, Inr ()))"

text \<open>The kind of a block; a block always has one.\<close>

definition block_kind :: "Block \<Rightarrow> string" where
  "block_kind b = (case member_string (bk_value b) ''type'' of Some k \<Rightarrow> k | None \<Rightarrow> [])"

definition block_delta :: "nat \<Rightarrow> Block \<Rightarrow> JsonValue \<Rightarrow> MessagesState \<Rightarrow> MessagesState \<times> unit Result" where
  "block_delta position b body s =
     (case json_find body ''delta'' of
        None \<Rightarrow> (s, Inl messages_invalid)
      | Some delta \<Rightarrow>
          (case member_string delta ''type'' of
             None \<Rightarrow> (s, Inl messages_invalid)
           | Some t \<Rightarrow>
               if block_kind b = ''text'' \<and> t = ''text_delta'' then text_part position b delta s
               else if block_kind b = ''thinking'' \<and> (t = ''thinking_delta'' \<or> t = ''signature_delta'')
               then thinking_part position b (t = ''thinking_delta'') delta s
               else if block_kind b = ''tool_use'' \<and> t = ''input_json_delta'' then argument_part position b delta s
               else (s, Inl messages_invalid)))"

definition block_stop :: "nat \<Rightarrow> Block \<Rightarrow> MessagesState \<Rightarrow> MessagesState" where
  "block_stop position b s =
     (let kind = block_kind b in
      if kind = ''text'' then put_block position (b\<lparr>bk_value := json_set ''text'' (JString (bk_text b)) (bk_value b), bk_closed := True\<rparr>) s
      else if kind = ''thinking''
      then put_block position (b\<lparr>bk_value := json_set ''signature'' (JString (bk_arguments b)) (json_set ''thinking'' (JString (bk_text b)) (bk_value b)),
        bk_closed := True\<rparr>) s
      else if kind = ''tool_use'' \<and> bk_arguments b \<noteq> []
      then case parse_json json_limits_default (bk_arguments b) of
          Inr (JObject ms) \<Rightarrow> put_block position (b\<lparr>bk_value := json_set ''input'' (JObject ms) (bk_value b), bk_closed := True\<rparr>) s
        | _ \<Rightarrow> (put_block position (b\<lparr>bk_closed := True\<rparr>) s)\<lparr>ms_truncated_tool_arguments := True\<rparr>
      else put_block position (b\<lparr>bk_closed := True\<rparr>) s)"

definition block_event :: "string \<Rightarrow> JsonValue \<Rightarrow> MessagesState \<Rightarrow> MessagesState \<times> unit Result" where
  "block_event type body s =
     (case Option.bind (json_find body ''index'') as_integer of
        None \<Rightarrow> (s, Inl messages_invalid)
      | Some n \<Rightarrow>
          if n < 0 \<or> n \<ge> int (ss_max_open_output_items (ms_limits s)) then (s, Inl messages_invalid)
          else let position = nat n in
            if type = ''content_block_start'' then block_start position body s
            else if type = ''content_block_stop'' \<and> position \<ge> length (ms_blocks s) then (stop_unstarted position s, Inr ())
            else if position \<ge> length (ms_blocks s) \<or> bk_closed (ms_blocks s ! position) then (s, Inl messages_invalid)
            else if type = ''content_block_delta'' then block_delta position (ms_blocks s ! position) body s
            else if type = ''content_block_stop'' then (block_stop position (ms_blocks s ! position) s, Inr ())
            else (s, Inl messages_invalid))"

section \<open>One event\<close>

definition messages_typed :: "string \<Rightarrow> JsonValue \<Rightarrow> MessagesState \<Rightarrow> MessagesState \<times> unit Result" where
  "messages_typed type body s =
     (if type = ''ping'' then (s, Inr ())
      else if st_terminal_seen (ms_stats s) then (s, if type = ''message_stop'' then Inr () else Inl messages_invalid)
      else if type = ''error'' then (s, Inl (provider_error body))
      else if type = ''message_start'' then message_start body s
      else if \<not> ms_started s then (s, Inl messages_invalid)
      else if type = ''message_delta'' then message_delta body s
      else if type = ''message_stop''
      then if \<not> ms_delta_seen s then (s, Inl messages_invalid)
           else (s\<lparr>ms_stats := (ms_stats s)\<lparr>st_terminal_seen := True\<rparr>\<rparr>, Inr ())
      else if ms_delta_seen s then (s, Inl messages_invalid)
      else block_event type body s)"

definition messages_reduce :: "SseMessage \<Rightarrow> MessagesState \<Rightarrow> MessagesState \<times> unit Result" where
  "messages_reduce m s =
     (let s = s\<lparr>ms_stats := count_event (ms_stats s)\<rparr> in
      case parse_json json_limits_default (sm_data m) of
        Inr (JObject ms) \<Rightarrow>
          (case member_string (JObject ms) ''type'' of
             None \<Rightarrow> (s, Inl messages_invalid)
           | Some type \<Rightarrow> if sm_event m \<noteq> [] \<and> sm_event m \<noteq> type then (s, Inl messages_invalid)
               else messages_typed type (JObject ms) s)
      | _ \<Rightarrow> (s, Inl messages_invalid))"

definition messages_feed :: "string \<Rightarrow> AnthropicMessagesSseParser \<Rightarrow> AnthropicMessagesSseParser \<times> unit Result" where
  "messages_feed = counted_feed messages_reduce"

definition messages_finish :: "(string \<Rightarrow> 'r Result) \<Rightarrow> AnthropicMessagesSseParser \<Rightarrow> AnthropicMessagesSseParser \<times> 'r Result" where
  "messages_finish decode p =
     (case sse_finish (sp_framer p) of
        (f, Inl e) \<Rightarrow> (p\<lparr>sp_framer := f\<rparr>, Inl e)
      | (f, Inr ms) \<Rightarrow>
          (case reduce_all messages_reduce ms (sp_state p) of
             (s, Inl e) \<Rightarrow> (p\<lparr>sp_framer := f, sp_state := s\<rparr>, Inl e)
           | (s, Inr _) \<Rightarrow>
               if \<not> st_terminal_seen (ms_stats s)
               then (p\<lparr>sp_framer := f, sp_state := s\<rparr>, Inl (make_model_error AmbiguousCompletion ''Messages SSE ended without message_stop'' False))
               else if ms_truncated_tool_arguments s \<and> member_string (ms_message s) ''stop_reason'' \<noteq> Some ''max_tokens''
               then (p\<lparr>sp_framer := f, sp_state := s\<rparr>, Inl messages_invalid)
               else let s = s\<lparr>ms_message := json_set ''content'' (JArray (map bk_value (ms_blocks s))) (ms_message s)\<rparr>
                 in (p\<lparr>sp_framer := f, sp_state := s\<rparr>, decode (to_json_string (ms_message s)))))"

definition messages_take_preview :: "MessagesState \<Rightarrow> MessagesState \<times> Preview" where
  "messages_take_preview s = (s\<lparr>ms_preview := [], ms_pending_drops := 0\<rparr>, take_preview_of (ms_preview s) (ms_pending_drops s))"

definition messages_take_thinking :: "MessagesState \<Rightarrow> MessagesState \<times> Preview" where
  "messages_take_thinking s =
     (s\<lparr>ms_thinking_preview := [], ms_thinking_preview_drops := 0,
        ms_stats := (ms_stats s)\<lparr>st_thinking_preview_drops := st_thinking_preview_drops (ms_stats s) + ms_thinking_preview_drops s\<rparr>\<rparr>,
      take_preview_of (ms_thinking_preview s) (ms_thinking_preview_drops s))"

end
