(* ===== verification/Stream_Consumer.thy ===== *)
theory Stream_Consumer
  imports Message_Stream
begin

text \<open>
  The loop of \<open>src/model/model_provider.cpp\<close> that drives a stream parser: every chunk is fed, the
  previews are taken, the first failure ends the reading, and the end of the stream gives the
  response. The interface \<open>stream_reducer\<close> says what the loop needs of a reducer; the three parsers
  provide it.
\<close>

section \<open>The loop\<close>

fun feed_chunks :: "(string \<Rightarrow> 'c stream_parser \<Rightarrow> 'c stream_parser \<times> unit Result) \<Rightarrow> ('c \<Rightarrow> 'c) \<Rightarrow> string list \<Rightarrow> 'c stream_parser \<Rightarrow>
    'c stream_parser \<times> unit Result" where
  "feed_chunks feed tidy [] p = (p, Inr ())"
| "feed_chunks feed tidy (c # cs) p =
     (case feed c p of
        (p, Inl e) \<Rightarrow> (p, Inl e)
      | (p, Inr _) \<Rightarrow> feed_chunks feed tidy cs (p\<lparr>sp_state := tidy (sp_state p)\<rparr>))"

definition consume_stream :: "(string \<Rightarrow> 'c stream_parser \<Rightarrow> 'c stream_parser \<times> unit Result) \<Rightarrow>
    ('c stream_parser \<Rightarrow> 'c stream_parser \<times> 'r Result) \<Rightarrow> ('c \<Rightarrow> 'c) \<Rightarrow> string list \<Rightarrow> 'c stream_parser \<Rightarrow> 'r Result" where
  "consume_stream feed finish tidy cs p =
     (case feed_chunks feed tidy cs p of (p, Inl e) \<Rightarrow> Inl e | (p, Inr _) \<Rightarrow> snd (finish p))"

section \<open>The interface\<close>

locale stream_reducer =
  fixes reduce :: "SseMessage \<Rightarrow> 'c \<Rightarrow> 'c \<times> unit Result"
    and erase :: "'c \<Rightarrow> 'c"
    and tidy :: "'c \<Rightarrow> 'c"
    and outcome :: "'c \<Rightarrow> 'r Result"
    and feed :: "string \<Rightarrow> 'c stream_parser \<Rightarrow> 'c stream_parser \<times> unit Result"
    and finish :: "'c stream_parser \<Rightarrow> 'c stream_parser \<times> 'r Result"
  assumes reduce_erase: "map_prod erase id (reduce m (erase c)) = map_prod erase id (reduce m c)"
    and tidy_erase: "erase (tidy c) = erase c"
    and outcome_erase: "outcome (erase c) = outcome c"
    and feed_Inr: "feed chunk p = (p', Inr ()) \<longleftrightarrow>
      (\<exists>f ms c. sse_feed chunk (sp_framer p) = (f, Inr ms) \<and> reduce_all reduce ms (sp_state p) = (c, Inr ()) \<and>
        p' = \<lparr>sp_framer = f, sp_bytes = fp_bytes_fed f, sp_state = c\<rparr>)"
    and finish_Inr: "snd (finish p) = Inr r \<longleftrightarrow>
      (\<exists>f ms c. sse_finish (sp_framer p) = (f, Inr ms) \<and> reduce_all reduce ms (sp_state p) = (c, Inr ()) \<and> outcome c = Inr r)"
begin

text \<open>Two states that differ in their previews only.\<close>

lemma reduce_same:
  assumes "erase c = erase d" "reduce m c = (c', x)"
  shows "\<exists>d'. reduce m d = (d', x) \<and> erase c' = erase d'"
proof -
  have "map_prod erase id (reduce m c) = map_prod erase id (reduce m d)"
    using reduce_erase [of m c] reduce_erase [of m d] assms(1) by simp
  then show ?thesis using assms(2) by (cases "reduce m d") auto
qed

lemma reduce_all_same:
  "erase c = erase d \<Longrightarrow> reduce_all reduce ms c = (c', Inr ()) \<Longrightarrow> \<exists>d'. reduce_all reduce ms d = (d', Inr ()) \<and> erase c' = erase d'"
proof (induction ms arbitrary: c d)
  case (Cons m ms)
  obtain c1 x where "reduce m c = (c1, x)" by force
  then show ?case using reduce_same [of c d m c1 x] Cons.prems Cons.IH [of c1] by (cases x) auto
qed auto

lemma reduce_all_append: "reduce_all reduce (ms @ ms') c = (c'', Inr ()) \<longleftrightarrow>
    (\<exists>c'. reduce_all reduce ms c = (c', Inr ()) \<and> reduce_all reduce ms' c' = (c'', Inr ()))"
  by (induction ms arbitrary: c) (auto split: prod.splits sum.splits)

text \<open>The chunks are read as the framing layer reads them, and the messages are reduced in order.\<close>

lemma feed_chunks_sound:
  "feed_chunks feed tidy cs p = (p', Inr ()) \<Longrightarrow> erase (sp_state p) = erase c \<Longrightarrow>
     \<exists>ms c'. feed_all cs (sp_framer p) = (sp_framer p', Inr ms) \<and> reduce_all reduce ms c = (c', Inr ()) \<and> erase (sp_state p') = erase c'"
proof (induction cs arbitrary: p c)
  case Nil
  then show ?case by auto
next
  case (Cons k cs)
  obtain q where q: "feed k p = (q, Inr ())" "feed_chunks feed tidy cs (q\<lparr>sp_state := tidy (sp_state q)\<rparr>) = (p', Inr ())"
    using Cons.prems(1) by (auto split: prod.splits sum.splits)
  obtain f ms d where f: "sse_feed k (sp_framer p) = (f, Inr ms)" "reduce_all reduce ms (sp_state p) = (d, Inr ())" "sp_framer q = f" "sp_state q = d"
    using q(1) unfolding feed_Inr by auto
  obtain c1 where c1: "reduce_all reduce ms c = (c1, Inr ())" "erase d = erase c1" using reduce_all_same [OF Cons.prems(2) f(2)] by blast
  have "erase (sp_state (q\<lparr>sp_state := tidy (sp_state q)\<rparr>)) = erase c1" using c1(2) f(4) by (simp add: tidy_erase)
  from Cons.IH [OF q(2) this] show ?case using f(1,3) c1(1) reduce_all_append by fastforce
qed

lemma feed_chunks_complete:
  "feed_all cs (sp_framer p) = (f, Inr ms) \<Longrightarrow> reduce_all reduce ms c = (c', Inr ()) \<Longrightarrow> erase c = erase (sp_state p) \<Longrightarrow>
     \<exists>p'. feed_chunks feed tidy cs p = (p', Inr ()) \<and> sp_framer p' = f \<and> erase (sp_state p') = erase c'"
proof (induction cs arbitrary: p c ms)
  case Nil
  then show ?case by auto
next
  case (Cons k cs)
  obtain g ms1 ms2 where g: "sse_feed k (sp_framer p) = (g, Inr ms1)" "feed_all cs g = (f, Inr ms2)" "ms = ms1 @ ms2"
    using Cons.prems(1) by (auto split: prod.splits sum.splits)
  obtain c1 where c1: "reduce_all reduce ms1 c = (c1, Inr ())" "reduce_all reduce ms2 c1 = (c', Inr ())"
    using Cons.prems(2) g(3) reduce_all_append by auto
  obtain d where d: "reduce_all reduce ms1 (sp_state p) = (d, Inr ())" "erase c1 = erase d" using reduce_all_same [OF Cons.prems(3) c1(1)] by blast
  let ?q = "\<lparr>sp_framer = g, sp_bytes = fp_bytes_fed g, sp_state = d\<rparr>"
  have q: "feed k p = (?q, Inr ())" using g(1) d(1) by (simp add: feed_Inr)
  have "erase c1 = erase (sp_state (?q\<lparr>sp_state := tidy d\<rparr>))" using d(2) by (simp add: tidy_erase)
  from Cons.IH [of "?q\<lparr>sp_state := tidy d\<rparr>", OF _ c1(2) this] show ?case using q g(2) by simp
qed

text \<open>The loop gives what the reading of the whole stream gives.\<close>

lemma consume_reference:
  assumes "sp_framer p = new_framing limits"
  shows "consume_stream feed finish tidy cs p = Inr r \<longleftrightarrow>
    (\<exists>ms c. sse_run limits cs = Inr ms \<and> reduce_all reduce ms (sp_state p) = (c, Inr ()) \<and> outcome c = Inr r)"
proof
  assume "consume_stream feed finish tidy cs p = Inr r"
  then obtain p' where p': "feed_chunks feed tidy cs p = (p', Inr ())" "snd (finish p') = Inr r"
    by (auto simp: consume_stream_def split: prod.splits sum.splits)
  obtain ms c where c: "feed_all cs (sp_framer p) = (sp_framer p', Inr ms)" "reduce_all reduce ms (sp_state p) = (c, Inr ())"
    "erase (sp_state p') = erase c" using feed_chunks_sound [OF p'(1) refl] by blast
  obtain f ms' d where d: "sse_finish (sp_framer p') = (f, Inr ms')" "reduce_all reduce ms' (sp_state p') = (d, Inr ())" "outcome d = Inr r"
    using p'(2) unfolding finish_Inr by blast
  obtain c' where c': "reduce_all reduce ms' c = (c', Inr ())" "erase d = erase c'" using reduce_all_same [OF c(3) d(2)] by blast
  have "outcome c' = Inr r" using d(3) c'(2) outcome_erase by metis
  then show "\<exists>ms c. sse_run limits cs = Inr ms \<and> reduce_all reduce ms (sp_state p) = (c, Inr ()) \<and> outcome c = Inr r"
    using c d(1) c'(1) assms reduce_all_append by (intro exI [of _ "ms @ ms'"]) (auto simp: sse_run_def)
next
  assume "\<exists>ms c. sse_run limits cs = Inr ms \<and> reduce_all reduce ms (sp_state p) = (c, Inr ()) \<and> outcome c = Inr r"
  then obtain f f' ms ms' c where run: "feed_all cs (sp_framer p) = (f, Inr ms)" "sse_finish f = (f', Inr ms')"
    "reduce_all reduce (ms @ ms') (sp_state p) = (c, Inr ())" "outcome c = Inr r"
    using assms by (auto simp: sse_run_def split: prod.splits sum.splits)
  then obtain c1 where c1: "reduce_all reduce ms (sp_state p) = (c1, Inr ())" "reduce_all reduce ms' c1 = (c, Inr ())"
    using reduce_all_append by auto
  obtain p' where p': "feed_chunks feed tidy cs p = (p', Inr ())" "sp_framer p' = f" "erase (sp_state p') = erase c1"
    using feed_chunks_complete [OF run(1) c1(1) refl] by blast
  obtain d where d: "reduce_all reduce ms' (sp_state p') = (d, Inr ())" "erase c = erase d" using reduce_all_same [OF p'(3) [symmetric] c1(2)] by blast
  have "outcome d = Inr r" using d(2) run(4) outcome_erase by metis
  then have "snd (finish p') = Inr r" using run(2) p'(2) d(1) by (auto simp: finish_Inr)
  then show "consume_stream feed finish tidy cs p = Inr r" using p'(1) by (simp add: consume_stream_def)
qed

end

section \<open>The responses parser\<close>

definition erase_stats :: "SseStreamStats \<Rightarrow> SseStreamStats" where
  "erase_stats st = st\<lparr>st_preview_drops := 0, st_thinking_preview_drops := 0\<rparr>"

definition responses_erase :: "'r ResponsesState \<Rightarrow> 'r ResponsesState" where
  "responses_erase s = s\<lparr>rr_preview_text := [], rr_preview_drops := 0, rr_thinking_preview := [], rr_thinking_preview_drops := 0,
     rr_stats := erase_stats (rr_stats s)\<rparr>"

definition responses_tidy :: "'r ResponsesState \<Rightarrow> 'r ResponsesState" where
  "responses_tidy s = fst (responses_take_preview (fst (responses_take_thinking s)))"

definition responses_outcome :: "'r \<Rightarrow> 'r ResponsesState \<Rightarrow> 'r Result" where
  "responses_outcome no_response s =
     (if \<not> rr_terminal_seen s then Inl (sse_error AmbiguousCompletion ''sse stream ended without a terminal event'')
      else Inr (case rr_terminal_response s of Some r \<Rightarrow> r | None \<Rightarrow> no_response))"

lemma responses_erase_simps [simp]:
  "rr_items (responses_erase s) = rr_items s" "rr_limits (responses_erase s) = rr_limits s"
  "rr_accumulated_text (responses_erase s) = rr_accumulated_text s" "rr_reasoning_bytes (responses_erase s) = rr_reasoning_bytes s"
  "rr_terminal_seen (responses_erase s) = rr_terminal_seen s" "rr_terminal_response (responses_erase s) = rr_terminal_response s"
  "find_open_item k (responses_erase s) = find_open_item k s" "event_item a b data (responses_erase s) = event_item a b data s"
  "st_last_remote_sequence (rr_stats (responses_erase s)) = st_last_remote_sequence (rr_stats s)"
  by (simp_all add: responses_erase_def erase_stats_def find_open_item_def event_item_def split: option.splits)

lemma responses_erase_idem [simp]: "responses_erase (responses_erase s) = responses_erase s"
  by (simp add: responses_erase_def erase_stats_def)

lemma responses_erase_updates:
  "responses_erase (with_item k f (responses_erase s)) = responses_erase (with_item k f s)"
  "responses_erase ((responses_erase s)\<lparr>rr_items := x\<rparr>) = responses_erase (s\<lparr>rr_items := x\<rparr>)"
  "responses_erase ((responses_erase s)\<lparr>rr_stats := (rr_stats (responses_erase s))\<lparr>st_last_remote_sequence := n\<rparr>\<rparr>) =
     responses_erase (s\<lparr>rr_stats := (rr_stats s)\<lparr>st_last_remote_sequence := n\<rparr>\<rparr>)"
  by (simp_all add: with_item_def responses_erase_def erase_stats_def)

abbreviation erases :: "('r ResponsesState \<Rightarrow> 'r ResponsesState \<times> unit Result) \<Rightarrow> bool" where
  "erases h \<equiv> (\<forall>s. map_prod responses_erase id (h (responses_erase s)) = map_prod responses_erase id (h s))"

lemma item_events_erase:
  "erases (item_added data)" "erases (item_done data)" "erases (part_event b data)" "erases (text_done data)"
  "erases (refusal_event b data)" "erases (arguments_delta data)" "erases (arguments_done data)" "erases (check_remote_sequence data)"
  by (auto simp: item_added_def item_done_def part_event_def text_done_def refusal_event_def arguments_delta_def arguments_done_def
      check_remote_sequence_def Let_def responses_erase_updates split: option.splits JsonValue.splits sum.splits)

lemma text_delta_erases: "erases (text_delta data)"
  by (auto simp: text_delta_def append_preview_def responses_erase_def erase_stats_def with_item_def event_item_def find_open_item_def
      split: option.splits sum.splits)

lemma reasoning_erases: "erases (reasoning_event event data)"
  by (auto simp: reasoning_event_def responses_erase_def erase_stats_def event_item_def find_open_item_def Let_def
      split: option.splits sum.splits prod.splits)

lemma terminal_erases: "erases (terminal_event decode name data)"
  by (auto simp: terminal_event_def responses_erase_def erase_stats_def Let_def split: option.splits JsonValue.splits sum.splits)

lemma reduce_named_erases: "erases (reduce_named decode name data)"
  by (simp add: reduce_named_def Let_def if_distrib [of "map_prod responses_erase id"] item_events_erase [rule_format]
      text_delta_erases [rule_format] reasoning_erases [rule_format] terminal_erases [rule_format] cong del: if_weak_cong split del: if_split)

lemma erases_then:
  assumes "erases h" "erases g"
  shows "erases (\<lambda>s. case h s of (s, Inl e) \<Rightarrow> (s, Inl e) | (s, Inr _) \<Rightarrow> g s)"
proof
  fix s
  obtain a x where a: "h (responses_erase s) = (a, x)" by force
  obtain b y where b: "h s = (b, y)" by force
  have same: "responses_erase a = responses_erase b" "x = y" using spec [OF assms(1), of s] a b by simp_all
  have "map_prod responses_erase id (g a) = map_prod responses_erase id (g b)"
    using spec [OF assms(2), of a] spec [OF assms(2), of b] same(1) by simp
  then show "map_prod responses_erase id (case h (responses_erase s) of (s, Inl e) \<Rightarrow> (s, Inl e) | (s, Inr _) \<Rightarrow> g s) =
      map_prod responses_erase id (case h s of (s, Inl e) \<Rightarrow> (s, Inl e) | (s, Inr _) \<Rightarrow> g s)"
    using a b same by (cases y) simp_all
qed

lemma responses_reduce_erases:
  fixes decode :: "JsonValue \<Rightarrow> 'r Result"
  shows "erases (responses_reduce decode m)"
proof
  fix s :: "'r ResponsesState"
  let ?n = "\<lambda>s. s\<lparr>rr_stats := count_event (rr_stats s)\<rparr>"
  have n: "responses_erase (?n (responses_erase s)) = responses_erase (?n s)" "?n (responses_erase s) = responses_erase (?n s)"
    by (simp_all add: responses_erase_def erase_stats_def count_event_def)
  have "erases (\<lambda>s. case check_remote_sequence data s of (s, Inl e) \<Rightarrow> (s, Inl e) | (s, Inr _) \<Rightarrow> reduce_named decode (sm_event m) data s)" for data
    by (rule erases_then [OF item_events_erase(8) reduce_named_erases])
  then show "map_prod responses_erase id (responses_reduce decode m (responses_erase s)) = map_prod responses_erase id (responses_reduce decode m s)"
    unfolding responses_reduce_def n(2) by (auto simp: Let_def split: sum.splits JsonValue.splits)
qed

interpretation responses: stream_reducer "responses_reduce decode" responses_erase responses_tidy "responses_outcome no_response"
  "responses_feed decode" "responses_finish decode no_response"
proof
  show "map_prod responses_erase id (responses_reduce decode m (responses_erase c)) = map_prod responses_erase id (responses_reduce decode m c)" for m c
    using responses_reduce_erases by blast
  show "responses_erase (responses_tidy c) = responses_erase c" for c :: "'a ResponsesState"
    by (simp add: responses_tidy_def responses_take_preview_def responses_take_thinking_def responses_erase_def erase_stats_def)
  show "responses_outcome no_response (responses_erase c) = responses_outcome no_response c" for c by (simp add: responses_outcome_def)
qed (auto simp: responses_feed_def responses_finish_def responses_outcome_def Let_def split: prod.splits sum.splits if_splits)


section \<open>The chat parser\<close>

definition chat_erase :: "ChatState \<Rightarrow> ChatState" where
  "chat_erase s = s\<lparr>cs_thinking_preview := [], cs_thinking_preview_drops := 0, cs_preview := [], cs_pending_preview_drops := 0,
     cs_stats := erase_stats (cs_stats s)\<rparr>"

definition chat_tidy :: "ChatState \<Rightarrow> ChatState" where
  "chat_tidy s = fst (chat_take_preview (fst (chat_take_thinking s)))"

definition chat_outcome :: "(string \<Rightarrow> 'r Result) \<Rightarrow> ChatState \<Rightarrow> 'r Result" where
  "chat_outcome decode s =
     (if \<not> st_terminal_seen (cs_stats s) then Inl (make_model_error AmbiguousCompletion ''chat SSE stream ended without [DONE]'' False)
      else if list_ex (\<lambda>(_, t). tf_id t = [] \<or> tf_name t = []) (cs_tools s) then Inl (chat_invalid ''chat SSE incomplete tool identity'')
      else decode (to_json_string (chat_body s)))"

text \<open>Every step of the reducer but the previews commutes with taking the previews away.\<close>

lemma chat_erase_simps [simp]:
  "cs_limits (chat_erase s) = cs_limits s" "cs_id (chat_erase s) = cs_id s" "cs_model (chat_erase s) = cs_model s"
  "cs_text (chat_erase s) = cs_text s" "cs_refusal (chat_erase s) = cs_refusal s" "cs_reasoning (chat_erase s) = cs_reasoning s"
  "cs_finish_reason (chat_erase s) = cs_finish_reason s" "cs_tools (chat_erase s) = cs_tools s"
  "cs_argument_bytes (chat_erase s) = cs_argument_bytes s" "cs_usage (chat_erase s) = cs_usage s"
  "st_terminal_seen (cs_stats (chat_erase s)) = st_terminal_seen (cs_stats s)" "chat_erase (chat_erase s) = chat_erase s"
  by (simp_all add: chat_erase_def erase_stats_def)

lemma chat_erase_updates:
  "(chat_erase s)\<lparr>cs_id := x\<rparr> = chat_erase (s\<lparr>cs_id := x\<rparr>)" "(chat_erase s)\<lparr>cs_model := x\<rparr> = chat_erase (s\<lparr>cs_model := x\<rparr>)"
  "(chat_erase s)\<lparr>cs_usage := u\<rparr> = chat_erase (s\<lparr>cs_usage := u\<rparr>)" "(chat_erase s)\<lparr>cs_text := x\<rparr> = chat_erase (s\<lparr>cs_text := x\<rparr>)"
  "(chat_erase s)\<lparr>cs_refusal := x\<rparr> = chat_erase (s\<lparr>cs_refusal := x\<rparr>)" "(chat_erase s)\<lparr>cs_reasoning := x\<rparr> = chat_erase (s\<lparr>cs_reasoning := x\<rparr>)"
  "(chat_erase s)\<lparr>cs_finish_reason := x\<rparr> = chat_erase (s\<lparr>cs_finish_reason := x\<rparr>)" "(chat_erase s)\<lparr>cs_tools := t\<rparr> = chat_erase (s\<lparr>cs_tools := t\<rparr>)"
  "(chat_erase s)\<lparr>cs_argument_bytes := n\<rparr> = chat_erase (s\<lparr>cs_argument_bytes := n\<rparr>)"
  by (simp_all add: chat_erase_def)

lemma chat_steps_erase:
  "chat_identity body (chat_erase s) = map_prod chat_erase id (chat_identity body s)"
  "chat_usage body (chat_erase s) = map_prod chat_erase id (chat_usage body s)"
  "chat_texts delta (chat_erase s) = map_prod chat_erase id (chat_texts delta s)"
  "chat_finish_reason choice (chat_erase s) = map_prod chat_erase id (chat_finish_reason choice s)"
  by (auto simp: chat_identity_def chat_usage_def chat_texts_def chat_finish_reason_def chat_erase_updates Let_def
      split: sum.splits option.splits JsonValue.splits)

lemma tool_call_erase: "tool_call call (chat_erase s) = map_prod chat_erase id (tool_call call s)"
proof -
  have "tool_function n call t (chat_erase s) = map_prod chat_erase id (tool_function n call t s)" for n t s
    by (auto simp: tool_function_def put_tool_def chat_erase_updates Let_def split: option.splits)
  then show ?thesis by (auto simp: tool_call_def put_tool_def chat_erase_updates Let_def split: option.splits sum.splits)
qed

lemma chat_tools_erase: "chat_tools delta (chat_erase s) = map_prod chat_erase id (chat_tools delta s)"
proof -
  have "tool_calls calls (chat_erase s) = map_prod chat_erase id (tool_calls calls s)" for calls s
    by (induction calls arbitrary: s) (auto simp: tool_call_erase split: prod.splits sum.splits)
  then show ?thesis by (auto simp: chat_tools_def split: option.splits JsonValue.splits)
qed

lemma chat_previews_erase: "chat_erase (chat_previews n k (chat_erase s)) = chat_erase (chat_previews n k s)"
  by (auto simp: chat_previews_def chat_erase_def erase_stats_def Let_def split: prod.splits)


text \<open>The rest of a choice, after its texts.\<close>

lemma chat_rest_erase:
  assumes "chat_erase x = chat_erase y"
  shows "map_prod chat_erase id (case chat_tools delta x of (s', Inl e) \<Rightarrow> (s', Inl e) | (s', Inr _) \<Rightarrow> chat_finish_reason choice s') =
    map_prod chat_erase id (case chat_tools delta y of (s', Inl e) \<Rightarrow> (s', Inl e) | (s', Inr _) \<Rightarrow> chat_finish_reason choice s')"
proof -
  obtain a u where a: "chat_tools delta x = (a, u)" by force
  obtain b v where b: "chat_tools delta y = (b, v)" by force
  have same: "chat_erase a = chat_erase b" "u = v"
    using chat_tools_erase [of delta x] chat_tools_erase [of delta y] assms a b by simp_all
  have "map_prod chat_erase id (chat_finish_reason choice a) = map_prod chat_erase id (chat_finish_reason choice b)"
    using chat_steps_erase(4) [of choice a] chat_steps_erase(4) [of choice b] same(1) by simp
  then show ?thesis using a b same by (cases v) simp_all
qed

lemma chat_choice_erases: "map_prod chat_erase id (chat_choice choice (chat_erase s)) = map_prod chat_erase id (chat_choice choice s)"
proof -
  let ?f = "\<lambda>n k delta x. case x of
      (s', Inl e) \<Rightarrow> (s', Inl e)
    | (s', Inr _) \<Rightarrow> (case chat_tools delta (chat_previews n k s') of (s', Inl e) \<Rightarrow> (s', Inl e) | (s', Inr _) \<Rightarrow> chat_finish_reason choice s')"
  have "map_prod chat_erase id (?f n k delta (chat_texts delta (chat_erase s))) = map_prod chat_erase id (?f n k delta (chat_texts delta s))"
    for n k delta
  proof -
    obtain x r where "chat_texts delta s = (x, r)" by force
    then show ?thesis using chat_rest_erase [OF chat_previews_erase] by (cases r) (simp_all add: chat_steps_erase)
  qed
  then show ?thesis by (simp add: chat_choice_def split: option.splits JsonValue.splits)
qed

lemma chat_choices_erases: "map_prod chat_erase id (chat_choices body (chat_erase s)) = map_prod chat_erase id (chat_choices body s)"
  by (auto simp: chat_choices_def chat_choice_erases split: option.splits JsonValue.splits list.splits)

lemma chat_reduce_erases: "map_prod chat_erase id (chat_reduce m (chat_erase s)) = map_prod chat_erase id (chat_reduce m s)"
proof -
  let ?n = "\<lambda>s. s\<lparr>cs_stats := count_event (cs_stats s)\<rparr>"
  have n: "?n (chat_erase s) = chat_erase (?n s)" by (simp add: chat_erase_def erase_stats_def count_event_def)
  have t: "chat_erase ((chat_erase s)\<lparr>cs_stats := (cs_stats (chat_erase s))\<lparr>st_terminal_seen := True\<rparr>\<rparr>) =
      chat_erase (s\<lparr>cs_stats := (cs_stats s)\<lparr>st_terminal_seen := True\<rparr>\<rparr>)" for s
    by (simp add: chat_erase_def erase_stats_def)
  show ?thesis unfolding chat_reduce_def n
    by (auto simp: Let_def t chat_steps_erase chat_choices_erases split: sum.splits JsonValue.splits prod.splits)
qed

interpretation chat: stream_reducer chat_reduce chat_erase chat_tidy "chat_outcome decode" chat_feed "chat_finish decode"
proof
  show "chat_erase (chat_tidy c) = chat_erase c" for c
    by (simp add: chat_tidy_def chat_take_preview_def chat_take_thinking_def chat_erase_def erase_stats_def)
  show "chat_outcome decode (chat_erase c) = chat_outcome decode c" for c
    by (simp add: chat_outcome_def chat_body_def chat_message_def)
qed (auto simp: chat_reduce_erases chat_feed_def counted_feed_def chat_finish_def chat_outcome_def split: prod.splits sum.splits if_splits)

section \<open>The messages parser\<close>

definition messages_erase :: "MessagesState \<Rightarrow> MessagesState" where
  "messages_erase s = s\<lparr>ms_thinking_preview := [], ms_thinking_preview_drops := 0, ms_preview := [], ms_pending_drops := 0,
     ms_stats := erase_stats (ms_stats s)\<rparr>"

definition messages_tidy :: "MessagesState \<Rightarrow> MessagesState" where
  "messages_tidy s = fst (messages_take_preview (fst (messages_take_thinking s)))"

definition messages_outcome :: "(string \<Rightarrow> 'r Result) \<Rightarrow> MessagesState \<Rightarrow> 'r Result" where
  "messages_outcome decode s =
     (if \<not> st_terminal_seen (ms_stats s) then Inl (make_model_error AmbiguousCompletion ''Messages SSE ended without message_stop'' False)
      else if ms_truncated_tool_arguments s \<and> member_string (ms_message s) ''stop_reason'' \<noteq> Some ''max_tokens'' then Inl messages_invalid
      else decode (to_json_string (json_set ''content'' (JArray (map bk_value (ms_blocks s))) (ms_message s))))"

lemma messages_erase_simps [simp]:
  "ms_limits (messages_erase s) = ms_limits s" "ms_blocks (messages_erase s) = ms_blocks s" "ms_message (messages_erase s) = ms_message s"
  "ms_started (messages_erase s) = ms_started s" "ms_delta_seen (messages_erase s) = ms_delta_seen s"
  "ms_truncated_tool_arguments (messages_erase s) = ms_truncated_tool_arguments s" "ms_text_bytes (messages_erase s) = ms_text_bytes s"
  "ms_argument_bytes (messages_erase s) = ms_argument_bytes s" "messages_erase (messages_erase s) = messages_erase s"
  "st_terminal_seen (ms_stats (messages_erase s)) = st_terminal_seen (ms_stats s)"
  by (simp_all add: messages_erase_def erase_stats_def)

abbreviation message_erases :: "(MessagesState \<Rightarrow> MessagesState \<times> unit Result) \<Rightarrow> bool" where
  "message_erases h \<equiv> (\<forall>s. map_prod messages_erase id (h (messages_erase s)) = map_prod messages_erase id (h s))"

lemma messages_erase_updates:
  "(messages_erase s)\<lparr>ms_message := m\<rparr> = messages_erase (s\<lparr>ms_message := m\<rparr>)"
  "(messages_erase s)\<lparr>ms_started := b\<rparr> = messages_erase (s\<lparr>ms_started := b\<rparr>)"
  "(messages_erase s)\<lparr>ms_delta_seen := b\<rparr> = messages_erase (s\<lparr>ms_delta_seen := b\<rparr>)"
  "(messages_erase s)\<lparr>ms_blocks := bs\<rparr> = messages_erase (s\<lparr>ms_blocks := bs\<rparr>)"
  "(messages_erase s)\<lparr>ms_text_bytes := n\<rparr> = messages_erase (s\<lparr>ms_text_bytes := n\<rparr>)"
  "(messages_erase s)\<lparr>ms_argument_bytes := n\<rparr> = messages_erase (s\<lparr>ms_argument_bytes := n\<rparr>)"
  "(messages_erase s)\<lparr>ms_truncated_tool_arguments := b\<rparr> = messages_erase (s\<lparr>ms_truncated_tool_arguments := b\<rparr>)"
  by (simp_all add: messages_erase_def)

lemma erase_twice: "map_prod messages_erase id (map_prod messages_erase id x) = map_prod messages_erase id x"
  by (cases x) simp

lemma message_start_erase: "message_start body (messages_erase s) = map_prod messages_erase id (message_start body s)"
  by (simp add: message_start_def messages_erase_updates split: option.splits JsonValue.splits)

lemma message_delta_erase: "message_delta body (messages_erase s) = map_prod messages_erase id (message_delta body s)"
  by (simp add: message_delta_def messages_erase_updates Let_def split: option.splits JsonValue.splits sum.splits)

lemma block_start_erase: "block_start k body (messages_erase s) = map_prod messages_erase id (block_start k body s)"
proof -
  have "start_shape kind b (messages_erase s) = start_shape kind b s" for kind b by (simp add: start_shape_def split: option.splits)
  then show ?thesis by (simp add: block_start_def messages_erase_updates split: option.splits JsonValue.splits)
qed

lemma block_stop_erase: "block_stop k b (messages_erase s) = messages_erase (block_stop k b s)"
  "stop_unstarted k (messages_erase s) = messages_erase (stop_unstarted k s)"
  by (simp_all add: block_stop_def stop_unstarted_def put_block_def Let_def messages_erase_updates split: sum.splits JsonValue.splits)

lemma block_parts_erase:
  "message_erases (text_part k b delta)" "message_erases (thinking_part k b t delta)" "message_erases (argument_part k b delta)"
  by (auto simp: text_part_def thinking_part_def argument_part_def put_block_def Let_def messages_erase_def erase_stats_def
      split: option.splits prod.splits)

lemma block_delta_erases: "message_erases (block_delta k b body)"
  using block_parts_erase by (auto simp: block_delta_def split: option.splits)

lemma block_event_erases: "message_erases (block_event type body)"
  using block_delta_erases by (simp add: block_event_def Let_def block_start_erase block_stop_erase erase_twice split: option.splits)

lemma messages_typed_erases: "message_erases (messages_typed type body)"
proof
  fix s
  have t: "messages_erase ((messages_erase s)\<lparr>ms_stats := (ms_stats (messages_erase s))\<lparr>st_terminal_seen := True\<rparr>\<rparr>) =
      messages_erase (s\<lparr>ms_stats := (ms_stats s)\<lparr>st_terminal_seen := True\<rparr>\<rparr>)" by (simp add: messages_erase_def erase_stats_def)
  show "map_prod messages_erase id (messages_typed type body (messages_erase s)) = map_prod messages_erase id (messages_typed type body s)"
    using block_event_erases by (simp add: messages_typed_def t message_start_erase message_delta_erase erase_twice)
qed

lemma messages_reduce_erases: "message_erases (messages_reduce m)"
proof
  fix s
  let ?n = "\<lambda>s. s\<lparr>ms_stats := count_event (ms_stats s)\<rparr>"
  have n: "?n (messages_erase s) = messages_erase (?n s)" by (simp add: messages_erase_def erase_stats_def count_event_def)
  show "map_prod messages_erase id (messages_reduce m (messages_erase s)) = map_prod messages_erase id (messages_reduce m s)"
    unfolding messages_reduce_def n using messages_typed_erases by (auto simp: Let_def split: sum.splits JsonValue.splits option.splits)
qed

interpretation messages: stream_reducer messages_reduce messages_erase messages_tidy "messages_outcome decode" messages_feed "messages_finish decode"
proof
  show "map_prod messages_erase id (messages_reduce m (messages_erase c)) = map_prod messages_erase id (messages_reduce m c)" for m c
    using messages_reduce_erases by blast
  show "messages_erase (messages_tidy c) = messages_erase c" for c
    by (simp add: messages_tidy_def messages_take_preview_def messages_take_thinking_def messages_erase_def erase_stats_def)
  show "messages_outcome decode (messages_erase c) = messages_outcome decode c" for c by (simp add: messages_outcome_def)
qed (auto simp: messages_feed_def counted_feed_def messages_finish_def messages_outcome_def Let_def split: prod.splits sum.splits if_splits)


end
