(* ===== verification/Stream_Bounds.thy ===== *)
theory Stream_Bounds
  imports Stream_Consumer
begin

text \<open>
  The invariants of the three stream reducers and of the framing layer below them: the buffers stay
  within the limits of the stream, the limits are the ones the parser was made with, and an output
  item is closed only when it is complete.
\<close>

section \<open>Responses\<close>

definition item_complete :: "OpenItem \<Rightarrow> bool" where
  "item_complete it \<longleftrightarrow> oi_closed it \<and> oi_open_parts it = [] \<and> (oi_type it = ''function_call'' \<longrightarrow> oi_args_done it)"

definition item_ok :: "SseStreamLimits \<Rightarrow> OpenItem \<Rightarrow> bool" where
  "item_ok l it \<longleftrightarrow> length (oi_args it) \<le> ss_max_arguments_buffer_bytes l \<and> length (oi_refusal it) \<le> ss_max_accumulated_text_bytes l \<and>
     (oi_closed it \<longrightarrow> item_complete it)"

definition responses_ok :: "'r ResponsesState \<Rightarrow> bool" where
  "responses_ok s \<longleftrightarrow> length (rr_items s) \<le> ss_max_open_output_items (rr_limits s) \<and> distinct (map oi_item_id (rr_items s)) \<and>
     list_all (item_ok (rr_limits s)) (rr_items s) \<and> sum_list (map (length \<circ> oi_text) (rr_items s)) = length (rr_accumulated_text s) \<and>
     length (rr_accumulated_text s) \<le> ss_max_accumulated_text_bytes (rr_limits s) \<and>
     rr_reasoning_bytes s \<le> ss_max_accumulated_text_bytes (rr_limits s) \<and>
     length (rr_preview_text s) \<le> ss_max_preview_bytes (rr_limits s) \<and> length (rr_thinking_preview s) \<le> ss_max_preview_bytes (rr_limits s)"

lemma change_item_split: "List.find (\<lambda>it. oi_item_id it = k) items = Some it \<Longrightarrow>
    \<exists>a b. items = a @ it # b \<and> change_item k f items = a @ f it # b \<and> oi_item_id it = k"
proof (induction items)
  case (Cons x items)
  show ?case
  proof (cases "oi_item_id x = k")
    case False
    then obtain a b where "items = a @ it # b" "change_item k f items = a @ f it # b" "oi_item_id it = k" using Cons by auto
    then show ?thesis using False by (intro exI [of _ "x # a"] exI [of _ b]) simp
  qed (use Cons.prems in \<open>auto intro: exI [of _ "[]"]\<close>)
qed simp

lemma event_item_Inr: "event_item a b data s = Inr it \<Longrightarrow> find_open_item (oi_item_id it) s = Some it \<and> \<not> oi_closed it"
  by (auto simp: event_item_def find_open_item_def split: option.splits if_splits dest: change_item_split)

lemma with_item_ok:
  assumes "responses_ok s" "find_open_item k s = Some it" "item_ok (rr_limits s) it \<Longrightarrow> item_ok (rr_limits s) (f it)"
    and "length (oi_text (f it)) = length (oi_text it)" "oi_item_id (f it) = oi_item_id it"
  shows "responses_ok (with_item k f s)"
  using assms change_item_split [of k "rr_items s" it f] by (auto simp: responses_ok_def with_item_def find_open_item_def)

lemma find_item_ok: "responses_ok s \<Longrightarrow> find_open_item k s = Some it \<Longrightarrow> item_ok (rr_limits s) it"
  using change_item_split [of k "rr_items s" it id] by (auto simp: responses_ok_def find_open_item_def)

lemma item_added_ok: "responses_ok s \<Longrightarrow> responses_ok (fst (item_added data s))"
  by (auto simp: item_added_def responses_ok_def new_item_def item_ok_def item_complete_def find_open_item_def find_None_iff
      split: option.splits JsonValue.splits)

lemma item_done_ok: "responses_ok s \<Longrightarrow> responses_ok (fst (item_done data s))"
  by (auto simp: item_done_def item_ok_def item_complete_def split: option.splits JsonValue.splits intro!: with_item_ok)

lemma part_event_ok: "responses_ok s \<Longrightarrow> responses_ok (fst (part_event b data s))"
  by (auto simp: part_event_def item_ok_def item_complete_def Let_def split: sum.splits dest!: event_item_Inr intro!: with_item_ok)

lemma arguments_delta_ok: "responses_ok s \<Longrightarrow> responses_ok (fst (arguments_delta data s))"
  by (auto simp: arguments_delta_def item_ok_def item_complete_def split: sum.splits option.splits dest!: event_item_Inr intro!: with_item_ok)

lemma done_events_ok: "responses_ok s \<Longrightarrow> responses_ok (fst (text_done data s))" "responses_ok s \<Longrightarrow> responses_ok (fst (arguments_done data s))"
  by (auto simp: text_done_def arguments_done_def item_ok_def item_complete_def split: sum.splits option.splits dest!: event_item_Inr
      intro!: with_item_ok)

lemma refusal_event_ok: "responses_ok s \<Longrightarrow> refusal_event b data s = (s', Inr ()) \<Longrightarrow> responses_ok s'"
  by (auto simp: refusal_event_def item_ok_def item_complete_def Let_def split: sum.splits option.splits if_splits dest!: event_item_Inr
      intro!: with_item_ok)

lemma append_preview_ok: "responses_ok s \<Longrightarrow> responses_ok (append_preview delta s)"
  by (auto simp: append_preview_def responses_ok_def)

lemma text_delta_ok: "responses_ok s \<Longrightarrow> responses_ok (fst (text_delta data s))"
proof -
  assume ok: "responses_ok s"
  have "responses_ok ((with_item (oi_item_id it) (\<lambda>it. it\<lparr>oi_text := oi_text it @ delta\<rparr>) s)\<lparr>rr_accumulated_text := rr_accumulated_text s @ delta,
      rr_stats := st\<rparr>)"
    if "find_open_item (oi_item_id it) s = Some it" "length (rr_accumulated_text s) + length (oi_text it) + length delta \<le> ss_max_accumulated_text_bytes (rr_limits s)"
    for it delta st
    using that ok change_item_split [of "oi_item_id it" "rr_items s" it "\<lambda>it. it\<lparr>oi_text := oi_text it @ delta\<rparr>"]
    by (auto simp: responses_ok_def with_item_def find_open_item_def item_ok_def item_complete_def)
  then show ?thesis using ok by (auto simp: text_delta_def not_less split: sum.splits option.splits dest!: event_item_Inr intro!: append_preview_ok)
qed

lemma thinking_preview_bound: "append_thinking_preview buffer delta limit = (t, n) \<Longrightarrow> length buffer \<le> limit \<Longrightarrow> length t \<le> limit"
  using length_dropWhile_le [of "\<lambda>c. (of_char c :: int) AND 0xC0 = 0x80" "drop (length delta - limit) delta"]
    length_dropWhile_le [of "\<lambda>c. (of_char c :: int) AND 0xC0 = 0x80" "drop (length buffer - (limit - length delta)) buffer"]
  by (auto simp: append_thinking_preview_def from_boundary_def split: if_splits)

lemma reasoning_event_ok: "responses_ok s \<Longrightarrow> responses_ok (fst (reasoning_event event data s))"
  by (auto simp: reasoning_event_def responses_ok_def Let_def split: sum.splits option.splits prod.splits dest: thinking_preview_bound)

lemma terminal_event_ok: "responses_ok s \<Longrightarrow> responses_ok (fst (terminal_event decode name data s))"
  by (auto simp: terminal_event_def responses_ok_def Let_def split: option.splits JsonValue.splits sum.splits)

lemma check_sequence_ok: "responses_ok s \<Longrightarrow> responses_ok (fst (check_remote_sequence data s))"
  by (auto simp: check_remote_sequence_def responses_ok_def Let_def split: option.splits JsonValue.splits)

text \<open>What a step that succeeds leaves.\<close>

definition leaves :: "('c \<Rightarrow> bool) \<Rightarrow> 'c \<times> unit Result \<Rightarrow> bool" where
  "leaves P x \<longleftrightarrow> (\<forall>c. x = (c, Inr ()) \<longrightarrow> P c)"

lemma leaves_fst: "P (fst x) \<Longrightarrow> leaves P x"
  by (cases x) (simp add: leaves_def)

lemma leaves_Inl [simp]: "leaves P (c, Inl e)"
  by (simp add: leaves_def)

lemma leaves_then: "leaves Q x \<Longrightarrow> (\<And>c. Q c \<Longrightarrow> leaves P (f c)) \<Longrightarrow>
    leaves P (case x of (c, Inl e) \<Rightarrow> (c, Inl e) | (c, Inr _) \<Rightarrow> f c)"
  by (auto simp: leaves_def split: prod.splits sum.splits)

lemmas event_ok = item_added_ok item_done_ok part_event_ok arguments_delta_ok done_events_ok text_delta_ok reasoning_event_ok terminal_event_ok

lemma reduce_named_ok:
  assumes "responses_ok s"
  shows "leaves responses_ok (reduce_named decode name data s)"
proof -
  have "leaves responses_ok (refusal_event b data s)" for b using refusal_event_ok [OF assms] by (simp add: leaves_def)
  then show ?thesis using assms by (simp add: reduce_named_def Let_def event_ok [OF assms, THEN leaves_fst [where P = responses_ok]] leaves_fst)
qed

lemma responses_reduce_ok: "responses_ok s \<Longrightarrow> responses_reduce decode m s = (s', Inr ()) \<Longrightarrow> responses_ok s'"
proof -
  assume ok: "responses_ok s" and run: "responses_reduce decode m s = (s', Inr ())"
  let ?s = "s\<lparr>rr_stats := count_event (rr_stats s)\<rparr>"
  have "responses_ok ?s" using ok by (simp add: responses_ok_def)
  moreover obtain data t where "check_remote_sequence data ?s = (t, Inr ())" "reduce_named decode (sm_event m) data t = (s', Inr ())"
    using run by (auto simp: responses_reduce_def Let_def split: if_splits sum.splits JsonValue.splits prod.splits)
  ultimately show ?thesis using check_sequence_ok [of ?s data] reduce_named_ok [of t decode "sm_event m" data] by (simp add: leaves_def)
qed

lemma reduce_all_keeps:
  assumes "\<And>m c. P c \<Longrightarrow> leaves P (reduce m c)"
  shows "P c \<Longrightarrow> leaves P (reduce_all reduce ms c)"
proof (induction ms arbitrary: c)
  case (Cons m ms)
  then show ?case using leaves_then [OF assms [OF Cons.prems, of m], of P "reduce_all reduce ms"] by simp
qed (simp add: leaves_def)

section \<open>Chat\<close>

definition chat_ok :: "ChatState \<Rightarrow> bool" where
  "chat_ok s \<longleftrightarrow> length (cs_text s) \<le> ss_max_accumulated_text_bytes (cs_limits s) \<and>
     length (cs_refusal s) \<le> ss_max_accumulated_text_bytes (cs_limits s) \<and>
     length (cs_reasoning s) \<le> ss_max_accumulated_text_bytes (cs_limits s) \<and>
     length (cs_preview s) \<le> ss_max_preview_bytes (cs_limits s) \<and> length (cs_thinking_preview s) \<le> ss_max_preview_bytes (cs_limits s) \<and>
     omap_ok (cs_tools s) \<and> fst ` set (cs_tools s) \<subseteq> {0..<int (ss_max_open_output_items (cs_limits s))} \<and>
     sum_list (map (length \<circ> tf_arguments \<circ> snd) (cs_tools s)) = cs_argument_bytes s \<and>
     cs_argument_bytes s \<le> ss_max_arguments_buffer_bytes (cs_limits s) \<and>
     (cs_finish_reason s = [] \<or> List.member finish_reasons (cs_finish_reason s)) \<and>
     (st_terminal_seen (cs_stats s) \<longrightarrow> cs_finish_reason s \<noteq> [])"

lemma append_part_bound: "append_part t part limit = Some t' \<Longrightarrow> length t \<le> limit \<Longrightarrow> length t' \<le> limit"
  by (auto simp: append_part_def split: option.splits JsonValue.splits if_splits)

lemma append_part_longer: "append_part t part limit = Some t' \<Longrightarrow> length t \<le> length t'"
  by (auto simp: append_part_def split: option.splits JsonValue.splits if_splits)

lemma chat_identity_ok: "chat_ok s \<Longrightarrow> chat_ok (fst (chat_identity body s))"
  by (auto simp: chat_identity_def chat_ok_def Let_def split: sum.splits)

lemma chat_usage_ok: "chat_ok s \<Longrightarrow> chat_ok (fst (chat_usage body s))"
  by (auto simp: chat_usage_def chat_ok_def split: option.splits JsonValue.splits sum.splits)

lemma chat_texts_ok: "chat_ok s \<Longrightarrow> chat_ok (fst (chat_texts delta s))"
  by (auto simp: chat_texts_def chat_ok_def Let_def split: option.splits dest: append_part_bound)

lemma chat_previews_ok: "chat_ok s \<Longrightarrow> chat_ok (chat_previews n k s)"
  by (auto simp: chat_previews_def chat_ok_def Let_def split: prod.splits dest: thinking_preview_bound)

lemma chat_finish_reason_ok: "chat_ok s \<Longrightarrow> leaves chat_ok (chat_finish_reason choice s)"
  by (auto simp: chat_finish_reason_def chat_ok_def leaves_def finish_reasons_def split: option.splits JsonValue.splits)

text \<open>The sum of the argument lengths when one tool is replaced or added.\<close>

lemma omap_set_sum: "omap_ok m \<Longrightarrow> sum_list (map (f \<circ> snd) (omap_set n t m)) + (case omap_find m n of Some u \<Rightarrow> f u | None \<Rightarrow> 0) =
    sum_list (map (f \<circ> snd) m) + (f t :: nat)"
proof (induction n t m rule: omap_set.induct)
  case (2 k v k' v' m)
  show ?case
  proof (cases "k < k'")
    case True
    then have "map_of m k = None" using 2(2) by (force simp: omap_ok_def map_of_eq_None_iff)
    then show ?thesis using True by auto
  next
    case False
    then show ?thesis using 2 by (auto simp: omap_ok_def)
  qed
qed simp

lemma put_tool_ok:
  assumes "chat_ok s" "omap_find (cs_tools s) n = Some u" "tf_arguments t = tf_arguments u"
  shows "chat_ok (put_tool n t s)"
proof -
  have "sum_list (map (length \<circ> tf_arguments \<circ> snd) (omap_set n t (cs_tools s))) = cs_argument_bytes s"
    using omap_set_sum [of "cs_tools s" "length \<circ> tf_arguments" n t] assms by (simp add: chat_ok_def)
  moreover have "n \<in> fst ` set (cs_tools s)" using assms(2) by (metis map_of_eq_None_iff not_None_eq)
  ultimately show ?thesis using assms(1) by (auto simp: chat_ok_def put_tool_def omap_ok_set keys_omap_set)
qed


lemma tool_function_ok:
  assumes "chat_ok s" "omap_find (cs_tools s) n = Some t"
  shows "leaves chat_ok (tool_function n call t s)"
proof -
  have grown: "chat_ok ((put_tool n (t'\<lparr>tf_arguments := a\<rparr>) (put_tool n t' s))\<lparr>cs_argument_bytes := cs_argument_bytes s + (length a - length (tf_arguments t))\<rparr>)"
    if "tf_arguments t' = tf_arguments t" "append_part (tf_arguments t) part (length (tf_arguments t) + ss_max_arguments_buffer_bytes (cs_limits s) - cs_argument_bytes s) = Some a"
    for t' a part
  proof -
    let ?s = "put_tool n t' s" and ?u = "t'\<lparr>tf_arguments := a\<rparr>"
    have ok: "chat_ok ?s" using put_tool_ok [OF assms that(1)] .
    have u: "omap_find (cs_tools ?s) n = Some t'" "cs_argument_bytes ?s = cs_argument_bytes s" "cs_limits ?s = cs_limits s" by (simp_all add: put_tool_def)
    have len: "length (tf_arguments t) \<le> length a" using append_part_longer [OF that(2)] .
    have "length a \<le> length (tf_arguments t) + ss_max_arguments_buffer_bytes (cs_limits s) - cs_argument_bytes s"
      by (rule append_part_bound [OF that(2)]) (use assms(1) in \<open>auto simp: chat_ok_def\<close>)
    then have bound: "cs_argument_bytes s + (length a - length (tf_arguments t)) \<le> ss_max_arguments_buffer_bytes (cs_limits s)"
      using assms(1) len by (auto simp: chat_ok_def)
    have "sum_list (map (length \<circ> tf_arguments \<circ> snd) (omap_set n ?u (cs_tools ?s))) = cs_argument_bytes s + (length a - length (tf_arguments t))"
      using omap_set_sum [of "cs_tools ?s" "length \<circ> tf_arguments" n ?u] ok u that(1) len by (simp add: chat_ok_def)
    moreover have "n \<in> fst ` set (cs_tools ?s)" using u(1) by (metis map_of_eq_None_iff not_None_eq)
    ultimately show ?thesis using ok bound u(3) by (auto simp: chat_ok_def put_tool_def [of n ?u] omap_ok_set keys_omap_set)
  qed
  show ?thesis using grown assms(1)
    by (fastforce simp: tool_function_def leaves_def Let_def put_tool_def split: option.splits if_splits)
qed

lemma tool_call_ok: "chat_ok s \<Longrightarrow> leaves chat_ok (tool_call call s)"
proof -
  assume ok: "chat_ok s"
  have entered: "chat_ok (s\<lparr>cs_tools := omap_emplace n no_fragments (cs_tools s)\<rparr>)" if "0 \<le> n" "n < int (ss_max_open_output_items (cs_limits s))" for n
    using ok that omap_set_sum [of "cs_tools s" "length \<circ> tf_arguments" n no_fragments]
    by (auto simp: chat_ok_def omap_emplace_def no_fragments_def keys_omap_set omap_ok_set split: option.splits)
  have found: "\<exists>t. omap_find (omap_emplace n no_fragments (cs_tools s)) n = Some t" for n by (simp add: omap_find_emplace split: option.splits)
  have same: "tf_arguments t' = tf_arguments t" if "tool_identity call t = Inr t'" for t t'
    using that by (auto simp: tool_identity_def split: option.splits JsonValue.splits if_splits)
  show ?thesis
  proof (cases "Option.bind (json_find call ''index'') as_integer")
    case (Some n)
    let ?s = "s\<lparr>cs_tools := omap_emplace n no_fragments (cs_tools s)\<rparr>"
    obtain t where t: "omap_find (cs_tools ?s) n = Some t" using found by auto
    show ?thesis
    proof (cases "n < 0 \<or> n \<ge> int (ss_max_open_output_items (cs_limits s))")
      case False
      then have s: "chat_ok ?s" using entered by simp
      have "leaves chat_ok (tool_function n call t' (put_tool n t' ?s))" if "tool_identity call t = Inr t'" for t'
        by (rule tool_function_ok [OF put_tool_ok [OF s t same [OF that]]]) (simp add: put_tool_def)
      then show ?thesis using Some False t by (auto simp: tool_call_def Let_def split: sum.splits)
    qed (use Some in \<open>simp add: tool_call_def\<close>)
  qed (simp add: tool_call_def)
qed

lemma chat_tools_ok: "chat_ok s \<Longrightarrow> leaves chat_ok (chat_tools delta s)"
proof -
  have "chat_ok s \<Longrightarrow> leaves chat_ok (tool_calls calls s)" for calls s
  proof (induction calls arbitrary: s)
    case (Cons call calls)
    then show ?case using leaves_then [OF tool_call_ok [OF Cons.prems, of call], of chat_ok "tool_calls calls"] by simp
  qed (simp add: leaves_def)
  then show "chat_ok s \<Longrightarrow> leaves chat_ok (chat_tools delta s)"
    by (auto simp: chat_tools_def leaves_def split: option.splits JsonValue.splits)
qed

lemma chat_choice_ok: "chat_ok s \<Longrightarrow> leaves chat_ok (chat_choice choice s)"
proof -
  assume ok: "chat_ok s"
  let ?f = "\<lambda>delta s'. case chat_tools delta (chat_previews (length (cs_text s)) (length (cs_reasoning s)) s') of
      (s', Inl e) \<Rightarrow> (s', Inl e) | (s', Inr _) \<Rightarrow> chat_finish_reason choice s'"
  have rest: "leaves chat_ok (?f delta s')" if "chat_ok s'" for delta s'
    by (rule leaves_then [OF chat_tools_ok [OF chat_previews_ok [OF that]] chat_finish_reason_ok])
  have "leaves chat_ok (case chat_texts delta s of (s', Inl e) \<Rightarrow> (s', Inl e) | (s', Inr _) \<Rightarrow> ?f delta s')" for delta
    by (rule leaves_then [OF leaves_fst [where P = chat_ok, OF chat_texts_ok [OF ok]] rest])
  then show ?thesis by (simp add: chat_choice_def split: option.splits JsonValue.splits)
qed

lemma chat_reduce_ok: "chat_ok s \<Longrightarrow> leaves chat_ok (chat_reduce m s)"
proof -
  assume "chat_ok s"
  let ?s = "s\<lparr>cs_stats := count_event (cs_stats s)\<rparr>"
  have ok: "chat_ok ?s" using \<open>chat_ok s\<close> by (simp add: chat_ok_def count_event_def)
  have choices: "leaves chat_ok (chat_choices body s)" if "chat_ok s" for body s
    using that chat_choice_ok by (auto simp: chat_choices_def leaves_def split: option.splits JsonValue.splits list.splits if_splits)
  have usage: "leaves chat_ok (case chat_usage body s of (s, Inl e) \<Rightarrow> (s, Inl e) | (s, Inr _) \<Rightarrow> chat_choices body s)" if "chat_ok s" for body s
    by (rule leaves_then [OF leaves_fst [where P = chat_ok, OF chat_usage_ok [OF that]] choices])
  have "leaves chat_ok (case chat_identity body ?s of (s, Inl e) \<Rightarrow> (s, Inl e) | (s, Inr _) \<Rightarrow>
      (case chat_usage body s of (s, Inl e) \<Rightarrow> (s, Inl e) | (s, Inr _) \<Rightarrow> chat_choices body s))" for body
    by (rule leaves_then [OF leaves_fst [where P = chat_ok, OF chat_identity_ok [OF ok]] usage])
  moreover have "chat_ok (?s\<lparr>cs_stats := (cs_stats ?s)\<lparr>st_terminal_seen := True\<rparr>\<rparr>)" if "cs_finish_reason ?s \<noteq> []"
    using ok that by (simp add: chat_ok_def)
  ultimately show ?thesis
    by (simp add: chat_reduce_def Let_def leaves_fst split: sum.splits JsonValue.splits)
qed


section \<open>Messages\<close>

definition block_bytes :: "Block \<Rightarrow> nat" where
  "block_bytes b = length (bk_text b) + length (bk_arguments b)"

definition messages_ok :: "MessagesState \<Rightarrow> bool" where
  "messages_ok s \<longleftrightarrow> length (ms_blocks s) \<le> ss_max_open_output_items (ms_limits s) \<and>
     sum_list (map block_bytes (ms_blocks s)) \<le> ms_text_bytes s + ms_argument_bytes s \<and>
     ms_text_bytes s \<le> ss_max_accumulated_text_bytes (ms_limits s) \<and> ms_argument_bytes s \<le> ss_max_arguments_buffer_bytes (ms_limits s) \<and>
     length (ms_preview s) \<le> ss_max_preview_bytes (ms_limits s) \<and> length (ms_thinking_preview s) \<le> ss_max_preview_bytes (ms_limits s) \<and>
     (ms_delta_seen s \<longrightarrow> ms_started s \<and> list_all bk_closed (ms_blocks s)) \<and> (st_terminal_seen (ms_stats s) \<longrightarrow> ms_delta_seen s)"

lemma message_start_ok: "messages_ok s \<Longrightarrow> messages_ok (fst (message_start body s))"
  by (auto simp: message_start_def messages_ok_def split: option.splits JsonValue.splits)

lemma message_delta_ok: "messages_ok s \<Longrightarrow> ms_started s \<Longrightarrow> messages_ok (fst (message_delta body s))"
  by (auto simp: message_delta_def messages_ok_def Let_def list_all_iff list_ex_iff split: option.splits JsonValue.splits sum.splits)

lemma start_shape_bound: "start_shape kind b s = Some n \<Longrightarrow> n \<le> ss_max_accumulated_text_bytes (ms_limits s) - ms_text_bytes s"
  by (auto simp: start_shape_def split: if_splits option.splits)

lemma block_start_ok:
  assumes "messages_ok s" "\<not> ms_delta_seen s" "k < ss_max_open_output_items (ms_limits s)"
  shows "messages_ok (fst (block_start k body s))"
  using assms by (auto simp: block_start_def messages_ok_def block_bytes_def split: option.splits JsonValue.splits dest: start_shape_bound)

lemma sum_list_update_nat: "k < length xs \<Longrightarrow> sum_list (map f (xs[k := x])) + f (xs ! k) = sum_list (map f xs) + (f x :: nat)"
  by (induction xs arbitrary: k) (auto simp: nth_Cons split: nat.splits)

text \<open>One block changes and takes \<open>n\<close> bytes from the text and \<open>m\<close> bytes from the argument budget.\<close>

lemma put_block_ok:
  assumes "messages_ok s" "\<not> ms_delta_seen s" "k < length (ms_blocks s)" "block_bytes b \<le> block_bytes (ms_blocks s ! k) + n + m"
    and "n \<le> ss_max_accumulated_text_bytes (ms_limits s) - ms_text_bytes s" "m \<le> ss_max_arguments_buffer_bytes (ms_limits s) - ms_argument_bytes s"
  shows "messages_ok ((put_block k b s)\<lparr>ms_text_bytes := ms_text_bytes s + n, ms_argument_bytes := ms_argument_bytes s + m\<rparr>)"
  using assms sum_list_update_nat [OF assms(3), of block_bytes b] by (auto simp: messages_ok_def put_block_def)

lemma text_part_ok:
  assumes "messages_ok s" "\<not> ms_delta_seen s" "k < length (ms_blocks s)"
  shows "messages_ok (fst (text_part k (ms_blocks s ! k) delta s))"
proof -
  have "messages_ok ((put_block k ((ms_blocks s ! k)\<lparr>bk_text := bk_text (ms_blocks s ! k) @ part\<rparr>) s)\<lparr>ms_text_bytes := ms_text_bytes s + length part\<rparr>)"
    if "length part \<le> ss_max_accumulated_text_bytes (ms_limits s) - ms_text_bytes s" for part
    using put_block_ok [OF assms, of "(ms_blocks s ! k)\<lparr>bk_text := bk_text (ms_blocks s ! k) @ part\<rparr>" "length part" 0] that
    by (auto simp: block_bytes_def messages_ok_def put_block_def)
  then show ?thesis using assms(1)
    by (auto simp: text_part_def Let_def not_less messages_ok_def put_block_def split: option.splits)
qed

lemma thinking_part_ok:
  assumes "messages_ok s" "\<not> ms_delta_seen s" "k < length (ms_blocks s)"
  shows "messages_ok (fst (thinking_part k (ms_blocks s ! k) t delta s))"
proof -
  have "messages_ok ((put_block k b s)\<lparr>ms_text_bytes := ms_text_bytes s + length part\<rparr>)"
    if "length part \<le> ss_max_accumulated_text_bytes (ms_limits s) - ms_text_bytes s" "block_bytes b \<le> block_bytes (ms_blocks s ! k) + length part" for part b
    using put_block_ok [OF assms, of b "length part" 0] that by (auto simp: messages_ok_def put_block_def)
  then show ?thesis using assms(1)
    by (fastforce simp: thinking_part_def Let_def not_less messages_ok_def put_block_def block_bytes_def split: option.splits prod.splits
        dest: thinking_preview_bound)
qed

lemma argument_part_ok:
  assumes "messages_ok s" "\<not> ms_delta_seen s" "k < length (ms_blocks s)"
  shows "messages_ok (fst (argument_part k (ms_blocks s ! k) delta s))"
proof -
  have "messages_ok ((put_block k ((ms_blocks s ! k)\<lparr>bk_arguments := bk_arguments (ms_blocks s ! k) @ part\<rparr>) s)\<lparr>ms_argument_bytes := ms_argument_bytes s + length part\<rparr>)"
    if "length part \<le> ss_max_arguments_buffer_bytes (ms_limits s) - ms_argument_bytes s" for part
    using put_block_ok [OF assms, of "(ms_blocks s ! k)\<lparr>bk_arguments := bk_arguments (ms_blocks s ! k) @ part\<rparr>" 0 "length part"] that
    by (auto simp: block_bytes_def messages_ok_def put_block_def)
  then show ?thesis using assms(1) by (auto simp: argument_part_def not_less split: option.splits)
qed

lemma block_delta_ok:
  assumes "messages_ok s" "\<not> ms_delta_seen s" "k < length (ms_blocks s)"
  shows "messages_ok (fst (block_delta k (ms_blocks s ! k) body s))"
  using assms by (simp add: block_delta_def text_part_ok thinking_part_ok argument_part_ok split: option.splits)

lemma block_stop_ok:
  assumes "messages_ok s" "\<not> ms_delta_seen s" "k < length (ms_blocks s)"
  shows "messages_ok (block_stop k (ms_blocks s ! k) s)"
proof -
  have "messages_ok (put_block k b s)" if "block_bytes b = block_bytes (ms_blocks s ! k)" for b
    using put_block_ok [OF assms, of b 0 0] that by (simp add: messages_ok_def put_block_def)
  moreover have "messages_ok (s'\<lparr>ms_truncated_tool_arguments := t\<rparr>) = messages_ok s'" for s' t by (simp add: messages_ok_def)
  ultimately show ?thesis by (simp add: block_stop_def Let_def block_bytes_def split: sum.splits JsonValue.splits)
qed

lemma stop_unstarted_ok: "messages_ok s \<Longrightarrow> \<not> ms_delta_seen s \<Longrightarrow> k < ss_max_open_output_items (ms_limits s) \<Longrightarrow> messages_ok (stop_unstarted k s)"
  by (auto simp: messages_ok_def stop_unstarted_def empty_block_def block_bytes_def map_replicate_const sum_list_replicate)

lemma block_event_ok:
  assumes "messages_ok s" "\<not> ms_delta_seen s"
  shows "messages_ok (fst (block_event type body s))"
  using assms
  by (simp add: block_event_def Let_def block_start_ok stop_unstarted_ok block_delta_ok block_stop_ok not_le split: option.splits)
    (auto intro!: block_start_ok stop_unstarted_ok)

lemma messages_reduce_ok: "messages_ok s \<Longrightarrow> messages_ok (fst (messages_reduce m s))"
proof -
  assume "messages_ok s"
  then have "messages_ok (s\<lparr>ms_stats := count_event (ms_stats s)\<rparr>)" by (simp add: messages_ok_def count_event_def)
  moreover have "messages_ok (fst (messages_typed type body s))" if "messages_ok s" for type body s
  proof -
    have "messages_ok (s\<lparr>ms_stats := (ms_stats s)\<lparr>st_terminal_seen := True\<rparr>\<rparr>)" if "ms_delta_seen s" using \<open>messages_ok s\<close> that by (simp add: messages_ok_def)
    then show ?thesis using that by (simp add: messages_typed_def message_start_ok message_delta_ok block_event_ok)
  qed
  ultimately show ?thesis by (simp add: messages_reduce_def Let_def split: sum.splits JsonValue.splits option.splits)
qed

section \<open>Framing\<close>

text \<open>What the framing layer holds between two chunks: the bytes of an unfinished line, which are at most
  the bytes fed, and the fields of an unfinished event.\<close>

definition pending_ok :: "SseFramingLimits \<Rightarrow> SseFramingParser \<Rightarrow> bool" where
  "pending_ok l p \<longleftrightarrow> fp_limits p = l \<and> length (fp_pending_event p) \<le> fl_max_line_bytes l \<and> length (fp_pending_data p) \<le> fl_max_event_data_bytes l \<and>
     (case fp_pending_id p of None \<Rightarrow> True | Some i \<Rightarrow> length i \<le> fl_max_line_bytes l)"

definition framing_ok :: "SseFramingLimits \<Rightarrow> SseFramingParser \<Rightarrow> bool" where
  "framing_ok l p \<longleftrightarrow> pending_ok l p \<and> fp_bytes_fed p \<le> fl_max_total_bytes l \<and> length (fp_buffer p) \<le> fp_bytes_fed p \<and>
     line_length (fp_buffer p) = None \<and> fp_events_dispatched p \<le> fl_max_events l"

lemma framing_new: "framing_ok l (new_framing l)"
  by (simp add: framing_ok_def pending_ok_def new_framing_def)

lemma split_field_short: "split_field content = (field, v) \<Longrightarrow> length v \<le> length content"
  using length_dropWhile_le [of "\<lambda>c. c \<noteq> CHR '':''" content]
  by (auto simp: split_field_def Let_def split: list.splits if_splits)

lemma dispatch_pending: "pending_ok l p \<Longrightarrow> pending_ok l (fst (sse_dispatch p))"
  by (auto simp: sse_dispatch_def pending_ok_def split: option.splits)

lemma process_line_pending:
  assumes "pending_ok l p" "process_line line p = (q, Inr ms)"
  shows "pending_ok l q"
proof -
  have "pending_ok l q" if "process_field field v p = (q, Inr ms)" "length v \<le> fl_max_line_bytes l" for field v
    using that assms(1) by (auto simp: process_field_def pending_ok_def Let_def split: if_splits option.splits)
  moreover have "fp_limits p = l" using assms(1) by (simp add: pending_ok_def)
  ultimately show ?thesis using assms dispatch_pending [OF assms(1)]
    by (cases "sse_dispatch p") (fastforce simp: process_line_def Let_def not_less split: if_splits prod.splits dest: split_field_short)
qed

lemma read_lines_pending:
  "read_lines ls p = (q, Inr ms) \<Longrightarrow> pending_ok l p \<Longrightarrow> fp_events_dispatched p \<le> fl_max_events l \<Longrightarrow>
     pending_ok l q \<and> fp_events_dispatched q \<le> fl_max_events l"
proof (induction ls arbitrary: p ms)
  case (Cons line ls)
  obtain q0 produced ms' where q0: "process_line line p = (q0, Inr produced)" "read_lines ls q0 = (q, Inr ms')"
    "\<not> fl_max_events (fp_limits q0) < fp_events_dispatched q0"
    using Cons.prems(1) by (auto split: prod.splits sum.splits if_splits)
  have "pending_ok l q0" using process_line_pending [OF Cons.prems(2) q0(1)] .
  then show ?case using Cons.IH [OF q0(2)] q0(3) by (simp add: pending_ok_def)
qed simp

lemma chop_lines_short: "chop_lines b = (ls, rest) \<Longrightarrow> length rest \<le> length b"
proof (induction b arbitrary: ls rule: chop_lines.induct)
  case (1 b)
  then show ?case by (cases "line_length b") (fastforce simp: chop_lines.simps [of b] split: prod.splits)+
qed

lemma sse_feed_framing:
  assumes "framing_ok l p" "sse_feed chunk p = (q, Inr ms)"
  shows "framing_ok l q"
proof -
  obtain ls rest where fed: "fp_bytes_fed p + length chunk \<le> fl_max_total_bytes (fp_limits p)" "chop_lines (fp_buffer p @ chunk) = (ls, rest)"
    "read_lines ls (with_input (fp_bytes_fed p + length chunk) rest p) = (q, Inr ms)"
    using assms(2) by (auto simp: sse_feed_reads)
  have "pending_ok l (with_input (fp_bytes_fed p + length chunk) rest p)" using assms(1) by (simp add: framing_ok_def pending_ok_def)
  then show ?thesis using read_lines_pending [OF fed(3)] read_lines_frame [OF fed(3)] chop_lines_short [OF fed(2)] chop_lines_rest [OF fed(2)] fed(1) assms(1)
    by (simp add: framing_ok_def pending_ok_def)
qed

section \<open>The limits of a parser\<close>

lemma with_item_limits [simp]: "rr_limits (with_item k f s) = rr_limits s" "rr_limits (append_preview d s) = rr_limits s"
  by (simp_all add: with_item_def append_preview_def)

lemma item_events_limits:
  "rr_limits (fst (item_added data s)) = rr_limits s" "rr_limits (fst (item_done data s)) = rr_limits s"
  "rr_limits (fst (part_event b data s)) = rr_limits s"
  by (simp_all add: item_added_def item_done_def part_event_def Let_def split: option.splits JsonValue.splits sum.splits)

lemma delta_events_limits:
  "rr_limits (fst (text_delta data s)) = rr_limits s" "rr_limits (fst (text_done data s)) = rr_limits s"
  "rr_limits (fst (refusal_event b data s)) = rr_limits s" "rr_limits (fst (arguments_delta data s)) = rr_limits s"
  "rr_limits (fst (arguments_done data s)) = rr_limits s" "rr_limits (fst (reasoning_event name data s)) = rr_limits s"
  "rr_limits (fst (terminal_event decode name data s)) = rr_limits s"
  by (simp_all add: text_delta_def text_done_def refusal_event_def arguments_delta_def arguments_done_def reasoning_event_def terminal_event_def Let_def
      split: option.splits JsonValue.splits sum.splits prod.splits)

text \<open>A step that keeps a component of the state.\<close>

lemma fst_then: "g (fst x) = a \<Longrightarrow> (\<And>c. g c = a \<Longrightarrow> g (fst (f c)) = a) \<Longrightarrow> g (fst (case x of (c, Inl e) \<Rightarrow> (c, Inl e) | (c, Inr _) \<Rightarrow> f c)) = a"
  by (auto split: prod.splits sum.splits)

lemma responses_limits: "rr_limits (fst (responses_reduce decode m s)) = rr_limits s"
proof -
  have check: "rr_limits (fst (check_remote_sequence data s)) = rr_limits s" for data and s :: "'a ResponsesState"
    by (simp add: check_remote_sequence_def Let_def split: option.splits JsonValue.splits)
  have named: "rr_limits (fst (reduce_named decode name data s)) = rr_limits s" for name data and s :: "'a ResponsesState"
    by (simp add: reduce_named_def Let_def item_events_limits delta_events_limits)
  show ?thesis by (simp add: responses_reduce_def Let_def check named fst_then split: sum.splits JsonValue.splits)
qed

lemma chat_parts_limits:
  "cs_limits (fst (chat_identity body s)) = cs_limits s" "cs_limits (fst (chat_usage body s)) = cs_limits s"
  "cs_limits (fst (chat_texts delta s)) = cs_limits s" "cs_limits (chat_previews a b s) = cs_limits s"
  "cs_limits (fst (chat_finish_reason choice s)) = cs_limits s" "cs_limits (put_tool n t s) = cs_limits s"
  by (simp_all add: chat_identity_def chat_usage_def chat_texts_def chat_previews_def chat_finish_reason_def put_tool_def Let_def
      split: option.splits JsonValue.splits sum.splits prod.splits)

lemma tool_calls_limits: "cs_limits (fst (tool_calls calls s)) = cs_limits s"
proof -
  have "cs_limits (fst (tool_call call s)) = cs_limits s" for call s
    by (simp add: tool_call_def tool_function_def chat_parts_limits Let_def split: option.splits sum.splits)
  then show ?thesis by (induction calls arbitrary: s) (simp_all add: fst_then)
qed

lemma chat_choices_limits: "cs_limits (fst (chat_choices body s)) = cs_limits s"
proof -
  have "cs_limits (fst (chat_tools delta s)) = cs_limits s" for delta s
    by (simp add: chat_tools_def tool_calls_limits split: option.splits JsonValue.splits)
  then have "cs_limits (fst (chat_choice choice s)) = cs_limits s" for choice
    by (auto simp: chat_choice_def chat_parts_limits split: option.splits JsonValue.splits intro!: fst_then [where g = cs_limits])
  then show ?thesis by (simp add: chat_choices_def split: option.splits JsonValue.splits list.splits)
qed

lemma chat_limits: "cs_limits (fst (chat_reduce m s)) = cs_limits s"
  by (auto simp: chat_reduce_def chat_parts_limits chat_choices_limits Let_def split: sum.splits JsonValue.splits intro!: fst_then [where g = cs_limits])

lemma message_parts_limits:
  "ms_limits (put_block k b s) = ms_limits s" "ms_limits (fst (message_start body s)) = ms_limits s"
  "ms_limits (fst (message_delta body s)) = ms_limits s" "ms_limits (fst (block_start k body s)) = ms_limits s"
  "ms_limits (stop_unstarted k s) = ms_limits s" "ms_limits (fst (text_part k b delta s)) = ms_limits s"
  "ms_limits (fst (thinking_part k b t delta s)) = ms_limits s" "ms_limits (fst (argument_part k b delta s)) = ms_limits s"
  "ms_limits (block_stop k b s) = ms_limits s"
  by (simp_all add: put_block_def message_start_def message_delta_def block_start_def stop_unstarted_def text_part_def thinking_part_def
      argument_part_def block_stop_def Let_def split: option.splits JsonValue.splits sum.splits prod.splits)

lemma messages_limits: "ms_limits (fst (messages_reduce m s)) = ms_limits s"
proof -
  have "ms_limits (fst (block_event type body s)) = ms_limits s" for type body s
    by (simp add: block_event_def block_delta_def message_parts_limits Let_def split: option.splits)
  then have "ms_limits (fst (messages_typed type body s)) = ms_limits s" for type body s
    by (simp add: messages_typed_def message_parts_limits)
  then show ?thesis by (simp add: messages_reduce_def Let_def split: sum.splits JsonValue.splits option.splits)
qed

end
