(* ===== verification/Stream_Properties.thy ===== *)
theory Stream_Properties
  imports Stream_Bounds Json_Properties
begin

text \<open>
  What the event streams promise. The way the network cuts a stream does not matter; an encoded list
  of events is read back; a completion is the body of a terminal event over finished items; and the
  buffers stay within the limits of the stream.
\<close>

section \<open>Chunks\<close>

lemma sse_run_concat: "sse_run limits cs = Inr ms \<longleftrightarrow> sse_run limits [concat cs] = Inr ms"
proof -
  have "sse_run limits cs = Inr ms \<longleftrightarrow>
      (\<exists>q x y. feed_all cs (new_framing limits) = (q, Inr x) \<and> snd (sse_finish q) = Inr y \<and> ms = x @ y)" for cs
    by (auto simp: sse_run_def split: prod.splits sum.splits)
  then show ?thesis by (simp only: feed_all_concat [OF settled_new] concat.simps append_Nil2)
qed

context stream_reducer
begin

lemma consume_concat:
  assumes "sp_framer p = new_framing limits"
  shows "consume_stream feed finish tidy cs p = Inr r \<longleftrightarrow> consume_stream feed finish tidy [concat cs] p = Inr r"
  using sse_run_concat [of limits cs] by (simp only: consume_reference [OF assms])

lemma feed_chunks_keep:
  assumes "\<And>m c. P c \<Longrightarrow> leaves P (reduce m c)" "\<And>c. P c \<Longrightarrow> P (tidy c)"
  shows "P (sp_state p) \<Longrightarrow> feed_chunks feed tidy cs p = (p', Inr ()) \<Longrightarrow> P (sp_state p')"
proof (induction cs arbitrary: p)
  case (Cons k cs)
  obtain q where q: "feed k p = (q, Inr ())" "feed_chunks feed tidy cs (q\<lparr>sp_state := tidy (sp_state q)\<rparr>) = (p', Inr ())"
    using Cons.prems(2) by (auto split: prod.splits sum.splits)
  have "P (sp_state q)" using q(1) reduce_all_keeps [OF assms(1) Cons.prems(1)] by (auto simp: feed_Inr leaves_def)
  then show ?case using Cons.IH [OF _ q(2)] assms(2) by simp
qed simp

text \<open>What holds after one more chunk, before the previews are taken.\<close>

lemma feed_keep:
  assumes "\<And>m c. P c \<Longrightarrow> leaves P (reduce m c)" "P (sp_state p)" "framing_ok l (sp_framer p)" "feed k p = (p', Inr ())"
  shows "P (sp_state p') \<and> framing_ok l (sp_framer p') \<and> sp_bytes p' = fp_bytes_fed (sp_framer p')"
  using assms(4) reduce_all_keeps [OF assms(1,2)] sse_feed_framing [OF assms(3)] by (auto simp: feed_Inr leaves_def)

lemma feed_chunks_framing:
  "framing_ok l (sp_framer p) \<Longrightarrow> feed_chunks feed tidy cs p = (p', Inr ()) \<Longrightarrow> framing_ok l (sp_framer p')"
proof (induction cs arbitrary: p)
  case (Cons k cs)
  obtain q where q: "feed k p = (q, Inr ())" "feed_chunks feed tidy cs (q\<lparr>sp_state := tidy (sp_state q)\<rparr>) = (p', Inr ())"
    using Cons.prems(2) by (auto split: prod.splits sum.splits)
  have "framing_ok l (sp_framer q)" using feed_keep [of "\<lambda>_. True", OF _ _ Cons.prems(1) q(1)] by (simp add: leaves_def)
  then show ?case using Cons.IH [OF _ q(2)] by simp
qed simp

lemma loop_keeps:
  assumes "\<And>m c. P c \<Longrightarrow> leaves P (reduce m c)" "\<And>c. P c \<Longrightarrow> P (tidy c)" "P (sp_state p)" "sp_framer p = new_framing l"
    and "feed_chunks feed tidy cs p = (q, Inr ())" "feed k q = (p', Inr ())"
  shows "P (sp_state p') \<and> framing_ok l (sp_framer p') \<and> sp_bytes p' = fp_bytes_fed (sp_framer p')"
proof -
  have "framing_ok l (sp_framer p)" using assms(4) framing_new by simp
  from feed_keep [of P, OF assms(1) feed_chunks_keep [of P, OF assms(1,2,3,5)] feed_chunks_framing [OF this assms(5)] assms(6)] show ?thesis .
qed

lemma consume_keep:
  assumes "\<And>m c. P c \<Longrightarrow> leaves P (reduce m c)" "P (sp_state p)" "sp_framer p = new_framing limits"
    and "consume_stream feed finish tidy cs p = Inr r"
  shows "\<exists>ms c. sse_run limits cs = Inr ms \<and> reduce_all reduce ms (sp_state p) = (c, Inr ()) \<and> P c \<and> outcome c = Inr r"
  using assms(4) reduce_all_keeps [OF assms(1,2)] by (auto simp: consume_reference [OF assms(3)] leaves_def)

end

section \<open>Encoded events\<close>

text \<open>An event of a server: its name and the lines of its data.\<close>

type_synonym sent_event = "string \<times> string list"

definition one_line :: "string \<Rightarrow> bool" where
  "one_line t \<longleftrightarrow> CHR 0x0A \<notin> set t \<and> CHR 0x0D \<notin> set t"

definition joined :: "string list \<Rightarrow> string" where
  "joined ls = (case dropWhile (\<lambda>l. l = []) ls of [] \<Rightarrow> [] | l # ls \<Rightarrow> l @ concat (map ((#) (CHR 0x0A)) ls))"

definition event_lines :: "sent_event \<Rightarrow> string list" where
  "event_lines m = (''event: '' @ fst m) # map (\<lambda>l. ''data: '' @ l) (snd m) @ [[]]"

definition end_line :: "string \<Rightarrow> string" where
  "end_line l = l @ [CHR 0x0A]"

definition encode_event :: "sent_event \<Rightarrow> string" where
  "encode_event m = concat (map end_line (event_lines m))"

definition sendable :: "SseFramingLimits \<Rightarrow> sent_event \<Rightarrow> bool" where
  "sendable limits m \<longleftrightarrow> (fst m \<noteq> [] \<or> joined (snd m) \<noteq> []) \<and> list_all one_line (fst m # snd m) \<and> list_all (\<lambda>l. length l \<le> fl_max_line_bytes limits) (event_lines m) \<and>
     length (joined (snd m)) \<le> fl_max_event_data_bytes limits"

definition received :: "sent_event \<Rightarrow> SseMessage" where
  "received m = \<lparr>sm_event = fst m, sm_data = joined (snd m), sm_id = None, sm_retry_ms = None\<rparr>"

lemma sendable_lines: "sendable limits m \<Longrightarrow> list_all one_line (event_lines m)"
  by (auto simp: sendable_def event_lines_def one_line_def list_all_iff)

lemma line_length_one: "one_line l \<Longrightarrow> line_length (end_line l @ b) = Some (length (end_line l))"
  by (induction l) (auto simp: line_length_Cons one_line_def end_line_def)

lemma encode_events: "concat (map encode_event es) = concat (map end_line (concat (map event_lines es)))"
  by (induction es) (simp_all add: encode_event_def)

lemma chop_lines_end: "list_all one_line ls \<Longrightarrow> chop_lines (concat (map end_line ls)) = (map end_line ls, [])"
proof (induction ls)
  case (Cons l ls)
  then show ?case by (simp add: chop_lines.simps [of "end_line l @ concat (map end_line ls)"] line_length_one)
qed (simp add: chop_lines_done)

lemma strip_end_line: "one_line l \<Longrightarrow> strip_terminator (end_line l) = l"
  by (auto simp: strip_terminator_def end_line_def one_line_def Let_def dest: last_in_set)

text \<open>What the data of an event grows to.\<close>

fun grown :: "string \<Rightarrow> string list \<Rightarrow> string" where
  "grown d [] = d"
| "grown d (l # ls) = grown ((if d \<noteq> [] then d @ [CHR 0x0A] else d) @ l) ls"

lemma grown_nonempty: "d \<noteq> [] \<Longrightarrow> grown d ls = d @ concat (map ((#) (CHR 0x0A)) ls)"
  by (induction d ls rule: grown.induct) auto

lemma grown_joined: "grown [] ls = joined ls"
  by (induction ls) (auto simp: joined_def grown_nonempty)

lemma grown_longer: "length d \<le> length (grown d ls)"
  by (induction d ls rule: grown.induct) (auto split: if_splits)

lemma one_line_plain: "one_line (''event: '' @ t) = one_line t" "one_line (''data: '' @ t) = one_line t" "one_line []"
  by (auto simp: one_line_def)

lemma process_event_line:
  "one_line e \<Longrightarrow> length (''event: '' @ e) \<le> fl_max_line_bytes (fp_limits p) \<Longrightarrow>
     process_line (end_line (''event: '' @ e)) p = (p\<lparr>fp_pending_event := e\<rparr>, Inr [])"
  using one_line_plain(1) [of e] by (simp add: process_line_def strip_end_line split_field_def process_field_def Let_def)

lemma process_data_line:
  "one_line l \<Longrightarrow> length (''data: '' @ l) \<le> fl_max_line_bytes (fp_limits p) \<Longrightarrow> length (grown (fp_pending_data p) [l]) \<le> fl_max_event_data_bytes (fp_limits p) \<Longrightarrow>
     process_line (end_line (''data: '' @ l)) p = (p\<lparr>fp_pending_data := grown (fp_pending_data p) [l]\<rparr>, Inr [])"
  using one_line_plain(2) [of l] by (simp add: process_line_def strip_end_line split_field_def process_field_def Let_def)

lemma read_data_lines:
  "list_all one_line ls \<Longrightarrow> list_all (\<lambda>l. length (''data: '' @ l) \<le> fl_max_line_bytes (fp_limits p)) ls \<Longrightarrow>
   length (grown (fp_pending_data p) ls) \<le> fl_max_event_data_bytes (fp_limits p) \<Longrightarrow> fp_events_dispatched p \<le> fl_max_events (fp_limits p) \<Longrightarrow>
     read_lines (map (\<lambda>l. end_line (''data: '' @ l)) ls) p = (p\<lparr>fp_pending_data := grown (fp_pending_data p) ls\<rparr>, Inr [])"
proof (induction ls arbitrary: p)
  case (Cons l ls)
  have "length (grown (fp_pending_data p) [l]) \<le> fl_max_event_data_bytes (fp_limits p)"
    using Cons.prems(3) grown_longer [of "grown (fp_pending_data p) [l]" ls] by simp
  then have "process_line (end_line (''data: '' @ l)) p = (p\<lparr>fp_pending_data := grown (fp_pending_data p) [l]\<rparr>, Inr [])"
    using Cons.prems(1,2) by (intro process_data_line) auto
  then show ?case using Cons.prems Cons.IH [of "p\<lparr>fp_pending_data := grown (fp_pending_data p) [l]\<rparr>"] by simp
qed simp

text \<open>A parser between two events.\<close>

definition idle :: "SseFramingParser \<Rightarrow> bool" where
  "idle p \<longleftrightarrow> fp_pending_event p = [] \<and> fp_pending_data p = [] \<and> fp_pending_id p = None \<and> fp_pending_retry_ms p = None"

lemma read_event:
  assumes "sendable (fp_limits p) m" "idle p" "fp_events_dispatched p < fl_max_events (fp_limits p)"
  shows "read_lines (map end_line (event_lines m)) p = (p\<lparr>fp_events_dispatched := Suc (fp_events_dispatched p)\<rparr>, Inr [received m])"
proof -
  let ?p = "p\<lparr>fp_pending_event := fst m\<rparr>" and ?d = "joined (snd m)"
  have "read_lines (map (\<lambda>l. end_line (''data: '' @ l)) (snd m)) ?p = (?p\<lparr>fp_pending_data := ?d\<rparr>, Inr [])"
    using read_data_lines [of "snd m" ?p] assms by (simp add: sendable_def event_lines_def idle_def grown_joined list_all_iff)
  moreover have "process_line (end_line []) (?p\<lparr>fp_pending_data := ?d\<rparr>) =
      (p\<lparr>fp_events_dispatched := Suc (fp_events_dispatched p)\<rparr>, Inr [received m])"
    using assms(1,2) by (simp add: process_line_def strip_end_line one_line_plain Let_def sse_dispatch_def sendable_def idle_def received_def)
  moreover have "process_line (end_line (''event: '' @ fst m)) p = (?p, Inr [])"
    using assms(1) by (intro process_event_line) (auto simp: sendable_def event_lines_def)
  ultimately have "read_lines (map (\<lambda>l. end_line (''data: '' @ l)) (snd m) @ [end_line []]) ?p =
      (p\<lparr>fp_events_dispatched := Suc (fp_events_dispatched p)\<rparr>, Inr [received m])"
    using assms(3) by (auto simp: read_lines_append)
  then show ?thesis using \<open>process_line (end_line (''event: '' @ fst m)) p = (?p, Inr [])\<close> assms(3)
    by (simp add: event_lines_def comp_def)
qed

lemma read_events:
  "list_all (sendable (fp_limits p)) es \<Longrightarrow> idle p \<Longrightarrow> fp_events_dispatched p + length es \<le> fl_max_events (fp_limits p) \<Longrightarrow>
     read_lines (map end_line (concat (map event_lines es))) p =
       (p\<lparr>fp_events_dispatched := fp_events_dispatched p + length es\<rparr>, Inr (map received es))"
proof (induction es arbitrary: p)
  case (Cons m es)
  let ?q = "p\<lparr>fp_events_dispatched := Suc (fp_events_dispatched p)\<rparr>"
  have "read_lines (map end_line (concat (map event_lines es))) ?q =
      (?q\<lparr>fp_events_dispatched := fp_events_dispatched ?q + length es\<rparr>, Inr (map received es))"
    by (rule Cons.IH) (use Cons.prems in \<open>auto simp: idle_def\<close>)
  then show ?case using read_event [of p m] Cons.prems by (auto simp: read_lines_append)
qed simp


lemma encoded_reading:
  assumes "list_all (sendable limits) es" "length es \<le> fl_max_events limits"
    and "concat cs = concat (map encode_event es)" "length (concat cs) \<le> fl_max_total_bytes limits"
  shows "sse_run limits cs = Inr (map received es)"
proof -
  let ?ls = "concat (map event_lines es)" and ?p = "new_framing limits"
  have text_of: "concat cs = concat (map end_line ?ls)" using assms(3) by (simp add: encode_events)
  have "list_all one_line ?ls" using assms(1) sendable_lines by (fastforce simp: list_all_iff)
  then have chop: "chop_lines (concat cs) = (map end_line ?ls, [])" using chop_lines_end text_of by simp
  have "read_lines (map end_line ?ls) (with_input (length (concat cs)) [] ?p) =
      ((with_input (length (concat cs)) [] ?p)\<lparr>fp_events_dispatched := length es\<rparr>, Inr (map received es))"
    using read_events [of "with_input (length (concat cs)) [] ?p" es] assms(1,2) by (simp add: new_framing_def idle_def)
  then have "sse_feed (concat cs) ?p = ((with_input (length (concat cs)) [] ?p)\<lparr>fp_events_dispatched := length es\<rparr>, Inr (map received es))"
    using chop assms(4) by (simp add: sse_feed_reads) (simp add: new_framing_def)
  then have "feed_all cs ?p = ((with_input (length (concat cs)) [] ?p)\<lparr>fp_events_dispatched := length es\<rparr>, Inr (map received es))"
    by (simp add: feed_all_concat)
  then show ?thesis by (simp add: sse_run_def sse_finish_def sse_dispatch_def) (simp add: new_framing_def)
qed

text \<open>A server has a name and a text to send; every line of the text becomes a data line.\<close>

fun text_lines :: "string \<Rightarrow> string list" where
  "text_lines [] = [[]]"
| "text_lines (c # d) = (if c = CHR 0x0A then [] # text_lines d else (c # hd (text_lines d)) # tl (text_lines d))"

lemma text_lines_nonempty [simp]: "text_lines d \<noteq> []"
  by (cases d) auto

lemma text_lines_whole: "hd (text_lines d) @ concat (map ((#) (CHR 0x0A)) (tl (text_lines d))) = d"
proof (induction d)
  case (Cons c d)
  then show ?case by (cases "text_lines d") auto
qed simp

lemma joined_text_lines:
  assumes "take 1 d \<noteq> [CHR 0x0A]"
  shows "joined (text_lines d) = d"
proof (cases d)
  case (Cons c d')
  then have "hd (text_lines d) \<noteq> []" using assms by simp
  then show ?thesis using text_lines_whole [of d] by (cases "text_lines d") (auto simp: joined_def)
qed (simp add: joined_def)

lemma text_lines_plain: "CHR 0x0D \<notin> set d \<Longrightarrow> list_all one_line (text_lines d)"
proof (induction d)
  case (Cons c d)
  then show ?case by (cases "text_lines d") (auto simp: one_line_def)
qed (simp add: one_line_def)

definition server_event :: "string \<times> string \<Rightarrow> sent_event" where
  "server_event m = (fst m, text_lines (snd m))"

definition plain_event :: "SseFramingLimits \<Rightarrow> string \<times> string \<Rightarrow> bool" where
  "plain_event limits m \<longleftrightarrow> (fst m \<noteq> [] \<or> snd m \<noteq> []) \<and> one_line (fst m) \<and> CHR 0x0D \<notin> set (snd m) \<and> take 1 (snd m) \<noteq> [CHR 0x0A] \<and>
     list_all (\<lambda>l. length l \<le> fl_max_line_bytes limits) (event_lines (server_event m)) \<and> length (snd m) \<le> fl_max_event_data_bytes limits"

lemma plain_sendable: "plain_event limits m \<Longrightarrow> sendable limits (server_event m)"
  by (simp add: plain_event_def sendable_def server_event_def joined_text_lines text_lines_plain)

lemma plain_received: "plain_event limits m \<Longrightarrow>
    received (server_event m) = \<lparr>sm_event = fst m, sm_data = snd m, sm_id = None, sm_retry_ms = None\<rparr>"
  by (simp add: plain_event_def received_def server_event_def joined_text_lines)

context stream_reducer
begin

lemma consume_encoded:
  assumes "sp_framer p = new_framing limits" "list_all (sendable limits) es" "length es \<le> fl_max_events limits"
    and "concat cs = concat (map encode_event es)" "length (concat cs) \<le> fl_max_total_bytes limits"
    and "reduce_all reduce (map received es) (sp_state p) = (c, Inr ())" "outcome c = Inr r"
  shows "consume_stream feed finish tidy cs p = Inr r"
  unfolding consume_reference [OF assms(1)] using encoded_reading [OF assms(2-5)] assms(6,7) by blast

end

section \<open>Terminal events\<close>

lemma reduce_one: "reduce_all reduce [m] c = (c', Inr ()) \<longleftrightarrow> reduce m c = (c', Inr ())"
  by (auto split: prod.splits sum.splits)

lemma with_item_terminal [simp]: "rr_terminal_seen (with_item k f s) = rr_terminal_seen s" "rr_terminal_seen (append_preview d s) = rr_terminal_seen s"
  by (simp_all add: with_item_def append_preview_def)

lemma item_events_terminal:
  "rr_terminal_seen (fst (item_added data s)) = rr_terminal_seen s" "rr_terminal_seen (fst (item_done data s)) = rr_terminal_seen s"
  "rr_terminal_seen (fst (part_event b data s)) = rr_terminal_seen s"
  by (simp_all add: item_added_def item_done_def part_event_def Let_def split: option.splits JsonValue.splits sum.splits)

lemma delta_events_terminal:
  "rr_terminal_seen (fst (text_delta data s)) = rr_terminal_seen s" "rr_terminal_seen (fst (text_done data s)) = rr_terminal_seen s"
  "rr_terminal_seen (fst (refusal_event b data s)) = rr_terminal_seen s" "rr_terminal_seen (fst (arguments_delta data s)) = rr_terminal_seen s"
  "rr_terminal_seen (fst (arguments_done data s)) = rr_terminal_seen s" "rr_terminal_seen (fst (reasoning_event name data s)) = rr_terminal_seen s"
  by (simp_all add: text_delta_def text_done_def refusal_event_def arguments_delta_def arguments_done_def reasoning_event_def Let_def
      split: option.splits sum.splits prod.splits)

definition terminal_events :: "string list" where
  "terminal_events = [''response.completed'', ''response.failed'', ''response.incomplete'']"

lemma reduce_named_terminal:
  assumes "reduce_named decode name data s = (s', Inr ())" "\<not> rr_terminal_seen s" "rr_terminal_seen s'"
  shows "List.member terminal_events (event_name name) \<and> terminal_event decode name data s = (s', Inr ())"
proof (cases "List.member terminal_events (event_name name)")
  case True
  then have "reduce_named decode name data s = terminal_event decode name data s"
    by (auto simp: reduce_named_def terminal_events_def reasoning_events_def Let_def)
  then show ?thesis using True assms(1) by simp
next
  case False
  then have "rr_terminal_seen (fst (reduce_named decode name data s)) = rr_terminal_seen s"
    by (simp add: reduce_named_def terminal_events_def Let_def item_events_terminal delta_events_terminal)
  then show ?thesis using assms by simp
qed

lemma terminal_event_Inr:
  assumes "terminal_event decode name data s = (s', Inr ())"
  shows "\<exists>ms r. json_find data ''response'' = Some (JObject ms) \<and> decode (JObject ms) = Inr r \<and> rr_terminal_response s' = Some r \<and>
    list_all oi_closed (rr_items s)"
  using assms by (auto simp: terminal_event_def Let_def list_ex_iff list_all_iff split: if_splits option.splits JsonValue.splits sum.splits)

lemma check_sequence_frame: "check_remote_sequence data s = (s', x) \<Longrightarrow> rr_terminal_seen s' = rr_terminal_seen s \<and> rr_items s' = rr_items s"
  by (auto simp: check_remote_sequence_def Let_def split: option.splits JsonValue.splits if_splits)

lemma responses_reduce_terminal:
  assumes "responses_reduce decode m s = (s', Inr ())" "rr_terminal_seen s'"
  shows "\<not> rr_terminal_seen s \<and> List.member terminal_events (event_name (sm_event m)) \<and>
    (\<exists>data ms r. parse_json json_limits_default (sm_data m) = Inr data \<and> json_find data ''response'' = Some (JObject ms) \<and>
      decode (JObject ms) = Inr r \<and> rr_terminal_response s' = Some r \<and> list_all oi_closed (rr_items s))"
proof -
  let ?s = "s\<lparr>rr_stats := count_event (rr_stats s)\<rparr>"
  obtain data t where t: "parse_json json_limits_default (sm_data m) = Inr data" "check_remote_sequence data ?s = (t, Inr ())"
    "reduce_named decode (sm_event m) data t = (s', Inr ())" "\<not> rr_terminal_seen s"
    using assms(1) by (auto simp: responses_reduce_def Let_def split: if_splits sum.splits JsonValue.splits prod.splits)
  have frame: "\<not> rr_terminal_seen t" "rr_items t = rr_items s" using check_sequence_frame [OF t(2)] t(4) by simp_all
  from reduce_named_terminal [OF t(3) frame(1) assms(2)] terminal_event_Inr [of decode "sm_event m" data t s'] show ?thesis
    using t(1,4) frame(2) by auto
qed


lemma tidy_ok: "responses_ok c \<Longrightarrow> responses_ok (responses_tidy c)" "chat_ok s \<Longrightarrow> chat_ok (chat_tidy s)" "messages_ok t \<Longrightarrow> messages_ok (messages_tidy t)"
  by (simp_all add: responses_tidy_def responses_take_preview_def responses_take_thinking_def responses_ok_def
      chat_tidy_def chat_take_preview_def chat_take_thinking_def chat_ok_def
      messages_tidy_def messages_take_preview_def messages_take_thinking_def messages_ok_def)

lemma new_ok: "responses_ok (sp_state (new_responses limits))" "chat_ok (sp_state (new_chat limits))" "messages_ok (sp_state (new_messages limits))"
  by (simp_all add: new_responses_def new_chat_def new_messages_def responses_ok_def chat_ok_def messages_ok_def omap_ok_def stats_default_def)

lemma new_framer [simp]: "sp_framer (new_responses limits) = new_framing (ss_framing limits)"
  "sp_framer (new_chat limits) = new_framing (ss_framing limits)" "sp_framer (new_messages limits) = new_framing (ss_framing limits)"
  by (simp_all add: new_responses_def new_chat_def new_messages_def)

lemmas messages_leaves = leaves_fst [where P = messages_ok, OF messages_reduce_ok]

lemma responses_leaves: "responses_ok s \<Longrightarrow> leaves responses_ok (responses_reduce decode m s)"
  using responses_reduce_ok by (fastforce simp: leaves_def)

text \<open>The invariant of each reducer with its limits fixed.\<close>

lemma leaves_both: "leaves P x \<Longrightarrow> g (fst x) = a \<Longrightarrow> leaves (\<lambda>c. P c \<and> g c = a) x"
  by (auto simp: leaves_def)

lemma responses_keeps: "responses_ok c \<and> rr_limits c = l \<Longrightarrow> leaves (\<lambda>c. responses_ok c \<and> rr_limits c = l) (responses_reduce decode m c)"
  by (rule leaves_both) (simp_all add: responses_leaves responses_limits)

lemma chat_keeps: "chat_ok c \<and> cs_limits c = l \<Longrightarrow> leaves (\<lambda>c. chat_ok c \<and> cs_limits c = l) (chat_reduce m c)"
  by (rule leaves_both) (simp_all add: chat_reduce_ok chat_limits)

lemma messages_keeps: "messages_ok c \<and> ms_limits c = l \<Longrightarrow> leaves (\<lambda>c. messages_ok c \<and> ms_limits c = l) (messages_reduce m c)"
  by (rule leaves_both) (simp_all add: messages_leaves messages_limits)

lemma tidy_keeps:
  "responses_ok c \<and> rr_limits c = l \<Longrightarrow> responses_ok (responses_tidy c) \<and> rr_limits (responses_tidy c) = l"
  "chat_ok s \<and> cs_limits s = l \<Longrightarrow> chat_ok (chat_tidy s) \<and> cs_limits (chat_tidy s) = l"
  "messages_ok t \<and> ms_limits t = l \<Longrightarrow> messages_ok (messages_tidy t) \<and> ms_limits (messages_tidy t) = l"
  by (simp_all add: tidy_ok)
    (simp_all add: responses_tidy_def responses_take_preview_def responses_take_thinking_def chat_tidy_def chat_take_preview_def chat_take_thinking_def
      messages_tidy_def messages_take_preview_def messages_take_thinking_def)

lemma new_keeps:
  "responses_ok (sp_state (new_responses l)) \<and> rr_limits (sp_state (new_responses l)) = l"
  "chat_ok (sp_state (new_chat l)) \<and> cs_limits (sp_state (new_chat l)) = l"
  "messages_ok (sp_state (new_messages l)) \<and> ms_limits (sp_state (new_messages l)) = l"
  by (simp_all add: new_ok) (simp_all add: new_responses_def new_chat_def new_messages_def)

section \<open>Witness streams\<close>

definition demo_limits :: SseStreamLimits where
  "demo_limits = \<lparr>ss_framing = \<lparr>fl_max_line_bytes = 200, fl_max_event_data_bytes = 200, fl_max_events = 4, fl_max_total_bytes = 800\<rparr>,
     ss_max_open_output_items = 2, ss_max_accumulated_text_bytes = 20, ss_max_arguments_buffer_bytes = 20, ss_max_preview_bytes = 20\<rparr>"

definition demo_response :: JsonValue where
  "demo_response = JObject [(''response'', JObject [])]"

definition demo_responses :: "sent_event list" where
  "demo_responses = [(''response.completed'', [to_json_string demo_response])]"

definition demo_choice :: JsonValue where
  "demo_choice = JObject [(''id'', JString ''c''), (''model'', JString ''m''),
     (''choices'', JArray [JObject [(''index'', JInteger 0), (''delta'', JObject [(''content'', JString ''hi'')]), (''finish_reason'', JString ''stop'')]])]"

definition demo_chat :: "sent_event list" where
  "demo_chat = [(''message'', [to_json_string demo_choice]), (''message'', [''[DONE]''])]"

definition demo_start :: JsonValue where
  "demo_start = JObject [(''type'', JString ''message_start''), (''message'', JObject [(''content'', JArray [])])]"

definition demo_delta :: JsonValue where
  "demo_delta = JObject [(''type'', JString ''message_delta''), (''delta'', JObject [(''stop_reason'', JString ''end_turn'')]), (''usage'', JObject [])]"

definition demo_stop :: JsonValue where
  "demo_stop = JObject [(''type'', JString ''message_stop'')]"

definition demo_messages :: "sent_event list" where
  "demo_messages = [(''message_start'', [to_json_string demo_start]), (''message_delta'', [to_json_string demo_delta]),
     (''message_stop'', [to_json_string demo_stop])]"

definition cut :: "sent_event list \<Rightarrow> string list" where
  "cut es = [take 30 (concat (map encode_event es)), drop 30 (concat (map encode_event es))]"

lemma concat_cut: "concat (cut es) = concat (map encode_event es)"
  by (simp add: cut_def)

lemmas demo_values = demo_response_def demo_choice_def demo_start_def demo_delta_def demo_stop_def

lemma demo_sendable: "list_all (sendable (ss_framing demo_limits)) demo_responses" "list_all (sendable (ss_framing demo_limits)) demo_chat"
  "list_all (sendable (ss_framing demo_limits)) demo_messages"
  by code_simp+

lemma demo_sizes: "length (concat (map encode_event demo_responses)) \<le> 800" "length (concat (map encode_event demo_chat)) \<le> 800"
  "length (concat (map encode_event demo_messages)) \<le> 800"
  by code_simp+

lemma demo_lengths: "list_all (\<lambda>v. length (to_json_string v) \<le> 200) [demo_response, demo_choice, demo_start, demo_delta, demo_stop]"
  by code_simp

lemma demo_valid: "list_all (json_valid json_limits_default 0) [demo_response, demo_choice, demo_start, demo_delta, demo_stop]"
  by (simp add: demo_values json_limits_default_def string_ok_def int64_max_def)

lemma demo_parse: "list_all (\<lambda>v. parse_json json_limits_default (to_json_string v) = Inr v) [demo_response, demo_choice, demo_start, demo_delta, demo_stop]"
  using demo_lengths demo_valid
  by (auto simp: list_all_iff json_encodable_def intro!: parse_to_json_string) (simp_all add: demo_values json_limits_default_def)

lemma demo_read:
  "parse_json json_limits_default (to_json_string demo_response) = Inr (JObject [(''response'', JObject [])])"
  "parse_json json_limits_default (to_json_string demo_choice) = Inr (JObject [(''id'', JString ''c''), (''model'', JString ''m''),
     (''choices'', JArray [JObject [(''index'', JInteger 0), (''delta'', JObject [(''content'', JString ''hi'')]), (''finish_reason'', JString ''stop'')]])])"
  "parse_json json_limits_default (to_json_string demo_start) = Inr (JObject [(''type'', JString ''message_start''), (''message'', JObject [(''content'', JArray [])])])"
  "parse_json json_limits_default (to_json_string demo_delta) =
     Inr (JObject [(''type'', JString ''message_delta''), (''delta'', JObject [(''stop_reason'', JString ''end_turn'')]), (''usage'', JObject [])])"
  "parse_json json_limits_default (to_json_string demo_stop) = Inr (JObject [(''type'', JString ''message_stop'')])"
  using demo_parse unfolding demo_values by simp_all

lemma received_one: "sm_event (received (e, [l])) = e" "sm_data (received (e, [l])) = l"
  by (simp_all add: received_def joined_def)

lemma demo_responses_run:
  "consume_stream (responses_feed Inr) (responses_finish Inr JNull) responses_tidy (cut demo_responses) (new_responses demo_limits) = Inr (JObject [])"
proof (rule responses.consume_encoded [OF new_framer(1) demo_sendable(1) _ concat_cut])
  show "reduce_all (responses_reduce Inr) (map received demo_responses) (sp_state (new_responses demo_limits)) =
      ((sp_state (new_responses demo_limits))\<lparr>rr_terminal_seen := True, rr_terminal_response := Some (JObject []),
        rr_stats := (count_event stats_default)\<lparr>st_terminal_seen := True\<rparr>\<rparr>, Inr ())"
    by (simp add: demo_responses_def received_one demo_read responses_reduce_def new_responses_def json_find_def check_remote_sequence_def
        reduce_named_def event_name_def starts_with_def reasoning_events_def terminal_event_def count_event_def)
qed (use demo_sizes in \<open>simp_all add: demo_limits_def demo_responses_def concat_cut responses_outcome_def\<close>)

lemma demo_chat_run:
  "\<exists>r. consume_stream chat_feed (chat_finish Inr) chat_tidy (cut demo_chat) (new_chat demo_limits) = Inr r"
proof -
  have open_choice: "to_json_string demo_choice \<noteq> ''[DONE]''" by code_simp
  obtain s where s: "reduce_all chat_reduce (map received demo_chat) (sp_state (new_chat demo_limits)) = (s, Inr ())"
      "st_terminal_seen (cs_stats s) \<and> cs_tools s = []"
    using open_choice by (simp add: demo_chat_def received_one demo_read chat_reduce_def new_chat_def json_find_def chat_identity_def check_identity_def chat_usage_def
        chat_choices_def chat_choice_def chat_texts_def append_part_def chat_tools_def chat_finish_reason_def finish_reasons_def chat_previews_def
        count_event_def stats_default_def demo_limits_def append_thinking_preview_def as_integer_def as_string_def Let_def)
  have "chat_outcome Inr s = Inr (to_json_string (chat_body s))" using s(2) by (simp add: chat_outcome_def)
  from chat.consume_encoded [OF new_framer(2) demo_sendable(2) _ concat_cut _ s(1) this] show ?thesis
    using demo_sizes(2) by (auto simp: demo_limits_def demo_chat_def concat_cut)
qed

lemma demo_messages_run:
  "\<exists>r. consume_stream messages_feed (messages_finish Inr) messages_tidy (cut demo_messages) (new_messages demo_limits) = Inr r"
proof -
  obtain s where s: "reduce_all messages_reduce (map received demo_messages) (sp_state (new_messages demo_limits)) = (s, Inr ())"
      "st_terminal_seen (ms_stats s) \<and> \<not> ms_truncated_tool_arguments s"
    by (simp add: demo_messages_def received_one demo_read messages_reduce_def new_messages_def json_find_def member_string_def messages_typed_def
        message_start_def message_delta_def count_event_def stats_default_def demo_limits_def json_set_def as_string_def as_object_def Let_def)
  have "\<exists>r. messages_outcome Inr s = Inr r" using s(2) by (simp add: messages_outcome_def)
  then obtain r where "messages_outcome Inr s = Inr r" ..
  from messages.consume_encoded [OF new_framer(3) demo_sendable(3) _ concat_cut _ s(1) this] show ?thesis
    using demo_sizes(3) by (auto simp: demo_limits_def demo_messages_def concat_cut)
qed

lemma consume_last: "consume_stream feed finish tidy (cut es) p = Inr r \<Longrightarrow>
    \<exists>p0 p'. feed_chunks feed tidy (butlast (cut es)) p = (p0, Inr ()) \<and> feed (last (cut es)) p0 = (p', Inr ())"
  by (auto simp: consume_stream_def cut_def split: prod.splits sum.splits)

section \<open>Properties\<close>

text \<open>C10: The way the network cuts a stream into chunks does not matter. For each of the three dialects the
  loop that feeds the chunks, takes the previews in between and finishes gives a response exactly
  when feeding the whole stream at once gives that response.\<close>

theorem stream_chunking_irrelevant:
  "(consume_stream (responses_feed decode) (responses_finish decode no_response) responses_tidy cs (new_responses limits) = Inr r \<longleftrightarrow>
      consume_stream (responses_feed decode) (responses_finish decode no_response) responses_tidy [concat cs] (new_responses limits) = Inr r) \<and>
   (consume_stream chat_feed (chat_finish decode_text) chat_tidy cs (new_chat limits) = Inr r \<longleftrightarrow>
      consume_stream chat_feed (chat_finish decode_text) chat_tidy [concat cs] (new_chat limits) = Inr r) \<and>
   (consume_stream messages_feed (messages_finish decode_text) messages_tidy cs (new_messages limits) = Inr r \<longleftrightarrow>
      consume_stream messages_feed (messages_finish decode_text) messages_tidy [concat cs] (new_messages limits) = Inr r)"
  by (intro conjI responses.consume_concat [OF new_framer(1)] chat.consume_concat [OF new_framer(2)] messages.consume_concat [OF new_framer(3)])

text \<open>C11: An event stream is read back. A server writes each event as a line with its name, one data
  line for each line of its text and an empty line. However the network cuts this stream into chunks,
  the parser gives exactly the names and the texts in order, under these conditions: an event has a
  name or a text, the name has no line end, the text has no carriage return and does not begin with a
  line feed (the parser drops leading empty data lines), and the lines, the texts, the number of
  events and the whole stream are within the limits of the parser.\<close>

theorem sse_round_trip:
  assumes "list_all (plain_event limits) es" "length es \<le> fl_max_events limits"
    and "concat cs = concat (map (encode_event \<circ> server_event) es)" "length (concat cs) \<le> fl_max_total_bytes limits"
  shows "sse_run limits cs = Inr (map (\<lambda>(name, data). \<lparr>sm_event = name, sm_data = data, sm_id = None, sm_retry_ms = None\<rparr>) es)"
proof -
  have "sse_run limits cs = Inr (map received (map server_event es))"
    using assms plain_sendable by (intro encoded_reading) (auto simp: list_all_iff)
  moreover have "received (server_event m) = (\<lambda>(name, data). \<lparr>sm_event = name, sm_data = data, sm_id = None, sm_retry_ms = None\<rparr>) m" if "m \<in> set es" for m
    using plain_received [of limits m] assms(1) that by (cases m) (auto simp: list_all_iff)
  ultimately show ?thesis by simp
qed

text \<open>Two events, one with a text of three lines of which the last is empty and one without a name, cut inside a line.\<close>

definition demo_texts :: "(string \<times> string) list" where
  "demo_texts = [(''note'', ''ab'' @ [CHR 0x0A] @ ''c'' @ [CHR 0x0A]), ([], ''x: y'')]"

theorem sse_round_trip_witness:
  "sse_run (ss_framing demo_limits) (cut (map server_event demo_texts)) =
     Inr [\<lparr>sm_event = ''note'', sm_data = ''ab'' @ [CHR 0x0A] @ ''c'' @ [CHR 0x0A], sm_id = None, sm_retry_ms = None\<rparr>,
       \<lparr>sm_event = [], sm_data = ''x: y'', sm_id = None, sm_retry_ms = None\<rparr>]"
proof -
  have "list_all (plain_event (ss_framing demo_limits)) demo_texts" "length (concat (map (encode_event \<circ> server_event) demo_texts)) \<le> 800"
    by code_simp+
  then have "sse_run (ss_framing demo_limits) (cut (map server_event demo_texts)) =
      Inr (map (\<lambda>(name, data). \<lparr>sm_event = name, sm_data = data, sm_id = None, sm_retry_ms = None\<rparr>) demo_texts)"
    by (intro sse_round_trip) (simp_all add: concat_cut comp_def demo_limits_def demo_texts_def)
  then show ?thesis by (simp add: demo_texts_def)
qed

text \<open>C12: A completed response is the body of a terminal event. When the responses loop returns a
  response, the last event of the stream is \<open>response.completed\<close>, \<open>response.failed\<close> or
  \<open>response.incomplete\<close>, the response is what its member \<open>response\<close> decodes to, no event before it was
  terminal, and every output item was closed with no open part and, for a function call, with its
  arguments done.\<close>

theorem responses_completion_is_terminal:
  assumes "consume_stream (responses_feed decode) (responses_finish decode no_response) responses_tidy cs (new_responses limits) = Inr r"
  shows "\<exists>ms m s data body. sse_run (ss_framing limits) cs = Inr (ms @ [m]) \<and>
    reduce_all (responses_reduce decode) ms (sp_state (new_responses limits)) = (s, Inr ()) \<and> \<not> rr_terminal_seen s \<and>
    list_all item_complete (rr_items s) \<and> List.member terminal_events (event_name (sm_event m)) \<and>
    parse_json json_limits_default (sm_data m) = Inr data \<and> json_find data ''response'' = Some body \<and> decode body = Inr r"
proof -
  obtain ms c where c: "sse_run (ss_framing limits) cs = Inr ms" "reduce_all (responses_reduce decode) ms (sp_state (new_responses limits)) = (c, Inr ())"
    "rr_terminal_seen c" "rr_terminal_response c = Some r \<or> rr_terminal_response c = None \<and> r = no_response"
    using assms unfolding responses.consume_reference [OF new_framer(1)] by (auto simp: responses_outcome_def split: if_splits option.splits)
  have "ms \<noteq> []" using c(2,3) by (auto simp: new_responses_def)
  then obtain ms' m where ms: "ms = ms' @ [m]" by (metis append_butlast_last_id)
  obtain s where s: "reduce_all (responses_reduce decode) ms' (sp_state (new_responses limits)) = (s, Inr ())" "responses_reduce decode m s = (c, Inr ())"
    using c(2) unfolding ms responses.reduce_all_append reduce_one by blast
  have "responses_ok s" using reduce_all_keeps [of responses_ok "responses_reduce decode", OF responses_leaves new_ok(1)] s(1) by (auto simp: leaves_def)
  moreover note responses_reduce_terminal [OF s(2) c(3)]
  ultimately show ?thesis using c(1,4) s(1) unfolding ms by (auto simp: responses_ok_def item_ok_def list_all_iff)
qed

theorem responses_completion_is_terminal_witness:
  "\<exists>ms m. sse_run (ss_framing demo_limits) (cut demo_responses) = Inr (ms @ [m]) \<and> List.member terminal_events (event_name (sm_event m)) \<and>
    (\<exists>data. parse_json json_limits_default (sm_data m) = Inr data \<and> json_find data ''response'' = Some (JObject []))"
  using responses_completion_is_terminal [OF demo_responses_run] by auto

text \<open>C29: A reply put together from fragments is whole. When the chat loop returns a response, the stream
  ended with a known finish reason, every tool call has an identifier and a name, and the response is
  the decoding of the assembled body; when the messages loop does, every content block was closed,
  the final delta was seen and cut tool arguments occur only in a reply that hit its token limit.\<close>

theorem assembled_reply_is_whole:
  assumes "consume_stream chat_feed (chat_finish decode) chat_tidy cs (new_chat limits) = Inr r"
    and "consume_stream messages_feed (messages_finish decode) messages_tidy cs' (new_messages limits') = Inr r'"
  shows "(\<exists>ms s. sse_run (ss_framing limits) cs = Inr ms \<and> reduce_all chat_reduce ms (sp_state (new_chat limits)) = (s, Inr ()) \<and>
      List.member finish_reasons (cs_finish_reason s) \<and> list_all (\<lambda>(_, t). tf_id t \<noteq> [] \<and> tf_name t \<noteq> []) (cs_tools s) \<and>
      decode (to_json_string (chat_body s)) = Inr r) \<and>
    (\<exists>ms s. sse_run (ss_framing limits') cs' = Inr ms \<and> reduce_all messages_reduce ms (sp_state (new_messages limits')) = (s, Inr ()) \<and>
      ms_delta_seen s \<and> list_all bk_closed (ms_blocks s) \<and>
      (\<not> ms_truncated_tool_arguments s \<or> member_string (ms_message s) ''stop_reason'' = Some ''max_tokens'') \<and>
      decode (to_json_string (json_set ''content'' (JArray (map bk_value (ms_blocks s))) (ms_message s))) = Inr r')"
proof -
  note chat = chat.consume_keep [of chat_ok, OF chat_reduce_ok new_ok(2) new_framer(2) assms(1)]
  note messages = messages.consume_keep [of messages_ok, OF messages_leaves new_ok(3) new_framer(3) assms(2)]
  show ?thesis
  proof
    show "\<exists>ms s. sse_run (ss_framing limits) cs = Inr ms \<and> reduce_all chat_reduce ms (sp_state (new_chat limits)) = (s, Inr ()) \<and>
      List.member finish_reasons (cs_finish_reason s) \<and> list_all (\<lambda>(_, t). tf_id t \<noteq> [] \<and> tf_name t \<noteq> []) (cs_tools s) \<and>
      decode (to_json_string (chat_body s)) = Inr r"
      using chat by (auto 0 3 simp: chat_outcome_def chat_ok_def list_all_iff list_ex_iff split: if_splits)
    show "\<exists>ms s. sse_run (ss_framing limits') cs' = Inr ms \<and> reduce_all messages_reduce ms (sp_state (new_messages limits')) = (s, Inr ()) \<and>
      ms_delta_seen s \<and> list_all bk_closed (ms_blocks s) \<and>
      (\<not> ms_truncated_tool_arguments s \<or> member_string (ms_message s) ''stop_reason'' = Some ''max_tokens'') \<and>
      decode (to_json_string (json_set ''content'' (JArray (map bk_value (ms_blocks s))) (ms_message s))) = Inr r'"
      using messages by (auto 0 3 simp: messages_outcome_def messages_ok_def split: if_splits)
  qed
qed

theorem assembled_reply_is_whole_witness:
  "\<exists>ms s. sse_run (ss_framing demo_limits) (cut demo_chat) = Inr ms \<and> reduce_all chat_reduce ms (sp_state (new_chat demo_limits)) = (s, Inr ()) \<and>
    List.member finish_reasons (cs_finish_reason s)"
proof -
  obtain r r' where "consume_stream chat_feed (chat_finish Inr) chat_tidy (cut demo_chat) (new_chat demo_limits) = Inr r"
    "consume_stream messages_feed (messages_finish Inr) messages_tidy (cut demo_messages) (new_messages demo_limits) = Inr r'"
    using demo_chat_run demo_messages_run by blast
  from assembled_reply_is_whole [OF this] show ?thesis by blast
qed

text \<open>C30: What a stream collects stays within its limits. After any chunk that the loop accepts, before the
  previews are taken: the collected text, the refusal of each item and the reasoning (in \<open>responses\<close> its
  byte counter) are at most the text limit, the arguments (of each item, or of all tools or blocks
  together) at most the argument limit, the previews at most the preview limit, and there are at most as
  many items, tools or blocks as the limit allows; in \<open>messages\<close> the limits are on the counters, which
  bound the texts and arguments of all blocks. The framing layer was fed at most the total limit,
  holds at most the bytes fed and no complete line, and its unfinished event is within the line and
  event limits. The limits are those the parser was made with. Identifiers, names, open parts, the usage
  and the message objects have no limit of their own.\<close>

theorem stream_buffers_bounded:
  assumes "feed_chunks (responses_feed decode) responses_tidy cs (new_responses limits) = (p0, Inr ())" "responses_feed decode k p0 = (p, Inr ())"
    and "feed_chunks chat_feed chat_tidy cs' (new_chat limits) = (q0, Inr ())" "chat_feed k' q0 = (q, Inr ())"
    and "feed_chunks messages_feed messages_tidy cs'' (new_messages limits) = (t0, Inr ())" "messages_feed k'' t0 = (t, Inr ())"
  shows "(responses_ok (sp_state p) \<and> rr_limits (sp_state p) = limits \<and> framing_ok (ss_framing limits) (sp_framer p)) \<and>
    (chat_ok (sp_state q) \<and> cs_limits (sp_state q) = limits \<and> framing_ok (ss_framing limits) (sp_framer q)) \<and>
    (messages_ok (sp_state t) \<and> ms_limits (sp_state t) = limits \<and> framing_ok (ss_framing limits) (sp_framer t))"
  using responses.loop_keeps [where P = "\<lambda>c. responses_ok c \<and> rr_limits c = limits", OF responses_keeps tidy_keeps(1) new_keeps(1) new_framer(1) assms(1,2)]
    chat.loop_keeps [where P = "\<lambda>c. chat_ok c \<and> cs_limits c = limits", OF chat_keeps tidy_keeps(2) new_keeps(2) new_framer(2) assms(3,4)]
    messages.loop_keeps [where P = "\<lambda>c. messages_ok c \<and> ms_limits c = limits", OF messages_keeps tidy_keeps(3) new_keeps(3) new_framer(3) assms(5,6)]
  by simp

theorem stream_buffers_bounded_witness:
  "\<exists>p0 p q0 q t0 t. feed_chunks (responses_feed Inr) responses_tidy (butlast (cut demo_responses)) (new_responses demo_limits) = (p0, Inr ()) \<and>
    responses_feed Inr (last (cut demo_responses)) p0 = (p, Inr ()) \<and>
    feed_chunks chat_feed chat_tidy (butlast (cut demo_chat)) (new_chat demo_limits) = (q0, Inr ()) \<and> chat_feed (last (cut demo_chat)) q0 = (q, Inr ()) \<and>
    feed_chunks messages_feed messages_tidy (butlast (cut demo_messages)) (new_messages demo_limits) = (t0, Inr ()) \<and>
    messages_feed (last (cut demo_messages)) t0 = (t, Inr ()) \<and>
    responses_ok (sp_state p) \<and> chat_ok (sp_state q) \<and> messages_ok (sp_state t) \<and> framing_ok (ss_framing demo_limits) (sp_framer q)"
proof -
  obtain r r' where chat: "consume_stream chat_feed (chat_finish Inr) chat_tidy (cut demo_chat) (new_chat demo_limits) = Inr r"
    and messages: "consume_stream messages_feed (messages_finish Inr) messages_tidy (cut demo_messages) (new_messages demo_limits) = Inr r'"
    using demo_chat_run demo_messages_run by blast
  obtain p0 p where p: "feed_chunks (responses_feed Inr) responses_tidy (butlast (cut demo_responses)) (new_responses demo_limits) = (p0, Inr ())"
      "responses_feed Inr (last (cut demo_responses)) p0 = (p, Inr ())"
    using consume_last [OF demo_responses_run] by blast
  obtain q0 q where q: "feed_chunks chat_feed chat_tidy (butlast (cut demo_chat)) (new_chat demo_limits) = (q0, Inr ())" "chat_feed (last (cut demo_chat)) q0 = (q, Inr ())"
    using consume_last [OF chat] by blast
  obtain t0 t where t: "feed_chunks messages_feed messages_tidy (butlast (cut demo_messages)) (new_messages demo_limits) = (t0, Inr ())"
      "messages_feed (last (cut demo_messages)) t0 = (t, Inr ())"
    using consume_last [OF messages] by blast
  from stream_buffers_bounded [OF p q t] p q t show ?thesis by blast
qed

end
