(* ===== verification/Provider_Supervisor.thy ===== *)
theory Provider_Supervisor
  imports Sse_Framing
begin

text \<open>
  The supervision of a model provider, \<open>src/model/model_supervisor.cpp\<close>: the circuit breaker with its
  32-bit counters, the classification of a failed exchange and the decision whether to send the
  request again. Durations are integers in milliseconds.
\<close>

section \<open>The circuit breaker\<close>

datatype CircuitState = Unknown | Healthy | Degraded | OpenCircuit | Probing

record CircuitConfig =
  ccf_consecutive_failures_to_open :: u32
  ccf_consecutive_successes_to_close :: u32
  ccf_cooldown :: int

record ProviderCircuit =
  pc_config :: CircuitConfig
  pc_state :: CircuitState
  pc_failures :: u32
  pc_successes :: u32

definition new_circuit :: "CircuitConfig \<Rightarrow> ProviderCircuit" where
  "new_circuit config = \<lparr>pc_config = config, pc_state = Unknown, pc_failures = 0, pc_successes = 0\<rparr>"

definition circuit_state_name :: "CircuitState \<Rightarrow> string" where
  "circuit_state_name s = (case s of Unknown \<Rightarrow> ''Unknown'' | Healthy \<Rightarrow> ''Healthy'' | Degraded \<Rightarrow> ''Degraded''
     | OpenCircuit \<Rightarrow> ''OpenCircuit'' | Probing \<Rightarrow> ''Probing'')"

definition record_success :: "ProviderCircuit \<Rightarrow> ProviderCircuit" where
  "record_success c =
     (let c = c\<lparr>pc_successes := pc_successes c + 1, pc_failures := 0\<rparr> in
      if pc_state c = Unknown \<or> pc_state c = Degraded \<or> pc_state c = Probing
      then c\<lparr>pc_state := (if pc_successes c \<ge> ccf_consecutive_successes_to_close (pc_config c) then Healthy else Degraded)\<rparr>
      else c)"

definition record_failure :: "ProviderCircuit \<Rightarrow> ProviderCircuit" where
  "record_failure c =
     (let c = c\<lparr>pc_failures := pc_failures c + 1, pc_successes := 0\<rparr> in
      if pc_state c = Probing then c\<lparr>pc_state := OpenCircuit\<rparr>
      else if pc_failures c \<ge> ccf_consecutive_failures_to_open (pc_config c) then c\<lparr>pc_state := OpenCircuit\<rparr>
      else c\<lparr>pc_state := Degraded\<rparr>)"

definition admits_requests :: "ProviderCircuit \<Rightarrow> bool" where
  "admits_requests c \<longleftrightarrow> pc_state c \<noteq> OpenCircuit"

section \<open>The retry decision\<close>

datatype RequestStage = LocalRejection | PreWriteFailure | PartialWrite | AwaitingResponse | StreamBroken

datatype RetryAction = RetryNow | RetryAfter | GiveUp

record RetryBudget =
  rb_attempts_used :: u32
  rb_max_attempts :: u32
  rb_total_budget :: int
  rb_elapsed :: int
  rb_retry_after_cap :: int

record RetryDecision =
  rdn_action :: RetryAction
  rdn_delay :: int
  rdn_reason :: string
  rdn_circuit_opened :: bool

definition classify_stage :: "bool \<Rightarrow> bool \<Rightarrow> bool \<Rightarrow> RequestStage" where
  "classify_stage write_started write_completed stream_ended_without_terminal =
     (if stream_ended_without_terminal then StreamBroken
      else if write_completed then AwaitingResponse
      else if write_started then PartialWrite
      else PreWriteFailure)"

definition same_domain :: "Error \<Rightarrow> ModelDomainCode \<Rightarrow> bool" where
  "same_domain e c \<longleftrightarrow> err_domain e = ''mira.model'' \<and> err_domain_code e = model_code c"

definition retry_decision :: "RetryAction \<Rightarrow> int \<Rightarrow> string \<Rightarrow> RetryDecision" where
  "retry_decision action delay reason = \<lparr>rdn_action = action, rdn_delay = delay, rdn_reason = reason, rdn_circuit_opened = False\<rparr>"

text \<open>The paced retry of a rate limit or an overload.\<close>

definition paced_retry :: "int option \<Rightarrow> RetryBudget \<Rightarrow> RetryDecision" where
  "paced_retry retry_after budget =
     (case retry_after of
        Some t \<Rightarrow>
          (let delay = min t (rb_retry_after_cap budget) in
           if rb_elapsed budget + delay > rb_total_budget budget
           then retry_decision GiveUp delay ''retry-after delay exceeds the retry budget''
           else retry_decision RetryAfter delay ''retryable after the server-provided delay'')
      | None \<Rightarrow>
          (let delay = 250 * 2 ^ unat (min (rb_attempts_used budget) 4) in
           if rb_elapsed budget + delay > rb_total_budget budget
           then retry_decision GiveUp delay ''backoff delay exceeds the retry budget''
           else retry_decision RetryAfter delay ''retryable with bounded backoff''))"

definition evaluate_retry :: "Error \<Rightarrow> RequestStage \<Rightarrow> int option \<Rightarrow> RetryBudget \<Rightarrow> ProviderCircuit \<Rightarrow> RetryDecision" where
  "evaluate_retry failure stage retry_after budget circuit =
     (if rb_attempts_used budget \<ge> rb_max_attempts budget then retry_decision GiveUp 0 ''retry attempt budget exhausted''
      else if rb_elapsed budget \<ge> rb_total_budget budget then retry_decision GiveUp 0 ''retry time budget exhausted''
      else if \<not> admits_requests circuit then retry_decision GiveUp 0 ''circuit is open''
      else if same_domain failure AmbiguousCompletion
      then retry_decision GiveUp 0 ''ambiguous completion requires recovery policy, not retry''
      else case stage of
          LocalRejection \<Rightarrow> retry_decision GiveUp 0 ''local rejection never reaches the wire''
        | PreWriteFailure \<Rightarrow>
            if \<not> err_retryable failure then retry_decision GiveUp 0 ''failure is not marked retryable''
            else retry_decision RetryNow 0 ''pre-write transport failures are safe to resend''
        | _ \<Rightarrow>
            if same_domain failure RateLimited \<or> same_domain failure ProviderOverloaded then paced_retry retry_after budget
            else retry_decision GiveUp 0 ''request bytes left the process; resend requires idempotency evidence'')"

lemma retry_within_budget:
  assumes "rdn_action (evaluate_retry e stage after b c) \<noteq> GiveUp"
  shows "rb_attempts_used b < rb_max_attempts b" "rb_elapsed b + rdn_delay (evaluate_retry e stage after b c) \<le> rb_total_budget b"
    "stage \<in> {PartialWrite, AwaitingResponse, StreamBroken} \<Longrightarrow> same_domain e RateLimited \<or> same_domain e ProviderOverloaded"
    "stage \<noteq> LocalRejection" "admits_requests c"
  using assms by (auto simp: evaluate_retry_def paced_retry_def retry_decision_def Let_def not_le split: if_splits RequestStage.splits option.splits)

end
