(* ===== verification/Model_Gateway.thy ===== *)
theory Model_Gateway
  imports Provider_Supervisor Budget_Properties
begin

text \<open>
  The gateway of \<open>src/model/model_gateway.cpp\<close>: a request reserves budget, goes to the candidate
  profiles in order under the retry decision and the circuit breaker of each, and is settled or
  released. The candidates are the profiles that the router accepts and that have a provider; what
  a provider answers, the clock and the admission gate are arguments. The parsing of a decision
  and the resolution of tool calls only fill fields of the outcome and are left out.
\<close>

section \<open>State and requests\<close>

record GatewayConfig =
  gc_retry_budget :: RetryBudget
  gc_circuit_config :: CircuitConfig
  gc_require_known_price :: bool

datatype GatewayEvent =
    ModelRequestPrepared u64 u64 bool nat
  | ModelResponseReceived u32 bool ReconciliationQuality
  | ModelAttemptFailed string bool u32 u32
  | ModelProfileFallback Id128 string

text \<open>The event store gets the events in this order; what it answers is dropped.\<close>

record ModelGateway =
  gw_config :: GatewayConfig
  gw_ledger :: BudgetLedger
  gw_circuits :: "(Id128, ProviderCircuit) umap"
  gw_events :: "GatewayEvent list"

record Candidate =
  ca_profile :: Id128
  ca_model_selector :: string
  ca_max_output_tokens :: u64

record GatewayRequest =
  gq_task :: TaskId
  gq_operation :: OperationId
  gq_valid :: "unit Result"
  gq_admitted :: bool
  gq_input :: "ModelContentPart list list"
  gq_tools :: "JsonValue list"
  gq_max_output_tokens :: "u64 option"
  gq_budget :: ModelBudget
  gq_now :: int
  gq_route_error :: Error

record TransportTrace =
  tt_write_started :: bool
  tt_write_completed :: bool
  tt_headers_received :: bool

record ModelReply =
  mr_usage :: ModelUsage
  mr_resolved_model :: "string option"

text \<open>One call of a provider with the readings around it.\<close>

record ProviderCall =
  pl_response :: "ModelReply Result"
  pl_trace :: TransportTrace
  pl_retry_after :: "int option"
  pl_now :: int
  pl_elapsed :: int
  pl_elapsed_after :: int
  pl_cancelled :: bool
  pl_admitted :: bool

record ModelCallOutcome =
  mo_profile :: Id128
  mo_attempts :: u32
  mo_reservation :: BudgetReservation
  mo_settlement :: "BudgetSettlement option"
  mo_reply :: ModelReply
  mo_admitted :: bool

definition model_domain_code_name :: "ModelDomainCode \<Rightarrow> string" where
  "model_domain_code_name c = (case c of EndpointPolicyDenied \<Rightarrow> ''EndpointPolicyDenied'' | AuthenticationFailed \<Rightarrow> ''AuthenticationFailed''
     | ProviderPermissionDenied \<Rightarrow> ''ProviderPermissionDenied'' | InvalidModelRequest \<Rightarrow> ''InvalidModelRequest''
     | CapabilityMismatch \<Rightarrow> ''CapabilityMismatch'' | ContextLimitExceeded \<Rightarrow> ''ContextLimitExceeded'' | RateLimited \<Rightarrow> ''RateLimited''
     | ProviderOverloaded \<Rightarrow> ''ProviderOverloaded'' | TransportFailed \<Rightarrow> ''TransportFailed'' | ProtocolViolation \<Rightarrow> ''ProtocolViolation''
     | ResponseTooLarge \<Rightarrow> ''ResponseTooLarge'' | ModelRefused \<Rightarrow> ''ModelRefused'' | ContentFiltered \<Rightarrow> ''ContentFiltered''
     | IncompleteModelOutput \<Rightarrow> ''IncompleteModelOutput'' | MalformedStructuredOutput \<Rightarrow> ''MalformedStructuredOutput''
     | AmbiguousModelOutput \<Rightarrow> ''AmbiguousModelOutput'' | AmbiguousCompletion \<Rightarrow> ''AmbiguousCompletion'' | ModelCancelled \<Rightarrow> ''ModelCancelled''
     | ModelDeadlineExceeded \<Rightarrow> ''ModelDeadlineExceeded'' | ModelResourceExhausted \<Rightarrow> ''ModelResourceExhausted'')"

definition all_model_codes :: "ModelDomainCode list" where
  "all_model_codes = [EndpointPolicyDenied, AuthenticationFailed, ProviderPermissionDenied, InvalidModelRequest, CapabilityMismatch,
     ContextLimitExceeded, RateLimited, ProviderOverloaded, TransportFailed, ProtocolViolation, ResponseTooLarge, ModelRefused,
     ContentFiltered, IncompleteModelOutput, MalformedStructuredOutput, AmbiguousModelOutput, AmbiguousCompletion, ModelCancelled,
     ModelDeadlineExceeded, ModelResourceExhausted]"

definition domain_code_text :: "Error \<Rightarrow> string" where
  "domain_code_text e = (case List.find (same_domain e) all_model_codes of Some c \<Rightarrow> model_domain_code_name c | None \<Rightarrow> ''Other'')"

definition classify_provider_stage :: "TransportTrace \<Rightarrow> Error \<Rightarrow> RequestStage" where
  "classify_provider_stage trace failure =
     (if tt_headers_received trace then AwaitingResponse
      else if tt_write_completed trace \<or> tt_write_started trace then AwaitingResponse
      else if same_domain failure AmbiguousCompletion then AwaitingResponse
      else PreWriteFailure)"

definition gateway_emit :: "GatewayEvent \<Rightarrow> ModelGateway \<Rightarrow> ModelGateway" where
  "gateway_emit x gw = gw\<lparr>gw_events := gw_events gw @ [x]\<rparr>"

definition put_circuit :: "Id128 \<Rightarrow> ProviderCircuit \<Rightarrow> ModelGateway \<Rightarrow> ModelGateway" where
  "put_circuit k c gw = gw\<lparr>gw_circuits := umap_modify k (\<lambda>_. c) (umap_emplace k c (gw_circuits gw))\<rparr>"

definition circuit_of :: "Id128 \<Rightarrow> ModelGateway \<Rightarrow> ProviderCircuit" where
  "circuit_of k gw = (case map_of (gw_circuits gw) k of Some c \<Rightarrow> c | None \<Rightarrow> new_circuit (gc_circuit_config (gw_config gw)))"

definition circuit_state :: "Id128 \<Rightarrow> ModelGateway \<Rightarrow> CircuitState" where
  "circuit_state k gw = (case map_of (gw_circuits gw) k of Some c \<Rightarrow> pc_state c | None \<Rightarrow> Unknown)"

section \<open>One candidate\<close>

text \<open>A candidate either ends the call or hands it to the next one.\<close>

datatype attempt_end = Settled "ModelCallOutcome Result" | Fallback Error

definition settle_reply ::
    "GatewayRequest \<Rightarrow> string \<Rightarrow> BudgetReservation \<Rightarrow> Candidate \<Rightarrow> ProviderCall \<Rightarrow> ModelReply \<Rightarrow> nat \<Rightarrow> ModelGateway \<Rightarrow>
     ModelGateway \<times> ModelCallOutcome" where
  "settle_reply rq selector r ca call reply made gw =
     (let gw = put_circuit (ca_profile ca) (record_success (circuit_of (ca_profile ca) gw)) gw;
          (ledger, settlement) = reconcile (pl_now call) (gq_task rq) (gq_budget rq) (mr_usage reply)
            (case mr_resolved_model reply of Some m \<Rightarrow> m | None \<Rightarrow> selector) (gw_ledger gw);
          s = (case settlement of Inr s \<Rightarrow> Some s | Inl _ \<Rightarrow> None);
          gw = gw\<lparr>gw_ledger := ledger\<rparr>
      in (gateway_emit (ModelResponseReceived (of_nat made) (pl_admitted call) (case s of Some s \<Rightarrow> bs_quality s | None \<Rightarrow> Reconciled)) gw,
          \<lparr>mo_profile = ca_profile ca, mo_attempts = of_nat made, mo_reservation = r, mo_settlement = s, mo_reply = reply,
           mo_admitted = pl_admitted call\<rparr>))"

definition fallback_eligible :: "RetryBudget \<Rightarrow> bool \<Rightarrow> ProviderCall \<Rightarrow> Error \<Rightarrow> bool" where
  "fallback_eligible b more_candidates call failure \<longleftrightarrow> err_retryable failure \<and> \<not> same_domain failure AmbiguousCompletion \<and>
     err_code failure \<noteq> ErrorCode.Cancelled \<and> more_candidates \<and> pl_elapsed_after call < rb_total_budget b"

definition give_up ::
    "GatewayRequest \<Rightarrow> BudgetReservation \<Rightarrow> Candidate \<Rightarrow> bool \<Rightarrow> ProviderCall \<Rightarrow> Error \<Rightarrow> ModelGateway \<Rightarrow> ModelGateway \<times> attempt_end" where
  "give_up rq r ca more_candidates call failure gw =
     (if fallback_eligible (gc_retry_budget (gw_config gw)) more_candidates call failure
      then (gateway_emit (ModelProfileFallback (ca_profile ca) (domain_code_text failure)) gw, Fallback failure)
      else (gw\<lparr>gw_ledger := fst (release (gq_task rq) (if same_domain failure AmbiguousCompletion then r\<lparr>br_cost_micros := 0\<rparr> else r)
             (gw_ledger gw))\<rparr>, Settled (Inl failure)))"

text \<open>The errors of the gateway itself carry the operation of the request.\<close>

definition call_error :: "GatewayRequest \<Rightarrow> ModelDomainCode \<Rightarrow> string \<Rightarrow> Error" where
  "call_error rq c message = (make_model_error c message False)\<lparr>err_operation_id := Some (gq_operation rq)\<rparr>"

definition backoff_cancelled :: "GatewayRequest \<Rightarrow> Error" where
  "backoff_cancelled rq = call_error rq ModelCancelled ''model call was cancelled during retry backoff''"

definition attempt_failed :: "Candidate \<Rightarrow> ProviderCall \<Rightarrow> Error \<Rightarrow> u32 \<Rightarrow> nat \<Rightarrow> ModelGateway \<Rightarrow> ModelGateway" where
  "attempt_failed ca call failure attempt made gw =
     gateway_emit (ModelAttemptFailed (domain_code_text failure) (classify_provider_stage (pl_trace call) failure = PreWriteFailure) attempt (of_nat made))
       (put_circuit (ca_profile ca) (record_failure (circuit_of (ca_profile ca) gw)) gw)"

definition retry_of :: "ProviderCall \<Rightarrow> Error \<Rightarrow> u32 \<Rightarrow> RetryBudget \<Rightarrow> ProviderCircuit \<Rightarrow> RetryDecision" where
  "retry_of call failure attempt b c = evaluate_retry failure (classify_provider_stage (pl_trace call) failure) (pl_retry_after call)
     (b\<lparr>rb_attempts_used := attempt, rb_elapsed := pl_elapsed call\<rparr>) c"

lemma attempts_decrease: "attempt < m \<Longrightarrow> unat (m - (attempt + 1)) < unat (m - attempt)" for attempt m :: u32
proof -
  assume less: "attempt < m"
  then have suc: "unat (attempt + 1) = Suc (unat attempt)" using unat_u32_less [of m] by (simp add: unat_word_ariths word_less_nat_alt)
  then have "attempt + 1 \<le> m" using less by (simp add: word_le_nat_alt word_less_nat_alt)
  moreover have "attempt \<le> m" using less by simp
  ultimately show ?thesis using less suc by (simp add: unat_sub word_less_nat_alt)
qed

text \<open>
  The attempts of one candidate; \<open>calls k\<close> is the \<open>k\<close>-th call of its provider. The number
  \<open>made\<close> counts the calls that were really made; the code's 32-bit counter \<open>total_attempts\<close>, as the
  outcome and the events carry it, is \<open>of_nat made\<close>.
\<close>

function try_candidate ::
    "GatewayRequest \<Rightarrow> string \<Rightarrow> BudgetReservation \<Rightarrow> Candidate \<Rightarrow> bool \<Rightarrow> (nat \<Rightarrow> ProviderCall) \<Rightarrow> RetryBudget \<Rightarrow> u32 \<Rightarrow> nat \<Rightarrow> ModelGateway \<Rightarrow>
     ModelGateway \<times> nat \<times> attempt_end" where
  "try_candidate rq selector r ca more_candidates calls b attempt made gw =
     (let call = calls (unat attempt); n = Suc made in
      case pl_response call of
        Inr reply \<Rightarrow> (case settle_reply rq selector r ca call reply n gw of (gw, oc) \<Rightarrow> (gw, n, Settled (Inr oc)))
      | Inl failure \<Rightarrow>
          let gw = attempt_failed ca call failure attempt n gw;
              d = retry_of call failure attempt b (circuit_of (ca_profile ca) gw)
          in if rdn_action d = GiveUp
             then (case give_up rq r ca more_candidates call failure gw of (gw, x) \<Rightarrow> (gw, n, x))
             else if rdn_action d = RetryAfter \<and> rdn_delay d > 0 \<and> pl_cancelled call then (gw, n, Settled (Inl (backoff_cancelled rq)))
             else try_candidate rq selector r ca more_candidates calls b (attempt + 1) n gw)"
  by pat_completeness auto

termination
proof (relation "measure (\<lambda>(_, _, _, _, _, _, b, attempt, _, _). unat (rb_max_attempts b - attempt))", goal_cases)
  case (2 rq selector r ca more_candidates calls b attempt made gw call t failure gw' d)
  then have "rdn_action (evaluate_retry failure (classify_provider_stage (pl_trace call) failure) (pl_retry_after call)
      (b\<lparr>rb_attempts_used := attempt, rb_elapsed := pl_elapsed call\<rparr>) (circuit_of (ca_profile ca) gw')) \<noteq> GiveUp"
    by (simp add: retry_of_def)
  from retry_within_budget(1) [OF this] show ?case by (simp add: attempts_decrease)
qed simp

declare try_candidate.simps [simp del]

section \<open>The call\<close>

definition circuit_open :: "GatewayRequest \<Rightarrow> Error" where
  "circuit_open rq = call_error rq ProviderOverloaded ''provider circuit is open''"

text \<open>The first use of a profile makes its circuit.\<close>

definition ready_circuit :: "Id128 \<Rightarrow> ModelGateway \<Rightarrow> ModelGateway" where
  "ready_circuit k gw = (if circuit_state k gw = Unknown then put_circuit k (new_circuit (gc_circuit_config (gw_config gw))) gw else gw)"

text \<open>The loop over the candidates; \<open>calls i\<close> are the calls of the \<open>i\<close>-th one.\<close>

fun try_candidates ::
    "GatewayRequest \<Rightarrow> string \<Rightarrow> BudgetReservation \<Rightarrow> (nat \<Rightarrow> nat \<Rightarrow> ProviderCall) \<Rightarrow> nat \<Rightarrow> Candidate list \<Rightarrow> Error \<Rightarrow> nat \<Rightarrow> ModelGateway \<Rightarrow>
     ModelGateway \<times> nat \<times> ModelCallOutcome Result" where
  "try_candidates rq selector r calls i [] last_failure made gw = (gw, made, Inl last_failure)"
| "try_candidates rq selector r calls i (ca # cas) last_failure made gw =
     (let gw = ready_circuit (ca_profile ca) gw in
      if \<not> admits_requests (circuit_of (ca_profile ca) gw) then try_candidates rq selector r calls (Suc i) cas (circuit_open rq) made gw
      else case try_candidate rq selector r ca (cas \<noteq> []) (calls i) (gc_retry_budget (gw_config gw)) 1 made gw of
          (gw, made, Settled x) \<Rightarrow> (gw, made, x)
        | (gw, made, Fallback failure) \<Rightarrow> try_candidates rq selector r calls (Suc i) cas failure made gw)"

definition budget_currency :: "ModelBudget \<Rightarrow> string" where
  "budget_currency b = (if mb_currency b = '''' then ''USD'' else mb_currency b)"

definition gateway_estimate :: "GatewayRequest \<Rightarrow> Candidate \<Rightarrow> PriceEntry option \<Rightarrow> BudgetEstimate" where
  "gateway_estimate rq ca priced =
     (let input = estimate_input_tokens (gq_input rq) (gq_tools rq);
          wanted = (case gq_max_output_tokens rq of Some n \<Rightarrow> n | None \<Rightarrow> ca_max_output_tokens ca);
          limit = mb_max_output_tokens (gq_budget rq);
          output_tokens = (if limit \<noteq> 0 \<and> wanted > limit then limit else wanted)
      in \<lparr>be_input_tokens = input, be_output_tokens = output_tokens, be_requests = 1,
          be_cost_micros = (case priced of
              Some p \<Rightarrow> (input * px_input_micros_per_mtok p + output_tokens * px_output_micros_per_mtok p + 999999) div 1000000
            | None \<Rightarrow> 0),
          be_currency = (case priced of Some p \<Rightarrow> px_currency p | None \<Rightarrow> ''USD''), be_quality = Estimated\<rparr>)"

definition not_admitted :: "GatewayRequest \<Rightarrow> Error" where
  "not_admitted rq = call_error rq ModelCancelled ''request task epoch is not admitted''"

definition unknown_price :: "GatewayRequest \<Rightarrow> Error" where
  "unknown_price rq = call_error rq ModelResourceExhausted ''price table has no entry for the model and unknown costs are rejected by policy''"

definition none_executed :: "GatewayRequest \<Rightarrow> Error" where
  "none_executed rq = call_error rq CapabilityMismatch ''no candidate profile executed''"

definition gateway_infer ::
    "GatewayRequest \<Rightarrow> Candidate list \<Rightarrow> (nat \<Rightarrow> nat \<Rightarrow> ProviderCall) \<Rightarrow> ModelGateway \<Rightarrow> ModelGateway \<times> nat \<times> ModelCallOutcome Result" where
  "gateway_infer rq candidates calls gw =
     (case gq_valid rq of
        Inl e \<Rightarrow> (gw, 0, Inl e)
      | Inr _ \<Rightarrow>
          if \<not> gq_admitted rq then (gw, 0, Inl (not_admitted rq))
          else case candidates of
            [] \<Rightarrow> (gw, 0, Inl (gq_route_error rq))
          | ca # _ \<Rightarrow>
              (let priced = price_lookup (ca_model_selector ca) (budget_currency (gq_budget rq)) (gq_now rq) (bl_prices (gw_ledger gw));
                   e = gateway_estimate rq ca priced
               in if priced = None \<and> gc_require_known_price (gw_config gw) then (gw, 0, Inl (unknown_price rq))
                  else case reserve (gq_task rq) (gq_budget rq) e (gw_ledger gw) of
                      (l, Inl err) \<Rightarrow> (gw\<lparr>gw_ledger := l\<rparr>, 0, Inl err)
                    | (l, Inr r) \<Rightarrow>
                        try_candidates rq (ca_model_selector ca) r calls 0 candidates (none_executed rq) 0
                          (gateway_emit (ModelRequestPrepared (be_input_tokens e) (be_output_tokens e) (priced \<noteq> None) (length candidates))
                            (gw\<lparr>gw_ledger := l\<rparr>))))"

end
