(* ===== verification/Gateway_Properties.thy ===== *)
theory Gateway_Properties
  imports Model_Gateway
begin

text \<open>
  The properties of the gateway: how often a provider is called, what a failure that may have been
  billed does, and what open circuits do to the budget and to later calls.
\<close>

section \<open>What a candidate changes\<close>

lemma put_circuit_frame [simp]:
  "map_of (gw_circuits (put_circuit k c gw)) k' = (if k' = k then Some c else map_of (gw_circuits gw) k')"
  "gw_config (put_circuit k c gw) = gw_config gw" "gw_ledger (put_circuit k c gw) = gw_ledger gw"
  by (simp_all add: put_circuit_def)

lemma gateway_emit_frame [simp]: "gw_circuits (gateway_emit x gw) = gw_circuits gw" "gw_config (gateway_emit x gw) = gw_config gw" "gw_ledger (gateway_emit x gw) = gw_ledger gw"
  by (simp_all add: gateway_emit_def)

lemma attempt_failed_frame [simp]:
  "map_of (gw_circuits (attempt_failed ca call failure attempt made gw)) k =
     (if k = ca_profile ca then Some (record_failure (circuit_of k gw)) else map_of (gw_circuits gw) k)"
  "gw_config (attempt_failed ca call failure attempt made gw) = gw_config gw"
  "gw_ledger (attempt_failed ca call failure attempt made gw) = gw_ledger gw"
  by (simp_all add: attempt_failed_def)

lemma settle_reply_frame: "k \<noteq> ca_profile ca \<Longrightarrow> map_of (gw_circuits (fst (settle_reply rq sel r ca call reply made gw))) k = map_of (gw_circuits gw) k"
  by (simp add: settle_reply_def Let_def split: prod.splits)

lemma settle_reply_config: "gw_config (fst (settle_reply rq sel r ca call reply made gw)) = gw_config gw"
  by (simp add: settle_reply_def Let_def split: prod.splits)

lemma give_up_frame: "gw_circuits (fst (give_up rq r ca more_candidates call failure gw)) = gw_circuits gw"
  "gw_config (fst (give_up rq r ca more_candidates call failure gw)) = gw_config gw"
  by (simp_all add: give_up_def)

text \<open>An invariant of the attempts, with the three ways in which a candidate ends.\<close>

lemma try_candidate_rule:
  assumes "try_candidate rq sel r ca more_candidates calls b attempt made gw = (gw', made', x)" "I attempt made gw"
    and reply: "\<And>attempt made gw reply. I attempt made gw \<Longrightarrow> pl_response (calls (unat attempt)) = Inr reply \<Longrightarrow>
      Q (fst (settle_reply rq sel r ca (calls (unat attempt)) reply (Suc made) gw)) (Suc made)"
    and ends: "\<And>attempt made gw failure. I attempt made gw \<Longrightarrow> pl_response (calls (unat attempt)) = Inl failure \<Longrightarrow>
      Q (fst (give_up rq r ca more_candidates (calls (unat attempt)) failure (attempt_failed ca (calls (unat attempt)) failure attempt (Suc made) gw))) (Suc made)"
    and cancelled: "\<And>attempt made gw failure. I attempt made gw \<Longrightarrow> pl_response (calls (unat attempt)) = Inl failure \<Longrightarrow>
      Q (attempt_failed ca (calls (unat attempt)) failure attempt (Suc made) gw) (Suc made)"
    and again: "\<And>attempt made gw failure. I attempt made gw \<Longrightarrow> attempt < rb_max_attempts b \<Longrightarrow>
      I (attempt + 1) (Suc made) (attempt_failed ca (calls (unat attempt)) failure attempt (Suc made) gw)"
  shows "Q gw' made'"
  using assms(1,2) reply ends cancelled again
proof (induction rq sel r ca more_candidates calls b attempt made gw arbitrary: made' rule: try_candidate.induct)
  case (1 rq sel r ca more_candidates calls b attempt made gw)
  let ?call = "calls (unat attempt)"
  show ?case
  proof (cases "pl_response ?call")
    case (Inr reply)
    then show ?thesis using 1(2) 1(4) [OF 1(3) Inr] by (simp add: try_candidate.simps [of rq sel r ca more_candidates calls b attempt] Let_def split: prod.splits)
  next
    case (Inl failure)
    let ?gw = "attempt_failed ca ?call failure attempt (Suc made) gw"
    let ?d = "retry_of ?call failure attempt b (circuit_of (ca_profile ca) ?gw)"
    note unfold = try_candidate.simps [of rq sel r ca more_candidates calls b attempt]
    consider "rdn_action ?d = GiveUp" | "rdn_action ?d \<noteq> GiveUp" "rdn_action ?d = RetryAfter \<and> rdn_delay ?d > 0 \<and> pl_cancelled ?call"
      | "rdn_action ?d \<noteq> GiveUp" "\<not> (rdn_action ?d = RetryAfter \<and> rdn_delay ?d > 0 \<and> pl_cancelled ?call)" by blast
    then show ?thesis
    proof cases
      case 1
      then show ?thesis using "1.prems"(1) "1.prems"(4) [OF "1.prems"(2) Inl] Inl by (auto simp: unfold Let_def split: prod.splits)
    next
      case 2
      then show ?thesis using "1.prems"(1) "1.prems"(5) [OF "1.prems"(2) Inl] Inl by (auto simp: unfold Let_def)
    next
      case 3
      have "try_candidate rq sel r ca more_candidates calls b (attempt + 1) (Suc made) ?gw = (gw', made', x)"
        using "1.prems"(1) 3 Inl by (simp add: unfold Let_def)
      moreover have "attempt < rb_max_attempts b"
        using retry_within_budget(1) [of failure _ _ "b\<lparr>rb_attempts_used := attempt, rb_elapsed := pl_elapsed ?call\<rparr>"] 3(1) by (simp add: retry_of_def)
      ultimately show ?thesis
        using "1.IH" [OF refl refl Inl refl refl 3(1,2)] "1.prems"(2-) by blast
    qed
  qed
qed

lemma try_candidate_frame:
  assumes "try_candidate rq sel r ca more_candidates calls b attempt made gw = (gw', made', x)"
  shows "(\<forall>k. k \<noteq> ca_profile ca \<longrightarrow> map_of (gw_circuits gw') k = map_of (gw_circuits gw) k) \<and> gw_config gw' = gw_config gw"
  by (rule try_candidate_rule [OF assms, where I = "\<lambda>_ _ g. (\<forall>k. k \<noteq> ca_profile ca \<longrightarrow> map_of (gw_circuits g) k = map_of (gw_circuits gw) k) \<and> gw_config g = gw_config gw"])
    (auto simp: settle_reply_frame settle_reply_config give_up_frame)

lemma try_candidate_count:
  assumes "try_candidate rq sel r ca more_candidates calls b 1 made gw = (gw', made', x)"
  shows "made' \<le> made + max 1 (unat (rb_max_attempts b))"
proof (rule try_candidate_rule [OF assms, where I = "\<lambda>attempt n _. n + 1 \<le> made + unat attempt \<and> unat attempt \<le> max 1 (unat (rb_max_attempts b))"])
  show "made + 1 \<le> made + unat (1 :: u32) \<and> unat (1 :: u32) \<le> max 1 (unat (rb_max_attempts b))" by simp
next
  fix attempt n g
  assume "n + 1 \<le> made + unat attempt \<and> unat attempt \<le> max 1 (unat (rb_max_attempts b))" and less: "attempt < rb_max_attempts b"
  moreover have "unat (attempt + 1) = Suc (unat attempt)"
    using less unat_u32_less [of "rb_max_attempts b"] by (simp add: unat_word_ariths word_less_nat_alt)
  ultimately show "Suc n + 1 \<le> made + unat (attempt + 1) \<and> unat (attempt + 1) \<le> max 1 (unat (rb_max_attempts b))"
    by (auto simp: word_less_nat_alt)
qed auto

section \<open>Runs\<close>

lemma ready_circuit_open: "circuit_state k gw = OpenCircuit \<Longrightarrow> ready_circuit k gw = gw"
  by (simp add: ready_circuit_def)

lemma ready_circuit_frame: "circuit_state k gw = OpenCircuit \<Longrightarrow> map_of (gw_circuits (ready_circuit k' gw)) k = map_of (gw_circuits gw) k"
  "gw_config (ready_circuit k' gw) = gw_config gw" "gw_ledger (ready_circuit k' gw) = gw_ledger gw"
  by (auto simp: ready_circuit_def)

lemma circuit_state_open: "circuit_state k gw = OpenCircuit \<Longrightarrow> \<not> admits_requests (circuit_of k gw)"
  by (auto simp: circuit_state_def circuit_of_def admits_requests_def split: option.splits)

lemma try_candidates_count:
  "try_candidates rq sel r calls i cas f made gw = (gw', n, x) \<Longrightarrow>
     n \<le> made + length cas * max 1 (unat (rb_max_attempts (gc_retry_budget (gw_config gw))))"
proof (induction cas arbitrary: i f made gw)
  case (Cons ca cas)
  let ?g = "ready_circuit (ca_profile ca) gw"
  show ?case
  proof (cases "admits_requests (circuit_of (ca_profile ca) ?g)")
    case True
    obtain g1 n1 y where t: "try_candidate rq sel r ca (cas \<noteq> []) (calls i) (gc_retry_budget (gw_config ?g)) 1 made ?g = (g1, n1, y)"
      by (metis prod_cases3)
    note count = try_candidate_count [OF t] and frame = try_candidate_frame [OF t]
    show ?thesis using Cons.prems Cons.IH [of "Suc i" _ n1 g1] True t count frame by (cases y) (fastforce simp: Let_def ready_circuit_frame)+
  qed (use Cons.prems Cons.IH [of "Suc i" "circuit_open rq" made ?g] in \<open>auto simp: Let_def ready_circuit_frame\<close>)
qed simp

lemma try_candidates_open:
  "try_candidates rq sel r calls i cas f made gw = (gw', n, x) \<Longrightarrow> circuit_state k gw = OpenCircuit \<Longrightarrow>
     map_of (gw_circuits gw') k = map_of (gw_circuits gw) k"
proof (induction cas arbitrary: i f made gw)
  case (Cons ca cas)
  let ?g = "ready_circuit (ca_profile ca) gw"
  have g: "map_of (gw_circuits ?g) k = map_of (gw_circuits gw) k" "circuit_state k ?g = OpenCircuit"
    using ready_circuit_frame(1) [OF Cons.prems(2)] Cons.prems(2) by (simp_all add: circuit_state_def)
  show ?case
  proof (cases "admits_requests (circuit_of (ca_profile ca) ?g)")
    case True
    then have k: "k \<noteq> ca_profile ca" using g(2) circuit_state_open by blast
    obtain g1 n1 y where t: "try_candidate rq sel r ca (cas \<noteq> []) (calls i) (gc_retry_budget (gw_config ?g)) 1 made ?g = (g1, n1, y)"
      by (metis prod_cases3)
    have g1: "map_of (gw_circuits g1) k = map_of (gw_circuits gw) k" "circuit_state k g1 = OpenCircuit"
      using try_candidate_frame [OF t] k g by (simp_all add: circuit_state_def)
    show ?thesis using Cons.prems(1) Cons.IH [of "Suc i" _ n1 g1] True t g1 by (cases y) (auto simp: Let_def)
  qed (use Cons.prems Cons.IH [of "Suc i" "circuit_open rq" made ?g] g in \<open>auto simp: Let_def\<close>)
qed simp

lemma circuit_state_frame [simp]:
  "circuit_state k (gateway_emit ev gw) = circuit_state k gw" "circuit_state k (gw\<lparr>gw_ledger := l\<rparr>) = circuit_state k gw"
  by (simp_all add: circuit_state_def)

lemma try_candidates_keep_open:
  "circuit_state k gw = OpenCircuit \<Longrightarrow> circuit_state k (fst (try_candidates rq sel r calls i cas f made gw)) = OpenCircuit"
  using try_candidates_open [of rq sel r calls i cas f made gw] by (metis circuit_state_def prod.collapse)

lemma try_candidates_all_open:
  "cas \<noteq> [] \<Longrightarrow> \<forall>ca\<in>set cas. circuit_state (ca_profile ca) gw = OpenCircuit \<Longrightarrow>
     try_candidates rq sel r calls i cas f made gw = (gw, made, Inl (circuit_open rq))"
proof (induction cas arbitrary: i f)
  case (Cons ca cas)
  then show ?case by (cases cas) (auto simp: Let_def ready_circuit_open circuit_state_open)
qed simp

text \<open>A sequence of calls.\<close>

fun run_gateway :: "(GatewayRequest \<times> Candidate list \<times> (nat \<Rightarrow> nat \<Rightarrow> ProviderCall)) list \<Rightarrow> ModelGateway \<Rightarrow> ModelGateway" where
  "run_gateway [] gw = gw"
| "run_gateway ((rq, candidates, calls) # js) gw = run_gateway js (fst (gateway_infer rq candidates calls gw))"

section \<open>Witness data\<close>

definition demo_circuit :: ProviderCircuit where
  "demo_circuit = (record_failure ^^ 3) (new_circuit \<lparr>ccf_consecutive_failures_to_open = 3, ccf_consecutive_successes_to_close = 1, ccf_cooldown = 5000\<rparr>)"

definition demo_gateway :: ModelGateway where
  "demo_gateway = \<lparr>gw_config = \<lparr>gc_retry_budget = \<lparr>rb_attempts_used = 0, rb_max_attempts = 2, rb_total_budget = 10000, rb_elapsed = 0,
       rb_retry_after_cap = 30000\<rparr>, gc_circuit_config = pc_config demo_circuit, gc_require_known_price = False\<rparr>,
     gw_ledger = example_ledger, gw_circuits = [(id128_nil, demo_circuit)], gw_events = []\<rparr>"

definition demo_request :: GatewayRequest where
  "demo_request = \<lparr>gq_task = id128_nil, gq_operation = id128_nil, gq_valid = Inr (), gq_admitted = True, gq_input = [[TextPart ''hello'']], gq_tools = [],
     gq_max_output_tokens = Some 10, gq_budget = example_budget Task, gq_now = 0, gq_route_error = error_default\<rparr>"

definition demo_candidate :: "Id128 \<Rightarrow> Candidate" where
  "demo_candidate k = \<lparr>ca_profile = k, ca_model_selector = ''m'', ca_max_output_tokens = 100\<rparr>"

definition demo_failure :: Error where
  "demo_failure = make_model_error AmbiguousCompletion ''lost'' True"

definition demo_call :: "Error \<Rightarrow> ProviderCall" where
  "demo_call e = \<lparr>pl_response = Inl e, pl_trace = \<lparr>tt_write_started = False, tt_write_completed = False, tt_headers_received = False\<rparr>,
     pl_retry_after = None, pl_now = 0, pl_elapsed = 5, pl_elapsed_after = 5, pl_cancelled = False, pl_admitted = True\<rparr>"

lemma demo_open: "circuit_state id128_nil demo_gateway = OpenCircuit"
  by code_simp

section \<open>Properties\<close>

text \<open>C13: A call of the gateway ends and asks a provider a bounded number of times: at most the number of
  candidate profiles times the configured attempts, or once per profile when the configuration
  allows fewer, whatever the providers answer.\<close>

theorem gateway_attempts_bounded:
  assumes "gateway_infer rq candidates calls gw = (gw', n, x)"
  shows "n \<le> length candidates * max 1 (unat (rb_max_attempts (gc_retry_budget (gw_config gw))))"
  using assms by (auto simp: gateway_infer_def Let_def simp del: try_candidates.simps split: sum.splits if_splits list.splits prod.splits dest!: try_candidates_count)

theorem gateway_attempts_bounded_witness:
  "\<exists>gw' n x. gateway_infer demo_request [demo_candidate id128_nil, demo_candidate (Id128 (replicate 16 1))] (\<lambda>_ _. demo_call demo_failure) demo_gateway = (gw', n, x) \<and>
    n \<le> 4"
proof -
  obtain gw' n x where run: "gateway_infer demo_request [demo_candidate id128_nil, demo_candidate (Id128 (replicate 16 1))] (\<lambda>_ _. demo_call demo_failure) demo_gateway = (gw', n, x)"
    by (metis prod_cases3)
  from gateway_attempts_bounded [OF this] run show ?thesis by (auto simp: demo_gateway_def)
qed

text \<open>C14: A completion that may have happened ends the call. After a failure that leaves the completion
  ambiguous no provider is asked again, neither this one nor the next candidate, the failure is
  returned as it is, and the cost part of the reservation stays held.\<close>

theorem ambiguous_failure_ends_call:
  assumes "pl_response (calls (unat attempt)) = Inl failure" "same_domain failure AmbiguousCompletion" "bl_accounts (gw_ledger gw) (gq_task rq) \<noteq> None"
    and "try_candidate rq sel r ca more_candidates calls b attempt made gw = (gw', n, x)"
  shows "n = Suc made \<and> x = Settled (Inl failure) \<and>
    br_cost_micros (reserved (gw_ledger gw') (gq_task rq)) = br_cost_micros (reserved (gw_ledger gw) (gq_task rq))"
proof -
  have "rdn_action (retry_of (calls (unat attempt)) failure attempt b c) = GiveUp" for c
    using assms(2) by (simp add: retry_of_def evaluate_retry_def retry_decision_def)
  moreover have "saturating_sub c 0 = c" for c by (simp add: saturating_sub_def word_greater_zero_iff)
  ultimately show ?thesis using assms
    by (auto simp: try_candidate.simps Let_def give_up_def fallback_eligible_def release_def reserved_def sub_reservation_def
        split: prod.splits option.splits)
qed

theorem ambiguous_failure_ends_call_witness:
  "\<exists>gw' n x. try_candidate demo_request ''m'' (estimate_reservation example_estimate) (demo_candidate id128_nil) True (\<lambda>_. demo_call demo_failure)
      (gc_retry_budget (gw_config demo_gateway)) 1 0
      (demo_gateway\<lparr>gw_ledger := fst (reserve id128_nil (example_budget Task) example_estimate example_ledger)\<rparr>) = (gw', n, x) \<and>
    n = 1 \<and> x = Settled (Inl demo_failure) \<and> br_cost_micros (reserved (gw_ledger gw') id128_nil) = 3"
proof -
  let ?l = "fst (reserve id128_nil (example_budget Task) example_estimate example_ledger)"
  obtain gw' n x where run: "try_candidate demo_request ''m'' (estimate_reservation example_estimate) (demo_candidate id128_nil) True
      (\<lambda>_. demo_call demo_failure) (gc_retry_budget (gw_config demo_gateway)) 1 0 (demo_gateway\<lparr>gw_ledger := ?l\<rparr>) = (gw', n, x)"
    by (metis prod_cases3)
  have "br_cost_micros (reserved ?l id128_nil) = 3 \<and> bl_accounts ?l id128_nil \<noteq> None"
    by (simp add: reserve_def example_budget_defs account_of_def new_account_def no_reservation_def estimate_reservation_def add_reservation_def
        saturating_add_def u64_max_def would_overflow_def check_limits_def Let_def put_account_def reserved_def)
  then show ?thesis
    using ambiguous_failure_ends_call [OF _ _ _ run, of demo_failure] run
    by (simp add: demo_call_def demo_failure_def same_domain_def make_model_error_def demo_request_def)
qed

text \<open>C31: An open circuit never closes. No sequence of calls changes the circuit of a profile once it is
  open: the gateway asks only profiles whose circuit admits requests, and nothing else moves a
  circuit.\<close>

theorem open_circuit_never_recovers:
  assumes "circuit_state k gw = OpenCircuit"
  shows "circuit_state k (run_gateway js gw) = OpenCircuit"
  using assms
proof (induction js gw rule: run_gateway.induct)
  case (2 rq candidates calls js gw)
  have "circuit_state k (fst (gateway_infer rq candidates calls gw)) = OpenCircuit"
    using "2.prems" by (auto simp: gateway_infer_def Let_def try_candidates_keep_open simp del: try_candidates.simps
      split: sum.splits list.splits prod.splits)
  then show ?case using "2.IH" by simp
qed simp

theorem open_circuit_never_recovers_witness:
  "circuit_state id128_nil (run_gateway [(demo_request, [demo_candidate id128_nil], \<lambda>_ _. demo_call demo_failure)] demo_gateway) = OpenCircuit"
  by (rule open_circuit_never_recovers [OF demo_open])

text \<open>C32: A call on open circuits costs budget. When the circuit of every candidate is open, no provider is
  asked and the call fails, but what it reserved stays held: under a task budget the estimate is
  added to what the task holds, and nothing gives it back.\<close>

theorem open_circuits_keep_reservation:
  assumes "gq_valid rq = Inr ()" "gq_admitted rq" "mb_scope (gq_budget rq) = Task" "\<not> gc_require_known_price (gw_config gw)"
    and "\<forall>c\<in>set (ca # cas). circuit_state (ca_profile c) gw = OpenCircuit"
    and "e = gateway_estimate rq ca (price_lookup (ca_model_selector ca) (budget_currency (gq_budget rq)) (gq_now rq) (bl_prices (gw_ledger gw)))"
    and "reserve (gq_task rq) (gq_budget rq) e (gw_ledger gw) = (l, Inr r)"
  shows "\<exists>gw'. gateway_infer rq (ca # cas) calls gw = (gw', 0, Inl (circuit_open rq)) \<and>
    amounts (reserved (gw_ledger gw') (gq_task rq)) = map2 (+) (amounts (reserved (gw_ledger gw) (gq_task rq))) (amounts (estimate_reservation e))"
proof -
  let ?gw = "gateway_emit (ModelRequestPrepared (be_input_tokens e) (be_output_tokens e)
    (price_lookup (ca_model_selector ca) (budget_currency (gq_budget rq)) (gq_now rq) (bl_prices (gw_ledger gw)) \<noteq> None) (length (ca # cas))) (gw\<lparr>gw_ledger := l\<rparr>)"
  have "\<forall>c\<in>set (ca # cas). circuit_state (ca_profile c) ?gw = OpenCircuit" using assms(5) by (simp add: circuit_state_def)
  then have "gateway_infer rq (ca # cas) calls gw = (?gw, 0, Inl (circuit_open rq))"
    using try_candidates_all_open [of "ca # cas" ?gw] assms by (simp add: gateway_infer_def Let_def del: try_candidates.simps)
  moreover have "amounts (reserved l (gq_task rq)) = map2 (+) (amounts (reserved (gw_ledger gw) (gq_task rq))) (amounts (estimate_reservation e))"
    using reserve_admits_exactly [OF assms(3), of "gw_ledger gw" "gq_task rq" e] assms(7) by (simp add: Let_def)
  ultimately show ?thesis by simp
qed

theorem open_circuits_keep_reservation_witness:
  "\<exists>gw'. gateway_infer demo_request [demo_candidate id128_nil] (\<lambda>_ _. demo_call demo_failure) demo_gateway = (gw', 0, Inl (circuit_open demo_request)) \<and>
    amounts (reserved (gw_ledger gw') id128_nil) = [2, 10, 1, 0]"
proof -
  let ?e = "gateway_estimate demo_request (demo_candidate id128_nil) (price_lookup ''m'' (budget_currency (example_budget Task)) 0 (bl_prices example_ledger))"
  have e: "?e = \<lparr>be_input_tokens = 2, be_output_tokens = 10, be_requests = 1, be_cost_micros = 0, be_currency = ''USD'', be_quality = Estimated\<rparr>"
    by (simp add: gateway_estimate_def demo_request_def demo_candidate_def price_lookup_def example_budget_defs estimate_input_tokens_def part_tokens_def)
  obtain l r where l: "reserve id128_nil (example_budget Task) ?e example_ledger = (l, Inr r)"
    unfolding e by (simp add: reserve_def example_budget_defs account_of_def new_account_def no_reservation_def estimate_reservation_def add_reservation_def
      saturating_add_def u64_max_def would_overflow_def check_limits_def Let_def put_account_def)
  have "\<forall>c\<in>set [demo_candidate id128_nil]. circuit_state (ca_profile c) demo_gateway = OpenCircuit"
    using demo_open by (simp add: demo_candidate_def)
  then show ?thesis using open_circuits_keep_reservation [of demo_request demo_gateway "demo_candidate id128_nil" "[]" ?e l r] l e
    by (simp add: demo_request_def demo_gateway_def demo_candidate_def example_budget_defs amounts_def reserved_def no_reservation_def estimate_reservation_def)
qed


end
