(* ===== verification/Action_Dispatcher.thy ===== *)
theory Action_Dispatcher
  imports Journal_Properties Json
begin

text \<open>
  The journaled dispatch of an action, \<open>src/model/action_dispatcher.cpp\<close>: an input sequence reaches the
  environment only between the records of the action journal. The readings of the clock and of the
  cancellation probe, the generated identifiers, the answers of the store, of the lease and of the
  environment are arguments, an answer \<open>None\<close> is an exception; the calls of the environment are a log.
\<close>

section \<open>Data\<close>

record InputEvent =
  ie_kind :: string
  ie_payload :: string
  ie_duration_ms :: u32

record InputSequence =
  is_display :: "Id128 option"
  is_events :: "InputEvent list"

datatype ExecutionStatus = StatusDispatched | StatusCompleted | StatusRejected | StatusUnknown

record ExecutionReceipt =
  er_status :: ExecutionStatus
  er_side_effect_may_have_occurred :: bool
  er_environment_epoch :: u64
  er_safe_message :: string

record OperationContext =
  oc_session :: SessionId
  oc_task :: TaskId
  oc_operation :: OperationId
  oc_task_epoch :: u64
  oc_deadline :: "int option"

datatype EnvironmentCall = Execute InputSequence | Interrupt

text \<open>What the world answers during one dispatch: the \<open>k\<close>-th check of the probe and the clock, an event
  identifier and an answer of the store for each record, the lease and the environment.\<close>

record 'e DispatchAnswers =
  da_action_id :: ActionId
  da_cancelled :: "nat \<Rightarrow> bool"
  da_now :: "nat \<Rightarrow> int"
  da_prepare :: "'e \<times> EventId"
  da_start :: "'e \<times> EventId"
  da_result :: "'e \<times> EventId"
  da_fallback :: "'e \<times> EventId"
  da_acquire :: "bool Result option"
  da_validate :: "unit Result option"
  da_execute :: "ExecutionReceipt Result option"
  da_interrupt :: "unit Result option"

record JournaledActionDispatcher =
  ad_runtime :: RuntimeId
  ad_session :: SessionId
  ad_connected :: bool

section \<open>The protocol\<close>

definition dispatch_error :: "ErrorCode \<Rightarrow> string \<Rightarrow> Error" where
  "dispatch_error code message = error_default\<lparr>err_code := code, err_domain := ''mira.action_dispatcher'', err_safe_message := message\<rparr>"

definition input_digest :: "InputSequence \<Rightarrow> Sha256Digest" where
  "input_digest input = digest_string (to_json_string (JObject
     [(''display'', JString (case is_display input of Some d \<Rightarrow> id128_to_string d | None \<Rightarrow> ''primary'')),
      (''events'', JArray (map (\<lambda>e. JObject [(''kind'', JString (ie_kind e)), (''payload'', JString (ie_payload e)),
         (''duration_ms'', JInteger (uint (ie_duration_ms e)))]) (is_events input)))]))"

definition dispatch_stopped :: "'e DispatchAnswers \<Rightarrow> OperationContext \<Rightarrow> nat \<Rightarrow> Error option" where
  "dispatch_stopped ans context k =
     (if da_cancelled ans k then Some (dispatch_error ErrorCode.Cancelled ''action dispatch was cancelled'')
      else case oc_deadline context of
          Some t \<Rightarrow> if da_now ans k \<ge> t then Some (dispatch_error ErrorCode.DeadlineExceeded ''action dispatch deadline expired'') else None
        | None \<Rightarrow> None)"

definition dispatch_intent :: "JournaledActionDispatcher \<Rightarrow> 'e DispatchAnswers \<Rightarrow> InputSequence \<Rightarrow> OperationContext \<Rightarrow> u64 \<Rightarrow> ActionIntent" where
  "dispatch_intent d ans input context observed_epoch =
     \<lparr>ai_action_id = da_action_id ans, ai_runtime_id = ad_runtime d, ai_session_id = ad_session d, ai_task_id = oc_task context,
      ai_task_epoch = oc_task_epoch context, ai_environment_epoch = observed_epoch, ai_action_digest = input_digest input,
      ai_target = \<lparr>rd_type = ''input'', rd_id = (case is_display input of Some k \<Rightarrow> id128_to_string k | None \<Rightarrow> ''primary''), rd_scope = ''session''\<rparr>\<rparr>"

definition invalid_frame :: "JournaledActionDispatcher \<Rightarrow> InputSequence \<Rightarrow> OperationContext \<Rightarrow> bool" where
  "invalid_frame d input context \<longleftrightarrow> is_nil (ad_runtime d) \<or> is_nil (ad_session d) \<or> oc_session context \<noteq> ad_session d \<or>
     is_nil (oc_task context) \<or> is_nil (oc_operation context) \<or> is_events input = []"

text \<open>The last argument of what follows is the log of the calls of the environment so far.\<close>

definition quiesce :: "'e DispatchAnswers \<Rightarrow> EnvironmentCall list \<Rightarrow> unit Result \<times> EnvironmentCall list" where
  "quiesce ans log =
     (case da_interrupt ans of Some r \<Rightarrow> r | None \<Rightarrow> Inl (dispatch_error ErrorCode.Internal ''input release raised an exception''),
      log @ [Interrupt])"

text \<open>The uncertainty is recorded, then the input is released; the first failure is returned, and
  \<open>outcome\<close> when both succeed.\<close>

definition settle_uncertain ::
    "('s, 'e) IEventStore \<Rightarrow> 'e DispatchAnswers \<Rightarrow> ActionIntent \<Rightarrow> string \<Rightarrow> ExecutionReceipt Result \<Rightarrow> ActionJournal \<times> 's \<Rightarrow>
     EnvironmentCall list \<Rightarrow> (ActionJournal \<times> 's) \<times> ExecutionReceipt Result \<times> EnvironmentCall list" where
  "settle_uncertain ops ans i reason outcome st log =
     (let (st, uncertain) = journal_execution_uncertain ops (fst (da_result ans)) (snd (da_result ans)) i reason st;
          (released, log) = quiesce ans log
      in (st, (case uncertain of Inl e \<Rightarrow> Inl e | Inr _ \<Rightarrow> (case released of Inl e \<Rightarrow> Inl e | Inr _ \<Rightarrow> outcome)), log))"

definition needs_verification :: "ExecutionReceipt \<Rightarrow> bool" where
  "needs_verification r \<longleftrightarrow> er_side_effect_may_have_occurred r \<or> (er_status r \<noteq> StatusCompleted \<and> er_status r \<noteq> StatusRejected)"

text \<open>After a definite outcome. A result that cannot be recorded is not a success.\<close>

definition settle_receipt ::
    "('s, 'e) IEventStore \<Rightarrow> 'e DispatchAnswers \<Rightarrow> ActionIntent \<Rightarrow> ExecutionReceipt \<Rightarrow> ActionJournal \<times> 's \<Rightarrow>
     (ActionJournal \<times> 's) \<times> ExecutionReceipt Result" where
  "settle_receipt ops ans i r st =
     (case journal_receipt ops (fst (da_result ans)) (snd (da_result ans)) i (if er_status r = StatusRejected then ''rejected'' else ''completed'') st of
        (st, Inr _) \<Rightarrow> (st, Inr r)
      | (st, Inl e) \<Rightarrow>
          (fst (journal_execution_uncertain ops (fst (da_fallback ans)) (snd (da_fallback ans)) i ''execution result could not be committed'' st), Inl e))"

definition raised :: "ExecutionReceipt Result" where
  "raised = Inl (dispatch_error ErrorCode.Internal ''action dispatch raised an exception; verify before retry'')"

definition execute_input ::
    "('s, 'e) IEventStore \<Rightarrow> 'e DispatchAnswers \<Rightarrow> ActionIntent \<Rightarrow> InputSequence \<Rightarrow> ActionJournal \<times> 's \<Rightarrow> EnvironmentCall list \<Rightarrow>
     (ActionJournal \<times> 's) \<times> ExecutionReceipt Result \<times> EnvironmentCall list" where
  "execute_input ops ans i input st log =
     (let log = log @ [Execute input] in
      case da_execute ans of
        None \<Rightarrow> settle_uncertain ops ans i ''dispatch raised an exception'' raised st log
      | Some (Inl e) \<Rightarrow> settle_uncertain ops ans i ''dispatch returned an error'' (Inl e) st log
      | Some (Inr r) \<Rightarrow>
          if needs_verification r then settle_uncertain ops ans i ''execution requires verification'' (Inr r) st log
          else (case settle_receipt ops ans i r st of (st, x) \<Rightarrow> (st, x, log)))"

text \<open>From the durable start on nothing is rolled back.\<close>

definition started_dispatch ::
    "('s, 'e) IEventStore \<Rightarrow> 'e DispatchAnswers \<Rightarrow> OperationContext \<Rightarrow> ActionIntent \<Rightarrow> InputSequence \<Rightarrow> ActionJournal \<times> 's \<Rightarrow>
     EnvironmentCall list \<Rightarrow> (ActionJournal \<times> 's) \<times> ExecutionReceipt Result \<times> EnvironmentCall list" where
  "started_dispatch ops ans context i input st log =
     (case dispatch_stopped ans context 2 of
        Some e \<Rightarrow> (st, Inl e, log)
      | None \<Rightarrow>
          (case da_validate ans of
             None \<Rightarrow> settle_uncertain ops ans i ''dispatch raised an exception'' raised st log
           | Some (Inl e) \<Rightarrow> (st, Inl e, log)
           | Some (Inr _) \<Rightarrow>
               (case dispatch_stopped ans context 3 of
                  Some e \<Rightarrow> (st, Inl e, log)
                | None \<Rightarrow> execute_input ops ans i input st log)))"

definition acquire_error :: "bool Result option \<Rightarrow> Error option" where
  "acquire_error a =
     (case a of
        None \<Rightarrow> Some (dispatch_error ErrorCode.Internal ''action lease acquisition raised an exception'')
      | Some (Inl e) \<Rightarrow> Some e
      | Some (Inr lease) \<Rightarrow> if lease then None else Some (dispatch_error ErrorCode.InvalidState ''action lease acquirer returned no lease''))"

definition dispatch ::
    "('s, 'e) IEventStore \<Rightarrow> JournaledActionDispatcher \<Rightarrow> 'e DispatchAnswers \<Rightarrow> InputSequence \<Rightarrow> OperationContext \<Rightarrow> u64 \<Rightarrow> 's \<Rightarrow>
     's \<times> ExecutionReceipt Result \<times> EnvironmentCall list" where
  "dispatch ops d ans input context observed_epoch s =
     (if \<not> ad_connected d then (s, Inl (dispatch_error ErrorCode.InvalidState ''action dispatcher requires store and lease acquirer''), [])
      else if invalid_frame d input context then (s, Inl (dispatch_error ErrorCode.InvalidArgument ''action dispatch frame is invalid''), [])
      else case dispatch_stopped ans context 0 of
          Some e \<Rightarrow> (s, Inl e, [])
        | None \<Rightarrow>
            (let i = dispatch_intent d ans input context observed_epoch in
             case journal_prepare ops (fst (da_prepare ans)) (snd (da_prepare ans)) i (new_journal (ad_runtime d) 1024 1000000, s) of
               ((J, s), Inl e) \<Rightarrow> (s, Inl e, [])
             | (st, Inr _) \<Rightarrow>
                 (case acquire_error (da_acquire ans) of
                    Some e \<Rightarrow> (snd st, Inl e, [])
                  | None \<Rightarrow>
                      (case dispatch_stopped ans context 1 of
                         Some e \<Rightarrow> (snd st, Inl e, [])
                       | None \<Rightarrow>
                           (case journal_dispatch_started ops (fst (da_start ans)) (snd (da_start ans)) i st of
                              ((J, s), Inl e) \<Rightarrow> (s, Inl e, [])
                            | (st, Inr _) \<Rightarrow> (case started_dispatch ops ans context i input st [] of ((J, s), x, log) \<Rightarrow> (s, x, log)))))))"

section \<open>The environment\<close>

text \<open>The shapes that the calls of the environment can have.\<close>

lemma settle_uncertain_eq:
  "settle_uncertain ops ans i reason outcome st log = (st', x, log') \<Longrightarrow>
    (\<exists>r. journal_execution_uncertain ops (fst (da_result ans)) (snd (da_result ans)) i reason st = (st', r) \<and>
      (\<forall>y. x = Inr y \<longrightarrow> r \<in> range Inr \<and> outcome = Inr y \<and> da_interrupt ans = Some (Inr ()))) \<and> log' = log @ [Interrupt]"
  by (auto simp: settle_uncertain_def quiesce_def Let_def split: prod.splits sum.splits option.splits)

lemma execute_calls:
  assumes "execute_input ops ans i input st log = (st', x, log')"
  shows "log' = log @ [Execute input, Interrupt] \<or> log' = log @ [Execute input] \<and> (\<exists>r. da_execute ans = Some (Inr r) \<and> \<not> needs_verification r)"
  using assms by (auto simp: execute_input_def Let_def split: option.splits sum.splits if_splits prod.splits dest!: settle_uncertain_eq)

lemma started_calls:
  assumes "started_dispatch ops ans context i input st log = (st', x, log')"
  shows "log' \<in> {log, log @ [Interrupt], log @ [Execute input, Interrupt]} \<or>
    log' = log @ [Execute input] \<and> (\<exists>r. da_execute ans = Some (Inr r) \<and> \<not> needs_verification r)"
  using assms execute_calls [of ops ans i input st log st' x log']
  by (auto simp: started_dispatch_def split: option.splits sum.splits prod.splits dest!: settle_uncertain_eq)

section \<open>The journal\<close>

text \<open>The requests of one dispatch are accepted by the store.\<close>

definition uncertain_reasons :: "string list" where
  "uncertain_reasons = [''dispatch raised an exception'', ''dispatch returned an error'', ''execution requires verification'']"

definition dispatch_ok :: "('e \<Rightarrow> AppendRequest \<Rightarrow> bool) \<Rightarrow> 'e DispatchAnswers \<Rightarrow> ActionIntent \<Rightarrow> bool" where
  "dispatch_ok takes ans i \<longleftrightarrow> journal_op_ok takes (JPrepare (fst (da_prepare ans)) (snd (da_prepare ans)) i) \<and>
     journal_op_ok takes (JDispatch (fst (da_start ans)) (snd (da_start ans)) i) \<and>
     list_all (\<lambda>t. journal_op_ok takes (JUncertain (fst (da_result ans)) (snd (da_result ans)) i t)) uncertain_reasons \<and>
     list_all (\<lambda>t. journal_op_ok takes (JReceipt (fst (da_result ans)) (snd (da_result ans)) i t)) [''rejected'', ''completed''] \<and>
     journal_op_ok takes (JUncertain (fst (da_fallback ans)) (snd (da_fallback ans)) i ''execution result could not be committed'')"

context event_log
begin

text \<open>What the records of one dispatch leave of the store.\<close>

definition extends :: "ActionJournal \<times> 's \<Rightarrow> ActionJournal \<times> 's \<Rightarrow> bool" where
  "extends st st' \<longleftrightarrow> journal_inv st' \<and> (\<exists>new. log (snd st') = log (snd st) @ new)"

lemma moves_extends: "moves st st' \<Longrightarrow> extends st st'"
  by (simp add: moves_def extends_def)

lemma extends_refl: "journal_inv st \<Longrightarrow> extends st st"
  by (simp add: extends_def)

lemma extends_trans: "extends st st' \<Longrightarrow> extends st' st'' \<Longrightarrow> extends st st''"
  by (auto simp: extends_def)

lemma uncertain_extends:
  assumes "journal_inv st" "journal_op_ok takes (JUncertain env x i t)" "0 < room (snd st)"
    "journal_execution_uncertain ops env x i t st = (st', res)"
  shows "extends st st'"
  using run_op_moves [OF assms(1-3), of st' "[]"] assms(4) moves_extends by simp

lemma settle_uncertain_extends:
  assumes "journal_inv st" "dispatch_ok takes ans i" "0 < room (snd st)" "t \<in> set uncertain_reasons"
    "settle_uncertain ops ans i t outcome st calls = (st', x, calls')"
  shows "extends st st'"
proof -
  obtain st1 res where run: "journal_execution_uncertain ops (fst (da_result ans)) (snd (da_result ans)) i t st = (st1, res)" by (metis prod.exhaust)
  have "journal_op_ok takes (JUncertain (fst (da_result ans)) (snd (da_result ans)) i t)"
    using assms(2,4) by (simp add: dispatch_ok_def list_all_iff)
  from uncertain_extends [OF assms(1) this assms(3) run] show ?thesis
    using assms(5) run by (auto simp: settle_uncertain_def Let_def split: prod.splits)
qed

lemma settle_receipt_extends:
  assumes "journal_inv st" "dispatch_ok takes ans i" "2 \<le> room (snd st)" "settle_receipt ops ans i r st = (st', x)"
  shows "extends st st'"
proof -
  let ?t = "if er_status r = StatusRejected then ''rejected'' else ''completed''"
  obtain st1 res where run: "journal_receipt ops (fst (da_result ans)) (snd (da_result ans)) i ?t st = (st1, res)" by (metis prod.exhaust)
  have ok: "journal_op_ok takes (JReceipt (fst (da_result ans)) (snd (da_result ans)) i ?t)"
    "journal_op_ok takes (JUncertain (fst (da_fallback ans)) (snd (da_fallback ans)) i ''execution result could not be committed'')"
    using assms(2) by (simp_all add: dispatch_ok_def)
  have m: "moves st st1" using run_op_moves [OF assms(1) ok(1), of st1 "[]"] assms(3) run by simp
  obtain st2 res2 where run2: "journal_execution_uncertain ops (fst (da_fallback ans)) (snd (da_fallback ans)) i
      ''execution result could not be committed'' st1 = (st2, res2)" by (metis prod.exhaust)
  have "extends st1 st2" by (rule uncertain_extends [OF _ ok(2) _ run2]) (use m assms(3) in \<open>simp_all add: moves_def\<close>)
  then show ?thesis using assms(4) run run2 moves_extends [OF m] extends_trans
    by (auto simp: settle_receipt_def split: sum.splits)
qed

lemma started_extends:
  assumes "journal_inv st" "dispatch_ok takes ans i" "2 \<le> room (snd st)" "started_dispatch ops ans context i input st calls0 = (st', x, calls)"
  shows "extends st st'"
proof -
  have u: "extends st st'" if "t \<in> set uncertain_reasons" "settle_uncertain ops ans i t oc st log0 = (st', x, calls)" for t oc log0
    by (rule settle_uncertain_extends [OF assms(1,2) _ that]) (use assms(3) in simp)
  have reasons: "''dispatch raised an exception'' \<in> set uncertain_reasons" "''dispatch returned an error'' \<in> set uncertain_reasons"
    "''execution requires verification'' \<in> set uncertain_reasons" by (simp_all add: uncertain_reasons_def)
  have "execute_input ops ans i input st calls0 = (st', x, calls) \<Longrightarrow> extends st st'"
    using settle_receipt_extends [OF assms(1-3), of _ st' x]
    by (auto simp: execute_input_def Let_def split: option.splits sum.splits if_splits prod.splits dest: u [OF reasons(1)] u [OF reasons(2)] u [OF reasons(3)])
  then show ?thesis using assms(4) extends_refl [OF assms(1)]
    by (auto simp: started_dispatch_def split: option.splits sum.splits prod.splits dest: u [OF reasons(1)] u [OF reasons(2)] u [OF reasons(3)])
qed

lemma dispatch_records:
  assumes "good s" "4 \<le> room s" "dispatch_ok takes ans (dispatch_intent d ans input context epoch)"
    "dispatch ops d ans input context epoch s = (s', x, calls)" "calls \<noteq> []"
  shows "good s' \<and> intent_ok (dispatch_intent d ans input context epoch) \<and> dispatched (dispatch_intent d ans input context epoch) (log s')"
proof -
  let ?i = "dispatch_intent d ans input context epoch" and ?J = "new_journal (ad_runtime d) 1024 1000000"
  obtain st1 r1 st2 r2 st3 where run:
    "journal_prepare ops (fst (da_prepare ans)) (snd (da_prepare ans)) ?i (?J, s) = (st1, Inr r1)"
    "journal_dispatch_started ops (fst (da_start ans)) (snd (da_start ans)) ?i st1 = (st2, Inr r2)"
    "started_dispatch ops ans context ?i input st2 [] = (st3, x, calls)" "s' = snd st3"
    using assms(4,5) by (auto simp: dispatch_def Let_def split: if_splits option.splits prod.splits sum.splits)
  have ok: "journal_op_ok takes (JPrepare (fst (da_prepare ans)) (snd (da_prepare ans)) ?i)"
    "journal_op_ok takes (JDispatch (fst (da_start ans)) (snd (da_start ans)) ?i)"
    using assms(3) by (simp_all add: dispatch_ok_def)
  have "journal_inv (?J, s)" using assms(1) by (simp add: journal_inv_def new_journal_def)
  from prepare_moves [OF this ok(1) _ run(1)] have m1: "moves (?J, s) st1" using assms(2) by simp
  have m2: "moves st1 st2" "dispatched ?i (log (snd st2))"
    using dispatch_moves [OF _ ok(2) _ run(2)] m1 assms(2) by (auto simp: moves_def)
  have "extends st2 st3" using started_extends [OF _ assms(3) _ run(3)] m1 m2(1) assms(2) by (simp add: moves_def)
  then show ?thesis using run(4) m2(2) ok(1) dispatched_mono by (auto simp: extends_def journal_inv_def)
qed

lemma run_then_room:
  assumes "good s" "list_all (journal_op_ok takes) js" "length js + k \<le> room s" "run_journal ops restart js (new_journal rt p m, s) = ((J, s'), acked)"
  shows "good s'" "k \<le> room s'"
proof -
  have "journal_inv (new_journal rt p m, s)" using assms(1) by (simp add: journal_inv_def new_journal_def)
  from run_moves [OF this assms(2) _ assms(4)] show "good s'" "k \<le> room s'" using assms(3) by (simp_all add: journal_inv_def)
qed

lemma executed_never_forgotten:
  assumes "good s" "4 \<le> room s" "dispatch_ok takes ans (dispatch_intent d ans input context epoch)"
    "dispatch ops d ans input context epoch s = (s', x, calls)" "calls \<noteq> []"
    "snd (journal_recover ops (dispatch_intent d ans input context epoch) (new_journal rt p m, restart s')) = Inr t"
  shows "js_phase t \<noteq> Prepared"
proof -
  let ?i = "dispatch_intent d ans input context epoch"
  have r: "good s'" "intent_ok ?i" "dispatched ?i (log s')" using dispatch_records [OF assms(1-5)] by blast+
  note s'' = restart_law [OF r(1)]
  have "valid_intent ?i rt \<and> replay (new_journal rt p m) ?i (initial_state ?i) (session_log (ai_session_id ?i) (log s')) = Inr t"
    using recover_Inr_replay [of "restart s'" "new_journal rt p m" ?i t] s'' assms(6) by (simp add: new_journal_def)
  moreover have "aj_runtime_id (new_journal rt p m) = rt" by (simp add: new_journal_def)
  ultimately show ?thesis using replay_dispatched [OF session_log_dispatched [OF r(3)] _ r(2)] by metis
qed

end

section \<open>A dispatch on a new file store\<close>

lemma journal_encode_utf8:
  assumes "utf8_ok (rd_type (ai_target i))" "utf8_ok (rd_id (ai_target i))" "utf8_ok (rd_scope (ai_target i))" "utf8_ok t"
  shows "utf8_ok (journal_encode i t)"
proof -
  have "utf8_ok ''|''" by simp
  then show ?thesis using assms by (simp add: journal_encode_def utf8_ok_append)
qed

definition demo_dispatcher :: JournaledActionDispatcher where
  "demo_dispatcher = \<lparr>ad_runtime = demo_id 2, ad_session = demo_id 3, ad_connected = True\<rparr>"

definition demo_input :: InputSequence where
  "demo_input = \<lparr>is_display = None, is_events = [\<lparr>ie_kind = ''tap'', ie_payload = ''10,20'', ie_duration_ms = 0\<rparr>]\<rparr>"

definition demo_context :: OperationContext where
  "demo_context = \<lparr>oc_session = demo_id 3, oc_task = demo_id 4, oc_operation = demo_id 5, oc_task_epoch = 1, oc_deadline = None\<rparr>"

definition demo_execution :: ExecutionReceipt where
  "demo_execution = \<lparr>er_status = StatusUnknown, er_side_effect_may_have_occurred = True, er_environment_epoch = 1, er_safe_message = []\<rparr>"

definition demo_answers :: "(WriteAnswer \<times> Timestamp) DispatchAnswers" where
  "demo_answers = \<lparr>da_action_id = demo_id 9, da_cancelled = (\<lambda>_. False), da_now = (\<lambda>_. 0),
     da_prepare = ((Written, timestamp_default), demo_id 20), da_start = ((Written, timestamp_default), demo_id 21),
     da_result = ((Written, timestamp_default), demo_id 22), da_fallback = ((Written, timestamp_default), demo_id 23),
     da_acquire = Some (Inr True), da_validate = Some (Inr ()), da_execute = Some (Inr demo_execution), da_interrupt = Some (Inr ())\<rparr>"

abbreviation demo_action :: ActionIntent where
  "demo_action \<equiv> dispatch_intent demo_dispatcher demo_answers demo_input demo_context 1"

lemma demo_ids_ok: "list_all (\<lambda>k. id128_ok (demo_id k) \<and> \<not> is_nil (demo_id k)) [2, 3, 4, 5, 9, 20, 21, 22, 23]"
  by code_simp

lemma demo_action_ok: "valid_intent demo_action (demo_id 2)" "intent_ok demo_action"
  using demo_ids_ok by (simp_all add: valid_intent_def intent_ok_def dispatch_intent_def demo_dispatcher_def demo_answers_def demo_input_def
      demo_context_def safe_text_def input_digest_def digest_string_def less_char_def)

lemma demo_action_takes:
  assumes "k \<in> {20, 21, 22, 23}" "utf8_ok type" "utf8_ok t"
  shows "append_ok timestamp_default (intent_request (demo_id k) demo_action type (journal_encode demo_action t) c)"
proof -
  have "utf8_ok (journal_encode demo_action t)"
    by (rule journal_encode_utf8) (use assms(3) in \<open>simp_all add: dispatch_intent_def demo_input_def\<close>)
  then show ?thesis using assms(1,2) demo_ids_ok
    by (auto simp: append_ok_def request_ok_def intent_request_def time_ok_def timestamp_default_def int64_max_def dispatch_intent_def
        demo_dispatcher_def demo_answers_def demo_context_def)
qed

lemma demo_dispatch_ok: "dispatch_ok file_takes demo_answers demo_action"
  using demo_action_ok(2) demo_action_takes by (simp add: dispatch_ok_def demo_answers_def uncertain_reasons_def)

lemma demo_dispatched:
  "\<exists>s' x. dispatch file_ops demo_dispatcher demo_answers demo_input demo_context 1 (open_file_store 5 None) = (s', x, [Execute demo_input, Interrupt])"
proof -
  let ?J = "new_journal (demo_id 2) 1024 1000000" and ?w = "(Written, timestamp_default)"
  have "demo_id 20 \<noteq> demo_id 21" by code_simp
  then have "\<exists>J s. run_journal file_ops reopen [JPrepare ?w (demo_id 20) demo_action, JDispatch ?w (demo_id 21) demo_action]
      (?J, open_file_store 5 None) = ((J, s), [demo_action])"
    by (rule prepare_then_dispatch [OF demo_action_ok _ _ _ demo_action_takes demo_action_takes, where n = 5 and p = 1024 and m = 1000000])
      (blast | simp)+
  then obtain J s where run: "run_journal file_ops reopen [JPrepare ?w (demo_id 20) demo_action, JDispatch ?w (demo_id 21) demo_action]
      (?J, open_file_store 5 None) = ((J, s), [demo_action])" by blast
  obtain st1 r1 where prep: "journal_prepare file_ops ?w (demo_id 20) demo_action (?J, open_file_store 5 None) = (st1, r1)" by (metis prod.exhaust)
  obtain st2 r2 where start: "journal_dispatch_started file_ops ?w (demo_id 21) demo_action st1 = (st2, Inr r2)"
    using run prep by (cases "journal_dispatch_started file_ops ?w (demo_id 21) demo_action st1") (auto split: sum.splits)
  have "\<exists>r. r1 = Inr r"
  proof (cases r1)
    case (Inl e)
    then have "aj_states (fst st1) = []" using prep
      by (auto simp: journal_prepare_def new_journal_def split: sum.splits option.splits prod.splits)
    then show ?thesis using start by (cases st1) (auto simp: journal_dispatch_started_def split: sum.splits)
  qed simp
  moreover have "needs_verification demo_execution" by (simp add: needs_verification_def demo_execution_def)
  moreover have "\<not> invalid_frame demo_dispatcher demo_input demo_context"
    using demo_ids_ok by (simp add: invalid_frame_def demo_dispatcher_def demo_input_def demo_context_def)
  ultimately show ?thesis using prep start
    by (auto simp: dispatch_def demo_dispatcher_def demo_answers_def demo_context_def dispatch_stopped_def acquire_error_def
        started_dispatch_def execute_input_def Let_def dest!: settle_uncertain_eq split: prod.splits)
qed

section \<open>Properties\<close>



text \<open>C15: An execution that is not settled releases the input. The environment executes the sequence at
  most once in a dispatch, only after it was asked nothing else, and whenever its outcome is not a
  plain completion or rejection the input is released afterwards; a receipt is returned only when
  the environment gave it and, if it needs verification, when the release succeeded.\<close>

theorem uncertain_execution_releases_input:
  assumes "dispatch ops d ans input context epoch s = (s', x, calls)"
  shows "(calls = [] \<or> calls = [Interrupt] \<or> calls = [Execute input, Interrupt] \<or>
      calls = [Execute input] \<and> (\<exists>r. da_execute ans = Some (Inr r) \<and> \<not> needs_verification r)) \<and>
    (\<forall>r. x = Inr r \<longrightarrow> da_execute ans = Some (Inr r) \<and> Execute input \<in> set calls \<and>
      (needs_verification r \<longrightarrow> da_interrupt ans = Some (Inr ())))"
proof -
  have run: "x = Inr r \<Longrightarrow> da_execute ans = Some (Inr r) \<and> Execute input \<in> set calls \<and> (needs_verification r \<longrightarrow> da_interrupt ans = Some (Inr ()))"
    if "started_dispatch ops ans context i input st [] = (st', x, calls)" for i st st' r
    using that by (auto simp: started_dispatch_def execute_input_def settle_receipt_def raised_def Let_def
      split: option.splits sum.splits prod.splits if_splits dest!: settle_uncertain_eq)
  show ?thesis
  proof (cases "\<exists>i st st'. started_dispatch ops ans context i input st [] = (st', x, calls)")
    case True
    then show ?thesis using run started_calls by fastforce
  next
    case False
    then have "calls = [] \<and> (\<exists>e. x = Inl e)" using assms
      by (auto simp: dispatch_def Let_def split: if_splits option.splits prod.splits sum.splits)
    then show ?thesis by auto
  qed
qed

theorem uncertain_execution_releases_input_witness:
  "\<exists>s' x. dispatch file_ops demo_dispatcher demo_answers demo_input demo_context 1 (open_file_store 5 None) = (s', x, [Execute demo_input, Interrupt]) \<and>
    needs_verification demo_execution \<and> (\<forall>r. x \<noteq> Inr r \<or> r = demo_execution)"
proof -
  obtain s' x where run: "dispatch file_ops demo_dispatcher demo_answers demo_input demo_context 1 (open_file_store 5 None) = (s', x, [Execute demo_input, Interrupt])"
    using demo_dispatched by blast
  have "da_execute demo_answers = Some (Inr demo_execution)" "needs_verification demo_execution"
    by (simp_all add: demo_answers_def needs_verification_def demo_execution_def)
  then show ?thesis using uncertain_execution_releases_input [OF run] run by auto
qed

end
