(* ===== verification/Workflow_Run.thy ===== *)
theory Workflow_Run
  imports Runtime_Safety Sha256
begin

text \<open>
  The execution view and the versions of a workflow: the state machine of \<open>src/workflow/workflow_run.cpp\<close>
  with its carrier states of the task table and the admission of late completions, and the version
  history of \<open>src/workflow/workflow_versioning.cpp\<close>. The steps of a definition are the recovery modes
  that the policy check reads.
\<close>

section \<open>Run states\<close>

datatype WorkflowRunState = Created | Running | Paused | WaitingUser | WaitingAgent | Completed | Failed | Cancelled

definition workflow_run_state_name :: "WorkflowRunState \<Rightarrow> string" where
  "workflow_run_state_name s = (case s of Created \<Rightarrow> ''created'' | Running \<Rightarrow> ''running'' | Paused \<Rightarrow> ''paused''
     | WaitingUser \<Rightarrow> ''waiting_user'' | WaitingAgent \<Rightarrow> ''waiting_agent'' | Completed \<Rightarrow> ''completed''
     | Failed \<Rightarrow> ''failed'' | Cancelled \<Rightarrow> ''cancelled'')"

definition all_run_states :: "WorkflowRunState list" where
  "all_run_states = [Created, Running, Paused, WaitingUser, WaitingAgent, Completed, Failed, Cancelled]"

definition workflow_error :: "ErrorCode \<Rightarrow> string \<Rightarrow> Error" where
  "workflow_error code message = error_default\<lparr>err_code := code, err_domain := ''mira.workflow'', err_safe_message := message\<rparr>"

definition parse_workflow_run_state :: "string \<Rightarrow> WorkflowRunState Result" where
  "parse_workflow_run_state name =
     (case List.find (\<lambda>s. workflow_run_state_name s = name) all_run_states of
        Some s \<Rightarrow> Inr s | None \<Rightarrow> Inl (workflow_error ErrorCode.InvalidArgument ''unknown workflow run state''))"

definition is_terminal_run :: "WorkflowRunState \<Rightarrow> bool" where
  "is_terminal_run s \<longleftrightarrow> s = Completed \<or> s = Failed \<or> s = Cancelled"

definition valid_workflow_run_transition :: "WorkflowRunState \<Rightarrow> WorkflowRunState \<Rightarrow> bool" where
  "valid_workflow_run_transition s t =
     (case s of
        Created \<Rightarrow> t = Running \<or> t = Cancelled
      | Running \<Rightarrow> t = Paused \<or> t = WaitingUser \<or> t = WaitingAgent \<or> t = Completed \<or> t = Failed \<or> t = Cancelled
      | Paused \<Rightarrow> t = Running \<or> t = Cancelled
      | WaitingUser \<Rightarrow> t = Running \<or> t = Cancelled
      | WaitingAgent \<Rightarrow> t = Running \<or> t = WaitingUser \<or> t = Failed \<or> t = Cancelled
      | _ \<Rightarrow> False)"

interpretation run_table: transition_table valid_workflow_run_transition is_terminal_run
  by unfold_locales (auto simp: valid_workflow_run_transition_def is_terminal_run_def)

interpretation run_names: codec workflow_run_state_name "\<lambda>n. case parse_workflow_run_state n of Inr s \<Rightarrow> Some s | Inl _ \<Rightarrow> None" "\<lambda>_. True"
proof unfold_locales
  fix s show "(case parse_workflow_run_state (workflow_run_state_name s) of Inr s \<Rightarrow> Some s | Inl _ \<Rightarrow> None) = Some s"
    by (cases s) (simp_all add: parse_workflow_run_state_def workflow_run_state_name_def all_run_states_def)
qed

section \<open>The view and its transitions\<close>

record WorkflowPendingDecision =
  wd_decision_id :: Id128
  wd_payload_digest :: Sha256Digest

datatype WorkflowPolicy = Strict | Recoverable | AgentAssisted | Interactive | DryRun

record WorkflowRunView =
  wv_run_id :: Id128
  wv_workflow_id :: Id128
  wv_ir_digest :: Sha256Digest
  wv_state :: WorkflowRunState
  wv_run_epoch :: u64
  wv_current_step :: "StepId option"
  wv_policy :: WorkflowPolicy
  wv_run_patch_epoch :: u32
  wv_pending_decision :: "WorkflowPendingDecision option"
  wv_created_at :: Timestamp

datatype WorkflowRunTransitionStatus = TransitionApplied | NoOpTerminal | TransitionRejected

record WorkflowRunTransitionResult =
  wt_status :: WorkflowRunTransitionStatus
  wt_view :: WorkflowRunView
  wt_error :: Error

definition apply_workflow_run_transition :: "WorkflowRunView \<Rightarrow> WorkflowRunState \<Rightarrow> WorkflowRunTransitionResult" where
  "apply_workflow_run_transition view target =
     (if is_terminal_run (wv_state view)
      then if wv_state view = target then \<lparr>wt_status = NoOpTerminal, wt_view = view, wt_error = error_default\<rparr>
        else \<lparr>wt_status = TransitionRejected, wt_view = view,
               wt_error = workflow_error ErrorCode.InvalidState ''terminal workflow run state has no outgoing transition''\<rparr>
      else if \<not> valid_workflow_run_transition (wv_state view) target
      then \<lparr>wt_status = TransitionRejected, wt_view = view,
             wt_error = workflow_error ErrorCode.InvalidState ''workflow run transition is not legal''\<rparr>
      else \<lparr>wt_status = TransitionApplied,
             wt_view = view\<lparr>wv_state := target, wv_run_epoch := wv_run_epoch view + 1,
               wv_pending_decision := (if wv_state view = WaitingUser then None else wv_pending_decision view)\<rparr>,
             wt_error = error_default\<rparr>)"

text \<open>Every enumerator is a named one, so that the return behind the switch is not reached.\<close>

definition task_state_for_run_state :: "WorkflowRunState \<Rightarrow> TaskState" where
  "task_state_for_run_state s = (case s of Created \<Rightarrow> TaskState.Idle | Running \<Rightarrow> TaskState.Acting | Paused \<Rightarrow> TaskState.Paused
     | WaitingUser \<Rightarrow> TaskState.Paused | WaitingAgent \<Rightarrow> TaskState.Recovering | Completed \<Rightarrow> TaskState.Completed
     | Failed \<Rightarrow> TaskState.Failed | Cancelled \<Rightarrow> TaskState.Cancelled)"

definition run_task_state_compatible :: "WorkflowRunState \<Rightarrow> TaskState \<Rightarrow> bool" where
  "run_task_state_compatible run task =
     (if is_terminal_run run then task_state_for_run_state run = task
      else case run of
        Created \<Rightarrow> task = TaskState.Idle \<or> task = TaskState.Cancelling
      | Running \<Rightarrow> List.member [TaskState.Observing, TaskState.Reasoning, TaskState.Planning, TaskState.Acting, TaskState.Verifying,
          TaskState.Pausing, TaskState.Cancelling, TaskState.TakeoverSettling] task
      | Paused \<Rightarrow> task = TaskState.Paused \<or> task = TaskState.SuspendedForTakeover \<or> task = TaskState.Cancelling
      | WaitingUser \<Rightarrow> task = TaskState.Paused \<or> task = TaskState.SuspendedForTakeover \<or> task = TaskState.Cancelling
      | WaitingAgent \<Rightarrow> task = TaskState.Recovering \<or> task = TaskState.Cancelling
      | _ \<Rightarrow> False)"

datatype WorkflowRunCompletionDisposition = CompletionAccepted | CompletionStale

definition admit_workflow_run_completion :: "WorkflowRunView \<Rightarrow> u64 \<Rightarrow> WorkflowRunCompletionDisposition" where
  "admit_workflow_run_completion view signal_epoch =
     (if is_terminal_run (wv_state view) then CompletionStale
      else if signal_epoch \<noteq> wv_run_epoch view then CompletionStale
      else CompletionAccepted)"

section \<open>Policies\<close>

datatype RecoveryMode = NoRecovery | Retry | FallbackStep | AgentEscalation

record WorkflowRecoveryHook =
  rh_mode :: RecoveryMode
  rh_max_retries :: u32
  rh_fallback_step :: "StepId option"

text \<open>The two fields of a definition that the check reads: the allowed policies and the recovery hooks
  of its steps.\<close>

record WorkflowDefinition =
  wf_allowed_policies :: "WorkflowPolicy list"
  wf_step_recovery :: "WorkflowRecoveryHook option list"

definition workflow_policy_allows_agent :: "WorkflowPolicy \<Rightarrow> bool" where
  "workflow_policy_allows_agent p \<longleftrightarrow> p = Recoverable \<or> p = AgentAssisted \<or> p = Interactive"

definition validate_workflow_policy_compatibility :: "WorkflowDefinition \<Rightarrow> WorkflowPolicy \<Rightarrow> unit Result" where
  "validate_workflow_policy_compatibility d policy =
     (if \<not> list_ex (\<lambda>p. p = policy) (wf_allowed_policies d)
      then Inl (workflow_error ErrorCode.InvalidArgument ''policy is not declared in the workflow allowed set'')
      else if \<not> workflow_policy_allows_agent policy \<and> list_ex (\<lambda>r. case r of Some hook \<Rightarrow> rh_mode hook = AgentEscalation | None \<Rightarrow> False) (wf_step_recovery d)
      then Inl (workflow_error ErrorCode.InvalidArgument ''agent escalation hook requires an agent-capable policy'')
      else Inr ())"

section \<open>Versions\<close>

datatype SemanticVersion = SemanticVersion (sv_major: u16) (sv_minor: u16) (sv_patch: u16)

text \<open>The defaulted comparison of the source is lexicographic.\<close>

instantiation SemanticVersion :: linorder
begin

definition less_SemanticVersion :: "SemanticVersion \<Rightarrow> SemanticVersion \<Rightarrow> bool" where
  "less_SemanticVersion v w \<longleftrightarrow> sv_major v < sv_major w \<or> sv_major v = sv_major w \<and>
     (sv_minor v < sv_minor w \<or> sv_minor v = sv_minor w \<and> sv_patch v < sv_patch w)"

definition less_eq_SemanticVersion :: "SemanticVersion \<Rightarrow> SemanticVersion \<Rightarrow> bool" where
  "less_eq_SemanticVersion v w \<longleftrightarrow> v < w \<or> v = w"

instance
proof
  fix u v w :: SemanticVersion
  show "v < w \<longleftrightarrow> v \<le> w \<and> \<not> w \<le> v" by (auto simp: less_SemanticVersion_def less_eq_SemanticVersion_def)
  show "v \<le> v" by (simp add: less_eq_SemanticVersion_def)
  show "u \<le> v \<Longrightarrow> v \<le> w \<Longrightarrow> u \<le> w" by (auto simp: less_SemanticVersion_def less_eq_SemanticVersion_def)
  show "v \<le> w \<Longrightarrow> w \<le> v \<Longrightarrow> v = w" by (auto simp: less_SemanticVersion_def less_eq_SemanticVersion_def)
  show "v \<le> w \<or> w \<le> v"
    by (cases v; cases w) (auto simp: less_SemanticVersion_def less_eq_SemanticVersion_def not_less_iff_gr_or_eq)
qed

end

datatype WorkflowValidationResult = NotValidated | DryRunPassed | Validated | ValidationRejected

record WorkflowVersionRecord =
  vr_version :: SemanticVersion
  vr_actor :: string
  vr_reason :: string
  vr_content_digest :: Sha256Digest
  vr_parent_digest :: Sha256Digest
  vr_validation :: WorkflowValidationResult
  vr_validation_evidence :: "Sha256Digest option"
  vr_created_at :: Timestamp

record WorkflowVersionHistory =
  vh_workflow_id :: Id128
  vh_records :: "WorkflowVersionRecord list"

definition kMaxActorBytes :: nat where "kMaxActorBytes = 256"

definition kMaxReasonBytes :: nat where "kMaxReasonBytes = 2048"

definition nil_digest :: Sha256Digest where "nil_digest = Sha256Digest (replicate 32 0)"

definition versioning_error :: "ErrorCode \<Rightarrow> string \<Rightarrow> Error" where
  "versioning_error code detail = workflow_error code (''workflow versioning: '' @ detail)"

definition workflow_validation_result_name :: "WorkflowValidationResult \<Rightarrow> string" where
  "workflow_validation_result_name r = (case r of NotValidated \<Rightarrow> ''not_validated'' | DryRunPassed \<Rightarrow> ''dry_run_passed''
     | Validated \<Rightarrow> ''validated'' | ValidationRejected \<Rightarrow> ''rejected'')"

definition parse_workflow_validation_result :: "string \<Rightarrow> WorkflowValidationResult Result" where
  "parse_workflow_validation_result name =
     (case List.find (\<lambda>r. workflow_validation_result_name r = name) [NotValidated, DryRunPassed, Validated, ValidationRejected] of
        Some r \<Rightarrow> Inr r | None \<Rightarrow> Inl (versioning_error ErrorCode.InvalidArgument ''unknown validation result name''))"

interpretation validation_names: codec workflow_validation_result_name
  "\<lambda>n. case parse_workflow_validation_result n of Inr s \<Rightarrow> Some s | Inl _ \<Rightarrow> None" "\<lambda>_. True"
proof unfold_locales
  fix r show "(case parse_workflow_validation_result (workflow_validation_result_name r) of Inr s \<Rightarrow> Some s | Inl _ \<Rightarrow> None) = Some r"
    by (cases r) (simp_all add: parse_workflow_validation_result_def workflow_validation_result_name_def)
qed

definition workflow_version_is_runnable :: "WorkflowVersionRecord \<Rightarrow> bool" where
  "workflow_version_is_runnable r \<longleftrightarrow> vr_validation r = DryRunPassed \<or> vr_validation r = Validated"

text \<open>The link of a record to the head of the history.\<close>

definition chain_error :: "WorkflowVersionRecord list \<Rightarrow> WorkflowVersionRecord \<Rightarrow> Error option" where
  "chain_error rs r =
     (if rs \<noteq> []
      then if vr_version r \<le> vr_version (last rs) then Some (versioning_error ErrorCode.InvalidArgument ''version must increase'')
        else if vr_parent_digest r \<noteq> vr_content_digest (last rs)
        then Some (versioning_error ErrorCode.InvalidArgument ''parent digest must chain to the current head'')
        else None
      else if vr_parent_digest r \<noteq> nil_digest
      then Some (versioning_error ErrorCode.InvalidArgument ''first record must have a nil parent digest'')
      else None)"

definition append_workflow_version :: "WorkflowVersionHistory \<Rightarrow> WorkflowVersionRecord \<Rightarrow> WorkflowVersionHistory \<times> unit Result" where
  "append_workflow_version h r =
     (if is_nil (vh_workflow_id h) then (h, Inl (versioning_error ErrorCode.InvalidArgument ''history has a nil workflow id''))
      else if vr_content_digest r = nil_digest then (h, Inl (versioning_error ErrorCode.InvalidArgument ''content digest must not be nil''))
      else if length (vr_actor r) > kMaxActorBytes \<or> length (vr_reason r) > kMaxReasonBytes
      then (h, Inl (versioning_error ErrorCode.InvalidArgument ''actor or reason exceeds limit''))
      else if vr_validation r \<noteq> NotValidated \<and> vr_validation_evidence r = None
      then (h, Inl (versioning_error ErrorCode.InvalidArgument ''validated records must reference validation evidence''))
      else if vr_validation r = NotValidated \<and> vr_validation_evidence r \<noteq> None
      then (h, Inl (versioning_error ErrorCode.InvalidArgument ''not_validated records carry no evidence''))
      else case chain_error (vh_records h) r of
          Some e \<Rightarrow> (h, Inl e)
        | None \<Rightarrow> (h\<lparr>vh_records := vh_records h @ [r]\<rparr>, Inr ()))"

definition resolve_workflow_version :: "WorkflowVersionHistory \<Rightarrow> Sha256Digest \<Rightarrow> WorkflowVersionRecord Result" where
  "resolve_workflow_version h digest =
     (case List.find (\<lambda>r. vr_content_digest r = digest) (rev (vh_records h)) of
        Some r \<Rightarrow> Inr r | None \<Rightarrow> Inl (versioning_error ErrorCode.NotFound ''no version matches the digest''))"

definition latest_runnable_workflow_version :: "WorkflowVersionHistory \<Rightarrow> WorkflowVersionRecord Result" where
  "latest_runnable_workflow_version h =
     (case List.find workflow_version_is_runnable (rev (vh_records h)) of
        Some r \<Rightarrow> Inr r | None \<Rightarrow> Inl (versioning_error ErrorCode.NotFound ''history has no runnable version''))"

end
