(* ===== verification/Workflow_Properties.thy ===== *)
theory Workflow_Properties
  imports Workflow_Run "HOL-Library.Sublist"
begin

text \<open>
  The properties of workflow runs and versions: a run never goes back and late completions stay out,
  a run and the task that carries it move together, and a history is a chain whose digests resolve
  to their newest record.
\<close>

section \<open>Sequences of transitions\<close>

text \<open>Requested states one after the other, with the number of transitions that were applied.\<close>

fun move_run :: "WorkflowRunState list \<Rightarrow> WorkflowRunView \<Rightarrow> WorkflowRunView \<times> nat" where
  "move_run [] view = (view, 0)"
| "move_run (t # ts) view =
     (let r = apply_workflow_run_transition view t; (view', n) = move_run ts (wt_view r)
      in (view', if wt_status r = TransitionApplied then Suc n else n))"

lemma apply_transition_cases:
  "(wt_status (apply_workflow_run_transition view t) = TransitionApplied \<and> valid_workflow_run_transition (wv_state view) t \<and>
      \<not> is_terminal_run (wv_state view) \<and>
      wv_state (wt_view (apply_workflow_run_transition view t)) = t \<and>
      wv_run_epoch (wt_view (apply_workflow_run_transition view t)) = wv_run_epoch view + 1) \<or>
   (wt_status (apply_workflow_run_transition view t) \<noteq> TransitionApplied \<and> wt_view (apply_workflow_run_transition view t) = view)"
  by (simp add: apply_workflow_run_transition_def)

lemma move_run_sound:
  "move_run ts view = (view', n) \<Longrightarrow> valid_workflow_run_transition\<^sup>*\<^sup>* (wv_state view) (wv_state view') \<and>
     wv_run_epoch view' = wv_run_epoch view + of_nat n \<and> (n = 0 \<longrightarrow> view' = view) \<and> (is_terminal_run (wv_state view) \<longrightarrow> view' = view)"
proof (induction ts arbitrary: view n)
  case (Cons t ts)
  let ?r = "apply_workflow_run_transition view t"
  obtain k where k: "move_run ts (wt_view ?r) = (view', k)" "n = (if wt_status ?r = TransitionApplied then Suc k else k)"
    using Cons.prems by (auto simp: Let_def split: prod.splits)
  from apply_transition_cases [of view t] Cons.IH [OF k(1)] show ?case
    using k(2) by (auto intro: converse_rtranclp_into_rtranclp simp: algebra_simps)
qed simp

section \<open>Carriers\<close>

lemma carrier_paths: "list_all (\<lambda>r. list_all (\<lambda>r'. list_all (\<lambda>t. \<not> run_task_state_compatible r t \<or> \<not> valid_workflow_run_transition r r' \<or>
    t = TaskState.Cancelling \<or> task_state_path_exists t (task_state_for_run_state r')) all_task_states) all_run_states) all_run_states"
  by code_simp

lemma in_all_run_states [simp]: "s \<in> set all_run_states"
  by (cases s) (simp_all add: all_run_states_def)

section \<open>Histories\<close>

definition version_record_ok :: "WorkflowVersionRecord \<Rightarrow> bool" where
  "version_record_ok r \<longleftrightarrow> vr_content_digest r \<noteq> nil_digest \<and> length (vr_actor r) \<le> kMaxActorBytes \<and> length (vr_reason r) \<le> kMaxReasonBytes \<and>
     (vr_validation r = NotValidated \<longleftrightarrow> vr_validation_evidence r = None)"

definition version_history_ok :: "WorkflowVersionHistory \<Rightarrow> bool" where
  "version_history_ok h \<longleftrightarrow> list_all version_record_ok (vh_records h) \<and> sorted_wrt (<) (map vr_version (vh_records h)) \<and>
     map vr_parent_digest (vh_records h) = butlast (nil_digest # map vr_content_digest (vh_records h)) \<and>
     (vh_records h \<noteq> [] \<longrightarrow> \<not> is_nil (vh_workflow_id h))"

inductive version_step :: "WorkflowVersionHistory \<Rightarrow> WorkflowVersionHistory \<Rightarrow> bool" where
  "append_workflow_version h r = (h', x) \<Longrightarrow> version_step h h'"

lemma append_version_cases:
  assumes "append_workflow_version h r = (h', x)"
  shows "h' = h \<and> (\<exists>e. x = Inl e) \<or>
    h' = h\<lparr>vh_records := vh_records h @ [r]\<rparr> \<and> x = Inr () \<and> version_record_ok r \<and> \<not> is_nil (vh_workflow_id h) \<and> chain_error (vh_records h) r = None"
  using assms by (auto simp: append_workflow_version_def version_record_ok_def split: if_splits option.splits)

lemma append_version_ok:
  assumes "version_history_ok h" "version_record_ok r" "\<not> is_nil (vh_workflow_id h)" "chain_error (vh_records h) r = None"
  shows "version_history_ok (h\<lparr>vh_records := vh_records h @ [r]\<rparr>)"
proof (cases "vh_records h = []")
  case True
  then show ?thesis using assms by (simp add: version_history_ok_def chain_error_def split: if_splits)
next
  case False
  let ?rs = "vh_records h"
  have link: "vr_version (last ?rs) < vr_version r" "vr_parent_digest r = vr_content_digest (last ?rs)"
    using assms(4) False by (auto simp: chain_error_def not_le split: if_splits)
  have "v < vr_version r" if "v \<in> set (map vr_version ?rs)" for v
  proof -
    have split: "map vr_version ?rs = map vr_version (butlast ?rs) @ [vr_version (last ?rs)]"
      using False by (metis append_butlast_last_id list.simps(8,9) map_append)
    then have "v \<le> vr_version (last ?rs)" using assms(1) that by (auto simp: version_history_ok_def sorted_wrt_append)
    then show ?thesis using link(1) by simp
  qed
  moreover have "butlast (nil_digest # map vr_content_digest (?rs @ [r])) = butlast (nil_digest # map vr_content_digest ?rs) @ [vr_content_digest (last ?rs)]"
    using False by (cases ?rs rule: rev_cases) (simp_all add: butlast_append)
  ultimately show ?thesis using assms(1-3) link(2) False by (auto simp: version_history_ok_def sorted_wrt_append)
qed

interpretation versions: step_system version_step "\<lambda>h. vh_records h = []" version_history_ok
  "\<lambda>h h'. vh_workflow_id h' = vh_workflow_id h \<and> prefix (vh_records h) (vh_records h')"
proof
  show "vh_records h = [] \<Longrightarrow> version_history_ok h" for h by (simp add: version_history_ok_def)
  show "version_step h h' \<Longrightarrow> version_history_ok h \<Longrightarrow> version_history_ok h'" for h h'
    by (auto elim!: version_step.cases dest!: append_version_cases intro: append_version_ok)
  show "version_step h h' \<Longrightarrow> version_history_ok h \<Longrightarrow> vh_workflow_id h' = vh_workflow_id h \<and> prefix (vh_records h) (vh_records h')" for h h'
    by (auto elim!: version_step.cases dest!: append_version_cases)
qed (auto intro: prefix_order.trans)

section \<open>Applications\<close>

definition demo_view :: WorkflowRunView where
  "demo_view = \<lparr>wv_run_id = Id128 (replicate 16 1), wv_workflow_id = Id128 (replicate 16 2), wv_ir_digest = nil_digest, wv_state = Created,
     wv_run_epoch = 0, wv_current_step = None, wv_policy = Strict, wv_run_patch_epoch = 0, wv_pending_decision = None, wv_created_at = timestamp_default\<rparr>"

definition demo_version :: WorkflowVersionRecord where
  "demo_version = \<lparr>vr_version = SemanticVersion 1 0 0, vr_actor = ''a'', vr_reason = ''r'', vr_content_digest = Sha256Digest (replicate 32 1),
     vr_parent_digest = nil_digest, vr_validation = NotValidated, vr_validation_evidence = None, vr_created_at = timestamp_default\<rparr>"

definition demo_published :: WorkflowVersionRecord where
  "demo_published = demo_version\<lparr>vr_version := SemanticVersion 1 0 1, vr_parent_digest := vr_content_digest demo_version,
     vr_validation := Validated, vr_validation_evidence := Some nil_digest\<rparr>"

definition demo_history :: "WorkflowVersionRecord list \<Rightarrow> WorkflowVersionHistory" where
  "demo_history rs = \<lparr>vh_workflow_id = Id128 (replicate 16 2), vh_records = rs\<rparr>"

lemma demo_appends:
  "append_workflow_version (demo_history []) demo_version = (demo_history [demo_version], Inr ())"
  "append_workflow_version (demo_history [demo_version]) demo_published = (demo_history [demo_version, demo_published], Inr ())"
  by (code_simp, code_simp)

lemma demo_run_moves: "move_run [Running, Completed, WaitingUser] demo_view = (demo_view\<lparr>wv_state := Completed, wv_run_epoch := 2\<rparr>, 2)"
  by code_simp

section \<open>Properties\<close>

text \<open>C16: A run never goes back, and late completions stay out. Whatever states are requested, in any order,
  the run moves along its table, its epoch counts the applied transitions, a settled run does not
  change any more, and a completion that was issued before an applied transition is stale
  afterwards.\<close>

theorem late_completion_is_stale:
  assumes "move_run ts view = (view', n)" "0 < n" "n < 2 ^ 64"
  shows "valid_workflow_run_transition\<^sup>*\<^sup>* (wv_state view) (wv_state view') \<and> wv_run_epoch view' = wv_run_epoch view + of_nat n \<and>
    \<not> is_terminal_run (wv_state view) \<and> admit_workflow_run_completion view' (wv_run_epoch view) = CompletionStale \<and>
    (is_terminal_run (wv_state view') \<longrightarrow> fst (move_run ts' view') = view')"
proof -
  have "(of_nat n :: u64) \<noteq> 0" using assms(2,3) by (simp add: word_of_nat_eq_0_iff nat_dvd_not_less)
  moreover have "\<not> is_terminal_run (wv_state view)"
  proof
    assume terminal: "is_terminal_run (wv_state view)"
    then have "move_run ts view = (view, 0)" for ts
    proof (induction ts)
      case (Cons t ts)
      then show ?case using apply_transition_cases [of view t] by (auto simp: Let_def)
    qed simp
    then show False using assms(1,2) by simp
  qed
  moreover have "is_terminal_run (wv_state view') \<Longrightarrow> fst (move_run ts' view') = view'"
    using move_run_sound [of ts' view'] by (cases "move_run ts' view'") simp
  ultimately show ?thesis using move_run_sound [OF assms(1)] by (auto simp: admit_workflow_run_completion_def)
qed

theorem late_completion_is_stale_witness:
  "admit_workflow_run_completion (fst (move_run [Running, Completed, WaitingUser] demo_view)) (wv_run_epoch demo_view) = CompletionStale \<and>
   fst (move_run [Running, Failed] (fst (move_run [Running, Completed, WaitingUser] demo_view))) = demo_view\<lparr>wv_state := Completed, wv_run_epoch := 2\<rparr>"
  using late_completion_is_stale [OF demo_run_moves, of "[Running, Failed]"] by (auto simp: demo_run_moves is_terminal_run_def simp del: move_run.simps)

text \<open>C17: A run and its task move together. While a task state is a legal carrier of a run state, one
  is settled exactly when the other is; the representative carrier of every run state is a legal
  one; and when the run moves along its table, the task can follow along the task table to the
  representative carrier of the new state, unless it is being cancelled already.\<close>

theorem run_moves_with_its_task:
  assumes "run_task_state_compatible run task"
  shows "(is_terminal_run run \<longleftrightarrow> is_terminal_task task) \<and> run_task_state_compatible run' (task_state_for_run_state run') \<and>
    (valid_workflow_run_transition run run' \<and> task \<noteq> TaskState.Cancelling \<longrightarrow> valid_task_transition\<^sup>*\<^sup>* task (task_state_for_run_state run'))"
proof -
  have "is_terminal_run run \<longleftrightarrow> is_terminal_task task"
    using assms by (cases run) (auto simp: run_task_state_compatible_def is_terminal_run_def is_terminal_task_def task_state_for_run_state_def)
  moreover have "run_task_state_compatible run' (task_state_for_run_state run')"
    by (cases run') (simp_all add: run_task_state_compatible_def is_terminal_run_def task_state_for_run_state_def)
  moreover have "\<not> run_task_state_compatible run task \<or> \<not> valid_workflow_run_transition run run' \<or> task = TaskState.Cancelling \<or>
      task_state_path_exists task (task_state_for_run_state run')"
    using carrier_paths unfolding list_all_iff by (metis in_all_run_states in_all_task_states)
  ultimately show ?thesis using assms task_state_path_exists_iff by blast
qed

theorem run_moves_with_its_task_witness:
  "run_task_state_compatible Running TaskState.Pausing \<and> valid_task_transition\<^sup>*\<^sup>* TaskState.Pausing TaskState.Paused"
  using run_moves_with_its_task [of Running TaskState.Pausing WaitingUser]
  by (simp add: run_task_state_compatible_def is_terminal_run_def task_state_for_run_state_def valid_workflow_run_transition_def)

text \<open>C18: A version history is a chain. Every history that appends build from an empty one has strictly
  increasing versions, each record naming the content of the one before as its parent, evidence
  exactly on validated records, and bounded texts; earlier records never change.\<close>

theorem version_history_chained:
  assumes "vh_records h0 = []" "version_step\<^sup>*\<^sup>* h0 h" "version_step\<^sup>*\<^sup>* h h'"
  shows "version_history_ok h' \<and> prefix (vh_records h) (vh_records h')"
  using versions.reachable_invariant [OF assms(1,2)] versions.steps_invariant [OF assms(3)] versions.steps_progress [OF assms(3)] by blast

theorem version_history_chained_witness:
  "version_history_ok (demo_history [demo_version, demo_published])"
  using version_history_chained [of "demo_history []" "demo_history [demo_version]" "demo_history [demo_version, demo_published]"]
    version_step.intros [OF demo_appends(1)] version_step.intros [OF demo_appends(2)]
  by (auto simp: demo_history_def)

text \<open>A record that was appended is what its digest resolves to, and the newest runnable version if
  it is runnable; other digests resolve as before.\<close>

theorem published_version_resolves:
  assumes "append_workflow_version h r = (h', Inr ())"
  shows "resolve_workflow_version h' (vr_content_digest r) = Inr r \<and>
    (\<forall>d. d \<noteq> vr_content_digest r \<longrightarrow> resolve_workflow_version h' d = resolve_workflow_version h d) \<and>
    latest_runnable_workflow_version h' = (if workflow_version_is_runnable r then Inr r else latest_runnable_workflow_version h)"
  using append_version_cases [OF assms] by (auto simp: resolve_workflow_version_def latest_runnable_workflow_version_def)

theorem published_version_resolves_witness:
  "resolve_workflow_version (demo_history [demo_version, demo_published]) (vr_content_digest demo_version) = Inr demo_published"
  using published_version_resolves [OF demo_appends(2)] by (simp add: demo_published_def)

end
