(* ===== verification/Spec2Isabelle.thy ===== *)
theory Spec2Isabelle
  imports Core_Properties Runtime_Properties Json_Properties Event_Properties World_Properties
    Temporal_Induction Budget_Properties Security_Properties File_Properties Journal_Properties Ledger_Properties Coordinator_Properties
    Stream_Properties Gateway_Properties Action_Dispatcher Workflow_Properties
begin

text \<open>
  \<^bold>\<open>A verification development for Mira\<close>, a C++20 runtime for agents that operate a device
  (\<open>src/\<close>, \<open>include/mira/\<close>). The theories below model the parts of the program that decide: the
  control plane of the runtime, the identifiers and tables all parts share, the JSON and digest
  layer in which every record is written, the event stores in memory and on disk, the action
  journal and the input ledger above them, the interaction coordinator, the world state projection,
  the temporal policy runtime, the readers of model event streams, the model gateway with its
  budget and its provider supervision, the dispatch of input to the device, the runs and versions
  of workflows, and the security policy. Each definition is a translation of the C++ code that it
  names.

  \<^bold>\<open>The parts and how they interact.\<close> A host drives the runtime (\<open>runtime.cpp\<close>) with commands and
  completions; the runtime moves sessions, tasks and operations along fixed transition tables
  (\<open>core_contracts\<close>) and records outcomes. Events go to an event store that hashes canonical
  JSON texts to recognise repeated requests; the file store appends one line for each event and
  rebuilds its index from the lines when a process starts. Three clients use a store through the
  interface \<open>IEventStore\<close>: the action journal, which records that an action is about to run before
  it runs; the input ledger, which admits every input once; and, through the ledger, the
  interaction coordinator, which routes an input of a principal to the runtime, to a waiting task or
  to a question back. The action dispatcher sends an input sequence to the device between the records
  of the journal; the view of a workflow run moves along a table of its own, carried by a task of the
  runtime. The world state is a projection that a host feeds
  with observations, navigation, tool and verification results; the policy runtime reacts to
  tracked entities with rules that are induced from episodes, tested and promoted. The model
  gateway reserves budget from a ledger, asks the providers of the candidate profiles in turn under
  a retry table and a circuit breaker, and settles or releases the reservation; a streaming
  provider feeds the chunks of the network to the parser of its dialect. Tools ask the security policy
  for a decision, and effects that need it for a confirmation of the user.

  \<^bold>\<open>Theories and sources.\<close>
  \<^item> \<open>Mira_Prelude\<close>: integer widths, results (\<open>Result<T>\<close> is a sum, \<open>Inl\<close> the error), loops that stop
    at an error, ordered maps (\<open>std::map\<close>), bounded logs, and the interfaces \<open>ordered_map\<close>,
    \<open>bounded_log\<close>, \<open>codec\<close>, \<open>transition_table\<close> and \<open>step_system\<close>, which the components interpret on
    their own definitions.
  \<^item> \<open>Ascii_Text\<close>, \<open>Text_Stream\<close>, \<open>Core_Contracts\<close>, \<open>Core_Properties\<close>: \<open>include/mira/core_contracts.hpp\<close>,
    \<open>src/support/task_state.cpp\<close>, \<open>ascii_text.hpp\<close> and \<open>content_markers.cpp\<close>: identifiers, errors, the
    state enumerations with their transition tables, the search for paths in the task table, and
    the formatted input of the standard library.
  \<^item> \<open>Runtime_Control\<close>: \<open>src/runtime/runtime.cpp\<close>. The record \<open>Runtime\<close> is the private state of the
    class; every handler is one function, commands are queued and executed one at a time, and the
    answers of environments are arguments. \<open>Runtime_Safety\<close> and \<open>Runtime_Steps\<close> hold the invariant and
    the step relation \<open>rt_step\<close>; \<open>Runtime_Progress\<close> holds what never goes back; \<open>Runtime_Properties\<close>
    the properties.
  \<^item> \<open>Ieee_Double\<close>, \<open>Json\<close>, \<open>Json_Parser\<close>, \<open>Json_Writer\<close>, \<open>Json_Prefix\<close>, \<open>Json_Properties\<close>, \<open>Json_Digest\<close>:
    \<open>src/support/json.cpp\<close>
    with the binary64 operations it needs (comparison, rounding, \<open>%.17g\<close>) as exact integer
    arithmetic on the 64 bits. The parser is the recursive descent of the source; \<open>Json_Prefix\<close> shows
    that a text that was cut off is never accepted.
  \<^item> \<open>Sha256\<close>: the hash inside \<open>src/storage/event_store.cpp\<close> on 32-bit words, its streaming interface
    and the reference it equals.
  \<^item> \<open>Event_Store\<close>, \<open>Event_Properties\<close>: the in-memory store of \<open>src/storage/event_store.cpp\<close>, its append,
    batch and read operations, and the abstract log that they refine.
  \<^item> \<open>File_Store\<close>, \<open>File_Codec\<close>, \<open>File_Recovery\<close>, \<open>File_Runs\<close>, \<open>File_Properties\<close>: the durable store and its
    log records (\<open>src/storage/event_store.cpp\<close>, \<open>event_log_wire.hpp\<close>). The file is its text; a write
    may stop after any byte, and a restart recovers from the text alone.
  \<^item> \<open>Store_Interface\<close>, \<open>Event_Log_Contract\<close>: the interface \<open>IEventStore\<close> and its contract, the locale
    \<open>event_log\<close>, interpreted on the memory store and on the file store.
  \<^item> \<open>Action_Journal\<close>, \<open>Journal_Contract\<close>, \<open>Journal_Properties\<close>: \<open>src/storage/action_journal.cpp\<close>. What the
    journal promises is proved inside \<open>event_log\<close>; the properties are its facts on the file store.
  \<^item> \<open>Action_Dispatcher\<close>: \<open>src/model/action_dispatcher.cpp\<close>. One dispatch over a journal of its own; the
    lease, the clock and the environment answer through arguments, the calls of the environment are a
    log. Its lemmas are proved inside \<open>event_log\<close> as well.
  \<^item> \<open>Workflow_Run\<close>, \<open>Workflow_Properties\<close>: \<open>src/workflow/workflow_run.cpp\<close> and \<open>workflow_versioning.cpp\<close>: the
    state table of a run, its carrier states in the task table, the admission of completions, the
    policy check and the version history.
  \<^item> \<open>Flat_Payload\<close>, \<open>Interaction_Ledger\<close>, \<open>Ledger_Contract\<close>, \<open>Ledger_Properties\<close>:
    \<open>src/interaction/interaction_events.cpp\<close> and \<open>input_ledger.cpp\<close>: the stages of an input, their events,
    the index and its rebuild, again inside \<open>event_log\<close>.
  \<^item> \<open>Interaction_Routing\<close>, \<open>Interaction_Coordinator\<close>, \<open>Coordinator_Steps\<close>, \<open>Coordinator_Properties\<close>:
    \<open>interaction_routing.cpp\<close> and \<open>interaction_coordinator.cpp\<close>, composed with the runtime and the ledger.
    \<open>co_step\<close> cuts a submission into guarded steps.
  \<^item> \<open>World_State\<close>, \<open>World_Wire\<close>, \<open>World_Invariants\<close>, \<open>World_Properties\<close>: \<open>src/worldstate/\<close>, the
    operators of the projection, the change ring, eviction and the JSON form.
  \<^item> \<open>Temporal_Policy\<close>, \<open>Temporal_Runtime\<close>, \<open>Temporal_Invariants\<close>, \<open>Temporal_Properties\<close>,
    \<open>Temporal_Induction\<close>: \<open>src/temporal/temporal_policy.cpp\<close>. The record \<open>ReactivePolicyRuntime\<close> is the
    private state of the class; the operations that change it are the constructors of \<open>PolicyOp\<close>.
  \<^item> \<open>Sse_Framing\<close>, \<open>Sse_Reading\<close>: the model errors of \<open>src/model/model_contracts.cpp\<close> and the framing
    layer of \<open>src/model/model_sse.cpp\<close>, with the reading of a whole text that it equals.
  \<^item> \<open>Response_Stream\<close>, \<open>Chat_Stream\<close>, \<open>Message_Stream\<close>: the three stream parsers of \<open>model_sse.cpp\<close>,
    \<open>model_chat_sse.cpp\<close> and \<open>model_anthropic_sse.cpp\<close>. \<open>Stream_Consumer\<close> holds the loop of
    \<open>model_provider.cpp\<close> and the interface \<open>stream_reducer\<close>, interpreted on each parser; \<open>Stream_Bounds\<close> and
    \<open>Stream_Properties\<close> hold their invariants and the properties.
  \<^item> \<open>Model_Budget\<close>, \<open>Budget_Properties\<close>: \<open>src/model/model_budget.cpp\<close>, the price table, the token
    estimate and the ledger with its accounts on 64-bit counters.
  \<^item> \<open>Provider_Supervisor\<close>, \<open>Model_Gateway\<close>, \<open>Gateway_Properties\<close>: \<open>src/model/model_supervisor.cpp\<close> and
    \<open>model_gateway.cpp\<close>: circuits, the retry table, and a call over its candidates on the budget ledger.
  \<^item> \<open>Security\<close>, \<open>Security_Properties\<close>: \<open>src/security/security.cpp\<close>, the policy decision, the
    confirmation authority, redaction, the endpoint filter and the scan for injected instructions.

  \<^bold>\<open>What the lemmas show.\<close> Invariants by induction over runs, through \<open>step_system\<close>, for the runtime,
  the event store, the world state, the policy runtime, the budget ledger and the confirmation
  authority; for the runtime also the exact
  conditions of completions and admissions, the effect of takeover and of shutdown, and that
  queued commands settle. The event store refines a list of accepted requests; the file store keeps
  every acknowledged event over torn writes and restarts. An action whose start was acknowledged is
  never recovered as not started, the dispatcher calls the environment only behind such a record, and
  an uncertain execution releases the input; a run and its task move together, late completions
  are stale, and a version history is a chain; an input is admitted once, and its acknowledged stages survive;
  the coordinator keeps its bounds, and principals do not see each other. The JSON parser
  terminates, respects its limits and inverts the writer on values without floating-point
  numbers. World and rule values read back from their JSON
  form. The policy runtime acts only on one tested rule, and fails closed on conflicts. How the
  network cuts a stream does not matter, encoded events read back, and a response is only returned
  from a stream that was complete. A call of the gateway asks providers a bounded number of times
  and never again after an ambiguous completion. A task
  budget is never exceeded by what is held; a confirmation is accepted once, and only for the
  challenge that was issued. Some
  theorems record behaviour that a reader may not expect: operations admitted during a
  takeover after a resume, a journal that prepares a dispatched action again after a restart, a
  store that loses events beyond its capacity, inputs dropped behind a refused one, circuits that
  never close again, reservations that open circuits leave held, a quotation mark left unescaped
  in text that is not UTF-8.

  \<^bold>\<open>Bounds and fuel.\<close> The path search of the task table runs at most sixteen rounds, the number of
  states; it is proved to decide reachability. The parser recurses on a budget of the length of
  its input plus one, and no input exhausts it. Eviction and pruning loop at most as often as there
  are entities, since each round removes one. The pages of a journal recovery decrease what is left
  of the bound on the scan; the pages of a ledger rebuild are an option, and are proved to
  return on every store that keeps its contract. The lines of a buffer decrease its length, the
  attempts of a provider what is left of their budget. All other recursion is structural or on lists.
  The payloads of the interaction layer are shown to read back for texts of at most 65536 bytes,
  which all its texts are.

  \<^bold>\<open>Conventions.\<close> Counts of objects in memory are natural numbers; counters and ticks keep their
  width and wrap. Time stamps are integers in nanoseconds, durations of the gateway in
  milliseconds; clock readings, generated identifiers and the answers of providers, decoders,
  environments and files are arguments. A \<open>std::unordered_map\<close> is a list in an
  order the properties do not depend on. Event sinks are logs. Locks and threads are not modelled:
  every public operation holds the lock of its object, so that a run is a sequence of operations.

  \<^bold>\<open>Not modelled.\<close> Adapters, sockets, TLS, JNI and the calls of the file system (I/O glue), SQL
  statements, the wire formats of the providers and their decoders (arguments of the stream
  parsers), the choice of the candidate profiles (an argument of the gateway), the agent and
  conversation loops around provider calls, the workflow engine that interprets the steps of a
  definition, tool modules, context
  and memory, checkpoints, floating-point geometry, \<open>path_within_root\<close>, which
  asks the file system, and texts with floating-point numbers on the wire.
\<close>

end
